(* ===== verification/Prelude.thy ===== *)
theory Prelude
  imports Main "HOL-Library.Word"
begin

text \<open>
  Shared vocabulary of the development: the machine integers and byte strings of the Go
  sources, the faults a Go function can end in, sequencing of fallible steps, and the
  generic facts on words and lists that the component theories use.
\<close>

unbundle bit_operations_syntax

section \<open>Machine types\<close>

type_synonym u64 = "64 word"
type_synonym u32 = "32 word"
type_synonym byte = "8 word"

text \<open>
  A Go function that does not return normally ends in a fault: a panic (explicit or from
  the run-time, with the message of the source where it has one), a self-deadlock on a
  lock that the same transaction already holds, or a loop that did not finish within the
  iterations the model granted it.
\<close>

datatype fault = Panic string | Deadlock | NoFuel

type_synonym 'a res = "fault + 'a"

named_theorems fault_simps

definition bnd :: "'a res \<Rightarrow> ('a \<Rightarrow> 'b res) \<Rightarrow> 'b res" where
  "bnd m f = (case m of Inl e \<Rightarrow> Inl e | Inr x \<Rightarrow> f x)"

definition guard :: "bool \<Rightarrow> string \<Rightarrow> unit res" where
  "guard b msg = (if b then Inr () else Inl (Panic msg))"

lemma bnd_Inr [simp]: "bnd (Inr x) f = f x"
  by (simp add: bnd_def)

lemma bnd_Inl [simp]: "bnd (Inl e) f = Inl e"
  by (simp add: bnd_def)

lemma bnd_eq_Inr: "bnd m f = Inr y \<longleftrightarrow> (\<exists>x. m = Inr x \<and> f x = Inr y)"
  by (cases m) auto

lemma bnd_InrE:
  assumes "bnd m f = Inr y"
  obtains x where "m = Inr x" and "f x = Inr y"
  using assms by (auto simp: bnd_eq_Inr)

lemma bnd_assoc: "bnd (bnd m f) g = bnd m (\<lambda>x. bnd (f x) g)"
  by (cases m) auto

lemma bnd_cong [fundef_cong]:
  "m = m' \<Longrightarrow> (\<And>x. m' = Inr x \<Longrightarrow> f x = f' x) \<Longrightarrow> bnd m f = bnd m' f'"
  by (cases m') auto

lemma guard_True [simp]: "guard True msg = Inr ()"
  by (simp add: guard_def)

lemma guard_False [simp]: "guard False msg = Inl (Panic msg)"
  by (simp add: guard_def)

lemma guard_eq_Inr [simp]: "guard b msg = Inr u \<longleftrightarrow> b"
  by (simp add: guard_def)

declare bnd_assoc [fault_simps] bnd_eq_Inr [fault_simps]

text \<open>Go slices: reading or storing outside the slice is a run-time panic.\<close>

definition slice_get :: "'a list \<Rightarrow> u64 \<Rightarrow> 'a res" where
  "slice_get xs i =
     (if unat i < length xs then Inr (xs ! unat i) else Inl (Panic ''index out of range''))"

definition slice_put :: "'a list \<Rightarrow> u64 \<Rightarrow> 'a \<Rightarrow> 'a list res" where
  "slice_put xs i v =
     (if unat i < length xs then Inr (xs[unat i := v]) else Inl (Panic ''index out of range''))"

lemma slice_get_ok [simp]: "unat i < length xs \<Longrightarrow> slice_get xs i = Inr (xs ! unat i)"
  by (simp add: slice_get_def)

lemma slice_put_ok [simp]: "unat i < length xs \<Longrightarrow> slice_put xs i v = Inr (xs[unat i := v])"
  by (simp add: slice_put_def)

section \<open>Unsigned arithmetic without wrap-around\<close>

named_theorems nowrap

lemma unat_lt64: "unat (x :: u64) < 18446744073709551616"
  using unsigned_less [of x, where ?'a = nat] by simp

lemma unat_add_nowrap [nowrap]:
  "unat (x :: u64) + unat y < 18446744073709551616 \<Longrightarrow> unat (x + y) = unat x + unat y"
  by (simp add: unat_word_ariths)

lemma unat_sub_nowrap [nowrap]: "unat (y :: u64) \<le> unat x \<Longrightarrow> unat (x - y) = unat x - unat y"
  by (simp add: unat_sub word_le_nat_alt)

lemma unat_mult_nowrap [nowrap]:
  "unat (x :: u64) * unat y < 18446744073709551616 \<Longrightarrow> unat (x * y) = unat x * unat y"
  by (simp add: unat_word_ariths)

lemma u64_eqI: "unat (x :: u64) = unat y \<Longrightarrow> x = y"
  by (simp add: word_eq_iff_unsigned [where ?'a = nat])

lemma unat_of_nat_u64 [nowrap]:
  "n < 18446744073709551616 \<Longrightarrow> unat (of_nat n :: u64) = n"
  by (simp add: unat_of_nat)

lemma of_nat_unat_u64: "unat (x :: u64) = n \<Longrightarrow> x = of_nat n"
  by auto

lemma u64_gt_0: "(x :: u64) > 0 \<longleftrightarrow> x \<noteq> 0"
  by (simp add: word_neq_0_conv)

lemma unat_ucast_u32 [simp]: "unat (ucast (x :: u32) :: u64) = unat x"
proof -
  have "unat x < 2 ^ 32" using unsigned_less [of x, where ?'a = nat] by simp
  then show ?thesis by (simp add: unsigned_ucast_eq take_bit_nat_eq_self_iff)
qed

lemma ucast_ucast_u32 [simp]: "ucast (ucast (x :: u32) :: u64) = x"
  by (rule bit_word_eqI) (simp add: bit_simps)

end
