(* ===== verification/Cache.thy ===== *)
theory Cache
  imports Prelude
begin

text \<open>
  \<^verbatim>\<open>cache/cache.go\<close>: the cache of inodes, a map from numbers to slots with least-recently-used
  eviction. An element of the \<^verbatim>\<open>container/list\<close> is named by the identifier of the entry it
  holds; \<open>lru\<close> tells whether the entry has an element. The mutex of the cache makes every call
  atomic.
\<close>

record 'o Cslot =
  Obj :: "'o option"

record 'o entry =
  slot :: "'o Cslot"
  lru :: bool
  entry_id :: u64

record 'o Cache =
  entries :: "u64 \<rightharpoonup> 'o entry"
  lru_list :: "u64 list"
  cache_sz :: u64
  cnt :: u64

definition MkCache :: "u64 \<Rightarrow> 'o Cache" where
  "MkCache sz = \<lparr>entries = Map.empty, lru_list = [], cache_sz = sz, cnt = 0\<rparr>"

definition evict :: "'o Cache \<Rightarrow> 'o Cache res" where
  "evict c =
     (case lru_list c of
        [] \<Rightarrow> Inl (Panic ''evict'')
      | e # rest \<Rightarrow>
          Inr (c\<lparr>lru_list := rest, entries := (entries c)(e := None), cnt := cnt c - 1\<rparr>))"

definition LookupSlot :: "u64 \<Rightarrow> 'o Cache \<Rightarrow> ('o Cslot \<times> 'o Cache) res" where
  "LookupSlot i c =
     (case entries c i of
        Some e \<Rightarrow>
          if i \<noteq> entry_id e then Inl (Panic ''LookupSlot'')
          else if lru e then Inr (slot e, c\<lparr>lru_list := remove1 i (lru_list c) @ [i]\<rparr>)
          else Inr (slot e, c)
      | None \<Rightarrow>
          bnd (if cnt c \<ge> cache_sz c then evict c else Inr c) (\<lambda>c.
          let enew = \<lparr>slot = \<lparr>Obj = None\<rparr>, lru = True, entry_id = i\<rparr>
          in Inr (slot enew,
                  c\<lparr>entries := (entries c)(i \<mapsto> enew), lru_list := lru_list c @ [i], cnt := cnt c + 1\<rparr>)))"

text \<open>The store \<^verbatim>\<open>cslot.Obj = x\<close> through the pointer that \<^verbatim>\<open>LookupSlot\<close> returned for \<open>i\<close>.\<close>

definition set_slot :: "u64 \<Rightarrow> 'o \<Rightarrow> 'o Cache \<Rightarrow> 'o Cache" where
  "set_slot i x c =
     c\<lparr>entries := (entries c)(i := map_option (\<lambda>e. e\<lparr>slot := \<lparr>Obj = Some x\<rparr>\<rparr>) (entries c i))\<rparr>"

section \<open>Invariant and abstract behaviour\<close>

definition cache_inv :: "'o Cache \<Rightarrow> bool" where
  "cache_inv c \<longleftrightarrow>
     set (lru_list c) = dom (entries c) \<and> distinct (lru_list c) \<and>
     (\<forall>i e. entries c i = Some e \<longrightarrow> entry_id e = i \<and> lru e) \<and>
     unat (cnt c) = length (lru_list c) \<and> cnt c \<le> cache_sz c \<and> 0 < cache_sz c"

text \<open>The cached objects, from the least to the most recently used.\<close>

definition cache_abs :: "'o Cache \<Rightarrow> (u64 \<times> 'o option) list" where
  "cache_abs c = map (\<lambda>i. (i, Obj (slot (the (entries c i))))) (lru_list c)"

fun lru_lookup :: "nat \<Rightarrow> u64 \<Rightarrow> (u64 \<times> 'o option) list \<Rightarrow> 'o option \<times> (u64 \<times> 'o option) list" where
  "lru_lookup n i l =
     (case map_of l i of
        Some x \<Rightarrow> (x, filter (\<lambda>p. fst p \<noteq> i) l @ [(i, x)])
      | None \<Rightarrow> (None, (if n \<le> length l then tl l else l) @ [(i, None)]))"

lemma map_of_cache_abs:
  "cache_inv c \<Longrightarrow> map_of (cache_abs c) i = map_option (\<lambda>e. Obj (slot e)) (entries c i)"
  by (cases "entries c i")
     (auto simp: cache_abs_def cache_inv_def map_of_eq_None_iff map_of_map_keys map_of_map_restrict dom_def restrict_map_def)

lemma MkCache_inv: "0 < sz \<Longrightarrow> cache_inv (MkCache sz)"
  by (simp add: cache_inv_def MkCache_def)

lemma evict_ok:
  assumes inv: "cache_inv c" and full: "cache_sz c \<le> cnt c"
  shows "\<exists>c'. evict c = Inr c' \<and> cache_inv c' \<and> cache_abs c' = tl (cache_abs c) \<and> cache_sz c' = cache_sz c \<and>
           cnt c' < cache_sz c' \<and> (\<forall>i. entries c i = None \<longrightarrow> entries c' i = None)"
proof -
  have n: "unat (cnt c) = length (lru_list c)" and "0 < cache_sz c" using inv by (auto simp: cache_inv_def)
  then have pos: "0 < cnt c" using full by (meson order_less_le_trans)
  then obtain e rest where l: "lru_list c = e # rest"
    using n by (cases "lru_list c") (auto simp: word_less_nat_alt)
  have c1: "unat (cnt c - 1) = length rest" using pos n l by (simp add: unat_minus_one)
  have lt: "cnt c - 1 < cache_sz c"
    using c1 inv l n by (simp add: cache_inv_def word_less_nat_alt word_le_nat_alt)
  let ?c = "c\<lparr>lru_list := rest, entries := (entries c)(e := None), cnt := cnt c - 1\<rparr>"
  have "cache_inv ?c" using inv l c1 lt by (auto simp: cache_inv_def)
  moreover have "cache_abs ?c = tl (cache_abs c)" using inv l by (auto simp: cache_abs_def cache_inv_def)
  ultimately show ?thesis using l lt by (auto simp: evict_def)
qed

lemma insert_ok:
  fixes c :: "'o Cache"
  assumes inv: "cache_inv c" and new: "entries c i = None" and room: "cnt c < cache_sz c"
  defines "c' \<equiv> c\<lparr>entries := (entries c)(i \<mapsto> \<lparr>slot = \<lparr>Obj = None\<rparr>, lru = True, entry_id = i\<rparr>),
                   lru_list := lru_list c @ [i], cnt := cnt c + 1\<rparr>"
  shows "cache_inv c' \<and> cache_abs c' = cache_abs c @ [(i, None)]"
proof -
  have u: "unat (cnt c + 1) = unat (cnt c) + 1"
    using room unat_lt64 [of "cache_sz c"] by (simp add: nowrap word_less_nat_alt)
  have "i \<notin> set (lru_list c)" using inv new by (auto simp: cache_inv_def)
  then show ?thesis
    using inv new room u by (auto simp: cache_inv_def cache_abs_def c'_def word_le_nat_alt word_less_nat_alt)
qed

lemma hit_ok:
  assumes inv: "cache_inv c" and hit: "entries c i = Some e"
  shows "cache_inv (c\<lparr>lru_list := remove1 i (lru_list c) @ [i]\<rparr>)"
    and "cache_abs (c\<lparr>lru_list := remove1 i (lru_list c) @ [i]\<rparr>) =
           filter (\<lambda>p. fst p \<noteq> i) (cache_abs c) @ [(i, Obj (slot e))]"
proof -
  have d: "distinct (lru_list c)" and m: "i \<in> set (lru_list c)"
    using inv hit by (auto simp: cache_inv_def)
  show "cache_inv (c\<lparr>lru_list := remove1 i (lru_list c) @ [i]\<rparr>)"
    using inv d m length_pos_if_in_set [OF m] hit by (auto simp: cache_inv_def length_remove1)
  show "cache_abs (c\<lparr>lru_list := remove1 i (lru_list c) @ [i]\<rparr>) =
          filter (\<lambda>p. fst p \<noteq> i) (cache_abs c) @ [(i, Obj (slot e))]"
    using d hit by (simp add: cache_abs_def filter_map comp_def distinct_remove1_removeAll removeAll_filter_not_eq)
      (metis (mono_tags, lifting) filter_cong)
qed

text \<open>
  The contract of the cache towards the transaction layer, and its discharge for the code: a
  lookup keeps the invariant, never panics and behaves as least-recently-used lookup.
\<close>

locale lru_cache =
  fixes inv :: "'c \<Rightarrow> bool" and view :: "'c \<Rightarrow> (u64 \<times> 'o option) list" and size :: "'c \<Rightarrow> nat"
    and lookup :: "u64 \<Rightarrow> 'c \<Rightarrow> ('o Cslot \<times> 'c) res"
  assumes lookup_ok: "inv c \<Longrightarrow> \<exists>s c'. lookup i c = Inr (s, c') \<and> inv c' \<and> size c' = size c \<and>
                        (Obj s, view c') = lru_lookup (size c) i (view c)"
begin

text \<open>The object just looked up is the one a second lookup finds.\<close>

lemma lookup_again:
  assumes "inv c" and "lookup i c = Inr (s, c')"
  shows "map_of (view c') i = Some (Obj s)"
proof -
  have l: "(Obj s, view c') = lru_lookup (size c) i (view c)"
    using lookup_ok [OF assms(1), of i] assms(2) by auto
  have none: "map_of (filter (\<lambda>p. fst p \<noteq> i) l) i = None" for l :: "(u64 \<times> 'o option) list"
    by (auto simp: map_of_eq_None_iff)
  have "map_of (tl (view c)) i = None" if "map_of (view c) i = None"
    using that by (cases "view c") (auto split: if_splits)
  then show ?thesis
    using l none by (auto simp: map_add_def split: option.splits)
qed

text \<open>A lookup drops no object but the least recently used one, and that only on a miss in a full cache.\<close>

lemma lookup_keeps:
  assumes "inv c" and "lookup i c = Inr (s, c')" and "(j, x) \<in> set (view c)" and "j \<noteq> i"
    and "map_of (view c) i \<noteq> None \<or> length (view c) < size c \<or> (j, x) \<in> set (tl (view c))"
  shows "(j, x) \<in> set (view c')"
proof -
  have "(Obj s, view c') = lru_lookup (size c) i (view c)"
    using lookup_ok [OF assms(1), of i] assms(2) by auto
  then show ?thesis using assms(3-5) by (auto split: option.splits if_splits)
qed

end

interpretation icache: lru_cache cache_inv cache_abs "\<lambda>c. unat (cache_sz c)" LookupSlot
proof unfold_locales
  fix c :: "'o Cache" and i
  assume inv: "cache_inv c"
  have len: "length (cache_abs c) = unat (cnt c)" using inv by (simp add: cache_abs_def cache_inv_def)
  show "\<exists>s c'. LookupSlot i c = Inr (s, c') \<and> cache_inv c' \<and> unat (cache_sz c') = unat (cache_sz c) \<and>
          (Obj s, cache_abs c') = lru_lookup (unat (cache_sz c)) i (cache_abs c)"
  proof (cases "entries c i")
    case (Some e)
    then have "entry_id e = i" "lru e" using inv by (auto simp: cache_inv_def)
    with Some hit_ok [OF inv Some] map_of_cache_abs [OF inv, of i] show ?thesis
      by (simp add: LookupSlot_def)
  next
    case None
    then have m: "map_of (cache_abs c) i = None" using map_of_cache_abs [OF inv, of i] by simp
    show ?thesis
    proof (cases "cache_sz c \<le> cnt c")
      case True
      obtain c1 where e: "evict c = Inr c1" "cache_inv c1" "cache_abs c1 = tl (cache_abs c)"
        "cache_sz c1 = cache_sz c" "cnt c1 < cache_sz c1" "entries c1 i = None"
        using evict_ok [OF inv True] None by auto
      from insert_ok [OF e(2,6,5)] None True m len e show ?thesis
        by (simp add: LookupSlot_def word_le_nat_alt)
    next
      case False
      then have "cnt c < cache_sz c" by simp
      from insert_ok [OF inv None this] None False m len show ?thesis
        by (simp add: LookupSlot_def word_le_nat_alt)
    qed
  qed
qed

lemma set_slot_inv: "cache_inv c \<Longrightarrow> cache_inv (set_slot i x c)"
  by (auto simp: cache_inv_def set_slot_def)

lemma set_slot_lookup:
  "cache_inv c \<Longrightarrow> entries c i \<noteq> None \<Longrightarrow> map_of (cache_abs (set_slot i x c)) j =
     (if j = i then Some (Some x) else map_of (cache_abs c) j)"
  using map_of_cache_abs [OF set_slot_inv, of c i x j] map_of_cache_abs [of c j]
  by (auto simp: set_slot_def)

section \<open>Properties\<close>

text \<open>C38: the inode cache is a least-recently-used cache. A lookup never panics and keeps the invariant; seen as the
  list of cached objects from the least to the most recently used, it moves the object that it finds to
  the end, or adds an empty slot at the end and drops the first object only if the cache is full. So the
  cache never holds more objects than its size, and a second lookup finds the same slot.\<close>

theorem lookup_is_lru:
  assumes inv: "cache_inv c"
  shows "\<exists>s c'. LookupSlot i c = Inr (s, c') \<and> cache_inv c' \<and> cache_sz c' = cache_sz c \<and>
     (Obj s, cache_abs c') = lru_lookup (unat (cache_sz c)) i (cache_abs c) \<and>
     length (cache_abs c') \<le> unat (cache_sz c') \<and> map_of (cache_abs c') i = Some (Obj s)"
proof -
  obtain s c' where l: "LookupSlot i c = Inr (s, c')" "cache_inv c'" "unat (cache_sz c') = unat (cache_sz c)"
      "(Obj s, cache_abs c') = lru_lookup (unat (cache_sz c)) i (cache_abs c)"
    using icache.lookup_ok [OF inv, of i] by blast
  have "length (cache_abs c') \<le> unat (cache_sz c')"
    using l(2) by (simp add: cache_abs_def cache_inv_def word_le_nat_alt)
  moreover have "cache_sz c' = cache_sz c" by (rule u64_eqI [OF l(3)])
  ultimately show ?thesis using l icache.lookup_again [OF inv l(1)] by blast
qed

theorem lookup_is_lru_witness:
  "\<exists>s c'. LookupSlot 7 (MkCache 2 :: nat Cache) = Inr (s, c') \<and> cache_abs c' = [(7, None)]"
proof -
  have "cache_inv (MkCache 2 :: nat Cache)" by (rule MkCache_inv) simp
  from lookup_is_lru [OF this, of 7] show ?thesis by (auto simp: MkCache_def cache_abs_def)
qed

end
