(* ===== verification/GoLib.thy ===== *)
theory GoLib
  imports Prelude
begin

text \<open>
  The Go packages outside the repository that the server calls: go-journal
  (\<^verbatim>\<open>addr\<close>, \<^verbatim>\<open>alloc\<close>, \<^verbatim>\<open>buf\<close>, \<^verbatim>\<open>common\<close>, \<^verbatim>\<open>jrnl\<close>, \<^verbatim>\<open>lockmap\<close>, \<^verbatim>\<open>obj\<close>, \<^verbatim>\<open>util\<close>), the
  disk interface of goose's \<^verbatim>\<open>primitive\<close>, the \<^verbatim>\<open>marshal\<close> encoder and \<^verbatim>\<open>std\<close>.
  They are one record of constants and functions, the first argument of every definition
  that uses them; their states (log, open transaction, allocator, lock map, disk) are type
  variables. What the server relies on is stated as locales, one per package.
\<close>

section \<open>The interface\<close>

text \<open>An object address of the journal: block number and bit offset.\<close>

record addr =
  Blkno :: u64
  Off :: u64

text \<open>The calls that a use of \<^verbatim>\<open>marshal.Enc\<close> makes between \<^verbatim>\<open>NewEnc\<close> and \<^verbatim>\<open>Finish\<close>.\<close>

datatype mfield = PutInt u64 | PutInt32 u32 | PutInts "u64 list" | PutBytes "byte list"

fun msize :: "mfield \<Rightarrow> nat" where
  "msize (PutInt x) = 8"
| "msize (PutInt32 x) = 4"
| "msize (PutInts xs) = 8 * length xs"
| "msize (PutBytes bs) = length bs"

text \<open>
  \<^verbatim>\<open>ReadBuf\<close> returns the contents of the transaction's buffer for an object; \<open>PutBuf\<close> is a
  store through that buffer followed by \<^verbatim>\<open>Buf.SetDirty\<close>. A decoder is the list of the bytes it
  has not consumed. \<^verbatim>\<open>Acquire\<close> is \<open>None\<close> where the call would block. \<open>time_Now i\<close> is
  the \<open>i\<close>-th reading of the clock (Unix seconds and nanoseconds) during a call. \<^verbatim>\<open>MkLog\<close> opens the
  log of a disk and recovers it: the log and the recovered disk; the log shares the disk, and
  \<open>log_Reread log d\<close> is the log after direct writes have made the disk \<open>d\<close>.
\<close>

record ('log, 'op, 'alc, 'lm, 'd) golib =
  BlockSize :: u64
  NBITBLOCK :: u64
  INODESZ :: u64
  INODEBLK :: u64
  NINODEBITMAP :: u64
  LOGSIZE :: u64
  ROOTINUM :: u64
  NULLINUM :: u64
  NULLBNUM :: u64
  LogBlocks :: u64
  LogBytes :: u64
  MkAddr :: "u64 \<Rightarrow> u64 \<Rightarrow> addr"
  MkBitAddr :: "u64 \<Rightarrow> u64 \<Rightarrow> addr"
  RoundUp :: "u64 \<Rightarrow> u64 \<Rightarrow> u64"
  uMin :: "u64 \<Rightarrow> u64 \<Rightarrow> u64"
  SumOverflows :: "u64 \<Rightarrow> u64 \<Rightarrow> bool"
  jrnl_Begin :: "'log \<Rightarrow> 'op"
  ReadBuf :: "'op \<Rightarrow> addr \<Rightarrow> u64 \<Rightarrow> byte list"
  PutBuf :: "'op \<Rightarrow> addr \<Rightarrow> u64 \<Rightarrow> byte list \<Rightarrow> 'op"
  OverWrite :: "'op \<Rightarrow> addr \<Rightarrow> u64 \<Rightarrow> byte list \<Rightarrow> 'op"
  NDirty :: "'op \<Rightarrow> u64"
  CommitWait :: "'op \<Rightarrow> bool \<Rightarrow> 'log \<Rightarrow> bool \<times> 'log"
  obj_Flush :: "'log \<Rightarrow> bool \<times> 'log"
  BnumGet :: "byte list \<Rightarrow> u64 \<Rightarrow> u64 res"
  BnumPut :: "byte list \<Rightarrow> u64 \<Rightarrow> u64 \<Rightarrow> byte list res"
  MkAlloc :: "byte list \<Rightarrow> 'alc"
  AllocNum :: "'alc \<Rightarrow> u64 \<times> 'alc"
  FreeNum :: "'alc \<Rightarrow> u64 \<Rightarrow> 'alc"
  MkLockMap :: 'lm
  Acquire :: "'lm \<Rightarrow> u64 \<Rightarrow> 'lm option"
  Release :: "'lm \<Rightarrow> u64 \<Rightarrow> 'lm"
  Enc :: "u64 \<Rightarrow> mfield list \<Rightarrow> byte list res"
  GetInt :: "byte list \<Rightarrow> (u64 \<times> byte list) res"
  GetInt32 :: "byte list \<Rightarrow> (u32 \<times> byte list) res"
  GetInts :: "u64 \<Rightarrow> byte list \<Rightarrow> (u64 list \<times> byte list) res"
  GetBytes :: "u64 \<Rightarrow> byte list \<Rightarrow> (byte list \<times> byte list) res"
  BytesEqual :: "byte list \<Rightarrow> byte list \<Rightarrow> bool"
  disk_Size :: "'d \<Rightarrow> u64"
  disk_Read :: "'d \<Rightarrow> u64 \<Rightarrow> byte list"
  disk_Write :: "'d \<Rightarrow> u64 \<Rightarrow> byte list \<Rightarrow> 'd"
  time_Now :: "nat \<Rightarrow> u64 \<times> u64"
  MkLog :: "'d \<Rightarrow> 'log \<times> 'd"
  obj_Shutdown :: "'log \<Rightarrow> 'log"
  log_Reread :: "'log \<Rightarrow> 'd \<Rightarrow> 'log"
  MkBufLoad :: "addr \<Rightarrow> u64 \<Rightarrow> byte list \<Rightarrow> byte list"
  WriteDirect :: "addr \<Rightarrow> u64 \<Rightarrow> byte list \<Rightarrow> 'd \<Rightarrow> 'd"

section \<open>What the server relies on\<close>

text \<open>Constants and address arithmetic of \<^verbatim>\<open>common\<close>, \<^verbatim>\<open>jrnl\<close>, \<^verbatim>\<open>addr\<close>, \<^verbatim>\<open>util\<close> and \<^verbatim>\<open>disk\<close>.\<close>

locale common_lib =
  fixes G :: "('log, 'op, 'alc, 'lm, 'd) golib"
  assumes BlockSize [simp]: "BlockSize G = 4096"
    and NBITBLOCK [simp]: "NBITBLOCK G = 32768"
    and INODESZ [simp]: "INODESZ G = 128"
    and INODEBLK [simp]: "INODEBLK G = 32"
    and NINODEBITMAP [simp]: "NINODEBITMAP G = 1"
    and LOGSIZE [simp]: "LOGSIZE G = 513"
    and ROOTINUM [simp]: "ROOTINUM G = 1"
    and NULLINUM [simp]: "NULLINUM G = 0"
    and NULLBNUM [simp]: "NULLBNUM G = 0"
    and LogBlocks [simp]: "LogBlocks G = 511"
    and LogBytes [simp]: "LogBytes G = 2093056"
    and MkAddr [simp]: "MkAddr G b off = \<lparr>Blkno = b, Off = off\<rparr>"
    and MkBitAddr [simp]: "MkBitAddr G start n = \<lparr>Blkno = start + n div 32768, Off = n mod 32768\<rparr>"
    and RoundUp: "unat n + unat sz \<le> 2 ^ 64 \<Longrightarrow> sz \<noteq> 0 \<Longrightarrow>
                    unat (RoundUp G n sz) = (unat n + unat sz - 1) div unat sz"
    and uMin [simp]: "uMin G x y = min x y"
    and SumOverflows [simp]: "SumOverflows G x y \<longleftrightarrow> 2 ^ 64 \<le> unat x + unat y"

text \<open>
  \<^verbatim>\<open>marshal\<close>: an encoder of size \<open>sz\<close> lays the fields out one after the other and pads to
  \<open>sz\<close> bytes; a decoder over an encoding yields the fields in the order they were put, and a decoder over
  any bytes takes what it yields from them.
\<close>

locale marshal_lib =
  fixes G :: "('log, 'op, 'alc, 'lm, 'd) golib"
  assumes enc_fits: "sum_list (map msize fs) \<le> unat sz \<Longrightarrow> \<exists>b. Enc G sz fs = Inr b \<and> length b = unat sz"
    and get_int: "Enc G sz (PutInt x # fs) = Inr b \<Longrightarrow>
                    \<exists>b'. GetInt G b = Inr (x, b') \<and> Enc G (sz - 8) fs = Inr b'"
    and get_int32: "Enc G sz (PutInt32 y # fs) = Inr b \<Longrightarrow>
                    \<exists>b'. GetInt32 G b = Inr (y, b') \<and> Enc G (sz - 4) fs = Inr b'"
    and get_ints: "Enc G sz (PutInts xs # fs) = Inr b \<Longrightarrow> unat n = length xs \<Longrightarrow>
                    \<exists>b'. GetInts G n b = Inr (xs, b') \<and> Enc G (sz - 8 * n) fs = Inr b'"
    and get_bytes: "Enc G sz (PutBytes bs # fs) = Inr b \<Longrightarrow> unat n = length bs \<Longrightarrow>
                    \<exists>b'. GetBytes G n b = Inr (bs, b') \<and> Enc G (sz - n) fs = Inr b'"
    and get_int_len: "GetInt G b = Inr (x, b') \<Longrightarrow> length b = 8 + length b'"
    and get_bytes_len: "GetBytes G n b = Inr (bs, b') \<Longrightarrow> length b = length bs + length b'"
    and BytesEqual [simp]: "BytesEqual G u v \<longleftrightarrow> u = v"

text \<open>
  \<^verbatim>\<open>jrnl\<close> and \<^verbatim>\<open>buf\<close>: a transaction reads its own writes; a write to one object leaves the
  others as they are (objects of one block have one size and are aligned to it; a bit object
  is the bit of its byte). \<open>on log op\<close> says that \<open>op\<close> was begun on \<open>log\<close> and that no other
  transaction has committed since; a commit installs all writes or none.
\<close>

locale jrnl_lib =
  fixes G :: "('log, 'op, 'alc, 'lm, 'd) golib"
    and on :: "'log \<Rightarrow> 'op \<Rightarrow> bool"
  assumes read_len: "8 dvd unat sz \<Longrightarrow> length (ReadBuf G op a sz) = unat sz div 8"
    and read_bit_len: "length (ReadBuf G op a 1) = 1"
    and ow_same: "unat sz = 8 * length d \<Longrightarrow> ReadBuf G (OverWrite G op a sz d) a sz = d"
    and ow_block: "Blkno a \<noteq> Blkno a' \<Longrightarrow> ReadBuf G (OverWrite G op a sz d) a' sz' = ReadBuf G op a' sz'"
    and ow_object: "8 dvd unat sz \<Longrightarrow> unat sz dvd unat (Off a) \<Longrightarrow> unat sz dvd unat (Off a') \<Longrightarrow>
                    unat sz = 8 * length d \<Longrightarrow> Off a \<noteq> Off a' \<Longrightarrow>
                    ReadBuf G (OverWrite G op a sz d) a' sz = ReadBuf G op a' sz"
    and ow_bit: "bit (hd (ReadBuf G (OverWrite G op a 1 [x]) a' 1)) (unat (Off a') mod 8) \<longleftrightarrow>
                    (if a' = a then bit x (unat (Off a) mod 8)
                     else bit (hd (ReadBuf G op a' 1)) (unat (Off a') mod 8))"
    and put_same: "unat sz = 8 * length d \<Longrightarrow> ReadBuf G (PutBuf G op a sz d) a sz = d"
    and put_block: "Blkno a \<noteq> Blkno a' \<Longrightarrow> ReadBuf G (PutBuf G op a sz d) a' sz' = ReadBuf G op a' sz'"
    and ndirty_begin: "NDirty G (jrnl_Begin G lg) = 0"
    and on_begin: "on lg (jrnl_Begin G lg)"
    and on_ow: "on lg op \<Longrightarrow> on lg (OverWrite G op a sz d)"
    and on_put: "on lg op \<Longrightarrow> on lg (PutBuf G op a sz d)"
    and commit_ok: "on lg op \<Longrightarrow> CommitWait G op w lg = (True, lg') \<Longrightarrow>
                    ReadBuf G (jrnl_Begin G lg') a sz = ReadBuf G op a sz"
    and commit_fail: "CommitWait G op w lg = (False, lg') \<Longrightarrow>
                    ReadBuf G (jrnl_Begin G lg') a sz = ReadBuf G (jrnl_Begin G lg) a sz"
    and bnum_get: "unat off + 8 \<le> length d \<Longrightarrow> \<exists>v. BnumGet G d off = Inr v"
    and bnum_get_zero: "unat off + 8 \<le> length d \<Longrightarrow> (\<forall>i < 8. d ! (unat off + i) = 0) \<Longrightarrow>
                    BnumGet G d off = Inr 0"
    and bnum_get_short: "length d < unat off + 8 \<Longrightarrow> \<exists>e. BnumGet G d off = Inl e"
    and bnum_put: "unat off + 8 \<le> length d \<Longrightarrow>
                    \<exists>d'. BnumPut G d off v = Inr d' \<and> length d' = length d \<and> BnumGet G d' off = Inr v \<and>
                      (\<forall>off'. unat off' + 8 \<le> unat off \<or> unat off + 8 \<le> unat off' \<longrightarrow>
                         BnumGet G d' off' = BnumGet G d off')"

text \<open>
  \<^verbatim>\<open>alloc\<close>: \<open>arange a\<close> are the numbers the bitmap has a bit for (0 is never handed out) and
  \<open>used a\<close> those in use. \<^verbatim>\<open>AllocNum\<close> returns an unused number, 0 if there is none.
\<close>

locale alloc_lib =
  fixes G :: "('log, 'op, 'alc, 'lm, 'd) golib"
    and used :: "'alc \<Rightarrow> u64 set"
    and arange :: "'alc \<Rightarrow> u64 set"
  assumes alloc_none: "AllocNum G a = (0, a') \<Longrightarrow> used a' = used a \<and> arange a \<subseteq> used a"
    and alloc_some: "AllocNum G a = (n, a') \<Longrightarrow> n \<noteq> 0 \<Longrightarrow>
                    n \<in> arange a \<and> n \<notin> used a \<and> used a' = insert n (used a)"
    and alloc_range: "AllocNum G a = (n, a') \<Longrightarrow> arange a' = arange a"
    and free_num: "n \<in> arange a \<Longrightarrow> used (FreeNum G a n) = used a - {n}"
    and free_range: "arange (FreeNum G a n) = arange a"

text \<open>\<^verbatim>\<open>lockmap\<close>: one mutual-exclusion lock per number.\<close>

locale lockmap_lib =
  fixes G :: "('log, 'op, 'alc, 'lm, 'd) golib"
    and held :: "'lm \<Rightarrow> u64 set"
  assumes held_init: "held (MkLockMap G) = {}"
    and acquire_free: "i \<notin> held lm \<Longrightarrow> \<exists>lm'. Acquire G lm i = Some lm' \<and> held lm' = insert i (held lm)"
    and acquire_held: "i \<in> held lm \<Longrightarrow> Acquire G lm i = None"
    and release: "held (Release G lm i) = held lm - {i}"

locale gojournal = common_lib G + marshal_lib G + jrnl_lib G on + alloc_lib G used arange + lockmap_lib G held
  for G :: "('log, 'op, 'alc, 'lm, 'd) golib"
    and on :: "'log \<Rightarrow> 'op \<Rightarrow> bool"
    and used :: "'alc \<Rightarrow> u64 set" and arange :: "'alc \<Rightarrow> u64 set"
    and held :: "'lm \<Rightarrow> u64 set"

end
