(* ===== verification/GoLibRef.thy ===== *)
theory GoLibRef
  imports GoLib
begin

text \<open>
  A reference instance of the library interface: a memory-backed journal whose blocks are
  byte arrays (a transaction works on a private copy and commits it as a whole), a bitmap
  allocator that hands out the smallest free number, a lock map that records the held locks,
  and a little-endian encoder. It shows that the laws of \<open>GoLib\<close> can hold together and is the
  instance at which the properties of the development are exercised.
\<close>

section \<open>Little-endian integers\<close>

fun le_bytes :: "nat \<Rightarrow> nat \<Rightarrow> byte list" where
  "le_bytes 0 x = []"
| "le_bytes (Suc n) x = of_nat (x mod 256) # le_bytes n (x div 256)"

fun le_nat :: "byte list \<Rightarrow> nat" where
  "le_nat [] = 0"
| "le_nat (b # bs) = unat b + 256 * le_nat bs"

lemma length_le_bytes [simp]: "length (le_bytes n x) = n"
  by (induction n arbitrary: x) auto

lemma le_nat_le_bytes: "le_nat (le_bytes n x) = x mod 256 ^ n"
proof (induction n arbitrary: x)
  case (Suc n)
  have "unat (of_nat (x mod 256) :: byte) = x mod 256"
    by (simp add: unat_of_nat)
  then show ?case
    by (simp add: Suc.IH mod_mult2_eq)
qed simp

lemma le_nat_replicate [simp]: "le_nat (replicate n 0) = 0"
  by (induction n) auto

section \<open>Components\<close>

record ref_op =
  base :: "u64 \<Rightarrow> nat \<Rightarrow> byte"
  mem :: "u64 \<Rightarrow> nat \<Rightarrow> byte"
  dirty :: "u64 list"

definition ref_read :: "ref_op \<Rightarrow> addr \<Rightarrow> u64 \<Rightarrow> byte list" where
  "ref_read op a sz =
     map (\<lambda>i. mem op (Blkno a) (unat (Off a) div 8 + i)) [0..<(if sz = 1 then 1 else unat sz div 8)]"

definition ref_bytes :: "(nat \<Rightarrow> byte) \<Rightarrow> nat \<Rightarrow> byte list \<Rightarrow> nat \<Rightarrow> byte" where
  "ref_bytes m o8 d = (\<lambda>i. if o8 \<le> i \<and> i < o8 + length d then d ! (i - o8) else m i)"

definition ref_bit :: "(nat \<Rightarrow> byte) \<Rightarrow> nat \<Rightarrow> byte \<Rightarrow> nat \<Rightarrow> byte" where
  "ref_bit m off x = m(off div 8 := (if bit x (off mod 8) then set_bit (off mod 8) (m (off div 8))
                                     else unset_bit (off mod 8) (m (off div 8))))"

definition ref_write :: "ref_op \<Rightarrow> addr \<Rightarrow> u64 \<Rightarrow> byte list \<Rightarrow> ref_op" where
  "ref_write op a sz d =
     op\<lparr>mem := (mem op)(Blkno a :=
          (if sz = 1 then ref_bit (mem op (Blkno a)) (unat (Off a)) (hd d)
           else ref_bytes (mem op (Blkno a)) (unat (Off a) div 8) d)),
        dirty := List.insert (Blkno a) (dirty op)\<rparr>"

definition ref_get :: "byte list \<Rightarrow> u64 \<Rightarrow> u64 res" where
  "ref_get d off = (if unat off + 8 \<le> length d then Inr (of_nat (le_nat (take 8 (drop (unat off) d))))
                    else Inl (Panic ''slice bounds out of range''))"

definition ref_put :: "byte list \<Rightarrow> u64 \<Rightarrow> u64 \<Rightarrow> byte list res" where
  "ref_put d off v =
     (if unat off + 8 \<le> length d
      then Inr (take (unat off) d @ le_bytes 8 (unat v) @ drop (unat off + 8) d)
      else Inl (Panic ''slice bounds out of range''))"

fun ref_find :: "bool list \<Rightarrow> nat \<Rightarrow> nat option" where
  "ref_find [] n = None"
| "ref_find (b # bs) n = (if b \<or> n = 0 then ref_find bs (Suc n) else Some n)"

definition ref_alloc :: "bool list \<Rightarrow> u64 \<times> bool list" where
  "ref_alloc bm = (case ref_find (take (2 ^ 64) bm) 0 of None \<Rightarrow> (0, bm) | Some n \<Rightarrow> (of_nat n, bm[n := True]))"

definition ref_free :: "bool list \<Rightarrow> u64 \<Rightarrow> bool list" where
  "ref_free bm n = bm[unat n := False]"

definition ref_used :: "bool list \<Rightarrow> u64 set" where
  "ref_used bm = {n. unat n < length bm \<and> bm ! unat n}"

definition ref_range :: "bool list \<Rightarrow> u64 set" where
  "ref_range bm = {n. n \<noteq> 0 \<and> unat n < length bm}"

definition bits_of :: "byte list \<Rightarrow> bool list" where
  "bits_of bs = concat (map (\<lambda>x. map (bit x) [0..<8]) bs)"

fun field_bytes :: "mfield \<Rightarrow> byte list" where
  "field_bytes (PutInt x) = le_bytes 8 (unat x)"
| "field_bytes (PutInt32 y) = le_bytes 4 (unat y)"
| "field_bytes (PutInts xs) = concat (map (\<lambda>x. le_bytes 8 (unat x)) xs)"
| "field_bytes (PutBytes bs) = bs"

definition ref_enc :: "u64 \<Rightarrow> mfield list \<Rightarrow> byte list res" where
  "ref_enc sz fs =
     (let b = concat (map field_bytes fs)
      in if length b \<le> unat sz then Inr (b @ replicate (unat sz - length b) 0)
         else Inl (Panic ''slice bounds out of range''))"

definition ref_getint :: "byte list \<Rightarrow> (u64 \<times> byte list) res" where
  "ref_getint b = (if 8 \<le> length b then Inr (of_nat (le_nat (take 8 b)), drop 8 b)
                   else Inl (Panic ''index out of range''))"

definition ref_getint32 :: "byte list \<Rightarrow> (u32 \<times> byte list) res" where
  "ref_getint32 b = (if 4 \<le> length b then Inr (of_nat (le_nat (take 4 b)), drop 4 b)
                     else Inl (Panic ''index out of range''))"

fun ref_ints :: "nat \<Rightarrow> byte list \<Rightarrow> (u64 list \<times> byte list) res" where
  "ref_ints 0 b = Inr ([], b)"
| "ref_ints (Suc n) b = bnd (ref_getint b) (\<lambda>(x, b'). bnd (ref_ints n b') (\<lambda>(xs, b''). Inr (x # xs, b'')))"

definition ref_getbytes :: "u64 \<Rightarrow> byte list \<Rightarrow> (byte list \<times> byte list) res" where
  "ref_getbytes n b = (if unat n \<le> length b then Inr (take (unat n) b, drop (unat n) b)
                       else Inl (Panic ''slice bounds out of range''))"

type_synonym ref_disk = "u64 \<times> (u64 \<Rightarrow> byte list)"

definition ref_lib :: "(u64 \<Rightarrow> nat \<Rightarrow> byte, ref_op, bool list, u64 list, ref_disk) golib" where
  "ref_lib = \<lparr>
     BlockSize = 4096, NBITBLOCK = 32768, INODESZ = 128, INODEBLK = 32, NINODEBITMAP = 1,
     LOGSIZE = 513, ROOTINUM = 1, NULLINUM = 0, NULLBNUM = 0, LogBlocks = 511, LogBytes = 2093056,
     MkAddr = (\<lambda>b off. \<lparr>Blkno = b, Off = off\<rparr>),
     MkBitAddr = (\<lambda>start n. \<lparr>Blkno = start + n div 32768, Off = n mod 32768\<rparr>),
     RoundUp = (\<lambda>n sz. (n + (sz - 1)) div sz), uMin = min,
     SumOverflows = (\<lambda>x y. x + y < x),
     jrnl_Begin = (\<lambda>lg. \<lparr>base = lg, mem = lg, dirty = []\<rparr>),
     ReadBuf = ref_read, PutBuf = ref_write, OverWrite = ref_write,
     NDirty = (\<lambda>op. of_nat (length (dirty op))),
     CommitWait = (\<lambda>op w lg. (True, mem op)), obj_Flush = (\<lambda>lg. (True, lg)),
     BnumGet = ref_get, BnumPut = ref_put,
     MkAlloc = bits_of, AllocNum = ref_alloc, FreeNum = ref_free,
     MkLockMap = [], Acquire = (\<lambda>lm i. if i \<in> set lm then None else Some (i # lm)),
     Release = (\<lambda>lm i. removeAll i lm),
     Enc = ref_enc, GetInt = ref_getint, GetInt32 = ref_getint32,
     GetInts = (\<lambda>n b. ref_ints (unat n) b), GetBytes = ref_getbytes, BytesEqual = (=),
     disk_Size = fst, disk_Read = snd, disk_Write = (\<lambda>d a b. (fst d, (snd d)(a := b))),
     time_Now = (\<lambda>i. (0, 0)),
     MkLog = (\<lambda>d. (\<lambda>b i. if i < length (snd d b) then snd d b ! i else 0, d)),
     obj_Shutdown = (\<lambda>lg. lg),
     log_Reread = (\<lambda>lg d b i. if i < length (snd d b) then snd d b ! i else 0),
     MkBufLoad = (\<lambda>a sz b. take (unat sz div 8) (drop (unat (Off a) div 8) b)),
     WriteDirect = (\<lambda>a sz v d. (fst d, (snd d)(Blkno a :=
       take (unat (Off a) div 8) (snd d (Blkno a)) @ v @ drop (unat (Off a) div 8 + length v) (snd d (Blkno a)))))\<rparr>"

definition ref_on :: "(u64 \<Rightarrow> nat \<Rightarrow> byte) \<Rightarrow> ref_op \<Rightarrow> bool" where
  "ref_on lg op \<longleftrightarrow> base op = lg"

section \<open>The laws hold\<close>

lemma ref_common: "common_lib ref_lib"
proof unfold_locales
  fix n sz :: u64
  assume a: "unat n + unat sz \<le> 2 ^ 64" "sz \<noteq> 0"
  have s: "0 < unat sz" using a(2) by (simp add: unat_gt_0)
  have "unat (sz - 1) = unat sz - 1"
    using a(2) by (simp add: unat_minus_one)
  moreover have "unat (n + (sz - 1)) = unat n + unat (sz - 1)"
    using a s calculation by (intro unat_add_nowrap) simp
  ultimately show "unat (RoundUp ref_lib n sz) = (unat n + unat sz - 1) div unat sz"
    using s by (simp add: ref_lib_def unat_div)
next
  fix x y :: u64
  show "SumOverflows ref_lib x y = (2 ^ 64 \<le> unat x + unat y)"
  proof (cases "unat x + unat y < 18446744073709551616")
    case True
    then have "unat (x + y) = unat x + unat y" by (rule unat_add_nowrap)
    with True show ?thesis by (simp add: ref_lib_def word_less_nat_alt)
  next
    case False
    then have "unat (x + y) = unat x + unat y - 18446744073709551616"
      using unat_lt64 [of x] unat_lt64 [of y] by (simp add: unat_word_ariths mod_if)
    with False show ?thesis
      using unat_lt64 [of x] unat_lt64 [of y] by (simp add: ref_lib_def word_less_nat_alt)
  qed
qed (simp_all add: ref_lib_def)

lemma take_le_bytes [simp]: "take n (le_bytes n x @ r) = le_bytes n x"
  "drop n (le_bytes n x @ r) = r"
  by simp_all

lemma le_u64: "(of_nat (le_nat (le_bytes 8 (unat x))) :: u64) = x"
  using unat_lt64 [of x] by (simp add: le_nat_le_bytes)

lemma le_u32: "(of_nat (le_nat (le_bytes 4 (unat x))) :: u32) = x"
  using unsigned_less [of x, where ?'a = nat] by (simp add: le_nat_le_bytes)

lemma length_ints [simp]: "length (concat (map (\<lambda>x. le_bytes 8 (unat (x :: u64))) xs)) = 8 * length xs"
  by (induction xs) auto

lemma length_field_bytes [simp]: "length (field_bytes f) = msize f"
  by (cases f) simp_all

lemma length_fields: "length (concat (map field_bytes fs)) = sum_list (map msize fs)"
  by (induction fs) auto

lemma ref_enc_Cons:
  assumes "ref_enc sz (f # fs) = Inr b" and "unat n = msize f"
  shows "\<exists>b'. b = field_bytes f @ b' \<and> ref_enc (sz - n) fs = Inr b'"
proof -
  have le: "msize f + sum_list (map msize fs) \<le> unat sz"
    and b: "b = field_bytes f @ concat (map field_bytes fs) @
              replicate (unat sz - (msize f + sum_list (map msize fs))) 0"
    using assms(1) by (auto simp: ref_enc_def Let_def length_fields split: if_splits)
  have "unat (sz - n) = unat sz - msize f"
    using le assms(2) by (simp add: nowrap)
  with le b show ?thesis
    by (auto simp: ref_enc_def Let_def length_fields)
qed

lemma ref_ints_append:
  "ref_ints (length xs) (concat (map (\<lambda>x. le_bytes 8 (unat x)) xs) @ r) = Inr (xs, r)"
  by (induction xs) (auto simp: ref_getint_def le_u64)

lemma ref_marshal: "marshal_lib ref_lib"
proof unfold_locales
  fix fs and sz :: u64
  assume "sum_list (map msize fs) \<le> unat sz"
  then show "\<exists>b. Enc ref_lib sz fs = Inr b \<and> length b = unat sz"
    by (auto simp: ref_lib_def ref_enc_def Let_def length_fields)
next
  fix sz x fs b
  assume "Enc ref_lib sz (PutInt x # fs) = Inr b"
  then show "\<exists>b'. GetInt ref_lib b = Inr (x, b') \<and> Enc ref_lib (sz - 8) fs = Inr b'"
    using ref_enc_Cons [of sz "PutInt x" fs b 8]
    by (auto simp: ref_lib_def ref_getint_def le_u64)
next
  fix sz y fs b
  assume "Enc ref_lib sz (PutInt32 y # fs) = Inr b"
  then show "\<exists>b'. GetInt32 ref_lib b = Inr (y, b') \<and> Enc ref_lib (sz - 4) fs = Inr b'"
    using ref_enc_Cons [of sz "PutInt32 y" fs b 4]
    by (auto simp: ref_lib_def ref_getint32_def le_u32)
next
  fix sz xs fs b and n :: u64
  assume a: "Enc ref_lib sz (PutInts xs # fs) = Inr b" "unat n = length xs"
  have len: "8 * length xs \<le> unat sz"
    using a(1) by (auto simp: ref_lib_def ref_enc_def Let_def length_fields split: if_splits)
  have "unat (8 * n) = 8 * length xs"
    using a(2) len unat_lt64 [of sz] by (simp add: nowrap)
  then show "\<exists>b'. GetInts ref_lib n b = Inr (xs, b') \<and> Enc ref_lib (sz - 8 * n) fs = Inr b'"
    using ref_enc_Cons [of sz "PutInts xs" fs b "8 * n"] a
    by (auto simp: ref_lib_def ref_ints_append)
next
  fix sz bs fs b and n :: u64
  assume "Enc ref_lib sz (PutBytes bs # fs) = Inr b" "unat n = length bs"
  then show "\<exists>b'. GetBytes ref_lib n b = Inr (bs, b') \<and> Enc ref_lib (sz - n) fs = Inr b'"
    using ref_enc_Cons [of sz "PutBytes bs" fs b n]
    by (auto simp: ref_lib_def ref_getbytes_def)
qed (auto simp: ref_lib_def ref_getint_def ref_getbytes_def split: if_splits)

lemma ref_find_Some: "ref_find bs n = Some m \<Longrightarrow> n \<le> m \<and> m < n + length bs \<and> m \<noteq> 0 \<and> \<not> bs ! (m - n)"
proof (induction bs arbitrary: n)
  case (Cons b bs)
  show ?case
  proof (cases "b \<or> n = 0")
    case True
    then have "ref_find bs (Suc n) = Some m" using Cons.prems by auto
    from Cons.IH [OF this] show ?thesis by (auto simp: nth_Cons')
  next
    case False
    then show ?thesis using Cons.prems by auto
  qed
qed simp

lemma ref_find_None: "ref_find bs n = None \<Longrightarrow> n \<le> m \<Longrightarrow> m < n + length bs \<Longrightarrow> m \<noteq> 0 \<Longrightarrow> bs ! (m - n)"
proof (induction bs arbitrary: n)
  case (Cons b bs)
  have b: "b \<or> n = 0" and f: "ref_find bs (Suc n) = None" using Cons.prems(1) by (auto split: if_splits)
  show ?case
  proof (cases "m = n")
    case False
    then have "bs ! (m - Suc n)" using Cons.IH [OF f] Cons.prems by simp
    then show ?thesis using False Cons.prems(2) by (auto simp: nth_Cons' )
  qed (use b Cons.prems in auto)
qed simp

lemma ref_alloc_lib: "alloc_lib ref_lib ref_used ref_range"
proof unfold_locales
  fix a a' :: "bool list" and n :: u64
  assume "AllocNum ref_lib a = (n, a')" "n \<noteq> 0"
  then obtain m where f: "ref_find (take (2 ^ 64) a) 0 = Some m" and n: "n = of_nat m" and a': "a' = a[m := True]"
    by (auto simp: ref_lib_def ref_alloc_def split: option.splits)
  from ref_find_Some [OF f] have m: "m < 2 ^ 64" "m < length a" "m \<noteq> 0" "\<not> a ! m" by auto
  have u: "unat n = m" using m n by (simp add: nowrap)
  show "n \<in> ref_range a \<and> n \<notin> ref_used a \<and> ref_used a' = insert n (ref_used a)"
    using m u \<open>n \<noteq> 0\<close> by (auto simp: ref_range_def ref_used_def a' nth_list_update word_eq_iff_unsigned [where ?'a = nat] split: if_splits)
next
  fix a a' :: "bool list"
  assume h: "AllocNum ref_lib a = (0, a')"
  show "ref_used a' = ref_used a \<and> ref_range a \<subseteq> ref_used a"
  proof (cases "ref_find (take (2 ^ 64) a) 0")
    case None
    have "a ! unat n" if "n \<noteq> 0" "unat n < length a" for n :: u64
      using ref_find_None [OF None, of "unat n"] that unat_lt64 [of n] by (simp add: unat_eq_0)
    with h None show ?thesis by (auto simp: ref_lib_def ref_alloc_def ref_used_def ref_range_def)
  next
    case (Some m)
    from ref_find_Some [OF Some] have m: "m < 2 ^ 64" "m \<noteq> 0" by auto
    then have "(of_nat m :: u64) \<noteq> 0" by (simp add: word_eq_iff_unsigned [where ?'a = nat] nowrap)
    with h Some show ?thesis by (simp add: ref_lib_def ref_alloc_def)
  qed
qed (auto simp: ref_lib_def ref_alloc_def ref_used_def ref_range_def ref_free_def nth_list_update
      word_eq_iff_unsigned [where ?'a = nat] split: option.splits)

lemma ref_lockmap_lib: "lockmap_lib ref_lib set"
  by unfold_locales (auto simp: ref_lib_def)



lemma ref_lib_jrnl [simp]:
  "ReadBuf ref_lib = ref_read" "PutBuf ref_lib = ref_write" "OverWrite ref_lib = ref_write"
  "BnumGet ref_lib = ref_get" "BnumPut ref_lib = ref_put"
  "jrnl_Begin ref_lib = (\<lambda>lg. \<lparr>base = lg, mem = lg, dirty = []\<rparr>)"
  "CommitWait ref_lib = (\<lambda>op w lg. (True, mem op))"
  by (simp_all add: ref_lib_def)

lemma ref_write_same:
  assumes "unat sz = 8 * length d"
  shows "ref_read (ref_write op a sz d) a sz = d"
proof -
  have "sz \<noteq> 1" using assms by (auto simp: word_eq_iff_unsigned [where ?'a = nat]) 
  then show ?thesis
    using assms by (intro nth_equalityI) (simp_all add: ref_read_def ref_write_def ref_bytes_def)
qed

lemma ref_write_block: "Blkno a \<noteq> Blkno a' \<Longrightarrow> ref_read (ref_write op a sz d) a' sz' = ref_read op a' sz'"
  by (simp add: ref_read_def ref_write_def)

lemma aligned_disjoint:
  fixes k k' L i :: nat
  assumes "k \<noteq> k'" "i < L" "L * k \<le> L * k' + i"
  shows "L * k + L \<le> L * k' + i"
proof -
  have "L * k < L * (k' + 1)" using assms(2,3) by simp
  then have "k < k' + 1" by (rule mult_less_cancel1 [THEN iffD1, THEN conjunct2])
  with assms(1) have "k + 1 \<le> k'" by simp
  then have "L * (k + 1) \<le> L * k'" by (rule mult_le_mono2)
  then show ?thesis by simp
qed

lemma ref_write_object:
  assumes "unat sz dvd unat (Off a)" "unat sz dvd unat (Off a')"
    and sz: "unat sz = 8 * length d" and ne: "Off a \<noteq> Off a'"
  shows "ref_read (ref_write op a sz d) a' sz = ref_read op a' sz"
proof -
  obtain k k' where k: "unat (Off a) = 8 * length d * k" "unat (Off a') = 8 * length d * k'"
    using assms(1,2) sz by (auto elim!: dvdE)
  have kk: "k \<noteq> k'" using ne k by (auto simp: word_eq_iff_unsigned [where ?'a = nat])
  have o8: "unat (Off a) div 8 = length d * k" "unat (Off a') div 8 = length d * k'"
    using k by simp_all
  have s1: "sz \<noteq> 1" using sz by (auto simp: word_eq_iff_unsigned [where ?'a = nat])
  have "\<not> (length d * k \<le> length d * k' + i \<and> length d * k' + i < length d * k + length d)"
    if "i < length d" for i
    using aligned_disjoint [OF kk that] by linarith
  with s1 sz show ?thesis
    by (auto simp: ref_read_def ref_write_def ref_bytes_def o8)
qed

lemma ref_write_bit:
  "bit (hd (ref_read (ref_write op a 1 [x]) a' 1)) (unat (Off a') mod 8) \<longleftrightarrow>
     (if a' = a then bit x (unat (Off a) mod 8) else bit (hd (ref_read op a' 1)) (unat (Off a') mod 8))"
proof -
  have ne: "unat (Off a') mod 8 \<noteq> unat (Off a) mod 8"
    if "a' \<noteq> a" "Blkno a' = Blkno a" "unat (Off a') div 8 = unat (Off a) div 8"
  proof
    assume "unat (Off a') mod 8 = unat (Off a) mod 8"
    then have "unat (Off a') = unat (Off a)" using that(3) by (metis div_mult_mod_eq)
    then show False using that(1,2) by (cases a; cases a') (simp add: word_eq_iff_unsigned [where ?'a = nat])
  qed
  have b8: "unat (Off a') mod 8 < 8" "unat (Off a) mod 8 < 8" by simp_all
  show ?thesis
    using ne b8 by (auto simp: ref_read_def ref_write_def ref_bit_def bit_set_bit_iff bit_unset_bit_iff)
qed

lemma ref_put_ok:
  assumes h: "unat off + 8 \<le> length d"
  shows "\<exists>d'. ref_put d off v = Inr d' \<and> length d' = length d \<and> ref_get d' off = Inr v \<and>
           (\<forall>off'. unat off' + 8 \<le> unat off \<or> unat off + 8 \<le> unat off' \<longrightarrow> ref_get d' off' = ref_get d off')"
proof -
  let ?d = "take (unat off) d @ le_bytes 8 (unat v) @ drop (unat off + 8) d"
  have same: "(of_nat (le_nat (le_bytes 8 (unat v))) :: u64) = v"
    using unat_lt64 [of v] by (simp add: le_nat_le_bytes)
  have len: "length ?d = length d" using h by simp
  define d' where "d' = ?d"
  have "take 8 (drop (unat off') d') = take 8 (drop (unat off') d)"
    if "unat off' + 8 \<le> unat off \<or> unat off + 8 \<le> unat off'" "unat off' + 8 \<le> length d" for off' :: u64
    using that h by (intro nth_equalityI) (auto simp: nth_append d'_def)
  then have "ref_get d' off' = ref_get d off'"
    if "unat off' + 8 \<le> unat off \<or> unat off + 8 \<le> unat off'" for off' :: u64
    using that len by (simp add: ref_get_def d'_def [symmetric])
  moreover have "ref_put d off v = Inr d'" "length d' = length d" "ref_get d' off = Inr v"
    using h same by (simp_all add: ref_put_def ref_get_def d'_def)
  ultimately show ?thesis by blast
qed

lemma ref_read_len: "8 dvd unat sz \<Longrightarrow> length (ref_read op a sz) = unat sz div 8"
  by (auto simp: ref_read_def)

lemma ref_read_mem: "mem op = mem op' \<Longrightarrow> ref_read op = ref_read op'"
  by (simp add: ref_read_def fun_eq_iff)

lemma ref_read_begin: "ref_read \<lparr>base = m, mem = mem op, dirty = []\<rparr> = ref_read op"
  by (rule ref_read_mem) simp

lemma ref_on_write: "ref_on lg (ref_write op a sz d) = ref_on lg op"
  by (simp add: ref_on_def ref_write_def)

lemma ref_jrnl: "jrnl_lib ref_lib ref_on"
proof unfold_locales
  fix d :: "byte list" and off :: u64
  assume a: "unat off + 8 \<le> length d" "\<forall>i < 8. d ! (unat off + i) = 0"
  then have "take 8 (drop (unat off) d) = replicate 8 0"
    by (intro nth_equalityI) auto
  then show "BnumGet ref_lib d off = Inr 0" using a by (simp add: ref_get_def)
next
  fix d :: "byte list" and off v :: u64
  assume "unat off + 8 \<le> length d"
  then show "\<exists>d'. BnumPut ref_lib d off v = Inr d' \<and> length d' = length d \<and> BnumGet ref_lib d' off = Inr v \<and>
      (\<forall>off'. unat off' + 8 \<le> unat off \<or> unat off + 8 \<le> unat off' \<longrightarrow>
         BnumGet ref_lib d' off' = BnumGet ref_lib d off')"
    using ref_put_ok by simp
qed (simp_all add: ref_write_same ref_write_block ref_write_object ref_write_bit ref_read_len ref_read_begin
      ref_on_write, simp_all add: ref_read_def ref_on_def ref_get_def, simp add: ref_lib_def)
text \<open>The reference instance satisfies every law of the interface.\<close>

lemma ref_gojournal: "gojournal ref_lib ref_on ref_used ref_range set"
  by (intro gojournal.intro ref_common ref_marshal ref_jrnl ref_alloc_lib ref_lockmap_lib)

interpretation ref: gojournal ref_lib ref_on ref_used ref_range set
  by (rule ref_gojournal)

end
