(* ===== verification/Kvs.thy ===== *)
theory Kvs
  imports GoLibRef
begin

text \<open>
  \<^verbatim>\<open>kvs/kvs.go\<close>: a key-value store whose keys are block numbers. A \<^verbatim>\<open>MultiPut\<close> is one journal
  transaction. The abstract store is the map from keys to block contents.
\<close>

record 'log KVS =
  kv_sz :: u64
  kv_log :: 'log

record KVPair =
  Key :: u64
  Val :: "byte list"

definition MkKVS :: "('log, 'op, 'alc, 'lm, 'd) golib \<Rightarrow> 'd \<Rightarrow> u64 \<Rightarrow> 'log KVS" where
  "MkKVS G d sz = (let (log, d) = MkLog G d in \<lparr>kv_sz = sz, kv_log = log\<rparr>)"

fun MultiPut_loop :: "('log, 'op, 'alc, 'lm, 'd) golib \<Rightarrow> u64 \<Rightarrow> KVPair list \<Rightarrow> 'op \<Rightarrow> 'op res" where
  "MultiPut_loop G sz [] op = Inr op"
| "MultiPut_loop G sz (p # pairs) op =
     (if Key p \<ge> sz \<or> Key p < LOGSIZE G then Inl (Panic ''out-of-bounds put'')
      else let akey = MkAddr G (Key p) 0
           in MultiPut_loop G sz pairs (OverWrite G op akey (NBITBLOCK G) (Val p)))"

definition MultiPut :: "('log, 'op, 'alc, 'lm, 'd) golib \<Rightarrow> KVPair list \<Rightarrow> 'log KVS \<Rightarrow> (bool \<times> 'log KVS) res" where
  "MultiPut G pairs kvs =
     bnd (MultiPut_loop G (kv_sz kvs) pairs (jrnl_Begin G (kv_log kvs))) (\<lambda>op.
     let (ok, log) = CommitWait G op True (kv_log kvs)
     in Inr (ok, kvs\<lparr>kv_log := log\<rparr>))"

definition kvs_Get :: "('log, 'op, 'alc, 'lm, 'd) golib \<Rightarrow> u64 \<Rightarrow> 'log KVS \<Rightarrow> (KVPair \<times> bool \<times> 'log KVS) res" where
  "kvs_Get G key kvs =
     (if key > kv_sz kvs \<or> key < LOGSIZE G then Inl (Panic ''out-of-bounds get'')
      else
        let op = jrnl_Begin G (kv_log kvs);
            akey = MkAddr G key 0;
            data = ReadBuf G op akey (NBITBLOCK G);
            (ok, log) = CommitWait G op True (kv_log kvs)
        in Inr (\<lparr>Key = key, Val = data\<rparr>, ok, kvs\<lparr>kv_log := log\<rparr>))"

definition kvs_Delete :: "('log, 'op, 'alc, 'lm, 'd) golib \<Rightarrow> 'log KVS \<Rightarrow> 'log KVS" where
  "kvs_Delete G kvs = kvs\<lparr>kv_log := obj_Shutdown G (kv_log kvs)\<rparr>"

section \<open>The abstract store\<close>

definition store :: "('log, 'op, 'alc, 'lm, 'd) golib \<Rightarrow> 'log KVS \<Rightarrow> u64 \<Rightarrow> byte list" where
  "store G kvs = (\<lambda>k. ReadBuf G (jrnl_Begin G (kv_log kvs)) (MkAddr G k 0) (NBITBLOCK G))"

fun puts :: "KVPair list \<Rightarrow> (u64 \<Rightarrow> byte list) \<Rightarrow> u64 \<Rightarrow> byte list" where
  "puts [] S = S"
| "puts (p # ps) S = puts ps (S(Key p := Val p))"

definition put_ok :: "u64 \<Rightarrow> KVPair \<Rightarrow> bool" where
  "put_ok sz p \<longleftrightarrow> 513 \<le> unat (Key p) \<and> Key p < sz \<and> length (Val p) = 4096"

context gojournal
begin

lemma MultiPut_loop_ok:
  assumes "\<forall>p \<in> set pairs. put_ok sz p"
  shows "\<exists>op'. MultiPut_loop G sz pairs op = Inr op' \<and> (\<forall>lg. on lg op \<longrightarrow> on lg op') \<and>
    (\<lambda>k. ReadBuf G op' \<lparr>Blkno = k, Off = 0\<rparr> 32768) = puts pairs (\<lambda>k. ReadBuf G op \<lparr>Blkno = k, Off = 0\<rparr> 32768)"
  using assms
proof (induction pairs arbitrary: op)
  case (Cons p pairs)
  let ?op = "OverWrite G op \<lparr>Blkno = Key p, Off = 0\<rparr> 32768 (Val p)"
  have p: "put_ok sz p" using Cons.prems by simp
  then have "\<not> (Key p \<ge> sz \<or> Key p < 513)" by (auto simp: put_ok_def word_less_nat_alt word_le_nat_alt)
  moreover have "(\<lambda>k. ReadBuf G ?op \<lparr>Blkno = k, Off = 0\<rparr> 32768) =
      (\<lambda>k. ReadBuf G op \<lparr>Blkno = k, Off = 0\<rparr> 32768)(Key p := Val p)"
    using p by (auto simp: fun_eq_iff ow_same ow_block put_ok_def)
  ultimately show ?case using Cons.IH [of ?op] Cons.prems on_ow by (auto simp: Let_def)
qed simp

lemma commit_store:
  assumes "on lg op" and "CommitWait G op w lg = (ok, lg')"
  shows "ReadBuf G (jrnl_Begin G lg') a sz = (if ok then ReadBuf G op a sz else ReadBuf G (jrnl_Begin G lg) a sz)"
  using commit_ok [OF assms(1)] commit_fail assms(2) by (cases ok) auto

lemma MultiPut_ok:
  assumes "\<forall>p \<in> set pairs. put_ok (kv_sz kvs) p"
  shows "\<exists>ok kvs'. MultiPut G pairs kvs = Inr (ok, kvs') \<and> kv_sz kvs' = kv_sz kvs \<and>
     store G kvs' = (if ok then puts pairs (store G kvs) else store G kvs)"
proof -
  let ?lg = "kv_log kvs"
  obtain op where op: "MultiPut_loop G (kv_sz kvs) pairs (jrnl_Begin G ?lg) = Inr op" "on ?lg op"
    "(\<lambda>k. ReadBuf G op \<lparr>Blkno = k, Off = 0\<rparr> 32768) = puts pairs (store G kvs)"
    using MultiPut_loop_ok [OF assms, of "jrnl_Begin G ?lg"] on_begin by (auto simp: store_def)
  obtain ok lg' where c: "CommitWait G op True ?lg = (ok, lg')" by (cases "CommitWait G op True ?lg")
  have "store G (kvs\<lparr>kv_log := lg'\<rparr>) = (if ok then puts pairs (store G kvs) else store G kvs)"
    using commit_store [OF op(2) c] op(3) by (cases ok) (auto simp: store_def fun_eq_iff)
  then show ?thesis using op(1) c by (auto simp: MultiPut_def)
qed

lemma kvs_Get_ok:
  assumes "513 \<le> unat key" and "key \<le> kv_sz kvs"
  shows "\<exists>ok kvs'. kvs_Get G key kvs = Inr (\<lparr>Key = key, Val = store G kvs key\<rparr>, ok, kvs') \<and> store G kvs' = store G kvs \<and>
     kv_sz kvs' = kv_sz kvs"
proof -
  let ?lg = "kv_log kvs"
  obtain ok lg' where c: "CommitWait G (jrnl_Begin G ?lg) True ?lg = (ok, lg')"
    by (cases "CommitWait G (jrnl_Begin G ?lg) True ?lg")
  have "store G (kvs\<lparr>kv_log := lg'\<rparr>) = store G kvs" using commit_store [OF on_begin c] by (simp add: store_def)
  moreover have "\<not> (key > kv_sz kvs \<or> key < 513)" using assms by (auto simp: word_less_nat_alt word_le_nat_alt)
  ultimately show ?thesis using c by (auto simp: kvs_Get_def store_def Let_def)
qed

end

lemma puts_last: "puts pairs S k = (case map_of (rev (map (\<lambda>p. (Key p, Val p)) pairs)) k of Some v \<Rightarrow> v | None \<Rightarrow> S k)"
  by (induction pairs arbitrary: S) (auto simp: map_add_def split: option.splits)

section \<open>Properties\<close>

text \<open>C39: the key-value store is atomic. A \<^verbatim>\<open>MultiPut\<close> of in-range keys returns; if it reports success, a \<^verbatim>\<open>Get\<close> of
  any key returns the last value put under it, or its old value if it was not put; if it reports
  failure, a \<^verbatim>\<open>Get\<close> of any key returns its old value.\<close>

theorem kvs_get_after_multiput:
  assumes G: "gojournal G on used arange held" and p: "\<forall>p \<in> set pairs. put_ok (kv_sz kvs) p"
    and k: "513 \<le> unat key" "key \<le> kv_sz kvs"
  shows "\<exists>ok kvs' ok2 kvs''. MultiPut G pairs kvs = Inr (ok, kvs') \<and>
     kvs_Get G key kvs' = Inr (\<lparr>Key = key, Val =
       (case if ok then map_of (rev (map (\<lambda>p. (Key p, Val p)) pairs)) key else None of
          Some v \<Rightarrow> v | None \<Rightarrow> store G kvs key)\<rparr>, ok2, kvs'')"
proof -
  obtain ok kvs' where m: "MultiPut G pairs kvs = Inr (ok, kvs')" "kv_sz kvs' = kv_sz kvs"
    "store G kvs' = (if ok then puts pairs (store G kvs) else store G kvs)"
    using gojournal.MultiPut_ok [OF G p] by blast
  with k obtain ok2 kvs'' where "kvs_Get G key kvs' = Inr (\<lparr>Key = key, Val = store G kvs' key\<rparr>, ok2, kvs'')"
    using gojournal.kvs_Get_ok [OF G k(1), of kvs'] by auto
  then show ?thesis using m by (auto simp: puts_last)
qed

definition ex_kvs :: "(u64 \<Rightarrow> nat \<Rightarrow> byte) KVS" where
  "ex_kvs = MkKVS ref_lib (2000, \<lambda>_. []) 1000"

theorem kvs_get_after_multiput_witness:
  "\<exists>kvs' ok2 kvs''. MultiPut ref_lib [\<lparr>Key = 600, Val = replicate 4096 1\<rparr>, \<lparr>Key = 600, Val = replicate 4096 2\<rparr>] ex_kvs =
       Inr (True, kvs') \<and>
     kvs_Get ref_lib 600 kvs' = Inr (\<lparr>Key = 600, Val = replicate 4096 2\<rparr>, ok2, kvs'')"
proof -
  let ?ps = "[\<lparr>Key = 600, Val = replicate 4096 1\<rparr>, \<lparr>Key = 600, Val = replicate 4096 2\<rparr>]"
  have sz: "kv_sz ex_kvs = 1000" by (simp add: ex_kvs_def MkKVS_def case_prod_beta)
  then have "\<forall>p \<in> set ?ps. put_ok (kv_sz ex_kvs) p" by (simp add: put_ok_def)
  moreover have "ok" if "MultiPut ref_lib ?ps ex_kvs = Inr (ok, kvs')" for ok kvs'
    using that by (auto simp: MultiPut_def bnd_eq_Inr)
  ultimately show ?thesis using kvs_get_after_multiput [OF ref_gojournal, of ?ps ex_kvs 600] sz by fastforce
qed

lemma MultiPut_loop_Inl:
  "(\<exists>e. MultiPut_loop G sz pairs op = Inl e) \<longleftrightarrow> (\<exists>p \<in> set pairs. Key p \<ge> sz \<or> Key p < LOGSIZE G)"
  by (induction pairs arbitrary: op) (auto simp: Let_def)

text \<open>The guards of the two procedures. A \<^verbatim>\<open>MultiPut\<close> panics if some key lies in the log area or is not below the size of the
  store; a \<^verbatim>\<open>Get\<close> panics if the key lies in the log area or is above the size, so it admits the key
  that equals the size, which no \<^verbatim>\<open>MultiPut\<close> can set. What the journal does with a block that the disk does not have, or with a value that is
  not a block long, is outside the model: its operations are total functions here.\<close>

theorem kvs_bounds:
  "((\<exists>e. MultiPut G pairs kvs = Inl e) \<longleftrightarrow> (\<exists>p \<in> set pairs. Key p \<ge> kv_sz kvs \<or> Key p < LOGSIZE G)) \<and>
   ((\<exists>e. kvs_Get G key kvs = Inl e) \<longleftrightarrow> key > kv_sz kvs \<or> key < LOGSIZE G)"
  using MultiPut_loop_Inl [of G "kv_sz kvs" pairs "jrnl_Begin G (kv_log kvs)"]
  by (cases "MultiPut_loop G (kv_sz kvs) pairs (jrnl_Begin G (kv_log kvs))")
     (auto simp: MultiPut_def kvs_Get_def Let_def case_prod_beta)

end
