(* ===== verification/Super.thy ===== *)
theory Super
  imports GoLib
begin

text \<open>
  \<^verbatim>\<open>super/super.go\<close>: the layout of the disk. The log comes first, then the block bitmap,
  the inode bitmap, the inode blocks and the data blocks.
\<close>

record 'd FsSuper =
  Disk :: 'd
  super_Size :: u64
  nLog :: u64
  NBlockBitmap :: u64
  NInodeBitmap :: u64
  nInodeBlk :: u64
  Maxaddr :: u64

definition MkFsSuper :: "('log, 'op, 'alc, 'lm, 'd) golib \<Rightarrow> 'd \<Rightarrow> 'd FsSuper" where
  "MkFsSuper G d =
     (let sz = disk_Size G d;
          nblockbitmap = (sz div NBITBLOCK G) + 1
      in \<lparr>Disk = d, super_Size = sz, nLog = LOGSIZE G, NBlockBitmap = nblockbitmap,
          NInodeBitmap = NINODEBITMAP G,
          nInodeBlk = (NINODEBITMAP G * NBITBLOCK G * INODESZ G) div BlockSize G,
          Maxaddr = sz\<rparr>)"

definition MaxBnum :: "'d FsSuper \<Rightarrow> u64" where
  "MaxBnum fs = Maxaddr fs"

definition BitmapBlockStart :: "'d FsSuper \<Rightarrow> u64" where
  "BitmapBlockStart fs = nLog fs"

definition BitmapInodeStart :: "'d FsSuper \<Rightarrow> u64" where
  "BitmapInodeStart fs = BitmapBlockStart fs + NBlockBitmap fs"

definition InodeStart :: "'d FsSuper \<Rightarrow> u64" where
  "InodeStart fs = BitmapInodeStart fs + NInodeBitmap fs"

definition DataStart :: "'d FsSuper \<Rightarrow> u64" where
  "DataStart fs = InodeStart fs + nInodeBlk fs"

definition Block2addr :: "('log, 'op, 'alc, 'lm, 'd) golib \<Rightarrow> u64 \<Rightarrow> addr" where
  "Block2addr G blkno = MkAddr G blkno 0"

definition NInode :: "('log, 'op, 'alc, 'lm, 'd) golib \<Rightarrow> 'd FsSuper \<Rightarrow> u64" where
  "NInode G fs = nInodeBlk fs * INODEBLK G"

definition Inum2Addr :: "('log, 'op, 'alc, 'lm, 'd) golib \<Rightarrow> 'd FsSuper \<Rightarrow> u64 \<Rightarrow> addr" where
  "Inum2Addr G fs inum =
     MkAddr G (InodeStart fs + inum div INODEBLK G) ((inum mod INODEBLK G) * INODESZ G * 8)"

text \<open>
  A super block is well-formed when it was made by \<^const>\<open>MkFsSuper\<close> from a disk whose size
  leaves room for data blocks and keeps the block arithmetic inside 64 bits.
\<close>

definition super_wf :: "('log, 'op, 'alc, 'lm, 'd) golib \<Rightarrow> 'd FsSuper \<Rightarrow> bool" where
  "super_wf G fs \<longleftrightarrow> fs = MkFsSuper G (Disk fs) \<and> unat (Maxaddr fs) < 2 ^ 60 \<and> DataStart fs < Maxaddr fs"

context common_lib
begin

lemma super_wf_fields:
  assumes "super_wf G fs"
  shows "nLog fs = 513" "NInodeBitmap fs = 1" "nInodeBlk fs = 1024"
    "unat (NBlockBitmap fs) = unat (Maxaddr fs) div 32768 + 1"
proof -
  have fs: "fs = MkFsSuper G (Disk fs)" and m: "unat (Maxaddr fs) < 2 ^ 60"
    using assms by (auto simp: super_wf_def)
  show "nLog fs = 513" "NInodeBitmap fs = 1" "nInodeBlk fs = 1024"
    by (subst fs, simp add: MkFsSuper_def Let_def)+
  have "NBlockBitmap fs = Maxaddr fs div 32768 + 1"
    by (subst (1 2) fs) (simp add: MkFsSuper_def Let_def)
  moreover have "unat (Maxaddr fs div 32768 + 1) = unat (Maxaddr fs) div 32768 + 1"
    using m by (subst unat_add_nowrap) (auto simp: unat_div)
  ultimately show "unat (NBlockBitmap fs) = unat (Maxaddr fs) div 32768 + 1" by simp
qed

lemma super_wf_layout:
  assumes "super_wf G fs"
  shows "unat (BitmapBlockStart fs) = 513"
    and "unat (BitmapInodeStart fs) = unat (Maxaddr fs) div 32768 + 514"
    and "unat (InodeStart fs) = unat (Maxaddr fs) div 32768 + 515"
    and "unat (DataStart fs) = unat (Maxaddr fs) div 32768 + 1539"
    and "NInode G fs = 32768"
proof -
  note f = super_wf_fields [OF assms]
  have m: "unat (Maxaddr fs) < 2 ^ 60" using assms by (simp add: super_wf_def)
  show b: "unat (BitmapBlockStart fs) = 513"
    by (simp add: BitmapBlockStart_def f)
  show i: "unat (BitmapInodeStart fs) = unat (Maxaddr fs) div 32768 + 514"
    using m b f(4) by (simp add: BitmapInodeStart_def nowrap)
  show s: "unat (InodeStart fs) = unat (Maxaddr fs) div 32768 + 515"
    using m i f(2) by (simp add: InodeStart_def nowrap)
  show "unat (DataStart fs) = unat (Maxaddr fs) div 32768 + 1539"
    using m s f(3) by (simp add: DataStart_def nowrap)
  show "NInode G fs = 32768"
    by (simp add: NInode_def f)
qed

text \<open>The inode region: every inode of the file system has its own address there.\<close>

lemma Inum2Addr_block:
  assumes "super_wf G fs" and "inum < NInode G fs"
  shows "unat (Blkno (Inum2Addr G fs inum)) = unat (InodeStart fs) + unat inum div 32"
    and "unat (Off (Inum2Addr G fs inum)) = unat inum mod 32 * 1024"
proof -
  note l = super_wf_layout [OF assms(1)]
  have m: "unat (Maxaddr fs) < 2 ^ 60" using assms by (simp add: super_wf_def)
  show "unat (Blkno (Inum2Addr G fs inum)) = unat (InodeStart fs) + unat inum div 32"
    using m l(3) assms(2) l(5)
    by (simp add: Inum2Addr_def word_less_nat_alt) (subst unat_add_nowrap; simp add: unat_div)
  have "unat (inum mod 32 * 128 * 8) = unat inum mod 32 * 1024"
  proof -
    have "unat (inum mod 32 * 1024) = unat (inum mod 32) * 1024"
    proof (subst unat_mult_nowrap)
      have "unat inum mod 32 < 32" by simp
      then show "unat (inum mod 32) * unat (1024 :: u64) < 18446744073709551616"
        by (simp add: unat_mod del: mod_less_divisor)
    qed simp
    then show ?thesis by (simp add: unat_mod mult.assoc)
  qed
  then show "unat (Off (Inum2Addr G fs inum)) = unat inum mod 32 * 1024"
    by (simp add: Inum2Addr_def)
qed

lemma Inum2Addr_inj:
  assumes wf: "super_wf G fs" and i: "i < NInode G fs" and j: "j < NInode G fs"
    and eq: "Inum2Addr G fs i = Inum2Addr G fs j"
  shows "i = j"
proof -
  have "unat i div 32 = unat j div 32" and "unat i mod 32 = unat j mod 32"
    using Inum2Addr_block [OF wf i] Inum2Addr_block [OF wf j] eq by simp_all
  then have "unat i = unat j" by (metis div_mult_mod_eq)
  then show ?thesis by (rule u64_eqI)
qed

lemma Inum2Addr_region:
  assumes "super_wf G fs" and "inum < NInode G fs"
  shows "InodeStart fs \<le> Blkno (Inum2Addr G fs inum)" and "Blkno (Inum2Addr G fs inum) < DataStart fs"
  using Inum2Addr_block(1) [OF assms] super_wf_layout [OF assms(1)] assms(2)
  by (simp_all add: word_le_nat_alt word_less_nat_alt less_mult_imp_div_less)

end

end
