(* ===== verification/AllocTxn.thy ===== *)
theory AllocTxn
  imports Super GoLibRef
begin

text \<open>
  \<^verbatim>\<open>alloctxn/alloctxn.go\<close>: transactions with allocation of inodes and blocks. The allocators
  are shared by all transactions and live in memory only; \<open>Balloc\<close> and \<open>Ialloc\<close> are their
  contents while the transaction runs. The numbers a transaction allocated or freed are kept
  in its four lists until it commits or aborts.
\<close>

record ('d, 'op, 'alc) AllocTxn =
  at_Super :: "'d FsSuper"
  Op :: 'op
  Balloc :: 'alc
  Ialloc :: 'alc
  allocInums :: "u64 list"
  freeInums :: "u64 list"
  allocBnums :: "u64 list"
  freeBnums :: "u64 list"

definition AllocTxn_Begin ::
    "('log, 'op, 'alc, 'lm, 'd) golib \<Rightarrow> 'd FsSuper \<Rightarrow> 'log \<Rightarrow> 'alc \<Rightarrow> 'alc \<Rightarrow> ('d, 'op, 'alc) AllocTxn" where
  "AllocTxn_Begin G super lg balloc ialloc =
     \<lparr>at_Super = super, Op = jrnl_Begin G lg, Balloc = balloc, Ialloc = ialloc,
      allocInums = [], freeInums = [], allocBnums = [], freeBnums = []\<rparr>"

definition AllocINum ::
    "('log, 'op, 'alc, 'lm, 'd) golib \<Rightarrow> ('d, 'op, 'alc) AllocTxn \<Rightarrow> u64 \<times> ('d, 'op, 'alc) AllocTxn" where
  "AllocINum G atxn =
     (let (inum, ialloc) = AllocNum G (Ialloc atxn);
          atxn = atxn\<lparr>Ialloc := ialloc\<rparr>
      in (inum, if inum \<noteq> NULLINUM G then atxn\<lparr>allocInums := allocInums atxn @ [inum]\<rparr> else atxn))"

definition FreeINum :: "u64 \<Rightarrow> ('d, 'op, 'alc) AllocTxn \<Rightarrow> ('d, 'op, 'alc) AllocTxn" where
  "FreeINum inum atxn = atxn\<lparr>freeInums := freeInums atxn @ [inum]\<rparr>"

fun WriteBits ::
    "('log, 'op, 'alc, 'lm, 'd) golib \<Rightarrow> u64 list \<Rightarrow> u64 \<Rightarrow> bool \<Rightarrow> ('d, 'op, 'alc) AllocTxn \<Rightarrow>
     ('d, 'op, 'alc) AllocTxn" where
  "WriteBits G [] blk alloc atxn = atxn"
| "WriteBits G (n # nums) blk alloc atxn =
     (let a = MkBitAddr G blk n;
          b = (push_bit (unat (n mod 8)) 1 :: byte);
          b = (if \<not> alloc then NOT b else b)
      in WriteBits G nums blk alloc (atxn\<lparr>Op := OverWrite G (Op atxn) a 1 [b]\<rparr>))"

definition PreCommit ::
    "('log, 'op, 'alc, 'lm, 'd) golib \<Rightarrow> ('d, 'op, 'alc) AllocTxn \<Rightarrow> ('d, 'op, 'alc) AllocTxn" where
  "PreCommit G atxn =
     (let super = at_Super atxn;
          atxn = WriteBits G (allocInums atxn) (BitmapInodeStart super) True atxn;
          atxn = WriteBits G (allocBnums atxn) (BitmapBlockStart super) True atxn;
          atxn = WriteBits G (freeInums atxn) (BitmapInodeStart super) False atxn
      in WriteBits G (freeBnums atxn) (BitmapBlockStart super) False atxn)"

definition PostCommit ::
    "('log, 'op, 'alc, 'lm, 'd) golib \<Rightarrow> ('d, 'op, 'alc) AllocTxn \<Rightarrow> ('d, 'op, 'alc) AllocTxn" where
  "PostCommit G atxn =
     atxn\<lparr>Ialloc := foldl (FreeNum G) (Ialloc atxn) (freeInums atxn),
          Balloc := foldl (FreeNum G) (Balloc atxn) (freeBnums atxn)\<rparr>"

definition PostAbort ::
    "('log, 'op, 'alc, 'lm, 'd) golib \<Rightarrow> ('d, 'op, 'alc) AllocTxn \<Rightarrow> ('d, 'op, 'alc) AllocTxn" where
  "PostAbort G atxn =
     atxn\<lparr>Ialloc := foldl (FreeNum G) (Ialloc atxn) (allocInums atxn),
          Balloc := foldl (FreeNum G) (Balloc atxn) (allocBnums atxn)\<rparr>"

definition AssertValidBlock :: "u64 \<Rightarrow> ('d, 'op, 'alc) AllocTxn \<Rightarrow> unit res" where
  "AssertValidBlock blkno atxn =
     (if blkno > 0 \<and> (blkno < DataStart (at_Super atxn) \<or> blkno \<ge> MaxBnum (at_Super atxn))
      then Inl (Panic ''invalid blkno'') else Inr ())"

definition AllocBlock ::
    "('log, 'op, 'alc, 'lm, 'd) golib \<Rightarrow> ('d, 'op, 'alc) AllocTxn \<Rightarrow> (u64 \<times> ('d, 'op, 'alc) AllocTxn) res" where
  "AllocBlock G atxn =
     (let (bn, balloc) = AllocNum G (Balloc atxn);
          atxn = atxn\<lparr>Balloc := balloc\<rparr>
      in bnd (AssertValidBlock bn atxn) (\<lambda>_.
         Inr (bn, if bn \<noteq> NULLBNUM G then atxn\<lparr>allocBnums := allocBnums atxn @ [bn]\<rparr> else atxn)))"

definition ReadBlock ::
    "('log, 'op, 'alc, 'lm, 'd) golib \<Rightarrow> u64 \<Rightarrow> ('d, 'op, 'alc) AllocTxn \<Rightarrow> byte list res" where
  "ReadBlock G blkno atxn =
     bnd (AssertValidBlock blkno atxn) (\<lambda>_.
     Inr (ReadBuf G (Op atxn) (Block2addr G blkno) (NBITBLOCK G)))"

text \<open>A store through the buffer of \<^verbatim>\<open>ReadBlock(blkno)\<close>, marked dirty.\<close>

definition StoreBlock ::
    "('log, 'op, 'alc, 'lm, 'd) golib \<Rightarrow> u64 \<Rightarrow> byte list \<Rightarrow> ('d, 'op, 'alc) AllocTxn \<Rightarrow>
     ('d, 'op, 'alc) AllocTxn" where
  "StoreBlock G blkno d atxn = atxn\<lparr>Op := PutBuf G (Op atxn) (Block2addr G blkno) (NBITBLOCK G) d\<rparr>"

definition ZeroBlock ::
    "('log, 'op, 'alc, 'lm, 'd) golib \<Rightarrow> u64 \<Rightarrow> ('d, 'op, 'alc) AllocTxn \<Rightarrow> ('d, 'op, 'alc) AllocTxn res" where
  "ZeroBlock G blkno atxn =
     bnd (ReadBlock G blkno atxn) (\<lambda>buf.
     Inr (StoreBlock G blkno (replicate (length buf) 0) atxn))"

definition FreeBlock ::
    "('log, 'op, 'alc, 'lm, 'd) golib \<Rightarrow> u64 \<Rightarrow> ('d, 'op, 'alc) AllocTxn \<Rightarrow> ('d, 'op, 'alc) AllocTxn res" where
  "FreeBlock G blkno atxn =
     bnd (AssertValidBlock blkno atxn) (\<lambda>_.
     if blkno = 0 then Inr atxn
     else bnd (ZeroBlock G blkno atxn) (\<lambda>atxn.
          Inr (atxn\<lparr>freeBnums := freeBnums atxn @ [blkno]\<rparr>)))"

section \<open>Data blocks and their contents\<close>

definition valid_bnum :: "('d, 'op, 'alc) AllocTxn \<Rightarrow> u64 \<Rightarrow> bool" where
  "valid_bnum atxn b \<longleftrightarrow> DataStart (at_Super atxn) \<le> b \<and> b < MaxBnum (at_Super atxn)"

definition blk ::
    "('log, 'op, 'alc, 'lm, 'd) golib \<Rightarrow> 'op \<Rightarrow> u64 \<Rightarrow> byte list" where
  "blk G op b = ReadBuf G op (Block2addr G b) (NBITBLOCK G)"

lemma AssertValidBlock_valid [simp]: "valid_bnum atxn b \<Longrightarrow> AssertValidBlock b atxn = Inr ()"
  by (auto simp: AssertValidBlock_def valid_bnum_def not_less not_le)

lemma AssertValidBlock_0 [simp]: "AssertValidBlock 0 atxn = Inr ()"
  by (simp add: AssertValidBlock_def)

lemma AssertValidBlock_Inr:
  "AssertValidBlock b atxn = Inr u \<longleftrightarrow> b = 0 \<or> valid_bnum atxn b"
  by (auto simp: AssertValidBlock_def valid_bnum_def u64_gt_0 not_less not_le)

lemma valid_bnum_cong: "at_Super atxn = at_Super atxn' \<Longrightarrow> valid_bnum atxn b = valid_bnum atxn' b"
  by (simp add: valid_bnum_def)

lemma ReadBlock_valid: "valid_bnum atxn b \<Longrightarrow> ReadBlock G b atxn = Inr (blk G (Op atxn) b)"
  by (simp add: ReadBlock_def blk_def)

lemma AllocTxn_frame [simp]:
  "at_Super (StoreBlock G b d atxn) = at_Super atxn"
  "Balloc (StoreBlock G b d atxn) = Balloc atxn"
  "Ialloc (StoreBlock G b d atxn) = Ialloc atxn"
  "allocBnums (StoreBlock G b d atxn) = allocBnums atxn"
  "freeBnums (StoreBlock G b d atxn) = freeBnums atxn"
  "allocInums (StoreBlock G b d atxn) = allocInums atxn"
  "freeInums (StoreBlock G b d atxn) = freeInums atxn"
  by (simp_all add: StoreBlock_def)

context gojournal
begin

lemma blk_length [simp]: "length (blk G op b) = 4096"
  by (simp add: blk_def read_len)

lemma blk_StoreBlock:
  "length d = 4096 \<Longrightarrow> blk G (Op (StoreBlock G b d atxn)) b' = (if b' = b then d else blk G (Op atxn) b')"
  by (simp add: blk_def StoreBlock_def Block2addr_def put_same put_block)

lemma blk_OverWrite:
  "length d = 4096 \<Longrightarrow>
     blk G (OverWrite G op (Block2addr G b) (NBITBLOCK G) d) b' = (if b' = b then d else blk G op b')"
  by (simp add: blk_def Block2addr_def ow_same ow_block)

lemma blk_put: "length d = 4096 \<Longrightarrow>
     blk G (PutBuf G op (Block2addr G b) 32768 d) b' = (if b' = b then d else blk G op b')"
  by (simp add: blk_def Block2addr_def put_same put_block)

end

section \<open>Allocation invariants\<close>

text \<open>Blocks that the allocator may hand out are data blocks and hold zeros.\<close>

definition balloc_inv ::
    "('log, 'op, 'alc, 'lm, 'd) golib \<Rightarrow> ('alc \<Rightarrow> u64 set) \<Rightarrow> ('alc \<Rightarrow> u64 set) \<Rightarrow>
     ('d, 'op, 'alc) AllocTxn \<Rightarrow> bool" where
  "balloc_inv G used arange atxn \<longleftrightarrow>
     (\<forall>n \<in> arange (Balloc atxn) - used (Balloc atxn).
        valid_bnum atxn n \<and> blk G (Op atxn) n = replicate 4096 0)"

text \<open>
  The numbers in use are those that were in use when the transaction began (\<open>ub\<close>, \<open>ui\<close>) and
  those it has allocated since.
\<close>

definition alloc_since ::
    "('alc \<Rightarrow> u64 set) \<Rightarrow> ('alc \<Rightarrow> u64 set) \<Rightarrow> u64 set \<Rightarrow> u64 set \<Rightarrow> ('d, 'op, 'alc) AllocTxn \<Rightarrow> bool" where
  "alloc_since used arange ub ui atxn \<longleftrightarrow>
     used (Balloc atxn) = ub \<union> set (allocBnums atxn) \<and> set (allocBnums atxn) \<inter> ub = {} \<and>
     set (allocBnums atxn) \<subseteq> arange (Balloc atxn) \<and>
     used (Ialloc atxn) = ui \<union> set (allocInums atxn) \<and> set (allocInums atxn) \<inter> ui = {} \<and>
     set (allocInums atxn) \<subseteq> arange (Ialloc atxn)"

text \<open>What a transaction can do between its beginning and its end.\<close>

inductive atxn_run ::
    "('log, 'op, 'alc, 'lm, 'd) golib \<Rightarrow> ('d, 'op, 'alc) AllocTxn \<Rightarrow> ('d, 'op, 'alc) AllocTxn \<Rightarrow> bool"
  for G s where
  run_start: "atxn_run G s s"
| run_alloc_block: "atxn_run G s t \<Longrightarrow> AllocBlock G t = Inr (b, u) \<Longrightarrow> atxn_run G s u"
| run_alloc_inum: "atxn_run G s t \<Longrightarrow> AllocINum G t = (i, u) \<Longrightarrow> atxn_run G s u"
| run_free_block: "atxn_run G s t \<Longrightarrow> FreeBlock G b t = Inr u \<Longrightarrow> atxn_run G s u"
| run_free_inum: "atxn_run G s t \<Longrightarrow> atxn_run G s (FreeINum i t)"
| run_write: "atxn_run G s t \<Longrightarrow> atxn_run G s (t\<lparr>Op := op'\<rparr>)"

lemma FreeBlock_Inr:
  assumes "FreeBlock G b atxn = Inr atxn'"
  shows "at_Super atxn' = at_Super atxn" "Balloc atxn' = Balloc atxn" "Ialloc atxn' = Ialloc atxn"
    "allocBnums atxn' = allocBnums atxn" "allocInums atxn' = allocInums atxn" "freeInums atxn' = freeInums atxn"
    "freeBnums atxn' = freeBnums atxn @ (if b = 0 then [] else [b])"
  using assms by (auto simp: FreeBlock_def ZeroBlock_def bnd_eq_Inr split: if_splits)

lemma AllocBlock_Inr:
  assumes "AllocBlock G atxn = Inr (b, atxn')"
  shows "\<exists>balloc. AllocNum G (Balloc atxn) = (b, balloc) \<and>
           atxn' = atxn\<lparr>Balloc := balloc, allocBnums := allocBnums atxn @ (if b = NULLBNUM G then [] else [b])\<rparr>"
  using assms by (cases "AllocNum G (Balloc atxn)") (auto simp: AllocBlock_def bnd_eq_Inr Let_def split: if_splits)

lemma AllocINum_eq:
  assumes "AllocINum G atxn = (i, atxn')"
  shows "\<exists>ialloc. AllocNum G (Ialloc atxn) = (i, ialloc) \<and>
           atxn' = atxn\<lparr>Ialloc := ialloc, allocInums := allocInums atxn @ (if i = NULLINUM G then [] else [i])\<rparr>"
  using assms by (cases "AllocNum G (Ialloc atxn)") (auto simp: AllocINum_def Let_def split: if_splits)

context gojournal
begin

lemma AllocBlock_ok:
  assumes inv: "balloc_inv G used arange atxn"
  obtains bn atxn' where "AllocBlock G atxn = Inr (bn, atxn')"
    and "balloc_inv G used arange atxn'" and "Op atxn' = Op atxn" and "at_Super atxn' = at_Super atxn"
    and "arange (Balloc atxn') = arange (Balloc atxn)"
    and "bn = 0 \<Longrightarrow> used (Balloc atxn') = used (Balloc atxn)"
    and "bn = 0 \<Longrightarrow> arange (Balloc atxn) \<subseteq> used (Balloc atxn)"
    and "bn \<noteq> 0 \<Longrightarrow> bn \<in> arange (Balloc atxn)" and "bn \<noteq> 0 \<Longrightarrow> bn \<notin> used (Balloc atxn)"
    and "bn \<noteq> 0 \<Longrightarrow> used (Balloc atxn') = insert bn (used (Balloc atxn))"
    and "bn \<noteq> 0 \<Longrightarrow> valid_bnum atxn bn"
    and "bn \<noteq> 0 \<Longrightarrow> blk G (Op atxn) bn = replicate 4096 0"
proof -
  obtain bn balloc where n: "AllocNum G (Balloc atxn) = (bn, balloc)" by (cases "AllocNum G (Balloc atxn)")
  define atxn' where "atxn' = (let a = atxn\<lparr>Balloc := balloc\<rparr> in
    if bn \<noteq> 0 then a\<lparr>allocBnums := allocBnums a @ [bn]\<rparr> else a)"
  have r: "arange balloc = arange (Balloc atxn)" using alloc_range [OF n] .
  have s: "bn \<in> arange (Balloc atxn)" "bn \<notin> used (Balloc atxn)" "used balloc = insert bn (used (Balloc atxn))"
    if "bn \<noteq> 0" using alloc_some [OF n that] by auto
  have z: "used balloc = used (Balloc atxn)" "arange (Balloc atxn) \<subseteq> used (Balloc atxn)" if "bn = 0"
    using alloc_none n that by auto
  have v: "valid_bnum atxn bn" "blk G (Op atxn) bn = replicate 4096 0" if "bn \<noteq> 0"
    using s [OF that] inv by (auto simp: balloc_inv_def)
  have va: "AssertValidBlock bn (atxn\<lparr>Balloc := balloc\<rparr>) = Inr ()"
    using v by (cases "bn = 0") (auto simp: valid_bnum_def intro!: AssertValidBlock_valid)
  have fields: "Op atxn' = Op atxn" "at_Super atxn' = at_Super atxn" "Balloc atxn' = balloc"
    by (simp_all add: atxn'_def Let_def)
  have "balloc_inv G used arange atxn'"
    using inv s z r by (cases "bn = 0") (auto simp: balloc_inv_def fields valid_bnum_def)
  moreover have "AllocBlock G atxn = Inr (bn, atxn')"
    using n va by (simp add: AllocBlock_def atxn'_def Let_def)
  ultimately show thesis
    using that [of bn atxn'] r s z v by (simp add: fields)
qed

lemma AllocBlock_since:
  assumes inv: "alloc_since used arange ub ui atxn" and b: "AllocBlock G atxn = Inr (b, atxn')"
  shows "alloc_since used arange ub ui atxn'"
proof -
  obtain balloc where n: "AllocNum G (Balloc atxn) = (b, balloc)"
    and a: "atxn' = atxn\<lparr>Balloc := balloc, allocBnums := allocBnums atxn @ (if b = 0 then [] else [b])\<rparr>"
    using AllocBlock_Inr [OF b] by auto
  show ?thesis
  proof (cases "b = 0")
    case True
    then show ?thesis using inv alloc_none [of "Balloc atxn" balloc] alloc_range [OF n] n
      by (simp add: alloc_since_def a)
  next
    case False
    with inv alloc_some [OF n False] alloc_range [OF n] show ?thesis
      by (auto simp: alloc_since_def a)
  qed
qed

lemma AllocINum_since:
  assumes inv: "alloc_since used arange ub ui atxn" and i: "AllocINum G atxn = (i, atxn')"
  shows "alloc_since used arange ub ui atxn'"
proof -
  obtain ialloc where n: "AllocNum G (Ialloc atxn) = (i, ialloc)"
    and a: "atxn' = atxn\<lparr>Ialloc := ialloc, allocInums := allocInums atxn @ (if i = 0 then [] else [i])\<rparr>"
    using AllocINum_eq [OF i] by auto
  show ?thesis
  proof (cases "i = 0")
    case True
    then show ?thesis using inv alloc_none [of "Ialloc atxn" ialloc] alloc_range [OF n] n
      by (simp add: alloc_since_def a)
  next
    case False
    with inv alloc_some [OF n False] alloc_range [OF n] show ?thesis
      by (auto simp: alloc_since_def a)
  qed
qed

lemma FreeBlock_since:
  "alloc_since used arange ub ui atxn \<Longrightarrow> FreeBlock G b atxn = Inr atxn' \<Longrightarrow> alloc_since used arange ub ui atxn'"
  using FreeBlock_Inr [of G b atxn atxn'] by (simp add: alloc_since_def)

lemma atxn_run_since:
  assumes "atxn_run G s t" and "alloc_since used arange ub ui s"
  shows "alloc_since used arange ub ui t"
  using assms
proof (induction rule: atxn_run.induct)
  case (run_free_inum t i)
  then show ?case by (simp add: alloc_since_def FreeINum_def)
next
  case (run_write t op')
  then show ?case by (simp add: alloc_since_def)
qed (blast intro: AllocBlock_since AllocINum_since FreeBlock_since)+

lemma used_foldl_FreeNum:
  "set ns \<subseteq> arange a \<Longrightarrow> used (foldl (FreeNum G) a ns) = used a - set ns"
  by (induction ns arbitrary: a) (auto simp: free_num free_range)

end

section \<open>The on-disk bitmaps\<close>

text \<open>Bit \<open>n\<close> of the bitmap that starts at block \<open>start\<close>, as the transaction sees it.\<close>

definition bitmap_bit :: "('log, 'op, 'alc, 'lm, 'd) golib \<Rightarrow> 'op \<Rightarrow> u64 \<Rightarrow> u64 \<Rightarrow> bool" where
  "bitmap_bit G op start n = bit (hd (ReadBuf G op (MkBitAddr G start n) 1)) (unat (n mod 8))"

text \<open>Block numbers that the block bitmap has a bit for, and inode numbers for the inode bitmap.\<close>

definition bits_in_range :: "('d, 'op, 'alc) AllocTxn \<Rightarrow> bool" where
  "bits_in_range atxn \<longleftrightarrow>
     (\<forall>n \<in> set (allocBnums atxn) \<union> set (freeBnums atxn). unat n < 32768 * unat (NBlockBitmap (at_Super atxn))) \<and>
     (\<forall>n \<in> set (allocInums atxn) \<union> set (freeInums atxn). unat n < 32768)"

lemma WriteBits_frame [simp]:
  "at_Super (WriteBits G ns b al atxn) = at_Super atxn"
  "Balloc (WriteBits G ns b al atxn) = Balloc atxn"
  "Ialloc (WriteBits G ns b al atxn) = Ialloc atxn"
  "allocBnums (WriteBits G ns b al atxn) = allocBnums atxn"
  "freeBnums (WriteBits G ns b al atxn) = freeBnums atxn"
  "allocInums (WriteBits G ns b al atxn) = allocInums atxn"
  "freeInums (WriteBits G ns b al atxn) = freeInums atxn"
  by (induction ns arbitrary: atxn) (simp_all add: Let_def)

lemma PreCommit_frame [simp]:
  "at_Super (PreCommit G atxn) = at_Super atxn"
  "Balloc (PreCommit G atxn) = Balloc atxn"
  "Ialloc (PreCommit G atxn) = Ialloc atxn"
  "allocBnums (PreCommit G atxn) = allocBnums atxn"
  "freeBnums (PreCommit G atxn) = freeBnums atxn"
  "allocInums (PreCommit G atxn) = allocInums atxn"
  "freeInums (PreCommit G atxn) = freeInums atxn"
  by (simp_all add: PreCommit_def Let_def)

context gojournal
begin

lemma mod8: "unat (n mod 32768 :: u64) mod 8 = unat (n mod 8)"
proof -
  have "unat n mod 32768 mod 8 = unat n mod 8" by (rule mod_mod_cancel) simp
  then show ?thesis by (simp add: unat_mod)
qed

lemma MkBitAddr_inj: "MkBitAddr G s n = MkBitAddr G s m \<longleftrightarrow> n = m"
proof
  assume "MkBitAddr G s n = MkBitAddr G s m"
  then have "n div 32768 = m div 32768" "n mod 32768 = m mod 32768" by simp_all
  then have "unat n div 32768 = unat m div 32768" "unat n mod 32768 = unat m mod 32768"
    using unat_div [of n 32768] unat_div [of m 32768] unat_mod [of n 32768] unat_mod [of m 32768] by simp_all
  then have "unat n = unat m" by (metis div_mult_mod_eq)
  then show "n = m" by (rule u64_eqI)
qed simp

lemma bitmap_bit_write:
  "bitmap_bit G (OverWrite G op (MkBitAddr G s m) 1 [x]) s' n \<longleftrightarrow>
     (if MkBitAddr G s' n = MkBitAddr G s m then bit x (unat (n mod 8)) else bitmap_bit G op s' n)"
proof -
  have "unat (n mod 8) = unat (m mod 8)" if "n mod 32768 = m mod 32768"
    using that mod8 [of n] mod8 [of m] by simp
  with ow_bit [of op "MkBitAddr G s m" x "MkBitAddr G s' n"] show ?thesis
    by (auto simp: bitmap_bit_def mod8)
qed

lemma alloc_byte: "bit (push_bit (unat (n mod 8 :: u64)) 1 :: byte) (unat (n mod 8))"
proof -
  have "unat (n mod 8) < 8" by (simp add: unat_mod)
  then show ?thesis by (simp add: bit_exp_iff)
qed

lemma WriteBits_bit:
  "bitmap_bit G (Op (WriteBits G ns s al atxn)) s n \<longleftrightarrow>
     (if n \<in> set ns then al else bitmap_bit G (Op atxn) s n)"
proof (induction ns arbitrary: atxn)
  case (Cons m ns)
  have "unat (n mod 8) < 8" by (simp add: unat_mod)
  with alloc_byte [of n] show ?case
    by (auto simp: Cons.IH Let_def bitmap_bit_write bit_not_iff simp del: MkBitAddr simp: MkBitAddr_inj)
qed simp

lemma WriteBits_other:
  "(\<And>m. m \<in> set ns \<Longrightarrow> MkBitAddr G s' n \<noteq> MkBitAddr G s m) \<Longrightarrow>
     bitmap_bit G (Op (WriteBits G ns s al atxn)) s' n = bitmap_bit G (Op atxn) s' n"
  by (induction ns arbitrary: atxn) (simp_all add: Let_def bitmap_bit_write del: MkBitAddr)

lemma block_inode_bits_disjoint:
  assumes wf: "super_wf G super" and n: "unat n < 32768 * unat (NBlockBitmap super)" and m: "unat m < 32768"
  shows "MkBitAddr G (BitmapBlockStart super) n \<noteq> MkBitAddr G (BitmapInodeStart super) m"
proof
  assume "MkBitAddr G (BitmapBlockStart super) n = MkBitAddr G (BitmapInodeStart super) m"
  then have "BitmapBlockStart super + n div 32768 = BitmapBlockStart super + (NBlockBitmap super + m div 32768)"
    by (simp add: BitmapInodeStart_def add.assoc)
  then have "n div 32768 = NBlockBitmap super + m div 32768" by simp
  moreover have "m div 32768 = 0" using m by (intro u64_eqI) (simp add: unat_div)
  ultimately have "unat n div 32768 = unat (NBlockBitmap super)"
    using unat_div [of n 32768] by simp
  then show False using n by (simp add: less_mult_imp_div_less mult.commute)
qed

lemma PreCommit_block_bit:
  assumes "super_wf G (at_Super atxn)" and "bits_in_range atxn"
    and "unat n < 32768 * unat (NBlockBitmap (at_Super atxn))"
  shows "bitmap_bit G (Op (PreCommit G atxn)) (BitmapBlockStart (at_Super atxn)) n \<longleftrightarrow>
     n \<notin> set (freeBnums atxn) \<and> (n \<in> set (allocBnums atxn) \<or>
       bitmap_bit G (Op atxn) (BitmapBlockStart (at_Super atxn)) n)"
  using assms block_inode_bits_disjoint [OF assms(1,3)]
  by (simp add: PreCommit_def Let_def WriteBits_bit WriteBits_other bits_in_range_def del: MkBitAddr)

lemma PreCommit_inode_bit:
  assumes "super_wf G (at_Super atxn)" and "bits_in_range atxn" and "unat n < 32768"
  shows "bitmap_bit G (Op (PreCommit G atxn)) (BitmapInodeStart (at_Super atxn)) n \<longleftrightarrow>
     n \<notin> set (freeInums atxn) \<and> (n \<in> set (allocInums atxn) \<or>
       bitmap_bit G (Op atxn) (BitmapInodeStart (at_Super atxn)) n)"
  using assms block_inode_bits_disjoint [OF assms(1) _ assms(3)]
  by (simp add: PreCommit_def Let_def WriteBits_bit WriteBits_other bits_in_range_def eq_commute del: MkBitAddr)

end

section \<open>Properties\<close>

text \<open>C18: whatever a transaction has allocated, freed and written, aborting it leaves both in-memory
  allocators with exactly the numbers in use that they had when the transaction began.\<close>

theorem abort_restores_allocators:
  assumes "gojournal G on used arange held"
    and "atxn_run G (AllocTxn_Begin G super lg balloc ialloc) t"
  shows "used (Balloc (PostAbort G t)) = used balloc \<and> used (Ialloc (PostAbort G t)) = used ialloc"
proof -
  have "alloc_since used arange (used balloc) (used ialloc) (AllocTxn_Begin G super lg balloc ialloc)"
    by (simp add: alloc_since_def AllocTxn_Begin_def)
  with gojournal.atxn_run_since [OF assms] have "alloc_since used arange (used balloc) (used ialloc) t" .
  then show ?thesis
    by (auto simp: alloc_since_def PostAbort_def gojournal.used_foldl_FreeNum [OF assms(1)])
qed

text \<open>A transaction on the reference instance that has allocated one inode.\<close>

definition ex_super :: "ref_disk FsSuper" where
  "ex_super = MkFsSuper ref_lib (2000, \<lambda>_. [])"

definition ex_begin :: "(ref_disk, ref_op, bool list) AllocTxn" where
  "ex_begin = AllocTxn_Begin ref_lib ex_super (\<lambda>_ _. 0) [] [False, False, False]"

definition ex_txn :: "(ref_disk, ref_op, bool list) AllocTxn" where
  "ex_txn = snd (AllocINum ref_lib ex_begin)"

lemma ex_txn_run: "atxn_run ref_lib ex_begin ex_txn"
  unfolding ex_txn_def
  by (rule run_alloc_inum [OF run_start, of _ _ "fst (AllocINum ref_lib ex_begin)"]) simp

lemma ex_txn_eq: "ex_txn = ex_begin\<lparr>Ialloc := [False, True, False], allocInums := [1]\<rparr>"
  by (simp add: ex_txn_def ex_begin_def AllocINum_def AllocTxn_Begin_def ref_lib_def ref_alloc_def Let_def)

lemma ex_super_wf: "super_wf ref_lib ex_super"
  by (simp add: super_wf_def ex_super_def MkFsSuper_def ref_lib_def Let_def DataStart_def InodeStart_def
      BitmapInodeStart_def BitmapBlockStart_def)

theorem abort_restores_allocators_witness:
  "allocInums ex_txn = [1] \<and> ref_used (Ialloc (PostAbort ref_lib ex_txn)) = ref_used [False, False, False]"
  using abort_restores_allocators [OF ref_gojournal ex_txn_run [unfolded ex_begin_def]]
  by (simp add: ex_txn_eq)

text \<open>Committing keeps the on-disk bitmaps and the in-memory allocators in agreement: if the bitmap
  bits that the transaction sees were the numbers in use when it began, then the bits that
  \<^const>\<open>PreCommit\<close> writes are the numbers in use after \<^const>\<open>PostCommit\<close>, for every block and every inode.\<close>

theorem commit_bitmaps_agree:
  assumes G: "gojournal G on used arange held"
    and run: "atxn_run G (AllocTxn_Begin G super lg balloc ialloc) t"
    and wf: "super_wf G (at_Super t)" and rng: "bits_in_range t"
    and fb: "set (freeBnums t) \<subseteq> arange (Balloc t)" and fi: "set (freeInums t) \<subseteq> arange (Ialloc t)"
    and b: "\<And>n. unat n < 32768 * unat (NBlockBitmap (at_Super t)) \<Longrightarrow>
              bitmap_bit G (Op t) (BitmapBlockStart (at_Super t)) n \<longleftrightarrow> n \<in> used balloc"
    and i: "\<And>n. unat n < 32768 \<Longrightarrow>
              bitmap_bit G (Op t) (BitmapInodeStart (at_Super t)) n \<longleftrightarrow> n \<in> used ialloc"
  shows "(unat n < 32768 * unat (NBlockBitmap (at_Super t)) \<longrightarrow>
            (bitmap_bit G (Op (PreCommit G t)) (BitmapBlockStart (at_Super t)) n \<longleftrightarrow>
               n \<in> used (Balloc (PostCommit G (PreCommit G t))))) \<and>
         (unat n < 32768 \<longrightarrow>
            (bitmap_bit G (Op (PreCommit G t)) (BitmapInodeStart (at_Super t)) n \<longleftrightarrow>
               n \<in> used (Ialloc (PostCommit G (PreCommit G t)))))"
proof -
  have "alloc_since used arange (used balloc) (used ialloc) (AllocTxn_Begin G super lg balloc ialloc)"
    by (simp add: alloc_since_def AllocTxn_Begin_def)
  then have s: "alloc_since used arange (used balloc) (used ialloc) t"
    by (rule gojournal.atxn_run_since [OF G run])
  show ?thesis
    using s gojournal.PreCommit_block_bit [OF G wf rng, of n] gojournal.PreCommit_inode_bit [OF G wf rng, of n]
      b [of n] i [of n] fb fi
    by (auto simp: PostCommit_def alloc_since_def gojournal.used_foldl_FreeNum [OF G])
qed

lemma ex_txn_bits: "\<not> bitmap_bit ref_lib (Op ex_txn) s n"
  by (simp add: ex_txn_eq ex_begin_def AllocTxn_Begin_def bitmap_bit_def ref_lib_def ref_read_def)

lemma ex_txn_fields:
  "at_Super ex_txn = ex_super" "allocInums ex_txn = [1]" "freeInums ex_txn = []" "allocBnums ex_txn = []"
  "freeBnums ex_txn = []"
  by (simp_all add: ex_txn_eq ex_begin_def AllocTxn_Begin_def)

lemma ref_used_False: "ref_used [] = {}" "ref_used [False, False, False] = {}"
  by (auto simp: ref_used_def nth_Cons' split: if_splits)

theorem commit_bitmaps_agree_witness:
  "bitmap_bit ref_lib (Op (PreCommit ref_lib ex_txn)) (BitmapInodeStart ex_super) 1 \<longleftrightarrow>
     1 \<in> ref_used (Ialloc (PostCommit ref_lib (PreCommit ref_lib ex_txn)))"
proof -
  have "super_wf ref_lib (at_Super ex_txn)" "bits_in_range ex_txn"
    using ex_super_wf by (simp_all add: ex_txn_fields bits_in_range_def)
  from commit_bitmaps_agree [OF ref_gojournal ex_txn_run [unfolded ex_begin_def] this, of 1]
  show ?thesis by (simp add: ex_txn_fields ex_txn_bits ref_used_False)
qed

end
