(* ===== verification/NfsTypes.thy ===== *)
theory NfsTypes
  imports Prelude
begin

text \<open>
  The protocol types of \<^verbatim>\<open>nfstypes/nfs_types.go\<close>: one record per struct, with the field \<open>f\<close> of
  the struct \<open>S\<close> named \<open>S_f\<close>, one type synonym per named scalar type and one abbreviation per
  constant that the server uses. A chain linked through \<^verbatim>\<open>Nextentry\<close> (or \<^verbatim>\<open>Ml_next\<close>, \<^verbatim>\<open>Gr_next\<close>,
  \<^verbatim>\<open>Ex_next\<close>) is the list of its elements, the nil pointer the empty list. \<open>zero_S\<close> is the value
  that Go gives to \<^verbatim>\<open>var x S\<close>. Go strings are their bytes.
\<close>

type_synonym Uint64 = "u64"

type_synonym Uint32 = "u32"

type_synonym Filename3 = "byte list"

type_synonym Nfspath3 = "byte list"

type_synonym Fileid3 = "Uint64"

type_synonym Cookie3 = "Uint64"

type_synonym Cookieverf3 = "byte list"

type_synonym Createverf3 = "byte list"

type_synonym Writeverf3 = "byte list"

type_synonym Uid3 = "Uint32"

type_synonym Gid3 = "Uint32"

type_synonym Size3 = "Uint64"

type_synonym Offset3 = "Uint64"

type_synonym Mode3 = "Uint32"

type_synonym Count3 = "Uint32"

type_synonym Nfsstat3 = "u32"

abbreviation NFS3_OK :: Nfsstat3 where
  "NFS3_OK \<equiv> 0"

abbreviation NFS3ERR_PERM :: Nfsstat3 where
  "NFS3ERR_PERM \<equiv> 1"

abbreviation NFS3ERR_NOENT :: Nfsstat3 where
  "NFS3ERR_NOENT \<equiv> 2"

abbreviation NFS3ERR_IO :: Nfsstat3 where
  "NFS3ERR_IO \<equiv> 5"

abbreviation NFS3ERR_NXIO :: Nfsstat3 where
  "NFS3ERR_NXIO \<equiv> 6"

abbreviation NFS3ERR_ACCES :: Nfsstat3 where
  "NFS3ERR_ACCES \<equiv> 13"

abbreviation NFS3ERR_EXIST :: Nfsstat3 where
  "NFS3ERR_EXIST \<equiv> 17"

abbreviation NFS3ERR_XDEV :: Nfsstat3 where
  "NFS3ERR_XDEV \<equiv> 18"

abbreviation NFS3ERR_NODEV :: Nfsstat3 where
  "NFS3ERR_NODEV \<equiv> 19"

abbreviation NFS3ERR_NOTDIR :: Nfsstat3 where
  "NFS3ERR_NOTDIR \<equiv> 20"

abbreviation NFS3ERR_ISDIR :: Nfsstat3 where
  "NFS3ERR_ISDIR \<equiv> 21"

abbreviation NFS3ERR_INVAL :: Nfsstat3 where
  "NFS3ERR_INVAL \<equiv> 22"

abbreviation NFS3ERR_FBIG :: Nfsstat3 where
  "NFS3ERR_FBIG \<equiv> 27"

abbreviation NFS3ERR_NOSPC :: Nfsstat3 where
  "NFS3ERR_NOSPC \<equiv> 28"

abbreviation NFS3ERR_ROFS :: Nfsstat3 where
  "NFS3ERR_ROFS \<equiv> 30"

abbreviation NFS3ERR_MLINK :: Nfsstat3 where
  "NFS3ERR_MLINK \<equiv> 31"

abbreviation NFS3ERR_NAMETOOLONG :: Nfsstat3 where
  "NFS3ERR_NAMETOOLONG \<equiv> 63"

abbreviation NFS3ERR_NOTEMPTY :: Nfsstat3 where
  "NFS3ERR_NOTEMPTY \<equiv> 66"

abbreviation NFS3ERR_DQUOT :: Nfsstat3 where
  "NFS3ERR_DQUOT \<equiv> 69"

abbreviation NFS3ERR_STALE :: Nfsstat3 where
  "NFS3ERR_STALE \<equiv> 70"

abbreviation NFS3ERR_REMOTE :: Nfsstat3 where
  "NFS3ERR_REMOTE \<equiv> 71"

abbreviation NFS3ERR_BADHANDLE :: Nfsstat3 where
  "NFS3ERR_BADHANDLE \<equiv> 10001"

abbreviation NFS3ERR_NOT_SYNC :: Nfsstat3 where
  "NFS3ERR_NOT_SYNC \<equiv> 10002"

abbreviation NFS3ERR_BAD_COOKIE :: Nfsstat3 where
  "NFS3ERR_BAD_COOKIE \<equiv> 10003"

abbreviation NFS3ERR_NOTSUPP :: Nfsstat3 where
  "NFS3ERR_NOTSUPP \<equiv> 10004"

abbreviation NFS3ERR_TOOSMALL :: Nfsstat3 where
  "NFS3ERR_TOOSMALL \<equiv> 10005"

abbreviation NFS3ERR_SERVERFAULT :: Nfsstat3 where
  "NFS3ERR_SERVERFAULT \<equiv> 10006"

abbreviation NFS3ERR_BADTYPE :: Nfsstat3 where
  "NFS3ERR_BADTYPE \<equiv> 10007"

abbreviation NFS3ERR_JUKEBOX :: Nfsstat3 where
  "NFS3ERR_JUKEBOX \<equiv> 10008"

type_synonym Ftype3 = "u32"

abbreviation NF3REG :: Ftype3 where
  "NF3REG \<equiv> 1"

abbreviation NF3DIR :: Ftype3 where
  "NF3DIR \<equiv> 2"

abbreviation NF3BLK :: Ftype3 where
  "NF3BLK \<equiv> 3"

abbreviation NF3CHR :: Ftype3 where
  "NF3CHR \<equiv> 4"

abbreviation NF3LNK :: Ftype3 where
  "NF3LNK \<equiv> 5"

abbreviation NF3SOCK :: Ftype3 where
  "NF3SOCK \<equiv> 6"

abbreviation NF3FIFO :: Ftype3 where
  "NF3FIFO \<equiv> 7"

record Specdata3 =
  Specdata3_Specdata1 :: Uint32
  Specdata3_Specdata2 :: Uint32

definition zero_Specdata3 :: Specdata3 where
  "zero_Specdata3 = \<lparr>Specdata3_Specdata1 = 0, Specdata3_Specdata2 = 0\<rparr>"

record Nfs_fh3 =
  Nfs_fh3_Data :: "byte list"

definition zero_Nfs_fh3 :: Nfs_fh3 where
  "zero_Nfs_fh3 = \<lparr>Nfs_fh3_Data = []\<rparr>"

record Nfstime3 =
  Nfstime3_Seconds :: Uint32
  Nfstime3_Nseconds :: Uint32

definition zero_Nfstime3 :: Nfstime3 where
  "zero_Nfstime3 = \<lparr>Nfstime3_Seconds = 0, Nfstime3_Nseconds = 0\<rparr>"

record Fattr3 =
  Fattr3_Ftype :: Ftype3
  Fattr3_Mode :: Mode3
  Fattr3_Nlink :: Uint32
  Fattr3_Uid :: Uid3
  Fattr3_Gid :: Gid3
  Fattr3_Size :: Size3
  Fattr3_Used :: Size3
  Fattr3_Rdev :: Specdata3
  Fattr3_Fsid :: Uint64
  Fattr3_Fileid :: Fileid3
  Fattr3_Atime :: Nfstime3
  Fattr3_Mtime :: Nfstime3
  Fattr3_Ctime :: Nfstime3

definition zero_Fattr3 :: Fattr3 where
  "zero_Fattr3 = \<lparr>Fattr3_Ftype = 0, Fattr3_Mode = 0, Fattr3_Nlink = 0, Fattr3_Uid = 0, Fattr3_Gid = 0,
     Fattr3_Size = 0, Fattr3_Used = 0, Fattr3_Rdev = zero_Specdata3, Fattr3_Fsid = 0,
     Fattr3_Fileid = 0, Fattr3_Atime = zero_Nfstime3, Fattr3_Mtime = zero_Nfstime3,
     Fattr3_Ctime = zero_Nfstime3\<rparr>"

record Post_op_attr =
  Post_op_attr_Attributes_follow :: bool
  Post_op_attr_Attributes :: Fattr3

definition zero_Post_op_attr :: Post_op_attr where
  "zero_Post_op_attr = \<lparr>Post_op_attr_Attributes_follow = False, Post_op_attr_Attributes = zero_Fattr3\<rparr>"

record Wcc_attr =
  Wcc_attr_Size :: Size3
  Wcc_attr_Mtime :: Nfstime3
  Wcc_attr_Ctime :: Nfstime3

definition zero_Wcc_attr :: Wcc_attr where
  "zero_Wcc_attr = \<lparr>Wcc_attr_Size = 0, Wcc_attr_Mtime = zero_Nfstime3, Wcc_attr_Ctime = zero_Nfstime3\<rparr>"

record Pre_op_attr =
  Pre_op_attr_Attributes_follow :: bool
  Pre_op_attr_Attributes :: Wcc_attr

definition zero_Pre_op_attr :: Pre_op_attr where
  "zero_Pre_op_attr = \<lparr>Pre_op_attr_Attributes_follow = False, Pre_op_attr_Attributes = zero_Wcc_attr\<rparr>"

record Wcc_data =
  Wcc_data_Before :: Pre_op_attr
  Wcc_data_After :: Post_op_attr

definition zero_Wcc_data :: Wcc_data where
  "zero_Wcc_data = \<lparr>Wcc_data_Before = zero_Pre_op_attr, Wcc_data_After = zero_Post_op_attr\<rparr>"

record Post_op_fh3 =
  Post_op_fh3_Handle_follows :: bool
  Post_op_fh3_Handle :: Nfs_fh3

definition zero_Post_op_fh3 :: Post_op_fh3 where
  "zero_Post_op_fh3 = \<lparr>Post_op_fh3_Handle_follows = False, Post_op_fh3_Handle = zero_Nfs_fh3\<rparr>"

type_synonym Time_how = "u32"

abbreviation DONT_CHANGE :: Time_how where
  "DONT_CHANGE \<equiv> 0"

abbreviation SET_TO_SERVER_TIME :: Time_how where
  "SET_TO_SERVER_TIME \<equiv> 1"

abbreviation SET_TO_CLIENT_TIME :: Time_how where
  "SET_TO_CLIENT_TIME \<equiv> 2"

record Set_mode3 =
  Set_mode3_Set_it :: bool
  Set_mode3_Mode :: Mode3

definition zero_Set_mode3 :: Set_mode3 where
  "zero_Set_mode3 = \<lparr>Set_mode3_Set_it = False, Set_mode3_Mode = 0\<rparr>"

record Set_uid3 =
  Set_uid3_Set_it :: bool
  Set_uid3_Uid :: Uid3

definition zero_Set_uid3 :: Set_uid3 where
  "zero_Set_uid3 = \<lparr>Set_uid3_Set_it = False, Set_uid3_Uid = 0\<rparr>"

record Set_gid3 =
  Set_gid3_Set_it :: bool
  Set_gid3_Gid :: Gid3

definition zero_Set_gid3 :: Set_gid3 where
  "zero_Set_gid3 = \<lparr>Set_gid3_Set_it = False, Set_gid3_Gid = 0\<rparr>"

record Set_size3 =
  Set_size3_Set_it :: bool
  Set_size3_Size :: Size3

definition zero_Set_size3 :: Set_size3 where
  "zero_Set_size3 = \<lparr>Set_size3_Set_it = False, Set_size3_Size = 0\<rparr>"

record Set_atime =
  Set_atime_Set_it :: Time_how
  Set_atime_Atime :: Nfstime3

definition zero_Set_atime :: Set_atime where
  "zero_Set_atime = \<lparr>Set_atime_Set_it = 0, Set_atime_Atime = zero_Nfstime3\<rparr>"

record Set_mtime =
  Set_mtime_Set_it :: Time_how
  Set_mtime_Mtime :: Nfstime3

definition zero_Set_mtime :: Set_mtime where
  "zero_Set_mtime = \<lparr>Set_mtime_Set_it = 0, Set_mtime_Mtime = zero_Nfstime3\<rparr>"

record Sattr3 =
  Sattr3_Mode :: Set_mode3
  Sattr3_Uid :: Set_uid3
  Sattr3_Gid :: Set_gid3
  Sattr3_Size :: Set_size3
  Sattr3_Atime :: Set_atime
  Sattr3_Mtime :: Set_mtime

definition zero_Sattr3 :: Sattr3 where
  "zero_Sattr3 = \<lparr>Sattr3_Mode = zero_Set_mode3, Sattr3_Uid = zero_Set_uid3, Sattr3_Gid =
     zero_Set_gid3, Sattr3_Size = zero_Set_size3, Sattr3_Atime = zero_Set_atime,
     Sattr3_Mtime = zero_Set_mtime\<rparr>"

record Diropargs3 =
  Diropargs3_Dir :: Nfs_fh3
  Diropargs3_Name :: Filename3

definition zero_Diropargs3 :: Diropargs3 where
  "zero_Diropargs3 = \<lparr>Diropargs3_Dir = zero_Nfs_fh3, Diropargs3_Name = []\<rparr>"

record GETATTR3args =
  GETATTR3args_Object :: Nfs_fh3

definition zero_GETATTR3args :: GETATTR3args where
  "zero_GETATTR3args = \<lparr>GETATTR3args_Object = zero_Nfs_fh3\<rparr>"

record GETATTR3resok =
  GETATTR3resok_Obj_attributes :: Fattr3

definition zero_GETATTR3resok :: GETATTR3resok where
  "zero_GETATTR3resok = \<lparr>GETATTR3resok_Obj_attributes = zero_Fattr3\<rparr>"

record GETATTR3res =
  GETATTR3res_Status :: Nfsstat3
  GETATTR3res_Resok :: GETATTR3resok

definition zero_GETATTR3res :: GETATTR3res where
  "zero_GETATTR3res = \<lparr>GETATTR3res_Status = 0, GETATTR3res_Resok = zero_GETATTR3resok\<rparr>"

record Sattrguard3 =
  Sattrguard3_Check :: bool
  Sattrguard3_Obj_ctime :: Nfstime3

definition zero_Sattrguard3 :: Sattrguard3 where
  "zero_Sattrguard3 = \<lparr>Sattrguard3_Check = False, Sattrguard3_Obj_ctime = zero_Nfstime3\<rparr>"

record SETATTR3args =
  SETATTR3args_Object :: Nfs_fh3
  SETATTR3args_New_attributes :: Sattr3
  SETATTR3args_Guard :: Sattrguard3

definition zero_SETATTR3args :: SETATTR3args where
  "zero_SETATTR3args = \<lparr>SETATTR3args_Object = zero_Nfs_fh3, SETATTR3args_New_attributes = zero_Sattr3,
     SETATTR3args_Guard = zero_Sattrguard3\<rparr>"

record SETATTR3resok =
  SETATTR3resok_Obj_wcc :: Wcc_data

definition zero_SETATTR3resok :: SETATTR3resok where
  "zero_SETATTR3resok = \<lparr>SETATTR3resok_Obj_wcc = zero_Wcc_data\<rparr>"

record SETATTR3resfail =
  SETATTR3resfail_Obj_wcc :: Wcc_data

definition zero_SETATTR3resfail :: SETATTR3resfail where
  "zero_SETATTR3resfail = \<lparr>SETATTR3resfail_Obj_wcc = zero_Wcc_data\<rparr>"

record SETATTR3res =
  SETATTR3res_Status :: Nfsstat3
  SETATTR3res_Resok :: SETATTR3resok
  SETATTR3res_Resfail :: SETATTR3resfail

definition zero_SETATTR3res :: SETATTR3res where
  "zero_SETATTR3res = \<lparr>SETATTR3res_Status = 0, SETATTR3res_Resok = zero_SETATTR3resok, SETATTR3res_Resfail
     = zero_SETATTR3resfail\<rparr>"

record LOOKUP3args =
  LOOKUP3args_What :: Diropargs3

definition zero_LOOKUP3args :: LOOKUP3args where
  "zero_LOOKUP3args = \<lparr>LOOKUP3args_What = zero_Diropargs3\<rparr>"

record LOOKUP3resok =
  LOOKUP3resok_Object :: Nfs_fh3
  LOOKUP3resok_Obj_attributes :: Post_op_attr
  LOOKUP3resok_Dir_attributes :: Post_op_attr

definition zero_LOOKUP3resok :: LOOKUP3resok where
  "zero_LOOKUP3resok = \<lparr>LOOKUP3resok_Object = zero_Nfs_fh3, LOOKUP3resok_Obj_attributes = zero_Post_op_attr,
     LOOKUP3resok_Dir_attributes = zero_Post_op_attr\<rparr>"

record LOOKUP3resfail =
  LOOKUP3resfail_Dir_attributes :: Post_op_attr

definition zero_LOOKUP3resfail :: LOOKUP3resfail where
  "zero_LOOKUP3resfail = \<lparr>LOOKUP3resfail_Dir_attributes = zero_Post_op_attr\<rparr>"

record LOOKUP3res =
  LOOKUP3res_Status :: Nfsstat3
  LOOKUP3res_Resok :: LOOKUP3resok
  LOOKUP3res_Resfail :: LOOKUP3resfail

definition zero_LOOKUP3res :: LOOKUP3res where
  "zero_LOOKUP3res = \<lparr>LOOKUP3res_Status = 0, LOOKUP3res_Resok = zero_LOOKUP3resok, LOOKUP3res_Resfail =
     zero_LOOKUP3resfail\<rparr>"

abbreviation ACCESS3_READ :: u32 where
  "ACCESS3_READ \<equiv> 1"

abbreviation ACCESS3_LOOKUP :: u32 where
  "ACCESS3_LOOKUP \<equiv> 2"

abbreviation ACCESS3_MODIFY :: u32 where
  "ACCESS3_MODIFY \<equiv> 4"

abbreviation ACCESS3_EXTEND :: u32 where
  "ACCESS3_EXTEND \<equiv> 8"

abbreviation ACCESS3_DELETE :: u32 where
  "ACCESS3_DELETE \<equiv> 16"

abbreviation ACCESS3_EXECUTE :: u32 where
  "ACCESS3_EXECUTE \<equiv> 32"

record ACCESS3args =
  ACCESS3args_Object :: Nfs_fh3
  ACCESS3args_Access :: Uint32

definition zero_ACCESS3args :: ACCESS3args where
  "zero_ACCESS3args = \<lparr>ACCESS3args_Object = zero_Nfs_fh3, ACCESS3args_Access = 0\<rparr>"

record ACCESS3resok =
  ACCESS3resok_Obj_attributes :: Post_op_attr
  ACCESS3resok_Access :: Uint32

definition zero_ACCESS3resok :: ACCESS3resok where
  "zero_ACCESS3resok = \<lparr>ACCESS3resok_Obj_attributes = zero_Post_op_attr, ACCESS3resok_Access = 0\<rparr>"

record ACCESS3resfail =
  ACCESS3resfail_Obj_attributes :: Post_op_attr

definition zero_ACCESS3resfail :: ACCESS3resfail where
  "zero_ACCESS3resfail = \<lparr>ACCESS3resfail_Obj_attributes = zero_Post_op_attr\<rparr>"

record ACCESS3res =
  ACCESS3res_Status :: Nfsstat3
  ACCESS3res_Resok :: ACCESS3resok
  ACCESS3res_Resfail :: ACCESS3resfail

definition zero_ACCESS3res :: ACCESS3res where
  "zero_ACCESS3res = \<lparr>ACCESS3res_Status = 0, ACCESS3res_Resok = zero_ACCESS3resok, ACCESS3res_Resfail =
     zero_ACCESS3resfail\<rparr>"

record READLINK3args =
  READLINK3args_Symlink :: Nfs_fh3

definition zero_READLINK3args :: READLINK3args where
  "zero_READLINK3args = \<lparr>READLINK3args_Symlink = zero_Nfs_fh3\<rparr>"

record READLINK3resok =
  READLINK3resok_Symlink_attributes :: Post_op_attr
  READLINK3resok_Data :: Nfspath3

definition zero_READLINK3resok :: READLINK3resok where
  "zero_READLINK3resok = \<lparr>READLINK3resok_Symlink_attributes = zero_Post_op_attr, READLINK3resok_Data = []\<rparr>"

record READLINK3resfail =
  READLINK3resfail_Symlink_attributes :: Post_op_attr

definition zero_READLINK3resfail :: READLINK3resfail where
  "zero_READLINK3resfail = \<lparr>READLINK3resfail_Symlink_attributes = zero_Post_op_attr\<rparr>"

record READLINK3res =
  READLINK3res_Status :: Nfsstat3
  READLINK3res_Resok :: READLINK3resok
  READLINK3res_Resfail :: READLINK3resfail

definition zero_READLINK3res :: READLINK3res where
  "zero_READLINK3res = \<lparr>READLINK3res_Status = 0, READLINK3res_Resok = zero_READLINK3resok,
     READLINK3res_Resfail = zero_READLINK3resfail\<rparr>"

record READ3args =
  READ3args_File :: Nfs_fh3
  READ3args_Offset :: Offset3
  READ3args_Count :: Count3

definition zero_READ3args :: READ3args where
  "zero_READ3args = \<lparr>READ3args_File = zero_Nfs_fh3, READ3args_Offset = 0, READ3args_Count = 0\<rparr>"

record READ3resok =
  READ3resok_File_attributes :: Post_op_attr
  READ3resok_Count :: Count3
  READ3resok_Eof :: bool
  READ3resok_Data :: "byte list"

definition zero_READ3resok :: READ3resok where
  "zero_READ3resok = \<lparr>READ3resok_File_attributes = zero_Post_op_attr, READ3resok_Count = 0, READ3resok_Eof
     = False, READ3resok_Data = []\<rparr>"

record READ3resfail =
  READ3resfail_File_attributes :: Post_op_attr

definition zero_READ3resfail :: READ3resfail where
  "zero_READ3resfail = \<lparr>READ3resfail_File_attributes = zero_Post_op_attr\<rparr>"

record READ3res =
  READ3res_Status :: Nfsstat3
  READ3res_Resok :: READ3resok
  READ3res_Resfail :: READ3resfail

definition zero_READ3res :: READ3res where
  "zero_READ3res = \<lparr>READ3res_Status = 0, READ3res_Resok = zero_READ3resok, READ3res_Resfail =
     zero_READ3resfail\<rparr>"

type_synonym Stable_how = "u32"

abbreviation UNSTABLE :: Stable_how where
  "UNSTABLE \<equiv> 0"

abbreviation DATA_SYNC :: Stable_how where
  "DATA_SYNC \<equiv> 1"

abbreviation FILE_SYNC :: Stable_how where
  "FILE_SYNC \<equiv> 2"

record WRITE3args =
  WRITE3args_File :: Nfs_fh3
  WRITE3args_Offset :: Offset3
  WRITE3args_Count :: Count3
  WRITE3args_Stable :: Stable_how
  WRITE3args_Data :: "byte list"

definition zero_WRITE3args :: WRITE3args where
  "zero_WRITE3args = \<lparr>WRITE3args_File = zero_Nfs_fh3, WRITE3args_Offset = 0, WRITE3args_Count = 0,
     WRITE3args_Stable = 0, WRITE3args_Data = []\<rparr>"

record WRITE3resok =
  WRITE3resok_File_wcc :: Wcc_data
  WRITE3resok_Count :: Count3
  WRITE3resok_Committed :: Stable_how
  WRITE3resok_Verf :: Writeverf3

definition zero_WRITE3resok :: WRITE3resok where
  "zero_WRITE3resok = \<lparr>WRITE3resok_File_wcc = zero_Wcc_data, WRITE3resok_Count = 0, WRITE3resok_Committed =
     0, WRITE3resok_Verf = replicate 8 0\<rparr>"

record WRITE3resfail =
  WRITE3resfail_File_wcc :: Wcc_data

definition zero_WRITE3resfail :: WRITE3resfail where
  "zero_WRITE3resfail = \<lparr>WRITE3resfail_File_wcc = zero_Wcc_data\<rparr>"

record WRITE3res =
  WRITE3res_Status :: Nfsstat3
  WRITE3res_Resok :: WRITE3resok
  WRITE3res_Resfail :: WRITE3resfail

definition zero_WRITE3res :: WRITE3res where
  "zero_WRITE3res = \<lparr>WRITE3res_Status = 0, WRITE3res_Resok = zero_WRITE3resok, WRITE3res_Resfail =
     zero_WRITE3resfail\<rparr>"

type_synonym Createmode3 = "u32"

abbreviation UNCHECKED :: Createmode3 where
  "UNCHECKED \<equiv> 0"

abbreviation GUARDED :: Createmode3 where
  "GUARDED \<equiv> 1"

abbreviation EXCLUSIVE :: Createmode3 where
  "EXCLUSIVE \<equiv> 2"

record Createhow3 =
  Createhow3_Mode :: Createmode3
  Createhow3_Obj_attributes :: Sattr3
  Createhow3_Verf :: Createverf3

definition zero_Createhow3 :: Createhow3 where
  "zero_Createhow3 = \<lparr>Createhow3_Mode = 0, Createhow3_Obj_attributes = zero_Sattr3, Createhow3_Verf =
     replicate 8 0\<rparr>"

record CREATE3args =
  CREATE3args_Where :: Diropargs3
  CREATE3args_How :: Createhow3

definition zero_CREATE3args :: CREATE3args where
  "zero_CREATE3args = \<lparr>CREATE3args_Where = zero_Diropargs3, CREATE3args_How = zero_Createhow3\<rparr>"

record CREATE3resok =
  CREATE3resok_Obj :: Post_op_fh3
  CREATE3resok_Obj_attributes :: Post_op_attr
  CREATE3resok_Dir_wcc :: Wcc_data

definition zero_CREATE3resok :: CREATE3resok where
  "zero_CREATE3resok = \<lparr>CREATE3resok_Obj = zero_Post_op_fh3, CREATE3resok_Obj_attributes =
     zero_Post_op_attr, CREATE3resok_Dir_wcc = zero_Wcc_data\<rparr>"

record CREATE3resfail =
  CREATE3resfail_Dir_wcc :: Wcc_data

definition zero_CREATE3resfail :: CREATE3resfail where
  "zero_CREATE3resfail = \<lparr>CREATE3resfail_Dir_wcc = zero_Wcc_data\<rparr>"

record CREATE3res =
  CREATE3res_Status :: Nfsstat3
  CREATE3res_Resok :: CREATE3resok
  CREATE3res_Resfail :: CREATE3resfail

definition zero_CREATE3res :: CREATE3res where
  "zero_CREATE3res = \<lparr>CREATE3res_Status = 0, CREATE3res_Resok = zero_CREATE3resok, CREATE3res_Resfail =
     zero_CREATE3resfail\<rparr>"

record MKDIR3args =
  MKDIR3args_Where :: Diropargs3
  MKDIR3args_Attributes :: Sattr3

definition zero_MKDIR3args :: MKDIR3args where
  "zero_MKDIR3args = \<lparr>MKDIR3args_Where = zero_Diropargs3, MKDIR3args_Attributes = zero_Sattr3\<rparr>"

record MKDIR3resok =
  MKDIR3resok_Obj :: Post_op_fh3
  MKDIR3resok_Obj_attributes :: Post_op_attr
  MKDIR3resok_Dir_wcc :: Wcc_data

definition zero_MKDIR3resok :: MKDIR3resok where
  "zero_MKDIR3resok = \<lparr>MKDIR3resok_Obj = zero_Post_op_fh3, MKDIR3resok_Obj_attributes = zero_Post_op_attr,
     MKDIR3resok_Dir_wcc = zero_Wcc_data\<rparr>"

record MKDIR3resfail =
  MKDIR3resfail_Dir_wcc :: Wcc_data

definition zero_MKDIR3resfail :: MKDIR3resfail where
  "zero_MKDIR3resfail = \<lparr>MKDIR3resfail_Dir_wcc = zero_Wcc_data\<rparr>"

record MKDIR3res =
  MKDIR3res_Status :: Nfsstat3
  MKDIR3res_Resok :: MKDIR3resok
  MKDIR3res_Resfail :: MKDIR3resfail

definition zero_MKDIR3res :: MKDIR3res where
  "zero_MKDIR3res = \<lparr>MKDIR3res_Status = 0, MKDIR3res_Resok = zero_MKDIR3resok, MKDIR3res_Resfail =
     zero_MKDIR3resfail\<rparr>"

record Symlinkdata3 =
  Symlinkdata3_Symlink_attributes :: Sattr3
  Symlinkdata3_Symlink_data :: Nfspath3

definition zero_Symlinkdata3 :: Symlinkdata3 where
  "zero_Symlinkdata3 = \<lparr>Symlinkdata3_Symlink_attributes = zero_Sattr3, Symlinkdata3_Symlink_data = []\<rparr>"

record SYMLINK3args =
  SYMLINK3args_Where :: Diropargs3
  SYMLINK3args_Symlink :: Symlinkdata3

definition zero_SYMLINK3args :: SYMLINK3args where
  "zero_SYMLINK3args = \<lparr>SYMLINK3args_Where = zero_Diropargs3, SYMLINK3args_Symlink = zero_Symlinkdata3\<rparr>"

record SYMLINK3resok =
  SYMLINK3resok_Obj :: Post_op_fh3
  SYMLINK3resok_Obj_attributes :: Post_op_attr
  SYMLINK3resok_Dir_wcc :: Wcc_data

definition zero_SYMLINK3resok :: SYMLINK3resok where
  "zero_SYMLINK3resok = \<lparr>SYMLINK3resok_Obj = zero_Post_op_fh3, SYMLINK3resok_Obj_attributes =
     zero_Post_op_attr, SYMLINK3resok_Dir_wcc = zero_Wcc_data\<rparr>"

record SYMLINK3resfail =
  SYMLINK3resfail_Dir_wcc :: Wcc_data

definition zero_SYMLINK3resfail :: SYMLINK3resfail where
  "zero_SYMLINK3resfail = \<lparr>SYMLINK3resfail_Dir_wcc = zero_Wcc_data\<rparr>"

record SYMLINK3res =
  SYMLINK3res_Status :: Nfsstat3
  SYMLINK3res_Resok :: SYMLINK3resok
  SYMLINK3res_Resfail :: SYMLINK3resfail

definition zero_SYMLINK3res :: SYMLINK3res where
  "zero_SYMLINK3res = \<lparr>SYMLINK3res_Status = 0, SYMLINK3res_Resok = zero_SYMLINK3resok, SYMLINK3res_Resfail
     = zero_SYMLINK3resfail\<rparr>"

record Devicedata3 =
  Devicedata3_Dev_attributes :: Sattr3
  Devicedata3_Spec :: Specdata3

definition zero_Devicedata3 :: Devicedata3 where
  "zero_Devicedata3 = \<lparr>Devicedata3_Dev_attributes = zero_Sattr3, Devicedata3_Spec = zero_Specdata3\<rparr>"

record Mknoddata3 =
  Mknoddata3_Ftype :: Ftype3
  Mknoddata3_Device :: Devicedata3
  Mknoddata3_Pipe_attributes :: Sattr3

definition zero_Mknoddata3 :: Mknoddata3 where
  "zero_Mknoddata3 = \<lparr>Mknoddata3_Ftype = 0, Mknoddata3_Device = zero_Devicedata3,
     Mknoddata3_Pipe_attributes = zero_Sattr3\<rparr>"

record MKNOD3args =
  MKNOD3args_Where :: Diropargs3
  MKNOD3args_What :: Mknoddata3

definition zero_MKNOD3args :: MKNOD3args where
  "zero_MKNOD3args = \<lparr>MKNOD3args_Where = zero_Diropargs3, MKNOD3args_What = zero_Mknoddata3\<rparr>"

record MKNOD3resok =
  MKNOD3resok_Obj :: Post_op_fh3
  MKNOD3resok_Obj_attributes :: Post_op_attr
  MKNOD3resok_Dir_wcc :: Wcc_data

definition zero_MKNOD3resok :: MKNOD3resok where
  "zero_MKNOD3resok = \<lparr>MKNOD3resok_Obj = zero_Post_op_fh3, MKNOD3resok_Obj_attributes = zero_Post_op_attr,
     MKNOD3resok_Dir_wcc = zero_Wcc_data\<rparr>"

record MKNOD3resfail =
  MKNOD3resfail_Dir_wcc :: Wcc_data

definition zero_MKNOD3resfail :: MKNOD3resfail where
  "zero_MKNOD3resfail = \<lparr>MKNOD3resfail_Dir_wcc = zero_Wcc_data\<rparr>"

record MKNOD3res =
  MKNOD3res_Status :: Nfsstat3
  MKNOD3res_Resok :: MKNOD3resok
  MKNOD3res_Resfail :: MKNOD3resfail

definition zero_MKNOD3res :: MKNOD3res where
  "zero_MKNOD3res = \<lparr>MKNOD3res_Status = 0, MKNOD3res_Resok = zero_MKNOD3resok, MKNOD3res_Resfail =
     zero_MKNOD3resfail\<rparr>"

record REMOVE3args =
  REMOVE3args_Object :: Diropargs3

definition zero_REMOVE3args :: REMOVE3args where
  "zero_REMOVE3args = \<lparr>REMOVE3args_Object = zero_Diropargs3\<rparr>"

record REMOVE3resok =
  REMOVE3resok_Dir_wcc :: Wcc_data

definition zero_REMOVE3resok :: REMOVE3resok where
  "zero_REMOVE3resok = \<lparr>REMOVE3resok_Dir_wcc = zero_Wcc_data\<rparr>"

record REMOVE3resfail =
  REMOVE3resfail_Dir_wcc :: Wcc_data

definition zero_REMOVE3resfail :: REMOVE3resfail where
  "zero_REMOVE3resfail = \<lparr>REMOVE3resfail_Dir_wcc = zero_Wcc_data\<rparr>"

record REMOVE3res =
  REMOVE3res_Status :: Nfsstat3
  REMOVE3res_Resok :: REMOVE3resok
  REMOVE3res_Resfail :: REMOVE3resfail

definition zero_REMOVE3res :: REMOVE3res where
  "zero_REMOVE3res = \<lparr>REMOVE3res_Status = 0, REMOVE3res_Resok = zero_REMOVE3resok, REMOVE3res_Resfail =
     zero_REMOVE3resfail\<rparr>"

record RMDIR3args =
  RMDIR3args_Object :: Diropargs3

definition zero_RMDIR3args :: RMDIR3args where
  "zero_RMDIR3args = \<lparr>RMDIR3args_Object = zero_Diropargs3\<rparr>"

record RMDIR3resok =
  RMDIR3resok_Dir_wcc :: Wcc_data

definition zero_RMDIR3resok :: RMDIR3resok where
  "zero_RMDIR3resok = \<lparr>RMDIR3resok_Dir_wcc = zero_Wcc_data\<rparr>"

record RMDIR3resfail =
  RMDIR3resfail_Dir_wcc :: Wcc_data

definition zero_RMDIR3resfail :: RMDIR3resfail where
  "zero_RMDIR3resfail = \<lparr>RMDIR3resfail_Dir_wcc = zero_Wcc_data\<rparr>"

record RMDIR3res =
  RMDIR3res_Status :: Nfsstat3
  RMDIR3res_Resok :: RMDIR3resok
  RMDIR3res_Resfail :: RMDIR3resfail

definition zero_RMDIR3res :: RMDIR3res where
  "zero_RMDIR3res = \<lparr>RMDIR3res_Status = 0, RMDIR3res_Resok = zero_RMDIR3resok, RMDIR3res_Resfail =
     zero_RMDIR3resfail\<rparr>"

record RENAME3args =
  RENAME3args_From :: Diropargs3
  RENAME3args_To :: Diropargs3

definition zero_RENAME3args :: RENAME3args where
  "zero_RENAME3args = \<lparr>RENAME3args_From = zero_Diropargs3, RENAME3args_To = zero_Diropargs3\<rparr>"

record RENAME3resok =
  RENAME3resok_Fromdir_wcc :: Wcc_data
  RENAME3resok_Todir_wcc :: Wcc_data

definition zero_RENAME3resok :: RENAME3resok where
  "zero_RENAME3resok = \<lparr>RENAME3resok_Fromdir_wcc = zero_Wcc_data, RENAME3resok_Todir_wcc = zero_Wcc_data\<rparr>"

record RENAME3resfail =
  RENAME3resfail_Fromdir_wcc :: Wcc_data
  RENAME3resfail_Todir_wcc :: Wcc_data

definition zero_RENAME3resfail :: RENAME3resfail where
  "zero_RENAME3resfail = \<lparr>RENAME3resfail_Fromdir_wcc = zero_Wcc_data, RENAME3resfail_Todir_wcc = zero_Wcc_data\<rparr>"

record RENAME3res =
  RENAME3res_Status :: Nfsstat3
  RENAME3res_Resok :: RENAME3resok
  RENAME3res_Resfail :: RENAME3resfail

definition zero_RENAME3res :: RENAME3res where
  "zero_RENAME3res = \<lparr>RENAME3res_Status = 0, RENAME3res_Resok = zero_RENAME3resok, RENAME3res_Resfail =
     zero_RENAME3resfail\<rparr>"

record LINK3args =
  LINK3args_File :: Nfs_fh3
  LINK3args_Link :: Diropargs3

definition zero_LINK3args :: LINK3args where
  "zero_LINK3args = \<lparr>LINK3args_File = zero_Nfs_fh3, LINK3args_Link = zero_Diropargs3\<rparr>"

record LINK3resok =
  LINK3resok_File_attributes :: Post_op_attr
  LINK3resok_Linkdir_wcc :: Wcc_data

definition zero_LINK3resok :: LINK3resok where
  "zero_LINK3resok = \<lparr>LINK3resok_File_attributes = zero_Post_op_attr, LINK3resok_Linkdir_wcc =
     zero_Wcc_data\<rparr>"

record LINK3resfail =
  LINK3resfail_File_attributes :: Post_op_attr
  LINK3resfail_Linkdir_wcc :: Wcc_data

definition zero_LINK3resfail :: LINK3resfail where
  "zero_LINK3resfail = \<lparr>LINK3resfail_File_attributes = zero_Post_op_attr, LINK3resfail_Linkdir_wcc =
     zero_Wcc_data\<rparr>"

record LINK3res =
  LINK3res_Status :: Nfsstat3
  LINK3res_Resok :: LINK3resok
  LINK3res_Resfail :: LINK3resfail

definition zero_LINK3res :: LINK3res where
  "zero_LINK3res = \<lparr>LINK3res_Status = 0, LINK3res_Resok = zero_LINK3resok, LINK3res_Resfail =
     zero_LINK3resfail\<rparr>"

record READDIR3args =
  READDIR3args_Dir :: Nfs_fh3
  READDIR3args_Cookie :: Cookie3
  READDIR3args_Cookieverf :: Cookieverf3
  READDIR3args_Count :: Count3

definition zero_READDIR3args :: READDIR3args where
  "zero_READDIR3args = \<lparr>READDIR3args_Dir = zero_Nfs_fh3, READDIR3args_Cookie = 0, READDIR3args_Cookieverf =
     replicate 8 0, READDIR3args_Count = 0\<rparr>"

record Entry3 =
  Entry3_Fileid :: Fileid3
  Entry3_Name :: Filename3
  Entry3_Cookie :: Cookie3

definition zero_Entry3 :: Entry3 where
  "zero_Entry3 = \<lparr>Entry3_Fileid = 0, Entry3_Name = [], Entry3_Cookie = 0\<rparr>"

record Dirlist3 =
  Dirlist3_Entries :: "Entry3 list"
  Dirlist3_Eof :: bool

definition zero_Dirlist3 :: Dirlist3 where
  "zero_Dirlist3 = \<lparr>Dirlist3_Entries = [], Dirlist3_Eof = False\<rparr>"

record READDIR3resok =
  READDIR3resok_Dir_attributes :: Post_op_attr
  READDIR3resok_Cookieverf :: Cookieverf3
  READDIR3resok_Reply :: Dirlist3

definition zero_READDIR3resok :: READDIR3resok where
  "zero_READDIR3resok = \<lparr>READDIR3resok_Dir_attributes = zero_Post_op_attr, READDIR3resok_Cookieverf =
     replicate 8 0, READDIR3resok_Reply = zero_Dirlist3\<rparr>"

record READDIR3resfail =
  READDIR3resfail_Dir_attributes :: Post_op_attr

definition zero_READDIR3resfail :: READDIR3resfail where
  "zero_READDIR3resfail = \<lparr>READDIR3resfail_Dir_attributes = zero_Post_op_attr\<rparr>"

record READDIR3res =
  READDIR3res_Status :: Nfsstat3
  READDIR3res_Resok :: READDIR3resok
  READDIR3res_Resfail :: READDIR3resfail

definition zero_READDIR3res :: READDIR3res where
  "zero_READDIR3res = \<lparr>READDIR3res_Status = 0, READDIR3res_Resok = zero_READDIR3resok, READDIR3res_Resfail
     = zero_READDIR3resfail\<rparr>"

record READDIRPLUS3args =
  READDIRPLUS3args_Dir :: Nfs_fh3
  READDIRPLUS3args_Cookie :: Cookie3
  READDIRPLUS3args_Cookieverf :: Cookieverf3
  READDIRPLUS3args_Dircount :: Count3
  READDIRPLUS3args_Maxcount :: Count3

definition zero_READDIRPLUS3args :: READDIRPLUS3args where
  "zero_READDIRPLUS3args = \<lparr>READDIRPLUS3args_Dir = zero_Nfs_fh3, READDIRPLUS3args_Cookie = 0,
     READDIRPLUS3args_Cookieverf = replicate 8 0, READDIRPLUS3args_Dircount = 0,
     READDIRPLUS3args_Maxcount = 0\<rparr>"

record Entryplus3 =
  Entryplus3_Fileid :: Fileid3
  Entryplus3_Name :: Filename3
  Entryplus3_Cookie :: Cookie3
  Entryplus3_Name_attributes :: Post_op_attr
  Entryplus3_Name_handle :: Post_op_fh3

definition zero_Entryplus3 :: Entryplus3 where
  "zero_Entryplus3 = \<lparr>Entryplus3_Fileid = 0, Entryplus3_Name = [], Entryplus3_Cookie = 0,
     Entryplus3_Name_attributes = zero_Post_op_attr, Entryplus3_Name_handle =
     zero_Post_op_fh3\<rparr>"

record Dirlistplus3 =
  Dirlistplus3_Entries :: "Entryplus3 list"
  Dirlistplus3_Eof :: bool

definition zero_Dirlistplus3 :: Dirlistplus3 where
  "zero_Dirlistplus3 = \<lparr>Dirlistplus3_Entries = [], Dirlistplus3_Eof = False\<rparr>"

record READDIRPLUS3resok =
  READDIRPLUS3resok_Dir_attributes :: Post_op_attr
  READDIRPLUS3resok_Cookieverf :: Cookieverf3
  READDIRPLUS3resok_Reply :: Dirlistplus3

definition zero_READDIRPLUS3resok :: READDIRPLUS3resok where
  "zero_READDIRPLUS3resok = \<lparr>READDIRPLUS3resok_Dir_attributes = zero_Post_op_attr, READDIRPLUS3resok_Cookieverf =
     replicate 8 0, READDIRPLUS3resok_Reply = zero_Dirlistplus3\<rparr>"

record READDIRPLUS3resfail =
  READDIRPLUS3resfail_Dir_attributes :: Post_op_attr

definition zero_READDIRPLUS3resfail :: READDIRPLUS3resfail where
  "zero_READDIRPLUS3resfail = \<lparr>READDIRPLUS3resfail_Dir_attributes = zero_Post_op_attr\<rparr>"

record READDIRPLUS3res =
  READDIRPLUS3res_Status :: Nfsstat3
  READDIRPLUS3res_Resok :: READDIRPLUS3resok
  READDIRPLUS3res_Resfail :: READDIRPLUS3resfail

definition zero_READDIRPLUS3res :: READDIRPLUS3res where
  "zero_READDIRPLUS3res = \<lparr>READDIRPLUS3res_Status = 0, READDIRPLUS3res_Resok = zero_READDIRPLUS3resok,
     READDIRPLUS3res_Resfail = zero_READDIRPLUS3resfail\<rparr>"

record FSSTAT3args =
  FSSTAT3args_Fsroot :: Nfs_fh3

definition zero_FSSTAT3args :: FSSTAT3args where
  "zero_FSSTAT3args = \<lparr>FSSTAT3args_Fsroot = zero_Nfs_fh3\<rparr>"

record FSSTAT3resok =
  FSSTAT3resok_Obj_attributes :: Post_op_attr
  FSSTAT3resok_Tbytes :: Size3
  FSSTAT3resok_Fbytes :: Size3
  FSSTAT3resok_Abytes :: Size3
  FSSTAT3resok_Tfiles :: Size3
  FSSTAT3resok_Ffiles :: Size3
  FSSTAT3resok_Afiles :: Size3
  FSSTAT3resok_Invarsec :: Uint32

definition zero_FSSTAT3resok :: FSSTAT3resok where
  "zero_FSSTAT3resok = \<lparr>FSSTAT3resok_Obj_attributes = zero_Post_op_attr, FSSTAT3resok_Tbytes = 0,
     FSSTAT3resok_Fbytes = 0, FSSTAT3resok_Abytes = 0, FSSTAT3resok_Tfiles = 0,
     FSSTAT3resok_Ffiles = 0, FSSTAT3resok_Afiles = 0, FSSTAT3resok_Invarsec = 0\<rparr>"

record FSSTAT3resfail =
  FSSTAT3resfail_Obj_attributes :: Post_op_attr

definition zero_FSSTAT3resfail :: FSSTAT3resfail where
  "zero_FSSTAT3resfail = \<lparr>FSSTAT3resfail_Obj_attributes = zero_Post_op_attr\<rparr>"

record FSSTAT3res =
  FSSTAT3res_Status :: Nfsstat3
  FSSTAT3res_Resok :: FSSTAT3resok
  FSSTAT3res_Resfail :: FSSTAT3resfail

definition zero_FSSTAT3res :: FSSTAT3res where
  "zero_FSSTAT3res = \<lparr>FSSTAT3res_Status = 0, FSSTAT3res_Resok = zero_FSSTAT3resok, FSSTAT3res_Resfail =
     zero_FSSTAT3resfail\<rparr>"

abbreviation FSF3_LINK :: u32 where
  "FSF3_LINK \<equiv> 1"

abbreviation FSF3_SYMLINK :: u32 where
  "FSF3_SYMLINK \<equiv> 2"

abbreviation FSF3_HOMOGENEOUS :: u32 where
  "FSF3_HOMOGENEOUS \<equiv> 8"

abbreviation FSF3_CANSETTIME :: u32 where
  "FSF3_CANSETTIME \<equiv> 16"

record FSINFO3args =
  FSINFO3args_Fsroot :: Nfs_fh3

definition zero_FSINFO3args :: FSINFO3args where
  "zero_FSINFO3args = \<lparr>FSINFO3args_Fsroot = zero_Nfs_fh3\<rparr>"

record FSINFO3resok =
  FSINFO3resok_Obj_attributes :: Post_op_attr
  FSINFO3resok_Rtmax :: Uint32
  FSINFO3resok_Rtpref :: Uint32
  FSINFO3resok_Rtmult :: Uint32
  FSINFO3resok_Wtmax :: Uint32
  FSINFO3resok_Wtpref :: Uint32
  FSINFO3resok_Wtmult :: Uint32
  FSINFO3resok_Dtpref :: Uint32
  FSINFO3resok_Maxfilesize :: Size3
  FSINFO3resok_Time_delta :: Nfstime3
  FSINFO3resok_Properties :: Uint32

definition zero_FSINFO3resok :: FSINFO3resok where
  "zero_FSINFO3resok = \<lparr>FSINFO3resok_Obj_attributes = zero_Post_op_attr, FSINFO3resok_Rtmax = 0,
     FSINFO3resok_Rtpref = 0, FSINFO3resok_Rtmult = 0, FSINFO3resok_Wtmax = 0,
     FSINFO3resok_Wtpref = 0, FSINFO3resok_Wtmult = 0, FSINFO3resok_Dtpref = 0,
     FSINFO3resok_Maxfilesize = 0, FSINFO3resok_Time_delta = zero_Nfstime3,
     FSINFO3resok_Properties = 0\<rparr>"

record FSINFO3resfail =
  FSINFO3resfail_Obj_attributes :: Post_op_attr

definition zero_FSINFO3resfail :: FSINFO3resfail where
  "zero_FSINFO3resfail = \<lparr>FSINFO3resfail_Obj_attributes = zero_Post_op_attr\<rparr>"

record FSINFO3res =
  FSINFO3res_Status :: Nfsstat3
  FSINFO3res_Resok :: FSINFO3resok
  FSINFO3res_Resfail :: FSINFO3resfail

definition zero_FSINFO3res :: FSINFO3res where
  "zero_FSINFO3res = \<lparr>FSINFO3res_Status = 0, FSINFO3res_Resok = zero_FSINFO3resok, FSINFO3res_Resfail =
     zero_FSINFO3resfail\<rparr>"

record PATHCONF3args =
  PATHCONF3args_Object :: Nfs_fh3

definition zero_PATHCONF3args :: PATHCONF3args where
  "zero_PATHCONF3args = \<lparr>PATHCONF3args_Object = zero_Nfs_fh3\<rparr>"

record PATHCONF3resok =
  PATHCONF3resok_Obj_attributes :: Post_op_attr
  PATHCONF3resok_Linkmax :: Uint32
  PATHCONF3resok_Name_max :: Uint32
  PATHCONF3resok_No_trunc :: bool
  PATHCONF3resok_Chown_restricted :: bool
  PATHCONF3resok_Case_insensitive :: bool
  PATHCONF3resok_Case_preserving :: bool

definition zero_PATHCONF3resok :: PATHCONF3resok where
  "zero_PATHCONF3resok = \<lparr>PATHCONF3resok_Obj_attributes = zero_Post_op_attr, PATHCONF3resok_Linkmax = 0,
     PATHCONF3resok_Name_max = 0, PATHCONF3resok_No_trunc = False,
     PATHCONF3resok_Chown_restricted = False, PATHCONF3resok_Case_insensitive = False,
     PATHCONF3resok_Case_preserving = False\<rparr>"

record PATHCONF3resfail =
  PATHCONF3resfail_Obj_attributes :: Post_op_attr

definition zero_PATHCONF3resfail :: PATHCONF3resfail where
  "zero_PATHCONF3resfail = \<lparr>PATHCONF3resfail_Obj_attributes = zero_Post_op_attr\<rparr>"

record PATHCONF3res =
  PATHCONF3res_Status :: Nfsstat3
  PATHCONF3res_Resok :: PATHCONF3resok
  PATHCONF3res_Resfail :: PATHCONF3resfail

definition zero_PATHCONF3res :: PATHCONF3res where
  "zero_PATHCONF3res = \<lparr>PATHCONF3res_Status = 0, PATHCONF3res_Resok = zero_PATHCONF3resok,
     PATHCONF3res_Resfail = zero_PATHCONF3resfail\<rparr>"

record COMMIT3args =
  COMMIT3args_File :: Nfs_fh3
  COMMIT3args_Offset :: Offset3
  COMMIT3args_Count :: Count3

definition zero_COMMIT3args :: COMMIT3args where
  "zero_COMMIT3args = \<lparr>COMMIT3args_File = zero_Nfs_fh3, COMMIT3args_Offset = 0, COMMIT3args_Count = 0\<rparr>"

record COMMIT3resok =
  COMMIT3resok_File_wcc :: Wcc_data
  COMMIT3resok_Verf :: Writeverf3

definition zero_COMMIT3resok :: COMMIT3resok where
  "zero_COMMIT3resok = \<lparr>COMMIT3resok_File_wcc = zero_Wcc_data, COMMIT3resok_Verf = replicate 8 0\<rparr>"

record COMMIT3resfail =
  COMMIT3resfail_File_wcc :: Wcc_data

definition zero_COMMIT3resfail :: COMMIT3resfail where
  "zero_COMMIT3resfail = \<lparr>COMMIT3resfail_File_wcc = zero_Wcc_data\<rparr>"

record COMMIT3res =
  COMMIT3res_Status :: Nfsstat3
  COMMIT3res_Resok :: COMMIT3resok
  COMMIT3res_Resfail :: COMMIT3resfail

definition zero_COMMIT3res :: COMMIT3res where
  "zero_COMMIT3res = \<lparr>COMMIT3res_Status = 0, COMMIT3res_Resok = zero_COMMIT3resok, COMMIT3res_Resfail =
     zero_COMMIT3resfail\<rparr>"

type_synonym Fhandle3 = "byte list"

type_synonym Dirpath3 = "byte list"

type_synonym Name3 = "byte list"

type_synonym Mountstat3 = "u32"

abbreviation MNT3_OK :: Mountstat3 where
  "MNT3_OK \<equiv> 0"

abbreviation MNT3ERR_PERM :: Mountstat3 where
  "MNT3ERR_PERM \<equiv> 1"

abbreviation MNT3ERR_NOENT :: Mountstat3 where
  "MNT3ERR_NOENT \<equiv> 2"

abbreviation MNT3ERR_IO :: Mountstat3 where
  "MNT3ERR_IO \<equiv> 5"

abbreviation MNT3ERR_ACCES :: Mountstat3 where
  "MNT3ERR_ACCES \<equiv> 13"

abbreviation MNT3ERR_NOTDIR :: Mountstat3 where
  "MNT3ERR_NOTDIR \<equiv> 20"

abbreviation MNT3ERR_INVAL :: Mountstat3 where
  "MNT3ERR_INVAL \<equiv> 22"

abbreviation MNT3ERR_NAMETOOLONG :: Mountstat3 where
  "MNT3ERR_NAMETOOLONG \<equiv> 63"

abbreviation MNT3ERR_NOTSUPP :: Mountstat3 where
  "MNT3ERR_NOTSUPP \<equiv> 10004"

abbreviation MNT3ERR_SERVERFAULT :: Mountstat3 where
  "MNT3ERR_SERVERFAULT \<equiv> 10006"

record Mountres3_ok =
  Mountres3_ok_Fhandle :: Fhandle3
  Mountres3_ok_Auth_flavors :: "u32 list"

definition zero_Mountres3_ok :: Mountres3_ok where
  "zero_Mountres3_ok = \<lparr>Mountres3_ok_Fhandle = [], Mountres3_ok_Auth_flavors = []\<rparr>"

record Mountres3 =
  Mountres3_Fhs_status :: Mountstat3
  Mountres3_Mountinfo :: Mountres3_ok

definition zero_Mountres3 :: Mountres3 where
  "zero_Mountres3 = \<lparr>Mountres3_Fhs_status = 0, Mountres3_Mountinfo = zero_Mountres3_ok\<rparr>"

record Mount3 =
  Mount3_Ml_hostname :: Name3
  Mount3_Ml_directory :: Dirpath3

definition zero_Mount3 :: Mount3 where
  "zero_Mount3 = \<lparr>Mount3_Ml_hostname = [], Mount3_Ml_directory = []\<rparr>"

record Mountopt3 =
  Mountopt3_P :: "Mount3 list"

definition zero_Mountopt3 :: Mountopt3 where
  "zero_Mountopt3 = \<lparr>Mountopt3_P = []\<rparr>"

record Groups3 =
  Groups3_Gr_name :: Name3

definition zero_Groups3 :: Groups3 where
  "zero_Groups3 = \<lparr>Groups3_Gr_name = []\<rparr>"

record Exports3 =
  Exports3_Ex_dir :: Dirpath3
  Exports3_Ex_groups :: "Groups3 list"

definition zero_Exports3 :: Exports3 where
  "zero_Exports3 = \<lparr>Exports3_Ex_dir = [], Exports3_Ex_groups = []\<rparr>"

record Exportsopt3 =
  Exportsopt3_P :: "Exports3 list"

definition zero_Exportsopt3 :: Exportsopt3 where
  "zero_Exportsopt3 = \<lparr>Exportsopt3_P = []\<rparr>"

end
