(* ===== verification/Fh.thy ===== *)
theory Fh
  imports GoLib NfsTypes
begin

text \<open>
  \<^verbatim>\<open>fh/nfs_fh.go\<close>: file handles. A handle on the wire is 16 bytes, the inode number and the
  generation number of the inode.
\<close>

record Fh =
  Ino :: u64
  fh_Gen :: u64

definition MakeFh :: "('log, 'op, 'alc, 'lm, 'd) golib \<Rightarrow> Nfs_fh3 \<Rightarrow> Fh res" where
  "MakeFh G fh3 =
     bnd (GetInt G (Nfs_fh3_Data fh3)) (\<lambda>(i, dec).
     bnd (GetInt G dec) (\<lambda>(g, dec).
     Inr \<lparr>Ino = i, fh_Gen = g\<rparr>))"

definition MakeFh3 :: "('log, 'op, 'alc, 'lm, 'd) golib \<Rightarrow> Fh \<Rightarrow> Nfs_fh3 res" where
  "MakeFh3 G fh =
     bnd (Enc G 16 [PutInt (Ino fh), PutInt (fh_Gen fh)]) (\<lambda>d.
     Inr \<lparr>Nfs_fh3_Data = d\<rparr>)"

definition MkRootFh3 :: "('log, 'op, 'alc, 'lm, 'd) golib \<Rightarrow> Nfs_fh3 res" where
  "MkRootFh3 G =
     bnd (Enc G 16 [PutInt (ROOTINUM G), PutInt 1]) (\<lambda>d.
     Inr \<lparr>Nfs_fh3_Data = d\<rparr>)"

definition fh_Equal :: "('log, 'op, 'alc, 'lm, 'd) golib \<Rightarrow> Nfs_fh3 \<Rightarrow> Nfs_fh3 \<Rightarrow> bool" where
  "fh_Equal G h1 h2 = BytesEqual G (Nfs_fh3_Data h1) (Nfs_fh3_Data h2)"

text \<open>
  The contract of an encoder and its decoder, shared by every on-disk and on-the-wire format
  of the server: a well-formed value can be encoded, and decoding gives it back. Two
  well-formed values with one encoding are therefore equal.
\<close>

locale codec =
  fixes wf :: "'a \<Rightarrow> bool"
    and encode :: "'a \<Rightarrow> 'b res"
    and decode :: "'b \<Rightarrow> 'a res"
  assumes decode_encode: "wf x \<Longrightarrow> \<exists>b. encode x = Inr b \<and> decode b = Inr x"
begin

lemma roundtrip: "wf x \<Longrightarrow> bnd (encode x) decode = Inr x"
  using decode_encode [of x] by auto

lemma encode_inj: "wf x \<Longrightarrow> wf y \<Longrightarrow> encode x = encode y \<Longrightarrow> x = y"
  using decode_encode [of x] decode_encode [of y] by auto

lemma encode_decodes: "wf x \<Longrightarrow> encode x = Inr b \<Longrightarrow> decode b = Inr x"
  using decode_encode [of x] by auto

end

sublocale marshal_lib \<subseteq> fh: codec "\<lambda>_. True" "MakeFh3 G" "MakeFh G"
proof unfold_locales
  fix x :: Fh
  obtain b where b: "Enc G 16 [PutInt (Ino x), PutInt (fh_Gen x)] = Inr b"
    using enc_fits [of "[PutInt (Ino x), PutInt (fh_Gen x)]" 16] by auto
  obtain b1 where b1: "GetInt G b = Inr (Ino x, b1)" "Enc G (16 - 8) [PutInt (fh_Gen x)] = Inr b1"
    using get_int [OF b] by auto
  obtain b2 where "GetInt G b1 = Inr (fh_Gen x, b2)"
    using get_int [OF b1(2)] by auto
  with b b1(1) show "\<exists>b. MakeFh3 G x = Inr b \<and> MakeFh G b = Inr x"
    by (simp add: MakeFh_def MakeFh3_def)
qed

end
