(* ===== verification/Dcache.thy ===== *)
theory Dcache
  imports Prelude
begin

text \<open>
  \<^verbatim>\<open>dcache/dcache.go\<close>: the cache of a directory's entries, a map from names to the inode number
  and the offset of the entry, and the offset at which the next insertion starts to look.
\<close>

record Dentry =
  Dentry_Inum :: u64
  Dentry_Off :: u64

record Dcache =
  dc_cache :: "byte list \<rightharpoonup> Dentry"
  Lastoff :: u64

definition MkDcache :: Dcache where
  "MkDcache = \<lparr>dc_cache = Map.empty, Lastoff = 0\<rparr>"

definition dcache_Add :: "byte list \<Rightarrow> u64 \<Rightarrow> u64 \<Rightarrow> Dcache \<Rightarrow> Dcache" where
  "dcache_Add name inum off dc =
     dc\<lparr>dc_cache := (dc_cache dc)(name \<mapsto> \<lparr>Dentry_Inum = inum, Dentry_Off = off\<rparr>)\<rparr>"

text \<open>The pair \<^verbatim>\<open>(d, ok)\<close> of the map access: the zero \<^verbatim>\<open>Dentry\<close> where the name is absent.\<close>

definition dcache_Lookup :: "byte list \<Rightarrow> Dcache \<Rightarrow> Dentry \<times> bool" where
  "dcache_Lookup name dc =
     (case dc_cache dc name of
        Some d \<Rightarrow> (d, True)
      | None \<Rightarrow> (\<lparr>Dentry_Inum = 0, Dentry_Off = 0\<rparr>, False))"

definition dcache_Del :: "byte list \<Rightarrow> Dcache \<Rightarrow> bool \<times> Dcache" where
  "dcache_Del name dc =
     (case dc_cache dc name of
        Some d \<Rightarrow> (True, dc\<lparr>dc_cache := (dc_cache dc)(name := None)\<rparr>)
      | None \<Rightarrow> (False, dc))"

text \<open>The contract of a name cache, with the map it stands for, and its discharge for the code.\<close>

locale name_cache =
  fixes empty :: 'c
    and add :: "byte list \<Rightarrow> u64 \<Rightarrow> u64 \<Rightarrow> 'c \<Rightarrow> 'c"
    and lookup :: "byte list \<Rightarrow> 'c \<Rightarrow> Dentry \<times> bool"
    and del :: "byte list \<Rightarrow> 'c \<Rightarrow> bool \<times> 'c"
    and names :: "'c \<Rightarrow> byte list \<rightharpoonup> u64 \<times> u64"
  assumes names_empty: "names empty = Map.empty"
    and names_add: "names (add n i off c) = (names c)(n \<mapsto> (i, off))"
    and names_lookup: "lookup n c = (case names c n of
          Some (i, off) \<Rightarrow> (\<lparr>Dentry_Inum = i, Dentry_Off = off\<rparr>, True)
        | None \<Rightarrow> (\<lparr>Dentry_Inum = 0, Dentry_Off = 0\<rparr>, False))"
    and names_del: "names (snd (del n c)) = (names c)(n := None)"
    and del_ok: "fst (del n c) \<longleftrightarrow> n \<in> dom (names c)"
begin

lemma lookup_add: "lookup n (add n' i off c) =
    (if n = n' then (\<lparr>Dentry_Inum = i, Dentry_Off = off\<rparr>, True) else lookup n c)"
  by (simp add: names_lookup names_add)

lemma lookup_del: "lookup n (snd (del n' c)) =
    (if n = n' then (\<lparr>Dentry_Inum = 0, Dentry_Off = 0\<rparr>, False) else lookup n c)"
  by (simp add: names_lookup names_del)

lemma lookup_empty: "\<not> snd (lookup n empty)"
  by (simp add: names_lookup names_empty)

end

definition dc_names :: "Dcache \<Rightarrow> byte list \<rightharpoonup> u64 \<times> u64" where
  "dc_names dc n = map_option (\<lambda>d. (Dentry_Inum d, Dentry_Off d)) (dc_cache dc n)"

interpretation dcache: name_cache MkDcache dcache_Add dcache_Lookup dcache_Del dc_names
proof unfold_locales
  fix n c
  show "fst (dcache_Del n c) \<longleftrightarrow> n \<in> dom (dc_names c)"
    by (auto simp: dcache_Del_def dc_names_def dom_def split: option.splits)
qed (auto simp: fun_eq_iff MkDcache_def dcache_Add_def dcache_Lookup_def dcache_Del_def dc_names_def
       split: option.splits)

end
