(* ===== verification/Inode.thy ===== *)
theory Inode
  imports AllocTxn Fh Dcache
begin

text \<open>
  \<^verbatim>\<open>inode/inode.go\<close> and \<^verbatim>\<open>inode/shrink.go\<close>: inodes, their on-disk format, the map from the
  blocks of a file to the blocks of the disk, reading, writing, resizing and shrinking. The
  methods that change the inode or the transaction take both and return both. The level of
  an index block is a natural number (it only counts down the recursion). A loop over the
  blocks of a request takes its number of iterations as fuel; the callers give one more than
  the bytes of the request, and every iteration handles at least one byte.
\<close>

abbreviation NF3FREE :: Ftype3 where
  "NF3FREE \<equiv> 0"

abbreviation NBLKINO :: u64 where
  "NBLKINO \<equiv> 10"

abbreviation NDIRECT :: u64 where
  "NDIRECT \<equiv> 8"

abbreviation INDIRECT :: u64 where
  "INDIRECT \<equiv> 8"

abbreviation DINDIRECT :: u64 where
  "DINDIRECT \<equiv> 9"

definition NBLKBLK :: "('log, 'op, 'alc, 'lm, 'd) golib \<Rightarrow> u64" where
  "NBLKBLK G = BlockSize G div 8"

abbreviation NINDLEVEL :: nat where
  "NINDLEVEL \<equiv> 2"

record Inode =
  Inum :: u64
  inode_Dcache :: "Dcache option"
  Kind :: Ftype3
  Nlink :: u32
  Gen :: u64
  Size :: u64
  ShrinkSize :: u64
  Atime :: Nfstime3
  Mtime :: Nfstime3
  blks :: "u64 list"

definition zero_Inode :: Inode where
  "zero_Inode = \<lparr>Inum = 0, inode_Dcache = None, Kind = 0, Nlink = 0, Gen = 0, Size = 0, ShrinkSize = 0,
     Atime = zero_Nfstime3, Mtime = zero_Nfstime3, blks = []\<rparr>"

definition NfstimeNow :: "('log, 'op, 'alc, 'lm, 'd) golib \<Rightarrow> nat \<Rightarrow> Nfstime3" where
  "NfstimeNow G i = (let now = time_Now G i
     in \<lparr>Nfstime3_Seconds = ucast (fst now), Nfstime3_Nseconds = ucast (snd now)\<rparr>)"

definition InitInode :: "('log, 'op, 'alc, 'lm, 'd) golib \<Rightarrow> u64 \<Rightarrow> Ftype3 \<Rightarrow> Inode \<Rightarrow> Inode" where
  "InitInode G inum kind ip =
     ip\<lparr>Inum := inum, Kind := kind, Nlink := 1, Gen := Gen ip + 1,
        Atime := NfstimeNow G 0, Mtime := NfstimeNow G 1\<rparr>"

definition MkRootInode :: "('log, 'op, 'alc, 'lm, 'd) golib \<Rightarrow> Inode" where
  "MkRootInode G =
     InitInode G (ROOTINUM G) NF3DIR (zero_Inode\<lparr>blks := replicate (unat NBLKINO) 0\<rparr>)"

definition MkFattr :: "Inode \<Rightarrow> Fattr3" where
  "MkFattr ip =
     \<lparr>Fattr3_Ftype = Kind ip, Fattr3_Mode = 511, Fattr3_Nlink = 1, Fattr3_Uid = 0, Fattr3_Gid = 0,
      Fattr3_Size = Size ip, Fattr3_Used = Size ip,
      Fattr3_Rdev = \<lparr>Specdata3_Specdata1 = 0, Specdata3_Specdata2 = 0\<rparr>,
      Fattr3_Fsid = 0, Fattr3_Fileid = Inum ip, Fattr3_Atime = Atime ip, Fattr3_Mtime = Mtime ip,
      Fattr3_Ctime = \<lparr>Nfstime3_Seconds = 0, Nfstime3_Nseconds = 0\<rparr>\<rparr>"

definition Encode :: "('log, 'op, 'alc, 'lm, 'd) golib \<Rightarrow> Inode \<Rightarrow> byte list res" where
  "Encode G ip =
     Enc G (INODESZ G)
       [PutInt32 (Kind ip), PutInt32 (Nlink ip), PutInt (Gen ip), PutInt (Size ip), PutInt (ShrinkSize ip),
        PutInt32 (Nfstime3_Seconds (Atime ip)), PutInt32 (Nfstime3_Nseconds (Atime ip)),
        PutInt32 (Nfstime3_Seconds (Mtime ip)), PutInt32 (Nfstime3_Nseconds (Mtime ip)),
        PutInts (blks ip)]"

definition Decode :: "('log, 'op, 'alc, 'lm, 'd) golib \<Rightarrow> byte list \<Rightarrow> u64 \<Rightarrow> Inode res" where
  "Decode G buf inum =
     bnd (GetInt32 G buf) (\<lambda>(kind, dec).
     bnd (GetInt32 G dec) (\<lambda>(nlink, dec).
     bnd (GetInt G dec) (\<lambda>(gen, dec).
     bnd (GetInt G dec) (\<lambda>(size, dec).
     bnd (GetInt G dec) (\<lambda>(shrinksize, dec).
     bnd (GetInt32 G dec) (\<lambda>(asec, dec).
     bnd (GetInt32 G dec) (\<lambda>(ansec, dec).
     bnd (GetInt32 G dec) (\<lambda>(msec, dec).
     bnd (GetInt32 G dec) (\<lambda>(mnsec, dec).
     bnd (GetInts G NBLKINO dec) (\<lambda>(bs, dec).
     Inr (zero_Inode\<lparr>Inum := inum, Kind := kind, Nlink := nlink, Gen := gen, Size := size,
            ShrinkSize := shrinksize,
            Atime := \<lparr>Nfstime3_Seconds = asec, Nfstime3_Nseconds = ansec\<rparr>,
            Mtime := \<lparr>Nfstime3_Seconds = msec, Nfstime3_Nseconds = mnsec\<rparr>, blks := bs\<rparr>)))))))))))"

fun pow_loop :: "nat \<Rightarrow> u64 \<Rightarrow> u64" where
  "pow_loop 0 p = p"
| "pow_loop (Suc n) p = pow_loop n (p * p)"

definition pow :: "('log, 'op, 'alc, 'lm, 'd) golib \<Rightarrow> nat \<Rightarrow> u64" where
  "pow G level = (if level = 0 then 1 else pow_loop (level - 1) (NBLKBLK G))"

definition MaxFileSize :: "('log, 'op, 'alc, 'lm, 'd) golib \<Rightarrow> u64" where
  "MaxFileSize G = (NDIRECT + pow G NINDLEVEL) * BlockSize G"

definition WriteInode ::
    "('log, 'op, 'alc, 'lm, 'd) golib \<Rightarrow> Inode \<Rightarrow> ('d, 'op, 'alc) AllocTxn \<Rightarrow> ('d, 'op, 'alc) AllocTxn res" where
  "WriteInode G ip atxn =
     (if Inum ip \<ge> NInode G (at_Super atxn) then Inl (Panic ''WriteInode'')
      else bnd (Encode G ip) (\<lambda>d.
           Inr (atxn\<lparr>Op := OverWrite G (Op atxn) (Inum2Addr G (at_Super atxn) (Inum ip)) (INODESZ G * 8) d\<rparr>)))"

definition FreeInode ::
    "('log, 'op, 'alc, 'lm, 'd) golib \<Rightarrow> Inode \<Rightarrow> ('d, 'op, 'alc) AllocTxn \<Rightarrow>
     (Inode \<times> ('d, 'op, 'alc) AllocTxn) res" where
  "FreeInode G ip atxn =
     (let ip = ip\<lparr>Kind := NF3FREE, Gen := Gen ip + 1\<rparr>
      in bnd (WriteInode G ip atxn) (\<lambda>atxn.
         Inr (ip, FreeINum (Inum ip) atxn)))"

section \<open>Shrinking\<close>

definition shrinkFits :: "('log, 'op, 'alc, 'lm, 'd) golib \<Rightarrow> ('d, 'op, 'alc) AllocTxn \<Rightarrow> u64 \<Rightarrow> bool" where
  "shrinkFits G atxn nblk \<longleftrightarrow> NDirty G (Op atxn) + nblk < LogBlocks G"

definition IsShrinking :: "('log, 'op, 'alc, 'lm, 'd) golib \<Rightarrow> Inode \<Rightarrow> bool" where
  "IsShrinking G ip =
     (let cursz = RoundUp G (Size ip) (BlockSize G)
      in ShrinkSize ip > cursz)"

definition freeIndex ::
    "('log, 'op, 'alc, 'lm, 'd) golib \<Rightarrow> u64 \<Rightarrow> Inode \<Rightarrow> ('d, 'op, 'alc) AllocTxn \<Rightarrow>
     (Inode \<times> ('d, 'op, 'alc) AllocTxn) res" where
  "freeIndex G index ip atxn =
     bnd (slice_get (blks ip) index) (\<lambda>b.
     bnd (FreeBlock G b atxn) (\<lambda>atxn.
     bnd (slice_put (blks ip) index 0) (\<lambda>bs.
     Inr (ip\<lparr>blks := bs\<rparr>, atxn))))"

text \<open>
  The buffer \<^verbatim>\<open>b\<close> of an index block is the transaction's own: the store after the recursive
  call goes to its contents at that time.
\<close>

fun indshrink ::
    "('log, 'op, 'alc, 'lm, 'd) golib \<Rightarrow> u64 \<Rightarrow> nat \<Rightarrow> u64 \<Rightarrow> ('d, 'op, 'alc) AllocTxn \<Rightarrow>
     (u64 \<times> ('d, 'op, 'alc) AllocTxn) res" where
  "indshrink G root 0 bn atxn = Inr (if root = NULLBNUM G then 0 else root, atxn)"
| "indshrink G root (Suc l) bn atxn =
     (if root = NULLBNUM G then Inr (0, atxn)
      else
        let divisor = pow G l
        in bnd (guard (divisor \<noteq> 0) ''integer divide by zero'') (\<lambda>_.
        let off = bn div divisor;
            ind = bn mod divisor;
            boff = off * 8
        in bnd (ReadBlock G root atxn) (\<lambda>b.
        bnd (BnumGet G b boff) (\<lambda>nxtroot.
        bnd (AssertValidBlock nxtroot atxn) (\<lambda>_.
        bnd (if nxtroot \<noteq> 0
             then bnd (indshrink G nxtroot l ind atxn) (\<lambda>(freeroot, atxn).
                  if freeroot \<noteq> 0
                  then bnd (BnumPut G (blk G (Op atxn) root) boff 0) (\<lambda>b.
                       FreeBlock G freeroot (StoreBlock G root b atxn))
                  else Inr atxn)
             else Inr atxn) (\<lambda>atxn.
        Inr (if off = 0 \<and> ind = 0 then root else NULLBNUM G, atxn)))))))"

definition shrink_step ::
    "('log, 'op, 'alc, 'lm, 'd) golib \<Rightarrow> Inode \<Rightarrow> ('d, 'op, 'alc) AllocTxn \<Rightarrow>
     (Inode \<times> ('d, 'op, 'alc) AllocTxn) res" where
  "shrink_step G ip atxn =
     (let ip = ip\<lparr>ShrinkSize := ShrinkSize ip - 1\<rparr>
      in if ShrinkSize ip < NDIRECT then freeIndex G (ShrinkSize ip) ip atxn
         else
           let off = ShrinkSize ip - NDIRECT
           in if off < NBLKBLK G
              then bnd (slice_get (blks ip) INDIRECT) (\<lambda>root.
                   bnd (indshrink G root 1 off atxn) (\<lambda>(freeroot, atxn).
                   if freeroot \<noteq> 0 then freeIndex G INDIRECT ip atxn else Inr (ip, atxn)))
              else
                let off = off - NBLKBLK G
                in bnd (slice_get (blks ip) DINDIRECT) (\<lambda>root.
                   bnd (indshrink G root 2 off atxn) (\<lambda>(freeroot, atxn).
                   if freeroot \<noteq> 0 then freeIndex G DINDIRECT ip atxn else Inr (ip, atxn))))"

fun shrink_loop ::
    "('log, 'op, 'alc, 'lm, 'd) golib \<Rightarrow> nat \<Rightarrow> Inode \<Rightarrow> ('d, 'op, 'alc) AllocTxn \<Rightarrow>
     (Inode \<times> ('d, 'op, 'alc) AllocTxn) res" where
  "shrink_loop G fuel ip atxn =
     (if IsShrinking G ip \<and> shrinkFits G atxn 5
      then (case fuel of
              0 \<Rightarrow> Inl NoFuel
            | Suc fuel \<Rightarrow> bnd (shrink_step G ip atxn) (\<lambda>(ip, atxn). shrink_loop G fuel ip atxn))
      else Inr (ip, atxn))"

declare shrink_loop.simps [simp del]

definition Shrink ::
    "('log, 'op, 'alc, 'lm, 'd) golib \<Rightarrow> Inode \<Rightarrow> ('d, 'op, 'alc) AllocTxn \<Rightarrow>
     (bool \<times> Inode \<times> ('d, 'op, 'alc) AllocTxn) res" where
  "Shrink G ip atxn =
     bnd (shrink_loop G (unat (ShrinkSize ip)) ip atxn) (\<lambda>(ip, atxn).
     bnd (WriteInode G ip atxn) (\<lambda>atxn.
     Inr (IsShrinking G ip, ip, atxn)))"

definition Resize ::
    "('log, 'op, 'alc, 'lm, 'd) golib \<Rightarrow> u64 \<Rightarrow> Inode \<Rightarrow> ('d, 'op, 'alc) AllocTxn \<Rightarrow>
     (bool \<times> Inode \<times> ('d, 'op, 'alc) AllocTxn) res" where
  "Resize G sz ip atxn =
     (let oldsz = RoundUp G (Size ip) (BlockSize G);
          ip = ip\<lparr>Size := sz\<rparr>;
          newSz = RoundUp G sz (BlockSize G);
          ip = (if newSz < oldsz then ip\<lparr>ShrinkSize := oldsz\<rparr> else ip\<lparr>ShrinkSize := newSz\<rparr>)
      in bnd (WriteInode G ip atxn) (\<lambda>atxn.
         if newSz < oldsz
         then if shrinkFits G atxn (oldsz - newSz)
              then bnd (Shrink G ip atxn) (\<lambda>(_, ip, atxn). Inr (False, ip, atxn))
              else Inr (True, ip, atxn)
         else Inr (False, ip, atxn)))"

section \<open>The block map\<close>

text \<open>The root of an index tree, allocated if there is none; 0 if that fails.\<close>

definition ind_root ::
    "('log, 'op, 'alc, 'lm, 'd) golib \<Rightarrow> u64 \<Rightarrow> ('d, 'op, 'alc) AllocTxn \<Rightarrow>
     (u64 \<times> ('d, 'op, 'alc) AllocTxn) res" where
  "ind_root G root0 atxn = (if root0 = NULLBNUM G then AllocBlock G atxn else Inr (root0, atxn))"

fun indbmap ::
    "('log, 'op, 'alc, 'lm, 'd) golib \<Rightarrow> u64 \<Rightarrow> nat \<Rightarrow> u64 \<Rightarrow> ('d, 'op, 'alc) AllocTxn \<Rightarrow>
     (u64 \<times> u64 \<times> ('d, 'op, 'alc) AllocTxn) res" where
  "indbmap G root0 0 off atxn =
     bnd (ind_root G root0 atxn) (\<lambda>(root, atxn). Inr (root, root, atxn))"
| "indbmap G root0 (Suc l) off atxn =
     bnd (ind_root G root0 atxn) (\<lambda>(root, atxn).
     if root = NULLBNUM G then Inr (root, root, atxn)
     else
       let divisor = pow G l
       in bnd (guard (divisor \<noteq> 0) ''integer divide by zero'') (\<lambda>_.
       let o8 = off div divisor;
           bo = o8 * 8;
           ind = off mod divisor
       in bnd (ReadBlock G root atxn) (\<lambda>buf.
       bnd (BnumGet G buf bo) (\<lambda>nxtroot.
       bnd (indbmap G nxtroot l ind atxn) (\<lambda>(blkno, newnextroot, atxn).
       bnd (AssertValidBlock newnextroot atxn) (\<lambda>_.
       bnd (AssertValidBlock blkno atxn) (\<lambda>_.
       if newnextroot \<noteq> nxtroot
       then bnd (BnumPut G (blk G (Op atxn) root) bo newnextroot) (\<lambda>buf.
            Inr (blkno, root, StoreBlock G root buf atxn))
       else Inr (blkno, root, atxn))))))))"

definition bmap ::
    "('log, 'op, 'alc, 'lm, 'd) golib \<Rightarrow> u64 \<Rightarrow> Inode \<Rightarrow> ('d, 'op, 'alc) AllocTxn \<Rightarrow>
     (u64 \<times> bool \<times> Inode \<times> ('d, 'op, 'alc) AllocTxn) res" where
  "bmap G bn ip atxn =
     (if bn < NDIRECT
      then bnd (slice_get (blks ip) bn) (\<lambda>b.
           if b = NULLBNUM G
           then bnd (AllocBlock G atxn) (\<lambda>(b, atxn).
                bnd (slice_put (blks ip) bn b) (\<lambda>bs.
                Inr (b, b \<noteq> NULLBNUM G, ip\<lparr>blks := bs\<rparr>, atxn)))
           else Inr (b, False, ip, atxn))
      else
        let off = bn - NDIRECT
        in if off < NBLKBLK G
           then bnd (slice_get (blks ip) INDIRECT) (\<lambda>r.
                bnd (indbmap G r 1 off atxn) (\<lambda>(blkno, root, atxn).
                let alloc = (root \<noteq> r)
                in bnd (if alloc then slice_put (blks ip) INDIRECT root else Inr (blks ip)) (\<lambda>bs.
                Inr (blkno, alloc, ip\<lparr>blks := bs\<rparr>, atxn))))
           else
             let off = off - NBLKBLK G
             in bnd (slice_get (blks ip) DINDIRECT) (\<lambda>r.
                bnd (indbmap G r 2 off atxn) (\<lambda>(blkno, root, atxn).
                bnd (slice_get (blks ip) INDIRECT) (\<lambda>r1.
                let alloc = (root \<noteq> r1)
                in bnd (if alloc then slice_put (blks ip) DINDIRECT root else Inr (blks ip)) (\<lambda>bs.
                Inr (blkno, alloc, ip\<lparr>blks := bs\<rparr>, atxn))))))"

section \<open>Reading and writing\<close>

text \<open>\<^verbatim>\<open>for b := 0; b < n; b++ { data = append(data, buf[off+b]) }\<close>\<close>

definition copy_out :: "byte list \<Rightarrow> u64 \<Rightarrow> u64 \<Rightarrow> byte list res" where
  "copy_out buf off n =
     (if unat n = 0 \<or> unat off + unat n \<le> length buf then Inr (take (unat n) (drop (unat off) buf))
      else Inl (Panic ''index out of range''))"

text \<open>\<^verbatim>\<open>for b := 0; b < n; b++ { buf[off+b] = data[b] }\<close>\<close>

definition copy_in :: "byte list \<Rightarrow> u64 \<Rightarrow> u64 \<Rightarrow> byte list \<Rightarrow> byte list res" where
  "copy_in buf off n data =
     (if unat n = 0 then Inr buf
      else if unat off + unat n \<le> length buf \<and> unat n \<le> length data
      then Inr (take (unat off) buf @ take (unat n) data @ drop (unat off + unat n) buf)
      else Inl (Panic ''index out of range''))"

text \<open>\<^verbatim>\<open>data[0:n]\<close> and \<^verbatim>\<open>data[n:]\<close> of a slice whose capacity is its length.\<close>

definition slice_take :: "u64 \<Rightarrow> byte list \<Rightarrow> byte list res" where
  "slice_take n data =
     (if unat n \<le> length data then Inr (take (unat n) data) else Inl (Panic ''slice bounds out of range''))"

definition slice_drop :: "u64 \<Rightarrow> byte list \<Rightarrow> byte list res" where
  "slice_drop n data =
     (if unat n \<le> length data then Inr (drop (unat n) data) else Inl (Panic ''slice bounds out of range''))"

fun read_loop ::
    "('log, 'op, 'alc, 'lm, 'd) golib \<Rightarrow> nat \<Rightarrow> u64 \<Rightarrow> u64 \<Rightarrow> u64 \<Rightarrow> u64 \<Rightarrow> byte list \<Rightarrow>
     Inode \<Rightarrow> ('d, 'op, 'alc) AllocTxn \<Rightarrow> (byte list \<times> Inode \<times> ('d, 'op, 'alc) AllocTxn) res" where
  "read_loop G fuel count boff n off data ip atxn =
     (if n < count
      then (case fuel of
         0 \<Rightarrow> Inl NoFuel
       | Suc fuel \<Rightarrow>
           (let byteoff = off mod BlockSize G;
                nbytes = uMin G (BlockSize G - byteoff) (count - n)
            in bnd (bmap G boff ip atxn) (\<lambda>(blkno, alloc, ip, atxn).
            if blkno = NULLBNUM G then Inr (data, ip, atxn)
            else
              bnd (if alloc then WriteInode G ip atxn else Inr atxn) (\<lambda>atxn.
              bnd (ReadBlock G blkno atxn) (\<lambda>buf.
              bnd (copy_out buf byteoff nbytes) (\<lambda>bs.
              read_loop G fuel count (boff + 1) (n + nbytes) (off + nbytes) (data @ bs) ip atxn))))))
      else Inr (data, ip, atxn))"

declare read_loop.simps [simp del]

definition Read ::
    "('log, 'op, 'alc, 'lm, 'd) golib \<Rightarrow> u64 \<Rightarrow> u64 \<Rightarrow> Inode \<Rightarrow> ('d, 'op, 'alc) AllocTxn \<Rightarrow>
     (byte list \<times> bool \<times> Inode \<times> ('d, 'op, 'alc) AllocTxn) res" where
  "Read G offset bytesToRead ip atxn =
     (if offset \<ge> Size ip then Inr ([], True, ip, atxn)
      else
        let count = (if offset + bytesToRead \<ge> Size ip then Size ip - offset else bytesToRead)
        in bnd (read_loop G (Suc (unat count)) count (offset div BlockSize G) 0 offset [] ip atxn)
             (\<lambda>(data, ip, atxn). Inr (data, False, ip, atxn)))"

fun write_loop ::
    "('log, 'op, 'alc, 'lm, 'd) golib \<Rightarrow> nat \<Rightarrow> u64 \<Rightarrow> u64 \<Rightarrow> byte list \<Rightarrow> u64 \<Rightarrow> u64 \<Rightarrow> bool \<Rightarrow>
     Inode \<Rightarrow> ('d, 'op, 'alc) AllocTxn \<Rightarrow> (u64 \<times> bool \<times> bool \<times> Inode \<times> ('d, 'op, 'alc) AllocTxn) res" where
  "write_loop G fuel boff n data off cnt alloc ip atxn =
     (if n > 0
      then (case fuel of
         0 \<Rightarrow> Inl NoFuel
       | Suc fuel \<Rightarrow>
           bnd (bmap G boff ip atxn) (\<lambda>(blkno, new, ip, atxn).
           if blkno = NULLBNUM G then Inr (cnt, False, alloc, ip, atxn)
           else
             let alloc = (new \<or> alloc);
                 byteoff = off mod BlockSize G;
                 nbytes = BlockSize G - byteoff;
                 nbytes = (if n < nbytes then n else nbytes)
             in bnd (if byteoff = 0 \<and> nbytes = BlockSize G
                     then bnd (slice_take nbytes data) (\<lambda>d.
                          Inr (atxn\<lparr>Op := OverWrite G (Op atxn) (Block2addr G blkno) (NBITBLOCK G) d\<rparr>))
                     else bnd (ReadBlock G blkno atxn) (\<lambda>buffer.
                          bnd (copy_in buffer byteoff nbytes data) (\<lambda>buffer.
                          Inr (StoreBlock G blkno buffer atxn)))) (\<lambda>atxn.
             bnd (slice_drop nbytes data) (\<lambda>data.
             write_loop G fuel (boff + 1) (n - nbytes) data (off + nbytes) (cnt + nbytes) alloc ip atxn))))
      else Inr (cnt, True, alloc, ip, atxn))"

declare write_loop.simps [simp del]

definition Write ::
    "('log, 'op, 'alc, 'lm, 'd) golib \<Rightarrow> u64 \<Rightarrow> u64 \<Rightarrow> byte list \<Rightarrow> Inode \<Rightarrow> ('d, 'op, 'alc) AllocTxn \<Rightarrow>
     (u64 \<times> bool \<times> Inode \<times> ('d, 'op, 'alc) AllocTxn) res" where
  "Write G offset count dataBuf ip atxn =
     (if offset + count > MaxFileSize G then Inr (0, False, ip, atxn)
      else
        bnd (write_loop G (Suc (unat count)) (offset div BlockSize G) count dataBuf offset 0 False ip atxn)
          (\<lambda>(cnt, ok, alloc, ip, atxn).
          if alloc \<or> cnt > 0
          then let ip = (if offset + cnt > Size ip then ip\<lparr>Size := offset + cnt\<rparr> else ip)
               in bnd (WriteInode G ip atxn) (\<lambda>atxn. Inr (cnt, True, ip, atxn))
          else Inr (cnt, ok, ip, atxn)))"

definition DecLink ::
    "('log, 'op, 'alc, 'lm, 'd) golib \<Rightarrow> Inode \<Rightarrow> ('d, 'op, 'alc) AllocTxn \<Rightarrow>
     (bool \<times> Inode \<times> ('d, 'op, 'alc) AllocTxn) res" where
  "DecLink G ip atxn =
     (let ip = ip\<lparr>Nlink := Nlink ip - 1\<rparr>
      in bnd (WriteInode G ip atxn) (\<lambda>atxn.
         Inr (Nlink ip = 0, ip, atxn)))"

end
