(* ===== verification/Simple.thy ===== *)
theory Simple
  imports Inode
begin

text \<open>
  \<^verbatim>\<open>simple/\<close>: the small NFS server with a fixed set of files of at most one block. Inode \<open>i\<close> is the
  \<open>i\<close>-th object of block 513, its data is block \<open>514 + i\<close>. A handler reads and writes in one journal
  transaction while it holds the lock of the inode. A pointer to the reply is a value that is
  returned updated. \<open>None\<close> is the nil that \<^verbatim>\<open>Mkfs\<close> and \<^verbatim>\<open>MakeNfs\<close> return when the commit fails.
\<close>

definition simple_block2addr :: "('log, 'op, 'alc, 'lm, 'd) golib \<Rightarrow> u64 \<Rightarrow> addr" where
  "simple_block2addr G blkno = MkAddr G blkno 0"

definition simple_nInode :: "('log, 'op, 'alc, 'lm, 'd) golib \<Rightarrow> u64" where
  "simple_nInode G = INODEBLK G"

definition simple_inum2Addr :: "('log, 'op, 'alc, 'lm, 'd) golib \<Rightarrow> u64 \<Rightarrow> addr" where
  "simple_inum2Addr G inum = MkAddr G (LOGSIZE G) (inum * INODESZ G * 8)"

record simple_Fh =
  sfh_Ino :: u64

definition simple_MakeFh :: "('log, 'op, 'alc, 'lm, 'd) golib \<Rightarrow> Nfs_fh3 \<Rightarrow> simple_Fh res" where
  "simple_MakeFh G fh3 = bnd (GetInt G (Nfs_fh3_Data fh3)) (\<lambda>(i, dec). Inr \<lparr>sfh_Ino = i\<rparr>)"

definition simple_MakeFh3 :: "('log, 'op, 'alc, 'lm, 'd) golib \<Rightarrow> simple_Fh \<Rightarrow> Nfs_fh3 res" where
  "simple_MakeFh3 G fh = bnd (Enc G 16 [PutInt (sfh_Ino fh)]) (\<lambda>d. Inr \<lparr>Nfs_fh3_Data = d\<rparr>)"

definition simple_MkRootFh3 :: "('log, 'op, 'alc, 'lm, 'd) golib \<Rightarrow> Nfs_fh3 res" where
  "simple_MkRootFh3 G = bnd (Enc G 16 [PutInt (ROOTINUM G)]) (\<lambda>d. Inr \<lparr>Nfs_fh3_Data = d\<rparr>)"

section \<open>Inodes\<close>

record simple_Inode =
  s_Inum :: u64
  s_Size :: u64
  s_Data :: u64

definition simple_Encode :: "('log, 'op, 'alc, 'lm, 'd) golib \<Rightarrow> simple_Inode \<Rightarrow> byte list res" where
  "simple_Encode G ip = Enc G (INODESZ G) [PutInt (s_Size ip), PutInt (s_Data ip)]"

definition simple_Decode :: "('log, 'op, 'alc, 'lm, 'd) golib \<Rightarrow> byte list \<Rightarrow> u64 \<Rightarrow> simple_Inode res" where
  "simple_Decode G buf inum =
     bnd (GetInt G buf) (\<lambda>(size, dec).
     bnd (GetInt G dec) (\<lambda>(data, dec).
     Inr \<lparr>s_Inum = inum, s_Size = size, s_Data = data\<rparr>))"

definition simple_Read ::
    "('log, 'op, 'alc, 'lm, 'd) golib \<Rightarrow> u64 \<Rightarrow> u64 \<Rightarrow> simple_Inode \<Rightarrow> 'op \<Rightarrow> (byte list \<times> bool) res" where
  "simple_Read G offset bytesToRead ip op =
     (if offset \<ge> s_Size ip then Inr ([], True)
      else
        let count = (if bytesToRead > s_Size ip - offset then s_Size ip - offset else bytesToRead);
            buf = ReadBuf G op (simple_block2addr G (s_Data ip)) (NBITBLOCK G)
        in bnd (copy_out buf offset count) (\<lambda>data.
           Inr (data, offset + count \<ge> s_Size ip)))"

definition simple_WriteInode ::
    "('log, 'op, 'alc, 'lm, 'd) golib \<Rightarrow> simple_Inode \<Rightarrow> 'op \<Rightarrow> 'op res" where
  "simple_WriteInode G ip op =
     bnd (simple_Encode G ip) (\<lambda>d.
     Inr (OverWrite G op (simple_inum2Addr G (s_Inum ip)) (INODESZ G * 8) d))"

definition simple_Write ::
    "('log, 'op, 'alc, 'lm, 'd) golib \<Rightarrow> u64 \<Rightarrow> u64 \<Rightarrow> byte list \<Rightarrow> simple_Inode \<Rightarrow> 'op \<Rightarrow>
     (u64 \<times> bool \<times> simple_Inode \<times> 'op) res" where
  "simple_Write G offset count dataBuf ip op =
     (if count \<noteq> of_nat (length dataBuf) then Inr (0, False, ip, op)
      else if SumOverflows G offset count then Inr (0, False, ip, op)
      else if offset + count > BlockSize G then Inr (0, False, ip, op)
      else if offset > s_Size ip then Inr (0, False, ip, op)
      else
        let a = simple_block2addr G (s_Data ip);
            buffer = ReadBuf G op a (NBITBLOCK G)
        in bnd (copy_in buffer offset count dataBuf) (\<lambda>buffer.
           let op = PutBuf G op a (NBITBLOCK G) buffer
           in if offset + count > s_Size ip
              then let ip = ip\<lparr>s_Size := offset + count\<rparr>
                   in bnd (simple_WriteInode G ip op) (\<lambda>op. Inr (count, True, ip, op))
              else Inr (count, True, ip, op)))"

definition simple_ReadInode ::
    "('log, 'op, 'alc, 'lm, 'd) golib \<Rightarrow> u64 \<Rightarrow> 'op \<Rightarrow> simple_Inode res" where
  "simple_ReadInode G inum op =
     (let buffer = ReadBuf G op (simple_inum2Addr G inum) (INODESZ G * 8)
      in simple_Decode G buffer inum)"

definition simple_MkFattr :: "simple_Inode \<Rightarrow> Fattr3" where
  "simple_MkFattr ip =
     \<lparr>Fattr3_Ftype = NF3REG, Fattr3_Mode = 511, Fattr3_Nlink = 1, Fattr3_Uid = 0, Fattr3_Gid = 0,
      Fattr3_Size = s_Size ip, Fattr3_Used = s_Size ip,
      Fattr3_Rdev = \<lparr>Specdata3_Specdata1 = 0, Specdata3_Specdata2 = 0\<rparr>,
      Fattr3_Fsid = 0, Fattr3_Fileid = s_Inum ip,
      Fattr3_Atime = \<lparr>Nfstime3_Seconds = 0, Nfstime3_Nseconds = 0\<rparr>,
      Fattr3_Mtime = \<lparr>Nfstime3_Seconds = 0, Nfstime3_Nseconds = 0\<rparr>,
      Fattr3_Ctime = \<lparr>Nfstime3_Seconds = 0, Nfstime3_Nseconds = 0\<rparr>\<rparr>"

fun simple_inodeInit_loop :: "('log, 'op, 'alc, 'lm, 'd) golib \<Rightarrow> nat \<Rightarrow> u64 \<Rightarrow> 'op \<Rightarrow> 'op res" where
  "simple_inodeInit_loop G 0 i op = Inr op"
| "simple_inodeInit_loop G (Suc n) i op =
     bnd (simple_ReadInode G i op) (\<lambda>ip.
     bnd (simple_WriteInode G (ip\<lparr>s_Data := LOGSIZE G + 1 + i\<rparr>) op) (\<lambda>op.
     simple_inodeInit_loop G n (i + 1) op))"

definition simple_inodeInit :: "('log, 'op, 'alc, 'lm, 'd) golib \<Rightarrow> 'op \<Rightarrow> 'op res" where
  "simple_inodeInit G op = simple_inodeInit_loop G (unat (simple_nInode G)) 0 op"

section \<open>The server\<close>

record ('log, 'lm) simple_Nfs =
  sn_t :: 'log
  sn_l :: 'lm

definition simple_Mkfs :: "('log, 'op, 'alc, 'lm, 'd) golib \<Rightarrow> 'd \<Rightarrow> 'log option res" where
  "simple_Mkfs G d =
     (let (log, d) = MkLog G d
      in bnd (simple_inodeInit G (jrnl_Begin G log)) (\<lambda>op.
         let (ok, log) = CommitWait G op True log
         in Inr (if \<not> ok then None else Some log)))"

definition simple_Recover :: "('log, 'op, 'alc, 'lm, 'd) golib \<Rightarrow> 'd \<Rightarrow> ('log, 'lm) simple_Nfs" where
  "simple_Recover G d = (let (log, d) = MkLog G d in \<lparr>sn_t = log, sn_l = MkLockMap G\<rparr>)"

definition simple_MakeNfs :: "('log, 'op, 'alc, 'lm, 'd) golib \<Rightarrow> 'd \<Rightarrow> ('log, 'lm) simple_Nfs option res" where
  "simple_MakeNfs G d =
     (let (log, d) = MkLog G d
      in bnd (simple_inodeInit G (jrnl_Begin G log)) (\<lambda>op.
         let (ok, log) = CommitWait G op True log
         in Inr (if \<not> ok then None else Some \<lparr>sn_t = log, sn_l = MkLockMap G\<rparr>)))"

definition simple_fh2ino :: "('log, 'op, 'alc, 'lm, 'd) golib \<Rightarrow> Nfs_fh3 \<Rightarrow> u64 res" where
  "simple_fh2ino G fh3 = bnd (simple_MakeFh G fh3) (\<lambda>fh. Inr (sfh_Ino fh))"

definition simple_rootFattr :: "('log, 'op, 'alc, 'lm, 'd) golib \<Rightarrow> Fattr3" where
  "simple_rootFattr G =
     \<lparr>Fattr3_Ftype = NF3DIR, Fattr3_Mode = 511, Fattr3_Nlink = 1, Fattr3_Uid = 0, Fattr3_Gid = 0,
      Fattr3_Size = 0, Fattr3_Used = 0,
      Fattr3_Rdev = \<lparr>Specdata3_Specdata1 = 0, Specdata3_Specdata2 = 0\<rparr>,
      Fattr3_Fsid = 0, Fattr3_Fileid = ROOTINUM G,
      Fattr3_Atime = \<lparr>Nfstime3_Seconds = 0, Nfstime3_Nseconds = 0\<rparr>,
      Fattr3_Mtime = \<lparr>Nfstime3_Seconds = 0, Nfstime3_Nseconds = 0\<rparr>,
      Fattr3_Ctime = \<lparr>Nfstime3_Seconds = 0, Nfstime3_Nseconds = 0\<rparr>\<rparr>"

definition simple_validInum :: "('log, 'op, 'alc, 'lm, 'd) golib \<Rightarrow> u64 \<Rightarrow> bool" where
  "simple_validInum G inum =
     (if inum = 0 then False else if inum = ROOTINUM G then False
      else if inum \<ge> simple_nInode G then False else True)"

text \<open>
  The frame of a handler: \<^verbatim>\<open>nfs.l.Acquire(inum)\<close>, the work on the transaction begun on the log, and
  \<^verbatim>\<open>nfs.l.Release(inum)\<close>. The work returns the reply and the log.
\<close>

definition simple_locked ::
    "('log, 'op, 'alc, 'lm, 'd) golib \<Rightarrow> u64 \<Rightarrow> ('log \<Rightarrow> ('r \<times> 'log) res) \<Rightarrow> ('log, 'lm) simple_Nfs \<Rightarrow>
     ('r \<times> ('log, 'lm) simple_Nfs) res" where
  "simple_locked G inum f nfs =
     (case Acquire G (sn_l nfs) inum of
        None \<Rightarrow> Inl Deadlock
      | Some l \<Rightarrow>
          bnd (f (sn_t nfs)) (\<lambda>(reply, log).
          Inr (reply, nfs\<lparr>sn_t := log, sn_l := Release G l inum\<rparr>)))"

definition simple_GETATTR_wp ::
    "('log, 'op, 'alc, 'lm, 'd) golib \<Rightarrow> GETATTR3args \<Rightarrow> GETATTR3res \<Rightarrow> u64 \<Rightarrow> 'op \<Rightarrow> GETATTR3res res" where
  "simple_GETATTR_wp G args reply inum op =
     bnd (simple_ReadInode G inum op) (\<lambda>ip.
     Inr (reply\<lparr>GETATTR3res_Resok := (GETATTR3res_Resok reply)\<lparr>GETATTR3resok_Obj_attributes := simple_MkFattr ip\<rparr>\<rparr>))"

definition simple_GETATTR_internal ::
    "('log, 'op, 'alc, 'lm, 'd) golib \<Rightarrow> GETATTR3args \<Rightarrow> GETATTR3res \<Rightarrow> u64 \<Rightarrow> 'op \<Rightarrow> 'log \<Rightarrow>
     (GETATTR3res \<times> 'log) res" where
  "simple_GETATTR_internal G args reply inum op log =
     bnd (simple_GETATTR_wp G args reply inum op) (\<lambda>reply.
     let (ok, log) = CommitWait G op True log
     in Inr (reply\<lparr>GETATTR3res_Status := if ok then NFS3_OK else NFS3ERR_SERVERFAULT\<rparr>, log))"

definition simple_NFSPROC3_GETATTR ::
    "('log, 'op, 'alc, 'lm, 'd) golib \<Rightarrow> GETATTR3args \<Rightarrow> ('log, 'lm) simple_Nfs \<Rightarrow>
     (GETATTR3res \<times> ('log, 'lm) simple_Nfs) res" where
  "simple_NFSPROC3_GETATTR G args nfs =
     (let reply = zero_GETATTR3res
      in bnd (simple_fh2ino G (GETATTR3args_Object args)) (\<lambda>inum.
         if inum = ROOTINUM G
         then Inr (reply\<lparr>GETATTR3res_Status := NFS3_OK, GETATTR3res_Resok :=
                     (GETATTR3res_Resok reply)\<lparr>GETATTR3resok_Obj_attributes := simple_rootFattr G\<rparr>\<rparr>, nfs)
         else if \<not> simple_validInum G inum
         then Inr (reply\<lparr>GETATTR3res_Status := NFS3ERR_INVAL\<rparr>, nfs)
         else simple_locked G inum (\<lambda>log.
                simple_GETATTR_internal G args reply inum (jrnl_Begin G log) log) nfs))"

text \<open>\<^verbatim>\<open>make([]byte, n)\<close>: a panic where \<open>n\<close> is over the largest allocation of the run-time.\<close>

definition make_bytes :: "u64 \<Rightarrow> byte list res" where
  "make_bytes n = (if n > 281474976710656 then Inl (Panic ''makeslice: len out of range'')
                   else Inr (replicate (unat n) 0))"

definition simple_SETATTR_wp ::
    "('log, 'op, 'alc, 'lm, 'd) golib \<Rightarrow> SETATTR3args \<Rightarrow> SETATTR3res \<Rightarrow> u64 \<Rightarrow> 'op \<Rightarrow>
     (bool \<times> SETATTR3res \<times> 'op) res" where
  "simple_SETATTR_wp G args reply inum op =
     bnd (simple_ReadInode G inum op) (\<lambda>ip.
     let attr = SETATTR3args_New_attributes args
     in if Set_size3_Set_it (Sattr3_Size attr)
        then
          let newsize = Set_size3_Size (Sattr3_Size attr)
          in if s_Size ip < newsize
             then bnd (make_bytes (newsize - s_Size ip)) (\<lambda>data.
                  bnd (simple_Write G (s_Size ip) (newsize - s_Size ip) data ip op) (\<lambda>(_, _, ip, op).
                  if s_Size ip \<noteq> newsize
                  then Inr (False, reply\<lparr>SETATTR3res_Status := NFS3ERR_NOSPC\<rparr>, op)
                  else Inr (True, reply, op)))
             else bnd (simple_WriteInode G (ip\<lparr>s_Size := newsize\<rparr>) op) (\<lambda>op.
                  Inr (True, reply, op))
        else Inr (True, reply, op))"

definition simple_SETATTR_internal ::
    "('log, 'op, 'alc, 'lm, 'd) golib \<Rightarrow> SETATTR3args \<Rightarrow> SETATTR3res \<Rightarrow> u64 \<Rightarrow> 'op \<Rightarrow> 'log \<Rightarrow>
     (SETATTR3res \<times> 'log) res" where
  "simple_SETATTR_internal G args reply inum op log =
     bnd (simple_SETATTR_wp G args reply inum op) (\<lambda>(ok1, reply, op).
     if \<not> ok1 then Inr (reply, log)
     else
       let (ok2, log) = CommitWait G op True log
       in Inr (reply\<lparr>SETATTR3res_Status := if ok2 then NFS3_OK else NFS3ERR_SERVERFAULT\<rparr>, log))"

definition simple_NFSPROC3_SETATTR ::
    "('log, 'op, 'alc, 'lm, 'd) golib \<Rightarrow> SETATTR3args \<Rightarrow> ('log, 'lm) simple_Nfs \<Rightarrow>
     (SETATTR3res \<times> ('log, 'lm) simple_Nfs) res" where
  "simple_NFSPROC3_SETATTR G args nfs =
     (let reply = zero_SETATTR3res
      in bnd (simple_fh2ino G (SETATTR3args_Object args)) (\<lambda>inum.
         if \<not> simple_validInum G inum
         then Inr (reply\<lparr>SETATTR3res_Status := NFS3ERR_INVAL\<rparr>, nfs)
         else simple_locked G inum (\<lambda>log.
                simple_SETATTR_internal G args reply inum (jrnl_Begin G log) log) nfs))"

definition simple_NFSPROC3_LOOKUP :: "('log, 'op, 'alc, 'lm, 'd) golib \<Rightarrow> LOOKUP3args \<Rightarrow> LOOKUP3res res" where
  "simple_NFSPROC3_LOOKUP G args =
     (let reply = zero_LOOKUP3res;
          fn = Diropargs3_Name (LOOKUP3args_What args);
          inum = (if fn = [98] then 3 else if fn = [97] then 2 else 0)
      in if \<not> simple_validInum G inum then Inr (reply\<lparr>LOOKUP3res_Status := NFS3ERR_NOENT\<rparr>)
         else bnd (simple_MakeFh3 G \<lparr>sfh_Ino = inum\<rparr>) (\<lambda>fh3.
              Inr (reply\<lparr>LOOKUP3res_Resok := (LOOKUP3res_Resok reply)\<lparr>LOOKUP3resok_Object := fh3\<rparr>,
                         LOOKUP3res_Status := NFS3_OK\<rparr>)))"

definition simple_NFSPROC3_ACCESS :: "ACCESS3args \<Rightarrow> ACCESS3res" where
  "simple_NFSPROC3_ACCESS args =
     (let reply = zero_ACCESS3res
      in reply\<lparr>ACCESS3res_Status := NFS3_OK,
               ACCESS3res_Resok := (ACCESS3res_Resok reply)\<lparr>ACCESS3resok_Access :=
                 ACCESS3_READ OR ACCESS3_LOOKUP OR ACCESS3_MODIFY OR ACCESS3_EXTEND OR ACCESS3_DELETE OR
                 ACCESS3_EXECUTE\<rparr>\<rparr>)"

definition simple_READ_wp ::
    "('log, 'op, 'alc, 'lm, 'd) golib \<Rightarrow> READ3args \<Rightarrow> READ3res \<Rightarrow> u64 \<Rightarrow> 'op \<Rightarrow> READ3res res" where
  "simple_READ_wp G args reply inum op =
     bnd (simple_ReadInode G inum op) (\<lambda>ip.
     bnd (simple_Read G (READ3args_Offset args) (ucast (READ3args_Count args)) ip op) (\<lambda>(data, eof).
     Inr (reply\<lparr>READ3res_Resok := (READ3res_Resok reply)\<lparr>READ3resok_Count := of_nat (length data),
                  READ3resok_Data := data, READ3resok_Eof := eof\<rparr>\<rparr>)))"

definition simple_READ_internal ::
    "('log, 'op, 'alc, 'lm, 'd) golib \<Rightarrow> READ3args \<Rightarrow> READ3res \<Rightarrow> u64 \<Rightarrow> 'op \<Rightarrow> 'log \<Rightarrow>
     (READ3res \<times> 'log) res" where
  "simple_READ_internal G args reply inum op log =
     bnd (simple_READ_wp G args reply inum op) (\<lambda>reply.
     let (ok, log) = CommitWait G op True log
     in Inr (reply\<lparr>READ3res_Status := if ok then NFS3_OK else NFS3ERR_SERVERFAULT\<rparr>, log))"

definition simple_NFSPROC3_READ ::
    "('log, 'op, 'alc, 'lm, 'd) golib \<Rightarrow> READ3args \<Rightarrow> ('log, 'lm) simple_Nfs \<Rightarrow>
     (READ3res \<times> ('log, 'lm) simple_Nfs) res" where
  "simple_NFSPROC3_READ G args nfs =
     (let reply = zero_READ3res
      in bnd (simple_fh2ino G (READ3args_File args)) (\<lambda>inum.
         if \<not> simple_validInum G inum
         then Inr (reply\<lparr>READ3res_Status := NFS3ERR_INVAL\<rparr>, nfs)
         else simple_locked G inum (\<lambda>log.
                simple_READ_internal G args reply inum (jrnl_Begin G log) log) nfs))"

definition simple_WRITE_wp ::
    "('log, 'op, 'alc, 'lm, 'd) golib \<Rightarrow> WRITE3args \<Rightarrow> WRITE3res \<Rightarrow> u64 \<Rightarrow> 'op \<Rightarrow>
     (bool \<times> WRITE3res \<times> 'op) res" where
  "simple_WRITE_wp G args reply inum op =
     bnd (simple_ReadInode G inum op) (\<lambda>ip.
     bnd (simple_Write G (WRITE3args_Offset args) (ucast (WRITE3args_Count args)) (WRITE3args_Data args) ip op)
       (\<lambda>(count, writeok, ip, op).
     if \<not> writeok then Inr (False, reply\<lparr>WRITE3res_Status := NFS3ERR_SERVERFAULT\<rparr>, op)
     else Inr (True, reply\<lparr>WRITE3res_Resok := (WRITE3res_Resok reply)\<lparr>WRITE3resok_Count := ucast count,
                             WRITE3resok_Committed := FILE_SYNC\<rparr>\<rparr>, op)))"

definition simple_WRITE_internal ::
    "('log, 'op, 'alc, 'lm, 'd) golib \<Rightarrow> WRITE3args \<Rightarrow> WRITE3res \<Rightarrow> u64 \<Rightarrow> 'op \<Rightarrow> 'log \<Rightarrow>
     (WRITE3res \<times> 'log) res" where
  "simple_WRITE_internal G args reply inum op log =
     bnd (simple_WRITE_wp G args reply inum op) (\<lambda>(ok1, reply, op).
     if \<not> ok1 then Inr (reply, log)
     else
       let (ok2, log) = CommitWait G op True log
       in Inr (reply\<lparr>WRITE3res_Status := if ok2 then NFS3_OK else NFS3ERR_SERVERFAULT\<rparr>, log))"

definition simple_NFSPROC3_WRITE ::
    "('log, 'op, 'alc, 'lm, 'd) golib \<Rightarrow> WRITE3args \<Rightarrow> ('log, 'lm) simple_Nfs \<Rightarrow>
     (WRITE3res \<times> ('log, 'lm) simple_Nfs) res" where
  "simple_NFSPROC3_WRITE G args nfs =
     (let reply = zero_WRITE3res
      in bnd (simple_fh2ino G (WRITE3args_File args)) (\<lambda>inum.
         if \<not> simple_validInum G inum
         then Inr (reply\<lparr>WRITE3res_Status := NFS3ERR_INVAL\<rparr>, nfs)
         else simple_locked G inum (\<lambda>log.
                simple_WRITE_internal G args reply inum (jrnl_Begin G log) log) nfs))"

definition simple_NFSPROC3_CREATE :: "CREATE3args \<Rightarrow> CREATE3res" where
  "simple_NFSPROC3_CREATE args = zero_CREATE3res\<lparr>CREATE3res_Status := NFS3ERR_NOTSUPP\<rparr>"

definition simple_NFSPROC3_MKDIR :: "MKDIR3args \<Rightarrow> MKDIR3res" where
  "simple_NFSPROC3_MKDIR args = zero_MKDIR3res\<lparr>MKDIR3res_Status := NFS3ERR_NOTSUPP\<rparr>"

definition simple_NFSPROC3_SYMLINK :: "SYMLINK3args \<Rightarrow> SYMLINK3res" where
  "simple_NFSPROC3_SYMLINK args = zero_SYMLINK3res\<lparr>SYMLINK3res_Status := NFS3ERR_NOTSUPP\<rparr>"

definition simple_NFSPROC3_READLINK :: "READLINK3args \<Rightarrow> READLINK3res" where
  "simple_NFSPROC3_READLINK args = zero_READLINK3res\<lparr>READLINK3res_Status := NFS3ERR_NOTSUPP\<rparr>"

definition simple_NFSPROC3_MKNOD :: "MKNOD3args \<Rightarrow> MKNOD3res" where
  "simple_NFSPROC3_MKNOD args = zero_MKNOD3res\<lparr>MKNOD3res_Status := NFS3ERR_NOTSUPP\<rparr>"

definition simple_NFSPROC3_REMOVE :: "REMOVE3args \<Rightarrow> REMOVE3res" where
  "simple_NFSPROC3_REMOVE args = zero_REMOVE3res\<lparr>REMOVE3res_Status := NFS3ERR_NOTSUPP\<rparr>"

definition simple_NFSPROC3_RMDIR :: "RMDIR3args \<Rightarrow> RMDIR3res" where
  "simple_NFSPROC3_RMDIR args = zero_RMDIR3res\<lparr>RMDIR3res_Status := NFS3ERR_NOTSUPP\<rparr>"

definition simple_NFSPROC3_RENAME :: "RENAME3args \<Rightarrow> RENAME3res" where
  "simple_NFSPROC3_RENAME args = zero_RENAME3res\<lparr>RENAME3res_Status := NFS3ERR_NOTSUPP\<rparr>"

definition simple_NFSPROC3_LINK :: "LINK3args \<Rightarrow> LINK3res" where
  "simple_NFSPROC3_LINK args = zero_LINK3res\<lparr>LINK3res_Status := NFS3ERR_NOTSUPP\<rparr>"

definition simple_NFSPROC3_READDIR :: "READDIR3args \<Rightarrow> READDIR3res" where
  "simple_NFSPROC3_READDIR args =
     (let reply = zero_READDIR3res;
          e2 = \<lparr>Entry3_Fileid = 3, Entry3_Name = [98], Entry3_Cookie = 1\<rparr>;
          e1 = \<lparr>Entry3_Fileid = 2, Entry3_Name = [97], Entry3_Cookie = 0\<rparr>
      in reply\<lparr>READDIR3res_Status := NFS3_OK,
               READDIR3res_Resok := (READDIR3res_Resok reply)\<lparr>READDIR3resok_Reply :=
                 \<lparr>Dirlist3_Entries = [e1, e2], Dirlist3_Eof = True\<rparr>\<rparr>\<rparr>)"

definition simple_NFSPROC3_READDIRPLUS :: "READDIRPLUS3args \<Rightarrow> READDIRPLUS3res" where
  "simple_NFSPROC3_READDIRPLUS args = zero_READDIRPLUS3res\<lparr>READDIRPLUS3res_Status := NFS3ERR_NOTSUPP\<rparr>"

definition simple_NFSPROC3_FSSTAT :: "FSSTAT3args \<Rightarrow> FSSTAT3res" where
  "simple_NFSPROC3_FSSTAT args = zero_FSSTAT3res\<lparr>FSSTAT3res_Status := NFS3ERR_NOTSUPP\<rparr>"

definition simple_NFSPROC3_FSINFO :: "FSINFO3args \<Rightarrow> FSINFO3res" where
  "simple_NFSPROC3_FSINFO args =
     (let reply = zero_FSINFO3res
      in reply\<lparr>FSINFO3res_Status := NFS3_OK,
               FSINFO3res_Resok := (FSINFO3res_Resok reply)\<lparr>FSINFO3resok_Wtmax := 4096,
                                     FSINFO3resok_Maxfilesize := 4096\<rparr>\<rparr>)"

definition simple_NFSPROC3_PATHCONF :: "PATHCONF3args \<Rightarrow> PATHCONF3res" where
  "simple_NFSPROC3_PATHCONF args = zero_PATHCONF3res\<lparr>PATHCONF3res_Status := NFS3ERR_NOTSUPP\<rparr>"

definition simple_NFSPROC3_COMMIT ::
    "('log, 'op, 'alc, 'lm, 'd) golib \<Rightarrow> COMMIT3args \<Rightarrow> ('log, 'lm) simple_Nfs \<Rightarrow>
     (COMMIT3res \<times> ('log, 'lm) simple_Nfs) res" where
  "simple_NFSPROC3_COMMIT G args nfs =
     (let reply = zero_COMMIT3res
      in bnd (simple_fh2ino G (COMMIT3args_File args)) (\<lambda>inum.
         if \<not> simple_validInum G inum
         then Inr (reply\<lparr>COMMIT3res_Status := NFS3ERR_INVAL\<rparr>, nfs)
         else simple_locked G inum (\<lambda>log.
                let (ok, log) = CommitWait G (jrnl_Begin G log) True log
                in Inr (reply\<lparr>COMMIT3res_Status := if ok then NFS3_OK else NFS3ERR_IO\<rparr>, log)) nfs))"

definition simple_MOUNTPROC3_MNT :: "('log, 'op, 'alc, 'lm, 'd) golib \<Rightarrow> Dirpath3 \<Rightarrow> Mountres3 res" where
  "simple_MOUNTPROC3_MNT G args =
     bnd (simple_MkRootFh3 G) (\<lambda>fh3.
     Inr (zero_Mountres3\<lparr>Mountres3_Fhs_status := MNT3_OK,
            Mountres3_Mountinfo := (Mountres3_Mountinfo zero_Mountres3)\<lparr>Mountres3_ok_Fhandle := Nfs_fh3_Data fh3\<rparr>\<rparr>))"

definition simple_MOUNTPROC3_DUMP :: Mountopt3 where
  "simple_MOUNTPROC3_DUMP = \<lparr>Mountopt3_P = []\<rparr>"

definition simple_MOUNTPROC3_EXPORT :: Exportsopt3 where
  "simple_MOUNTPROC3_EXPORT = \<lparr>Exportsopt3_P = [\<lparr>Exports3_Ex_dir = [47], Exports3_Ex_groups = []\<rparr>]\<rparr>"

text \<open>\<^verbatim>\<open>recover_example.go\<close>: the calls of one worker. The zero value stands for the omitted \<^verbatim>\<open>Stable\<close>.\<close>

definition simple_exampleWorker ::
    "('log, 'op, 'alc, 'lm, 'd) golib \<Rightarrow> u64 \<Rightarrow> ('log, 'lm) simple_Nfs \<Rightarrow> ('log, 'lm) simple_Nfs res" where
  "simple_exampleWorker G ino nfs =
     bnd (simple_MakeFh3 G \<lparr>sfh_Ino = ino\<rparr>) (\<lambda>fh3.
     bnd (simple_NFSPROC3_GETATTR G \<lparr>GETATTR3args_Object = fh3\<rparr> nfs) (\<lambda>(_, nfs).
     bnd (simple_NFSPROC3_READ G \<lparr>READ3args_File = fh3, READ3args_Offset = 0, READ3args_Count = 1024\<rparr> nfs) (\<lambda>(_, nfs).
     bnd (simple_NFSPROC3_WRITE G \<lparr>WRITE3args_File = fh3, WRITE3args_Offset = 0, WRITE3args_Count = 1024,
            WRITE3args_Stable = 0, WRITE3args_Data = replicate 1024 0\<rparr> nfs) (\<lambda>(_, nfs).
     Inr nfs))))"

end
