(* ===== verification/BlockMap.thy ===== *)
theory BlockMap
  imports Inode
begin

text \<open>
  The index trees of an inode and the correctness of the block map. A tree of level \<open>l\<close> has
  \<open>512 ^ l\<close> leaves; \<open>walk\<close> finds the block of a leaf (0 for a hole), \<open>tree_blocks\<close> are the blocks
  of the tree and \<open>index_blocks\<close> those that hold block numbers. In a well-formed tree no block
  occurs twice. \<^const>\<open>indbmap\<close> extends a tree by the missing blocks on one path and changes
  nothing else.
\<close>

section \<open>Index trees\<close>

definition ent :: "('log, 'op, 'alc, 'lm, 'd) golib \<Rightarrow> 'op \<Rightarrow> u64 \<Rightarrow> nat \<Rightarrow> u64" where
  "ent G op b k = (case BnumGet G (blk G op b) (of_nat k * 8) of Inr v \<Rightarrow> v | Inl _ \<Rightarrow> 0)"

fun walk :: "('log, 'op, 'alc, 'lm, 'd) golib \<Rightarrow> 'op \<Rightarrow> nat \<Rightarrow> u64 \<Rightarrow> nat \<Rightarrow> u64" where
  "walk G op 0 root off = root"
| "walk G op (Suc l) root off =
     (if root = 0 then 0 else walk G op l (ent G op root (off div 512 ^ l)) (off mod 512 ^ l))"

fun tree_blocks :: "('log, 'op, 'alc, 'lm, 'd) golib \<Rightarrow> 'op \<Rightarrow> nat \<Rightarrow> u64 \<Rightarrow> u64 set" where
  "tree_blocks G op 0 root = (if root = 0 then {} else {root})"
| "tree_blocks G op (Suc l) root =
     (if root = 0 then {} else insert root (\<Union>k \<in> {..<512}. tree_blocks G op l (ent G op root k)))"

fun index_blocks :: "('log, 'op, 'alc, 'lm, 'd) golib \<Rightarrow> 'op \<Rightarrow> nat \<Rightarrow> u64 \<Rightarrow> u64 set" where
  "index_blocks G op 0 root = {}"
| "index_blocks G op (Suc l) root =
     (if root = 0 then {} else insert root (\<Union>k \<in> {..<512}. index_blocks G op l (ent G op root k)))"

fun tree_ok :: "('log, 'op, 'alc, 'lm, 'd) golib \<Rightarrow> 'op \<Rightarrow> nat \<Rightarrow> u64 \<Rightarrow> bool" where
  "tree_ok G op 0 root = True"
| "tree_ok G op (Suc l) root =
     (root = 0 \<or>
       (\<forall>k < 512. tree_ok G op l (ent G op root k) \<and> root \<notin> tree_blocks G op l (ent G op root k)) \<and>
       (\<forall>j < 512. \<forall>k < 512. j \<noteq> k \<longrightarrow>
          tree_blocks G op l (ent G op root j) \<inter> tree_blocks G op l (ent G op root k) = {}))"

lemma tree_0 [simp]:
  "walk G op l 0 off = 0" "tree_blocks G op l 0 = {}" "index_blocks G op l 0 = {}" "tree_ok G op l 0"
  by (cases l; simp)+

lemma tree_ok_child:
  assumes "tree_ok G op (Suc l) root" "root \<noteq> 0" "k < 512"
  shows "tree_ok G op l (ent G op root k)" "root \<notin> tree_blocks G op l (ent G op root k)"
  using assms by simp_all

lemma tree_ok_disjoint:
  assumes "tree_ok G op (Suc l) root" "root \<noteq> 0" "j < 512" "k < 512" "j \<noteq> k"
  shows "tree_blocks G op l (ent G op root j) \<inter> tree_blocks G op l (ent G op root k) = {}"
  using assms by simp

lemma index_in_tree: "index_blocks G op l root \<subseteq> tree_blocks G op l root"
proof (induction l arbitrary: root)
  case (Suc l)
  then show ?case by (simp, blast)
qed simp

lemma root_in_tree: "root \<noteq> 0 \<Longrightarrow> root \<in> tree_blocks G op l root"
  by (cases l) simp_all

lemma zero_notin_tree: "0 \<notin> tree_blocks G op l root"
  by (induction l arbitrary: root) auto

lemma div_lt_512: "off < 512 ^ Suc l \<Longrightarrow> off div 512 ^ l < (512 :: nat)"
  by (simp add: less_mult_imp_div_less)

lemma walk_in_tree: "off < 512 ^ l \<Longrightarrow> walk G op l root off \<noteq> 0 \<Longrightarrow> walk G op l root off \<in> tree_blocks G op l root"
proof (induction l arbitrary: root off)
  case (Suc l)
  let ?k = "off div 512 ^ l"
  have r: "root \<noteq> 0" and w: "walk G op l (ent G op root ?k) (off mod 512 ^ l) \<noteq> 0"
    using Suc.prems by (auto split: if_splits)
  have "walk G op l (ent G op root ?k) (off mod 512 ^ l) \<in> tree_blocks G op l (ent G op root ?k)"
    using Suc.IH [OF _ w] by simp
  then show ?case using r div_lt_512 [OF Suc.prems(1)] by auto
qed simp

lemma walk_not_index:
  "tree_ok G op l root \<Longrightarrow> off < 512 ^ l \<Longrightarrow> walk G op l root off \<noteq> 0 \<Longrightarrow>
     walk G op l root off \<notin> index_blocks G op l root"
proof (induction l arbitrary: root off)
  case (Suc l)
  let ?k = "off div 512 ^ l" and ?o = "off mod 512 ^ l"
  let ?w = "walk G op l (ent G op root ?k) ?o"
  have r: "root \<noteq> 0" and w: "?w \<noteq> 0" using Suc.prems(3) by (auto split: if_splits)
  have k: "?k < 512" by (rule div_lt_512 [OF Suc.prems(2)])
  have o: "?o < 512 ^ l" by simp
  have ok: "tree_ok G op l (ent G op root ?k)" "root \<notin> tree_blocks G op l (ent G op root ?k)"
    using tree_ok_child [OF Suc.prems(1) r k] .
  have in_t: "?w \<in> tree_blocks G op l (ent G op root ?k)" by (rule walk_in_tree [OF o w])
  have "?w \<notin> index_blocks G op l (ent G op root j)" if "j < 512" for j
  proof (cases "j = ?k")
    case True
    then show ?thesis using Suc.IH [OF ok(1) o w] by simp
  next
    case False
    from tree_ok_disjoint [OF Suc.prems(1) r that k False]
    show ?thesis using in_t index_in_tree [of G op l "ent G op root j"] by blast
  qed
  moreover have "?w \<noteq> root" using ok(2) in_t by metis
  ultimately show ?case using r by simp
qed simp

lemma walk_inj:
  "tree_ok G op l root \<Longrightarrow> off < 512 ^ l \<Longrightarrow> off' < 512 ^ l \<Longrightarrow> walk G op l root off \<noteq> 0 \<Longrightarrow>
     walk G op l root off = walk G op l root off' \<Longrightarrow> off = off'"
proof (induction l arbitrary: root off off')
  case (Suc l)
  let ?c = "\<lambda>i. ent G op root (i div 512 ^ l)"
  have r: "root \<noteq> 0" and w: "walk G op l (?c off) (off mod 512 ^ l) \<noteq> 0"
    and e: "walk G op l (?c off) (off mod 512 ^ l) = walk G op l (?c off') (off' mod 512 ^ l)"
    using Suc.prems(4,5) by (auto split: if_splits)
  have k: "off div 512 ^ l < 512" "off' div 512 ^ l < 512" using Suc.prems(2,3) by (auto intro: div_lt_512)
  have ok: "tree_ok G op l (?c off)" using tree_ok_child [OF Suc.prems(1) r k(1)] by simp
  have o: "off mod 512 ^ l < 512 ^ l" "off' mod 512 ^ l < 512 ^ l" by simp_all
  have "off div 512 ^ l = off' div 512 ^ l"
  proof (rule ccontr)
    assume "off div 512 ^ l \<noteq> off' div 512 ^ l"
    from tree_ok_disjoint [OF Suc.prems(1) r k this]
    show False using walk_in_tree [OF o(1) w] walk_in_tree [OF o(2), of G op "?c off'"] w e
      by (metis disjoint_iff)
  qed
  moreover have "off mod 512 ^ l = off' mod 512 ^ l"
    using Suc.IH [OF ok o w] e calculation by simp
  ultimately show ?case by (metis div_mult_mod_eq)
qed simp

text \<open>A tree depends on the contents of its index blocks only.\<close>

lemma tree_frame_all:
  assumes "\<And>b. b \<in> index_blocks G op l root \<Longrightarrow> blk G op' b = blk G op b"
  shows "tree_blocks G op' l root = tree_blocks G op l root \<and>
    index_blocks G op' l root = index_blocks G op l root \<and>
    tree_ok G op' l root = tree_ok G op l root \<and>
    (\<forall>off < 512 ^ l. walk G op' l root off = walk G op l root off)"
  using assms
proof (induction l arbitrary: root)
  case (Suc l)
  show ?case
  proof (cases "root = 0")
    case False
    have e: "ent G op' root = ent G op root"
      using Suc.prems False by (simp add: ent_def fun_eq_iff)
    have IH: "tree_blocks G op' l (ent G op root k) = tree_blocks G op l (ent G op root k)"
      "index_blocks G op' l (ent G op root k) = index_blocks G op l (ent G op root k)"
      "tree_ok G op' l (ent G op root k) = tree_ok G op l (ent G op root k)"
      "\<forall>off < 512 ^ l. walk G op' l (ent G op root k) off = walk G op l (ent G op root k) off" if "k < 512" for k
      using Suc.IH [of "ent G op root k"] Suc.prems False that by auto
    show ?thesis using False e IH div_lt_512 by simp
  qed simp
qed simp

lemmas tree_frame = tree_frame_all [THEN conjunct1]
  tree_frame_all [THEN conjunct2, THEN conjunct1]
  tree_frame_all [THEN conjunct2, THEN conjunct2, THEN conjunct1]
  tree_frame_all [THEN conjunct2, THEN conjunct2, THEN conjunct2, rule_format]


section \<open>Extending a tree\<close>

text \<open>
  \<open>tree_ext\<close> describes the effect of \<^const>\<open>indbmap\<close> on a tree: the path to leaf \<open>off\<close> now ends in
  \<open>b\<close>, every other leaf is as before, the blocks added to the tree were not in use (\<open>U\<close>) before,
  and the contents of all blocks but the index blocks of the tree are unchanged.
\<close>

definition tree_ext ::
    "('log, 'op, 'alc, 'lm, 'd) golib \<Rightarrow> nat \<Rightarrow> nat \<Rightarrow> u64 set \<Rightarrow> 'op \<Rightarrow> u64 \<Rightarrow> u64 set \<Rightarrow> 'op \<Rightarrow> u64 \<Rightarrow> u64 \<Rightarrow>
     bool" where
  "tree_ext G l off U op root U' op' root' b \<longleftrightarrow>
     tree_ok G op' l root' \<and> U \<subseteq> U' \<and>
     tree_blocks G op' l root' = tree_blocks G op l root \<union> (U' - U) \<and>
     (\<forall>x. x \<notin> index_blocks G op' l root' \<longrightarrow> blk G op' x = blk G op x) \<and>
     walk G op' l root' off = b \<and>
     (\<forall>i < 512 ^ l. i \<noteq> off \<longrightarrow> walk G op' l root' i = walk G op l root i) \<and>
     (walk G op l root off \<noteq> 0 \<longrightarrow> b = walk G op l root off) \<and>
     (walk G op l root off = 0 \<and> b \<noteq> 0 \<longrightarrow> b \<in> U' - U) \<and>
     (root \<noteq> 0 \<longrightarrow> root' = root)"

lemma tree_ext_refl:
  "tree_ok G op l root \<Longrightarrow> off < 512 ^ l \<Longrightarrow> tree_ext G l off U op root U op root (walk G op l root off)"
  by (simp add: tree_ext_def)

text \<open>
  Replacing one child of a node by an extension of it: the other children keep their trees, and
  the new child is as its extension says.
\<close>

lemma tree_ext_children:
  assumes ok: "tree_ok G op (Suc l) root" and root: "root \<noteq> 0" and U: "tree_blocks G op (Suc l) root \<subseteq> U"
    and k: "k < 512" and ext: "tree_ext G l i U op (ent G op root k) U' op1 c b"
    and b3: "\<And>x. x \<noteq> root \<Longrightarrow> blk G op2 x = blk G op1 x"
    and ent2: "\<And>j. j < 512 \<Longrightarrow> ent G op2 root j = (if j = k then c else ent G op root j)"
    and j: "j < 512"
  shows "tree_ok G op2 l (ent G op2 root j)"
    and "tree_blocks G op2 l (ent G op2 root j) =
           tree_blocks G op l (ent G op root j) \<union> (if j = k then U' - U else {})"
    and "o' < 512 ^ l \<Longrightarrow> walk G op2 l (ent G op2 root j) o' =
           (if j = k then walk G op1 l c o' else walk G op l (ent G op root j) o')"
    and "index_blocks G op2 l (ent G op2 root k) = index_blocks G op1 l c"
proof -
  let ?t = "\<lambda>j. tree_blocks G op l (ent G op root j)"
  have tU: "?t j \<subseteq> U" "root \<in> U" using U root j by auto
  have t1: "tree_blocks G op1 l c = ?t k \<union> (U' - U)" and c_ok: "tree_ok G op1 l c"
    and same1: "\<And>x. x \<notin> index_blocks G op1 l c \<Longrightarrow> blk G op1 x = blk G op x"
    using ext by (auto simp: tree_ext_def)
  have rc: "root \<notin> tree_blocks G op1 l c" using t1 tree_ok_child(2) [OF ok root k] tU by blast
  have ci: "blk G op2 x = blk G op1 x" if "x \<in> index_blocks G op1 l c" for x
  proof -
    have "x \<noteq> root" using that rc index_in_tree [of G op1 l c] by blast
    then show ?thesis by (rule b3)
  qed
  note cf = tree_frame [of G op1 l c op2, OF ci]
  have "blk G op2 x = blk G op x" if "j \<noteq> k" "x \<in> index_blocks G op l (ent G op root j)" for x
  proof -
    have x: "x \<in> ?t j" using that(2) index_in_tree [of G op l "ent G op root j"] by blast
    then have "x \<noteq> root" using tree_ok_child(2) [OF ok root j] by metis
    moreover have "x \<notin> tree_blocks G op1 l c"
      using tree_ok_disjoint [OF ok root j k that(1)] tU x t1 by blast
    ultimately show ?thesis using b3 same1 index_in_tree [of G op1 l c] by (metis subsetD)
  qed
  note jf = tree_frame [of G op l "ent G op root j" op2, OF this]
  show "tree_ok G op2 l (ent G op2 root j)"
    using ent2 [OF j] cf(3) jf(3) c_ok tree_ok_child(1) [OF ok root j] by (cases "j = k") simp_all
  show "tree_blocks G op2 l (ent G op2 root j) = ?t j \<union> (if j = k then U' - U else {})"
    using ent2 [OF j] cf(1) jf(1) t1 by (cases "j = k") simp_all
  show "walk G op2 l (ent G op2 root j) o' =
      (if j = k then walk G op1 l c o' else walk G op l (ent G op root j) o')" if "o' < 512 ^ l"
    using ent2 [OF j] cf(4) [OF _ that] jf(4) [OF _ _ that] by (cases "j = k") simp_all
  show "index_blocks G op2 l (ent G op2 root k) = index_blocks G op1 l c"
    using ent2 [OF k] cf(2) by simp
qed

lemma tree_ext_node:
  assumes ok: "tree_ok G op (Suc l) root" and root: "root \<noteq> 0" and U: "tree_blocks G op (Suc l) root \<subseteq> U"
    and off: "off < 512 ^ Suc l"
    and ext: "tree_ext G l (off mod 512 ^ l) U op (ent G op root (off div 512 ^ l)) U' op1 c b"
    and b3: "\<And>x. x \<noteq> root \<Longrightarrow> blk G op2 x = blk G op1 x"
    and ent2: "\<And>j. j < 512 \<Longrightarrow> ent G op2 root j = (if j = off div 512 ^ l then c else ent G op root j)"
  shows "tree_ext G (Suc l) off U op root U' op2 root b"
proof -
  let ?k = "off div 512 ^ l" and ?i = "off mod 512 ^ l"
  have k: "?k < 512" by (rule div_lt_512 [OF off])
  note ch = tree_ext_children [OF ok root U k ext b3 ent2]
  have tU: "tree_blocks G op l (ent G op root j) \<subseteq> U" if "j < 512" for j using U root that by auto
  have rU: "root \<in> U" using U root by simp
  note x = ext [unfolded tree_ext_def]
  have "root \<notin> tree_blocks G op2 l (ent G op2 root j)" if "j < 512" for j
    using ch(2) [OF _ _ that] tree_ok_child(2) [OF ok root that] rU by simp
  moreover have "tree_blocks G op2 l (ent G op2 root i) \<inter> tree_blocks G op2 l (ent G op2 root j) = {}"
    if "i < 512" "j < 512" "i \<noteq> j" for i j
    using ch(2) [OF _ _ that(1)] ch(2) [OF _ _ that(2)] tree_ok_disjoint [OF ok root that] tU [OF that(1)] tU [OF that(2)] that(3)
    by (cases "i = ?k"; cases "j = ?k") auto
  ultimately have 1: "tree_ok G op2 (Suc l) root" using ch(1) by simp
  have 2: "tree_blocks G op2 (Suc l) root = tree_blocks G op (Suc l) root \<union> (U' - U)"
    using root ch(2) k by (auto split: if_splits)
  have 3: "blk G op2 x = blk G op x" if "x \<notin> index_blocks G op2 (Suc l) root" for x
  proof -
    have "x \<noteq> root" "x \<notin> index_blocks G op2 l (ent G op2 root ?k)" using that root k by auto
    then show ?thesis using ch(4) [OF _ _ k] b3 x by simp
  qed
  have 4: "walk G op2 (Suc l) root off = b" using root ch(3) [OF _ _ k, of ?i] x by simp
  have 5: "walk G op2 (Suc l) root i = walk G op (Suc l) root i" if i: "i < 512 ^ Suc l" "i \<noteq> off" for i
  proof -
    have "i mod 512 ^ l \<noteq> ?i" if "i div 512 ^ l = ?k" using that i(2) by (metis div_mult_mod_eq)
    then show ?thesis using root x ch(3) [OF _ _ div_lt_512 [OF i(1)], of "i mod 512 ^ l"] by auto
  qed
  show ?thesis using 1 2 3 4 5 x root by (simp add: tree_ext_def)
qed


section \<open>Correctness of the block map\<close>

context gojournal
begin

lemma NBLKBLK [simp]: "NBLKBLK G = 512"
  by (simp add: NBLKBLK_def)

lemma pow_vals [simp]: "pow G 0 = 1" "pow G (Suc 0) = 512" "pow G (Suc (Suc 0)) = 262144"
  by (simp_all add: pow_def)

lemma unat_pow: "l \<le> 2 \<Longrightarrow> unat (pow G l) = 512 ^ l"
proof -
  assume "l \<le> 2"
  then have "l = 0 \<or> l = Suc 0 \<or> l = Suc (Suc 0)" by arith
  then show ?thesis by auto
qed

lemma pow_nz: "l \<le> 2 \<Longrightarrow> pow G l \<noteq> 0"
  using unat_pow [of l] by auto

lemma entry_off: "k < 512 \<Longrightarrow> unat (of_nat k * 8 :: u64) = 8 * k"
  by (simp add: nowrap)

lemma ent_get: "k < 512 \<Longrightarrow> BnumGet G (blk G op b) (of_nat k * 8) = Inr (ent G op b k)"
  using bnum_get [of "of_nat k * 8" "blk G op b"] by (auto simp: ent_def entry_off)

lemma ent_zero: "blk G op b = replicate 4096 0 \<Longrightarrow> k < 512 \<Longrightarrow> ent G op b k = 0"
  using bnum_get_zero [of "of_nat k * 8" "blk G op b"] by (simp add: ent_def entry_off)

lemma ent_put:
  assumes "k < 512"
  obtains d where "BnumPut G (blk G op b) (of_nat k * 8) v = Inr d" and "length d = 4096"
    and "\<And>op'. blk G op' b = d \<Longrightarrow> (\<forall>j < 512. ent G op' b j = (if j = k then v else ent G op b j))"
proof -
  obtain d where d: "BnumPut G (blk G op b) (of_nat k * 8) v = Inr d" "length d = 4096"
    "BnumGet G d (of_nat k * 8) = Inr v"
    and o: "\<And>off'. unat off' + 8 \<le> 8 * k \<or> 8 * k + 8 \<le> unat off' \<Longrightarrow> BnumGet G d off' = BnumGet G (blk G op b) off'"
    using bnum_put [of "of_nat k * 8" "blk G op b" v] assms by (auto simp: entry_off)
  have "ent G op' b j = (if j = k then v else ent G op b j)" if "blk G op' b = d" "j < 512" for op' j
  proof -
    have "8 * j + 8 \<le> 8 * k \<or> 8 * k + 8 \<le> 8 * j" if "j \<noteq> k" using that by arith
    with that d(3) o [of "of_nat j * 8"] show ?thesis by (auto simp: ent_def entry_off)
  qed
  with d that show thesis by blast
qed

lemma fresh_tree:
  assumes "blk G op r = replicate 4096 0" and "r \<noteq> 0"
  shows "tree_ok G op (Suc l) r" "tree_blocks G op (Suc l) r = {r}" "\<And>i. i < 512 ^ Suc l \<Longrightarrow> walk G op (Suc l) r i = 0"
  using assms(2) ent_zero [OF assms(1)] by (auto simp: div_lt_512)

end

text \<open>What \<^const>\<open>indbmap\<close> promises: it returns, and it extends the tree.\<close>

definition indbmap_spec ::
    "('log, 'op, 'alc, 'lm, 'd) golib \<Rightarrow> ('alc \<Rightarrow> u64 set) \<Rightarrow> ('alc \<Rightarrow> u64 set) \<Rightarrow> nat \<Rightarrow> u64 \<Rightarrow> u64 \<Rightarrow>
     ('d, 'op, 'alc) AllocTxn \<Rightarrow> u64 \<Rightarrow> u64 \<Rightarrow> ('d, 'op, 'alc) AllocTxn \<Rightarrow> bool" where
  "indbmap_spec G used arange l root off atxn b root' atxn' \<longleftrightarrow>
     indbmap G root l off atxn = Inr (b, root', atxn') \<and>
     tree_ext G l (unat off) (used (Balloc atxn)) (Op atxn) root (used (Balloc atxn')) (Op atxn') root' b \<and>
     balloc_inv G used arange atxn' \<and> at_Super atxn' = at_Super atxn \<and>
     arange (Balloc atxn') = arange (Balloc atxn) \<and>
     used (Balloc atxn') - used (Balloc atxn) \<subseteq> arange (Balloc atxn) \<and>
     (b = 0 \<longrightarrow> arange (Balloc atxn') \<subseteq> used (Balloc atxn'))"

lemma balloc_inv_fresh:
  "balloc_inv G used arange atxn \<Longrightarrow> x \<in> arange (Balloc atxn) \<Longrightarrow> x \<notin> used (Balloc atxn) \<Longrightarrow>
     valid_bnum atxn x \<and> blk G (Op atxn) x = replicate 4096 0"
  by (simp add: balloc_inv_def)

context gojournal
begin

lemma balloc_inv_Store:
  "balloc_inv G used arange atxn \<Longrightarrow> b \<in> used (Balloc atxn) \<Longrightarrow> length d = 4096 \<Longrightarrow>
     balloc_inv G used arange (StoreBlock G b d atxn)"
  by (auto simp: balloc_inv_def blk_StoreBlock valid_bnum_def)

lemma indbmap_leaf:
  assumes inv: "balloc_inv G used arange atxn" and off: "unat off < 512 ^ 0"
  shows "\<exists>b root' atxn'. indbmap_spec G used arange 0 root off atxn b root' atxn'"
proof (cases "root = 0")
  case True
  from inv show ?thesis
  proof (rule AllocBlock_ok)
    fix bn atxn'
    assume "AllocBlock G atxn = Inr (bn, atxn')" "balloc_inv G used arange atxn'" "Op atxn' = Op atxn"
      "at_Super atxn' = at_Super atxn" "arange (Balloc atxn') = arange (Balloc atxn)"
      "bn = 0 \<Longrightarrow> used (Balloc atxn') = used (Balloc atxn)" "bn = 0 \<Longrightarrow> arange (Balloc atxn) \<subseteq> used (Balloc atxn)" "bn \<noteq> 0 \<Longrightarrow> bn \<in> arange (Balloc atxn)"
      "bn \<noteq> 0 \<Longrightarrow> bn \<notin> used (Balloc atxn)" "bn \<noteq> 0 \<Longrightarrow> used (Balloc atxn') = insert bn (used (Balloc atxn))"
      "bn \<noteq> 0 \<Longrightarrow> valid_bnum atxn bn"
    with True off show ?thesis
      by (intro exI [of _ bn] exI [of _ atxn'], cases "bn = 0")
         (auto simp: indbmap_spec_def tree_ext_def ind_root_def)
  qed
next
  case False
  with inv off show ?thesis
    by (intro exI [of _ root] exI [of _ atxn])
       (simp add: indbmap_spec_def tree_ext_def ind_root_def)
qed

lemma unat_div_pow: "l \<le> 2 \<Longrightarrow> unat (off div pow G l) = unat off div 512 ^ l"
  "l \<le> 2 \<Longrightarrow> unat (off mod pow G l) = unat off mod 512 ^ l"
  by (simp_all add: unat_div unat_mod unat_pow)

lemma indbmap_node:
  assumes inv: "balloc_inv G used arange atxn" and l: "l \<le> 2" and root: "root \<noteq> 0"
    and ok: "tree_ok G (Op atxn) (Suc l) root"
    and U: "tree_blocks G (Op atxn) (Suc l) root \<subseteq> used (Balloc atxn)"
    and v: "\<And>x. x \<in> tree_blocks G (Op atxn) (Suc l) root \<Longrightarrow> valid_bnum atxn x"
    and off: "unat off < 512 ^ Suc l"
    and child: "indbmap_spec G used arange l (ent G (Op atxn) root (unat off div 512 ^ l)) (off mod pow G l) atxn b c atxn1"
  shows "\<exists>atxn'. indbmap_spec G used arange (Suc l) root off atxn b root atxn'"
proof -
  let ?k = "unat off div 512 ^ l" and ?i = "unat off mod 512 ^ l"
  let ?e = "ent G (Op atxn) root ?k"
  have k: "?k < 512" by (rule div_lt_512 [OF off])
  have offk: "off div pow G l * 8 = of_nat ?k * 8"
    using unat_div_pow(1) [OF l, of off] by (auto dest: sym)
  have rb: "ReadBlock G root atxn = Inr (blk G (Op atxn) root)"
    using v [of root] root by (simp add: ReadBlock_valid)
  have c1: "indbmap G ?e l (off mod pow G l) atxn = Inr (b, c, atxn1)"
    and ext: "tree_ext G l ?i (used (Balloc atxn)) (Op atxn) ?e (used (Balloc atxn1)) (Op atxn1) c b"
    and inv1: "balloc_inv G used arange atxn1" and s1: "at_Super atxn1 = at_Super atxn"
    and r1: "arange (Balloc atxn1) = arange (Balloc atxn)"
    and n1: "used (Balloc atxn1) - used (Balloc atxn) \<subseteq> arange (Balloc atxn)"
      "b = 0 \<longrightarrow> arange (Balloc atxn1) \<subseteq> used (Balloc atxn1)"
    using child unat_div_pow(2) [OF l, of off] by (auto simp: indbmap_spec_def)
  have t1: "tree_blocks G (Op atxn1) l c = tree_blocks G (Op atxn) l ?e \<union> (used (Balloc atxn1) - used (Balloc atxn))"
    and UU: "used (Balloc atxn) \<subseteq> used (Balloc atxn1)"
    and same: "\<And>x. x \<notin> index_blocks G (Op atxn1) l c \<Longrightarrow> blk G (Op atxn1) x = blk G (Op atxn) x"
    and w1: "walk G (Op atxn1) l c ?i = b"
    using ext by (auto simp: tree_ext_def)
  have v1: "valid_bnum atxn1 x" if "x \<in> tree_blocks G (Op atxn1) l c" for x
    using that t1 v [of x] root k n1 balloc_inv_fresh [OF inv, of x] valid_bnum_cong [OF s1, of x] by auto
  have av: "AssertValidBlock c atxn1 = Inr ()" "AssertValidBlock b atxn1 = Inr ()"
    using v1 root_in_tree [of c G "Op atxn1" l] walk_in_tree [of ?i l G "Op atxn1" c] w1
    by (cases "c = 0"; cases "b = 0"; simp)+
  have rU: "root \<in> used (Balloc atxn)" using U root by auto
  have "root \<notin> tree_blocks G (Op atxn1) l c" using t1 tree_ok_child(2) [OF ok root k] rU by blast
  then have br: "blk G (Op atxn1) root = blk G (Op atxn) root"
    using same index_in_tree [of G "Op atxn1" l c] by blast
  have run: "indbmap G root (Suc l) off atxn =
      (if c \<noteq> ?e then bnd (BnumPut G (blk G (Op atxn1) root) (of_nat ?k * 8) c) (\<lambda>buf.
            Inr (b, root, StoreBlock G root buf atxn1)) else Inr (b, root, atxn1))"
    using root rb c1 av k ent_get [OF k, of "Op atxn" root] pow_nz [OF l]
    by (auto simp: ind_root_def Let_def offk)
  show ?thesis
  proof (cases "c = ?e")
    case True
    have "tree_ext G (Suc l) (unat off) (used (Balloc atxn)) (Op atxn) root (used (Balloc atxn1)) (Op atxn1) root b"
      by (rule tree_ext_node [OF ok root U off ext]) (use True br in \<open>auto simp: ent_def\<close>)
    with run True inv1 s1 r1 n1 show ?thesis
      by (intro exI [of _ atxn1]) (simp add: indbmap_spec_def)
  next
    case False
    obtain d where d: "BnumPut G (blk G (Op atxn1) root) (of_nat ?k * 8) c = Inr d" "length d = 4096"
      and e2: "\<And>op'. blk G op' root = d \<Longrightarrow> (\<forall>j < 512. ent G op' root j = (if j = ?k then c else ent G (Op atxn1) root j))"
      by (rule ent_put [OF k, of "Op atxn1" root c]) blast
    let ?a = "StoreBlock G root d atxn1"
    have "tree_ext G (Suc l) (unat off) (used (Balloc atxn)) (Op atxn) root (used (Balloc atxn1)) (Op ?a) root b"
      by (rule tree_ext_node [OF ok root U off ext])
         (use e2 [of "Op ?a"] br d(2) in \<open>auto simp: blk_StoreBlock ent_def\<close>)
    with run False d s1 r1 n1 balloc_inv_Store [OF inv1 _ d(2), of root] rU UU show ?thesis
      by (intro exI [of _ ?a]) (auto simp: indbmap_spec_def)
  qed
qed

text \<open>A newly allocated root, full of zeros, is a tree without leaves.\<close>

lemma tree_ext_fresh:
  assumes ext: "tree_ext G (Suc l) off (insert r U) op r U' op' r b" and r: "r \<noteq> 0" "r \<notin> U"
    and z: "blk G op r = replicate 4096 0" and off: "off < 512 ^ Suc l"
  shows "tree_ext G (Suc l) off U op 0 U' op' r b"
proof -
  note f = fresh_tree [OF z r(1), where l = l]
  have "tree_blocks G op' (Suc l) r = U' - U"
    using ext f(2) r by (auto simp: tree_ext_def simp del: tree_blocks.simps)
  then show ?thesis
    using ext f(3) off r by (auto simp: tree_ext_def simp del: tree_blocks.simps walk.simps tree_ok.simps index_blocks.simps)
qed

lemma indbmap_ok:
  assumes "balloc_inv G used arange atxn" and "l \<le> 2"
    and "tree_ok G (Op atxn) l root" and "tree_blocks G (Op atxn) l root \<subseteq> used (Balloc atxn)"
    and "\<And>x. x \<in> tree_blocks G (Op atxn) l root \<Longrightarrow> valid_bnum atxn x" and "unat off < 512 ^ l"
  shows "\<exists>b root' atxn'. indbmap_spec G used arange l root off atxn b root' atxn'"
  using assms
proof (induction l arbitrary: root off atxn)
  case 0
  then show ?case using indbmap_leaf by simp
next
  case (Suc l)
  have l: "l \<le> 2" using Suc.prems(2) by simp
  have node: "\<exists>b a'. indbmap_spec G used arange (Suc l) r off a b r a'"
    if inv: "balloc_inv G used arange a" and r: "r \<noteq> 0" and ok: "tree_ok G (Op a) (Suc l) r"
      and U: "tree_blocks G (Op a) (Suc l) r \<subseteq> used (Balloc a)"
      and v: "\<And>x. x \<in> tree_blocks G (Op a) (Suc l) r \<Longrightarrow> valid_bnum a x" for a r
  proof -
    let ?k = "unat off div 512 ^ l"
    have k: "?k < 512" by (rule div_lt_512 [OF Suc.prems(6)])
    have sub: "tree_blocks G (Op a) l (ent G (Op a) r ?k) \<subseteq> tree_blocks G (Op a) (Suc l) r" using r k by auto
    obtain b c a1 where "indbmap_spec G used arange l (ent G (Op a) r ?k) (off mod pow G l) a b c a1"
      using Suc.IH [OF inv l tree_ok_child(1) [OF ok r k], of "off mod pow G l"] subset_trans [OF sub U]
        v [OF subsetD [OF sub]] unat_div_pow(2) [OF l, of off] by (auto simp del: tree_blocks.simps)
    from indbmap_node [OF inv l r ok U v Suc.prems(6) this] show ?thesis by blast
  qed
  show ?case
  proof (cases "root = 0")
    case False
    then show ?thesis using node [of atxn root] Suc.prems by blast
  next
    case True
    from Suc.prems(1) show ?thesis
    proof (rule AllocBlock_ok)
      fix bn a
      assume ab: "AllocBlock G atxn = Inr (bn, a)" and inv: "balloc_inv G used arange a" and op: "Op a = Op atxn"
        and s: "at_Super a = at_Super atxn" and ar: "arange (Balloc a) = arange (Balloc atxn)"
        and z: "bn = 0 \<Longrightarrow> used (Balloc a) = used (Balloc atxn)" "bn = 0 \<Longrightarrow> arange (Balloc atxn) \<subseteq> used (Balloc atxn)"
        and n: "bn \<noteq> 0 \<Longrightarrow> bn \<in> arange (Balloc atxn)" "bn \<noteq> 0 \<Longrightarrow> bn \<notin> used (Balloc atxn)"
          "bn \<noteq> 0 \<Longrightarrow> used (Balloc a) = insert bn (used (Balloc atxn))"
          "bn \<noteq> 0 \<Longrightarrow> valid_bnum atxn bn" "bn \<noteq> 0 \<Longrightarrow> blk G (Op atxn) bn = replicate 4096 0"
      have run: "indbmap G 0 (Suc l) off atxn = (if bn = 0 then Inr (0, 0, a) else indbmap G bn (Suc l) off a)"
        using ab by (simp add: ind_root_def)
      show ?thesis
      proof (cases "bn = 0")
        case b0: True
        then show ?thesis using True run inv op s ar z
          by (intro exI [of _ 0] exI [of _ a]) (auto simp: indbmap_spec_def tree_ext_def simp del: indbmap.simps)
      next
        case False
        note f = fresh_tree [OF n(5) [OF False] False, where l = l]
        have "valid_bnum a bn" using n(4) [OF False] valid_bnum_cong [OF s] by metis
        then obtain b a' where sp: "indbmap_spec G used arange (Suc l) bn off a b bn a'"
          using node [OF inv False] f(1,2) n(3) [OF False] op by (auto simp del: tree_blocks.simps tree_ok.simps)
        then have "tree_ext G (Suc l) (unat off) (insert bn (used (Balloc atxn))) (Op atxn) bn (used (Balloc a')) (Op a') bn b"
          using op n(3) [OF False] by (simp add: indbmap_spec_def)
        from tree_ext_fresh [OF this False n(2) [OF False] n(5) [OF False] Suc.prems(6)]
        have "indbmap_spec G used arange (Suc l) root off atxn b bn a'"
          using sp run True False s ar n(1,3) [OF False] by (auto simp: indbmap_spec_def simp del: indbmap.simps)
        then show ?thesis by blast
      qed
    qed
  qed
qed

end

end
