(* ===== verification/FileMap.thy ===== *)
theory FileMap
  imports BlockMap
begin

text \<open>
  The block map of a whole inode. The ten entries of \<^verbatim>\<open>ip.blks\<close> are eight direct blocks, a tree of
  level 1 and a tree of level 2; together they map the first 262664 blocks of the file.
  \<^const>\<open>bmap\<close> extends the map at one block and leaves every other block of the file where it is.
\<close>

section \<open>The map of an inode\<close>

abbreviation MAXBLKS :: nat where
  "MAXBLKS \<equiv> 262664"

definition lev :: "nat \<Rightarrow> nat" where
  "lev i = (if i < 8 then 0 else i - 7)"

definition slot :: "nat \<Rightarrow> nat" where
  "slot bn = (if bn < 8 then bn else if bn < 520 then 8 else 9)"

definition soff :: "nat \<Rightarrow> nat" where
  "soff bn = (if bn < 8 then 0 else if bn < 520 then bn - 8 else bn - 520)"

definition fwalk :: "('log, 'op, 'alc, 'lm, 'd) golib \<Rightarrow> 'op \<Rightarrow> u64 list \<Rightarrow> nat \<Rightarrow> u64" where
  "fwalk G op bs bn = walk G op (lev (slot bn)) (bs ! slot bn) (soff bn)"

definition slot_blocks :: "('log, 'op, 'alc, 'lm, 'd) golib \<Rightarrow> 'op \<Rightarrow> u64 list \<Rightarrow> nat \<Rightarrow> u64 set" where
  "slot_blocks G op bs i = tree_blocks G op (lev i) (bs ! i)"

definition ino_blocks :: "('log, 'op, 'alc, 'lm, 'd) golib \<Rightarrow> 'op \<Rightarrow> u64 list \<Rightarrow> u64 set" where
  "ino_blocks G op bs = (\<Union>i \<in> {..<10}. slot_blocks G op bs i)"

definition ino_index :: "('log, 'op, 'alc, 'lm, 'd) golib \<Rightarrow> 'op \<Rightarrow> u64 list \<Rightarrow> u64 set" where
  "ino_index G op bs = (\<Union>i \<in> {..<10}. index_blocks G op (lev i) (bs ! i))"

definition ino_ok :: "('log, 'op, 'alc, 'lm, 'd) golib \<Rightarrow> 'op \<Rightarrow> u64 list \<Rightarrow> bool" where
  "ino_ok G op bs \<longleftrightarrow> length bs = 10 \<and>
     (\<forall>i < 10. tree_ok G op (lev i) (bs ! i)) \<and>
     (\<forall>i < 10. \<forall>j < 10. i \<noteq> j \<longrightarrow> slot_blocks G op bs i \<inter> slot_blocks G op bs j = {})"

lemma slot_lt [simp]: "slot bn < 10"
  by (simp add: slot_def)

lemma soff_lt: "bn < MAXBLKS \<Longrightarrow> soff bn < 512 ^ lev (slot bn)"
  by (auto simp: slot_def soff_def lev_def)

lemma slot_soff_inj: "slot bn = slot bn' \<Longrightarrow> soff bn = soff bn' \<Longrightarrow> bn = bn'"
  by (auto simp: slot_def soff_def split: if_splits)

lemma lev_le: "i < 10 \<Longrightarrow> lev i \<le> 2"
  by (auto simp: lev_def)

lemma ino_ok_slot:
  assumes "ino_ok G op bs" and "i < 10"
  shows "tree_ok G op (lev i) (bs ! i)"
  using assms by (simp add: ino_ok_def)

lemma ino_ok_disjoint:
  assumes "ino_ok G op bs" and "i < 10" and "j < 10" and "i \<noteq> j"
  shows "slot_blocks G op bs i \<inter> slot_blocks G op bs j = {}"
  using assms by (simp add: ino_ok_def)

lemma ino_index_blocks: "ino_index G op bs \<subseteq> ino_blocks G op bs"
  using index_in_tree by (fastforce simp: ino_index_def ino_blocks_def slot_blocks_def)

lemma slot_in_ino: "i < 10 \<Longrightarrow> slot_blocks G op bs i \<subseteq> ino_blocks G op bs"
  by (auto simp: ino_blocks_def)

lemma zero_notin_ino: "0 \<notin> ino_blocks G op bs"
  by (simp add: ino_blocks_def slot_blocks_def zero_notin_tree)

lemma fwalk_in_slot:
  "bn < MAXBLKS \<Longrightarrow> fwalk G op bs bn \<noteq> 0 \<Longrightarrow> fwalk G op bs bn \<in> slot_blocks G op bs (slot bn)"
  by (simp add: fwalk_def slot_blocks_def walk_in_tree soff_lt)

lemma fwalk_in_ino: "bn < MAXBLKS \<Longrightarrow> fwalk G op bs bn \<noteq> 0 \<Longrightarrow> fwalk G op bs bn \<in> ino_blocks G op bs"
  using fwalk_in_slot [of bn G op bs] slot_in_ino [OF slot_lt [of bn], of G op bs] by blast

lemma fwalk_inj:
  assumes ok: "ino_ok G op bs" and bn: "bn < MAXBLKS" "bn' < MAXBLKS"
    and nz: "fwalk G op bs bn \<noteq> 0" and eq: "fwalk G op bs bn = fwalk G op bs bn'"
  shows "bn = bn'"
proof -
  have "slot bn = slot bn'"
  proof (rule ccontr)
    assume "slot bn \<noteq> slot bn'"
    from ino_ok_disjoint [OF ok slot_lt slot_lt this] show False
      using fwalk_in_slot [OF bn(1) nz] fwalk_in_slot [OF bn(2), of G op bs] nz eq by auto
  qed
  moreover have "soff bn = soff bn'"
    using walk_inj [OF ino_ok_slot [OF ok slot_lt] soff_lt [OF bn(1)]] soff_lt [OF bn(2)] nz eq calculation
    by (simp add: fwalk_def)
  ultimately show ?thesis by (rule slot_soff_inj)
qed

lemma fwalk_not_index:
  assumes ok: "ino_ok G op bs" and bn: "bn < MAXBLKS" and nz: "fwalk G op bs bn \<noteq> 0"
  shows "fwalk G op bs bn \<notin> ino_index G op bs"
proof -
  have "fwalk G op bs bn \<notin> index_blocks G op (lev i) (bs ! i)" if "i < 10" for i
  proof (cases "i = slot bn")
    case True
    then show ?thesis
      using walk_not_index [OF ino_ok_slot [OF ok slot_lt] soff_lt [OF bn]] nz by (simp add: fwalk_def)
  next
    case False
    from ino_ok_disjoint [OF ok that slot_lt False] fwalk_in_slot [OF bn nz]
    show ?thesis using index_in_tree [of G op "lev i" "bs ! i"] by (auto simp: slot_blocks_def)
  qed
  then show ?thesis by (simp add: ino_index_def)
qed

text \<open>The map of an inode depends on its entries and on the contents of its index blocks only.\<close>

lemma ino_frame:
  assumes same: "\<And>b. b \<in> ino_index G op bs \<Longrightarrow> blk G op' b = blk G op b"
  shows "ino_blocks G op' bs = ino_blocks G op bs" and "ino_index G op' bs = ino_index G op bs"
    and "ino_ok G op' bs = ino_ok G op bs" and "bn < MAXBLKS \<Longrightarrow> fwalk G op' bs bn = fwalk G op bs bn"
proof -
  have s: "b \<in> index_blocks G op (lev i) (bs ! i) \<Longrightarrow> blk G op' b = blk G op b" if "i < 10" for i b
    using that same by (auto simp: ino_index_def)
  note f = tree_frame [OF s]
  show "ino_blocks G op' bs = ino_blocks G op bs" "ino_index G op' bs = ino_index G op bs"
    "ino_ok G op' bs = ino_ok G op bs"
    using f(1,2,3) by (simp_all add: ino_blocks_def ino_index_def ino_ok_def slot_blocks_def)
  show "fwalk G op' bs bn = fwalk G op bs bn" if "bn < MAXBLKS"
    using f(4) [OF slot_lt _ soff_lt [OF that]] by (simp add: fwalk_def)
qed

section \<open>Extending the map\<close>

definition ino_ext ::
    "('log, 'op, 'alc, 'lm, 'd) golib \<Rightarrow> nat \<Rightarrow> u64 set \<Rightarrow> 'op \<Rightarrow> u64 list \<Rightarrow> u64 set \<Rightarrow> 'op \<Rightarrow> u64 list \<Rightarrow> u64 \<Rightarrow>
     bool" where
  "ino_ext G bn U op bs U' op' bs' b \<longleftrightarrow>
     ino_ok G op' bs' \<and> U \<subseteq> U' \<and>
     ino_blocks G op' bs' = ino_blocks G op bs \<union> (U' - U) \<and>
     (\<forall>x. x \<notin> ino_index G op' bs' \<longrightarrow> blk G op' x = blk G op x) \<and>
     fwalk G op' bs' bn = b \<and>
     (\<forall>i < MAXBLKS. i \<noteq> bn \<longrightarrow> fwalk G op' bs' i = fwalk G op bs i) \<and>
     (fwalk G op bs bn \<noteq> 0 \<longrightarrow> b = fwalk G op bs bn) \<and>
     (fwalk G op bs bn = 0 \<and> b \<noteq> 0 \<longrightarrow> b \<in> U' - U)"

lemma ino_ext_slots:
  assumes ok: "ino_ok G op bs" and U: "ino_blocks G op bs \<subseteq> U" and k: "k < 10"
    and ext: "tree_ext G (lev k) i U op (bs ! k) U' op' root b" and j: "j < 10"
  shows "tree_ok G op' (lev j) (bs[k := root] ! j)"
    and "slot_blocks G op' (bs[k := root]) j = slot_blocks G op bs j \<union> (if j = k then U' - U else {})"
    and "o' < 512 ^ lev j \<Longrightarrow> walk G op' (lev j) (bs[k := root] ! j) o' =
           (if j = k then walk G op' (lev k) root o' else walk G op (lev j) (bs ! j) o')"
proof -
  have len: "length bs = 10" using ok by (simp add: ino_ok_def)
  have t1: "tree_blocks G op' (lev k) root = slot_blocks G op bs k \<union> (U' - U)"
    and ok1: "tree_ok G op' (lev k) root"
    and same: "\<And>x. x \<notin> index_blocks G op' (lev k) root \<Longrightarrow> blk G op' x = blk G op x"
    using ext by (auto simp: tree_ext_def slot_blocks_def)
  have "blk G op' x = blk G op x" if "j \<noteq> k" "x \<in> index_blocks G op (lev j) (bs ! j)" for x
  proof -
    have x: "x \<in> slot_blocks G op bs j"
      using that(2) index_in_tree [of G op "lev j" "bs ! j"] by (auto simp: slot_blocks_def)
    have "x \<notin> tree_blocks G op' (lev k) root"
      using ino_ok_disjoint [OF ok j k that(1)] x U slot_in_ino [OF j, of G op bs] t1 by blast
    then show ?thesis using same index_in_tree [of G op' "lev k" root] by blast
  qed
  note f = tree_frame [OF this]
  show "tree_ok G op' (lev j) (bs[k := root] ! j)"
    using f(3) ok1 len k ino_ok_slot [OF ok j] by (cases "j = k") simp_all
  show "slot_blocks G op' (bs[k := root]) j = slot_blocks G op bs j \<union> (if j = k then U' - U else {})"
    using f(1) t1 len k by (cases "j = k") (simp_all add: slot_blocks_def)
  show "walk G op' (lev j) (bs[k := root] ! j) o' =
      (if j = k then walk G op' (lev k) root o' else walk G op (lev j) (bs ! j) o')" if "o' < 512 ^ lev j"
    using f(4) [OF _ _ that] len k by (cases "j = k") simp_all
qed

lemma ino_ext_slot:
  assumes ok: "ino_ok G op bs" and U: "ino_blocks G op bs \<subseteq> U" and bn: "bn < MAXBLKS"
    and ext: "tree_ext G (lev (slot bn)) (soff bn) U op (bs ! slot bn) U' op' root b"
  shows "ino_ext G bn U op bs U' op' (bs[slot bn := root]) b"
proof -
  let ?k = "slot bn"
  let ?bs = "bs[?k := root]"
  note sl = ino_ext_slots [OF ok U slot_lt ext]
  note x = ext [unfolded tree_ext_def]
  have len: "length bs = 10" using ok by (simp add: ino_ok_def)
  have sU: "slot_blocks G op bs j \<subseteq> U" if "j < 10" for j using U slot_in_ino [OF that, of G op bs] by blast
  have "slot_blocks G op' ?bs i \<inter> slot_blocks G op' ?bs j = {}" if "i < 10" "j < 10" "i \<noteq> j" for i j
    using sl(2) [OF that(1)] sl(2) [OF that(2)] ino_ok_disjoint [OF ok that] sU [OF that(1)] sU [OF that(2)] that(3)
    by (cases "i = ?k"; cases "j = ?k") auto
  then have 1: "ino_ok G op' ?bs" using sl(1) len by (simp add: ino_ok_def)
  have 2: "ino_blocks G op' ?bs = ino_blocks G op bs \<union> (U' - U)"
    using sl(2) by (auto simp: ino_blocks_def split: if_splits intro!: bexI [of _ ?k])
  have 3: "blk G op' y = blk G op y" if "y \<notin> ino_index G op' ?bs" for y
  proof -
    have "y \<notin> index_blocks G op' (lev ?k) (?bs ! ?k)" using that by (simp add: ino_index_def)
    then show ?thesis using x len by simp
  qed
  have 4: "fwalk G op' ?bs bn = b" using x len by (simp add: fwalk_def)
  have 5: "fwalk G op' ?bs i = fwalk G op bs i" if i: "i < MAXBLKS" "i \<noteq> bn" for i
  proof -
    have "soff i \<noteq> soff bn" if "slot i = ?k" using that slot_soff_inj i(2) by blast
    then show ?thesis using x sl(3) [OF slot_lt soff_lt [OF i(1)]] soff_lt [OF i(1)] by (auto simp: fwalk_def)
  qed
  show ?thesis using 1 2 3 4 5 x by (simp add: ino_ext_def fwalk_def)
qed

lemma ino_ext_refl:
  "ino_ok G op bs \<Longrightarrow> ino_ext G bn U op bs U op bs (fwalk G op bs bn)"
  by (simp add: ino_ext_def)

section \<open>Files\<close>

text \<open>
  What holds of an inode between operations: its map is well formed, its blocks are data blocks in
  use, and every block that is not in use is a data block full of zeros.
\<close>

definition file_inv ::
    "('log, 'op, 'alc, 'lm, 'd) golib \<Rightarrow> ('alc \<Rightarrow> u64 set) \<Rightarrow> ('alc \<Rightarrow> u64 set) \<Rightarrow>
     ('d, 'op, 'alc) AllocTxn \<Rightarrow> Inode \<Rightarrow> bool" where
  "file_inv G used arange atxn ip \<longleftrightarrow>
     super_wf G (at_Super atxn) \<and> Inum ip < NInode G (at_Super atxn) \<and>
     balloc_inv G used arange atxn \<and> ino_ok G (Op atxn) (blks ip) \<and>
     ino_blocks G (Op atxn) (blks ip) \<subseteq> used (Balloc atxn) \<and>
     (\<forall>x \<in> ino_blocks G (Op atxn) (blks ip). valid_bnum atxn x)"

definition bmap_spec ::
    "('log, 'op, 'alc, 'lm, 'd) golib \<Rightarrow> ('alc \<Rightarrow> u64 set) \<Rightarrow> ('alc \<Rightarrow> u64 set) \<Rightarrow> u64 \<Rightarrow> Inode \<Rightarrow>
     ('d, 'op, 'alc) AllocTxn \<Rightarrow> u64 \<Rightarrow> bool \<Rightarrow> Inode \<Rightarrow> ('d, 'op, 'alc) AllocTxn \<Rightarrow> bool" where
  "bmap_spec G used arange bn ip atxn b alloc ip' atxn' \<longleftrightarrow>
     bmap G bn ip atxn = Inr (b, alloc, ip', atxn') \<and>
     ip' = ip\<lparr>blks := blks ip'\<rparr> \<and> (blks ip' \<noteq> blks ip \<longrightarrow> alloc \<or> b = 0) \<and>
     ino_ext G (unat bn) (used (Balloc atxn)) (Op atxn) (blks ip) (used (Balloc atxn')) (Op atxn') (blks ip') b \<and>
     file_inv G used arange atxn' ip' \<and> at_Super atxn' = at_Super atxn \<and>
     arange (Balloc atxn') = arange (Balloc atxn) \<and>
     used (Balloc atxn') - used (Balloc atxn) \<subseteq> arange (Balloc atxn) \<and>
     (b = 0 \<longrightarrow> arange (Balloc atxn') \<subseteq> used (Balloc atxn'))"

context gojournal
begin

text \<open>
  \<^const>\<open>bmap\<close> is \<^const>\<open>indbmap\<close> at the right entry of the inode. In the double indirect case the code
  compares the new root with \<^verbatim>\<open>ip.blks[INDIRECT]\<close>; when the two are equal the root has not changed.
\<close>

lemma bmap_indbmap:
  assumes run: "indbmap G (blks ip ! slot (unat bn)) (lev (slot (unat bn))) off atxn = Inr (b, root, atxn')"
    and off: "unat off = soff (unat bn)" and len: "length (blks ip) = 10"
    and r9: "slot (unat bn) = 9 \<Longrightarrow> root = blks ip ! 8 \<Longrightarrow> root = blks ip ! 9"
  shows "\<exists>alloc. bmap G bn ip atxn = Inr (b, alloc, ip\<lparr>blks := (blks ip)[slot (unat bn) := root]\<rparr>, atxn') \<and>
    (root \<noteq> blks ip ! slot (unat bn) \<longrightarrow> alloc \<or> b = 0)"
proof -
  have upd: "ip\<lparr>blks := (blks ip)[i := blks ip ! i]\<rparr> = ip" for i by simp
  have g: "slice_get (blks ip) 8 = Inr (blks ip ! 8)" "slice_get (blks ip) 9 = Inr (blks ip ! 9)"
    "slice_put (blks ip) 8 v = Inr ((blks ip)[8 := v])" "slice_put (blks ip) 9 v = Inr ((blks ip)[9 := v])" for v
    using len by (simp_all add: slice_get_def slice_put_def)
  consider "unat bn < 8" | "\<not> unat bn < 8" "unat bn < 520" | "\<not> unat bn < 520" by linarith
  then show ?thesis
  proof cases
    case 1
    then have "bn < 8" by (simp add: word_less_nat_alt)
    then show ?thesis using 1 run len upd [of "unat bn"]
      by (auto simp: bmap_def slot_def lev_def ind_root_def bnd_eq_Inr split: if_splits)
  next
    case 2
    then have n: "\<not> bn < 8" "bn - 8 < 512"
      by (simp_all add: word_less_nat_alt nowrap)
    have "off = bn - 8" using off 2 by (intro u64_eqI) (simp add: soff_def nowrap)
    then show ?thesis using 2 n run len upd [of 8]
      by (auto simp: bmap_def slot_def lev_def Let_def g numeral_2_eq_2 simp del: indbmap.simps)
  next
    case 3
    then have n: "\<not> bn < 8" "\<not> bn - 8 < 512"
      by (simp_all add: word_less_nat_alt nowrap)
    have "off = bn - 8 - 512" using off 3 by (intro u64_eqI) (simp add: soff_def nowrap)
    then show ?thesis using 3 n run len upd [of 9] r9
      by (auto simp: bmap_def slot_def lev_def Let_def g numeral_2_eq_2 simp del: indbmap.simps)
  qed
qed

lemma bmap_ok:
  assumes inv: "file_inv G used arange atxn ip" and bn: "unat bn < MAXBLKS"
  shows "\<exists>b alloc ip' atxn'. bmap_spec G used arange bn ip atxn b alloc ip' atxn'"
proof -
  let ?k = "slot (unat bn)" and ?off = "of_nat (soff (unat bn)) :: u64"
  have bi: "balloc_inv G used arange atxn" and ok: "ino_ok G (Op atxn) (blks ip)"
    and U: "ino_blocks G (Op atxn) (blks ip) \<subseteq> used (Balloc atxn)"
    and v: "\<And>x. x \<in> ino_blocks G (Op atxn) (blks ip) \<Longrightarrow> valid_bnum atxn x"
    using inv by (auto simp: file_inv_def)
  have so: "unat ?off = soff (unat bn)" using bn by (simp add: soff_def nowrap)
  note sub = slot_in_ino [OF slot_lt [of "unat bn"], of G "Op atxn" "blks ip", unfolded slot_blocks_def]
  obtain b root atxn' where sp: "indbmap_spec G used arange (lev ?k) (blks ip ! ?k) ?off atxn b root atxn'"
    using indbmap_ok [OF bi lev_le [OF slot_lt] ino_ok_slot [OF ok slot_lt] subset_trans [OF sub U]
        v [OF subsetD [OF sub]], of ?off] soff_lt [OF bn] so by auto
  then have run: "indbmap G (blks ip ! ?k) (lev ?k) ?off atxn = Inr (b, root, atxn')"
    and ext: "tree_ext G (lev ?k) (soff (unat bn)) (used (Balloc atxn)) (Op atxn) (blks ip ! ?k)
                (used (Balloc atxn')) (Op atxn') root b"
    and rest: "balloc_inv G used arange atxn'" "at_Super atxn' = at_Super atxn"
      "arange (Balloc atxn') = arange (Balloc atxn)"
      "used (Balloc atxn') - used (Balloc atxn) \<subseteq> arange (Balloc atxn)"
      "b = 0 \<longrightarrow> arange (Balloc atxn') \<subseteq> used (Balloc atxn')"
    using so by (auto simp: indbmap_spec_def)
  have len: "length (blks ip) = 10" using ok by (simp add: ino_ok_def)
  let ?bs = "(blks ip)[?k := root]"
  have r9: "root = blks ip ! 9" if "?k = 9" "root = blks ip ! 8"
  proof (rule ccontr)
    assume ne: "root \<noteq> blks ip ! 9"
    then have z: "blks ip ! 9 = 0" "root \<noteq> 0" using ext that(1) by (auto simp: tree_ext_def)
    have "root \<in> tree_blocks G (Op atxn') (lev 9) root" by (rule root_in_tree [OF z(2)])
    then have "root \<notin> used (Balloc atxn)" using ext that(1) z by (auto simp: tree_ext_def)
    moreover have "root \<in> slot_blocks G (Op atxn) (blks ip) 8"
      using root_in_tree z(2) that(2) by (auto simp: slot_blocks_def)
    ultimately show False using U slot_in_ino [of 8 G "Op atxn" "blks ip"] by auto
  qed
  obtain alloc where bm: "bmap G bn ip atxn = Inr (b, alloc, ip\<lparr>blks := ?bs\<rparr>, atxn')"
    and al: "root \<noteq> blks ip ! ?k \<longrightarrow> alloc \<or> b = 0"
    using bmap_indbmap [OF run so len r9] by blast
  have ie: "ino_ext G (unat bn) (used (Balloc atxn)) (Op atxn) (blks ip) (used (Balloc atxn')) (Op atxn') ?bs b"
    by (rule ino_ext_slot [OF ok U bn ext])
  have "file_inv G used arange atxn' (ip\<lparr>blks := ?bs\<rparr>)"
  proof -
    have "valid_bnum atxn' x" if "x \<in> ino_blocks G (Op atxn') ?bs" for x
      using that ie v [of x] rest(4) balloc_inv_fresh [OF bi, of x] valid_bnum_cong [OF rest(2), of x]
      by (auto simp: ino_ext_def)
    then show ?thesis using ie inv rest U by (auto simp: file_inv_def ino_ext_def)
  qed
  then have "bmap_spec G used arange bn ip atxn b alloc (ip\<lparr>blks := ?bs\<rparr>) atxn'"
    using bm al ie rest by (auto simp: bmap_spec_def)
  then show ?thesis by blast
qed

end

end
