(* ===== verification/FileData.thy ===== *)
theory FileData
  imports FileMap "HOL-Library.Sublist"
begin

text \<open>
  The bytes of a file and the correctness of \<^const>\<open>Read\<close> and \<^const>\<open>Write\<close>: the file is a function
  from positions to bytes, holes read as zeros. Reading returns the bytes at the positions asked
  for and leaves every byte as it was, also where it fills a hole; writing changes the bytes of
  the written range only. Neither touches a block in use that is not the file's.
\<close>

section \<open>The on-disk inode\<close>

definition inode_wf :: "Inode \<Rightarrow> bool" where
  "inode_wf ip \<longleftrightarrow> length (blks ip) = 10"

definition inode_buf :: "('log, 'op, 'alc, 'lm, 'd) golib \<Rightarrow> 'd FsSuper \<Rightarrow> 'op \<Rightarrow> u64 \<Rightarrow> byte list" where
  "inode_buf G super op inum = ReadBuf G op (Inum2Addr G super inum) (INODESZ G * 8)"

text \<open>One step of a decoder over an encoding.\<close>

context marshal_lib
begin

lemma dec_int:
  "Enc G sz (PutInt x # fs) = Inr b \<Longrightarrow> (\<And>b'. Enc G (sz - 8) fs = Inr b' \<Longrightarrow> f x b' = r) \<Longrightarrow>
     bnd (GetInt G b) (\<lambda>(x, b'). f x b') = r"
  using get_int by fastforce

lemma dec_int32:
  "Enc G sz (PutInt32 y # fs) = Inr b \<Longrightarrow> (\<And>b'. Enc G (sz - 4) fs = Inr b' \<Longrightarrow> f y b' = r) \<Longrightarrow>
     bnd (GetInt32 G b) (\<lambda>(y, b'). f y b') = r"
  using get_int32 by fastforce

lemma dec_ints:
  "Enc G sz (PutInts xs # fs) = Inr b \<Longrightarrow> unat n = length xs \<Longrightarrow> (\<And>b'. f xs b' = r) \<Longrightarrow>
     bnd (GetInts G n b) (\<lambda>(xs, b'). f xs b') = r"
  using get_ints by fastforce

end

context gojournal
begin

lemma Encode_total: "inode_wf ip \<Longrightarrow> \<exists>d. Encode G ip = Inr d \<and> length d = 128"
  unfolding Encode_def inode_wf_def INODESZ
  by (rule enc_fits [of _ "128 :: u64", simplified]) simp

lemma Decode_Encode:
  assumes wf: "inode_wf ip" and e: "Encode G ip = Inr d"
  shows "Decode G d (Inum ip) = Inr (ip\<lparr>inode_Dcache := None\<rparr>)"
proof -
  have n: "unat NBLKINO = length (blks ip)" using wf by (simp add: inode_wf_def)
  note e' = e [unfolded Encode_def]
  show ?thesis unfolding Decode_def
    by (rule dec_int32 [OF e'], rule dec_int32, assumption, rule dec_int, assumption, rule dec_int, assumption,
        rule dec_int, assumption, rule dec_int32, assumption, rule dec_int32, assumption,
        rule dec_int32, assumption, rule dec_int32, assumption, rule dec_ints [OF _ n], assumption)
       (simp add: zero_Inode_def)
qed

lemma data_not_inode_block:
  assumes "super_wf G (at_Super atxn)" and "inum < NInode G (at_Super atxn)" and "valid_bnum atxn b"
  shows "Blkno (Inum2Addr G (at_Super atxn) inum) \<noteq> b"
  using Inum2Addr_region(2) [OF assms(1,2)] assms(3) by (auto simp: valid_bnum_def)

text \<open>Storing an inode changes no data block and no other inode.\<close>

lemma WriteInode_ok:
  assumes wf: "super_wf G (at_Super atxn)" and i: "Inum ip < NInode G (at_Super atxn)" and b: "inode_wf ip"
  obtains op' where "WriteInode G ip atxn = Inr (atxn\<lparr>Op := op'\<rparr>)"
    and "\<And>x. valid_bnum atxn x \<Longrightarrow> blk G op' x = blk G (Op atxn) x"
    and "Decode G (inode_buf G (at_Super atxn) op' (Inum ip)) (Inum ip) = Inr (ip\<lparr>inode_Dcache := None\<rparr>)"
    and "\<And>j. j < NInode G (at_Super atxn) \<Longrightarrow> j \<noteq> Inum ip \<Longrightarrow>
           inode_buf G (at_Super atxn) op' j = inode_buf G (at_Super atxn) (Op atxn) j"
proof -
  obtain d where d: "Encode G ip = Inr d" "length d = 128" using Encode_total [OF b] by blast
  let ?a = "Inum2Addr G (at_Super atxn)"
  let ?op = "OverWrite G (Op atxn) (?a (Inum ip)) (INODESZ G * 8) d"
  have "inode_buf G (at_Super atxn) ?op j = inode_buf G (at_Super atxn) (Op atxn) j"
    if j: "j < NInode G (at_Super atxn)" "j \<noteq> Inum ip" for j
  proof (cases "Blkno (?a (Inum ip)) = Blkno (?a j)")
    case True
    have "?a (Inum ip) \<noteq> ?a j" using Inum2Addr_inj [OF wf i j(1)] j(2) by blast
    then have "Off (?a (Inum ip)) \<noteq> Off (?a j)" using True by (cases "?a (Inum ip)"; cases "?a j") simp
    moreover have "1024 dvd unat (Off (?a k))" if "k < NInode G (at_Super atxn)" for k
      using Inum2Addr_block(2) [OF wf that] by simp
    ultimately show ?thesis using ow_object [of "1024" "?a (Inum ip)" "?a j" d] i j d(2)
      by (simp add: inode_buf_def)
  qed (simp add: inode_buf_def ow_block)
  moreover have "Decode G (inode_buf G (at_Super atxn) ?op (Inum ip)) (Inum ip) = Inr (ip\<lparr>inode_Dcache := None\<rparr>)"
    using Decode_Encode [OF b d(1)] d(2) by (simp add: inode_buf_def ow_same)
  moreover have "blk G ?op x = blk G (Op atxn) x" if "valid_bnum atxn x" for x
    using data_not_inode_block [OF wf i that] by (simp add: blk_def Block2addr_def ow_block)
  moreover have "WriteInode G ip atxn = Inr (atxn\<lparr>Op := ?op\<rparr>)"
    using i d by (simp add: WriteInode_def not_le)
  ultimately show thesis using that by blast
qed

end

section \<open>The bytes of a file\<close>

abbreviation MAXBYTES :: nat where
  "MAXBYTES \<equiv> 1075871744"

definition fbyte :: "('log, 'op, 'alc, 'lm, 'd) golib \<Rightarrow> 'op \<Rightarrow> u64 list \<Rightarrow> nat \<Rightarrow> byte" where
  "fbyte G op bs i =
     (let b = fwalk G op bs (i div 4096) in if b = 0 then 0 else blk G op b ! (i mod 4096))"

definition frange :: "('log, 'op, 'alc, 'lm, 'd) golib \<Rightarrow> 'op \<Rightarrow> u64 list \<Rightarrow> nat \<Rightarrow> nat \<Rightarrow> byte list" where
  "frange G op bs off n = map (fbyte G op bs) [off..<off + n]"

text \<open>The contents of the file: its bytes up to its size.\<close>

definition contents :: "('log, 'op, 'alc, 'lm, 'd) golib \<Rightarrow> 'op \<Rightarrow> Inode \<Rightarrow> byte list" where
  "contents G op ip = frange G op (blks ip) 0 (unat (Size ip))"

definition exhausted :: "('alc \<Rightarrow> u64 set) \<Rightarrow> ('alc \<Rightarrow> u64 set) \<Rightarrow> ('d, 'op, 'alc) AllocTxn \<Rightarrow> bool" where
  "exhausted used arange atxn \<longleftrightarrow> arange (Balloc atxn) \<subseteq> used (Balloc atxn)"

text \<open>
  The effect of an operation on one file that only adds blocks to it: blocks of the file stay in
  place, added blocks were not in use, and blocks in use that are not the file's keep their contents.
\<close>

definition file_step ::
    "('log, 'op, 'alc, 'lm, 'd) golib \<Rightarrow> ('alc \<Rightarrow> u64 set) \<Rightarrow> ('alc \<Rightarrow> u64 set) \<Rightarrow> Inode \<Rightarrow>
     ('d, 'op, 'alc) AllocTxn \<Rightarrow> Inode \<Rightarrow> ('d, 'op, 'alc) AllocTxn \<Rightarrow> bool" where
  "file_step G used arange ip atxn ip' atxn' \<longleftrightarrow>
     file_inv G used arange atxn' ip' \<and> ip' = ip\<lparr>blks := blks ip'\<rparr> \<and>
     at_Super atxn' = at_Super atxn \<and> arange (Balloc atxn') = arange (Balloc atxn) \<and>
     used (Balloc atxn) \<subseteq> used (Balloc atxn') \<and>
     ino_blocks G (Op atxn') (blks ip') =
       ino_blocks G (Op atxn) (blks ip) \<union> (used (Balloc atxn') - used (Balloc atxn)) \<and>
     (\<forall>x \<in> used (Balloc atxn) - ino_blocks G (Op atxn) (blks ip).
        valid_bnum atxn x \<longrightarrow> blk G (Op atxn') x = blk G (Op atxn) x) \<and>
     (\<forall>i < MAXBLKS. fwalk G (Op atxn) (blks ip) i \<noteq> 0 \<longrightarrow>
        fwalk G (Op atxn') (blks ip') i = fwalk G (Op atxn) (blks ip) i)"

lemma file_step_inv: "file_step G used arange ip atxn ip' atxn' \<Longrightarrow> file_inv G used arange atxn' ip'"
  by (simp add: file_step_def)

lemma file_step_fields:
  assumes "file_step G used arange ip atxn ip' atxn'"
  shows "Size ip' = Size ip" "Inum ip' = Inum ip" "Kind ip' = Kind ip" "Nlink ip' = Nlink ip" "Gen ip' = Gen ip"
    "ShrinkSize ip' = ShrinkSize ip"
proof -
  have e: "ip' = ip\<lparr>blks := blks ip'\<rparr>" using assms by (simp add: file_step_def)
  show "Size ip' = Size ip" "Inum ip' = Inum ip" "Kind ip' = Kind ip" "Nlink ip' = Nlink ip" "Gen ip' = Gen ip"
    "ShrinkSize ip' = ShrinkSize ip"
    by (subst e, simp)+
qed

lemma file_step_refl: "file_inv G used arange atxn ip \<Longrightarrow> file_step G used arange ip atxn ip atxn"
  by (simp add: file_step_def)

lemma file_step_trans:
  assumes 1: "file_step G used arange ip atxn ip1 atxn1" and 2: "file_step G used arange ip1 atxn1 ip2 atxn2"
  shows "file_step G used arange ip atxn ip2 atxn2"
proof -
  have "ip2 = ip\<lparr>blks := blks ip2\<rparr>"
  proof -
    obtain bs1 bs2 where "ip1 = ip\<lparr>blks := bs1\<rparr>" "ip2 = ip1\<lparr>blks := bs2\<rparr>"
      using 1 2 unfolding file_step_def by blast
    then show ?thesis by simp
  qed
  moreover have "blk G (Op atxn2) x = blk G (Op atxn) x"
    if "x \<in> used (Balloc atxn) - ino_blocks G (Op atxn) (blks ip)" "valid_bnum atxn x" for x
    using that 1 2 valid_bnum_cong [of atxn1 atxn x] by (auto simp: file_step_def)
  moreover have "ino_blocks G (Op atxn2) (blks ip2) =
      ino_blocks G (Op atxn) (blks ip) \<union> (used (Balloc atxn2) - used (Balloc atxn))"
    using 1 2 by (auto simp: file_step_def)
  ultimately show ?thesis using 1 2 by (auto simp: file_step_def)
qed

context gojournal
begin

lemma fwalk_stays:
  assumes ext: "ino_ext G bn U op bs U' op' bs' b" and i: "i < MAXBLKS" and nz: "fwalk G op bs i \<noteq> 0"
  shows "fwalk G op' bs' i = fwalk G op bs i" "blk G op' (fwalk G op' bs' i) = blk G op (fwalk G op bs i)"
proof -
  show e: "fwalk G op' bs' i = fwalk G op bs i" using ext i nz by (cases "i = bn") (auto simp: ino_ext_def)
  have "fwalk G op' bs' i \<notin> ino_index G op' bs'"
    using fwalk_not_index [of G op' bs', OF _ i] ext e nz by (simp add: ino_ext_def)
  then show "blk G op' (fwalk G op' bs' i) = blk G op (fwalk G op bs i)" using ext e by (simp add: ino_ext_def)
qed

lemma bmap_fresh_zero:
  assumes "bmap_spec G used arange bn ip atxn b alloc ip' atxn'" and "balloc_inv G used arange atxn"
    and "unat bn < MAXBLKS" and "fwalk G (Op atxn) (blks ip) (unat bn) = 0" and "b \<noteq> 0"
  shows "blk G (Op atxn') b = replicate 4096 0"
proof -
  have ext: "ino_ext G (unat bn) (used (Balloc atxn)) (Op atxn) (blks ip) (used (Balloc atxn')) (Op atxn') (blks ip') b"
    and new: "used (Balloc atxn') - used (Balloc atxn) \<subseteq> arange (Balloc atxn)"
    using assms(1) by (auto simp: bmap_spec_def)
  have "b \<in> used (Balloc atxn') - used (Balloc atxn)" using ext assms(4,5) by (simp add: ino_ext_def)
  then have "blk G (Op atxn) b = replicate 4096 0" using balloc_inv_fresh [OF assms(2), of b] new by auto
  moreover have "b \<notin> ino_index G (Op atxn') (blks ip')"
    using fwalk_not_index [of G "Op atxn'" "blks ip'", OF _ assms(3)] ext assms(5) by (auto simp: ino_ext_def)
  ultimately show ?thesis using ext by (simp add: ino_ext_def)
qed

text \<open>Mapping a block changes no byte of the file.\<close>

lemma bmap_fbyte:
  assumes sp: "bmap_spec G used arange bn ip atxn b alloc ip' atxn'" and inv: "balloc_inv G used arange atxn"
    and bn: "unat bn < MAXBLKS" and i: "i < MAXBYTES"
  shows "fbyte G (Op atxn') (blks ip') i = fbyte G (Op atxn) (blks ip) i"
proof -
  have ext: "ino_ext G (unat bn) (used (Balloc atxn)) (Op atxn) (blks ip) (used (Balloc atxn')) (Op atxn') (blks ip') b"
    using sp by (simp add: bmap_spec_def)
  have ib: "i div 4096 < MAXBLKS" using i by (simp add: less_mult_imp_div_less)
  show ?thesis
  proof (cases "fwalk G (Op atxn) (blks ip) (i div 4096) = 0")
    case False
    then show ?thesis using fwalk_stays [OF ext ib False] by (simp add: fbyte_def Let_def)
  next
    case True
    show ?thesis
    proof (cases "i div 4096 = unat bn")
      case False
      then show ?thesis using ext ib True by (simp add: ino_ext_def fbyte_def)
    next
      case bn': True
      have "fwalk G (Op atxn') (blks ip') (i div 4096) = b" using ext bn' by (simp add: ino_ext_def)
      then show ?thesis using True bn' bmap_fresh_zero [OF sp inv bn] by (simp add: fbyte_def Let_def)
    qed
  qed
qed

lemma bmap_step:
  assumes sp: "bmap_spec G used arange bn ip atxn b alloc ip' atxn'"
  shows "file_step G used arange ip atxn ip' atxn'"
proof -
  have ext: "ino_ext G (unat bn) (used (Balloc atxn)) (Op atxn) (blks ip) (used (Balloc atxn')) (Op atxn') (blks ip') b"
    using sp by (simp add: bmap_spec_def)
  have "blk G (Op atxn') x = blk G (Op atxn) x" if "x \<in> used (Balloc atxn) - ino_blocks G (Op atxn) (blks ip)" for x
    using that ext ino_index_blocks [of G "Op atxn'" "blks ip'"] by (auto simp: ino_ext_def)
  moreover have "fwalk G (Op atxn') (blks ip') i = fwalk G (Op atxn) (blks ip) i"
    if "i < MAXBLKS" "fwalk G (Op atxn) (blks ip) i \<noteq> 0" for i by (rule fwalk_stays(1) [OF ext that])
  moreover have "ip' = ip\<lparr>blks := blks ip'\<rparr>" using sp by (simp add: bmap_spec_def)
  ultimately show ?thesis using sp ext by (simp add: file_step_def bmap_spec_def ino_ext_def)
qed

text \<open>A change of the transaction that leaves all data blocks as they are leaves all files as they are.\<close>

lemma file_op_frame:
  assumes inv: "file_inv G used arange atxn ip" and same: "\<And>x. valid_bnum atxn x \<Longrightarrow> blk G op' x = blk G (Op atxn) x"
  shows "file_step G used arange ip atxn ip (atxn\<lparr>Op := op'\<rparr>)"
    and "i < MAXBYTES \<Longrightarrow> fbyte G op' (blks ip) i = fbyte G (Op atxn) (blks ip) i"
    and "j < MAXBLKS \<Longrightarrow> fwalk G op' (blks ip) j = fwalk G (Op atxn) (blks ip) j"
proof -
  have v: "valid_bnum atxn x" if "x \<in> ino_blocks G (Op atxn) (blks ip)" for x
    using inv that by (simp add: file_inv_def)
  have s: "blk G op' b = blk G (Op atxn) b" if "b \<in> ino_index G (Op atxn) (blks ip)" for b
    using that v ino_index_blocks [of G "Op atxn" "blks ip"] same by blast
  note f = ino_frame [OF s]
  show "fwalk G op' (blks ip) j = fwalk G (Op atxn) (blks ip) j" if "j < MAXBLKS" using f(4) [OF _ that] .
  have "balloc_inv G used arange (atxn\<lparr>Op := op'\<rparr>)"
    using inv same by (auto simp: file_inv_def balloc_inv_def valid_bnum_def)
  then have "file_inv G used arange (atxn\<lparr>Op := op'\<rparr>) ip"
    using inv f(1,3) v by (simp add: file_inv_def valid_bnum_def)
  then show "file_step G used arange ip atxn ip (atxn\<lparr>Op := op'\<rparr>)"
    using f(1,4) same by (auto simp: file_step_def)
  show "fbyte G op' (blks ip) i = fbyte G (Op atxn) (blks ip) i" if "i < MAXBYTES"
  proof -
    have "i div 4096 < MAXBLKS" using that by (simp add: less_mult_imp_div_less)
    from f(4) [OF _ this] fwalk_in_ino [OF this, of G "Op atxn" "blks ip"] show ?thesis
      using v same by (auto simp: fbyte_def Let_def)
  qed
qed

lemma WriteInode_step:
  assumes inv: "file_inv G used arange atxn ip"
  obtains op' where "WriteInode G ip atxn = Inr (atxn\<lparr>Op := op'\<rparr>)"
    and "file_step G used arange ip atxn ip (atxn\<lparr>Op := op'\<rparr>)"
    and "\<And>i. i < MAXBYTES \<Longrightarrow> fbyte G op' (blks ip) i = fbyte G (Op atxn) (blks ip) i"
    and "\<And>x. valid_bnum atxn x \<Longrightarrow> blk G op' x = blk G (Op atxn) x"
    and "Decode G (inode_buf G (at_Super atxn) op' (Inum ip)) (Inum ip) = Inr (ip\<lparr>inode_Dcache := None\<rparr>)"
proof -
  have a: "super_wf G (at_Super atxn)" "Inum ip < NInode G (at_Super atxn)" "inode_wf ip"
    using inv by (auto simp: file_inv_def inode_wf_def ino_ok_def)
  from a show thesis
  proof (rule WriteInode_ok)
    fix op'
    assume w: "WriteInode G ip atxn = Inr (atxn\<lparr>Op := op'\<rparr>)"
      and s: "\<And>x. valid_bnum atxn x \<Longrightarrow> blk G op' x = blk G (Op atxn) x"
      and d: "Decode G (inode_buf G (at_Super atxn) op' (Inum ip)) (Inum ip) = Inr (ip\<lparr>inode_Dcache := None\<rparr>)"
    from that [OF w file_op_frame(1) [OF inv s] file_op_frame(2) [OF inv s] s d] show thesis by simp
  qed
qed

end

section \<open>Reading\<close>

lemma frange_append: "frange G op bs off (m + n) = frange G op bs off m @ frange G op bs (off + m) n"
  unfolding frange_def by (metis add.assoc le_add1 map_append upt_add_eq_append)

lemma frange_0 [simp]: "frange G op bs off 0 = []"
  by (simp add: frange_def)

lemma length_frange [simp]: "length (frange G op bs off n) = n"
  by (simp add: frange_def)

lemma frange_cong:
  "(\<And>i. i < MAXBYTES \<Longrightarrow> fbyte G op' bs' i = fbyte G op bs i) \<Longrightarrow> off + n \<le> MAXBYTES \<Longrightarrow>
     frange G op' bs' off n = frange G op bs off n"
  by (simp add: frange_def)

lemma contents_cong:
  assumes "Size ip' = Size ip" and "unat (Size ip) \<le> MAXBYTES"
    and "\<And>i. i < MAXBYTES \<Longrightarrow> fbyte G op' (blks ip') i = fbyte G op (blks ip) i"
  shows "contents G op' ip' = contents G op ip"
  using frange_cong [of G op' "blks ip'" op "blks ip" 0 "unat (Size ip)"] assms by (simp add: contents_def)

lemma take_drop_contents:
  "off + n \<le> unat (Size ip) \<Longrightarrow> take n (drop off (contents G op ip)) = frange G op (blks ip) off n"
  by (simp add: contents_def frange_def drop_map take_map)

lemma div_step:
  assumes "(n :: nat) < 4096 - off mod 4096"
  shows "(off + n) div 4096 = off div 4096" "(off + n) mod 4096 = off mod 4096 + n"
proof -
  have "off + n = (off mod 4096 + n) + off div 4096 * 4096" by simp
  then show "(off + n) div 4096 = off div 4096" "(off + n) mod 4096 = off mod 4096 + n"
    using assms by (metis div_mult_self1 less_diff_conv add.commute div_less add_0_right zero_neq_numeral,
      metis mod_mult_self1 less_diff_conv add.commute mod_less)
qed

lemma div_next:
  assumes "n = 4096 - (off :: nat) mod 4096"
  shows "(off + n) div 4096 = Suc (off div 4096)"
proof -
  have "off mod 4096 < 4096" by simp
  then have "off + n = 4096 + off div 4096 * 4096"
    using assms mod_div_mult_eq [of off 4096] by linarith
  then show ?thesis by simp
qed

text \<open>The piece of a request that lies in the block of position \<open>off\<close>.\<close>

definition chunk :: "nat \<Rightarrow> nat \<Rightarrow> nat" where
  "chunk off left = min (4096 - off mod 4096) left"

lemma chunk_pos: "0 < left \<Longrightarrow> 0 < chunk off left" "chunk off left \<le> left" "off mod 4096 + chunk off left \<le> 4096"
  using mod_less_divisor [of 4096 off] by (auto simp: chunk_def simp del: mod_less_divisor)

text \<open>The bytes of a block after a chunk of \<open>data\<close> has been copied into it.\<close>

lemma splice_nth:
  assumes "k + n \<le> length old" and "n \<le> length data" and "r < length old"
  shows "(take k old @ take n data @ drop (k + n) old) ! r = (if k \<le> r \<and> r < k + n then data ! (r - k) else old ! r)"
  using assms by (auto simp: nth_append)

lemma chunk_bytes:
  assumes "off mod 4096 + n \<le> 4096" and "n \<le> length data" and "length old = 4096" and "i div 4096 = off div 4096"
  shows "(take (off mod 4096) old @ take n data @ drop (off mod 4096 + n) old) ! (i mod 4096) =
         (if off \<le> i \<and> i < off + n then data ! (i - off) else old ! (i mod 4096))"
proof -
  have "i = i mod 4096 + off div 4096 * 4096" "off = off mod 4096 + off div 4096 * 4096" "i mod 4096 < 4096"
    using assms(4) by (metis mod_div_mult_eq, simp_all)
  then have "off \<le> i \<longleftrightarrow> off mod 4096 \<le> i mod 4096" "i < off + n \<longleftrightarrow> i mod 4096 < off mod 4096 + n"
    "i - off = i mod 4096 - off mod 4096" by linarith+
  then show ?thesis using assms splice_nth [of "off mod 4096" n old data "i mod 4096"] by simp
qed

lemma chunk_outside:
  assumes "(off :: nat) mod 4096 + n \<le> 4096" and "i div 4096 \<noteq> off div 4096"
  shows "\<not> (off \<le> i \<and> i < off + n)"
proof
  assume i: "off \<le> i \<and> i < off + n"
  have "i - off < 4096 - off mod 4096" using i assms(1) by linarith
  from div_step(1) [OF this] show False using i assms(2) by simp
qed

lemma chunk_full: "n + chunk off (c - n) < c \<Longrightarrow> chunk off (c - n) = 4096 - off mod 4096"
  by (simp add: chunk_def min_def split: if_splits)

context gojournal
begin

lemma frange_chunk:
  assumes "fwalk G op bs (off div 4096) = b" and "b \<noteq> 0" and "n \<le> chunk off left"
  shows "frange G op bs off n = take n (drop (off mod 4096) (blk G op b))"
proof (rule nth_equalityI)
  show "length (frange G op bs off n) = length (take n (drop (off mod 4096) (blk G op b)))"
    using assms(3) chunk_pos(3) [of off left] by simp
next
  fix i assume i: "i < length (frange G op bs off n)"
  have "i < 4096 - off mod 4096" using i assms(3) chunk_pos(3) [of off left] by simp
  note d = div_step [OF this]
  show "frange G op bs off n ! i = take n (drop (off mod 4096) (blk G op b)) ! i"
    using i assms(1,2) d chunk_pos(3) [of off left] assms(3) by (simp add: frange_def fbyte_def)
qed

text \<open>One block of a read: map it, store the inode if the map changed, copy.\<close>

lemma map_block:
  assumes inv: "file_inv G used arange atxn ip" and bn: "unat bn < MAXBLKS"
  obtains b alloc ip' atxn' where "bmap_spec G used arange bn ip atxn b alloc ip' atxn'"
    and "file_step G used arange ip atxn ip' atxn'"
    and "\<And>i. i < MAXBYTES \<Longrightarrow> fbyte G (Op atxn') (blks ip') i = fbyte G (Op atxn) (blks ip) i"
    and "fwalk G (Op atxn') (blks ip') (unat bn) = b"
    and "b = 0 \<Longrightarrow> exhausted used arange atxn'" and "b = 0 \<Longrightarrow> fwalk G (Op atxn) (blks ip) (unat bn) = 0"
    and "b \<noteq> 0 \<Longrightarrow> valid_bnum atxn' b"
proof -
  obtain b alloc ip' atxn' where sp: "bmap_spec G used arange bn ip atxn b alloc ip' atxn'"
    using bmap_ok [OF inv bn] by blast
  have bi: "balloc_inv G used arange atxn" using inv by (simp add: file_inv_def)
  have ext: "ino_ext G (unat bn) (used (Balloc atxn)) (Op atxn) (blks ip) (used (Balloc atxn')) (Op atxn') (blks ip') b"
    using sp by (simp add: bmap_spec_def)
  have w: "fwalk G (Op atxn') (blks ip') (unat bn) = b" using ext by (simp add: ino_ext_def)
  have v: "valid_bnum atxn' b" if "b \<noteq> 0"
    using fwalk_in_ino [OF bn, of G "Op atxn'" "blks ip'"] w that sp by (auto simp: bmap_spec_def file_inv_def)
  have "b = 0 \<Longrightarrow> fwalk G (Op atxn) (blks ip) (unat bn) = 0" using ext by (auto simp: ino_ext_def)
  moreover have "b = 0 \<Longrightarrow> exhausted used arange atxn'" using sp by (auto simp: bmap_spec_def exhausted_def)
  ultimately show thesis using that [OF sp bmap_step [OF sp] bmap_fbyte [OF sp bi bn] w _ _ v] by blast
qed

definition read_spec ::
    "nat \<Rightarrow> nat \<Rightarrow> byte list \<Rightarrow> Inode \<Rightarrow> ('d, 'op, 'alc) AllocTxn \<Rightarrow>
     (byte list \<times> Inode \<times> ('d, 'op, 'alc) AllocTxn) res \<Rightarrow> bool" where
  "read_spec off left data ip atxn r \<longleftrightarrow> (\<exists>m ip' atxn'.
     r = Inr (data @ frange G (Op atxn) (blks ip) off m, ip', atxn') \<and> m \<le> left \<and>
     file_step G used arange ip atxn ip' atxn' \<and>
     (\<forall>i < MAXBYTES. fbyte G (Op atxn') (blks ip') i = fbyte G (Op atxn) (blks ip) i) \<and>
     (m < left \<longrightarrow> exhausted used arange atxn' \<and> fwalk G (Op atxn) (blks ip) ((off + m) div 4096) = 0))"

lemma read_spec_stop:
  assumes "file_step G used arange ip atxn ip' atxn'"
    and "\<And>i. i < MAXBYTES \<Longrightarrow> fbyte G (Op atxn') (blks ip') i = fbyte G (Op atxn) (blks ip) i"
    and "0 < left \<Longrightarrow> exhausted used arange atxn' \<and> fwalk G (Op atxn) (blks ip) (off div 4096) = 0"
  shows "read_spec off left data ip atxn (Inr (data, ip', atxn'))"
  unfolding read_spec_def using assms by (intro exI [of _ "0::nat"] exI [of _ ip'] exI [of _ atxn']) simp

lemma read_spec_step:
  assumes st: "file_step G used arange ip atxn ip1 atxn1"
    and same: "\<And>i. i < MAXBYTES \<Longrightarrow> fbyte G (Op atxn1) (blks ip1) i = fbyte G (Op atxn) (blks ip) i"
    and r: "read_spec (off + n) (left - n) (data @ frange G (Op atxn) (blks ip) off n) ip1 atxn1 r"
    and n: "n \<le> left" and mx: "off + left \<le> MAXBYTES"
  shows "read_spec off left data ip atxn r"
proof -
  obtain m ip' atxn' where
      1: "r = Inr ((data @ frange G (Op atxn) (blks ip) off n) @ frange G (Op atxn1) (blks ip1) (off + n) m, ip', atxn')"
      "m \<le> left - n" "file_step G used arange ip1 atxn1 ip' atxn'"
      "\<forall>i < MAXBYTES. fbyte G (Op atxn') (blks ip') i = fbyte G (Op atxn1) (blks ip1) i"
    and 2: "m < left - n \<longrightarrow> exhausted used arange atxn' \<and> fwalk G (Op atxn1) (blks ip1) ((off + n + m) div 4096) = 0"
    using r by (auto simp: read_spec_def)
  have "frange G (Op atxn1) (blks ip1) (off + n) m = frange G (Op atxn) (blks ip) (off + n) m"
    by (rule frange_cong [OF same]) (use 1(2) n mx in auto)
  then have e: "r = Inr (data @ frange G (Op atxn) (blks ip) off (n + m), ip', atxn')"
    using 1(1) by (simp add: frange_append)
  have "fwalk G (Op atxn) (blks ip) ((off + (n + m)) div 4096) = 0" if "n + m < left"
  proof (rule ccontr)
    assume nz: "fwalk G (Op atxn) (blks ip) ((off + (n + m)) div 4096) \<noteq> 0"
    have "(off + (n + m)) div 4096 < MAXBLKS" using that mx by (simp add: less_mult_imp_div_less)
    then have "fwalk G (Op atxn1) (blks ip1) ((off + (n + m)) div 4096) \<noteq> 0" using st nz by (simp add: file_step_def)
    moreover have "m < left - n" using that by simp
    ultimately show False using 2 by (simp add: add.assoc)
  qed
  then show ?thesis
    unfolding read_spec_def using e 1 2 n same file_step_trans [OF st 1(3)]
    by (intro exI [of _ "n + m"] exI [of _ ip'] exI [of _ atxn']) auto
qed

text \<open>The block of a read: the inode is stored if the map changed.\<close>

lemma write_if_alloc:
  assumes inv: "file_inv G used arange atxn ip"
  obtains op' where "(if alloc then WriteInode G ip atxn else Inr atxn) = Inr (atxn\<lparr>Op := op'\<rparr>)"
    and "file_step G used arange ip atxn ip (atxn\<lparr>Op := op'\<rparr>)"
    and "\<And>i. i < MAXBYTES \<Longrightarrow> fbyte G op' (blks ip) i = fbyte G (Op atxn) (blks ip) i"
    and "\<And>x. valid_bnum atxn x \<Longrightarrow> blk G op' x = blk G (Op atxn) x"
proof (cases alloc)
  case True
  from WriteInode_step [OF inv] that True show thesis by metis
next
  case False
  then show thesis using that [of "Op atxn"] file_step_refl [OF inv] by simp
qed

lemma read_iter:
  assumes inv: "file_inv G used arange atxn ip" and nc: "n < count"
    and boff: "boff = off div 4096" and bn: "unat boff < MAXBLKS"
    and nbytes: "nbytes = min (4096 - off mod 4096) (count - n)"
    and nb: "unat nbytes = chunk (unat off) left" and mx: "unat off + left \<le> MAXBYTES"
  shows "(\<exists>ip1 atxn1. read_loop G (Suc fuel) count boff n off data ip atxn = Inr (data, ip1, atxn1) \<and>
            file_step G used arange ip atxn ip1 atxn1 \<and>
            (\<forall>i < MAXBYTES. fbyte G (Op atxn1) (blks ip1) i = fbyte G (Op atxn) (blks ip) i) \<and>
            exhausted used arange atxn1 \<and> fwalk G (Op atxn) (blks ip) (unat off div 4096) = 0) \<or>
         (\<exists>ip1 atxn1. read_loop G (Suc fuel) count boff n off data ip atxn =
            read_loop G fuel count (boff + 1) (n + nbytes) (off + nbytes)
              (data @ frange G (Op atxn) (blks ip) (unat off) (unat nbytes)) ip1 atxn1 \<and>
            file_step G used arange ip atxn ip1 atxn1 \<and>
            (\<forall>i < MAXBYTES. fbyte G (Op atxn1) (blks ip1) i = fbyte G (Op atxn) (blks ip) i))"
    (is "?stop \<or> ?go")
proof -
  have bo: "unat boff = unat off div 4096" using boff by (simp add: unat_div)
  from inv bn show ?thesis
  proof (rule map_block)
    fix b alloc ip1 atxn1
    assume sp: "bmap_spec G used arange boff ip atxn b alloc ip1 atxn1"
      and st: "file_step G used arange ip atxn ip1 atxn1"
      and same: "\<And>i. i < MAXBYTES \<Longrightarrow> fbyte G (Op atxn1) (blks ip1) i = fbyte G (Op atxn) (blks ip) i"
      and w: "fwalk G (Op atxn1) (blks ip1) (unat boff) = b"
      and z: "b = 0 \<Longrightarrow> exhausted used arange atxn1" "b = 0 \<Longrightarrow> fwalk G (Op atxn) (blks ip) (unat boff) = 0"
      and v: "b \<noteq> 0 \<Longrightarrow> valid_bnum atxn1 b"
    have bm: "bmap G boff ip atxn = Inr (b, alloc, ip1, atxn1)" using sp by (simp add: bmap_spec_def)
    have ?stop if "b = 0"
      using that nc bm z bo st same by (intro exI [of _ ip1] exI [of _ atxn1]) (simp add: read_loop.simps)
    moreover have ?go if b: "b \<noteq> 0"
    proof -
      from file_step_inv [OF st] show ?thesis
      proof (rule write_if_alloc [where alloc = alloc])
        fix op2
        let ?a2 = "atxn1\<lparr>Op := op2\<rparr>"
        assume wi: "(if alloc then WriteInode G ip1 atxn1 else Inr atxn1) = Inr ?a2"
          and st2: "file_step G used arange ip1 atxn1 ip1 ?a2"
          and same2: "\<And>i. i < MAXBYTES \<Longrightarrow> fbyte G op2 (blks ip1) i = fbyte G (Op atxn1) (blks ip1) i"
          and b2: "\<And>x. valid_bnum atxn1 x \<Longrightarrow> blk G op2 x = blk G (Op atxn1) x"
        have rb: "ReadBlock G b ?a2 = Inr (blk G op2 b)"
          using v [OF b] by (simp add: ReadBlock_valid valid_bnum_def)
        have fr: "frange G (Op atxn) (blks ip) (unat off) (unat nbytes) = frange G (Op atxn1) (blks ip1) (unat off) (unat nbytes)"
          by (rule frange_cong [symmetric, OF same]) (use nb chunk_pos(2) [of "unat off" left] mx in auto)
        have "copy_out (blk G op2 b) (off mod 4096) nbytes = Inr (frange G (Op atxn) (blks ip) (unat off) (unat nbytes))"
          using frange_chunk [of "Op atxn1" "blks ip1" "unat off" b "unat nbytes" left] w bo b fr b2 [OF v [OF b]]
            chunk_pos(3) [of "unat off" left] nb by (simp add: copy_out_def unat_mod)
        then show ?go
          using nc bm b wi rb same same2 file_step_trans [OF st st2] nbytes
          by (intro exI [of _ ip1] exI [of _ ?a2]) (simp add: read_loop.simps [of G "Suc fuel"] Let_def)
      qed
    qed
    ultimately show "?stop \<or> ?go" by blast
  qed
qed

lemma read_loop_ok:
  assumes "file_inv G used arange atxn ip" and "unat n \<le> unat count" and "unat count - unat n \<le> fuel"
    and "unat off + (unat count - unat n) \<le> MAXBYTES" and "unat n < unat count \<Longrightarrow> boff = off div 4096"
  shows "read_spec (unat off) (unat count - unat n) data ip atxn (read_loop G fuel count boff n off data ip atxn)"
  using assms
proof (induction fuel arbitrary: boff n off data ip atxn)
  case 0
  then have "\<not> n < count" by (simp add: word_less_nat_alt)
  then show ?case using 0 by (simp add: read_loop.simps word_less_nat_alt) (rule read_spec_stop [OF file_step_refl]; simp)
next
  case (Suc fuel)
  let ?left = "unat count - unat n"
  show ?case
  proof (cases "n < count")
    case False
    then show ?thesis using Suc.prems by (simp add: read_loop.simps word_less_nat_alt) (rule read_spec_stop [OF file_step_refl]; simp)
  next
    case True
    then have nc: "unat n < unat count" by (simp add: word_less_nat_alt)
    have boff: "boff = off div 4096" by (rule Suc.prems(5) [OF nc])
    have bn: "unat boff < MAXBLKS" using Suc.prems(4) nc boff by (simp add: unat_div less_mult_imp_div_less)
    let ?nb = "chunk (unat off) ?left" and ?nbytes = "min (4096 - off mod 4096) (count - n) :: u64"
    have nb: "unat ?nbytes = ?nb"
      using nc by (auto simp: chunk_def min_def word_le_nat_alt unat_mod nowrap)
    have nb_le: "0 < ?nb" "?nb \<le> ?left" using chunk_pos(1) [of ?left "unat off"] chunk_pos(2) [of "unat off" ?left] nc by auto
    have un: "unat (n + ?nbytes) = unat n + ?nb" "unat (off + ?nbytes) = unat off + ?nb"
      using nb nb_le Suc.prems(4) unat_lt64 [of count] nc by (simp_all add: nowrap)
    have le: "unat n + ?nb \<le> unat count" "unat count - (unat n + ?nb) \<le> fuel"
      "unat off + ?nb + (unat count - (unat n + ?nb)) \<le> MAXBYTES"
      using nb_le Suc.prems(2-4) by linarith+
    have next_b: "boff + 1 = (off + ?nbytes) div 4096" if "unat (n + ?nbytes) < unat count"
      using div_next [OF chunk_full] that un bn boff by (intro u64_eqI) (simp add: unat_div nowrap)
    from read_iter [OF Suc.prems(1) True boff bn refl nb Suc.prems(4), of fuel data] show ?thesis
    proof (elim disjE exE conjE)
      fix ip1 atxn1
      assume eq: "read_loop G (Suc fuel) count boff n off data ip atxn =
            read_loop G fuel count (boff + 1) (n + ?nbytes) (off + ?nbytes)
              (data @ frange G (Op atxn) (blks ip) (unat off) (unat ?nbytes)) ip1 atxn1"
        and st: "file_step G used arange ip atxn ip1 atxn1"
        and same: "\<forall>i < MAXBYTES. fbyte G (Op atxn1) (blks ip1) i = fbyte G (Op atxn) (blks ip) i"
      have "read_spec (unat (off + ?nbytes)) (unat count - unat (n + ?nbytes))
         (data @ frange G (Op atxn) (blks ip) (unat off) ?nb) ip1 atxn1
         (read_loop G (Suc fuel) count boff n off data ip atxn)"
        unfolding eq nb by (rule Suc.IH [OF file_step_inv [OF st]]) (use un le next_b in simp_all)
      then show ?thesis
        unfolding un by (intro read_spec_step [OF st, of "unat off" ?nb])
          (use same nb_le Suc.prems(4) in \<open>auto simp: diff_diff_left\<close>)
    qed (simp add: read_spec_stop)
  qed
qed

lemma Read_ok:
  assumes inv: "file_inv G used arange atxn ip" and sz: "unat (Size ip) \<le> MAXBYTES"
    and nw: "offset < Size ip \<Longrightarrow> unat offset + unat n < 2 ^ 64"
  shows "\<exists>m ip' atxn'. Read G offset n ip atxn =
           Inr (take m (drop (unat offset) (contents G (Op atxn) ip)), unat (Size ip) \<le> unat offset, ip', atxn') \<and>
         m \<le> unat n \<and> file_step G used arange ip atxn ip' atxn' \<and>
         contents G (Op atxn') ip' = contents G (Op atxn) ip \<and>
         (m < unat n \<and> unat offset + m < unat (Size ip) \<longrightarrow>
            exhausted used arange atxn' \<and> fwalk G (Op atxn) (blks ip) ((unat offset + m) div 4096) = 0)"
proof (cases "unat (Size ip) \<le> unat offset")
  case True
  then show ?thesis using file_step_refl [OF inv]
    by (intro exI [of _ "unat n"] exI [of _ ip] exI [of _ atxn])
       (simp add: Read_def word_le_nat_alt contents_def)
next
  case False
  let ?count = "if Size ip \<le> offset + n then Size ip - offset else n"
  have c: "unat ?count = min (unat n) (unat (Size ip) - unat offset)"
    using nw False by (auto simp: word_le_nat_alt word_less_nat_alt nowrap)
  have "read_spec (unat offset) (unat ?count - unat (0 :: u64)) [] ip atxn
      (read_loop G (Suc (unat ?count)) ?count (offset div 4096) 0 offset [] ip atxn)"
    by (rule read_loop_ok [OF inv]) (use c sz False in auto)
  then obtain m ip' atxn' where r: "read_loop G (Suc (unat ?count)) ?count (offset div 4096) 0 offset [] ip atxn =
        Inr (frange G (Op atxn) (blks ip) (unat offset) m, ip', atxn')"
    and m: "m \<le> unat ?count" and st: "file_step G used arange ip atxn ip' atxn'"
    and same: "\<forall>i < MAXBYTES. fbyte G (Op atxn') (blks ip') i = fbyte G (Op atxn) (blks ip) i"
    and ex: "m < unat ?count \<longrightarrow> exhausted used arange atxn' \<and> fwalk G (Op atxn) (blks ip) ((unat offset + m) div 4096) = 0"
    by (auto simp: read_spec_def)
  have "Size ip' = Size ip" by (rule file_step_fields [OF st])
  then have "contents G (Op atxn') ip' = contents G (Op atxn) ip"
    using same sz by (intro contents_cong) auto
  moreover have "Read G offset n ip atxn =
      Inr (take m (drop (unat offset) (contents G (Op atxn) ip)), False, ip', atxn')"
  proof -
    have "take m (drop (unat offset) (contents G (Op atxn) ip)) = frange G (Op atxn) (blks ip) (unat offset) m"
      by (rule take_drop_contents) (use m c False in linarith)
    then show ?thesis using False r by (simp add: Read_def word_le_nat_alt Let_def)
  qed
  ultimately show ?thesis using m c st ex False
    by (intro exI [of _ m] exI [of _ ip'] exI [of _ atxn']) auto
qed

section \<open>Writing\<close>

text \<open>Overwriting one data block of a file changes the bytes of that block and nothing else.\<close>

lemma store_data:
  assumes inv: "file_inv G used arange atxn ip" and bn: "bn < MAXBLKS"
    and w: "fwalk G (Op atxn) (blks ip) bn = b" and b: "b \<noteq> 0"
    and upd: "\<And>x. blk G op' x = (if x = b then d else blk G (Op atxn) x)"
  shows "file_step G used arange ip atxn ip (atxn\<lparr>Op := op'\<rparr>)"
    and "i < MAXBYTES \<Longrightarrow> fbyte G op' (blks ip) i = (if i div 4096 = bn then d ! (i mod 4096) else fbyte G (Op atxn) (blks ip) i)"
    and "j < MAXBLKS \<Longrightarrow> fwalk G op' (blks ip) j = fwalk G (Op atxn) (blks ip) j"
proof -
  have ok: "ino_ok G (Op atxn) (blks ip)" using inv by (simp add: file_inv_def)
  have bi: "b \<in> ino_blocks G (Op atxn) (blks ip)" "b \<notin> ino_index G (Op atxn) (blks ip)"
    using fwalk_in_ino [OF bn, of G "Op atxn" "blks ip"] fwalk_not_index [OF ok bn] w b by auto
  have s: "blk G op' x = blk G (Op atxn) x" if "x \<in> ino_index G (Op atxn) (blks ip)" for x
    using that bi upd by metis
  note f = ino_frame [OF s]
  have "b \<in> used (Balloc atxn)" using inv bi by (auto simp: file_inv_def)
  then have "balloc_inv G used arange (atxn\<lparr>Op := op'\<rparr>)"
    using inv upd by (auto simp: file_inv_def balloc_inv_def valid_bnum_def)
  then have "file_inv G used arange (atxn\<lparr>Op := op'\<rparr>) ip"
    using inv f(1,3) by (simp add: file_inv_def valid_bnum_def)
  then show "file_step G used arange ip atxn ip (atxn\<lparr>Op := op'\<rparr>)"
    using f(1,4) upd bi by (auto simp: file_step_def)
  show fw: "fwalk G op' (blks ip) j = fwalk G (Op atxn) (blks ip) j" if "j < MAXBLKS" for j
    by (rule f(4) [OF _ that])
  show "fbyte G op' (blks ip) i = (if i div 4096 = bn then d ! (i mod 4096) else fbyte G (Op atxn) (blks ip) i)"
    if "i < MAXBYTES"
  proof -
    have ib: "i div 4096 < MAXBLKS" using that by (simp add: less_mult_imp_div_less)
    have "fwalk G (Op atxn) (blks ip) (i div 4096) \<noteq> b" if "i div 4096 \<noteq> bn"
      using fwalk_inj [OF ok ib bn] w b that by auto
    then show ?thesis using fw [OF ib] w b upd by (auto simp: fbyte_def Let_def)
  qed
qed

text \<open>The two ways in which \<^const>\<open>write_loop\<close> stores a piece of the data in a block.\<close>

definition store_chunk :: "u64 \<Rightarrow> u64 \<Rightarrow> u64 \<Rightarrow> byte list \<Rightarrow> ('d, 'op, 'alc) AllocTxn \<Rightarrow> ('d, 'op, 'alc) AllocTxn res" where
  "store_chunk blkno byteoff nbytes data atxn =
     (if byteoff = 0 \<and> nbytes = BlockSize G
      then bnd (slice_take nbytes data) (\<lambda>d.
           Inr (atxn\<lparr>Op := OverWrite G (Op atxn) (Block2addr G blkno) (NBITBLOCK G) d\<rparr>))
      else bnd (ReadBlock G blkno atxn) (\<lambda>buffer.
           bnd (copy_in buffer byteoff nbytes data) (\<lambda>buffer.
           Inr (StoreBlock G blkno buffer atxn))))"

lemma store_chunk_ok:
  assumes v: "valid_bnum atxn b" and n: "unat byteoff + unat nbytes \<le> 4096" "0 < unat nbytes" "unat nbytes \<le> length data"
  obtains op' where "store_chunk b byteoff nbytes data atxn = Inr (atxn\<lparr>Op := op'\<rparr>)"
    and "\<And>x. blk G op' x = (if x = b then take (unat byteoff) (blk G (Op atxn) b) @ take (unat nbytes) data @
           drop (unat byteoff + unat nbytes) (blk G (Op atxn) b) else blk G (Op atxn) x)"
proof (cases "byteoff = 0 \<and> nbytes = 4096")
  case True
  then have "store_chunk b byteoff nbytes data atxn =
      Inr (atxn\<lparr>Op := OverWrite G (Op atxn) (Block2addr G b) (NBITBLOCK G) (take 4096 data)\<rparr>)"
    using n(3) by (simp add: store_chunk_def slice_take_def)
  from that [OF this] show thesis using True n(3) by (simp add: blk_OverWrite del: NBITBLOCK)
next
  case False
  let ?d = "take (unat byteoff) (blk G (Op atxn) b) @ take (unat nbytes) data @
           drop (unat byteoff + unat nbytes) (blk G (Op atxn) b)"
  have "length ?d = 4096" using n by simp
  moreover have "store_chunk b byteoff nbytes data atxn = Inr (StoreBlock G b ?d atxn)"
    using False n v by (auto simp: store_chunk_def ReadBlock_valid copy_in_def)
  ultimately show thesis using that [of "Op (StoreBlock G b ?d atxn)"] blk_StoreBlock [of ?d b atxn]
    by (simp add: StoreBlock_def)
qed

lemma write_loop_unfold:
  "write_loop G (Suc fuel) boff n data off cnt alloc ip atxn =
     (if n > 0
      then bnd (bmap G boff ip atxn) (\<lambda>(blkno, new, ip, atxn).
           if blkno = 0 then Inr (cnt, False, alloc, ip, atxn)
           else let byteoff = off mod 4096; nbytes = min (4096 - byteoff) n
                in bnd (store_chunk blkno byteoff nbytes data atxn) (\<lambda>atxn.
                   bnd (slice_drop nbytes data) (\<lambda>data.
                   write_loop G fuel (boff + 1) (n - nbytes) data (off + nbytes) (cnt + nbytes) (new \<or> alloc) ip atxn)))
      else Inr (cnt, True, alloc, ip, atxn))"
proof -
  have m: "(if n < x then n else x) = min x n" for x :: u64 by (auto simp: min_def)
  show ?thesis by (simp add: write_loop.simps [of G "Suc fuel"] store_chunk_def m Let_def cong: if_cong)
qed

definition write_spec ::
    "nat \<Rightarrow> nat \<Rightarrow> byte list \<Rightarrow> u64 \<Rightarrow> bool \<Rightarrow> Inode \<Rightarrow> ('d, 'op, 'alc) AllocTxn \<Rightarrow>
     (u64 \<times> bool \<times> bool \<times> Inode \<times> ('d, 'op, 'alc) AllocTxn) res \<Rightarrow> bool" where
  "write_spec off left data cnt alloc ip atxn r \<longleftrightarrow> (\<exists>m ok alloc' ip' atxn'.
     r = Inr (cnt + of_nat m, ok, alloc', ip', atxn') \<and> m \<le> left \<and> (ok \<longleftrightarrow> m = left) \<and> (alloc' \<longrightarrow> alloc \<or> 0 < m) \<and>
     file_step G used arange ip atxn ip' atxn' \<and>
     (\<forall>i < MAXBYTES. fbyte G (Op atxn') (blks ip') i =
        (if off \<le> i \<and> i < off + m then data ! (i - off) else fbyte G (Op atxn) (blks ip) i)) \<and>
     (m < left \<longrightarrow> exhausted used arange atxn' \<and> fwalk G (Op atxn') (blks ip') ((off + m) div 4096) = 0) \<and>
     (\<forall>i. off \<le> i \<and> i < off + m \<longrightarrow> fwalk G (Op atxn') (blks ip') (i div 4096) \<noteq> 0))"

lemma write_spec_stop:
  assumes "file_step G used arange ip atxn ip' atxn'" and "ok \<longleftrightarrow> left = 0"
    and "\<And>i. i < MAXBYTES \<Longrightarrow> fbyte G (Op atxn') (blks ip') i = fbyte G (Op atxn) (blks ip) i"
    and "0 < left \<Longrightarrow> exhausted used arange atxn' \<and> fwalk G (Op atxn') (blks ip') (off div 4096) = 0"
  shows "write_spec off left data cnt alloc ip atxn (Inr (cnt, ok, alloc, ip', atxn'))"
  unfolding write_spec_def using assms by (intro exI [of _ "0::nat"]) auto

lemma write_spec_step:
  assumes st: "file_step G used arange ip atxn ip1 atxn1"
    and upd: "\<And>i. i < MAXBYTES \<Longrightarrow> fbyte G (Op atxn1) (blks ip1) i =
        (if off \<le> i \<and> i < off + n then data ! (i - off) else fbyte G (Op atxn) (blks ip) i)"
    and w: "\<And>i. off \<le> i \<Longrightarrow> i < off + n \<Longrightarrow> fwalk G (Op atxn1) (blks ip1) (i div 4096) \<noteq> 0"
    and r: "write_spec (off + n) (left - n) (drop n data) (cnt + of_nat n) alloc1 ip1 atxn1 r"
    and n: "0 < n" "n \<le> left" "n \<le> length data" and mx: "off + left \<le> MAXBYTES"
  shows "write_spec off left data cnt alloc ip atxn r"
proof -
  obtain m ok alloc' ip' atxn' where
      e: "r = Inr (cnt + of_nat n + of_nat m, ok, alloc', ip', atxn')" and m: "m \<le> left - n" "ok \<longleftrightarrow> m = left - n"
    and st1: "file_step G used arange ip1 atxn1 ip' atxn'"
    and upd1: "\<forall>i < MAXBYTES. fbyte G (Op atxn') (blks ip') i =
        (if off + n \<le> i \<and> i < off + n + m then drop n data ! (i - (off + n)) else fbyte G (Op atxn1) (blks ip1) i)"
    and ex: "m < left - n \<longrightarrow> exhausted used arange atxn' \<and> fwalk G (Op atxn') (blks ip') ((off + n + m) div 4096) = 0"
    and w1: "\<forall>i. off + n \<le> i \<and> i < off + n + m \<longrightarrow> fwalk G (Op atxn') (blks ip') (i div 4096) \<noteq> 0"
    using r by (auto simp: write_spec_def)
  have "fbyte G (Op atxn') (blks ip') i =
      (if off \<le> i \<and> i < off + (n + m) then data ! (i - off) else fbyte G (Op atxn) (blks ip) i)" if i: "i < MAXBYTES" for i
    using upd [OF i] upd1 i n(3) by (auto simp: not_le not_less)
  moreover have "fwalk G (Op atxn') (blks ip') (i div 4096) \<noteq> 0" if i: "off \<le> i" "i < off + (n + m)" for i
  proof (cases "i < off + n")
    case True
    have "i div 4096 < MAXBLKS" using True n mx by (simp add: less_mult_imp_div_less)
    then show ?thesis using w [OF i(1) True] st1 by (simp add: file_step_def)
  next
    case False
    then show ?thesis using w1 i by simp
  qed
  ultimately show ?thesis
    unfolding write_spec_def using e m n ex file_step_trans [OF st st1]
    by (intro exI [of _ "n + m"] exI [of _ ok] exI [of _ alloc'] exI [of _ ip'] exI [of _ atxn']) (auto simp: add.assoc)
qed

lemma write_iter:
  assumes inv: "file_inv G used arange atxn ip" and n: "n > 0"
    and boff: "boff = off div 4096" and bn: "unat boff < MAXBLKS"
    and nbytes: "nbytes = min (4096 - off mod 4096) n" and nb: "unat nbytes = chunk (unat off) (unat n)"
    and len: "unat n \<le> length data"
  shows "(\<exists>ip1 atxn1. write_loop G (Suc fuel) boff n data off cnt alloc ip atxn = Inr (cnt, False, alloc, ip1, atxn1) \<and>
            file_step G used arange ip atxn ip1 atxn1 \<and>
            (\<forall>i < MAXBYTES. fbyte G (Op atxn1) (blks ip1) i = fbyte G (Op atxn) (blks ip) i) \<and>
            exhausted used arange atxn1 \<and> fwalk G (Op atxn1) (blks ip1) (unat off div 4096) = 0) \<or>
         (\<exists>alloc1 ip1 atxn1. write_loop G (Suc fuel) boff n data off cnt alloc ip atxn =
            write_loop G fuel (boff + 1) (n - nbytes) (drop (unat nbytes) data) (off + nbytes) (cnt + nbytes) alloc1 ip1 atxn1 \<and>
            file_step G used arange ip atxn ip1 atxn1 \<and>
            fwalk G (Op atxn1) (blks ip1) (unat off div 4096) \<noteq> 0 \<and>
            (\<forall>i < MAXBYTES. fbyte G (Op atxn1) (blks ip1) i =
              (if unat off \<le> i \<and> i < unat off + unat nbytes then data ! (i - unat off)
               else fbyte G (Op atxn) (blks ip) i)))"
    (is "?stop \<or> ?go")
proof -
  have bo: "unat boff = unat off div 4096" using boff by (simp add: unat_div)
  have nl: "0 < unat nbytes" "unat nbytes \<le> length data" "unat (off mod 4096) + unat nbytes \<le> 4096"
    using nb chunk_pos [of "unat n" "unat off"] chunk_pos(2,3) [of "unat off" "unat n"] n len
    by (auto simp: unat_mod word_less_nat_alt)
  from inv bn show ?thesis
  proof (rule map_block)
    fix b new ip1 atxn1
    assume sp: "bmap_spec G used arange boff ip atxn b new ip1 atxn1"
      and st: "file_step G used arange ip atxn ip1 atxn1"
      and same: "\<And>i. i < MAXBYTES \<Longrightarrow> fbyte G (Op atxn1) (blks ip1) i = fbyte G (Op atxn) (blks ip) i"
      and w: "fwalk G (Op atxn1) (blks ip1) (unat boff) = b"
      and z: "b = 0 \<Longrightarrow> exhausted used arange atxn1" and v: "b \<noteq> 0 \<Longrightarrow> valid_bnum atxn1 b"
    have bm: "bmap G boff ip atxn = Inr (b, new, ip1, atxn1)" using sp by (simp add: bmap_spec_def)
    have ?stop if "b = 0"
      using that n bm z bo st same w by (intro exI [of _ ip1] exI [of _ atxn1]) (simp add: write_loop_unfold)
    moreover have ?go if b: "b \<noteq> 0"
      using v [OF b] nl(3,1,2)
    proof (rule store_chunk_ok)
      fix op'
      let ?d = "take (unat (off mod 4096)) (blk G (Op atxn1) b) @ take (unat nbytes) data @
           drop (unat (off mod 4096) + unat nbytes) (blk G (Op atxn1) b)"
      assume sc: "store_chunk b (off mod 4096) nbytes data atxn1 = Inr (atxn1\<lparr>Op := op'\<rparr>)"
        and upd: "\<And>x. blk G op' x = (if x = b then ?d else blk G (Op atxn1) x)"
      note sd = store_data [OF file_step_inv [OF st] bn w b upd]
      have "fbyte G op' (blks ip1) i = (if unat off \<le> i \<and> i < unat off + unat nbytes then data ! (i - unat off)
           else fbyte G (Op atxn1) (blks ip1) i)" if i: "i < MAXBYTES" for i
        unfolding sd(2) [OF i]
        using chunk_bytes [of "unat off" "unat nbytes" data "blk G (Op atxn1) b" i]
          chunk_outside [of "unat off" "unat nbytes" i] nl bo w b
        by (cases "i div 4096 = unat off div 4096") (auto simp: unat_mod fbyte_def)
      then show ?go
        using n bm b sc same file_step_trans [OF st sd(1)] nl sd(3) [OF bn] w bo nbytes
        by (intro exI [of _ "new \<or> alloc"] exI [of _ ip1] exI [of _ "atxn1\<lparr>Op := op'\<rparr>"])
           (simp add: write_loop_unfold Let_def slice_drop_def)
    qed
    ultimately show "?stop \<or> ?go" by blast
  qed
qed

lemma write_loop_ok:
  assumes "file_inv G used arange atxn ip" and "unat n \<le> fuel" and "unat n \<le> length data"
    and "unat off + unat n \<le> MAXBYTES" and "0 < unat n \<Longrightarrow> boff = off div 4096"
  shows "write_spec (unat off) (unat n) data cnt alloc ip atxn (write_loop G fuel boff n data off cnt alloc ip atxn)"
  using assms
proof (induction fuel arbitrary: boff n data off cnt alloc ip atxn)
  case 0
  then have "n = 0" by (simp add: unat_eq_0)
  then show ?case using 0 by (simp add: write_loop.simps write_spec_stop file_step_refl)
next
  case (Suc fuel)
  show ?case
  proof (cases "n = 0")
    case True
    then show ?thesis using Suc.prems by (simp add: write_loop.simps write_spec_stop file_step_refl)
  next
    case False
    then have n: "n > 0" "0 < unat n" by (simp_all add: word_neq_0_conv unat_gt_0)
    have boff: "boff = off div 4096" by (rule Suc.prems(5) [OF n(2)])
    have bn: "unat boff < MAXBLKS" using Suc.prems(4) n boff by (simp add: unat_div less_mult_imp_div_less)
    let ?nb = "chunk (unat off) (unat n)" and ?nbytes = "min (4096 - off mod 4096) n :: u64"
    have nb: "unat ?nbytes = ?nb" by (auto simp: chunk_def min_def word_le_nat_alt unat_mod nowrap)
    have nb_le: "0 < ?nb" "?nb \<le> unat n" using chunk_pos(1) [OF n(2)] chunk_pos(2) by auto
    have un: "unat (n - ?nbytes) = unat n - ?nb" "unat (off + ?nbytes) = unat off + ?nb" "?nbytes = of_nat ?nb"
      using nb nb_le Suc.prems(4) by (simp_all add: nowrap flip: nb)
    have next_b: "boff + 1 = (off + ?nbytes) div 4096" if "0 < unat (n - ?nbytes)"
      using div_next [OF chunk_full [of 0, simplified]] that un bn boff by (intro u64_eqI) (simp add: unat_div nowrap)
    from write_iter [OF Suc.prems(1) n(1) boff bn refl nb Suc.prems(3), of fuel cnt alloc] show ?thesis
    proof (elim disjE exE conjE)
      fix alloc1 ip1 atxn1
      assume eq: "write_loop G (Suc fuel) boff n data off cnt alloc ip atxn =
            write_loop G fuel (boff + 1) (n - ?nbytes) (drop (unat ?nbytes) data) (off + ?nbytes) (cnt + ?nbytes) alloc1 ip1 atxn1"
        and st: "file_step G used arange ip atxn ip1 atxn1"
        and w: "fwalk G (Op atxn1) (blks ip1) (unat off div 4096) \<noteq> 0"
        and upd: "\<forall>i < MAXBYTES. fbyte G (Op atxn1) (blks ip1) i =
              (if unat off \<le> i \<and> i < unat off + unat ?nbytes then data ! (i - unat off)
               else fbyte G (Op atxn) (blks ip) i)"
      have "write_spec (unat off + ?nb) (unat n - ?nb) (drop ?nb data) (cnt + of_nat ?nb) alloc1 ip1 atxn1
         (write_loop G (Suc fuel) boff n data off cnt alloc ip atxn)"
        unfolding eq nb un(1,2) [symmetric] un(3) [symmetric]
        by (rule Suc.IH [OF file_step_inv [OF st]]) (use un(1,2) nb_le Suc.prems(2-4) next_b in auto)
      moreover have "fwalk G (Op atxn1) (blks ip1) (i div 4096) \<noteq> 0" if "unat off \<le> i" "i < unat off + ?nb" for i
        using w div_step(1) [of "i - unat off" "unat off"] that chunk_pos(3) [of "unat off" "unat n"] by simp
      ultimately show ?thesis
        using upd nb nb_le Suc.prems(3,4) by (intro write_spec_step [OF st, of "unat off" ?nb]) auto
    qed (simp add: write_spec_stop n)
  qed
qed

end

end
