(* ===== verification/SimpleSpec.thy ===== *)
theory SimpleSpec
  imports Simple FileData
begin

text \<open>
  What the small server promises: each valid inode number names a file, a byte string of at most
  4096 bytes. The specification says what reading, writing and resizing do to such a file; the
  handlers of \<^theory_text>\<open>Simple\<close> implement it, one file at a time, atomically in the journal.
\<close>

section \<open>Specification\<close>

definition spec_write :: "nat \<Rightarrow> byte list \<Rightarrow> byte list \<Rightarrow> byte list option" where
  "spec_write off data f =
     (if off \<le> length f \<and> off + length data \<le> 4096
      then Some (take off f @ data @ drop (off + length data) f) else None)"

definition spec_resize :: "nat \<Rightarrow> byte list \<Rightarrow> byte list option" where
  "spec_resize n f =
     (if n \<le> length f then Some (take n f)
      else if n \<le> 4096 then Some (f @ replicate (n - length f) 0) else None)"

lemma spec_write_length: "spec_write off data f = Some f' \<Longrightarrow> length f' = max (length f) (off + length data)"
  by (auto simp: spec_write_def split: if_splits)

section \<open>The files behind a transaction\<close>

definition sfile :: "('log, 'op, 'alc, 'lm, 'd) golib \<Rightarrow> 'op \<Rightarrow> u64 \<Rightarrow> byte list" where
  "sfile G op i =
     (case simple_ReadInode G i op of
        Inr ip \<Rightarrow> take (unat (s_Size ip)) (blk G op (s_Data ip))
      | Inl _ \<Rightarrow> [])"

definition sino_ok :: "('log, 'op, 'alc, 'lm, 'd) golib \<Rightarrow> 'op \<Rightarrow> u64 \<Rightarrow> bool" where
  "sino_ok G op i \<longleftrightarrow>
     (case simple_ReadInode G i op of
        Inr ip \<Rightarrow> s_Inum ip = i \<and> s_Data ip = 514 + i \<and> s_Size ip \<le> 4096
      | Inl _ \<Rightarrow> False)"

definition simple_inv :: "('log, 'op, 'alc, 'lm, 'd) golib \<Rightarrow> 'op \<Rightarrow> bool" where
  "simple_inv G op \<longleftrightarrow> (\<forall>i. simple_validInum G i \<longrightarrow> sino_ok G op i)"

context gojournal
begin

lemma valid_lt: "simple_validInum G i \<Longrightarrow> unat i < 32"
  by (auto simp: simple_validInum_def simple_nInode_def word_le_nat_alt split: if_splits)

lemma sino_okE:
  assumes "sino_ok G op i"
  obtains ip where "simple_ReadInode G i op = Inr ip" and "s_Inum ip = i" and "s_Data ip = 514 + i"
    and "unat (s_Size ip) \<le> 4096" and "sfile G op i = take (unat (s_Size ip)) (blk G op (514 + i))"
    and "length (sfile G op i) = unat (s_Size ip)"
  using assms by (auto simp: sino_ok_def sfile_def word_le_nat_alt split: sum.splits)

lemma files_cong:
  assumes "\<And>a sz. ReadBuf G op' a sz = ReadBuf G op a sz"
  shows "sfile G op' = sfile G op" "sino_ok G op' = sino_ok G op" "simple_inv G op' = simple_inv G op"
proof -
  have r: "simple_ReadInode G i op' = simple_ReadInode G i op" for i
    using assms by (simp add: simple_ReadInode_def)
  have b: "blk G op' x = blk G op x" for x using assms by (simp add: blk_def)
  show "sfile G op' = sfile G op" "sino_ok G op' = sino_ok G op" "simple_inv G op' = simple_inv G op"
    by (simp_all add: sfile_def sino_ok_def simple_inv_def fun_eq_iff r b split: sum.splits)
qed

lemma data_block_inj: "(514 + i :: u64) = 514 + j \<longleftrightarrow> i = j"
  by simp

lemma data_not_log: "unat i < 32 \<Longrightarrow> (514 + i :: u64) \<noteq> 513"
proof
  assume i: "unat i < 32" and e: "514 + i = 513"
  from i have "unat (514 + i) = 514 + unat i" by (simp add: nowrap)
  then show False unfolding e by simp
qed

lemma simple_Decode_Encode:
  "simple_Encode G ip = Inr d \<Longrightarrow> simple_Decode G d (s_Inum ip) = Inr ip"
  unfolding simple_Encode_def simple_Decode_def
  by (rule dec_int, assumption, rule dec_int, assumption) simp

lemma simple_Encode_total: "\<exists>d. simple_Encode G ip = Inr d \<and> length d = 128"
  unfolding simple_Encode_def INODESZ by (rule enc_fits [of _ "128 :: u64", simplified]) simp

text \<open>Storing an inode: it is read back, the other inodes and the data blocks are as before.\<close>

lemma simple_WriteInode_ok:
  assumes i: "unat (s_Inum ip) < 32"
  obtains op' where "simple_WriteInode G ip op = Inr op'"
    and "simple_ReadInode G (s_Inum ip) op' = Inr ip"
    and "\<And>j. unat j < 32 \<Longrightarrow> j \<noteq> s_Inum ip \<Longrightarrow> simple_ReadInode G j op' = simple_ReadInode G j op"
    and "\<And>b. b \<noteq> 513 \<Longrightarrow> blk G op' b = blk G op b" and "\<And>lg. on lg op \<Longrightarrow> on lg op'"
proof -
  obtain d where d: "simple_Encode G ip = Inr d" "length d = 128" using simple_Encode_total by blast
  let ?a = "simple_inum2Addr G"
  let ?op = "OverWrite G op (?a (s_Inum ip)) (INODESZ G * 8) d"
  have off: "unat (j * 128 * 8) = 1024 * unat j" if "unat j < 32" for j :: u64
    using that by (simp add: nowrap)
  have "simple_ReadInode G j ?op = simple_ReadInode G j op" if j: "unat j < 32" "j \<noteq> s_Inum ip" for j
  proof -
    have "unat (Off (?a (s_Inum ip))) \<noteq> unat (Off (?a j))"
      using off [OF i] off [OF j(1)] j(2) by (auto simp: simple_inum2Addr_def word_eq_iff_unsigned [where ?'a = nat])
    then have "Off (?a (s_Inum ip)) \<noteq> Off (?a j)" by metis
    moreover have "1024 dvd unat (Off (?a k))" if "unat k < 32" for k
      using off [OF that] by (simp add: simple_inum2Addr_def)
    ultimately show ?thesis
      using ow_object [of 1024 "?a (s_Inum ip)" "?a j" d] i j(1) d(2) by (simp add: simple_ReadInode_def)
  qed
  moreover have "simple_ReadInode G (s_Inum ip) ?op = Inr ip"
    using d by (simp add: simple_ReadInode_def ow_same simple_Decode_Encode)
  moreover have "blk G ?op b = blk G op b" if "b \<noteq> 513" for b
    using that by (simp add: blk_def Block2addr_def simple_inum2Addr_def ow_block)
  moreover have "simple_WriteInode G ip op = Inr ?op" using d by (simp add: simple_WriteInode_def)
  ultimately show thesis using that on_ow by blast
qed

lemma blk_put_data:
  "length d = 4096 \<Longrightarrow> blk G (PutBuf G op (simple_block2addr G b) 32768 d) b' = (if b' = b then d else blk G op b')"
  using blk_put [of d op b b'] by (simp add: simple_block2addr_def Block2addr_def)

lemma ReadInode_put_data:
  "b \<noteq> 513 \<Longrightarrow> simple_ReadInode G j (PutBuf G op (simple_block2addr G b) sz d) = simple_ReadInode G j op"
  by (simp add: simple_ReadInode_def simple_block2addr_def simple_inum2Addr_def put_block)

text \<open>One file changes, the others do not.\<close>

definition one_changed :: "'op \<Rightarrow> u64 \<Rightarrow> byte list \<Rightarrow> 'op \<Rightarrow> bool" where
  "one_changed op i f op' \<longleftrightarrow> simple_inv G op' \<and>
     (\<forall>j. simple_validInum G j \<longrightarrow> sfile G op' j = (if j = i then f else sfile G op j)) \<and>
     (\<forall>lg. on lg op \<longrightarrow> on lg op')"

lemma one_changedI:
  assumes inv: "simple_inv G op" and i: "simple_validInum G i"
    and ri: "simple_ReadInode G i op' = Inr \<lparr>s_Inum = i, s_Size = sz, s_Data = 514 + i\<rparr>" "sz \<le> 4096"
    and f: "take (unat sz) (blk G op' (514 + i)) = f"
    and rj: "\<And>j. unat j < 32 \<Longrightarrow> j \<noteq> i \<Longrightarrow> simple_ReadInode G j op' = simple_ReadInode G j op"
    and bj: "\<And>b. b \<noteq> 513 \<Longrightarrow> b \<noteq> 514 + i \<Longrightarrow> blk G op' b = blk G op b" and lg: "\<And>lg. on lg op \<Longrightarrow> on lg op'"
  shows "one_changed op i f op'"
proof -
  have "sfile G op' j = sfile G op j \<and> sino_ok G op' j" if j: "simple_validInum G j" "j \<noteq> i" for j
  proof -
    from inv j(1) have "sino_ok G op j" by (simp add: simple_inv_def)
    then show ?thesis
    proof (rule sino_okE)
      fix ip
      assume r: "simple_ReadInode G j op = Inr ip" "s_Inum ip = j" "s_Data ip = 514 + j" "unat (s_Size ip) \<le> 4096"
      have "514 + j \<noteq> (513 :: u64)" "514 + j \<noteq> (514 + i :: u64)" using data_not_log [OF valid_lt [OF j(1)]] j(2) by simp_all
      then show ?thesis using r rj [OF valid_lt [OF j(1)] j(2)] bj
        by (simp add: sfile_def sino_ok_def word_le_nat_alt)
    qed
  qed
  moreover have "sfile G op' i = f" "sino_ok G op' i" using ri f by (simp_all add: sfile_def sino_ok_def)
  ultimately show ?thesis using lg by (auto simp: one_changed_def simple_inv_def)
qed

lemma take_splice:
  assumes "off \<le> s" "s \<le> length b" "off + length d \<le> length b"
  shows "take (max s (off + length d)) (take off b @ d @ drop (off + length d) b) =
         take off (take s b) @ d @ drop (off + length d) (take s b)"
  using assms by (auto simp: max_def min_def drop_take) (simp flip: length_0_conv)

lemma simple_Write_ok:
  assumes inv: "simple_inv G op" and i: "simple_validInum G i" and r: "simple_ReadInode G i op = Inr ip"
  shows "case (if unat cnt = length data then spec_write (unat off) data (sfile G op i) else None) of
      None \<Rightarrow> unat cnt = length data \<or> length data < 2 ^ 64 \<longrightarrow> simple_Write G off cnt data ip op = Inr (0, False, ip, op)
    | Some f \<Rightarrow> \<exists>ip' op'. simple_Write G off cnt data ip op = Inr (cnt, True, ip', op') \<and>
        unat (s_Size ip') = length f \<and> one_changed op i f op'"
proof -
  from inv i have "sino_ok G op i" by (simp add: simple_inv_def)
  then show ?thesis
  proof (rule sino_okE)
    fix ip0
    assume r0: "simple_ReadInode G i op = Inr ip0" "s_Inum ip0 = i" "s_Data ip0 = 514 + i" "unat (s_Size ip0) \<le> 4096"
      and f: "sfile G op i = take (unat (s_Size ip0)) (blk G op (514 + i))" "length (sfile G op i) = unat (s_Size ip0)"
    have ip: "ip0 = ip" using r r0 by simp
    note r0 = r0 [unfolded ip] and f = f [unfolded ip]
    have li: "unat i < 32" by (rule valid_lt [OF i])
    show ?thesis
    proof (cases "unat cnt = length data \<and> unat off \<le> unat (s_Size ip) \<and> unat off + length data \<le> 4096")
      case False
      have "simple_Write G off cnt data ip op = Inr (0, False, ip, op)" if l: "unat cnt = length data \<or> length data < 2 ^ 64"
      proof (cases "unat cnt = length data")
        case True
        then have c: "cnt = of_nat (length data)" by (metis of_nat_unat_u64)
        have "unat (off + cnt) = unat off + unat cnt" if "unat off + unat cnt < 2 ^ 64" using that by (simp add: nowrap)
        then show ?thesis using False True c by (auto simp: simple_Write_def word_less_nat_alt not_less not_le)
      next
        case False
        then have "cnt \<noteq> of_nat (length data)" using l by (auto simp: nowrap)
        then show ?thesis by (simp add: simple_Write_def)
      qed
      then show ?thesis using False f(2) by (auto simp: spec_write_def)
    next
      case True
      let ?f = "take (unat off) (sfile G op i) @ data @ drop (unat off + length data) (sfile G op i)"
      let ?b = "take (unat off) (blk G op (514 + i)) @ data @ drop (unat off + length data) (blk G op (514 + i))"
      let ?op1 = "PutBuf G op (simple_block2addr G (514 + i)) 32768 ?b"
      have lb: "length ?b = 4096" using True by simp
      have uc: "unat (off + cnt) = unat off + length data" using True by (simp add: nowrap)
      have c: "of_nat (length data) = cnt" using True by (metis of_nat_unat_u64)
      have ci: "copy_in (blk G op (514 + i)) off cnt data = Inr ?b" using True by (simp add: copy_in_def)
      have fs: "take (max (unat (s_Size ip)) (unat off + length data)) ?b = ?f"
        using True r0(4) take_splice [of "unat off" "unat (s_Size ip)" "blk G op (514 + i)" data] f(1) by simp
      have eq: "simple_Write G off cnt data ip op =
          (if off + cnt > s_Size ip
           then bnd (simple_WriteInode G (ip\<lparr>s_Size := off + cnt\<rparr>) ?op1) (\<lambda>op. Inr (cnt, True, ip\<lparr>s_Size := off + cnt\<rparr>, op))
           else Inr (cnt, True, ip, ?op1))"
        using True c ci r0(3) by (simp add: simple_Write_def word_less_nat_alt uc Let_def simple_block2addr_def blk_def Block2addr_def del: of_nat_unat)
      have sp: "spec_write (unat off) data (sfile G op i) = Some ?f" using True f(2) by (simp add: spec_write_def)
      have ip_eq: "ip = \<lparr>s_Inum = i, s_Size = s_Size ip, s_Data = 514 + i\<rparr>" using r0 by simp
      note nl = data_not_log [OF li]
      have "\<exists>ip' op'. simple_Write G off cnt data ip op = Inr (cnt, True, ip', op') \<and>
          unat (s_Size ip') = length ?f \<and> one_changed op i ?f op'"
      proof (cases "off + cnt > s_Size ip")
        case False
        then have m: "max (unat (s_Size ip)) (unat off + length data) = unat (s_Size ip)" using uc by (simp add: word_less_nat_alt)
        have "one_changed op i ?f ?op1"
          by (rule one_changedI [OF inv i, where sz = "s_Size ip"])
             (use r0 fs m nl lb in \<open>auto simp: ReadInode_put_data blk_put_data on_put word_le_nat_alt\<close>)
        then show ?thesis using eq False spec_write_length [OF sp] f(2) m by auto
      next
        case gt: True
        then have m: "max (unat (s_Size ip)) (unat off + length data) = unat off + length data" using uc by (simp add: word_less_nat_alt)
        have "unat (s_Inum (ip\<lparr>s_Size := off + cnt\<rparr>)) < 32" using r0 li by simp
        then show ?thesis
        proof (rule simple_WriteInode_ok [where op = ?op1])
          fix op'
          assume w: "simple_WriteInode G (ip\<lparr>s_Size := off + cnt\<rparr>) ?op1 = Inr op'"
            and ri: "simple_ReadInode G (s_Inum (ip\<lparr>s_Size := off + cnt\<rparr>)) op' = Inr (ip\<lparr>s_Size := off + cnt\<rparr>)"
            and rj: "\<And>j. unat j < 32 \<Longrightarrow> j \<noteq> s_Inum (ip\<lparr>s_Size := off + cnt\<rparr>) \<Longrightarrow> simple_ReadInode G j op' = simple_ReadInode G j ?op1"
            and bb: "\<And>b. b \<noteq> 513 \<Longrightarrow> blk G op' b = blk G ?op1 b" and lg: "\<And>lg. on lg ?op1 \<Longrightarrow> on lg op'"
          have "one_changed op i ?f op'"
            by (rule one_changedI [OF inv i, where sz = "off + cnt"])
               (use r0 ri rj bb lg fs m nl lb True uc in \<open>auto simp: ReadInode_put_data blk_put_data on_put word_le_nat_alt\<close>)
          then show ?thesis using eq gt w spec_write_length [OF sp] f(2) m uc by auto
        qed
      qed
      then show ?thesis using sp True by simp
    qed
  qed
qed

section \<open>Handlers\<close>

text \<open>Committing installs the files of the transaction, or leaves the files of the log.\<close>

lemma commit_files:
  assumes "on lg op" and "CommitWait G op w lg = (ok, lg')"
  shows "sfile G (jrnl_Begin G lg') = (if ok then sfile G op else sfile G (jrnl_Begin G lg))"
    and "simple_inv G (jrnl_Begin G lg') = (if ok then simple_inv G op else simple_inv G (jrnl_Begin G lg))"
proof -
  have "sfile G (jrnl_Begin G lg') = sfile G op" "simple_inv G (jrnl_Begin G lg') = simple_inv G op" if ok
    using files_cong [of "jrnl_Begin G lg'" op, OF commit_ok [OF assms(1), of w lg']] assms(2) that by simp_all
  moreover have "sfile G (jrnl_Begin G lg') = sfile G (jrnl_Begin G lg)"
    "simple_inv G (jrnl_Begin G lg') = simple_inv G (jrnl_Begin G lg)" if "\<not> ok"
    using files_cong [of "jrnl_Begin G lg'" "jrnl_Begin G lg", OF commit_fail [of op w lg lg']] assms(2) that by simp_all
  ultimately show "sfile G (jrnl_Begin G lg') = (if ok then sfile G op else sfile G (jrnl_Begin G lg))"
    "simple_inv G (jrnl_Begin G lg') = (if ok then simple_inv G op else simple_inv G (jrnl_Begin G lg))" by auto
qed

lemma simple_locked_ok:
  assumes "inum \<notin> held (sn_l nfs)" and "f (sn_t nfs) = Inr (reply, log)"
  shows "\<exists>l. simple_locked G inum f nfs = Inr (reply, nfs\<lparr>sn_t := log, sn_l := l\<rparr>) \<and> held l = held (sn_l nfs)"
proof -
  obtain l where l: "Acquire G (sn_l nfs) inum = Some l" "held l = insert inum (held (sn_l nfs))"
    using acquire_free [OF assms(1)] by blast
  have "held (Release G l inum) = held (sn_l nfs)" using l assms(1) by (simp add: release)
  then show ?thesis using l assms(2) by (auto simp: simple_locked_def)
qed

lemma simple_WRITE_ok:
  assumes inv: "simple_inv G (jrnl_Begin G (sn_t nfs))"
    and fh: "simple_fh2ino G (WRITE3args_File args) = Inr inum" and v: "simple_validInum G inum"
    and h: "inum \<notin> held (sn_l nfs)" and len: "length (WRITE3args_Data args) < 2 ^ 64"
  shows "\<exists>reply nfs'. simple_NFSPROC3_WRITE G args nfs = Inr (reply, nfs') \<and> held (sn_l nfs') = held (sn_l nfs) \<and>
     simple_inv G (jrnl_Begin G (sn_t nfs')) \<and>
     (case (if unat (WRITE3args_Count args) = length (WRITE3args_Data args)
            then spec_write (unat (WRITE3args_Offset args)) (WRITE3args_Data args) (sfile G (jrnl_Begin G (sn_t nfs)) inum)
            else None) of
        None \<Rightarrow> WRITE3res_Status reply = NFS3ERR_SERVERFAULT \<and> sn_t nfs' = sn_t nfs
      | Some f \<Rightarrow>
          (WRITE3res_Status reply = NFS3_OK \<and> WRITE3resok_Count (WRITE3res_Resok reply) = WRITE3args_Count args \<and>
             (\<forall>j. simple_validInum G j \<longrightarrow>
                sfile G (jrnl_Begin G (sn_t nfs')) j = (if j = inum then f else sfile G (jrnl_Begin G (sn_t nfs)) j))) \<or>
          (WRITE3res_Status reply = NFS3ERR_SERVERFAULT \<and>
             (\<exists>op. \<not> fst (CommitWait G op True (sn_t nfs))) \<and>
             sfile G (jrnl_Begin G (sn_t nfs')) = sfile G (jrnl_Begin G (sn_t nfs))))"
proof -
  let ?lg = "sn_t nfs" and ?cnt = "ucast (WRITE3args_Count args) :: u64" and ?data = "WRITE3args_Data args"
  let ?op = "jrnl_Begin G ?lg"
  have uc: "unat ?cnt = unat (WRITE3args_Count args)" by simp
  from inv v have "sino_ok G ?op inum" by (simp add: simple_inv_def)
  then obtain ip where ip: "simple_ReadInode G inum ?op = Inr ip" by (rule sino_okE) 
  note w = simple_Write_ok [OF inv v ip, of ?cnt ?data "WRITE3args_Offset args", unfolded uc]
  show ?thesis
  proof (cases "if unat (WRITE3args_Count args) = length ?data
            then spec_write (unat (WRITE3args_Offset args)) ?data (sfile G ?op inum) else None")
    case None
    let ?r = "zero_WRITE3res\<lparr>WRITE3res_Status := NFS3ERR_SERVERFAULT\<rparr>"
    have "simple_WRITE_internal G args zero_WRITE3res inum ?op ?lg = Inr (?r, ?lg)"
      using w len ip unfolding None by (simp add: simple_WRITE_internal_def simple_WRITE_wp_def)
    from simple_locked_ok [OF h, of "\<lambda>log. simple_WRITE_internal G args zero_WRITE3res inum (jrnl_Begin G log) log", OF this]
    show ?thesis using fh v inv unfolding None by (auto simp: simple_NFSPROC3_WRITE_def)
  next
    case (Some f)
    from w [unfolded Some] obtain ip' op' where w': "simple_Write G (WRITE3args_Offset args) ?cnt ?data ip ?op = Inr (?cnt, True, ip', op')"
      and ch: "one_changed ?op inum f op'" by auto
    obtain ok lg' where c: "CommitWait G op' True ?lg = (ok, lg')" by (cases "CommitWait G op' True ?lg")
    let ?r = "zero_WRITE3res\<lparr>WRITE3res_Resok := (WRITE3res_Resok zero_WRITE3res)\<lparr>WRITE3resok_Count := ucast ?cnt,
                WRITE3resok_Committed := FILE_SYNC\<rparr>, WRITE3res_Status := if ok then NFS3_OK else NFS3ERR_SERVERFAULT\<rparr>"
    have on': "on ?lg op'" using ch on_begin by (simp add: one_changed_def)
    have "simple_WRITE_internal G args zero_WRITE3res inum ?op ?lg = Inr (?r, lg')"
      using w' ip c by (simp add: simple_WRITE_internal_def simple_WRITE_wp_def)
    from simple_locked_ok [OF h, of "\<lambda>log. simple_WRITE_internal G args zero_WRITE3res inum (jrnl_Begin G log) log", OF this]
    obtain l where "simple_NFSPROC3_WRITE G args nfs = Inr (?r, nfs\<lparr>sn_t := lg', sn_l := l\<rparr>)" "held l = held (sn_l nfs)"
      using fh v by (auto simp: simple_NFSPROC3_WRITE_def)
    moreover have "ucast ?cnt = WRITE3args_Count args" by simp
    ultimately show ?thesis using commit_files [OF on' c] ch inv c unfolding Some
      by (cases ok) (auto simp: one_changed_def intro!: exI [of _ op'])
  qed
qed

lemma simple_Read_ok:
  assumes inv: "simple_inv G op" and i: "simple_validInum G i" and r: "simple_ReadInode G i op = Inr ip"
  shows "simple_Read G off n ip op =
     Inr (take (unat n) (drop (unat off) (sfile G op i)), length (sfile G op i) \<le> unat off + unat n)"
proof -
  from inv i have "sino_ok G op i" by (simp add: simple_inv_def)
  then show ?thesis
  proof (rule sino_okE)
    fix ip0
    assume r0: "simple_ReadInode G i op = Inr ip0" "s_Inum ip0 = i" "s_Data ip0 = 514 + i" "unat (s_Size ip0) \<le> 4096"
      and f: "sfile G op i = take (unat (s_Size ip0)) (blk G op (514 + i))" "length (sfile G op i) = unat (s_Size ip0)"
    have ip: "ip0 = ip" using r r0 by simp
    note r0 = r0 [unfolded ip] and f = f [unfolded ip]
    show ?thesis
    proof (cases "s_Size ip \<le> off")
      case True
      then show ?thesis using f(2) by (simp add: simple_Read_def word_le_nat_alt)
    next
      case False
      then have lt: "unat off < unat (s_Size ip)" by (simp add: word_le_nat_alt)
      let ?c = "if n > s_Size ip - off then s_Size ip - off else n"
      have c: "unat ?c = min (unat n) (unat (s_Size ip) - unat off)" using lt by (auto simp: word_less_nat_alt nowrap)
      have oc: "unat (off + ?c) = unat off + unat ?c" using c lt unat_lt64 [of "s_Size ip"] by (simp add: nowrap)
      have "copy_out (blk G op (514 + i)) off ?c = Inr (take (unat n) (drop (unat off) (sfile G op i)))"
      proof -
        have "take (unat n) (drop (unat off) (sfile G op i)) = take (unat ?c) (drop (unat off) (blk G op (514 + i)))"
          unfolding f(1) c by (simp add: drop_take)
        moreover have "unat off + unat ?c \<le> 4096" using c lt r0(4) by simp
        ultimately show ?thesis by (simp add: copy_out_def)
      qed
      moreover have "s_Size ip \<le> off + ?c \<longleftrightarrow> length (sfile G op i) \<le> unat off + unat n"
        unfolding word_le_nat_alt oc c f(2) using lt by linarith
      ultimately show ?thesis using False r0(3)
        by (simp add: simple_Read_def Let_def simple_block2addr_def blk_def Block2addr_def)
    qed
  qed
qed

lemma simple_READ_ok:
  assumes inv: "simple_inv G (jrnl_Begin G (sn_t nfs))"
    and fh: "simple_fh2ino G (READ3args_File args) = Inr inum" and v: "simple_validInum G inum"
    and h: "inum \<notin> held (sn_l nfs)"
  shows "\<exists>reply nfs'. simple_NFSPROC3_READ G args nfs = Inr (reply, nfs') \<and> held (sn_l nfs') = held (sn_l nfs) \<and>
     sfile G (jrnl_Begin G (sn_t nfs')) = sfile G (jrnl_Begin G (sn_t nfs)) \<and>
     simple_inv G (jrnl_Begin G (sn_t nfs')) \<and>
     (let f = sfile G (jrnl_Begin G (sn_t nfs)) inum; off = unat (READ3args_Offset args); n = unat (READ3args_Count args)
      in READ3resok_Data (READ3res_Resok reply) = take n (drop off f) \<and>
         READ3resok_Eof (READ3res_Resok reply) = (length f \<le> off + n) \<and>
         unat (READ3resok_Count (READ3res_Resok reply)) = length (take n (drop off f))) \<and>
     (READ3res_Status reply = NFS3_OK \<or>
      READ3res_Status reply = NFS3ERR_SERVERFAULT \<and> (\<exists>op. \<not> fst (CommitWait G op True (sn_t nfs))))"
proof -
  let ?lg = "sn_t nfs"
  let ?op = "jrnl_Begin G ?lg"
  let ?f = "sfile G ?op inum" and ?off = "unat (READ3args_Offset args)" and ?n = "unat (READ3args_Count args)"
  let ?d = "take ?n (drop ?off ?f)"
  from inv v have "sino_ok G ?op inum" by (simp add: simple_inv_def)
  then obtain ip where ip: "simple_ReadInode G inum ?op = Inr ip" and lf: "length ?f \<le> 4096"
    by (rule sino_okE) simp
  obtain ok lg' where c: "CommitWait G ?op True ?lg = (ok, lg')" by (cases "CommitWait G ?op True ?lg")
  let ?r = "zero_READ3res\<lparr>READ3res_Resok := (READ3res_Resok zero_READ3res)\<lparr>READ3resok_Count := of_nat (length ?d),
              READ3resok_Data := ?d, READ3resok_Eof := (length ?f \<le> ?off + ?n)\<rparr>,
              READ3res_Status := if ok then NFS3_OK else NFS3ERR_SERVERFAULT\<rparr>"
  have "simple_READ_internal G args zero_READ3res inum ?op ?lg = Inr (?r, lg')"
    using simple_Read_ok [OF inv v ip] ip c by (simp add: simple_READ_internal_def simple_READ_wp_def)
  from simple_locked_ok [OF h, of "\<lambda>log. simple_READ_internal G args zero_READ3res inum (jrnl_Begin G log) log", OF this]
  obtain l where "simple_NFSPROC3_READ G args nfs = Inr (?r, nfs\<lparr>sn_t := lg', sn_l := l\<rparr>)" "held l = held (sn_l nfs)"
    using fh v by (auto simp: simple_NFSPROC3_READ_def)
  moreover have "unat (of_nat (length ?d) :: u32) = length ?d" using lf by (simp add: unsigned_of_nat take_bit_nat_eq_self_iff)
  ultimately show ?thesis using commit_files [OF on_begin c] inv by (cases ok) (auto simp: Let_def c intro!: exI [of _ ?op])
qed

lemma simple_SETATTR_wp_ok:
  assumes inv: "simple_inv G op" and v: "simple_validInum G i"
    and set: "Set_size3_Set_it (Sattr3_Size (SETATTR3args_New_attributes args))"
    and n: "n = Set_size3_Size (Sattr3_Size (SETATTR3args_New_attributes args))"
      "unat n \<le> length (sfile G op i) + 2 ^ 48"
  shows "case spec_resize (unat n) (sfile G op i) of
      None \<Rightarrow> \<exists>op'. simple_SETATTR_wp G args reply i op = Inr (False, reply\<lparr>SETATTR3res_Status := NFS3ERR_NOSPC\<rparr>, op')
    | Some f \<Rightarrow> \<exists>op'. simple_SETATTR_wp G args reply i op = Inr (True, reply, op') \<and> one_changed op i f op'"
proof -
  from inv v have "sino_ok G op i" by (simp add: simple_inv_def)
  then show ?thesis
  proof (rule sino_okE)
    fix ip
    assume ip: "simple_ReadInode G i op = Inr ip" "s_Inum ip = i" "s_Data ip = 514 + i" "unat (s_Size ip) \<le> 4096"
      and f: "sfile G op i = take (unat (s_Size ip)) (blk G op (514 + i))" "length (sfile G op i) = unat (s_Size ip)"
    show ?thesis
    proof (cases "s_Size ip < n")
      case True
      then have lt: "unat (s_Size ip) < unat n" by (simp add: word_less_nat_alt)
      let ?d = "replicate (unat (n - s_Size ip)) 0 :: byte list"
      have d: "make_bytes (n - s_Size ip) = Inr ?d" "unat (n - s_Size ip) = unat n - unat (s_Size ip)"
        using n(2) lt f(2) by (simp_all add: make_bytes_def word_less_nat_alt nowrap)
      have sp: "spec_write (unat (s_Size ip)) ?d (sfile G op i) = spec_resize (unat n) (sfile G op i)"
        using lt d(2) f(2) by (auto simp: spec_write_def spec_resize_def)
      note w = simple_Write_ok [OF inv v ip(1), of "n - s_Size ip" ?d "s_Size ip", unfolded length_replicate sp]
      show ?thesis
      proof (cases "spec_resize (unat n) (sfile G op i)")
        case None
        then show ?thesis using w ip(1) set n(1) True d(1) by (auto simp: simple_SETATTR_wp_def)
      next
        case (Some g)
        from w Some obtain ip' op' where "simple_Write G (s_Size ip) (n - s_Size ip) ?d ip op = Inr (n - s_Size ip, True, ip', op')"
          "unat (s_Size ip') = length g" "one_changed op i g op'" by auto
        moreover have "length g = unat n" using Some lt f(2) by (auto simp: spec_resize_def split: if_splits)
        ultimately show ?thesis using Some ip(1) set n(1) True d(1) u64_eqI [of "s_Size ip'" n]
          by (simp add: simple_SETATTR_wp_def)
      qed
    next
      case False
      then have le: "unat n \<le> unat (s_Size ip)" by (simp add: word_less_nat_alt)
      have "unat (s_Inum (ip\<lparr>s_Size := n\<rparr>)) < 32" using ip(2) valid_lt [OF v] by simp
      then show ?thesis
      proof (rule simple_WriteInode_ok [where op = op])
        fix op'
        assume w: "simple_WriteInode G (ip\<lparr>s_Size := n\<rparr>) op = Inr op'"
          and ri: "simple_ReadInode G (s_Inum (ip\<lparr>s_Size := n\<rparr>)) op' = Inr (ip\<lparr>s_Size := n\<rparr>)"
          and rj: "\<And>j. unat j < 32 \<Longrightarrow> j \<noteq> s_Inum (ip\<lparr>s_Size := n\<rparr>) \<Longrightarrow> simple_ReadInode G j op' = simple_ReadInode G j op"
          and bb: "\<And>b. b \<noteq> 513 \<Longrightarrow> blk G op' b = blk G op b" and lg: "\<And>lg. on lg op \<Longrightarrow> on lg op'"
        have "one_changed op i (take (unat n) (sfile G op i)) op'"
          by (rule one_changedI [OF inv v, where sz = n])
             (use ip ri rj bb lg le f(1) data_not_log [OF valid_lt [OF v]] in \<open>auto simp: word_le_nat_alt min_def\<close>)
        then show ?thesis using w ip(1) set n(1) False le f(2) by (simp add: simple_SETATTR_wp_def spec_resize_def)
      qed
    qed
  qed
qed

lemma simple_SETATTR_ok:
  assumes inv: "simple_inv G (jrnl_Begin G (sn_t nfs))"
    and fh: "simple_fh2ino G (SETATTR3args_Object args) = Inr inum" and v: "simple_validInum G inum"
    and h: "inum \<notin> held (sn_l nfs)"
    and set: "Set_size3_Set_it (Sattr3_Size (SETATTR3args_New_attributes args))"
    and n: "n = Set_size3_Size (Sattr3_Size (SETATTR3args_New_attributes args))"
      "unat n \<le> length (sfile G (jrnl_Begin G (sn_t nfs)) inum) + 2 ^ 48"
  shows "\<exists>reply nfs'. simple_NFSPROC3_SETATTR G args nfs = Inr (reply, nfs') \<and> held (sn_l nfs') = held (sn_l nfs) \<and>
     simple_inv G (jrnl_Begin G (sn_t nfs')) \<and>
     (case spec_resize (unat n) (sfile G (jrnl_Begin G (sn_t nfs)) inum) of
        None \<Rightarrow> SETATTR3res_Status reply = NFS3ERR_NOSPC \<and> sn_t nfs' = sn_t nfs
      | Some f \<Rightarrow>
          (SETATTR3res_Status reply = NFS3_OK \<and>
             (\<forall>j. simple_validInum G j \<longrightarrow>
                sfile G (jrnl_Begin G (sn_t nfs')) j = (if j = inum then f else sfile G (jrnl_Begin G (sn_t nfs)) j))) \<or>
          (SETATTR3res_Status reply = NFS3ERR_SERVERFAULT \<and>
             (\<exists>op. \<not> fst (CommitWait G op True (sn_t nfs))) \<and>
             sfile G (jrnl_Begin G (sn_t nfs')) = sfile G (jrnl_Begin G (sn_t nfs))))"
proof -
  let ?lg = "sn_t nfs"
  let ?op = "jrnl_Begin G ?lg" and ?int = "\<lambda>log. simple_SETATTR_internal G args zero_SETATTR3res inum (jrnl_Begin G log) log"
  note w = simple_SETATTR_wp_ok [OF inv v set n, of zero_SETATTR3res]
  show ?thesis
  proof (cases "spec_resize (unat n) (sfile G ?op inum)")
    case None
    let ?r = "zero_SETATTR3res\<lparr>SETATTR3res_Status := NFS3ERR_NOSPC\<rparr>"
    have "?int ?lg = Inr (?r, ?lg)" using w unfolding None by (auto simp: simple_SETATTR_internal_def)
    from simple_locked_ok [OF h, of ?int, OF this]
    show ?thesis using fh v inv unfolding None by (auto simp: simple_NFSPROC3_SETATTR_def)
  next
    case (Some f)
    from w [unfolded Some] obtain op' where w': "simple_SETATTR_wp G args zero_SETATTR3res inum ?op = Inr (True, zero_SETATTR3res, op')"
      and ch: "one_changed ?op inum f op'" by auto
    obtain ok lg' where c: "CommitWait G op' True ?lg = (ok, lg')" by (cases "CommitWait G op' True ?lg")
    let ?r = "zero_SETATTR3res\<lparr>SETATTR3res_Status := if ok then NFS3_OK else NFS3ERR_SERVERFAULT\<rparr>"
    have on': "on ?lg op'" using ch on_begin by (simp add: one_changed_def)
    have "?int ?lg = Inr (?r, lg')" using w' c by (simp add: simple_SETATTR_internal_def)
    from simple_locked_ok [OF h, of ?int, OF this]
    obtain l where "simple_NFSPROC3_SETATTR G args nfs = Inr (?r, nfs\<lparr>sn_t := lg', sn_l := l\<rparr>)" "held l = held (sn_l nfs)"
      using fh v by (auto simp: simple_NFSPROC3_SETATTR_def)
    then show ?thesis using commit_files [OF on' c] ch inv c unfolding Some
      by (cases ok) (auto simp: one_changed_def intro!: exI [of _ op'])
  qed
qed

lemma inodeInit_loop_ok:
  assumes "unat i + n \<le> 32"
    and "\<And>j. unat j < 32 \<Longrightarrow> \<exists>ip. simple_ReadInode G j op = Inr ip \<and> s_Inum ip = j"
  shows "\<exists>op'. simple_inodeInit_loop G n i op = Inr op' \<and> (\<forall>lg. on lg op \<longrightarrow> on lg op') \<and>
     (\<forall>b. b \<noteq> 513 \<longrightarrow> blk G op' b = blk G op b) \<and>
     (\<forall>j. unat j < 32 \<longrightarrow> simple_ReadInode G j op' =
        (if unat i \<le> unat j \<and> unat j < unat i + n
         then map_sum id (\<lambda>ip. ip\<lparr>s_Data := 514 + j\<rparr>) (simple_ReadInode G j op) else simple_ReadInode G j op))"
  using assms
proof (induction n arbitrary: i op)
  case (Suc n)
  have i: "unat i < 32" using Suc.prems(1) by simp
  obtain ip where ip: "simple_ReadInode G i op = Inr ip" "s_Inum ip = i" using Suc.prems(2) [OF i] by blast
  let ?ip = "ip\<lparr>s_Data := 514 + i\<rparr>"
  have "unat (s_Inum ?ip) < 32" using ip i by simp
  then show ?case
  proof (rule simple_WriteInode_ok [where op = op])
    fix op1
    assume w: "simple_WriteInode G ?ip op = Inr op1"
      and ri: "simple_ReadInode G (s_Inum ?ip) op1 = Inr ?ip"
      and rj: "\<And>j. unat j < 32 \<Longrightarrow> j \<noteq> s_Inum ?ip \<Longrightarrow> simple_ReadInode G j op1 = simple_ReadInode G j op"
      and bb: "\<And>b. b \<noteq> 513 \<Longrightarrow> blk G op1 b = blk G op b" and lg: "\<And>lg. on lg op \<Longrightarrow> on lg op1"
    have r1: "simple_ReadInode G j op1 = (if j = i then Inr ?ip else simple_ReadInode G j op)" if "unat j < 32" for j
      using ri rj [OF that] ip(2) by auto
    have ui: "unat (i + 1) = Suc (unat i)" using i by (simp add: nowrap)
    have "\<exists>ip. simple_ReadInode G j op1 = Inr ip \<and> s_Inum ip = j" if "unat j < 32" for j
      using r1 [OF that] Suc.prems(2) [OF that] ip(2) by auto
    from Suc.IH [of "i + 1" op1, OF _ this] Suc.prems(1) ui obtain op' where
      o: "simple_inodeInit_loop G n (i + 1) op1 = Inr op'" "\<forall>lg. on lg op1 \<longrightarrow> on lg op'"
        "\<forall>b. b \<noteq> 513 \<longrightarrow> blk G op' b = blk G op1 b"
      and r: "\<And>j. unat j < 32 \<Longrightarrow> simple_ReadInode G j op' =
        (if Suc (unat i) \<le> unat j \<and> unat j < Suc (unat i) + n
         then map_sum id (\<lambda>ip. ip\<lparr>s_Data := 514 + j\<rparr>) (simple_ReadInode G j op1) else simple_ReadInode G j op1)"
      by auto
    have "simple_ReadInode G j op' =
        (if unat i \<le> unat j \<and> unat j < unat i + Suc n
         then map_sum id (\<lambda>ip. ip\<lparr>s_Data := 514 + j\<rparr>) (simple_ReadInode G j op) else simple_ReadInode G j op)"
      if j: "unat j < 32" for j
    proof (cases "j = i")
      case True
      then show ?thesis using r [OF j] r1 [OF j] ip(1) by simp
    next
      case False
      then have "unat j \<noteq> unat i" by (metis u64_eqI)
      then have "unat i \<le> unat j \<longleftrightarrow> Suc (unat i) \<le> unat j" by auto
      then show ?thesis using r [OF j] r1 [OF j] False by simp
    qed
    then show ?case using ip w o lg bb by simp
  qed
qed auto

end

end
