(* ===== verification/Refine.thy ===== *)
theory Refine
  imports Main
begin

text \<open>
  Forward simulation between a server and its specification: an invariant of the server's states, an
  abstraction function, and the law that a step of the server is a step of the specification with the same event. Every
  sequence of events of the server is then one of the specification.
\<close>

fun trace :: "('s \<Rightarrow> 'e \<Rightarrow> 's \<Rightarrow> bool) \<Rightarrow> 's \<Rightarrow> 'e list \<Rightarrow> 's \<Rightarrow> bool" where
  "trace st s [] s' = (s = s')"
| "trace st s (e # es) s' = (\<exists>t. st s e t \<and> trace st t es s')"

lemma trace_det:
  assumes "\<And>s e t u. st s e t \<Longrightarrow> st s e u \<Longrightarrow> t = u"
  shows "trace st s es t \<Longrightarrow> trace st s es u \<Longrightarrow> t = u"
  by (induction es arbitrary: s) (auto dest: assms)

locale simulation =
  fixes step :: "'s \<Rightarrow> 'e \<Rightarrow> 's \<Rightarrow> bool" and inv :: "'s \<Rightarrow> bool"
    and absf :: "'s \<Rightarrow> 'a" and astep :: "'a \<Rightarrow> 'e \<Rightarrow> 'a \<Rightarrow> bool"
  assumes step_inv: "inv s \<Longrightarrow> step s e s' \<Longrightarrow> inv s'"
    and step_sim: "inv s \<Longrightarrow> step s e s' \<Longrightarrow> astep (absf s) e (absf s')"
begin

lemma run_inv: "trace step s es s' \<Longrightarrow> inv s \<Longrightarrow> inv s'"
  by (induction es arbitrary: s) (auto intro: step_inv)

lemma run_sim: "trace step s es s' \<Longrightarrow> inv s \<Longrightarrow> trace astep (absf s) es (absf s')"
  by (induction es arbitrary: s) (auto intro: step_inv step_sim)

end

end
