(* ===== verification/SimpleServer.thy ===== *)
theory SimpleServer
  imports SimpleSpec Refine
begin

text \<open>
  The small server as a whole: \<^verbatim>\<open>MakeNfs\<close> on a disk, then any sequence of NFS calls with their replies. Its states
  refine a map from inode numbers to byte strings; the specification says for every call, from its arguments and its reply, how the map
  changes and which replies are possible.
\<close>

section \<open>The state machine\<close>

text \<open>A call with its reply; the calls that are not listed neither read nor change the state of the server.\<close>

datatype simple_event =
  Getattr GETATTR3args GETATTR3res
| Setattr SETATTR3args SETATTR3res
| Reads READ3args READ3res
| Writes WRITE3args WRITE3res
| Commits COMMIT3args COMMIT3res

inductive simple_step ::
    "('log, 'op, 'alc, 'lm, 'd) golib \<Rightarrow> ('log, 'lm) simple_Nfs \<Rightarrow> simple_event \<Rightarrow> ('log, 'lm) simple_Nfs \<Rightarrow> bool"
  for G where
  getattr: "simple_NFSPROC3_GETATTR G a1 nfs = Inr (r1, nfs') \<Longrightarrow> simple_step G nfs (Getattr a1 r1) nfs'"
| setattr: "simple_NFSPROC3_SETATTR G a2 nfs = Inr (r2, nfs') \<Longrightarrow> simple_step G nfs (Setattr a2 r2) nfs'"
| rd: "simple_NFSPROC3_READ G a3 nfs = Inr (r3, nfs') \<Longrightarrow> simple_step G nfs (Reads a3 r3) nfs'"
| wr: "simple_NFSPROC3_WRITE G a4 nfs = Inr (r4, nfs') \<Longrightarrow> length (WRITE3args_Data a4) < 2 ^ 64 \<Longrightarrow>
    simple_step G nfs (Writes a4 r4) nfs'"
| commit: "simple_NFSPROC3_COMMIT G a5 nfs = Inr (r5, nfs') \<Longrightarrow> simple_step G nfs (Commits a5 r5) nfs'"

text \<open>
  The specification: a map \<open>F\<close> from the valid numbers to their files. The arguments and the reply of a call decide what the call does to the
  files, and what the reply may be: \<open>NFS3ERR_SERVERFAULT\<close> stands for a \<^verbatim>\<open>WRITE\<close> that does not fit, and else, like the \<open>NFS3ERR_IO\<close> of
  \<^verbatim>\<open>COMMIT\<close>, for a commit that failed, which it is only over a journal that may fail to commit.
\<close>

definition may_fail :: "('log, 'op, 'alc, 'lm, 'd) golib \<Rightarrow> bool" where
  "may_fail G \<longleftrightarrow> (\<exists>op lg. \<not> fst (CommitWait G op True lg))"

definition on_file :: "('log, 'op, 'alc, 'lm, 'd) golib \<Rightarrow> Nfs_fh3 \<Rightarrow> bool \<Rightarrow> (u64 \<Rightarrow> bool) \<Rightarrow> bool" where
  "on_file G fh invalid f =
     (case simple_fh2ino G fh of
        Inl _ \<Rightarrow> False
      | Inr i \<Rightarrow> if simple_validInum G i then f i else invalid)"

fun spec_step :: "('log, 'op, 'alc, 'lm, 'd) golib \<Rightarrow> (u64 \<Rightarrow> byte list) \<Rightarrow> simple_event \<Rightarrow> (u64 \<Rightarrow> byte list) \<Rightarrow> bool" where
  "spec_step G F (Getattr a r) F' =
     (F' = F \<and> on_file G (GETATTR3args_Object a) (GETATTR3res_Status r = NFS3ERR_INVAL \<or> simple_fh2ino G (GETATTR3args_Object a) = Inr (ROOTINUM G) \<and> GETATTR3res_Status r = NFS3_OK) (\<lambda>i.
        (GETATTR3res_Status r = NFS3_OK \<or> may_fail G \<and> GETATTR3res_Status r = NFS3ERR_SERVERFAULT) \<and>
        unat (Fattr3_Size (GETATTR3resok_Obj_attributes (GETATTR3res_Resok r))) = length (F i)))"
| "spec_step G F (Setattr a r) F' =
     on_file G (SETATTR3args_Object a) (SETATTR3res_Status r = NFS3ERR_INVAL \<and> F' = F) (\<lambda>i.
       let size = Sattr3_Size (SETATTR3args_New_attributes a)
       in case (if Set_size3_Set_it size then spec_resize (unat (Set_size3_Size size)) (F i) else Some (F i)) of
            None \<Rightarrow> SETATTR3res_Status r = NFS3ERR_NOSPC \<and> F' = F
          | Some f \<Rightarrow> SETATTR3res_Status r = NFS3_OK \<and> F' = F(i := f) \<or>
              may_fail G \<and> SETATTR3res_Status r = NFS3ERR_SERVERFAULT \<and> F' = F)"
| "spec_step G F (Reads a r) F' =
     (F' = F \<and> on_file G (READ3args_File a) (READ3res_Status r = NFS3ERR_INVAL) (\<lambda>i.
        let d = take (unat (READ3args_Count a)) (drop (unat (READ3args_Offset a)) (F i))
        in (READ3res_Status r = NFS3_OK \<or> may_fail G \<and> READ3res_Status r = NFS3ERR_SERVERFAULT) \<and>
           READ3resok_Data (READ3res_Resok r) = d \<and>
           unat (READ3resok_Count (READ3res_Resok r)) = length d \<and>
           READ3resok_Eof (READ3res_Resok r) = (length (F i) \<le> unat (READ3args_Offset a) + unat (READ3args_Count a))))"
| "spec_step G F (Writes a r) F' =
     on_file G (WRITE3args_File a) (WRITE3res_Status r = NFS3ERR_INVAL \<and> F' = F) (\<lambda>i.
       case (if unat (WRITE3args_Count a) = length (WRITE3args_Data a)
             then spec_write (unat (WRITE3args_Offset a)) (WRITE3args_Data a) (F i) else None) of
         None \<Rightarrow> WRITE3res_Status r = NFS3ERR_SERVERFAULT \<and> F' = F
       | Some f \<Rightarrow>
           WRITE3res_Status r = NFS3_OK \<and> WRITE3resok_Count (WRITE3res_Resok r) = WRITE3args_Count a \<and> F' = F(i := f) \<or>
           may_fail G \<and> WRITE3res_Status r = NFS3ERR_SERVERFAULT \<and> F' = F)"
| "spec_step G F (Commits a r) F' =
     (F' = F \<and> on_file G (COMMIT3args_File a) (COMMIT3res_Status r = NFS3ERR_INVAL) (\<lambda>i.
        COMMIT3res_Status r = NFS3_OK \<or> may_fail G \<and> COMMIT3res_Status r = NFS3ERR_IO))"

text \<open>The files after a call are determined by those before it, the call and its reply.\<close>

lemma spec_step_det: "spec_step G F e F1 \<Longrightarrow> spec_step G F e F2 \<Longrightarrow> F1 = F2"
  by (cases e) (auto simp: on_file_def Let_def split: sum.splits if_splits option.splits)

definition files :: "('log, 'op, 'alc, 'lm, 'd) golib \<Rightarrow> ('log, 'lm) simple_Nfs \<Rightarrow> u64 \<Rightarrow> byte list" where
  "files G nfs = (\<lambda>i. if simple_validInum G i then sfile G (jrnl_Begin G (sn_t nfs)) i else [])"

lemma files_eqI: "sfile G (jrnl_Begin G (sn_t nfs')) = sfile G (jrnl_Begin G (sn_t nfs)) \<Longrightarrow> files G nfs' = files G nfs"
  by (simp add: files_def fun_eq_iff)

section \<open>Calls that change no file\<close>

context gojournal
begin

definition server_ok :: "('log, 'lm) simple_Nfs \<Rightarrow> bool" where
  "server_ok nfs \<longleftrightarrow> simple_inv G (jrnl_Begin G (sn_t nfs)) \<and> held (sn_l nfs) = {}"

lemma may_failI: "CommitWait G op True lg = (ok, lg') \<Longrightarrow> \<not> ok \<Longrightarrow> may_fail G"
  by (auto simp: may_fail_def intro!: exI [of _ op] exI [of _ lg])

text \<open>A handler that commits a transaction with no writes leaves the files as they are; its body's reply is the reply.\<close>

lemma simple_readonly:
  assumes ok: "server_ok nfs" and s: "simple_locked G inum f nfs = Inr (reply, nfs')"
    and f: "\<And>r. f (sn_t nfs) = Inr r \<Longrightarrow> snd r = snd (CommitWait G (jrnl_Begin G (sn_t nfs)) True (sn_t nfs))"
  shows "server_ok nfs' \<and> files G nfs' = files G nfs \<and> (\<exists>lg. f (sn_t nfs) = Inr (reply, lg))"
proof -
  from s obtain r lg where w: "f (sn_t nfs) = Inr (r, lg)"
    by (cases "f (sn_t nfs)") (auto simp: simple_locked_def split: option.splits)
  then obtain ok where c: "CommitWait G (jrnl_Begin G (sn_t nfs)) True (sn_t nfs) = (ok, lg)"
    using f [OF w] by (metis prod.collapse snd_conv)
  have "inum \<notin> held (sn_l nfs)" using ok by (simp add: server_ok_def)
  from simple_locked_ok [of inum nfs f, OF this w] s obtain l where "nfs' = nfs\<lparr>sn_t := lg, sn_l := l\<rparr>" "held l = {}" "r = reply"
    using ok by (auto simp: server_ok_def)
  then show ?thesis using commit_files [OF on_begin c] ok w by (auto simp: server_ok_def split: if_splits intro!: files_eqI)
qed

lemma simple_GETATTR_sim:
  assumes ok: "server_ok nfs" and s: "simple_NFSPROC3_GETATTR G args nfs = Inr (reply, nfs')"
  shows "server_ok nfs' \<and> spec_step G (files G nfs) (Getattr args reply) (files G nfs')"
proof -
  from s obtain inum where fh: "simple_fh2ino G (GETATTR3args_Object args) = Inr inum"
    by (auto simp: simple_NFSPROC3_GETATTR_def bnd_eq_Inr Let_def)
  let ?int = "\<lambda>log. simple_GETATTR_internal G args zero_GETATTR3res inum (jrnl_Begin G log) log"
  show ?thesis
  proof (cases "simple_validInum G inum")
    case False
    then show ?thesis using s fh ok by (auto simp: simple_NFSPROC3_GETATTR_def on_file_def split: if_splits)
  next
    case True
    then have l: "simple_locked G inum ?int nfs = Inr (reply, nfs')"
      using s fh by (auto simp: simple_NFSPROC3_GETATTR_def simple_validInum_def split: if_splits)
    have ro: "server_ok nfs' \<and> files G nfs' = files G nfs \<and> (\<exists>lg. ?int (sn_t nfs) = Inr (reply, lg))"
      by (rule simple_readonly [OF ok l]) (auto simp: simple_GETATTR_internal_def bnd_eq_Inr case_prod_beta)
    from ok True have "sino_ok G (jrnl_Begin G (sn_t nfs)) inum" by (simp add: server_ok_def simple_inv_def)
    then obtain ip where "simple_ReadInode G inum (jrnl_Begin G (sn_t nfs)) = Inr ip"
      "length (files G nfs inum) = unat (s_Size ip)" using True by (auto simp: files_def elim: sino_okE)
    then show ?thesis using ro fh True
      by (auto simp: on_file_def simple_GETATTR_internal_def simple_GETATTR_wp_def simple_MkFattr_def intro: may_failI split: prod.splits)
  qed
qed

lemma simple_READ_sim:
  assumes ok: "server_ok nfs" and s: "simple_NFSPROC3_READ G args nfs = Inr (reply, nfs')"
  shows "server_ok nfs' \<and> spec_step G (files G nfs) (Reads args reply) (files G nfs')"
proof -
  from s obtain inum where fh: "simple_fh2ino G (READ3args_File args) = Inr inum"
    by (auto simp: simple_NFSPROC3_READ_def bnd_eq_Inr Let_def)
  show ?thesis
  proof (cases "simple_validInum G inum")
    case False
    then show ?thesis using s fh ok by (auto simp: simple_NFSPROC3_READ_def on_file_def)
  next
    case True
    have h: "inum \<notin> held (sn_l nfs)" and inv: "simple_inv G (jrnl_Begin G (sn_t nfs))" using ok by (auto simp: server_ok_def)
    from simple_READ_ok [OF inv fh True h, unfolded s sum.inject prod.inject]
    show ?thesis using fh True ok
      by (elim exE conjE) (auto simp: server_ok_def on_file_def files_def Let_def fun_eq_iff may_fail_def)
  qed
qed

lemma simple_COMMIT_sim:
  assumes ok: "server_ok nfs" and s: "simple_NFSPROC3_COMMIT G args nfs = Inr (reply, nfs')"
  shows "server_ok nfs' \<and> spec_step G (files G nfs) (Commits args reply) (files G nfs')"
proof -
  from s obtain inum where fh: "simple_fh2ino G (COMMIT3args_File args) = Inr inum"
    by (auto simp: simple_NFSPROC3_COMMIT_def bnd_eq_Inr Let_def)
  let ?f = "\<lambda>log. let (ok, log) = CommitWait G (jrnl_Begin G log) True log
      in Inr (zero_COMMIT3res\<lparr>COMMIT3res_Status := if ok then NFS3_OK else NFS3ERR_IO\<rparr>, log) :: (COMMIT3res \<times> 'log) res"
  show ?thesis
  proof (cases "simple_validInum G inum")
    case False
    then show ?thesis using s fh ok by (auto simp: simple_NFSPROC3_COMMIT_def on_file_def)
  next
    case True
    then have l: "simple_locked G inum ?f nfs = Inr (reply, nfs')" using s fh by (simp add: simple_NFSPROC3_COMMIT_def)
    have "server_ok nfs' \<and> files G nfs' = files G nfs \<and> (\<exists>lg. ?f (sn_t nfs) = Inr (reply, lg))"
      by (rule simple_readonly [where f = ?f, OF ok l]) (auto simp: case_prod_beta)
    then show ?thesis using fh True by (auto simp: on_file_def intro: may_failI split: prod.splits)
  qed
qed

section \<open>Calls that change a file\<close>

lemma files_update:
  assumes "simple_validInum G inum"
    and "\<forall>j. simple_validInum G j \<longrightarrow>
           sfile G (jrnl_Begin G (sn_t nfs')) j = (if j = inum then f else sfile G (jrnl_Begin G (sn_t nfs)) j)"
  shows "files G nfs' = (files G nfs)(inum := f)"
  using assms by (auto simp: files_def fun_eq_iff)

text \<open>What a call does to one file becomes what it does to the map of files.\<close>

lemma files_changed:
  assumes "simple_validInum G inum"
    and "P \<and> (\<forall>j. simple_validInum G j \<longrightarrow>
           sfile G (jrnl_Begin G (sn_t nfs')) j = (if j = inum then f else sfile G (jrnl_Begin G (sn_t nfs)) j)) \<or>
         Q \<and> (\<exists>op. \<not> fst (CommitWait G op True (sn_t nfs))) \<and>
           sfile G (jrnl_Begin G (sn_t nfs')) = sfile G (jrnl_Begin G (sn_t nfs))"
  shows "P \<and> files G nfs' = (files G nfs)(inum := f) \<or> may_fail G \<and> Q \<and> files G nfs' = files G nfs"
  using assms(2) files_update [OF assms(1), of nfs' f nfs] by (auto simp: may_fail_def intro: files_eqI)

lemma simple_WRITE_sim:
  assumes ok: "server_ok nfs" and s: "simple_NFSPROC3_WRITE G args nfs = Inr (reply, nfs')"
    and len: "length (WRITE3args_Data args) < 2 ^ 64"
  shows "server_ok nfs' \<and> spec_step G (files G nfs) (Writes args reply) (files G nfs')"
proof -
  from s obtain inum where fh: "simple_fh2ino G (WRITE3args_File args) = Inr inum"
    by (auto simp: simple_NFSPROC3_WRITE_def bnd_eq_Inr Let_def)
  show ?thesis
  proof (cases "simple_validInum G inum")
    case False
    then show ?thesis using s fh ok by (auto simp: simple_NFSPROC3_WRITE_def on_file_def)
  next
    case True
    let ?w = "if unat (WRITE3args_Count args) = length (WRITE3args_Data args)
            then spec_write (unat (WRITE3args_Offset args)) (WRITE3args_Data args) (sfile G (jrnl_Begin G (sn_t nfs)) inum)
            else None"
    have h: "inum \<notin> held (sn_l nfs)" and inv: "simple_inv G (jrnl_Begin G (sn_t nfs))" using ok by (auto simp: server_ok_def)
    have fi: "files G nfs inum = sfile G (jrnl_Begin G (sn_t nfs)) inum" using True by (simp add: files_def)
    note w = simple_WRITE_ok [OF inv fh True h len, unfolded s sum.inject prod.inject]
    have ok': "server_ok nfs'" using w ok by (elim exE conjE) (simp add: server_ok_def)
    show ?thesis
    proof (cases ?w)
      case None
      from w [unfolded None] have "WRITE3res_Status reply = NFS3ERR_SERVERFAULT" "sn_t nfs' = sn_t nfs" by (elim exE conjE, simp)+
      then have "WRITE3res_Status reply = NFS3ERR_SERVERFAULT" "files G nfs' = files G nfs" by (auto intro: files_eqI)
      then show ?thesis using ok' fh True None by (auto simp: on_file_def fi split: if_splits)
    next
      case (Some f)
      from w [unfolded Some] have "(WRITE3res_Status reply = NFS3_OK \<and> WRITE3resok_Count (WRITE3res_Resok reply) = WRITE3args_Count args) \<and>
          (\<forall>j. simple_validInum G j \<longrightarrow>
            sfile G (jrnl_Begin G (sn_t nfs')) j = (if j = inum then f else sfile G (jrnl_Begin G (sn_t nfs)) j)) \<or>
         WRITE3res_Status reply = NFS3ERR_SERVERFAULT \<and> (\<exists>op. \<not> fst (CommitWait G op True (sn_t nfs))) \<and>
         sfile G (jrnl_Begin G (sn_t nfs')) = sfile G (jrnl_Begin G (sn_t nfs))"
        by (simp only: option.case conj_assoc) (elim exE conjE, hypsubst, assumption)
      from files_changed [OF True this] show ?thesis using ok' fh True Some by (simp add: on_file_def fi split: if_splits)
    qed
  qed
qed

lemma simple_SETATTR_noset:
  assumes "\<not> Set_size3_Set_it (Sattr3_Size (SETATTR3args_New_attributes args))"
    and "simple_SETATTR_internal G args r inum op lg = Inr r'"
  shows "snd r' = snd (CommitWait G op True lg)"
  using assms by (auto simp: simple_SETATTR_internal_def simple_SETATTR_wp_def bnd_eq_Inr case_prod_beta)

text \<open>A size more than \<open>2 ^ 48\<close> bytes over the file's makes \<^verbatim>\<open>make\<close> panic.\<close>

lemma simple_SETATTR_huge:
  assumes inv: "simple_inv G op" and v: "simple_validInum G i"
    and set: "Set_size3_Set_it (Sattr3_Size (SETATTR3args_New_attributes args))"
    and n: "n = Set_size3_Size (Sattr3_Size (SETATTR3args_New_attributes args))" "length (sfile G op i) + 2 ^ 48 < unat n"
  shows "simple_SETATTR_wp G args r i op = Inl (Panic ''makeslice: len out of range'')"
proof -
  from inv v have "sino_ok G op i" by (simp add: simple_inv_def)
  then show ?thesis
  proof (rule sino_okE)
    fix ip
    assume "simple_ReadInode G i op = Inr ip" "length (sfile G op i) = unat (s_Size ip)"
    moreover from this n(2) have "s_Size ip < n" "make_bytes (n - s_Size ip) = Inl (Panic ''makeslice: len out of range'')"
      by (simp_all add: make_bytes_def word_less_nat_alt nowrap)
    ultimately show ?thesis using n(1) set by (simp add: simple_SETATTR_wp_def)
  qed
qed

lemma simple_SETATTR_fits:
  assumes inv: "simple_inv G (jrnl_Begin G (sn_t nfs))" and v: "simple_validInum G inum"
    and set: "Set_size3_Set_it (Sattr3_Size (SETATTR3args_New_attributes args))"
    and l: "simple_locked G inum (\<lambda>log. simple_SETATTR_internal G args zero_SETATTR3res inum (jrnl_Begin G log) log) nfs = Inr r"
  shows "unat (Set_size3_Size (Sattr3_Size (SETATTR3args_New_attributes args))) \<le> length (sfile G (jrnl_Begin G (sn_t nfs)) inum) + 2 ^ 48"
proof (rule ccontr)
  assume "\<not> ?thesis"
  then have "simple_SETATTR_wp G args zero_SETATTR3res inum (jrnl_Begin G (sn_t nfs)) = Inl (Panic ''makeslice: len out of range'')"
    using simple_SETATTR_huge [OF inv v set refl] by simp
  then show False using l by (auto simp: simple_SETATTR_internal_def simple_locked_def split: option.splits)
qed

lemma simple_SETATTR_sim:
  assumes ok: "server_ok nfs" and s: "simple_NFSPROC3_SETATTR G args nfs = Inr (reply, nfs')"
  shows "server_ok nfs' \<and> spec_step G (files G nfs) (Setattr args reply) (files G nfs')"
proof -
  let ?int = "\<lambda>inum log. simple_SETATTR_internal G args zero_SETATTR3res inum (jrnl_Begin G log) log"
  let ?n = "Set_size3_Size (Sattr3_Size (SETATTR3args_New_attributes args))"
  from s obtain inum where fh: "simple_fh2ino G (SETATTR3args_Object args) = Inr inum"
    by (auto simp: simple_NFSPROC3_SETATTR_def bnd_eq_Inr Let_def)
  have inv: "simple_inv G (jrnl_Begin G (sn_t nfs))" and h: "inum \<notin> held (sn_l nfs)" using ok by (auto simp: server_ok_def)
  consider "\<not> simple_validInum G inum"
    | (noset) "simple_validInum G inum" "\<not> Set_size3_Set_it (Sattr3_Size (SETATTR3args_New_attributes args))"
    | (set) "simple_validInum G inum" "Set_size3_Set_it (Sattr3_Size (SETATTR3args_New_attributes args))" by blast
  then show ?thesis
  proof cases
    case 1
    then show ?thesis using s fh ok by (auto simp: simple_NFSPROC3_SETATTR_def on_file_def)
  next
    case noset
    then have l: "simple_locked G inum (?int inum) nfs = Inr (reply, nfs')" using s fh by (simp add: simple_NFSPROC3_SETATTR_def)
    have "server_ok nfs' \<and> files G nfs' = files G nfs \<and> (\<exists>lg. ?int inum (sn_t nfs) = Inr (reply, lg))"
      by (rule simple_readonly [OF ok l]) (rule simple_SETATTR_noset [OF noset(2)])
    then show ?thesis using fh noset
      by (auto simp: on_file_def simple_SETATTR_internal_def simple_SETATTR_wp_def bnd_eq_Inr intro: may_failI split: prod.splits if_splits)
  next
    case set
    then have l: "simple_locked G inum (?int inum) nfs = Inr (reply, nfs')" using s fh by (simp add: simple_NFSPROC3_SETATTR_def)
    let ?f = "sfile G (jrnl_Begin G (sn_t nfs)) inum"
    have fi: "files G nfs inum = ?f" using set by (simp add: files_def)
    note w = simple_SETATTR_ok [OF inv fh set(1) h set(2) refl simple_SETATTR_fits [OF inv set l], unfolded s sum.inject prod.inject]
    have ok': "server_ok nfs'" using w ok by (elim exE conjE) (simp add: server_ok_def)
    show ?thesis
    proof (cases "spec_resize (unat ?n) ?f")
      case None
      from w [unfolded None] have "SETATTR3res_Status reply = NFS3ERR_NOSPC" "sn_t nfs' = sn_t nfs" by (elim exE conjE, simp)+
      then have "SETATTR3res_Status reply = NFS3ERR_NOSPC" "files G nfs' = files G nfs" by (auto intro: files_eqI)
      then show ?thesis using ok' fh set None by (simp add: on_file_def fi)
    next
      case (Some f)
      from w [unfolded Some] have "SETATTR3res_Status reply = NFS3_OK \<and> (\<forall>j. simple_validInum G j \<longrightarrow>
           sfile G (jrnl_Begin G (sn_t nfs')) j = (if j = inum then f else sfile G (jrnl_Begin G (sn_t nfs)) j)) \<or>
         SETATTR3res_Status reply = NFS3ERR_SERVERFAULT \<and> (\<exists>op. \<not> fst (CommitWait G op True (sn_t nfs))) \<and>
         sfile G (jrnl_Begin G (sn_t nfs')) = sfile G (jrnl_Begin G (sn_t nfs))"
        by (simp only: option.case) (elim exE conjE, hypsubst, assumption)
      from files_changed [OF set(1) this] show ?thesis using ok' fh set Some by (simp add: on_file_def fi)
    qed
  qed
qed

lemma simple_simulation: "simulation (simple_step G) server_ok (files G) (spec_step G)"
proof
  fix s s' :: "('log, 'lm) simple_Nfs" and e
  assume ok: "server_ok s" and st: "simple_step G s e s'"
  from st have "server_ok s' \<and> spec_step G (files G s) e (files G s')"
    by (cases rule: simple_step.cases)
       (simp_all only: simple_GETATTR_sim [OF ok] simple_READ_sim [OF ok] simple_COMMIT_sim [OF ok]
          simple_WRITE_sim [OF ok] simple_SETATTR_sim [OF ok])
  then show "server_ok s'" "spec_step G (files G s) e (files G s')" by simp_all
qed

section \<open>Making the file system\<close>

lemma simple_MakeNfs_ok:
  assumes m: "MkLog G d = (lg, d')"
    and disk: "\<And>j. unat j < 32 \<Longrightarrow> \<exists>ip. simple_ReadInode G j (jrnl_Begin G lg) = Inr ip \<and> s_Size ip \<le> 4096"
  shows "\<exists>op lg'. simple_MakeNfs G d =
       Inr (if fst (CommitWait G op True lg) then Some \<lparr>sn_t = lg', sn_l = MkLockMap G\<rparr> else None) \<and>
     (fst (CommitWait G op True lg) \<longrightarrow> server_ok \<lparr>sn_t = lg', sn_l = MkLockMap G\<rparr>)"
proof -
  let ?op = "jrnl_Begin G lg"
  have num: "s_Inum ip = j" if "simple_ReadInode G j op = Inr ip" for ip op j
    using that by (auto simp: simple_ReadInode_def simple_Decode_def bnd_eq_Inr)
  obtain op' where i: "simple_inodeInit G ?op = Inr op'" "on lg op'"
    and r: "\<And>j. unat j < 32 \<Longrightarrow> simple_ReadInode G j op' = map_sum id (\<lambda>ip. ip\<lparr>s_Data := 514 + j\<rparr>) (simple_ReadInode G j ?op)"
    using inodeInit_loop_ok [of 0 32 ?op] disk num on_begin [of lg]
    by (fastforce simp: simple_inodeInit_def simple_nInode_def)
  obtain ok lg' where c: "CommitWait G op' True lg = (ok, lg')" by (cases "CommitWait G op' True lg")
  have "simple_inv G op'"
    unfolding simple_inv_def
  proof (intro allI impI)
    fix j
    assume "simple_validInum G j"
    then have j: "unat j < 32" by (rule valid_lt)
    from disk [OF j] obtain ip where "simple_ReadInode G j ?op = Inr ip" "s_Size ip \<le> 4096" by blast
    then show "sino_ok G op' j" using r [OF j] num by (simp add: sino_ok_def)
  qed
  then show ?thesis using i c m commit_files [OF i(2) c]
    by (intro exI [of _ op'] exI [of _ lg']) (auto simp: simple_MakeNfs_def server_ok_def held_init)
qed

end

interpretation ref_simple: simulation "simple_step ref_lib" "gojournal.server_ok ref_lib set" "files ref_lib" "spec_step ref_lib"
  by (rule ref.simple_simulation)

section \<open>Properties\<close>

text \<open>A fresh disk, and the server made on it.\<close>

definition ex_disk :: ref_disk where
  "ex_disk = (2000, \<lambda>_. [])"

definition ex_log :: "u64 \<Rightarrow> nat \<Rightarrow> byte" where
  "ex_log = (\<lambda>b i. 0)"

lemma ref_lib_server [simp]: "fst (CommitWait ref_lib op w lg) = True" "MkLockMap ref_lib = []"
  by (simp_all add: ref_lib_def)

lemma ex_MkLog: "MkLog ref_lib ex_disk = (ex_log, ex_disk)"
  by (simp add: ref_lib_def ex_disk_def ex_log_def)

lemma ex_disk_inodes: "\<exists>ip. simple_ReadInode ref_lib j (jrnl_Begin ref_lib ex_log) = Inr ip \<and> s_Size ip \<le> 4096"
  by (simp add: simple_ReadInode_def simple_Decode_def ref_lib_def ref_read_def ref_getint_def ex_log_def
        map_replicate_const)

text \<open>Making the file system. On a disk whose inodes are readable with sizes of at most one block (a zeroed
  disk has them), \<^verbatim>\<open>MakeNfs\<close> returns a server whose inodes all satisfy the invariant and whose locks are
  all free; it returns nil only if the journal fails to commit.\<close>

theorem simple_makenfs_inv:
  assumes "gojournal G on used arange held" and "MkLog G d = (lg, d')"
    and "\<And>j. unat j < 32 \<Longrightarrow> \<exists>ip. simple_ReadInode G j (jrnl_Begin G lg) = Inr ip \<and> s_Size ip \<le> 4096"
  shows "\<exists>op lg'. simple_MakeNfs G d =
       Inr (if fst (CommitWait G op True lg) then Some \<lparr>sn_t = lg', sn_l = MkLockMap G\<rparr> else None) \<and>
     (fst (CommitWait G op True lg) \<longrightarrow> simple_inv G (jrnl_Begin G lg') \<and> held (MkLockMap G) = {})"
  using gojournal.simple_MakeNfs_ok [OF assms] by (simp add: gojournal.server_ok_def [OF assms(1)])

theorem simple_makenfs_inv_witness:
  "\<exists>lg'. simple_MakeNfs ref_lib ex_disk = Inr (Some \<lparr>sn_t = lg', sn_l = []\<rparr>) \<and>
     simple_inv ref_lib (jrnl_Begin ref_lib lg')"
  using simple_makenfs_inv [OF ref_gojournal ex_MkLog ex_disk_inodes] by simp

lemma ex_server:
  obtains lg where "simple_MakeNfs ref_lib ex_disk = Inr (Some \<lparr>sn_t = lg, sn_l = []\<rparr>)"
    and "simple_inv ref_lib (jrnl_Begin ref_lib lg)"
  using ref.simple_MakeNfs_ok [OF ex_MkLog ex_disk_inodes] by (auto simp: ref.server_ok_def)

text \<open>C22: the server refines its specification. \<^verbatim>\<open>MakeNfs\<close> makes the server on a disk whose inodes are
  readable with sizes of at most one block (a zeroed disk has them). Every sequence of calls with their
  replies that the server then serves is one of the specification from the same files: it says of each call, from its
  arguments and its reply, which file it changes to which bytes, what a \<^verbatim>\<open>READ\<close> and a \<^verbatim>\<open>GETATTR\<close> return, and
  which status is replied, an error status being a refusal it names or a commit that failed. The sequence determines the files: the
  specification reaches the files on the server's disk and no others. Every file is at most one block, and no lock is held.\<close>

theorem simple_server_refines:
  assumes G: "gojournal G on used arange held" and m: "MkLog G d = (lg, d')"
    and disk: "\<And>j. unat j < 32 \<Longrightarrow> \<exists>ip. simple_ReadInode G j (jrnl_Begin G lg) = Inr ip \<and> s_Size ip \<le> 4096"
    and init: "simple_MakeNfs G d = Inr (Some nfs0)" and run: "trace (simple_step G) nfs0 evs nfs"
  shows "trace (spec_step G) (files G nfs0) evs (files G nfs) \<and>
     (\<forall>F. trace (spec_step G) (files G nfs0) evs F \<longrightarrow> F = files G nfs) \<and>
     (\<forall>i. length (files G nfs i) \<le> 4096) \<and> held (sn_l nfs) = {}"
proof -
  note sim = gojournal.simple_simulation [OF G]
  have ok0: "gojournal.server_ok G held nfs0"
    using gojournal.simple_MakeNfs_ok [OF G m disk] init by (auto split: if_splits)
  then have ok: "gojournal.server_ok G held nfs" by (rule simulation.run_inv [OF sim run])
  have "length (files G nfs i) \<le> 4096" for i
    using ok by (auto simp: files_def gojournal.server_ok_def [OF G] simple_inv_def elim!: gojournal.sino_okE [OF G])
  moreover have tr: "trace (spec_step G) (files G nfs0) evs (files G nfs)" by (rule simulation.run_sim [OF sim run ok0])
  moreover have "F = files G nfs" if "trace (spec_step G) (files G nfs0) evs F" for F
    using trace_det [of "spec_step G", OF spec_step_det that tr] .
  ultimately show ?thesis using ok unfolding gojournal.server_ok_def [OF G] by blast
qed

definition ex_fh :: Nfs_fh3 where
  "ex_fh = \<lparr>Nfs_fh3_Data = [2, 0, 0, 0, 0, 0, 0, 0, 0, 0, 0, 0, 0, 0, 0, 0]\<rparr>"

lemma ex_fh_ino: "simple_fh2ino ref_lib ex_fh = Inr 2" "simple_validInum ref_lib 2"
  by (simp_all add: simple_fh2ino_def simple_MakeFh_def ex_fh_def ref_lib_def ref_getint_def
        simple_validInum_def simple_nInode_def)

definition ex_write_args :: WRITE3args where
  "ex_write_args = \<lparr>WRITE3args_File = ex_fh, WRITE3args_Offset = 0, WRITE3args_Count = 3, WRITE3args_Stable = FILE_SYNC,
     WRITE3args_Data = [7, 8, 9]\<rparr>"

definition ex_read_args :: READ3args where
  "ex_read_args = \<lparr>READ3args_File = ex_fh, READ3args_Offset = 0, READ3args_Count = 3\<rparr>"

text \<open>A \<^verbatim>\<open>WRITE\<close> of three bytes and a \<^verbatim>\<open>READ\<close> of them: the specification gives the bytes that are read.\<close>

theorem simple_server_refines_witness:
  "\<exists>nfs0 w nfs1 r nfs. simple_MakeNfs ref_lib ex_disk = Inr (Some nfs0) \<and>
     simple_NFSPROC3_WRITE ref_lib ex_write_args nfs0 = Inr (w, nfs1) \<and>
     simple_NFSPROC3_READ ref_lib ex_read_args nfs1 = Inr (r, nfs) \<and>
     WRITE3res_Status w = NFS3_OK \<and> READ3resok_Data (READ3res_Resok r) = [7, 8, 9] \<and> sn_l nfs = []"
proof (rule ex_server)
  fix lg
  assume m: "simple_MakeNfs ref_lib ex_disk = Inr (Some \<lparr>sn_t = lg, sn_l = []\<rparr>)" and inv: "simple_inv ref_lib (jrnl_Begin ref_lib lg)"
  let ?n = "\<lparr>sn_t = lg, sn_l = []\<rparr>"
  obtain w nfs1 where w: "simple_NFSPROC3_WRITE ref_lib ex_write_args ?n = Inr (w, nfs1)"
      and i1: "simple_inv ref_lib (jrnl_Begin ref_lib (sn_t nfs1))" "sn_l nfs1 = []"
    using ref.simple_WRITE_ok [of ?n ex_write_args 2] inv ex_fh_ino by (auto simp: ex_write_args_def)
  obtain r nfs where r: "simple_NFSPROC3_READ ref_lib ex_read_args nfs1 = Inr (r, nfs)"
    using ref.simple_READ_ok [of nfs1 ex_read_args 2] i1 ex_fh_ino by (auto simp: ex_read_args_def)
  have "trace (simple_step ref_lib) ?n [Writes ex_write_args w, Reads ex_read_args r] nfs"
    using w r by (auto simp: ex_write_args_def intro!: exI [of _ nfs1] simple_step.intros)
  from simple_server_refines [OF ref_gojournal ex_MkLog ex_disk_inodes m this]
  obtain F1 F2 where "spec_step ref_lib (files ref_lib ?n) (Writes ex_write_args w) F1" "spec_step ref_lib F1 (Reads ex_read_args r) F2"
      "sn_l nfs = []" by (simp only: trace.simps set_empty) blast
  then have "WRITE3res_Status w = NFS3_OK \<and> READ3resok_Data (READ3res_Resok r) = [7, 8, 9]"
    using ex_fh_ino by (simp add: on_file_def ex_write_args_def ex_read_args_def may_fail_def spec_write_def)
  then show ?thesis using m w r \<open>sn_l nfs = []\<close> by auto
qed

text \<open>\<^verbatim>\<open>WRITE\<close>. For a valid handle the call returns; it is refused with the disk unchanged exactly when
  the specification refuses the write or the count is not the length of the data; else, if the journal
  commits, exactly that file changes to the specified contents, and if not, no file changes.\<close>

theorem simple_write_refines:
  assumes "gojournal G on used arange held" and "simple_inv G (jrnl_Begin G (sn_t nfs))"
    and "simple_fh2ino G (WRITE3args_File args) = Inr inum" and "simple_validInum G inum"
    and "inum \<notin> held (sn_l nfs)" and "length (WRITE3args_Data args) < 2 ^ 64"
  shows "\<exists>reply nfs'. simple_NFSPROC3_WRITE G args nfs = Inr (reply, nfs') \<and> held (sn_l nfs') = held (sn_l nfs) \<and>
     simple_inv G (jrnl_Begin G (sn_t nfs')) \<and>
     (case (if unat (WRITE3args_Count args) = length (WRITE3args_Data args)
            then spec_write (unat (WRITE3args_Offset args)) (WRITE3args_Data args) (sfile G (jrnl_Begin G (sn_t nfs)) inum)
            else None) of
        None \<Rightarrow> WRITE3res_Status reply = NFS3ERR_SERVERFAULT \<and> sn_t nfs' = sn_t nfs
      | Some f \<Rightarrow>
          (WRITE3res_Status reply = NFS3_OK \<and> WRITE3resok_Count (WRITE3res_Resok reply) = WRITE3args_Count args \<and>
             (\<forall>j. simple_validInum G j \<longrightarrow>
                sfile G (jrnl_Begin G (sn_t nfs')) j = (if j = inum then f else sfile G (jrnl_Begin G (sn_t nfs)) j))) \<or>
          (WRITE3res_Status reply = NFS3ERR_SERVERFAULT \<and>
             (\<exists>op. \<not> fst (CommitWait G op True (sn_t nfs))) \<and>
             sfile G (jrnl_Begin G (sn_t nfs')) = sfile G (jrnl_Begin G (sn_t nfs))))"
  using assms(2-) by (rule gojournal.simple_WRITE_ok [OF assms(1)])

theorem simple_write_refines_witness:
  "\<exists>lg reply nfs'. simple_MakeNfs ref_lib ex_disk = Inr (Some \<lparr>sn_t = lg, sn_l = []\<rparr>) \<and>
     simple_NFSPROC3_WRITE ref_lib ex_write_args \<lparr>sn_t = lg, sn_l = []\<rparr> = Inr (reply, nfs') \<and>
     (spec_write 0 [7, 8, 9] (sfile ref_lib (jrnl_Begin ref_lib lg) 2) = Some (sfile ref_lib (jrnl_Begin ref_lib (sn_t nfs')) 2))"
proof (rule ex_server)
  fix lg
  assume m: "simple_MakeNfs ref_lib ex_disk = Inr (Some \<lparr>sn_t = lg, sn_l = []\<rparr>)" and inv: "simple_inv ref_lib (jrnl_Begin ref_lib lg)"
  let ?n = "\<lparr>sn_t = lg, sn_l = []\<rparr>"
  have "spec_write 0 [7, 8, 9] (sfile ref_lib (jrnl_Begin ref_lib lg) 2) =
      Some ([7, 8, 9] @ drop 3 (sfile ref_lib (jrnl_Begin ref_lib lg) 2))"
    by (simp add: spec_write_def numeral_3_eq_3)
  then show ?thesis using simple_write_refines [OF ref_gojournal, of ?n ex_write_args 2] inv ex_fh_ino m
    by (auto simp: ex_write_args_def)
qed

text \<open>\<^verbatim>\<open>READ\<close>. For a valid handle the call returns the requested part of the file, its length as the
  count, and an end-of-file flag that is set exactly if the request reaches the end; no file changes.\<close>

theorem simple_read_refines:
  assumes "gojournal G on used arange held" and "simple_inv G (jrnl_Begin G (sn_t nfs))"
    and "simple_fh2ino G (READ3args_File args) = Inr inum" and "simple_validInum G inum"
    and "inum \<notin> held (sn_l nfs)"
  shows "\<exists>reply nfs'. simple_NFSPROC3_READ G args nfs = Inr (reply, nfs') \<and> held (sn_l nfs') = held (sn_l nfs) \<and>
     sfile G (jrnl_Begin G (sn_t nfs')) = sfile G (jrnl_Begin G (sn_t nfs)) \<and>
     simple_inv G (jrnl_Begin G (sn_t nfs')) \<and>
     (let f = sfile G (jrnl_Begin G (sn_t nfs)) inum; off = unat (READ3args_Offset args); n = unat (READ3args_Count args)
      in READ3resok_Data (READ3res_Resok reply) = take n (drop off f) \<and>
         READ3resok_Eof (READ3res_Resok reply) = (length f \<le> off + n) \<and>
         unat (READ3resok_Count (READ3res_Resok reply)) = length (take n (drop off f))) \<and>
     (READ3res_Status reply = NFS3_OK \<or>
      READ3res_Status reply = NFS3ERR_SERVERFAULT \<and> (\<exists>op. \<not> fst (CommitWait G op True (sn_t nfs))))"
  using assms(2-) by (rule gojournal.simple_READ_ok [OF assms(1)])

theorem simple_read_refines_witness:
  "\<exists>lg reply nfs'. simple_MakeNfs ref_lib ex_disk = Inr (Some \<lparr>sn_t = lg, sn_l = []\<rparr>) \<and>
     simple_NFSPROC3_READ ref_lib \<lparr>READ3args_File = ex_fh, READ3args_Offset = 0, READ3args_Count = 4096\<rparr>
       \<lparr>sn_t = lg, sn_l = []\<rparr> = Inr (reply, nfs') \<and>
     READ3resok_Data (READ3res_Resok reply) = take 4096 (sfile ref_lib (jrnl_Begin ref_lib lg) 2)"
proof (rule ex_server)
  fix lg
  assume m: "simple_MakeNfs ref_lib ex_disk = Inr (Some \<lparr>sn_t = lg, sn_l = []\<rparr>)" and inv: "simple_inv ref_lib (jrnl_Begin ref_lib lg)"
  show ?thesis
    using simple_read_refines [OF ref_gojournal, of "\<lparr>sn_t = lg, sn_l = []\<rparr>"
        "\<lparr>READ3args_File = ex_fh, READ3args_Offset = 0, READ3args_Count = 4096\<rparr>" 2] inv ex_fh_ino m
    by (auto simp: Let_def)
qed

text \<open>\<^verbatim>\<open>SETATTR\<close> of the size. For a valid handle and a size at most \<open>2 ^ 48\<close> bytes over the file's the call
  returns; it replies NFS3ERR_NOSPC with the disk unchanged exactly when the specification refuses the
  size; else, if the journal commits, exactly that file is truncated or extended with zero bytes.\<close>

theorem simple_setattr_refines:
  assumes "gojournal G on used arange held" and "simple_inv G (jrnl_Begin G (sn_t nfs))"
    and "simple_fh2ino G (SETATTR3args_Object args) = Inr inum" and "simple_validInum G inum"
    and "inum \<notin> held (sn_l nfs)"
    and "Set_size3_Set_it (Sattr3_Size (SETATTR3args_New_attributes args))"
    and "n = Set_size3_Size (Sattr3_Size (SETATTR3args_New_attributes args))"
    and "unat n \<le> length (sfile G (jrnl_Begin G (sn_t nfs)) inum) + 2 ^ 48"
  shows "\<exists>reply nfs'. simple_NFSPROC3_SETATTR G args nfs = Inr (reply, nfs') \<and> held (sn_l nfs') = held (sn_l nfs) \<and>
     simple_inv G (jrnl_Begin G (sn_t nfs')) \<and>
     (case spec_resize (unat n) (sfile G (jrnl_Begin G (sn_t nfs)) inum) of
        None \<Rightarrow> SETATTR3res_Status reply = NFS3ERR_NOSPC \<and> sn_t nfs' = sn_t nfs
      | Some f \<Rightarrow>
          (SETATTR3res_Status reply = NFS3_OK \<and>
             (\<forall>j. simple_validInum G j \<longrightarrow>
                sfile G (jrnl_Begin G (sn_t nfs')) j = (if j = inum then f else sfile G (jrnl_Begin G (sn_t nfs)) j))) \<or>
          (SETATTR3res_Status reply = NFS3ERR_SERVERFAULT \<and>
             (\<exists>op. \<not> fst (CommitWait G op True (sn_t nfs))) \<and>
             sfile G (jrnl_Begin G (sn_t nfs')) = sfile G (jrnl_Begin G (sn_t nfs))))"
  using assms(2-) by (rule gojournal.simple_SETATTR_ok [OF assms(1)])

definition ex_setattr_args :: "u64 \<Rightarrow> SETATTR3args" where
  "ex_setattr_args n = zero_SETATTR3args\<lparr>SETATTR3args_Object := ex_fh, SETATTR3args_New_attributes :=
     (SETATTR3args_New_attributes zero_SETATTR3args)\<lparr>Sattr3_Size := \<lparr>Set_size3_Set_it = True, Set_size3_Size = n\<rparr>\<rparr>\<rparr>"

theorem simple_setattr_refines_witness:
  "\<exists>lg reply nfs'. simple_MakeNfs ref_lib ex_disk = Inr (Some \<lparr>sn_t = lg, sn_l = []\<rparr>) \<and>
     simple_NFSPROC3_SETATTR ref_lib (ex_setattr_args 10) \<lparr>sn_t = lg, sn_l = []\<rparr> = Inr (reply, nfs') \<and>
     spec_resize 10 (sfile ref_lib (jrnl_Begin ref_lib lg) 2) = Some (sfile ref_lib (jrnl_Begin ref_lib (sn_t nfs')) 2)"
proof (rule ex_server)
  fix lg
  assume m: "simple_MakeNfs ref_lib ex_disk = Inr (Some \<lparr>sn_t = lg, sn_l = []\<rparr>)" and inv: "simple_inv ref_lib (jrnl_Begin ref_lib lg)"
  obtain f where f: "spec_resize 10 (sfile ref_lib (jrnl_Begin ref_lib lg) 2) = Some f"
    by (cases "10 \<le> length (sfile ref_lib (jrnl_Begin ref_lib lg) 2)") (auto simp: spec_resize_def)
  show ?thesis
    using simple_setattr_refines [OF ref_gojournal, of "\<lparr>sn_t = lg, sn_l = []\<rparr>" "ex_setattr_args 10" 2 10] inv ex_fh_ino m f
    by (auto simp: ex_setattr_args_def)
qed

text \<open>C23: a size more than \<open>2 ^ 48\<close> bytes over the file's crashes the server: \<^verbatim>\<open>SETATTR\<close> allocates the zero bytes
  before it checks the size against the block size.\<close>

theorem simple_setattr_panics:
  assumes G: "gojournal G on used arange held" and inv: "simple_inv G (jrnl_Begin G (sn_t nfs))"
    and fh: "simple_fh2ino G (SETATTR3args_Object args) = Inr inum" and v: "simple_validInum G inum"
    and h: "inum \<notin> held (sn_l nfs)"
    and set: "Set_size3_Set_it (Sattr3_Size (SETATTR3args_New_attributes args))"
    and n: "n = Set_size3_Size (Sattr3_Size (SETATTR3args_New_attributes args))"
      "length (sfile G (jrnl_Begin G (sn_t nfs)) inum) + 2 ^ 48 < unat n"
  shows "simple_NFSPROC3_SETATTR G args nfs = Inl (Panic ''makeslice: len out of range'')"
proof -
  have "lockmap_lib G held" using G by (simp add: gojournal_def)
  then obtain l where "Acquire G (sn_l nfs) inum = Some l" using lockmap_lib.acquire_free [where G = G and held = held and i = inum and lm = "sn_l nfs"] h by blast
  then show ?thesis using gojournal.simple_SETATTR_huge [OF G inv v set n] fh v
    by (simp add: simple_NFSPROC3_SETATTR_def simple_locked_def simple_SETATTR_internal_def)
qed

theorem simple_setattr_panics_witness:
  "\<exists>lg. simple_MakeNfs ref_lib ex_disk = Inr (Some \<lparr>sn_t = lg, sn_l = []\<rparr>) \<and>
     simple_NFSPROC3_SETATTR ref_lib (ex_setattr_args (2 ^ 60)) \<lparr>sn_t = lg, sn_l = []\<rparr> =
       Inl (Panic ''makeslice: len out of range'')"
proof (rule ex_server)
  fix lg
  assume m: "simple_MakeNfs ref_lib ex_disk = Inr (Some \<lparr>sn_t = lg, sn_l = []\<rparr>)" and inv: "simple_inv ref_lib (jrnl_Begin ref_lib lg)"
  have "sino_ok ref_lib (jrnl_Begin ref_lib lg) 2" using inv ex_fh_ino by (simp add: simple_inv_def)
  then have "length (sfile ref_lib (jrnl_Begin ref_lib lg) 2) \<le> 4096" by (rule ref.sino_okE) simp
  then show ?thesis
    using simple_setattr_panics [OF ref_gojournal, of "\<lparr>sn_t = lg, sn_l = []\<rparr>" "ex_setattr_args (2 ^ 60)" 2 "2 ^ 60"] inv ex_fh_ino m
    by (auto simp: ex_setattr_args_def)
qed

end
