(* ===== verification/FileOps.thy ===== *)
theory FileOps
  imports FileData
begin

text \<open>
  The properties of reading and writing files: what \<^const>\<open>Read\<close> and \<^const>\<open>Write\<close> return and do to
  the contents of the file, to the contents of other files and to the inode on disk.
\<close>

context gojournal
begin

lemma MaxFileSize_val: "MaxFileSize G = 1073774592"
  by (simp add: MaxFileSize_def numeral_2_eq_2)

lemma file_inv_Size: "file_inv G used arange atxn (ip\<lparr>Size := s\<rparr>) = file_inv G used arange atxn ip"
  by (simp add: file_inv_def)

lemma Write_ok:
  assumes inv: "file_inv G used arange atxn ip" and mx: "unat offset + unat count \<le> unat (MaxFileSize G)"
    and len: "unat count \<le> length data"
  shows "\<exists>cnt ok ip' atxn'. Write G offset count data ip atxn = Inr (cnt, ok, ip', atxn') \<and>
         unat cnt \<le> unat count \<and> (ok \<longleftrightarrow> 0 < unat cnt \<or> count = 0) \<and>
         file_step G used arange ip atxn (ip'\<lparr>Size := Size ip\<rparr>) atxn' \<and>
         unat (Size ip') = (if 0 < unat cnt then max (unat (Size ip)) (unat offset + unat cnt) else unat (Size ip)) \<and>
         (\<forall>i < MAXBYTES. fbyte G (Op atxn') (blks ip') i =
            (if unat offset \<le> i \<and> i < unat offset + unat cnt then data ! (i - unat offset)
             else fbyte G (Op atxn) (blks ip) i)) \<and>
         (unat cnt < unat count \<longrightarrow> exhausted used arange atxn' \<and>
            fwalk G (Op atxn') (blks ip') ((unat offset + unat cnt) div 4096) = 0) \<and>
         (\<forall>i. unat offset \<le> i \<and> i < unat offset + unat cnt \<longrightarrow> fwalk G (Op atxn') (blks ip') (i div 4096) \<noteq> 0) \<and>
         (0 < unat cnt \<longrightarrow> Decode G (inode_buf G (at_Super atxn') (Op atxn') (Inum ip')) (Inum ip') =
            Inr (ip'\<lparr>inode_Dcache := None\<rparr>))"
proof -
  have nw: "unat (offset + count) = unat offset + unat count" and le: "\<not> offset + count > MaxFileSize G"
    using mx by (simp_all add: word_less_nat_alt MaxFileSize_val nowrap)
  have "write_spec (unat offset) (unat count) data 0 False ip atxn
      (write_loop G (Suc (unat count)) (offset div 4096) count data offset 0 False ip atxn)"
    by (rule write_loop_ok [OF inv]) (use mx len in \<open>simp_all add: MaxFileSize_val\<close>)
  then obtain m ok alloc ip1 atxn1 where
      r: "write_loop G (Suc (unat count)) (offset div 4096) count data offset 0 False ip atxn =
            Inr (of_nat m, ok, alloc, ip1, atxn1)"
    and m: "m \<le> unat count" "ok \<longleftrightarrow> m = unat count" "alloc \<longrightarrow> 0 < m"
    and st: "file_step G used arange ip atxn ip1 atxn1"
    and bt: "\<forall>i < MAXBYTES. fbyte G (Op atxn1) (blks ip1) i =
        (if unat offset \<le> i \<and> i < unat offset + m then data ! (i - unat offset) else fbyte G (Op atxn) (blks ip) i)"
    and ex: "m < unat count \<longrightarrow> exhausted used arange atxn1 \<and> fwalk G (Op atxn1) (blks ip1) ((unat offset + m) div 4096) = 0"
    and nh: "\<forall>i. unat offset \<le> i \<and> i < unat offset + m \<longrightarrow> fwalk G (Op atxn1) (blks ip1) (i div 4096) \<noteq> 0"
    by (auto simp: write_spec_def)
  have um: "unat (of_nat m :: u64) = m" using m(1) unat_lt64 [of count] by (simp add: nowrap)
  have usz: "unat (offset + of_nat m) = unat offset + m" using nw m(1) um unat_lt64 [of "offset + count"] by (simp add: nowrap)
  note sz1 = file_step_fields(1) [OF st]
  show ?thesis
  proof (cases "m = 0")
    case True
    then have "Write G offset count data ip atxn = Inr (0, ok, ip1, atxn1)"
      using le r m by (simp add: Write_def)
    then show ?thesis using True m st bt ex sz1
      by (intro exI [of _ 0] exI [of _ ok] exI [of _ ip1] exI [of _ atxn1]) (auto simp: unat_eq_0 simp flip: sz1)
  next
    case False
    let ?ip = "if offset + of_nat m > Size ip1 then ip1\<lparr>Size := offset + of_nat m\<rparr> else ip1"
    have ipf: "blks ?ip = blks ip1" "?ip\<lparr>Size := Size ip\<rparr> = ip1" using sz1 by (auto simp flip: sz1)
    have "file_inv G used arange atxn1 ?ip" using file_step_inv [OF st] by (simp add: file_inv_Size)
    then show ?thesis
    proof (rule WriteInode_step)
      fix op'
      let ?a = "atxn1\<lparr>Op := op'\<rparr>"
      assume wi: "WriteInode G ?ip atxn1 = Inr ?a"
        and same: "\<And>i. i < MAXBYTES \<Longrightarrow> fbyte G op' (blks ?ip) i = fbyte G (Op atxn1) (blks ?ip) i"
        and bs: "\<And>x. valid_bnum atxn1 x \<Longrightarrow> blk G op' x = blk G (Op atxn1) x"
        and d: "Decode G (inode_buf G (at_Super atxn1) op' (Inum ?ip)) (Inum ?ip) = Inr (?ip\<lparr>inode_Dcache := None\<rparr>)"
      note st2 = file_op_frame(1) [OF file_step_inv [OF st] bs]
      have W: "Write G offset count data ip atxn = Inr (of_nat m, True, ?ip, ?a)"
        using le r False um wi by (simp add: Write_def Let_def word_less_nat_alt)
      have "fwalk G op' (blks ip1) (i div 4096) \<noteq> 0" if "unat offset \<le> i" "i < unat offset + m" for i
      proof -
        have "i div 4096 < MAXBLKS" using that m(1) mx by (simp add: MaxFileSize_val less_mult_imp_div_less)
        then show ?thesis using st2 nh that by (auto simp: file_step_def)
      qed
      moreover have "fwalk G op' (blks ip1) ((unat offset + m) div 4096) = 0" if "m < unat count"
      proof -
        have "(unat offset + m) div 4096 < MAXBLKS" using that mx by (simp add: MaxFileSize_val less_mult_imp_div_less)
        from file_op_frame(3) [OF file_step_inv [OF st] bs this] show ?thesis using ex that by simp
      qed
      moreover have "unat (Size ?ip) = max (unat (Size ip)) (unat offset + m)"
        using sz1 usz by (simp add: word_less_nat_alt max_def)
      moreover have "file_step G used arange ip atxn (?ip\<lparr>Size := Size ip\<rparr>) ?a"
        using ipf(2) file_step_trans [OF st st2] by simp
      ultimately show ?thesis
        using W False um m bt same ex d ipf(1)
        by (intro exI [of _ "of_nat m"] exI [of _ True] exI [of _ ?ip] exI [of _ ?a]) (auto simp: exhausted_def)
    qed
  qed
qed

lemma other_file:
  assumes st: "file_step G used arange ip atxn ip' atxn'" and inv2: "file_inv G used arange atxn ip2"
    and dj: "ino_blocks G (Op atxn) (blks ip2) \<inter> ino_blocks G (Op atxn) (blks ip) = {}"
  shows "file_inv G used arange atxn' ip2"
    and "ino_blocks G (Op atxn') (blks ip2) \<inter> ino_blocks G (Op atxn') (blks ip') = {}"
    and "i < MAXBYTES \<Longrightarrow> fbyte G (Op atxn') (blks ip2) i = fbyte G (Op atxn) (blks ip2) i"
    and "j < MAXBLKS \<Longrightarrow> fwalk G (Op atxn') (blks ip2) j = fwalk G (Op atxn) (blks ip2) j"
proof -
  have v: "valid_bnum atxn x" "x \<in> used (Balloc atxn)" if "x \<in> ino_blocks G (Op atxn) (blks ip2)" for x
    using inv2 that by (auto simp: file_inv_def)
  have same: "blk G (Op atxn') x = blk G (Op atxn) x" if "x \<in> ino_blocks G (Op atxn) (blks ip2)" for x
    using that v [OF that] dj st by (auto simp: file_step_def)
  have s: "blk G (Op atxn') x = blk G (Op atxn) x" if "x \<in> ino_index G (Op atxn) (blks ip2)" for x
    using same ino_index_blocks [of G "Op atxn" "blks ip2"] that by blast
  note f = ino_frame [OF s]
  show "fwalk G (Op atxn') (blks ip2) j = fwalk G (Op atxn) (blks ip2) j" if "j < MAXBLKS" using f(4) [OF _ that] .
  show "ino_blocks G (Op atxn') (blks ip2) \<inter> ino_blocks G (Op atxn') (blks ip') = {}"
    using f(1) st v(2) dj by (auto simp: file_step_def)
  show "file_inv G used arange atxn' ip2"
    using file_step_inv [OF st] inv2 st f(1,3) by (auto simp: file_inv_def file_step_def valid_bnum_def)
  show "fbyte G (Op atxn') (blks ip2) i = fbyte G (Op atxn) (blks ip2) i" if "i < MAXBYTES"
  proof -
    have "i div 4096 < MAXBLKS" using that by (simp add: less_mult_imp_div_less)
    from f(4) [OF _ this] fwalk_in_ino [OF this, of G "Op atxn" "blks ip2"] show ?thesis
      using same by (auto simp: fbyte_def Let_def)
  qed
qed

end

section \<open>An example file system\<close>

text \<open>Two files of one block each on a disk of 2000 blocks, of which 1541 are in use.\<close>

definition ex_fs :: "(ref_disk, ref_op, bool list) AllocTxn" where
  "ex_fs = AllocTxn_Begin ref_lib ex_super (\<lambda>b i. if b = 1539 then 65 else 0)
             (replicate 1541 True @ replicate 459 False) []"

definition ex_file :: Inode where
  "ex_file = zero_Inode\<lparr>Inum := 2, Kind := NF3REG, Nlink := 1, Size := 5, blks := 1539 # replicate 9 0\<rparr>"

definition ex_file2 :: Inode where
  "ex_file2 = zero_Inode\<lparr>Inum := 3, Kind := NF3REG, Nlink := 1, Size := 7, blks := 1540 # replicate 9 0\<rparr>"

lemma one_block:
  fixes b :: u64
  assumes "b \<noteq> 0"
  shows "ino_blocks G op (b # replicate 9 0) = {b}" "ino_ok G op (b # replicate 9 0)"
proof -
  have s: "slot_blocks G op (b # replicate 9 0) i = (if i = 0 then {b} else {})" if "i < 10" for i
    using assms that by (cases i) (simp_all add: slot_blocks_def lev_def)
  then show "ino_blocks G op (b # replicate 9 0) = {b}" by (auto simp: ino_blocks_def)
  have "tree_ok G op (lev i) ((b # replicate 9 0) ! i)" if "i < 10" for i
    using that by (cases i) (simp_all add: lev_def)
  then show "ino_ok G op (b # replicate 9 0)" using s by (simp add: ino_ok_def)
qed

lemma ex_fs_fields:
  "at_Super ex_fs = ex_super" "DataStart ex_super = 1539" "MaxBnum ex_super = 2000"
  "Balloc ex_fs = replicate 1541 True @ replicate 459 False"
  by (simp_all add: ex_fs_def AllocTxn_Begin_def ex_super_def MkFsSuper_def ref_lib_def Let_def DataStart_def
      InodeStart_def BitmapInodeStart_def BitmapBlockStart_def MaxBnum_def)

lemma ex_fs_used: "ref_used (Balloc ex_fs) = {n. unat n < 1541}"
  by (auto simp: ref_used_def ex_fs_fields nth_append)

lemma ex_fs_blk: "blk ref_lib (Op ex_fs) b = replicate 4096 (if b = 1539 then 65 else 0)"
  by (simp add: ex_fs_def AllocTxn_Begin_def blk_def ref_lib_def ref_read_def Block2addr_def map_replicate_const)

lemma ex_fs_inv: "balloc_inv ref_lib ref_used ref_range ex_fs"
proof -
  have "valid_bnum ex_fs n \<and> n \<noteq> 1539" if "n \<in> ref_range (Balloc ex_fs)" "n \<notin> ref_used (Balloc ex_fs)" for n
    using that unfolding ex_fs_used by (auto simp: ref_range_def ex_fs_fields valid_bnum_def word_le_nat_alt word_less_nat_alt)
  then show ?thesis by (simp add: balloc_inv_def ex_fs_blk)
qed

lemma ex_file_inv:
  "file_inv ref_lib ref_used ref_range ex_fs ex_file" "file_inv ref_lib ref_used ref_range ex_fs ex_file2"
proof -
  have n: "NInode ref_lib ex_super = 32768" by (rule common_lib.super_wf_layout(5) [OF ref_common ex_super_wf])
  have v: "valid_bnum ex_fs 1539" "valid_bnum ex_fs 1540" by (simp_all add: valid_bnum_def ex_fs_fields)
  have u: "{1539} \<subseteq> ref_used (Balloc ex_fs)" "{1540} \<subseteq> ref_used (Balloc ex_fs)" by (simp_all add: ex_fs_used)
  show "file_inv ref_lib ref_used ref_range ex_fs ex_file"
    using ex_super_wf n ex_fs_inv v u by (simp add: file_inv_def ex_file_def one_block ex_fs_fields(1) del: replicate.simps)
  show "file_inv ref_lib ref_used ref_range ex_fs ex_file2"
    using ex_super_wf n ex_fs_inv v u by (simp add: file_inv_def ex_file2_def one_block ex_fs_fields(1) del: replicate.simps)
qed

section \<open>Properties\<close>

text \<open>C5: reading. For a well-formed file, \<^const>\<open>Read\<close> returns without a fault; the data is the part of the
  contents of the file that was asked for, \<^verbatim>\<open>eof\<close> is reported exactly when the offset is at or after the
  end, and the contents of the file are unchanged (also where holes were filled). The data is
  shorter than the request only at the end of the file, or at a hole when no block is free.
  For an offset before the end, the end of the request must be below \<open>2 ^ 64\<close>, which it always is for the 32-bit count of \<^verbatim>\<open>READ\<close>: the test
  \<^verbatim>\<open>offset+count >= ip.Size\<close> wraps around, and a larger count would not be cut to the end of the file.\<close>

theorem read_returns_contents:
  assumes "gojournal G on used arange held" and "file_inv G used arange atxn ip"
    and "unat (Size ip) \<le> MAXBYTES" and "offset < Size ip \<Longrightarrow> unat offset + unat n < 2 ^ 64"
  shows "\<exists>m ip' atxn'. Read G offset n ip atxn =
           Inr (take m (drop (unat offset) (contents G (Op atxn) ip)), unat (Size ip) \<le> unat offset, ip', atxn') \<and>
         m \<le> unat n \<and> file_step G used arange ip atxn ip' atxn' \<and>
         contents G (Op atxn') ip' = contents G (Op atxn) ip \<and>
         (m < unat n \<and> unat offset + m < unat (Size ip) \<longrightarrow>
            exhausted used arange atxn' \<and> fwalk G (Op atxn) (blks ip) ((unat offset + m) div 4096) = 0)"
  by (rule gojournal.Read_ok [OF assms])

theorem read_returns_contents_witness:
  "\<exists>m ip' atxn'. Read ref_lib 1 3 ex_file ex_fs =
     Inr (take m (drop 1 (contents ref_lib (Op ex_fs) ex_file)), False, ip', atxn') \<and> m \<le> 3"
  using read_returns_contents [OF ref_gojournal ex_file_inv(1), of 1 3] by (auto simp: ex_file_def)

text \<open>C4: writing. For a well-formed file and a request within the maximum file size, \<^const>\<open>Write\<close> returns
  without a fault after writing the first \<open>cnt\<close> bytes of the data; all of them unless no block is
  free. Exactly the bytes at \<open>offset .. offset + cnt\<close> change, the size becomes the larger of the old
  size and the end of the write, the inode on disk is the one in memory, and the file stays
  well formed and disjoint from everything else in use.\<close>

theorem write_updates_range:
  assumes "gojournal G on used arange held" and "file_inv G used arange atxn ip"
    and "unat offset + unat count \<le> unat (MaxFileSize G)" and "unat count \<le> length data"
  shows "\<exists>cnt ok ip' atxn'. Write G offset count data ip atxn = Inr (cnt, ok, ip', atxn') \<and>
         unat cnt \<le> unat count \<and> (ok \<longleftrightarrow> 0 < unat cnt \<or> count = 0) \<and>
         file_step G used arange ip atxn (ip'\<lparr>Size := Size ip\<rparr>) atxn' \<and>
         unat (Size ip') = (if 0 < unat cnt then max (unat (Size ip)) (unat offset + unat cnt) else unat (Size ip)) \<and>
         (\<forall>i < MAXBYTES. fbyte G (Op atxn') (blks ip') i =
            (if unat offset \<le> i \<and> i < unat offset + unat cnt then data ! (i - unat offset)
             else fbyte G (Op atxn) (blks ip) i)) \<and>
         (unat cnt < unat count \<longrightarrow> exhausted used arange atxn' \<and>
            fwalk G (Op atxn') (blks ip') ((unat offset + unat cnt) div 4096) = 0) \<and>
         (\<forall>i. unat offset \<le> i \<and> i < unat offset + unat cnt \<longrightarrow> fwalk G (Op atxn') (blks ip') (i div 4096) \<noteq> 0) \<and>
         (0 < unat cnt \<longrightarrow> Decode G (inode_buf G (at_Super atxn') (Op atxn') (Inum ip')) (Inum ip') =
            Inr (ip'\<lparr>inode_Dcache := None\<rparr>))"
  by (rule gojournal.Write_ok [OF assms])

theorem write_updates_range_witness:
  "\<exists>cnt ok ip' atxn'. Write ref_lib 4 3 [7, 8, 9] ex_file ex_fs = Inr (cnt, ok, ip', atxn') \<and> unat cnt \<le> 3 \<and>
     fbyte ref_lib (Op atxn') (blks ip') 0 = fbyte ref_lib (Op ex_fs) (blks ex_file) 0"
  using write_updates_range [OF ref_gojournal ex_file_inv(1), of 4 3 "[7, 8, 9]"]
  by (simp add: ref.MaxFileSize_val) (elim exE conjE, intro exI conjI, assumption, simp, simp)

text \<open>A read of the range just written returns the data written, whatever the file was before.\<close>

theorem read_after_write:
  assumes G: "gojournal G on used arange held" and inv: "file_inv G used arange atxn ip"
    and sz: "unat (Size ip) \<le> MAXBYTES" and mx: "unat offset + unat count \<le> unat (MaxFileSize G)"
    and len: "unat count \<le> length data"
    and w: "Write G offset count data ip atxn = Inr (cnt, True, ip', atxn')" and cnt: "0 < unat cnt"
  shows "\<exists>ip'' atxn''. Read G offset cnt ip' atxn' = Inr (take (unat cnt) data, False, ip'', atxn'')"
proof -
  have max: "unat (MaxFileSize G) = 1073774592" using gojournal.MaxFileSize_val [OF G] by simp
  have st: "file_step G used arange ip atxn (ip'\<lparr>Size := Size ip\<rparr>) atxn'" and c: "unat cnt \<le> unat count"
    and s: "unat (Size ip') = max (unat (Size ip)) (unat offset + unat cnt)"
    and bt: "\<forall>i < MAXBYTES. fbyte G (Op atxn') (blks ip') i =
            (if unat offset \<le> i \<and> i < unat offset + unat cnt then data ! (i - unat offset)
             else fbyte G (Op atxn) (blks ip) i)"
    and nh: "\<forall>i. unat offset \<le> i \<and> i < unat offset + unat cnt \<longrightarrow> fwalk G (Op atxn') (blks ip') (i div 4096) \<noteq> 0"
    using gojournal.Write_ok [OF G inv mx len] w cnt by auto
  have inv': "file_inv G used arange atxn' ip'"
    using file_step_inv [OF st] by (simp add: file_inv_def)
  have "unat (Size ip') \<le> MAXBYTES" "unat offset + unat cnt < 2 ^ 64" using s sz mx max c by auto
  from gojournal.Read_ok [OF G inv' this] obtain m ip'' atxn'' where
      r: "Read G offset cnt ip' atxn' =
           Inr (take m (drop (unat offset) (contents G (Op atxn') ip')), unat (Size ip') \<le> unat offset, ip'', atxn'')"
    and m: "m \<le> unat cnt"
    and ex: "m < unat cnt \<and> unat offset + m < unat (Size ip') \<longrightarrow> fwalk G (Op atxn') (blks ip') ((unat offset + m) div 4096) = 0"
    by blast
  have "m = unat cnt"
  proof (rule ccontr)
    assume "m \<noteq> unat cnt"
    then have "m < unat cnt" "unat offset + m < unat (Size ip')" using m s by auto
    then show False using ex nh by simp
  qed
  moreover have "take (unat cnt) (drop (unat offset) (contents G (Op atxn') ip')) = take (unat cnt) data"
  proof -
    have "take (unat cnt) (drop (unat offset) (contents G (Op atxn') ip')) = frange G (Op atxn') (blks ip') (unat offset) (unat cnt)"
      by (rule take_drop_contents) (simp add: s)
    also have "\<dots> = take (unat cnt) data"
      using bt mx max c len by (intro nth_equalityI) (auto simp: frange_def)
    finally show ?thesis .
  qed
  moreover have "\<not> unat (Size ip') \<le> unat offset" using s cnt by simp
  ultimately show ?thesis using r by auto
qed

lemma ex_write: "\<exists>ip' atxn'. Write ref_lib 4 3 [7, 8, 9] ex_file ex_fs = Inr (3, True, ip', atxn')"
proof -
  have v: "valid_bnum ex_fs 1539" by (simp add: valid_bnum_def ex_fs_fields)
  have bm: "bmap ref_lib 0 ex_file ex_fs = Inr (1539, False, ex_file, ex_fs)"
    by (simp add: bmap_def ex_file_def slice_get_def)
  obtain d where l: "write_loop ref_lib (Suc 3) 0 3 [7, 8, 9] 4 0 False ex_file ex_fs =
      Inr (3, True, False, ex_file, StoreBlock ref_lib 1539 d ex_fs)"
    using v by (simp add: write_loop.simps bm Let_def ReadBlock_valid copy_in_def slice_drop_def)
  have "inode_wf (ex_file\<lparr>Size := 7\<rparr>)" by (simp add: inode_wf_def ex_file_def)
  then obtain a' where "WriteInode ref_lib (ex_file\<lparr>Size := 7\<rparr>) (StoreBlock ref_lib 1539 d ex_fs) = Inr a'"
    using ref.Encode_total common_lib.super_wf_layout(5) [OF ref_common ex_super_wf]
    by (fastforce simp: WriteInode_def ex_fs_fields(1) ex_file_def)
  with l show ?thesis by (simp add: Write_def ref.MaxFileSize_val Let_def ex_file_def)
qed

theorem read_after_write_witness:
  "\<exists>ip' atxn' ip'' atxn''. Write ref_lib 4 3 [7, 8, 9] ex_file ex_fs = Inr (3, True, ip', atxn') \<and>
     Read ref_lib 4 3 ip' atxn' = Inr ([7, 8, 9], False, ip'', atxn'')"
proof -
  obtain ip' atxn' where w: "Write ref_lib 4 3 [7, 8, 9] ex_file ex_fs = Inr (3, True, ip', atxn')"
    using ex_write by blast
  from read_after_write [OF ref_gojournal ex_file_inv(1) _ _ _ w] show ?thesis
    using w by (auto simp: ex_file_def ref.MaxFileSize_val)
qed

text \<open>C15: files do not interfere. If two well-formed files share no block, a write to one leaves the other
  well formed with the same contents, and the two still share no block.\<close>

theorem write_other_file:
  assumes G: "gojournal G on used arange held" and inv: "file_inv G used arange atxn ip"
    and inv2: "file_inv G used arange atxn ip2" and sz: "unat (Size ip2) \<le> MAXBYTES"
    and dj: "ino_blocks G (Op atxn) (blks ip2) \<inter> ino_blocks G (Op atxn) (blks ip) = {}"
    and mx: "unat offset + unat count \<le> unat (MaxFileSize G)" and len: "unat count \<le> length data"
  shows "\<exists>cnt ok ip' atxn'. Write G offset count data ip atxn = Inr (cnt, ok, ip', atxn') \<and>
           file_inv G used arange atxn' ip2 \<and> contents G (Op atxn') ip2 = contents G (Op atxn) ip2 \<and>
           ino_blocks G (Op atxn') (blks ip2) \<inter> ino_blocks G (Op atxn') (blks ip') = {}"
proof -
  obtain cnt ok ip' atxn' where w: "Write G offset count data ip atxn = Inr (cnt, ok, ip', atxn')"
    and st: "file_step G used arange ip atxn (ip'\<lparr>Size := Size ip\<rparr>) atxn'"
    using gojournal.Write_ok [OF G inv mx len] by blast
  note o = gojournal.other_file [OF G st inv2 dj]
  have "contents G (Op atxn') ip2 = contents G (Op atxn) ip2" using o(3) sz by (intro contents_cong) auto
  then show ?thesis using w o(1,2) by auto
qed

theorem write_other_file_witness:
  "\<exists>cnt ok ip' atxn'. Write ref_lib 4 3 [7, 8, 9] ex_file ex_fs = Inr (cnt, ok, ip', atxn') \<and>
     contents ref_lib (Op atxn') ex_file2 = contents ref_lib (Op ex_fs) ex_file2"
proof -
  have "ino_blocks ref_lib (Op ex_fs) (blks ex_file2) \<inter> ino_blocks ref_lib (Op ex_fs) (blks ex_file) = {}"
    by (simp add: ex_file_def ex_file2_def one_block del: replicate.simps)
  from write_other_file [OF ref_gojournal ex_file_inv _ this, of 4 3 "[7, 8, 9]"] show ?thesis
    by (auto simp: ex_file2_def ref.MaxFileSize_val)
qed

end
