(* ===== verification/Formats.thy ===== *)
theory Formats
  imports Fh FileOps
begin

text \<open>
  The formats of the server: where an inode is on disk (\<^verbatim>\<open>super/super.go\<close>), how it is encoded there
  (\<^verbatim>\<open>inode/inode.go\<close>), and file handles on the wire (\<^verbatim>\<open>fh/nfs_fh.go\<close>).
\<close>

text \<open>Inode addresses. On a disk of a sensible size every inode number below \<^verbatim>\<open>NInode\<close> has a place of its own: its
  128 bytes are inside one block of the inode region, which is after the bitmaps and before the data
  blocks, and the addresses of two inodes are equal only if the inodes are.\<close>

theorem inode_addresses:
  assumes G: "gojournal G on used arange held" and wf: "super_wf G fs" and i: "i < NInode G fs" and j: "j < NInode G fs"
  shows "InodeStart fs \<le> Blkno (Inum2Addr G fs i) \<and> Blkno (Inum2Addr G fs i) < DataStart fs \<and>
     unat (Off (Inum2Addr G fs i)) + 1024 \<le> 32768 \<and> 1024 dvd unat (Off (Inum2Addr G fs i)) \<and>
     (Inum2Addr G fs i = Inum2Addr G fs j \<longleftrightarrow> i = j)"
proof -
  have c: "common_lib G" using G by (simp add: gojournal_def)
  have "unat (Off (Inum2Addr G fs i)) = unat i mod 32 * 1024" by (rule common_lib.Inum2Addr_block(2) [OF c wf i])
  moreover have "unat i mod 32 < 32" by simp
  then have "unat i mod 32 * 1024 + 1024 \<le> 32768" by linarith
  ultimately show ?thesis
    using common_lib.Inum2Addr_region [OF c wf i] common_lib.Inum2Addr_inj [OF c wf i j] by auto
qed

theorem inode_addresses_witness:
  "super_wf ref_lib ex_super \<and> Inum2Addr ref_lib ex_super 2 \<noteq> Inum2Addr ref_lib ex_super 3 \<and>
     Blkno (Inum2Addr ref_lib ex_super 2) < DataStart ex_super"
proof -
  have n: "NInode ref_lib ex_super = 32768" by (rule common_lib.super_wf_layout(5) [OF ref_common ex_super_wf])
  show ?thesis using inode_addresses [OF ref_gojournal ex_super_wf, of 2 3] n ex_super_wf by simp
qed

text \<open>C37: an inode that is written can be read again. \<^verbatim>\<open>WriteInode\<close> of an inode with a valid number does not panic;
  decoding the inode's place on disk then gives the inode back (except for its name cache, which is
  not stored), and every other inode and every data block is as it was.\<close>

theorem write_inode_roundtrip:
  assumes G: "gojournal G on used arange held" and wf: "super_wf G (at_Super atxn)" and i: "Inum ip < NInode G (at_Super atxn)"
    and b: "length (blks ip) = 10"
  shows "\<exists>op'. WriteInode G ip atxn = Inr (atxn\<lparr>Op := op'\<rparr>) \<and>
     Decode G (inode_buf G (at_Super atxn) op' (Inum ip)) (Inum ip) = Inr (ip\<lparr>inode_Dcache := None\<rparr>) \<and>
     (\<forall>j. j < NInode G (at_Super atxn) \<and> j \<noteq> Inum ip \<longrightarrow>
        inode_buf G (at_Super atxn) op' j = inode_buf G (at_Super atxn) (Op atxn) j) \<and>
     (\<forall>x. valid_bnum atxn x \<longrightarrow> blk G op' x = blk G (Op atxn) x)"
proof -
  have "inode_wf ip" using b by (simp add: inode_wf_def)
  from G wf i this show ?thesis by (rule gojournal.WriteInode_ok) blast
qed

theorem write_inode_roundtrip_witness:
  "\<exists>op'. WriteInode ref_lib ex_file ex_fs = Inr (ex_fs\<lparr>Op := op'\<rparr>) \<and>
     Decode ref_lib (inode_buf ref_lib ex_super op' 2) 2 = Inr ex_file"
proof -
  have n: "NInode ref_lib ex_super = 32768" by (rule common_lib.super_wf_layout(5) [OF ref_common ex_super_wf])
  have e: "Inum ex_file = 2" "length (blks ex_file) = 10" "ex_file\<lparr>inode_Dcache := None\<rparr> = ex_file"
    by (simp_all add: ex_file_def zero_Inode_def)
  from write_inode_roundtrip [OF ref_gojournal, of ex_fs ex_file] ex_super_wf n e show ?thesis
    by (auto simp: ex_fs_fields)
qed

context gojournal
begin

lemma fh_ok: "\<exists>h. MakeFh3 G x = Inr h \<and> MakeFh G h = Inr x" "MakeFh3 G x = MakeFh3 G y \<Longrightarrow> x = y"
  using fh.decode_encode [of x] fh.encode_inj [of x y] by blast+

end

text \<open>File handles round trip. Every handle can be encoded, decoding gives it back, and the encoding of two handles is
  equal, as \<^verbatim>\<open>Equal\<close> compares them, only if inode number and generation are.\<close>

theorem fh_roundtrip:
  assumes G: "gojournal G on used arange held" and eq: "\<And>a b. BytesEqual G a b \<longleftrightarrow> a = b"
  shows "\<exists>hx hy. MakeFh3 G x = Inr hx \<and> MakeFh3 G y = Inr hy \<and> MakeFh G hx = Inr x \<and> (fh_Equal G hx hy \<longleftrightarrow> x = y)"
proof -
  obtain hx hy where h: "MakeFh3 G x = Inr hx" "MakeFh G hx = Inr x" "MakeFh3 G y = Inr hy" "MakeFh G hy = Inr y"
    using gojournal.fh_ok(1) [OF G] by metis
  have "Nfs_fh3_Data hx = Nfs_fh3_Data hy \<longleftrightarrow> hx = hy" by (cases hx; cases hy) simp
  moreover have "hx = hy \<longleftrightarrow> x = y" using h by auto
  ultimately show ?thesis using h eq by (auto simp: fh_Equal_def)
qed

theorem fh_roundtrip_witness:
  "\<exists>hx hy. MakeFh3 ref_lib \<lparr>Ino = 5, fh_Gen = 3\<rparr> = Inr hx \<and> MakeFh3 ref_lib \<lparr>Ino = 5, fh_Gen = 4\<rparr> = Inr hy \<and>
     \<not> fh_Equal ref_lib hx hy"
proof -
  have "BytesEqual ref_lib a b \<longleftrightarrow> a = b" for a b by (simp add: ref_lib_def)
  from fh_roundtrip [OF ref_gojournal this, of "\<lparr>Ino = 5, fh_Gen = 3\<rparr>" "\<lparr>Ino = 5, fh_Gen = 4\<rparr>"] show ?thesis by auto
qed

end
