(* ===== verification/FsTxn.thy ===== *)
theory FsTxn
  imports Inode Cache "HOL-Library.AList"
begin

text \<open>
  \<^verbatim>\<open>fstxn/fstxn.go\<close>, \<^verbatim>\<open>fstxn/fsstate.go\<close> and \<^verbatim>\<open>fstxn/commit.go\<close>: the state of the file system and
  transactions with locked, cached inodes. Inodes are shared by pointer: \<open>iobj\<close> is the store of
  inode objects and \<open>inext\<close> the next unused pointer; the inode cache and \<^verbatim>\<open>op.inodes\<close> hold
  pointers into it. The allocators, shared by pointer too, are in the transaction while it runs
  and are put back when it ends. A transaction runs without interruption by another one, so a
  lock that cannot be acquired is held by the transaction itself.
\<close>

type_synonym iref = nat

abbreviation ICACHESZ :: u64 where
  "ICACHESZ \<equiv> 100"

record ('log, 'alc, 'lm, 'd) FsState =
  fs_Super :: "'d FsSuper"
  Txn :: 'log
  Icache :: "iref Cache"
  Lockmap :: 'lm
  fs_Balloc :: 'alc
  fs_Ialloc :: 'alc
  iobj :: "iref \<Rightarrow> Inode"
  inext :: iref

definition readBitmap :: "('log, 'op, 'alc, 'lm, 'd) golib \<Rightarrow> 'd FsSuper \<Rightarrow> u64 \<Rightarrow> u64 \<Rightarrow> byte list" where
  "readBitmap G super start len =
     concat (map (\<lambda>i. disk_Read G (Disk super) (start + of_nat i)) [0..<unat len])"

definition MkFsState :: "('log, 'op, 'alc, 'lm, 'd) golib \<Rightarrow> 'd FsSuper \<Rightarrow> 'log \<Rightarrow> ('log, 'alc, 'lm, 'd) FsState" where
  "MkFsState G super log =
     (let balloc = MkAlloc G (readBitmap G super (BitmapBlockStart super) (NBlockBitmap super));
          ialloc = MkAlloc G (readBitmap G super (BitmapInodeStart super) (NInodeBitmap super));
          icache = MkCache ICACHESZ
      in \<lparr>fs_Super = super, Txn = log, Icache = icache, Lockmap = MkLockMap G, fs_Balloc = balloc,
          fs_Ialloc = ialloc, iobj = (\<lambda>_. zero_Inode), inext = 0\<rparr>)"

record ('log, 'op, 'alc, 'lm, 'd) FsTxn =
  Fs :: "('log, 'alc, 'lm, 'd) FsState"
  Atxn :: "('d, 'op, 'alc) AllocTxn"
  inodes :: "(u64 \<times> iref) list"

definition FsTxn_Begin ::
    "('log, 'op, 'alc, 'lm, 'd) golib \<Rightarrow> ('log, 'alc, 'lm, 'd) FsState \<Rightarrow> ('log, 'op, 'alc, 'lm, 'd) FsTxn" where
  "FsTxn_Begin G fsstate =
     \<lparr>Fs = fsstate,
      Atxn = AllocTxn_Begin G (fs_Super fsstate) (Txn fsstate) (fs_Balloc fsstate) (fs_Ialloc fsstate),
      inodes = []\<rparr>"

text \<open>The inode object behind a pointer, and a store to it.\<close>

definition inode_at :: "('log, 'op, 'alc, 'lm, 'd) FsTxn \<Rightarrow> iref \<Rightarrow> Inode" where
  "inode_at op r = iobj (Fs op) r"

definition put_inode :: "iref \<Rightarrow> Inode \<Rightarrow> ('log, 'op, 'alc, 'lm, 'd) FsTxn \<Rightarrow> ('log, 'op, 'alc, 'lm, 'd) FsTxn" where
  "put_inode r ip op = op\<lparr>Fs := (Fs op)\<lparr>iobj := (iobj (Fs op))(r := ip)\<rparr>\<rparr>"

definition addInode :: "iref \<Rightarrow> ('log, 'op, 'alc, 'lm, 'd) FsTxn \<Rightarrow> ('log, 'op, 'alc, 'lm, 'd) FsTxn" where
  "addInode ip op = op\<lparr>inodes := AList.update (Inum (inode_at op ip)) ip (inodes op)\<rparr>"

definition lookupInode :: "u64 \<Rightarrow> ('log, 'op, 'alc, 'lm, 'd) FsTxn \<Rightarrow> iref option" where
  "lookupInode inum op = map_of (inodes op) inum"

definition OwnInum :: "u64 \<Rightarrow> ('log, 'op, 'alc, 'lm, 'd) FsTxn \<Rightarrow> bool" where
  "OwnInum inum op = (map_of (inodes op) inum \<noteq> None)"

definition doneInode :: "iref \<Rightarrow> ('log, 'op, 'alc, 'lm, 'd) FsTxn \<Rightarrow> ('log, 'op, 'alc, 'lm, 'd) FsTxn" where
  "doneInode ip op = op\<lparr>inodes := AList.delete (Inum (inode_at op ip)) (inodes op)\<rparr>"

definition ReleaseInode ::
    "('log, 'op, 'alc, 'lm, 'd) golib \<Rightarrow> iref \<Rightarrow> ('log, 'op, 'alc, 'lm, 'd) FsTxn \<Rightarrow> ('log, 'op, 'alc, 'lm, 'd) FsTxn" where
  "ReleaseInode G ip op =
     (let inum = Inum (inode_at op ip);
          op = doneInode ip op
      in op\<lparr>Fs := (Fs op)\<lparr>Lockmap := Release G (Lockmap (Fs op)) inum\<rparr>\<rparr>)"

definition releaseInodes ::
    "('log, 'op, 'alc, 'lm, 'd) golib \<Rightarrow> ('log, 'op, 'alc, 'lm, 'd) FsTxn \<Rightarrow> ('log, 'op, 'alc, 'lm, 'd) FsTxn" where
  "releaseInodes G op = foldl (\<lambda>op (_, ip). ReleaseInode G ip op) op (inodes op)"

definition LockInode ::
    "('log, 'op, 'alc, 'lm, 'd) golib \<Rightarrow> u64 \<Rightarrow> ('log, 'op, 'alc, 'lm, 'd) FsTxn \<Rightarrow>
     (iref Cslot \<times> ('log, 'op, 'alc, 'lm, 'd) FsTxn) res" where
  "LockInode G inum op =
     (case Acquire G (Lockmap (Fs op)) inum of
        None \<Rightarrow> Inl Deadlock
      | Some lm \<Rightarrow>
          let op = op\<lparr>Fs := (Fs op)\<lparr>Lockmap := lm\<rparr>\<rparr>
          in bnd (LookupSlot inum (Icache (Fs op))) (\<lambda>(cslot, icache).
             Inr (cslot, op\<lparr>Fs := (Fs op)\<lparr>Icache := icache\<rparr>\<rparr>)))"

definition GetInodeLocked ::
    "('log, 'op, 'alc, 'lm, 'd) golib \<Rightarrow> u64 \<Rightarrow> ('log, 'op, 'alc, 'lm, 'd) FsTxn \<Rightarrow>
     (iref \<times> ('log, 'op, 'alc, 'lm, 'd) FsTxn) res" where
  "GetInodeLocked G inum op =
     bnd (LockInode G inum op) (\<lambda>(cslot, op).
     bnd (case Obj cslot of
            None \<Rightarrow>
              let addr = Inum2Addr G (fs_Super (Fs op)) inum;
                  buf = ReadBuf G (Op (Atxn op)) addr (INODESZ G * 8)
              in bnd (Decode G buf inum) (\<lambda>i.
                 let r = inext (Fs op);
                     op = put_inode r i op
                 in Inr (r, op\<lparr>Fs := (Fs op)\<lparr>inext := Suc r, Icache := set_slot inum r (Icache (Fs op))\<rparr>\<rparr>))
          | Some r \<Rightarrow> Inr (r, op)) (\<lambda>(ip, op).
     Inr (ip, addInode ip op)))"

definition GetInodeInumFree ::
    "('log, 'op, 'alc, 'lm, 'd) golib \<Rightarrow> u64 \<Rightarrow> ('log, 'op, 'alc, 'lm, 'd) FsTxn \<Rightarrow>
     (iref \<times> ('log, 'op, 'alc, 'lm, 'd) FsTxn) res" where
  "GetInodeInumFree G inum op = GetInodeLocked G inum op"

definition GetInodeInum ::
    "('log, 'op, 'alc, 'lm, 'd) golib \<Rightarrow> u64 \<Rightarrow> ('log, 'op, 'alc, 'lm, 'd) FsTxn \<Rightarrow>
     (iref option \<times> ('log, 'op, 'alc, 'lm, 'd) FsTxn) res" where
  "GetInodeInum G inum op =
     bnd (GetInodeInumFree G inum op) (\<lambda>(ip, op).
     if Kind (inode_at op ip) = NF3FREE then Inr (None, ReleaseInode G ip op)
     else if Nlink (inode_at op ip) = 0 then Inl (Panic ''getInodeInum'')
     else Inr (Some ip, op))"

definition GetInodeFh ::
    "('log, 'op, 'alc, 'lm, 'd) golib \<Rightarrow> Nfs_fh3 \<Rightarrow> ('log, 'op, 'alc, 'lm, 'd) FsTxn \<Rightarrow>
     (iref option \<times> ('log, 'op, 'alc, 'lm, 'd) FsTxn) res" where
  "GetInodeFh G fh3 op =
     bnd (MakeFh G fh3) (\<lambda>fh.
     bnd (GetInodeInum G (Ino fh) op) (\<lambda>(ip, op).
     case ip of
       None \<Rightarrow> Inr (None, op)
     | Some r \<Rightarrow>
         if Gen (inode_at op r) \<noteq> fh_Gen fh then Inr (None, ReleaseInode G r op)
         else Inr (Some r, op)))"

definition GetInodeUnlocked ::
    "u64 \<Rightarrow> ('log, 'op, 'alc, 'lm, 'd) FsTxn \<Rightarrow> iref res" where
  "GetInodeUnlocked inum op =
     (case lookupInode inum op of None \<Rightarrow> Inl (Panic ''GetInodeUnlocked'') | Some ip \<Rightarrow> Inr ip)"

text \<open>
  A call of a method of an inode that takes the transaction's allocation part, on the object
  behind a pointer: \<^verbatim>\<open>ip.Method(op.Atxn, ...)\<close>.
\<close>

definition on_inode ::
    "iref \<Rightarrow> (Inode \<Rightarrow> ('d, 'op, 'alc) AllocTxn \<Rightarrow> ('a \<times> Inode \<times> ('d, 'op, 'alc) AllocTxn) res) \<Rightarrow>
     ('log, 'op, 'alc, 'lm, 'd) FsTxn \<Rightarrow> ('a \<times> ('log, 'op, 'alc, 'lm, 'd) FsTxn) res" where
  "on_inode r f op =
     bnd (f (inode_at op r) (Atxn op)) (\<lambda>(x, ip, atxn).
     Inr (x, put_inode r ip (op\<lparr>Atxn := atxn\<rparr>)))"

definition ip_WriteInode ::
    "('log, 'op, 'alc, 'lm, 'd) golib \<Rightarrow> iref \<Rightarrow> ('log, 'op, 'alc, 'lm, 'd) FsTxn \<Rightarrow>
     ('log, 'op, 'alc, 'lm, 'd) FsTxn res" where
  "ip_WriteInode G r op =
     bnd (WriteInode G (inode_at op r) (Atxn op)) (\<lambda>atxn. Inr (op\<lparr>Atxn := atxn\<rparr>))"

definition ip_Read ::
    "('log, 'op, 'alc, 'lm, 'd) golib \<Rightarrow> u64 \<Rightarrow> u64 \<Rightarrow> iref \<Rightarrow> ('log, 'op, 'alc, 'lm, 'd) FsTxn \<Rightarrow>
     ((byte list \<times> bool) \<times> ('log, 'op, 'alc, 'lm, 'd) FsTxn) res" where
  "ip_Read G off n r op =
     on_inode r (\<lambda>ip atxn. bnd (Read G off n ip atxn) (\<lambda>(data, eof, ip, atxn). Inr ((data, eof), ip, atxn))) op"

definition ip_Write ::
    "('log, 'op, 'alc, 'lm, 'd) golib \<Rightarrow> u64 \<Rightarrow> u64 \<Rightarrow> byte list \<Rightarrow> iref \<Rightarrow> ('log, 'op, 'alc, 'lm, 'd) FsTxn \<Rightarrow>
     ((u64 \<times> bool) \<times> ('log, 'op, 'alc, 'lm, 'd) FsTxn) res" where
  "ip_Write G off n data r op =
     on_inode r (\<lambda>ip atxn. bnd (Write G off n data ip atxn) (\<lambda>(cnt, ok, ip, atxn). Inr ((cnt, ok), ip, atxn))) op"

definition AllocInode ::
    "('log, 'op, 'alc, 'lm, 'd) golib \<Rightarrow> Ftype3 \<Rightarrow> ('log, 'op, 'alc, 'lm, 'd) FsTxn \<Rightarrow>
     (iref option \<times> ('log, 'op, 'alc, 'lm, 'd) FsTxn) res" where
  "AllocInode G kind op =
     (let (inum, atxn) = AllocINum G (Atxn op);
          op = op\<lparr>Atxn := atxn\<rparr>
      in if inum = NULLINUM G then Inr (None, op)
         else bnd (GetInodeLocked G inum op) (\<lambda>(ip, op).
              if Kind (inode_at op ip) \<noteq> NF3FREE then Inl (Panic ''AllocInode'')
              else if \<not> IsShrinking G (inode_at op ip)
              then bnd (ip_WriteInode G ip (put_inode ip (InitInode G inum kind (inode_at op ip)) op)) (\<lambda>op.
                   Inr (Some ip, op))
              else Inr (Some ip, op)))"

section \<open>Commit and abort\<close>

definition preCommit ::
    "('log, 'op, 'alc, 'lm, 'd) golib \<Rightarrow> ('log, 'op, 'alc, 'lm, 'd) FsTxn \<Rightarrow> ('log, 'op, 'alc, 'lm, 'd) FsTxn" where
  "preCommit G op = op\<lparr>Atxn := PreCommit G (Atxn op)\<rparr>"

text \<open>The shared allocators, when the transaction is done with them.\<close>

definition put_allocs :: "('log, 'op, 'alc, 'lm, 'd) FsTxn \<Rightarrow> ('log, 'op, 'alc, 'lm, 'd) FsTxn" where
  "put_allocs op = op\<lparr>Fs := (Fs op)\<lparr>fs_Balloc := Balloc (Atxn op), fs_Ialloc := Ialloc (Atxn op)\<rparr>\<rparr>"

definition postCommit ::
    "('log, 'op, 'alc, 'lm, 'd) golib \<Rightarrow> ('log, 'op, 'alc, 'lm, 'd) FsTxn \<Rightarrow> ('log, 'op, 'alc, 'lm, 'd) FsTxn" where
  "postCommit G op =
     (let op = releaseInodes G op
      in put_allocs (op\<lparr>Atxn := PostCommit G (Atxn op)\<rparr>))"

definition commitWait ::
    "('log, 'op, 'alc, 'lm, 'd) golib \<Rightarrow> bool \<Rightarrow> ('log, 'op, 'alc, 'lm, 'd) FsTxn \<Rightarrow>
     bool \<times> ('log, 'op, 'alc, 'lm, 'd) FsTxn" where
  "commitWait G wait op =
     (let op = preCommit G op;
          (ok, log) = CommitWait G (Op (Atxn op)) wait (Txn (Fs op));
          op = op\<lparr>Fs := (Fs op)\<lparr>Txn := log\<rparr>\<rparr>
      in (ok, postCommit G op))"

definition Commit ::
    "('log, 'op, 'alc, 'lm, 'd) golib \<Rightarrow> ('log, 'op, 'alc, 'lm, 'd) FsTxn \<Rightarrow>
     bool \<times> ('log, 'op, 'alc, 'lm, 'd) FsTxn" where
  "Commit G op = commitWait G True op"

definition CommitData ::
    "('log, 'op, 'alc, 'lm, 'd) golib \<Rightarrow> ('log, 'op, 'alc, 'lm, 'd) FsTxn \<Rightarrow>
     bool \<times> ('log, 'op, 'alc, 'lm, 'd) FsTxn" where
  "CommitData G op = Commit G op"

definition CommitUnstable ::
    "('log, 'op, 'alc, 'lm, 'd) golib \<Rightarrow> ('log, 'op, 'alc, 'lm, 'd) FsTxn \<Rightarrow>
     bool \<times> ('log, 'op, 'alc, 'lm, 'd) FsTxn" where
  "CommitUnstable G op = commitWait G False op"

definition CommitFh ::
    "('log, 'op, 'alc, 'lm, 'd) golib \<Rightarrow> ('log, 'op, 'alc, 'lm, 'd) FsTxn \<Rightarrow>
     bool \<times> ('log, 'op, 'alc, 'lm, 'd) FsTxn" where
  "CommitFh G op =
     (let op = preCommit G op;
          (ok, log) = obj_Flush G (Txn (Fs op));
          op = op\<lparr>Fs := (Fs op)\<lparr>Txn := log\<rparr>\<rparr>
      in (ok, postCommit G op))"

definition Abort ::
    "('log, 'op, 'alc, 'lm, 'd) golib \<Rightarrow> ('log, 'op, 'alc, 'lm, 'd) FsTxn \<Rightarrow> ('log, 'op, 'alc, 'lm, 'd) FsTxn" where
  "Abort G op =
     (let op = releaseInodes G op
      in put_allocs (op\<lparr>Atxn := PostAbort G (Atxn op)\<rparr>))"

end
