(* ===== verification/Dir.thy ===== *)
theory Dir
  imports FsTxn
begin

text \<open>
  \<^verbatim>\<open>dir/dir.go\<close> and \<^verbatim>\<open>dir/dcache.go\<close>: directories. A directory is a file of entries of 128 bytes;
  an entry with inode number 0 is free. Every directory inode has a cache of its entries, made
  on first use by a pass over the directory. The loops over the entries advance by one entry per
  iteration; their fuel is one more than the number of entries of the directory.
\<close>

abbreviation DIRENTSZ :: u64 where
  "DIRENTSZ \<equiv> 128"

abbreviation MAXNAMELEN :: u64 where
  "MAXNAMELEN \<equiv> 112"

record dirEnt =
  de_inum :: u64
  de_name :: "byte list"

definition IllegalName :: "Filename3 \<Rightarrow> bool" where
  "IllegalName name = (name = [46] \<or> name = [46, 46])"

definition encodeDirEnt :: "('log, 'op, 'alc, 'lm, 'd) golib \<Rightarrow> dirEnt \<Rightarrow> byte list res" where
  "encodeDirEnt G de =
     Enc G DIRENTSZ [PutInt (de_inum de), PutInt (of_nat (length (de_name de))), PutBytes (de_name de)]"

definition decodeDirEnt :: "('log, 'op, 'alc, 'lm, 'd) golib \<Rightarrow> byte list \<Rightarrow> dirEnt res" where
  "decodeDirEnt G d =
     bnd (GetInt G d) (\<lambda>(inum, dec).
     bnd (GetInt G dec) (\<lambda>(l, dec).
     bnd (GetBytes G l dec) (\<lambda>(name, dec).
     Inr \<lparr>de_inum = inum, de_name = name\<rparr>)))"

definition dir_fuel :: "iref \<Rightarrow> ('log, 'op, 'alc, 'lm, 'd) FsTxn \<Rightarrow> nat" where
  "dir_fuel dip op = Suc (unat (Size (inode_at op dip)) div 128)"

fun scan_loop ::
    "('log, 'op, 'alc, 'lm, 'd) golib \<Rightarrow> nat \<Rightarrow> Filename3 \<Rightarrow> u64 \<Rightarrow> iref \<Rightarrow> ('log, 'op, 'alc, 'lm, 'd) FsTxn \<Rightarrow>
     ((u64 \<times> u64) \<times> ('log, 'op, 'alc, 'lm, 'd) FsTxn) res" where
  "scan_loop G fuel name off dip op =
     (if off < Size (inode_at op dip)
      then (case fuel of
         0 \<Rightarrow> Inl NoFuel
       | Suc fuel \<Rightarrow>
           bnd (ip_Read G off DIRENTSZ dip op) (\<lambda>((data, _), op).
           if of_nat (length data) \<noteq> DIRENTSZ then Inr ((NULLINUM G, 0), op)
           else bnd (decodeDirEnt G data) (\<lambda>de.
                if de_inum de = NULLINUM G then scan_loop G fuel name (off + DIRENTSZ) dip op
                else if de_name de = name then Inr ((de_inum de, off), op)
                else scan_loop G fuel name (off + DIRENTSZ) dip op)))
      else Inr ((NULLINUM G, 0), op))"

declare scan_loop.simps [simp del]

definition ScanName ::
    "('log, 'op, 'alc, 'lm, 'd) golib \<Rightarrow> Filename3 \<Rightarrow> iref \<Rightarrow> ('log, 'op, 'alc, 'lm, 'd) FsTxn \<Rightarrow>
     ((u64 \<times> u64) \<times> ('log, 'op, 'alc, 'lm, 'd) FsTxn) res" where
  "ScanName G name dip op =
     (if Kind (inode_at op dip) \<noteq> NF3DIR then Inr ((NULLINUM G, 0), op)
      else scan_loop G (dir_fuel dip op) name 0 dip op)"

text \<open>The offset of the first free entry from \<open>off\<close> on, 0 if there is none.\<close>

fun free_loop ::
    "('log, 'op, 'alc, 'lm, 'd) golib \<Rightarrow> nat \<Rightarrow> u64 \<Rightarrow> iref \<Rightarrow> ('log, 'op, 'alc, 'lm, 'd) FsTxn \<Rightarrow>
     (u64 \<times> ('log, 'op, 'alc, 'lm, 'd) FsTxn) res" where
  "free_loop G fuel off dip op =
     (if off < Size (inode_at op dip)
      then (case fuel of
         0 \<Rightarrow> Inl NoFuel
       | Suc fuel \<Rightarrow>
           bnd (ip_Read G off DIRENTSZ dip op) (\<lambda>((data, _), op).
           bnd (decodeDirEnt G data) (\<lambda>de.
           if de_inum de = NULLINUM G then Inr (off, op)
           else free_loop G fuel (off + DIRENTSZ) dip op)))
      else Inr (0, op))"

declare free_loop.simps [simp del]

definition AddNameDir ::
    "('log, 'op, 'alc, 'lm, 'd) golib \<Rightarrow> u64 \<Rightarrow> Filename3 \<Rightarrow> u64 \<Rightarrow> iref \<Rightarrow> ('log, 'op, 'alc, 'lm, 'd) FsTxn \<Rightarrow>
     ((u64 \<times> bool) \<times> ('log, 'op, 'alc, 'lm, 'd) FsTxn) res" where
  "AddNameDir G inum name lastoff dip op =
     bnd (free_loop G (dir_fuel dip op) lastoff dip op) (\<lambda>(finalOff, op).
     let finalOff = (if finalOff = 0 then Size (inode_at op dip) else finalOff)
     in bnd (encodeDirEnt G \<lparr>de_inum = inum, de_name = name\<rparr>) (\<lambda>ent.
        bnd (ip_Write G finalOff DIRENTSZ ent dip op) (\<lambda>((n, _), op).
        Inr ((finalOff, n = DIRENTSZ), op))))"

fun empty_loop ::
    "('log, 'op, 'alc, 'lm, 'd) golib \<Rightarrow> nat \<Rightarrow> u64 \<Rightarrow> iref \<Rightarrow> ('log, 'op, 'alc, 'lm, 'd) FsTxn \<Rightarrow>
     (bool \<times> ('log, 'op, 'alc, 'lm, 'd) FsTxn) res" where
  "empty_loop G fuel off dip op =
     (if off < Size (inode_at op dip)
      then (case fuel of
         0 \<Rightarrow> Inl NoFuel
       | Suc fuel \<Rightarrow>
           bnd (ip_Read G off DIRENTSZ dip op) (\<lambda>((data, _), op).
           bnd (decodeDirEnt G data) (\<lambda>de.
           if de_inum de = NULLINUM G then empty_loop G fuel (off + DIRENTSZ) dip op
           else Inr (False, op))))
      else Inr (True, op))"

declare empty_loop.simps [simp del]

definition IsDirEmpty ::
    "('log, 'op, 'alc, 'lm, 'd) golib \<Rightarrow> iref \<Rightarrow> ('log, 'op, 'alc, 'lm, 'd) FsTxn \<Rightarrow>
     (bool \<times> ('log, 'op, 'alc, 'lm, 'd) FsTxn) res" where
  "IsDirEmpty G dip op = empty_loop G (dir_fuel dip op) (2 * DIRENTSZ) dip op"

abbreviation fattr3XDRsize :: u64 where
  "fattr3XDRsize \<equiv> 4 + 4 + 4 + 4 + 4 + 8 + 8 + 8 + 8 + 8 + 3 * 8"

abbreviation entryplus3Baggage :: u64 where
  "entryplus3Baggage \<equiv> 8 + 4 + 8 + 4 + fattr3XDRsize + 16 + 8"

text \<open>
  The function argument \<open>f\<close> of \<^verbatim>\<open>Apply\<close> works on the state \<open>s\<close> of its closure and on the transaction.
  \<open>ip\<close> is \<open>None\<close> where the code passes a nil pointer.
\<close>

type_synonym ('s, 'log, 'op, 'alc, 'lm, 'd) apply_fun =
  "iref option \<Rightarrow> byte list \<Rightarrow> u64 \<Rightarrow> u64 \<Rightarrow> 's \<Rightarrow> ('log, 'op, 'alc, 'lm, 'd) FsTxn \<Rightarrow>
   ('s \<times> ('log, 'op, 'alc, 'lm, 'd) FsTxn) res"

fun apply_loop ::
    "('log, 'op, 'alc, 'lm, 'd) golib \<Rightarrow> nat \<Rightarrow> u64 \<Rightarrow> u64 \<Rightarrow> ('s, 'log, 'op, 'alc, 'lm, 'd) apply_fun \<Rightarrow>
     u64 \<Rightarrow> u64 \<Rightarrow> u64 \<Rightarrow> 's \<Rightarrow> iref \<Rightarrow> ('log, 'op, 'alc, 'lm, 'd) FsTxn \<Rightarrow>
     (bool \<times> 's \<times> ('log, 'op, 'alc, 'lm, 'd) FsTxn) res" where
  "apply_loop G fuel dircount maxcount f off n dirbytes s dip op =
     (if off < Size (inode_at op dip)
      then (case fuel of
         0 \<Rightarrow> Inl NoFuel
       | Suc fuel \<Rightarrow>
           bnd (ip_Read G off DIRENTSZ dip op) (\<lambda>((data, _), op).
           bnd (decodeDirEnt G data) (\<lambda>de.
           if de_inum de = NULLINUM G
           then apply_loop G fuel dircount maxcount f (off + DIRENTSZ) n dirbytes s dip op
           else
             let own = OwnInum (de_inum de) op
             in bnd (if own then bnd (GetInodeUnlocked (de_inum de) op) (\<lambda>ip. Inr (Some ip, op))
                     else GetInodeInum G (de_inum de) op) (\<lambda>(ip, op).
             bnd (f ip (de_name de) (de_inum de) off s op) (\<lambda>(s, op).
             bnd (if \<not> own
                  then (case ip of None \<Rightarrow> Inl (Panic ''nil pointer dereference'')
                                 | Some ip \<Rightarrow> Inr (ReleaseInode G ip op))
                  else Inr op) (\<lambda>op.
             let off = off + DIRENTSZ;
                 dirbytes = dirbytes + (8 + of_nat (length (de_name de)));
                 n = n + (entryplus3Baggage + of_nat (length (de_name de)))
             in if dirbytes \<ge> dircount \<or> n \<ge> maxcount then Inr (False, s, op)
                else apply_loop G fuel dircount maxcount f off n dirbytes s dip op))))))
      else Inr (True, s, op))"

declare apply_loop.simps [simp del]

definition Apply ::
    "('log, 'op, 'alc, 'lm, 'd) golib \<Rightarrow> u64 \<Rightarrow> u64 \<Rightarrow> u64 \<Rightarrow> ('s, 'log, 'op, 'alc, 'lm, 'd) apply_fun \<Rightarrow>
     's \<Rightarrow> iref \<Rightarrow> ('log, 'op, 'alc, 'lm, 'd) FsTxn \<Rightarrow> (bool \<times> 's \<times> ('log, 'op, 'alc, 'lm, 'd) FsTxn) res" where
  "Apply G start dircount maxcount f s dip op =
     (let begin = (if start \<noteq> 0 then start + DIRENTSZ else start)
      in apply_loop G (dir_fuel dip op) dircount maxcount f begin 64 0 s dip op)"

fun ents_loop ::
    "('log, 'op, 'alc, 'lm, 'd) golib \<Rightarrow> nat \<Rightarrow> u64 \<Rightarrow> (byte list \<Rightarrow> u64 \<Rightarrow> u64 \<Rightarrow> 's \<Rightarrow> 's) \<Rightarrow>
     u64 \<Rightarrow> u64 \<Rightarrow> 's \<Rightarrow> iref \<Rightarrow> ('log, 'op, 'alc, 'lm, 'd) FsTxn \<Rightarrow>
     (bool \<times> 's \<times> ('log, 'op, 'alc, 'lm, 'd) FsTxn) res" where
  "ents_loop G fuel count f off n s dip op =
     (if off < Size (inode_at op dip)
      then (case fuel of
         0 \<Rightarrow> Inl NoFuel
       | Suc fuel \<Rightarrow>
           bnd (ip_Read G off DIRENTSZ dip op) (\<lambda>((data, _), op).
           bnd (decodeDirEnt G data) (\<lambda>de.
           if de_inum de = NULLINUM G then ents_loop G fuel count f (off + DIRENTSZ) n s dip op
           else
             let s = f (de_name de) (de_inum de) off s;
                 off = off + DIRENTSZ;
                 n = n + of_nat (16 + length (de_name de) + 8 + 8)
             in if n \<ge> count then Inr (False, s, op) else ents_loop G fuel count f off n s dip op)))
      else Inr (True, s, op))"

declare ents_loop.simps [simp del]

definition ApplyEnts ::
    "('log, 'op, 'alc, 'lm, 'd) golib \<Rightarrow> u64 \<Rightarrow> u64 \<Rightarrow> (byte list \<Rightarrow> u64 \<Rightarrow> u64 \<Rightarrow> 's \<Rightarrow> 's) \<Rightarrow>
     's \<Rightarrow> iref \<Rightarrow> ('log, 'op, 'alc, 'lm, 'd) FsTxn \<Rightarrow> (bool \<times> 's \<times> ('log, 'op, 'alc, 'lm, 'd) FsTxn) res" where
  "ApplyEnts G start count f s dip op =
     (let begin = (if start \<noteq> 0 then start + DIRENTSZ else start)
      in ents_loop G (dir_fuel dip op) count f begin 64 s dip op)"

section \<open>The cache of a directory\<close>

text \<open>A store to \<^verbatim>\<open>dip.Dcache\<close>.\<close>

definition put_dcache :: "iref \<Rightarrow> Dcache \<Rightarrow> ('log, 'op, 'alc, 'lm, 'd) FsTxn \<Rightarrow> ('log, 'op, 'alc, 'lm, 'd) FsTxn" where
  "put_dcache dip dc op = put_inode dip ((inode_at op dip)\<lparr>inode_Dcache := Some dc\<rparr>) op"

definition get_dcache :: "iref \<Rightarrow> ('log, 'op, 'alc, 'lm, 'd) FsTxn \<Rightarrow> Dcache res" where
  "get_dcache dip op =
     (case inode_Dcache (inode_at op dip) of
        None \<Rightarrow> Inl (Panic ''nil pointer dereference'')
      | Some dc \<Rightarrow> Inr dc)"

definition mkDcache ::
    "('log, 'op, 'alc, 'lm, 'd) golib \<Rightarrow> iref \<Rightarrow> ('log, 'op, 'alc, 'lm, 'd) FsTxn \<Rightarrow>
     ('log, 'op, 'alc, 'lm, 'd) FsTxn res" where
  "mkDcache G dip op =
     (let op = put_dcache dip MkDcache op
      in bnd (Apply G 0 (Size (inode_at op dip)) 100000000
                (\<lambda>ip name inum off u op.
                   bnd (get_dcache dip op) (\<lambda>dc. Inr (u, put_dcache dip (dcache_Add name inum off dc) op)))
                () dip op) (\<lambda>(_, _, op).
         Inr op))"

definition ensure_dcache ::
    "('log, 'op, 'alc, 'lm, 'd) golib \<Rightarrow> iref \<Rightarrow> ('log, 'op, 'alc, 'lm, 'd) FsTxn \<Rightarrow>
     ('log, 'op, 'alc, 'lm, 'd) FsTxn res" where
  "ensure_dcache G dip op =
     (case inode_Dcache (inode_at op dip) of None \<Rightarrow> mkDcache G dip op | Some _ \<Rightarrow> Inr op)"

definition LookupName ::
    "('log, 'op, 'alc, 'lm, 'd) golib \<Rightarrow> Filename3 \<Rightarrow> iref \<Rightarrow> ('log, 'op, 'alc, 'lm, 'd) FsTxn \<Rightarrow>
     ((u64 \<times> u64) \<times> ('log, 'op, 'alc, 'lm, 'd) FsTxn) res" where
  "LookupName G name dip op =
     (if Kind (inode_at op dip) \<noteq> NF3DIR then Inr ((NULLINUM G, 0), op)
      else bnd (ensure_dcache G dip op) (\<lambda>op.
           bnd (get_dcache dip op) (\<lambda>dc.
           let (dentry, ok) = dcache_Lookup name dc
           in Inr (if ok then (Dentry_Inum dentry, Dentry_Off dentry) else (NULLINUM G, 0), op))))"

definition AddName ::
    "('log, 'op, 'alc, 'lm, 'd) golib \<Rightarrow> u64 \<Rightarrow> Filename3 \<Rightarrow> iref \<Rightarrow> ('log, 'op, 'alc, 'lm, 'd) FsTxn \<Rightarrow>
     (bool \<times> ('log, 'op, 'alc, 'lm, 'd) FsTxn) res" where
  "AddName G inum name dip op =
     (if Kind (inode_at op dip) \<noteq> NF3DIR \<or> of_nat (length name) \<ge> MAXNAMELEN then Inr (False, op)
      else bnd (ensure_dcache G dip op) (\<lambda>op.
           bnd (get_dcache dip op) (\<lambda>dc.
           bnd (AddNameDir G inum name (Lastoff dc) dip op) (\<lambda>((off, ok), op).
           if ok
           then bnd (get_dcache dip op) (\<lambda>dc.
                Inr (True, put_dcache dip (dcache_Add name inum off (dc\<lparr>Lastoff := off\<rparr>)) op))
           else Inr (False, op)))))"

definition RemNameDir ::
    "('log, 'op, 'alc, 'lm, 'd) golib \<Rightarrow> Filename3 \<Rightarrow> iref \<Rightarrow> ('log, 'op, 'alc, 'lm, 'd) FsTxn \<Rightarrow>
     ((u64 \<times> bool) \<times> ('log, 'op, 'alc, 'lm, 'd) FsTxn) res" where
  "RemNameDir G name dip op =
     bnd (LookupName G name dip op) (\<lambda>((inum, off), op).
     if inum = NULLINUM G then Inr ((0, False), op)
     else bnd (encodeDirEnt G \<lparr>de_inum = NULLINUM G, de_name = []\<rparr>) (\<lambda>ent.
          bnd (ip_Write G off DIRENTSZ ent dip op) (\<lambda>((n, _), op).
          Inr ((off, n = DIRENTSZ), op))))"

definition RemName ::
    "('log, 'op, 'alc, 'lm, 'd) golib \<Rightarrow> Filename3 \<Rightarrow> iref \<Rightarrow> ('log, 'op, 'alc, 'lm, 'd) FsTxn \<Rightarrow>
     (bool \<times> ('log, 'op, 'alc, 'lm, 'd) FsTxn) res" where
  "RemName G name dip op =
     (if Kind (inode_at op dip) \<noteq> NF3DIR \<or> of_nat (length name) \<ge> MAXNAMELEN then Inr (False, op)
      else bnd (ensure_dcache G dip op) (\<lambda>op.
           bnd (RemNameDir G name dip op) (\<lambda>((off, ok), op).
           if ok
           then bnd (get_dcache dip op) (\<lambda>dc.
                let (ok, dc) = dcache_Del name (dc\<lparr>Lastoff := off\<rparr>);
                    op = put_dcache dip dc op
                in if \<not> ok then Inl (Panic ''RemName'') else Inr (True, op))
           else Inr (False, op))))"

definition InitDir ::
    "('log, 'op, 'alc, 'lm, 'd) golib \<Rightarrow> u64 \<Rightarrow> iref \<Rightarrow> ('log, 'op, 'alc, 'lm, 'd) FsTxn \<Rightarrow>
     (bool \<times> ('log, 'op, 'alc, 'lm, 'd) FsTxn) res" where
  "InitDir G parent dip op =
     bnd (AddName G (Inum (inode_at op dip)) [46] dip op) (\<lambda>(ok, op).
     if \<not> ok then Inr (False, op) else AddName G parent [46, 46] dip op)"

definition MkRootDir ::
    "('log, 'op, 'alc, 'lm, 'd) golib \<Rightarrow> iref \<Rightarrow> ('log, 'op, 'alc, 'lm, 'd) FsTxn \<Rightarrow>
     (bool \<times> ('log, 'op, 'alc, 'lm, 'd) FsTxn) res" where
  "MkRootDir G dip op =
     bnd (AddName G (Inum (inode_at op dip)) [46] dip op) (\<lambda>(ok, op).
     if \<not> ok then Inr (False, op) else AddName G (Inum (inode_at op dip)) [46, 46] dip op)"

end
