(* ===== verification/DirSpec.thy ===== *)
theory DirSpec
  imports Dir FileOps
begin

text \<open>
  What a directory is: a file of 128-byte entries without holes. \<open>dir_is\<close> relates a directory inode to the
  list of its entries; the operations of \<^theory_text>\<open>Dir\<close> are proved against functions on that list, and the
  directory's name cache against the live entries.
\<close>

section \<open>Entries\<close>

definition ent_wf :: "dirEnt \<Rightarrow> bool" where
  "ent_wf e \<longleftrightarrow> length (de_name e) \<le> 112"

sublocale marshal_lib \<subseteq> dirent: codec ent_wf "encodeDirEnt G" "decodeDirEnt G"
proof unfold_locales
  fix e
  assume "ent_wf e"
  let ?n = "of_nat (length (de_name e)) :: u64"
  have n: "unat ?n = length (de_name e)" using \<open>ent_wf e\<close> by (simp add: ent_wf_def nowrap)
  obtain b where b: "Enc G 128 [PutInt (de_inum e), PutInt ?n, PutBytes (de_name e)] = Inr b"
    using enc_fits [of "[PutInt (de_inum e), PutInt ?n, PutBytes (de_name e)]" 128] \<open>ent_wf e\<close> by (auto simp: ent_wf_def)
  obtain b1 where b1: "GetInt G b = Inr (de_inum e, b1)" "Enc G (128 - 8) [PutInt ?n, PutBytes (de_name e)] = Inr b1"
    using get_int [OF b] by blast
  obtain b2 where b2: "GetInt G b1 = Inr (?n, b2)" "Enc G (128 - 8 - 8) [PutBytes (de_name e)] = Inr b2"
    using get_int [OF b1(2)] by blast
  obtain b3 where "GetBytes G ?n b2 = Inr (de_name e, b3)" using get_bytes [OF b2(2) n] by blast
  with b b1(1) b2(1) show "\<exists>b. encodeDirEnt G e = Inr b \<and> decodeDirEnt G b = Inr e"
    by (simp add: encodeDirEnt_def decodeDirEnt_def)
qed

section \<open>The entries of a directory\<close>

definition dir_is ::
    "('log, 'op, 'alc, 'lm, 'd) golib \<Rightarrow> ('alc \<Rightarrow> u64 set) \<Rightarrow> ('alc \<Rightarrow> u64 set) \<Rightarrow> ('log, 'op, 'alc, 'lm, 'd) FsTxn \<Rightarrow> iref \<Rightarrow>
     dirEnt list \<Rightarrow> bool" where
  "dir_is G used arange op dip ents \<longleftrightarrow>
     (let ip = inode_at op dip; atxn = Atxn op
      in file_inv G used arange atxn ip \<and> Kind ip = NF3DIR \<and>
         unat (Size ip) = 128 * length ents \<and> unat (Size ip) \<le> 1073774592 \<and>
         (\<forall>i < unat (Size ip). fwalk G (Op atxn) (blks ip) (i div 4096) \<noteq> 0) \<and>
         (\<forall>k < length ents. ent_wf (ents ! k) \<and>
            encodeDirEnt G (ents ! k) = Inr (frange G (Op atxn) (blks ip) (128 * k) 128)))"

text \<open>An operation on a directory's inode that keeps everything else of the transaction.\<close>

definition dir_step ::
    "iref \<Rightarrow> ('log, 'op, 'alc, 'lm, 'd) FsTxn \<Rightarrow> ('log, 'op, 'alc, 'lm, 'd) FsTxn \<Rightarrow> bool" where
  "dir_step dip op op' \<longleftrightarrow>
     (\<exists>ip' atxn'. op' = put_inode dip ip' (op\<lparr>Atxn := atxn'\<rparr>) \<and> Inum ip' = Inum (inode_at op dip) \<and>
        inode_Dcache ip' = inode_Dcache (inode_at op dip))"

lemma dir_step_refl: "dir_step dip op op"
proof -
  have "op = put_inode dip (inode_at op dip) (op\<lparr>Atxn := Atxn op\<rparr>)" by (simp add: put_inode_def inode_at_def)
  then show ?thesis unfolding dir_step_def by blast
qed

lemma dir_step_trans: "dir_step dip op op1 \<Longrightarrow> dir_step dip op1 op2 \<Longrightarrow> dir_step dip op op2"
  unfolding dir_step_def by (fastforce simp: put_inode_def inode_at_def)

text \<open>The specification of the loops over the entries.\<close>

fun find_name :: "byte list \<Rightarrow> nat \<Rightarrow> dirEnt list \<Rightarrow> u64 \<times> u64" where
  "find_name name k [] = (0, 0)"
| "find_name name k (e # es) =
     (if de_inum e \<noteq> 0 \<and> de_name e = name then (de_inum e, of_nat (128 * k)) else find_name name (Suc k) es)"

fun first_free :: "nat \<Rightarrow> dirEnt list \<Rightarrow> u64" where
  "first_free k [] = 0"
| "first_free k (e # es) = (if de_inum e = 0 then of_nat (128 * k) else first_free (Suc k) es)"

context gojournal
begin

lemma read_ent:
  assumes d: "dir_is G used arange op dip ents" and k: "k < length ents" "unat off = 128 * k"
  obtains data eof op' where "ip_Read G off 128 dip op = Inr ((data, eof), op')" and "length data = 128"
    and "decodeDirEnt G data = Inr (ents ! k)" and "dir_is G used arange op' dip ents" and "dir_step dip op op'"
    and "inode_Dcache (inode_at op' dip) = inode_Dcache (inode_at op dip)"
    and "Size (inode_at op' dip) = Size (inode_at op dip)"
proof -
  let ?ip = "inode_at op dip" and ?a = "Atxn op"
  have inv: "file_inv G used arange ?a ?ip" and sz: "unat (Size ?ip) = 128 * length ents" "unat (Size ?ip) \<le> 1073774592"
    and nh: "\<And>i. i < unat (Size ?ip) \<Longrightarrow> fwalk G (Op ?a) (blks ?ip) (i div 4096) \<noteq> 0"
    and e: "\<And>k. k < length ents \<Longrightarrow> ent_wf (ents ! k) \<and> encodeDirEnt G (ents ! k) = Inr (frange G (Op ?a) (blks ?ip) (128 * k) 128)"
    and kd: "Kind ?ip = NF3DIR"
    using d by (auto simp: dir_is_def Let_def)
  have "unat (Size ?ip) \<le> MAXBYTES" "unat off + unat (128 :: u64) < 2 ^ 64" using sz k by auto
  from Read_ok [OF inv this] obtain m ip' a' where
      r: "Read G off 128 ?ip ?a = Inr (take m (drop (unat off) (contents G (Op ?a) ?ip)), unat (Size ?ip) \<le> unat off, ip', a')"
    and m: "m \<le> 128" and st: "file_step G used arange ?ip ?a ip' a'" and c: "contents G (Op a') ip' = contents G (Op ?a) ?ip"
    and sh: "m < 128 \<and> unat off + m < unat (Size ?ip) \<longrightarrow> fwalk G (Op ?a) (blks ?ip) ((unat off + m) div 4096) = 0"
    by auto
  have "m = 128"
  proof (rule ccontr)
    assume "m \<noteq> 128"
    then have "m < 128" "unat off + m < unat (Size ?ip)" using m k sz by auto
    then show False using sh nh by simp
  qed
  note f = file_step_fields [OF st]
  have fr: "frange G (Op a') (blks ip') (128 * j) 128 = frange G (Op ?a) (blks ?ip) (128 * j) 128" if "j < length ents" for j
    using take_drop_contents [of "128 * j" 128 ip' G "Op a'"] take_drop_contents [of "128 * j" 128 ?ip G "Op ?a"] that c sz f(1)
    by simp
  let ?op = "put_inode dip ip' (op\<lparr>Atxn := a'\<rparr>)"
  let ?d = "frange G (Op ?a) (blks ?ip) (128 * k) 128"
  have at: "inode_at ?op dip = ip'" "Atxn ?op = a'" by (simp_all add: put_inode_def inode_at_def)
  have "ip' = ?ip\<lparr>blks := blks ip'\<rparr>" using st by (simp add: file_step_def)
  then have dc: "inode_Dcache ip' = inode_Dcache ?ip" by (rule ssubst) simp
  have "fwalk G (Op a') (blks ip') (i div 4096) \<noteq> 0" if "i < unat (Size ip')" for i
  proof -
    have "i div 4096 < MAXBLKS" using that f(1) sz by (simp add: less_mult_imp_div_less)
    then show ?thesis using st nh that f(1) by (simp add: file_step_def)
  qed
  then have "dir_is G used arange ?op dip ents"
    using file_step_inv [OF st] sz f e fr kd by (simp add: dir_is_def at Let_def)
  moreover have "ip_Read G off 128 dip op = Inr ((?d, unat (Size ?ip) \<le> unat off), ?op)"
    using r \<open>m = 128\<close> take_drop_contents [of "128 * k" 128 ?ip G "Op ?a"] k sz by (simp add: ip_Read_def on_inode_def)
  moreover have "dir_step dip op ?op" unfolding dir_step_def using f(2) dc by blast
  moreover have "decodeDirEnt G ?d = Inr (ents ! k)" using e [OF k(1)] dirent.encode_decodes by blast
  ultimately show thesis using that [of ?d _ ?op] f(1) dc at by (simp add: frange_def)
qed

lemma dir_off:
  assumes "dir_is G used arange op dip ents" and "unat off = 128 * k"
  shows "off < Size (inode_at op dip) \<longleftrightarrow> k < length ents" and "k < length ents \<Longrightarrow> unat (off + 128) = 128 * Suc k"
    and "off = of_nat (128 * k)"
  using assms by (auto simp: dir_is_def Let_def word_less_nat_alt nowrap dest: of_nat_unat_u64)

text \<open>Induction over the entries that a loop reads.\<close>

lemma dir_loop_induct [consumes 3, case_names stop more]:
  assumes "dir_is G used arange op dip ents" and "unat off = 128 * k" and "length ents - k \<le> fuel"
    and stop: "\<And>fuel off k op. dir_is G used arange op dip ents \<Longrightarrow> \<not> off < Size (inode_at op dip) \<Longrightarrow> drop k ents = [] \<Longrightarrow>
       P fuel off k op"
    and more: "\<And>fuel off k op data eof op1. dir_is G used arange op dip ents \<Longrightarrow> off < Size (inode_at op dip) \<Longrightarrow>
       off = of_nat (128 * k) \<Longrightarrow> drop k ents = ents ! k # drop (Suc k) ents \<Longrightarrow>
       ip_Read G off 128 dip op = Inr ((data, eof), op1) \<Longrightarrow> length data = 128 \<Longrightarrow> decodeDirEnt G data = Inr (ents ! k) \<Longrightarrow>
       dir_is G used arange op1 dip ents \<Longrightarrow> dir_step dip op op1 \<Longrightarrow> P fuel (off + 128) (Suc k) op1 \<Longrightarrow> P (Suc fuel) off k op"
  shows "P fuel off k op"
  using assms(1-3)
proof (induction fuel arbitrary: off k op)
  case 0
  then show ?case using dir_off(1) [OF 0(1,2)] by (intro stop) auto
next
  case (Suc fuel)
  note o = dir_off [OF Suc.prems(1,2)]
  show ?case
  proof (cases "k < length ents")
    case False
    then show ?thesis using o(1) Suc.prems(1) by (intro stop) auto
  next
    case True
    from Suc.prems(1) True Suc.prems(2) show ?thesis
    proof (rule read_ent)
      fix data eof op1
      assume r: "ip_Read G off 128 dip op = Inr ((data, eof), op1)" "length data = 128" "decodeDirEnt G data = Inr (ents ! k)"
        and d1: "dir_is G used arange op1 dip ents" and s1: "dir_step dip op op1"
      have "drop k ents = ents ! k # drop (Suc k) ents" using True by (simp add: Cons_nth_drop_Suc)
      moreover have "length ents - Suc k \<le> fuel" using Suc.prems(3) by simp
      ultimately show ?thesis using more [OF Suc.prems(1) _ o(3) _ r d1 s1] Suc.IH [OF d1 o(2) [OF True]] o(1) True by blast
    qed
  qed
qed

lemma scan_loop_ok:
  assumes "dir_is G used arange op dip ents" and "unat off = 128 * k" and "length ents - k \<le> fuel"
  shows "\<exists>op'. scan_loop G fuel name off dip op = Inr (find_name name k (drop k ents), op') \<and>
     dir_is G used arange op' dip ents \<and> dir_step dip op op'"
  using assms
proof (induction rule: dir_loop_induct)
  case (more fuel off k op data eof op1)
  then show ?case using dir_step_trans [OF more(9)] by (auto simp: scan_loop.simps)
qed (auto simp: scan_loop.simps dir_step_refl)

lemma free_loop_ok:
  assumes "dir_is G used arange op dip ents" and "unat off = 128 * k" and "length ents - k \<le> fuel"
  shows "\<exists>op'. free_loop G fuel off dip op = Inr (first_free k (drop k ents), op') \<and>
     dir_is G used arange op' dip ents \<and> dir_step dip op op'"
  using assms
proof (induction rule: dir_loop_induct)
  case (more fuel off k op data eof op1)
  then show ?case using dir_step_trans [OF more(9)] by (auto simp: free_loop.simps)
qed (auto simp: free_loop.simps dir_step_refl)

lemma empty_loop_ok:
  assumes "dir_is G used arange op dip ents" and "unat off = 128 * k" and "length ents - k \<le> fuel"
  shows "\<exists>op'. empty_loop G fuel off dip op = Inr (\<forall>e \<in> set (drop k ents). de_inum e = 0, op') \<and>
     dir_is G used arange op' dip ents \<and> dir_step dip op op'"
  using assms
proof (induction rule: dir_loop_induct)
  case (more fuel off k op data eof op1)
  then show ?case using dir_step_trans [OF more(9)] by (auto simp: empty_loop.simps)
qed (auto simp: empty_loop.simps dir_step_refl)

lemma dir_fuel_ok: "dir_is G used arange op dip ents \<Longrightarrow> length ents - k \<le> dir_fuel dip op"
  by (auto simp: dir_is_def dir_fuel_def Let_def)

lemma ScanName_ok:
  assumes d: "dir_is G used arange op dip ents"
  shows "\<exists>op'. ScanName G name dip op = Inr (find_name name 0 ents, op') \<and> dir_is G used arange op' dip ents \<and> dir_step dip op op'"
  using scan_loop_ok [OF d, of 0 0 "dir_fuel dip op" name] dir_fuel_ok [OF d, of 0] d
  by (simp add: ScanName_def dir_is_def Let_def)

lemma IsDirEmpty_ok:
  assumes d: "dir_is G used arange op dip ents"
  shows "\<exists>op'. IsDirEmpty G dip op = Inr (\<forall>e \<in> set (drop 2 ents). de_inum e = 0, op') \<and> dir_is G used arange op' dip ents \<and>
    dir_step dip op op'"
  using empty_loop_ok [OF d, of 256 2 "dir_fuel dip op"] dir_fuel_ok [OF d, of 2] by (simp add: IsDirEmpty_def)

lemma encodeDirEnt_len: "ent_wf e \<Longrightarrow> encodeDirEnt G e = Inr b \<Longrightarrow> length b = 128"
  using enc_fits [of "[PutInt (de_inum e), PutInt (of_nat (length (de_name e))), PutBytes (de_name e)]" 128]
  by (auto simp: encodeDirEnt_def ent_wf_def)

lemma encodeDirEnt_roundtrip: "ent_wf e \<Longrightarrow> \<exists>b. encodeDirEnt G e = Inr b \<and> length b = 128 \<and> decodeDirEnt G b = Inr e"
  using dirent.decode_encode [of e] encodeDirEnt_len by blast

lemma same_block: "c < 128 \<Longrightarrow> (128 * k + c) div 4096 = (128 * k) div (4096 :: nat)"
proof -
  assume c: "c < 128"
  have "(128 * k + c) div (128 * 32) = (128 * k) div (128 * 32)" using c unfolding div_mult2_eq by simp
  then show ?thesis by simp
qed

text \<open>Storing one entry, in place or at the end; it can fail only at the end, and then changes no entry.\<close>

lemma write_ent:
  assumes d: "dir_is G used arange op dip ents" and k: "k \<le> length ents" "unat off = 128 * k" "128 * k + 128 \<le> 1073774592"
    and e: "ent_wf e" "encodeDirEnt G e = Inr eb"
  shows "\<exists>cnt ok op'. ip_Write G off 128 eb dip op = Inr ((cnt, ok), op') \<and> dir_step dip op op' \<and>
     (if cnt = 128 then dir_is G used arange op' dip (if k < length ents then ents[k := e] else ents @ [e])
      else k = length ents \<and> exhausted used arange (Atxn op') \<and> dir_is G used arange op' dip ents)"
proof -
  let ?ip = "inode_at op dip" and ?a = "Atxn op"
  have inv: "file_inv G used arange ?a ?ip" and sz: "unat (Size ?ip) = 128 * length ents" "unat (Size ?ip) \<le> 1073774592"
    and nh: "\<And>i. i < unat (Size ?ip) \<Longrightarrow> fwalk G (Op ?a) (blks ?ip) (i div 4096) \<noteq> 0"
    and en: "\<And>k. k < length ents \<Longrightarrow> ent_wf (ents ! k) \<and> encodeDirEnt G (ents ! k) = Inr (frange G (Op ?a) (blks ?ip) (128 * k) 128)"
    and kd: "Kind ?ip = NF3DIR"
    using d by (auto simp: dir_is_def Let_def)
  have el: "length eb = 128" by (rule encodeDirEnt_len [OF e])
  have "unat off + unat (128 :: u64) \<le> unat (MaxFileSize G)" "unat (128 :: u64) \<le> length eb" using k el by (simp_all add: MaxFileSize_val)
  from Write_ok [OF inv this] obtain cnt ok ip' a' where
      w: "Write G off 128 eb ?ip ?a = Inr (cnt, ok, ip', a')" and c: "unat cnt \<le> 128"
    and st: "file_step G used arange ?ip ?a (ip'\<lparr>Size := Size ?ip\<rparr>) a'"
    and sz': "unat (Size ip') = (if 0 < unat cnt then max (unat (Size ?ip)) (unat off + unat cnt) else unat (Size ?ip))"
    and bt: "\<forall>i < MAXBYTES. fbyte G (Op a') (blks ip') i =
            (if unat off \<le> i \<and> i < unat off + unat cnt then eb ! (i - unat off) else fbyte G (Op ?a) (blks ?ip) i)"
    and sh: "unat cnt < 128 \<longrightarrow> exhausted used arange a' \<and> fwalk G (Op a') (blks ip') ((unat off + unat cnt) div 4096) = 0"
    and nw: "\<forall>i. unat off \<le> i \<and> i < unat off + unat cnt \<longrightarrow> fwalk G (Op a') (blks ip') (i div 4096) \<noteq> 0"
    by auto
  let ?op = "put_inode dip ip' (op\<lparr>Atxn := a'\<rparr>)"
  have at: "inode_at ?op dip = ip'" "Atxn ?op = a'" by (simp_all add: put_inode_def inode_at_def)
  have eq: "ip'\<lparr>Size := Size ?ip\<rparr> = ?ip\<lparr>blks := blks ip'\<rparr>" using st by (simp add: file_step_def)
  have f: "Inum ip' = Inum ?ip" "Kind ip' = Kind ?ip" "inode_Dcache ip' = inode_Dcache ?ip"
    using arg_cong [OF eq, of Inum] arg_cong [OF eq, of Kind] arg_cong [OF eq, of inode_Dcache] by simp_all
  have inv': "file_inv G used arange a' ip'" using file_step_inv [OF st] by (simp add: file_inv_def)
  have old: "fwalk G (Op a') (blks ip') (i div 4096) \<noteq> 0" if "i < unat (Size ?ip)" for i
  proof -
    have "i div 4096 < MAXBLKS" using that sz by (simp add: less_mult_imp_div_less)
    then show ?thesis using st nh [OF that] by (simp add: file_step_def)
  qed
  have other: "frange G (Op a') (blks ip') (128 * j) 128 = frange G (Op ?a) (blks ?ip) (128 * j) 128"
    if "j < length ents" "j \<noteq> k \<or> unat cnt = 0" for j
    unfolding frange_def using that bt k c sz by (intro map_cong) auto
  have W: "ip_Write G off 128 eb dip op = Inr ((cnt, ok), ?op)" using w by (simp add: ip_Write_def on_inode_def)
  have S: "dir_step dip op ?op" unfolding dir_step_def using f by blast
  show ?thesis
  proof (cases "unat cnt < 128")
    case True
    then have z: "fwalk G (Op a') (blks ip') ((128 * k) div 4096) = 0" using sh k(2) same_block [OF True, of k] by simp
    have kl: "k = length ents"
    proof (rule ccontr)
      assume "k \<noteq> length ents"
      then have "128 * k < unat (Size ?ip)" using k sz by simp
      from old [OF this] z show False by simp
    qed
    have c0: "unat cnt = 0"
    proof (rule ccontr)
      assume "unat cnt \<noteq> 0"
      then show False using nw [rule_format, of "128 * k"] z k(2) by simp
    qed
    have "dir_is G used arange ?op dip ents"
      using inv' f kd sz sz' c0 old en other by (simp add: dir_is_def at Let_def)
    then show ?thesis using W S kl sh True by (intro exI [of _ cnt] exI [of _ ok] exI [of _ ?op]) (auto simp: at)
  next
    case False
    then have c128: "unat cnt = 128" using c by simp
    then have cn: "cnt = 128" by (intro u64_eqI) simp
    let ?ents = "if k < length ents then ents[k := e] else ents @ [e]"
    have new: "frange G (Op a') (blks ip') (128 * k) 128 = eb"
      unfolding frange_def using bt k el c128 by (intro nth_equalityI) auto
    have s: "unat (Size ip') = 128 * length ?ents" using sz' c128 sz k by auto
    have "ent_wf (?ents ! j) \<and> encodeDirEnt G (?ents ! j) = Inr (frange G (Op a') (blks ip') (128 * j) 128)" if "j < length ?ents" for j
      using that en other new e k by (cases "j = k") (auto simp: nth_append)
    moreover have "fwalk G (Op a') (blks ip') (i div 4096) \<noteq> 0" if i: "i < unat (Size ip')" for i
    proof (cases "i < unat (Size ?ip)")
      case False
      then show ?thesis using nw i sz' c128 k sz by auto
    qed (rule old)
    ultimately have "dir_is G used arange ?op dip ?ents"
      using inv' f kd s sz k unfolding dir_is_def at Let_def by auto
    then show ?thesis using W S cn by auto
  qed
qed

end

section \<open>Directories as maps from names to inode numbers\<close>

definition live :: "dirEnt list \<Rightarrow> byte list \<Rightarrow> nat \<Rightarrow> bool" where
  "live ents name k \<longleftrightarrow> k < length ents \<and> de_inum (ents ! k) \<noteq> 0 \<and> de_name (ents ! k) = name"

definition uniq :: "dirEnt list \<Rightarrow> bool" where
  "uniq ents \<longleftrightarrow> (\<forall>name j k. live ents name j \<longrightarrow> live ents name k \<longrightarrow> j = k)"

text \<open>The number and the offset of the entry of a name.\<close>

definition dir_locs :: "dirEnt list \<Rightarrow> byte list \<rightharpoonup> u64 \<times> u64" where
  "dir_locs ents name = (let p = find_name name 0 ents in if fst p = 0 then None else Some p)"

text \<open>The list with an entry stored at a position, or appended.\<close>

definition dir_put :: "nat \<Rightarrow> dirEnt \<Rightarrow> dirEnt list \<Rightarrow> dirEnt list" where
  "dir_put k e ents = (if k < length ents then ents[k := e] else ents @ [e])"

lemma live_Cons: "live (e # es) name k \<longleftrightarrow>
    (case k of 0 \<Rightarrow> de_inum e \<noteq> 0 \<and> de_name e = name | Suc k \<Rightarrow> live es name k)"
  by (auto simp: live_def split: nat.splits)

lemma live_put:
  "k \<le> length ents \<Longrightarrow> live (dir_put k e ents) name j \<longleftrightarrow>
     (if j = k then de_inum e \<noteq> 0 \<and> de_name e = name else live ents name j)"
  by (auto simp: live_def dir_put_def nth_append)

lemma nth_put: "k \<le> length ents \<Longrightarrow> j < length (dir_put k e ents) \<Longrightarrow> dir_put k e ents ! j = (if j = k then e else ents ! j)"
  by (auto simp: dir_put_def nth_append)

lemma uniqD: "uniq ents \<Longrightarrow> live ents name j \<Longrightarrow> live ents name k \<Longrightarrow> j = k"
  unfolding uniq_def by blast

lemma uniq_put:
  assumes u: "uniq ents" and k: "k \<le> length ents" and e: "de_inum e = 0 \<or> (\<forall>j. live ents (de_name e) j \<longrightarrow> j = k)"
  shows "uniq (dir_put k e ents)"
  unfolding uniq_def
proof (intro allI impI)
  fix name i j
  assume "live (dir_put k e ents) name i" and "live (dir_put k e ents) name j"
  then show "i = j" using e uniqD [OF u] by (auto simp: live_put [OF k] split: if_splits)
qed

lemma find_name_none: "(\<And>k. \<not> live es name k) \<Longrightarrow> find_name name j es = (0, 0)"
proof (induction es arbitrary: j)
  case (Cons e es)
  have "\<not> (de_inum e \<noteq> 0 \<and> de_name e = name)" using Cons.prems [of 0] by (simp add: live_Cons)
  moreover have "\<not> live es name k" for k using Cons.prems [of "Suc k"] by (simp add: live_Cons)
  ultimately show ?case using Cons.IH by auto
qed simp

lemma find_name_live:
  "live es name k \<Longrightarrow> (\<And>i. live es name i \<Longrightarrow> i = k) \<Longrightarrow> find_name name j es = (de_inum (es ! k), of_nat (128 * (j + k)))"
proof (induction es arbitrary: j k)
  case (Cons e es)
  show ?case
  proof (cases k)
    case 0
    then show ?thesis using Cons.prems(1) by (simp add: live_Cons)
  next
    case (Suc k')
    have n: "\<not> (de_inum e \<noteq> 0 \<and> de_name e = name)"
    proof
      assume "de_inum e \<noteq> 0 \<and> de_name e = name"
      then have "live (e # es) name 0" by (simp add: live_Cons)
      from Cons.prems(2) [OF this] Suc show False by simp
    qed
    have u: "i = k'" if "live es name i" for i
    proof -
      have "live (e # es) name (Suc i)" using that by (simp add: live_Cons)
      from Cons.prems(2) [OF this] Suc show ?thesis by simp
    qed
    have "live es name k'" using Cons.prems(1) Suc by (simp add: live_Cons)
    from Cons.IH [OF this u, of "Suc j"] n Suc show ?thesis by auto
  qed
qed (simp add: live_def)

lemma find_name_zero: "fst (find_name name k es) = 0 \<Longrightarrow> find_name name k es = (0, 0)"
  by (induction es arbitrary: k) (auto split: if_splits)

lemma dir_locs_live:
  assumes u: "uniq ents" and k: "live ents name k"
  shows "dir_locs ents name = Some (de_inum (ents ! k), of_nat (128 * k))"
proof -
  have "find_name name 0 ents = (de_inum (ents ! k), of_nat (128 * (0 + k)))"
    by (rule find_name_live [OF k]) (rule uniqD [OF u _ k])
  then show ?thesis using k by (simp add: dir_locs_def live_def)
qed

lemma dir_locs_none: "(\<And>k. \<not> live ents name k) \<Longrightarrow> dir_locs ents name = None"
  using find_name_none [of ents name 0] by (simp add: dir_locs_def)

lemma dir_locs_dom: "uniq ents \<Longrightarrow> dir_locs ents name = None \<longleftrightarrow> (\<forall>k. \<not> live ents name k)"
  using dir_locs_live [of ents name] dir_locs_none [of ents name] by fastforce

lemma dir_locs_put_other:
  assumes u: "uniq ents" and k: "k \<le> length ents" and up: "uniq (dir_put k e ents)"
    and nk: "\<not> live ents m k" and ne: "\<not> (de_inum e \<noteq> 0 \<and> de_name e = m)"
  shows "dir_locs (dir_put k e ents) m = dir_locs ents m"
proof (cases "\<exists>j. live ents m j")
  case True
  then obtain j where j: "live ents m j" by blast
  then have "j \<noteq> k" using nk by blast
  then have "live (dir_put k e ents) m j" using j by (simp add: live_put [OF k])
  moreover from this have "dir_put k e ents ! j = ents ! j" using \<open>j \<noteq> k\<close> nth_put [OF k, of j e] by (simp add: live_def)
  ultimately show ?thesis using dir_locs_live [OF u j] dir_locs_live [OF up] by simp
next
  case False
  then have "\<not> live (dir_put k e ents) m j" for j using ne by (simp add: live_put [OF k])
  then show ?thesis using False by (simp add: dir_locs_none)
qed

lemma dir_locs_add:
  assumes u: "uniq ents" and k: "k \<le> length ents" and n: "\<And>m. \<not> live ents m k"
    and new: "dir_locs ents (de_name e) = None" and e: "de_inum e \<noteq> 0"
  shows "uniq (dir_put k e ents)" and "dir_locs (dir_put k e ents) = (dir_locs ents)(de_name e \<mapsto> (de_inum e, of_nat (128 * k)))"
proof -
  have "\<forall>j. \<not> live ents (de_name e) j" using new dir_locs_dom [OF u] by blast
  then show up: "uniq (dir_put k e ents)" using uniq_put [OF u k] by blast
  have le: "live (dir_put k e ents) (de_name e) k" using e by (simp add: live_put [OF k])
  then have "dir_put k e ents ! k = e" using nth_put [OF k, of k e] by (simp add: live_def)
  then have "dir_locs (dir_put k e ents) (de_name e) = Some (de_inum e, of_nat (128 * k))" using dir_locs_live [OF up le] by simp
  moreover have "dir_locs (dir_put k e ents) m = dir_locs ents m" if "m \<noteq> de_name e" for m
    using dir_locs_put_other [OF u k up] n that by simp
  ultimately show "dir_locs (dir_put k e ents) = (dir_locs ents)(de_name e \<mapsto> (de_inum e, of_nat (128 * k)))"
    by (simp add: fun_eq_iff)
qed

lemma dir_locs_rem:
  assumes u: "uniq ents" and k: "live ents name k" and e: "de_inum e = 0"
  shows "uniq (dir_put k e ents)" and "dir_locs (dir_put k e ents) = (dir_locs ents)(name := None)"
proof -
  have kl: "k \<le> length ents" using k by (simp add: live_def)
  show up: "uniq (dir_put k e ents)" using uniq_put [OF u kl] e by blast
  have "\<not> live (dir_put k e ents) name j" for j using e uniqD [OF u k, of j] by (auto simp: live_put [OF kl])
  then have "dir_locs (dir_put k e ents) name = None" by (rule dir_locs_none)
  moreover have "dir_locs (dir_put k e ents) m = dir_locs ents m" if "m \<noteq> name" for m
    using dir_locs_put_other [OF u kl up] k that e by (simp add: live_def)
  ultimately show "dir_locs (dir_put k e ents) = (dir_locs ents)(name := None)" by (simp add: fun_eq_iff)
qed


section \<open>Directories with their name cache\<close>

text \<open>
  A directory whose cache is built: names are unique among the used entries, the cache has exactly the used entries,
  and the offset at which the next insertion starts is that of an entry.
\<close>

definition dir_ok ::
    "('log, 'op, 'alc, 'lm, 'd) golib \<Rightarrow> ('alc \<Rightarrow> u64 set) \<Rightarrow> ('alc \<Rightarrow> u64 set) \<Rightarrow> ('log, 'op, 'alc, 'lm, 'd) FsTxn \<Rightarrow> iref \<Rightarrow>
     dirEnt list \<Rightarrow> bool" where
  "dir_ok G used arange op dip ents \<longleftrightarrow>
     dir_is G used arange op dip ents \<and> uniq ents \<and>
     (\<exists>dc k. inode_Dcache (inode_at op dip) = Some dc \<and> dc_names dc = dir_locs ents \<and>
        k \<le> length ents \<and> unat (Lastoff dc) = 128 * k)"

lemma first_free_cases:
  "first_free k es = 0 \<or> (\<exists>j < length es. de_inum (es ! j) = 0 \<and> first_free k es = of_nat (128 * (k + j)))"
proof (induction es arbitrary: k)
  case (Cons e es)
  show ?case
  proof (cases "de_inum e = 0")
    case True
    then show ?thesis by (intro disjI2 exI [of _ 0]) simp
  next
    case False
    from Cons.IH [of "Suc k"] show ?thesis
    proof
      assume "\<exists>j < length es. de_inum (es ! j) = 0 \<and> first_free (Suc k) es = of_nat (128 * (Suc k + j))"
      then obtain j where "j < length es" "de_inum (es ! j) = 0" "first_free (Suc k) es = of_nat (128 * (Suc k + j))" by blast
      then show ?thesis using False by (intro disjI2 exI [of _ "Suc j"]) simp
    qed (simp add: False)
  qed
qed simp

lemma dir_is_put_dcache [simp]: "dir_is G used arange (put_dcache dip dc op) dip ents = dir_is G used arange op dip ents"
  by (simp add: dir_is_def put_dcache_def put_inode_def inode_at_def Let_def file_inv_def)

lemma put_dcache_at [simp]: "inode_Dcache (inode_at (put_dcache dip dc op) dip) = Some dc" "Atxn (put_dcache dip dc op) = Atxn op"
  by (simp_all add: put_dcache_def put_inode_def inode_at_def)

lemma dir_step_dcache: "dir_step dip op op' \<Longrightarrow> inode_Dcache (inode_at op' dip) = inode_Dcache (inode_at op dip)"
  by (auto simp: dir_step_def put_inode_def inode_at_def)

context gojournal
begin

lemma LookupName_ok:
  assumes d: "dir_ok G used arange op dip ents"
  shows "LookupName G name dip op = Inr (case dir_locs ents name of Some p \<Rightarrow> p | None \<Rightarrow> (0, 0), op)"
proof -
  obtain dc where dc: "inode_Dcache (inode_at op dip) = Some dc" "dc_names dc = dir_locs ents"
    using d by (auto simp: dir_ok_def)
  have "Kind (inode_at op dip) = NF3DIR" using d by (simp add: dir_ok_def dir_is_def Let_def)
  then show ?thesis using dc dcache.names_lookup [of name dc]
    by (auto simp: LookupName_def ensure_dcache_def get_dcache_def split: option.splits)
qed

lemma AddNameDir_ok:
  assumes d: "dir_is G used arange op dip ents" and k: "k \<le> length ents" "unat lastoff = 128 * k"
    and room: "128 * length ents + 128 \<le> 1073774592" and len: "length name < 112"
  shows "\<exists>off ok op' j. AddNameDir G inum name lastoff dip op = Inr ((off, ok), op') \<and> dir_step dip op op' \<and>
     j \<le> length ents \<and> (j < length ents \<longrightarrow> de_inum (ents ! j) = 0) \<and> unat off = 128 * j \<and> off = of_nat (128 * j) \<and>
     (if ok then dir_is G used arange op' dip (dir_put j \<lparr>de_inum = inum, de_name = name\<rparr> ents)
      else exhausted used arange (Atxn op') \<and> dir_is G used arange op' dip ents)"
proof -
  let ?e = "\<lparr>de_inum = inum, de_name = name\<rparr>"
  obtain op1 where f: "free_loop G (dir_fuel dip op) lastoff dip op = Inr (first_free k (drop k ents), op1)"
      and d1: "dir_is G used arange op1 dip ents" and s1: "dir_step dip op op1"
    using free_loop_ok [OF d k(2) dir_fuel_ok [OF d]] by blast
  let ?o = "first_free k (drop k ents)"
  let ?off = "if ?o = 0 then Size (inode_at op1 dip) else ?o"
  have sz: "unat (Size (inode_at op1 dip)) = 128 * length ents" using d1 by (simp add: dir_is_def Let_def)
  have "\<exists>j \<le> length ents. (j < length ents \<longrightarrow> de_inum (ents ! j) = 0) \<and> unat ?off = 128 * j"
  proof (cases "?o = 0")
    case False
    then obtain j where "j < length ents - k" "de_inum (ents ! (k + j)) = 0" "?o = of_nat (128 * (k + j))"
      using first_free_cases [of k "drop k ents"] k by auto
    then show ?thesis using False room by (intro exI [of _ "k + j"]) (auto simp: nowrap simp del: of_nat_mult)
  qed (use sz in auto)
  then obtain j where j: "j \<le> length ents" "j < length ents \<longrightarrow> de_inum (ents ! j) = 0" "unat ?off = 128 * j" by blast
  have wf: "ent_wf ?e" using len by (simp add: ent_wf_def)
  then obtain eb where eb: "encodeDirEnt G ?e = Inr eb" using dirent.decode_encode by blast
  have "128 * j + 128 \<le> 1073774592" using j room by simp
  from write_ent [OF d1 j(1,3) this wf eb] obtain cnt ok op2 where
      w: "ip_Write G ?off 128 eb dip op1 = Inr ((cnt, ok), op2)" and s2: "dir_step dip op1 op2"
    and r: "if cnt = 128 then dir_is G used arange op2 dip (dir_put j ?e ents)
       else j = length ents \<and> exhausted used arange (Atxn op2) \<and> dir_is G used arange op2 dip ents"
    unfolding dir_put_def by blast
  have "AddNameDir G inum name lastoff dip op = Inr ((?off, cnt = 128), op2)"
    using f eb w by (simp add: AddNameDir_def Let_def)
  moreover have "?off = of_nat (128 * j)" by (rule of_nat_unat_u64 [OF j(3)])
  ultimately show ?thesis using j r dir_step_trans [OF s1 s2]
    by (intro exI [of _ ?off] exI [of _ "cnt = 128"] exI [of _ op2] exI [of _ j]) simp
qed

lemma AddName_ok:
  assumes d: "dir_ok G used arange op dip ents" and room: "128 * length ents + 128 \<le> 1073774592"
    and len: "length name < 112" and new: "dir_locs ents name = None" and i: "inum \<noteq> 0"
  shows "\<exists>ok op'. AddName G inum name dip op = Inr (ok, op') \<and>
     (if ok then \<exists>off ents'. dir_ok G used arange op' dip ents' \<and> dir_locs ents' = (dir_locs ents)(name \<mapsto> (inum, off)) \<and>
        length ents' \<le> Suc (length ents)
      else exhausted used arange (Atxn op') \<and> dir_ok G used arange op' dip ents)"
proof -
  let ?e = "\<lparr>de_inum = inum, de_name = name\<rparr>"
  obtain dc k where dc: "inode_Dcache (inode_at op dip) = Some dc" "dc_names dc = dir_locs ents" "k \<le> length ents"
      "unat (Lastoff dc) = 128 * k" and di: "dir_is G used arange op dip ents" and u: "uniq ents"
    using d by (auto simp: dir_ok_def)
  from AddNameDir_ok [OF di dc(3,4) room len, of inum] obtain off ok op1 j where
      a: "AddNameDir G inum name (Lastoff dc) dip op = Inr ((off, ok), op1)" and s: "dir_step dip op op1"
    and j: "j \<le> length ents" "j < length ents \<longrightarrow> de_inum (ents ! j) = 0" "unat off = 128 * j" "off = of_nat (128 * j)"
    and r: "if ok then dir_is G used arange op1 dip (dir_put j ?e ents)
       else exhausted used arange (Atxn op1) \<and> dir_is G used arange op1 dip ents"
    by blast
  have dc1: "inode_Dcache (inode_at op1 dip) = Some dc" using dir_step_dcache [OF s] dc(1) by simp
  have "Kind (inode_at op dip) = NF3DIR" "\<not> of_nat (length name) \<ge> (112 :: u64)"
    using di len by (auto simp: dir_is_def Let_def word_le_nat_alt nowrap)
  then have eq: "AddName G inum name dip op =
      Inr (if ok then (True, put_dcache dip (dcache_Add name inum off (dc\<lparr>Lastoff := off\<rparr>)) op1) else (False, op1))"
    using dc dc1 a by (simp add: AddName_def ensure_dcache_def get_dcache_def)
  show ?thesis
  proof (cases ok)
    case False
    then show ?thesis using eq r u dc dc1 by (auto simp: dir_ok_def)
  next
    case True
    have "\<not> live ents m j" for m using j by (auto simp: live_def)
    note l = dir_locs_add [OF u j(1) this, of ?e, simplified, OF new i]
    have n: "dc_names (dcache_Add name inum off (dc\<lparr>Lastoff := off\<rparr>)) = (dir_locs ents)(name \<mapsto> (inum, off))"
      using dc(2) by (simp add: dcache.names_add) (simp add: dc_names_def fun_eq_iff)
    let ?dc = "dcache_Add name inum off (dc\<lparr>Lastoff := off\<rparr>)" and ?ents = "dir_put j ?e ents"
    have "Lastoff ?dc = off" by (simp add: dcache_Add_def)
    moreover have "j \<le> length ?ents" "length ?ents \<le> Suc (length ents)" using j(1) by (simp_all add: dir_put_def)
    moreover have ls: "dir_locs ?ents = (dir_locs ents)(name \<mapsto> (inum, off))" using l(2) j(4) by simp
    ultimately have "dir_ok G used arange (put_dcache dip ?dc op1) dip ?ents"
      unfolding dir_ok_def using r True l(1) n j(3) by (simp del: fun_upd_apply)
    then show ?thesis using eq True ls \<open>length ?ents \<le> Suc (length ents)\<close> by (simp del: fun_upd_apply) blast
  qed
qed

lemma RemName_ok:
  assumes d: "dir_ok G used arange op dip ents" and len: "length name < 112"
  shows "\<exists>ok op'. RemName G name dip op = Inr (ok, op') \<and> (ok \<longleftrightarrow> dir_locs ents name \<noteq> None) \<and>
     (\<exists>ents'. dir_ok G used arange op' dip ents' \<and> length ents' = length ents \<and> dir_locs ents' = (dir_locs ents)(name := None))"
proof -
  let ?e = "\<lparr>de_inum = 0, de_name = []\<rparr>"
  obtain dc k where dc: "inode_Dcache (inode_at op dip) = Some dc" "dc_names dc = dir_locs ents" "k \<le> length ents"
      "unat (Lastoff dc) = 128 * k" and di: "dir_is G used arange op dip ents" and u: "uniq ents"
    using d by (auto simp: dir_ok_def)
  have kn: "Kind (inode_at op dip) = NF3DIR" "\<not> of_nat (length name) \<ge> (112 :: u64)"
    using di len by (auto simp: dir_is_def Let_def word_le_nat_alt nowrap)
  note lk = LookupName_ok [OF d, of name]
  show ?thesis
  proof (cases "dir_locs ents name")
    case None
    then have "RemName G name dip op = Inr (False, op)" using kn dc lk by (simp add: RemName_def ensure_dcache_def RemNameDir_def)
    moreover have "(dir_locs ents)(name := None) = dir_locs ents" using None by auto
    ultimately show ?thesis using None d by (simp del: fun_upd_apply) metis
  next
    case (Some p)
    then obtain j where j: "live ents name j" using dir_locs_dom [OF u, of name] by auto
    note p = dir_locs_live [OF u j]
    have jl: "j < length ents" "de_inum (ents ! j) \<noteq> 0" using j by (simp_all add: live_def)
    let ?off = "of_nat (128 * j) :: u64"
    have sz: "128 * length ents \<le> 1073774592" using di by (auto simp: dir_is_def Let_def)
    have off: "unat ?off = 128 * j" using jl(1) sz by (simp add: nowrap)
    have wf: "ent_wf ?e" by (simp add: ent_wf_def)
    then obtain eb where eb: "encodeDirEnt G ?e = Inr eb" using dirent.decode_encode by blast
    have "j \<le> length ents" "128 * j + 128 \<le> 1073774592" using jl(1) sz by simp_all
    from write_ent [OF di this(1) off this(2) wf eb] obtain cnt ok op1 where
        w: "ip_Write G ?off 128 eb dip op = Inr ((cnt, ok), op1)" and s: "dir_step dip op op1"
      and r: "cnt = 128" "dir_is G used arange op1 dip (dir_put j ?e ents)"
      unfolding dir_put_def using jl(1) by (auto split: if_splits)
    have dc1: "inode_Dcache (inode_at op1 dip) = Some dc" using dir_step_dcache [OF s] dc(1) by simp
    let ?dc = "snd (dcache_Del name (dc\<lparr>Lastoff := ?off\<rparr>))"
    have nm: "dc_names (dc\<lparr>Lastoff := ?off\<rparr>) = dir_locs ents" using dc(2) by (simp add: dc_names_def fun_eq_iff)
    then have "fst (dcache_Del name (dc\<lparr>Lastoff := ?off\<rparr>))" using dcache.del_ok p by (simp add: dom_def)
    then have eq: "RemName G name dip op = Inr (True, put_dcache dip ?dc op1)"
      using kn dc(1) dc1 lk p jl(2) eb w r(1)
      by (simp add: RemName_def ensure_dcache_def RemNameDir_def get_dcache_def case_prod_beta Let_def del: of_nat_mult)
    have "Lastoff ?dc = ?off" by (simp add: dcache_Del_def split: option.splits)
    moreover note l = dir_locs_rem [OF u j, of ?e, simplified]
    moreover have "dc_names ?dc = (dir_locs ents)(name := None)" using nm by (simp add: dcache.names_del)
    moreover have ln: "length (dir_put j ?e ents) = length ents" using jl(1) by (simp add: dir_put_def)
    ultimately have "dir_ok G used arange (put_dcache dip ?dc op1) dip (dir_put j ?e ents)"
      unfolding dir_ok_def using r(2) off less_imp_le [OF jl(1)] by (simp del: fun_upd_apply of_nat_mult)
    then show ?thesis using eq l(2) ln p by (simp del: fun_upd_apply of_nat_mult) blast
  qed
qed

lemma InitDir_ok:
  assumes d: "dir_ok G used arange op dip []" and i: "Inum (inode_at op dip) \<noteq> 0" "parent \<noteq> 0"
  shows "\<exists>ok op'. InitDir G parent dip op = Inr (ok, op') \<and>
     (if ok then \<exists>ents o1 o2. dir_ok G used arange op' dip ents \<and> length ents \<le> 2 \<and>
         dir_locs ents = [[46] \<mapsto> (Inum (inode_at op dip), o1), [46, 46] \<mapsto> (parent, o2)]
      else exhausted used arange (Atxn op'))"
proof -
  let ?i = "Inum (inode_at op dip)"
  have e: "dir_locs [] = Map.empty" by (simp add: dir_locs_def fun_eq_iff)
  have "128 * length ([] :: dirEnt list) + 128 \<le> 1073774592" "length [46 :: byte] < 112" "dir_locs [] [46] = None"
    by (simp_all add: e)
  from AddName_ok [OF d this i(1)] obtain ok1 op1 where a1: "AddName G ?i [46] dip op = Inr (ok1, op1)" and r1:
     "if ok1 then \<exists>off ents'. dir_ok G used arange op1 dip ents' \<and> dir_locs ents' = [[46] \<mapsto> (?i, off)] \<and> length ents' \<le> Suc (length ([] :: dirEnt list))
      else exhausted used arange (Atxn op1) \<and> dir_ok G used arange op1 dip []"
    unfolding e by blast
  show ?thesis
  proof (cases ok1)
    case False
    then show ?thesis using a1 r1 by (auto simp: InitDir_def)
  next
    case True
    then obtain o1 ents1 where d1: "dir_ok G used arange op1 dip ents1" "dir_locs ents1 = [[46] \<mapsto> (?i, o1)]" "length ents1 \<le> Suc 0"
      using r1 by auto
    have "128 * length ents1 + 128 \<le> 1073774592" "length [46, 46 :: byte] < 112" "dir_locs ents1 [46, 46] = None"
      using d1 by simp_all
    from AddName_ok [OF d1(1) this i(2)] obtain ok2 op2 where a2: "AddName G parent [46, 46] dip op1 = Inr (ok2, op2)" and r2:
       "if ok2 then \<exists>off ents'. dir_ok G used arange op2 dip ents' \<and> dir_locs ents' = (dir_locs ents1)([46, 46] \<mapsto> (parent, off)) \<and>
           length ents' \<le> Suc (length ents1)
        else exhausted used arange (Atxn op2) \<and> dir_ok G used arange op2 dip ents1"
      by blast
    have "InitDir G parent dip op = Inr (ok2, op2)" using a1 a2 True by (simp add: InitDir_def)
    moreover have "\<exists>ents o1 o2. dir_ok G used arange op2 dip ents \<and> length ents \<le> 2 \<and>
         dir_locs ents = [[46] \<mapsto> (?i, o1), [46, 46] \<mapsto> (parent, o2)]" if ok2
    proof -
      obtain o2 ents where "dir_ok G used arange op2 dip ents" "dir_locs ents = (dir_locs ents1)([46, 46] \<mapsto> (parent, o2))"
        "length ents \<le> Suc (length ents1)" using r2 \<open>ok2\<close> by auto
      then have "dir_ok G used arange op2 dip ents \<and> length ents \<le> 2 \<and> dir_locs ents = [[46] \<mapsto> (?i, o1), [46, 46] \<mapsto> (parent, o2)]"
        using d1(2,3) by simp
      then show ?thesis by blast
    qed
    ultimately show ?thesis using r2 by (intro exI [of _ ok2] exI [of _ op2]) (simp split: if_splits)
  qed
qed

end

section \<open>An example directory\<close>

text \<open>Inode 2 is a directory with one entry, the name \<^verbatim>\<open>a\<close> for inode 5, in data block 1539.\<close>

definition ex_ents :: "dirEnt list" where
  "ex_ents = [\<lparr>de_inum = 5, de_name = [97]\<rparr>]"

definition ex_dir :: Inode where
  "ex_dir = zero_Inode\<lparr>Inum := 2, Kind := NF3DIR, Nlink := 1, Size := 128, blks := 1539 # replicate 9 0,
     inode_Dcache := Some \<lparr>dc_cache = [[97] \<mapsto> \<lparr>Dentry_Inum = 5, Dentry_Off = 0\<rparr>], Lastoff = 0\<rparr>\<rparr>"

definition ex_dir_log :: "u64 \<Rightarrow> nat \<Rightarrow> byte" where
  "ex_dir_log b i = (if b = 1539 then (if i = 0 then 5 else if i = 8 then 1 else if i = 16 then 97 else 0) else 0)"

definition ex_dir_txn :: "(u64 \<Rightarrow> nat \<Rightarrow> byte, ref_op, bool list, u64 list, ref_disk) FsTxn" where
  "ex_dir_txn = FsTxn_Begin ref_lib \<lparr>fs_Super = ex_super, Txn = ex_dir_log,
     Icache = \<lparr>entries = Map.empty, lru_list = [], cache_sz = 100, cnt = 0\<rparr>,
     Lockmap = [], fs_Balloc = replicate 1541 True @ replicate 459 False, fs_Ialloc = [], iobj = (\<lambda>_. ex_dir), inext = 1\<rparr>"

lemma ex_dir_fields:
  "inode_at ex_dir_txn 0 = ex_dir" "at_Super (Atxn ex_dir_txn) = ex_super" "Balloc (Atxn ex_dir_txn) = Balloc ex_fs"
  by (simp_all add: ex_dir_txn_def FsTxn_Begin_def AllocTxn_Begin_def inode_at_def ex_fs_def)

lemma ex_dir_blk:
  "blk ref_lib (Op (Atxn ex_dir_txn)) b = map (ex_dir_log b) [0..<4096]"
  by (simp add: ex_dir_txn_def FsTxn_Begin_def AllocTxn_Begin_def blk_def ref_lib_def ref_read_def Block2addr_def)

lemma ex_dir_balloc: "balloc_inv ref_lib ref_used ref_range (Atxn ex_dir_txn)"
proof -
  have "blk ref_lib (Op (Atxn ex_dir_txn)) n = replicate 4096 0" if "n \<notin> ref_used (Balloc ex_fs)" for n
  proof -
    have "n \<noteq> 1539" using that by (auto simp: ex_fs_used)
    then have "ex_dir_log n = (\<lambda>i. 0)" by (simp add: ex_dir_log_def fun_eq_iff)
    then show ?thesis by (simp add: ex_dir_blk map_replicate_const)
  qed
  then show ?thesis using ex_fs_inv by (simp add: balloc_inv_def ex_dir_fields ex_fs_fields valid_bnum_def)
qed

lemma ex_dir_inv: "file_inv ref_lib ref_used ref_range (Atxn ex_dir_txn) ex_dir"
proof -
  have n: "NInode ref_lib ex_super = 32768" by (rule common_lib.super_wf_layout(5) [OF ref_common ex_super_wf])
  have v: "valid_bnum (Atxn ex_dir_txn) 1539" by (simp add: valid_bnum_def ex_fs_fields ex_dir_fields)
  have u: "{1539} \<subseteq> ref_used (Balloc (Atxn ex_dir_txn))" by (simp add: ex_fs_used ex_dir_fields)
  show ?thesis using ex_super_wf n ex_dir_balloc v u
    by (simp add: file_inv_def ex_dir_def one_block ex_dir_fields(2) del: replicate.simps)
qed

lemma ex_dir_bytes: "i < 4096 \<Longrightarrow> fbyte ref_lib (Op (Atxn ex_dir_txn)) (blks ex_dir) i = ex_dir_log 1539 i"
  by (simp add: fbyte_def fwalk_def ex_dir_def ex_dir_blk slot_def lev_def soff_def)

lemma ex_dir_enc: "encodeDirEnt ref_lib (ex_ents ! 0) = Inr (frange ref_lib (Op (Atxn ex_dir_txn)) (blks ex_dir) 0 128)"
proof -
  have e: "Enc ref_lib = ref_enc" by (simp add: ref_lib_def)
  have "map (fbyte ref_lib (Op (Atxn ex_dir_txn)) (blks ex_dir)) [0..<128] = map (ex_dir_log 1539) [0..<128]"
    by (rule map_cong) (simp_all add: ex_dir_bytes)
  moreover have "le_bytes 8 5 = 5 # replicate 7 0" "le_bytes 8 (Suc 0) = 1 # replicate 7 0" by code_simp+
  moreover have "(5 # replicate 7 0) @ (1 # replicate 7 0) @ 97 # replicate 111 0 = map (ex_dir_log 1539) [0..<128]"
    by (intro nth_equalityI) (auto simp: nth_append nth_Cons' ex_dir_log_def)
  ultimately show ?thesis by (simp add: encodeDirEnt_def ex_ents_def e ref_enc_def frange_def)
qed

lemma ex_dir_ok: "dir_ok ref_lib ref_used ref_range ex_dir_txn 0 ex_ents"
proof -
  have "fwalk ref_lib (Op (Atxn ex_dir_txn)) (blks ex_dir) 0 = 1539" 
    by (simp add: ex_dir_def fwalk_def slot_def lev_def soff_def)
  then have "dir_is ref_lib ref_used ref_range ex_dir_txn 0 ex_ents"
    using ex_dir_inv ex_dir_enc by (simp add: dir_is_def Let_def ex_dir_fields) (simp add: ex_dir_def ex_ents_def ent_wf_def)
  moreover have "uniq ex_ents" by (simp add: uniq_def live_def ex_ents_def)
  moreover have "dir_locs ex_ents = [[97] \<mapsto> (5, 0)]" by (auto simp: dir_locs_def ex_ents_def fun_eq_iff)
  ultimately show ?thesis
    by (simp add: dir_ok_def ex_dir_fields) (simp add: ex_dir_def ex_ents_def dc_names_def fun_eq_iff)
qed

lemma ex_locs: "dir_locs ex_ents = [[97] \<mapsto> (5, 0)]"
  by (auto simp: dir_locs_def ex_ents_def fun_eq_iff)

section \<open>Properties\<close>

text \<open>A lookup in an up-to-date cache. \<^verbatim>\<open>LookupName\<close> answers from the cache without touching the disk, with the inode number and the offset that
  the scan \<^verbatim>\<open>ScanName\<close> of the entries on disk finds, and both return without a fault.\<close>

lemma cached_lookup:
  assumes G: "gojournal G on used arange held" and d: "dir_ok G used arange op dip ents"
  shows "\<exists>op'. LookupName G name dip op = Inr (find_name name 0 ents, op) \<and> ScanName G name dip op = Inr (find_name name 0 ents, op')"
proof -
  have di: "dir_is G used arange op dip ents" using d by (simp add: dir_ok_def)
  obtain op' where s: "ScanName G name dip op = Inr (find_name name 0 ents, op')" using gojournal.ScanName_ok [OF G di] by blast
  have "(case dir_locs ents name of None \<Rightarrow> (0, 0) | Some p \<Rightarrow> p) = find_name name 0 ents"
    using find_name_zero [of name 0 ents] by (simp add: dir_locs_def Let_def)
  then show ?thesis using s gojournal.LookupName_ok [OF G d, of name] by auto
qed

text \<open>C19: adding a name. For a name that the directory does not have and a directory that is at least one entry below the maximum file size,
  \<^verbatim>\<open>AddName\<close> returns; if it reports success, the name has fewer than 112 bytes and the directory's names are the old ones and the new name with the
  new inode number, on disk and in the cache; it fails only for a name of 112 bytes or more or when no block is free, and then the directory is
  as it was.\<close>

theorem addname_adds:
  assumes G: "gojournal G on used arange held" and d: "dir_ok G used arange op dip ents"
    and room: "128 * length ents + 128 \<le> 1073774592"
    and len: "length name < 2 ^ 64" and new: "dir_locs ents name = None" and i: "inum \<noteq> 0"
  shows "\<exists>ok op'. AddName G inum name dip op = Inr (ok, op') \<and>
     (if ok then length name < 112 \<and> (\<exists>off ents'. dir_ok G used arange op' dip ents' \<and>
        dir_locs ents' = (dir_locs ents)(name \<mapsto> (inum, off)) \<and> length ents' \<le> Suc (length ents))
      else dir_ok G used arange op' dip ents \<and> (112 \<le> length name \<and> op' = op \<or> exhausted used arange (Atxn op')))"
proof (cases "length name < 112")
  case True
  from gojournal.AddName_ok [OF G d room True new i] True show ?thesis by (auto split: if_splits)
next
  case False
  then have "(112 :: u64) \<le> of_nat (length name)" using len by (simp add: word_le_nat_alt nowrap)
  then show ?thesis using d False by (intro exI [of _ False] exI [of _ op]) (simp add: AddName_def)
qed

theorem addname_adds_witness:
  "\<exists>ok op'. AddName ref_lib 7 [98] 0 ex_dir_txn = Inr (ok, op') \<and>
     (ok \<longrightarrow> (\<exists>off ents'. dir_ok ref_lib ref_used ref_range op' 0 ents' \<and> dir_locs ents' = [[97] \<mapsto> (5, 0), [98] \<mapsto> (7, off)]))"
proof -
  have "128 * length ex_ents + 128 \<le> 1073774592" by (simp add: ex_ents_def)
  from addname_adds [OF ref_gojournal ex_dir_ok this, of "[98]" 7] show ?thesis
    by (auto simp: ex_locs split: if_splits)
qed

text \<open>C20: removing a name. \<^verbatim>\<open>RemName\<close> returns without a fault and reports success exactly when the directory has the
  name; afterwards the directory, on disk and in the cache, has the other names and not this one. The
  removal cannot fail for lack of space.\<close>

theorem remname_removes:
  assumes G: "gojournal G on used arange held" and d: "dir_ok G used arange op dip ents" and len: "length name < 112"
  shows "\<exists>ok op'. RemName G name dip op = Inr (ok, op') \<and> (ok \<longleftrightarrow> dir_locs ents name \<noteq> None) \<and>
     (\<exists>ents'. dir_ok G used arange op' dip ents' \<and> length ents' = length ents \<and> dir_locs ents' = (dir_locs ents)(name := None))"
  by (rule gojournal.RemName_ok [OF assms])

theorem remname_removes_witness:
  "\<exists>op' ents'. RemName ref_lib [97] 0 ex_dir_txn = Inr (True, op') \<and> dir_ok ref_lib ref_used ref_range op' 0 ents' \<and>
     dir_locs ents' = Map.empty"
  using remname_removes [OF ref_gojournal ex_dir_ok, of "[97]"] by (auto simp: ex_locs)

text \<open>A new directory. \<^verbatim>\<open>InitDir\<close> on an empty directory returns, and unless no block is free the
  directory then has exactly the names \<^verbatim>\<open>.\<close> and \<^verbatim>\<open>..\<close>, for itself and its parent, and \<^verbatim>\<open>IsDirEmpty\<close>
  reports that it is empty.\<close>

theorem initdir_empty:
  assumes G: "gojournal G on used arange held" and d: "dir_ok G used arange op dip []"
    and i: "Inum (inode_at op dip) \<noteq> 0" "parent \<noteq> 0"
  shows "\<exists>ok op'. InitDir G parent dip op = Inr (ok, op') \<and>
     (if ok then \<exists>ents o1 o2 op''. dir_ok G used arange op' dip ents \<and>
         dir_locs ents = [[46] \<mapsto> (Inum (inode_at op dip), o1), [46, 46] \<mapsto> (parent, o2)] \<and>
         IsDirEmpty G dip op' = Inr (True, op'')
      else exhausted used arange (Atxn op'))"
proof -
  obtain ok op' where r: "InitDir G parent dip op = Inr (ok, op')"
     "if ok then \<exists>ents o1 o2. dir_ok G used arange op' dip ents \<and> length ents \<le> 2 \<and>
         dir_locs ents = [[46] \<mapsto> (Inum (inode_at op dip), o1), [46, 46] \<mapsto> (parent, o2)]
      else exhausted used arange (Atxn op')"
    using gojournal.InitDir_ok [OF G d i] by blast
  have emp: "\<exists>op''. IsDirEmpty G dip op' = Inr (True, op'')" if "dir_ok G used arange op' dip ents" "length ents \<le> 2" for ents
    using gojournal.IsDirEmpty_ok [OF G, of op' dip ents] that by (auto simp: dir_ok_def)
  show ?thesis
  proof (cases ok)
    case True
    then obtain ents o1 o2 where e: "dir_ok G used arange op' dip ents" "length ents \<le> 2"
        "dir_locs ents = [[46] \<mapsto> (Inum (inode_at op dip), o1), [46, 46] \<mapsto> (parent, o2)]" using r(2) by auto
    obtain op'' where "IsDirEmpty G dip op' = Inr (True, op'')" using emp [OF e(1,2)] by blast
    then show ?thesis using r(1) True e by (simp del: fun_upd_apply) blast
  qed (use r in \<open>auto intro!: exI [of _ ok]\<close>)
qed

definition ex_newdir :: "(u64 \<Rightarrow> nat \<Rightarrow> byte, ref_op, bool list, u64 list, ref_disk) FsTxn" where
  "ex_newdir = put_inode 0 (ex_dir\<lparr>Size := 0, inode_Dcache := Some MkDcache\<rparr>) ex_dir_txn"

lemma ex_newdir_ok: "dir_ok ref_lib ref_used ref_range ex_newdir 0 []"
proof -
  have "file_inv ref_lib ref_used ref_range (Atxn ex_dir_txn) (ex_dir\<lparr>Size := 0, inode_Dcache := Some MkDcache\<rparr>)"
    using ex_dir_inv by (simp add: file_inv_def)
  moreover have "Kind ex_dir = NF3DIR" by (simp add: ex_dir_def)
  moreover have "dc_names MkDcache = dir_locs []" "Lastoff MkDcache = 0"
    using dcache.names_empty by (simp_all add: dir_locs_def fun_eq_iff MkDcache_def dc_names_def)
  ultimately show ?thesis
    by (simp add: dir_ok_def dir_is_def ex_newdir_def put_inode_def inode_at_def uniq_def live_def)
qed

theorem initdir_empty_witness:
  "\<exists>ok op'. InitDir ref_lib 1 0 ex_newdir = Inr (ok, op') \<and> (ok \<longrightarrow> (\<exists>op''. IsDirEmpty ref_lib 0 op' = Inr (True, op'')))"
proof -
  have "Inum (inode_at ex_newdir 0) \<noteq> 0" by (simp add: ex_newdir_def put_inode_def inode_at_def ex_dir_def)
  from initdir_empty [OF ref_gojournal ex_newdir_ok this, of 1] show ?thesis by (auto split: if_splits)
qed

text \<open>Directory entries round trip. An entry with a name of at most 112 bytes is encoded in 128 bytes from which
  exactly this entry is decoded, so that entries have the same encoding only if they are the same.\<close>

theorem dirent_roundtrip:
  assumes G: "gojournal G on used arange held" and e: "length (de_name e) \<le> 112"
  shows "\<exists>b. encodeDirEnt G e = Inr b \<and> length b = 128 \<and> decodeDirEnt G b = Inr e"
  by (rule gojournal.encodeDirEnt_roundtrip [OF G]) (simp add: ent_wf_def e)

theorem dirent_roundtrip_witness:
  "\<exists>b. encodeDirEnt ref_lib \<lparr>de_inum = 5, de_name = [97]\<rparr> = Inr b \<and> decodeDirEnt ref_lib b = Inr \<lparr>de_inum = 5, de_name = [97]\<rparr>"
  using dirent_roundtrip [OF ref_gojournal, of "\<lparr>de_inum = 5, de_name = [97]\<rparr>"] by auto

end
