(* ===== verification/FsTxnSpec.thy ===== *)
theory FsTxnSpec
  imports FsTxn GoLibRef
begin

text \<open>
  The locking discipline of transactions: the locks that are held are those of the inodes in
  \<^verbatim>\<open>op.inodes\<close>, every pointer of the inode cache and of \<^verbatim>\<open>op.inodes\<close> leads to the inode of its number, and
  the end of a transaction, by commit or abort, releases every lock.
\<close>

definition icache_ok :: "('log, 'alc, 'lm, 'd) FsState \<Rightarrow> bool" where
  "icache_ok st \<longleftrightarrow> cache_inv (Icache st) \<and>
     (\<forall>i e r. entries (Icache st) i = Some e \<longrightarrow> Obj (slot e) = Some r \<longrightarrow> r < inext st \<and> Inum (iobj st r) = i)"

definition owned_ok :: "('log, 'op, 'alc, 'lm, 'd) FsTxn \<Rightarrow> bool" where
  "owned_ok op \<longleftrightarrow> distinct (map fst (inodes op)) \<and>
     (\<forall>(i, r) \<in> set (inodes op). r < inext (Fs op) \<and> Inum (iobj (Fs op) r) = i)"

definition fs_idle :: "('lm \<Rightarrow> u64 set) \<Rightarrow> ('log, 'alc, 'lm, 'd) FsState \<Rightarrow> bool" where
  "fs_idle held st \<longleftrightarrow> icache_ok st \<and> held (Lockmap st) = {}"

definition txn_inv :: "('lm \<Rightarrow> u64 set) \<Rightarrow> ('log, 'op, 'alc, 'lm, 'd) FsTxn \<Rightarrow> bool" where
  "txn_inv held op \<longleftrightarrow> icache_ok (Fs op) \<and> owned_ok op \<and> held (Lockmap (Fs op)) = fst ` set (inodes op)"

text \<open>
  What a transaction does between its begin and its end. The code works on an inode only through a
  pointer it got, and no method changes the number of an inode.
\<close>

inductive txn_run ::
    "('log, 'op, 'alc, 'lm, 'd) golib \<Rightarrow> ('log, 'op, 'alc, 'lm, 'd) FsTxn \<Rightarrow> ('log, 'op, 'alc, 'lm, 'd) FsTxn \<Rightarrow> bool"
  for G s where
  t_start: "txn_run G s s"
| t_inum_free: "txn_run G s t \<Longrightarrow> GetInodeInumFree G inum t = Inr (r, u) \<Longrightarrow> txn_run G s u"
| t_inum: "txn_run G s t \<Longrightarrow> GetInodeInum G inum t = Inr (r', u) \<Longrightarrow> txn_run G s u"
| t_fh: "txn_run G s t \<Longrightarrow> GetInodeFh G fh3 t = Inr (r', u) \<Longrightarrow> txn_run G s u"
| t_alloc: "txn_run G s t \<Longrightarrow> AllocInode G kind t = Inr (r', u) \<Longrightarrow> txn_run G s u"
| t_release: "txn_run G s t \<Longrightarrow> txn_run G s (ReleaseInode G r t)"
| t_inode: "txn_run G s t \<Longrightarrow> Inum ip = Inum (inode_at t r) \<Longrightarrow> txn_run G s (put_inode r ip t)"
| t_atxn: "txn_run G s t \<Longrightarrow> atxn_run G (Atxn t) atxn \<Longrightarrow> txn_run G s (t\<lparr>Atxn := atxn\<rparr>)"

section \<open>Single operations\<close>

lemma atxn_run_trans: "atxn_run G t u \<Longrightarrow> atxn_run G s t \<Longrightarrow> atxn_run G s u"
  by (induction rule: atxn_run.induct) (auto intro: atxn_run.intros)

lemma txn_inv_Atxn [simp]: "txn_inv held (op\<lparr>Atxn := atxn\<rparr>) = txn_inv held op"
  by (simp add: txn_inv_def owned_ok_def)

lemma inode_at_Atxn [simp]: "inode_at (op\<lparr>Atxn := atxn\<rparr>) r = inode_at op r"
  by (simp add: inode_at_def)

lemma inode_at_put [simp]: "inode_at (put_inode r ip op) s = (if s = r then ip else inode_at op s)"
  by (simp add: inode_at_def put_inode_def)

lemma inodes_put [simp]: "inodes (put_inode r ip op) = inodes op"
  by (simp add: put_inode_def)

lemma txn_inv_put: "txn_inv held op \<Longrightarrow> Inum ip = Inum (inode_at op r) \<Longrightarrow> txn_inv held (put_inode r ip op)"
  by (auto simp: txn_inv_def icache_ok_def owned_ok_def put_inode_def inode_at_def)

lemma txn_inv_owned: "txn_inv held op \<Longrightarrow> (i, r) \<in> set (inodes op) \<Longrightarrow> Inum (inode_at op r) = i"
  by (auto simp: txn_inv_def owned_ok_def inode_at_def)

lemma keys_delete: "fst ` set (AList.delete k al) = fst ` set al - {k}"
  by (auto simp: AList.delete_eq)

lemma in_delete: "p \<in> set (AList.delete k al) \<Longrightarrow> p \<in> set al"
  by (simp add: AList.delete_eq)

context lockmap_lib
begin

lemma ReleaseInode_fields:
  "Fs (ReleaseInode G r op) = (Fs op)\<lparr>Lockmap := Release G (Lockmap (Fs op)) (Inum (inode_at op r))\<rparr>"
  "inodes (ReleaseInode G r op) = AList.delete (Inum (inode_at op r)) (inodes op)"
  "Atxn (ReleaseInode G r op) = Atxn op"
  by (simp_all add: ReleaseInode_def doneInode_def Let_def)

lemma ReleaseInode_inv: "txn_inv held op \<Longrightarrow> txn_inv held (ReleaseInode G r op)"
  by (auto simp: txn_inv_def icache_ok_def owned_ok_def ReleaseInode_fields release keys_delete
        AList.distinct_delete dest: in_delete)

lemma releaseInodes_fold:
  assumes "\<And>i r. (i, r) \<in> set l \<Longrightarrow> Inum (inode_at op r) = i"
  shows "let op' = foldl (\<lambda>op (_, ip). ReleaseInode G ip op) op l
     in held (Lockmap (Fs op')) = held (Lockmap (Fs op)) - fst ` set l \<and>
        (\<exists>lm. Fs op' = (Fs op)\<lparr>Lockmap := lm\<rparr>) \<and> Atxn op' = Atxn op \<and>
        inodes op' = filter (\<lambda>(i, r). i \<notin> fst ` set l) (inodes op)"
  using assms
proof (induction l arbitrary: op)
  case Nil
  have "\<exists>lm. Fs op = (Fs op)\<lparr>Lockmap := lm\<rparr>" by (rule exI [of _ "Lockmap (Fs op)"]) simp
  then show ?case by (simp add: Let_def case_prod_beta)
next
  case (Cons p l)
  obtain i r where p: "p = (i, r)" by (cases p)
  let ?op = "ReleaseInode G r op"
  have i: "Inum (inode_at op r) = i" using Cons.prems p by simp
  have at: "inode_at ?op s = inode_at op s" for s by (simp add: inode_at_def ReleaseInode_fields)
  have "Inum (inode_at ?op s) = j" if "(j, s) \<in> set l" for j s using Cons.prems [of j s] that at by simp
  from Cons.IH [OF this] show ?case
    by (auto simp: Let_def p i ReleaseInode_fields release AList.delete_eq case_prod_beta intro!: filter_cong)
qed

lemma releaseInodes_ok:
  assumes "txn_inv held op"
  shows "held (Lockmap (Fs (releaseInodes G op))) = {}" "inodes (releaseInodes G op) = []"
    "\<exists>lm. Fs (releaseInodes G op) = (Fs op)\<lparr>Lockmap := lm\<rparr>" "Atxn (releaseInodes G op) = Atxn op"
proof -
  have "\<And>i r. (i, r) \<in> set (inodes op) \<Longrightarrow> Inum (inode_at op r) = i" using txn_inv_owned [OF assms] .
  note f = releaseInodes_fold [of "inodes op" op, OF this, unfolded Let_def, folded releaseInodes_def]
  show "held (Lockmap (Fs (releaseInodes G op))) = {}" "inodes (releaseInodes G op) = []"
    "\<exists>lm. Fs (releaseInodes G op) = (Fs op)\<lparr>Lockmap := lm\<rparr>" "Atxn (releaseInodes G op) = Atxn op"
    using f assms by (auto simp: txn_inv_def filter_empty_conv image_iff)
qed

lemma LockInode_ok:
  assumes inv: "txn_inv held op" and l: "LockInode G inum op = Inr (cs, op')"
  shows "inum \<notin> fst ` set (inodes op)" and "inodes op' = inodes op" and "Atxn op' = Atxn op"
    and "held (Lockmap (Fs op')) = insert inum (held (Lockmap (Fs op)))"
    and "icache_ok (Fs op')" and "entries (Icache (Fs op')) inum \<noteq> None"
    and "Obj cs = Some r \<Longrightarrow> r < inext (Fs op') \<and> Inum (iobj (Fs op') r) = inum"
    and "iobj (Fs op') = iobj (Fs op)" "inext (Fs op') = inext (Fs op)" "Txn (Fs op') = Txn (Fs op)"
    and "fs_Super (Fs op') = fs_Super (Fs op)"
proof -
  from l obtain lm ic where a: "Acquire G (Lockmap (Fs op)) inum = Some lm"
    and c: "LookupSlot inum (Icache (Fs op)) = Inr (cs, ic)"
    and op': "op' = op\<lparr>Fs := (Fs op)\<lparr>Lockmap := lm, Icache := ic\<rparr>\<rparr>"
    by (auto simp: LockInode_def bnd_eq_Inr Let_def split: option.splits)
  have ni: "inum \<notin> held (Lockmap (Fs op))" using acquire_held a by fastforce
  then show "inum \<notin> fst ` set (inodes op)" using inv by (simp add: txn_inv_def)
  show "held (Lockmap (Fs op')) = insert inum (held (Lockmap (Fs op)))" using acquire_free [OF ni] a op' by auto
  show "inodes op' = inodes op" "Atxn op' = Atxn op" "iobj (Fs op') = iobj (Fs op)" "inext (Fs op') = inext (Fs op)"
    "Txn (Fs op') = Txn (Fs op)" "fs_Super (Fs op') = fs_Super (Fs op)" by (simp_all add: op')
  have ci: "cache_inv (Icache (Fs op))" and ip: "\<And>i e r. entries (Icache (Fs op)) i = Some e \<Longrightarrow> Obj (slot e) = Some r \<Longrightarrow>
      r < inext (Fs op) \<and> Inum (iobj (Fs op) r) = i"
    using inv by (auto simp: txn_inv_def icache_ok_def)
  have ci': "cache_inv ic" using icache.lookup_ok [OF ci, of inum] c by auto
  have v: "map_of (cache_abs ic) inum = Some (Obj cs)" by (rule icache.lookup_again [OF ci c])
  then show "entries (Icache (Fs op')) inum \<noteq> None" using map_of_cache_abs [OF ci', of inum] op' by auto
  have old: "entries (Icache (Fs op)) i = Some e" if "entries ic i = Some e" "Obj (slot e) = Some r" for i e r
    using c that by (auto simp: LookupSlot_def bnd_eq_Inr evict_def Let_def split: option.splits if_splits list.splits)
  show ok: "icache_ok (Fs op')" using ci' ip [OF old] by (simp add: op' icache_ok_def)
  show "r < inext (Fs op') \<and> Inum (iobj (Fs op') r) = inum" if "Obj cs = Some r"
    using v that map_of_cache_abs [OF ci', of inum] ip [OF old] op' by auto
qed

lemma addInode_inv:
  assumes "icache_ok (Fs op)" and "owned_ok op" and "held (Lockmap (Fs op)) = insert inum (fst ` set (inodes op))"
    and "inum \<notin> fst ` set (inodes op)" and "r < inext (Fs op)" and "Inum (inode_at op r) = inum"
  shows "txn_inv held (addInode r op) \<and> set (inodes (addInode r op)) = insert (inum, r) (set (inodes op))"
proof -
  have u: "AList.update inum r al = al @ [(inum, r)]" if "inum \<notin> fst ` set al" for al :: "(u64 \<times> iref) list"
    using that by (induction al) auto
  show ?thesis using assms by (auto simp: txn_inv_def addInode_def u owned_ok_def icache_ok_def inode_at_def)
qed

lemma GetInodeLocked_ok:
  assumes inv: "txn_inv held op" and g: "GetInodeLocked G inum op = Inr (r, op')"
  shows "txn_inv held op'" and "inum \<notin> fst ` set (inodes op)" and "set (inodes op') = insert (inum, r) (set (inodes op))"
    and "Inum (inode_at op' r) = inum" and "Atxn op' = Atxn op" and "Txn (Fs op') = Txn (Fs op)"
    and "fs_Super (Fs op') = fs_Super (Fs op)"
proof -
  from g obtain cs op1 where l: "LockInode G inum op = Inr (cs, op1)"
    by (auto simp: GetInodeLocked_def bnd_eq_Inr)
  note lo = LockInode_ok [OF inv l]
  have ow: "owned_ok op1" "held (Lockmap (Fs op1)) = insert inum (fst ` set (inodes op1))"
    using inv lo by (auto simp: txn_inv_def owned_ok_def)
  obtain op2 where op': "op' = addInode r op2" and at: "Inum (inode_at op2 r) = inum" and r: "r < inext (Fs op2)"
    and k: "icache_ok (Fs op2)" "owned_ok op2" "Lockmap (Fs op2) = Lockmap (Fs op1)" "inodes op2 = inodes op1"
      "Atxn op2 = Atxn op1" "Txn (Fs op2) = Txn (Fs op1)" "fs_Super (Fs op2) = fs_Super (Fs op1)"
  proof (cases "Obj cs")
    case None
    from g l None obtain i where d: "Decode G (ReadBuf G (Op (Atxn op1)) (Inum2Addr G (fs_Super (Fs op1)) inum) (INODESZ G * 8)) inum = Inr i"
      and r: "r = inext (Fs op1)"
      and op': "op' = addInode r ((put_inode r i op1)\<lparr>Fs := (Fs (put_inode r i op1))\<lparr>inext := Suc r, Icache := set_slot inum r (Icache (Fs op1))\<rparr>\<rparr>)"
      by (auto simp: GetInodeLocked_def bnd_eq_Inr Let_def put_inode_def)
    have i: "Inum i = inum" using d by (auto simp: Decode_def bnd_eq_Inr)
    have fresh: "r' \<noteq> r" if "entries (Icache (Fs op1)) j = Some e" "Obj (slot e) = Some r'" for j e r'
      using lo(5) that r by (auto simp: icache_ok_def)
    have "cache_inv (set_slot inum r (Icache (Fs op1)))" using lo(5) by (simp add: icache_ok_def set_slot_inv)
    then have "icache_ok (Fs ((put_inode r i op1)\<lparr>Fs := (Fs (put_inode r i op1))\<lparr>inext := Suc r, Icache := set_slot inum r (Icache (Fs op1))\<rparr>\<rparr>))"
      using lo(5) r i fresh by (auto simp: icache_ok_def put_inode_def set_slot_def less_Suc_eq)
    moreover have "owned_ok ((put_inode r i op1)\<lparr>Fs := (Fs (put_inode r i op1))\<lparr>inext := Suc r, Icache := set_slot inum r (Icache (Fs op1))\<rparr>\<rparr>)"
      using ow(1) r by (fastforce simp: owned_ok_def put_inode_def)
    ultimately show thesis using that [OF op'] i r by (simp add: inode_at_def put_inode_def)
  next
    case (Some r1)
    with g l have "r = r1" "op' = addInode r op1" by (auto simp: GetInodeLocked_def)
    then show thesis using that [of op1] lo(5) lo(7) [OF Some] ow(1) by (simp add: inode_at_def)
  qed
  note ad = addInode_inv [of op2 inum r]
  have "txn_inv held op' \<and> set (inodes op') = insert (inum, r) (set (inodes op2))"
    unfolding op' by (rule ad) (use k ow at r lo(1,2) in simp_all)
  then show "txn_inv held op'" "set (inodes op') = insert (inum, r) (set (inodes op))" using k lo(2) by simp_all
  show "inum \<notin> fst ` set (inodes op)" by (rule lo(1))
  show "Inum (inode_at op' r) = inum" "Atxn op' = Atxn op" "Txn (Fs op') = Txn (Fs op)" "fs_Super (Fs op') = fs_Super (Fs op)"
    using at k lo(3,10,11) by (simp_all add: op' addInode_def inode_at_def)
qed

lemma GetInodeInum_ok:
  assumes inv: "txn_inv held op" and g: "GetInodeInum G inum op = Inr (res, op')"
  shows "txn_inv held op' \<and> fs_Super (Fs op') = fs_Super (Fs op) \<and> Txn (Fs op') = Txn (Fs op) \<and> Atxn op' = Atxn op \<and> inum \<notin> fst ` set (inodes op) \<and>
    (case res of
       None \<Rightarrow> set (inodes op') = set (inodes op)
     | Some r \<Rightarrow> set (inodes op') = insert (inum, r) (set (inodes op)) \<and> Inum (inode_at op' r) = inum \<and>
         Kind (inode_at op' r) \<noteq> NF3FREE \<and> Nlink (inode_at op' r) \<noteq> 0)"
proof -
  from g obtain r op1 where l: "GetInodeLocked G inum op = Inr (r, op1)"
    by (auto simp: GetInodeInum_def GetInodeInumFree_def bnd_eq_Inr)
  note lo = GetInodeLocked_ok [OF inv l]
  have "set (inodes (ReleaseInode G r op1)) = set (inodes op)"
    using lo(2-4) by (auto simp: ReleaseInode_fields AList.delete_eq image_iff)
  then show ?thesis using g l lo ReleaseInode_inv [OF lo(1), of r]
    by (auto simp: GetInodeInum_def GetInodeInumFree_def ReleaseInode_fields split: if_splits)
qed

lemma GetInodeFh_ok:
  assumes inv: "txn_inv held op" and fh: "MakeFh G fh3 = Inr fh" and g: "GetInodeFh G fh3 op = Inr (res, op')"
  shows "txn_inv held op' \<and> fs_Super (Fs op') = fs_Super (Fs op) \<and> Txn (Fs op') = Txn (Fs op) \<and> Atxn op' = Atxn op \<and> Ino fh \<notin> fst ` set (inodes op) \<and>
    (case res of
       None \<Rightarrow> set (inodes op') = set (inodes op)
     | Some r \<Rightarrow> set (inodes op') = insert (Ino fh, r) (set (inodes op)) \<and> Inum (inode_at op' r) = Ino fh \<and>
         Kind (inode_at op' r) \<noteq> NF3FREE \<and> Nlink (inode_at op' r) \<noteq> 0 \<and> Gen (inode_at op' r) = fh_Gen fh)"
proof -
  from g fh obtain res1 op1 where l: "GetInodeInum G (Ino fh) op = Inr (res1, op1)"
    by (auto simp: GetInodeFh_def bnd_eq_Inr)
  note lo = GetInodeInum_ok [OF inv l]
  show ?thesis
  proof (cases res1)
    case None
    then show ?thesis using g fh l lo by (auto simp: GetInodeFh_def)
  next
    case (Some r)
    have "set (inodes (ReleaseInode G r op1)) = set (inodes op)"
      using lo Some by (auto simp: ReleaseInode_fields AList.delete_eq image_iff)
    then show ?thesis using g fh l lo Some ReleaseInode_inv [of op1 r]
      by (auto simp: GetInodeFh_def ReleaseInode_fields split: if_splits)
  qed
qed

lemma AllocInode_ok:
  assumes inv: "txn_inv held op" and g: "AllocInode G kind op = Inr (res, op')"
  shows "txn_inv held op' \<and> fs_Super (Fs op') = fs_Super (Fs op) \<and> Txn (Fs op') = Txn (Fs op) \<and> atxn_run G (Atxn op) (Atxn op')"
proof -
  obtain inum atxn where a: "AllocINum G (Atxn op) = (inum, atxn)" by (cases "AllocINum G (Atxn op)")
  show ?thesis
  proof (cases "inum = NULLINUM G")
    case True
    then show ?thesis using g a inv by (auto simp: AllocInode_def intro: run_alloc_inum run_start)
  next
    case False
    from g a False obtain r op1 where l: "GetInodeLocked G inum (op\<lparr>Atxn := atxn\<rparr>) = Inr (r, op1)"
      by (auto simp: AllocInode_def bnd_eq_Inr)
    have inv0: "txn_inv held (op\<lparr>Atxn := atxn\<rparr>)" using inv by simp
    note lo = GetInodeLocked_ok [OF inv0 l]
    have "txn_inv held (put_inode r (InitInode G inum kind (inode_at op1 r)) op1)"
      by (rule txn_inv_put [OF lo(1)]) (simp add: InitInode_def lo(4))
    moreover have "atxn_run G (Atxn op) (Atxn op1)" using lo(5) a by (auto intro: run_alloc_inum run_start)
    ultimately show ?thesis using g a False l lo(1,6,7)
      by (auto simp: AllocInode_def ip_WriteInode_def WriteInode_def bnd_eq_Inr put_inode_def Let_def
            split: if_splits intro: run_write)
  qed
qed

lemma txn_run_inv: "txn_run G s t \<Longrightarrow> txn_inv held s \<Longrightarrow> txn_inv held t"
proof (induction rule: txn_run.induct)
  case (t_fh t fh3 r' u)
  from t_fh.hyps(2) obtain fh where "MakeFh G fh3 = Inr fh" by (auto simp: GetInodeFh_def bnd_eq_Inr)
  then show ?case using GetInodeFh_ok t_fh by blast
qed (auto simp: GetInodeInumFree_def intro: GetInodeLocked_ok(1) ReleaseInode_inv txn_inv_put
       dest: GetInodeInum_ok AllocInode_ok)

lemma txn_run_atxn:
  assumes "txn_run G s t" and "txn_inv held s"
  shows "atxn_run G (Atxn s) (Atxn t) \<and> Txn (Fs t) = Txn (Fs s) \<and> fs_Super (Fs t) = fs_Super (Fs s)"
  using assms
proof (induction rule: txn_run.induct)
  case (t_inum_free t inum r u)
  with txn_run_inv have "txn_inv held t" by blast
  from GetInodeLocked_ok [OF this] t_inum_free show ?case by (auto simp: GetInodeInumFree_def)
next
  case (t_inum t inum r u)
  with txn_run_inv have "txn_inv held t" by blast
  from GetInodeInum_ok [OF this t_inum.hyps(2)] t_inum show ?case by simp
next
  case (t_fh t fh3 r u)
  from t_fh.hyps(2) obtain fh where f: "MakeFh G fh3 = Inr fh" by (auto simp: GetInodeFh_def bnd_eq_Inr)
  from t_fh txn_run_inv have "txn_inv held t" by blast
  from GetInodeFh_ok [OF this f t_fh.hyps(2)] t_fh show ?case by simp
next
  case (t_alloc t kind r u)
  with txn_run_inv have "txn_inv held t" by blast
  from AllocInode_ok [OF this t_alloc.hyps(2)] t_alloc show ?case by (auto intro: atxn_run_trans)
qed (auto simp: ReleaseInode_fields put_inode_def intro: run_start atxn_run_trans)

lemma Begin_inv: "fs_idle held st \<Longrightarrow> txn_inv held (FsTxn_Begin G st)"
  by (simp add: fs_idle_def txn_inv_def FsTxn_Begin_def owned_ok_def)

lemma Abort_idle: "txn_inv held op \<Longrightarrow> fs_idle held (Fs (Abort G op)) \<and> inodes (Abort G op) = []"
  using releaseInodes_ok [of op]
  by (auto simp: Abort_def put_allocs_def Let_def fs_idle_def txn_inv_def icache_ok_def)

lemma commitWait_fs:
  assumes inv: "txn_inv held op" and c: "commitWait G w op = (ok, op')"
  shows "\<exists>lm lg. held lm = {} \<and> Fs op' = (Fs op)\<lparr>Lockmap := lm, Txn := lg,
     fs_Balloc := foldl (FreeNum G) (Balloc (Atxn op)) (freeBnums (Atxn op)),
     fs_Ialloc := foldl (FreeNum G) (Ialloc (Atxn op)) (freeInums (Atxn op))\<rparr>"
proof -
  obtain lg where op': "op' = postCommit G ((preCommit G op)\<lparr>Fs := (Fs op)\<lparr>Txn := lg\<rparr>\<rparr>)"
    using c by (auto simp: commitWait_def preCommit_def Let_def split: prod.splits)
  let ?op = "(preCommit G op)\<lparr>Fs := (Fs op)\<lparr>Txn := lg\<rparr>\<rparr>"
  have "txn_inv held ?op" using inv by (simp add: preCommit_def txn_inv_def icache_ok_def owned_ok_def)
  from releaseInodes_ok [OF this] obtain lm where "held lm = {}" "Fs (releaseInodes G ?op) = (Fs ?op)\<lparr>Lockmap := lm\<rparr>"
      "Atxn (releaseInodes G ?op) = Atxn ?op" by auto
  then show ?thesis
    by (intro exI [of _ lm] exI [of _ lg]) (simp add: op' postCommit_def put_allocs_def Let_def PostCommit_def preCommit_def)
qed

lemma idle_txn_inv: "fs_idle held (Fs op) \<Longrightarrow> inodes op = [] \<Longrightarrow> txn_inv held op"
  by (simp add: fs_idle_def txn_inv_def owned_ok_def)

lemma commitWait_idle: "txn_inv held op \<Longrightarrow> commitWait G w op = (ok, op') \<Longrightarrow> fs_idle held (Fs op')"
  using commitWait_fs [of op w ok op'] by (auto simp: fs_idle_def txn_inv_def icache_ok_def)

lemma CommitFh_idle:
  assumes inv: "txn_inv held op" and c: "CommitFh G op = (ok, op')"
  shows "fs_idle held (Fs op') \<and> inodes op' = []"
proof -
  obtain lg where op': "op' = postCommit G ((preCommit G op)\<lparr>Fs := (Fs op)\<lparr>Txn := lg\<rparr>\<rparr>)"
    using c by (auto simp: CommitFh_def preCommit_def Let_def split: prod.splits)
  let ?op = "(preCommit G op)\<lparr>Fs := (Fs op)\<lparr>Txn := lg\<rparr>\<rparr>"
  have i: "txn_inv held ?op" using inv by (simp add: preCommit_def txn_inv_def icache_ok_def owned_ok_def)
  show ?thesis using releaseInodes_ok [OF i] i
    by (auto simp: op' postCommit_def put_allocs_def Let_def fs_idle_def txn_inv_def icache_ok_def)
qed

end

context gojournal
begin

lemma Abort_undo:
  assumes idle: "fs_idle held st" and run: "txn_run G (FsTxn_Begin G st) op"
  shows "Txn (Fs (Abort G op)) = Txn st \<and> used (fs_Balloc (Fs (Abort G op))) = used (fs_Balloc st) \<and>
     used (fs_Ialloc (Fs (Abort G op))) = used (fs_Ialloc st)"
proof -
  have inv0: "txn_inv held (FsTxn_Begin G st)" by (rule Begin_inv [OF idle])
  have inv: "txn_inv held op" by (rule txn_run_inv [OF run inv0])
  note r = releaseInodes_ok [OF inv]
  from txn_run_atxn [OF run inv0] have a: "atxn_run G (Atxn (FsTxn_Begin G st)) (Atxn op)" and
    lg: "Txn (Fs op) = Txn st" by (simp_all add: FsTxn_Begin_def)
  have "alloc_since used arange (used (fs_Balloc st)) (used (fs_Ialloc st)) (Atxn (FsTxn_Begin G st))"
    by (simp add: alloc_since_def AllocTxn_Begin_def FsTxn_Begin_def)
  with atxn_run_since [OF a] have "alloc_since used arange (used (fs_Balloc st)) (used (fs_Ialloc st)) (Atxn op)" .
  then show ?thesis using r lg
    by (auto simp: Abort_def put_allocs_def Let_def alloc_since_def PostAbort_def used_foldl_FreeNum)
qed

end

text \<open>An inode in the cache.\<close>

definition cached :: "('log, 'alc, 'lm, 'd) FsState \<Rightarrow> u64 \<Rightarrow> iref \<Rightarrow> bool" where
  "cached st inum r \<longleftrightarrow> (\<exists>e. entries (Icache st) inum = Some e \<and> Obj (slot e) = Some r)"

context lockmap_lib
begin

lemma get_cached:
  assumes idle: "fs_idle held st" and c: "cached st inum r"
  obtains op where "GetInodeInumFree G inum (FsTxn_Begin G st) = Inr (r, op)" and "txn_inv held op"
    and "inode_at op r = iobj st r" and "Atxn op = Atxn (FsTxn_Begin G st)"
    and "entries (Icache (Fs op)) = entries (Icache st)" and "iobj (Fs op) = iobj st" and "fs_Super (Fs op) = fs_Super st"
proof -
  let ?b = "FsTxn_Begin G st"
  obtain e where e: "entries (Icache st) inum = Some e" "Obj (slot e) = Some r"
    using c by (auto simp: cached_def)
  have ci: "cache_inv (Icache st)" using idle by (simp add: fs_idle_def icache_ok_def)
  then have en: "entry_id e = inum" "lru e" using e by (auto simp: cache_inv_def)
  obtain lm where lm: "Acquire G (Lockmap st) inum = Some lm" using acquire_free [of inum "Lockmap st"] idle by (auto simp: fs_idle_def)
  let ?c = "(Icache st)\<lparr>lru_list := remove1 inum (lru_list (Icache st)) @ [inum]\<rparr>"
  let ?op = "addInode r (?b\<lparr>Fs := st\<lparr>Lockmap := lm, Icache := ?c\<rparr>\<rparr>)"
  have g: "GetInodeLocked G inum ?b = Inr (r, ?op)"
    using lm e en by (simp add: GetInodeLocked_def LockInode_def LookupSlot_def FsTxn_Begin_def)
  have "txn_inv held ?op" by (rule GetInodeLocked_ok(1) [OF Begin_inv [OF idle] g])
  then show thesis using that [of ?op] g
    by (simp add: GetInodeInumFree_def addInode_def inode_at_def)
qed

lemma get_cached_fh:
  assumes idle: "fs_idle held st" and c: "cached st inum r" and fh: "MakeFh G fh3 = Inr \<lparr>Ino = inum, fh_Gen = Gen (iobj st r)\<rparr>"
    and k: "Kind (iobj st r) \<noteq> NF3FREE" "Nlink (iobj st r) \<noteq> 0"
  obtains op where "GetInodeFh G fh3 (FsTxn_Begin G st) = Inr (Some r, op)" and "txn_inv held op"
    and "inode_at op r = iobj st r" and "Atxn op = Atxn (FsTxn_Begin G st)"
    and "entries (Icache (Fs op)) = entries (Icache st)" and "iobj (Fs op) = iobj st" and "fs_Super (Fs op) = fs_Super st"
proof (rule get_cached [OF idle c])
  fix op
  assume g: "GetInodeInumFree G inum (FsTxn_Begin G st) = Inr (r, op)" and at: "inode_at op r = iobj st r"
    and h: "txn_inv held op" "Atxn op = Atxn (FsTxn_Begin G st)" "entries (Icache (Fs op)) = entries (Icache st)"
      "iobj (Fs op) = iobj st" "fs_Super (Fs op) = fs_Super st"
  have "GetInodeFh G fh3 (FsTxn_Begin G st) = Inr (Some r, op)"
    using g at fh k by (simp add: GetInodeFh_def GetInodeInum_def)
  from that [OF this h(1) at h(2-5)] show thesis .
qed

end

section \<open>Properties\<close>

text \<open>Locking. Whatever a transaction on an idle file system does between its begin and its end, the locks
  held are those of the inodes it owns, the cache maps every number to the inode of that number, and
  after commit (in any of its forms) or abort no lock is held and the file system is idle again.\<close>

theorem txn_end_releases_locks:
  assumes G: "gojournal G on used arange held" and idle: "fs_idle held st" and run: "txn_run G (FsTxn_Begin G st) op"
  shows "held (Lockmap (Fs op)) = fst ` set (inodes op) \<and> icache_ok (Fs op) \<and>
     (\<forall>wait. fs_idle held (Fs (snd (commitWait G wait op))) \<and> inodes (snd (commitWait G wait op)) = []) \<and>
     fs_idle held (Fs (snd (CommitFh G op))) \<and> inodes (snd (CommitFh G op)) = [] \<and>
     fs_idle held (Fs (Abort G op)) \<and> inodes (Abort G op) = []"
proof -
  have L: "lockmap_lib G held" using G by (simp add: gojournal_def)
  have inv: "txn_inv held op" by (rule lockmap_lib.txn_run_inv [OF L run lockmap_lib.Begin_inv [OF L idle]])
  have e: "fs_idle held (Fs (put_allocs ((releaseInodes G op1)\<lparr>Atxn := a\<rparr>))) \<and> inodes (releaseInodes G op1) = []"
    if "txn_inv held op1" for op1 a
    using lockmap_lib.releaseInodes_ok [OF L that] that
    by (auto simp: put_allocs_def fs_idle_def txn_inv_def icache_ok_def)
  have p: "fs_idle held (Fs (postCommit G (op1\<lparr>Fs := (Fs op1)\<lparr>Txn := lg\<rparr>\<rparr>))) \<and>
      inodes (postCommit G (op1\<lparr>Fs := (Fs op1)\<lparr>Txn := lg\<rparr>\<rparr>)) = []" if "txn_inv held op1" for op1 lg
  proof -
    have "txn_inv held (op1\<lparr>Fs := (Fs op1)\<lparr>Txn := lg\<rparr>\<rparr>)"
      using that by (simp add: txn_inv_def icache_ok_def owned_ok_def)
    from e [OF this] show ?thesis by (simp add: postCommit_def Let_def put_allocs_def)
  qed
  have pre: "txn_inv held (preCommit G op)" using inv by (simp add: preCommit_def)
  show ?thesis using inv e [OF inv] p [OF pre]
    by (auto simp: txn_inv_def commitWait_def CommitFh_def Abort_def Let_def case_prod_beta put_allocs_def)
qed

definition ex_inode :: Inode where
  "ex_inode = zero_Inode\<lparr>Inum := 5, Kind := NF3REG, Nlink := 1, Gen := 3\<rparr>"

definition ex_state :: "(u64 \<Rightarrow> nat \<Rightarrow> byte, bool list, u64 list, ref_disk) FsState" where
  "ex_state = \<lparr>fs_Super = MkFsSuper ref_lib (2000, \<lambda>_. []), Txn = (\<lambda>b i. 0),
     Icache = \<lparr>entries = [5 \<mapsto> \<lparr>slot = \<lparr>Obj = Some 0\<rparr>, lru = True, entry_id = 5\<rparr>], lru_list = [5], cache_sz = 100, cnt = 1\<rparr>,
     Lockmap = [], fs_Balloc = [], fs_Ialloc = [], iobj = (\<lambda>_. ex_inode), inext = 1\<rparr>"

lemma ex_state_idle: "fs_idle set ex_state"
  by (auto simp: fs_idle_def ex_state_def icache_ok_def cache_inv_def ex_inode_def)

lemma ref_lib_locks: "Acquire ref_lib lm i = (if i \<in> set lm then None else Some (i # lm))"
  by (simp add: ref_lib_def)

lemma ex_get: "\<exists>op. GetInodeLocked ref_lib 5 (FsTxn_Begin ref_lib ex_state) = Inr (0, op) \<and> iobj (Fs op) 0 = ex_inode"
  by (simp add: GetInodeLocked_def LockInode_def LookupSlot_def FsTxn_Begin_def ex_state_def ref_lib_locks addInode_def)

theorem txn_end_releases_locks_witness:
  "\<exists>r op. GetInodeInumFree ref_lib 5 (FsTxn_Begin ref_lib ex_state) = Inr (r, op) \<and>
     fs_idle set (Fs (Abort ref_lib op)) \<and> inodes (Abort ref_lib op) = []"
proof -
  obtain r op where g: "GetInodeInumFree ref_lib 5 (FsTxn_Begin ref_lib ex_state) = Inr (r, op)"
    using ex_get by (auto simp: GetInodeInumFree_def)
  have "txn_run ref_lib (FsTxn_Begin ref_lib ex_state) op" by (rule t_inum_free [OF t_start g])
  from txn_end_releases_locks [OF ref_gojournal ex_state_idle this] g show ?thesis by blast
qed

text \<open>Abort. A transaction that is aborted, whatever it did, leaves the log as it was and both in-memory
  allocators with exactly the numbers in use they had before the transaction.\<close>

theorem abort_undoes:
  assumes G: "gojournal G on used arange held" and idle: "fs_idle held st" and run: "txn_run G (FsTxn_Begin G st) op"
  shows "Txn (Fs (Abort G op)) = Txn st \<and> used (fs_Balloc (Fs (Abort G op))) = used (fs_Balloc st) \<and>
     used (fs_Ialloc (Fs (Abort G op))) = used (fs_Ialloc st)"
  by (rule gojournal.Abort_undo [OF assms])

theorem abort_undoes_witness:
  "\<exists>op. txn_run ref_lib (FsTxn_Begin ref_lib (ex_state\<lparr>fs_Ialloc := [False, False, False]\<rparr>)) op \<and>
     allocInums (Atxn op) = [1] \<and> ref_used (fs_Ialloc (Fs (Abort ref_lib op))) = ref_used [False, False, False]"
proof -
  let ?st = "ex_state\<lparr>fs_Ialloc := [False, False, False]\<rparr>"
  let ?a = "snd (AllocINum ref_lib (Atxn (FsTxn_Begin ref_lib ?st)))"
  let ?op = "(FsTxn_Begin ref_lib ?st)\<lparr>Atxn := ?a\<rparr>"
  have "fs_idle set ?st" using ex_state_idle by (simp add: fs_idle_def icache_ok_def)
  moreover have run: "txn_run ref_lib (FsTxn_Begin ref_lib ?st) ?op"
    by (rule t_atxn [OF t_start run_alloc_inum [OF run_start prod.collapse [symmetric]]])
  ultimately have "ref_used (fs_Ialloc (Fs (Abort ref_lib ?op))) = ref_used [False, False, False]"
    using abort_undoes [OF ref_gojournal] by fastforce
  moreover have "allocInums (Atxn ?op) = [1]"
    by (simp add: FsTxn_Begin_def AllocTxn_Begin_def AllocINum_def ref_lib_def ref_alloc_def)
  ultimately show ?thesis using run by blast
qed

definition bitmaps_agree ::
    "('log, 'op, 'alc, 'lm, 'd) golib \<Rightarrow> ('alc \<Rightarrow> u64 set) \<Rightarrow> 'op \<Rightarrow> ('log, 'alc, 'lm, 'd) FsState \<Rightarrow> bool" where
  "bitmaps_agree G used op st \<longleftrightarrow>
     (\<forall>n. unat n < 32768 * unat (NBlockBitmap (fs_Super st)) \<longrightarrow>
        (bitmap_bit G op (BitmapBlockStart (fs_Super st)) n \<longleftrightarrow> n \<in> used (fs_Balloc st))) \<and>
     (\<forall>n. unat n < 32768 \<longrightarrow>
        (bitmap_bit G op (BitmapInodeStart (fs_Super st)) n \<longleftrightarrow> n \<in> used (fs_Ialloc st)))"

lemma atxn_run_super: "atxn_run G s t \<Longrightarrow> at_Super t = at_Super s"
  by (induction rule: atxn_run.induct) (auto dest: AllocBlock_Inr AllocINum_eq FreeBlock_Inr(1) simp: FreeINum_def)

context gojournal
begin

lemma on_WriteBits: "on lg (Op atxn) \<Longrightarrow> on lg (Op (WriteBits G ns b al atxn))"
  by (induction ns arbitrary: atxn) (simp_all add: Let_def on_ow)

lemma on_PreCommit: "on lg (Op atxn) \<Longrightarrow> on lg (Op (PreCommit G atxn))"
  by (simp add: PreCommit_def Let_def on_WriteBits)

text \<open>The state after a commit attempt: the allocators have the frees applied whether or not it succeeded.\<close>

lemma commitWait_state:
  assumes idle: "fs_idle held st" and run: "txn_run G (FsTxn_Begin G st) op"
    and on': "on (Txn st) (Op (Atxn op))" and c: "commitWait G wait op = (ok, op')"
    and fb: "set (freeBnums (Atxn op)) \<subseteq> arange (Balloc (Atxn op))" and fi: "set (freeInums (Atxn op)) \<subseteq> arange (Ialloc (Atxn op))"
  shows "used (fs_Balloc (Fs op')) = used (fs_Balloc st) \<union> set (allocBnums (Atxn op)) - set (freeBnums (Atxn op))"
    and "used (fs_Ialloc (Fs op')) = used (fs_Ialloc st) \<union> set (allocInums (Atxn op)) - set (freeInums (Atxn op))"
    and "ReadBuf G (jrnl_Begin G (Txn (Fs op'))) a sz =
           (if ok then ReadBuf G (Op (PreCommit G (Atxn op))) a sz else ReadBuf G (jrnl_Begin G (Txn st)) a sz)"
    and "fs_Super (Fs op') = fs_Super st" and "at_Super (Atxn op) = fs_Super st"
proof -
  have inv0: "txn_inv held (FsTxn_Begin G st)" by (rule Begin_inv [OF idle])
  have inv: "txn_inv held op" by (rule txn_run_inv [OF run inv0])
  from txn_run_atxn [OF run inv0] have a: "atxn_run G (Atxn (FsTxn_Begin G st)) (Atxn op)" and lg: "Txn (Fs op) = Txn st"
    and su: "fs_Super (Fs op) = fs_Super st" by (simp_all add: FsTxn_Begin_def)
  show "at_Super (Atxn op) = fs_Super st" using atxn_run_super [OF a] by (simp add: FsTxn_Begin_def AllocTxn_Begin_def)
  have "alloc_since used arange (used (fs_Balloc st)) (used (fs_Ialloc st)) (Atxn (FsTxn_Begin G st))"
    by (simp add: alloc_since_def AllocTxn_Begin_def FsTxn_Begin_def)
  with atxn_run_since [OF a] have al: "alloc_since used arange (used (fs_Balloc st)) (used (fs_Ialloc st)) (Atxn op)" .
  obtain lg' where cw: "CommitWait G (Op (PreCommit G (Atxn op))) wait (Txn st) = (ok, lg')"
    and op': "op' = postCommit G ((preCommit G op)\<lparr>Fs := (Fs op)\<lparr>Txn := lg'\<rparr>\<rparr>)"
    using c lg by (auto simp: commitWait_def preCommit_def Let_def split: prod.splits)
  let ?op = "(preCommit G op)\<lparr>Fs := (Fs op)\<lparr>Txn := lg'\<rparr>\<rparr>"
  have "txn_inv held ?op" using inv by (simp add: preCommit_def txn_inv_def icache_ok_def owned_ok_def)
  note r = releaseInodes_ok [OF this]
  show "used (fs_Balloc (Fs op')) = used (fs_Balloc st) \<union> set (allocBnums (Atxn op)) - set (freeBnums (Atxn op))"
    "used (fs_Ialloc (Fs op')) = used (fs_Ialloc st) \<union> set (allocInums (Atxn op)) - set (freeInums (Atxn op))"
    using al fb fi r(4) by (auto simp: op' postCommit_def put_allocs_def Let_def preCommit_def PostCommit_def alloc_since_def used_foldl_FreeNum)
  have "Txn (Fs op') = lg'" and "fs_Super (Fs op') = fs_Super st" using r(3) su
    by (auto simp: op' postCommit_def put_allocs_def Let_def)
  then show "fs_Super (Fs op') = fs_Super st" "ReadBuf G (jrnl_Begin G (Txn (Fs op'))) a sz =
      (if ok then ReadBuf G (Op (PreCommit G (Atxn op))) a sz else ReadBuf G (jrnl_Begin G (Txn st)) a sz)"
    using commit_ok [OF on_PreCommit [OF on'], of wait lg'] commit_fail [of "Op (PreCommit G (Atxn op))" wait "Txn st" lg'] cw
    by auto
qed

end

text \<open>C26: commit and the bitmaps. On a well-formed disk layout, if the bitmap bits that the transaction sees were the numbers in use of the in-memory
  allocators when it began (it writes no bitmap block itself), and the numbers it allocated and freed lie in the bitmaps and in the range of the allocators, then
  after a commit that succeeds the bitmap bits on the log are again the numbers in use of the allocators, for every block number
  and every inode number.\<close>

theorem commit_keeps_bitmaps:
  assumes G: "gojournal G on used arange held" and idle: "fs_idle held st" and run: "txn_run G (FsTxn_Begin G st) op"
    and on': "on (Txn st) (Op (Atxn op))" and wf: "super_wf G (fs_Super st)" and rng: "bits_in_range (Atxn op)"
    and fb: "set (freeBnums (Atxn op)) \<subseteq> arange (Balloc (Atxn op))" and fi: "set (freeInums (Atxn op)) \<subseteq> arange (Ialloc (Atxn op))"
    and agree: "bitmaps_agree G used (Op (Atxn op)) st" and c: "commitWait G wait op = (True, op')"
  shows "bitmaps_agree G used (jrnl_Begin G (Txn (Fs op'))) (Fs op')"
proof -
  note s = gojournal.commitWait_state [OF G idle run on' c fb fi]
  have bb: "bitmap_bit G (jrnl_Begin G (Txn (Fs op'))) b n = bitmap_bit G (Op (PreCommit G (Atxn op))) b n" for b n
    using s(3) by (simp add: bitmap_bit_def)
  have wf': "super_wf G (at_Super (Atxn op))" using wf s(5) by simp
  show ?thesis
    using gojournal.PreCommit_block_bit [OF G wf' rng] gojournal.PreCommit_inode_bit [OF G wf' rng] agree
    unfolding bitmaps_agree_def bb s(1,2,4,5) by auto
qed

text \<open>A file system with inode 1 in use, and a transaction that has allocated inode 2.\<close>

definition ex_bits :: "(u64 \<Rightarrow> nat \<Rightarrow> byte, bool list, u64 list, ref_disk) FsState" where
  "ex_bits = ex_state\<lparr>fs_Ialloc := [False, True, False], Txn := (\<lambda>b i. if b = 514 \<and> i = 0 then 2 else 0)\<rparr>"

lemma ex_bits_super: "fs_Super ex_bits = MkFsSuper ref_lib (2000, \<lambda>_. [])" "super_wf ref_lib (fs_Super ex_bits)"
  using ex_super_wf by (simp_all add: ex_bits_def ex_state_def ex_super_def)

lemma ex_bits_start: "BitmapInodeStart (fs_Super ex_bits) = 514" "BitmapBlockStart (fs_Super ex_bits) = 513"
    "NBlockBitmap (fs_Super ex_bits) = 1"
  by (simp_all add: ex_bits_super BitmapInodeStart_def BitmapBlockStart_def MkFsSuper_def ref_lib_def)

lemma ex_bits_idle: "fs_idle set ex_bits"
  using ex_state_idle by (simp add: ex_bits_def fs_idle_def icache_ok_def)

lemma ex_bits_bit:
  assumes r: "\<And>a. ReadBuf G op a 1 = ref_read (jrnl_Begin ref_lib (Txn ex_bits)) a 1" and m: "MkBitAddr G = MkBitAddr ref_lib"
    and n: "unat n < 32768"
  shows "bitmap_bit G op 514 n \<longleftrightarrow> n = 1" and "\<not> bitmap_bit G op 513 n"
proof -
  have d: "n div 32768 = 0" "n mod 32768 = n" using n by (auto intro: u64_eqI simp: unat_div unat_mod)
  have rd: "ReadBuf G op (MkBitAddr G b n) 1 = [if b = 514 \<and> unat n div 8 = 0 then 2 else 0]" for b
    using d by (simp add: r m common_lib.MkBitAddr [OF ref_common] ref_read_def ex_bits_def)
  have "unat n div 8 = 0 \<and> unat n mod 8 = 1 \<longleftrightarrow> unat n = 1" by presburger
  then have eq: "unat n div 8 = 0 \<and> unat n mod 8 = 1 \<longleftrightarrow> n = 1" using u64_eqI [of n 1] by auto
  have two: "bit (2 :: byte) k \<longleftrightarrow> k = 1" for k by (auto simp: bit_2_iff)
  have "bitmap_bit G op 514 n \<longleftrightarrow> unat n div 8 = 0 \<and> bit (2 :: byte) (unat n mod 8)"
    unfolding bitmap_bit_def rd by (auto simp: unat_mod div_eq_0_iff)
  then show "bitmap_bit G op 514 n \<longleftrightarrow> n = 1" unfolding two eq .
  show "\<not> bitmap_bit G op 513 n" unfolding bitmap_bit_def rd by simp
qed

lemma ex_bits_agree:
  assumes r: "\<And>a. ReadBuf G op a 1 = ref_read (jrnl_Begin ref_lib (Txn ex_bits)) a 1" and m: "MkBitAddr G = MkBitAddr ref_lib"
  shows "bitmaps_agree G ref_used op ex_bits"
proof -
  have "n \<in> ref_used [False, True, False] \<longleftrightarrow> n = 1" for n
  proof
    assume "n \<in> ref_used [False, True, False]"
    then have "unat n = unat (1 :: u64)" by (auto simp: ref_used_def nth_Cons' split: if_splits)
    then show "n = 1" by (rule u64_eqI)
  qed (simp add: ref_used_def)
  then show ?thesis using ex_bits_bit [OF r m]
    by (simp add: bitmaps_agree_def ex_bits_start) (simp add: ex_bits_def ex_state_def ref_used_False)
qed

theorem commit_keeps_bitmaps_witness:
  "\<exists>op op'. txn_run ref_lib (FsTxn_Begin ref_lib ex_bits) op \<and> freeInums (Atxn op) = [1] \<and>
     commitWait ref_lib True op = (True, op') \<and> bitmaps_agree ref_lib ref_used (jrnl_Begin ref_lib (Txn (Fs op'))) (Fs op')"
proof -
  let ?b = "FsTxn_Begin ref_lib ex_bits"
  let ?op = "?b\<lparr>Atxn := FreeINum 1 (Atxn ?b)\<rparr>"
  have run: "txn_run ref_lib ?b ?op" by (rule t_atxn [OF t_start run_free_inum [OF run_start]])
  have f: "Op (Atxn ?op) = jrnl_Begin ref_lib (Txn ex_bits)" "freeInums (Atxn ?op) = [1]" "freeBnums (Atxn ?op) = []"
    "allocBnums (Atxn ?op) = []" "allocInums (Atxn ?op) = []" "Ialloc (Atxn ?op) = [False, True, False]"
    by (simp_all add: FsTxn_Begin_def AllocTxn_Begin_def FreeINum_def ex_bits_def)
  obtain op' where c: "commitWait ref_lib True ?op = (True, op')"
    by (cases "commitWait ref_lib True ?op") (simp add: commitWait_def Let_def)
  have "bitmaps_agree ref_lib ref_used (Op (Atxn ?op)) ex_bits" by (rule ex_bits_agree) (simp_all only: f(1) ref_lib_jrnl)
  from commit_keeps_bitmaps [OF ref_gojournal ex_bits_idle run _ ex_bits_super(2) _ _ _ this c]
  have "bitmaps_agree ref_lib ref_used (jrnl_Begin ref_lib (Txn (Fs op'))) (Fs op')"
    unfolding f bits_in_range_def by (simp add: ref_on_def ref_range_def)
  then show ?thesis using run f c by blast
qed

text \<open>C32: a commit that fails. \<^verbatim>\<open>commitWait\<close> runs \<^verbatim>\<open>PostCommit\<close> even then: the bitmaps on the log are as they were, but the
  allocators in memory have the transaction's allocations and frees. Every block number and every inode number that was in use before, that a
  bitmap covers and that the transaction freed is then free in memory and in use on the log, so the agreement of bitmaps
  and allocators is lost.\<close>

theorem commit_failure_breaks_bitmaps:
  assumes G: "gojournal G on used arange held" and idle: "fs_idle held st" and run: "txn_run G (FsTxn_Begin G st) op"
    and on': "on (Txn st) (Op (Atxn op))"
    and fb: "set (freeBnums (Atxn op)) \<subseteq> arange (Balloc (Atxn op))" and fi: "set (freeInums (Atxn op)) \<subseteq> arange (Ialloc (Atxn op))"
    and agree: "bitmaps_agree G used (jrnl_Begin G (Txn st)) st" and c: "commitWait G wait op = (False, op')"
  defines "lg' \<equiv> jrnl_Begin G (Txn (Fs op'))"
  shows "(\<forall>b n. bitmap_bit G lg' b n = bitmap_bit G (jrnl_Begin G (Txn st)) b n) \<and>
     used (fs_Balloc (Fs op')) = used (fs_Balloc st) \<union> set (allocBnums (Atxn op)) - set (freeBnums (Atxn op)) \<and>
     used (fs_Ialloc (Fs op')) = used (fs_Ialloc st) \<union> set (allocInums (Atxn op)) - set (freeInums (Atxn op)) \<and>
     (\<forall>n \<in> set (freeBnums (Atxn op)) \<inter> used (fs_Balloc st). unat n < 32768 * unat (NBlockBitmap (fs_Super st)) \<longrightarrow>
        bitmap_bit G lg' (BitmapBlockStart (fs_Super st)) n \<and> n \<notin> used (fs_Balloc (Fs op')) \<and> \<not> bitmaps_agree G used lg' (Fs op')) \<and>
     (\<forall>n \<in> set (freeInums (Atxn op)) \<inter> used (fs_Ialloc st). unat n < 32768 \<longrightarrow>
        bitmap_bit G lg' (BitmapInodeStart (fs_Super st)) n \<and> n \<notin> used (fs_Ialloc (Fs op')) \<and> \<not> bitmaps_agree G used lg' (Fs op'))"
proof -
  note s = gojournal.commitWait_state [OF G idle run on' c fb fi]
  have b: "bitmap_bit G lg' b m = bitmap_bit G (jrnl_Begin G (Txn st)) b m" for b m
    using s(3) by (simp add: bitmap_bit_def lg'_def)
  then show ?thesis using agree s(1,2,4) by (auto simp: bitmaps_agree_def)
qed

definition ref_fail :: "(u64 \<Rightarrow> nat \<Rightarrow> byte, ref_op, bool list, u64 list, ref_disk) golib" where
  "ref_fail = ref_lib\<lparr>CommitWait := \<lambda>op w lg. (False, lg)\<rparr>"

lemma ref_fail_gojournal: "gojournal ref_fail ref_on ref_used ref_range set"
  using ref_gojournal
  by (auto simp: gojournal_def common_lib_def marshal_lib_def jrnl_lib_def alloc_lib_def lockmap_lib_def ref_fail_def)

theorem commit_failure_breaks_bitmaps_witness:
  "\<exists>op op'. txn_run ref_fail (FsTxn_Begin ref_fail ex_bits) op \<and> commitWait ref_fail True op = (False, op') \<and>
     \<not> bitmaps_agree ref_fail ref_used (jrnl_Begin ref_fail (Txn (Fs op'))) (Fs op')"
proof -
  let ?b = "FsTxn_Begin ref_fail ex_bits"
  let ?op = "?b\<lparr>Atxn := FreeINum 1 (Atxn ?b)\<rparr>"
  have run: "txn_run ref_fail ?b ?op" by (rule t_atxn [OF t_start run_free_inum [OF run_start]])
  have f: "Op (Atxn ?op) = jrnl_Begin ref_lib (Txn ex_bits)" "freeInums (Atxn ?op) = [1]" "freeBnums (Atxn ?op) = []"
    "Ialloc (Atxn ?op) = [False, True, False]" "fs_Ialloc ex_bits = [False, True, False]"
    by (simp_all add: FsTxn_Begin_def AllocTxn_Begin_def FreeINum_def ex_bits_def ref_fail_def)
  obtain op' where c: "commitWait ref_fail True ?op = (False, op')"
    by (cases "commitWait ref_fail True ?op") (simp add: commitWait_def Let_def ref_fail_def)
  have "bitmaps_agree ref_fail ref_used (jrnl_Begin ref_fail (Txn ex_bits)) ex_bits"
    by (rule ex_bits_agree) (simp_all add: ref_fail_def)
  from commit_failure_breaks_bitmaps [OF ref_fail_gojournal ex_bits_idle run _ _ _ this c]
  have "\<not> bitmaps_agree ref_fail ref_used (jrnl_Begin ref_fail (Txn (Fs op'))) (Fs op')"
    unfolding f by (simp add: ref_on_def ref_range_def ref_used_def)
  then show ?thesis using run c by blast
qed

text \<open>File handles. \<^verbatim>\<open>GetInodeFh\<close> returns an inode only if its number and generation are those of the handle and
  the inode is in use with a non-zero link count, and then the transaction owns it and holds its lock;
  otherwise (a stale handle) it returns nil and the transaction owns what it owned before.\<close>

theorem getinodefh_checks:
  assumes G: "gojournal G on used arange held" and inv: "txn_inv held op"
    and fh: "MakeFh G fh3 = Inr fh" and g: "GetInodeFh G fh3 op = Inr (res, op')"
  shows "txn_inv held op' \<and> Txn (Fs op') = Txn (Fs op) \<and> Atxn op' = Atxn op \<and>
    (case res of
       None \<Rightarrow> set (inodes op') = set (inodes op)
     | Some r \<Rightarrow> set (inodes op') = insert (Ino fh, r) (set (inodes op)) \<and> Inum (inode_at op' r) = Ino fh \<and>
         Kind (inode_at op' r) \<noteq> NF3FREE \<and> Nlink (inode_at op' r) \<noteq> 0 \<and> Gen (inode_at op' r) = fh_Gen fh)"
proof -
  have L: "lockmap_lib G held" using G by (simp add: gojournal_def)
  show ?thesis using lockmap_lib.GetInodeFh_ok [OF L inv fh g] by blast
qed

definition ex_handle :: Nfs_fh3 where
  "ex_handle = \<lparr>Nfs_fh3_Data = [5, 0, 0, 0, 0, 0, 0, 0, 3, 0, 0, 0, 0, 0, 0, 0]\<rparr>"

lemma ex_handle_fh: "MakeFh ref_lib ex_handle = Inr \<lparr>Ino = 5, fh_Gen = 3\<rparr>"
  by (simp add: MakeFh_def ex_handle_def ref_lib_def ref_getint_def)

theorem getinodefh_checks_witness:
  "\<exists>op. GetInodeFh ref_lib ex_handle (FsTxn_Begin ref_lib ex_state) = Inr (Some 0, op) \<and> set (inodes op) = {(5, 0)} \<and>
     Gen (inode_at op 0) = 3"
proof -
  have inv: "txn_inv set (FsTxn_Begin ref_lib ex_state)" by (rule lockmap_lib.Begin_inv [OF ref_lockmap_lib ex_state_idle])
  obtain op where "GetInodeFh ref_lib ex_handle (FsTxn_Begin ref_lib ex_state) = Inr (Some 0, op)"
    using ex_get by (auto simp: GetInodeFh_def GetInodeInum_def GetInodeInumFree_def ex_handle_fh inode_at_def ex_inode_def)
  moreover from this getinodefh_checks [OF ref_gojournal inv ex_handle_fh this]
  have "set (inodes op) = {(5, 0)}" "Gen (inode_at op 0) = 3"
    by (auto simp: FsTxn_Begin_def txn_inv_def owned_ok_def)
  ultimately show ?thesis by blast
qed

end
