(* ===== verification/DcacheSpec.thy ===== *)
theory DcacheSpec
  imports DirSpec FsTxnSpec
begin

text \<open>
  How the name cache of a directory comes about: \<^verbatim>\<open>mkDcache\<close> passes over the entries, locks the inode of each entry for a moment, and
  adds the entry to the cache. For a directory that is well formed on disk and whose entries lead to inodes in use, the cache it builds is
  what a scan of the directory finds.
\<close>

section \<open>Reading a block that is mapped\<close>

context gojournal
begin

lemma indbmap_mapped:
  "indbmap G root l off atxn = Inr (b, root', atxn') \<Longrightarrow> l \<le> 2 \<Longrightarrow> walk G (Op atxn) l root (unat off) \<noteq> 0 \<Longrightarrow>
     root' = root \<and> atxn' = atxn"
proof (induction l arbitrary: root off b root' atxn')
  case 0
  then show ?case by (auto simp: ind_root_def)
next
  case (Suc l)
  have l: "l \<le> 2" using Suc.prems(2) by simp
  have r: "root \<noteq> 0" using Suc.prems(3) by auto
  let ?k = "unat off div 512 ^ l"
  have offk: "off div pow G l * 8 = of_nat ?k * 8" using unat_div_pow(1) [OF l, of off] by (auto dest: sym)
  from Suc.prems(1) r obtain nx c a1 where
      g: "BnumGet G (blk G (Op atxn) root) (of_nat ?k * 8) = Inr nx" and c: "indbmap G nx l (off mod pow G l) atxn = Inr (b, c, a1)"
    and e: "root' = root" "c = nx \<Longrightarrow> atxn' = a1"
    unfolding indbmap.simps
    by (auto simp: ind_root_def bnd_eq_Inr Let_def ReadBlock_def blk_def offk split: if_splits simp del: indbmap.simps)
  have "ent G (Op atxn) root ?k = nx" using g by (simp add: ent_def)
  then have "c = nx \<and> a1 = atxn"
    using Suc.IH [OF c l] Suc.prems(3) r unat_div_pow(2) [OF l, of off] by simp
  then show ?case using e by simp
qed

lemma bmap_mapped:
  assumes b: "bmap G bn ip atxn = Inr (b, alloc, ip', atxn')" and bn: "unat bn < MAXBLKS"
    and w: "fwalk G (Op atxn) (blks ip) (unat bn) \<noteq> 0"
  shows "atxn' = atxn"
proof -
  consider "unat bn < 8" | "\<not> unat bn < 8" "unat bn < 520" | "\<not> unat bn < 520" by linarith
  then show ?thesis
  proof cases
    case 1
    then have "bn < 8" by (simp add: word_less_nat_alt)
    then show ?thesis using 1 b w
      by (auto simp: bmap_def fwalk_def slot_def lev_def soff_def slice_get_def bnd_eq_Inr split: if_splits)
  next
    case 2
    then have n: "\<not> bn < 8" "bn - 8 < 512" "unat (bn - 8) = unat bn - 8" by (simp_all add: word_less_nat_alt nowrap)
    from b n(1,2) obtain r blk1 root a1 where i: "r = blks ip ! 8" "indbmap G r 1 (bn - 8) atxn = Inr (blk1, root, a1)" "atxn' = a1"
      by (auto simp: bmap_def Let_def bnd_eq_Inr slice_get_def simp del: indbmap.simps split: if_splits)
    have "walk G (Op atxn) 1 r (unat (bn - 8)) \<noteq> 0" using w 2 n(3) i(1) by (simp add: fwalk_def slot_def lev_def soff_def)
    then show ?thesis using indbmap_mapped [OF i(2)] i(3) by simp
  next
    case 3
    then have n: "\<not> bn < 8" "\<not> bn - 8 < 512" "unat (bn - 8 - 512) = unat bn - 520"
      by (simp_all add: word_less_nat_alt nowrap)
    from b n(1,2) obtain r blk1 root a1 where i: "r = blks ip ! 9" "indbmap G r 2 (bn - 8 - 512) atxn = Inr (blk1, root, a1)" "atxn' = a1"
      by (auto simp: bmap_def Let_def bnd_eq_Inr slice_get_def simp del: indbmap.simps split: if_splits)
    have "walk G (Op atxn) 2 r (unat (bn - 8 - 512)) \<noteq> 0" using w 3 n(3) i(1) by (simp add: fwalk_def slot_def lev_def soff_def numeral_2_eq_2)
    then show ?thesis using indbmap_mapped [OF i(2)] i(3) by simp
  qed
qed

text \<open>
  Reading an entry of a directory leaves the other inodes on disk as they are. For a block behind the doubly indirect block the code stores
  the inode of the directory again; nothing else is written.
\<close>

lemma read_ent_frame:
  assumes d: "dir_is G used arange op dip ents" and k: "k < length ents" "unat off = 128 * k"
    and r: "ip_Read G off 128 dip op = Inr ((data, eof), op')"
  shows "j < NInode G (at_Super (Atxn op)) \<Longrightarrow> j \<noteq> Inum (inode_at op dip) \<Longrightarrow>
      inode_buf G (at_Super (Atxn op)) (Op (Atxn op')) j = inode_buf G (at_Super (Atxn op)) (Op (Atxn op)) j"
    and "at_Super (Atxn op') = at_Super (Atxn op)"
proof -
  let ?ip = "inode_at op dip" and ?a = "Atxn op" and ?s = "at_Super (Atxn op)"
  have inv: "file_inv G used arange ?a ?ip" and sz: "unat (Size ?ip) = 128 * length ents" "unat (Size ?ip) \<le> 1073774592"
    and nh: "\<forall>i < unat (Size ?ip). fwalk G (Op ?a) (blks ?ip) (i div 4096) \<noteq> 0"
    using d by (simp_all add: dir_is_def Let_def)
  have lt: "off < Size ?ip" using k sz by (simp add: word_less_nat_alt)
  have cnt: "(if off + 128 \<ge> Size ?ip then Size ?ip - off else 128) = 128"
    using k sz by (auto intro!: u64_eqI simp: word_le_nat_alt nowrap)
  define f where "f = unat (128 :: u64)"
  have rd: "Read G off 128 ?ip ?a = bnd (read_loop G (Suc f) 128 (off div 4096) 0 off [] ?ip ?a)
      (\<lambda>(data, ip, atxn). Inr (data, False, ip, atxn))"
    unfolding Read_def Let_def cnt f_def using lt by (simp add: not_le [symmetric])
  from r obtain ip' a' where rl: "read_loop G (Suc f) 128 (off div 4096) 0 off [] ?ip ?a = Inr (data, ip', a')"
    and a': "Atxn op' = a'"
    unfolding ip_Read_def on_inode_def rd by (auto simp: bnd_eq_Inr put_inode_def)
  have bn: "unat (off div 4096) < MAXBLKS" using k sz by (simp add: unat_div)
  from bmap_ok [OF inv bn] obtain b alloc ip1 a1 where sp: "bmap_spec G used arange (off div 4096) ?ip ?a b alloc ip1 a1" by blast
  then have bm: "bmap G (off div 4096) ?ip ?a = Inr (b, alloc, ip1, a1)" and i1: "Inum ip1 = Inum ?ip"
    and inv1: "file_inv G used arange a1 ip1" unfolding bmap_spec_def by (auto dest: arg_cong [where f = Inum])
  have "unat off < unat (Size ?ip)" using k sz by simp
  with nh have "fwalk G (Op ?a) (blks ?ip) (unat off div 4096) \<noteq> 0" by blast
  then have a1: "a1 = ?a" by (intro bmap_mapped [OF bm bn]) (simp add: unat_div)
  have "128 * k mod 4096 = 128 * (k mod 32)" using mult_mod_right [of 128 k 32] by simp
  moreover have "k mod 32 \<le> 31" using mod_less_divisor [of 32 k] by linarith
  ultimately have "128 * k mod 4096 \<le> 3968" by linarith
  then have om: "unat (off mod 4096) \<le> 3968" using k(2) by (simp add: unat_mod)
  then have "unat (4096 - off mod 4096) = 4096 - unat (off mod 4096)" by (subst unat_sub) (simp_all add: word_le_nat_alt)
  then have "(128 :: u64) \<le> 4096 - off mod 4096" using om by (simp add: word_le_nat_alt)
  then have nb: "min (4096 - off mod 4096) (128 - 0) = (128 :: u64)" by (simp add: min_absorb2)
  have w: "\<exists>a2. (if alloc then WriteInode G ip1 ?a else Inr ?a) = Inr a2 \<and> at_Super a2 = ?s \<and>
      (\<forall>j. j < NInode G ?s \<longrightarrow> j \<noteq> Inum ?ip \<longrightarrow> inode_buf G ?s (Op a2) j = inode_buf G ?s (Op ?a) j)"
  proof (cases alloc)
    case True
    have "super_wf G ?s" "Inum ip1 < NInode G ?s" "inode_wf ip1" using inv1 a1 by (auto simp: file_inv_def ino_ok_def inode_wf_def)
    then obtain op2 where "WriteInode G ip1 ?a = Inr (?a\<lparr>Op := op2\<rparr>)"
        "\<And>j. j < NInode G ?s \<Longrightarrow> j \<noteq> Inum ?ip \<Longrightarrow> inode_buf G ?s op2 j = inode_buf G ?s (Op ?a) j"
      by (rule WriteInode_ok) (use i1 in auto)
    then show ?thesis using True by simp
  qed simp
  then have "at_Super a' = ?s \<and> (\<forall>j. j < NInode G ?s \<longrightarrow> j \<noteq> Inum ?ip \<longrightarrow> inode_buf G ?s (Op a') j = inode_buf G ?s (Op ?a) j)"
    using rl bm a1 nb
    by (auto simp: read_loop.simps [of G "Suc f"] read_loop.simps [of G _ _ _ 128] Let_def bnd_eq_Inr split: if_splits)
  then show "j < NInode G ?s \<Longrightarrow> j \<noteq> Inum ?ip \<Longrightarrow> inode_buf G ?s (Op (Atxn op')) j = inode_buf G ?s (Op ?a) j"
      "at_Super (Atxn op') = ?s" using a' by simp_all
qed

end

section \<open>The inodes behind the entries\<close>

text \<open>
  The inode \<open>i\<close> can be got in the transaction: it is owned already, or it is in use, both in the cache, if it is there, and on disk.
\<close>

definition kid_ok :: "('log, 'op, 'alc, 'lm, 'd) golib \<Rightarrow> ('log, 'op, 'alc, 'lm, 'd) FsTxn \<Rightarrow> u64 \<Rightarrow> bool" where
  "kid_ok G op i \<longleftrightarrow>
     i \<in> fst ` set (inodes op) \<or>
     i < NInode G (fs_Super (Fs op)) \<and>
     (\<forall>r. cached (Fs op) i r \<longrightarrow> Kind (iobj (Fs op) r) \<noteq> NF3FREE \<and> Nlink (iobj (Fs op) r) \<noteq> 0) \<and>
     (\<exists>ip. Decode G (inode_buf G (fs_Super (Fs op)) (Op (Atxn op)) i) i = Inr ip \<and> Kind ip \<noteq> NF3FREE \<and> Nlink ip \<noteq> 0)"

context gojournal
begin

text \<open>A lookup in the cache of inodes drops objects at most.\<close>

lemma LookupSlot_entries:
  assumes ci: "cache_inv c" and l: "LookupSlot i c = Inr (cs, c')"
  shows "entries c' j = Some e \<Longrightarrow> Obj (entry.slot e) = Some r \<Longrightarrow> entries c j = Some e"
    and "Obj cs = Some r \<longleftrightarrow> (\<exists>e. entries c i = Some e \<and> Obj (entry.slot e) = Some r)"
  using assms by (auto simp: LookupSlot_def bnd_eq_Inr evict_def Let_def cache_inv_def split: option.splits if_splits list.splits)

lemma get_kid:
  assumes inv: "txn_inv held op" and k: "kid_ok G op i" and n: "i \<notin> fst ` set (inodes op)"
  obtains r op' where "GetInodeInum G i op = Inr (Some r, op')" and "txn_inv held op'" and "Atxn op' = Atxn op"
    and "fs_Super (Fs op') = fs_Super (Fs op)"
    and "set (inodes op') = insert (i, r) (set (inodes op))" and "Inum (inode_at op' r) = i"
    and "Kind (inode_at op' r) \<noteq> NF3FREE" and "Nlink (inode_at op' r) \<noteq> 0" and "inext (Fs op) \<le> inext (Fs op')"
    and "\<And>s. s < inext (Fs op) \<Longrightarrow> iobj (Fs op') s = iobj (Fs op) s"
    and "\<And>j s. cached (Fs op') j s \<Longrightarrow> j \<noteq> i \<Longrightarrow> cached (Fs op) j s"
    and "\<And>s. cached (Fs op') i s \<Longrightarrow> s = r"
proof -
  have h: "i \<notin> held (Lockmap (Fs op))" and ci: "cache_inv (Icache (Fs op))" using inv n by (auto simp: txn_inv_def icache_ok_def)
  obtain lm where lm: "Acquire G (Lockmap (Fs op)) i = Some lm" using acquire_free [OF h] by blast
  obtain cs ic where ls: "LookupSlot i (Icache (Fs op)) = Inr (cs, ic)" using icache.lookup_ok [OF ci, of i] by blast
  note le = LookupSlot_entries [OF ci ls]
  let ?op1 = "op\<lparr>Fs := (Fs op)\<lparr>Lockmap := lm, Icache := ic\<rparr>\<rparr>"
  have li: "LockInode G i op = Inr (cs, ?op1)" using lm ls by (simp add: LockInode_def Let_def)
  have kd: "\<And>r. cached (Fs op) i r \<Longrightarrow> Kind (iobj (Fs op) r) \<noteq> NF3FREE \<and> Nlink (iobj (Fs op) r) \<noteq> 0"
    and dc: "\<exists>ip. Decode G (inode_buf G (fs_Super (Fs op)) (Op (Atxn op)) i) i = Inr ip \<and> Kind ip \<noteq> NF3FREE \<and> Nlink ip \<noteq> 0"
    using k n by (auto simp: kid_ok_def)
  have "\<exists>r op'. GetInodeLocked G i op = Inr (r, op') \<and> Kind (inode_at op' r) \<noteq> NF3FREE \<and> Nlink (inode_at op' r) \<noteq> 0 \<and>
      inext (Fs op) \<le> inext (Fs op') \<and> (\<forall>s < inext (Fs op). iobj (Fs op') s = iobj (Fs op) s) \<and>
      (\<forall>j s. cached (Fs op') j s \<longrightarrow> j \<noteq> i \<longrightarrow> cached (Fs op) j s) \<and> (\<forall>s. cached (Fs op') i s \<longrightarrow> s = r)"
  proof (cases "Obj cs")
    case None
    obtain ip where ip: "Decode G (inode_buf G (fs_Super (Fs op)) (Op (Atxn op)) i) i = Inr ip" "Kind ip \<noteq> NF3FREE" "Nlink ip \<noteq> 0"
      using dc by blast
    show ?thesis
      using li None ip le(1)
      by (auto simp: GetInodeLocked_def inode_buf_def Let_def put_inode_def set_slot_def addInode_def inode_at_def cached_def
            split: if_splits)
  next
    case (Some r)
    then have c: "cached (Fs op) i r" using le(2) by (auto simp: cached_def)
    have "cached (Fs ?op1) j s \<Longrightarrow> cached (Fs op) j s" for j s using le(1) by (auto simp: cached_def)
    moreover have "s = r" if "cached (Fs ?op1) i s" for s using that c le(1) by (auto simp: cached_def)
    ultimately show ?thesis using li Some kd [OF c]
      by (intro exI [of _ r] exI [of _ "addInode r ?op1"]) (simp add: GetInodeLocked_def addInode_def inode_at_def cached_def)
  qed
  then obtain r op' where g: "GetInodeLocked G i op = Inr (r, op')" and kn: "Kind (inode_at op' r) \<noteq> NF3FREE" "Nlink (inode_at op' r) \<noteq> 0"
    and rest: "inext (Fs op) \<le> inext (Fs op')" "\<And>s. s < inext (Fs op) \<Longrightarrow> iobj (Fs op') s = iobj (Fs op) s"
      "\<And>j s. cached (Fs op') j s \<Longrightarrow> j \<noteq> i \<Longrightarrow> cached (Fs op) j s" "\<And>s. cached (Fs op') i s \<Longrightarrow> s = r" by blast
  note lo = GetInodeLocked_ok [OF inv g]
  have "GetInodeInum G i op = Inr (Some r, op')" using g kn by (simp add: GetInodeInum_def GetInodeInumFree_def)
  from that [OF this lo(1,5,7,3,4) kn rest] show thesis by blast
qed

end

section \<open>Building the cache\<close>

text \<open>A transaction that has locked a directory whose entries lead to inodes in use.\<close>

definition dir_txn ::
    "('log, 'op, 'alc, 'lm, 'd) golib \<Rightarrow> ('alc \<Rightarrow> u64 set) \<Rightarrow> ('alc \<Rightarrow> u64 set) \<Rightarrow> ('lm \<Rightarrow> u64 set) \<Rightarrow>
     ('log, 'op, 'alc, 'lm, 'd) FsTxn \<Rightarrow> iref \<Rightarrow> dirEnt list \<Rightarrow> bool" where
  "dir_txn G used arange held op dip ents \<longleftrightarrow>
     txn_inv held op \<and> fs_Super (Fs op) = at_Super (Atxn op) \<and> (Inum (inode_at op dip), dip) \<in> set (inodes op) \<and>
     dir_is G used arange op dip ents \<and> (\<forall>e \<in> set ents. de_inum e \<noteq> 0 \<longrightarrow> kid_ok G op (de_inum e))"

text \<open>The function that \<^verbatim>\<open>mkDcache\<close> passes to \<^verbatim>\<open>Apply\<close>.\<close>

definition add_ent :: "iref \<Rightarrow> (unit, 'log, 'op, 'alc, 'lm, 'd) apply_fun" where
  "add_ent dip = (\<lambda>ip name inum off u op.
     bnd (get_dcache dip op) (\<lambda>dc. Inr (u, put_dcache dip (dcache_Add name inum off dc) op)))"

text \<open>The names of the entries before the \<open>k\<close>-th.\<close>

lemma find_name_snoc:
  "find_name name j (es @ [e]) =
     (if fst (find_name name j es) \<noteq> 0 then find_name name j es
      else if de_inum e \<noteq> 0 \<and> de_name e = name then (de_inum e, of_nat (128 * (j + length es))) else (0, 0))"
  by (induction es arbitrary: j) auto

lemma dir_locs_Suc:
  assumes u: "uniq ents" and k: "k < length ents"
  shows "dir_locs (take (Suc k) ents) =
     (if de_inum (ents ! k) = 0 then dir_locs (take k ents)
      else (dir_locs (take k ents))(de_name (ents ! k) \<mapsto> (de_inum (ents ! k), of_nat (128 * k))))"
proof -
  have t: "take (Suc k) ents = take k ents @ [ents ! k]" using k by (rule take_Suc_conv_app_nth)
  have "fst (find_name (de_name (ents ! k)) 0 (take k ents)) = 0" if "de_inum (ents ! k) \<noteq> 0"
  proof -
    have "\<not> live (take k ents) (de_name (ents ! k)) j" for j
    proof
      assume "live (take k ents) (de_name (ents ! k)) j"
      then have "live ents (de_name (ents ! k)) j" "j < k" using k by (auto simp: live_def)
      moreover have "live ents (de_name (ents ! k)) k" using k that by (simp add: live_def)
      ultimately show False using u unfolding uniq_def by blast
    qed
    then show ?thesis by (simp add: find_name_none)
  qed
  then show ?thesis using k by (auto simp: t dir_locs_def find_name_snoc Let_def fun_eq_iff)
qed

context gojournal
begin

lemma dir_txn_read:
  assumes d: "dir_txn G used arange held op dip ents" and k: "k < length ents" "unat off = 128 * k"
  obtains data eof op' where "ip_Read G off 128 dip op = Inr ((data, eof), op')" and "decodeDirEnt G data = Inr (ents ! k)"
    and "dir_txn G used arange held op' dip ents" and "inode_Dcache (inode_at op' dip) = inode_Dcache (inode_at op dip)"
    and "Size (inode_at op' dip) = Size (inode_at op dip)"
proof -
  have di: "dir_is G used arange op dip ents" and inv: "txn_inv held op" and su: "fs_Super (Fs op) = at_Super (Atxn op)"
    and ow: "(Inum (inode_at op dip), dip) \<in> set (inodes op)"
    and ki: "\<And>e. e \<in> set ents \<Longrightarrow> de_inum e \<noteq> 0 \<Longrightarrow> kid_ok G op (de_inum e)" using d by (auto simp: dir_txn_def)
  obtain data eof op' where r: "ip_Read G off 128 dip op = Inr ((data, eof), op')" and dd: "decodeDirEnt G data = Inr (ents ! k)"
    and di': "dir_is G used arange op' dip ents" and st: "dir_step dip op op'"
    and sm: "inode_Dcache (inode_at op' dip) = inode_Dcache (inode_at op dip)" "Size (inode_at op' dip) = Size (inode_at op dip)"
    by (rule read_ent [OF di k])
  note fr = read_ent_frame [OF di k r]
  obtain ip' a' where op': "op' = put_inode dip ip' (op\<lparr>Atxn := a'\<rparr>)" and i: "Inum ip' = Inum (inode_at op dip)"
    using st by (auto simp: dir_step_def)
  have inv': "txn_inv held op'" unfolding op' by (rule txn_inv_put) (use inv i in simp_all)
  have f: "inodes op' = inodes op" "fs_Super (Fs op') = fs_Super (Fs op)" "Icache (Fs op') = Icache (Fs op)"
      "\<And>s. s \<noteq> dip \<Longrightarrow> iobj (Fs op') s = iobj (Fs op) s" "Inum (inode_at op' dip) = Inum (inode_at op dip)"
    using op' i by (simp_all add: put_inode_def inode_at_def)
  have "kid_ok G op' j" if "kid_ok G op j" for j
  proof (cases "j \<in> fst ` set (inodes op)")
    case False
    then have "j \<noteq> Inum (inode_at op dip)" using ow by (metis fst_conv imageI)
    moreover from this have "s \<noteq> dip" if "cached (Fs op) j s" for s
      using that inv by (auto simp: txn_inv_def icache_ok_def cached_def inode_at_def)
    ultimately show ?thesis using that False fr su f by (auto simp: kid_ok_def cached_def)
  qed (simp add: kid_ok_def f)
  then have "dir_txn G used arange held op' dip ents" using inv' di' ki su f ow fr(2) by (simp add: dir_txn_def)
  then show thesis using that r dd sm by blast
qed

lemma dir_txn_put_dcache:
  assumes "dir_txn G used arange held op dip ents"
  shows "dir_txn G used arange held (put_dcache dip dc op) dip ents"
proof -
  have "txn_inv held (put_dcache dip dc op)"
    unfolding put_dcache_def by (rule txn_inv_put) (use assms in \<open>simp_all add: dir_txn_def\<close>)
  moreover have "Kind (iobj (Fs (put_dcache dip dc op)) s) = Kind (iobj (Fs op) s)" "Nlink (iobj (Fs (put_dcache dip dc op)) s) = Nlink (iobj (Fs op) s)"
    "cached (Fs (put_dcache dip dc op)) j s = cached (Fs op) j s" for j s
    by (simp_all add: put_dcache_def put_inode_def cached_def inode_at_def)
  then have "kid_ok G (put_dcache dip dc op) j = kid_ok G op j" for j
    by (simp add: kid_ok_def) (simp add: put_dcache_def put_inode_def)
  moreover have "fs_Super (Fs (put_dcache dip dc op)) = fs_Super (Fs op)" "inodes (put_dcache dip dc op) = inodes op"
      "Inum (inode_at (put_dcache dip dc op) dip) = Inum (inode_at op dip)"
    by (simp_all add: put_dcache_def put_inode_def inode_at_def)
  ultimately show ?thesis using assms by (simp add: dir_txn_def)
qed

text \<open>An entry whose inode is not owned: it is locked, the entry is added to the cache, and the inode is released.\<close>

lemma dir_txn_visit:
  assumes d: "dir_txn G used arange held op dip ents" and k: "kid_ok G op i" and n: "i \<notin> fst ` set (inodes op)"
  obtains r op' where "GetInodeInum G i op = Inr (Some r, op')" and "inode_at op' dip = inode_at op dip"
    and "\<And>dc. dir_txn G used arange held (ReleaseInode G r (put_dcache dip dc op')) dip ents"
    and "\<And>dc. inode_at (ReleaseInode G r (put_dcache dip dc op')) dip = (inode_at op dip)\<lparr>inode_Dcache := Some dc\<rparr>"
proof -
  have di: "dir_is G used arange op dip ents" and inv: "txn_inv held op" and su: "fs_Super (Fs op) = at_Super (Atxn op)"
    and ow: "(Inum (inode_at op dip), dip) \<in> set (inodes op)"
    and ki: "\<And>e. e \<in> set ents \<Longrightarrow> de_inum e \<noteq> 0 \<Longrightarrow> kid_ok G op (de_inum e)" using d by (auto simp: dir_txn_def)
  show thesis
  proof (rule get_kid [OF inv k n])
    fix r :: iref and op' :: "('log, 'op, 'alc, 'lm, 'd) FsTxn"
    assume g: "GetInodeInum G i op = Inr (Some r, op')" and inv': "txn_inv held op'" and at: "Atxn op' = Atxn op"
      and sp: "fs_Super (Fs op') = fs_Super (Fs op)" and io: "set (inodes op') = insert (i, r) (set (inodes op))"
      and ir: "Inum (inode_at op' r) = i" and kd: "Kind (inode_at op' r) \<noteq> NF3FREE" "Nlink (inode_at op' r) \<noteq> 0"
      and nx: "inext (Fs op) \<le> inext (Fs op')" and ob: "\<And>s. s < inext (Fs op) \<Longrightarrow> iobj (Fs op') s = iobj (Fs op) s"
      and ca: "\<And>j s. cached (Fs op') j s \<Longrightarrow> j \<noteq> i \<Longrightarrow> cached (Fs op) j s" "\<And>s. cached (Fs op') i s \<Longrightarrow> s = r"
    have dn: "dip < inext (Fs op)" using inv ow by (auto simp: txn_inv_def owned_ok_def)
    then have ad: "inode_at op' dip = inode_at op dip" using ob by (simp add: inode_at_def)
    have rd: "r \<noteq> dip" using ir ad ow n by (metis fst_conv imageI)
    show thesis
    proof (rule that [OF g ad])
      fix dc
      let ?p = "put_dcache dip dc op'" and ?q = "ReleaseInode G r (put_dcache dip dc op')"
      have ip: "inode_at ?p r = inode_at op' r" "inode_at ?p dip = (inode_at op dip)\<lparr>inode_Dcache := Some dc\<rparr>"
        using rd ad by (simp_all add: put_dcache_def)
      have ip': "txn_inv held ?p" unfolding put_dcache_def by (rule txn_inv_put [OF inv']) simp
      have q: "Fs ?q = (Fs ?p)\<lparr>Lockmap := Release G (Lockmap (Fs ?p)) i\<rparr>" "inodes ?q = AList.delete i (inodes op')" "Atxn ?q = Atxn op"
        using ip ir at by (simp_all add: ReleaseInode_fields) (simp add: put_dcache_def)
      show iq: "inode_at ?q dip = (inode_at op dip)\<lparr>inode_Dcache := Some dc\<rparr>" using ip q(1) by (simp add: inode_at_def)
      have so: "set (inodes ?q) = set (inodes op)" using io n q(2) by (auto simp: AList.delete_eq image_iff)
      have fq: "fs_Super (Fs ?q) = fs_Super (Fs op)" "\<And>s. cached (Fs ?q) j s = cached (Fs op') j s"
          "\<And>s. Kind (iobj (Fs ?q) s) = Kind (iobj (Fs op') s)" "\<And>s. Nlink (iobj (Fs ?q) s) = Nlink (iobj (Fs op') s)" for j
        using q(1) sp by (simp_all add: put_dcache_def put_inode_def cached_def inode_at_def)
      have "kid_ok G ?q j" if kj: "kid_ok G op j" for j
      proof (cases "j \<in> fst ` set (inodes op)")
        case False
        have "Kind (iobj (Fs op') s) \<noteq> NF3FREE \<and> Nlink (iobj (Fs op') s) \<noteq> 0" if c: "cached (Fs op') j s" for s
        proof (cases "j = i")
          case True
          then show ?thesis using ca(2) c kd by (simp add: inode_at_def)
        next
          case f: False
          then have "cached (Fs op) j s" using ca(1) c by blast
          moreover from this have "s < inext (Fs op)" using inv by (auto simp: txn_inv_def icache_ok_def cached_def)
          ultimately show ?thesis using kj False ob by (simp add: kid_ok_def)
        qed
        then show ?thesis using kj False q(3) fq by (simp add: kid_ok_def so)
      qed (simp add: kid_ok_def so)
      moreover have "dir_is G used arange ?q dip ents"
        using di iq q(3) by (simp add: dir_is_def Let_def file_inv_def)
      ultimately show "dir_txn G used arange held ?q dip ents"
        using ReleaseInode_inv [OF ip', of r] ki su ow so fq(1) q(3) iq by (simp add: dir_txn_def)
    qed
  qed
qed

text \<open>The state of the pass after \<open>k\<close> entries.\<close>

definition pass_at ::
    "('log, 'op, 'alc, 'lm, 'd) FsTxn \<Rightarrow> iref \<Rightarrow> dirEnt list \<Rightarrow> nat \<Rightarrow> bool" where
  "pass_at op dip ents k \<longleftrightarrow> dir_txn G used arange held op dip ents \<and>
     (\<exists>dc. inode_Dcache (inode_at op dip) = Some dc \<and> dc_names dc = dir_locs (take k ents) \<and> Lastoff dc = 0)"

lemma pass_step:
  assumes p: "pass_at op dip ents k" and u: "uniq ents" and k: "k < length ents" "unat off = 128 * k"
    and db: "unat db \<le> 120 * k" and n: "unat n \<le> 64 + 244 * k" and mx: "64 + 244 * length ents < 100000000"
    and dcn: "unat dcount = 128 * length ents"
  shows "\<exists>op' n' db'. pass_at op' dip ents (Suc k) \<and> unat db' \<le> 120 * Suc k \<and> unat n' \<le> 64 + 244 * Suc k \<and>
     apply_loop G (Suc fuel) dcount 100000000 (add_ent dip) off n db () dip op =
     apply_loop G fuel dcount 100000000 (add_ent dip) (off + 128) n' db' () dip op'"
proof -
  have d: "dir_txn G used arange held op dip ents" using p by (simp add: pass_at_def)
  then have lt: "off < Size (inode_at op dip)" using k by (simp add: dir_txn_def dir_is_def Let_def word_less_nat_alt)
  have ew: "length (de_name (ents ! k)) \<le> 112" using d k by (auto simp: dir_txn_def dir_is_def Let_def ent_wf_def)
  let ?e = "ents ! k" and ?ln = "of_nat (length (de_name (ents ! k))) :: u64"
  have l: "unat ?ln = length (de_name ?e)" using ew by (simp add: nowrap)
  have db': "unat (db + (8 + ?ln)) = unat db + 8 + length (de_name ?e)" "unat (n + (132 + ?ln)) = unat n + 132 + length (de_name ?e)"
    using l ew db n k mx by (simp_all add: nowrap)
  have go: "\<not> dcount \<le> db + (8 + ?ln)" "\<not> 100000000 \<le> n + (132 + ?ln)"
    using db' ew db n k mx dcn by (simp_all add: word_le_nat_alt)
  have bd: "unat (db + (8 + ?ln)) \<le> 120 * Suc k" "unat (n + (132 + ?ln)) \<le> 64 + 244 * Suc k" using db' ew db n by simp_all
  show ?thesis
  proof (rule dir_txn_read [OF d k])
    fix data eof and op1 :: "('log, 'op, 'alc, 'lm, 'd) FsTxn"
    assume r: "ip_Read G off 128 dip op = Inr ((data, eof), op1)" and dd: "decodeDirEnt G data = Inr ?e"
      and d1: "dir_txn G used arange held op1 dip ents" and dc1: "inode_Dcache (inode_at op1 dip) = inode_Dcache (inode_at op dip)"
    obtain dc where dc: "inode_Dcache (inode_at op1 dip) = Some dc" "dc_names dc = dir_locs (take k ents)" "Lastoff dc = 0"
      using p dc1 by (auto simp: pass_at_def)
    note ls = dir_locs_Suc [OF u k(1)]
    show ?thesis
    proof (cases "de_inum ?e = 0")
      case True
      then have "pass_at op1 dip ents (Suc k)" using d1 dc ls by (simp add: pass_at_def)
      then show ?thesis using r dd lt True db n
        by (intro exI [of _ op1] exI [of _ n] exI [of _ db]) (simp add: apply_loop.simps [of G "Suc fuel"])
    next
      case False
      let ?dc = "dcache_Add (de_name ?e) (de_inum ?e) off dc"
      have off: "off = of_nat (128 * k)" unfolding k(2) [symmetric] by simp
      have nm: "dc_names ?dc = dir_locs (take (Suc k) ents)" "Lastoff ?dc = 0"
        using dc(2,3) ls False off by (simp_all add: dcache.names_add) (simp add: dcache_Add_def)
      have kid: "kid_ok G op1 (de_inum ?e)" using d1 False k(1) by (auto simp: dir_txn_def)
      show ?thesis
      proof (cases "de_inum ?e \<in> fst ` set (inodes op1)")
        case True
        then obtain ip where ip: "map_of (inodes op1) (de_inum ?e) = Some ip" by (metis map_of_eq_None_iff option.exhaust)
        have "pass_at (put_dcache dip ?dc op1) dip ents (Suc k)" using dir_txn_put_dcache [OF d1] nm by (simp add: pass_at_def)
        then show ?thesis using r dd lt False ip dc(1) go bd
          by (intro exI [of _ "put_dcache dip ?dc op1"] exI [of _ "n + (132 + ?ln)"] exI [of _ "db + (8 + ?ln)"])
             (simp add: apply_loop.simps [of G "Suc fuel"] OwnInum_def GetInodeUnlocked_def lookupInode_def add_ent_def get_dcache_def Let_def)
      next
        case no: False
        show ?thesis
        proof (rule dir_txn_visit [OF d1 kid no])
          fix r2 and op2 :: "('log, 'op, 'alc, 'lm, 'd) FsTxn"
          let ?op3 = "ReleaseInode G r2 (put_dcache dip ?dc op2)"
          assume g: "GetInodeInum G (de_inum ?e) op1 = Inr (Some r2, op2)" and at: "inode_at op2 dip = inode_at op1 dip"
            and d3: "\<And>dc. dir_txn G used arange held (ReleaseInode G r2 (put_dcache dip dc op2)) dip ents"
            and a3: "\<And>dc. inode_at (ReleaseInode G r2 (put_dcache dip dc op2)) dip = (inode_at op1 dip)\<lparr>inode_Dcache := Some dc\<rparr>"
          have ow: "\<not> OwnInum (de_inum ?e) op1" using no by (simp add: OwnInum_def map_of_eq_None_iff)
          have "pass_at ?op3 dip ents (Suc k)" using d3 a3 nm by (simp add: pass_at_def)
          then show ?thesis using r dd lt False ow g dc(1) at go bd
            by (intro exI [of _ ?op3] exI [of _ "n + (132 + ?ln)"] exI [of _ "db + (8 + ?ln)"])
               (simp add: apply_loop.simps [of G "Suc fuel"] add_ent_def get_dcache_def Let_def)
        qed
      qed
    qed
  qed
qed

lemma pass_loop:
  assumes "pass_at op dip ents k" and u: "uniq ents" and "k \<le> length ents" "unat off = 128 * k" and "length ents - k \<le> fuel"
    and "unat db \<le> 120 * k" and "unat n \<le> 64 + 244 * k" and mx: "64 + 244 * length ents < 100000000"
    and dcn: "unat dcount = 128 * length ents"
  shows "\<exists>op'. apply_loop G fuel dcount 100000000 (add_ent dip) off n db () dip op = Inr (True, (), op') \<and>
     pass_at op' dip ents (length ents)"
  using assms(1,3-7)
proof (induction fuel arbitrary: k op off n db)
  case 0
  then have "\<not> off < Size (inode_at op dip)"
    by (simp add: pass_at_def dir_txn_def dir_is_def Let_def word_less_nat_alt)
  then show ?case using 0 by (simp add: apply_loop.simps [of G 0])
next
  case (Suc fuel)
  have sz: "unat (Size (inode_at op dip)) = 128 * length ents" "128 * length ents \<le> 1073774592"
    using Suc.prems(1) by (auto simp: pass_at_def dir_txn_def dir_is_def Let_def)
  show ?case
  proof (cases "k < length ents")
    case False
    then have "k = length ents" "\<not> off < Size (inode_at op dip)" using Suc.prems(2,3) sz by (simp_all add: word_less_nat_alt)
    then show ?thesis using Suc.prems(1) by (simp add: apply_loop.simps [of G "Suc fuel"])
  next
    case True
    from pass_step [OF Suc.prems(1) u True Suc.prems(3,5,6) mx dcn, of fuel] obtain op' n' db' where
        p: "pass_at op' dip ents (Suc k)" "unat db' \<le> 120 * Suc k" "unat n' \<le> 64 + 244 * Suc k"
      and e: "apply_loop G (Suc fuel) dcount 100000000 (add_ent dip) off n db () dip op =
        apply_loop G fuel dcount 100000000 (add_ent dip) (off + 128) n' db' () dip op'" by blast
    have o: "unat (off + 128) = 128 * Suc k" using Suc.prems(3) True sz by (simp add: nowrap)
    show ?thesis unfolding e by (rule Suc.IH [OF p(1) _ o _ p(2,3)]) (use True Suc.prems(4) in simp_all)
  qed
qed

lemma mkDcache_ok:
  assumes d: "dir_txn G used arange held op dip ents" and u: "uniq ents" and mx: "64 + 244 * length ents < 100000000"
  obtains op' where "mkDcache G dip op = Inr op'" and "dir_txn G used arange held op' dip ents" and "dir_ok G used arange op' dip ents"
proof -
  let ?op = "put_dcache dip MkDcache op"
  have d': "dir_txn G used arange held ?op dip ents" by (rule dir_txn_put_dcache [OF d])
  have sz: "unat (Size (inode_at ?op dip)) = 128 * length ents" using d' by (simp add: dir_txn_def dir_is_def Let_def)
  have "dc_names MkDcache = dir_locs (take 0 ents)" by (simp add: dcache.names_empty dir_locs_def fun_eq_iff)
  then have p: "pass_at ?op dip ents 0" using d' by (simp add: pass_at_def MkDcache_def)
  have "length ents - 0 \<le> dir_fuel dip ?op" using sz by (simp add: dir_fuel_def)
  from pass_loop [OF p u _ _ this, of 0 0 64 "Size (inode_at ?op dip)"] mx sz obtain op' where
      l: "apply_loop G (dir_fuel dip ?op) (Size (inode_at ?op dip)) 100000000 (add_ent dip) 0 64 0 () dip ?op = Inr (True, (), op')"
    and p': "pass_at op' dip ents (length ents)" by auto
  have "mkDcache G dip op = Inr op'" using l by (simp add: mkDcache_def Apply_def Let_def add_ent_def)
  moreover have "dir_ok G used arange op' dip ents" using p' u by (auto simp: pass_at_def dir_ok_def dir_txn_def)
  ultimately show thesis using that p' by (simp add: pass_at_def)
qed

end

section \<open>Properties\<close>

text \<open>C21: a lookup by name is a scan of the directory. For a directory that is well formed on disk, with at most 409 thousand entries, whose
  names are different and whose entries lead to inodes in use, and that has no name cache yet, \<^verbatim>\<open>LookupName\<close> builds the cache and gives the inode
  number and the offset that the scan \<^verbatim>\<open>ScanName\<close> of the entries on disk finds. Afterwards the cache has exactly the entries on disk, and every
  further lookup answers from it, without touching the disk, what a scan finds.\<close>

theorem lookup_equals_scan:
  assumes G: "gojournal G on used arange held" and d: "dir_txn G used arange held op dip ents" and u: "uniq ents"
    and mx: "64 + 244 * length ents < 100000000" and c: "inode_Dcache (inode_at op dip) = None"
  shows "\<exists>r op1 op2. LookupName G name dip op = Inr (r, op1) \<and> ScanName G name dip op = Inr (r, op2) \<and>
     dir_txn G used arange held op1 dip ents \<and> dir_ok G used arange op1 dip ents \<and>
     (\<forall>name'. \<exists>r' op3. LookupName G name' dip op1 = Inr (r', op1) \<and> ScanName G name' dip op1 = Inr (r', op3))"
proof -
  from G d u mx obtain op1 where m: "mkDcache G dip op = Inr op1" and d1: "dir_txn G used arange held op1 dip ents"
    and o1: "dir_ok G used arange op1 dip ents" by (rule gojournal.mkDcache_ok)
  have di: "dir_is G used arange op dip ents" using d by (simp add: dir_txn_def)
  obtain op2 where s: "ScanName G name dip op = Inr (find_name name 0 ents, op2)" using gojournal.ScanName_ok [OF G di] by blast
  have "Kind (inode_at op dip) = NF3DIR" "Kind (inode_at op1 dip) = NF3DIR" "inode_Dcache (inode_at op1 dip) \<noteq> None"
    using di o1 by (auto simp: dir_is_def dir_ok_def Let_def)
  then have "LookupName G name dip op = LookupName G name dip op1"
    using m c by (auto simp: LookupName_def ensure_dcache_def)
  then show ?thesis using s d1 o1 cached_lookup [OF G o1] by metis
qed

text \<open>The example directory before its first use, in a transaction that has locked it and the inode of its entry.\<close>

definition ex_pass :: "(u64 \<Rightarrow> nat \<Rightarrow> byte, ref_op, bool list, u64 list, ref_disk) FsTxn" where
  "ex_pass = ex_dir_txn\<lparr>Fs := (Fs ex_dir_txn)\<lparr>iobj := (\<lambda>r. if r = 0 then ex_dir\<lparr>inode_Dcache := None\<rparr> else ex_inode), inext := 2, Lockmap := [2, 5]\<rparr>,
     inodes := [(2, 0), (5, 1)]\<rparr>"

lemma ex_pass_txn: "dir_txn ref_lib ref_used ref_range set ex_pass 0 ex_ents"
proof -
  have at: "inode_at ex_pass 0 = ex_dir\<lparr>inode_Dcache := None\<rparr>" "Atxn ex_pass = Atxn ex_dir_txn" by (simp_all add: ex_pass_def inode_at_def)
  have "dir_is ref_lib ref_used ref_range ex_dir_txn 0 ex_ents" using ex_dir_ok by (simp add: dir_ok_def)
  then have "dir_is ref_lib ref_used ref_range ex_pass 0 ex_ents"
    using at ex_dir_fields(1) by (simp add: dir_is_def Let_def file_inv_def)
  moreover have "txn_inv set ex_pass"
    by (auto simp: txn_inv_def icache_ok_def owned_ok_def cache_inv_def ex_pass_def ex_dir_txn_def FsTxn_Begin_def ex_dir_def ex_inode_def)
  moreover have "fs_Super (Fs ex_pass) = at_Super (Atxn ex_pass)" by (simp add: ex_pass_def ex_dir_txn_def FsTxn_Begin_def AllocTxn_Begin_def)
  ultimately show ?thesis using at(1) by (simp add: dir_txn_def kid_ok_def ex_ents_def ex_dir_def) (simp add: ex_pass_def)
qed

theorem lookup_equals_scan_witness:
  "\<exists>r op1 op2. LookupName ref_lib [97] 0 ex_pass = Inr (r, op1) \<and> ScanName ref_lib [97] 0 ex_pass = Inr (r, op2) \<and>
     dir_ok ref_lib ref_used ref_range op1 0 ex_ents"
proof -
  have "uniq ex_ents" using ex_dir_ok by (simp add: dir_ok_def)
  moreover have "64 + 244 * length ex_ents < 100000000" by (simp add: ex_ents_def)
  moreover have "inode_Dcache (inode_at ex_pass 0) = None" by (simp add: ex_pass_def inode_at_def)
  ultimately show ?thesis using lookup_equals_scan [OF ref_gojournal ex_pass_txn, of "[97]"] by blast
qed

end
