(* ===== verification/Wp.thy ===== *)
theory Wp
  imports Prelude
begin

text \<open>
  Partial correctness of computations with faults, as rules that go backwards through a program.
\<close>

text \<open>A normal result satisfies a predicate.\<close>

definition ret :: "('a \<Rightarrow> bool) \<Rightarrow> 'a res \<Rightarrow> bool" where
  "ret P m \<longleftrightarrow> (\<forall>x. m = Inr x \<longrightarrow> P x)"

named_theorems wp \<open>rules that reduce a goal about the result of a call to its parts\<close>

lemma ret_Inr [wp]: "P x \<Longrightarrow> ret P (Inr x)"
  by (simp add: ret_def)

lemma ret_Inl [wp]: "ret P (Inl e)"
  by (simp add: ret_def)

lemma ret_Inr_iff: "ret P (Inr x) \<longleftrightarrow> P x"
  by (simp add: ret_def)

lemma ret_bnd: "ret P m \<Longrightarrow> (\<And>x. P x \<Longrightarrow> ret Q (f x)) \<Longrightarrow> ret Q (bnd m f)"
  by (auto simp: ret_def bnd_eq_Inr)

lemma ret_bnd2:
  "ret (\<lambda>(a, b). P a b) m \<Longrightarrow> (\<And>a b. P a b \<Longrightarrow> ret Q (f a b)) \<Longrightarrow> ret Q (bnd m (\<lambda>(a, b). f a b))"
  by (erule ret_bnd) auto

lemma ret_bnd3:
  "ret (\<lambda>(a, b, c). P a b c) m \<Longrightarrow> (\<And>a b c. P a b c \<Longrightarrow> ret Q (f a b c)) \<Longrightarrow> ret Q (bnd m (\<lambda>(a, b, c). f a b c))"
  by (erule ret_bnd) auto

lemma ret_bnd4:
  "ret (\<lambda>(a, b, c, d). P a b c d) m \<Longrightarrow> (\<And>a b c d. P a b c d \<Longrightarrow> ret Q (f a b c d)) \<Longrightarrow>
     ret Q (bnd m (\<lambda>(a, b, c, d). f a b c d))"
  by (erule ret_bnd) auto

lemma ret_bnd5:
  "ret (\<lambda>(a, b, c, d, e). P a b c d e) m \<Longrightarrow> (\<And>a b c d e. P a b c d e \<Longrightarrow> ret Q (f a b c d e)) \<Longrightarrow>
     ret Q (bnd m (\<lambda>(a, b, c, d, e). f a b c d e))"
  by (erule ret_bnd) auto

lemma ret_bnd22:
  "ret (\<lambda>((a, b), c). P a b c) m \<Longrightarrow> (\<And>a b c. P a b c \<Longrightarrow> ret Q (f a b c)) \<Longrightarrow> ret Q (bnd m (\<lambda>((a, b), c). f a b c))"
  by (erule ret_bnd) auto

lemma ret_eq2: "(\<And>a b. m = Inr (a, b) \<Longrightarrow> ret Q (f a b)) \<Longrightarrow> ret Q (bnd m (\<lambda>(a, b). f a b))"
  by (auto simp: ret_def bnd_eq_Inr)

lemma ret_eq22: "(\<And>a b c. m = Inr ((a, b), c) \<Longrightarrow> ret Q (f a b c)) \<Longrightarrow> ret Q (bnd m (\<lambda>((a, b), c). f a b c))"
  by (auto simp: ret_def bnd_eq_Inr)

lemma ret_any: "(\<And>x. ret Q (f x)) \<Longrightarrow> ret Q (bnd m f)"
  by (auto simp: ret_def bnd_eq_Inr)

lemma ret_if [wp]: "(b \<Longrightarrow> ret P x) \<Longrightarrow> (\<not> b \<Longrightarrow> ret P y) \<Longrightarrow> ret P (if b then x else y)"
  by simp

lemma ret_let [wp]: "ret P (f x) \<Longrightarrow> ret P (Let x f)"
  by simp

lemma ret_prod [wp]: "(\<And>a b. x = (a, b) \<Longrightarrow> ret P (f a b)) \<Longrightarrow> ret P (case x of (a, b) \<Rightarrow> f a b)"
  by (cases x) simp

lemma ret_option [wp]:
  "(x = None \<Longrightarrow> ret P a) \<Longrightarrow> (\<And>y. x = Some y \<Longrightarrow> ret P (b y)) \<Longrightarrow> ret P (case x of None \<Rightarrow> a | Some y \<Rightarrow> b y)"
  by (cases x) simp_all

lemma ret_mono: "ret P m \<Longrightarrow> (\<And>x. P x \<Longrightarrow> Q x) \<Longrightarrow> ret Q m"
  by (simp add: ret_def)

lemma retD: "ret P m \<Longrightarrow> m = Inr x \<Longrightarrow> P x"
  by (simp add: ret_def)

lemma prodI [wp]: "P a b \<Longrightarrow> case (a, b) of (x, y) \<Rightarrow> P x y"
  by simp

lemma prodI2 [wp]: "P a b c \<Longrightarrow> (case (a, b) of (x, y) \<Rightarrow> P x y) c"
  by simp

end
