(* ===== verification/Shrinker.thy ===== *)
theory Shrinker
  imports FsTxn
begin

text \<open>
  \<^verbatim>\<open>shrinker/shrinker.go\<close>: freeing the blocks of a large file in several transactions. \<open>threads\<close>
  are the inode numbers of the background shrinkers that have been started and have not run
  yet. Every transaction of \<^verbatim>\<open>DoShrink\<close> is one iteration; the fuel bounds their number. The mutex
  makes the accesses to \<^verbatim>\<open>nthread\<close> and \<^verbatim>\<open>crash\<close> atomic.
\<close>

record ShrinkerSt =
  nthread :: u32
  crash :: bool
  threads :: "u64 list"

definition MkShrinkerSt :: ShrinkerSt where
  "MkShrinkerSt = \<lparr>nthread = 0, crash = False, threads = []\<rparr>"

definition crashed :: "ShrinkerSt \<Rightarrow> bool" where
  "crashed shrinkst = crash shrinkst"

fun DoShrink ::
    "('log, 'op, 'alc, 'lm, 'd) golib \<Rightarrow> nat \<Rightarrow> u64 \<Rightarrow> ShrinkerSt \<Rightarrow> ('log, 'alc, 'lm, 'd) FsState \<Rightarrow>
     (bool \<times> ('log, 'alc, 'lm, 'd) FsState) res" where
  "DoShrink G 0 inum shrinkst fsstate = Inl NoFuel"
| "DoShrink G (Suc fuel) inum shrinkst fsstate =
     bnd (GetInodeInumFree G inum (FsTxn_Begin G fsstate)) (\<lambda>(ip, op).
     bnd (on_inode ip (Shrink G) op) (\<lambda>(more, op).
     let (ok, op) = Commit G op
     in if \<not> ok then Inr (False, Fs op)
        else if crashed shrinkst then Inr (True, Fs op)
        else if more then DoShrink G fuel inum shrinkst (Fs op)
        else Inr (True, Fs op)))"

definition StartShrinker :: "u64 \<Rightarrow> ShrinkerSt \<Rightarrow> ShrinkerSt" where
  "StartShrinker inum shrinkst =
     shrinkst\<lparr>nthread := nthread shrinkst + 1, threads := threads shrinkst @ [inum]\<rparr>"

text \<open>The body of the oldest waiting thread.\<close>

definition shrinker ::
    "('log, 'op, 'alc, 'lm, 'd) golib \<Rightarrow> nat \<Rightarrow> u64 \<Rightarrow> ShrinkerSt \<Rightarrow> ('log, 'alc, 'lm, 'd) FsState \<Rightarrow>
     (ShrinkerSt \<times> ('log, 'alc, 'lm, 'd) FsState) res" where
  "shrinker G fuel inum shrinkst fsstate =
     bnd (DoShrink G fuel inum shrinkst fsstate) (\<lambda>(ok, fsstate).
     if \<not> ok then Inl (Panic ''shrink'')
     else Inr (shrinkst\<lparr>nthread := nthread shrinkst - 1, threads := remove1 inum (threads shrinkst)\<rparr>, fsstate))"

text \<open>\<^verbatim>\<open>Shutdown\<close> waits until the waiting threads have run.\<close>

fun wait_threads ::
    "('log, 'op, 'alc, 'lm, 'd) golib \<Rightarrow> nat \<Rightarrow> u64 list \<Rightarrow> ShrinkerSt \<Rightarrow> ('log, 'alc, 'lm, 'd) FsState \<Rightarrow>
     (ShrinkerSt \<times> ('log, 'alc, 'lm, 'd) FsState) res" where
  "wait_threads G fuel [] shrinkst fsstate = Inr (shrinkst, fsstate)"
| "wait_threads G fuel (inum # inums) shrinkst fsstate =
     bnd (shrinker G fuel inum shrinkst fsstate) (\<lambda>(shrinkst, fsstate).
     wait_threads G fuel inums shrinkst fsstate)"

definition shrinker_Shutdown ::
    "('log, 'op, 'alc, 'lm, 'd) golib \<Rightarrow> nat \<Rightarrow> ShrinkerSt \<Rightarrow> ('log, 'alc, 'lm, 'd) FsState \<Rightarrow>
     (ShrinkerSt \<times> ('log, 'alc, 'lm, 'd) FsState) res" where
  "shrinker_Shutdown G fuel shrinkst fsstate = wait_threads G fuel (threads shrinkst) shrinkst fsstate"

definition shrinker_Crash ::
    "('log, 'op, 'alc, 'lm, 'd) golib \<Rightarrow> nat \<Rightarrow> ShrinkerSt \<Rightarrow> ('log, 'alc, 'lm, 'd) FsState \<Rightarrow>
     (ShrinkerSt \<times> ('log, 'alc, 'lm, 'd) FsState) res" where
  "shrinker_Crash G fuel shrinkst fsstate =
     (let shrinkst = shrinkst\<lparr>crash := True\<rparr>
      in wait_threads G fuel (threads shrinkst) shrinkst fsstate)"

section \<open>Counting the threads\<close>

definition shrinker_inv :: "ShrinkerSt \<Rightarrow> bool" where
  "shrinker_inv st \<longleftrightarrow> nthread st = of_nat (length (threads st))"

lemma MkShrinkerSt_inv: "shrinker_inv MkShrinkerSt"
  by (simp add: shrinker_inv_def MkShrinkerSt_def)

lemma StartShrinker_inv: "shrinker_inv st \<Longrightarrow> shrinker_inv (StartShrinker i st)"
  by (simp add: shrinker_inv_def StartShrinker_def)

lemma shrinker_inv_step:
  assumes inv: "shrinker_inv st" and i: "i \<in> set (threads st)" and r: "shrinker G fuel i st fs = Inr (st', fs')"
  shows "shrinker_inv st' \<and> threads st' = remove1 i (threads st)"
proof -
  have st': "st' = st\<lparr>nthread := nthread st - 1, threads := remove1 i (threads st)\<rparr>"
    using r by (auto simp: shrinker_def bnd_eq_Inr split: if_splits)
  obtain k where "length (threads st) = Suc k" using i by (cases "threads st") auto
  then have "(of_nat (length (threads st) - 1) :: u32) = of_nat (length (threads st)) - 1" by simp
  then show ?thesis using inv i st' by (simp add: shrinker_inv_def length_remove1)
qed

lemma wait_threads_inv:
  "shrinker_inv st \<Longrightarrow> threads st = ts \<Longrightarrow> wait_threads G fuel ts st fs = Inr (st', fs') \<Longrightarrow>
     shrinker_inv st' \<and> threads st' = []"
proof (induction ts arbitrary: st fs)
  case (Cons i ts)
  obtain st1 fs1 where s: "shrinker G fuel i st fs = Inr (st1, fs1)" and w: "wait_threads G fuel ts st1 fs1 = Inr (st', fs')"
    using Cons.prems(3) by (auto simp: bnd_eq_Inr)
  have i: "i \<in> set (threads st)" using Cons.prems(2) by simp
  from shrinker_inv_step [OF Cons.prems(1) i s] Cons.prems(2)
  have "shrinker_inv st1" "threads st1 = ts" by simp_all
  from Cons.IH [OF this w] show ?case .
qed simp

end
