(* ===== verification/Nfs.thy ===== *)
theory Nfs
  imports Dir Shrinker
begin

text \<open>
  \<^verbatim>\<open>nfs/nfs.go\<close>, \<^verbatim>\<open>nfs/lorder.go\<close>, \<^verbatim>\<open>nfs/nfs_ls.go\<close> and \<^verbatim>\<open>nfs/mount.go\<close>: the server's state, making a
  file system, locking several inodes, listing directories and the MOUNT program. Operation
  statistics and debug output are left out. A nil pointer is \<open>None\<close>.
\<close>

record ('log, 'alc, 'lm, 'd) Nfs =
  fsstate :: "('log, 'alc, 'lm, 'd) FsState"
  shrinkst :: ShrinkerSt
  Unstable :: bool

text \<open>Dereferencing a pointer, and indexing a slice of pointers.\<close>

definition deref :: "'a option \<Rightarrow> 'a res" where
  "deref p = (case p of None \<Rightarrow> Inl (Panic ''nil pointer dereference'') | Some x \<Rightarrow> Inr x)"

definition idx :: "'a list \<Rightarrow> nat \<Rightarrow> 'a res" where
  "idx xs i = (if i < length xs then Inr (xs ! i) else Inl (Panic ''index out of range''))"

section \<open>Making a file system\<close>

definition readRootInode :: "('log, 'op, 'alc, 'lm, 'd) golib \<Rightarrow> 'd FsSuper \<Rightarrow> Inode res" where
  "readRootInode G super =
     (let addr = Inum2Addr G super (ROOTINUM G);
          bk = disk_Read G (Disk super) (Blkno addr);
          buf = MkBufLoad G addr (INODESZ G * 8) bk
      in Decode G buf (ROOTINUM G))"

text \<open>\<^verbatim>\<open>blk[bn/8] = blk[bn/8] | 1<<(bn%8)\<close>\<close>

definition set_bit8 :: "u64 \<Rightarrow> byte list \<Rightarrow> byte list" where
  "set_bit8 bn bk =
     (let k = unat (bn div 8)
      in bk[k := (bk ! k) OR push_bit (unat (bn mod 8)) 1])"

fun mark_loop :: "nat \<Rightarrow> u64 \<Rightarrow> byte list \<Rightarrow> byte list" where
  "mark_loop 0 bn bk = bk"
| "mark_loop (Suc n) bn bk = mark_loop n (bn + 1) (set_bit8 bn bk)"

definition markAlloc ::
    "('log, 'op, 'alc, 'lm, 'd) golib \<Rightarrow> u64 \<Rightarrow> u64 \<Rightarrow> 'd FsSuper \<Rightarrow> 'd FsSuper res" where
  "markAlloc G n m super =
     (if n \<ge> NBITBLOCK G \<or> m \<ge> NBITBLOCK G * NBlockBitmap super \<or> m < n
      then Inl (Panic ''markAlloc: configuration makes no sense'')
      else
        let bk = mark_loop (unat n) 0 (replicate (unat (BlockSize G)) 0);
            d = disk_Write G (Disk super) (BitmapBlockStart super) bk;
            blkno = m div NBITBLOCK G + BitmapBlockStart super;
            bk1 = (if blkno > BitmapBlockStart super then replicate (unat (BlockSize G)) 0 else bk);
            bn = m mod NBITBLOCK G;
            bk1 = mark_loop (unat (NBITBLOCK G - bn)) bn bk1;
            d = disk_Write G d blkno bk1;
            bk2 = set_bit8 1 (set_bit8 0 (replicate (unat (BlockSize G)) 0));
            d = disk_Write G d (BitmapInodeStart super) bk2
        in Inr (super\<lparr>Disk := d\<rparr>))"

definition makeFs :: "('log, 'op, 'alc, 'lm, 'd) golib \<Rightarrow> 'd FsSuper \<Rightarrow> 'd FsSuper res" where
  "makeFs G super =
     (let root = MkRootInode G;
          raddr = Inum2Addr G super (ROOTINUM G)
      in bnd (Encode G root) (\<lambda>rootblk.
         let d = WriteDirect G raddr (INODESZ G * 8) rootblk (Disk super)
         in markAlloc G (DataStart super) (MaxBnum super) (super\<lparr>Disk := d\<rparr>)))"

definition makeRootDir ::
    "('log, 'op, 'alc, 'lm, 'd) golib \<Rightarrow> ('log, 'alc, 'lm, 'd) Nfs \<Rightarrow> ('log, 'alc, 'lm, 'd) Nfs res" where
  "makeRootDir G nfs =
     bnd (GetInodeInumFree G (ROOTINUM G) (FsTxn_Begin G (fsstate nfs))) (\<lambda>(ip, op).
     bnd (MkRootDir G ip op) (\<lambda>(_, op).
     let (ok, op) = Commit G op
     in if \<not> ok then Inl (Panic ''makeRootDir'') else Inr (nfs\<lparr>fsstate := Fs op\<rparr>)))"

definition MakeNfs ::
    "('log, 'op, 'alc, 'lm, 'd) golib \<Rightarrow> 'd \<Rightarrow> ('log, 'alc, 'lm, 'd) Nfs res" where
  "MakeNfs G d =
     (let super = MkFsSuper G d;
          (log, d) = MkLog G d;
          super = super\<lparr>Disk := d\<rparr>
      in bnd (readRootInode G super) (\<lambda>i.
         bnd (if Kind i = 0 then makeFs G super else Inr super) (\<lambda>super.
         let log = log_Reread G log (Disk super);
             st = MkFsState G super log;
             nfs = \<lparr>fsstate = st, shrinkst = MkShrinkerSt, Unstable = True\<rparr>
         in if Kind i = 0 then makeRootDir G nfs else Inr nfs)))"

definition ShutdownNfs ::
    "('log, 'op, 'alc, 'lm, 'd) golib \<Rightarrow> nat \<Rightarrow> ('log, 'alc, 'lm, 'd) Nfs \<Rightarrow> ('log, 'alc, 'lm, 'd) Nfs res" where
  "ShutdownNfs G fuel nfs =
     bnd (shrinker_Shutdown G fuel (shrinkst nfs) (fsstate nfs)) (\<lambda>(sh, st).
     Inr (nfs\<lparr>fsstate := st\<lparr>Txn := obj_Shutdown G (Txn st)\<rparr>, shrinkst := sh\<rparr>))"

definition Nfs_Crash ::
    "('log, 'op, 'alc, 'lm, 'd) golib \<Rightarrow> nat \<Rightarrow> ('log, 'alc, 'lm, 'd) Nfs \<Rightarrow> ('log, 'alc, 'lm, 'd) Nfs res" where
  "Nfs_Crash G fuel nfs =
     bnd (shrinker_Crash G fuel (shrinkst nfs) (fsstate nfs)) (\<lambda>(sh, st).
     ShutdownNfs G fuel (nfs\<lparr>fsstate := st, shrinkst := sh\<rparr>))"

section \<open>Locking several inodes\<close>

text \<open>
  \<^verbatim>\<open>sort.Slice\<close> on at most 12 elements is insertion sort with the given \<^verbatim>\<open>less\<close> on positions; the
  elements are swapped, and \<^verbatim>\<open>less\<close> is whatever the caller passed.
\<close>

fun sink :: "(nat \<Rightarrow> nat \<Rightarrow> bool) \<Rightarrow> nat \<Rightarrow> 'a list \<Rightarrow> 'a list" where
  "sink lt 0 xs = xs"
| "sink lt (Suc j) xs =
     (if lt (Suc j) j then sink lt j (xs[Suc j := xs ! j, j := xs ! Suc j]) else xs)"

fun sort_Slice_from :: "(nat \<Rightarrow> nat \<Rightarrow> bool) \<Rightarrow> nat \<Rightarrow> nat \<Rightarrow> 'a list \<Rightarrow> 'a list" where
  "sort_Slice_from lt i 0 xs = xs"
| "sort_Slice_from lt i (Suc n) xs = sort_Slice_from lt (Suc i) n (sink lt i xs)"

definition sort_Slice :: "(nat \<Rightarrow> nat \<Rightarrow> bool) \<Rightarrow> 'a list \<Rightarrow> 'a list" where
  "sort_Slice lt xs = sort_Slice_from lt 1 (length xs - 1) xs"

text \<open>The order in which \<^verbatim>\<open>lockInodes\<close> locks: \<^verbatim>\<open>less\<close> compares the elements of the unsorted slice.\<close>

definition lock_order :: "u64 list \<Rightarrow> u64 list" where
  "lock_order inums = sort_Slice (\<lambda>i j. inums ! i < inums ! j) inums"

text \<open>The position of the first occurrence.\<close>

fun pos_of :: "u64 \<Rightarrow> u64 list \<Rightarrow> nat res" where
  "pos_of inm [] = Inl (Panic ''func'')"
| "pos_of inm (v # vs) = (if v = inm then Inr 0 else bnd (pos_of inm vs) (\<lambda>i. Inr (Suc i)))"

fun lock_loop ::
    "('log, 'op, 'alc, 'lm, 'd) golib \<Rightarrow> u64 list \<Rightarrow> u64 list \<Rightarrow> iref option list \<Rightarrow>
     ('log, 'op, 'alc, 'lm, 'd) FsTxn \<Rightarrow> (iref option list option \<times> ('log, 'op, 'alc, 'lm, 'd) FsTxn) res" where
  "lock_loop G inums [] inos op = Inr (Some inos, op)"
| "lock_loop G inums (inm # rest) inos op =
     bnd (GetInodeInum G inm op) (\<lambda>(ip, op).
     case ip of
       None \<Rightarrow> Inr (None, Abort G op)
     | Some r \<Rightarrow>
         bnd (pos_of inm inums) (\<lambda>pos.
         lock_loop G inums rest (inos[pos := Some r]) op))"

definition lockInodes ::
    "('log, 'op, 'alc, 'lm, 'd) golib \<Rightarrow> u64 list \<Rightarrow> ('log, 'op, 'alc, 'lm, 'd) FsTxn \<Rightarrow>
     (iref option list option \<times> ('log, 'op, 'alc, 'lm, 'd) FsTxn) res" where
  "lockInodes G inums op = lock_loop G inums (lock_order inums) (replicate (length inums) None) op"

definition twoInums :: "u64 \<Rightarrow> u64 \<Rightarrow> u64 list" where
  "twoInums inum1 inum2 = [inum1, inum2]"

definition lookupOrdered ::
    "('log, 'op, 'alc, 'lm, 'd) golib \<Rightarrow> Filename3 \<Rightarrow> Fh \<Rightarrow> u64 \<Rightarrow> ('log, 'op, 'alc, 'lm, 'd) FsTxn \<Rightarrow>
     (iref option list option \<times> ('log, 'op, 'alc, 'lm, 'd) FsTxn) res" where
  "lookupOrdered G name parent inm op =
     bnd (lockInodes G (twoInums inm (Ino parent)) op) (\<lambda>(inos, op).
     case inos of
       None \<Rightarrow> Inr (None, op)
     | Some inos \<Rightarrow>
         bnd (idx inos 1) (\<lambda>p.
         bnd (deref p) (\<lambda>dip.
         if Gen (inode_at op dip) \<noteq> fh_Gen parent then Inr (None, Abort G op)
         else bnd (LookupName G name dip op) (\<lambda>((child, _), op).
              if child = NULLINUM G \<or> child \<noteq> inm then Inr (None, Abort G op)
              else Inr (Some inos, op)))))"

section \<open>Listing directories\<close>

definition Ls3 ::
    "('log, 'op, 'alc, 'lm, 'd) golib \<Rightarrow> Cookie3 \<Rightarrow> Count3 \<Rightarrow> Count3 \<Rightarrow> iref \<Rightarrow> ('log, 'op, 'alc, 'lm, 'd) FsTxn \<Rightarrow>
     (Dirlistplus3 \<times> ('log, 'op, 'alc, 'lm, 'd) FsTxn) res" where
  "Ls3 G start dircount maxcount dip op =
     bnd (Apply G start (ucast dircount) (ucast maxcount)
            (\<lambda>ip name inum off lst op.
               bnd (deref ip) (\<lambda>r.
               let ip = inode_at op r;
                   fattr = MkFattr ip
               in bnd (MakeFh3 G \<lparr>Ino = Inum ip, fh_Gen = Gen ip\<rparr>) (\<lambda>fh3.
                  let ph = \<lparr>Post_op_fh3_Handle_follows = True, Post_op_fh3_Handle = fh3\<rparr>;
                      pa = \<lparr>Post_op_attr_Attributes_follow = True, Post_op_attr_Attributes = fattr\<rparr>
                  in Inr (lst @ [\<lparr>Entryplus3_Fileid = inum, Entryplus3_Name = name, Entryplus3_Cookie = off,
                            Entryplus3_Name_attributes = pa, Entryplus3_Name_handle = ph\<rparr>], op))))
            [] dip op) (\<lambda>(eof, lst, op).
     Inr (\<lparr>Dirlistplus3_Entries = lst, Dirlistplus3_Eof = eof\<rparr>, op))"

definition Readdir3 ::
    "('log, 'op, 'alc, 'lm, 'd) golib \<Rightarrow> Cookie3 \<Rightarrow> Count3 \<Rightarrow> iref \<Rightarrow> ('log, 'op, 'alc, 'lm, 'd) FsTxn \<Rightarrow>
     (Dirlist3 \<times> ('log, 'op, 'alc, 'lm, 'd) FsTxn) res" where
  "Readdir3 G start count dip op =
     bnd (ApplyEnts G start (ucast count)
            (\<lambda>name inum off lst. lst @ [\<lparr>Entry3_Fileid = inum, Entry3_Name = name, Entry3_Cookie = off\<rparr>])
            [] dip op) (\<lambda>(eof, lst, op).
     Inr (\<lparr>Dirlist3_Entries = lst, Dirlist3_Eof = eof\<rparr>, op))"

section \<open>The MOUNT program\<close>

definition MOUNTPROC3_MNT :: "('log, 'op, 'alc, 'lm, 'd) golib \<Rightarrow> Dirpath3 \<Rightarrow> Mountres3 res" where
  "MOUNTPROC3_MNT G args =
     bnd (MkRootFh3 G) (\<lambda>fh3.
     Inr (zero_Mountres3\<lparr>Mountres3_Fhs_status := MNT3_OK,
            Mountres3_Mountinfo := (Mountres3_Mountinfo zero_Mountres3)\<lparr>Mountres3_ok_Fhandle := Nfs_fh3_Data fh3\<rparr>\<rparr>))"

definition MOUNTPROC3_DUMP :: Mountopt3 where
  "MOUNTPROC3_DUMP = \<lparr>Mountopt3_P = []\<rparr>"

definition MOUNTPROC3_EXPORT :: Exportsopt3 where
  "MOUNTPROC3_EXPORT = \<lparr>Exportsopt3_P = [\<lparr>Exports3_Ex_dir = [47], Exports3_Ex_groups = []\<rparr>]\<rparr>"

end
