(* ===== verification/LockOrder.thy ===== *)
theory LockOrder
  imports Nfs FsTxnSpec "HOL-Library.Multiset"
begin

text \<open>
  Locking several inodes (\<^verbatim>\<open>nfs/lorder.go\<close>): which inodes \<^const>\<open>lockInodes\<close> locks, in which order, and which
  pointers it returns.
\<close>

section \<open>The order\<close>

lemma sink_mset: "j < length xs \<Longrightarrow> mset (sink lt j xs) = mset xs \<and> length (sink lt j xs) = length xs"
proof (induction j arbitrary: xs)
  case (Suc j)
  let ?ys = "xs[Suc j := xs ! j, j := xs ! Suc j]"
  have "mset ?ys = mset xs" using Suc.prems by (simp add: mset_swap)
  then show ?case using Suc.IH [of ?ys] Suc.prems by simp
qed simp

lemma sort_from_mset: "i + n \<le> length xs \<Longrightarrow> mset (sort_Slice_from lt i n xs) = mset xs"
proof (induction n arbitrary: i xs)
  case (Suc n)
  then show ?case using sink_mset [of i xs lt] Suc.IH [of "Suc i" "sink lt i xs"] by simp
qed simp

lemma lock_order_mset: "mset (lock_order inums) = mset inums"
  using sort_from_mset [of 1 "length inums - 1" inums] by (cases inums) (simp_all add: lock_order_def sort_Slice_def)

text \<open>The order of locking. \<^verbatim>\<open>lockInodes\<close> locks every inode it is given, each as often as it is given, and two
  inodes in increasing order of their numbers.\<close>

theorem lock_order_two:
  "mset (lock_order inums) = mset inums \<and> lock_order (twoInums i j) = (if j < i then [j, i] else [i, j])"
proof
  show "lock_order (twoInums i j) = (if j < i then [j, i] else [i, j])"
    by (simp add: lock_order_def sort_Slice_def twoInums_def)
qed (rule lock_order_mset)

text \<open>Three inodes: the comparison that \<^verbatim>\<open>lockInodes\<close> passes to \<^verbatim>\<open>sort.Slice\<close> reads the
  caller's slice instead of the slice being sorted, so that after the first swap it compares the wrong
  elements.\<close>

lemma lock_order_three:
  assumes "distinct [a, b, c]"
  shows "lock_order [a, b, c] = (if c < a \<and> a < b then [a, c, b] else if b < c \<and> c < a then [b, a, c] else sort [a, b, c])"
  using assms by (auto simp: lock_order_def sort_Slice_def numeral_2_eq_2 not_less)

section \<open>The inodes\<close>

lemma pos_of_Inr: "pos_of i is = Inr p \<Longrightarrow> p < length is \<and> is ! p = i"
  by (induction "is" arbitrary: p) (auto simp: bnd_eq_Inr split: if_splits)

definition locked_upto ::
    "('log, 'op, 'alc, 'lm, 'd) FsTxn \<Rightarrow> u64 list \<Rightarrow> u64 list \<Rightarrow> iref option list \<Rightarrow> bool" where
  "locked_upto op inums todo inos \<longleftrightarrow> length inos = length inums \<and>
     (\<forall>k < length inums. inums ! k \<notin> set todo \<longrightarrow> (\<exists>r. inos ! k = Some r \<and> (inums ! k, r) \<in> set (inodes op)))"

context lockmap_lib
begin

lemma lock_loop_ok:
  assumes "txn_inv held op" and "lock_loop G inums todo inos op = Inr (res, op')" and "distinct inums"
    and "locked_upto op inums todo inos"
  shows "case res of
     None \<Rightarrow> fs_idle held (Fs op') \<and> inodes op' = []
   | Some inos' \<Rightarrow> txn_inv held op' \<and> locked_upto op' inums [] inos' \<and> fst ` set (inodes op') = fst ` set (inodes op) \<union> set todo"
  using assms
proof (induction todo arbitrary: inos op)
  case (Cons i todo)
  obtain ip op1 where g: "GetInodeInum G i op = Inr (ip, op1)" using Cons.prems(2) by (auto simp: bnd_eq_Inr)
  note gi = GetInodeInum_ok [OF Cons.prems(1) g]
  show ?case
  proof (cases ip)
    case None
    then show ?thesis using Cons.prems(2) g Abort_idle [of op1] gi by auto
  next
    case (Some r)
    then obtain p where p: "pos_of i inums = Inr p" and l: "lock_loop G inums todo (inos[p := Some r]) op1 = Inr (res, op')"
      using Cons.prems(2) g by (auto simp: bnd_eq_Inr)
    note q = pos_of_Inr [OF p]
    have sub: "set (inodes op1) = insert (i, r) (set (inodes op))" using gi Some by simp
    have "locked_upto op1 inums todo (inos[p := Some r])"
      unfolding locked_upto_def
    proof (intro conjI allI impI)
      fix k
      assume k: "k < length inums" "inums ! k \<notin> set todo"
      show "\<exists>r'. inos[p := Some r] ! k = Some r' \<and> (inums ! k, r') \<in> set (inodes op1)"
      proof (cases "k = p")
        case True
        then show ?thesis using q sub Cons.prems(4) k by (simp add: locked_upto_def)
      next
        case False
        then have "inums ! k \<noteq> i" using q k Cons.prems(3) by (auto simp: nth_eq_iff_index_eq)
        then show ?thesis using False Cons.prems(4) k sub by (auto simp: locked_upto_def)
      qed
    qed (use Cons.prems(4) in \<open>simp add: locked_upto_def\<close>)
    from Cons.IH [OF _ l Cons.prems(3) this] gi sub show ?thesis by (auto split: option.splits)
  qed
qed auto

text \<open>The transaction's inodes are in the order in which they were locked.\<close>

lemma GetInodeInum_order:
  assumes inv: "txn_inv held op" and g: "GetInodeInum G i op = Inr (Some r, op')"
  shows "map fst (inodes op') = map fst (inodes op) @ [i]"
proof -
  from g have l: "GetInodeLocked G i op = Inr (r, op')" by (auto simp: GetInodeInum_def GetInodeInumFree_def bnd_eq_Inr split: if_splits)
  then obtain op2 where u: "op' = addInode r op2" "inodes op2 = inodes op"
    by (auto simp: GetInodeLocked_def LockInode_def bnd_eq_Inr Let_def put_inode_def split: option.splits)
  have "Inum (inode_at op2 r) = i" using GetInodeInum_ok [OF inv g] u(1) by (simp add: addInode_def inode_at_def)
  moreover have "AList.update i r xs = xs @ [(i, r)]" if "i \<notin> fst ` set xs" for xs :: "(u64 \<times> iref) list"
    using that by (induction xs) auto
  ultimately show ?thesis using u GetInodeInum_ok [OF inv g] by (simp add: addInode_def)
qed

lemma lock_loop_order:
  "txn_inv held op \<Longrightarrow> lock_loop G inums todo inos op = Inr (Some inos', op') \<Longrightarrow> map fst (inodes op') = map fst (inodes op) @ todo"
proof (induction todo arbitrary: inos op)
  case (Cons i todo)
  then obtain r op1 p where g: "GetInodeInum G i op = Inr (Some r, op1)" and l: "lock_loop G inums todo (inos[p := Some r]) op1 = Inr (Some inos', op')"
    by (auto simp: bnd_eq_Inr split: option.splits)
  have "txn_inv held op1" using GetInodeInum_ok [OF Cons.prems(1) g] by simp
  from Cons.IH [OF this l] show ?case using GetInodeInum_order [OF Cons.prems(1) g] by simp
qed simp

end

text \<open>C40: locking several inodes. When \<^verbatim>\<open>lockInodes\<close> returns pointers for distinct numbers, the transaction owns each
  of these inodes and no others beside those it owned, and the pointer at each position is to the inode
  with the number at that position, in use; when it returns nil, the transaction is aborted and no lock
  is held.\<close>

theorem lockInodes_locks:
  assumes G: "gojournal G on used arange held" and inv: "txn_inv held op" and d: "distinct inums"
    and l: "lockInodes G inums op = Inr (res, op')"
  shows "case res of
     None \<Rightarrow> fs_idle held (Fs op') \<and> inodes op' = []
   | Some inos \<Rightarrow> txn_inv held op' \<and> length inos = length inums \<and>
       fst ` set (inodes op') = fst ` set (inodes op) \<union> set inums \<and>
       (\<forall>k < length inums. \<exists>r. inos ! k = Some r \<and> (inums ! k, r) \<in> set (inodes op') \<and> Inum (inode_at op' r) = inums ! k)"
proof -
  have L: "lockmap_lib G held" using G by (simp add: gojournal_def)
  have s: "set (lock_order inums) = set inums" using lock_order_mset [of inums] by (metis set_mset_mset)
  have "locked_upto op inums (lock_order inums) (replicate (length inums) None)"
    by (auto simp: locked_upto_def s)
  from lockmap_lib.lock_loop_ok [OF L inv l [unfolded lockInodes_def] d this] show ?thesis
    using txn_inv_owned by (fastforce simp: locked_upto_def s split: option.splits)
qed

text \<open>Two inodes, 5 and 6, in the cache.\<close>

definition ex_two :: "(u64 \<Rightarrow> nat \<Rightarrow> byte, bool list, u64 list, ref_disk) FsState" where
  "ex_two = ex_state\<lparr>Icache := \<lparr>entries = [5 \<mapsto> \<lparr>slot = \<lparr>Obj = Some 0\<rparr>, lru = True, entry_id = 5\<rparr>,
       6 \<mapsto> \<lparr>slot = \<lparr>Obj = Some 1\<rparr>, lru = True, entry_id = 6\<rparr>], lru_list = [5, 6], cache_sz = 100, cnt = 2\<rparr>,
     iobj := (\<lambda>r. if r = 0 then ex_inode else ex_inode\<lparr>Inum := 6\<rparr>), inext := 2\<rparr>"

lemma ex_two_idle: "fs_idle set ex_two"
  by (auto simp: fs_idle_def ex_two_def ex_state_def icache_ok_def cache_inv_def ex_inode_def)

lemma ex_two_lock: "\<exists>op. lockInodes ref_lib [6, 5] (FsTxn_Begin ref_lib ex_two) = Inr (Some [Some 1, Some 0], op)"
  by (simp add: lockInodes_def lock_order_def sort_Slice_def GetInodeInum_def GetInodeInumFree_def GetInodeLocked_def
      LockInode_def LookupSlot_def FsTxn_Begin_def ex_two_def ex_state_def ref_lib_locks addInode_def inode_at_def ex_inode_def)

theorem lockInodes_locks_witness:
  "\<exists>op'. lockInodes ref_lib [6, 5] (FsTxn_Begin ref_lib ex_two) = Inr (Some [Some 1, Some 0], op') \<and>
     fst ` set (inodes op') = {5, 6} \<and> Inum (inode_at op' 1) = 6"
proof -
  obtain op' where l: "lockInodes ref_lib [6, 5] (FsTxn_Begin ref_lib ex_two) = Inr (Some [Some 1, Some 0], op')"
    using ex_two_lock by blast
  have inv: "txn_inv set (FsTxn_Begin ref_lib ex_two)" by (rule lockmap_lib.Begin_inv [OF ref_lockmap_lib ex_two_idle])
  from lockInodes_locks [OF ref_gojournal inv _ l] show ?thesis
    using l by (auto simp: FsTxn_Begin_def All_less_Suc)
qed

text \<open>C36: with three inodes the order can be wrong. When \<^verbatim>\<open>lockInodes\<close> has locked three different inodes \<open>a\<close>, \<open>b\<close> and \<open>c\<close>,
  in that order in the slice, it has taken the locks in increasing order of the numbers except in two of the six cases: for
  \<open>c < a < b\<close> it takes them in the order \<open>a\<close>, \<open>c\<close>, \<open>b\<close>, and for \<open>b < c < a\<close> in the order \<open>b\<close>, \<open>a\<close>, \<open>c\<close>. The comparison that it
  passes to \<^verbatim>\<open>sort.Slice\<close> reads the caller's slice instead of the slice being sorted. (The model of the map \<^verbatim>\<open>inodes\<close> of the
  transaction keeps the entries in the order in which the locks were taken.)\<close>

theorem lock_order_three_unsorted:
  assumes G: "gojournal G on used arange held" and inv: "txn_inv held op" and d: "distinct [a, b, c]"
    and l: "lockInodes G [a, b, c] op = Inr (Some inos, op')"
  shows "map fst (inodes op') = map fst (inodes op) @
      (if c < a \<and> a < b then [a, c, b] else if b < c \<and> c < a then [b, a, c] else sort [a, b, c])"
proof -
  have L: "lockmap_lib G held" using G by (simp add: gojournal_def)
  show ?thesis using lockmap_lib.lock_loop_order [OF L inv l [unfolded lockInodes_def]] lock_order_three [OF d] by simp
qed

text \<open>Three inodes, 2, 3 and 1, in the cache.\<close>

definition ex_three :: "(u64 \<Rightarrow> nat \<Rightarrow> byte, bool list, u64 list, ref_disk) FsState" where
  "ex_three = ex_state\<lparr>Icache := \<lparr>entries = [1 \<mapsto> \<lparr>entry.slot = \<lparr>Obj = Some 0\<rparr>, lru = True, entry_id = 1\<rparr>,
       2 \<mapsto> \<lparr>entry.slot = \<lparr>Obj = Some 1\<rparr>, lru = True, entry_id = 2\<rparr>,
       3 \<mapsto> \<lparr>entry.slot = \<lparr>Obj = Some 2\<rparr>, lru = True, entry_id = 3\<rparr>], lru_list = [1, 2, 3], cache_sz = 100, cnt = 3\<rparr>,
     iobj := (\<lambda>r. ex_inode\<lparr>Inum := of_nat (Suc r)\<rparr>), inext := 3\<rparr>"

lemma ex_three_idle: "fs_idle set ex_three"
  by (auto simp: fs_idle_def ex_three_def ex_state_def icache_ok_def cache_inv_def ex_inode_def)

lemma ex_three_lock: "\<exists>op. lockInodes ref_lib [2, 3, 1] (FsTxn_Begin ref_lib ex_three) = Inr (Some [Some 1, Some 2, Some 0], op)"
  by (simp add: lockInodes_def lock_order_three GetInodeInum_def GetInodeInumFree_def GetInodeLocked_def
      LockInode_def LookupSlot_def FsTxn_Begin_def ex_three_def ex_state_def ref_lib_locks addInode_def inode_at_def ex_inode_def numeral_3_eq_3)

theorem lock_order_three_unsorted_witness:
  "\<exists>inos op'. lockInodes ref_lib [2, 3, 1] (FsTxn_Begin ref_lib ex_three) = Inr (Some inos, op') \<and>
     map fst (inodes op') = [2, 1, 3]"
proof -
  obtain inos op' where l: "lockInodes ref_lib [2, 3, 1] (FsTxn_Begin ref_lib ex_three) = Inr (Some inos, op')"
    using ex_three_lock by blast
  have inv: "txn_inv set (FsTxn_Begin ref_lib ex_three)" by (rule lockmap_lib.Begin_inv [OF ref_lockmap_lib ex_three_idle])
  from lock_order_three_unsorted [OF ref_gojournal inv _ l] show ?thesis using l by (simp add: FsTxn_Begin_def)
qed

end
