(* ===== verification/NfsOps.thy ===== *)
theory NfsOps
  imports Nfs
begin

text \<open>
  \<^verbatim>\<open>nfs/nfs_ops.go\<close>: the NFS procedures. A handler takes the arguments and the server and returns
  the reply and the server; it ends in a fault where the Go code panics or blocks for ever. The
  loops that retry a transaction (\<^verbatim>\<open>getShrink\<close>, \<^verbatim>\<open>getAlloc\<close>, \<^verbatim>\<open>getInodesLocked\<close>, \<^verbatim>\<open>RENAME\<close>) and the
  loop of \<^verbatim>\<open>DoShrink\<close> take the number of attempts as fuel.
\<close>

definition put_fs ::
    "('log, 'op, 'alc, 'lm, 'd) FsTxn \<Rightarrow> ('log, 'alc, 'lm, 'd) Nfs \<Rightarrow> ('log, 'alc, 'lm, 'd) Nfs" where
  "put_fs op nfs = nfs\<lparr>fsstate := Fs op\<rparr>"

definition errRet ::
    "('log, 'op, 'alc, 'lm, 'd) golib \<Rightarrow> ('log, 'op, 'alc, 'lm, 'd) FsTxn option \<Rightarrow> Nfsstat3 \<Rightarrow>
     (Nfsstat3 \<times> ('log, 'op, 'alc, 'lm, 'd) FsTxn) res" where
  "errRet G op err = bnd (deref op) (\<lambda>op. Inr (err, Abort G op))"

definition commitReply ::
    "('log, 'op, 'alc, 'lm, 'd) golib \<Rightarrow> ('log, 'op, 'alc, 'lm, 'd) FsTxn \<Rightarrow>
     Nfsstat3 \<times> ('log, 'op, 'alc, 'lm, 'd) FsTxn" where
  "commitReply G op =
     (let (ok, op) = Commit G op
      in (if ok then NFS3_OK else NFS3ERR_SERVERFAULT, op))"

definition NFSPROC3_GETATTR ::
    "('log, 'op, 'alc, 'lm, 'd) golib \<Rightarrow> GETATTR3args \<Rightarrow> ('log, 'alc, 'lm, 'd) Nfs \<Rightarrow>
     (GETATTR3res \<times> ('log, 'alc, 'lm, 'd) Nfs) res" where
  "NFSPROC3_GETATTR G args nfs =
     (let reply = zero_GETATTR3res;
          op = FsTxn_Begin G (fsstate nfs)
      in bnd (GetInodeFh G (GETATTR3args_Object args) op) (\<lambda>(ip, op).
         case ip of
           None \<Rightarrow>
             bnd (errRet G (Some op) NFS3ERR_STALE) (\<lambda>(st, op).
             Inr (reply\<lparr>GETATTR3res_Status := st\<rparr>, put_fs op nfs))
         | Some ip \<Rightarrow>
             let reply = reply\<lparr>GETATTR3res_Resok :=
                           (GETATTR3res_Resok reply)\<lparr>GETATTR3resok_Obj_attributes := MkFattr (inode_at op ip)\<rparr>\<rparr>;
                 (st, op) = commitReply G op
             in Inr (reply\<lparr>GETATTR3res_Status := st\<rparr>, put_fs op nfs)))"

fun getShrink ::
    "('log, 'op, 'alc, 'lm, 'd) golib \<Rightarrow> nat \<Rightarrow> Nfs_fh3 \<Rightarrow> ShrinkerSt \<Rightarrow> ('log, 'alc, 'lm, 'd) FsState \<Rightarrow>
     (('log, 'op, 'alc, 'lm, 'd) FsTxn \<times> iref option \<times> Nfsstat3) res" where
  "getShrink G 0 fh sh fs = Inl NoFuel"
| "getShrink G (Suc fuel) fh sh fs =
     bnd (GetInodeFh G fh (FsTxn_Begin G fs)) (\<lambda>(ip, op).
     case ip of
       None \<Rightarrow> Inr (op, None, NFS3ERR_STALE)
     | Some r \<Rightarrow>
         if \<not> IsShrinking G (inode_at op r) then Inr (op, Some r, NFS3_OK)
         else
           let inum = Inum (inode_at op r);
               op = Abort G op
           in bnd (DoShrink G fuel inum sh (Fs op)) (\<lambda>(ok, fs).
              if \<not> ok then Inr (FsTxn_Begin G fs, Some r, NFS3ERR_SERVERFAULT)
              else getShrink G fuel fh sh fs))"

definition set_atime ::
    "('log, 'op, 'alc, 'lm, 'd) golib \<Rightarrow> Set_atime \<Rightarrow> iref \<Rightarrow> ('log, 'op, 'alc, 'lm, 'd) FsTxn \<Rightarrow>
     ('log, 'op, 'alc, 'lm, 'd) FsTxn res" where
  "set_atime G a ip op =
     (if Set_atime_Set_it a = DONT_CHANGE then Inr op
      else ip_WriteInode G ip (put_inode ip ((inode_at op ip)\<lparr>Atime :=
             if Set_atime_Set_it a = SET_TO_CLIENT_TIME then Set_atime_Atime a else NfstimeNow G 0\<rparr>) op))"

definition set_mtime ::
    "('log, 'op, 'alc, 'lm, 'd) golib \<Rightarrow> nat \<Rightarrow> Set_mtime \<Rightarrow> iref \<Rightarrow> ('log, 'op, 'alc, 'lm, 'd) FsTxn \<Rightarrow>
     ('log, 'op, 'alc, 'lm, 'd) FsTxn res" where
  "set_mtime G k a ip op =
     (if Set_mtime_Set_it a = DONT_CHANGE then Inr op
      else ip_WriteInode G ip (put_inode ip ((inode_at op ip)\<lparr>Mtime :=
             if Set_mtime_Set_it a = SET_TO_CLIENT_TIME then Set_mtime_Mtime a else NfstimeNow G k\<rparr>) op))"

definition NFSPROC3_SETATTR ::
    "('log, 'op, 'alc, 'lm, 'd) golib \<Rightarrow> nat \<Rightarrow> SETATTR3args \<Rightarrow> ('log, 'alc, 'lm, 'd) Nfs \<Rightarrow>
     (SETATTR3res \<times> ('log, 'alc, 'lm, 'd) Nfs) res" where
  "NFSPROC3_SETATTR G fuel args nfs =
     (let reply = zero_SETATTR3res;
          attr = SETATTR3args_New_attributes args
      in bnd (getShrink G fuel (SETATTR3args_Object args) (shrinkst nfs) (fsstate nfs)) (\<lambda>(op, ip, err).
         if err \<noteq> NFS3_OK
         then bnd (errRet G (Some op) err) (\<lambda>(st, op).
              Inr (reply\<lparr>SETATTR3res_Status := st\<rparr>, put_fs op nfs))
         else
         bnd (deref ip) (\<lambda>ip.
         bnd (if Set_size3_Set_it (Sattr3_Size attr)
              then bnd (on_inode ip (Resize G (Set_size3_Size (Sattr3_Size attr))) op) (\<lambda>(shrink, op).
                   Inr (if shrink then nfs\<lparr>shrinkst := StartShrinker (Inum (inode_at op ip)) (shrinkst nfs)\<rparr> else nfs, op))
              else Inr (nfs, op)) (\<lambda>(nfs, op).
         bnd (set_atime G (Sattr3_Atime attr) ip op) (\<lambda>op.
         let k = (if Set_atime_Set_it (Sattr3_Atime attr) \<in> {DONT_CHANGE, SET_TO_CLIENT_TIME} then 0 else 1)
         in bnd (set_mtime G k (Sattr3_Mtime attr) ip op) (\<lambda>op.
         let wcc = SETATTR3resok_Obj_wcc (SETATTR3res_Resok reply);
             wcc = wcc\<lparr>Wcc_data_After := \<lparr>Post_op_attr_Attributes_follow = True,
                          Post_op_attr_Attributes = MkFattr (inode_at op ip)\<rparr>\<rparr>;
             reply = reply\<lparr>SETATTR3res_Resok := (SETATTR3res_Resok reply)\<lparr>SETATTR3resok_Obj_wcc := wcc\<rparr>\<rparr>;
             (st, op) = commitReply G op
         in Inr (reply\<lparr>SETATTR3res_Status := st\<rparr>, put_fs op nfs)))))))"

definition twoInodes :: "iref \<Rightarrow> iref \<Rightarrow> iref option list" where
  "twoInodes ino1 ino2 = [Some ino1, Some ino2]"

fun getInodesLocked ::
    "('log, 'op, 'alc, 'lm, 'd) golib \<Rightarrow> nat \<Rightarrow> Nfs_fh3 \<Rightarrow> Filename3 \<Rightarrow> ('log, 'alc, 'lm, 'd) FsState \<Rightarrow>
     (('log, 'op, 'alc, 'lm, 'd) FsTxn \<times> iref option list \<times> Nfsstat3) res" where
  "getInodesLocked G 0 dfh name fs = Inl NoFuel"
| "getInodesLocked G (Suc fuel) dfh name fs =
     bnd (GetInodeFh G dfh (FsTxn_Begin G fs)) (\<lambda>(dip, op).
     case dip of
       None \<Rightarrow> Inr (op, [], NFS3ERR_STALE)
     | Some dip \<Rightarrow>
         bnd (LookupName G name dip op) (\<lambda>((inum, _), op).
         if inum = NULLINUM G then Inr (op, [Some dip], NFS3ERR_NOENT)
         else if inum = Inum (inode_at op dip) then Inr (op, [Some dip], NFS3_OK)
         else if inum < Inum (inode_at op dip)
         then bnd (MakeFh G dfh) (\<lambda>parent.
              bnd (lookupOrdered G name parent inum (FsTxn_Begin G (Fs (Abort G op)))) (\<lambda>(inos, op).
              case inos of
                None \<Rightarrow> getInodesLocked G fuel dfh name (Fs op)
              | Some inos \<Rightarrow>
                  bnd (idx inos 0) (\<lambda>ip.
                  case ip of
                    None \<Rightarrow> getInodesLocked G fuel dfh name (Fs op)
                  | Some _ \<Rightarrow> Inr (op, inos, NFS3_OK))))
         else bnd (GetInodeLocked G inum op) (\<lambda>(ip, op).
              Inr (op, twoInodes ip dip, NFS3_OK))))"

definition NFSPROC3_LOOKUP ::
    "('log, 'op, 'alc, 'lm, 'd) golib \<Rightarrow> nat \<Rightarrow> LOOKUP3args \<Rightarrow> ('log, 'alc, 'lm, 'd) Nfs \<Rightarrow>
     (LOOKUP3res \<times> ('log, 'alc, 'lm, 'd) Nfs) res" where
  "NFSPROC3_LOOKUP G fuel args nfs =
     (let reply = zero_LOOKUP3res;
          what = LOOKUP3args_What args
      in bnd (getInodesLocked G fuel (Diropargs3_Dir what) (Diropargs3_Name what) (fsstate nfs)) (\<lambda>(op, inos, err).
         if err \<noteq> NFS3_OK
         then bnd (errRet G (Some op) err) (\<lambda>(st, op).
              Inr (reply\<lparr>LOOKUP3res_Status := st\<rparr>, put_fs op nfs))
         else
         bnd (idx inos 0) (\<lambda>p.
         bnd (deref p) (\<lambda>r.
         let i = inode_at op r
         in bnd (MakeFh3 G \<lparr>Ino = Inum i, fh_Gen = Gen i\<rparr>) (\<lambda>fh3.
         let resok = (LOOKUP3res_Resok reply)\<lparr>LOOKUP3resok_Object := fh3,
                       LOOKUP3resok_Obj_attributes := \<lparr>Post_op_attr_Attributes_follow = True,
                                                       Post_op_attr_Attributes = MkFattr i\<rparr>\<rparr>;
             (st, op) = commitReply G op
         in Inr (reply\<lparr>LOOKUP3res_Resok := resok, LOOKUP3res_Status := st\<rparr>, put_fs op nfs))))))"

definition NFSPROC3_ACCESS :: "ACCESS3args \<Rightarrow> ACCESS3res" where
  "NFSPROC3_ACCESS args =
     (let reply = zero_ACCESS3res
      in reply\<lparr>ACCESS3res_Status := NFS3_OK,
               ACCESS3res_Resok := (ACCESS3res_Resok reply)\<lparr>ACCESS3resok_Access :=
                 ACCESS3_READ OR ACCESS3_LOOKUP OR ACCESS3_MODIFY OR ACCESS3_EXTEND OR ACCESS3_DELETE OR
                 ACCESS3_EXECUTE\<rparr>\<rparr>)"

definition doRead ::
    "('log, 'op, 'alc, 'lm, 'd) golib \<Rightarrow> Nfs_fh3 \<Rightarrow> Ftype3 \<Rightarrow> u64 \<Rightarrow> u64 \<Rightarrow> ('log, 'alc, 'lm, 'd) FsState \<Rightarrow>
     (('log, 'op, 'alc, 'lm, 'd) FsTxn \<times> byte list \<times> bool \<times> Nfsstat3) res" where
  "doRead G fh kind offset count fs =
     bnd (GetInodeFh G fh (FsTxn_Begin G fs)) (\<lambda>(ip, op).
     case ip of
       None \<Rightarrow> Inr (op, [], False, NFS3ERR_STALE)
     | Some r \<Rightarrow>
         if Kind (inode_at op r) \<noteq> kind then Inr (op, [], False, NFS3ERR_INVAL)
         else
           let readCount = (if Kind (inode_at op r) = NF3LNK then Size (inode_at op r) else count)
           in bnd (ip_Read G offset readCount r op) (\<lambda>((data, eof), op).
              Inr (op, data, eof, NFS3_OK)))"

definition NFSPROC3_READ ::
    "('log, 'op, 'alc, 'lm, 'd) golib \<Rightarrow> READ3args \<Rightarrow> ('log, 'alc, 'lm, 'd) Nfs \<Rightarrow>
     (READ3res \<times> ('log, 'alc, 'lm, 'd) Nfs) res" where
  "NFSPROC3_READ G args nfs =
     (let reply = zero_READ3res
      in bnd (doRead G (READ3args_File args) NF3REG (READ3args_Offset args) (ucast (READ3args_Count args))
                (fsstate nfs)) (\<lambda>(op, data, eof, err).
         if err \<noteq> NFS3_OK
         then bnd (errRet G (Some op) err) (\<lambda>(st, op).
              Inr (reply\<lparr>READ3res_Status := st\<rparr>, put_fs op nfs))
         else
           let resok = (READ3res_Resok reply)\<lparr>READ3resok_Count := of_nat (length data),
                         READ3resok_Data := data, READ3resok_Eof := eof\<rparr>;
               (st, op) = commitReply G op
           in Inr (reply\<lparr>READ3res_Resok := resok, READ3res_Status := st\<rparr>, put_fs op nfs)))"

definition NFSPROC3_WRITE ::
    "('log, 'op, 'alc, 'lm, 'd) golib \<Rightarrow> nat \<Rightarrow> WRITE3args \<Rightarrow> ('log, 'alc, 'lm, 'd) Nfs \<Rightarrow>
     (WRITE3res \<times> ('log, 'alc, 'lm, 'd) Nfs) res" where
  "NFSPROC3_WRITE G fuel args nfs =
     (let reply = zero_WRITE3res
      in bnd (getShrink G fuel (WRITE3args_File args) (shrinkst nfs) (fsstate nfs)) (\<lambda>(op, ip, err).
         if err \<noteq> NFS3_OK
         then bnd (errRet G (Some op) err) (\<lambda>(st, op).
              Inr (reply\<lparr>WRITE3res_Status := st\<rparr>, put_fs op nfs))
         else
         bnd (deref ip) (\<lambda>ip.
         if Kind (inode_at op ip) \<noteq> NF3REG \<or> ucast (WRITE3args_Count args) \<ge> LogBytes G
         then bnd (errRet G (Some op) NFS3ERR_INVAL) (\<lambda>(st, op).
              Inr (reply\<lparr>WRITE3res_Status := st\<rparr>, put_fs op nfs))
         else
         bnd (ip_Write G (WRITE3args_Offset args) (ucast (WRITE3args_Count args)) (WRITE3args_Data args) ip op)
           (\<lambda>((count, writeOk), op).
         if \<not> writeOk
         then bnd (errRet G (Some op) NFS3ERR_NOSPC) (\<lambda>(st, op).
              Inr (reply\<lparr>WRITE3res_Status := st\<rparr>, put_fs op nfs))
         else
           let stable = (if \<not> Unstable nfs then FILE_SYNC else WRITE3args_Stable args);
               (ok, op) = (if stable = FILE_SYNC then Commit G op
                           else if stable = DATA_SYNC then CommitData G op
                           else CommitUnstable G op)
           in if ok
              then
                let wcc = WRITE3resok_File_wcc (WRITE3res_Resok reply);
                    wcc = wcc\<lparr>Wcc_data_After := \<lparr>Post_op_attr_Attributes_follow = True,
                                 Post_op_attr_Attributes = MkFattr (inode_at op ip)\<rparr>\<rparr>;
                    resok = (WRITE3res_Resok reply)\<lparr>WRITE3resok_Count := ucast count,
                              WRITE3resok_Committed := stable, WRITE3resok_File_wcc := wcc\<rparr>
                in Inr (reply\<lparr>WRITE3res_Status := NFS3_OK, WRITE3res_Resok := resok\<rparr>, put_fs op nfs)
              else Inr (reply\<lparr>WRITE3res_Status := NFS3ERR_SERVERFAULT\<rparr>, put_fs op nfs)))))"

section \<open>Creating\<close>

fun getAlloc ::
    "('log, 'op, 'alc, 'lm, 'd) golib \<Rightarrow> nat \<Rightarrow> Nfs_fh3 \<Rightarrow> Filename3 \<Rightarrow> Ftype3 \<Rightarrow> ShrinkerSt \<Rightarrow>
     ('log, 'op, 'alc, 'lm, 'd) FsTxn \<Rightarrow>
     (('log, 'op, 'alc, 'lm, 'd) FsTxn \<times> iref option \<times> iref option \<times> Nfsstat3) res" where
  "getAlloc G 0 dfh name kind sh op = Inl NoFuel"
| "getAlloc G (Suc fuel) dfh name kind sh op =
     bnd (GetInodeFh G dfh op) (\<lambda>(dip, op).
     case dip of
       None \<Rightarrow> Inr (op, None, None, NFS3ERR_STALE)
     | Some d \<Rightarrow>
         bnd (LookupName G name d op) (\<lambda>((inum, _), op).
         if inum \<noteq> NULLINUM G then Inr (op, Some d, None, NFS3ERR_EXIST)
         else bnd (AllocInode G kind op) (\<lambda>(ip, op).
              case ip of
                None \<Rightarrow> Inr (op, Some d, None, NFS3ERR_NOSPC)
              | Some i \<Rightarrow>
                  if \<not> IsShrinking G (inode_at op i) then Inr (op, Some d, Some i, NFS3_OK)
                  else
                    let inum = Inum (inode_at op i);
                        op = Abort G op
                    in bnd (DoShrink G fuel inum sh (Fs op)) (\<lambda>(ok, fs).
                       let op = FsTxn_Begin G fs
                       in if \<not> ok then Inr (op, Some d, Some i, NFS3ERR_SERVERFAULT)
                          else getAlloc G fuel dfh name kind sh op))))"

definition doDecLink ::
    "('log, 'op, 'alc, 'lm, 'd) golib \<Rightarrow> iref \<Rightarrow> ('log, 'alc, 'lm, 'd) Nfs \<Rightarrow> ('log, 'op, 'alc, 'lm, 'd) FsTxn \<Rightarrow>
     (('log, 'alc, 'lm, 'd) Nfs \<times> ('log, 'op, 'alc, 'lm, 'd) FsTxn) res" where
  "doDecLink G ip nfs op =
     bnd (on_inode ip (DecLink G) op) (\<lambda>(last, op).
     if last
     then bnd (on_inode ip (Resize G 0) op) (\<lambda>(shrink, op).
          bnd (on_inode ip (\<lambda>ip atxn. bnd (FreeInode G ip atxn) (\<lambda>r. Inr ((), r))) op) (\<lambda>(_, op).
          Inr (if shrink then nfs\<lparr>shrinkst := StartShrinker (Inum (inode_at op ip)) (shrinkst nfs)\<rparr> else nfs, op)))
     else Inr (nfs, op))"

text \<open>The results \<^verbatim>\<open>fh3\<close> and \<^verbatim>\<open>fattr\<close> are the zero values where \<^verbatim>\<open>err\<close> is not \<^verbatim>\<open>NFS3_OK\<close>.\<close>

definition doCreate ::
    "('log, 'op, 'alc, 'lm, 'd) golib \<Rightarrow> nat \<Rightarrow> Nfs_fh3 \<Rightarrow> Filename3 \<Rightarrow> Ftype3 \<Rightarrow> byte list \<Rightarrow>
     ('log, 'alc, 'lm, 'd) Nfs \<Rightarrow>
     (('log, 'op, 'alc, 'lm, 'd) FsTxn \<times> Nfsstat3 \<times> Nfs_fh3 \<times> Fattr3 \<times> ('log, 'alc, 'lm, 'd) Nfs) res" where
  "doCreate G fuel dfh name kind data nfs =
     (let fail = (\<lambda>op err nfs. Inr (op, err, zero_Nfs_fh3, zero_Fattr3, nfs))
      in bnd (getAlloc G fuel dfh name kind (shrinkst nfs) (FsTxn_Begin G (fsstate nfs))) (\<lambda>(op, dip, ip, err).
         if err \<noteq> NFS3_OK then fail op err nfs
         else case ip of
           None \<Rightarrow> fail op NFS3ERR_NOSPC nfs
         | Some ip \<Rightarrow>
         bnd (deref dip) (\<lambda>dip.
         bnd (if kind = NF3DIR
              then bnd (InitDir G (Inum (inode_at op dip)) ip op) (\<lambda>(ok, op).
                   if \<not> ok then Inr (False, op)
                   else bnd (ip_WriteInode G dip
                              (put_inode dip ((inode_at op dip)\<lparr>Nlink := Nlink (inode_at op dip) + 1\<rparr>) op)) (\<lambda>op.
                        Inr (True, op)))
              else if kind = NF3LNK
              then bnd (ip_Write G 0 (of_nat (length data)) data ip op) (\<lambda>((_, ok), op). Inr (ok, op))
              else Inr (True, op)) (\<lambda>(ok, op).
         if \<not> ok then bnd (doDecLink G ip nfs op) (\<lambda>(nfs, op). fail op NFS3ERR_NOSPC nfs)
         else
         bnd (AddName G (Inum (inode_at op ip)) name dip op) (\<lambda>(ok, op).
         if \<not> ok then bnd (doDecLink G ip nfs op) (\<lambda>(nfs, op). fail op NFS3ERR_IO nfs)
         else
           let i = inode_at op ip
           in bnd (MakeFh3 G \<lparr>Ino = Inum i, fh_Gen = Gen i\<rparr>) (\<lambda>fh3.
              Inr (op, NFS3_OK, fh3, MkFattr i, nfs)))))))"

definition NFSPROC3_CREATE ::
    "('log, 'op, 'alc, 'lm, 'd) golib \<Rightarrow> nat \<Rightarrow> CREATE3args \<Rightarrow> ('log, 'alc, 'lm, 'd) Nfs \<Rightarrow>
     (CREATE3res \<times> ('log, 'alc, 'lm, 'd) Nfs) res" where
  "NFSPROC3_CREATE G fuel args nfs =
     (let reply = zero_CREATE3res;
          loc = CREATE3args_Where args
      in if Createhow3_Mode (CREATE3args_How args) = EXCLUSIVE
         then Inr (reply\<lparr>CREATE3res_Status := NFS3ERR_NOTSUPP\<rparr>, nfs)
         else
         bnd (doCreate G fuel (Diropargs3_Dir loc) (Diropargs3_Name loc) NF3REG [] nfs) (\<lambda>(op, err, fh3, fattr, nfs).
         if err \<noteq> NFS3_OK
         then bnd (errRet G (Some op) err) (\<lambda>(st, op).
              Inr (reply\<lparr>CREATE3res_Status := st\<rparr>, put_fs op nfs))
         else
           let resok = (CREATE3res_Resok reply)\<lparr>
                         CREATE3resok_Obj := \<lparr>Post_op_fh3_Handle_follows = True, Post_op_fh3_Handle = fh3\<rparr>,
                         CREATE3resok_Obj_attributes := \<lparr>Post_op_attr_Attributes_follow = True,
                                                         Post_op_attr_Attributes = fattr\<rparr>\<rparr>;
               (st, op) = commitReply G op
           in Inr (reply\<lparr>CREATE3res_Resok := resok, CREATE3res_Status := st\<rparr>, put_fs op nfs)))"

definition NFSPROC3_MKDIR ::
    "('log, 'op, 'alc, 'lm, 'd) golib \<Rightarrow> nat \<Rightarrow> MKDIR3args \<Rightarrow> ('log, 'alc, 'lm, 'd) Nfs \<Rightarrow>
     (MKDIR3res \<times> ('log, 'alc, 'lm, 'd) Nfs) res" where
  "NFSPROC3_MKDIR G fuel args nfs =
     (let reply = zero_MKDIR3res;
          loc = MKDIR3args_Where args
      in bnd (doCreate G fuel (Diropargs3_Dir loc) (Diropargs3_Name loc) NF3DIR [] nfs) (\<lambda>(op, err, fh3, fattr, nfs).
         if err \<noteq> NFS3_OK
         then bnd (errRet G (Some op) err) (\<lambda>(st, op).
              Inr (reply\<lparr>MKDIR3res_Status := st\<rparr>, put_fs op nfs))
         else
           let resok = (MKDIR3res_Resok reply)\<lparr>
                         MKDIR3resok_Obj := \<lparr>Post_op_fh3_Handle_follows = True, Post_op_fh3_Handle = fh3\<rparr>,
                         MKDIR3resok_Obj_attributes := \<lparr>Post_op_attr_Attributes_follow = True,
                                                        Post_op_attr_Attributes = fattr\<rparr>\<rparr>;
               (st, op) = commitReply G op
           in Inr (reply\<lparr>MKDIR3res_Resok := resok, MKDIR3res_Status := st\<rparr>, put_fs op nfs)))"

definition NFSPROC3_SYMLINK ::
    "('log, 'op, 'alc, 'lm, 'd) golib \<Rightarrow> nat \<Rightarrow> SYMLINK3args \<Rightarrow> ('log, 'alc, 'lm, 'd) Nfs \<Rightarrow>
     (SYMLINK3res \<times> ('log, 'alc, 'lm, 'd) Nfs) res" where
  "NFSPROC3_SYMLINK G fuel args nfs =
     (let reply = zero_SYMLINK3res;
          loc = SYMLINK3args_Where args;
          data = Symlinkdata3_Symlink_data (SYMLINK3args_Symlink args)
      in bnd (doCreate G fuel (Diropargs3_Dir loc) (Diropargs3_Name loc) NF3LNK data nfs) (\<lambda>(op, err, fh3, fattr, nfs).
         if err \<noteq> NFS3_OK
         then bnd (errRet G (Some op) err) (\<lambda>(st, op).
              Inr (reply\<lparr>SYMLINK3res_Status := st\<rparr>, put_fs op nfs))
         else
           let resok = (SYMLINK3res_Resok reply)\<lparr>
                         SYMLINK3resok_Obj := \<lparr>Post_op_fh3_Handle_follows = True, Post_op_fh3_Handle = fh3\<rparr>,
                         SYMLINK3resok_Obj_attributes := \<lparr>Post_op_attr_Attributes_follow = True,
                                                          Post_op_attr_Attributes = fattr\<rparr>\<rparr>;
               (st, op) = commitReply G op
           in Inr (reply\<lparr>SYMLINK3res_Resok := resok, SYMLINK3res_Status := st\<rparr>, put_fs op nfs)))"

definition NFSPROC3_READLINK ::
    "('log, 'op, 'alc, 'lm, 'd) golib \<Rightarrow> READLINK3args \<Rightarrow> ('log, 'alc, 'lm, 'd) Nfs \<Rightarrow>
     (READLINK3res \<times> ('log, 'alc, 'lm, 'd) Nfs) res" where
  "NFSPROC3_READLINK G args nfs =
     (let reply = zero_READLINK3res
      in bnd (doRead G (READLINK3args_Symlink args) NF3LNK 0 0 (fsstate nfs)) (\<lambda>(op, data, _, err).
         if err \<noteq> NFS3_OK
         then bnd (errRet G (Some op) err) (\<lambda>(st, op).
              Inr (reply\<lparr>READLINK3res_Status := st\<rparr>, put_fs op nfs))
         else
           let resok = (READLINK3res_Resok reply)\<lparr>READLINK3resok_Data := data\<rparr>;
               (st, op) = commitReply G op
           in Inr (reply\<lparr>READLINK3res_Resok := resok, READLINK3res_Status := st\<rparr>, put_fs op nfs)))"

definition NFSPROC3_MKNOD :: "MKNOD3args \<Rightarrow> MKNOD3res" where
  "NFSPROC3_MKNOD args = zero_MKNOD3res\<lparr>MKNOD3res_Status := NFS3ERR_NOTSUPP\<rparr>"

section \<open>Removing and renaming\<close>

text \<open>\<^verbatim>\<open>op\<close> is nil where the name is illegal.\<close>

definition doRemove ::
    "('log, 'op, 'alc, 'lm, 'd) golib \<Rightarrow> nat \<Rightarrow> Nfs_fh3 \<Rightarrow> Filename3 \<Rightarrow> bool \<Rightarrow> ('log, 'alc, 'lm, 'd) Nfs \<Rightarrow>
     (('log, 'op, 'alc, 'lm, 'd) FsTxn option \<times> Nfsstat3 \<times> ('log, 'alc, 'lm, 'd) Nfs) res" where
  "doRemove G fuel dfh name isdir nfs =
     (if IllegalName name then Inr (None, NFS3ERR_INVAL, nfs)
      else
      bnd (getInodesLocked G fuel dfh name (fsstate nfs)) (\<lambda>(op, inos, err).
      if err \<noteq> NFS3_OK then Inr (Some op, err, nfs)
      else
      bnd (idx inos 0) (\<lambda>p0.
      bnd (deref p0) (\<lambda>ip.
      if isdir \<and> Kind (inode_at op ip) \<noteq> NF3DIR then Inr (Some op, NFS3ERR_INVAL, nfs)
      else
      bnd (if isdir then IsDirEmpty G ip op else Inr (True, op)) (\<lambda>(empty, op).
      if isdir \<and> \<not> empty then Inr (Some op, NFS3ERR_INVAL, nfs)
      else
      bnd (idx inos 1) (\<lambda>p1.
      bnd (deref p1) (\<lambda>dip.
      bnd (RemName G name dip op) (\<lambda>(ok, op).
      if \<not> ok then Inr (Some op, NFS3ERR_IO, nfs)
      else
      bnd (doDecLink G ip nfs op) (\<lambda>(nfs, op).
      Inr (Some op, NFS3_OK, nfs))))))))))"

definition NFSPROC3_REMOVE ::
    "('log, 'op, 'alc, 'lm, 'd) golib \<Rightarrow> nat \<Rightarrow> REMOVE3args \<Rightarrow> ('log, 'alc, 'lm, 'd) Nfs \<Rightarrow>
     (REMOVE3res \<times> ('log, 'alc, 'lm, 'd) Nfs) res" where
  "NFSPROC3_REMOVE G fuel args nfs =
     (let reply = zero_REMOVE3res;
          obj = REMOVE3args_Object args
      in bnd (doRemove G fuel (Diropargs3_Dir obj) (Diropargs3_Name obj) False nfs) (\<lambda>(op, err, nfs).
         if err \<noteq> NFS3_OK
         then bnd (errRet G op err) (\<lambda>(st, op).
              Inr (reply\<lparr>REMOVE3res_Status := st\<rparr>, put_fs op nfs))
         else
         bnd (deref op) (\<lambda>op.
         let (st, op) = commitReply G op
         in Inr (reply\<lparr>REMOVE3res_Status := st\<rparr>, put_fs op nfs))))"

definition NFSPROC3_RMDIR ::
    "('log, 'op, 'alc, 'lm, 'd) golib \<Rightarrow> nat \<Rightarrow> RMDIR3args \<Rightarrow> ('log, 'alc, 'lm, 'd) Nfs \<Rightarrow>
     (RMDIR3res \<times> ('log, 'alc, 'lm, 'd) Nfs) res" where
  "NFSPROC3_RMDIR G fuel args nfs =
     (let reply = zero_RMDIR3res;
          obj = RMDIR3args_Object args
      in bnd (doRemove G fuel (Diropargs3_Dir obj) (Diropargs3_Name obj) True nfs) (\<lambda>(op, err, nfs).
         if err \<noteq> NFS3_OK
         then bnd (errRet G op err) (\<lambda>(st, op).
              Inr (reply\<lparr>RMDIR3res_Status := st\<rparr>, put_fs op nfs))
         else
         bnd (deref op) (\<lambda>op.
         let (st, op) = commitReply G op
         in Inr (reply\<lparr>RMDIR3res_Status := st\<rparr>, put_fs op nfs))))"

definition validateRename ::
    "('log, 'op, 'alc, 'lm, 'd) golib \<Rightarrow> iref option list \<Rightarrow> Fh \<Rightarrow> Fh \<Rightarrow> Filename3 \<Rightarrow> Filename3 \<Rightarrow>
     ('log, 'op, 'alc, 'lm, 'd) FsTxn \<Rightarrow> (bool \<times> ('log, 'op, 'alc, 'lm, 'd) FsTxn) res" where
  "validateRename G inos fromfh tofh fromn ton op =
     (let (a, b, c, d) = (if length inos = 3 then (0, 0, 1, 2) else (0, 1, 2, 3))
      in bnd (idx inos a) (\<lambda>p. bnd (deref p) (\<lambda>dipfrom.
         bnd (idx inos b) (\<lambda>p. bnd (deref p) (\<lambda>dipto.
         bnd (idx inos c) (\<lambda>p. bnd (deref p) (\<lambda>from.
         bnd (idx inos d) (\<lambda>p. bnd (deref p) (\<lambda>to.
         if Inum (inode_at op dipfrom) \<noteq> Ino fromfh \<or> Gen (inode_at op dipfrom) \<noteq> fh_Gen fromfh \<or>
            Inum (inode_at op dipto) \<noteq> Ino tofh \<or> Gen (inode_at op dipto) \<noteq> fh_Gen tofh
         then Inr (False, op)
         else
         bnd (LookupName G fromn dipfrom op) (\<lambda>((frominum, _), op).
         bnd (LookupName G ton dipto op) (\<lambda>((toinum, _), op).
         Inr (Inum (inode_at op from) = frominum \<and> toinum = Inum (inode_at op to), op))))))))))))"

text \<open>
  One transaction of \<^verbatim>\<open>RENAME\<close> that finds the target name in use: it has been aborted, and the three
  or four inodes are locked in order in a new one. The result is a reply that ends the call, a
  transaction in which the target has been removed, or a file-system state to retry in.
\<close>

datatype ('r, 'c, 's) rename_step = Done 'r | Go_on 'c | Retry 's

definition rename_over ::
    "('log, 'op, 'alc, 'lm, 'd) golib \<Rightarrow> RENAME3args \<Rightarrow> Fh \<Rightarrow> Fh \<Rightarrow> iref \<Rightarrow> iref \<Rightarrow> u64 \<Rightarrow> u64 \<Rightarrow>
     ('log, 'alc, 'lm, 'd) Nfs \<Rightarrow> ('log, 'op, 'alc, 'lm, 'd) FsTxn \<Rightarrow>
     (Nfsstat3 \<times> ('log, 'alc, 'lm, 'd) Nfs,
      iref \<times> iref \<times> u64 \<times> ('log, 'alc, 'lm, 'd) Nfs \<times> ('log, 'op, 'alc, 'lm, 'd) FsTxn,
      ('log, 'alc, 'lm, 'd) FsState) rename_step res" where
  "rename_over G args fromh toh dipfrom dipto frominum toinum nfs op =
     (let two = (dipto \<noteq> dipfrom);
          inums = (if two then [Inum (inode_at op dipfrom), Inum (inode_at op dipto), frominum, toinum]
                   else [Inum (inode_at op dipfrom), frominum, toinum]);
          fromname = Diropargs3_Name (RENAME3args_From args);
          toname = Diropargs3_Name (RENAME3args_To args)
      in bnd (lockInodes G inums (FsTxn_Begin G (Fs (Abort G op)))) (\<lambda>(inos, op).
         let inos = (case inos of None \<Rightarrow> [] | Some inos \<Rightarrow> inos)
         in bnd (idx inos 0) (\<lambda>p. bnd (deref p) (\<lambda>dipfrom.
         bnd (idx inos (if two then 1 else 0)) (\<lambda>p. bnd (deref p) (\<lambda>dipto.
         bnd (idx inos (if two then 2 else 1)) (\<lambda>p. bnd (deref p) (\<lambda>from.
         bnd (idx inos (if two then 3 else 2)) (\<lambda>p. bnd (deref p) (\<lambda>to.
         bnd (validateRename G inos fromh toh fromname toname op) (\<lambda>(valid, op).
         if \<not> valid then Inr (Retry (Fs (Abort G op)))
         else if Kind (inode_at op to) \<noteq> Kind (inode_at op from)
         then bnd (errRet G (Some op) NFS3ERR_INVAL) (\<lambda>(st, op). Inr (Done (st, put_fs op nfs)))
         else
         bnd (if Kind (inode_at op to) = NF3DIR then IsDirEmpty G to op else Inr (True, op)) (\<lambda>(empty, op).
         if Kind (inode_at op to) = NF3DIR \<and> \<not> empty
         then bnd (errRet G (Some op) NFS3ERR_NOTEMPTY) (\<lambda>(st, op). Inr (Done (st, put_fs op nfs)))
         else
         bnd (RemName G toname dipto op) (\<lambda>(ok, op).
         if \<not> ok
         then bnd (errRet G (Some op) NFS3ERR_IO) (\<lambda>(st, op). Inr (Done (st, put_fs op nfs)))
         else
         bnd (doDecLink G to nfs op) (\<lambda>(nfs, op).
         Inr (Go_on (dipfrom, dipto, frominum, nfs, op))))))))))))))))"

fun rename_loop ::
    "('log, 'op, 'alc, 'lm, 'd) golib \<Rightarrow> nat \<Rightarrow> RENAME3args \<Rightarrow> ('log, 'alc, 'lm, 'd) Nfs \<Rightarrow>
     ('log, 'alc, 'lm, 'd) FsState \<Rightarrow>
     (Nfsstat3 \<times> ('log, 'alc, 'lm, 'd) Nfs,
      iref \<times> iref \<times> u64 \<times> ('log, 'alc, 'lm, 'd) Nfs \<times> ('log, 'op, 'alc, 'lm, 'd) FsTxn,
      ('log, 'alc, 'lm, 'd) FsState) rename_step res" where
  "rename_loop G 0 args nfs fs = Inl NoFuel"
| "rename_loop G (Suc fuel) args nfs fs =
     (let op = FsTxn_Begin G fs;
          fromdir = Diropargs3_Dir (RENAME3args_From args);
          todir = Diropargs3_Dir (RENAME3args_To args);
          fromname = Diropargs3_Name (RENAME3args_From args);
          toname = Diropargs3_Name (RENAME3args_To args);
          stop = (\<lambda>op err. bnd (errRet G (Some op) err) (\<lambda>(st, op). Inr (Done (st, put_fs op nfs))))
      in bnd (MakeFh G todir) (\<lambda>toh.
         bnd (MakeFh G fromdir) (\<lambda>fromh.
         if IllegalName fromname then stop op NFS3ERR_INVAL
         else
         bnd (if fh_Equal G fromdir todir
              then bnd (GetInodeFh G fromdir op) (\<lambda>(dip, op).
                   Inr (map_option (\<lambda>d. (d, d)) dip, op))
              else bnd (lockInodes G (twoInums (Ino fromh) (Ino toh)) op) (\<lambda>(inos, op).
                   case inos of
                     None \<Rightarrow> Inr (None, op)
                   | Some inos \<Rightarrow>
                       bnd (idx inos 0) (\<lambda>p. bnd (deref p) (\<lambda>dipfrom.
                       bnd (idx inos 1) (\<lambda>p. bnd (deref p) (\<lambda>dipto.
                       Inr (Some (dipfrom, dipto), op)))))) ) (\<lambda>(dips, op).
         case dips of
           None \<Rightarrow> stop op NFS3ERR_STALE
         | Some (dipfrom, dipto) \<Rightarrow>
         bnd (LookupName G fromname dipfrom op) (\<lambda>((frominum, _), op).
         if frominum = NULLINUM G then stop op NFS3ERR_NOENT
         else
         bnd (LookupName G toname dipto op) (\<lambda>((toinum, _), op).
         if dipto = dipfrom \<and> toinum = frominum
         then (let (_, op) = Commit G op in Inr (Done (NFS3_OK, put_fs op nfs)))
         else if toinum \<noteq> NULLINUM G
         then bnd (rename_over G args fromh toh dipfrom dipto frominum toinum nfs op) (\<lambda>r.
              case r of
                Retry fs \<Rightarrow> rename_loop G fuel args nfs fs
              | Done x \<Rightarrow> Inr (Done x)
              | Go_on x \<Rightarrow> Inr (Go_on x))
         else Inr (Go_on (dipfrom, dipto, frominum, nfs, op))))))))"

definition NFSPROC3_RENAME ::
    "('log, 'op, 'alc, 'lm, 'd) golib \<Rightarrow> nat \<Rightarrow> RENAME3args \<Rightarrow> ('log, 'alc, 'lm, 'd) Nfs \<Rightarrow>
     (RENAME3res \<times> ('log, 'alc, 'lm, 'd) Nfs) res" where
  "NFSPROC3_RENAME G fuel args nfs =
     (let reply = zero_RENAME3res;
          fromname = Diropargs3_Name (RENAME3args_From args);
          toname = Diropargs3_Name (RENAME3args_To args)
      in bnd (rename_loop G fuel args nfs (fsstate nfs)) (\<lambda>r.
         case r of
           Retry fs \<Rightarrow> Inl NoFuel
         | Done (st, nfs) \<Rightarrow> Inr (reply\<lparr>RENAME3res_Status := st\<rparr>, nfs)
         | Go_on (dipfrom, dipto, frominum, nfs, op) \<Rightarrow>
             bnd (RemName G fromname dipfrom op) (\<lambda>(ok, op).
             if \<not> ok
             then bnd (errRet G (Some op) NFS3ERR_IO) (\<lambda>(st, op).
                  Inr (reply\<lparr>RENAME3res_Status := st\<rparr>, put_fs op nfs))
             else
             bnd (AddName G frominum toname dipto op) (\<lambda>(ok1, op).
             if \<not> ok1
             then bnd (errRet G (Some op) NFS3ERR_IO) (\<lambda>(st, op).
                  Inr (reply\<lparr>RENAME3res_Status := st\<rparr>, put_fs op nfs))
             else
               let (st, op) = commitReply G op
               in Inr (reply\<lparr>RENAME3res_Status := st\<rparr>, put_fs op nfs)))))"

definition NFSPROC3_LINK :: "LINK3args \<Rightarrow> LINK3res" where
  "NFSPROC3_LINK args = zero_LINK3res\<lparr>LINK3res_Status := NFS3ERR_NOTSUPP\<rparr>"

section \<open>Directories and file-system information\<close>

definition NFSPROC3_READDIR ::
    "('log, 'op, 'alc, 'lm, 'd) golib \<Rightarrow> READDIR3args \<Rightarrow> ('log, 'alc, 'lm, 'd) Nfs \<Rightarrow>
     (READDIR3res \<times> ('log, 'alc, 'lm, 'd) Nfs) res" where
  "NFSPROC3_READDIR G args nfs =
     (let reply = zero_READDIR3res;
          fail = (\<lambda>op err. bnd (errRet G (Some op) err) (\<lambda>(st, op).
                    Inr (reply\<lparr>READDIR3res_Status := st\<rparr>, put_fs op nfs)))
      in bnd (GetInodeFh G (READDIR3args_Dir args) (FsTxn_Begin G (fsstate nfs))) (\<lambda>(ip, op).
         case ip of
           None \<Rightarrow> fail op NFS3ERR_STALE
         | Some r \<Rightarrow>
             if Kind (inode_at op r) \<noteq> NF3DIR then fail op NFS3ERR_INVAL
             else
             bnd (Readdir3 G (READDIR3args_Cookie args) (READDIR3args_Count args) r op) (\<lambda>(dirlist, op).
             let resok = (READDIR3res_Resok reply)\<lparr>READDIR3resok_Reply := dirlist\<rparr>;
                 (st, op) = commitReply G op
             in Inr (reply\<lparr>READDIR3res_Resok := resok, READDIR3res_Status := st\<rparr>, put_fs op nfs))))"

definition NFSPROC3_READDIRPLUS ::
    "('log, 'op, 'alc, 'lm, 'd) golib \<Rightarrow> READDIRPLUS3args \<Rightarrow> ('log, 'alc, 'lm, 'd) Nfs \<Rightarrow>
     (READDIRPLUS3res \<times> ('log, 'alc, 'lm, 'd) Nfs) res" where
  "NFSPROC3_READDIRPLUS G args nfs =
     (let reply = zero_READDIRPLUS3res;
          fail = (\<lambda>op err. bnd (errRet G (Some op) err) (\<lambda>(st, op).
                    Inr (reply\<lparr>READDIRPLUS3res_Status := st\<rparr>, put_fs op nfs)))
      in bnd (GetInodeFh G (READDIRPLUS3args_Dir args) (FsTxn_Begin G (fsstate nfs))) (\<lambda>(ip, op).
         case ip of
           None \<Rightarrow> fail op NFS3ERR_STALE
         | Some r \<Rightarrow>
             if Kind (inode_at op r) \<noteq> NF3DIR then fail op NFS3ERR_INVAL
             else
             bnd (Ls3 G (READDIRPLUS3args_Cookie args) (READDIRPLUS3args_Dircount args)
                    (READDIRPLUS3args_Maxcount args) r op) (\<lambda>(dirlist, op).
             let resok = (READDIRPLUS3res_Resok reply)\<lparr>READDIRPLUS3resok_Reply := dirlist\<rparr>;
                 (st, op) = commitReply G op
             in Inr (reply\<lparr>READDIRPLUS3res_Resok := resok, READDIRPLUS3res_Status := st\<rparr>, put_fs op nfs))))"

definition NFSPROC3_FSSTAT :: "FSSTAT3args \<Rightarrow> FSSTAT3res" where
  "NFSPROC3_FSSTAT args = zero_FSSTAT3res\<lparr>FSSTAT3res_Status := NFS3ERR_NOTSUPP\<rparr>"

definition NFSPROC3_FSINFO ::
    "('log, 'op, 'alc, 'lm, 'd) golib \<Rightarrow> FSINFO3args \<Rightarrow> ('log, 'alc, 'lm, 'd) Nfs \<Rightarrow>
     FSINFO3res \<times> ('log, 'alc, 'lm, 'd) Nfs" where
  "NFSPROC3_FSINFO G args nfs =
     (let reply = zero_FSINFO3res;
          op = FsTxn_Begin G (fsstate nfs);
          resok = (FSINFO3res_Resok reply)\<lparr>
            FSINFO3resok_Rtmax := 16 * 4096, FSINFO3resok_Rtmult := 4096, FSINFO3resok_Rtpref := 16 * 4096,
            FSINFO3resok_Wtmax := ucast (LogBytes G), FSINFO3resok_Wtpref := 16 * 4096,
            FSINFO3resok_Wtmult := 4096, FSINFO3resok_Dtpref := 16 * 4096,
            FSINFO3resok_Maxfilesize := MaxFileSize G,
            FSINFO3resok_Properties := FSF3_HOMOGENEOUS OR FSF3_SYMLINK\<rparr>;
          (st, op) = commitReply G op
      in (reply\<lparr>FSINFO3res_Resok := resok, FSINFO3res_Status := st\<rparr>, put_fs op nfs))"

definition NFSPROC3_PATHCONF :: "PATHCONF3args \<Rightarrow> PATHCONF3res" where
  "NFSPROC3_PATHCONF args =
     (let reply = zero_PATHCONF3res
      in reply\<lparr>PATHCONF3res_Status := NFS3_OK,
               PATHCONF3res_Resok := (PATHCONF3res_Resok reply)\<lparr>
                 PATHCONF3resok_Name_max := ucast MAXNAMELEN, PATHCONF3resok_No_trunc := True,
                 PATHCONF3resok_Linkmax := 1, PATHCONF3resok_Case_preserving := True\<rparr>\<rparr>)"

definition NFSPROC3_COMMIT ::
    "('log, 'op, 'alc, 'lm, 'd) golib \<Rightarrow> COMMIT3args \<Rightarrow> ('log, 'alc, 'lm, 'd) Nfs \<Rightarrow>
     (COMMIT3res \<times> ('log, 'alc, 'lm, 'd) Nfs) res" where
  "NFSPROC3_COMMIT G args nfs =
     (let reply = zero_COMMIT3res;
          fail = (\<lambda>op err. bnd (errRet G (Some op) err) (\<lambda>(st, op).
                    Inr (reply\<lparr>COMMIT3res_Status := st\<rparr>, put_fs op nfs)))
      in bnd (GetInodeFh G (COMMIT3args_File args) (FsTxn_Begin G (fsstate nfs))) (\<lambda>(ip, op).
         case ip of
           None \<Rightarrow> fail op NFS3ERR_STALE
         | Some r \<Rightarrow>
             if Kind (inode_at op r) \<noteq> NF3REG then fail op NFS3ERR_INVAL
             else if COMMIT3args_Offset args + ucast (COMMIT3args_Count args) > Size (inode_at op r)
             then fail op NFS3ERR_INVAL
             else
               let (ok, op) = CommitFh G op
               in if ok then Inr (reply\<lparr>COMMIT3res_Status := NFS3_OK\<rparr>, put_fs op nfs)
                  else fail op NFS3ERR_IO))"

end
