(* ===== verification/TxnRun.thy ===== *)
theory TxnRun
  imports Wp FsTxnSpec LockOrder NfsOps
begin

text \<open>
  What the operations of the server do within a transaction. Every operation on inodes and
  directories is a run of transaction steps, so the facts about runs hold for it. A call of the
  server is a sequence of aborted transactions and of shrinking transactions, followed by one
  transaction.
\<close>

section \<open>Inodes\<close>

text \<open>
  What the methods of an inode keep. A predicate on transactions that allocating a block, overwriting
  an object and storing a buffer keep is kept by reading and writing; if freeing keeps it too, it is
  kept by shrinking and resizing. No method changes the number of its inode.
\<close>

locale atxn_writes =
  fixes G :: "('log, 'op, 'alc, 'lm, 'd) golib" and Q :: "('d, 'op, 'alc) AllocTxn \<Rightarrow> bool"
  assumes q_alloc: "Q t \<Longrightarrow> AllocBlock G t = Inr (b, u) \<Longrightarrow> Q u"
    and q_write: "Q t \<Longrightarrow> Q (t\<lparr>Op := OverWrite G (Op t) a sz d\<rparr>)"
    and q_put: "Q t \<Longrightarrow> Q (t\<lparr>Op := PutBuf G (Op t) a sz d\<rparr>)"
begin

lemma WriteInode_Q: "Q atxn \<Longrightarrow> ret Q (WriteInode G ip atxn)"
  by (auto simp: ret_def WriteInode_def bnd_eq_Inr intro: q_write split: if_splits)

lemma StoreBlock_Q: "Q atxn \<Longrightarrow> Q (StoreBlock G b d atxn)"
  by (simp add: StoreBlock_def q_put)

lemma AllocBlock_Q: "Q atxn \<Longrightarrow> ret (\<lambda>(b, a). Q a) (AllocBlock G atxn)"
  by (auto simp: ret_def intro: q_alloc)

lemmas atxn_bnd = ret_bnd [OF WriteInode_Q] ret_bnd2 [OF AllocBlock_Q]

lemma indbmap_Q: "Q atxn \<Longrightarrow> ret (\<lambda>(b, r', a). Q a) (indbmap G r l off atxn)"
proof (induction l arbitrary: r off atxn)
  case 0
  then have "ret (\<lambda>(r1, a). Q a) (ind_root G r atxn)"
    unfolding ind_root_def by (auto intro!: ret_if ret_Inr AllocBlock_Q)
  then show ?case unfolding indbmap.simps by (rule ret_bnd2) (simp add: ret_Inr)
next
  case (Suc l)
  then have "ret (\<lambda>(r1, a). Q a) (ind_root G r atxn)"
    unfolding ind_root_def by (auto intro!: ret_if ret_Inr AllocBlock_Q)
  then show ?case
    unfolding indbmap.simps
    by (rule ret_bnd2) (rule wp ret_bnd3 [OF Suc.IH] StoreBlock_Q prod.case [THEN iffD2] | assumption | rule ret_any)+
qed

lemma bmap_Q:
  "Q atxn \<Longrightarrow> ret (\<lambda>(b, n, ip', a). Inum ip' = Inum ip \<and> Q a) (bmap G bn ip atxn)"
  unfolding bmap_def
  by (simp only: One_nat_def numeral_2_eq_2 | rule wp atxn_bnd ret_bnd3 [OF indbmap_Q] conjI | assumption | rule ret_any | simp)+

lemma read_loop_Q:
  "Q atxn \<Longrightarrow>
     ret (\<lambda>(d, ip', a). Inum ip' = Inum ip \<and> Q a) (read_loop G fuel cn boff n off data ip atxn)"
proof (induction fuel arbitrary: boff n off data ip atxn)
  case 0
  then show ?case by (simp add: read_loop.simps [of G 0] ret_Inl ret_Inr)
next
  case (Suc fuel)
  have IH: "ret (\<lambda>(d, ip', a). Inum ip' = Inum ip \<and> Q a) (read_loop G fuel cn boff' n' off' data' ip1 a1)"
    if "Inum ip1 = Inum ip" "Q a1" for boff' n' off' data' ip1 a1
    using Suc.IH [OF that(2), of ip1] that(1) by simp
  have w: "ret Q (if b then WriteInode G ip1 a1 else Inr a1)" if "Q a1" for b ip1 a1
    using that by (simp add: WriteInode_Q ret_Inr)
  show ?case unfolding read_loop.simps [of G "Suc fuel"] nat.case
    by (rule wp ret_bnd4 [OF bmap_Q [OF Suc.prems]] ret_bnd [OF w] IH | elim conjE | assumption | rule ret_any | simp add: Suc.prems)+
qed

lemma Read_Q:
  "Q atxn \<Longrightarrow> ret (\<lambda>(d, e, ip', a). Inum ip' = Inum ip \<and> Q a) (Read G off n ip atxn)"
  unfolding Read_def
  by (rule wp ret_bnd3 [OF read_loop_Q] | elim conjE | assumption | simp)+

lemma write_loop_Q:
  "Q atxn \<Longrightarrow>
     ret (\<lambda>(c, k, al, ip', a). Inum ip' = Inum ip \<and> Q a) (write_loop G fuel boff n data off cn alloc ip atxn)"
proof (induction fuel arbitrary: boff n data off cn alloc ip atxn)
  case 0
  then show ?case by (simp add: write_loop.simps [of G 0] ret_Inl ret_Inr)
next
  case (Suc fuel)
  have IH: "ret (\<lambda>(c, k, al, ip', a). Inum ip' = Inum ip \<and> Q a) (write_loop G fuel boff' n' data' off' c' k' ip1 a1)"
    if "Inum ip1 = Inum ip" "Q a1" for boff' n' data' off' c' k' ip1 a1
    using Suc.IH [OF that(2), of ip1] that(1) by simp
  have w: "ret Q (if b then bnd m (\<lambda>d. Inr (a1\<lparr>Op := OverWrite G (Op a1) ad sz d\<rparr>))
       else bnd (ReadBlock G blkno a1) (\<lambda>x. bnd (h x) (\<lambda>y. Inr (StoreBlock G blkno y a1))))"
    if "Q a1" for a1 blkno ad sz h b and m :: "byte list res"
    by (rule wp q_write StoreBlock_Q that | rule ret_any)+
  show ?case unfolding write_loop.simps [of G "Suc fuel"] nat.case
    by (rule wp ret_bnd4 [OF bmap_Q [OF Suc.prems]] ret_bnd [OF w] IH | elim conjE | assumption | rule ret_any | simp add: Suc.prems)+
qed

lemma Write_Q:
  "Q atxn \<Longrightarrow> ret (\<lambda>(c, k, ip', a). Inum ip' = Inum ip \<and> Q a) (Write G off n data ip atxn)"
  unfolding Write_def
  by (rule wp ret_bnd5 [OF write_loop_Q] ret_bnd [OF WriteInode_Q] | elim conjE | assumption | simp)+

lemma DecLink_Q:
  "Q atxn \<Longrightarrow> ret (\<lambda>(m, ip', a). Inum ip' = Inum ip \<and> Q a) (DecLink G ip atxn)"
  unfolding DecLink_def
  by (rule wp ret_bnd [OF WriteInode_Q] | assumption | simp)+

end

locale atxn_closed = atxn_writes +
  assumes q_free: "Q t \<Longrightarrow> FreeBlock G b t = Inr u \<Longrightarrow> Q u"
    and q_free_inum: "Q t \<Longrightarrow> Q (FreeINum i t)"
begin

lemma FreeBlock_Q: "Q atxn \<Longrightarrow> ret Q (FreeBlock G b atxn)"
  by (auto simp: ret_def intro: q_free)

lemma indshrink_Q: "Q atxn \<Longrightarrow> ret (\<lambda>(r, a). Q a) (indshrink G root l bn atxn)"
proof (induction l arbitrary: root bn atxn)
  case 0
  then show ?case by (simp add: ret_Inr)
next
  case (Suc l)
  have w: "ret Q (if b then bnd (indshrink G r l ind atxn) (\<lambda>(fr, a).
       if fr \<noteq> 0 then bnd (m a) (\<lambda>d. FreeBlock G fr (StoreBlock G root d a)) else Inr a) else Inr atxn)"
    for b r ind m
    by (rule wp ret_bnd2 [OF Suc.IH] FreeBlock_Q StoreBlock_Q Suc.prems | assumption | rule ret_any)+
  show ?case unfolding indshrink.simps
    by (rule wp ret_bnd [OF w] Suc.prems | assumption | rule ret_any)+
qed

lemma freeIndex_Q:
  "Q atxn \<Longrightarrow> ret (\<lambda>(ip', a). Inum ip' = Inum ip \<and> Q a) (freeIndex G k ip atxn)"
  unfolding freeIndex_def
  by (rule wp conjI ret_bnd [OF FreeBlock_Q] | assumption | rule ret_any | simp)+

lemma shrink_step_Q:
  assumes "Q atxn"
  shows "ret (\<lambda>(ip', a). Inum ip' = Inum ip \<and> Q a) (shrink_step G ip atxn)"
proof -
  have f: "ret (\<lambda>(ip', a). Inum ip' = Inum ip \<and> Q a) (freeIndex G k (ip\<lparr>ShrinkSize := n\<rparr>) a1)"
    if "Q a1" for k n a1
    using freeIndex_Q [OF that, of "ip\<lparr>ShrinkSize := n\<rparr>" k] by simp
  show ?thesis unfolding shrink_step_def
    by (rule wp f ret_bnd2 [OF indshrink_Q] assms | assumption | rule ret_any | simp)+
qed

lemma shrink_loop_Q:
  "Q atxn \<Longrightarrow> ret (\<lambda>(ip', a). Inum ip' = Inum ip \<and> Q a) (shrink_loop G fuel ip atxn)"
proof (induction fuel arbitrary: ip atxn)
  case 0
  then show ?case by (simp add: shrink_loop.simps [of G 0] ret_Inl ret_Inr)
next
  case (Suc fuel)
  have IH: "ret (\<lambda>(ip', a). Inum ip' = Inum ip \<and> Q a) (shrink_loop G fuel ip1 a1)"
    if "Inum ip1 = Inum ip" "Q a1" for ip1 a1
    using Suc.IH [OF that(2), of ip1] that(1) by simp
  show ?case unfolding shrink_loop.simps [of G "Suc fuel"] nat.case
    by (rule wp IH ret_bnd2 [OF shrink_step_Q [OF Suc.prems]] | elim conjE | assumption | simp add: Suc.prems)+
qed

lemma Shrink_Q:
  "Q atxn \<Longrightarrow> ret (\<lambda>(m, ip', a). Inum ip' = Inum ip \<and> Q a) (Shrink G ip atxn)"
  unfolding Shrink_def
  by (rule wp ret_bnd2 [OF shrink_loop_Q] ret_bnd [OF WriteInode_Q] | elim conjE | assumption | simp)+

lemma Resize_Q:
  assumes "Q atxn"
  shows "ret (\<lambda>(m, ip', a). Inum ip' = Inum ip \<and> Q a) (Resize G sz ip atxn)"
proof -
  have S: "ret (\<lambda>(m, ip', a). Inum ip' = Inum ip \<and> Q a) (Shrink G ip1 a1)"
    if "Inum ip1 = Inum ip" "Q a1" for ip1 a1
    using Shrink_Q [OF that(2), of ip1] that(1) by simp
  show ?thesis unfolding Resize_def
    by (rule wp ret_bnd3 [OF S] ret_bnd [OF WriteInode_Q] assms | elim conjE | assumption | simp)+
qed

lemma FreeInode_Q:
  "Q atxn \<Longrightarrow> ret (\<lambda>(ip', a). Inum ip' = Inum ip \<and> Q a) (FreeInode G ip atxn)"
  unfolding FreeInode_def
  by (rule wp ret_bnd [OF WriteInode_Q] conjI q_free_inum | assumption | simp)+

end

interpretation run: atxn_closed G "atxn_run G s" for G s
  by unfold_locales (fact run_alloc_block run_free_block run_free_inum run_write)+

section \<open>Transactions\<close>

lemma put_inode_Atxn: "put_inode r ip (op\<lparr>Atxn := a\<rparr>) = (put_inode r ip op)\<lparr>Atxn := a\<rparr>"
  by (simp add: put_inode_def)

text \<open>
  The states of the file system in which a call that begins in \<open>st\<close> can begin a transaction: after
  transactions that it aborted and, if \<open>sh\<close>, after shrinking transactions.
\<close>

inductive before ::
    "('log, 'op, 'alc, 'lm, 'd) golib \<Rightarrow> bool \<Rightarrow> ('log, 'alc, 'lm, 'd) FsState \<Rightarrow> ('log, 'alc, 'lm, 'd) FsState \<Rightarrow> bool"
  for G :: "('log, 'op, 'alc, 'lm, 'd) golib" and sh st where
  b_start: "before G sh st st"
| b_abort: "before G sh st st1 \<Longrightarrow> txn_run G (FsTxn_Begin G st1) op \<Longrightarrow> before G sh st (Fs (Abort G op))"
| b_shrink: "before G sh st st1 \<Longrightarrow> sh \<Longrightarrow> GetInodeInumFree G inum (FsTxn_Begin G st1) = Inr (r, op) \<Longrightarrow>
    on_inode r (Shrink G) op = Inr (mo, op1) \<Longrightarrow> Commit G op1 = (ok, op2) \<Longrightarrow> before G sh st (Fs op2)"

definition in_txn ::
    "('log, 'op, 'alc, 'lm, 'd) golib \<Rightarrow> bool \<Rightarrow> ('log, 'alc, 'lm, 'd) FsState \<Rightarrow> ('log, 'op, 'alc, 'lm, 'd) FsTxn \<Rightarrow> bool" where
  "in_txn G sh st op \<longleftrightarrow> (\<exists>st1. before G sh st st1 \<and> txn_run G (FsTxn_Begin G st1) op)"

lemma in_begin: "before G sh st st1 \<Longrightarrow> in_txn G sh st (FsTxn_Begin G st1)"
  by (auto simp: in_txn_def intro: t_start)

lemma in_put: "in_txn G sh st op \<Longrightarrow> Inum ip = Inum (inode_at op r) \<Longrightarrow> in_txn G sh st (put_inode r ip op)"
  by (auto simp: in_txn_def intro: t_inode)

lemma in_atxn: "in_txn G sh st op \<Longrightarrow> atxn_run G (Atxn op) a \<Longrightarrow> in_txn G sh st (op\<lparr>Atxn := a\<rparr>)"
  by (auto simp: in_txn_def intro: t_atxn)

lemma in_abort: "in_txn G sh st op \<Longrightarrow> before G sh st (Fs (Abort G op))"
  by (auto simp: in_txn_def intro: b_abort)

lemma in_release: "in_txn G sh st op \<Longrightarrow> in_txn G sh st (ReleaseInode G r op)"
  by (auto simp: in_txn_def intro: t_release)

lemma GetInodeInumFree_in: "in_txn G sh st op \<Longrightarrow> ret (\<lambda>(r, op'). in_txn G sh st op') (GetInodeInumFree G inum op)"
  by (auto simp: in_txn_def ret_def intro: t_inum_free)

lemma GetInodeLocked_in: "in_txn G sh st op \<Longrightarrow> ret (\<lambda>(r, op'). in_txn G sh st op') (GetInodeLocked G inum op)"
  using GetInodeInumFree_in [of G sh st op inum] by (simp add: GetInodeInumFree_def)

lemma GetInodeInum_in: "in_txn G sh st op \<Longrightarrow> ret (\<lambda>(r, op'). in_txn G sh st op') (GetInodeInum G inum op)"
  by (auto simp: in_txn_def ret_def intro: t_inum)

lemma GetInodeFh_in: "in_txn G sh st op \<Longrightarrow> ret (\<lambda>(r, op'). in_txn G sh st op') (GetInodeFh G fh op)"
  by (auto simp: in_txn_def ret_def intro: t_fh)

lemma AllocInode_in: "in_txn G sh st op \<Longrightarrow> ret (\<lambda>(r, op'). in_txn G sh st op') (AllocInode G kind op)"
  by (auto simp: in_txn_def ret_def intro: t_alloc)

lemma on_inode_in:
  assumes "in_txn G sh st op"
    and "\<And>ip atxn. ret (\<lambda>(x, ip', a). Inum ip' = Inum ip \<and> atxn_run G atxn a) (f ip atxn)"
  shows "ret (\<lambda>(x, op'). in_txn G sh st op') (on_inode r f op)"
  unfolding on_inode_def put_inode_Atxn
  by (rule wp ret_bnd3 [OF assms(2)] in_atxn in_put assms(1) | elim conjE | assumption | simp add: put_inode_def)+

lemma ip_WriteInode_in: "in_txn G sh st op \<Longrightarrow> ret (in_txn G sh st) (ip_WriteInode G r op)"
  unfolding ip_WriteInode_def by (rule wp ret_bnd [OF run.WriteInode_Q [OF run_start]] in_atxn | assumption)+

lemma ip_Read_in: "in_txn G sh st op \<Longrightarrow> ret (\<lambda>((d, e), op'). in_txn G sh st op') (ip_Read G off n r op)"
  unfolding ip_Read_def
  by (rule ret_mono, rule on_inode_in) (rule wp ret_bnd4 [OF run.Read_Q [OF run_start]] | assumption | simp split: prod.splits)+

lemma ip_Write_in: "in_txn G sh st op \<Longrightarrow> ret (\<lambda>((c, k), op'). in_txn G sh st op') (ip_Write G off n data r op)"
  unfolding ip_Write_def
  by (rule ret_mono, rule on_inode_in) (rule wp ret_bnd4 [OF run.Write_Q [OF run_start]] | assumption | simp split: prod.splits)+

lemmas Shrink_in = on_inode_in [OF _ run.Shrink_Q [OF run_start]]
lemmas Resize_in = on_inode_in [OF _ run.Resize_Q [OF run_start]]
lemmas DecLink_in = on_inode_in [OF _ run.DecLink_Q [OF run_start]]

lemma FreeInode_in:
  "in_txn G sh st op \<Longrightarrow>
     ret (\<lambda>(x, op'). in_txn G sh st op') (on_inode r (\<lambda>ip atxn. bnd (FreeInode G ip atxn) (\<lambda>r. Inr ((), r))) op)"
  by (rule on_inode_in) (rule wp ret_bnd [OF run.FreeInode_Q [OF run_start]] | assumption)+

lemmas in_bnd =
  ret_bnd2 [OF GetInodeInumFree_in] ret_bnd2 [OF GetInodeLocked_in] ret_bnd2 [OF GetInodeInum_in] ret_bnd2 [OF GetInodeFh_in]
  ret_bnd2 [OF AllocInode_in] ret_bnd [OF ip_WriteInode_in] ret_bnd22 [OF ip_Read_in] ret_bnd22 [OF ip_Write_in]
  ret_bnd2 [OF Shrink_in] ret_bnd2 [OF Resize_in] ret_bnd2 [OF DecLink_in] ret_bnd2 [OF FreeInode_in]

section \<open>Directories\<close>

lemma put_dcache_in: "in_txn G sh st op \<Longrightarrow> in_txn G sh st (put_dcache dip dc op)"
  unfolding put_dcache_def by (rule in_put) simp_all

lemma free_loop_in:
  "in_txn G sh st op \<Longrightarrow> ret (\<lambda>(x, op'). in_txn G sh st op') (free_loop G fuel off dip op)"
proof (induction fuel arbitrary: off op)
  case (Suc fuel)
  show ?case unfolding free_loop.simps [of G "Suc fuel"] nat.case
    by (rule wp in_bnd Suc | assumption | rule ret_any)+
qed (simp add: free_loop.simps [of G 0] ret_Inl ret_Inr)

lemma empty_loop_in:
  "in_txn G sh st op \<Longrightarrow> ret (\<lambda>(x, op'). in_txn G sh st op') (empty_loop G fuel off dip op)"
proof (induction fuel arbitrary: off op)
  case (Suc fuel)
  show ?case unfolding empty_loop.simps [of G "Suc fuel"] nat.case
    by (rule wp in_bnd Suc | assumption | rule ret_any)+
qed (simp add: empty_loop.simps [of G 0] ret_Inl ret_Inr)

lemma ents_loop_in:
  "in_txn G sh st op \<Longrightarrow> ret (\<lambda>(x, s, op'). in_txn G sh st op') (ents_loop G fuel cn f off n s dip op)"
proof (induction fuel arbitrary: off n s op)
  case (Suc fuel)
  show ?case unfolding ents_loop.simps [of G "Suc fuel"] nat.case
    by (rule wp in_bnd Suc | assumption | rule ret_any)+
qed (simp add: ents_loop.simps [of G 0] ret_Inl ret_Inr)

lemma apply_loop_in:
  assumes f: "\<And>ip name inum off s op. in_txn G sh st op \<Longrightarrow> ret (\<lambda>(s', op'). in_txn G sh st op') (f ip name inum off s op)"
  shows "in_txn G sh st op \<Longrightarrow>
     ret (\<lambda>(x, s', op'). in_txn G sh st op') (apply_loop G fuel dircount maxcount f off n db s dip op)"
proof (induction fuel arbitrary: off n db s op)
  case (Suc fuel)
  have get: "ret (\<lambda>(r, op'). in_txn G sh st op')
      (if own then bnd (GetInodeUnlocked i op1) (\<lambda>ip. Inr (Some ip, op1)) else GetInodeInum G i op1)"
    if "in_txn G sh st op1" for own i op1
    by (rule wp GetInodeInum_in that | rule ret_any)+
  have rel: "ret (in_txn G sh st) (if \<not> own
       then (case ip of None \<Rightarrow> Inl e | Some ip \<Rightarrow> Inr (ReleaseInode G ip op1)) else Inr op1)"
    if "in_txn G sh st op1" for own ip e op1
    by (rule wp in_release that)+
  show ?case unfolding apply_loop.simps [of G "Suc fuel"] nat.case
    by (rule wp in_bnd ret_bnd2 [OF get] ret_bnd2 [OF f] ret_bnd [OF rel] Suc | assumption | rule ret_any)+
qed (simp add: apply_loop.simps [of G 0] ret_Inl ret_Inr)

lemma Apply_in:
  assumes "in_txn G sh st op"
    and "\<And>ip name inum off s op. in_txn G sh st op \<Longrightarrow> ret (\<lambda>(s', op'). in_txn G sh st op') (f ip name inum off s op)"
  shows "ret (\<lambda>(x, s', op'). in_txn G sh st op') (Apply G start dircount maxcount f s dip op)"
  unfolding Apply_def Let_def using assms(2,1) by (rule apply_loop_in)

lemma ApplyEnts_in: "in_txn G sh st op \<Longrightarrow> ret (\<lambda>(x, s', op'). in_txn G sh st op') (ApplyEnts G start cn f s dip op)"
  unfolding ApplyEnts_def Let_def by (rule ents_loop_in)

lemma mkDcache_in: "in_txn G sh st op \<Longrightarrow> ret (in_txn G sh st) (mkDcache G dip op)"
  unfolding mkDcache_def
  by (rule wp ret_bnd3 [OF Apply_in] put_dcache_in | assumption | rule ret_any)+

lemma ensure_dcache_in: "in_txn G sh st op \<Longrightarrow> ret (in_txn G sh st) (ensure_dcache G dip op)"
  unfolding ensure_dcache_def by (rule wp mkDcache_in | assumption)+

lemma LookupName_in: "in_txn G sh st op \<Longrightarrow> ret (\<lambda>((i, off), op'). in_txn G sh st op') (LookupName G name dip op)"
  unfolding LookupName_def
  by (rule wp ret_bnd [OF ensure_dcache_in] | assumption | rule ret_any | simp split: prod.splits)+

lemma AddNameDir_in:
  "in_txn G sh st op \<Longrightarrow> ret (\<lambda>((off, k), op'). in_txn G sh st op') (AddNameDir G inum name off dip op)"
  unfolding AddNameDir_def
  by (rule wp ret_bnd2 [OF free_loop_in] in_bnd | assumption | rule ret_any)+

lemma AddName_in: "in_txn G sh st op \<Longrightarrow> ret (\<lambda>(k, op'). in_txn G sh st op') (AddName G inum name dip op)"
  unfolding AddName_def
  by (rule wp ret_bnd [OF ensure_dcache_in] ret_bnd22 [OF AddNameDir_in] put_dcache_in | assumption | rule ret_any)+

lemma RemNameDir_in: "in_txn G sh st op \<Longrightarrow> ret (\<lambda>((off, k), op'). in_txn G sh st op') (RemNameDir G name dip op)"
  unfolding RemNameDir_def
  by (rule wp ret_bnd22 [OF LookupName_in] in_bnd | assumption | rule ret_any)+

lemma RemName_in: "in_txn G sh st op \<Longrightarrow> ret (\<lambda>(k, op'). in_txn G sh st op') (RemName G name dip op)"
  unfolding RemName_def
  by (rule wp ret_bnd [OF ensure_dcache_in] ret_bnd22 [OF RemNameDir_in] put_dcache_in | assumption | rule ret_any | simp)+

lemma IsDirEmpty_in: "in_txn G sh st op \<Longrightarrow> ret (\<lambda>(k, op'). in_txn G sh st op') (IsDirEmpty G dip op)"
  unfolding IsDirEmpty_def by (rule empty_loop_in)

lemma InitDir_in: "in_txn G sh st op \<Longrightarrow> ret (\<lambda>(k, op'). in_txn G sh st op') (InitDir G parent dip op)"
  unfolding InitDir_def by (rule wp ret_bnd2 [OF AddName_in] AddName_in | assumption)+

lemma MkRootDir_in: "in_txn G sh st op \<Longrightarrow> ret (\<lambda>(k, op'). in_txn G sh st op') (MkRootDir G dip op)"
  unfolding MkRootDir_def by (rule wp ret_bnd2 [OF AddName_in] AddName_in | assumption)+

lemma Ls3_in: "in_txn G sh st op \<Longrightarrow> ret (\<lambda>(l, op'). in_txn G sh st op') (Ls3 G start dc mc dip op)"
  unfolding Ls3_def
  by (rule wp ret_bnd3 [OF Apply_in] | assumption | rule ret_any)+

lemma Readdir3_in: "in_txn G sh st op \<Longrightarrow> ret (\<lambda>(l, op'). in_txn G sh st op') (Readdir3 G start n dip op)"
  unfolding Readdir3_def
  by (rule wp ret_bnd3 [OF ApplyEnts_in] | assumption)+

section \<open>Parts of the procedures\<close>

lemma DoShrink_before:
  "before G True st st1 \<Longrightarrow> ret (\<lambda>(k, st2). before G True st st2) (DoShrink G fuel inum shr st1)"
proof (induction fuel arbitrary: st1)
  case 0
  then show ?case by (simp add: ret_Inl)
next
  case (Suc fuel)
  have b: "before G True st (Fs op2)" if "GetInodeInumFree G inum (FsTxn_Begin G st1) = Inr (r, op)"
    "on_inode r (Shrink G) op = Inr (mo, op1)" "Commit G op1 = (ok, op2)" for r op mo op1 ok op2
    by (rule b_shrink [OF Suc.prems TrueI that])
  show ?case unfolding DoShrink.simps
    by (rule wp ret_eq2 Suc.IH b | assumption)+
qed

lemma getShrink_in:
  "before G True st st1 \<Longrightarrow> ret (\<lambda>(op, ip, err). in_txn G True st op) (getShrink G fuel fh shr st1)"
proof (induction fuel arbitrary: st1)
  case (Suc fuel)
  show ?case unfolding getShrink.simps
    by (rule wp in_bnd in_begin Suc ret_bnd2 [OF DoShrink_before] in_abort | assumption)+
qed (simp add: ret_Inl)

lemma getAlloc_in:
  "in_txn G True st op \<Longrightarrow> ret (\<lambda>(op', dip, ip, err). in_txn G True st op') (getAlloc G fuel dfh name kind shr op)"
proof (induction fuel arbitrary: op)
  case (Suc fuel)
  show ?case unfolding getAlloc.simps
    by (rule wp in_bnd in_begin Suc ret_bnd22 [OF LookupName_in] ret_bnd2 [OF DoShrink_before] in_abort | assumption)+
qed (simp add: ret_Inl)

text \<open>
  The truncation of the file of a handle, or of the free inode that the next allocation gives, is unfinished in \<open>st\<close>: then the
  call shrinks it first. Otherwise the call begins its transaction in \<open>st\<close>.
\<close>

definition unfinished_file ::
    "('log, 'op, 'alc, 'lm, 'd) golib \<Rightarrow> Nfs_fh3 \<Rightarrow> ('log, 'alc, 'lm, 'd) FsState \<Rightarrow> bool" where
  "unfinished_file G fh st =
     (case GetInodeFh G fh (FsTxn_Begin G st) of
        Inr (Some r, op) \<Rightarrow> IsShrinking G (inode_at op r)
      | _ \<Rightarrow> False)"

definition unfinished_inode ::
    "('log, 'op, 'alc, 'lm, 'd) golib \<Rightarrow> Nfs_fh3 \<Rightarrow> Filename3 \<Rightarrow> Ftype3 \<Rightarrow> ('log, 'alc, 'lm, 'd) FsState \<Rightarrow> bool" where
  "unfinished_inode G dfh name kind st =
     (case GetInodeFh G dfh (FsTxn_Begin G st) of
        Inr (Some d, op) \<Rightarrow>
          (case LookupName G name d op of
             Inr ((inum, _), op) \<Rightarrow>
               inum = NULLINUM G \<and>
               (case AllocInode G kind op of Inr (Some i, op) \<Rightarrow> IsShrinking G (inode_at op i) | _ \<Rightarrow> False)
           | _ \<Rightarrow> False)
      | _ \<Rightarrow> False)"

lemma getShrink_unless:
  assumes "\<not> sh \<Longrightarrow> \<not> unfinished_file G fh st"
  shows "ret (\<lambda>(op, ip, err). in_txn G sh st op) (getShrink G fuel fh shr st)"
proof (cases sh)
  case True
  then show ?thesis using getShrink_in [OF b_start] by simp
next
  case False
  note n = assms [OF False]
  show ?thesis
  proof (cases fuel)
    case (Suc k)
    have i: "ret (\<lambda>(r, op). in_txn G sh st op) (GetInodeFh G fh (FsTxn_Begin G st))" by (rule GetInodeFh_in [OF in_begin [OF b_start]])
    show ?thesis unfolding Suc getShrink.simps
    proof (rule ret_eq2)
      fix r op
      assume g: "GetInodeFh G fh (FsTxn_Begin G st) = Inr (r, op)"
      have "in_txn G sh st op" using retD [OF i g] by simp
      moreover have "\<not> IsShrinking G (inode_at op q)" if "r = Some q" for q using n g that by (simp add: unfinished_file_def)
      ultimately show "ret (\<lambda>(op, ip, err). in_txn G sh st op) (case r of None \<Rightarrow> Inr (op, None, NFS3ERR_STALE)
          | Some r \<Rightarrow> if \<not> IsShrinking G (inode_at op r) then Inr (op, Some r, NFS3_OK)
              else let inum = Inum (inode_at op r); op = Abort G op in bnd (DoShrink G k inum shr (Fs op)) (\<lambda>(ok, fs).
                if \<not> ok then Inr (FsTxn_Begin G fs, Some r, NFS3ERR_SERVERFAULT) else getShrink G k fh shr fs))"
        by (auto split: option.split simp: ret_Inr_iff)
    qed
  qed (simp add: ret_Inl)
qed

lemma getAlloc_unless:
  assumes n: "\<not> sh \<Longrightarrow> \<not> unfinished_inode G dfh name kind st"
  shows "ret (\<lambda>(op', dip, ip, err). in_txn G sh st op') (getAlloc G fuel dfh name kind shr (FsTxn_Begin G st))"
proof (cases sh)
  case True
  then show ?thesis using getAlloc_in [OF in_begin [OF b_start]] by simp
next
  case False
  note n = n [OF False]
  have 1: "in_txn G sh st op" if "GetInodeFh G dfh (FsTxn_Begin G st) = Inr (r, op)" for r op
    using retD [OF GetInodeFh_in [OF in_begin [OF b_start]] that] by simp
  have 2: "in_txn G sh st op'" if "LookupName G name d op = Inr ((i, off), op')" "in_txn G sh st op" for d op i off op'
    using retD [OF LookupName_in [OF that(2)] that(1)] by simp
  have 3: "in_txn G sh st op'" if "AllocInode G kind op = Inr (r, op')" "in_txn G sh st op" for r op op'
    using retD [OF AllocInode_in [OF that(2)] that(1)] by simp
  show ?thesis
  proof (cases fuel)
    case (Suc k)
    have s: "\<not> IsShrinking G (inode_at op2 i)" if "GetInodeFh G dfh (FsTxn_Begin G st) = Inr (Some d, op)"
      "LookupName G name d op = Inr ((NULLINUM G, off), op1)" "AllocInode G kind op1 = Inr (Some i, op2)" for d op off op1 i op2
      using n that by (simp add: unfinished_inode_def)
    show ?thesis unfolding Suc getAlloc.simps
      by (rule ret_eq2, rule wp, simp add: ret_Inr_iff 1, rule ret_eq22, rule wp, simp add: ret_Inr_iff 1 2, rule ret_eq2,
          auto split: option.split simp: ret_Inr_iff s elim!: 3 2 1)
  qed (simp add: ret_Inl)
qed

lemma doDecLink_in: "in_txn G sh st op \<Longrightarrow> ret (\<lambda>(n, op'). in_txn G sh st op' \<and> fsstate n = fsstate nfs) (doDecLink G ip nfs op)"
  unfolding doDecLink_def by (rule wp in_bnd conjI | assumption | simp)+

lemma doCreate_in:
  assumes u: "\<not> sh \<Longrightarrow> \<not> unfinished_inode G dfh name kind (fsstate nfs)"
  shows "ret (\<lambda>(op, err, fh, fa, n). in_txn G sh (fsstate nfs) op) (doCreate G fuel dfh name kind data nfs)"
proof -
  let ?st = "fsstate nfs"
  have k: "ret (\<lambda>(x, op'). in_txn G sh ?st op') (if c then bnd (InitDir G parent ip op1) (\<lambda>(ok, op).
       if \<not> ok then Inr (False, op)
       else bnd (ip_WriteInode G dip (put_inode dip ((inode_at op dip)\<lparr>Nlink := Nlink (inode_at op dip) + 1\<rparr>) op)) (\<lambda>op.
            Inr (True, op)))
     else if l then bnd (ip_Write G 0 n data ip op1) (\<lambda>((_, ok), op). Inr (ok, op)) else Inr (True, op1))"
    if "in_txn G sh ?st op1" for c l n parent ip dip op1
    by (rule wp in_bnd ret_bnd2 [OF InitDir_in] in_put that | assumption | simp)+
  show ?thesis unfolding doCreate_def
    by (rule wp ret_bnd4 [OF getAlloc_unless [OF u]] ret_bnd2 [OF k] ret_bnd2 [OF doDecLink_in] ret_bnd2 [OF AddName_in]
         | elim conjE | assumption | rule ret_any)+
qed

lemma doRead_in:
  "before G sh st st1 \<Longrightarrow> ret (\<lambda>(op, d, e, err). in_txn G sh st op) (doRead G fh kind off n st1)"
  unfolding doRead_def by (rule wp in_bnd in_begin | assumption)+

text \<open>
  \<^const>\<open>lockInodes\<close> aborts the transaction when it returns nil; its callers begin a new one or abort once
  more. Only the transaction it got has been worked on, and it has not allocated anything.
\<close>

definition aborted ::
    "('log, 'op, 'alc, 'lm, 'd) golib \<Rightarrow> bool \<Rightarrow> ('log, 'alc, 'lm, 'd) FsState \<Rightarrow> ('log, 'op, 'alc, 'lm, 'd) FsTxn \<Rightarrow> bool" where
  "aborted G sh st op \<longleftrightarrow> (\<exists>op1. in_txn G sh st op1 \<and> op = Abort G op1 \<and> allocInums (Atxn op1) = [] \<and> allocBnums (Atxn op1) = [])"

lemma aborted_before: "aborted G sh st op \<Longrightarrow> before G sh st (Fs op)"
  by (auto simp: aborted_def in_abort)

lemma GetInodeInum_Atxn: "GetInodeInum G inum op = Inr (r, op') \<Longrightarrow> Atxn op' = Atxn op"
  by (auto simp: GetInodeInum_def GetInodeInumFree_def GetInodeLocked_def LockInode_def ReleaseInode_def doneInode_def
        addInode_def put_inode_def bnd_eq_Inr Let_def split: if_splits option.splits)

fun got ::
    "('log, 'op, 'alc, 'lm, 'd) golib \<Rightarrow> bool \<Rightarrow> ('log, 'alc, 'lm, 'd) FsState \<Rightarrow> 'a option \<Rightarrow> ('log, 'op, 'alc, 'lm, 'd) FsTxn \<Rightarrow> bool" where
  "got G sh st None op = aborted G sh st op"
| "got G sh st (Some _) op = in_txn G sh st op"

lemma lock_loop_in:
  "in_txn G sh st op \<Longrightarrow> allocInums (Atxn op) = [] \<Longrightarrow> allocBnums (Atxn op) = [] \<Longrightarrow>
     ret (\<lambda>(res, op'). got G sh st res op') (lock_loop G inums todo inos op)"
proof (induction todo arbitrary: inos op)
  case (Cons i todo)
  have g: "in_txn G sh st op1 \<and> allocInums (Atxn op1) = [] \<and> allocBnums (Atxn op1) = []"
    if "GetInodeInum G i op = Inr (r, op1)" for r op1
    using retD [OF GetInodeInum_in [OF Cons.prems(1)] that] GetInodeInum_Atxn [OF that] Cons.prems by auto
  show ?case unfolding lock_loop.simps
  proof (rule ret_eq2)
    fix r op1
    assume "GetInodeInum G i op = Inr (r, op1)"
    note h = g [OF this]
    then have "aborted G sh st (Abort G op1)" by (auto simp: aborted_def)
    then show "ret (\<lambda>(res, op'). got G sh st res op')
        (case r of None \<Rightarrow> Inr (None, Abort G op1)
         | Some r \<Rightarrow> bnd (pos_of i inums) (\<lambda>pos. lock_loop G inums todo (inos[pos := Some r]) op1))"
      using h by (cases r) (auto intro!: ret_any Cons.IH ret_Inr)
  qed
qed (simp add: ret_Inr)

lemma lockInodes_in:
  assumes "before G sh st st1"
  shows "ret (\<lambda>(res, op'). got G sh st res op') (lockInodes G inums (FsTxn_Begin G st1))"
  unfolding lockInodes_def
  by (rule lock_loop_in [OF in_begin [OF assms]]) (simp_all add: FsTxn_Begin_def AllocTxn_Begin_def)

lemma lock_loop_first:
  "lock_loop G inums todo inos op = Inr (Some inos', op') \<Longrightarrow> inums \<noteq> [] \<Longrightarrow> length inos = length inums \<Longrightarrow>
     inums ! 0 \<in> set todo \<or> inos ! 0 \<noteq> None \<Longrightarrow> inos' ! 0 \<noteq> None"
proof (induction todo arbitrary: inos op)
  case (Cons i todo)
  obtain r op1 p where g: "GetInodeInum G i op = Inr (Some r, op1)" and p: "pos_of i inums = Inr p"
      and l: "lock_loop G inums todo (inos[p := Some r]) op1 = Inr (Some inos', op')"
    using Cons.prems(1) by (auto simp: bnd_eq_Inr split: option.splits)
  have "p = 0" if "i = inums ! 0" using p that Cons.prems(2) by (cases inums) auto
  then have "inums ! 0 \<in> set todo \<or> inos[p := Some r] ! 0 \<noteq> None"
    using Cons.prems(2-4) by (cases "p = 0") auto
  then show ?case using Cons.IH [OF l Cons.prems(2)] Cons.prems(3) by simp
qed auto

lemma ret_got:
  fixes m :: "('a option \<times> ('log, 'op, 'alc, 'lm, 'd) FsTxn) res"
  assumes "ret (\<lambda>(res, op'). got G sh st res op') m"
    and "\<And>op. m = Inr (None, op) \<Longrightarrow> aborted G sh st op \<Longrightarrow> ret Q (f None op)"
    and "\<And>x op. m = Inr (Some x, op) \<Longrightarrow> in_txn G sh st op \<Longrightarrow> ret Q (f (Some x) op)"
  shows "ret Q (bnd m (\<lambda>(a, b). f a b))"
proof (rule ret_eq2)
  fix a b
  assume m: "m = Inr (a, b)"
  then have "got G sh st a b" using assms(1) by (auto dest: retD)
  then show "ret Q (f a b)" using m assms(2,3) by (cases a) auto
qed

lemma lookupOrdered_in:
  assumes "before G sh st st1"
  shows "ret (\<lambda>(res, op'). case res of None \<Rightarrow> before G sh st (Fs op') | Some inos \<Rightarrow> in_txn G sh st op' \<and> inos ! 0 \<noteq> None)
     (lookupOrdered G name parent inm (FsTxn_Begin G st1))"
  unfolding lookupOrdered_def
proof (rule ret_got [OF lockInodes_in [OF assms]], goal_cases)
  case (2 inos op)
  have "set (lock_order (twoInums inm (Ino parent))) = {inm, Ino parent}"
    using lock_order_mset [of "twoInums inm (Ino parent)"] by (metis set_mset_mset twoInums_def list.set empty_set)
  then have "inos ! 0 \<noteq> None"
    using lock_loop_first [OF 2(1) [unfolded lockInodes_def]] by (auto simp: twoInums_def)
  with 2(2) show ?case
    by (simp only: option.case)
       (rule wp ret_bnd22 [OF LookupName_in] | assumption | rule ret_any | simp only: option.case | rule conjI in_abort | simp)+
qed (simp add: ret_Inr aborted_before)

lemma getInodesLocked_in:
  "before G sh st st1 \<Longrightarrow> ret (\<lambda>(op, inos, err). in_txn G sh st op) (getInodesLocked G fuel dfh name st1)"
proof (induction fuel arbitrary: st1)
  case (Suc fuel)
  let ?Q = "\<lambda>(op, inos, err). in_txn G sh st op"
  have l: "ret ?Q (bnd (lookupOrdered G name p i (FsTxn_Begin G st2)) (\<lambda>(inos, op).
       case inos of None \<Rightarrow> getInodesLocked G fuel dfh name (Fs op)
       | Some inos \<Rightarrow> bnd (idx inos 0) (\<lambda>ip. case ip of None \<Rightarrow> getInodesLocked G fuel dfh name (Fs op)
           | Some _ \<Rightarrow> Inr (op, inos, NFS3_OK))))"
    if "before G sh st st2" for p i st2
    by (rule ret_bnd2 [OF lookupOrdered_in [OF that]])
       (auto split: option.splits simp: idx_def ret_Inr ret_Inl intro!: Suc.IH)
  show ?case unfolding getInodesLocked.simps
    by (rule wp in_bnd in_begin ret_bnd22 [OF LookupName_in] Suc l in_abort | assumption | rule ret_any)+
qed (simp add: ret_Inl)

end
