(* ===== verification/NfsSpec.thy ===== *)
theory NfsSpec
  imports TxnRun
begin

text \<open>
  The NFS procedures as transactions: every procedure ends with the abort or the commit of one
  transaction, which decides the status of its reply, and leaves no lock held.
\<close>

section \<open>How a procedure ends\<close>

text \<open>
  What a procedure can do besides its own transaction: \<open>Shrinks\<close> (\<^verbatim>\<open>SETATTR\<close>, \<^verbatim>\<open>WRITE\<close>, \<^verbatim>\<open>CREATE\<close>, \<^verbatim>\<open>MKDIR\<close>,
  \<^verbatim>\<open>SYMLINK\<close>) can first commit shrinking transactions, \<open>Flushes\<close> (\<^verbatim>\<open>COMMIT\<close>) flushes the log, \<open>Renames\<close>
  (\<^verbatim>\<open>RENAME\<close>) replies \<^verbatim>\<open>NFS3_OK\<close> without looking at the result of the commit when there is nothing to rename.
\<close>

datatype proc_class = Plain | Shrinks | Flushes | Renames

text \<open>
  \<^term>\<open>outcome G p st status st'\<close>: a call that begins in \<open>st\<close> replies \<open>status\<close> and leaves \<open>st'\<close>.
\<close>

inductive outcome ::
    "('log, 'op, 'alc, 'lm, 'd) golib \<Rightarrow> proc_class \<Rightarrow> ('log, 'alc, 'lm, 'd) FsState \<Rightarrow> Nfsstat3 \<Rightarrow> ('log, 'alc, 'lm, 'd) FsState \<Rightarrow> bool"
  for G :: "('log, 'op, 'alc, 'lm, 'd) golib" and p st where
  o_none: "status \<noteq> NFS3_OK \<Longrightarrow> outcome G p st status st"
| o_abort: "in_txn G (p = Shrinks) st op \<Longrightarrow> status \<noteq> NFS3_OK \<Longrightarrow> outcome G p st status (Fs (Abort G op))"
| o_again: "aborted G (p = Shrinks) st op \<Longrightarrow> status \<noteq> NFS3_OK \<Longrightarrow> outcome G p st status (Fs (Abort G op))"
| o_commit: "in_txn G (p = Shrinks) st op \<Longrightarrow> commitWait G w op = (ok, op') \<Longrightarrow>
    outcome G p st (if ok then NFS3_OK else NFS3ERR_SERVERFAULT) (Fs op')"
| o_flush: "p = Flushes \<Longrightarrow> in_txn G False st op \<Longrightarrow> CommitFh G op = (True, op') \<Longrightarrow> outcome G p st NFS3_OK (Fs op')"
| o_flush_fails: "p = Flushes \<Longrightarrow> txn_run G (FsTxn_Begin G st) op \<Longrightarrow> Atxn op = Atxn (FsTxn_Begin G st) \<Longrightarrow> CommitFh G op = (False, op') \<Longrightarrow>
    outcome G p st NFS3ERR_IO (Fs (Abort G op'))"
| o_rename: "p = Renames \<Longrightarrow> in_txn G False st op \<Longrightarrow> Commit G op = (ok, op') \<Longrightarrow> outcome G p st NFS3_OK (Fs op')"

lemma errRet_Some [simp]: "errRet G (Some op) err = Inr (err, Abort G op)"
  by (simp add: errRet_def deref_def)

lemma ret_errRet [wp]: "ret Q (f err (Abort G op)) \<Longrightarrow> ret Q (bnd (errRet G (Some op) err) (\<lambda>(a, b). f a b))"
  by simp

lemma fsstate_put [simp]: "fsstate (put_fs op nfs) = Fs op"
  by (simp add: put_fs_def)

lemma o_reply: "commitReply G op = (status, op') \<Longrightarrow> in_txn G (p = Shrinks) st op \<Longrightarrow> outcome G p st status (Fs op')"
  using o_commit [of G p st op True]
  by (auto simp: commitReply_def Commit_def split: prod.splits)

text \<open>The rules with the class of the procedure filled in.\<close>

lemma no_shrink: "in_txn G False st op \<Longrightarrow> p \<noteq> Shrinks \<Longrightarrow> in_txn G (p = Shrinks) st op"
  by simp

lemmas ends = o_abort [OF no_shrink] o_reply [OF _ no_shrink]

lemma GETATTR_outcome:
  "ret (\<lambda>(reply, nfs'). outcome G Plain (fsstate nfs) (GETATTR3res_Status reply) (fsstate nfs')) (NFSPROC3_GETATTR G args nfs)"
  unfolding NFSPROC3_GETATTR_def
  by (rule wp in_bnd in_begin b_start ends | assumption | simp)+

lemma READ_outcome:
  "ret (\<lambda>(reply, nfs'). outcome G Plain (fsstate nfs) (READ3res_Status reply) (fsstate nfs')) (NFSPROC3_READ G args nfs)"
  unfolding NFSPROC3_READ_def
  by (rule wp ret_bnd4 [OF doRead_in] b_start ends | assumption | simp)+

lemma READLINK_outcome:
  "ret (\<lambda>(reply, nfs'). outcome G Plain (fsstate nfs) (READLINK3res_Status reply) (fsstate nfs')) (NFSPROC3_READLINK G args nfs)"
  unfolding NFSPROC3_READLINK_def
  by (rule wp ret_bnd4 [OF doRead_in] b_start ends | assumption | simp)+

lemma LOOKUP_outcome:
  "ret (\<lambda>(reply, nfs'). outcome G Plain (fsstate nfs) (LOOKUP3res_Status reply) (fsstate nfs')) (NFSPROC3_LOOKUP G fuel args nfs)"
  unfolding NFSPROC3_LOOKUP_def
  by (rule wp ret_bnd3 [OF getInodesLocked_in] b_start ends | assumption | rule ret_any | simp)+

lemma READDIR_outcome:
  "ret (\<lambda>(reply, nfs'). outcome G Plain (fsstate nfs) (READDIR3res_Status reply) (fsstate nfs')) (NFSPROC3_READDIR G args nfs)"
  unfolding NFSPROC3_READDIR_def
  by (rule wp in_bnd ret_bnd2 [OF Readdir3_in] in_begin b_start ends | assumption | simp)+

lemma READDIRPLUS_outcome:
  "ret (\<lambda>(reply, nfs'). outcome G Plain (fsstate nfs) (READDIRPLUS3res_Status reply) (fsstate nfs')) (NFSPROC3_READDIRPLUS G args nfs)"
  unfolding NFSPROC3_READDIRPLUS_def
  by (rule wp in_bnd ret_bnd2 [OF Ls3_in] in_begin b_start ends | assumption | simp)+

lemma FSINFO_outcome:
  "NFSPROC3_FSINFO G args nfs = (reply, nfs') \<Longrightarrow> outcome G Plain (fsstate nfs) (FSINFO3res_Status reply) (fsstate nfs')"
  by (auto simp: NFSPROC3_FSINFO_def split: prod.splits intro!: ends in_begin b_start)

text \<open>
  A procedure that can shrink a file first, without shrinking transactions (\<open>p = Plain\<close>) where it finds no unfinished truncation.
\<close>

lemma SETATTR_outcome:
  assumes u: "p \<noteq> Shrinks \<Longrightarrow> \<not> unfinished_file G (SETATTR3args_Object args) (fsstate nfs)"
  shows "ret (\<lambda>(reply, nfs'). outcome G p (fsstate nfs) (SETATTR3res_Status reply) (fsstate nfs')) (NFSPROC3_SETATTR G fuel args nfs)"
proof -
  have size: "ret (\<lambda>(n, op'). in_txn G sh st op') (if b then bnd (on_inode ip (Resize G sz) op) (\<lambda>(shrink, op).
       Inr (f shrink op, op)) else Inr (nfs, op))" if "in_txn G sh st op" for sh st b ip sz f nfs op
    by (rule wp in_bnd that | assumption)+
  have at: "ret (in_txn G sh st) (set_atime G a ip op)" and mt: "ret (in_txn G sh st) (set_mtime G k b ip op)"
    if "in_txn G sh st op" for sh st a b k ip op
    unfolding set_atime_def set_mtime_def by (rule wp in_bnd ip_WriteInode_in in_put that | assumption | simp)+
  show ?thesis unfolding NFSPROC3_SETATTR_def
    by (rule wp ret_bnd3 [OF getShrink_unless [OF u]] ret_bnd2 [OF size] ret_bnd [OF at] ret_bnd [OF mt] o_abort o_reply
        | assumption | rule ret_any | simp)+
qed

lemma WRITE_outcome:
  assumes u: "p \<noteq> Shrinks \<Longrightarrow> \<not> unfinished_file G (WRITE3args_File args) (fsstate nfs)"
  shows "ret (\<lambda>(reply, nfs'). outcome G p (fsstate nfs) (WRITE3res_Status reply) (fsstate nfs')) (NFSPROC3_WRITE G fuel args nfs)"
proof -
  have c: "outcome G p st (if ok then NFS3_OK else NFS3ERR_SERVERFAULT) (Fs op')" if t: "in_txn G (p = Shrinks) st op"
    and c: "(if a then Commit G op else if b then CommitData G op else CommitUnstable G op) = (ok, op')" for st a b op ok op'
  proof -
    obtain w where "commitWait G w op = (ok, op')"
      using c unfolding Commit_def CommitData_def CommitUnstable_def by meson
    then show ?thesis using o_commit [of G p] t by simp
  qed
  show ?thesis unfolding NFSPROC3_WRITE_def
    by (rule wp ret_bnd3 [OF getShrink_unless [OF u]] in_bnd o_abort o_reply c [where ok = True, simplified] c [where ok = False, simplified]
        | assumption | rule ret_any | simp)+
qed

lemma CREATE_outcome:
  assumes u: "p \<noteq> Shrinks \<Longrightarrow> \<not> unfinished_inode G (Diropargs3_Dir (CREATE3args_Where args))
    (Diropargs3_Name (CREATE3args_Where args)) NF3REG (fsstate nfs)"
  shows "ret (\<lambda>(reply, nfs'). outcome G p (fsstate nfs) (CREATE3res_Status reply) (fsstate nfs')) (NFSPROC3_CREATE G fuel args nfs)"
  unfolding NFSPROC3_CREATE_def
  by (rule wp ret_bnd5 [OF doCreate_in [OF u]] o_abort o_reply | assumption | simp add: o_none)+

lemma MKDIR_outcome:
  assumes u: "p \<noteq> Shrinks \<Longrightarrow> \<not> unfinished_inode G (Diropargs3_Dir (MKDIR3args_Where args))
    (Diropargs3_Name (MKDIR3args_Where args)) NF3DIR (fsstate nfs)"
  shows "ret (\<lambda>(reply, nfs'). outcome G p (fsstate nfs) (MKDIR3res_Status reply) (fsstate nfs')) (NFSPROC3_MKDIR G fuel args nfs)"
  unfolding NFSPROC3_MKDIR_def
  by (rule wp ret_bnd5 [OF doCreate_in [OF u]] o_abort o_reply | assumption | simp)+

lemma SYMLINK_outcome:
  assumes u: "p \<noteq> Shrinks \<Longrightarrow> \<not> unfinished_inode G (Diropargs3_Dir (SYMLINK3args_Where args))
    (Diropargs3_Name (SYMLINK3args_Where args)) NF3LNK (fsstate nfs)"
  shows "ret (\<lambda>(reply, nfs'). outcome G p (fsstate nfs) (SYMLINK3res_Status reply) (fsstate nfs')) (NFSPROC3_SYMLINK G fuel args nfs)"
  unfolding NFSPROC3_SYMLINK_def
  by (rule wp ret_bnd5 [OF doCreate_in [OF u]] o_abort o_reply | assumption | simp)+

lemma doRemove_in:
  "ret (\<lambda>(op, err, n). (case op of None \<Rightarrow> err \<noteq> NFS3_OK | Some op \<Rightarrow> in_txn G False (fsstate nfs) op))
     (doRemove G fuel dfh name isdir nfs)"
proof -
  have e: "ret (\<lambda>(x, op'). in_txn G False (fsstate nfs) op') (if isdir then IsDirEmpty G ip op else Inr (True, op))"
    if "in_txn G False (fsstate nfs) op" for ip op
    by (rule wp IsDirEmpty_in that)+
  show ?thesis unfolding doRemove_def
    by (rule wp ret_bnd3 [OF getInodesLocked_in] b_start ret_bnd2 [OF e] ret_bnd2 [OF RemName_in] ret_bnd2 [OF doDecLink_in]
        | elim conjE | simp only: option.case | assumption | rule ret_any | simp)+
qed

lemma errRet_None [simp]: "errRet G None err = Inl (Panic ''nil pointer dereference'')"
  by (simp add: errRet_def deref_def)

lemma deref_simps [simp]: "deref None = Inl (Panic ''nil pointer dereference'')" "deref (Some x) = Inr x"
  by (simp_all add: deref_def)

lemma REMOVE_outcome:
  "ret (\<lambda>(reply, nfs'). outcome G Plain (fsstate nfs) (REMOVE3res_Status reply) (fsstate nfs')) (NFSPROC3_REMOVE G fuel args nfs)"
  unfolding NFSPROC3_REMOVE_def Let_def
proof (rule ret_bnd3 [OF doRemove_in], goal_cases)
  case (1 op err n)
  show ?case
  proof (cases op)
    case None
    then show ?thesis using 1 by (simp add: ret_Inl)
  next
    case (Some op1)
    then have t: "in_txn G False (fsstate nfs) op1" using 1 by simp
    show ?thesis unfolding Some deref_simps bnd_Inr by (rule wp ends t | assumption | simp)+
  qed
qed

lemma RMDIR_outcome:
  "ret (\<lambda>(reply, nfs'). outcome G Plain (fsstate nfs) (RMDIR3res_Status reply) (fsstate nfs')) (NFSPROC3_RMDIR G fuel args nfs)"
  unfolding NFSPROC3_RMDIR_def Let_def
proof (rule ret_bnd3 [OF doRemove_in], goal_cases)
  case (1 op err n)
  show ?case
  proof (cases op)
    case None
    then show ?thesis using 1 by (simp add: ret_Inl)
  next
    case (Some op1)
    then have t: "in_txn G False (fsstate nfs) op1" using 1 by simp
    show ?thesis unfolding Some deref_simps bnd_Inr by (rule wp ends t | assumption | simp)+
  qed
qed

lemma GetInodeFh_Atxn: "GetInodeFh G fh3 op = Inr (r, op') \<Longrightarrow> Atxn op' = Atxn op"
  by (auto simp: GetInodeFh_def ReleaseInode_def doneInode_def bnd_eq_Inr Let_def dest!: GetInodeInum_Atxn
        split: if_split_asm option.split_asm)

lemma flushed:
  assumes g: "GetInodeFh G fh3 (FsTxn_Begin G st) = Inr (r, op)" and c: "CommitFh G op = (ok, op')"
  shows "ok \<Longrightarrow> outcome G Flushes st NFS3_OK (Fs op')" and "\<not> ok \<Longrightarrow> outcome G Flushes st NFS3ERR_IO (Fs (Abort G op'))"
proof -
  have t: "txn_run G (FsTxn_Begin G st) op" by (rule t_fh [OF t_start g])
  then have "in_txn G False st op" using b_start by (auto simp: in_txn_def)
  then show "ok \<Longrightarrow> outcome G Flushes st NFS3_OK (Fs op')" using o_flush [of Flushes G st op] c by simp
  show "\<not> ok \<Longrightarrow> outcome G Flushes st NFS3ERR_IO (Fs (Abort G op'))"
    using o_flush_fails [OF refl t GetInodeFh_Atxn [OF g]] c by simp
qed

lemma COMMIT_outcome:
  "ret (\<lambda>(reply, nfs'). outcome G Flushes (fsstate nfs) (COMMIT3res_Status reply) (fsstate nfs')) (NFSPROC3_COMMIT G args nfs)"
proof -
  have i: "in_txn G False (fsstate nfs) op" if "GetInodeFh G fh3 (FsTxn_Begin G (fsstate nfs)) = Inr (r, op)" for fh3 r op
    using retD [OF GetInodeFh_in [OF in_begin [OF b_start]] that] by simp
  show ?thesis unfolding NFSPROC3_COMMIT_def
    by (rule wp ret_eq2 flushed ends i | assumption | simp)+
qed

text \<open>\<^verbatim>\<open>RENAME\<close>\<close>

lemma validateRename_in:
  "in_txn G sh st op \<Longrightarrow> ret (\<lambda>(v, op'). in_txn G sh st op') (validateRename G inos fromfh tofh fromn ton op)"
  unfolding validateRename_def Let_def
  by (rule wp ret_bnd22 [OF LookupName_in] | assumption | rule ret_any)+

fun step_ok ::
    "('log, 'op, 'alc, 'lm, 'd) golib \<Rightarrow> ('log, 'alc, 'lm, 'd) FsState \<Rightarrow>
     (Nfsstat3 \<times> ('log, 'alc, 'lm, 'd) Nfs,
      iref \<times> iref \<times> u64 \<times> ('log, 'alc, 'lm, 'd) Nfs \<times> ('log, 'op, 'alc, 'lm, 'd) FsTxn,
      ('log, 'alc, 'lm, 'd) FsState) rename_step \<Rightarrow> bool" where
  "step_ok G st (Done (status, n)) = outcome G Renames st status (fsstate n)"
| "step_ok G st (Go_on (a, b, c, n, op)) = in_txn G False st op"
| "step_ok G st (Retry fs) = before G False st fs"

lemma rename_over_ok:
  assumes "in_txn G False st op"
  shows "ret (step_ok G st) (rename_over G args fromh toh dipfrom dipto frominum toinum nfs op)"
proof -
  have e: "ret (\<lambda>(x, op'). in_txn G False st op') (if b then IsDirEmpty G r op1 else Inr (True, op1))"
    if "in_txn G False st op1" for b r op1
    by (rule wp IsDirEmpty_in that)+
  show ?thesis unfolding rename_over_def Let_def
  proof (rule ret_got [OF lockInodes_in [OF in_abort [OF assms]]], goal_cases)
    case (2 inos op1)
    show ?case unfolding option.case
      by (rule wp 2(2) ret_bnd2 [OF validateRename_in] ret_bnd2 [OF e] ret_bnd2 [OF RemName_in] ret_bnd2 [OF doDecLink_in]
          step_ok.simps [THEN iffD2] in_abort ends | elim conjE | assumption | rule ret_any | simp)+
  qed (simp add: idx_def ret_Inl)
qed

lemma dirs_ok:
  assumes "before G False st fs"
  shows "ret (\<lambda>(dips, op). in_txn G False st op \<or> dips = None \<and> aborted G False st op)
      (if eq then bnd (GetInodeFh G fromdir (FsTxn_Begin G fs)) (\<lambda>(dip, op). Inr (map_option (\<lambda>d. (d, d)) dip, op))
       else bnd (lockInodes G inums (FsTxn_Begin G fs)) (\<lambda>(inos, op).
            case inos of None \<Rightarrow> Inr (None, op)
            | Some inos \<Rightarrow> bnd (idx inos 0) (\<lambda>p. bnd (deref p) (\<lambda>dipfrom. bnd (idx inos 1) (\<lambda>p. bnd (deref p) (\<lambda>dipto.
                Inr (Some (dipfrom, dipto), op)))))))"
proof (rule ret_if, goal_cases)
  case 1
  show ?case by (rule wp in_bnd in_begin assms disjI1 | assumption)+
next
  case 2
  show ?case
  proof (rule ret_got [OF lockInodes_in [OF assms]], goal_cases)
    case (2 x op)
    show ?case unfolding option.case by (rule wp disjI1 2(2) | rule ret_any)+
  qed (simp add: ret_Inr)
qed

lemma rename_loop_ok: "before G False st fs \<Longrightarrow> ret (step_ok G st) (rename_loop G fuel args nfs fs)"
proof (induction fuel arbitrary: fs)
  case (Suc fuel)
  have stop: "ret (step_ok G st) (bnd (errRet G (Some op) err) (\<lambda>(s, op). Inr (Done (s, put_fs op nfs))))"
    if "in_txn G False st op \<or> aborted G False st op" "err \<noteq> NFS3_OK" for op err
    using that o_again [of G Renames st op] by (auto simp: ret_Inr_iff intro: ends)
  have over: "ret (step_ok G st) (bnd (rename_over G args fromh toh dipfrom dipto frominum toinum nfs op) (\<lambda>r.
       case r of Retry fs \<Rightarrow> rename_loop G fuel args nfs fs | Done x \<Rightarrow> Inr (Done x) | Go_on x \<Rightarrow> Inr (Go_on x)))"
    if "in_txn G False st op" for fromh toh dipfrom dipto frominum toinum op
    by (rule ret_bnd [OF rename_over_ok [OF that]]) (auto split: rename_step.splits intro: ret_Inr Suc.IH)
  have same: "ret (step_ok G st) (let (_, op) = Commit G op in Inr (Done (NFS3_OK, put_fs op nfs)))"
    if "in_txn G False st op" for op
    using o_rename [OF refl that] by (auto simp: ret_Inr_iff split: prod.splits)
  have dirs: "ret (step_ok G st) (bnd m (\<lambda>(dips, op). case dips of None \<Rightarrow> f op | Some (dipfrom, dipto) \<Rightarrow> g dipfrom dipto op))"
    if m: "ret (\<lambda>(dips, op). in_txn G False st op \<or> dips = None \<and> aborted G False st op) m"
      and f: "\<And>op. in_txn G False st op \<or> aborted G False st op \<Longrightarrow> ret (step_ok G st) (f op)"
      and g: "\<And>a b op. in_txn G False st op \<Longrightarrow> ret (step_ok G st) (g a b op)" for m f g
    by (rule ret_bnd2 [OF m]) (auto split: option.splits intro: f g)
  show ?case unfolding rename_loop.simps Let_def [of "FsTxn_Begin G fs"]
    by (assumption | rule dirs_ok [OF Suc.prems] stop dirs over same ret_let ret_if ret_bnd22 [OF LookupName_in]
          disjI1 in_begin [OF Suc.prems] ret_Inr step_ok.simps(2) [THEN iffD2] | rule ret_any | simp)+
qed (simp add: ret_Inl)

lemma RENAME_outcome:
  "ret (\<lambda>(reply, nfs'). outcome G Renames (fsstate nfs) (RENAME3res_Status reply) (fsstate nfs')) (NFSPROC3_RENAME G fuel args nfs)"
  unfolding NFSPROC3_RENAME_def Let_def
proof (rule ret_bnd [OF rename_loop_ok [OF b_start]], goal_cases)
  case (1 r)
  then show ?case
  proof (cases r)
    case (Go_on x)
    obtain a b c n op where x: "x = (a, b, c, n, op)" by (cases x)
    have t: "in_txn G False (fsstate nfs) op" using 1 Go_on x by simp
    show ?thesis unfolding Go_on x rename_step.case prod.case
      by (rule wp ret_bnd2 [OF RemName_in] ret_bnd2 [OF AddName_in] t ends | assumption | simp)+
  qed (auto simp: ret_Inl ret_Inr_iff)
qed

section \<open>Calls of the server\<close>

text \<open>The procedures that work on the file system, with the status of their replies.\<close>

datatype call =
  GETATTR GETATTR3args | SETATTR SETATTR3args | LOOKUP LOOKUP3args | READLINK READLINK3args | READ READ3args
| WRITE WRITE3args | CREATE CREATE3args | MKDIR MKDIR3args | SYMLINK SYMLINK3args | REMOVE REMOVE3args
| RMDIR RMDIR3args | RENAME RENAME3args | READDIR READDIR3args | READDIRPLUS READDIRPLUS3args
| FSINFO FSINFO3args | COMMIT COMMIT3args

definition with_status :: "('r \<Rightarrow> Nfsstat3) \<Rightarrow> ('r \<times> 'n) res \<Rightarrow> (Nfsstat3 \<times> 'n) res" where
  "with_status f m = bnd m (\<lambda>(reply, n). Inr (f reply, n))"

fun serve ::
    "('log, 'op, 'alc, 'lm, 'd) golib \<Rightarrow> nat \<Rightarrow> call \<Rightarrow> ('log, 'alc, 'lm, 'd) Nfs \<Rightarrow>
     (Nfsstat3 \<times> ('log, 'alc, 'lm, 'd) Nfs) res" where
  "serve G fuel (GETATTR a) nfs = with_status GETATTR3res_Status (NFSPROC3_GETATTR G a nfs)"
| "serve G fuel (SETATTR a) nfs = with_status SETATTR3res_Status (NFSPROC3_SETATTR G fuel a nfs)"
| "serve G fuel (LOOKUP a) nfs = with_status LOOKUP3res_Status (NFSPROC3_LOOKUP G fuel a nfs)"
| "serve G fuel (READLINK a) nfs = with_status READLINK3res_Status (NFSPROC3_READLINK G a nfs)"
| "serve G fuel (READ a) nfs = with_status READ3res_Status (NFSPROC3_READ G a nfs)"
| "serve G fuel (WRITE a) nfs = with_status WRITE3res_Status (NFSPROC3_WRITE G fuel a nfs)"
| "serve G fuel (CREATE a) nfs = with_status CREATE3res_Status (NFSPROC3_CREATE G fuel a nfs)"
| "serve G fuel (MKDIR a) nfs = with_status MKDIR3res_Status (NFSPROC3_MKDIR G fuel a nfs)"
| "serve G fuel (SYMLINK a) nfs = with_status SYMLINK3res_Status (NFSPROC3_SYMLINK G fuel a nfs)"
| "serve G fuel (REMOVE a) nfs = with_status REMOVE3res_Status (NFSPROC3_REMOVE G fuel a nfs)"
| "serve G fuel (RMDIR a) nfs = with_status RMDIR3res_Status (NFSPROC3_RMDIR G fuel a nfs)"
| "serve G fuel (RENAME a) nfs = with_status RENAME3res_Status (NFSPROC3_RENAME G fuel a nfs)"
| "serve G fuel (READDIR a) nfs = with_status READDIR3res_Status (NFSPROC3_READDIR G a nfs)"
| "serve G fuel (READDIRPLUS a) nfs = with_status READDIRPLUS3res_Status (NFSPROC3_READDIRPLUS G a nfs)"
| "serve G fuel (FSINFO a) nfs = with_status FSINFO3res_Status (Inr (NFSPROC3_FSINFO G a nfs))"
| "serve G fuel (COMMIT a) nfs = with_status COMMIT3res_Status (NFSPROC3_COMMIT G a nfs)"

fun class_of :: "call \<Rightarrow> proc_class" where
  "class_of (SETATTR _) = Shrinks"
| "class_of (WRITE _) = Shrinks"
| "class_of (CREATE _) = Shrinks"
| "class_of (MKDIR _) = Shrinks"
| "class_of (SYMLINK _) = Shrinks"
| "class_of (COMMIT _) = Flushes"
| "class_of (RENAME _) = Renames"
| "class_of _ = Plain"

lemma with_status_ret: "ret (\<lambda>(reply, n). Q (f reply) n) m \<Longrightarrow> ret (\<lambda>(s, n). Q s n) (with_status f m)"
  unfolding with_status_def by (erule ret_bnd2) (simp add: ret_Inr_iff)

lemma FSINFO_ret:
  "ret (\<lambda>(reply, nfs'). outcome G Plain (fsstate nfs) (FSINFO3res_Status reply) (fsstate nfs')) (Inr (NFSPROC3_FSINFO G args nfs))"
  using FSINFO_outcome [of G args nfs] by (auto simp: ret_Inr_iff split: prod.splits)

lemmas outcomes = GETATTR_outcome SETATTR_outcome LOOKUP_outcome READLINK_outcome READ_outcome WRITE_outcome CREATE_outcome
  MKDIR_outcome SYMLINK_outcome REMOVE_outcome RMDIR_outcome RENAME_outcome READDIR_outcome READDIRPLUS_outcome FSINFO_ret
  COMMIT_outcome

text \<open>The call finds an unfinished truncation, which it has to complete first.\<close>

fun unfinished :: "('log, 'op, 'alc, 'lm, 'd) golib \<Rightarrow> call \<Rightarrow> ('log, 'alc, 'lm, 'd) FsState \<Rightarrow> bool" where
  "unfinished G (SETATTR a) st = unfinished_file G (SETATTR3args_Object a) st"
| "unfinished G (WRITE a) st = unfinished_file G (WRITE3args_File a) st"
| "unfinished G (CREATE a) st =
     unfinished_inode G (Diropargs3_Dir (CREATE3args_Where a)) (Diropargs3_Name (CREATE3args_Where a)) NF3REG st"
| "unfinished G (MKDIR a) st =
     unfinished_inode G (Diropargs3_Dir (MKDIR3args_Where a)) (Diropargs3_Name (MKDIR3args_Where a)) NF3DIR st"
| "unfinished G (SYMLINK a) st =
     unfinished_inode G (Diropargs3_Dir (SYMLINK3args_Where a)) (Diropargs3_Name (SYMLINK3args_Where a)) NF3LNK st"
| "unfinished G _ st = False"

lemma serve_outcome:
  "ret (\<lambda>(status, nfs'). outcome G (class_of c) (fsstate nfs) status (fsstate nfs')) (serve G fuel c nfs)"
  by (cases c; simp only: serve.simps class_of.simps; rule with_status_ret; rule outcomes) simp_all

lemma serve_plain:
  assumes "\<not> unfinished G c (fsstate nfs)" and "class_of c = Shrinks"
  shows "ret (\<lambda>(status, nfs'). outcome G Plain (fsstate nfs) status (fsstate nfs')) (serve G fuel c nfs)"
  using assms by (cases c; simp del: serve.simps; simp only: serve.simps; intro with_status_ret outcomes; simp)

section \<open>What an outcome means\<close>

context gojournal
begin

lemma before_False:
  "before G False st st1 \<Longrightarrow> fs_idle held st \<Longrightarrow>
     fs_idle held st1 \<and> Txn st1 = Txn st \<and> used (fs_Balloc st1) = used (fs_Balloc st) \<and> used (fs_Ialloc st1) = used (fs_Ialloc st)"
proof (induction rule: before.induct)
  case (b_abort st1 op)
  have i: "fs_idle held st1" using b_abort by blast
  have "txn_inv held op" by (rule txn_run_inv [OF b_abort.hyps(2) Begin_inv [OF i]])
  then show ?case using Abort_idle Abort_undo [OF i b_abort.hyps(2)] b_abort by auto
qed simp_all

lemma in_txn_run_inv: "in_txn G False st op \<Longrightarrow> fs_idle held st \<Longrightarrow> txn_inv held op"
  using before_False txn_run_inv Begin_inv by (auto simp: in_txn_def)

lemma before_idle: "before G sh st st1 \<Longrightarrow> fs_idle held st \<Longrightarrow> fs_idle held st1"
proof (induction rule: before.induct)
  case (b_abort st1 op)
  have "txn_inv held op" by (rule txn_run_inv [OF b_abort.hyps(2) Begin_inv]) (use b_abort in blast)
  then show ?case using Abort_idle by blast
next
  case (b_shrink st1 inum r op mo op1 ok op2)
  have "in_txn G False st1 op" using retD [OF GetInodeInumFree_in [OF in_begin [OF b_start]] b_shrink.hyps(3)] by simp
  then have "in_txn G False st1 op1" using retD [OF Shrink_in b_shrink.hyps(4)] by simp
  then have "txn_inv held op1" using in_txn_run_inv b_shrink by blast
  then show ?case using commitWait_idle b_shrink.hyps(5) unfolding Commit_def by blast
qed

lemma in_txn_inv: "in_txn G sh st op \<Longrightarrow> fs_idle held st \<Longrightarrow> txn_inv held op"
  using before_idle txn_run_inv Begin_inv by (auto simp: in_txn_def)

lemma outcome_idle: "outcome G p st status st' \<Longrightarrow> fs_idle held st \<Longrightarrow> fs_idle held st'"
proof (induction rule: outcome.induct)
  case (o_again op status)
  obtain op1 where "in_txn G (p = Shrinks) st op1" "op = Abort G op1" using o_again.hyps(1) by (auto simp: aborted_def)
  with o_again have "fs_idle held (Fs op) \<and> inodes op = []" using Abort_idle [of op1] in_txn_inv by simp
  then show ?case using Abort_idle [of op] idle_txn_inv by blast
next
  case (o_flush_fails op op')
  have "fs_idle held (Fs op') \<and> inodes op' = []"
    by (rule CommitFh_idle [OF txn_run_inv [OF o_flush_fails.hyps(2) Begin_inv] o_flush_fails.hyps(4)]) (rule o_flush_fails)
  then show ?case using Abort_idle [of op'] idle_txn_inv by blast
qed (auto simp: Commit_def dest: in_txn_inv Abort_idle commitWait_idle CommitFh_idle)

end

text \<open>
  A run of the server: calls, and the background shrinkers that were started, one at a time.
\<close>

inductive nfs_run ::
    "('log, 'op, 'alc, 'lm, 'd) golib \<Rightarrow> ('log, 'alc, 'lm, 'd) Nfs \<Rightarrow> ('log, 'alc, 'lm, 'd) Nfs \<Rightarrow> bool"
  for G n0 where
  r_start: "nfs_run G n0 n0"
| r_call: "nfs_run G n0 n \<Longrightarrow> serve G fuel c n = Inr (status, n') \<Longrightarrow> nfs_run G n0 n'"
| r_thread: "nfs_run G n0 n \<Longrightarrow> i \<in> set (threads (shrinkst n)) \<Longrightarrow>
    shrinker G fuel i (shrinkst n) (fsstate n) = Inr (sh, st) \<Longrightarrow> nfs_run G n0 (n\<lparr>fsstate := st, shrinkst := sh\<rparr>)"

context gojournal
begin

lemma MkFsState_idle: "fs_idle held (MkFsState G super lg)"
  using held_init MkCache_inv [of ICACHESZ]
  by (auto simp: MkFsState_def fs_idle_def icache_ok_def MkCache_def)

lemma MakeNfs_idle: "MakeNfs G d = Inr n \<Longrightarrow> fs_idle held (fsstate n)"
proof -
  have r: "ret (\<lambda>n. fs_idle held (fsstate n)) (makeRootDir G n0)" if "fs_idle held (fsstate n0)" for n0
  proof -
    have c: "fs_idle held (Fs op')" if "Commit G op = (ok, op')" "in_txn G False (fsstate n0) op" for op ok op'
      using that commitWait_idle in_txn_inv \<open>fs_idle held (fsstate n0)\<close> unfolding Commit_def by blast
    show ?thesis unfolding makeRootDir_def
      by (assumption | rule wp in_bnd in_begin b_start ret_bnd2 [OF MkRootDir_in] c | simp)+
  qed
  show "MakeNfs G d = Inr n \<Longrightarrow> fs_idle held (fsstate n)"
    by (auto simp: MakeNfs_def bnd_eq_Inr Let_def MkFsState_idle split: prod.splits if_splits dest!: retD [OF r, rotated])
qed

lemma nfs_run_idle: "nfs_run G n0 n \<Longrightarrow> fs_idle held (fsstate n0) \<Longrightarrow> fs_idle held (fsstate n)"
proof (induction rule: nfs_run.induct)
  case (r_call n fuel c status n')
  then show ?case using retD [OF serve_outcome r_call.hyps(2)] outcome_idle by auto
next
  case (r_thread n i fuel sh st)
  obtain ok where "DoShrink G fuel i (shrinkst n) (fsstate n) = Inr (ok, st)"
    using r_thread.hyps(3) by (auto simp: shrinker_def bnd_eq_Inr split: if_splits)
  from retD [OF DoShrink_before [OF b_start] this] have "before G True (fsstate n) st" by simp
  then show ?case using before_idle r_thread by simp
qed

text \<open>A flush that failed: nothing but the log is touched.\<close>

lemma flush_fails:
  assumes idle: "fs_idle held st" and run: "txn_run G (FsTxn_Begin G st) op" and at: "Atxn op = Atxn (FsTxn_Begin G st)"
    and c: "CommitFh G op = (False, op')"
  shows "Txn (Fs (Abort G op')) = snd (obj_Flush G (Txn st))" and "fs_Balloc (Fs (Abort G op')) = fs_Balloc st"
    and "fs_Ialloc (Fs (Abort G op')) = fs_Ialloc st"
proof -
  have inv0: "txn_inv held (FsTxn_Begin G st)" by (rule Begin_inv [OF idle])
  have inv: "txn_inv held op" by (rule txn_run_inv [OF run inv0])
  have lg: "Txn (Fs op) = Txn st" using txn_run_atxn [OF run inv0] by (simp add: FsTxn_Begin_def)
  let ?op = "(preCommit G op)\<lparr>Fs := (Fs op)\<lparr>Txn := snd (obj_Flush G (Txn st))\<rparr>\<rparr>"
  have op': "op' = postCommit G ?op" using c lg by (auto simp: CommitFh_def preCommit_def Let_def split: prod.splits)
  have i: "txn_inv held ?op" using inv by (simp add: preCommit_def txn_inv_def icache_ok_def owned_ok_def)
  note r = releaseInodes_ok [OF i]
  have p: "inodes op' = []" "Txn (Fs op') = snd (obj_Flush G (Txn st))" "Atxn op' = PostCommit G (PreCommit G (Atxn op))"
    using r by (auto simp: op' postCommit_def put_allocs_def Let_def preCommit_def)
  then show "Txn (Fs (Abort G op')) = snd (obj_Flush G (Txn st))"
    by (simp add: Abort_def put_allocs_def Let_def releaseInodes_def)
  have "Balloc (PostAbort G (Atxn op')) = fs_Balloc st \<and> Ialloc (PostAbort G (Atxn op')) = fs_Ialloc st"
    using p(3) at by (simp add: PostAbort_def PostCommit_def PreCommit_def Let_def FsTxn_Begin_def AllocTxn_Begin_def)
  then show "fs_Balloc (Fs (Abort G op')) = fs_Balloc st" "fs_Ialloc (Fs (Abort G op')) = fs_Ialloc st"
    using p(1) by (simp_all add: Abort_def put_allocs_def Let_def releaseInodes_def)
qed

lemma outcome_error:
  assumes "outcome G p st status st'" and "fs_idle held st" and "status \<noteq> NFS3_OK" "status \<noteq> NFS3ERR_SERVERFAULT"
  shows "\<exists>st1. before G (p = Shrinks) st st1 \<and>
     (Txn st' = Txn st1 \<or> p = Flushes \<and> status = NFS3ERR_IO \<and> st1 = st \<and> Txn st' = snd (obj_Flush G (Txn st))) \<and> used (fs_Balloc st') = used (fs_Balloc st1) \<and>
     used (fs_Ialloc st') = used (fs_Ialloc st1)"
  using assms
proof (cases rule: outcome.cases)
  case (o_abort op)
  then obtain st1 where "before G (p = Shrinks) st st1" "txn_run G (FsTxn_Begin G st1) op" by (auto simp: in_txn_def)
  then show ?thesis using Abort_undo [OF before_idle [OF _ assms(2)]] o_abort by blast
next
  case (o_again op)
  then obtain op1 where op1: "in_txn G (p = Shrinks) st op1" "op = Abort G op1" "allocInums (Atxn op1) = []" "allocBnums (Atxn op1) = []"
    by (auto simp: aborted_def)
  have i: "fs_idle held (Fs op) \<and> inodes op = []"
    using Abort_idle [OF in_txn_inv [OF op1(1) assms(2)]] op1(2) by simp
  have a: "Atxn op = Atxn op1"
    using releaseInodes_ok(4) [OF in_txn_inv [OF op1(1) assms(2)]] op1(2-4)
    by (simp add: Abort_def put_allocs_def Let_def PostAbort_def)
  have "Fs (Abort G op) = (Fs op)\<lparr>fs_Balloc := Balloc (Atxn op1), fs_Ialloc := Ialloc (Atxn op1)\<rparr>"
    using i a op1(3,4) by (simp add: Abort_def put_allocs_def Let_def PostAbort_def releaseInodes_def)
  moreover have "fs_Balloc (Fs op) = Balloc (Atxn op1)" "fs_Ialloc (Fs op) = Ialloc (Atxn op1)"
    using a by (simp_all add: op1(2) Abort_def put_allocs_def Let_def)
  moreover have "before G (p = Shrinks) st (Fs op)" using in_abort [OF op1(1)] op1(2) by simp
  ultimately show ?thesis using o_again by (intro exI [of _ "Fs op"]) simp
next
  case (o_flush_fails op op')
  then show ?thesis using flush_fails [OF assms(2) o_flush_fails(4-6)] by (intro exI [of _ st]) (simp add: b_start)
qed (auto intro: b_start split: if_splits)

end

section \<open>Properties\<close>

text \<open>No lock is left behind. From a server that \<^verbatim>\<open>MakeNfs\<close> made, or any idle one, every sequence of calls and of background
  shrinkers leads to states in which no inode is locked and the inode cache is well formed, whatever the
  arguments of the calls are and whether the calls succeed or not.\<close>

theorem nfs_server_idle:
  assumes G: "gojournal G on used arange held" and start: "MakeNfs G d = Inr n0 \<or> fs_idle held (fsstate n0)"
    and run: "nfs_run G n0 n"
  shows "held (Lockmap (fsstate n)) = {} \<and> icache_ok (fsstate n)"
proof -
  have "fs_idle held (fsstate n0)" using start gojournal.MakeNfs_idle [OF G] by blast
  from gojournal.nfs_run_idle [OF G run this] show ?thesis by (simp add: fs_idle_def)
qed

definition ex_nfs :: "(u64 \<Rightarrow> nat \<Rightarrow> byte, bool list, u64 list, ref_disk) Nfs" where
  "ex_nfs = \<lparr>fsstate = ex_state, shrinkst = MkShrinkerSt, Unstable = True\<rparr>"

definition ex_handle2 :: Nfs_fh3 where
  "ex_handle2 = \<lparr>Nfs_fh3_Data = [2, 0, 0, 0, 0, 0, 0, 0, 0, 0, 0, 0, 0, 0, 0, 0]\<rparr>"

lemma ex_handle2_fh: "MakeFh ref_lib ex_handle2 = Inr \<lparr>Ino = 2, fh_Gen = 0\<rparr>"
  by (simp add: MakeFh_def ex_handle2_def ref_lib_def ref_getint_def)

lemma ex_getattr: "\<exists>n. serve ref_lib 1 (GETATTR \<lparr>GETATTR3args_Object = ex_handle\<rparr>) ex_nfs = Inr (NFS3_OK, n)"
proof -
  obtain op where "GetInodeFh ref_lib ex_handle (FsTxn_Begin ref_lib ex_state) = Inr (Some 0, op)"
    using ex_get by (auto simp: GetInodeFh_def GetInodeInum_def GetInodeInumFree_def ex_handle_fh inode_at_def ex_inode_def)
  moreover have "fst (Commit ref_lib op1)" for op1 :: "(u64 \<Rightarrow> nat \<Rightarrow> byte, _, _, _, _) FsTxn"
    by (simp add: Commit_def commitWait_def Let_def case_prod_beta)
  ultimately show ?thesis
    by (simp add: with_status_def NFSPROC3_GETATTR_def ex_nfs_def commitReply_def case_prod_beta Let_def)
qed

lemma ex_nfs_idle: "fs_idle set (fsstate ex_nfs)"
  by (simp add: ex_nfs_def ex_state_idle)

theorem nfs_server_idle_witness:
  "\<exists>n. serve ref_lib 1 (GETATTR \<lparr>GETATTR3args_Object = ex_handle\<rparr>) ex_nfs = Inr (NFS3_OK, n) \<and> Lockmap (fsstate n) = []"
proof -
  obtain n where n: "serve ref_lib 1 (GETATTR \<lparr>GETATTR3args_Object = ex_handle\<rparr>) ex_nfs = Inr (NFS3_OK, n)"
    using ex_getattr by blast
  have "nfs_run ref_lib ex_nfs n" by (rule r_call [OF r_start n])
  from nfs_server_idle [OF ref_gojournal disjI2 [OF ex_nfs_idle] this] n show ?thesis by simp
qed

text \<open>C2: an error leaves no trace on disk. When a call replies with an error other than \<^verbatim>\<open>NFS3ERR_SERVERFAULT\<close> (a commit failed) and found no
  unfinished truncation, the log and the numbers in use of both allocators are what they were before the call; a \<^verbatim>\<open>COMMIT\<close> that replies
  \<^verbatim>\<open>NFS3ERR_IO\<close> may have flushed the log, and has changed nothing else. Only \<^verbatim>\<open>SETATTR\<close> and \<^verbatim>\<open>WRITE\<close> of a file whose truncation is unfinished, and
  \<^verbatim>\<open>CREATE\<close>, \<^verbatim>\<open>MKDIR\<close> and \<^verbatim>\<open>SYMLINK\<close> that are given a free inode whose truncation is unfinished, leave more behind: the shrinking transactions that
  complete it, and nothing after them. In all cases no lock is held.\<close>

theorem nfs_error_no_effect:
  assumes G: "gojournal G on used arange held" and idle: "fs_idle held (fsstate nfs)"
    and c: "serve G fuel c nfs = Inr (status, nfs')" and e: "status \<noteq> NFS3_OK" "status \<noteq> NFS3ERR_SERVERFAULT"
  shows "held (Lockmap (fsstate nfs')) = {} \<and>
     (\<not> unfinished G c (fsstate nfs) \<longrightarrow>
        (Txn (fsstate nfs') = Txn (fsstate nfs) \<or>
         class_of c = Flushes \<and> status = NFS3ERR_IO \<and> Txn (fsstate nfs') = snd (obj_Flush G (Txn (fsstate nfs)))) \<and>
        used (fs_Balloc (fsstate nfs')) = used (fs_Balloc (fsstate nfs)) \<and>
        used (fs_Ialloc (fsstate nfs')) = used (fs_Ialloc (fsstate nfs))) \<and>
     (unfinished G c (fsstate nfs) \<longrightarrow>
        (\<exists>st1. before G True (fsstate nfs) st1 \<and> Txn (fsstate nfs') = Txn st1 \<and>
           used (fs_Balloc (fsstate nfs')) = used (fs_Balloc st1) \<and> used (fs_Ialloc (fsstate nfs')) = used (fs_Ialloc st1)))"
proof -
  have o: "outcome G (class_of c) (fsstate nfs) status (fsstate nfs')" using retD [OF serve_outcome c] by simp
  have "held (Lockmap (fsstate nfs')) = {}" using gojournal.outcome_idle [OF G o idle] by (simp add: fs_idle_def)
  moreover have "class_of c = Shrinks" if "unfinished G c (fsstate nfs)" using that by (cases c) simp_all
  then have "\<exists>st1. before G True (fsstate nfs) st1 \<and> Txn (fsstate nfs') = Txn st1 \<and>
      used (fs_Balloc (fsstate nfs')) = used (fs_Balloc st1) \<and> used (fs_Ialloc (fsstate nfs')) = used (fs_Ialloc st1)"
    if "unfinished G c (fsstate nfs)" using gojournal.outcome_error [OF G o idle e] that by auto
  moreover have "(Txn (fsstate nfs') = Txn (fsstate nfs) \<or>
      class_of c = Flushes \<and> status = NFS3ERR_IO \<and> Txn (fsstate nfs') = snd (obj_Flush G (Txn (fsstate nfs)))) \<and>
      used (fs_Balloc (fsstate nfs')) = used (fs_Balloc (fsstate nfs)) \<and> used (fs_Ialloc (fsstate nfs')) = used (fs_Ialloc (fsstate nfs))"
    if n: "\<not> unfinished G c (fsstate nfs)"
  proof -
    obtain p where p: "p \<noteq> Shrinks" "p = Flushes \<longrightarrow> class_of c = Flushes" "outcome G p (fsstate nfs) status (fsstate nfs')"
      using o retD [OF serve_plain [OF n] c] by (cases "class_of c = Shrinks") auto
    from gojournal.outcome_error [OF G p(3) idle e] obtain st1 where "before G False (fsstate nfs) st1"
        and x: "Txn (fsstate nfs') = Txn st1 \<or> p = Flushes \<and> status = NFS3ERR_IO \<and> st1 = fsstate nfs \<and>
          Txn (fsstate nfs') = snd (obj_Flush G (Txn (fsstate nfs)))"
          "used (fs_Balloc (fsstate nfs')) = used (fs_Balloc st1)" "used (fs_Ialloc (fsstate nfs')) = used (fs_Ialloc st1)"
      using p(1) by auto
    from gojournal.before_False [OF G this(1) idle] x p(2) show ?thesis by auto
  qed
  ultimately show ?thesis by blast
qed

definition ex_stale :: Nfs_fh3 where
  "ex_stale = \<lparr>Nfs_fh3_Data = [5, 0, 0, 0, 0, 0, 0, 0, 4, 0, 0, 0, 0, 0, 0, 0]\<rparr>"

lemma ex_stale_fh: "MakeFh ref_lib ex_stale = Inr \<lparr>Ino = 5, fh_Gen = 4\<rparr>"
  by (simp add: MakeFh_def ex_stale_def ref_lib_def ref_getint_def)

theorem nfs_error_no_effect_witness:
  "\<exists>n. serve ref_lib 1 (GETATTR \<lparr>GETATTR3args_Object = ex_stale\<rparr>) ex_nfs = Inr (NFS3ERR_STALE, n) \<and>
     Lockmap (fsstate n) = [] \<and> Txn (fsstate n) = Txn ex_state"
proof -
  obtain op where "GetInodeFh ref_lib ex_stale (FsTxn_Begin ref_lib ex_state) = Inr (None, op)"
    using ex_get by (auto simp: GetInodeFh_def GetInodeInum_def GetInodeInumFree_def ex_stale_fh inode_at_def ex_inode_def)
  then obtain n where n: "serve ref_lib 1 (GETATTR \<lparr>GETATTR3args_Object = ex_stale\<rparr>) ex_nfs = Inr (NFS3ERR_STALE, n)"
    by (simp add: with_status_def NFSPROC3_GETATTR_def ex_nfs_def)
  from nfs_error_no_effect [OF ref_gojournal ex_nfs_idle this] n show ?thesis by (auto simp: ex_nfs_def)
qed

text \<open>C3: success means committed. When a call other than \<^verbatim>\<open>COMMIT\<close> and \<^verbatim>\<open>RENAME\<close> replies \<^verbatim>\<open>NFS3_OK\<close>, all it did since its last begin is one
  transaction that the journal has committed, and the state it leaves is the state after that commit.\<close>

theorem nfs_ok_committed:
  assumes c: "serve G fuel c nfs = Inr (NFS3_OK, nfs')" and p: "class_of c = Plain \<or> class_of c = Shrinks"
  shows "\<exists>st1 op w op'. before G (class_of c = Shrinks) (fsstate nfs) st1 \<and> txn_run G (FsTxn_Begin G st1) op \<and>
     commitWait G w op = (True, op') \<and> fsstate nfs' = Fs op'"
proof -
  have "outcome G (class_of c) (fsstate nfs) NFS3_OK (fsstate nfs')" using retD [OF serve_outcome c] by simp
  then show ?thesis
  proof (cases rule: outcome.cases)
    case (o_commit op w ok op')
    then show ?thesis by (auto simp: in_txn_def split: if_splits)
  qed (use p in auto)
qed

theorem nfs_ok_committed_witness:
  "\<exists>n st1 op w op'. serve ref_lib 1 (GETATTR \<lparr>GETATTR3args_Object = ex_handle\<rparr>) ex_nfs = Inr (NFS3_OK, n) \<and>
     txn_run ref_lib (FsTxn_Begin ref_lib st1) op \<and> commitWait ref_lib w op = (True, op') \<and> fsstate n = Fs op'"
proof -
  obtain n where n: "serve ref_lib 1 (GETATTR \<lparr>GETATTR3args_Object = ex_handle\<rparr>) ex_nfs = Inr (NFS3_OK, n)"
    using ex_getattr by blast
  from nfs_ok_committed [OF this] n show ?thesis by auto
qed

text \<open>C31: removing \<^verbatim>\<open>.\<close> or \<^verbatim>\<open>..\<close> crashes the server. \<^verbatim>\<open>doRemove\<close> returns a nil transaction for these names, and \<^verbatim>\<open>errRet\<close> calls
  \<^verbatim>\<open>Abort\<close> on it, for \<^verbatim>\<open>REMOVE\<close> and for \<^verbatim>\<open>RMDIR\<close>, whatever the directory is; every other name is looked up.\<close>

theorem remove_dot_panics:
  assumes "n = [46] \<or> n = [46, 46]"
  shows "NFSPROC3_REMOVE G fuel \<lparr>REMOVE3args_Object = \<lparr>Diropargs3_Dir = d, Diropargs3_Name = n\<rparr>\<rparr> nfs =
       Inl (Panic ''nil pointer dereference'') \<and>
     NFSPROC3_RMDIR G fuel \<lparr>RMDIR3args_Object = \<lparr>Diropargs3_Dir = d, Diropargs3_Name = n\<rparr>\<rparr> nfs =
       Inl (Panic ''nil pointer dereference'')"
  using assms by (auto simp: NFSPROC3_REMOVE_def NFSPROC3_RMDIR_def doRemove_def IllegalName_def)

theorem remove_dot_panics_witness:
  "NFSPROC3_REMOVE ref_lib 1 \<lparr>REMOVE3args_Object = \<lparr>Diropargs3_Dir = ex_handle, Diropargs3_Name = [46]\<rparr>\<rparr> ex_nfs =
     Inl (Panic ''nil pointer dereference'')"
  using remove_dot_panics [of "[46]" ref_lib 1 ex_handle ex_nfs] by blast

end
