(* ===== verification/ShrinkSpec.thy ===== *)
theory ShrinkSpec
  imports FsTxnSpec Shrinker FileOps
begin

text \<open>
  Shrinking a file (\<^verbatim>\<open>inode/shrink.go\<close> and \<^verbatim>\<open>shrinker/shrinker.go\<close>). \<^const>\<open>indshrink\<close> cuts the last block off an index
  tree and the index blocks that are then empty with it, \<^const>\<open>Shrink\<close> cuts off blocks while the transaction has room, and
  \<^const>\<open>DoShrink\<close> runs transactions until the file is as short as its size. \<open>trimmed\<close> says that a tree has no block,
  index blocks included, at or after a position; this is what the code assumes of the blocks after the
  one it frees, and with it every block that is cut off is freed.
\<close>

section \<open>Cutting a tree\<close>

fun trimmed :: "('log, 'op, 'alc, 'lm, 'd) golib \<Rightarrow> 'op \<Rightarrow> nat \<Rightarrow> u64 \<Rightarrow> nat \<Rightarrow> bool" where
  "trimmed G op 0 root n \<longleftrightarrow> (n = 0 \<longrightarrow> root = 0)"
| "trimmed G op (Suc l) root n \<longleftrightarrow>
     root = 0 \<or> (0 < n \<and> (\<forall>k < 512. trimmed G op l (ent G op root k) (n - k * 512 ^ l)))"

lemma trimmed_null [simp]: "trimmed G op l 0 n"
  by (cases l) simp_all

lemma trimmed_0 [simp]: "trimmed G op l root 0 \<longleftrightarrow> root = 0"
  by (cases l) simp_all

lemma trimmed_large: "512 ^ l \<le> n \<Longrightarrow> trimmed G op l root n"
proof (induction l arbitrary: root n)
  case (Suc l)
  have "512 ^ l \<le> n - k * 512 ^ l" if "k < 512" for k
  proof -
    have "512 ^ l + k * 512 ^ l = Suc k * 512 ^ l" by simp
    also have "\<dots> \<le> 512 * 512 ^ l" using that by (intro mult_le_mono1) simp
    finally show ?thesis using Suc.prems by (simp only: power_Suc)
  qed
  moreover have "0 < n" using Suc.prems by (cases n) simp_all
  ultimately show ?case using Suc.IH by simp
qed simp

lemma trimmed_frame:
  "(\<And>b. b \<in> index_blocks G op l root \<Longrightarrow> blk G op' b = blk G op b) \<Longrightarrow> trimmed G op' l root n = trimmed G op l root n"
proof (induction l arbitrary: root n)
  case (Suc l)
  show ?case
  proof (cases "root = 0")
    case False
    have e: "ent G op' root = ent G op root" using Suc.prems False by (simp add: ent_def fun_eq_iff)
    have "trimmed G op' l (ent G op root k) m = trimmed G op l (ent G op root k) m" if "k < 512" for k m
      using Suc.prems False that by (intro Suc.IH) auto
    then show ?thesis using False e by simp
  qed simp
qed simp

text \<open>
  What cutting position \<open>bn\<close> off a tree does: the positions before it are as they were, it and the blocks of \<open>F\<close> are
  gone, and nothing outside the tree changes.
\<close>

definition tree_cut ::
    "('log, 'op, 'alc, 'lm, 'd) golib \<Rightarrow> nat \<Rightarrow> nat \<Rightarrow> 'op \<Rightarrow> u64 \<Rightarrow> 'op \<Rightarrow> u64 \<Rightarrow> u64 set \<Rightarrow> bool" where
  "tree_cut G l bn op root op' root' F \<longleftrightarrow>
     tree_ok G op' l root' \<and> F \<subseteq> tree_blocks G op l root \<and>
     tree_blocks G op' l root' \<subseteq> tree_blocks G op l root - F \<and>
     (\<forall>x. x \<notin> tree_blocks G op l root \<longrightarrow> blk G op' x = blk G op x) \<and>
     (\<forall>x \<in> tree_blocks G op' l root' - index_blocks G op' l root'. blk G op' x = blk G op x) \<and>
     (\<forall>o' < 512 ^ l. (o' < bn \<longrightarrow> walk G op' l root' o' = walk G op l root o') \<and> (o' = bn \<longrightarrow> walk G op' l root' o' = 0) \<and>
        walk G op' l root' o' \<in> {0, walk G op l root o'}) \<and>
     (trimmed G op l root (Suc bn) \<longrightarrow>
        trimmed G op' l root' bn \<and> tree_blocks G op l root \<subseteq> tree_blocks G op' l root' \<union> F)"

lemma tree_cut_null: "tree_cut G l bn op 0 op 0 {}"
  by (simp add: tree_cut_def)

lemma tree_cut_leaf: "root \<noteq> 0 \<Longrightarrow> tree_cut G 0 0 op root op 0 {root}"
  by (simp add: tree_cut_def)

text \<open>The children of a node after one of them was cut.\<close>

lemma tree_cut_child:
  assumes ok: "tree_ok G op (Suc l) root" "root \<noteq> 0" and o: "o' < 512" and k: "k < 512"
    and c: "tree_cut G l i op (ent G op root o') op1 c' F"
    and s: "\<And>x. x \<noteq> root \<Longrightarrow> x \<notin> F \<Longrightarrow> blk G op2 x = blk G op1 x"
  defines "r \<equiv> (if k = o' then c' else ent G op root k)" and "opk \<equiv> (if k = o' then op1 else op)"
  shows "\<And>b. b \<in> index_blocks G opk l r \<Longrightarrow> blk G op2 b = blk G opk b"
    and "tree_blocks G opk l r \<subseteq> tree_blocks G op l (ent G op root k)"
    and "\<And>b. b \<in> tree_blocks G opk l r \<Longrightarrow> b \<notin> F \<and> b \<noteq> root"
    and "\<And>b. b \<in> tree_blocks G opk l r - index_blocks G opk l r \<Longrightarrow> blk G op2 b = blk G op b"
    and "tree_ok G opk l r"
proof -
  note C = c [unfolded tree_cut_def]
  show sub: "tree_blocks G opk l r \<subseteq> tree_blocks G op l (ent G op root k)" using C by (auto simp: r_def opk_def)
  show tk: "tree_ok G opk l r" using C tree_ok_child(1) [OF ok k] by (simp add: r_def opk_def)
  have disj: "b \<notin> tree_blocks G op l (ent G op root o')" if "k \<noteq> o'" "b \<in> tree_blocks G op l (ent G op root k)" for b
    using tree_ok_disjoint [OF ok k o that(1)] that(2) by blast
  show nF: "b \<notin> F \<and> b \<noteq> root" if "b \<in> tree_blocks G opk l r" for b
  proof
    show "b \<noteq> root" using that sub tree_ok_child(2) [OF ok k] by blast
    show "b \<notin> F" using that disj [of b] C by (cases "k = o'") (auto simp: r_def opk_def)
  qed
  have blk2: "blk G op2 b = blk G opk b" if "b \<in> tree_blocks G opk l r" for b
    using that nF [OF that] s [of b] disj [of b] C by (cases "k = o'") (auto simp: r_def opk_def)
  show "blk G op2 b = blk G opk b" if "b \<in> index_blocks G opk l r" for b
    using blk2 that index_in_tree [of G opk l r] by blast
  show "blk G op2 b = blk G op b" if "b \<in> tree_blocks G opk l r - index_blocks G opk l r" for b
    using that blk2 [of b] C by (cases "k = o'") (auto simp: r_def opk_def)
qed

lemma div_pos_cases:
  fixes bn k l :: nat
  defines "o' \<equiv> bn div 512 ^ l" and "i \<equiv> bn mod 512 ^ l"
  shows "Suc bn - o' * 512 ^ l = Suc i" and "o' < k \<Longrightarrow> Suc bn - k * 512 ^ l = 0"
    and "k < o' \<Longrightarrow> 512 ^ l \<le> bn - k * 512 ^ l" and "bn - o' * 512 ^ l = i"
proof -
  have e: "bn = o' * 512 ^ l + i" unfolding o'_def i_def by (rule div_mult_mod_eq [symmetric])
  have i: "i < 512 ^ l" by (simp add: i_def)
  show "Suc bn - o' * 512 ^ l = Suc i" "bn - o' * 512 ^ l = i" using e by simp_all
  have m: "Suc a * 512 ^ l \<le> b * 512 ^ l" if "a < b" for a b :: nat using that by (intro mult_le_mono1) simp
  show "Suc bn - k * 512 ^ l = 0" if "o' < k" using m [OF that] e i by simp
  show "512 ^ l \<le> bn - k * 512 ^ l" if "k < o'" using m [OF that] e by simp
qed

lemma tree_cut_node:
  assumes ok: "tree_ok G op (Suc l) root" "root \<noteq> 0" and bn: "bn < 512 ^ Suc l"
    and c: "tree_cut G l (bn mod 512 ^ l) op (ent G op root (bn div 512 ^ l)) op1 c' F"
    and e: "\<And>k. k < 512 \<Longrightarrow> ent G op2 root k = (if k = bn div 512 ^ l then c' else ent G op root k)"
    and s: "\<And>x. x \<noteq> root \<Longrightarrow> x \<notin> F \<Longrightarrow> blk G op2 x = blk G op1 x"
  shows "tree_cut G (Suc l) bn op root op2 (if bn = 0 then 0 else root) (if bn = 0 then insert root F else F)"
proof -
  let ?o = "bn div 512 ^ l" and ?i = "bn mod 512 ^ l"
  let ?r = "\<lambda>k. if k = ?o then c' else ent G op root k" and ?opk = "\<lambda>k. if k = ?o then op1 else op"
  note C = c [unfolded tree_cut_def]
  have o: "?o < 512" by (rule div_lt_512 [OF bn])
  note child = tree_cut_child [OF ok o _ c, of _ op2]
  have ch: "blk G op2 b = blk G (?opk k) b" if "k < 512" "b \<in> index_blocks G (?opk k) l (?r k)" for k b
    using that s by (intro child(1)) auto
  have ch2: "tree_blocks G (?opk k) l (?r k) \<subseteq> tree_blocks G op l (ent G op root k) - F" "tree_ok G (?opk k) l (?r k)"
    if "k < 512" for k
    using child(2,5) [OF that s] child(3) [OF that s] by blast+
  have ch4: "blk G op2 b = blk G op b" if "k < 512" "b \<in> tree_blocks G (?opk k) l (?r k) - index_blocks G (?opk k) l (?r k)" for k b
    using that s by (intro child(4)) auto
  have Fsub: "F \<subseteq> tree_blocks G op (Suc l) root" "root \<notin> F"
    using C o ok tree_ok_child(2) [OF ok o] by auto
  have out: "blk G op2 x = blk G op x" if "x \<notin> tree_blocks G op (Suc l) root" for x
    using that s [of x] C o ok(2) by auto
  have tr: "trimmed G op l (ent G op root ?o) (Suc ?i)" "\<And>k. k < 512 \<Longrightarrow> ?o < k \<Longrightarrow> ent G op root k = 0"
    if t: "trimmed G op (Suc l) root (Suc bn)"
  proof -
    have t': "trimmed G op l (ent G op root k) (Suc bn - k * 512 ^ l)" if "k < 512" for k using t ok(2) that by simp
    show "trimmed G op l (ent G op root ?o) (Suc ?i)" using t' [OF o] by (simp add: div_pos_cases)
    show "ent G op root k = 0" if "k < 512" "?o < k" for k using t' [OF that(1)] div_pos_cases(2) [OF that(2)] by simp
  qed
  show ?thesis
  proof (cases "bn = 0")
    case True
    have "tree_blocks G op (Suc l) root \<subseteq> insert root F" if "trimmed G op (Suc l) root (Suc bn)"
    proof -
      have "c' = 0" using C tr(1) [OF that] True by simp
      then have "tree_blocks G op l (ent G op root 0) \<subseteq> F" using C tr(1) [OF that] True by simp
      moreover have "tree_blocks G op l (ent G op root k) = {}" if "k < 512" "k \<noteq> 0" for k
        using tr(2) [OF \<open>trimmed G op (Suc l) root (Suc bn)\<close>] that True by simp
      ultimately have "tree_blocks G op l (ent G op root k) \<subseteq> F" if "k < 512" for k using that by (cases "k = 0") auto
      then show ?thesis using ok(2) by (simp, blast)
    qed
    then show ?thesis using True Fsub ok(2) out unfolding tree_cut_def by auto
  next
    case False
    have T: "tree_blocks G op2 l (ent G op2 root k) = tree_blocks G (?opk k) l (?r k)"
      "index_blocks G op2 l (ent G op2 root k) = index_blocks G (?opk k) l (?r k)"
      "tree_ok G op2 l (ent G op2 root k) = tree_ok G (?opk k) l (?r k)" if "k < 512" for k
      using tree_frame(1-3) [OF ch [OF that]] e [OF that] by simp_all
    have W: "walk G op2 l (ent G op2 root k) x = walk G (?opk k) l (?r k) x" if "k < 512" "x < 512 ^ l" for k x
      using tree_frame(4) [OF ch [OF that(1)] that(2)] e [OF that(1)] by simp
    have sub: "tree_blocks G op2 l (ent G op2 root k) \<subseteq> tree_blocks G op l (ent G op root k) - F" if "k < 512" for k
      using T(1) [OF that] ch2(1) [OF that] by simp
    have 1: "tree_ok G op2 (Suc l) root"
      using ok(2) T(3) ch2(2) sub tree_ok_child(2) [OF ok] tree_ok_disjoint [OF ok] by (simp, blast)
    have 2: "tree_blocks G op2 (Suc l) root \<subseteq> tree_blocks G op (Suc l) root - F" using ok(2) sub Fsub(2) by (simp, blast)
    have 3: "blk G op2 x = blk G op x" if x: "x \<in> tree_blocks G op2 (Suc l) root - index_blocks G op2 (Suc l) root" for x
    proof -
      obtain k where k: "k < 512" "x \<in> tree_blocks G op2 l (ent G op2 root k) - index_blocks G op2 l (ent G op2 root k)"
        using x ok(2) by auto
      show ?thesis by (rule ch4 [OF k(1)]) (use k(2) T [OF k(1)] in simp)
    qed
    have 4: "(x < bn \<longrightarrow> walk G op2 (Suc l) root x = walk G op (Suc l) root x) \<and> (x = bn \<longrightarrow> walk G op2 (Suc l) root x = 0) \<and>
        walk G op2 (Suc l) root x \<in> {0, walk G op (Suc l) root x}" if x: "x < 512 ^ Suc l" for x
    proof -
      have kx: "x div 512 ^ l < 512" "x mod 512 ^ l < 512 ^ l" by (rule div_lt_512 [OF x]) simp
      show ?thesis
      proof (cases "x div 512 ^ l = ?o")
        case True
        then have "x < bn \<longleftrightarrow> x mod 512 ^ l < ?i" "x = bn \<longleftrightarrow> x mod 512 ^ l = ?i"
          by (metis add_less_cancel_left div_mult_mod_eq, metis div_mult_mod_eq)
        moreover have "(y < ?i \<longrightarrow> walk G op1 l c' y = walk G op l (ent G op root ?o) y) \<and> (y = ?i \<longrightarrow> walk G op1 l c' y = 0) \<and>
            walk G op1 l c' y \<in> {0, walk G op l (ent G op root ?o) y}" if "y < 512 ^ l" for y
          using C that by blast
        from this [OF kx(2)] have "walk G op2 (Suc l) root x = walk G op1 l c' (x mod 512 ^ l)"
            "walk G op (Suc l) root x = walk G op l (ent G op root ?o) (x mod 512 ^ l)"
            "(x mod 512 ^ l < ?i \<longrightarrow> walk G op1 l c' (x mod 512 ^ l) = walk G op l (ent G op root ?o) (x mod 512 ^ l))"
            "x mod 512 ^ l = ?i \<longrightarrow> walk G op1 l c' (x mod 512 ^ l) = 0"
            "walk G op1 l c' (x mod 512 ^ l) \<in> {0, walk G op l (ent G op root ?o) (x mod 512 ^ l)}"
          using W [OF kx] True ok(2) by simp_all
        ultimately show ?thesis by simp
      next
        case False
        then show ?thesis using W [OF kx] ok(2) by auto
      qed
    qed
    have 5: "trimmed G op2 (Suc l) root bn \<and> tree_blocks G op (Suc l) root \<subseteq> tree_blocks G op2 (Suc l) root \<union> F"
      if t: "trimmed G op (Suc l) root (Suc bn)"
    proof
      have "trimmed G op2 l (ent G op2 root k) (bn - k * 512 ^ l)" if k: "k < 512" for k
      proof -
        have fr: "trimmed G op2 l (?r k) n = trimmed G (?opk k) l (?r k) n" for n by (rule trimmed_frame) (rule ch [OF k])
        consider "k = ?o" | "?o < k" | "k < ?o" by linarith
        then show ?thesis
        proof cases
          case 1
          then show ?thesis using fr [of ?i] C tr(1) [OF t] e [OF k] div_pos_cases(4) [of bn l] by simp
        next
          case 2
          then show ?thesis using tr(2) [OF t k] e [OF k] by simp
        qed (simp add: trimmed_large div_pos_cases(3))
      qed
      then show "trimmed G op2 (Suc l) root bn" using False by simp
      have "tree_blocks G op l (ent G op root k) \<subseteq> tree_blocks G op2 l (ent G op2 root k) \<union> F" if "k < 512" for k
        using T(1) [OF that] C tr(1) [OF t] by (cases "k = ?o") auto
      then show "tree_blocks G op (Suc l) root \<subseteq> tree_blocks G op2 (Suc l) root \<union> F" using ok(2) by (simp, blast)
    qed
    show ?thesis using False 1 2 3 4 5 Fsub out unfolding tree_cut_def by (simp only: if_False) blast
  qed
qed

definition cut_spec ::
    "('log, 'op, 'alc, 'lm, 'd) golib \<Rightarrow> nat \<Rightarrow> u64 \<Rightarrow> u64 \<Rightarrow> ('d, 'op, 'alc) AllocTxn \<Rightarrow> u64 \<Rightarrow> u64 list \<Rightarrow>
     ('d, 'op, 'alc) AllocTxn \<Rightarrow> bool" where
  "cut_spec G l root bn atxn fr F atxn' \<longleftrightarrow>
     indshrink G root l bn atxn = Inr (fr, atxn') \<and> atxn' = atxn\<lparr>Op := Op atxn', freeBnums := freeBnums atxn @ F\<rparr> \<and>
     fr = (if bn = 0 then root else 0) \<and> (\<forall>x \<in> set F. blk G (Op atxn') x = replicate 4096 0) \<and>
     distinct F \<and> (bn = 0 \<longrightarrow> root = 0 \<or> root \<notin> set F) \<and>
     tree_cut G l (unat bn) (Op atxn) root (Op atxn') (if bn = 0 then 0 else root)
       (if bn = 0 \<and> root \<noteq> 0 then insert root (set F) else set F)"

context gojournal
begin

lemma FreeBlock_valid:
  assumes v: "valid_bnum atxn b" and nz: "b \<noteq> 0"
  obtains op' where "FreeBlock G b atxn = Inr (atxn\<lparr>Op := op', freeBnums := freeBnums atxn @ [b]\<rparr>)"
    and "\<And>x. blk G op' x = (if x = b then replicate 4096 0 else blk G (Op atxn) x)"
proof -
  let ?a = "StoreBlock G b (replicate 4096 0) atxn"
  have "FreeBlock G b atxn = Inr (?a\<lparr>freeBnums := freeBnums ?a @ [b]\<rparr>)"
    using v nz by (simp add: FreeBlock_def ZeroBlock_def ReadBlock_valid)
  then show thesis using that [of "Op ?a"] blk_StoreBlock [of "replicate 4096 0" b atxn] by (simp add: StoreBlock_def)
qed

lemma indshrink_node:
  assumes l: "l \<le> 2" and root: "root \<noteq> 0" and ok: "tree_ok G (Op atxn) (Suc l) root"
    and v: "\<And>x. x \<in> tree_blocks G (Op atxn) (Suc l) root \<Longrightarrow> valid_bnum atxn x"
    and bn: "unat bn < 512 ^ Suc l"
    and child: "cut_spec G l (ent G (Op atxn) root (unat bn div 512 ^ l)) (bn mod pow G l) atxn fr F atxn1"
  shows "\<exists>F' atxn'. cut_spec G (Suc l) root bn atxn (if bn = 0 then root else 0) F' atxn'"
proof -
  let ?o = "unat bn div 512 ^ l" and ?i = "unat bn mod 512 ^ l"
  let ?c = "ent G (Op atxn) root ?o"
  have k: "?o < 512" by (rule div_lt_512 [OF bn])
  have offk: "bn div pow G l * 8 = of_nat ?o * 8" using unat_div_pow(1) [OF l, of bn] by (auto dest: sym)
  have um: "unat (bn mod pow G l) = ?i" by (rule unat_div_pow(2) [OF l])
  then have i0: "bn mod pow G l = 0 \<longleftrightarrow> ?i = 0" by (metis unat_eq_zero)
  have o0: "bn div pow G l = 0 \<longleftrightarrow> ?o = 0" using unat_div_pow(1) [OF l, of bn] by (metis unat_eq_zero)
  have b0: "bn = 0 \<longleftrightarrow> ?o = 0 \<and> ?i = 0"
    using div_mult_mod_eq [of "unat bn" "512 ^ l"] by (auto simp: unat_eq_0)
  have rb: "ReadBlock G root atxn = Inr (blk G (Op atxn) root)" using v [of root] root by (simp add: ReadBlock_valid)
  have sub: "tree_blocks G (Op atxn) l ?c \<subseteq> tree_blocks G (Op atxn) (Suc l) root" using root k by auto
  have av: "AssertValidBlock ?c atxn = Inr ()"
    using v [of ?c] sub root_in_tree [of ?c G "Op atxn" l] by (cases "?c = 0") auto
  let ?fr = "if ?i = 0 then ?c else 0" and ?c' = "if ?i = 0 then 0 else ?c"
  have c1: "indshrink G ?c l (bn mod pow G l) atxn = Inr (?fr, atxn1)"
    and a1: "atxn1 = atxn\<lparr>Op := Op atxn1, freeBnums := freeBnums atxn @ F\<rparr>"
    and cut: "tree_cut G l ?i (Op atxn) ?c (Op atxn1) ?c' (if ?i = 0 \<and> ?c \<noteq> 0 then insert ?c (set F) else set F)"
    and z1: "\<And>x. x \<in> set F \<Longrightarrow> blk G (Op atxn1) x = replicate 4096 0"
    and dF: "distinct F" "?i = 0 \<Longrightarrow> ?c \<noteq> 0 \<Longrightarrow> ?c \<notin> set F"
    using child um i0 by (auto simp: cut_spec_def)
  have rn: "root \<notin> tree_blocks G (Op atxn) l ?c" by (rule tree_ok_child(2) [OF ok root k])
  then have rF: "root \<notin> set F" using cut by (auto simp: tree_cut_def split: if_splits)
  from rn have br: "blk G (Op atxn1) root = blk G (Op atxn) root" using cut by (auto simp: tree_cut_def)
  have e1: "ent G (Op atxn1) root j = ent G (Op atxn) root j" for j using br by (simp add: ent_def)
  have ret: "bn div pow G l = 0 \<and> bn mod pow G l = 0 \<longleftrightarrow> bn = 0" using o0 i0 b0 by simp
  show ?thesis
  proof (cases "?fr = 0")
    case True
    then have c0: "\<not> (?i = 0 \<and> ?c \<noteq> 0)" and cc: "?c' = ?c" by (auto split: if_splits)
    define a2 where "a2 = (if ?c \<noteq> 0 then atxn1 else atxn)"
    have run: "indshrink G root (Suc l) bn atxn = Inr (if bn = 0 then root else 0, a2)"
      using root rb c1 av k ent_get [OF k, of "Op atxn" root] pow_nz [OF l] True unfolding a2_def
      by (simp add: Let_def offk ret del: indshrink.simps(1) mod_0_imp_dvd)
    show ?thesis
    proof (cases "?c = 0")
      case cz: True
      have "tree_cut G (Suc l) (unat bn) (Op atxn) root (Op atxn) (if unat bn = 0 then 0 else root) (if unat bn = 0 then insert root {} else {})"
        by (rule tree_cut_node [OF ok root bn, where c' = 0 and ?op1.0 = "Op atxn"]) (use cz in \<open>auto simp: tree_cut_null\<close>)
      then have "cut_spec G (Suc l) root bn atxn (if bn = 0 then root else 0) [] atxn"
        using run cz root by (auto simp: cut_spec_def a2_def unat_eq_0 simp del: indshrink.simps tree_blocks.simps)
      then show ?thesis by blast
    next
      case False
      have "tree_cut G (Suc l) (unat bn) (Op atxn) root (Op atxn1) (if unat bn = 0 then 0 else root) (if unat bn = 0 then insert root (set F) else set F)"
        by (rule tree_cut_node [OF ok root bn, where c' = ?c and ?op1.0 = "Op atxn1"]) (use cut c0 cc e1 in auto)
      then have "cut_spec G (Suc l) root bn atxn (if bn = 0 then root else 0) F atxn1"
        using run False root a1 z1 dF rF by (auto simp: cut_spec_def a2_def unat_eq_0 simp del: indshrink.simps tree_blocks.simps)
      then show ?thesis by blast
    qed
  next
    case False
    then have c0: "?i = 0" "?c \<noteq> 0" by (auto split: if_splits)
    obtain d where d: "BnumPut G (blk G (Op atxn1) root) (of_nat ?o * 8) 0 = Inr d" "length d = 4096"
      and e2: "\<And>op'. blk G op' root = d \<Longrightarrow> (\<forall>j < 512. ent G op' root j = (if j = ?o then 0 else ent G (Op atxn1) root j))"
      by (rule ent_put [OF k, of "Op atxn1" root 0]) blast
    let ?a = "StoreBlock G root d atxn1"
    have cin: "?c \<in> tree_blocks G (Op atxn) l ?c" by (rule root_in_tree [OF c0(2)])
    have "at_Super ?a = at_Super atxn" using arg_cong [OF a1, of at_Super] by simp
    then have vc: "valid_bnum ?a ?c" using v [OF subsetD [OF sub cin]] valid_bnum_cong [of ?a atxn ?c] by simp
    obtain op' where fb: "FreeBlock G ?c ?a = Inr (?a\<lparr>Op := op', freeBnums := freeBnums ?a @ [?c]\<rparr>)"
      and bl: "\<And>x. blk G op' x = (if x = ?c then replicate 4096 0 else blk G (Op ?a) x)"
      by (rule FreeBlock_valid [OF vc c0(2)]) blast
    let ?a2 = "?a\<lparr>Op := op', freeBnums := freeBnums ?a @ [?c]\<rparr>"
    have run: "indshrink G root (Suc l) bn atxn = Inr (if bn = 0 then root else 0, ?a2)"
      using root rb c1 av k ent_get [OF k, of "Op atxn" root] pow_nz [OF l] c0 d fb
      by (simp add: Let_def offk ret del: indshrink.simps(1))
    have rc: "root \<noteq> ?c" using rn cin by metis
    have "tree_cut G (Suc l) (unat bn) (Op atxn) root op' (if unat bn = 0 then 0 else root)
        (if unat bn = 0 then insert root (insert ?c (set F)) else insert ?c (set F))"
      by (rule tree_cut_node [OF ok root bn, where c' = 0 and ?op1.0 = "Op atxn1"])
         (use cut c0 e1 e2 [of op'] bl rc d(2) in \<open>auto simp: blk_StoreBlock\<close>)
    moreover have "?a2 = atxn\<lparr>Op := Op ?a2, freeBnums := freeBnums atxn @ (F @ [?c])\<rparr>"
    proof -
      obtain q where "atxn1 = atxn\<lparr>Op := q, freeBnums := freeBnums atxn @ F\<rparr>" using a1 by blast
      then show ?thesis by (simp add: StoreBlock_def)
    qed
    moreover have "blk G op' x = replicate 4096 0" if "x \<in> set (F @ [?c])" for x
    proof -
      have "x \<noteq> root" using that cut rn rc c0 by (auto simp: tree_cut_def)
      then show ?thesis using that bl z1 [of x] d(2) by (auto simp: blk_StoreBlock)
    qed
    ultimately have "cut_spec G (Suc l) root bn atxn (if bn = 0 then root else 0) (F @ [?c]) ?a2"
      using run root dF c0 rF rc by (auto simp: cut_spec_def unat_eq_0 simp del: indshrink.simps tree_blocks.simps)
    then show ?thesis by blast
  qed
qed

lemma indshrink_ok:
  assumes "l \<le> 3" and "tree_ok G (Op atxn) l root"
    and "\<And>x. x \<in> tree_blocks G (Op atxn) l root \<Longrightarrow> valid_bnum atxn x" and "unat bn < 512 ^ l"
  shows "\<exists>F atxn'. cut_spec G l root bn atxn (if bn = 0 then root else 0) F atxn'"
  using assms
proof (induction l arbitrary: root bn)
  case 0
  then have "bn = 0" by (simp add: unat_eq_0)
  then show ?case using tree_cut_leaf [of root G "Op atxn"] tree_cut_null [of G 0 0 "Op atxn"]
    by (intro exI [of _ "[]"] exI [of _ atxn]) (auto simp: cut_spec_def)
next
  case (Suc l)
  show ?case
  proof (cases "root = 0")
    case True
    then show ?thesis using tree_cut_null [of G "Suc l" "unat bn" "Op atxn"]
      by (intro exI [of _ "[]"] exI [of _ atxn]) (auto simp: cut_spec_def)
  next
    case False
    let ?k = "unat bn div 512 ^ l"
    have l: "l \<le> 2" using Suc.prems(1) by simp
    have k: "?k < 512" by (rule div_lt_512 [OF Suc.prems(4)])
    have sub: "tree_blocks G (Op atxn) l (ent G (Op atxn) root ?k) \<subseteq> tree_blocks G (Op atxn) (Suc l) root" using False k by auto
    have "unat (bn mod pow G l) < 512 ^ l" using unat_div_pow(2) [OF l, of bn] by simp
    then obtain F a1 where "cut_spec G l (ent G (Op atxn) root ?k) (bn mod pow G l) atxn
        (if bn mod pow G l = 0 then ent G (Op atxn) root ?k else 0) F a1"
      using Suc.IH [of "ent G (Op atxn) root ?k" "bn mod pow G l"] l tree_ok_child(1) [OF Suc.prems(2) False k]
        Suc.prems(3) [OF subsetD [OF sub]] by auto
    from indshrink_node [OF l False Suc.prems(2,3,4) this] show ?thesis .
  qed
qed

end

section \<open>Cutting a file\<close>

definition slot_base :: "nat \<Rightarrow> nat" where
  "slot_base i = (if i < 9 then i else 520)"

definition ino_trimmed :: "('log, 'op, 'alc, 'lm, 'd) golib \<Rightarrow> 'op \<Rightarrow> u64 list \<Rightarrow> nat \<Rightarrow> bool" where
  "ino_trimmed G op bs n \<longleftrightarrow> (\<forall>i < 10. trimmed G op (lev i) (bs ! i) (n - slot_base i))"

lemma soff_base: "soff bn = bn - slot_base (slot bn)" "slot_base (slot bn) \<le> bn"
  by (auto simp: soff_def slot_def slot_base_def)

lemma slot_before: "j < slot bn \<Longrightarrow> 512 ^ lev j \<le> bn - slot_base j"
proof -
  assume j: "j < slot bn"
  show ?thesis
  proof (cases "j = 8")
    case False
    then show ?thesis using j by (auto simp: slot_def slot_base_def lev_def split: if_splits)
  qed (use j in \<open>auto simp: slot_def slot_base_def lev_def split: if_splits\<close>)
qed

lemma slot_after: "slot bn < j \<Longrightarrow> j < 10 \<Longrightarrow> bn < MAXBLKS \<Longrightarrow> Suc bn - slot_base j = 0"
  by (auto simp: slot_def slot_base_def split: if_splits)

text \<open>The effect of cutting the blocks \<open>m .. n\<close> off a file.\<close>

definition file_cut ::
    "('log, 'op, 'alc, 'lm, 'd) golib \<Rightarrow> nat \<Rightarrow> nat \<Rightarrow> 'op \<Rightarrow> u64 list \<Rightarrow> 'op \<Rightarrow> u64 list \<Rightarrow> u64 set \<Rightarrow> bool" where
  "file_cut G m n op bs op' bs' F \<longleftrightarrow>
     ino_ok G op' bs' \<and> F \<subseteq> ino_blocks G op bs \<and> ino_blocks G op' bs' \<subseteq> ino_blocks G op bs - F \<and>
     (\<forall>x. x \<notin> ino_blocks G op bs \<longrightarrow> blk G op' x = blk G op x) \<and>
     (\<forall>i < MAXBLKS. (i < m \<longrightarrow> fwalk G op' bs' i = fwalk G op bs i) \<and> (m \<le> i \<and> i < n \<longrightarrow> fwalk G op' bs' i = 0) \<and>
        fwalk G op' bs' i \<in> {0, fwalk G op bs i} \<and>
        (fwalk G op' bs' i \<noteq> 0 \<longrightarrow> blk G op' (fwalk G op' bs' i) = blk G op (fwalk G op' bs' i))) \<and>
     (ino_trimmed G op bs n \<longrightarrow> ino_trimmed G op' bs' m \<and> ino_blocks G op bs \<subseteq> ino_blocks G op' bs' \<union> F)"

lemma file_cut_refl: "ino_ok G op bs \<Longrightarrow> file_cut G n n op bs op bs {}"
  by (auto simp: file_cut_def)

lemma file_cut_trans:
  assumes 1: "file_cut G m n op bs op1 bs1 F1" and 2: "file_cut G k m op1 bs1 op2 bs2 F2" and "k \<le> m"
  shows "file_cut G k n op bs op2 bs2 (F1 \<union> F2)"
proof -
  have w: "(i < k \<longrightarrow> fwalk G op2 bs2 i = fwalk G op bs i) \<and> (k \<le> i \<and> i < n \<longrightarrow> fwalk G op2 bs2 i = 0) \<and>
      fwalk G op2 bs2 i \<in> {0, fwalk G op bs i} \<and>
      (fwalk G op2 bs2 i \<noteq> 0 \<longrightarrow> blk G op2 (fwalk G op2 bs2 i) = blk G op (fwalk G op2 bs2 i))" if "i < MAXBLKS" for i
  proof -
    have a: "(i < m \<longrightarrow> fwalk G op1 bs1 i = fwalk G op bs i) \<and> (m \<le> i \<and> i < n \<longrightarrow> fwalk G op1 bs1 i = 0) \<and>
      fwalk G op1 bs1 i \<in> {0, fwalk G op bs i} \<and>
      (fwalk G op1 bs1 i \<noteq> 0 \<longrightarrow> blk G op1 (fwalk G op1 bs1 i) = blk G op (fwalk G op1 bs1 i))"
      using 1 that by (simp add: file_cut_def)
    have b: "(i < k \<longrightarrow> fwalk G op2 bs2 i = fwalk G op1 bs1 i) \<and> (k \<le> i \<and> i < m \<longrightarrow> fwalk G op2 bs2 i = 0) \<and>
      fwalk G op2 bs2 i \<in> {0, fwalk G op1 bs1 i} \<and>
      (fwalk G op2 bs2 i \<noteq> 0 \<longrightarrow> blk G op2 (fwalk G op2 bs2 i) = blk G op1 (fwalk G op2 bs2 i))"
      using 2 that by (simp add: file_cut_def)
    show ?thesis using a b \<open>k \<le> m\<close> by auto
  qed
  have A: "ino_blocks G op1 bs1 \<subseteq> ino_blocks G op bs - F1" "F1 \<subseteq> ino_blocks G op bs"
      "\<And>x. x \<notin> ino_blocks G op bs \<Longrightarrow> blk G op1 x = blk G op x"
      "ino_trimmed G op bs n \<Longrightarrow> ino_trimmed G op1 bs1 m" "ino_trimmed G op bs n \<Longrightarrow> ino_blocks G op bs \<subseteq> ino_blocks G op1 bs1 \<union> F1"
    using 1 by (simp_all add: file_cut_def)
  have B: "ino_ok G op2 bs2" "ino_blocks G op2 bs2 \<subseteq> ino_blocks G op1 bs1 - F2" "F2 \<subseteq> ino_blocks G op1 bs1"
      "\<And>x. x \<notin> ino_blocks G op1 bs1 \<Longrightarrow> blk G op2 x = blk G op1 x"
      "ino_trimmed G op1 bs1 m \<Longrightarrow> ino_trimmed G op2 bs2 k" "ino_trimmed G op1 bs1 m \<Longrightarrow> ino_blocks G op1 bs1 \<subseteq> ino_blocks G op2 bs2 \<union> F2"
    using 2 by (simp_all add: file_cut_def)
  have "blk G op2 x = blk G op x" if "x \<notin> ino_blocks G op bs" for x
    using A(1) A(3) [OF that] B(4) [of x] that by auto
  moreover have "F1 \<union> F2 \<subseteq> ino_blocks G op bs" "ino_blocks G op2 bs2 \<subseteq> ino_blocks G op bs - (F1 \<union> F2)"
    using A(1,2) B(2,3) by blast+
  moreover have "ino_blocks G op bs \<subseteq> ino_blocks G op2 bs2 \<union> (F1 \<union> F2)" if "ino_trimmed G op bs n"
    using A(5) [OF that] B(6) [OF A(4) [OF that]] by blast
  ultimately show ?thesis using w A(4) B(1,5) by (simp add: file_cut_def)
qed

lemma file_cut_slot:
  assumes ok: "ino_ok G op bs" and bn: "bn < MAXBLKS"
    and c: "tree_cut G (lev (slot bn)) (soff bn) op (bs ! slot bn) op1 root F"
    and s: "\<And>x. x \<notin> F \<Longrightarrow> blk G op' x = blk G op1 x"
  shows "file_cut G bn (Suc bn) op bs op' (bs[slot bn := root]) F"
proof -
  let ?k = "slot bn" and ?bs = "bs[slot bn := root]"
  let ?opk = "\<lambda>j. if j = ?k then op1 else op"
  note C = c [unfolded tree_cut_def]
  have len: "length bs = 10" using ok by (simp add: ino_ok_def)
  have nth: "?bs ! j = (if j = ?k then root else bs ! j)" if "j < 10" for j using len that by simp
  have F: "F \<subseteq> slot_blocks G op bs ?k" using C by (simp add: slot_blocks_def)
  have out: "blk G op' x = blk G op x" if "x \<notin> slot_blocks G op bs ?k" for x
    using that F s [of x] C by (auto simp: slot_blocks_def)
  have sub: "tree_blocks G (?opk j) (lev j) (?bs ! j) \<subseteq> slot_blocks G op bs j" if "j < 10" for j
    using C nth [OF that] by (auto simp: slot_blocks_def)
  have bl: "blk G op' b = blk G (?opk j) b" if "j < 10" "b \<in> tree_blocks G (?opk j) (lev j) (?bs ! j)" for j b
  proof (cases "j = ?k")
    case True
    then show ?thesis using s [of b] that nth [OF that(1)] C by auto
  next
    case False
    then have "b \<notin> slot_blocks G op bs ?k"
      using ino_ok_disjoint [OF ok that(1) slot_lt False] sub [OF that(1)] that(2) by auto
    then show ?thesis using out False by simp
  qed
  have ix: "blk G op' b = blk G (?opk j) b" if "j < 10" "b \<in> index_blocks G (?opk j) (lev j) (?bs ! j)" for j b
    by (rule bl [OF that(1)]) (rule subsetD [OF index_in_tree that(2)])
  have T: "tree_blocks G op' (lev j) (?bs ! j) = tree_blocks G (?opk j) (lev j) (?bs ! j)"
    "tree_ok G op' (lev j) (?bs ! j)" if "j < 10" for j
    using tree_frame(1,3) [OF ix [OF that]] C nth [OF that] ino_ok_slot [OF ok that] by auto
  have W: "walk G op' (lev j) (?bs ! j) x = walk G (?opk j) (lev j) (?bs ! j) x" if "j < 10" "x < 512 ^ lev j" for j x
    by (rule tree_frame(4) [OF ix [OF that(1)] that(2)])
  have Tr: "trimmed G op' (lev j) (?bs ! j) n = trimmed G (?opk j) (lev j) (?bs ! j) n" if "j < 10" for j n
    by (rule trimmed_frame) (rule ix [OF that])
  have sl: "slot_blocks G op' ?bs j \<subseteq> slot_blocks G op bs j - F" if "j < 10" for j
  proof (cases "j = ?k")
    case True
    then show ?thesis using T(1) [OF that] nth [OF that] C by (simp add: slot_blocks_def)
  next
    case False
    then show ?thesis using T(1) [OF that] nth [OF that] F ino_ok_disjoint [OF ok that slot_lt False]
      by (auto simp: slot_blocks_def)
  qed
  have "slot_blocks G op' ?bs i \<inter> slot_blocks G op' ?bs j = {}" if "i < 10" "j < 10" "i \<noteq> j" for i j
    using sl [OF that(1)] sl [OF that(2)] ino_ok_disjoint [OF ok that] by blast
  then have 1: "ino_ok G op' ?bs" using T(2) len by (simp add: ino_ok_def)
  have 2: "F \<subseteq> ino_blocks G op bs" "ino_blocks G op' ?bs \<subseteq> ino_blocks G op bs - F"
    using F sl slot_in_ino [OF slot_lt, of G op bs bn] unfolding ino_blocks_def by blast+
  have 3: "blk G op' x = blk G op x" if "x \<notin> ino_blocks G op bs" for x
    using out that slot_in_ino [OF slot_lt, of G op bs bn] by blast
  have 4: "(i < bn \<longrightarrow> fwalk G op' ?bs i = fwalk G op bs i) \<and> (bn \<le> i \<and> i < Suc bn \<longrightarrow> fwalk G op' ?bs i = 0) \<and>
     fwalk G op' ?bs i \<in> {0, fwalk G op bs i}" if i: "i < MAXBLKS" for i
  proof (cases "slot i = ?k")
    case True
    have "walk G op1 (lev ?k) root x \<in> {0, walk G op (lev ?k) (bs ! ?k) x} \<and> (x < soff bn \<longrightarrow> walk G op1 (lev ?k) root x = walk G op (lev ?k) (bs ! ?k) x) \<and>
       (x = soff bn \<longrightarrow> walk G op1 (lev ?k) root x = 0)" if "x < 512 ^ lev ?k" for x using C that by blast
    from this [of "soff i"] W [OF slot_lt soff_lt [OF i]] nth [OF slot_lt, of i] True soff_lt [OF i]
    have w: "fwalk G op' ?bs i \<in> {0, fwalk G op bs i} \<and> (soff i < soff bn \<longrightarrow> fwalk G op' ?bs i = fwalk G op bs i) \<and>
       (soff i = soff bn \<longrightarrow> fwalk G op' ?bs i = 0)" by (simp add: fwalk_def) metis
    have "i < bn \<longleftrightarrow> soff i < soff bn" "i = bn \<longleftrightarrow> soff i = soff bn"
      using True soff_base [of i] soff_base [of bn] by auto
    moreover have "bn \<le> i \<and> i < Suc bn \<longleftrightarrow> i = bn" by linarith
    ultimately show ?thesis using w by simp
  next
    case False
    then have "\<not> (bn \<le> i \<and> i < Suc bn)" by (metis le_antisym less_Suc_eq_le)
    then show ?thesis using False W [OF slot_lt soff_lt [OF i]] nth [OF slot_lt, of i] by (auto simp: fwalk_def)
  qed
  have 5: "blk G op' (fwalk G op' ?bs i) = blk G op (fwalk G op' ?bs i)" if i: "i < MAXBLKS" "fwalk G op' ?bs i \<noteq> 0" for i
  proof -
    let ?w = "fwalk G op' ?bs i" and ?j = "slot i"
    have w: "?w \<in> tree_blocks G (?opk ?j) (lev ?j) (?bs ! ?j)"
      using fwalk_in_slot [OF i] T(1) [OF slot_lt, of i] by (simp add: slot_blocks_def)
    have "?w \<notin> index_blocks G op' (lev ?j) (?bs ! ?j)"
      using walk_not_index [OF T(2) [OF slot_lt] soff_lt [OF i(1)]] i(2) by (simp add: fwalk_def)
    then have nx: "?w \<notin> index_blocks G (?opk ?j) (lev ?j) (?bs ! ?j)" using tree_frame(2) [OF ix [OF slot_lt]] by simp
    show ?thesis
    proof (cases "?j = ?k")
      case True
      then have "blk G op1 ?w = blk G op ?w" using w nx nth [OF slot_lt, of bn] C by auto
      then show ?thesis using bl [OF slot_lt w] True by simp
    next
      case False
      then show ?thesis using bl [OF slot_lt w] by simp
    qed
  qed
  have 6: "ino_trimmed G op' ?bs bn \<and> ino_blocks G op bs \<subseteq> ino_blocks G op' ?bs \<union> F" if t: "ino_trimmed G op bs (Suc bn)"
  proof
    have tk: "trimmed G op (lev j) (bs ! j) (Suc bn - slot_base j)" if "j < 10" for j using t that by (simp add: ino_trimmed_def)
    have "Suc bn - slot_base ?k = Suc (soff bn)" using soff_base [of bn] by simp
    then have K: "trimmed G op1 (lev ?k) root (soff bn)" "tree_blocks G op (lev ?k) (bs ! ?k) \<subseteq> tree_blocks G op1 (lev ?k) root \<union> F"
      using C tk [OF slot_lt, of bn] by auto
    have "trimmed G op' (lev j) (?bs ! j) (bn - slot_base j)" if j: "j < 10" for j
    proof -
      consider "j = ?k" | "?k < j" | "j < ?k" by linarith
      then show ?thesis
      proof cases
        case 1
        then show ?thesis using K(1) Tr [OF j, of "soff bn"] nth [OF j] soff_base(1) [of bn] by simp
      next
        case 2
        then show ?thesis using tk [OF j] slot_after [OF 2 j bn] nth [OF j] by simp
      qed (simp add: trimmed_large slot_before)
    qed
    then show "ino_trimmed G op' ?bs bn" by (simp add: ino_trimmed_def)
    have "slot_blocks G op bs j \<subseteq> slot_blocks G op' ?bs j \<union> F" if "j < 10" for j
      using T(1) [OF that] nth [OF that] K(2) by (cases "j = ?k") (auto simp: slot_blocks_def)
    then show "ino_blocks G op bs \<subseteq> ino_blocks G op' ?bs \<union> F" by (auto simp: ino_blocks_def)
  qed
  show ?thesis using 1 2 3 4 5 6 unfolding file_cut_def by blast
qed

text \<open>
  What \<^const>\<open>Shrink\<close> does to the file: it is cut down to \<open>k\<close> blocks, not below its size, and to more blocks than its size has only
  if the transaction that it then stores the inode in has no room for another block; the blocks before that are as they
  were, the blocks of \<open>F\<close> are freed, each once, and zero, and if the file had no block after its end, then every block that was cut
  off is freed. The inode on disk is the one in memory.
\<close>

definition shrink_spec ::
    "('log, 'op, 'alc, 'lm, 'd) golib \<Rightarrow> ('alc \<Rightarrow> u64 set) \<Rightarrow> ('alc \<Rightarrow> u64 set) \<Rightarrow> Inode \<Rightarrow> ('d, 'op, 'alc) AllocTxn \<Rightarrow>
     u64 \<Rightarrow> u64 list \<Rightarrow> 'op \<Rightarrow> u64 list \<Rightarrow> bool" where
  "shrink_spec G used arange ip atxn k bs op' F \<longleftrightarrow>
     unat k \<le> unat (ShrinkSize ip) \<and> (RoundUp G (Size ip) 4096 < k \<and> shrinkFits G atxn 5 \<longrightarrow> unat k < unat (ShrinkSize ip)) \<and>
     (IsShrinking G ip \<longrightarrow> RoundUp G (Size ip) 4096 \<le> k) \<and> distinct F \<and>
     (\<exists>op1. WriteInode G (ip\<lparr>ShrinkSize := k, blks := bs\<rparr>) (atxn\<lparr>Op := op1, freeBnums := freeBnums atxn @ F\<rparr>) =
          Inr (atxn\<lparr>Op := op', freeBnums := freeBnums atxn @ F\<rparr>) \<and>
        (RoundUp G (Size ip) 4096 < k \<longrightarrow> \<not> shrinkFits G (atxn\<lparr>Op := op1\<rparr>) 5)) \<and>
     (\<not> IsShrinking G ip \<longrightarrow> k = ShrinkSize ip \<and> bs = blks ip \<and> F = [] \<and>
        (\<forall>x. valid_bnum atxn x \<longrightarrow> blk G op' x = blk G (Op atxn) x)) \<and>
     file_inv G used arange (atxn\<lparr>Op := op', freeBnums := freeBnums atxn @ F\<rparr>) (ip\<lparr>ShrinkSize := k, blks := bs\<rparr>) \<and>
     set F \<subseteq> ino_blocks G (Op atxn) (blks ip) - ino_blocks G op' bs \<and>
     ino_blocks G op' bs \<subseteq> ino_blocks G (Op atxn) (blks ip) \<and>
     (\<forall>i < MAXBLKS. i < unat k \<longrightarrow> fwalk G op' bs i = fwalk G (Op atxn) (blks ip) i \<and>
          (fwalk G (Op atxn) (blks ip) i \<noteq> 0 \<longrightarrow> blk G op' (fwalk G (Op atxn) (blks ip) i) = blk G (Op atxn) (fwalk G (Op atxn) (blks ip) i))) \<and>
     (\<forall>i < MAXBLKS. unat k \<le> i \<and> i < unat (ShrinkSize ip) \<longrightarrow> fwalk G op' bs i = 0) \<and>
     (\<forall>x \<in> set F. blk G op' x = replicate 4096 0) \<and>
     (\<forall>x. valid_bnum atxn x \<longrightarrow> x \<notin> ino_blocks G (Op atxn) (blks ip) \<longrightarrow> blk G op' x = blk G (Op atxn) x) \<and>
     (ino_trimmed G (Op atxn) (blks ip) (unat (ShrinkSize ip)) \<longrightarrow>
        ino_trimmed G op' bs (unat k) \<and> ino_blocks G (Op atxn) (blks ip) = ino_blocks G op' bs \<union> set F) \<and>
     Decode G (inode_buf G (at_Super atxn) op' (Inum ip)) (Inum ip) = Inr (ip\<lparr>ShrinkSize := k, blks := bs, inode_Dcache := None\<rparr>)"

section \<open>One block\<close>

context gojournal
begin

lemma freeIndex_ok:
  assumes len: "length (blks ip) = 10" and k: "unat k = j" "j < 10" and r: "blks ip ! j = r" and v: "r \<noteq> 0 \<Longrightarrow> valid_bnum atxn r"
  shows "\<exists>op'. freeIndex G k ip atxn = Inr (ip\<lparr>blks := (blks ip)[j := 0]\<rparr>,
       if r = 0 then atxn else atxn\<lparr>Op := op', freeBnums := freeBnums atxn @ [r]\<rparr>) \<and>
     (\<forall>x. blk G op' x = (if x = r then replicate 4096 0 else blk G (Op atxn) x))"
proof (cases "r = 0")
  case True
  have "freeIndex G k ip atxn = Inr (ip\<lparr>blks := (blks ip)[j := 0]\<rparr>, atxn)"
    using len k r True by (simp add: freeIndex_def slice_get_def slice_put_def FreeBlock_def)
  then show ?thesis using True
    by (intro exI [of _ "Op (StoreBlock G 0 (replicate 4096 0) atxn)"]) (simp add: blk_StoreBlock)
next
  case False
  obtain op' where "FreeBlock G r atxn = Inr (atxn\<lparr>Op := op', freeBnums := freeBnums atxn @ [r]\<rparr>)"
    "\<And>x. blk G op' x = (if x = r then replicate 4096 0 else blk G (Op atxn) x)"
    by (rule FreeBlock_valid [OF v [OF False] False]) blast
  then show ?thesis using len k r False by (intro exI [of _ op']) (simp add: freeIndex_def slice_get_def slice_put_def)
qed

text \<open>The three cases of the loop body are one: cut the tree of the slot, and drop its root if that is returned.\<close>

lemma shrink_step_uniform:
  assumes len: "length (blks ip) = 10" and b: "ShrinkSize ip - 1 = b" and bn: "unat b < MAXBLKS"
  shows "shrink_step G ip atxn =
     bnd (indshrink G (blks ip ! slot (unat b)) (lev (slot (unat b))) (of_nat (soff (unat b))) atxn) (\<lambda>(fr, atxn).
     if fr \<noteq> 0 \<or> unat b < 8 then freeIndex G (of_nat (slot (unat b))) (ip\<lparr>ShrinkSize := b\<rparr>) atxn
     else Inr (ip\<lparr>ShrinkSize := b\<rparr>, atxn))"
proof -
  have g: "slice_get (blks ip) 8 = Inr (blks ip ! 8)" "slice_get (blks ip) 9 = Inr (blks ip ! 9)"
    using len by (simp_all add: slice_get_def)
  consider "unat b < 8" | "\<not> unat b < 8" "unat b < 520" | "\<not> unat b < 520" by linarith
  then show ?thesis
  proof cases
    case 1
    then have "b < 8" by (simp add: word_less_nat_alt)
    then show ?thesis using 1 by (simp add: shrink_step_def b slot_def lev_def)
  next
    case 2
    then have lt: "\<not> b < 8" "b - 8 < 512" by (simp_all add: word_less_nat_alt nowrap)
    have "(of_nat (soff (unat b)) :: u64) = b - 8" using 2 by (intro u64_eqI) (simp add: soff_def nowrap)
    moreover have sl: "slot (unat b) = 8" using 2 by (simp add: slot_def)
    ultimately show ?thesis unfolding sl of_nat_numeral using 2 lt g by (simp add: shrink_step_def b lev_def Let_def del: indshrink.simps)
  next
    case 3
    then have lt: "\<not> b < 8" "\<not> b - 8 < 512" by (simp_all add: word_less_nat_alt nowrap)
    have "(of_nat (soff (unat b)) :: u64) = b - 8 - 512" using 3 bn by (intro u64_eqI) (simp add: soff_def nowrap)
    moreover have sl: "slot (unat b) = 9" using 3 by (simp add: slot_def)
    ultimately show ?thesis unfolding sl of_nat_numeral using 3 lt g by (simp add: shrink_step_def b lev_def Let_def numeral_2_eq_2 del: indshrink.simps)
  qed
qed

lemma shrink_step_ok:
  assumes inv: "file_inv G used arange atxn ip" and n: "ShrinkSize ip \<noteq> 0" and mx: "unat (ShrinkSize ip) \<le> MAXBLKS"
  shows "\<exists>bs op' F. shrink_step G ip atxn =
       Inr (ip\<lparr>ShrinkSize := ShrinkSize ip - 1, blks := bs\<rparr>, atxn\<lparr>Op := op', freeBnums := freeBnums atxn @ F\<rparr>) \<and>
     file_cut G (unat (ShrinkSize ip) - 1) (unat (ShrinkSize ip)) (Op atxn) (blks ip) op' bs (set F) \<and>
     (\<forall>x \<in> set F. blk G op' x = replicate 4096 0) \<and> distinct F"
proof -
  define b where "b = ShrinkSize ip - 1"
  let ?bn = "unat b" and ?bs = "blks ip" and ?off = "of_nat (soff (unat b)) :: u64"
  let ?k = "slot ?bn" let ?root = "?bs ! ?k"
  have ub: "unat (ShrinkSize ip) = Suc ?bn" using n unat_gt_0 [of "ShrinkSize ip"] by (simp add: b_def unat_minus_one)
  have bn: "?bn < MAXBLKS" using ub mx by simp
  have ok: "ino_ok G (Op atxn) ?bs" and v: "\<And>x. x \<in> ino_blocks G (Op atxn) ?bs \<Longrightarrow> valid_bnum atxn x"
    using inv by (auto simp: file_inv_def)
  have len: "length ?bs = 10" using ok by (simp add: ino_ok_def)
  have so: "unat ?off = soff ?bn" using bn by (simp add: soff_def nowrap)
  have sub: "tree_blocks G (Op atxn) (lev ?k) ?root \<subseteq> ino_blocks G (Op atxn) ?bs"
    using slot_in_ino [OF slot_lt, of G "Op atxn" ?bs ?bn] by (simp add: slot_blocks_def)
  have "lev ?k \<le> 3" using lev_le [OF slot_lt, of ?bn] by simp
  from indshrink_ok [OF this ino_ok_slot [OF ok slot_lt] v [OF subsetD [OF sub]], of ?off] soff_lt [OF bn] so
  obtain F a1 where cs: "cut_spec G (lev ?k) ?root ?off atxn (if ?off = 0 then ?root else 0) F a1" by auto
  let ?fr = "if ?off = 0 then ?root else 0" and ?root' = "if ?off = 0 then 0 else ?root"
  from cs have run: "indshrink G ?root (lev ?k) ?off atxn = Inr (?fr, a1)" and z: "\<And>x. x \<in> set F \<Longrightarrow> blk G (Op a1) x = replicate 4096 0"
    and cut: "tree_cut G (lev ?k) (soff ?bn) (Op atxn) ?root (Op a1) ?root' (if ?off = 0 \<and> ?root \<noteq> 0 then insert ?root (set F) else set F)"
    and dF: "distinct F" "?off = 0 \<Longrightarrow> ?root \<noteq> 0 \<Longrightarrow> ?root \<notin> set F"
    using so by (auto simp: cut_spec_def)
  obtain q where a1: "a1 = atxn\<lparr>Op := q, freeBnums := freeBnums atxn @ F\<rparr>" using cs unfolding cut_spec_def by blast
  let ?ip1 = "ip\<lparr>ShrinkSize := b\<rparr>"
  have step: "shrink_step G ip atxn = (if ?fr \<noteq> 0 \<or> ?bn < 8 then freeIndex G (of_nat ?k) ?ip1 a1 else Inr (?ip1, a1))"
    using shrink_step_uniform [OF len b_def [symmetric] bn] run by simp
  have uk: "unat (of_nat ?k :: u64) = ?k" by (rule unat_of_nat_u64, rule less_trans [OF slot_lt]) simp
  have vr: "valid_bnum a1 ?root" if "?root \<noteq> 0"
    using that v [OF subsetD [OF sub root_in_tree [OF that]]] a1 by (simp add: valid_bnum_def)
  have "blks ?ip1 ! ?k = ?root" by simp
  from freeIndex_ok [OF _ uk slot_lt this vr] len
  obtain op' where fi: "freeIndex G (of_nat ?k) ?ip1 a1 = Inr (?ip1\<lparr>blks := ?bs[?k := 0]\<rparr>,
       if ?root = 0 then a1 else a1\<lparr>Op := op', freeBnums := freeBnums a1 @ [?root]\<rparr>)"
     and bl: "\<And>x. blk G op' x = (if x = ?root then replicate 4096 0 else blk G (Op a1) x)" by auto
  show ?thesis
  proof (cases "?fr = 0")
    case False
    then have c: "?off = 0" "?root \<noteq> 0" by (auto split: if_splits)
    have "file_cut G ?bn (Suc ?bn) (Op atxn) ?bs op' (?bs[?k := 0]) (insert ?root (set F))"
      by (rule file_cut_slot [OF ok bn]) (use cut c bl in auto)
    moreover have "\<forall>x \<in> set (F @ [?root]). blk G op' x = replicate 4096 0" using bl z by auto
    moreover have "shrink_step G ip atxn = Inr (ip\<lparr>ShrinkSize := b, blks := ?bs[?k := 0]\<rparr>,
        atxn\<lparr>Op := op', freeBnums := freeBnums atxn @ (F @ [?root])\<rparr>)"
      using step fi False c a1 by simp
    ultimately show ?thesis unfolding b_def [symmetric] ub
      by (intro exI [of _ "?bs[?k := 0]"] exI [of _ op'] exI [of _ "F @ [?root]"]) (use dF c in simp)
  next
    case True
    then have c: "\<not> (?off = 0 \<and> ?root \<noteq> 0)" and rr: "?root' = ?root" by (auto split: if_splits)
    have "?root = 0" if "?bn < 8" using that True by (simp add: soff_def split: if_splits)
    moreover have "?bs[?k := 0] = ?bs" if "?root = 0" using list_update_id [of ?bs ?k] that by simp
    ultimately have "shrink_step G ip atxn = Inr (ip\<lparr>ShrinkSize := b, blks := ?bs[?k := ?root]\<rparr>, a1)"
      using step fi True by auto
    moreover have "file_cut G ?bn (Suc ?bn) (Op atxn) ?bs (Op a1) (?bs[?k := ?root]) (set F)"
      by (rule file_cut_slot [OF ok bn]) (use cut c rr in auto)
    ultimately show ?thesis unfolding b_def [symmetric] ub using z a1 dF(1)
      by (intro exI [of _ "?bs[?k := ?root]"] exI [of _ q] exI [of _ F]) simp
  qed
qed

lemma file_cut_inv:
  assumes inv: "file_inv G used arange atxn ip" and c: "file_cut G m n (Op atxn) (blks ip) op' bs F"
  shows "file_inv G used arange (atxn\<lparr>Op := op', freeBnums := fs\<rparr>) (ip\<lparr>ShrinkSize := k, blks := bs\<rparr>)"
proof -
  have "blk G op' x = blk G (Op atxn) x" if "x \<notin> used (Balloc atxn)" for x
    using that inv c by (auto simp: file_inv_def file_cut_def)
  then have "balloc_inv G used arange (atxn\<lparr>Op := op', freeBnums := fs\<rparr>)"
    using inv by (auto simp: file_inv_def balloc_inv_def valid_bnum_def)
  moreover have "ino_blocks G op' bs \<subseteq> ino_blocks G (Op atxn) (blks ip)" "ino_ok G op' bs" using c by (auto simp: file_cut_def)
  ultimately show ?thesis using inv by (auto simp: file_inv_def valid_bnum_def)
qed

section \<open>The loop\<close>

text \<open>The fuel of the loop is the number of blocks to cut off; it is never exhausted.\<close>

lemma shrink_loop_ok:
  assumes "file_inv G used arange atxn ip" and "unat (ShrinkSize ip) \<le> fuel" and "unat (ShrinkSize ip) \<le> MAXBLKS"
  shows "\<exists>k bs op' F. shrink_loop G fuel ip atxn =
       Inr (ip\<lparr>ShrinkSize := k, blks := bs\<rparr>, atxn\<lparr>Op := op', freeBnums := freeBnums atxn @ F\<rparr>) \<and>
     unat k \<le> unat (ShrinkSize ip) \<and> (unat k = unat (ShrinkSize ip) \<longrightarrow> \<not> (IsShrinking G ip \<and> shrinkFits G atxn 5)) \<and>
     (IsShrinking G ip \<longrightarrow> RoundUp G (Size ip) 4096 \<le> k) \<and>
     (RoundUp G (Size ip) 4096 < k \<longrightarrow> \<not> shrinkFits G (atxn\<lparr>Op := op'\<rparr>) 5) \<and>
     file_cut G (unat k) (unat (ShrinkSize ip)) (Op atxn) (blks ip) op' bs (set F) \<and>
     (\<forall>x \<in> set F. blk G op' x = replicate 4096 0) \<and> distinct F"
  using assms
proof (induction fuel arbitrary: ip atxn)
  case 0
  then have "\<not> IsShrinking G ip" by (simp add: IsShrinking_def unat_eq_0)
  moreover have "ino_ok G (Op atxn) (blks ip)" using 0 by (simp add: file_inv_def)
  ultimately show ?case
    by (intro exI [of _ "ShrinkSize ip"] exI [of _ "blks ip"] exI [of _ "Op atxn"] exI [of _ "[]"])
       (simp add: shrink_loop.simps file_cut_refl IsShrinking_def)
next
  case (Suc fuel)
  show ?case
  proof (cases "IsShrinking G ip \<and> shrinkFits G atxn 5")
    case False
    moreover have "ino_ok G (Op atxn) (blks ip)" using Suc.prems by (simp add: file_inv_def)
    ultimately show ?thesis
      by (intro exI [of _ "ShrinkSize ip"] exI [of _ "blks ip"] exI [of _ "Op atxn"] exI [of _ "[]"])
         (auto simp: shrink_loop.simps file_cut_refl IsShrinking_def)
  next
    case True
    then have n: "ShrinkSize ip \<noteq> 0" "RoundUp G (Size ip) 4096 < ShrinkSize ip" by (auto simp: IsShrinking_def)
    let ?n = "ShrinkSize ip"
    obtain bs op1 F where st: "shrink_step G ip atxn =
         Inr (ip\<lparr>ShrinkSize := ?n - 1, blks := bs\<rparr>, atxn\<lparr>Op := op1, freeBnums := freeBnums atxn @ F\<rparr>)"
      and fc: "file_cut G (unat ?n - 1) (unat ?n) (Op atxn) (blks ip) op1 bs (set F)"
      and z: "\<And>x. x \<in> set F \<Longrightarrow> blk G op1 x = replicate 4096 0" and dF: "distinct F"
      using shrink_step_ok [OF Suc.prems(1) n(1) Suc.prems(3)] by blast
    let ?ip = "ip\<lparr>ShrinkSize := ?n - 1, blks := bs\<rparr>" and ?a = "atxn\<lparr>Op := op1, freeBnums := freeBnums atxn @ F\<rparr>"
    have u: "unat (?n - 1) = unat ?n - 1" "0 < unat ?n" using n(1) by (simp_all add: unat_minus_one unat_gt_0)
    have le: "RoundUp G (Size ip) 4096 \<le> ?n - 1" using n u by (simp add: word_le_nat_alt word_less_nat_alt)
    have fi: "file_inv G used arange ?a ?ip" by (rule file_cut_inv [OF Suc.prems(1) fc])
    have ss: "unat (ShrinkSize ?ip) \<le> fuel" "unat (ShrinkSize ?ip) \<le> MAXBLKS" using Suc.prems u by simp_all
    from Suc.IH [OF fi ss] obtain k bs' op' F' where l: "shrink_loop G fuel ?ip ?a =
         Inr (?ip\<lparr>ShrinkSize := k, blks := bs'\<rparr>, ?a\<lparr>Op := op', freeBnums := freeBnums ?a @ F'\<rparr>)"
      and k0: "unat k \<le> unat (ShrinkSize ?ip)" and k2: "IsShrinking G ?ip \<longrightarrow> RoundUp G (Size ?ip) 4096 \<le> k"
      and k4: "RoundUp G (Size ?ip) 4096 < k \<longrightarrow> \<not> shrinkFits G (?a\<lparr>Op := op'\<rparr>) 5"
      and fc0: "file_cut G (unat k) (unat (ShrinkSize ?ip)) (Op ?a) (blks ?ip) op' bs' (set F')"
      and z': "\<forall>x \<in> set F'. blk G op' x = replicate 4096 0" and dF': "distinct F'"
      by (elim exE conjE)
    have k1: "unat k \<le> unat ?n - 1" and fc': "file_cut G (unat k) (unat ?n - 1) op1 bs op' bs' (set F')" using k0 fc0 u by simp_all
    have "shrink_loop G (Suc fuel) ip atxn = Inr (ip\<lparr>ShrinkSize := k, blks := bs'\<rparr>, atxn\<lparr>Op := op', freeBnums := freeBnums atxn @ (F @ F')\<rparr>)"
      using True st l by (subst shrink_loop.simps) simp
    moreover have "file_cut G (unat k) (unat ?n) (Op atxn) (blks ip) op' bs' (set (F @ F'))"
      using file_cut_trans [OF fc fc' k1] by simp
    moreover have "blk G op' x = replicate 4096 0" if "x \<in> set (F @ F')" for x
    proof (cases "x \<in> set F'")
      case False
      then have "x \<in> set F" using that by simp
      then have "x \<notin> ino_blocks G op1 bs" using fc by (auto simp: file_cut_def)
      then show ?thesis using fc' z [OF \<open>x \<in> set F\<close>] by (simp add: file_cut_def)
    qed (use z' in blast)
    moreover have "RoundUp G (Size ip) 4096 \<le> k"
    proof (cases "IsShrinking G ?ip")
      case False
      then have "shrink_loop G fuel ?ip ?a = Inr (?ip, ?a)" by (simp add: shrink_loop.simps)
      then have "?ip = ?ip\<lparr>ShrinkSize := k, blks := bs'\<rparr>" using l by simp
      from arg_cong [OF this, of ShrinkSize] have "k = ?n - 1" by simp
      then show ?thesis using le by simp
    qed (use k2 in simp)
    moreover have "unat k < unat ?n" using k1 u(2) by linarith
    moreover have "RoundUp G (Size ip) 4096 < k \<longrightarrow> \<not> shrinkFits G (atxn\<lparr>Op := op'\<rparr>) 5"
      using k4 by (simp add: shrinkFits_def)
    moreover have "distinct (F @ F')" using dF dF' fc fc' by (auto simp: file_cut_def)
    ultimately show ?thesis
      by (intro exI [of _ k] exI [of _ bs'] exI [of _ op'] exI [of _ "F @ F'"]) simp
  qed
qed

text \<open>Storing the inode at the end changes no block of a file.\<close>

lemma file_cut_same:
  assumes c: "file_cut G m n op bs op1 bs1 F" and s: "\<And>x. x \<in> ino_blocks G op bs \<Longrightarrow> blk G op2 x = blk G op1 x"
    and o: "\<And>x. x \<notin> ino_blocks G op bs \<Longrightarrow> P x \<Longrightarrow> blk G op2 x = blk G op1 x"
  shows "ino_ok G op2 bs1" and "F \<subseteq> ino_blocks G op bs" and "ino_blocks G op2 bs1 \<subseteq> ino_blocks G op bs - F"
    and "i < MAXBLKS \<Longrightarrow> i < m \<Longrightarrow> fwalk G op2 bs1 i = fwalk G op bs i"
    and "i < MAXBLKS \<Longrightarrow> m \<le> i \<Longrightarrow> i < n \<Longrightarrow> fwalk G op2 bs1 i = 0"
    and "i < MAXBLKS \<Longrightarrow> i < m \<Longrightarrow> fwalk G op bs i \<noteq> 0 \<Longrightarrow> blk G op2 (fwalk G op bs i) = blk G op (fwalk G op bs i)"
    and "ino_trimmed G op bs n \<Longrightarrow> ino_trimmed G op2 bs1 m \<and> ino_blocks G op bs = ino_blocks G op2 bs1 \<union> F"
    and "x \<notin> ino_blocks G op bs \<Longrightarrow> P x \<Longrightarrow> blk G op2 x = blk G op x"
proof -
  have sub: "ino_blocks G op1 bs1 \<subseteq> ino_blocks G op bs - F" "F \<subseteq> ino_blocks G op bs" using c by (simp_all add: file_cut_def)
  have ix: "blk G op2 b = blk G op1 b" if "b \<in> ino_index G op1 bs1" for b
    using that s sub(1) ino_index_blocks [of G op1 bs1] by blast
  note f = ino_frame [OF ix]
  have w: "(i < m \<longrightarrow> fwalk G op1 bs1 i = fwalk G op bs i) \<and> (m \<le> i \<and> i < n \<longrightarrow> fwalk G op1 bs1 i = 0) \<and>
        (fwalk G op1 bs1 i \<noteq> 0 \<longrightarrow> blk G op1 (fwalk G op1 bs1 i) = blk G op (fwalk G op1 bs1 i))" if "i < MAXBLKS" for i
    using c that by (simp add: file_cut_def)
  show "ino_ok G op2 bs1" using f(3) c by (simp add: file_cut_def)
  show "F \<subseteq> ino_blocks G op bs" "ino_blocks G op2 bs1 \<subseteq> ino_blocks G op bs - F" using sub f(1) by simp_all
  show "fwalk G op2 bs1 i = fwalk G op bs i" if "i < MAXBLKS" "i < m" using w [OF that(1)] f(4) [OF _ that(1)] that by simp
  show "fwalk G op2 bs1 i = 0" if "i < MAXBLKS" "m \<le> i" "i < n" using w [OF that(1)] f(4) [OF _ that(1)] that by simp
  show "blk G op2 (fwalk G op bs i) = blk G op (fwalk G op bs i)" if "i < MAXBLKS" "i < m" "fwalk G op bs i \<noteq> 0"
    using w [OF that(1)] that s [OF fwalk_in_ino [OF that(1,3)]] by metis
  have "trimmed G op2 (lev j) (bs1 ! j) q = trimmed G op1 (lev j) (bs1 ! j) q" if "j < 10" for j q
    by (rule trimmed_frame) (use ix that in \<open>auto simp: ino_index_def\<close>)
  then have "ino_trimmed G op2 bs1 m = ino_trimmed G op1 bs1 m" by (simp add: ino_trimmed_def)
  then show "ino_trimmed G op2 bs1 m \<and> ino_blocks G op bs = ino_blocks G op2 bs1 \<union> F" if "ino_trimmed G op bs n"
    using c that f(1) sub by (auto simp: file_cut_def)
  show "blk G op2 x = blk G op x" if "x \<notin> ino_blocks G op bs" "P x" using c that o by (simp add: file_cut_def)
qed

lemma Shrink_ok:
  assumes inv: "file_inv G used arange atxn ip" and mx: "unat (ShrinkSize ip) \<le> MAXBLKS"
  shows "\<exists>k bs op' F. Shrink G ip atxn =
       Inr (RoundUp G (Size ip) 4096 < k, ip\<lparr>ShrinkSize := k, blks := bs\<rparr>, atxn\<lparr>Op := op', freeBnums := freeBnums atxn @ F\<rparr>) \<and>
     shrink_spec G used arange ip atxn k bs op' F"
proof -
  let ?n = "ShrinkSize ip"
  obtain k bs op1 F where l: "shrink_loop G (unat ?n) ip atxn =
       Inr (ip\<lparr>ShrinkSize := k, blks := bs\<rparr>, atxn\<lparr>Op := op1, freeBnums := freeBnums atxn @ F\<rparr>)"
     and k: "unat k \<le> unat ?n" "unat k = unat ?n \<longrightarrow> \<not> (IsShrinking G ip \<and> shrinkFits G atxn 5)"
       "IsShrinking G ip \<longrightarrow> RoundUp G (Size ip) 4096 \<le> k"
     and full: "RoundUp G (Size ip) 4096 < k \<longrightarrow> \<not> shrinkFits G (atxn\<lparr>Op := op1\<rparr>) 5"
     and fc: "file_cut G (unat k) (unat ?n) (Op atxn) (blks ip) op1 bs (set F)"
     and z: "\<And>x. x \<in> set F \<Longrightarrow> blk G op1 x = replicate 4096 0" and dF: "distinct F"
    using shrink_loop_ok [OF inv order_refl mx] by blast
  let ?ip = "ip\<lparr>ShrinkSize := k, blks := bs\<rparr>" and ?a = "atxn\<lparr>Op := op1, freeBnums := freeBnums atxn @ F\<rparr>"
  have inv1: "file_inv G used arange ?a ?ip" by (rule file_cut_inv [OF inv fc])
  from inv1 show ?thesis
  proof (rule WriteInode_step)
    fix op'
    assume w: "WriteInode G ?ip ?a = Inr (?a\<lparr>Op := op'\<rparr>)" and st: "file_step G used arange ?ip ?a ?ip (?a\<lparr>Op := op'\<rparr>)"
      and same: "\<And>x. valid_bnum ?a x \<Longrightarrow> blk G op' x = blk G (Op ?a) x"
      and dec: "Decode G (inode_buf G (at_Super ?a) op' (Inum ?ip)) (Inum ?ip) = Inr (?ip\<lparr>inode_Dcache := None\<rparr>)"
    have vv: "valid_bnum ?a x = valid_bnum atxn x" for x by (simp add: valid_bnum_def)
    have v: "valid_bnum atxn x" if "x \<in> ino_blocks G (Op atxn) (blks ip)" for x using inv that by (simp add: file_inv_def)
    have s: "\<And>x. x \<in> ino_blocks G (Op atxn) (blks ip) \<Longrightarrow> blk G op' x = blk G op1 x" using same v vv by simp
    have o: "\<And>x. x \<notin> ino_blocks G (Op atxn) (blks ip) \<Longrightarrow> valid_bnum atxn x \<Longrightarrow> blk G op' x = blk G op1 x" using same vv by simp
    note cs = file_cut_same [OF fc s o, where P = "valid_bnum atxn"]
    have S: "Shrink G ip atxn = Inr (RoundUp G (Size ip) 4096 < k, ?ip, atxn\<lparr>Op := op', freeBnums := freeBnums atxn @ F\<rparr>)"
      using l w by (simp add: Shrink_def IsShrinking_def)
    have pr: "RoundUp G (Size ip) 4096 < k \<and> shrinkFits G atxn 5 \<longrightarrow> unat k < unat ?n"
    proof (intro impI, rule ccontr)
      assume a: "RoundUp G (Size ip) 4096 < k \<and> shrinkFits G atxn 5" and "\<not> unat k < unat ?n"
      then have e: "unat k = unat ?n" using k(1) by simp
      then have "k = ?n" by (rule u64_eqI)
      then show False using a k(2) e by (simp add: IsShrinking_def)
    qed
    have ns: "k = ?n \<and> bs = blks ip \<and> F = [] \<and> (\<forall>x. valid_bnum atxn x \<longrightarrow> blk G op' x = blk G (Op atxn) x)" if "\<not> IsShrinking G ip"
    proof -
      have "Inr (?ip, ?a) = Inr (ip, atxn)" using l that by (simp add: shrink_loop.simps)
      then have e: "?ip = ip" "?a = atxn" by simp_all
      show ?thesis using arg_cong [OF e(1), of ShrinkSize] arg_cong [OF e(1), of blks] arg_cong [OF e(2), of freeBnums]
        arg_cong [OF e(2), of Op] same vv by simp
    qed
    have "set F \<subseteq> ino_blocks G (Op atxn) (blks ip) - ino_blocks G op' bs"
      "ino_blocks G op' bs \<subseteq> ino_blocks G (Op atxn) (blks ip)" using cs(2,3) by blast+
    moreover have "blk G op' x = replicate 4096 0" if "x \<in> set F" for x using s [OF subsetD [OF cs(2) that]] z [OF that] by simp
    moreover have "\<exists>op1. WriteInode G ?ip (atxn\<lparr>Op := op1, freeBnums := freeBnums atxn @ F\<rparr>) =
          Inr (atxn\<lparr>Op := op', freeBnums := freeBnums atxn @ F\<rparr>) \<and>
        (RoundUp G (Size ip) 4096 < k \<longrightarrow> \<not> shrinkFits G (atxn\<lparr>Op := op1\<rparr>) 5)"
      by (intro exI [of _ op1] conjI full) (use w in simp)
    ultimately show ?thesis
      using S pr ns k cs(4-8) file_step_inv [OF st] dec dF
      by (intro exI [of _ k] exI [of _ bs] exI [of _ op'] exI [of _ F])
         (simp add: shrink_spec_def file_inv_def balloc_inv_def valid_bnum_def)
  qed
qed

lemma RoundUp_block: "i < unat sz \<Longrightarrow> unat sz \<le> MAXBYTES \<Longrightarrow> i div 4096 < unat (RoundUp G sz 4096)"
  "unat sz \<le> MAXBYTES \<Longrightarrow> unat (RoundUp G sz 4096) = (unat sz + 4095) div 4096"
proof -
  show r: "unat (RoundUp G sz 4096) = (unat sz + 4095) div 4096" if "unat sz \<le> MAXBYTES"
    using RoundUp [of sz 4096] that by simp
  show "i div 4096 < unat (RoundUp G sz 4096)" if "i < unat sz" "unat sz \<le> MAXBYTES"
  proof -
    have "(i + 4096) div 4096 \<le> (unat sz + 4095) div 4096" using that by (intro div_le_mono) simp
    then show ?thesis using r [OF that(2)] by simp
  qed
qed

lemma Shrink_contents:
  assumes inv: "file_inv G used arange atxn ip" and mx: "unat (ShrinkSize ip) \<le> MAXBLKS" and sz: "unat (Size ip) \<le> MAXBYTES"
    and S: "Shrink G ip atxn = Inr (again, ip', atxn')"
  shows "contents G (Op atxn') ip' = contents G (Op atxn) ip"
proof -
  obtain k bs op' F where R: "Shrink G ip atxn =
       Inr (RoundUp G (Size ip) 4096 < k, ip\<lparr>ShrinkSize := k, blks := bs\<rparr>, atxn\<lparr>Op := op', freeBnums := freeBnums atxn @ F\<rparr>)"
     and sp: "shrink_spec G used arange ip atxn k bs op' F" using Shrink_ok [OF inv mx] by blast
  have e: "ip' = ip\<lparr>ShrinkSize := k, blks := bs\<rparr>" "Op atxn' = op'" using R S by auto
  have cut: "IsShrinking G ip \<longrightarrow> RoundUp G (Size ip) 4096 \<le> k"
    and ns: "\<not> IsShrinking G ip \<longrightarrow> bs = blks ip \<and> (\<forall>x. valid_bnum atxn x \<longrightarrow> blk G op' x = blk G (Op atxn) x)"
    using sp by (simp_all add: shrink_spec_def)
  have w: "\<forall>i < MAXBLKS. i < unat k \<longrightarrow> fwalk G op' bs i = fwalk G (Op atxn) (blks ip) i \<and>
          (fwalk G (Op atxn) (blks ip) i \<noteq> 0 \<longrightarrow> blk G op' (fwalk G (Op atxn) (blks ip) i) = blk G (Op atxn) (fwalk G (Op atxn) (blks ip) i))"
    using sp unfolding shrink_spec_def by (elim conjE)
  have "fbyte G op' bs i = fbyte G (Op atxn) (blks ip) i" if i: "i < unat (Size ip)" for i
  proof (cases "IsShrinking G ip")
    case True
    have "i div 4096 < unat k" using RoundUp_block(1) [OF i sz] cut True by (simp add: word_le_nat_alt)
    moreover have "i div 4096 < MAXBLKS" using i sz by (simp add: less_mult_imp_div_less)
    ultimately show ?thesis using w by (simp add: fbyte_def Let_def)
  next
    case False
    then show ?thesis using ns file_op_frame(2) [OF inv, of op' i] i sz by simp
  qed
  then show ?thesis using e by (simp add: contents_def frange_def)
qed

section \<open>Shrinking in several transactions\<close>

lemma on_FreeBlock: "FreeBlock G b atxn = Inr atxn' \<Longrightarrow> on lg (Op atxn) \<Longrightarrow> on lg (Op atxn')"
  by (auto simp: FreeBlock_def ZeroBlock_def StoreBlock_def bnd_eq_Inr on_put split: if_splits)

lemma on_indshrink: "indshrink G root l bn atxn = Inr (fr, atxn') \<Longrightarrow> on lg (Op atxn) \<Longrightarrow> on lg (Op atxn')"
proof (induction l arbitrary: root bn fr atxn')
  case (Suc l)
  then show ?case
    by (auto simp: Let_def bnd_eq_Inr StoreBlock_def on_put split: if_splits elim!: on_FreeBlock)
qed auto

lemma on_freeIndex: "freeIndex G i ip atxn = Inr (ip', atxn') \<Longrightarrow> on lg (Op atxn) \<Longrightarrow> on lg (Op atxn')"
  by (auto simp: freeIndex_def bnd_eq_Inr elim: on_FreeBlock)

lemma on_shrink_step: "shrink_step G ip atxn = Inr (ip', atxn') \<Longrightarrow> on lg (Op atxn) \<Longrightarrow> on lg (Op atxn')"
  by (auto simp: shrink_step_def Let_def bnd_eq_Inr simp del: indshrink.simps split: if_splits
      elim: on_freeIndex on_indshrink intro: on_freeIndex [OF _ on_indshrink])

lemma on_shrink_loop: "shrink_loop G fuel ip atxn = Inr (ip', atxn') \<Longrightarrow> on lg (Op atxn) \<Longrightarrow> on lg (Op atxn')"
proof (induction fuel arbitrary: ip atxn)
  case 0
  then show ?case by (auto simp: shrink_loop.simps split: if_splits)
next
  case (Suc fuel)
  show ?case
  proof (cases "IsShrinking G ip \<and> shrinkFits G atxn 5")
    case True
    then obtain ip1 a1 where "shrink_step G ip atxn = Inr (ip1, a1)" "shrink_loop G fuel ip1 a1 = Inr (ip', atxn')"
      using Suc.prems(1) by (subst (asm) shrink_loop.simps) (auto simp: bnd_eq_Inr)
    then show ?thesis using Suc.IH on_shrink_step Suc.prems(2) by blast
  qed (use Suc.prems in \<open>auto simp: shrink_loop.simps\<close>)
qed

lemma on_Shrink: "Shrink G ip atxn = Inr (again, ip', atxn') \<Longrightarrow> on lg (Op atxn) \<Longrightarrow> on lg (Op atxn')"
  by (auto simp: Shrink_def bnd_eq_Inr WriteInode_def split: if_splits intro!: on_ow elim!: on_shrink_loop)

lemma frees_run:
  assumes "\<And>x. x \<in> set F \<Longrightarrow> valid_bnum atxn x \<and> x \<noteq> 0"
  shows "atxn_run G atxn (atxn\<lparr>Op := op', freeBnums := freeBnums atxn @ F\<rparr>)"
  using assms
proof (induction F arbitrary: op' rule: rev_induct)
  case Nil
  then show ?case using run_write [OF run_start, of G atxn op'] by simp
next
  case (snoc b F)
  let ?t = "atxn\<lparr>Op := Op atxn, freeBnums := freeBnums atxn @ F\<rparr>"
  have "valid_bnum ?t b" "b \<noteq> 0" using snoc.prems [of b] by (simp_all add: valid_bnum_def)
  then obtain q where fb: "FreeBlock G b ?t = Inr (?t\<lparr>Op := q, freeBnums := freeBnums ?t @ [b]\<rparr>)" by (rule FreeBlock_valid)
  have "atxn_run G atxn ?t" by (rule snoc.IH) (simp add: snoc.prems)
  from run_write [OF run_free_block [OF this fb], of op'] show ?case by (cases atxn) simp
qed

lemma WriteBits_blk:
  "(\<And>n. n \<in> set ns \<Longrightarrow> x \<noteq> b + n div 32768) \<Longrightarrow> blk G (Op (WriteBits G ns b al atxn)) x = blk G (Op atxn) x"
proof (induction ns arbitrary: atxn)
  case (Cons n ns)
  have "b + n div 32768 \<noteq> x" using Cons.prems [of n] by auto
  then show ?case using Cons by (simp add: Let_def blk_def Block2addr_def ow_block)
qed simp

lemma bitmap_not_data:
  assumes wf: "super_wf G (at_Super atxn)" and n: "n < MaxBnum (at_Super atxn)" and x: "valid_bnum atxn x"
  shows "x \<noteq> BitmapBlockStart (at_Super atxn) + n div 32768"
proof -
  note l = super_wf_layout [OF wf]
  have m: "unat (Maxaddr (at_Super atxn)) < 2 ^ 60" using wf by (simp add: super_wf_def)
  have d: "unat (n div 32768) \<le> unat (Maxaddr (at_Super atxn)) div 32768"
    using n by (simp add: unat_div MaxBnum_def word_less_nat_alt div_le_mono)
  then have "unat (BitmapBlockStart (at_Super atxn) + n div 32768) = 513 + unat (n div 32768)" using l(1) m by (simp add: nowrap)
  then have "unat (BitmapBlockStart (at_Super atxn) + n div 32768) < unat (DataStart (at_Super atxn))" using d l(4) by simp
  then show ?thesis using x by (auto simp: valid_bnum_def word_le_nat_alt)
qed

lemma PreCommit_blk:
  assumes wf: "super_wf G (at_Super atxn)" and f: "\<And>n. n \<in> set (freeBnums atxn) \<Longrightarrow> n < MaxBnum (at_Super atxn)"
    and "allocBnums atxn = []" "allocInums atxn = []" "freeInums atxn = []" and x: "valid_bnum atxn x"
  shows "blk G (Op (PreCommit G atxn)) x = blk G (Op atxn) x"
  using assms(3-5) WriteBits_blk [of "freeBnums atxn" x "BitmapBlockStart (at_Super atxn)"] bitmap_not_data [OF wf f x]
  by (simp add: PreCommit_def Let_def)

end

text \<open>A cached inode on an idle file system that is well formed there.\<close>

definition shrinkable ::
    "('log, 'op, 'alc, 'lm, 'd) golib \<Rightarrow> ('alc \<Rightarrow> u64 set) \<Rightarrow> ('alc \<Rightarrow> u64 set) \<Rightarrow> ('lm \<Rightarrow> u64 set) \<Rightarrow>
     ('log, 'alc, 'lm, 'd) FsState \<Rightarrow> u64 \<Rightarrow> iref \<Rightarrow> bool" where
  "shrinkable G used arange held st inum r \<longleftrightarrow>
     fs_idle held st \<and> cached st inum r \<and>
     file_inv G used arange (Atxn (FsTxn_Begin G st)) (iobj st r) \<and>
     ino_blocks G (jrnl_Begin G (Txn st)) (blks (iobj st r)) \<subseteq> arange (fs_Balloc st) \<and>
     unat (ShrinkSize (iobj st r)) \<le> MAXBLKS"

context gojournal
begin

lemma arange_foldl_FreeNum: "arange (foldl (FreeNum G) a ns) = arange a"
  by (induction ns arbitrary: a) (simp_all add: free_range)

text \<open>One transaction of the shrinker.\<close>

lemma shrink_txn:
  assumes s: "shrinkable G used arange held st inum r"
  obtains op ok st' k bs op' F where "GetInodeInumFree G inum (FsTxn_Begin G st) = Inr (r, op)"
    and "on_inode r (Shrink G) op = Inr (RoundUp G (Size (iobj st r)) 4096 < k, op')"
    and "Commit G op' = (ok, st')"
    and "iobj (Fs st') r = (iobj st r)\<lparr>ShrinkSize := k, blks := bs\<rparr>"
    and "RoundUp G (Size (iobj st r)) 4096 < k \<Longrightarrow> unat k < unat (ShrinkSize (iobj st r))"
    and "ok \<Longrightarrow> shrinkable G used arange held (Fs st') inum r"
proof -
  let ?ip = "iobj st r" and ?a = "Atxn (FsTxn_Begin G st)"
  have inv: "file_inv G used arange ?a ?ip" and mx: "unat (ShrinkSize ?ip) \<le> MAXBLKS" and idle: "fs_idle held st"
    and ca: "cached st inum r" and ar: "ino_blocks G (Op ?a) (blks ?ip) \<subseteq> arange (Balloc ?a)"
    using s by (auto simp: shrinkable_def FsTxn_Begin_def AllocTxn_Begin_def)
  obtain op where g: "GetInodeInumFree G inum (FsTxn_Begin G st) = Inr (r, op)" and ti: "txn_inv held op"
    and at: "inode_at op r = ?ip" "Atxn op = ?a" "entries (Icache (Fs op)) = entries (Icache st)" "iobj (Fs op) = iobj st"
      "fs_Super (Fs op) = fs_Super st"
    by (rule get_cached [OF idle ca])
  obtain k bs q F where S: "Shrink G ?ip ?a = Inr (RoundUp G (Size ?ip) 4096 < k, ?ip\<lparr>ShrinkSize := k, blks := bs\<rparr>,
       ?a\<lparr>Op := q, freeBnums := freeBnums ?a @ F\<rparr>)" and sp: "shrink_spec G used arange ?ip ?a k bs q F"
    using Shrink_ok [OF inv mx] by blast
  let ?ip' = "?ip\<lparr>ShrinkSize := k, blks := bs\<rparr>" and ?a' = "?a\<lparr>Op := q, freeBnums := freeBnums ?a @ F\<rparr>"
  let ?op' = "put_inode r ?ip' (op\<lparr>Atxn := ?a'\<rparr>)"
  have o: "on_inode r (Shrink G) op = Inr (RoundUp G (Size ?ip) 4096 < k, ?op')" using S at by (simp add: on_inode_def)
  obtain ok st' where c: "Commit G ?op' = (ok, st')" by (cases "Commit G ?op'")
  have a0: "freeBnums ?a = []" "allocBnums ?a = []" "allocInums ?a = []" "freeInums ?a = []" "at_Super ?a = fs_Super st" "Balloc ?a = fs_Balloc st"
    by (simp_all add: FsTxn_Begin_def AllocTxn_Begin_def)
  have v: "valid_bnum ?a x \<and> x \<noteq> 0" if "x \<in> ino_blocks G (Op ?a) (blks ?ip)" for x
    using inv that zero_notin_ino [of G "Op ?a" "blks ?ip"] by (auto simp: file_inv_def)
  have Fsub: "set F \<subseteq> ino_blocks G (Op ?a) (blks ?ip)" and Fd: "set F \<inter> ino_blocks G q bs = {}"
    and inv': "file_inv G used arange ?a' ?ip'" and le: "unat k \<le> unat (ShrinkSize ?ip)"
    and pr: "RoundUp G (Size ?ip) 4096 < k \<and> shrinkFits G ?a 5 \<longrightarrow> unat k < unat (ShrinkSize ?ip)"
    and z: "\<And>x. x \<in> set F \<Longrightarrow> blk G q x = replicate 4096 0"
    using sp by (auto simp: shrink_spec_def)
  show thesis
  proof (rule that [OF g o c])
    show "unat k < unat (ShrinkSize ?ip)" if "RoundUp G (Size ?ip) 4096 < k"
      using pr that ndirty_begin by (simp add: shrinkFits_def FsTxn_Begin_def AllocTxn_Begin_def)
    have ti': "txn_inv held ?op'"
      by (rule txn_inv_put) (use ti at in simp_all)
    have c': "commitWait G True ?op' = (ok, st')" using c by (simp add: Commit_def)
    from commitWait_fs [OF ti' c'] obtain lm lg where lm: "held lm = {}" and fs: "Fs st' = (Fs ?op')\<lparr>Lockmap := lm, Txn := lg,
       fs_Balloc := foldl (FreeNum G) (Balloc (Atxn ?op')) (freeBnums (Atxn ?op')),
       fs_Ialloc := foldl (FreeNum G) (Ialloc (Atxn ?op')) (freeInums (Atxn ?op'))\<rparr>"
      by blast
    have o': "Atxn ?op' = ?a'" "iobj (Fs ?op') r = ?ip'" "entries (Icache (Fs ?op')) = entries (Icache st)" "fs_Super (Fs ?op') = fs_Super st"
      using at by (simp_all add: put_inode_def)
    show ir: "iobj (Fs st') r = ?ip'" using fs o'(2) by simp
    have bal: "fs_Balloc (Fs st') = foldl (FreeNum G) (fs_Balloc st) F" using fs o'(1) a0 by simp
    have Far: "set F \<subseteq> arange (fs_Balloc st)" using Fsub ar a0 by auto
    show "shrinkable G used arange held (Fs st') inum r" if "ok"
      unfolding shrinkable_def
    proof (intro conjI)
      show "fs_idle held (Fs st')" using ti' lm fs by (simp add: fs_idle_def txn_inv_def icache_ok_def)
      show "cached (Fs st') inum r" using s fs o'(3) by (simp add: shrinkable_def cached_def)
      show "unat (ShrinkSize (iobj (Fs st') r)) \<le> MAXBLKS" using ir le mx by simp
      let ?q = "jrnl_Begin G (Txn (Fs st'))"
      have run: "txn_run G (FsTxn_Begin G st) ?op'"
      proof -
        have "atxn_run G ?a ?a'" by (rule frees_run) (use Fsub v in blast)
        then have "txn_run G (FsTxn_Begin G st) (op\<lparr>Atxn := ?a'\<rparr>)" using t_atxn [OF t_inum_free [OF t_start g]] at by simp
        then show ?thesis by (rule t_inode) (use at in simp)
      qed
      have "on (Txn st) (Op ?a')" by (rule on_Shrink [OF S]) (simp add: FsTxn_Begin_def AllocTxn_Begin_def on_begin)
      then have rd: "ReadBuf G ?q a sz = ReadBuf G (Op (PreCommit G ?a')) a sz" for a sz
        using commitWait_state(3) [OF idle run _ c', of a sz] o'(1) that Far a0 by simp
      have su: "super_wf G (at_Super ?a')" using inv by (simp add: file_inv_def)
      have same: "blk G ?q x = blk G (Op ?a') x" if "valid_bnum ?a' x" for x
      proof -
        have "n < MaxBnum (at_Super ?a')" if "n \<in> set (freeBnums ?a')" for n
          using that Fsub v a0 by (auto simp: valid_bnum_def)
        from PreCommit_blk [OF su this _ _ _ that] show ?thesis using a0 rd by (simp add: blk_def)
      qed
      note st = file_op_frame(1) [OF inv' same]
      have ib: "ino_blocks G ?q bs = ino_blocks G q bs" and inv2: "file_inv G used arange (?a'\<lparr>Op := ?q\<rparr>) ?ip'"
        using st by (simp_all add: file_step_def)
      have sub: "ino_blocks G q bs \<subseteq> ino_blocks G (Op ?a) (blks ?ip)" using sp by (simp add: shrink_spec_def)
      show "ino_blocks G ?q (blks (iobj (Fs st') r)) \<subseteq> arange (fs_Balloc (Fs st'))"
        using ir ib sub ar a0 bal by (auto simp: arange_foldl_FreeNum)
      have us: "used (fs_Balloc (Fs st')) = used (fs_Balloc st) - set F" using bal used_foldl_FreeNum [OF Far] by simp
      let ?b = "Atxn (FsTxn_Begin G (Fs st'))"
      have b: "at_Super ?b = fs_Super st" "Op ?b = ?q" "Balloc ?b = fs_Balloc (Fs st')"
        using fs o'(4) by (simp_all add: FsTxn_Begin_def AllocTxn_Begin_def)
      have vb: "valid_bnum ?b x = valid_bnum ?a' x" for x using b a0 by (simp add: valid_bnum_def)
      have "valid_bnum ?b n \<and> blk G ?q n = replicate 4096 0" if "n \<in> arange (Balloc ?b) - used (Balloc ?b)" for n
      proof (cases "n \<in> set F")
        case True
        then have "valid_bnum ?a' n" using Fsub v [of n] by (auto simp: valid_bnum_def)
        then show ?thesis using vb same z [OF True] by simp
      next
        case False
        then have "n \<in> arange (fs_Balloc st) - used (fs_Balloc st)" using that us b bal by (simp add: arange_foldl_FreeNum)
        then show ?thesis using inv2 a0 vb by (auto simp: file_inv_def balloc_inv_def valid_bnum_def)
      qed
      then show "file_inv G used arange ?b (iobj (Fs st') r)"
        using inv2 ir a0 b us Fd ib vb unfolding file_inv_def balloc_inv_def by (auto simp: valid_bnum_def)
    qed
  qed
qed

lemma DoShrink_ok:
  assumes "shrinkable G used arange held st inum r" and "0 < fuel"
    and "unat (ShrinkSize (iobj st r)) \<le> unat (RoundUp G (Size (iobj st r)) 4096) + fuel"
  shows "\<exists>ok st'. DoShrink G fuel inum sh st = Inr (ok, st') \<and> Size (iobj st' r) = Size (iobj st r) \<and>
     (ok \<and> \<not> crash sh \<longrightarrow> shrinkable G used arange held st' inum r \<and> \<not> IsShrinking G (iobj st' r))"
  using assms
proof (induction fuel arbitrary: st)
  case (Suc fuel)
  let ?ip = "iobj st r"
  from Suc.prems(1) show ?case
  proof (rule shrink_txn)
    fix op ok st' k bs op' F
    assume g: "GetInodeInumFree G inum (FsTxn_Begin G st) = Inr (r, op)"
      and o: "on_inode r (Shrink G) op = Inr (RoundUp G (Size ?ip) 4096 < k, op')" and c: "Commit G op' = (ok, st')"
      and ip: "iobj (Fs st') r = ?ip\<lparr>ShrinkSize := k, blks := bs\<rparr>"
      and pr: "RoundUp G (Size ?ip) 4096 < k \<Longrightarrow> unat k < unat (ShrinkSize ?ip)"
      and sh: "ok \<Longrightarrow> shrinkable G used arange held (Fs st') inum r"
    have run: "DoShrink G (Suc fuel) inum sh st = (if \<not> ok then Inr (False, Fs st') else if crashed sh then Inr (True, Fs st')
        else if RoundUp G (Size ?ip) 4096 < k then DoShrink G fuel inum sh (Fs st') else Inr (True, Fs st'))"
      using g o c by simp
    show ?thesis
    proof (cases "ok \<and> \<not> crashed sh \<and> RoundUp G (Size ?ip) 4096 < k")
      case True
      then have "0 < fuel" "unat (ShrinkSize (iobj (Fs st') r)) \<le> unat (RoundUp G (Size (iobj (Fs st') r)) 4096) + fuel"
        using pr Suc.prems(3) ip by (simp_all add: word_less_nat_alt)
      from Suc.IH [OF _ this] sh True show ?thesis using run ip by auto
    next
      case False
      have "Size (iobj (Fs st') r) = Size ?ip" using ip by simp
      moreover have "\<not> IsShrinking G (iobj (Fs st') r)" if "\<not> RoundUp G (Size ?ip) 4096 < k" using ip that by (simp add: IsShrinking_def)
      ultimately show ?thesis using False run sh by (auto simp: crashed_def)
    qed
  qed
qed simp

text \<open>Setting a size that needs the same number of blocks changes the inode only.\<close>

lemma Resize_same:
  assumes inv: "file_inv G used arange atxn ip" and r: "RoundUp G sz 4096 = RoundUp G (Size ip) 4096"
  shows "\<exists>op'. Resize G sz ip atxn = Inr (False, ip\<lparr>Size := sz, ShrinkSize := RoundUp G sz 4096\<rparr>, atxn\<lparr>Op := op'\<rparr>) \<and>
     file_inv G used arange (atxn\<lparr>Op := op'\<rparr>) (ip\<lparr>Size := sz, ShrinkSize := RoundUp G sz 4096\<rparr>) \<and>
     (\<forall>i < MAXBYTES. fbyte G op' (blks ip) i = fbyte G (Op atxn) (blks ip) i)"
proof -
  let ?ip = "ip\<lparr>Size := sz, ShrinkSize := RoundUp G sz 4096\<rparr>"
  have "file_inv G used arange atxn ?ip" using inv by (simp add: file_inv_def)
  then show ?thesis
  proof (rule WriteInode_step)
    fix op'
    assume w: "WriteInode G ?ip atxn = Inr (atxn\<lparr>Op := op'\<rparr>)" and st: "file_step G used arange ?ip atxn ?ip (atxn\<lparr>Op := op'\<rparr>)"
      and f: "\<And>i. i < MAXBYTES \<Longrightarrow> fbyte G op' (blks ?ip) i = fbyte G (Op atxn) (blks ?ip) i"
    have "Resize G sz ip atxn = Inr (False, ?ip, atxn\<lparr>Op := op'\<rparr>)" using w r by (simp add: Resize_def Let_def)
    then show ?thesis using file_step_inv [OF st] f by (intro exI [of _ op']) simp
  qed
qed

end

section \<open>An example\<close>

text \<open>Inode 2 was truncated to size 0 and still has its block 1539.\<close>

definition ex_cut :: Inode where
  "ex_cut = ex_file\<lparr>Size := 0, ShrinkSize := 1\<rparr>"

definition ex_cut_st :: "(u64 \<Rightarrow> nat \<Rightarrow> byte, bool list, u64 list, ref_disk) FsState" where
  "ex_cut_st = \<lparr>fs_Super = ex_super, Txn = (\<lambda>b i. if b = 1539 then 65 else 0),
     Icache = \<lparr>entries = [2 \<mapsto> \<lparr>entry.slot = \<lparr>Obj = Some 0\<rparr>, lru = True, entry_id = 2\<rparr>], lru_list = [2], cache_sz = 100, cnt = 1\<rparr>,
     Lockmap = [], fs_Balloc = replicate 1541 True @ replicate 459 False, fs_Ialloc = [], iobj = (\<lambda>_. ex_cut), inext = 1\<rparr>"

lemma ex_cut_inv: "file_inv ref_lib ref_used ref_range ex_fs ex_cut"
  using ex_file_inv(1) by (simp add: file_inv_def ex_cut_def)

lemma ex_cut_blocks: "ino_blocks ref_lib op (blks ex_cut) = {1539}"
  by (simp add: ex_cut_def ex_file_def one_block del: replicate.simps)

lemma ex_cut_shrinkable: "shrinkable ref_lib ref_used ref_range set ex_cut_st 2 0"
proof -
  have a: "Atxn (FsTxn_Begin ref_lib ex_cut_st) = ex_fs"
    by (simp add: FsTxn_Begin_def ex_cut_st_def ex_fs_def)
  have "fs_idle set ex_cut_st"
    by (auto simp: fs_idle_def ex_cut_st_def icache_ok_def cache_inv_def ex_cut_def ex_file_def)
  moreover have "iobj ex_cut_st 0 = ex_cut" "fs_Balloc ex_cut_st = Balloc ex_fs" by (simp_all add: ex_cut_st_def ex_fs_fields)
  moreover have "1539 \<in> ref_range (Balloc ex_fs)" by (simp add: ref_range_def ex_fs_fields)
  moreover have "cached ex_cut_st 2 0" by (simp add: cached_def ex_cut_st_def)
  moreover have "ShrinkSize ex_cut = 1" by (simp add: ex_cut_def)
  ultimately show ?thesis using a ex_cut_inv ex_cut_blocks by (simp add: shrinkable_def)
qed

section \<open>Properties\<close>

text \<open>C33: shrinking. For a well-formed file \<^verbatim>\<open>Shrink\<close> returns without a fault; its loop ends. It cuts the file down to some number of
  blocks, never below its size, and to more blocks than its size has only if the transaction has no room for another
  block: the contents of the file are as they were, no other block changes, the
  file stays well formed, and the blocks that it frees are its own, each freed once, and are zero. If the file had no block
  after its shrink size before, every block that was cut off is freed, index blocks included. The inode
  is stored, and \<^verbatim>\<open>Shrink\<close> asks for another transaction exactly if there is more to cut off.\<close>

theorem shrink_truncates:
  assumes G: "gojournal G on used arange held" and inv: "file_inv G used arange atxn ip"
    and mx: "unat (ShrinkSize ip) \<le> MAXBLKS" and sz: "unat (Size ip) \<le> MAXBYTES"
  shows "\<exists>k bs op' F. Shrink G ip atxn =
       Inr (RoundUp G (Size ip) 4096 < k, ip\<lparr>ShrinkSize := k, blks := bs\<rparr>, atxn\<lparr>Op := op', freeBnums := freeBnums atxn @ F\<rparr>) \<and>
     shrink_spec G used arange ip atxn k bs op' F \<and>
     contents G op' (ip\<lparr>ShrinkSize := k, blks := bs\<rparr>) = contents G (Op atxn) ip"
proof -
  obtain k bs op' F where S: "Shrink G ip atxn =
       Inr (RoundUp G (Size ip) 4096 < k, ip\<lparr>ShrinkSize := k, blks := bs\<rparr>, atxn\<lparr>Op := op', freeBnums := freeBnums atxn @ F\<rparr>)"
    and sp: "shrink_spec G used arange ip atxn k bs op' F" using gojournal.Shrink_ok [OF G inv mx] by blast
  from gojournal.Shrink_contents [OF G inv mx sz S] have "contents G op' (ip\<lparr>ShrinkSize := k, blks := bs\<rparr>) = contents G (Op atxn) ip" by simp
  then show ?thesis using S sp by blast
qed

theorem shrink_truncates_witness:
  "\<exists>k bs op' F. Shrink ref_lib ex_cut ex_fs =
     Inr (RoundUp ref_lib 0 4096 < k, ex_cut\<lparr>ShrinkSize := k, blks := bs\<rparr>, ex_fs\<lparr>Op := op', freeBnums := freeBnums ex_fs @ F\<rparr>) \<and>
     set F \<subseteq> {1539}"
proof -
  have e: "Size ex_cut = 0" "unat (ShrinkSize ex_cut) \<le> MAXBLKS" "unat (Size ex_cut) \<le> MAXBYTES" by (simp_all add: ex_cut_def)
  from shrink_truncates [OF ref_gojournal ex_cut_inv e(2,3)] obtain k bs op' F where
      S: "Shrink ref_lib ex_cut ex_fs = Inr (RoundUp ref_lib 0 4096 < k, ex_cut\<lparr>ShrinkSize := k, blks := bs\<rparr>,
        ex_fs\<lparr>Op := op', freeBnums := freeBnums ex_fs @ F\<rparr>)" and sp: "shrink_spec ref_lib ref_used ref_range ex_cut ex_fs k bs op' F"
    unfolding e(1) by blast
  have "set F \<subseteq> ino_blocks ref_lib (Op ex_fs) (blks ex_cut)" using sp unfolding shrink_spec_def by blast
  then show ?thesis using S unfolding ex_cut_blocks by blast
qed



text \<open>C35: truncating a file and extending it again brings its old bytes back. \<^verbatim>\<open>Resize\<close> frees whole blocks and does not clear the
  rest of the last block: a file that is cut to a size within its last block, and then set to its old
  size, has its old contents again, where the protocol asks for zero bytes.\<close>

theorem truncate_extend_restores:
  assumes G: "gojournal G on used arange held" and inv: "file_inv G used arange atxn ip"
    and sz: "unat (Size ip) \<le> MAXBYTES" "sz \<le> Size ip" and r: "RoundUp G sz 4096 = RoundUp G (Size ip) 4096"
  shows "\<exists>ip1 a1 ip2 a2. Resize G sz ip atxn = Inr (False, ip1, a1) \<and> Resize G (Size ip) ip1 a1 = Inr (False, ip2, a2) \<and>
     contents G (Op a1) ip1 = take (unat sz) (contents G (Op atxn) ip) \<and> contents G (Op a2) ip2 = contents G (Op atxn) ip"
proof -
  have le: "unat sz \<le> unat (Size ip)" using sz(2) by (simp add: word_le_nat_alt)
  obtain op1 where 1: "Resize G sz ip atxn = Inr (False, ip\<lparr>Size := sz, ShrinkSize := RoundUp G sz 4096\<rparr>, atxn\<lparr>Op := op1\<rparr>)"
    and inv1: "file_inv G used arange (atxn\<lparr>Op := op1\<rparr>) (ip\<lparr>Size := sz, ShrinkSize := RoundUp G sz 4096\<rparr>)"
    and f1: "\<And>i. i < MAXBYTES \<Longrightarrow> fbyte G op1 (blks ip) i = fbyte G (Op atxn) (blks ip) i"
    using gojournal.Resize_same [OF G inv r] by blast
  let ?ip1 = "ip\<lparr>Size := sz, ShrinkSize := RoundUp G sz 4096\<rparr>" and ?a1 = "atxn\<lparr>Op := op1\<rparr>"
  have "RoundUp G (Size ip) 4096 = RoundUp G (Size ?ip1) 4096" using r by simp
  from gojournal.Resize_same [OF G inv1 this] obtain op2 where
      2: "Resize G (Size ip) ?ip1 ?a1 = Inr (False, ?ip1\<lparr>Size := Size ip, ShrinkSize := RoundUp G (Size ip) 4096\<rparr>, ?a1\<lparr>Op := op2\<rparr>)"
    and f2: "\<And>i. i < MAXBYTES \<Longrightarrow> fbyte G op2 (blks ip) i = fbyte G op1 (blks ip) i"
    by auto
  show ?thesis using 1 2 f1 f2 sz le
    by (intro exI conjI) (assumption, assumption, auto simp: contents_def frange_def take_map)
qed

theorem truncate_extend_restores_witness:
  "\<exists>ip1 a1 ip2 a2. Resize ref_lib 1 ex_file ex_fs = Inr (False, ip1, a1) \<and> Resize ref_lib 5 ip1 a1 = Inr (False, ip2, a2) \<and>
     contents ref_lib (Op a2) ip2 = replicate 5 65"
proof -
  have e: "Size ex_file = 5" by (simp add: ex_file_def)
  have "RoundUp ref_lib 1 4096 = RoundUp ref_lib (Size ex_file) 4096" by (simp add: e ref_lib_def)
  from truncate_extend_restores [OF ref_gojournal ex_file_inv(1) _ _ this] e
  obtain ip1 a1 ip2 a2 where "Resize ref_lib 1 ex_file ex_fs = Inr (False, ip1, a1)" "Resize ref_lib 5 ip1 a1 = Inr (False, ip2, a2)"
     "contents ref_lib (Op a2) ip2 = contents ref_lib (Op ex_fs) ex_file" by auto
  moreover have "fbyte ref_lib (Op ex_fs) (blks ex_file) i = 65" if "i < 5" for i
    using that by (simp add: fbyte_def fwalk_def ex_file_def slot_def lev_def soff_def ex_fs_blk)
  then have "contents ref_lib (Op ex_fs) ex_file = replicate 5 65"
    unfolding contents_def e frange_def by (intro nth_equalityI) auto
  ultimately show ?thesis by auto
qed

text \<open>Shutting down waits for the shrinkers. The counter \<^verbatim>\<open>nthread\<close> is the number of shrinkers that were started and have not
  finished, from the start of the server on; when \<^verbatim>\<open>Shutdown\<close> or \<^verbatim>\<open>Crash\<close> returns, no shrinker is left and the counter is 0.\<close>

theorem shutdown_waits:
  assumes inv: "shrinker_inv sh"
    and s: "shrinker_Shutdown G fuel sh st = Inr (sh', st') \<or> shrinker_Crash G fuel sh st = Inr (sh', st')"
  shows "threads sh' = [] \<and> nthread sh' = 0 \<and> shrinker_inv MkShrinkerSt \<and> shrinker_inv (StartShrinker i sh)"
proof -
  have c: "shrinker_inv (sh\<lparr>crash := True\<rparr>)" using inv by (simp add: shrinker_inv_def)
  have "shrinker_inv sh' \<and> threads sh' = []"
    using s wait_threads_inv [OF inv refl, of G fuel st sh' st'] wait_threads_inv [OF c refl, of G fuel st sh' st']
    by (auto simp: shrinker_Shutdown_def shrinker_Crash_def)
  then show ?thesis using inv by (simp add: shrinker_inv_def MkShrinkerSt_inv [unfolded shrinker_inv_def] StartShrinker_inv [unfolded shrinker_inv_def])
qed

lemma DoShrink_ref_ok: "DoShrink ref_lib fuel inum sh st = Inr (ok, st') \<Longrightarrow> ok"
  by (induction fuel arbitrary: st)
     (auto simp: bnd_eq_Inr Let_def case_prod_beta Commit_def commitWait_def split: if_splits)

theorem shutdown_waits_witness:
  "\<exists>sh' st'. shrinker_Shutdown ref_lib 2 (StartShrinker 2 MkShrinkerSt) ex_cut_st = Inr (sh', st') \<and> nthread sh' = 0"
proof -
  let ?sh = "StartShrinker 2 MkShrinkerSt"
  have "iobj ex_cut_st 0 = ex_cut" "ShrinkSize ex_cut = 1" by (simp_all add: ex_cut_st_def ex_cut_def)
  then obtain ok st' where d: "DoShrink ref_lib 2 2 ?sh ex_cut_st = Inr (ok, st')"
    using gojournal.DoShrink_ok [OF ref_gojournal ex_cut_shrinkable, of 2 ?sh] by auto
  then have "ok" by (rule DoShrink_ref_ok)
  with d have "shrinker_Shutdown ref_lib 2 ?sh ex_cut_st = Inr (?sh\<lparr>nthread := nthread ?sh - 1, threads := []\<rparr>, st')"
    by (simp add: shrinker_Shutdown_def shrinker_def StartShrinker_def MkShrinkerSt_def del: DoShrink.simps)
  moreover from this have "nthread (?sh\<lparr>nthread := nthread ?sh - 1, threads := []\<rparr>) = 0"
    using shutdown_waits [OF StartShrinker_inv [OF MkShrinkerSt_inv]] by blast
  ultimately show ?thesis by blast
qed

end
