(* ===== verification/FileServe.thy ===== *)
theory FileServe
  imports NfsSpec ShrinkSpec
begin

text \<open>
  Reading and writing files through the NFS procedures: what \<^verbatim>\<open>READ\<close> and \<^verbatim>\<open>WRITE\<close> do to the contents of a file,
  across the transactions of several calls.
\<close>

section \<open>Transactions that only add blocks\<close>

text \<open>A transaction on the log \<open>lg\<close> that has not freed anything and has allocated blocks within the disk and numbers of inodes only.\<close>

definition clean :: "('log \<Rightarrow> 'op \<Rightarrow> bool) \<Rightarrow> 'log \<Rightarrow> ('d, 'op, 'alc) AllocTxn \<Rightarrow> bool" where
  "clean on lg a \<longleftrightarrow> on lg (Op a) \<and> (\<forall>b \<in> set (allocBnums a). b < MaxBnum (at_Super a)) \<and>
     (\<forall>i \<in> set (allocInums a). i < 32768) \<and> freeBnums a = [] \<and> freeInums a = []"

lemma AllocBlock_bound: "AllocBlock G a = Inr (b, a') \<Longrightarrow> b \<noteq> 0 \<Longrightarrow> b < MaxBnum (at_Super a)"
  by (auto simp: AllocBlock_def AssertValidBlock_def bnd_eq_Inr Let_def word_gt_0 not_le split: prod.splits if_splits)

context gojournal
begin

lemma clean_writes: "atxn_writes G (clean on lg)"
proof (unfold_locales, goal_cases)
  case (1 t b u)
  from AllocBlock_Inr [OF 1(2)] obtain balloc where
    u: "u = t\<lparr>Balloc := balloc, allocBnums := allocBnums t @ (if b = NULLBNUM G then [] else [b])\<rparr>" by blast
  then show ?case using 1(1) AllocBlock_bound [OF 1(2)] by (auto simp: clean_def)
qed (simp_all add: clean_def on_ow on_put)

lemma inode_bitmap_not_data:
  assumes wf: "super_wf G (at_Super atxn)" and n: "n < 32768" and x: "valid_bnum atxn x"
  shows "x \<noteq> BitmapInodeStart (at_Super atxn) + n div 32768"
proof -
  note l = super_wf_layout [OF wf]
  have "unat (n div 32768) = 0" using n by (simp add: unat_div word_less_nat_alt)
  then have "n div 32768 = 0" by (simp add: unat_eq_0)
  moreover have "BitmapInodeStart (at_Super atxn) < DataStart (at_Super atxn)" using l by (simp add: word_less_nat_alt)
  ultimately show ?thesis using x by (auto simp: valid_bnum_def)
qed

lemma PreCommit_blk_clean:
  assumes wf: "super_wf G (at_Super atxn)" and c: "clean on lg atxn" and x: "valid_bnum atxn x"
  shows "blk G (Op (PreCommit G atxn)) x = blk G (Op atxn) x"
proof -
  let ?s = "at_Super atxn"
  let ?a = "WriteBits G (allocInums atxn) (BitmapInodeStart ?s) True atxn"
  have "blk G (Op ?a) x = blk G (Op atxn) x"
    by (rule WriteBits_blk) (use c inode_bitmap_not_data [OF wf _ x] in \<open>auto simp: clean_def\<close>)
  moreover have "blk G (Op (WriteBits G (allocBnums atxn) (BitmapBlockStart ?s) True ?a)) x = blk G (Op ?a) x"
    by (rule WriteBits_blk) (use c bitmap_not_data [OF wf _ x] in \<open>auto simp: clean_def\<close>)
  ultimately show ?thesis using c by (simp add: PreCommit_def Let_def clean_def)
qed

text \<open>A file that is well formed in a transaction is well formed after its commit, with the same bytes.\<close>

lemma commit_file:
  assumes idle: "fs_idle held st" and run: "txn_run G (FsTxn_Begin G st) op" and cl: "clean on (Txn st) (Atxn op)"
    and inv: "file_inv G used arange (Atxn op) ip" and c: "commitWait G w op = (True, op')"
  shows "file_inv G used arange (Atxn (FsTxn_Begin G (Fs op'))) ip"
    and "i < MAXBYTES \<Longrightarrow> fbyte G (jrnl_Begin G (Txn (Fs op'))) (blks ip) i = fbyte G (Op (Atxn op)) (blks ip) i"
    and "j < MAXBLKS \<Longrightarrow> fwalk G (jrnl_Begin G (Txn (Fs op'))) (blks ip) j = fwalk G (Op (Atxn op)) (blks ip) j"
proof -
  let ?q = "jrnl_Begin G (Txn (Fs op'))" and ?a = "Atxn op"
  have ti: "txn_inv held op" by (rule txn_run_inv [OF run Begin_inv [OF idle]])
  have fr: "freeBnums ?a = []" "freeInums ?a = []" and on': "on (Txn st) (Op ?a)" using cl by (simp_all add: clean_def)
  note s = commitWait_state [OF idle run on' c]
  have su: "super_wf G (at_Super ?a)" using inv by (simp add: file_inv_def)
  have same: "blk G ?q x = blk G (Op ?a) x" if "valid_bnum ?a x" for x
    using PreCommit_blk_clean [OF su cl that] s(3) fr by (simp add: blk_def)
  note f = file_op_frame [OF inv same]
  show "i < MAXBYTES \<Longrightarrow> fbyte G ?q (blks ip) i = fbyte G (Op ?a) (blks ip) i"
    and "j < MAXBLKS \<Longrightarrow> fwalk G ?q (blks ip) j = fwalk G (Op ?a) (blks ip) j" using f(2,3) by simp_all
  obtain lm lg where "Fs op' = (Fs op)\<lparr>Lockmap := lm, Txn := lg, fs_Balloc := Balloc ?a, fs_Ialloc := Ialloc ?a\<rparr>"
    using commitWait_fs [OF ti c] fr by auto
  moreover have "fs_Super (Fs op') = at_Super ?a" using s(4,5) fr by simp
  ultimately have b: "at_Super (Atxn (FsTxn_Begin G (Fs op'))) = at_Super ?a" "Op (Atxn (FsTxn_Begin G (Fs op'))) = ?q"
    "Balloc (Atxn (FsTxn_Begin G (Fs op'))) = Balloc ?a"
    by (simp_all add: FsTxn_Begin_def AllocTxn_Begin_def)
  have "file_inv G used arange (?a\<lparr>Op := ?q\<rparr>) ip" by (rule file_step_inv [OF f(1)])
  then show "file_inv G used arange (Atxn (FsTxn_Begin G (Fs op'))) ip"
    using b by (simp add: file_inv_def balloc_inv_def valid_bnum_def)
qed

end

section \<open>A regular file between two calls\<close>

text \<open>The inode \<open>r\<close> of the number \<open>inum\<close> is a regular file in the cache, well formed on the log, and not being truncated.\<close>

definition file_at ::
    "('log, 'op, 'alc, 'lm, 'd) golib \<Rightarrow> ('alc \<Rightarrow> u64 set) \<Rightarrow> ('alc \<Rightarrow> u64 set) \<Rightarrow> ('lm \<Rightarrow> u64 set) \<Rightarrow>
     ('log, 'alc, 'lm, 'd) FsState \<Rightarrow> u64 \<Rightarrow> iref \<Rightarrow> bool" where
  "file_at G used arange held st inum r \<longleftrightarrow>
     fs_idle held st \<and> cached st inum r \<and> Kind (iobj st r) = NF3REG \<and> Nlink (iobj st r) \<noteq> 0 \<and>
     unat (Size (iobj st r)) \<le> MAXBYTES \<and> \<not> IsShrinking G (iobj st r) \<and>
     file_inv G used arange (Atxn (FsTxn_Begin G st)) (iobj st r)"

definition file_bytes :: "('log, 'op, 'alc, 'lm, 'd) golib \<Rightarrow> ('log, 'alc, 'lm, 'd) FsState \<Rightarrow> iref \<Rightarrow> byte list" where
  "file_bytes G st r = contents G (jrnl_Begin G (Txn st)) (iobj st r)"

text \<open>Two logs that read the same: what is on disk is the same.\<close>

definition same_log :: "('log, 'op, 'alc, 'lm, 'd) golib \<Rightarrow> 'log \<Rightarrow> 'log \<Rightarrow> bool" where
  "same_log G lg lg' \<longleftrightarrow> (\<forall>a sz. ReadBuf G (jrnl_Begin G lg') a sz = ReadBuf G (jrnl_Begin G lg) a sz)"

text \<open>No block is free.\<close>

definition no_block :: "('alc \<Rightarrow> u64 set) \<Rightarrow> ('alc \<Rightarrow> u64 set) \<Rightarrow> ('log, 'alc, 'lm, 'd) FsState \<Rightarrow> bool" where
  "no_block used arange st \<longleftrightarrow> arange (fs_Balloc st) \<subseteq> used (fs_Balloc st)"

context gojournal
begin

lemma Begin_clean: "clean on (Txn st) (Atxn (FsTxn_Begin G st))" "Op (Atxn (FsTxn_Begin G st)) = jrnl_Begin G (Txn st)"
  by (simp_all add: clean_def FsTxn_Begin_def AllocTxn_Begin_def on_begin)

text \<open>A transaction that works on the file and commits.\<close>

lemma file_txn:
  assumes f: "file_at G used arange held st inum r"
    and get: "GetInodeFh G fh3 (FsTxn_Begin G st) = Inr (Some r, op)" and at: "inode_at op r = iobj st r"
      "Atxn op = Atxn (FsTxn_Begin G st)" "entries (Icache (Fs op)) = entries (Icache st)" "txn_inv held op"
    and a: "atxn_run G (Atxn op) a'" "clean on (Txn st) a'" "file_inv G used arange a' ip'"
    and ip': "Inum ip' = Inum (iobj st r)" "Kind ip' = NF3REG" "Nlink ip' \<noteq> 0" "unat (Size ip') \<le> MAXBYTES" "\<not> IsShrinking G ip'"
    and c': "commitWait G w (put_inode r ip' (op\<lparr>Atxn := a'\<rparr>)) = (ok, op')" and ok: "ok"
  shows "file_at G used arange held (Fs op') inum r" and "iobj (Fs op') r = ip'"
    and "i < MAXBYTES \<Longrightarrow> fbyte G (jrnl_Begin G (Txn (Fs op'))) (blks ip') i = fbyte G (Op a') (blks ip') i"
    and "j < MAXBLKS \<Longrightarrow> fwalk G (jrnl_Begin G (Txn (Fs op'))) (blks ip') j = fwalk G (Op a') (blks ip') j"
proof -
  let ?op = "put_inode r ip' (op\<lparr>Atxn := a'\<rparr>)"
  have c: "commitWait G w ?op = (True, op')" using c' ok by simp
  have idle: "fs_idle held st" and ca: "cached st inum r" using f by (simp_all add: file_at_def)
  have "txn_run G (FsTxn_Begin G st) (op\<lparr>Atxn := a'\<rparr>)" by (rule t_atxn [OF t_fh [OF t_start get] a(1)])
  then have run: "txn_run G (FsTxn_Begin G st) ?op" by (rule t_inode) (simp add: ip' at)
  have A: "Atxn ?op = a'" by (simp add: put_inode_def)
  note cf = commit_file [OF idle run, unfolded A, OF a(2,3) c]
  show "i < MAXBYTES \<Longrightarrow> fbyte G (jrnl_Begin G (Txn (Fs op'))) (blks ip') i = fbyte G (Op a') (blks ip') i"
    and "j < MAXBLKS \<Longrightarrow> fwalk G (jrnl_Begin G (Txn (Fs op'))) (blks ip') j = fwalk G (Op a') (blks ip') j"
    using cf(2,3) by blast+
  have ti: "txn_inv held ?op" by (rule txn_run_inv [OF run Begin_inv [OF idle]])
  obtain lm lg ba ia where fs: "Fs op' = (Fs ?op)\<lparr>Lockmap := lm, Txn := lg, fs_Balloc := ba, fs_Ialloc := ia\<rparr>"
    using commitWait_fs [OF ti c] by blast
  show ir: "iobj (Fs op') r = ip'" using fs by (simp add: put_inode_def)
  have "cached (Fs op') inum r" using ca fs at(3) by (simp add: cached_def put_inode_def)
  then show "file_at G used arange held (Fs op') inum r"
    using ir ip' cf(1) commitWait_idle [OF ti c] by (simp add: file_at_def)
qed

lemma commits_wait: "\<forall>op lg. fst (CommitWait G op True lg) \<Longrightarrow> commitWait G True op = (ok, op') \<Longrightarrow> ok"
  by (auto simp: commitWait_def Let_def split: prod.splits) (metis fst_conv)

lemma commits_any: "\<forall>op w lg. fst (CommitWait G op w lg) \<Longrightarrow> commitWait G w op = (ok, op') \<Longrightarrow> ok"
  by (auto simp: commitWait_def Let_def split: prod.splits) (metis fst_conv)

text \<open>The commit of such a transaction, whether it succeeds or not.\<close>

lemma clean_commit:
  assumes idle: "fs_idle held st" and run: "txn_run G (FsTxn_Begin G st) op" and cl: "clean on (Txn st) (Atxn op)"
    and c: "commitWait G w op = (ok, op')"
  shows "fs_idle held (Fs op')" and "fs_Balloc (Fs op') = Balloc (Atxn op)" and "\<not> ok \<Longrightarrow> same_log G (Txn st) (Txn (Fs op'))"
proof -
  have ti: "txn_inv held op" by (rule txn_run_inv [OF run Begin_inv [OF idle]])
  have fr: "freeBnums (Atxn op) = []" "freeInums (Atxn op) = []" and on': "on (Txn st) (Op (Atxn op))" using cl by (simp_all add: clean_def)
  show "fs_idle held (Fs op')" by (rule commitWait_idle [OF ti c])
  show "fs_Balloc (Fs op') = Balloc (Atxn op)" using commitWait_fs [OF ti c] fr by auto
  show "same_log G (Txn st) (Txn (Fs op'))" if "\<not> ok"
    using commitWait_state(3) [OF idle run on' c] fr that by (simp add: same_log_def)
qed

text \<open>\<^verbatim>\<open>READ\<close>\<close>

lemma READ_ok:
  assumes f: "file_at G used arange held (fsstate nfs) inum r"
    and fh: "MakeFh G fh3 = Inr \<lparr>Ino = inum, fh_Gen = Gen (iobj (fsstate nfs) r)\<rparr>"
  shows "\<exists>reply nfs' m. NFSPROC3_READ G \<lparr>READ3args_File = fh3, READ3args_Offset = off, READ3args_Count = n\<rparr> nfs = Inr (reply, nfs') \<and>
     m \<le> unat n \<and> READ3resok_Data (READ3res_Resok reply) = take m (drop (unat off) (file_bytes G (fsstate nfs) r)) \<and>
     READ3resok_Count (READ3res_Resok reply) = of_nat (length (READ3resok_Data (READ3res_Resok reply))) \<and>
     (READ3resok_Eof (READ3res_Resok reply) \<longleftrightarrow> unat (Size (iobj (fsstate nfs) r)) \<le> unat off) \<and>
     (m < unat n \<and> unat off + m < unat (Size (iobj (fsstate nfs) r)) \<longrightarrow> no_block used arange (fsstate nfs') \<and>
        fwalk G (jrnl_Begin G (Txn (fsstate nfs))) (blks (iobj (fsstate nfs) r)) ((unat off + m) div 4096) = 0) \<and>
     fs_idle held (fsstate nfs') \<and> READ3res_Status reply \<in> {NFS3_OK, NFS3ERR_SERVERFAULT} \<and>
     ((\<forall>op lg. fst (CommitWait G op True lg)) \<longrightarrow> READ3res_Status reply = NFS3_OK) \<and>
     (READ3res_Status reply = NFS3_OK \<longrightarrow> file_at G used arange held (fsstate nfs') inum r \<and>
        file_bytes G (fsstate nfs') r = file_bytes G (fsstate nfs) r) \<and>
     (READ3res_Status reply = NFS3ERR_SERVERFAULT \<longrightarrow> same_log G (Txn (fsstate nfs)) (Txn (fsstate nfs')))"
proof -
  let ?st = "fsstate nfs" and ?ip = "iobj (fsstate nfs) r" and ?n = "ucast n :: u64"
  have fa: "fs_idle held ?st" "cached ?st inum r" "Kind ?ip = NF3REG" "Nlink ?ip \<noteq> 0" "unat (Size ?ip) \<le> MAXBYTES"
    "\<not> IsShrinking G ?ip" and inv: "file_inv G used arange (Atxn (FsTxn_Begin G ?st)) ?ip"
    using f by (simp_all add: file_at_def)
  have un: "unat ?n = unat n" by simp
  have nw: "unat off + unat ?n < 2 ^ 64" if "off < Size ?ip"
    using that fa(5) unsigned_less [of n, where ?'a = nat] by (simp add: word_less_nat_alt)
  obtain op where get: "GetInodeFh G fh3 (FsTxn_Begin G ?st) = Inr (Some r, op)" and ti: "txn_inv held op"
    and at: "inode_at op r = ?ip" "Atxn op = Atxn (FsTxn_Begin G ?st)" "entries (Icache (Fs op)) = entries (Icache ?st)"
    by (rule get_cached_fh [OF fa(1,2) fh]) (use fa in simp_all)
  obtain m ip' a' where rd: "Read G off ?n ?ip (Atxn op) =
       Inr (take m (drop (unat off) (contents G (Op (Atxn op)) ?ip)), unat (Size ?ip) \<le> unat off, ip', a')"
    and m: "m \<le> unat n" and st: "file_step G used arange ?ip (Atxn op) ip' a'"
    and same: "contents G (Op a') ip' = contents G (Op (Atxn op)) ?ip"
    and hole: "m < unat n \<and> unat off + m < unat (Size ?ip) \<longrightarrow> exhausted used arange a' \<and>
        fwalk G (Op (Atxn op)) (blks ?ip) ((unat off + m) div 4096) = 0"
    using Read_ok [OF inv fa(5) nw] at(2) un by auto
  let ?op = "put_inode r ip' (op\<lparr>Atxn := a'\<rparr>)"
  obtain bs where ip': "ip' = ?ip\<lparr>blks := bs\<rparr>" using st by (auto simp: file_step_def)
  obtain ok op' where c: "commitWait G True ?op = (ok, op')" by (cases "commitWait G True ?op")
  have cl: "clean on (Txn ?st) a'"
    using retD [OF atxn_writes.Read_Q [OF clean_writes] rd] Begin_clean(1) [of ?st] at(2) by simp
  have run: "atxn_run G (Atxn op) a'" using retD [OF run.Read_Q [OF run_start] rd] by simp
  have inv': "file_inv G used arange a' ip'" by (rule file_step_inv [OF st])
  note ft = file_txn [OF f get at ti run cl inv' _ _ _ _ _ c]
  have fb: "file_bytes G ?st r = contents G (Op (Atxn op)) ?ip" using at(2) Begin_clean(2) [of ?st] by (simp add: file_bytes_def)
  have rest: "file_at G used arange held (Fs op') inum r \<and> file_bytes G (Fs op') r = file_bytes G ?st r" if "ok"
  proof -
    have t: "file_at G used arange held (Fs op') inum r" "iobj (Fs op') r = ip'"
        "\<And>i. i < MAXBYTES \<Longrightarrow> fbyte G (jrnl_Begin G (Txn (Fs op'))) bs i = fbyte G (Op a') bs i"
      using ft that fa by (simp_all add: ip' IsShrinking_def)
    have "contents G (jrnl_Begin G (Txn (Fs op'))) ip' = contents G (Op a') ip'"
      unfolding contents_def frange_def by (rule map_cong) (use t(3) fa(5) ip' in simp_all)
    then show ?thesis using t(1,2) same fb by (simp add: file_bytes_def)
  qed
  let ?R = "(READ3res_Resok zero_READ3res)\<lparr>READ3resok_Count := of_nat (length (take m (drop (unat off) (file_bytes G ?st r)))),
      READ3resok_Data := take m (drop (unat off) (file_bytes G ?st r)), READ3resok_Eof := unat (Size ?ip) \<le> unat off\<rparr>"
  let ?reply = "zero_READ3res\<lparr>READ3res_Resok := ?R, READ3res_Status := if ok then NFS3_OK else NFS3ERR_SERVERFAULT\<rparr>"
  have res: "NFSPROC3_READ G \<lparr>READ3args_File = fh3, READ3args_Offset = off, READ3args_Count = n\<rparr> nfs = Inr (?reply, put_fs op' nfs)"
    using get at(1) fa(3) rd c fb
    by (simp add: NFSPROC3_READ_def doRead_def ip_Read_def on_inode_def commitReply_def Commit_def)
  have tr: "txn_run G (FsTxn_Begin G ?st) ?op"
    by (rule t_inode [OF t_atxn [OF t_fh [OF t_start get] run]]) (simp add: ip' at)
  have A: "Atxn ?op = a'" by (simp add: put_inode_def)
  note cc = clean_commit [OF fa(1) tr, unfolded A, OF cl c]
  have h: "m < unat n \<and> unat off + m < unat (Size ?ip) \<longrightarrow> no_block used arange (Fs op') \<and>
      fwalk G (jrnl_Begin G (Txn ?st)) (blks ?ip) ((unat off + m) div 4096) = 0"
    using hole at(2) Begin_clean(2) [of ?st] cc(2) by (simp add: no_block_def exhausted_def)
  have k: "(\<forall>op lg. fst (CommitWait G op True lg)) \<longrightarrow> ok" using commits_wait [OF _ c] by blast
  show ?thesis unfolding res
    by (rule exI [of _ ?reply], rule exI [of _ "put_fs op' nfs"], rule exI [of _ m]) (use m h rest cc(1,3) k in auto)
qed

text \<open>\<^verbatim>\<open>WRITE\<close>\<close>

lemma RoundUp_mono: "unat a \<le> unat b \<Longrightarrow> unat b < 2 ^ 63 \<Longrightarrow> RoundUp G a 4096 \<le> RoundUp G b 4096"
  by (simp add: word_le_nat_alt RoundUp div_le_mono)

text \<open>The commit that \<^verbatim>\<open>WRITE\<close> chooses.\<close>

lemma write_commit:
  "\<exists>w. (if hw = FILE_SYNC then Commit G op else if hw = DATA_SYNC then CommitData G op else CommitUnstable G op) = commitWait G w op \<and>
     (hw = FILE_SYNC \<longrightarrow> w)"
  by (auto simp: Commit_def CommitData_def CommitUnstable_def)

lemma WRITE_run:
  assumes f: "file_at G used arange held (fsstate nfs) inum r"
    and fh: "MakeFh G fh3 = Inr \<lparr>Ino = inum, fh_Gen = Gen (iobj (fsstate nfs) r)\<rparr>" and lb: "(ucast n :: u64) < LogBytes G"
    and w: "Write G off (ucast n) data (iobj (fsstate nfs) r) (Atxn (FsTxn_Begin G (fsstate nfs))) = Inr (cn, wok, ip', a')"
  obtains op where "GetInodeFh G fh3 (FsTxn_Begin G (fsstate nfs)) = Inr (Some r, op)" and "txn_inv held op"
    and "inode_at op r = iobj (fsstate nfs) r" and "Atxn op = Atxn (FsTxn_Begin G (fsstate nfs))"
    and "entries (Icache (Fs op)) = entries (Icache (fsstate nfs))" and "iobj (Fs op) = iobj (fsstate nfs)"
    and "\<not> wok \<Longrightarrow> NFSPROC3_WRITE G (Suc fuel) \<lparr>WRITE3args_File = fh3, WRITE3args_Offset = off, WRITE3args_Count = n,
       WRITE3args_Stable = how, WRITE3args_Data = data\<rparr> nfs =
       Inr (zero_WRITE3res\<lparr>WRITE3res_Status := NFS3ERR_NOSPC\<rparr>, put_fs (Abort G (put_inode r ip' (op\<lparr>Atxn := a'\<rparr>))) nfs)"
    and "wok \<Longrightarrow> \<exists>c ok op' reply. commitWait G c (put_inode r ip' (op\<lparr>Atxn := a'\<rparr>)) = (ok, op') \<and> (how = FILE_SYNC \<longrightarrow> c) \<and>
       NFSPROC3_WRITE G (Suc fuel) \<lparr>WRITE3args_File = fh3, WRITE3args_Offset = off, WRITE3args_Count = n,
       WRITE3args_Stable = how, WRITE3args_Data = data\<rparr> nfs = Inr (reply, put_fs op' nfs) \<and>
       WRITE3res_Status reply = (if ok then NFS3_OK else NFS3ERR_SERVERFAULT) \<and>
       (ok \<longrightarrow> WRITE3resok_Count (WRITE3res_Resok reply) = ucast cn)"
proof -
  let ?st = "fsstate nfs" and ?ip = "iobj (fsstate nfs) r" and ?n = "ucast n :: u64"
  have fa: "fs_idle held ?st" "cached ?st inum r" "Kind ?ip = NF3REG" "Nlink ?ip \<noteq> 0" "\<not> IsShrinking G ?ip"
    using f by (simp_all add: file_at_def)
  obtain op where get: "GetInodeFh G fh3 (FsTxn_Begin G ?st) = Inr (Some r, op)" and ti: "txn_inv held op"
    and at: "inode_at op r = ?ip" "Atxn op = Atxn (FsTxn_Begin G ?st)" "entries (Icache (Fs op)) = entries (Icache ?st)" "iobj (Fs op) = iobj ?st"
    by (rule get_cached_fh [OF fa(1,2) fh]) (use fa in simp_all)
  let ?op = "put_inode r ip' (op\<lparr>Atxn := a'\<rparr>)"
  let ?args = "\<lparr>WRITE3args_File = fh3, WRITE3args_Offset = off, WRITE3args_Count = n, WRITE3args_Stable = how, WRITE3args_Data = data\<rparr>"
  have gs: "getShrink G (Suc fuel) fh3 (shrinkst nfs) ?st = Inr (op, Some r, NFS3_OK)" using get at(1) fa(5) by simp
  have iw: "ip_Write G off ?n data r op = Inr ((cn, wok), ?op)" using w at(1,2) by (simp add: ip_Write_def on_inode_def)
  have lb': "(2093056 \<le> (ucast n :: u64)) = False" using lb by simp
  note pre = gs at(1) fa(3) iw
  define hw where "hw = (if \<not> Unstable nfs then FILE_SYNC else WRITE3args_Stable ?args)"
  obtain c where c: "(if hw = FILE_SYNC then Commit G ?op else if hw = DATA_SYNC then CommitData G ?op else CommitUnstable G ?op) =
      commitWait G c ?op" and cs: "hw = FILE_SYNC \<longrightarrow> c" using write_commit [of hw ?op] by blast
  obtain ok op' where co: "commitWait G c ?op = (ok, op')" by (cases "commitWait G c ?op")
  let ?wcc = "(WRITE3resok_File_wcc (WRITE3res_Resok zero_WRITE3res))\<lparr>Wcc_data_After := \<lparr>Post_op_attr_Attributes_follow = True,
      Post_op_attr_Attributes = MkFattr (inode_at op' r)\<rparr>\<rparr>"
  let ?R = "(WRITE3res_Resok zero_WRITE3res)\<lparr>WRITE3resok_Count := ucast cn, WRITE3resok_Committed := hw, WRITE3resok_File_wcc := ?wcc\<rparr>"
  let ?reply = "if ok then zero_WRITE3res\<lparr>WRITE3res_Status := NFS3_OK, WRITE3res_Resok := ?R\<rparr>
     else zero_WRITE3res\<lparr>WRITE3res_Status := NFS3ERR_SERVERFAULT\<rparr>"
  show thesis
  proof (rule that [OF get ti at])
    show "NFSPROC3_WRITE G (Suc fuel) ?args nfs = Inr (zero_WRITE3res\<lparr>WRITE3res_Status := NFS3ERR_NOSPC\<rparr>, put_fs (Abort G ?op) nfs)" if "\<not> wok"
      using pre lb' that by (simp add: NFSPROC3_WRITE_def del: getShrink.simps)
    assume "wok"
    then have "NFSPROC3_WRITE G (Suc fuel) ?args nfs = Inr (?reply, put_fs op' nfs)"
      using pre by (simp add: NFSPROC3_WRITE_def Let_def hw_def [symmetric] lb' c co split del: if_split del: getShrink.simps)
         (cases ok; simp add: Let_def)
    moreover have "how = FILE_SYNC \<longrightarrow> c" using cs by (simp add: hw_def)
    ultimately show "\<exists>c ok op' reply. commitWait G c ?op = (ok, op') \<and> (how = FILE_SYNC \<longrightarrow> c) \<and>
       NFSPROC3_WRITE G (Suc fuel) ?args nfs = Inr (reply, put_fs op' nfs) \<and>
       WRITE3res_Status reply = (if ok then NFS3_OK else NFS3ERR_SERVERFAULT) \<and> (ok \<longrightarrow> WRITE3resok_Count (WRITE3res_Resok reply) = ucast cn)"
      using co by (intro exI [of _ c] exI [of _ ok] exI [of _ op'] exI [of _ ?reply]) simp
  qed
qed

text \<open>The inode after \<^const>\<open>Write\<close>.\<close>

lemma written_inode:
  assumes f: "file_at G used arange held st inum r" and wr: "unat off + unat (n :: u64) \<le> unat (MaxFileSize G)" "unat n \<le> length data"
    and st: "file_step G used arange (iobj st r) a (ip'\<lparr>Size := Size (iobj st r)\<rparr>) a'" and cn: "unat (cn :: u64) \<le> unat n"
    and sz: "unat (Size ip') = (if 0 < unat cn then max (unat (Size (iobj st r))) (unat off + unat cn) else unat (Size (iobj st r)))"
  shows "file_inv G used arange a' ip'" and "Inum ip' = Inum (iobj st r)" and "Kind ip' = NF3REG" and "Nlink ip' \<noteq> 0"
    and "unat (Size ip') \<le> MAXBYTES" and "\<not> IsShrinking G ip'" and "Gen ip' = Gen (iobj st r)" and "Nlink ip' = Nlink (iobj st r)"
proof -
  let ?ip = "iobj st r"
  have fa: "Kind ?ip = NF3REG" "Nlink ?ip \<noteq> 0" "unat (Size ?ip) \<le> MAXBYTES" "\<not> IsShrinking G ?ip" using f by (simp_all add: file_at_def)
  have max: "unat (MaxFileSize G) = 1073774592" using MaxFileSize_val by simp
  obtain bs where ips: "ip'\<lparr>Size := Size ?ip\<rparr> = ?ip\<lparr>blks := bs\<rparr>" using st by (auto simp: file_step_def)
  show "file_inv G used arange a' ip'" using file_step_inv [OF st] by (simp add: file_inv_def)
  show sm: "unat (Size ip') \<le> MAXBYTES" using sz fa(3) wr max cn by auto
  have "unat (Size ?ip) \<le> unat (Size ip')" using sz by auto
  then show "\<not> IsShrinking G ip'"
    using fa(4) RoundUp_mono [of "Size ?ip" "Size ip'"] sm arg_cong [OF ips, of ShrinkSize] by (auto simp: IsShrinking_def intro: order_trans)
  show "Inum ip' = Inum ?ip" "Kind ip' = NF3REG" "Nlink ip' \<noteq> 0" "Gen ip' = Gen ?ip" "Nlink ip' = Nlink ?ip"
    using arg_cong [OF ips, of Inum] arg_cong [OF ips, of Kind] arg_cong [OF ips, of Nlink] arg_cong [OF ips, of Gen] fa(1,2) by simp_all
qed

lemma WRITE_ok:
  assumes f: "file_at G used arange held (fsstate nfs) inum r"
    and fh: "MakeFh G fh3 = Inr \<lparr>Ino = inum, fh_Gen = Gen (iobj (fsstate nfs) r)\<rparr>"
    and mx: "unat off + unat n \<le> unat (MaxFileSize G)" and len: "unat n \<le> length data" and lb: "(ucast n :: u64) < LogBytes G"
  shows "\<exists>reply nfs' (cn :: u64). NFSPROC3_WRITE G (Suc fuel) \<lparr>WRITE3args_File = fh3, WRITE3args_Offset = off, WRITE3args_Count = n,
       WRITE3args_Stable = how, WRITE3args_Data = data\<rparr> nfs = Inr (reply, nfs') \<and>
     WRITE3res_Status reply \<in> {NFS3_OK, NFS3ERR_NOSPC, NFS3ERR_SERVERFAULT} \<and> fs_idle held (fsstate nfs') \<and>
     (WRITE3res_Status reply = NFS3ERR_NOSPC \<longrightarrow> Txn (fsstate nfs') = Txn (fsstate nfs) \<and>
        used (fs_Balloc (fsstate nfs')) = used (fs_Balloc (fsstate nfs)) \<and>
        (\<exists>ip' a'. Write G off (ucast n) data (iobj (fsstate nfs) r) (Atxn (FsTxn_Begin G (fsstate nfs))) = Inr (0, False, ip', a') \<and>
           exhausted used arange a')) \<and>
     (WRITE3res_Status reply = NFS3ERR_SERVERFAULT \<longrightarrow> same_log G (Txn (fsstate nfs)) (Txn (fsstate nfs')) \<and>
        \<not> (\<forall>op w lg. fst (CommitWait G op w lg))) \<and>
     (WRITE3res_Status reply = NFS3_OK \<longrightarrow>
        unat cn \<le> unat n \<and> (n \<noteq> 0 \<longrightarrow> 0 < unat cn) \<and> WRITE3resok_Count (WRITE3res_Resok reply) = ucast cn \<and>
        (unat cn < unat n \<longrightarrow> no_block used arange (fsstate nfs')) \<and>
        file_at G used arange held (fsstate nfs') inum r \<and> Gen (iobj (fsstate nfs') r) = Gen (iobj (fsstate nfs) r) \<and>
        unat (Size (iobj (fsstate nfs') r)) = (if 0 < unat cn then max (unat (Size (iobj (fsstate nfs) r))) (unat off + unat cn)
            else unat (Size (iobj (fsstate nfs) r))) \<and>
        (\<forall>i < MAXBYTES. fbyte G (jrnl_Begin G (Txn (fsstate nfs'))) (blks (iobj (fsstate nfs') r)) i =
            (if unat off \<le> i \<and> i < unat off + unat cn then data ! (i - unat off)
             else fbyte G (jrnl_Begin G (Txn (fsstate nfs))) (blks (iobj (fsstate nfs) r)) i)) \<and>
        (\<forall>i. unat off \<le> i \<and> i < unat off + unat cn \<longrightarrow>
            fwalk G (jrnl_Begin G (Txn (fsstate nfs'))) (blks (iobj (fsstate nfs') r)) (i div 4096) \<noteq> 0))"
proof -
  let ?st = "fsstate nfs" and ?ip = "iobj (fsstate nfs) r" and ?n = "ucast n :: u64"
  have fa: "Kind ?ip = NF3REG" "Nlink ?ip \<noteq> 0" "unat (Size ?ip) \<le> MAXBYTES" "\<not> IsShrinking G ?ip"
    and inv: "file_inv G used arange (Atxn (FsTxn_Begin G ?st)) ?ip" using f by (simp_all add: file_at_def)
  have fi: "fs_idle held ?st" using f by (simp add: file_at_def)
  have max: "unat (MaxFileSize G) = 1073774592" using MaxFileSize_val by simp
  have wr: "unat off + unat ?n \<le> unat (MaxFileSize G)" "unat ?n \<le> length data" using mx len by simp_all
  obtain cn wok ip' a' where w: "Write G off ?n data ?ip (Atxn (FsTxn_Begin G ?st)) = Inr (cn, wok, ip', a')"
    and cn: "unat cn \<le> unat ?n" "wok \<longleftrightarrow> 0 < unat cn \<or> ?n = 0"
    and st: "file_step G used arange ?ip (Atxn (FsTxn_Begin G ?st)) (ip'\<lparr>Size := Size ?ip\<rparr>) a'"
    and sz: "unat (Size ip') = (if 0 < unat cn then max (unat (Size ?ip)) (unat off + unat cn) else unat (Size ?ip))"
    and by': "\<And>i. i < MAXBYTES \<Longrightarrow> fbyte G (Op a') (blks ip') i =
        (if unat off \<le> i \<and> i < unat off + unat cn then data ! (i - unat off) else fbyte G (Op (Atxn (FsTxn_Begin G ?st))) (blks ?ip) i)"
    and nh: "\<And>i. unat off \<le> i \<and> i < unat off + unat cn \<Longrightarrow> fwalk G (Op a') (blks ip') (i div 4096) \<noteq> 0"
    and ex: "unat cn < unat n \<longrightarrow> exhausted used arange a'"
    using Write_ok [OF inv wr] by (simp, elim exE conjE) (rule that, (assumption | simp)+)
  note inv' = written_inode [OF f wr st cn(1) sz]
  show ?thesis
  proof (rule WRITE_run [where fuel = fuel and how = how, OF f fh lb w])
    fix op :: "('log, 'op, 'alc, 'lm, 'd) FsTxn"
    let ?args = "\<lparr>WRITE3args_File = fh3, WRITE3args_Offset = off, WRITE3args_Count = n, WRITE3args_Stable = how, WRITE3args_Data = data\<rparr>"
    let ?op = "put_inode r ip' (op\<lparr>Atxn := a'\<rparr>)"
    assume get: "GetInodeFh G fh3 (FsTxn_Begin G ?st) = Inr (Some r, op)" and ti: "txn_inv held op" and at: "inode_at op r = ?ip"
        "Atxn op = Atxn (FsTxn_Begin G ?st)" "entries (Icache (Fs op)) = entries (Icache ?st)"
      and no: "\<not> wok \<Longrightarrow> NFSPROC3_WRITE G (Suc fuel) ?args nfs =
        Inr (zero_WRITE3res\<lparr>WRITE3res_Status := NFS3ERR_NOSPC\<rparr>, put_fs (Abort G ?op) nfs)"
      and yes: "wok \<Longrightarrow> \<exists>c ok op' reply. commitWait G c ?op = (ok, op') \<and> (how = FILE_SYNC \<longrightarrow> c) \<and>
        NFSPROC3_WRITE G (Suc fuel) ?args nfs = Inr (reply, put_fs op' nfs) \<and>
        WRITE3res_Status reply = (if ok then NFS3_OK else NFS3ERR_SERVERFAULT) \<and> (ok \<longrightarrow> WRITE3resok_Count (WRITE3res_Resok reply) = ucast cn)"
    have cl: "clean on (Txn ?st) a'" using retD [OF atxn_writes.Write_Q [OF clean_writes] w] Begin_clean(1) [of ?st] by simp
    have run: "atxn_run G (Atxn op) a'" using retD [OF run.Write_Q [OF run_start] w] at(2) by simp
    have tr: "txn_run G (FsTxn_Begin G ?st) ?op"
      by (rule t_inode [OF t_atxn [OF t_fh [OF t_start get] run]]) (simp add: inv'(2) at)
    have A: "Atxn ?op = a'" by (simp add: put_inode_def)
    show ?thesis
    proof (cases wok)
      case False
      have z: "cn = 0" "unat cn < unat n" using False cn(2) by (auto simp: unat_eq_0 unat_gt_0)
      note ab = Abort_undo [OF fi tr] Abort_idle [OF txn_run_inv [OF tr Begin_inv [OF fi]]]
      show ?thesis
        by (rule exI [of _ "zero_WRITE3res\<lparr>WRITE3res_Status := NFS3ERR_NOSPC\<rparr>"], rule exI [of _ "put_fs (Abort G ?op) nfs"], rule exI [of _ cn])
           (use no False ab z w ex in auto)
    next
      case True
      obtain c ok op' reply where co: "commitWait G c ?op = (ok, op')" and res: "NFSPROC3_WRITE G (Suc fuel) ?args nfs = Inr (reply, put_fs op' nfs)"
          and rs: "WRITE3res_Status reply = (if ok then NFS3_OK else NFS3ERR_SERVERFAULT)"
          and rc: "ok \<longrightarrow> WRITE3resok_Count (WRITE3res_Resok reply) = ucast cn" using yes [OF True] by blast
      note cc = clean_commit [OF fi tr, unfolded A, OF cl co]
      have bl: "i div 4096 < MAXBLKS" if "i < unat off + unat cn" for i using that mx max cn by simp
      have n0: "n \<noteq> 0 \<longrightarrow> 0 < unat cn" using \<open>wok\<close> cn(2) by (metis ucast_0 ucast_ucast_u32)
      show ?thesis
      proof (intro exI [of _ reply] exI [of _ "put_fs op' nfs"] exI [of _ cn] conjI impI)
        assume "WRITE3res_Status reply = NFS3_OK"
        then have ok: "ok" using rs by (simp split: if_splits)
        note t = file_txn [OF f get at ti run cl inv'(1,2) inv'(3-6) co ok]
        show "WRITE3resok_Count (WRITE3res_Resok reply) = ucast cn" using rc ok by simp
        show "file_at G used arange held (fsstate (put_fs op' nfs)) inum r" using t(1) by simp
        show "Gen (iobj (fsstate (put_fs op' nfs)) r) = Gen ?ip" using t(2) inv'(7) by simp
        show "unat (Size (iobj (fsstate (put_fs op' nfs)) r)) = (if 0 < unat cn then max (unat (Size ?ip)) (unat off + unat cn)
            else unat (Size ?ip))" using t(2) sz by simp
        show "\<forall>i < MAXBYTES. fbyte G (jrnl_Begin G (Txn (fsstate (put_fs op' nfs)))) (blks (iobj (fsstate (put_fs op' nfs)) r)) i =
            (if unat off \<le> i \<and> i < unat off + unat cn then data ! (i - unat off) else fbyte G (jrnl_Begin G (Txn ?st)) (blks ?ip) i)"
          using t(2,3) by' Begin_clean(2) [of ?st] by simp
        show "\<forall>i. unat off \<le> i \<and> i < unat off + unat cn \<longrightarrow>
            fwalk G (jrnl_Begin G (Txn (fsstate (put_fs op' nfs)))) (blks (iobj (fsstate (put_fs op' nfs)) r)) (i div 4096) \<noteq> 0"
          using t(2,4) bl nh by simp
        show "no_block used arange (fsstate (put_fs op' nfs))" if "unat cn < unat n"
          using that ex cc(2) by (simp add: no_block_def exhausted_def)
      next
        assume "WRITE3res_Status reply = NFS3ERR_SERVERFAULT"
        then have no: "\<not> ok" using rs by (auto split: if_splits)
        show "same_log G (Txn ?st) (Txn (fsstate (put_fs op' nfs)))" using cc(3) no by simp
        show "\<not> (\<forall>op w lg. fst (CommitWait G op w lg))" using commits_any [OF _ co] no by blast
      qed (use res rs cn(1) n0 cc(1) in \<open>auto split: if_splits\<close>)
    qed
  qed
qed

text \<open>A read of what a call has written.\<close>

lemma READ_written:
  assumes f: "file_at G used arange held (fsstate nfs) inum r"
    and fh: "MakeFh G fh3 = Inr \<lparr>Ino = inum, fh_Gen = Gen (iobj (fsstate nfs) r)\<rparr>"
    and sz: "0 < unat n \<Longrightarrow> unat off + unat n \<le> unat (Size (iobj (fsstate nfs) r))"
    and by': "\<And>i. unat off \<le> i \<Longrightarrow> i < unat off + unat n \<Longrightarrow>
        fbyte G (jrnl_Begin G (Txn (fsstate nfs))) (blks (iobj (fsstate nfs) r)) i = data ! (i - unat off)"
    and nh: "\<And>i. unat off \<le> i \<Longrightarrow> i < unat off + unat n \<Longrightarrow>
        fwalk G (jrnl_Begin G (Txn (fsstate nfs))) (blks (iobj (fsstate nfs) r)) (i div 4096) \<noteq> 0"
    and len: "unat n \<le> length data"
  shows "\<exists>reply nfs'. NFSPROC3_READ G \<lparr>READ3args_File = fh3, READ3args_Offset = off, READ3args_Count = n\<rparr> nfs = Inr (reply, nfs') \<and>
     READ3res_Status reply \<in> {NFS3_OK, NFS3ERR_SERVERFAULT} \<and> READ3resok_Data (READ3res_Resok reply) = take (unat n) data"
proof -
  from READ_ok [OF f fh, of off n] obtain reply nfs' m where
      r: "NFSPROC3_READ G \<lparr>READ3args_File = fh3, READ3args_Offset = off, READ3args_Count = n\<rparr> nfs = Inr (reply, nfs')"
    and m: "m \<le> unat n" and d: "READ3resok_Data (READ3res_Resok reply) = take m (drop (unat off) (file_bytes G (fsstate nfs) r))"
    and h: "m < unat n \<and> unat off + m < unat (Size (iobj (fsstate nfs) r)) \<longrightarrow>
        fwalk G (jrnl_Begin G (Txn (fsstate nfs))) (blks (iobj (fsstate nfs) r)) ((unat off + m) div 4096) = 0"
    and s: "READ3res_Status reply \<in> {NFS3_OK, NFS3ERR_SERVERFAULT}" by blast
  have "m = unat n"
  proof (rule ccontr)
    assume "m \<noteq> unat n"
    then have "m < unat n" using m by simp
    then show False using h nh [of "unat off + m"] sz by simp
  qed
  moreover have "take (unat n) (drop (unat off) (file_bytes G (fsstate nfs) r)) = take (unat n) data"
  proof (cases "0 < unat n")
    case True
    show ?thesis by (rule nth_equalityI) (use sz [OF True] len by' in \<open>simp_all add: file_bytes_def contents_def frange_def\<close>)
  qed simp
  ultimately show ?thesis using r s d by auto
qed

end

section \<open>Properties\<close>


definition ex_file_nfs :: "(u64 \<Rightarrow> nat \<Rightarrow> byte, bool list, u64 list, ref_disk) Nfs" where
  "ex_file_nfs = \<lparr>fsstate = ex_cut_st\<lparr>iobj := (\<lambda>_. ex_file)\<rparr>, shrinkst = MkShrinkerSt, Unstable = True\<rparr>"

lemma ex_file_fh_ok: "MakeFh ref_lib ex_handle2 = Inr \<lparr>Ino = 2, fh_Gen = Gen (iobj (fsstate ex_file_nfs) 0)\<rparr>"
  by (simp add: ex_handle2_fh ex_file_nfs_def ex_file_def zero_Inode_def)

lemma ex_file_at: "file_at ref_lib ref_used ref_range set (fsstate ex_file_nfs) 2 0"
proof -
  have "Atxn (FsTxn_Begin ref_lib (fsstate ex_file_nfs)) = ex_fs"
    by (simp add: FsTxn_Begin_def ex_file_nfs_def ex_cut_st_def ex_fs_def)
  moreover have "fs_idle set (fsstate ex_file_nfs)" "cached (fsstate ex_file_nfs) 2 0"
    by (auto simp: fs_idle_def ex_file_nfs_def ex_cut_st_def icache_ok_def cache_inv_def ex_file_def cached_def)
  moreover have "iobj (fsstate ex_file_nfs) 0 = ex_file" by (simp add: ex_file_nfs_def)
  moreover have "Kind ex_file = NF3REG" "Nlink ex_file \<noteq> 0" "unat (Size ex_file) \<le> MAXBYTES" "\<not> IsShrinking ref_lib ex_file"
    by (simp_all add: ex_file_def IsShrinking_def zero_Inode_def)
  ultimately show ?thesis using ex_file_inv(1) by (simp add: file_at_def)
qed


text \<open>C7: \<^verbatim>\<open>WRITE\<close>, then \<^verbatim>\<open>READ\<close>. For a well-formed regular file and a request within the maximum file size, of less than \<^verbatim>\<open>LogBytes\<close> bytes and with
  at least as many bytes of data as it says, \<^verbatim>\<open>WRITE\<close> returns, in every mode of stability, and no lock is held. On \<^verbatim>\<open>NFS3_OK\<close> the file is well
  formed, every byte outside the range written is as it was, and a \<^verbatim>\<open>READ\<close> of the range that the reply reports as written returns the data
  written; less than the whole request is written only when no block is left, and then not nothing. \<^verbatim>\<open>NFS3ERR_NOSPC\<close> means that no block was left for
  the first byte, and then the log and the allocator are unchanged. \<^verbatim>\<open>NFS3ERR_SERVERFAULT\<close> means that the commit failed, and then the log reads as
  before.\<close>

theorem nfs_write_then_read:
  assumes G: "gojournal G on used arange held" and f: "file_at G used arange held (fsstate nfs) inum r"
    and fh: "MakeFh G fh3 = Inr \<lparr>Ino = inum, fh_Gen = Gen (iobj (fsstate nfs) r)\<rparr>"
    and mx: "unat off + unat n \<le> unat (MaxFileSize G)" and len: "unat n \<le> length data" and lb: "(ucast n :: u64) < LogBytes G"
  shows "\<exists>reply nfs'. NFSPROC3_WRITE G (Suc fuel) \<lparr>WRITE3args_File = fh3, WRITE3args_Offset = off, WRITE3args_Count = n,
       WRITE3args_Stable = how, WRITE3args_Data = data\<rparr> nfs = Inr (reply, nfs') \<and>
     WRITE3res_Status reply \<in> {NFS3_OK, NFS3ERR_NOSPC, NFS3ERR_SERVERFAULT} \<and> fs_idle held (fsstate nfs') \<and>
     (WRITE3res_Status reply = NFS3_OK \<longrightarrow>
        (let c = WRITE3resok_Count (WRITE3res_Resok reply)
         in (n \<noteq> 0 \<longrightarrow> 0 < c) \<and> c \<le> n \<and> (c < n \<longrightarrow> no_block used arange (fsstate nfs')) \<and>
            file_at G used arange held (fsstate nfs') inum r \<and>
            (\<forall>i < unat (Size (iobj (fsstate nfs) r)). \<not> (unat off \<le> i \<and> i < unat off + unat c) \<longrightarrow>
               file_bytes G (fsstate nfs') r ! i = file_bytes G (fsstate nfs) r ! i) \<and>
            (\<exists>reply' nfs''. NFSPROC3_READ G \<lparr>READ3args_File = fh3, READ3args_Offset = off, READ3args_Count = c\<rparr> nfs' = Inr (reply', nfs'') \<and>
               READ3res_Status reply' \<in> {NFS3_OK, NFS3ERR_SERVERFAULT} \<and> READ3resok_Data (READ3res_Resok reply') = take (unat c) data))) \<and>
     (WRITE3res_Status reply = NFS3ERR_NOSPC \<longrightarrow> Txn (fsstate nfs') = Txn (fsstate nfs) \<and>
        used (fs_Balloc (fsstate nfs')) = used (fs_Balloc (fsstate nfs)) \<and>
        (\<exists>ip' a'. Write G off (ucast n) data (iobj (fsstate nfs) r) (Atxn (FsTxn_Begin G (fsstate nfs))) = Inr (0, False, ip', a') \<and>
           exhausted used arange a')) \<and>
     (WRITE3res_Status reply = NFS3ERR_SERVERFAULT \<longrightarrow> same_log G (Txn (fsstate nfs)) (Txn (fsstate nfs')) \<and>
        \<not> (\<forall>op w lg. fst (CommitWait G op w lg)))"
proof -
  let ?args = "\<lparr>WRITE3args_File = fh3, WRITE3args_Offset = off, WRITE3args_Count = n, WRITE3args_Stable = how, WRITE3args_Data = data\<rparr>"
  have max: "unat (MaxFileSize G) = 1073774592" using gojournal.MaxFileSize_val [OF G] by simp
  from gojournal.WRITE_ok [OF G f fh mx len lb, of fuel how] obtain reply nfs' and cn :: u64 where
      w: "NFSPROC3_WRITE G (Suc fuel) ?args nfs = Inr (reply, nfs')"
    and st: "WRITE3res_Status reply \<in> {NFS3_OK, NFS3ERR_NOSPC, NFS3ERR_SERVERFAULT}" "fs_idle held (fsstate nfs')"
    and er: "WRITE3res_Status reply = NFS3ERR_NOSPC \<longrightarrow> Txn (fsstate nfs') = Txn (fsstate nfs) \<and>
        used (fs_Balloc (fsstate nfs')) = used (fs_Balloc (fsstate nfs)) \<and>
        (\<exists>ip' a'. Write G off (ucast n) data (iobj (fsstate nfs) r) (Atxn (FsTxn_Begin G (fsstate nfs))) = Inr (0, False, ip', a') \<and>
           exhausted used arange a')"
      "WRITE3res_Status reply = NFS3ERR_SERVERFAULT \<longrightarrow> same_log G (Txn (fsstate nfs)) (Txn (fsstate nfs')) \<and>
        \<not> (\<forall>op w lg. fst (CommitWait G op w lg))"
    and ok: "WRITE3res_Status reply = NFS3_OK \<Longrightarrow>
        unat cn \<le> unat n \<and> (n \<noteq> 0 \<longrightarrow> 0 < unat cn) \<and> WRITE3resok_Count (WRITE3res_Resok reply) = ucast cn \<and>
        (unat cn < unat n \<longrightarrow> no_block used arange (fsstate nfs')) \<and>
        file_at G used arange held (fsstate nfs') inum r \<and> Gen (iobj (fsstate nfs') r) = Gen (iobj (fsstate nfs) r) \<and>
        unat (Size (iobj (fsstate nfs') r)) = (if 0 < unat cn then max (unat (Size (iobj (fsstate nfs) r))) (unat off + unat cn)
            else unat (Size (iobj (fsstate nfs) r))) \<and>
        (\<forall>i < MAXBYTES. fbyte G (jrnl_Begin G (Txn (fsstate nfs'))) (blks (iobj (fsstate nfs') r)) i =
            (if unat off \<le> i \<and> i < unat off + unat cn then data ! (i - unat off)
             else fbyte G (jrnl_Begin G (Txn (fsstate nfs))) (blks (iobj (fsstate nfs) r)) i)) \<and>
        (\<forall>i. unat off \<le> i \<and> i < unat off + unat cn \<longrightarrow>
            fwalk G (jrnl_Begin G (Txn (fsstate nfs'))) (blks (iobj (fsstate nfs') r)) (i div 4096) \<noteq> 0)"
    by blast
  show ?thesis
  proof (rule exI [of _ reply], rule exI [of _ nfs'], intro conjI w st er, intro impI)
    assume "WRITE3res_Status reply = NFS3_OK"
    note k = ok [OF this]
    let ?c = "WRITE3resok_Count (WRITE3res_Resok reply)"
    have fa: "file_at G used arange held (fsstate nfs') inum r" using k by simp
    have cn: "unat cn \<le> unat n" "n \<noteq> 0 \<longrightarrow> 0 < unat cn" "?c = ucast cn" using k by simp_all
    have uc: "unat ?c = unat cn" using cn(1,3) unsigned_less [of n, where ?'a = nat] by (simp add: unsigned_ucast_eq take_bit_nat_eq_self_iff)
    have sz: "unat (Size (iobj (fsstate nfs') r)) =
        (if 0 < unat cn then max (unat (Size (iobj (fsstate nfs) r))) (unat off + unat cn) else unat (Size (iobj (fsstate nfs) r)))"
      using k by simp
    have old: "unat (Size (iobj (fsstate nfs) r)) \<le> MAXBYTES" using f by (simp add: file_at_def)
    have rd: "\<exists>reply' nfs''. NFSPROC3_READ G \<lparr>READ3args_File = fh3, READ3args_Offset = off, READ3args_Count = ?c\<rparr> nfs' = Inr (reply', nfs'') \<and>
        READ3res_Status reply' \<in> {NFS3_OK, NFS3ERR_SERVERFAULT} \<and> READ3resok_Data (READ3res_Resok reply') = take (unat ?c) data"
      by (rule gojournal.READ_written [OF G fa]) (use k fh uc sz mx max len cn in auto)
    have same: "file_bytes G (fsstate nfs') r ! i = file_bytes G (fsstate nfs) r ! i"
      if "i < unat (Size (iobj (fsstate nfs) r))" "\<not> (unat off \<le> i \<and> i < unat off + unat ?c)" for i
      using k that uc sz old by (auto simp: file_bytes_def contents_def frange_def)
    show "let c = ?c in (n \<noteq> 0 \<longrightarrow> 0 < c) \<and> c \<le> n \<and> (c < n \<longrightarrow> no_block used arange (fsstate nfs')) \<and> file_at G used arange held (fsstate nfs') inum r \<and>
        (\<forall>i < unat (Size (iobj (fsstate nfs) r)). \<not> (unat off \<le> i \<and> i < unat off + unat c) \<longrightarrow>
           file_bytes G (fsstate nfs') r ! i = file_bytes G (fsstate nfs) r ! i) \<and>
        (\<exists>reply' nfs''. NFSPROC3_READ G \<lparr>READ3args_File = fh3, READ3args_Offset = off, READ3args_Count = c\<rparr> nfs' = Inr (reply', nfs'') \<and>
           READ3res_Status reply' \<in> {NFS3_OK, NFS3ERR_SERVERFAULT} \<and> READ3resok_Data (READ3res_Resok reply') = take (unat c) data)"
      using fa rd same uc cn k by (simp add: word_less_nat_alt word_le_nat_alt)
  qed
qed

theorem nfs_write_then_read_witness:
  "\<exists>reply nfs'. NFSPROC3_WRITE ref_lib 1 \<lparr>WRITE3args_File = ex_handle2, WRITE3args_Offset = 4, WRITE3args_Count = 3,
       WRITE3args_Stable = FILE_SYNC, WRITE3args_Data = [7, 8, 9]\<rparr> ex_file_nfs = Inr (reply, nfs') \<and>
     (WRITE3res_Status reply = NFS3_OK \<longrightarrow> (\<exists>reply' nfs''. NFSPROC3_READ ref_lib \<lparr>READ3args_File = ex_handle2, READ3args_Offset = 4,
         READ3args_Count = WRITE3resok_Count (WRITE3res_Resok reply)\<rparr> nfs' = Inr (reply', nfs'') \<and>
       READ3resok_Data (READ3res_Resok reply') = take (unat (WRITE3resok_Count (WRITE3res_Resok reply))) [7, 8, 9]))"
proof -
  have "unat (4 :: u64) + unat (3 :: u32) \<le> unat (MaxFileSize ref_lib)" by (simp add: ref.MaxFileSize_val)
  from nfs_write_then_read [OF ref_gojournal ex_file_at ex_file_fh_ok this, of "[7, 8, 9]" 0 FILE_SYNC] show ?thesis
    by (auto simp: Let_def)
qed

end
