(* ===== verification/RenameSpec.thy ===== *)
theory RenameSpec
  imports NfsSpec DirSpec
begin

text \<open>
  \<^verbatim>\<open>RENAME\<close> within a directory, and what is left in memory when it fails after the old name was removed.
\<close>

definition dir_at ::
    "('log, 'op, 'alc, 'lm, 'd) golib \<Rightarrow> ('alc \<Rightarrow> u64 set) \<Rightarrow> ('alc \<Rightarrow> u64 set) \<Rightarrow> ('lm \<Rightarrow> u64 set) \<Rightarrow>
     ('log, 'alc, 'lm, 'd) FsState \<Rightarrow> u64 \<Rightarrow> iref \<Rightarrow> dirEnt list \<Rightarrow> bool" where
  "dir_at G used arange held st inum r ents \<longleftrightarrow>
     fs_idle held st \<and> cached st inum r \<and> Nlink (iobj st r) \<noteq> 0 \<and> dir_ok G used arange (FsTxn_Begin G st) r ents"

lemma dir_ok_cong:
  "inode_at op r = inode_at op' r \<Longrightarrow> Atxn op = Atxn op' \<Longrightarrow> dir_ok G used arange op r ents = dir_ok G used arange op' r ents"
  by (simp add: dir_ok_def dir_is_def)

lemma dir_ok_kind: "dir_ok G used arange op r ents \<Longrightarrow> Kind (inode_at op r) = NF3DIR"
  by (simp add: dir_ok_def dir_is_def Let_def)

context gojournal
begin

lemma get_dir:
  assumes d: "dir_at G used arange held st inum r ents"
    and fh: "MakeFh G fh3 = Inr \<lparr>Ino = inum, fh_Gen = Gen (iobj st r)\<rparr>"
  obtains op where "GetInodeFh G fh3 (FsTxn_Begin G st) = Inr (Some r, op)" and "dir_ok G used arange op r ents"
    and "in_txn G False st op" and "inode_at op r = iobj st r"
proof -
  have da: "fs_idle held st" "cached st inum r" "Nlink (iobj st r) \<noteq> 0" "dir_ok G used arange (FsTxn_Begin G st) r ents"
    using d by (simp_all add: dir_at_def)
  have at: "inode_at (FsTxn_Begin G st) r = iobj st r" by (simp add: inode_at_def FsTxn_Begin_def)
  have k: "Kind (iobj st r) \<noteq> NF3FREE" using dir_ok_kind [OF da(4)] at by simp
  show thesis
  proof (rule get_cached_fh [OF da(1,2) fh k da(3)])
    fix op
    assume g: "GetInodeFh G fh3 (FsTxn_Begin G st) = Inr (Some r, op)" and o: "inode_at op r = iobj st r" "Atxn op = Atxn (FsTxn_Begin G st)"
    have "in_txn G False st op" using retD [OF GetInodeFh_in [OF in_begin [OF b_start]] g] by simp
    then show thesis using that [OF g] da(4) dir_ok_cong [of op r "FsTxn_Begin G st"] o at by simp
  qed
qed

lemma rename_start:
  assumes d: "dir_at G used arange held (fsstate nfs) inum r ents"
    and fh: "MakeFh G fh3 = Inr \<lparr>Ino = inum, fh_Gen = Gen (iobj (fsstate nfs) r)\<rparr>"
    and n: "\<not> IllegalName name" "length name < 112" "dir_locs ents name = Some (i, off)" and t: "dir_locs ents ton = None"
  obtains op op' ents' where
    "NFSPROC3_RENAME G (Suc fuel) \<lparr>RENAME3args_From = \<lparr>Diropargs3_Dir = fh3, Diropargs3_Name = name\<rparr>,
       RENAME3args_To = \<lparr>Diropargs3_Dir = fh3, Diropargs3_Name = ton\<rparr>\<rparr> nfs =
     bnd (AddName G i ton r op') (\<lambda>(ok, op).
       if \<not> ok then Inr (zero_RENAME3res\<lparr>RENAME3res_Status := NFS3ERR_IO\<rparr>, put_fs (Abort G op) nfs)
       else (let (st, op) = commitReply G op in Inr (zero_RENAME3res\<lparr>RENAME3res_Status := st\<rparr>, put_fs op nfs)))"
    and "dir_ok G used arange op' r ents'" and "length ents' = length ents" and "dir_locs ents' = (dir_locs ents)(name := None)"
    and "in_txn G False (fsstate nfs) op'"
    and "GetInodeFh G fh3 (FsTxn_Begin G (fsstate nfs)) = Inr (Some r, op)" and "RemName G name r op = Inr (True, op')"
proof -
  obtain op where g: "GetInodeFh G fh3 (FsTxn_Begin G (fsstate nfs)) = Inr (Some r, op)" and d1: "dir_ok G used arange op r ents"
      and tx: "in_txn G False (fsstate nfs) op"
    by (rule get_dir [OF d fh])
  have i0: "i \<noteq> 0" using n(3) by (auto simp: dir_locs_def Let_def split: if_splits)
  have e: "fh_Equal G fh3 fh3" by (simp add: fh_Equal_def)
  have l: "LookupName G name r op = Inr ((i, off), op)" "LookupName G ton r op = Inr ((0, 0), op)"
    using LookupName_ok [OF d1] n(3) t by simp_all
  obtain op' ents' where rem: "RemName G name r op = Inr (True, op')" and d2: "dir_ok G used arange op' r ents'" "length ents' = length ents"
      "dir_locs ents' = (dir_locs ents)(name := None)"
    using RemName_ok [OF d1 n(2)] n(3) by auto
  have "in_txn G False (fsstate nfs) op'" using retD [OF RemName_in [OF tx] rem] by simp
  then show thesis
    using that [OF _ d2 _ g rem] g e l rem i0 fh n(1) by (simp add: NFSPROC3_RENAME_def if_distrib [of "bnd _"] cong: if_cong)
qed

lemma LookupName_miss:
  "Kind (inode_at op r) = NF3DIR \<Longrightarrow> inode_Dcache (inode_at op r) = Some dc \<Longrightarrow> dc_names dc name = None \<Longrightarrow>
     LookupName G name r op = Inr ((0, 0), op)"
  using dcache.names_lookup [of name dc] by (auto simp: LookupName_def ensure_dcache_def get_dcache_def)

lemma Abort_iobj: "txn_inv held op \<Longrightarrow> iobj (Fs (Abort G op)) = iobj (Fs op)"
  using releaseInodes_ok(3) [of op] by (auto simp: Abort_def put_allocs_def Let_def)

lemma commitReply_iobj: "txn_inv held op \<Longrightarrow> commitReply G op = (st, op') \<Longrightarrow> iobj (Fs op') = iobj (Fs op)"
  using commitWait_fs [of op True] by (fastforce simp: commitReply_def Commit_def split: prod.splits)

end

section \<open>Properties\<close>

text \<open>Renaming within a directory. For a well-formed directory, a name it has and a new name it does not have, \<^verbatim>\<open>RENAME\<close>
  returns, in one transaction: before the commit, the directory has exactly its old names, without the
  old name and with the new one for the same inode. It replies \<^verbatim>\<open>NFS3_OK\<close> if the commit succeeds, and
  fails with \<^verbatim>\<open>NFS3ERR_IO\<close> only when no block is free.\<close>

theorem rename_within_directory:
  assumes G: "gojournal G on used arange held" and d: "dir_at G used arange held (fsstate nfs) inum r ents"
    and fh: "MakeFh G fh3 = Inr \<lparr>Ino = inum, fh_Gen = Gen (iobj (fsstate nfs) r)\<rparr>"
    and n: "\<not> IllegalName name" "length name < 112" "dir_locs ents name = Some (i, off)"
    and t: "dir_locs ents ton = None" "length ton < 112" and room: "128 * length ents + 128 \<le> 1073774592"
  shows "\<exists>reply nfs' op. NFSPROC3_RENAME G (Suc fuel) \<lparr>RENAME3args_From = \<lparr>Diropargs3_Dir = fh3, Diropargs3_Name = name\<rparr>,
       RENAME3args_To = \<lparr>Diropargs3_Dir = fh3, Diropargs3_Name = ton\<rparr>\<rparr> nfs = Inr (reply, nfs') \<and>
     in_txn G False (fsstate nfs) op \<and>
     (if RENAME3res_Status reply = NFS3ERR_IO then exhausted used arange (Atxn op) \<and> fsstate nfs' = Fs (Abort G op)
      else (\<exists>off' ents'. dir_ok G used arange op r ents' \<and> dir_locs ents' = (dir_locs ents)(name := None, ton \<mapsto> (i, off'))) \<and>
        (\<exists>op'. commitReply G op = (RENAME3res_Status reply, op') \<and> fsstate nfs' = Fs op'))"
proof (rule gojournal.rename_start [OF G d fh n t(1), of fuel])
  fix op' ents'
  assume run: "NFSPROC3_RENAME G (Suc fuel) \<lparr>RENAME3args_From = \<lparr>Diropargs3_Dir = fh3, Diropargs3_Name = name\<rparr>,
       RENAME3args_To = \<lparr>Diropargs3_Dir = fh3, Diropargs3_Name = ton\<rparr>\<rparr> nfs =
     bnd (AddName G i ton r op') (\<lambda>(ok, op).
       if \<not> ok then Inr (zero_RENAME3res\<lparr>RENAME3res_Status := NFS3ERR_IO\<rparr>, put_fs (Abort G op) nfs)
       else (let (st, op) = commitReply G op in Inr (zero_RENAME3res\<lparr>RENAME3res_Status := st\<rparr>, put_fs op nfs)))"
    and d1: "dir_ok G used arange op' r ents'" and l: "length ents' = length ents" "dir_locs ents' = (dir_locs ents)(name := None)"
    and tx: "in_txn G False (fsstate nfs) op'"
  have i0: "i \<noteq> 0" using n(3) by (auto simp: dir_locs_def Let_def split: if_splits)
  have new: "dir_locs ents' ton = None" "128 * length ents' + 128 \<le> 1073774592" using l t(1) room by simp_all
  from gojournal.AddName_ok [OF G d1 new(2) t(2) new(1) i0] obtain ok op where
      a: "AddName G i ton r op' = Inr (ok, op)" and
      ao: "if ok then \<exists>off' ents''. dir_ok G used arange op r ents'' \<and> dir_locs ents'' = (dir_locs ents')(ton \<mapsto> (i, off')) \<and>
          length ents'' \<le> Suc (length ents') else exhausted used arange (Atxn op) \<and> dir_ok G used arange op r ents'" by blast
  have tx': "in_txn G False (fsstate nfs) op" using retD [OF AddName_in [OF tx] a] by simp
  obtain s op2 where c: "commitReply G op = (s, op2)" by (cases "commitReply G op")
  then have "s \<noteq> NFS3ERR_IO" by (auto simp: commitReply_def split: prod.splits if_splits)
  then show ?thesis using run a ao tx' c l(2) by (cases ok) auto
qed

definition ex_dir_nfs :: "(u64 \<Rightarrow> nat \<Rightarrow> byte, bool list, u64 list, ref_disk) Nfs" where
  "ex_dir_nfs = \<lparr>fsstate = (Fs ex_dir_txn)\<lparr>Icache := \<lparr>entries = [2 \<mapsto> \<lparr>entry.slot = \<lparr>Obj = Some 0\<rparr>, lru = True, entry_id = 2\<rparr>],
     lru_list = [2], cache_sz = 100, cnt = 1\<rparr>\<rparr>, shrinkst = MkShrinkerSt, Unstable = True\<rparr>"

lemma ex_dir_at: "dir_at ref_lib ref_used ref_range set (fsstate ex_dir_nfs) 2 0 ex_ents"
proof -
  have "fs_idle set (fsstate ex_dir_nfs)" "cached (fsstate ex_dir_nfs) 2 0"
    by (auto simp: fs_idle_def ex_dir_nfs_def ex_dir_txn_def FsTxn_Begin_def icache_ok_def cache_inv_def ex_dir_def cached_def)
  moreover have "inode_at (FsTxn_Begin ref_lib (fsstate ex_dir_nfs)) 0 = inode_at ex_dir_txn 0"
    "Atxn (FsTxn_Begin ref_lib (fsstate ex_dir_nfs)) = Atxn ex_dir_txn"
    by (simp_all add: ex_dir_nfs_def ex_dir_txn_def FsTxn_Begin_def inode_at_def)
  moreover have "Nlink (iobj (fsstate ex_dir_nfs) 0) \<noteq> 0" by (simp add: ex_dir_nfs_def ex_dir_txn_def FsTxn_Begin_def ex_dir_def)
  ultimately show ?thesis
    using ex_dir_ok dir_ok_cong [of "FsTxn_Begin ref_lib (fsstate ex_dir_nfs)" 0 ex_dir_txn ref_lib ref_used ref_range ex_ents]
    by (simp add: dir_at_def)
qed

lemma ex_dir_handle: "MakeFh ref_lib ex_handle2 = Inr \<lparr>Ino = 2, fh_Gen = Gen (iobj (fsstate ex_dir_nfs) 0)\<rparr>"
  by (simp add: ex_handle2_fh ex_dir_nfs_def ex_dir_txn_def FsTxn_Begin_def ex_dir_def zero_Inode_def)

theorem rename_within_directory_witness:
  "\<exists>reply nfs'. NFSPROC3_RENAME ref_lib 1 \<lparr>RENAME3args_From = \<lparr>Diropargs3_Dir = ex_handle2, Diropargs3_Name = [97]\<rparr>,
       RENAME3args_To = \<lparr>Diropargs3_Dir = ex_handle2, Diropargs3_Name = [98]\<rparr>\<rparr> ex_dir_nfs = Inr (reply, nfs')"
proof -
  have l: "dir_locs ex_ents [97] = Some (5, 0)" "dir_locs ex_ents [98] = None" "128 * length ex_ents + 128 \<le> 1073774592"
    using ex_locs by (simp_all add: ex_ents_def)
  from rename_within_directory [OF ref_gojournal ex_dir_at ex_dir_handle _ _ l(1,2) _ l(3), of 0] show ?thesis
    by (auto simp: IllegalName_def)
qed

text \<open>C30: a \<^verbatim>\<open>RENAME\<close> that fails loses the file. \<^verbatim>\<open>RENAME\<close> removes the old name before it adds the new one, and the abort does not undo
  the removal in the directory's name cache. With a new name of at least 112 bytes, which \<^verbatim>\<open>AddName\<close> rejects,
  the reply is \<^verbatim>\<open>NFS3ERR_IO\<close> and the log is unchanged, so that the directory on disk still has the old
  name, but every later lookup through the cached directory finds that the name does not exist.\<close>

theorem rename_failure_loses_name:
  assumes G: "gojournal G on used arange held" and d: "dir_at G used arange held (fsstate nfs) inum r ents"
    and fh: "MakeFh G fh3 = Inr \<lparr>Ino = inum, fh_Gen = Gen (iobj (fsstate nfs) r)\<rparr>"
    and n: "\<not> IllegalName name" "length name < 112" "dir_locs ents name = Some (i, off)"
    and t: "dir_locs ents ton = None" "112 \<le> length ton" "length ton < 2 ^ 64"
  shows "\<exists>reply nfs'. NFSPROC3_RENAME G (Suc fuel) \<lparr>RENAME3args_From = \<lparr>Diropargs3_Dir = fh3, Diropargs3_Name = name\<rparr>,
       RENAME3args_To = \<lparr>Diropargs3_Dir = fh3, Diropargs3_Name = ton\<rparr>\<rparr> nfs = Inr (reply, nfs') \<and>
     RENAME3res_Status reply = NFS3ERR_IO \<and> Txn (fsstate nfs') = Txn (fsstate nfs) \<and>
     (\<forall>op. inode_at op r = iobj (fsstate nfs') r \<longrightarrow> LookupName G name r op = Inr ((0, 0), op))"
proof (rule gojournal.rename_start [OF G d fh n t(1), of fuel])
  fix op' ents'
  let ?args = "\<lparr>RENAME3args_From = \<lparr>Diropargs3_Dir = fh3, Diropargs3_Name = name\<rparr>,
       RENAME3args_To = \<lparr>Diropargs3_Dir = fh3, Diropargs3_Name = ton\<rparr>\<rparr>"
  assume run: "NFSPROC3_RENAME G (Suc fuel) ?args nfs =
     bnd (AddName G i ton r op') (\<lambda>(ok, op).
       if \<not> ok then Inr (zero_RENAME3res\<lparr>RENAME3res_Status := NFS3ERR_IO\<rparr>, put_fs (Abort G op) nfs)
       else (let (st, op) = commitReply G op in Inr (zero_RENAME3res\<lparr>RENAME3res_Status := st\<rparr>, put_fs op nfs)))"
    and d1: "dir_ok G used arange op' r ents'" and l: "dir_locs ents' = (dir_locs ents)(name := None)"
    and tx: "in_txn G False (fsstate nfs) op'"
  have idle: "fs_idle held (fsstate nfs)" using d by (simp add: dir_at_def)
  have "AddName G i ton r op' = Inr (False, op')" using t(2,3) by (simp add: AddName_def word_le_nat_alt unat_of_nat_u64)
  then have res: "NFSPROC3_RENAME G (Suc fuel) ?args nfs =
      Inr (zero_RENAME3res\<lparr>RENAME3res_Status := NFS3ERR_IO\<rparr>, put_fs (Abort G op') nfs)" using run by simp
  have o: "outcome G Renames (fsstate nfs) NFS3ERR_IO (Fs (Abort G op'))" using retD [OF RENAME_outcome res] by simp
  have tx_same: "Txn (Fs (Abort G op')) = Txn (fsstate nfs)"
    using gojournal.outcome_error [OF G o idle] gojournal.before_False [OF G _ idle] by fastforce
  have at: "iobj (Fs (Abort G op')) r = inode_at op' r"
    using gojournal.Abort_iobj [OF G gojournal.in_txn_inv [OF G tx idle]] by (simp add: inode_at_def)
  have "LookupName G name r op = Inr ((0, 0), op)" if "inode_at op r = inode_at op' r" for op
  proof -
    obtain dc where "inode_Dcache (inode_at op' r) = Some dc" "dc_names dc = dir_locs ents'" using d1 by (auto simp: dir_ok_def)
    then show ?thesis using gojournal.LookupName_miss [OF G, of op r dc name] that dir_ok_kind [OF d1] l by simp
  qed
  then show ?thesis using res tx_same at by auto
qed

theorem rename_failure_loses_name_witness:
  "\<exists>reply nfs'. NFSPROC3_RENAME ref_lib 1 \<lparr>RENAME3args_From = \<lparr>Diropargs3_Dir = ex_handle2, Diropargs3_Name = [97]\<rparr>,
       RENAME3args_To = \<lparr>Diropargs3_Dir = ex_handle2, Diropargs3_Name = replicate 112 98\<rparr>\<rparr> ex_dir_nfs = Inr (reply, nfs') \<and>
     RENAME3res_Status reply = NFS3ERR_IO \<and> Txn (fsstate nfs') = Txn (fsstate ex_dir_nfs)"
proof -
  have l: "dir_locs ex_ents [97] = Some (5, 0)" "dir_locs ex_ents (replicate 112 98) = None"
    by (simp_all add: ex_locs numeral_eq_Suc)
  from rename_failure_loses_name [OF ref_gojournal ex_dir_at ex_dir_handle _ _ l, of 0] show ?thesis
    by (auto simp: IllegalName_def)
qed

end
