(* ===== verification/LookupSpec.thy ===== *)
theory LookupSpec
  imports Formats FileServe RenameSpec
begin

text \<open>
  \<^verbatim>\<open>LOOKUP\<close>: the handle of a name in a directory, in each of the three orders in which the inodes of the directory and of the
  name are locked, and the same name across the transactions of a \<^verbatim>\<open>RENAME\<close> and a \<^verbatim>\<open>LOOKUP\<close>.
\<close>

section \<open>Transactions that only lock\<close>

text \<open>The transaction \<open>op\<close>, begun on \<open>st\<close>, has locked some cached inodes and done nothing else.\<close>

definition only_locked ::
    "('log, 'op, 'alc, 'lm, 'd) golib \<Rightarrow> ('lm \<Rightarrow> u64 set) \<Rightarrow> ('log, 'alc, 'lm, 'd) FsState \<Rightarrow>
     ('log, 'op, 'alc, 'lm, 'd) FsTxn \<Rightarrow> bool" where
  "only_locked G held st op \<longleftrightarrow>
     txn_inv held op \<and> txn_run G (FsTxn_Begin G st) op \<and> Atxn op = Atxn (FsTxn_Begin G st) \<and> iobj (Fs op) = iobj st \<and>
     entries (Icache (Fs op)) = entries (Icache st) \<and> cnt (Icache (Fs op)) = cnt (Icache st) \<and>
     cache_sz (Icache (Fs op)) = cache_sz (Icache st)"

text \<open>Two states between calls with the same inodes, the same cached objects and the same log.\<close>

definition same_files ::
    "('log, 'op, 'alc, 'lm, 'd) golib \<Rightarrow> ('log, 'alc, 'lm, 'd) FsState \<Rightarrow> ('log, 'alc, 'lm, 'd) FsState \<Rightarrow> bool" where
  "same_files G st st' \<longleftrightarrow> iobj st' = iobj st \<and> entries (Icache st') = entries (Icache st) \<and>
     cnt (Icache st') = cnt (Icache st) \<and> cache_sz (Icache st') = cache_sz (Icache st) \<and> fs_Super st' = fs_Super st \<and>
     fs_Ialloc st' = fs_Ialloc st \<and> Txn st' = Txn st \<and> Atxn (FsTxn_Begin G st') = Atxn (FsTxn_Begin G st)"

lemma same_files_cached: "same_files G st st' \<Longrightarrow> cached st' i r = cached st i r"
  by (simp add: same_files_def cached_def)

lemma same_files_dir:
  assumes s: "same_files G st st'" and i: "fs_idle held st'" and d: "dir_at G used arange held st inum r ents"
  shows "dir_at G used arange held st' inum r ents"
proof -
  have "inode_at (FsTxn_Begin G st') r = inode_at (FsTxn_Begin G st) r" using s by (simp add: same_files_def inode_at_def FsTxn_Begin_def)
  moreover have "Atxn (FsTxn_Begin G st') = Atxn (FsTxn_Begin G st)" using s by (simp add: same_files_def)
  ultimately show ?thesis using d i same_files_cached [OF s] s
    by (simp add: dir_at_def same_files_def dir_ok_cong [of "FsTxn_Begin G st'" r "FsTxn_Begin G st"])
qed

lemma only_locked_at: "only_locked G held st op \<Longrightarrow> inode_at op r = iobj st r"
  by (simp add: only_locked_def inode_at_def)

lemma only_locked_dir:
  assumes "only_locked G held st op" and "dir_at G used arange held st inum r ents"
  shows "dir_ok G used arange op r ents"
proof -
  have "inode_at op r = inode_at (FsTxn_Begin G st) r" using assms(1) by (simp add: only_locked_def inode_at_def FsTxn_Begin_def)
  then show ?thesis using assms dir_ok_cong [of op r "FsTxn_Begin G st"] by (simp add: only_locked_def dir_at_def)
qed

lemma dir_at_kind: "dir_at G used arange held st inum r ents \<Longrightarrow> Kind (iobj st r) \<noteq> NF3FREE"
  using dir_ok_kind [of G used arange "FsTxn_Begin G st" r ents] by (simp add: dir_at_def inode_at_def FsTxn_Begin_def)

context gojournal
begin

lemma only_locked_begin: "fs_idle held st \<Longrightarrow> only_locked G held st (FsTxn_Begin G st)"
  by (simp add: only_locked_def Begin_inv t_start) (simp add: FsTxn_Begin_def)

lemma only_locked_get:
  assumes o: "only_locked G held st op" and c: "cached st i r" and n: "i \<notin> fst ` set (inodes op)"
  obtains op' where "GetInodeLocked G i op = Inr (r, op')" and "only_locked G held st op'"
    and "fst ` set (inodes op') = insert i (fst ` set (inodes op))"
proof -
  have inv: "txn_inv held op" and en: "entries (Icache (Fs op)) = entries (Icache st)" using o by (simp_all add: only_locked_def)
  obtain e where e: "entries (Icache (Fs op)) i = Some e" "Obj (entry.slot e) = Some r" using c en by (auto simp: cached_def)
  have "cache_inv (Icache (Fs op))" using inv by (simp add: txn_inv_def icache_ok_def)
  then have ei: "entry_id e = i" "lru e" using e by (auto simp: cache_inv_def)
  have "i \<notin> held (Lockmap (Fs op))" using n inv by (simp add: txn_inv_def)
  then obtain lm where lm: "Acquire G (Lockmap (Fs op)) i = Some lm" using acquire_free by blast
  let ?c = "(Icache (Fs op))\<lparr>lru_list := remove1 i (lru_list (Icache (Fs op))) @ [i]\<rparr>"
  let ?op = "addInode r (op\<lparr>Fs := (Fs op)\<lparr>Lockmap := lm, Icache := ?c\<rparr>\<rparr>)"
  have g: "GetInodeLocked G i op = Inr (r, ?op)" using lm e ei by (simp add: GetInodeLocked_def LockInode_def LookupSlot_def)
  note k = GetInodeLocked_ok [OF inv g]
  have "txn_run G (FsTxn_Begin G st) ?op"
    using t_inum_free [of G _ op i r ?op] o g by (simp add: only_locked_def GetInodeInumFree_def)
  then have "only_locked G held st ?op" using o k(1,5) by (simp add: only_locked_def addInode_def)
  then show thesis using that [OF g] k(3) by simp
qed

lemma only_locked_abort:
  assumes idle: "fs_idle held st" and o: "only_locked G held st op"
  shows "fs_idle held (Fs (Abort G op))" and "same_files G st (Fs (Abort G op))"
proof -
  have inv: "txn_inv held op" and a: "Atxn op = Atxn (FsTxn_Begin G st)" using o by (simp_all add: only_locked_def)
  show "fs_idle held (Fs (Abort G op))" using Abort_idle [OF inv] by simp
  have i: "fs_Super (Fs op) = fs_Super st \<and> Txn (Fs op) = Txn st"
    using txn_run_atxn [OF _ Begin_inv [OF idle], of op] o by (simp add: only_locked_def) (simp add: FsTxn_Begin_def)
  obtain lm where "Fs (releaseInodes G op) = (Fs op)\<lparr>Lockmap := lm\<rparr>" using releaseInodes_ok(3) [OF inv] by blast
  then have "Fs (Abort G op) = (Fs op)\<lparr>Lockmap := lm, fs_Balloc := fs_Balloc st, fs_Ialloc := fs_Ialloc st\<rparr>"
    using a releaseInodes_ok(4) [OF inv]
    by (simp add: Abort_def put_allocs_def PostAbort_def FsTxn_Begin_def AllocTxn_Begin_def)
  then show "same_files G st (Fs (Abort G op))" using o i by (simp add: same_files_def only_locked_def FsTxn_Begin_def)
qed

text \<open>A file, and a directory, whose blocks and allocator are as they were is as it was.\<close>

lemma file_txn_frame:
  assumes inv: "file_inv G used arange a ip"
    and a: "at_Super a' = at_Super a" "used (Balloc a') = used (Balloc a)" "arange (Balloc a') = arange (Balloc a)"
    and same: "\<And>x. valid_bnum a x \<Longrightarrow> blk G (Op a') x = blk G (Op a) x"
  shows "file_inv G used arange a' ip"
proof -
  have "file_inv G used arange (a\<lparr>Op := Op a'\<rparr>) ip" by (rule file_step_inv [OF file_op_frame(1) [OF inv same]])
  then show ?thesis using a by (simp add: file_inv_def balloc_inv_def valid_bnum_def)
qed

lemma dir_op_frame:
  assumes d: "dir_ok G used arange op r ents" and i: "inode_at op' r = inode_at op r"
    and a: "at_Super (Atxn op') = at_Super (Atxn op)" "used (Balloc (Atxn op')) = used (Balloc (Atxn op))"
      "arange (Balloc (Atxn op')) = arange (Balloc (Atxn op))"
    and same: "\<And>x. valid_bnum (Atxn op) x \<Longrightarrow> blk G (Op (Atxn op')) x = blk G (Op (Atxn op)) x"
  shows "dir_ok G used arange op' r ents"
proof -
  let ?ip = "inode_at op r"
  have inv: "file_inv G used arange (Atxn op) ?ip" and sz: "unat (Size ?ip) = 128 * length ents" "unat (Size ?ip) \<le> 1073774592"
    using d by (simp_all add: dir_ok_def dir_is_def Let_def)
  note f = file_op_frame [OF inv same]
  have "file_inv G used arange (Atxn op') ?ip" by (rule file_txn_frame [OF inv a same])
  moreover have "fwalk G (Op (Atxn op')) (blks ?ip) (k div 4096) = fwalk G (Op (Atxn op)) (blks ?ip) (k div 4096)"
    if "k < unat (Size ?ip)" for k by (rule f(3)) (use order.strict_trans2 [OF that sz(2)] in \<open>simp_all add: less_mult_imp_div_less\<close>)
  moreover have "frange G (Op (Atxn op')) (blks ?ip) (128 * k) 128 = frange G (Op (Atxn op)) (blks ?ip) (128 * k) 128"
    if "k < length ents" for k by (rule frange_cong) (use that sz f(2) in simp_all)
  ultimately show ?thesis using d i by (simp add: dir_ok_def dir_is_def Let_def)
qed

text \<open>What the next transaction sees of one that has freed nothing and is committed, or that has done nothing.\<close>

lemma commit_view:
  assumes idle: "fs_idle held st" and run: "txn_run G (FsTxn_Begin G st) op" and cl: "clean on (Txn st) (Atxn op)"
    and su: "super_wf G (at_Super (Atxn op))" and c: "commitWait G w op = (ok, op')" and ok: "ok \<or> Atxn op = Atxn (FsTxn_Begin G st)"
  shows "fs_idle held (Fs op')" and "iobj (Fs op') = iobj (Fs op)" and "entries (Icache (Fs op')) = entries (Icache (Fs op))"
    and "at_Super (Atxn (FsTxn_Begin G (Fs op'))) = at_Super (Atxn op)" and "Balloc (Atxn (FsTxn_Begin G (Fs op'))) = Balloc (Atxn op)"
    and "valid_bnum (Atxn op) x \<Longrightarrow> blk G (Op (Atxn (FsTxn_Begin G (Fs op')))) x = blk G (Op (Atxn op)) x"
proof -
  let ?q = "jrnl_Begin G (Txn (Fs op'))" and ?a = "Atxn op" and ?b = "FsTxn_Begin G (Fs op')"
  have ti: "txn_inv held op" by (rule txn_run_inv [OF run Begin_inv [OF idle]])
  have fr: "freeBnums ?a = []" "freeInums ?a = []" and on': "on (Txn st) (Op ?a)" using cl by (simp_all add: clean_def)
  note s = commitWait_state [OF idle run on' c]
  obtain lm lg where fs: "Fs op' = (Fs op)\<lparr>Lockmap := lm, Txn := lg, fs_Balloc := Balloc ?a, fs_Ialloc := Ialloc ?a\<rparr>"
    using commitWait_fs [OF ti c] fr by auto
  then show "iobj (Fs op') = iobj (Fs op)" "entries (Icache (Fs op')) = entries (Icache (Fs op))" by simp_all
  show "fs_idle held (Fs op')" by (rule commitWait_idle [OF ti c])
  have "Op ?a = jrnl_Begin G (Txn st)" if "\<not> ok" using ok that Begin_clean(2) [of st] by simp
  then have same: "blk G ?q x = blk G (Op ?a) x" if "valid_bnum ?a x" for x
    using PreCommit_blk_clean [OF su cl that] s(3) fr by (cases ok) (simp_all add: blk_def)
  then show "valid_bnum ?a x \<Longrightarrow> blk G (Op (Atxn ?b)) x = blk G (Op ?a) x" using Begin_clean(2) [of "Fs op'"] by simp
  have "fs_Super (Fs op') = at_Super ?a" using s(4,5) fr by simp
  then show "at_Super (Atxn ?b) = at_Super ?a" "Balloc (Atxn ?b) = Balloc ?a" using fs by (simp_all add: FsTxn_Begin_def AllocTxn_Begin_def)
qed

lemma dir_commit:
  assumes idle: "fs_idle held st" and run: "txn_run G (FsTxn_Begin G st) op" and cl: "clean on (Txn st) (Atxn op)"
    and d: "dir_ok G used arange op r ents" "cached (Fs op) inum r" "Nlink (inode_at op r) \<noteq> 0"
    and c: "commitWait G w op = (ok, op')" and ok: "ok \<or> Atxn op = Atxn (FsTxn_Begin G st)"
  shows "dir_at G used arange held (Fs op') inum r ents" and "iobj (Fs op') = iobj (Fs op)"
    and "entries (Icache (Fs op')) = entries (Icache (Fs op))"
proof -
  let ?b = "FsTxn_Begin G (Fs op')"
  have su: "super_wf G (at_Super (Atxn op))" using d(1) by (simp add: dir_ok_def dir_is_def file_inv_def Let_def)
  note v = commit_view [OF idle run cl su c ok]
  show "iobj (Fs op') = iobj (Fs op)" "entries (Icache (Fs op')) = entries (Icache (Fs op))" by (rule v)+
  have at: "inode_at ?b r = inode_at op r" using v(2) by (simp add: inode_at_def FsTxn_Begin_def)
  have "dir_ok G used arange ?b r ents" by (rule dir_op_frame [OF d(1) at]) (use v(4-6) in simp_all)
  then show "dir_at G used arange held (Fs op') inum r ents" using d(2,3) v(1-3) by (simp add: dir_at_def cached_def inode_at_def)
qed

text \<open>The locks that \<^verbatim>\<open>LOOKUP\<close> takes: on the directory alone, on both in one transaction, or in the order of their numbers in a second
  transaction, after an abort of the first.\<close>

lemma cached_unique: "cached st i r \<Longrightarrow> cached st i r' \<Longrightarrow> r' = r"
  by (auto simp: cached_def)

lemma lookup_inodes:
  assumes d: "dir_at G used arange held st inum r ents" and fh: "MakeFh G fh3 = Inr \<lparr>Ino = inum, fh_Gen = Gen (iobj st r)\<rparr>"
    and l: "dir_locs ents name = Some (i, off)" and c: "cached st i rc" "Kind (iobj st rc) \<noteq> NF3FREE" "Nlink (iobj st rc) \<noteq> 0"
  obtains op st0 inos where "getInodesLocked G (Suc fuel) fh3 name st = Inr (op, inos, NFS3_OK)" and "idx inos 0 = Inr (Some rc)"
    and "fs_idle held st0" and "same_files G st st0" and "only_locked G held st0 op" and "i \<noteq> inum \<longrightarrow> idx inos 1 = Inr (Some r)"
proof -
  have idle: "fs_idle held st" and cr: "cached st inum r" and nl: "Nlink (iobj st r) \<noteq> 0" using d by (simp_all add: dir_at_def)
  have i0: "i \<noteq> 0" using l by (auto simp: dir_locs_def Let_def split: if_splits)
  note kd = dir_at_kind [OF d]
  obtain op where g: "GetInodeLocked G inum (FsTxn_Begin G st) = Inr (r, op)" and o: "only_locked G held st op"
      and ow: "fst ` set (inodes op) = {inum}"
    by (rule only_locked_get [OF only_locked_begin [OF idle] cr]) (simp_all add: FsTxn_Begin_def)
  have gf: "GetInodeFh G fh3 (FsTxn_Begin G st) = Inr (Some r, op)"
    using g fh kd nl only_locked_at [OF o] by (simp add: GetInodeFh_def GetInodeInum_def GetInodeInumFree_def)
  have lk: "LookupName G name r op = Inr ((i, off), op)" using LookupName_ok [OF only_locked_dir [OF o d]] l by simp
  have im: "Inum (inode_at op r) = inum" using idle cr only_locked_at [OF o] by (auto simp: fs_idle_def icache_ok_def cached_def)
  consider "i = inum" | "i < inum" | "inum < i" by fastforce
  then show thesis
  proof cases
    case 1
    then have "rc = r" using cached_unique [OF cr] c(1) by simp
    then show thesis using that [OF _ _ idle _ o, of "[Some r]"] gf lk im i0 1 by (simp add: same_files_def idx_def)
  next
    case 3
    have "i \<notin> fst ` set (inodes op)" using 3 ow by simp
    from only_locked_get [OF o c(1) this] obtain op' where g': "GetInodeLocked G i op = Inr (rc, op')" and o': "only_locked G held st op'"
      by blast
    have "i \<noteq> inum" "\<not> i < inum" using 3 by auto
    then show thesis using that [OF _ _ idle _ o', of "twoInodes rc r"] gf lk im i0 g' by (simp add: same_files_def idx_def twoInodes_def)
  next
    case 2
    let ?st = "Fs (Abort G op)"
    note ab = only_locked_abort [OF idle o]
    have io: "iobj ?st = iobj st" using ab(2) by (simp add: same_files_def)
    note b = only_locked_begin [OF ab(1)]
    obtain op1 where g1: "GetInodeLocked G i (FsTxn_Begin G ?st) = Inr (rc, op1)" and o1: "only_locked G held ?st op1"
        and w1: "fst ` set (inodes op1) = {i}"
      by (rule only_locked_get [OF b, of i rc]) (use c(1) same_files_cached [OF ab(2)] in \<open>simp_all add: FsTxn_Begin_def\<close>)
    obtain op2 where g2: "GetInodeLocked G inum op1 = Inr (r, op2)" and o2: "only_locked G held ?st op2"
      by (rule only_locked_get [OF o1, of inum r]) (use cr same_files_cached [OF ab(2)] w1 2 in simp_all)
    have lt: "i \<noteq> inum" "\<not> inum < i" using 2 by auto
    have li: "lockInodes G [i, inum] (FsTxn_Begin G ?st) = Inr (Some [Some rc, Some r], op2)"
      using g1 g2 c(2,3) kd nl only_locked_at [OF o1] only_locked_at [OF o2] io lt lock_order_two [of "[]" i inum]
      by (simp add: lockInodes_def GetInodeInum_def GetInodeInumFree_def twoInums_def)
    have d2: "dir_ok G used arange op2 r ents" by (rule only_locked_dir [OF o2 same_files_dir [OF ab(2,1) d]])
    have "lookupOrdered G name \<lparr>Ino = inum, fh_Gen = Gen (iobj st r)\<rparr> i (FsTxn_Begin G ?st) = Inr (Some [Some rc, Some r], op2)"
      using li LookupName_ok [OF d2] l i0 only_locked_at [OF o2] io by (simp add: lookupOrdered_def twoInums_def idx_def)
    then show thesis using that [OF _ _ ab o2, of "[Some rc, Some r]"] gf lk im i0 2 fh by (simp add: idx_def)
  qed
qed

lemma commitReply_wait:
  assumes "commitReply G op = (s, op')"
  obtains ok where "commitWait G True op = (ok, op')" and "s = (if ok then NFS3_OK else NFS3ERR_SERVERFAULT)"
  using assms by (auto simp: commitReply_def Commit_def split: prod.splits if_splits)

lemma only_locked_clean: "only_locked G held st op \<Longrightarrow> clean on (Txn st) (Atxn op)"
  using Begin_clean(1) by (simp add: only_locked_def)

lemma LOOKUP_ok:
  assumes d: "dir_at G used arange held (fsstate nfs) inum r ents"
    and fh: "MakeFh G fh3 = Inr \<lparr>Ino = inum, fh_Gen = Gen (iobj (fsstate nfs) r)\<rparr>"
    and l: "dir_locs ents name = Some (i, off)"
    and c: "cached (fsstate nfs) i rc" "Kind (iobj (fsstate nfs) rc) \<noteq> NF3FREE" "Nlink (iobj (fsstate nfs) rc) \<noteq> 0"
  shows "\<exists>reply nfs'. NFSPROC3_LOOKUP G (Suc fuel) \<lparr>LOOKUP3args_What = \<lparr>Diropargs3_Dir = fh3, Diropargs3_Name = name\<rparr>\<rparr> nfs = Inr (reply, nfs') \<and>
     LOOKUP3res_Status reply \<in> {NFS3_OK, NFS3ERR_SERVERFAULT} \<and>
     MakeFh G (LOOKUP3resok_Object (LOOKUP3res_Resok reply)) = Inr \<lparr>Ino = i, fh_Gen = Gen (iobj (fsstate nfs) rc)\<rparr> \<and>
     Post_op_attr_Attributes (LOOKUP3resok_Obj_attributes (LOOKUP3res_Resok reply)) = MkFattr (iobj (fsstate nfs) rc) \<and>
     dir_at G used arange held (fsstate nfs') inum r ents \<and> iobj (fsstate nfs') = iobj (fsstate nfs) \<and>
     (\<forall>j s. cached (fsstate nfs') j s \<longleftrightarrow> cached (fsstate nfs) j s)"
proof -
  let ?st = "fsstate nfs"
  obtain op st0 inos where g: "getInodesLocked G (Suc fuel) fh3 name ?st = Inr (op, inos, NFS3_OK)" and x: "idx inos 0 = Inr (Some rc)"
      and idle: "fs_idle held st0" and s: "same_files G ?st st0" and o: "only_locked G held st0 op"
    by (rule lookup_inodes [OF d fh l c])
  have at: "inode_at op rc = iobj ?st rc" "iobj st0 = iobj ?st" using only_locked_at [OF o] s by (simp_all add: same_files_def)
  have im: "Inum (iobj ?st rc) = i" using d c(1) by (auto simp: dir_at_def fs_idle_def icache_ok_def cached_def)
  obtain h where h: "MakeFh3 G \<lparr>Ino = i, fh_Gen = Gen (iobj ?st rc)\<rparr> = Inr h" "MakeFh G h = Inr \<lparr>Ino = i, fh_Gen = Gen (iobj ?st rc)\<rparr>"
    using fh_ok by blast
  obtain st op' where cr: "commitReply G op = (st, op')" by (cases "commitReply G op")
  then obtain ok where w: "commitWait G True op = (ok, op')" and st: "st = (if ok then NFS3_OK else NFS3ERR_SERVERFAULT)"
    by (rule commitReply_wait)
  note d0 = same_files_dir [OF s idle d]
  have run: "txn_run G (FsTxn_Begin G st0) op" and same: "Atxn op = Atxn (FsTxn_Begin G st0)" using o by (simp_all add: only_locked_def)
  have "cached (Fs op) inum r" "Nlink (inode_at op r) \<noteq> 0" using d0 o by (simp_all add: dir_at_def only_locked_def cached_def inode_at_def)
  note dc = dir_commit [OF idle run only_locked_clean [OF o] only_locked_dir [OF o d0] this w disjI2 [OF same]]
  let ?reply = "zero_LOOKUP3res\<lparr>LOOKUP3res_Resok := (LOOKUP3res_Resok zero_LOOKUP3res)\<lparr>LOOKUP3resok_Object := h,
     LOOKUP3resok_Obj_attributes := \<lparr>Post_op_attr_Attributes_follow = True, Post_op_attr_Attributes = MkFattr (iobj ?st rc)\<rparr>\<rparr>,
     LOOKUP3res_Status := st\<rparr>"
  have "NFSPROC3_LOOKUP G (Suc fuel) \<lparr>LOOKUP3args_What = \<lparr>Diropargs3_Dir = fh3, Diropargs3_Name = name\<rparr>\<rparr> nfs = Inr (?reply, put_fs op' nfs)"
    using g x at im h(1) cr by (simp add: NFSPROC3_LOOKUP_def Let_def del: getInodesLocked.simps)
  moreover have "iobj (Fs op') = iobj ?st" "entries (Icache (Fs op')) = entries (Icache ?st)"
    using dc(2,3) o s by (simp_all add: only_locked_def same_files_def)
  ultimately show ?thesis using h(2) st dc(1) by (simp add: cached_def)
qed

lemma dir_locked:
  assumes d: "dir_at G used arange held st inum r ents" and fh: "MakeFh G fh3 = Inr \<lparr>Ino = inum, fh_Gen = Gen (iobj st r)\<rparr>"
    and g: "GetInodeFh G fh3 (FsTxn_Begin G st) = Inr (Some r, op)"
  shows "only_locked G held st op" and "fst ` set (inodes op) = {inum}"
proof -
  have idle: "fs_idle held st" and cr: "cached st inum r" and nl: "Nlink (iobj st r) \<noteq> 0" using d by (simp_all add: dir_at_def)
  obtain op' where l: "GetInodeLocked G inum (FsTxn_Begin G st) = Inr (r, op')" and o: "only_locked G held st op'"
      and w: "fst ` set (inodes op') = {inum}"
    by (rule only_locked_get [OF only_locked_begin [OF idle] cr]) (simp_all add: FsTxn_Begin_def)
  have "op' = op" using g l fh nl dir_at_kind [OF d] only_locked_at [OF o]
    by (simp add: GetInodeFh_def GetInodeInum_def GetInodeInumFree_def)
  then show "only_locked G held st op" "fst ` set (inodes op) = {inum}" using o w by simp_all
qed

lemma LOOKUP_none:
  assumes d: "dir_at G used arange held (fsstate nfs) inum r ents"
    and fh: "MakeFh G fh3 = Inr \<lparr>Ino = inum, fh_Gen = Gen (iobj (fsstate nfs) r)\<rparr>" and l: "dir_locs ents name = None"
  shows "\<exists>reply nfs'. NFSPROC3_LOOKUP G (Suc fuel) \<lparr>LOOKUP3args_What = \<lparr>Diropargs3_Dir = fh3, Diropargs3_Name = name\<rparr>\<rparr> nfs = Inr (reply, nfs') \<and>
     LOOKUP3res_Status reply = NFS3ERR_NOENT \<and> dir_at G used arange held (fsstate nfs') inum r ents \<and> same_files G (fsstate nfs) (fsstate nfs')"
proof -
  let ?st = "fsstate nfs"
  obtain op where g: "GetInodeFh G fh3 (FsTxn_Begin G ?st) = Inr (Some r, op)" and dk: "dir_ok G used arange op r ents"
    by (rule get_dir [OF d fh])
  have idle: "fs_idle held ?st" using d by (simp add: dir_at_def)
  have o: "only_locked G held ?st op" by (rule dir_locked(1) [OF d fh g])
  note ab = only_locked_abort [OF idle o]
  have "getInodesLocked G (Suc fuel) fh3 name ?st = Inr (op, [Some r], NFS3ERR_NOENT)" using g LookupName_ok [OF dk] l by simp
  then have "NFSPROC3_LOOKUP G (Suc fuel) \<lparr>LOOKUP3args_What = \<lparr>Diropargs3_Dir = fh3, Diropargs3_Name = name\<rparr>\<rparr> nfs =
      Inr (zero_LOOKUP3res\<lparr>LOOKUP3res_Status := NFS3ERR_NOENT\<rparr>, put_fs (Abort G op) nfs)"
    by (simp add: NFSPROC3_LOOKUP_def del: getInodesLocked.simps)
  then show ?thesis using ab same_files_dir [OF ab(2,1) d] by simp
qed

end

section \<open>What a change of a directory keeps\<close>

text \<open>The fields of an inode that \<^const>\<open>Read\<close> and \<^const>\<open>Write\<close> do not change.\<close>

definition meta :: "Inode \<Rightarrow> u64 \<times> Ftype3 \<times> u32 \<times> u64 \<times> Dcache option" where
  "meta ip = (Inum ip, Kind ip, Nlink ip, Gen ip, inode_Dcache ip)"

lemma meta_upd [simp]: "meta (ip\<lparr>blks := bs\<rparr>) = meta ip" "meta (ip\<lparr>Size := sz\<rparr>) = meta ip"
  by (simp_all add: meta_def)

lemma bmap_meta: "ret (\<lambda>(b, n, ip', a). meta ip' = meta ip) (bmap G bn ip atxn)"
  unfolding bmap_def by (rule wp | simp only: meta_upd | rule ret_any)+

lemma read_loop_meta: "ret (\<lambda>(d, ip', a). meta ip' = meta ip) (read_loop G fuel cn boff n off data ip atxn)"
proof (induction fuel arbitrary: boff n off data ip atxn)
  case (Suc fuel)
  have IH: "meta ip1 = meta ip \<Longrightarrow> ret (\<lambda>(d, ip', a). meta ip' = meta ip) (read_loop G fuel cn boff' n' off' data' ip1 a1)"
    for boff' n' off' data' ip1 a1 using Suc.IH [of ip1] by simp
  show ?case unfolding read_loop.simps [of G "Suc fuel"] nat.case
    by (rule wp ret_bnd4 [OF bmap_meta] IH | assumption | rule ret_any | simp)+
qed (simp add: read_loop.simps [of G 0] ret_Inl ret_Inr)

lemma Read_meta: "ret (\<lambda>(d, e, ip', a). meta ip' = meta ip) (Read G off n ip atxn)"
  unfolding Read_def by (rule wp ret_bnd3 [OF read_loop_meta] | assumption | simp)+

lemma write_loop_meta:
  "ret (\<lambda>(c, k, al, ip', a). meta ip' = meta ip) (write_loop G fuel boff n data off cn alloc ip atxn)"
proof (induction fuel arbitrary: boff n data off cn alloc ip atxn)
  case (Suc fuel)
  have IH: "meta ip1 = meta ip \<Longrightarrow>
      ret (\<lambda>(c, k, al, ip', a). meta ip' = meta ip) (write_loop G fuel boff' n' data' off' c' k' ip1 a1)"
    for boff' n' data' off' c' k' ip1 a1 using Suc.IH [of ip1] by simp
  show ?case unfolding write_loop.simps [of G "Suc fuel"] nat.case
    by (rule wp ret_bnd4 [OF bmap_meta] IH | assumption | rule ret_any | simp)+
qed (simp add: write_loop.simps [of G 0] ret_Inl ret_Inr)

lemma Write_meta: "ret (\<lambda>(c, k, ip', a). meta ip' = meta ip) (Write G off n data ip atxn)"
  unfolding Write_def by (rule wp ret_bnd5 [OF write_loop_meta] | assumption | rule ret_any | simp)+

lemma txn_run_trans: "txn_run G t u \<Longrightarrow> txn_run G s t \<Longrightarrow> txn_run G s u"
  by (induction rule: txn_run.induct) (auto intro: txn_run.intros)

text \<open>The transaction has changed the directory \<open>dip\<close> of \<open>op\<close> and, in memory, nothing else.\<close>

definition dir_only ::
    "('log, 'op, 'alc, 'lm, 'd) golib \<Rightarrow> ('log \<Rightarrow> 'op \<Rightarrow> bool) \<Rightarrow> 'log \<Rightarrow> iref \<Rightarrow> ('log, 'op, 'alc, 'lm, 'd) FsTxn \<Rightarrow> ('log, 'op, 'alc, 'lm, 'd) FsTxn \<Rightarrow> bool" where
  "dir_only G on lg dip op op' \<longleftrightarrow>
     txn_run G op op' \<and> clean on lg (Atxn op') \<and> entries (Icache (Fs op')) = entries (Icache (Fs op)) \<and>
     Nlink (inode_at op' dip) = Nlink (inode_at op dip) \<and> Gen (inode_at op' dip) = Gen (inode_at op dip) \<and>
     inode_Dcache (inode_at op' dip) \<noteq> None \<and> (\<forall>r. r \<noteq> dip \<longrightarrow> inode_at op' r = inode_at op r)"

context gojournal
begin

lemma dir_only_put:
  "dir_only G on lg dip op op1 \<Longrightarrow> meta ip' = meta (inode_at op1 dip) \<Longrightarrow> clean on lg a \<Longrightarrow> atxn_run G (Atxn op1) a \<Longrightarrow>
     dir_only G on lg dip op (put_inode dip ip' (op1\<lparr>Atxn := a\<rparr>))"
  by (auto simp: dir_only_def meta_def t_inode t_atxn) (simp_all add: put_inode_def)

lemma dir_only_clean: "dir_only G on lg dip op op1 \<Longrightarrow> clean on lg (Atxn op1)"
  by (simp add: dir_only_def)

lemma put_dcache_only: "dir_only G on lg dip op op1 \<Longrightarrow> dir_only G on lg dip op (put_dcache dip dc op1)"
  by (auto simp: dir_only_def put_dcache_def t_inode) (simp_all add: put_inode_def)

lemma ip_Read_only:
  assumes p: "dir_only G on lg dip op op1"
  shows "ret (\<lambda>((d, e), op'). dir_only G on lg dip op op') (ip_Read G off n dip op1)"
proof -
  have "ret (\<lambda>(d, e, ip', a). meta ip' = meta (inode_at op1 dip) \<and> clean on lg a \<and> atxn_run G (Atxn op1) a)
      (Read G off n (inode_at op1 dip) (Atxn op1))"
    using Read_meta [of "inode_at op1 dip"] atxn_writes.Read_Q [OF clean_writes dir_only_clean [OF p]]
      run.Read_Q [OF run_start [of G "Atxn op1"]] by (fastforce simp: ret_def)
  then show ?thesis unfolding ip_Read_def on_inode_def ret_def
    by (auto simp: bnd_eq_Inr intro!: dir_only_put [OF p])
qed

lemma ip_Write_only:
  assumes p: "dir_only G on lg dip op op1"
  shows "ret (\<lambda>((c, k), op'). dir_only G on lg dip op op') (ip_Write G off n data dip op1)"
proof -
  have "ret (\<lambda>(c, k, ip', a). meta ip' = meta (inode_at op1 dip) \<and> clean on lg a \<and> atxn_run G (Atxn op1) a)
      (Write G off n data (inode_at op1 dip) (Atxn op1))"
    using Write_meta [of "inode_at op1 dip"] atxn_writes.Write_Q [OF clean_writes dir_only_clean [OF p]]
      run.Write_Q [OF run_start [of G "Atxn op1"]] by (fastforce simp: ret_def)
  then show ?thesis unfolding ip_Write_def on_inode_def ret_def
    by (auto simp: bnd_eq_Inr intro!: dir_only_put [OF p])
qed

lemma ensure_dcache_only: "dir_only G on lg dip op op1 \<Longrightarrow> ret (dir_only G on lg dip op) (ensure_dcache G dip op1)"
  unfolding ensure_dcache_def by (rule wp | simp add: dir_only_def)+

lemma free_loop_only: "dir_only G on lg dip op op1 \<Longrightarrow> ret (\<lambda>(x, op'). dir_only G on lg dip op op') (free_loop G fuel off dip op1)"
proof (induction fuel arbitrary: off op1)
  case (Suc fuel)
  show ?case unfolding free_loop.simps [of G "Suc fuel"] nat.case
    by (rule wp ret_bnd22 [OF ip_Read_only] Suc | assumption | rule ret_any)+
qed (simp add: free_loop.simps [of G 0] ret_Inl ret_Inr)

lemma AddNameDir_only:
  "dir_only G on lg dip op op1 \<Longrightarrow> ret (\<lambda>((off, k), op'). dir_only G on lg dip op op') (AddNameDir G inum name off dip op1)"
  unfolding AddNameDir_def
  by (rule wp ret_bnd2 [OF free_loop_only] ret_bnd22 [OF ip_Write_only] | assumption | rule ret_any)+

lemma AddName_only: "dir_only G on lg dip op op1 \<Longrightarrow> ret (\<lambda>(k, op'). dir_only G on lg dip op op') (AddName G inum name dip op1)"
  unfolding AddName_def
  by (rule wp ret_bnd [OF ensure_dcache_only] ret_bnd22 [OF AddNameDir_only] put_dcache_only | assumption | rule ret_any)+

lemma LookupName_only: "dir_only G on lg dip op op1 \<Longrightarrow> ret (\<lambda>((i, off), op'). dir_only G on lg dip op op') (LookupName G name dip op1)"
  unfolding LookupName_def
  by (rule wp ret_bnd [OF ensure_dcache_only] | assumption | rule ret_any | simp split: prod.splits)+

lemma RemNameDir_only:
  "dir_only G on lg dip op op1 \<Longrightarrow> ret (\<lambda>((off, k), op'). dir_only G on lg dip op op') (RemNameDir G name dip op1)"
  unfolding RemNameDir_def
  by (rule wp ret_bnd22 [OF LookupName_only] ret_bnd22 [OF ip_Write_only] | assumption | rule ret_any)+

lemma RemName_only: "dir_only G on lg dip op op1 \<Longrightarrow> ret (\<lambda>(k, op'). dir_only G on lg dip op op') (RemName G name dip op1)"
  unfolding RemName_def
  by (rule wp ret_bnd [OF ensure_dcache_only] ret_bnd22 [OF RemNameDir_only] put_dcache_only | assumption | rule ret_any | simp)+

lemma RENAME_commit:
  assumes d: "dir_at G used arange held (fsstate nfs) inum r ents"
    and fh: "MakeFh G fh3 = Inr \<lparr>Ino = inum, fh_Gen = Gen (iobj (fsstate nfs) r)\<rparr>"
    and n: "\<not> IllegalName name" "length name < 112" "dir_locs ents name = Some (i, off)"
    and t: "dir_locs ents ton = None" "length ton < 112" and room: "128 * length ents + 128 \<le> 1073774592"
  shows "\<exists>reply nfs'. NFSPROC3_RENAME G (Suc fuel) \<lparr>RENAME3args_From = \<lparr>Diropargs3_Dir = fh3, Diropargs3_Name = name\<rparr>,
       RENAME3args_To = \<lparr>Diropargs3_Dir = fh3, Diropargs3_Name = ton\<rparr>\<rparr> nfs = Inr (reply, nfs') \<and>
     RENAME3res_Status reply \<in> {NFS3_OK, NFS3ERR_IO, NFS3ERR_SERVERFAULT} \<and>
     (RENAME3res_Status reply = NFS3_OK \<longrightarrow>
        (\<exists>off' ents'. dir_at G used arange held (fsstate nfs') inum r ents' \<and>
           dir_locs ents' = (dir_locs ents)(name := None, ton \<mapsto> (i, off'))) \<and>
        Gen (iobj (fsstate nfs') r) = Gen (iobj (fsstate nfs) r) \<and> (\<forall>s. s \<noteq> r \<longrightarrow> iobj (fsstate nfs') s = iobj (fsstate nfs) s) \<and>
        (\<forall>j s. cached (fsstate nfs') j s \<longleftrightarrow> cached (fsstate nfs) j s))"
proof (rule rename_start [OF d fh n t(1), of fuel])
  fix op op' ents'
  let ?st = "fsstate nfs"
  assume run: "NFSPROC3_RENAME G (Suc fuel) \<lparr>RENAME3args_From = \<lparr>Diropargs3_Dir = fh3, Diropargs3_Name = name\<rparr>,
       RENAME3args_To = \<lparr>Diropargs3_Dir = fh3, Diropargs3_Name = ton\<rparr>\<rparr> nfs =
     bnd (AddName G i ton r op') (\<lambda>(ok, op).
       if \<not> ok then Inr (zero_RENAME3res\<lparr>RENAME3res_Status := NFS3ERR_IO\<rparr>, put_fs (Abort G op) nfs)
       else (let (st, op) = commitReply G op in Inr (zero_RENAME3res\<lparr>RENAME3res_Status := st\<rparr>, put_fs op nfs)))"
    and d1: "dir_ok G used arange op' r ents'" and l: "length ents' = length ents" "dir_locs ents' = (dir_locs ents)(name := None)"
    and g: "GetInodeFh G fh3 (FsTxn_Begin G ?st) = Inr (Some r, op)" and rem: "RemName G name r op = Inr (True, op')"
  have idle: "fs_idle held ?st" and cr: "cached ?st inum r" and nl: "Nlink (iobj ?st r) \<noteq> 0" using d by (simp_all add: dir_at_def)
  have o: "only_locked G held ?st op" by (rule dir_locked(1) [OF d fh g])
  have tr: "txn_run G (FsTxn_Begin G ?st) op" using o by (simp add: only_locked_def)
  have p0: "dir_only G on (Txn ?st) r op op"
    using only_locked_clean [OF o] only_locked_dir [OF o d] by (auto simp: dir_only_def dir_ok_def t_start)
  have i0: "i \<noteq> 0" using n(3) by (auto simp: dir_locs_def Let_def split: if_splits)
  have new: "dir_locs ents' ton = None" "128 * length ents' + 128 \<le> 1073774592" using l t(1) room by simp_all
  from AddName_ok [OF d1 new(2) t(2) new(1) i0] obtain ok op2 where
      a: "AddName G i ton r op' = Inr (ok, op2)" and
      ao: "if ok then \<exists>off' ents''. dir_ok G used arange op2 r ents'' \<and> dir_locs ents'' = (dir_locs ents')(ton \<mapsto> (i, off')) \<and>
          length ents'' \<le> Suc (length ents') else exhausted used arange (Atxn op2) \<and> dir_ok G used arange op2 r ents'" by blast
  have p: "dir_only G on (Txn ?st) r op op2" using retD [OF AddName_only a] retD [OF RemName_only [OF p0] rem] by simp
  have tr2: "txn_run G (FsTxn_Begin G ?st) op2" using txn_run_trans [OF _ tr] p by (simp add: dir_only_def)
  show ?thesis
  proof (cases ok)
    case False
    then show ?thesis using run a by simp
  next
    case True
    then obtain off' ents2 where d2: "dir_ok G used arange op2 r ents2" "dir_locs ents2 = (dir_locs ents)(name := None, ton \<mapsto> (i, off'))"
      using ao l(2) by auto
    obtain s op3 where c: "commitReply G op2 = (s, op3)" by (cases "commitReply G op2")
    then obtain k where w: "commitWait G True op2 = (k, op3)" and s: "s = (if k then NFS3_OK else NFS3ERR_SERVERFAULT)"
      by (rule commitReply_wait)
    have ca: "cached (Fs op2) inum r" "Nlink (inode_at op2 r) \<noteq> 0"
      using p o cr nl by (simp_all add: dir_only_def only_locked_def cached_def inode_at_def)
    have "k \<longrightarrow> dir_at G used arange held (Fs op3) inum r ents2 \<and> iobj (Fs op3) = iobj (Fs op2) \<and>
        entries (Icache (Fs op3)) = entries (Icache (Fs op2))"
      using dir_commit [OF idle tr2 dir_only_clean [OF p] d2(1) ca w] by blast
    then show ?thesis using run a True c s d2(2) p o
      by (auto simp: dir_only_def only_locked_def cached_def inode_at_def)
  qed
qed

end

section \<open>Properties\<close>

text \<open>C9: \<^verbatim>\<open>LOOKUP\<close>. For a well-formed directory and a name it has for a cached inode in use, \<^verbatim>\<open>LOOKUP\<close> returns without waiting for
  itself, whatever the order of the two inode numbers: the handle in the reply decodes to the number and generation of the inode, the
  attributes are the inode's, and the directory, the inodes and the cache are as before; only a failed commit changes the status. For a
  name the directory does not have it replies \<^verbatim>\<open>NFS3ERR_NOENT\<close>, and nothing has changed.\<close>

theorem nfs_lookup:
  assumes G: "gojournal G on used arange held" and d: "dir_at G used arange held (fsstate nfs) inum r ents"
    and fh: "MakeFh G fh3 = Inr \<lparr>Ino = inum, fh_Gen = Gen (iobj (fsstate nfs) r)\<rparr>"
    and c: "\<And>i off. dir_locs ents name = Some (i, off) \<Longrightarrow> cached (fsstate nfs) i rc \<and> Kind (iobj (fsstate nfs) rc) \<noteq> NF3FREE \<and>
      Nlink (iobj (fsstate nfs) rc) \<noteq> 0"
  shows "\<exists>reply nfs'. NFSPROC3_LOOKUP G (Suc fuel) \<lparr>LOOKUP3args_What = \<lparr>Diropargs3_Dir = fh3, Diropargs3_Name = name\<rparr>\<rparr> nfs = Inr (reply, nfs') \<and>
     dir_at G used arange held (fsstate nfs') inum r ents \<and> iobj (fsstate nfs') = iobj (fsstate nfs) \<and>
     (\<forall>j s. cached (fsstate nfs') j s \<longleftrightarrow> cached (fsstate nfs) j s) \<and>
     (case dir_locs ents name of
        None \<Rightarrow> LOOKUP3res_Status reply = NFS3ERR_NOENT \<and> Txn (fsstate nfs') = Txn (fsstate nfs)
      | Some (i, off) \<Rightarrow> LOOKUP3res_Status reply \<in> {NFS3_OK, NFS3ERR_SERVERFAULT} \<and>
          MakeFh G (LOOKUP3resok_Object (LOOKUP3res_Resok reply)) = Inr \<lparr>Ino = i, fh_Gen = Gen (iobj (fsstate nfs) rc)\<rparr> \<and>
          Post_op_attr_Attributes (LOOKUP3resok_Obj_attributes (LOOKUP3res_Resok reply)) = MkFattr (iobj (fsstate nfs) rc))"
proof (cases "dir_locs ents name")
  case None
  then show ?thesis using gojournal.LOOKUP_none [OF G d fh None, of fuel] by (fastforce simp: same_files_def cached_def)
next
  case (Some p)
  then obtain i off where l: "dir_locs ents name = Some (i, off)" by (cases p) simp
  with c [OF l] show ?thesis using gojournal.LOOKUP_ok [OF G d fh l, of rc fuel] by auto
qed

text \<open>The example directory with the inode 5 of its entry in the cache.\<close>

definition ex_look_nfs :: "(u64 \<Rightarrow> nat \<Rightarrow> byte, bool list, u64 list, ref_disk) Nfs" where
  "ex_look_nfs = \<lparr>fsstate = (Fs ex_dir_txn)\<lparr>Icache := \<lparr>entries = [2 \<mapsto> \<lparr>entry.slot = \<lparr>Obj = Some 0\<rparr>, lru = True, entry_id = 2\<rparr>,
       5 \<mapsto> \<lparr>entry.slot = \<lparr>Obj = Some 1\<rparr>, lru = True, entry_id = 5\<rparr>],
     lru_list = [2, 5], cache_sz = 100, cnt = 2\<rparr>, iobj := (\<lambda>r. if r = 0 then ex_dir else ex_inode), inext := 2\<rparr>,
     shrinkst = MkShrinkerSt, Unstable = True\<rparr>"

lemma ex_look_at: "dir_at ref_lib ref_used ref_range set (fsstate ex_look_nfs) 2 0 ex_ents"
proof -
  have "fs_idle set (fsstate ex_look_nfs)" "cached (fsstate ex_look_nfs) 2 0"
    by (auto simp: fs_idle_def ex_look_nfs_def ex_dir_txn_def FsTxn_Begin_def icache_ok_def cache_inv_def ex_dir_def ex_inode_def cached_def
        split: if_splits)
  moreover have "inode_at (FsTxn_Begin ref_lib (fsstate ex_look_nfs)) 0 = inode_at ex_dir_txn 0"
    "Atxn (FsTxn_Begin ref_lib (fsstate ex_look_nfs)) = Atxn ex_dir_txn"
    by (simp_all add: ex_look_nfs_def ex_dir_txn_def FsTxn_Begin_def inode_at_def)
  moreover have "Nlink (iobj (fsstate ex_look_nfs) 0) \<noteq> 0" by (simp add: ex_look_nfs_def ex_dir_def)
  ultimately show ?thesis
    using ex_dir_ok dir_ok_cong [of "FsTxn_Begin ref_lib (fsstate ex_look_nfs)" 0 ex_dir_txn ref_lib ref_used ref_range ex_ents]
    by (simp add: dir_at_def)
qed

lemma ex_look_handle: "MakeFh ref_lib ex_handle2 = Inr \<lparr>Ino = 2, fh_Gen = Gen (iobj (fsstate ex_look_nfs) 0)\<rparr>"
  by (simp add: ex_handle2_fh ex_look_nfs_def ex_dir_def zero_Inode_def)

lemma ex_look_child:
  "cached (fsstate ex_look_nfs) 5 1" "Kind (iobj (fsstate ex_look_nfs) 1) \<noteq> NF3FREE" "Nlink (iobj (fsstate ex_look_nfs) 1) \<noteq> 0"
  "Gen (iobj (fsstate ex_look_nfs) 1) = 3"
  by (simp_all add: ex_look_nfs_def cached_def ex_inode_def)

theorem nfs_lookup_witness:
  "\<exists>reply nfs'. NFSPROC3_LOOKUP ref_lib 1 \<lparr>LOOKUP3args_What = \<lparr>Diropargs3_Dir = ex_handle2, Diropargs3_Name = [97]\<rparr>\<rparr> ex_look_nfs = Inr (reply, nfs') \<and>
     MakeFh ref_lib (LOOKUP3resok_Object (LOOKUP3res_Resok reply)) = Inr \<lparr>Ino = 5, fh_Gen = 3\<rparr>"
proof -
  have l: "dir_locs ex_ents [97] = Some (5, 0)" using ex_locs by simp
  from nfs_lookup [OF ref_gojournal ex_look_at ex_look_handle, of "[97]" 1 0] show ?thesis
    using ex_look_child by (auto simp: l)
qed

text \<open>C10: \<^verbatim>\<open>RENAME\<close>, then \<^verbatim>\<open>LOOKUP\<close>. A \<^verbatim>\<open>RENAME\<close> within a well-formed directory with room for an entry, from a legal name of less than 112
  bytes that the directory has for another inode, which is in the cache and in use, to a name of less than 112 bytes that the directory does not
  have, returns. If it replies \<^verbatim>\<open>NFS3_OK\<close>, a \<^verbatim>\<open>LOOKUP\<close> of the new name
  returns the handle of the inode that had the old name, a \<^verbatim>\<open>LOOKUP\<close> of the old name replies \<^verbatim>\<open>NFS3ERR_NOENT\<close>, and the directory is
  well formed on the committed log with every other name as it was. (A new name that exists, be it the old name itself, is not covered.)\<close>

theorem rename_then_lookup:
  assumes G: "gojournal G on used arange held" and d: "dir_at G used arange held (fsstate nfs) inum r ents"
    and fh: "MakeFh G fh3 = Inr \<lparr>Ino = inum, fh_Gen = Gen (iobj (fsstate nfs) r)\<rparr>"
    and n: "\<not> IllegalName name" "length name < 112" "dir_locs ents name = Some (i, off)"
    and t: "dir_locs ents ton = None" "length ton < 112" and room: "128 * length ents + 128 \<le> 1073774592"
    and c: "cached (fsstate nfs) i rc" "rc \<noteq> r" "Kind (iobj (fsstate nfs) rc) \<noteq> NF3FREE" "Nlink (iobj (fsstate nfs) rc) \<noteq> 0"
  shows "\<exists>reply nfs'. NFSPROC3_RENAME G (Suc fuel) \<lparr>RENAME3args_From = \<lparr>Diropargs3_Dir = fh3, Diropargs3_Name = name\<rparr>,
       RENAME3args_To = \<lparr>Diropargs3_Dir = fh3, Diropargs3_Name = ton\<rparr>\<rparr> nfs = Inr (reply, nfs') \<and>
     RENAME3res_Status reply \<in> {NFS3_OK, NFS3ERR_IO, NFS3ERR_SERVERFAULT} \<and>
     (RENAME3res_Status reply = NFS3_OK \<longrightarrow>
        (\<exists>off' ents'. dir_at G used arange held (fsstate nfs') inum r ents' \<and>
           dir_locs ents' = (dir_locs ents)(name := None, ton \<mapsto> (i, off'))) \<and>
        (\<exists>reply' nfs''. NFSPROC3_LOOKUP G (Suc fuel) \<lparr>LOOKUP3args_What = \<lparr>Diropargs3_Dir = fh3, Diropargs3_Name = ton\<rparr>\<rparr> nfs' = Inr (reply', nfs'') \<and>
           LOOKUP3res_Status reply' \<in> {NFS3_OK, NFS3ERR_SERVERFAULT} \<and>
           MakeFh G (LOOKUP3resok_Object (LOOKUP3res_Resok reply')) = Inr \<lparr>Ino = i, fh_Gen = Gen (iobj (fsstate nfs) rc)\<rparr>) \<and>
        (\<exists>reply' nfs''. NFSPROC3_LOOKUP G (Suc fuel) \<lparr>LOOKUP3args_What = \<lparr>Diropargs3_Dir = fh3, Diropargs3_Name = name\<rparr>\<rparr> nfs' = Inr (reply', nfs'') \<and>
           LOOKUP3res_Status reply' = NFS3ERR_NOENT))"
proof -
  from gojournal.RENAME_commit [OF G d fh n t room, of fuel] obtain reply nfs' where
      run: "NFSPROC3_RENAME G (Suc fuel) \<lparr>RENAME3args_From = \<lparr>Diropargs3_Dir = fh3, Diropargs3_Name = name\<rparr>,
       RENAME3args_To = \<lparr>Diropargs3_Dir = fh3, Diropargs3_Name = ton\<rparr>\<rparr> nfs = Inr (reply, nfs')"
    and st: "RENAME3res_Status reply \<in> {NFS3_OK, NFS3ERR_IO, NFS3ERR_SERVERFAULT}"
    and ok: "RENAME3res_Status reply = NFS3_OK \<Longrightarrow> (\<exists>off' ents'. dir_at G used arange held (fsstate nfs') inum r ents' \<and>
           dir_locs ents' = (dir_locs ents)(name := None, ton \<mapsto> (i, off'))) \<and>
        Gen (iobj (fsstate nfs') r) = Gen (iobj (fsstate nfs) r) \<and> (\<forall>s. s \<noteq> r \<longrightarrow> iobj (fsstate nfs') s = iobj (fsstate nfs) s) \<and>
        (\<forall>j s. cached (fsstate nfs') j s \<longleftrightarrow> cached (fsstate nfs) j s)" by blast
  show ?thesis
  proof (intro exI [of _ reply] exI [of _ nfs'] conjI impI)
    assume "RENAME3res_Status reply = NFS3_OK"
    note o = ok [OF this]
    then obtain off' ents' where d': "dir_at G used arange held (fsstate nfs') inum r ents'"
      and l: "dir_locs ents' = (dir_locs ents)(name := None, ton \<mapsto> (i, off'))" by blast
    have fh': "MakeFh G fh3 = Inr \<lparr>Ino = inum, fh_Gen = Gen (iobj (fsstate nfs') r)\<rparr>" using fh o by simp
    have ne: "name \<noteq> ton" using n(3) t(1) by auto
    have c': "cached (fsstate nfs') i rc" "iobj (fsstate nfs') rc = iobj (fsstate nfs) rc" using o c(1,2) by simp_all
    show "\<exists>off' ents'. dir_at G used arange held (fsstate nfs') inum r ents' \<and>
           dir_locs ents' = (dir_locs ents)(name := None, ton \<mapsto> (i, off'))" using d' l by blast
    have lt: "dir_locs ents' ton = Some (i, off')" and ln: "dir_locs ents' name = None" using l ne by simp_all
    show "\<exists>reply' nfs''. NFSPROC3_LOOKUP G (Suc fuel) \<lparr>LOOKUP3args_What = \<lparr>Diropargs3_Dir = fh3, Diropargs3_Name = ton\<rparr>\<rparr> nfs' = Inr (reply', nfs'') \<and>
           LOOKUP3res_Status reply' \<in> {NFS3_OK, NFS3ERR_SERVERFAULT} \<and>
           MakeFh G (LOOKUP3resok_Object (LOOKUP3res_Resok reply')) = Inr \<lparr>Ino = i, fh_Gen = Gen (iobj (fsstate nfs) rc)\<rparr>"
      using gojournal.LOOKUP_ok [OF G d' fh' lt c'(1), of fuel] c(3,4) c'(2) by auto
    show "\<exists>reply' nfs''. NFSPROC3_LOOKUP G (Suc fuel) \<lparr>LOOKUP3args_What = \<lparr>Diropargs3_Dir = fh3, Diropargs3_Name = name\<rparr>\<rparr> nfs' = Inr (reply', nfs'') \<and>
           LOOKUP3res_Status reply' = NFS3ERR_NOENT" using gojournal.LOOKUP_none [OF G d' fh' ln, of fuel] by blast
  qed (fact run st)+
qed

theorem rename_then_lookup_witness:
  "\<exists>reply nfs'. NFSPROC3_RENAME ref_lib 1 \<lparr>RENAME3args_From = \<lparr>Diropargs3_Dir = ex_handle2, Diropargs3_Name = [97]\<rparr>,
       RENAME3args_To = \<lparr>Diropargs3_Dir = ex_handle2, Diropargs3_Name = [98]\<rparr>\<rparr> ex_look_nfs = Inr (reply, nfs') \<and>
     (RENAME3res_Status reply = NFS3_OK \<longrightarrow>
        (\<exists>reply' nfs''. NFSPROC3_LOOKUP ref_lib 1 \<lparr>LOOKUP3args_What = \<lparr>Diropargs3_Dir = ex_handle2, Diropargs3_Name = [98]\<rparr>\<rparr> nfs' = Inr (reply', nfs'') \<and>
           MakeFh ref_lib (LOOKUP3resok_Object (LOOKUP3res_Resok reply')) = Inr \<lparr>Ino = 5, fh_Gen = 3\<rparr>))"
proof -
  have l: "dir_locs ex_ents [97] = Some (5, 0)" "dir_locs ex_ents [98] = None" "128 * length ex_ents + 128 \<le> 1073774592"
    using ex_locs by (simp_all add: ex_ents_def)
  from rename_then_lookup [OF ref_gojournal ex_look_at ex_look_handle _ _ l(1,2) _ l(3) ex_look_child(1) _ ex_look_child(2,3), of 0]
  show ?thesis using ex_look_child(4) by (auto simp: IllegalName_def)
qed

end
