(* ===== verification/RemoveSpec.thy ===== *)
theory RemoveSpec
  imports LookupSpec
begin

text \<open>
  \<^verbatim>\<open>REMOVE\<close>: it returns for every well-formed file of a well-formed directory, and afterwards neither the name nor the handle of the
  file is valid.
\<close>

section \<open>Freeing an inode\<close>

context gojournal
begin

lemma file_inv_upd:
  "file_inv G used arange atxn (ip\<lparr>Nlink := n\<rparr>) = file_inv G used arange atxn ip"
  "file_inv G used arange atxn (ip\<lparr>Size := sz\<rparr>) = file_inv G used arange atxn ip"
  "file_inv G used arange atxn (ip\<lparr>ShrinkSize := k\<rparr>) = file_inv G used arange atxn ip"
  "file_inv G used arange atxn (ip\<lparr>Kind := kd\<rparr>) = file_inv G used arange atxn ip"
  "file_inv G used arange atxn (ip\<lparr>Gen := g\<rparr>) = file_inv G used arange atxn ip"
  by (simp_all add: file_inv_def)

lemma DecLink_ok:
  assumes inv: "file_inv G used arange atxn ip"
  obtains atxn' where "DecLink G ip atxn = Inr (Nlink ip - 1 = 0, ip\<lparr>Nlink := Nlink ip - 1\<rparr>, atxn')"
    and "file_inv G used arange atxn' (ip\<lparr>Nlink := Nlink ip - 1\<rparr>)"
proof -
  have "file_inv G used arange atxn (ip\<lparr>Nlink := Nlink ip - 1\<rparr>)" using inv by (simp add: file_inv_upd)
  then show thesis
  proof (rule WriteInode_step)
    fix op'
    assume "WriteInode G (ip\<lparr>Nlink := Nlink ip - 1\<rparr>) atxn = Inr (atxn\<lparr>Op := op'\<rparr>)"
      and "file_step G used arange (ip\<lparr>Nlink := Nlink ip - 1\<rparr>) atxn (ip\<lparr>Nlink := Nlink ip - 1\<rparr>) (atxn\<lparr>Op := op'\<rparr>)"
    from that [OF _ file_step_inv [OF this(2)]] this(1) show thesis by (simp add: DecLink_def Let_def)
  qed
qed

text \<open>\<^const>\<open>Resize\<close> to zero returns, whether it shrinks at once, leaves the work to the shrinker or has nothing to free.\<close>

lemma Resize_zero:
  assumes inv: "file_inv G used arange atxn ip" and sz: "unat (Size ip) \<le> MAXBYTES"
  obtains sh ip' atxn' where "Resize G 0 ip atxn = Inr (sh, ip', atxn')" and "file_inv G used arange atxn' ip'"
    and "meta ip' = meta ip"
proof -
  let ?old = "RoundUp G (Size ip) 4096" and ?new = "RoundUp G 0 4096"
  let ?ip = "ip\<lparr>Size := 0, ShrinkSize := if ?new < ?old then ?old else ?new\<rparr>"
  have mx: "unat ?old \<le> MAXBLKS" using sz by (simp add: RoundUp)
  have n0: "?new = 0" by (simp add: RoundUp unat_eq_0 [symmetric])
  have "file_inv G used arange atxn ?ip" using inv by (simp add: file_inv_def)
  then show thesis
  proof (rule WriteInode_step)
    fix op'
    assume w: "WriteInode G ?ip atxn = Inr (atxn\<lparr>Op := op'\<rparr>)"
      and st: "file_step G used arange ?ip atxn ?ip (atxn\<lparr>Op := op'\<rparr>)"
    note i = file_step_inv [OF st]
    have m: "meta ?ip = meta ip" by (simp add: meta_def)
    show thesis
    proof (cases "?new < ?old \<and> shrinkFits G (atxn\<lparr>Op := op'\<rparr>) (?old - ?new)")
      case True
      have "unat (ShrinkSize ?ip) \<le> MAXBLKS" using mx n0 by simp
      from Shrink_ok [OF i this] obtain k bs op2 F where
          S: "Shrink G ?ip (atxn\<lparr>Op := op'\<rparr>) = Inr (RoundUp G (Size ?ip) 4096 < k, ?ip\<lparr>ShrinkSize := k, blks := bs\<rparr>,
            (atxn\<lparr>Op := op'\<rparr>)\<lparr>Op := op2, freeBnums := freeBnums (atxn\<lparr>Op := op'\<rparr>) @ F\<rparr>)"
        and sp: "shrink_spec G used arange ?ip (atxn\<lparr>Op := op'\<rparr>) k bs op2 F" by blast
      have "Resize G 0 ip atxn = Inr (False, ?ip\<lparr>ShrinkSize := k, blks := bs\<rparr>,
            (atxn\<lparr>Op := op'\<rparr>)\<lparr>Op := op2, freeBnums := freeBnums (atxn\<lparr>Op := op'\<rparr>) @ F\<rparr>)"
        using w S True by (simp add: Resize_def Let_def)
      then show thesis by (rule that) (use sp in \<open>simp_all add: shrink_spec_def meta_def\<close>)
    next
      case False
      then have "Resize G 0 ip atxn = Inr (?new < ?old, ?ip, atxn\<lparr>Op := op'\<rparr>)" using w by (auto simp: Resize_def Let_def)
      then show thesis by (rule that) (use i m in simp_all)
    qed
  qed
qed

lemma FreeInode_ok:
  assumes inv: "file_inv G used arange atxn ip"
  obtains atxn' where "FreeInode G ip atxn = Inr (ip\<lparr>Kind := NF3FREE, Gen := Gen ip + 1\<rparr>, atxn')"
proof -
  have "file_inv G used arange atxn (ip\<lparr>Kind := NF3FREE, Gen := Gen ip + 1\<rparr>)" using inv by (simp add: file_inv_upd)
  then show thesis by (rule WriteInode_step) (use that in \<open>simp add: FreeInode_def Let_def\<close>)
qed

lemma doDecLink_ok:
  assumes inv: "file_inv G used arange (Atxn op) (inode_at op r)" and sz: "unat (Size (inode_at op r)) \<le> MAXBYTES"
    and nl: "Nlink (inode_at op r) = 1"
  obtains nfs' op' ip' where "doDecLink G r nfs op = Inr (nfs', op')" and "Fs op' = (Fs op)\<lparr>iobj := (iobj (Fs op))(r := ip')\<rparr>"
    and "Kind ip' = NF3FREE"
proof -
  let ?ip = "inode_at op r"
  obtain a1 where d: "DecLink G ?ip (Atxn op) = Inr (True, ?ip\<lparr>Nlink := 0\<rparr>, a1)" and i1: "file_inv G used arange a1 (?ip\<lparr>Nlink := 0\<rparr>)"
    using DecLink_ok [OF inv] nl by auto
  obtain sh ip2 a2 where r: "Resize G 0 (?ip\<lparr>Nlink := 0\<rparr>) a1 = Inr (sh, ip2, a2)" and i2: "file_inv G used arange a2 ip2"
    by (rule Resize_zero [OF i1]) (use sz in simp_all)
  obtain a3 where f: "FreeInode G ip2 a2 = Inr (ip2\<lparr>Kind := NF3FREE, Gen := Gen ip2 + 1\<rparr>, a3)" using FreeInode_ok [OF i2] by blast
  show thesis using that d r f by (simp add: doDecLink_def on_inode_def put_inode_def inode_at_def)
qed

text \<open>The file of an entry, while the entry is removed from the directory.\<close>

lemma RemName_other:
  assumes d: "dir_ok G used arange op r ents" and len: "length name < 112" and l: "dir_locs ents name = Some (i, off)"
    and inv2: "file_inv G used arange (Atxn op) ip2"
    and dj: "ino_blocks G (Op (Atxn op)) (blks ip2) \<inter> ino_blocks G (Op (Atxn op)) (blks (inode_at op r)) = {}"
    and rem: "RemName G name r op = Inr (True, op')"
  shows "file_inv G used arange (Atxn op') ip2"
proof -
  let ?e = "\<lparr>de_inum = 0, de_name = []\<rparr>" and ?ip = "inode_at op r"
  obtain dc where dc: "inode_Dcache ?ip = Some dc" and di: "dir_is G used arange op r ents" and u: "uniq ents"
    using d by (auto simp: dir_ok_def)
  obtain j where j: "live ents name j" using dir_locs_dom [OF u, of name] l by auto
  have jl: "j < length ents" "de_inum (ents ! j) \<noteq> 0" using j by (simp_all add: live_def)
  have il: "i \<noteq> 0" "off = of_nat (128 * j)" using dir_locs_live [OF u j] l jl(2) by simp_all
  have inv: "file_inv G used arange (Atxn op) ?ip" and sz: "128 * length ents \<le> 1073774592"
    using di by (auto simp: dir_is_def Let_def)
  have uo: "unat off = 128 * j" unfolding il(2) using jl(1) sz by (simp add: nowrap)
  obtain eb where eb: "encodeDirEnt G ?e = Inr eb" "length eb = 128"
    using encodeDirEnt_roundtrip [of ?e] by (auto simp: ent_wf_def)
  have mx: "unat off + unat (128 :: u64) \<le> unat (MaxFileSize G)" "unat (128 :: u64) \<le> length eb"
    using uo jl(1) sz eb(2) MaxFileSize_val by simp_all
  obtain cn ok ip' a' where w: "Write G off 128 eb ?ip (Atxn op) = Inr (cn, ok, ip', a')"
    and st: "file_step G used arange ?ip (Atxn op) (ip'\<lparr>Size := Size ?ip\<rparr>) a'" using Write_ok [OF inv mx] by blast
  have "Atxn op' = a'"
    using rem dc LookupName_ok [OF d, of name] l il(1) eb(1) w
    by (auto simp: RemName_def RemNameDir_def ensure_dcache_def ip_Write_def on_inode_def put_inode_def put_dcache_def bnd_eq_Inr Let_def
        case_prod_beta split: if_splits)
  then show ?thesis using other_file(1) [OF st inv2 dj] by simp
qed

section \<open>The procedure\<close>

lemma REMOVE_ok:
  assumes d: "dir_at G used arange held (fsstate nfs) inum r ents"
    and fh: "MakeFh G fh3 = Inr \<lparr>Ino = inum, fh_Gen = Gen (iobj (fsstate nfs) r)\<rparr>"
    and n: "\<not> IllegalName name" "length name < 112" "dir_locs ents name = Some (i, off)" and ne: "i \<noteq> inum"
    and c: "cached (fsstate nfs) i rc" "Kind (iobj (fsstate nfs) rc) \<noteq> NF3FREE" "Nlink (iobj (fsstate nfs) rc) = 1"
    and inv: "file_inv G used arange (Atxn (FsTxn_Begin G (fsstate nfs))) (iobj (fsstate nfs) rc)"
    and sz: "unat (Size (iobj (fsstate nfs) rc)) \<le> MAXBYTES"
    and dj: "ino_blocks G (jrnl_Begin G (Txn (fsstate nfs))) (blks (iobj (fsstate nfs) rc)) \<inter>
       ino_blocks G (jrnl_Begin G (Txn (fsstate nfs))) (blks (iobj (fsstate nfs) r)) = {}"
  obtains reply nfs' dc where
    "NFSPROC3_REMOVE G (Suc fuel) \<lparr>REMOVE3args_Object = \<lparr>Diropargs3_Dir = fh3, Diropargs3_Name = name\<rparr>\<rparr> nfs = Inr (reply, nfs')"
    and "REMOVE3res_Status reply \<in> {NFS3_OK, NFS3ERR_SERVERFAULT}"
    and "(\<forall>op lg. fst (CommitWait G op True lg)) \<longrightarrow> REMOVE3res_Status reply = NFS3_OK" and "fs_idle held (fsstate nfs')"
    and "entries (Icache (fsstate nfs')) = entries (Icache (fsstate nfs))" and "Kind (iobj (fsstate nfs') rc) = NF3FREE"
    and "Kind (iobj (fsstate nfs') r) = NF3DIR" and "Nlink (iobj (fsstate nfs') r) = Nlink (iobj (fsstate nfs) r)"
    and "Gen (iobj (fsstate nfs') r) = Gen (iobj (fsstate nfs) r)"
    and "inode_Dcache (iobj (fsstate nfs') r) = Some dc" and "dc_names dc = (dir_locs ents)(name := None)"
proof -
  let ?st = "fsstate nfs" let ?ip = "iobj ?st rc"
  have nl: "Nlink ?ip \<noteq> 0" using c(3) by simp
  have ids: "Inum (iobj ?st rc) = i" "Inum (iobj ?st r) = inum"
    using d c(1) by (auto simp: dir_at_def fs_idle_def icache_ok_def cached_def)
  then have rr: "r \<noteq> rc" using ne by auto
  obtain op st0 inos where g: "getInodesLocked G (Suc fuel) fh3 name ?st = Inr (op, inos, NFS3_OK)" and x: "idx inos 0 = Inr (Some rc)"
      and idle: "fs_idle held st0" and s: "same_files G ?st st0" and o: "only_locked G held st0 op" and x1: "i \<noteq> inum \<longrightarrow> idx inos 1 = Inr (Some r)"
    by (rule lookup_inodes [where fuel = fuel, OF d fh n(3) c(1,2) nl])
  note d0 = only_locked_dir [OF o same_files_dir [OF s idle d]]
  have at: "inode_at op q = iobj ?st q" for q using only_locked_at [OF o] s by (simp add: same_files_def)
  have ax: "Atxn op = Atxn (FsTxn_Begin G ?st)" using o s by (simp add: only_locked_def same_files_def)
  have "Op (Atxn op) = jrnl_Begin G (Txn ?st)" using ax Begin_clean(2) [of ?st] by simp
  then have dj': "ino_blocks G (Op (Atxn op)) (blks ?ip) \<inter> ino_blocks G (Op (Atxn op)) (blks (inode_at op r)) = {}" using dj at by simp
  obtain op1 ents' where rem: "RemName G name r op = Inr (True, op1)" and d1: "dir_ok G used arange op1 r ents'"
      and l1: "dir_locs ents' = (dir_locs ents)(name := None)" using RemName_ok [OF d0 n(2)] n(3) by auto
  have p: "dir_only G on (Txn st0) r op op1"
    by (rule retD [OF RemName_only rem, simplified]) (use only_locked_clean [OF o] d0 in \<open>auto simp: dir_only_def dir_ok_def t_start\<close>)
  have at1: "inode_at op1 rc = ?ip" using p rr at by (auto simp: dir_only_def)
  have "file_inv G used arange (Atxn op1) (inode_at op1 rc)" unfolding at1 by (rule RemName_other [OF d0 n(2,3) _ dj' rem]) (use inv ax in simp)
  then obtain nfs2 op2 ip2 where dl: "doDecLink G rc nfs op1 = Inr (nfs2, op2)"
      and fs2: "Fs op2 = (Fs op1)\<lparr>iobj := (iobj (Fs op1))(rc := ip2)\<rparr>" "Kind ip2 = NF3FREE"
    by (rule doDecLink_ok) (use at1 sz c(3) in simp_all)
  have "txn_run G (FsTxn_Begin G st0) op1" by (rule txn_run_trans [of _ op]) (use p o in \<open>simp_all add: dir_only_def only_locked_def\<close>)
  then have "in_txn G False st0 op1" unfolding in_txn_def using b_start by blast
  then have "in_txn G False st0 op2" using retD [OF doDecLink_in dl] by simp
  then have ti: "txn_inv held op2" by (rule in_txn_inv [OF _ idle])
  obtain k op3 where cr: "commitReply G op2 = (k, op3)" by (cases "commitReply G op2")
  then obtain ok where w: "commitWait G True op2 = (ok, op3)" and k: "k = (if ok then NFS3_OK else NFS3ERR_SERVERFAULT)"
    by (rule commitReply_wait)
  have fs3: "iobj (Fs op3) = iobj (Fs op2)" "entries (Icache (Fs op3)) = entries (Icache (Fs op2))" using commitWait_fs [OF ti w] by auto
  obtain dc where dc: "inode_Dcache (inode_at op1 r) = Some dc" "dc_names dc = dir_locs ents'" using d1 by (auto simp: dir_ok_def)
  have run: "NFSPROC3_REMOVE G (Suc fuel) \<lparr>REMOVE3args_Object = \<lparr>Diropargs3_Dir = fh3, Diropargs3_Name = name\<rparr>\<rparr> nfs =
      Inr (zero_REMOVE3res\<lparr>REMOVE3res_Status := k\<rparr>, put_fs op3 nfs2)"
    using g x x1 ne n(1) rem dl cr by (simp add: NFSPROC3_REMOVE_def doRemove_def Let_def deref_def del: getInodesLocked.simps)
  have ir: "iobj (Fs op3) r = inode_at op1 r" using fs3(1) fs2(1) rr by (simp add: inode_at_def)
  have cm: "(\<forall>op lg. fst (CommitWait G op True lg)) \<longrightarrow> REMOVE3res_Status (zero_REMOVE3res\<lparr>REMOVE3res_Status := k\<rparr>) = NFS3_OK"
    using k commits_wait [OF _ w] by (cases ok) auto
  show thesis
    by (rule that [where dc = dc, OF run _ cm])
      (use k commitWait_idle [OF ti w] fs3 fs2 ir p o s at dc l1 dir_ok_kind [OF d1] in
        \<open>simp_all add: dir_only_def only_locked_def same_files_def\<close>)
qed

text \<open>The handle of a freed inode is stale, and a name that is not in the cache of a directory does not exist.\<close>

lemma GETATTR_free:
  assumes idle: "fs_idle held (fsstate nfs)" and c: "cached (fsstate nfs) i r" "Kind (iobj (fsstate nfs) r) = NF3FREE"
    and fh: "MakeFh G fh3 = Inr \<lparr>Ino = i, fh_Gen = g\<rparr>"
  shows "\<exists>reply nfs'. NFSPROC3_GETATTR G \<lparr>GETATTR3args_Object = fh3\<rparr> nfs = Inr (reply, nfs') \<and> GETATTR3res_Status reply = NFS3ERR_STALE"
proof (rule only_locked_get [OF only_locked_begin [OF idle] c(1)])
  fix op
  assume "GetInodeLocked G i (FsTxn_Begin G (fsstate nfs)) = Inr (r, op)" and o: "only_locked G held (fsstate nfs) op"
  then show ?thesis using fh c(2) only_locked_at [OF o]
    by (simp add: NFSPROC3_GETATTR_def GetInodeFh_def GetInodeInum_def GetInodeInumFree_def)
qed (simp add: FsTxn_Begin_def)

lemma LOOKUP_gone:
  assumes idle: "fs_idle held (fsstate nfs)" and c: "cached (fsstate nfs) inum r" "Kind (iobj (fsstate nfs) r) = NF3DIR"
      "Nlink (iobj (fsstate nfs) r) \<noteq> 0" "inode_Dcache (iobj (fsstate nfs) r) = Some dc" "dc_names dc name = None"
    and fh: "MakeFh G fh3 = Inr \<lparr>Ino = inum, fh_Gen = Gen (iobj (fsstate nfs) r)\<rparr>"
  shows "\<exists>reply nfs'. NFSPROC3_LOOKUP G (Suc fuel) \<lparr>LOOKUP3args_What = \<lparr>Diropargs3_Dir = fh3, Diropargs3_Name = name\<rparr>\<rparr> nfs = Inr (reply, nfs') \<and>
     LOOKUP3res_Status reply = NFS3ERR_NOENT"
proof (rule get_cached_fh [OF idle c(1) fh])
  fix op
  assume "GetInodeFh G fh3 (FsTxn_Begin G (fsstate nfs)) = Inr (Some r, op)" and "inode_at op r = iobj (fsstate nfs) r"
  then show ?thesis using LookupName_miss [of op r dc name] c by (simp add: NFSPROC3_LOOKUP_def)
qed (use c in simp_all)

end

section \<open>Properties\<close>

text \<open>C11: \<^verbatim>\<open>REMOVE\<close>, then the name and the handle. For a name of a well-formed directory whose inode is cached, has one link, is well formed and
  shares no block with the directory, \<^verbatim>\<open>REMOVE\<close> returns, with the error of the commit if that fails and \<^verbatim>\<open>NFS3_OK\<close> otherwise, whether the
  blocks are freed at once or left to the shrinker. Afterwards no lock is held, a \<^verbatim>\<open>LOOKUP\<close> of the name replies \<^verbatim>\<open>NFS3ERR_NOENT\<close>, and a
  \<^verbatim>\<open>GETATTR\<close> with a handle of the removed inode, of whatever generation, replies \<^verbatim>\<open>NFS3ERR_STALE\<close>.\<close>

theorem remove_then_stale:
  assumes G: "gojournal G on used arange held" and d: "dir_at G used arange held (fsstate nfs) inum r ents"
    and fh: "MakeFh G fh3 = Inr \<lparr>Ino = inum, fh_Gen = Gen (iobj (fsstate nfs) r)\<rparr>"
    and n: "\<not> IllegalName name" "length name < 112" "dir_locs ents name = Some (i, off)" and ne: "i \<noteq> inum"
    and c: "cached (fsstate nfs) i rc" "Kind (iobj (fsstate nfs) rc) \<noteq> NF3FREE" "Nlink (iobj (fsstate nfs) rc) = 1"
    and inv: "file_inv G used arange (Atxn (FsTxn_Begin G (fsstate nfs))) (iobj (fsstate nfs) rc)"
    and sz: "unat (Size (iobj (fsstate nfs) rc)) \<le> MAXBYTES"
    and dj: "ino_blocks G (jrnl_Begin G (Txn (fsstate nfs))) (blks (iobj (fsstate nfs) rc)) \<inter>
       ino_blocks G (jrnl_Begin G (Txn (fsstate nfs))) (blks (iobj (fsstate nfs) r)) = {}"
    and fhc: "MakeFh G fhc = Inr \<lparr>Ino = i, fh_Gen = gen\<rparr>"
  shows "\<exists>reply nfs'. NFSPROC3_REMOVE G (Suc fuel) \<lparr>REMOVE3args_Object = \<lparr>Diropargs3_Dir = fh3, Diropargs3_Name = name\<rparr>\<rparr> nfs = Inr (reply, nfs') \<and>
     REMOVE3res_Status reply \<in> {NFS3_OK, NFS3ERR_SERVERFAULT} \<and> held (Lockmap (fsstate nfs')) = {} \<and>
     (\<exists>reply' nfs''. NFSPROC3_LOOKUP G (Suc fuel') \<lparr>LOOKUP3args_What = \<lparr>Diropargs3_Dir = fh3, Diropargs3_Name = name\<rparr>\<rparr> nfs' = Inr (reply', nfs'') \<and>
        LOOKUP3res_Status reply' = NFS3ERR_NOENT) \<and>
     (\<exists>reply' nfs''. NFSPROC3_GETATTR G \<lparr>GETATTR3args_Object = fhc\<rparr> nfs' = Inr (reply', nfs'') \<and> GETATTR3res_Status reply' = NFS3ERR_STALE)"
proof (rule gojournal.REMOVE_ok [OF G d fh n ne c inv sz dj, of fuel])
  fix reply nfs' dc
  assume run: "NFSPROC3_REMOVE G (Suc fuel) \<lparr>REMOVE3args_Object = \<lparr>Diropargs3_Dir = fh3, Diropargs3_Name = name\<rparr>\<rparr> nfs = Inr (reply, nfs')"
    and st: "REMOVE3res_Status reply \<in> {NFS3_OK, NFS3ERR_SERVERFAULT}" and idle: "fs_idle held (fsstate nfs')"
    and en: "entries (Icache (fsstate nfs')) = entries (Icache (fsstate nfs))" and kc: "Kind (iobj (fsstate nfs') rc) = NF3FREE"
    and kd: "Kind (iobj (fsstate nfs') r) = NF3DIR" and nl: "Nlink (iobj (fsstate nfs') r) = Nlink (iobj (fsstate nfs) r)"
    and ge: "Gen (iobj (fsstate nfs') r) = Gen (iobj (fsstate nfs) r)"
    and dc: "inode_Dcache (iobj (fsstate nfs') r) = Some dc" "dc_names dc = (dir_locs ents)(name := None)"
  have ca: "cached (fsstate nfs') i rc" "cached (fsstate nfs') inum r" using c(1) d en by (simp_all add: cached_def dir_at_def)
  have "Nlink (iobj (fsstate nfs') r) \<noteq> 0" "dc_names dc name = None"
      "MakeFh G fh3 = Inr \<lparr>Ino = inum, fh_Gen = Gen (iobj (fsstate nfs') r)\<rparr>" using d nl dc(2) fh ge by (simp_all add: dir_at_def)
  from gojournal.LOOKUP_gone [OF G idle ca(2) kd this(1) dc(1) this(2,3), of fuel'] gojournal.GETATTR_free [OF G idle ca(1) kc fhc]
    run st idle show ?thesis by (auto simp: fs_idle_def)
qed

text \<open>The inode 5 of the example as a file of one block.\<close>

definition ex_rem_nfs :: "(u64 \<Rightarrow> nat \<Rightarrow> byte, bool list, u64 list, ref_disk) Nfs" where
  "ex_rem_nfs = ex_look_nfs\<lparr>fsstate := (fsstate ex_look_nfs)\<lparr>iobj := (\<lambda>r. if r = 0 then ex_dir else ex_file2\<lparr>Inum := 5\<rparr>)\<rparr>\<rparr>"

lemma ex_rem_fields:
  "iobj (fsstate ex_rem_nfs) 0 = ex_dir" "iobj (fsstate ex_rem_nfs) 1 = ex_file2\<lparr>Inum := 5\<rparr>"
  "Atxn (FsTxn_Begin ref_lib (fsstate ex_rem_nfs)) = Atxn ex_dir_txn" "cached (fsstate ex_rem_nfs) 5 1" "cached (fsstate ex_rem_nfs) 2 0"
  by (simp_all add: ex_rem_nfs_def ex_look_nfs_def ex_dir_txn_def FsTxn_Begin_def cached_def)

lemma ex_rem_at: "dir_at ref_lib ref_used ref_range set (fsstate ex_rem_nfs) 2 0 ex_ents"
proof -
  have "fs_idle set (fsstate ex_rem_nfs)"
    by (auto simp: fs_idle_def ex_rem_nfs_def ex_look_nfs_def ex_dir_txn_def FsTxn_Begin_def icache_ok_def cache_inv_def ex_dir_def ex_file2_def
        split: if_splits)
  moreover have "inode_at (FsTxn_Begin ref_lib (fsstate ex_rem_nfs)) 0 = inode_at ex_dir_txn 0"
    by (simp add: ex_rem_fields ex_dir_fields) (simp add: inode_at_def FsTxn_Begin_def ex_rem_fields)
  moreover have "Nlink (iobj (fsstate ex_rem_nfs) 0) \<noteq> 0" by (simp add: ex_rem_fields ex_dir_def)
  ultimately show ?thesis
    using ex_dir_ok dir_ok_cong [of "FsTxn_Begin ref_lib (fsstate ex_rem_nfs)" 0 ex_dir_txn ref_lib ref_used ref_range ex_ents] ex_rem_fields
    by (simp add: dir_at_def)
qed

lemma ex_rem_inv: "file_inv ref_lib ref_used ref_range (Atxn ex_dir_txn) (ex_file2\<lparr>Inum := 5\<rparr>)"
proof -
  have n: "NInode ref_lib ex_super = 32768" by (rule common_lib.super_wf_layout(5) [OF ref_common ex_super_wf])
  have v: "valid_bnum (Atxn ex_dir_txn) 1540" by (simp add: valid_bnum_def ex_fs_fields ex_dir_fields)
  have u: "{1540} \<subseteq> ref_used (Balloc (Atxn ex_dir_txn))" by (simp add: ex_fs_used ex_dir_fields)
  show ?thesis using ex_super_wf n ex_dir_balloc v u
    by (simp add: file_inv_def ex_file2_def one_block ex_dir_fields(2) del: replicate.simps)
qed

theorem remove_then_stale_witness:
  "\<exists>fhc reply nfs'. MakeFh ref_lib fhc = Inr \<lparr>Ino = 5, fh_Gen = 0\<rparr> \<and>
     NFSPROC3_REMOVE ref_lib 1 \<lparr>REMOVE3args_Object = \<lparr>Diropargs3_Dir = ex_handle2, Diropargs3_Name = [97]\<rparr>\<rparr> ex_rem_nfs = Inr (reply, nfs') \<and>
     (\<exists>reply' nfs''. NFSPROC3_GETATTR ref_lib \<lparr>GETATTR3args_Object = fhc\<rparr> nfs' = Inr (reply', nfs'') \<and> GETATTR3res_Status reply' = NFS3ERR_STALE)"
proof -
  obtain fhc where h: "MakeFh ref_lib fhc = Inr \<lparr>Ino = 5, fh_Gen = 0\<rparr>" using gojournal.fh_ok(1) [OF ref_gojournal] by blast
  have fh: "MakeFh ref_lib ex_handle2 = Inr \<lparr>Ino = 2, fh_Gen = Gen (iobj (fsstate ex_rem_nfs) 0)\<rparr>"
    by (simp add: ex_handle2_fh ex_rem_fields ex_dir_def zero_Inode_def)
  have l: "\<not> IllegalName [97]" "length [97 :: byte] < 112" "dir_locs ex_ents [97] = Some (5, 0)" "(5 :: u64) \<noteq> 2"
    using ex_locs by (simp_all add: IllegalName_def)
  have k: "Kind (iobj (fsstate ex_rem_nfs) 1) \<noteq> NF3FREE" "Nlink (iobj (fsstate ex_rem_nfs) 1) = 1"
      "unat (Size (iobj (fsstate ex_rem_nfs) 1)) \<le> MAXBYTES"
    unfolding ex_rem_fields by (simp_all add: ex_file2_def)
  have inv: "file_inv ref_lib ref_used ref_range (Atxn (FsTxn_Begin ref_lib (fsstate ex_rem_nfs))) (iobj (fsstate ex_rem_nfs) 1)"
    unfolding ex_rem_fields by (rule ex_rem_inv)
  have "ino_blocks ref_lib op (blks (ex_file2\<lparr>Inum := 5\<rparr>)) \<inter> ino_blocks ref_lib op (blks ex_dir) = {}" for op
    by (simp add: ex_file2_def ex_dir_def one_block del: replicate.simps)
  then have "ino_blocks ref_lib (jrnl_Begin ref_lib (Txn (fsstate ex_rem_nfs))) (blks (iobj (fsstate ex_rem_nfs) 1)) \<inter>
      ino_blocks ref_lib (jrnl_Begin ref_lib (Txn (fsstate ex_rem_nfs))) (blks (iobj (fsstate ex_rem_nfs) 0)) = {}"
    unfolding ex_rem_fields .
  from remove_then_stale [OF ref_gojournal ex_rem_at fh l ex_rem_fields(4) k(1,2) inv k(3) this h, of 0 0]
  show ?thesis using h by (intro exI [of _ fhc]) auto
qed

end
