(* ===== verification/CreateSpec.thy ===== *)
theory CreateSpec
  imports RemoveSpec
begin

text \<open>
  \<^verbatim>\<open>CREATE\<close>: a new file in a directory, found by a \<^verbatim>\<open>LOOKUP\<close> and ready to be written.
\<close>

section \<open>Free inodes\<close>

text \<open>The inode that \<^const>\<open>GetInodeLocked\<close> finds for a number, in the cache or, where the cache has room, on the log, is free and has
  no blocks.\<close>

definition free_inode ::
    "('log, 'op, 'alc, 'lm, 'd) golib \<Rightarrow> ('log, 'alc, 'lm, 'd) FsState \<Rightarrow> u64 \<Rightarrow> Inode \<Rightarrow> bool" where
  "free_inode G st i ip \<longleftrightarrow>
     ((\<exists>r. cached st i r \<and> iobj st r = ip) \<or>
      entries (Icache st) i = None \<and> cnt (Icache st) < cache_sz (Icache st) \<and>
      Decode G (inode_buf G (fs_Super st) (jrnl_Begin G (Txn st)) i) i = Inr ip) \<and>
     Inum ip = i \<and> Kind ip = NF3FREE \<and> Size ip = 0 \<and> ShrinkSize ip = 0 \<and> blks ip = replicate 10 0"

text \<open>Every number that the inode allocator has free is the number of a free inode.\<close>

definition free_inodes ::
    "('log, 'op, 'alc, 'lm, 'd) golib \<Rightarrow> ('alc \<Rightarrow> u64 set) \<Rightarrow> ('alc \<Rightarrow> u64 set) \<Rightarrow> ('log, 'alc, 'lm, 'd) FsState \<Rightarrow> bool" where
  "free_inodes G used arange st \<longleftrightarrow>
     (\<forall>i \<in> arange (fs_Ialloc st) - used (fs_Ialloc st). i < 32768 \<and> (\<exists>ip. free_inode G st i ip))"

lemma ino_empty: "ino_blocks G op (replicate 10 0) = {}" "ino_ok G op (replicate 10 0)"
proof -
  have s: "slot_blocks G op (replicate 10 0) i = {}" if "i < 10" for i using that by (simp add: slot_blocks_def)
  then show "ino_blocks G op (replicate 10 0) = {}" by (auto simp: ino_blocks_def)
  have "tree_ok G op (lev i) (replicate 10 0 ! i)" if "i < 10" for i using that by (simp add: lev_def)
  then show "ino_ok G op (replicate 10 0)" using s by (simp add: ino_ok_def)
qed

lemma empty_file_inv:
  assumes "file_inv G used arange atxn ip0" and "Inum ip < NInode G (at_Super atxn)" and "blks ip = replicate 10 0"
  shows "file_inv G used arange atxn ip"
  using assms by (simp add: file_inv_def ino_empty)

context gojournal
begin

lemma get_free:
  assumes idle: "fs_idle held st" and o: "only_locked G held st op" and f: "free_inode G st i ip" and n: "i \<notin> fst ` set (inodes op)"
    and a: "Op a = Op (Atxn op)"
  obtains ri op' where "GetInodeLocked G i (op\<lparr>Atxn := a\<rparr>) = Inr (ri, op')" and "inode_at op' ri = ip" and "cached (Fs op') i ri"
    and "Atxn op' = a" and "\<forall>j s. cached st j s \<longrightarrow> cached (Fs op') j s"
    and "\<forall>j s. cached st j s \<and> j \<noteq> i \<longrightarrow> s \<noteq> ri \<and> inode_at op' s = iobj st s"
proof -
  let ?c = "Icache (Fs op)"
  have inv: "txn_inv held op" and en: "entries ?c = entries (Icache st)" and ct: "cnt ?c = cnt (Icache st)" "cache_sz ?c = cache_sz (Icache st)"
    and io: "iobj (Fs op) = iobj st" using o by (simp_all add: only_locked_def)
  have ico: "icache_ok (Fs op)" using inv by (simp add: txn_inv_def)
  have lg: "Txn (Fs op) = Txn st" "fs_Super (Fs op) = fs_Super st" "Op (Atxn op) = jrnl_Begin G (Txn st)"
    using o txn_run_atxn [OF _ Begin_inv [OF idle], of op] Begin_clean(2) [of st] by (simp_all add: only_locked_def) (simp_all add: FsTxn_Begin_def)
  have num: "Inum (iobj st r) = j" "r < inext (Fs op)" if "cached st j r" for j r
    using that ico en io by (auto simp: icache_ok_def cached_def)
  have "i \<notin> held (Lockmap (Fs op))" using n inv by (simp add: txn_inv_def)
  then obtain lm where lm: "Acquire G (Lockmap (Fs op)) i = Some lm" using acquire_free by blast
  have i: "Inum ip = i" using f by (simp add: free_inode_def)
  from f consider (hit) r where "cached st i r" "iobj st r = ip"
    | (miss) "entries (Icache st) i = None" "cnt (Icache st) < cache_sz (Icache st)"
        "Decode G (inode_buf G (fs_Super st) (jrnl_Begin G (Txn st)) i) i = Inr ip"
    by (auto simp: free_inode_def)
  then show thesis
  proof cases
    case hit
    obtain e where e: "entries ?c i = Some e" "Obj (entry.slot e) = Some r" using hit(1) en by (auto simp: cached_def)
    have ei: "entry_id e = i" "lru e" using e ico by (auto simp: icache_ok_def cache_inv_def)
    let ?op = "addInode r (op\<lparr>Atxn := a, Fs := (Fs op)\<lparr>Lockmap := lm, Icache := ?c\<lparr>lru_list := remove1 i (lru_list ?c) @ [i]\<rparr>\<rparr>\<rparr>)"
    have g: "GetInodeLocked G i (op\<lparr>Atxn := a\<rparr>) = Inr (r, ?op)" using lm e ei by (simp add: GetInodeLocked_def LockInode_def LookupSlot_def)
    have dis: "s \<noteq> r" if "cached st j s" "j \<noteq> i" for j s using num(1) [OF that(1)] num(1) [OF hit(1)] that(2) by auto
    show thesis
      by (rule that [OF g]) (use hit io en dis in \<open>auto simp: addInode_def inode_at_def cached_def\<close>)
  next
    case miss
    let ?r = "inext (Fs op)"
    let ?e = "\<lparr>entry.slot = \<lparr>Obj = Some ?r\<rparr>, lru = True, entry_id = i\<rparr>"
    let ?c' = "?c\<lparr>lru_list := lru_list ?c @ [i], cnt := cnt ?c + 1, entries := (entries ?c)(i \<mapsto> ?e)\<rparr>"
    let ?op = "addInode ?r (op\<lparr>Atxn := a, Fs := (Fs op)\<lparr>Lockmap := lm, iobj := (iobj (Fs op))(?r := ip), inext := Suc ?r, Icache := ?c'\<rparr>\<rparr>)"
    have "\<not> cache_sz (Icache st) \<le> cnt (Icache st)" using miss(2) by simp
    then have g: "GetInodeLocked G i (op\<lparr>Atxn := a\<rparr>) = Inr (?r, ?op)" using lm miss(1,3) en ct lg a
      by (simp add: GetInodeLocked_def LockInode_def LookupSlot_def inode_buf_def Let_def put_inode_def set_slot_def)
    have dis: "s \<noteq> ?r" if "cached st j s" for j s using num(2) [OF that] by simp
    show thesis
      by (rule that [OF g]) (use miss(1) dis io en in \<open>auto simp: addInode_def inode_at_def cached_def\<close>)
  qed
qed

lemma free_inode_kind: "free_inode G st i ip \<Longrightarrow> cached st i r \<Longrightarrow> Kind (iobj st r) = NF3FREE"
  using cached_unique by (fastforce simp: free_inode_def cached_def)

lemma AllocInode_ok:
  assumes idle: "fs_idle held st" and o: "only_locked G held st op" and fi: "free_inodes G used arange st" and su: "super_wf G (fs_Super st)"
    and ow: "fst ` set (inodes op) = {inum}" "cached st inum r" "Kind (iobj st r) \<noteq> NF3FREE"
  obtains (none) op' where "AllocInode G kind op = Inr (None, op')" and "arange (fs_Ialloc st) \<subseteq> used (fs_Ialloc st)"
  | (some) i ip ri op' where "AllocInode G kind op = Inr (Some ri, op')" and "i \<in> arange (fs_Ialloc st) - used (fs_Ialloc st)" and "i \<noteq> 0"
      and "i < 32768" and "free_inode G st i ip" and "inode_at op' ri = InitInode G i kind ip" and "cached (Fs op') i ri"
      and "\<forall>j s. cached st j s \<longrightarrow> cached (Fs op') j s" and "\<forall>j s. cached st j s \<and> j \<noteq> i \<longrightarrow> s \<noteq> ri \<and> inode_at op' s = iobj st s"
      and "at_Super (Atxn op') = at_Super (Atxn op)" and "Balloc (Atxn op') = Balloc (Atxn op)" and "clean on (Txn st) (Atxn op')"
      and "\<forall>x. valid_bnum (Atxn op) x \<longrightarrow> blk G (Op (Atxn op')) x = blk G (Op (Atxn op)) x"
proof -
  have ax: "Atxn op = Atxn (FsTxn_Begin G st)" using o by (simp add: only_locked_def)
  then have at: "Ialloc (Atxn op) = fs_Ialloc st" "at_Super (Atxn op) = fs_Super st" "allocInums (Atxn op) = []"
    by (simp_all add: FsTxn_Begin_def AllocTxn_Begin_def)
  obtain i a where al: "AllocINum G (Atxn op) = (i, a)" by (cases "AllocINum G (Atxn op)")
  obtain ia where an: "AllocNum G (fs_Ialloc st) = (i, ia)" and a: "a = (Atxn op)\<lparr>Ialloc := ia, allocInums := if i = 0 then [] else [i]\<rparr>"
    using AllocINum_eq [OF al] at by (auto split: if_splits)
  show thesis
  proof (cases "i = 0")
    case True
    then show thesis using none [of "op\<lparr>Atxn := a\<rparr>"] al alloc_none an by (simp add: AllocInode_def)
  next
    case False
    then have fr: "i \<in> arange (fs_Ialloc st) - used (fs_Ialloc st)" using alloc_some [OF an] by simp
    then obtain ip where il: "i < 32768" and f: "free_inode G st i ip" using fi by (auto simp: free_inodes_def)
    have "i \<noteq> inum" using free_inode_kind [OF f] ow(2,3) by auto
    then have n: "i \<notin> fst ` set (inodes op)" using ow(1) by simp
    have oa: "Op a = Op (Atxn op)" using a by simp
    obtain ri op1 where g: "GetInodeLocked G i (op\<lparr>Atxn := a\<rparr>) = Inr (ri, op1)" and ip: "inode_at op1 ri = ip" and c: "cached (Fs op1) i ri"
        and a1: "Atxn op1 = a" and cs: "\<forall>j s. cached st j s \<longrightarrow> cached (Fs op1) j s"
        and ot: "\<forall>j s. cached st j s \<and> j \<noteq> i \<longrightarrow> s \<noteq> ri \<and> inode_at op1 s = iobj st s"
      by (rule get_free [OF idle o f n oa])
    let ?ip = "InitInode G i kind ip"
    have fp: "Kind ip = NF3FREE" "\<not> IsShrinking G ip" "length (blks ip) = 10"
      using f by (simp_all add: free_inode_def IsShrinking_def)
    have w: "super_wf G (at_Super a)" "Inum ?ip < NInode G (at_Super a)" "inode_wf ?ip"
      using su at a il fp(3) super_wf_layout(5) [OF su] by (simp_all add: InitInode_def inode_wf_def)
    show thesis
    proof (rule WriteInode_ok [OF w])
      fix q
      assume wi: "WriteInode G ?ip a = Inr (a\<lparr>Op := q\<rparr>)" and same: "\<And>x. valid_bnum a x \<Longrightarrow> blk G q x = blk G (Op a) x"
      let ?op = "(put_inode ri ?ip op1)\<lparr>Atxn := a\<lparr>Op := q\<rparr>\<rparr>"
      have ai: "AllocInode G kind op = Inr (Some ri, ?op)"
        using al False g ip fp wi a1 by (simp add: AllocInode_def ip_WriteInode_def) (simp add: put_inode_def)
      have "clean on (Txn st) a" using a il only_locked_clean [OF o] by (simp add: clean_def)
      then have cl: "clean on (Txn st) (a\<lparr>Op := q\<rparr>)" using retD [OF atxn_writes.WriteInode_Q [OF clean_writes] wi] by simp
      show thesis
        by (rule some [OF ai fr False il f])
          (use cs ot c cl same a in \<open>simp_all add: valid_bnum_def\<close>, simp_all add: put_inode_def cached_def)
    qed
  qed
qed

section \<open>The procedure\<close>

lemma dir_ok_super: "dir_ok G used arange op r ents \<Longrightarrow> super_wf G (at_Super (Atxn op)) \<and> file_inv G used arange (Atxn op) (inode_at op r)"
  by (simp add: dir_ok_def dir_is_def Let_def file_inv_def)

text \<open>A file in a new inode, while the directory is well formed.\<close>

lemma new_file_inv:
  assumes "dir_ok G used arange op r ents" and "i < 32768" and "Inum ip = i" and "blks ip = replicate 10 0"
  shows "file_inv G used arange (Atxn op) ip"
proof -
  note s = dir_ok_super [OF assms(1)]
  have "Inum ip < NInode G (at_Super (Atxn op))" using s super_wf_layout(5) assms(2,3) by simp
  then show ?thesis using empty_file_inv s assms(4) by blast
qed

lemma CREATE_ok:
  assumes d: "dir_at G used arange held (fsstate nfs) inum r ents"
    and fh: "MakeFh G fh3 = Inr \<lparr>Ino = inum, fh_Gen = Gen (iobj (fsstate nfs) r)\<rparr>"
    and n: "dir_locs ents name = None" "length name < 112" and room: "128 * length ents + 128 \<le> 1073774592"
    and fi: "free_inodes G used arange (fsstate nfs)" and how: "Createhow3_Mode how \<noteq> EXCLUSIVE"
  shows "\<exists>reply nfs'. NFSPROC3_CREATE G (Suc fuel) \<lparr>CREATE3args_Where = \<lparr>Diropargs3_Dir = fh3, Diropargs3_Name = name\<rparr>, CREATE3args_How = how\<rparr> nfs =
       Inr (reply, nfs') \<and> CREATE3res_Status reply \<in> {NFS3_OK, NFS3ERR_NOSPC, NFS3ERR_IO, NFS3ERR_SERVERFAULT} \<and>
     (CREATE3res_Status reply = NFS3_OK \<longrightarrow>
        (\<exists>i ri off ents'. i \<in> arange (fs_Ialloc (fsstate nfs)) - used (fs_Ialloc (fsstate nfs)) \<and> i \<noteq> inum \<and>
           MakeFh G (Post_op_fh3_Handle (CREATE3resok_Obj (CREATE3res_Resok reply))) = Inr \<lparr>Ino = i, fh_Gen = Gen (iobj (fsstate nfs') ri)\<rparr> \<and>
           dir_at G used arange held (fsstate nfs') inum r ents' \<and> dir_locs ents' = (dir_locs ents)(name \<mapsto> (i, off)) \<and>
           file_at G used arange held (fsstate nfs') i ri \<and> Size (iobj (fsstate nfs') ri) = 0 \<and>
           Nlink (iobj (fsstate nfs') ri) = 1 \<and> blks (iobj (fsstate nfs') ri) = replicate 10 0 \<and>
           Gen (iobj (fsstate nfs') r) = Gen (iobj (fsstate nfs) r)))"
proof -
  let ?st = "fsstate nfs"
  let ?args = "\<lparr>CREATE3args_Where = \<lparr>Diropargs3_Dir = fh3, Diropargs3_Name = name\<rparr>, CREATE3args_How = how\<rparr>"
  obtain op where g: "GetInodeFh G fh3 (FsTxn_Begin G ?st) = Inr (Some r, op)" by (rule get_dir [OF d fh])
  note o = dir_locked(1) [OF d fh g] and ow = dir_locked(2) [OF d fh g]
  have idle: "fs_idle held ?st" and cr: "cached ?st inum r" and nl: "Nlink (iobj ?st r) \<noteq> 0" using d by (simp_all add: dir_at_def)
  note d0 = only_locked_dir [OF o d]
  have at0: "inode_at op r = iobj ?st r" by (rule only_locked_at [OF o])
  have "at_Super (Atxn op) = fs_Super ?st" using o by (simp add: only_locked_def FsTxn_Begin_def AllocTxn_Begin_def)
  then have su: "super_wf G (fs_Super ?st)" using dir_ok_super [OF d0] by simp
  have lk: "LookupName G name r op = Inr ((0, 0), op)" using LookupName_ok [OF d0] n(1) by simp
  note pre = NFSPROC3_CREATE_def doCreate_def Let_def
  show ?thesis
  proof (cases rule: AllocInode_ok [OF idle o fi su ow cr dir_at_kind [OF d], of NF3REG, case_names none some])
    case (none op1)
    then have "NFSPROC3_CREATE G (Suc fuel) ?args nfs = Inr (zero_CREATE3res\<lparr>CREATE3res_Status := NFS3ERR_NOSPC\<rparr>, put_fs (Abort G op1) nfs)"
      using g lk how by (simp add: pre)
    then show ?thesis by simp
  next
    case (some i ip ri op1)
    let ?ip = "InitInode G i NF3REG ip"
    have ne: "i \<noteq> inum" using free_inode_kind [OF some(5)] cr dir_at_kind [OF d] by auto
    then have r1: "r \<noteq> ri" "inode_at op1 r = iobj ?st r" and cr1: "cached (Fs op1) inum r" using some(8,9) cr by auto
    have fip: "Inum ?ip = i" "Kind ?ip = NF3REG" "Nlink ?ip = 1" "Size ?ip = 0" "blks ?ip = replicate 10 0" "\<not> IsShrinking G ?ip"
      using some(5) by (simp_all add: free_inode_def InitInode_def IsShrinking_def)
    have ga: "getAlloc G (Suc fuel) fh3 name NF3REG (shrinkst nfs) (FsTxn_Begin G ?st) = Inr (op1, Some r, Some ri, NFS3_OK)"
      using g lk some(1,6) fip(6) by simp
    have d1: "dir_ok G used arange op1 r ents" by (rule dir_op_frame [OF d0]) (use r1 at0 some(10,11,13) in simp_all)
    from AddName_ok [OF d1 room n(2,1) some(3)] obtain ok op2 where a: "AddName G i name r op1 = Inr (ok, op2)" and
        ao: "if ok then \<exists>off ents'. dir_ok G used arange op2 r ents' \<and> dir_locs ents' = (dir_locs ents)(name \<mapsto> (i, off)) \<and>
          length ents' \<le> Suc (length ents) else exhausted used arange (Atxn op2) \<and> dir_ok G used arange op2 r ents" by blast
    have p: "dir_only G on (Txn ?st) r op1 op2"
      by (rule retD [OF AddName_only a, simplified]) (use some(12) d1 in \<open>auto simp: dir_only_def dir_ok_def t_start\<close>)
    have i2: "inode_at op2 ri = ?ip" using p r1(1) some(6) by (auto simp: dir_only_def)
    show ?thesis
    proof (cases ok)
      case False
      have "file_inv G used arange (Atxn op2) (inode_at op2 ri)" unfolding i2
        by (rule new_file_inv [OF _ some(4)]) (use ao False fip in auto)
      then obtain nfs2 op3 where "doDecLink G ri nfs op2 = Inr (nfs2, op3)" by (rule doDecLink_ok) (use i2 fip in simp_all)
      then have "NFSPROC3_CREATE G (Suc fuel) ?args nfs = Inr (zero_CREATE3res\<lparr>CREATE3res_Status := NFS3ERR_IO\<rparr>, put_fs (Abort G op3) nfs2)"
        using ga a False some(6) fip(1) how by (simp add: pre del: getAlloc.simps)
      then show ?thesis by simp
    next
      case True
      obtain h where h: "MakeFh3 G \<lparr>Ino = i, fh_Gen = Gen ?ip\<rparr> = Inr h" "MakeFh G h = Inr \<lparr>Ino = i, fh_Gen = Gen ?ip\<rparr>" using fh_ok by blast
      obtain off ents' where d2: "dir_ok G used arange op2 r ents'" and l2: "dir_locs ents' = (dir_locs ents)(name \<mapsto> (i, off))"
        using ao True by auto
      obtain s op3 where c: "commitReply G op2 = (s, op3)" by (cases "commitReply G op2")
      then obtain k where w: "commitWait G True op2 = (k, op3)" and s: "s = (if k then NFS3_OK else NFS3ERR_SERVERFAULT)"
        by (rule commitReply_wait)
      have ca: "cached (Fs op2) inum r" "Nlink (inode_at op2 r) \<noteq> 0" "cached (Fs op2) i ri"
        using p cr1 nl r1(2) some(7) by (simp_all add: dir_only_def cached_def)
      have "txn_run G (FsTxn_Begin G ?st) op1" by (rule t_alloc [OF _ some(1)]) (use o in \<open>simp add: only_locked_def\<close>)
      then have run: "txn_run G (FsTxn_Begin G ?st) op2" using txn_run_trans p by (auto simp: dir_only_def)
      note dc = dir_commit [OF idle run dir_only_clean [OF p] d2 ca(1,2) w]
      have fin: "dir_at G used arange held (Fs op3) inum r ents' \<and> file_at G used arange held (Fs op3) i ri \<and> iobj (Fs op3) ri = ?ip \<and>
          Gen (iobj (Fs op3) r) = Gen (iobj ?st r)" if "k"
      proof -
        have dd: "dir_at G used arange held (Fs op3) inum r ents'" and io: "iobj (Fs op3) = iobj (Fs op2)"
          and en: "entries (Icache (Fs op3)) = entries (Icache (Fs op2))" using dc that by simp_all
        have "file_inv G used arange (Atxn (FsTxn_Begin G (Fs op3))) ?ip"
          by (rule new_file_inv [OF _ some(4)]) (use dd fip in \<open>auto simp: dir_at_def\<close>)
        moreover have "iobj (Fs op3) ri = ?ip" using io i2 by (simp add: inode_at_def)
        ultimately have "file_at G used arange held (Fs op3) i ri"
          using dd ca(3) en fip by (simp add: file_at_def dir_at_def cached_def)
        then show ?thesis using dd io i2 p r1(2) by (simp add: inode_at_def dir_only_def)
      qed
      let ?R = "(CREATE3res_Resok zero_CREATE3res)\<lparr>CREATE3resok_Obj := \<lparr>Post_op_fh3_Handle_follows = True, Post_op_fh3_Handle = h\<rparr>,
         CREATE3resok_Obj_attributes := \<lparr>Post_op_attr_Attributes_follow = True, Post_op_attr_Attributes = MkFattr ?ip\<rparr>\<rparr>"
      let ?reply = "zero_CREATE3res\<lparr>CREATE3res_Resok := ?R, CREATE3res_Status := s\<rparr>"
      have res: "NFSPROC3_CREATE G (Suc fuel) ?args nfs =
          Inr (zero_CREATE3res\<lparr>CREATE3res_Resok := ?R, CREATE3res_Status := s\<rparr>, put_fs op3 nfs)"
        using ga a True some(6) fip(1) i2 h(1) c how by (simp add: pre del: getAlloc.simps)
      show ?thesis
      proof (intro exI [of _ ?reply] exI [of _ "put_fs op3 nfs"] conjI impI res)
        assume "CREATE3res_Status ?reply = NFS3_OK"
        then have "k" using s by (simp split: if_splits)
        then show "\<exists>i ri off ents'. i \<in> arange (fs_Ialloc ?st) - used (fs_Ialloc ?st) \<and> i \<noteq> inum \<and>
           MakeFh G (Post_op_fh3_Handle (CREATE3resok_Obj (CREATE3res_Resok ?reply))) =
             Inr \<lparr>Ino = i, fh_Gen = Gen (iobj (fsstate (put_fs op3 nfs)) ri)\<rparr> \<and>
           dir_at G used arange held (fsstate (put_fs op3 nfs)) inum r ents' \<and> dir_locs ents' = (dir_locs ents)(name \<mapsto> (i, off)) \<and>
           file_at G used arange held (fsstate (put_fs op3 nfs)) i ri \<and> Size (iobj (fsstate (put_fs op3 nfs)) ri) = 0 \<and>
           Nlink (iobj (fsstate (put_fs op3 nfs)) ri) = 1 \<and> blks (iobj (fsstate (put_fs op3 nfs)) ri) = replicate 10 0 \<and>
           Gen (iobj (fsstate (put_fs op3 nfs)) r) = Gen (iobj ?st r)"
          using fin h(2) l2 some(2) ne fip(3-5) by (intro exI [of _ i] exI [of _ ri] exI [of _ off] exI [of _ ents']) simp
      qed (simp add: s)
    qed
  qed
qed

end

section \<open>Properties\<close>

text \<open>C8: \<^verbatim>\<open>CREATE\<close>, then \<^verbatim>\<open>LOOKUP\<close>. For a well-formed directory with room for an entry and without the name, of less than 112 bytes, where the numbers that the
  inode allocator has free are those of free inodes with nothing left to shrink, \<^verbatim>\<open>CREATE\<close>, other than \<^verbatim>\<open>EXCLUSIVE\<close>, returns. When it replies \<^verbatim>\<open>NFS3_OK\<close>, the handle in the reply is that of an inode that was free; on the
  committed log the directory is well formed with its old names and the new one, and the inode is a well-formed, empty regular
  file, ready for \<^verbatim>\<open>READ\<close> and \<^verbatim>\<open>WRITE\<close>; a \<^verbatim>\<open>LOOKUP\<close> of the name returns the same handle. Otherwise no inode or no block was free, or the commit
  failed.\<close>

theorem create_then_lookup:
  assumes G: "gojournal G on used arange held" and d: "dir_at G used arange held (fsstate nfs) inum r ents"
    and fh: "MakeFh G fh3 = Inr \<lparr>Ino = inum, fh_Gen = Gen (iobj (fsstate nfs) r)\<rparr>"
    and n: "dir_locs ents name = None" "length name < 112" and room: "128 * length ents + 128 \<le> 1073774592"
    and fi: "free_inodes G used arange (fsstate nfs)" and how: "Createhow3_Mode how \<noteq> EXCLUSIVE"
  shows "\<exists>reply nfs'. NFSPROC3_CREATE G (Suc fuel) \<lparr>CREATE3args_Where = \<lparr>Diropargs3_Dir = fh3, Diropargs3_Name = name\<rparr>, CREATE3args_How = how\<rparr> nfs =
       Inr (reply, nfs') \<and> CREATE3res_Status reply \<in> {NFS3_OK, NFS3ERR_NOSPC, NFS3ERR_IO, NFS3ERR_SERVERFAULT} \<and>
     (CREATE3res_Status reply = NFS3_OK \<longrightarrow>
        (let h = Post_op_fh3_Handle (CREATE3resok_Obj (CREATE3res_Resok reply))
         in \<exists>i ri off ents' reply' nfs''. i \<in> arange (fs_Ialloc (fsstate nfs)) - used (fs_Ialloc (fsstate nfs)) \<and>
           MakeFh G h = Inr \<lparr>Ino = i, fh_Gen = Gen (iobj (fsstate nfs') ri)\<rparr> \<and>
           dir_at G used arange held (fsstate nfs') inum r ents' \<and> dir_locs ents' = (dir_locs ents)(name \<mapsto> (i, off)) \<and>
           file_at G used arange held (fsstate nfs') i ri \<and> file_bytes G (fsstate nfs') ri = [] \<and>
           NFSPROC3_LOOKUP G (Suc fuel') \<lparr>LOOKUP3args_What = \<lparr>Diropargs3_Dir = fh3, Diropargs3_Name = name\<rparr>\<rparr> nfs' = Inr (reply', nfs'') \<and>
           LOOKUP3res_Status reply' \<in> {NFS3_OK, NFS3ERR_SERVERFAULT} \<and>
           MakeFh G (LOOKUP3resok_Object (LOOKUP3res_Resok reply')) = MakeFh G h))"
proof -
  from gojournal.CREATE_ok [OF G d fh n room fi how, of fuel] obtain reply nfs' where
      run: "NFSPROC3_CREATE G (Suc fuel) \<lparr>CREATE3args_Where = \<lparr>Diropargs3_Dir = fh3, Diropargs3_Name = name\<rparr>, CREATE3args_How = how\<rparr> nfs = Inr (reply, nfs')"
    and st: "CREATE3res_Status reply \<in> {NFS3_OK, NFS3ERR_NOSPC, NFS3ERR_IO, NFS3ERR_SERVERFAULT}"
    and ok: "CREATE3res_Status reply = NFS3_OK \<Longrightarrow>
      \<exists>i ri off ents'. i \<in> arange (fs_Ialloc (fsstate nfs)) - used (fs_Ialloc (fsstate nfs)) \<and> i \<noteq> inum \<and>
           MakeFh G (Post_op_fh3_Handle (CREATE3resok_Obj (CREATE3res_Resok reply))) = Inr \<lparr>Ino = i, fh_Gen = Gen (iobj (fsstate nfs') ri)\<rparr> \<and>
           dir_at G used arange held (fsstate nfs') inum r ents' \<and> dir_locs ents' = (dir_locs ents)(name \<mapsto> (i, off)) \<and>
           file_at G used arange held (fsstate nfs') i ri \<and> Size (iobj (fsstate nfs') ri) = 0 \<and>
           Nlink (iobj (fsstate nfs') ri) = 1 \<and> blks (iobj (fsstate nfs') ri) = replicate 10 0 \<and>
           Gen (iobj (fsstate nfs') r) = Gen (iobj (fsstate nfs) r)" by blast
  show ?thesis unfolding Let_def
  proof (intro exI [of _ reply] exI [of _ nfs'] conjI impI run st)
    assume "CREATE3res_Status reply = NFS3_OK"
    from ok [OF this] obtain i ri off ents' where
        i: "i \<in> arange (fs_Ialloc (fsstate nfs)) - used (fs_Ialloc (fsstate nfs))"
      and h: "MakeFh G (Post_op_fh3_Handle (CREATE3resok_Obj (CREATE3res_Resok reply))) = Inr \<lparr>Ino = i, fh_Gen = Gen (iobj (fsstate nfs') ri)\<rparr>"
      and d': "dir_at G used arange held (fsstate nfs') inum r ents'" and l: "dir_locs ents' = (dir_locs ents)(name \<mapsto> (i, off))"
      and f: "file_at G used arange held (fsstate nfs') i ri" "Size (iobj (fsstate nfs') ri) = 0"
      and g: "Gen (iobj (fsstate nfs') r) = Gen (iobj (fsstate nfs) r)" by blast
    have fh': "MakeFh G fh3 = Inr \<lparr>Ino = inum, fh_Gen = Gen (iobj (fsstate nfs') r)\<rparr>" using fh g by simp
    have l': "dir_locs ents' name = Some (i, off)" using l by simp
    have c: "cached (fsstate nfs') i ri" "Kind (iobj (fsstate nfs') ri) \<noteq> NF3FREE" "Nlink (iobj (fsstate nfs') ri) \<noteq> 0"
      using f(1) by (simp_all add: file_at_def)
    have e: "file_bytes G (fsstate nfs') ri = []" using f(2) by (simp add: file_bytes_def contents_def frange_def)
    from gojournal.LOOKUP_ok [OF G d' fh' l' c, of fuel'] obtain reply' nfs'' where
        "NFSPROC3_LOOKUP G (Suc fuel') \<lparr>LOOKUP3args_What = \<lparr>Diropargs3_Dir = fh3, Diropargs3_Name = name\<rparr>\<rparr> nfs' = Inr (reply', nfs'')"
        "LOOKUP3res_Status reply' \<in> {NFS3_OK, NFS3ERR_SERVERFAULT}"
        "MakeFh G (LOOKUP3resok_Object (LOOKUP3res_Resok reply')) = Inr \<lparr>Ino = i, fh_Gen = Gen (iobj (fsstate nfs') ri)\<rparr>" by blast
    then show "\<exists>i ri off ents' reply' nfs''. i \<in> arange (fs_Ialloc (fsstate nfs)) - used (fs_Ialloc (fsstate nfs)) \<and>
           MakeFh G (Post_op_fh3_Handle (CREATE3resok_Obj (CREATE3res_Resok reply))) = Inr \<lparr>Ino = i, fh_Gen = Gen (iobj (fsstate nfs') ri)\<rparr> \<and>
           dir_at G used arange held (fsstate nfs') inum r ents' \<and> dir_locs ents' = (dir_locs ents)(name \<mapsto> (i, off)) \<and>
           file_at G used arange held (fsstate nfs') i ri \<and> file_bytes G (fsstate nfs') ri = [] \<and>
           NFSPROC3_LOOKUP G (Suc fuel') \<lparr>LOOKUP3args_What = \<lparr>Diropargs3_Dir = fh3, Diropargs3_Name = name\<rparr>\<rparr> nfs' = Inr (reply', nfs'') \<and>
           LOOKUP3res_Status reply' \<in> {NFS3_OK, NFS3ERR_SERVERFAULT} \<and>
           MakeFh G (LOOKUP3resok_Object (LOOKUP3res_Resok reply')) =
             MakeFh G (Post_op_fh3_Handle (CREATE3resok_Obj (CREATE3res_Resok reply)))"
      using i h d' l f(1) e
      by (intro exI [of _ i] exI [of _ ri] exI [of _ off] exI [of _ ents'] exI [of _ reply'] exI [of _ nfs'']) simp
  qed
qed

text \<open>The example directory with a free inode, number 5, in the cache and in the allocator.\<close>

definition ex_free :: Inode where
  "ex_free = zero_Inode\<lparr>Inum := 5, blks := replicate 10 0\<rparr>"

definition ex_new_nfs :: "(u64 \<Rightarrow> nat \<Rightarrow> byte, bool list, u64 list, ref_disk) Nfs" where
  "ex_new_nfs = ex_look_nfs\<lparr>fsstate := (fsstate ex_look_nfs)\<lparr>iobj := (\<lambda>r. if r = 0 then ex_dir else ex_free),
     fs_Ialloc := [True, True, True, True, True, False]\<rparr>\<rparr>"

lemma ex_new_at: "dir_at ref_lib ref_used ref_range set (fsstate ex_new_nfs) 2 0 ex_ents"
proof -
  have "fs_idle set (fsstate ex_new_nfs)" "cached (fsstate ex_new_nfs) 2 0"
    by (auto simp: fs_idle_def ex_new_nfs_def ex_look_nfs_def ex_dir_txn_def FsTxn_Begin_def icache_ok_def cache_inv_def ex_dir_def ex_free_def
        cached_def split: if_splits)
  moreover have "inode_at (FsTxn_Begin ref_lib (fsstate ex_new_nfs)) 0 = ex_dir"
    "at_Super (Atxn (FsTxn_Begin ref_lib (fsstate ex_new_nfs))) = at_Super (Atxn ex_dir_txn)"
    "Balloc (Atxn (FsTxn_Begin ref_lib (fsstate ex_new_nfs))) = Balloc (Atxn ex_dir_txn)"
    "Op (Atxn (FsTxn_Begin ref_lib (fsstate ex_new_nfs))) = Op (Atxn ex_dir_txn)"
    by (simp_all add: ex_new_nfs_def ex_look_nfs_def ex_dir_txn_def FsTxn_Begin_def AllocTxn_Begin_def inode_at_def)
  moreover have "Nlink (iobj (fsstate ex_new_nfs) 0) \<noteq> 0" by (simp add: ex_new_nfs_def ex_dir_def)
  ultimately show ?thesis
    using gojournal.dir_op_frame [OF ref_gojournal ex_dir_ok, of "FsTxn_Begin ref_lib (fsstate ex_new_nfs)"] ex_dir_fields(1)
    by (simp add: dir_at_def)
qed

lemma ex_new_free: "free_inodes ref_lib ref_used ref_range (fsstate ex_new_nfs)"
proof -
  have "i = 5" if "i \<in> ref_range [True, True, True, True, True, False]" "i \<notin> ref_used [True, True, True, True, True, False]" for i :: u64
  proof -
    have "unat i \<noteq> 0" using that(1) by (simp add: ref_range_def unat_eq_0)
    moreover have "unat i < 6" "unat i \<noteq> 1" "unat i \<noteq> 2" "unat i \<noteq> 3" "unat i \<noteq> 4"
      using that by (auto simp: ref_range_def ref_used_def)
    ultimately have "unat i = unat (5 :: u64)" by simp
    then show ?thesis by (rule u64_eqI)
  qed
  moreover have "free_inode ref_lib (fsstate ex_new_nfs) 5 ex_free"
    by (simp add: free_inode_def ex_new_nfs_def ex_look_nfs_def cached_def) (simp add: ex_free_def zero_Inode_def)
  moreover have "fs_Ialloc (fsstate ex_new_nfs) = [True, True, True, True, True, False]" by (simp add: ex_new_nfs_def)
  moreover have "(5 :: u64) < 32768" by simp
  ultimately show ?thesis unfolding free_inodes_def by (metis DiffE)
qed

theorem create_then_lookup_witness:
  "\<exists>reply nfs'. NFSPROC3_CREATE ref_lib 1 \<lparr>CREATE3args_Where = \<lparr>Diropargs3_Dir = ex_handle2, Diropargs3_Name = [98]\<rparr>,
       CREATE3args_How = zero_Createhow3\<rparr> ex_new_nfs = Inr (reply, nfs') \<and>
     (CREATE3res_Status reply = NFS3_OK \<longrightarrow>
       (\<exists>reply' nfs''. NFSPROC3_LOOKUP ref_lib 1 \<lparr>LOOKUP3args_What = \<lparr>Diropargs3_Dir = ex_handle2, Diropargs3_Name = [98]\<rparr>\<rparr> nfs' = Inr (reply', nfs'') \<and>
          MakeFh ref_lib (LOOKUP3resok_Object (LOOKUP3res_Resok reply')) =
            MakeFh ref_lib (Post_op_fh3_Handle (CREATE3resok_Obj (CREATE3res_Resok reply)))))"
proof -
  have l: "dir_locs ex_ents [98] = None" "length [98 :: byte] < 112" "128 * length ex_ents + 128 \<le> 1073774592"
    using ex_locs by (simp_all add: ex_ents_def)
  have fh: "MakeFh ref_lib ex_handle2 = Inr \<lparr>Ino = 2, fh_Gen = Gen (iobj (fsstate ex_new_nfs) 0)\<rparr>"
    by (simp add: ex_handle2_fh ex_new_nfs_def ex_dir_def zero_Inode_def)
  have "Createhow3_Mode zero_Createhow3 \<noteq> EXCLUSIVE" by (simp add: zero_Createhow3_def)
  from create_then_lookup [OF ref_gojournal ex_new_at fh l ex_new_free this, of 0 0] show ?thesis by (auto simp: Let_def)
qed

end
