(* ===== verification/ReaddirSpec.thy ===== *)
theory ReaddirSpec
  imports LookupSpec
begin

text \<open>
  \<^verbatim>\<open>READDIR\<close>: what a page of a listing holds, and the listing a client gets that asks for page after page with the cookie of the last
  entry it has.
\<close>

section \<open>The pages of a directory\<close>

definition list_ent :: "nat \<Rightarrow> dirEnt \<Rightarrow> Entry3" where
  "list_ent k e = \<lparr>Entry3_Fileid = de_inum e, Entry3_Name = de_name e, Entry3_Cookie = of_nat (128 * k)\<rparr>"

text \<open>The entries in use, the first of the list being the entry \<open>k\<close> of the directory.\<close>

fun list_ents :: "nat \<Rightarrow> dirEnt list \<Rightarrow> Entry3 list" where
  "list_ents k [] = []"
| "list_ents k (e # es) = (if de_inum e = 0 then list_ents (Suc k) es else list_ent k e # list_ents (Suc k) es)"

text \<open>The page that ends with the first entry at which the estimate \<open>n\<close> of its size reaches \<open>c\<close>.\<close>

fun page :: "u64 \<Rightarrow> u64 \<Rightarrow> nat \<Rightarrow> dirEnt list \<Rightarrow> Entry3 list \<times> bool" where
  "page c n k [] = ([], True)"
| "page c n k (e # es) =
     (if de_inum e = 0 then page c n (Suc k) es
      else let n = n + of_nat (16 + length (de_name e) + 8 + 8)
           in if n \<ge> c then ([list_ent k e], False)
              else let (xs, eof) = page c n (Suc k) es in (list_ent k e # xs, eof))"

text \<open>A page is a prefix of what is left; if it is not the end, what is left after it starts after the entry its last cookie names.\<close>

lemma page_all: "snd (page c n k es) \<Longrightarrow> fst (page c n k es) = list_ents k es"
  by (induction c n k es rule: page.induct) (auto simp: Let_def split: if_splits prod.splits)

definition page_cut :: "Entry3 list \<Rightarrow> nat \<Rightarrow> dirEnt list \<Rightarrow> nat \<Rightarrow> bool" where
  "page_cut xs k es j \<longleftrightarrow> j < length es \<and> xs \<noteq> [] \<and> Entry3_Cookie (last xs) = of_nat (128 * (k + j)) \<and>
     list_ents k es = xs @ list_ents (Suc (k + j)) (drop (Suc j) es) \<and> length xs \<le> Suc j"

lemma page_cut_free: "de_inum e = 0 \<Longrightarrow> page_cut xs (Suc k) es j \<Longrightarrow> page_cut xs k (e # es) (Suc j)"
  by (simp add: page_cut_def)

lemma page_cut_more: "de_inum e \<noteq> 0 \<Longrightarrow> page_cut xs (Suc k) es j \<Longrightarrow> page_cut (list_ent k e # xs) k (e # es) (Suc j)"
  by (simp add: page_cut_def)

lemma page_cut_one: "de_inum e \<noteq> 0 \<Longrightarrow> page_cut [list_ent k e] k (e # es) 0"
  by (simp add: page_cut_def list_ent_def)

lemma page_more: "\<not> snd (page c n k es) \<Longrightarrow> \<exists>j. page_cut (fst (page c n k es)) k es j"
proof (induction es arbitrary: n k)
  case (Cons e es)
  let ?n = "n + of_nat (16 + length (de_name e) + 8 + 8)"
  consider (free) "de_inum e = 0" | (stop) "de_inum e \<noteq> 0" "?n \<ge> c" | (go) "de_inum e \<noteq> 0" "\<not> ?n \<ge> c" by blast
  then show ?case
  proof cases
    case free
    then show ?thesis using Cons.IH [of n "Suc k"] Cons.prems by simp (blast intro: page_cut_free [OF free])
  next
    case stop
    then show ?thesis using page_cut_one [OF stop(1)] by (auto simp: Let_def)
  next
    case go
    then show ?thesis using Cons.IH [of ?n "Suc k"] Cons.prems by (simp add: Let_def case_prod_beta) (blast intro: page_cut_more [OF go(1)])
  qed
qed simp

text \<open>A page with room for one longest name does not end with its first entry.\<close>

lemma page_two:
  assumes "\<not> snd (page c 64 k es)" and "208 < c" and "\<forall>e \<in> set es. ent_wf e"
  shows "1 < length (fst (page c 64 k es))"
  using assms
proof (induction es arbitrary: k)
  case (Cons e es)
  let ?n = "64 + of_nat (16 + length (de_name e) + 8 + 8) :: u64"
  have "?n \<le> 208" using Cons.prems(3) by (simp add: ent_wf_def word_le_nat_alt nowrap)
  then have "\<not> ?n \<ge> c" using Cons.prems(2) by simp
  then show ?case using Cons.IH [of "Suc k"] Cons.prems page_more [of c ?n "Suc k" es]
    by (auto simp: Let_def case_prod_beta page_cut_def)
qed simp

lemma list_ents_cookie: "x \<in> set (list_ents k es) \<Longrightarrow> \<exists>j < length es. x = list_ent (k + j) (es ! j) \<and> de_inum (es ! j) \<noteq> 0"
proof (induction es arbitrary: k)
  case (Cons e es)
  then show ?case by (fastforce split: if_splits)
qed simp

lemma list_ents_nth: "j < length es \<Longrightarrow> de_inum (es ! j) \<noteq> 0 \<Longrightarrow> list_ent (k + j) (es ! j) \<in> set (list_ents k es)"
proof (induction es arbitrary: j k)
  case (Cons e es)
  then show ?case using Cons.IH [of "j - 1" "Suc k"] by (cases j) auto
qed simp


lemma list_ents_names:
  assumes u: "uniq ents"
  shows "distinct (map Entry3_Name (list_ents 0 ents))"
    and "(\<exists>off. dir_locs ents name = Some (i, off)) \<longleftrightarrow> (\<exists>x \<in> set (list_ents 0 ents). Entry3_Name x = name \<and> Entry3_Fileid x = i)"
proof -
  have "distinct (map Entry3_Name (list_ents k es))" if "uniq es" for k es using that
  proof (induction es arbitrary: k)
    case (Cons e es)
    have "live (e # es) name (Suc j)" if "live es name j" for name j using that by (simp add: live_Cons)
    then have u: "uniq es" using Cons.prems unfolding uniq_def by (meson nat.inject)
    have "de_name e \<noteq> Entry3_Name x" if x: "x \<in> set (list_ents (Suc k) es)" "de_inum e \<noteq> 0" for x
    proof
      assume n: "de_name e = Entry3_Name x"
      obtain j where "j < length es" "x = list_ent (Suc k + j) (es ! j)" "de_inum (es ! j) \<noteq> 0"
        using list_ents_cookie [OF x(1)] by blast
      then have "live (e # es) (de_name e) (Suc j)" "live (e # es) (de_name e) 0" using n x(2) by (simp_all add: live_def list_ent_def)
      then show False using uniqD [OF Cons.prems] by blast
    qed
    then show ?case using Cons.IH [OF u] by (auto simp: list_ent_def)
  qed simp
  from this [OF u] show "distinct (map Entry3_Name (list_ents 0 ents))" .
  show "(\<exists>off. dir_locs ents name = Some (i, off)) \<longleftrightarrow> (\<exists>x \<in> set (list_ents 0 ents). Entry3_Name x = name \<and> Entry3_Fileid x = i)"
  proof
    assume "\<exists>off. dir_locs ents name = Some (i, off)"
    then obtain off where l: "dir_locs ents name = Some (i, off)" by blast
    then obtain k where k: "live ents name k" using dir_locs_dom [OF u, of name] by auto
    then have "list_ent (0 + k) (ents ! k) \<in> set (list_ents 0 ents)" by (intro list_ents_nth) (auto simp: live_def)
    moreover have "de_inum (ents ! k) = i" "de_name (ents ! k) = name" using dir_locs_live [OF u k] l k by (auto simp: live_def)
    ultimately show "\<exists>x \<in> set (list_ents 0 ents). Entry3_Name x = name \<and> Entry3_Fileid x = i" by (force simp: list_ent_def)
  next
    assume "\<exists>x \<in> set (list_ents 0 ents). Entry3_Name x = name \<and> Entry3_Fileid x = i"
    then obtain k where "live ents name k" "de_inum (ents ! k) = i" using list_ents_cookie [of _ 0 ents] by (fastforce simp: live_def list_ent_def)
    then show "\<exists>off. dir_locs ents name = Some (i, off)" using dir_locs_live [OF u] by blast
  qed
qed

section \<open>One page\<close>

text \<open>The position that a cookie stands for.\<close>

definition cookie_at :: "Cookie3 \<Rightarrow> dirEnt list \<Rightarrow> nat \<Rightarrow> bool" where
  "cookie_at start ents k \<longleftrightarrow>
     (if start = 0 then k = 0 else \<exists>j < length ents. start = of_nat (128 * j) \<and> k = Suc j)"

context gojournal
begin

abbreviation list_app :: "byte list \<Rightarrow> u64 \<Rightarrow> u64 \<Rightarrow> Entry3 list \<Rightarrow> Entry3 list" where
  "list_app \<equiv> \<lambda>name inum off lst. lst @ [\<lparr>Entry3_Fileid = inum, Entry3_Name = name, Entry3_Cookie = off\<rparr>]"

lemma ents_loop_ok:
  assumes "dir_is G used arange op dip ents" and "unat off = 128 * k" and "length ents - k \<le> fuel"
  shows "\<exists>op'. ents_loop G fuel c list_app off n s dip op = Inr (snd (page c n k (drop k ents)), s @ fst (page c n k (drop k ents)), op') \<and>
     dir_is G used arange op' dip ents \<and> dir_step dip op op'"
  using assms
proof (induction arbitrary: n s rule: dir_loop_induct)
  case (more fuel off k op data eof op1)
  let ?e = "ents ! k" and ?n = "n + of_nat (16 + length (de_name (ents ! k)) + 8 + 8)"
  show ?case
  proof (cases "de_inum ?e = 0")
    case True
    then show ?thesis using more(1-9) more(10) [of n s] dir_step_trans [OF more(9)] by (auto simp: ents_loop.simps [of G "Suc fuel"])
  next
    case False
    then show ?thesis using more(1-9) more(10) [of ?n "s @ [list_ent k ?e]"] dir_step_trans [OF more(9)]
      by (auto simp: ents_loop.simps [of G "Suc fuel"] Let_def list_ent_def case_prod_beta)
  qed
qed (auto simp: ents_loop.simps dir_step_refl)

lemma ents_loop_only:
  "dir_only G on lg dip op op1 \<Longrightarrow> ret (\<lambda>(e, s, op'). dir_only G on lg dip op op') (ents_loop G fuel c f off n s dip op1)"
proof (induction fuel arbitrary: off n s op1)
  case (Suc fuel)
  show ?case unfolding ents_loop.simps [of G "Suc fuel"] nat.case Let_def
    by (rule wp ret_bnd22 [OF ip_Read_only] Suc | assumption | rule ret_any | simp)+
qed (simp add: ents_loop.simps [of G 0] ret_Inl ret_Inr)

lemma Readdir3_ok:
  assumes d: "dir_is G used arange op dip ents" and k: "cookie_at start ents k"
  shows "\<exists>op'. Readdir3 G start c dip op = Inr (\<lparr>Dirlist3_Entries = fst (page (ucast c) 64 k (drop k ents)),
       Dirlist3_Eof = snd (page (ucast c) 64 k (drop k ents))\<rparr>, op') \<and>
     dir_is G used arange op' dip ents \<and> dir_step dip op op'"
proof -
  let ?b = "if start \<noteq> 0 then start + 128 else start"
  have "128 * length ents \<le> 1073774592" using d by (simp add: dir_is_def Let_def)
  then have "unat ?b = 128 * k" using k by (auto simp: cookie_at_def nowrap split: if_splits)
  from ents_loop_ok [OF d this dir_fuel_ok [OF d], of "ucast c" 64 "[]"] show ?thesis by (auto simp: Readdir3_def ApplyEnts_def)
qed

lemma READDIR_ok:
  assumes d: "dir_at G used arange held (fsstate nfs) inum r ents"
    and fh: "MakeFh G fh3 = Inr \<lparr>Ino = inum, fh_Gen = Gen (iobj (fsstate nfs) r)\<rparr>" and k: "cookie_at start ents k"
    and p: "page (ucast c) 64 k (drop k ents) = (xs, eof)"
  shows "\<exists>reply nfs'. NFSPROC3_READDIR G \<lparr>READDIR3args_Dir = fh3, READDIR3args_Cookie = start, READDIR3args_Cookieverf = v,
       READDIR3args_Count = c\<rparr> nfs = Inr (reply, nfs') \<and>
     READDIR3resok_Reply (READDIR3res_Resok reply) = \<lparr>Dirlist3_Entries = xs, Dirlist3_Eof = eof\<rparr> \<and>
     READDIR3res_Status reply \<in> {NFS3_OK, NFS3ERR_SERVERFAULT} \<and>
     ((\<forall>op lg. fst (CommitWait G op True lg)) \<longrightarrow> READDIR3res_Status reply = NFS3_OK) \<and>
     (READDIR3res_Status reply = NFS3_OK \<longrightarrow>
        dir_at G used arange held (fsstate nfs') inum r ents \<and> Gen (iobj (fsstate nfs') r) = Gen (iobj (fsstate nfs) r) \<and>
        (\<forall>s. s \<noteq> r \<longrightarrow> iobj (fsstate nfs') s = iobj (fsstate nfs) s) \<and>
        (\<forall>j s. cached (fsstate nfs') j s \<longleftrightarrow> cached (fsstate nfs) j s))"
proof -
  let ?st = "fsstate nfs"
  obtain op where g: "GetInodeFh G fh3 (FsTxn_Begin G ?st) = Inr (Some r, op)" by (rule get_dir [OF d fh])
  have idle: "fs_idle held ?st" and cr: "cached ?st inum r" and nl: "Nlink (iobj ?st r) \<noteq> 0" using d by (simp_all add: dir_at_def)
  have o: "only_locked G held ?st op" by (rule dir_locked(1) [OF d fh g])
  note dk = only_locked_dir [OF o d]
  have tr: "txn_run G (FsTxn_Begin G ?st) op" using o by (simp add: only_locked_def)
  have p0: "dir_only G on (Txn ?st) r op op"
    using only_locked_clean [OF o] dk by (auto simp: dir_only_def dir_ok_def t_start)
  have di: "dir_is G used arange op r ents" using dk by (simp add: dir_ok_def)
  from Readdir3_ok [OF di k, of c] p obtain op1 where
      rd: "Readdir3 G start c r op = Inr (\<lparr>Dirlist3_Entries = xs, Dirlist3_Eof = eof\<rparr>, op1)"
    and d1: "dir_is G used arange op1 r ents" and s1: "dir_step r op op1" by auto
  have p1: "dir_only G on (Txn ?st) r op op1"
    using retD [OF ents_loop_only [OF p0]] rd by (fastforce simp: Readdir3_def ApplyEnts_def bnd_eq_Inr)
  have "inode_Dcache (inode_at op1 r) = inode_Dcache (inode_at op r)" using s1 by (auto simp: dir_step_def)
  then have dk1: "dir_ok G used arange op1 r ents" using dk d1 by (simp add: dir_ok_def)
  have tr1: "txn_run G (FsTxn_Begin G ?st) op1" using txn_run_trans [OF _ tr] p1 by (simp add: dir_only_def)
  obtain s op2 where c: "commitReply G op1 = (s, op2)" by (cases "commitReply G op1")
  then obtain ok where w: "commitWait G True op1 = (ok, op2)" and s: "s = (if ok then NFS3_OK else NFS3ERR_SERVERFAULT)"
    by (rule commitReply_wait)
  have ca: "cached (Fs op1) inum r" "Nlink (inode_at op1 r) \<noteq> 0"
    using p1 o cr nl by (simp_all add: dir_only_def only_locked_def cached_def inode_at_def)
  have co: "ok \<longrightarrow> dir_at G used arange held (Fs op2) inum r ents \<and> iobj (Fs op2) = iobj (Fs op1) \<and>
      entries (Icache (Fs op2)) = entries (Icache (Fs op1))"
    using dir_commit [OF idle tr1 dir_only_clean [OF p1] dk1 ca w] by blast
  have cm: "(\<forall>op lg. fst (CommitWait G op True lg)) \<longrightarrow> ok" using w commits_wait by blast
  have "NFSPROC3_READDIR G \<lparr>READDIR3args_Dir = fh3, READDIR3args_Cookie = start, READDIR3args_Cookieverf = v, READDIR3args_Count = c\<rparr> nfs =
      Inr (zero_READDIR3res\<lparr>READDIR3res_Resok := (READDIR3res_Resok zero_READDIR3res)\<lparr>READDIR3resok_Reply :=
        \<lparr>Dirlist3_Entries = xs, Dirlist3_Eof = eof\<rparr>\<rparr>, READDIR3res_Status := s\<rparr>, put_fs op2 nfs)"
    using g rd c dir_ok_kind [OF dk] by (simp add: NFSPROC3_READDIR_def Let_def)
  then show ?thesis using co cm s p1 o by (auto simp: dir_only_def only_locked_def cached_def inode_at_def)
qed

end

section \<open>A whole listing\<close>

text \<open>A client that lists a directory: it asks for at most \<open>n\<close> pages, each from the cookie of the last entry it has.\<close>

fun list_dir ::
    "('log, 'op, 'alc, 'lm, 'd) golib \<Rightarrow> nat \<Rightarrow> Nfs_fh3 \<Rightarrow> Count3 \<Rightarrow> Cookie3 \<Rightarrow> ('log, 'alc, 'lm, 'd) Nfs \<Rightarrow>
     (Entry3 list \<times> ('log, 'alc, 'lm, 'd) Nfs) res" where
  "list_dir G 0 fh3 c start nfs = Inl NoFuel"
| "list_dir G (Suc n) fh3 c start nfs =
     bnd (NFSPROC3_READDIR G \<lparr>READDIR3args_Dir = fh3, READDIR3args_Cookie = start, READDIR3args_Cookieverf = replicate 8 0,
            READDIR3args_Count = c\<rparr> nfs) (\<lambda>(reply, nfs).
     let l = READDIR3resok_Reply (READDIR3res_Resok reply)
     in if READDIR3res_Status reply \<noteq> NFS3_OK \<or> Dirlist3_Entries l = [] \<and> \<not> Dirlist3_Eof l then Inl (Panic ''READDIR'')
        else if Dirlist3_Eof l then Inr (Dirlist3_Entries l, nfs)
        else bnd (list_dir G n fh3 c (Entry3_Cookie (last (Dirlist3_Entries l))) nfs) (\<lambda>(es, nfs).
             Inr (Dirlist3_Entries l @ es, nfs)))"

text \<open>A client that reads \<open>n\<close> pages and keeps the replies, each page from the cookie of the last entry of the page before.\<close>

fun read_pages ::
    "('log, 'op, 'alc, 'lm, 'd) golib \<Rightarrow> nat \<Rightarrow> Nfs_fh3 \<Rightarrow> Count3 \<Rightarrow> Cookie3 \<Rightarrow> ('log, 'alc, 'lm, 'd) Nfs \<Rightarrow>
     ((Nfsstat3 \<times> Dirlist3) list \<times> ('log, 'alc, 'lm, 'd) Nfs) res" where
  "read_pages G 0 fh3 c start nfs = Inr ([], nfs)"
| "read_pages G (Suc n) fh3 c start nfs =
     bnd (NFSPROC3_READDIR G \<lparr>READDIR3args_Dir = fh3, READDIR3args_Cookie = start, READDIR3args_Cookieverf = replicate 8 0,
            READDIR3args_Count = c\<rparr> nfs) (\<lambda>(reply, nfs).
     let l = READDIR3resok_Reply (READDIR3res_Resok reply);
         cookie = (if Dirlist3_Entries l = [] then start else Entry3_Cookie (last (Dirlist3_Entries l)))
     in bnd (read_pages G n fh3 c cookie nfs) (\<lambda>(ls, nfs). Inr ((READDIR3res_Status reply, l) # ls, nfs)))"

lemma page_cut_next:
  assumes p: "page_cut xs k (drop k ents) j" and l: "1 < length xs" and sz: "128 * length ents \<le> 1073774592"
  shows "cookie_at (Entry3_Cookie (last xs)) ents (Suc (k + j))"
proof -
  have j: "j < length ents - k" "j \<noteq> 0" "Entry3_Cookie (last xs) = of_nat (128 * (k + j))" using p l by (auto simp: page_cut_def)
  then have "unat (of_nat (128 * (k + j)) :: u64) = 128 * (k + j)" using sz by (simp add: nowrap)
  then have "(of_nat (128 * (k + j)) :: u64) \<noteq> 0" using j(2) by (metis add_is_0 mult_is_0 unat_0 zero_neq_numeral)
  then show ?thesis using j by (auto simp: cookie_at_def)
qed

context gojournal
begin

lemma list_dir_ok:
  assumes "dir_at G used arange held (fsstate nfs) inum r ents"
    and "MakeFh G fh3 = Inr \<lparr>Ino = inum, fh_Gen = Gen (iobj (fsstate nfs) r)\<rparr>" and cm: "\<And>op lg. fst (CommitWait G op True lg)"
    and c: "208 < c" and "cookie_at start ents k" and "length ents - k < n"
  shows "\<exists>nfs'. list_dir G n fh3 c start nfs = Inr (list_ents k (drop k ents), nfs') \<and> dir_at G used arange held (fsstate nfs') inum r ents"
  using assms(1,2,5,6)
proof (induction n arbitrary: nfs start k)
  case (Suc n)
  let ?p = "page (ucast c) 64 k (drop k ents)"
  have di: "dir_is G used arange (FsTxn_Begin G (fsstate nfs)) r ents" using Suc.prems(1) by (simp add: dir_at_def dir_ok_def)
  then have sz: "128 * length ents \<le> 1073774592" and wf: "\<forall>e \<in> set (drop k ents). ent_wf e"
    by (auto simp: dir_is_def Let_def in_set_conv_nth)
  have c': "208 < (ucast c :: u64)" using c by (simp add: word_less_nat_alt)
  from READDIR_ok [OF Suc.prems(1-3), of c "fst ?p" "snd ?p" "replicate 8 0"] cm obtain reply nfs1 where
      rd: "NFSPROC3_READDIR G \<lparr>READDIR3args_Dir = fh3, READDIR3args_Cookie = start, READDIR3args_Cookieverf = replicate 8 0,
         READDIR3args_Count = c\<rparr> nfs = Inr (reply, nfs1)"
    and rp: "READDIR3resok_Reply (READDIR3res_Resok reply) = \<lparr>Dirlist3_Entries = fst ?p, Dirlist3_Eof = snd ?p\<rparr>"
    and st: "READDIR3res_Status reply = NFS3_OK" and d1: "dir_at G used arange held (fsstate nfs1) inum r ents"
    and gn: "Gen (iobj (fsstate nfs1) r) = Gen (iobj (fsstate nfs) r)" by auto
  show ?case
  proof (cases "snd ?p")
    case True
    then show ?thesis using rd rp st d1 page_all [OF True] by simp
  next
    case False
    obtain j where j: "page_cut (fst ?p) k (drop k ents) j" using page_more [OF False] by blast
    have fh1: "MakeFh G fh3 = Inr \<lparr>Ino = inum, fh_Gen = Gen (iobj (fsstate nfs1) r)\<rparr>" using Suc.prems(2) gn by simp
    note nx = page_cut_next [OF j page_two [OF False c' wf] sz]
    have "length ents - Suc (k + j) < n" using Suc.prems(4) j unfolding page_cut_def length_drop by linarith
    from Suc.IH [OF d1 fh1 nx this] show ?thesis using rd rp st False j by (auto simp: page_cut_def add.commute)
  qed
qed simp

text \<open>A page that holds only the entry at offset 0 has the cookie that asks for it again.\<close>

lemma page_first:
  assumes "e # es = ents" and "de_inum e \<noteq> 0" and "c \<le> of_nat (96 + length (de_name e))"
  shows "page c 64 0 ents = ([list_ent 0 e], False)"
  using assms by (auto simp: add.commute)

lemma read_pages_stuck:
  assumes "dir_at G used arange held (fsstate nfs) inum r (e # es)"
    and "MakeFh G fh3 = Inr \<lparr>Ino = inum, fh_Gen = Gen (iobj (fsstate nfs) r)\<rparr>" and cm: "\<And>op lg. fst (CommitWait G op True lg)"
    and c: "de_inum e \<noteq> 0" "unat c \<le> 96 + length (de_name e)"
  shows "\<exists>nfs'. read_pages G n fh3 c 0 nfs =
       Inr (replicate n (NFS3_OK, \<lparr>Dirlist3_Entries = [list_ent 0 e], Dirlist3_Eof = False\<rparr>), nfs') \<and>
     dir_at G used arange held (fsstate nfs') inum r (e # es)"
  using assms(1,2)
proof (induction n arbitrary: nfs)
  case (Suc n)
  have wf: "length (de_name e) \<le> 112" using Suc.prems(1) by (auto simp: dir_at_def dir_ok_def dir_is_def Let_def ent_wf_def)
  have "(ucast c :: u64) \<le> of_nat (96 + length (de_name e))"
    using c(2) wf by (simp add: word_le_nat_alt nowrap del: of_nat_add)
  then have p: "page (ucast c) 64 0 (drop 0 (e # es)) = ([list_ent 0 e], False)" using page_first [OF refl c(1), of "ucast c"] by (simp only: drop_0)
  from READDIR_ok [OF Suc.prems(1,2) _ p, of 0 "replicate 8 0"] cm obtain reply nfs1 where
      rd: "NFSPROC3_READDIR G \<lparr>READDIR3args_Dir = fh3, READDIR3args_Cookie = 0, READDIR3args_Cookieverf = replicate 8 0,
         READDIR3args_Count = c\<rparr> nfs = Inr (reply, nfs1)"
    and rp: "READDIR3resok_Reply (READDIR3res_Resok reply) = \<lparr>Dirlist3_Entries = [list_ent 0 e], Dirlist3_Eof = False\<rparr>"
    and st: "READDIR3res_Status reply = NFS3_OK" and d1: "dir_at G used arange held (fsstate nfs1) inum r (e # es)"
    and gn: "Gen (iobj (fsstate nfs1) r) = Gen (iobj (fsstate nfs) r)" by (auto simp: cookie_at_def)
  have "MakeFh G fh3 = Inr \<lparr>Ino = inum, fh_Gen = Gen (iobj (fsstate nfs1) r)\<rparr>" using Suc.prems(2) gn by simp
  from Suc.IH [OF d1 this] show ?case using rd rp st by (auto simp: list_ent_def)
qed simp

end

section \<open>Properties\<close>

text \<open>C12: a whole listing ends. A client that lists a well-formed directory with \<^verbatim>\<open>READDIR\<close>, page after page from the cookie of the last entry
  it got, with a count of more than 208 bytes and commits that succeed, gets \<open>eof\<close> after at most one page more than the directory has
  entries; the names it has then are distinct, and they are the names of the directory with their inode numbers.\<close>

theorem readdir_lists_all:
  assumes G: "gojournal G on used arange held" and d: "dir_at G used arange held (fsstate nfs) inum r ents"
    and fh: "MakeFh G fh3 = Inr \<lparr>Ino = inum, fh_Gen = Gen (iobj (fsstate nfs) r)\<rparr>"
    and cm: "\<And>op lg. fst (CommitWait G op True lg)" and c: "208 < c"
  shows "\<exists>es nfs'. list_dir G (Suc (length ents)) fh3 c 0 nfs = Inr (es, nfs') \<and> distinct (map Entry3_Name es) \<and>
     (\<forall>name i. (\<exists>off. dir_locs ents name = Some (i, off)) \<longleftrightarrow> (\<exists>x \<in> set es. Entry3_Name x = name \<and> Entry3_Fileid x = i)) \<and>
     dir_at G used arange held (fsstate nfs') inum r ents"
proof -
  have "uniq ents" using d by (simp add: dir_at_def dir_ok_def)
  note u = list_ents_names [OF this]
  from gojournal.list_dir_ok [OF G d fh cm c, of 0 0 "Suc (length ents)"] obtain nfs' where
    "list_dir G (Suc (length ents)) fh3 c 0 nfs = Inr (list_ents 0 ents, nfs')" "dir_at G used arange held (fsstate nfs') inum r ents"
    by (auto simp: cookie_at_def)
  then show ?thesis using u by blast
qed

lemma ref_commits: "fst (CommitWait ref_lib op True lg)"
  by (simp add: ref_lib_def)

theorem readdir_lists_all_witness:
  "\<exists>es nfs'. list_dir ref_lib 2 ex_handle2 4096 0 ex_look_nfs = Inr (es, nfs') \<and> (\<exists>x \<in> set es. Entry3_Name x = [97] \<and> Entry3_Fileid x = 5)"
proof -
  have l: "dir_locs ex_ents [97] = Some (5, 0)" "Suc (length ex_ents) = 2" using ex_locs by (simp_all add: ex_ents_def)
  from readdir_lists_all [OF ref_gojournal ex_look_at ex_look_handle ref_commits, of 4096] show ?thesis
    unfolding l(2) using l(1) by fastforce
qed

text \<open>C29: a listing with small pages does not end. When the first entry of a well-formed directory is in use, the count is at most 96
  bytes plus the length of its name and the commits succeed, a client that asks for any number of pages, each from the cookie of the last
  entry it got, gets the same reply each time: that entry alone, with cookie 0 and without \<open>eof\<close>. It gets no other name of the directory
  and never the end.\<close>

theorem readdir_small_page_repeats:
  assumes G: "gojournal G on used arange held" and d: "dir_at G used arange held (fsstate nfs) inum r (e # es)"
    and fh: "MakeFh G fh3 = Inr \<lparr>Ino = inum, fh_Gen = Gen (iobj (fsstate nfs) r)\<rparr>"
    and cm: "\<And>op lg. fst (CommitWait G op True lg)" and c: "de_inum e \<noteq> 0" "unat c \<le> 96 + length (de_name e)"
  shows "\<exists>nfs'. read_pages G n fh3 c 0 nfs =
       Inr (replicate n (NFS3_OK, \<lparr>Dirlist3_Entries = [\<lparr>Entry3_Fileid = de_inum e, Entry3_Name = de_name e, Entry3_Cookie = 0\<rparr>],
         Dirlist3_Eof = False\<rparr>), nfs') \<and>
     dir_at G used arange held (fsstate nfs') inum r (e # es)"
  using gojournal.read_pages_stuck [OF G d fh cm c] by (simp add: list_ent_def)

theorem readdir_small_page_repeats_witness:
  "\<exists>nfs'. read_pages ref_lib 1000 ex_handle2 97 0 ex_look_nfs =
     Inr (replicate 1000 (NFS3_OK, \<lparr>Dirlist3_Entries = [\<lparr>Entry3_Fileid = 5, Entry3_Name = [97], Entry3_Cookie = 0\<rparr>],
       Dirlist3_Eof = False\<rparr>), nfs')"
  using readdir_small_page_repeats [OF ref_gojournal ex_look_at [unfolded ex_ents_def] ex_look_handle ref_commits, of 97 1000]
  unfolding dirEnt.simps by (auto simp del: replicate.simps read_pages.simps)

end
