(* ===== verification/AbortSpec.thy ===== *)
theory AbortSpec
  imports FileServe
begin

text \<open>
  What an abort does not undo: the fields of a cached inode. A \<^verbatim>\<open>WRITE\<close> that runs out of blocks between the root of an index tree
  and its leaf aborts; the root goes back to the allocator, and the inode in the cache keeps it.
\<close>

section \<open>Allocating the last block\<close>

context gojournal
begin

lemma AllocBlock_last:
  assumes inv: "balloc_inv G used arange a" and one: "arange (Balloc a) - used (Balloc a) = {b}"
  obtains a1 where "AllocBlock G a = Inr (b, a1)" and "balloc_inv G used arange a1" and "b \<noteq> 0" and "valid_bnum a1 b"
    and "blk G (Op a1) b = replicate 4096 0" and "exhausted used arange a1"
proof (rule AllocBlock_ok [OF inv])
  fix bn a1
  assume ab: "AllocBlock G a = Inr (bn, a1)" and i: "balloc_inv G used arange a1"
    and f: "Op a1 = Op a" "at_Super a1 = at_Super a" "arange (Balloc a1) = arange (Balloc a)"
    and z: "bn = 0 \<Longrightarrow> arange (Balloc a) \<subseteq> used (Balloc a)"
    and s: "bn \<noteq> 0 \<Longrightarrow> bn \<in> arange (Balloc a)" "bn \<noteq> 0 \<Longrightarrow> bn \<notin> used (Balloc a)"
      "bn \<noteq> 0 \<Longrightarrow> used (Balloc a1) = insert bn (used (Balloc a))"
    and v: "bn \<noteq> 0 \<Longrightarrow> valid_bnum a bn" "bn \<noteq> 0 \<Longrightarrow> blk G (Op a) bn = replicate 4096 0"
  have nz: "bn \<noteq> 0" using z one by auto
  then have "bn = b" using s one by blast
  moreover have "arange (Balloc a1) \<subseteq> used (Balloc a1)" using f(3) s(3) [OF nz] one \<open>bn = b\<close> by auto
  ultimately show thesis using that [of a1] ab i nz v f by (simp add: exhausted_def valid_bnum_def)
qed

lemma AllocBlock_exhausted:
  assumes inv: "balloc_inv G used arange a" and ex: "exhausted used arange a"
  obtains a1 where "AllocBlock G a = Inr (0, a1)"
proof (rule AllocBlock_ok [OF inv])
  fix bn a1
  assume "AllocBlock G a = Inr (bn, a1)" "bn \<noteq> 0 \<Longrightarrow> bn \<in> arange (Balloc a)" "bn \<noteq> 0 \<Longrightarrow> bn \<notin> used (Balloc a)"
  then show thesis using that ex by (cases "bn = 0") (auto simp: exhausted_def)
qed

lemma bmap_root_only:
  assumes inv: "file_inv G used arange a ip" and r: "blks ip ! 8 = 0" and one: "arange (Balloc a) - used (Balloc a) = {b}"
  shows "\<exists>a'. bmap G 8 ip a = Inr (0, True, ip\<lparr>blks := (blks ip)[8 := b]\<rparr>, a')"
proof -
  have bi: "balloc_inv G used arange a" and l: "length (blks ip) = 10" using inv by (simp_all add: file_inv_def ino_ok_def)
  obtain a1 where a1: "AllocBlock G a = Inr (b, a1)" and bi1: "balloc_inv G used arange a1" and b: "b \<noteq> 0" "valid_bnum a1 b"
    and z: "blk G (Op a1) b = replicate 4096 0" and ex: "exhausted used arange a1" by (rule AllocBlock_last [OF bi one])
  obtain a2 where a2: "AllocBlock G a1 = Inr (0, a2)" by (rule AllocBlock_exhausted [OF bi1 ex])
  have g: "BnumGet G (replicate 4096 0) 0 = Inr 0" by (rule bnum_get_zero) simp_all
  have rb: "ReadBlock G b a1 = Inr (replicate 4096 0)" using b(2) z by (simp add: ReadBlock_def blk_def)
  have "indbmap G 0 1 0 a = Inr (0, b, a2)" using a1 a2 b(1) rb g by (simp add: ind_root_def)
  then show ?thesis using r l b(1) by (auto simp: bmap_def NBLKBLK_def)
qed

lemma Write_root_only:
  assumes inv: "file_inv G used arange a ip" and r: "blks ip ! 8 = 0" and one: "arange (Balloc a) - used (Balloc a) = {b}"
    and n: "0 < n" "n < 2093056"
  shows "\<exists>a'. Write G 32768 n data ip a = Inr (0, False, ip\<lparr>blks := (blks ip)[8 := b]\<rparr>, a')"
proof -
  obtain a' where "bmap G 8 ip a = Inr (0, True, ip\<lparr>blks := (blks ip)[8 := b]\<rparr>, a')" using bmap_root_only [OF inv r one] by blast
  then have "write_loop G (Suc (unat n)) 8 n data 32768 0 False ip a = Inr (0, False, False, ip\<lparr>blks := (blks ip)[8 := b]\<rparr>, a')"
    using n(1) by (simp add: write_loop.simps [of G "Suc (unat n)"])
  moreover have "\<not> 32768 + n > MaxFileSize G"
    using n(2) MaxFileSize_val by (simp add: word_less_nat_alt word_le_nat_alt nowrap not_less)
  ultimately show ?thesis by (simp add: Write_def)
qed

lemma atxn_run_range: "atxn_run G s t \<Longrightarrow> arange (Balloc t) = arange (Balloc s)"
proof (induction rule: atxn_run.induct)
  case (run_alloc_block t b u)
  from AllocBlock_Inr [OF run_alloc_block.hyps(2)] obtain al where n: "AllocNum G (Balloc t) = (b, al)" and "Balloc u = al" by auto
  then show ?case using alloc_range [OF n] run_alloc_block.IH by simp
next
  case (run_alloc_inum t i u)
  from AllocINum_eq [OF run_alloc_inum.hyps(2)] obtain al where "u = t\<lparr>Ialloc := al, allocInums := allocInums t @ (if i = NULLINUM G then [] else [i])\<rparr>"
    by blast
  then show ?case using run_alloc_inum.IH by simp
next
  case (run_free_block t b u)
  then show ?case using FreeBlock_Inr(2) [OF run_free_block.hyps(2)] by simp
qed (simp_all add: FreeINum_def)

lemma Abort_fs:
  assumes "txn_inv held op"
  shows "iobj (Fs (Abort G op)) = iobj (Fs op)" and "arange (fs_Balloc (Fs (Abort G op))) = arange (Balloc (Atxn op))"
    and "Icache (Fs (Abort G op)) = Icache (Fs op)" and "fs_Super (Fs (Abort G op)) = fs_Super (Fs op)"
  using releaseInodes_ok(3,4) [OF assms] by (auto simp: Abort_def put_allocs_def Let_def PostAbort_def arange_foldl_FreeNum)

lemma AllocNum_only: "arange a - used a = {b} \<Longrightarrow> fst (AllocNum G a) = b"
  using alloc_none [of a "snd (AllocNum G a)"] alloc_some [of a "fst (AllocNum G a)" "snd (AllocNum G a)"]
  by (cases "fst (AllocNum G a) = 0") (auto simp: prod_eq_iff)

lemma only_nonzero: "balloc_inv G used arange a \<Longrightarrow> arange (Balloc a) - used (Balloc a) = {b} \<Longrightarrow> b \<noteq> 0"
  by (rule AllocBlock_last)

lemma free_not_file:
  assumes "b \<noteq> 0" and "blks (iobj st r) ! 8 = b" and "b \<notin> used (fs_Balloc st)"
  shows "\<not> file_at G used arange held st inum r"
proof
  assume "file_at G used arange held st inum r"
  then have i: "ino_blocks G (Op (Atxn (FsTxn_Begin G st))) (blks (iobj st r)) \<subseteq> used (fs_Balloc st)"
    by (simp add: file_at_def file_inv_def FsTxn_Begin_def AllocTxn_Begin_def)
  have "b \<in> tree_blocks G (Op (Atxn (FsTxn_Begin G st))) (lev 8) b" using assms(1) by (cases "lev 8") auto
  then have "b \<in> ino_blocks G (Op (Atxn (FsTxn_Begin G st))) (blks (iobj st r))"
    using assms(2) slot_in_ino [of 8 G "Op (Atxn (FsTxn_Begin G st))" "blks (iobj st r)"] by (auto simp: slot_blocks_def)
  then show False using i assms(3) by blast
qed

lemma WRITE_root_only:
  assumes f: "file_at G used arange held (fsstate nfs) inum r"
    and fh: "MakeFh G fh3 = Inr \<lparr>Ino = inum, fh_Gen = Gen (iobj (fsstate nfs) r)\<rparr>"
    and rt: "blks (iobj (fsstate nfs) r) ! 8 = 0" and one: "arange (fs_Balloc (fsstate nfs)) - used (fs_Balloc (fsstate nfs)) = {b}"
    and n: "0 < n" "(ucast n :: u64) < LogBytes G"
  shows "\<exists>nfs'. NFSPROC3_WRITE G (Suc fuel) \<lparr>WRITE3args_File = fh3, WRITE3args_Offset = 32768, WRITE3args_Count = n,
       WRITE3args_Stable = how, WRITE3args_Data = data\<rparr> nfs = Inr (zero_WRITE3res\<lparr>WRITE3res_Status := NFS3ERR_NOSPC\<rparr>, nfs') \<and>
     blks (iobj (fsstate nfs') r) = (blks (iobj (fsstate nfs) r))[8 := b] \<and> Txn (fsstate nfs') = Txn (fsstate nfs) \<and>
     used (fs_Balloc (fsstate nfs')) = used (fs_Balloc (fsstate nfs)) \<and> arange (fs_Balloc (fsstate nfs')) = arange (fs_Balloc (fsstate nfs))"
proof -
  let ?st = "fsstate nfs" and ?ip = "iobj (fsstate nfs) r" and ?n = "ucast n :: u64"
  have fa: "fs_idle held ?st" and inv: "file_inv G used arange (Atxn (FsTxn_Begin G ?st)) ?ip" using f by (simp_all add: file_at_def)
  have o: "arange (Balloc (Atxn (FsTxn_Begin G ?st))) - used (Balloc (Atxn (FsTxn_Begin G ?st))) = {b}"
    using one by (simp add: FsTxn_Begin_def AllocTxn_Begin_def)
  have n': "0 < ?n" using n(1) by (simp add: word_less_nat_alt)
  from Write_root_only [OF inv rt o n'] n(2) obtain a' where
      w: "Write G 32768 ?n data ?ip (Atxn (FsTxn_Begin G ?st)) = Inr (0, False, ?ip\<lparr>blks := (blks ?ip)[8 := b]\<rparr>, a')" by auto
  show ?thesis
  proof (rule WRITE_run [where fuel = fuel and how = how, OF f fh n(2) w])
    fix op :: "('log, 'op, 'alc, 'lm, 'd) FsTxn"
    let ?op = "put_inode r (?ip\<lparr>blks := (blks ?ip)[8 := b]\<rparr>) (op\<lparr>Atxn := a'\<rparr>)"
    assume get: "GetInodeFh G fh3 (FsTxn_Begin G ?st) = Inr (Some r, op)" and at: "inode_at op r = ?ip" "Atxn op = Atxn (FsTxn_Begin G ?st)"
      and res: "\<not> False \<Longrightarrow> NFSPROC3_WRITE G (Suc fuel) \<lparr>WRITE3args_File = fh3, WRITE3args_Offset = 32768, WRITE3args_Count = n,
         WRITE3args_Stable = how, WRITE3args_Data = data\<rparr> nfs =
        Inr (zero_WRITE3res\<lparr>WRITE3res_Status := NFS3ERR_NOSPC\<rparr>, put_fs (Abort G ?op) nfs)"
    have ru: "atxn_run G (Atxn op) a'" using retD [OF run.Write_Q [OF run_start] w] at(2) by simp
    have "txn_run G (FsTxn_Begin G ?st) (op\<lparr>Atxn := a'\<rparr>)" by (rule t_atxn [OF t_fh [OF t_start get] ru])
    then have run: "txn_run G (FsTxn_Begin G ?st) ?op" by (rule t_inode) (simp add: at)
    note ab = Abort_undo [OF fa run] and fs = Abort_fs [OF txn_run_inv [OF run Begin_inv [OF fa]]]
    have "arange (Balloc (Atxn ?op)) = arange (fs_Balloc ?st)"
      using atxn_run_range [OF ru] at(2) by (simp add: put_inode_def FsTxn_Begin_def AllocTxn_Begin_def)
    then show ?thesis using res ab fs by (simp add: put_inode_def)
  qed
qed

end

section \<open>Properties\<close>

text \<open>C27: a failed \<^verbatim>\<open>WRITE\<close> leaves a dangling block. If one block is left and a well-formed file has no index block yet, a \<^verbatim>\<open>WRITE\<close> to its ninth
  block replies \<^verbatim>\<open>NFS3ERR_NOSPC\<close>, the log is as it was and the block is free again; but the inode in the cache now has that block as its index
  block, the next allocation of any file hands the same block out, and the file is no longer well formed.\<close>

theorem write_nospc_dangles:
  assumes G: "gojournal G on used arange held" and f: "file_at G used arange held (fsstate nfs) inum r"
    and fh: "MakeFh G fh3 = Inr \<lparr>Ino = inum, fh_Gen = Gen (iobj (fsstate nfs) r)\<rparr>"
    and rt: "blks (iobj (fsstate nfs) r) ! 8 = 0" and one: "arange (fs_Balloc (fsstate nfs)) - used (fs_Balloc (fsstate nfs)) = {b}"
    and n: "0 < n" "(ucast n :: u64) < LogBytes G"
  shows "\<exists>reply nfs'. NFSPROC3_WRITE G (Suc fuel) \<lparr>WRITE3args_File = fh3, WRITE3args_Offset = 8 * 4096, WRITE3args_Count = n,
       WRITE3args_Stable = how, WRITE3args_Data = data\<rparr> nfs = Inr (reply, nfs') \<and> WRITE3res_Status reply = NFS3ERR_NOSPC \<and>
     Txn (fsstate nfs') = Txn (fsstate nfs) \<and> b \<notin> used (fs_Balloc (fsstate nfs')) \<and> blks (iobj (fsstate nfs') r) ! 8 = b \<and>
     fst (AllocNum G (fs_Balloc (fsstate nfs'))) = b \<and> \<not> file_at G used arange held (fsstate nfs') inum r"
proof -
  have l: "length (blks (iobj (fsstate nfs) r)) = 10" using f by (simp add: file_at_def file_inv_def ino_ok_def)
  from gojournal.WRITE_root_only [OF G f fh rt one n, of fuel how data] obtain nfs' where
      w: "NFSPROC3_WRITE G (Suc fuel) \<lparr>WRITE3args_File = fh3, WRITE3args_Offset = 32768, WRITE3args_Count = n,
       WRITE3args_Stable = how, WRITE3args_Data = data\<rparr> nfs = Inr (zero_WRITE3res\<lparr>WRITE3res_Status := NFS3ERR_NOSPC\<rparr>, nfs')"
    and b: "blks (iobj (fsstate nfs') r) ! 8 = b" and tx: "Txn (fsstate nfs') = Txn (fsstate nfs)"
    and u: "used (fs_Balloc (fsstate nfs')) = used (fs_Balloc (fsstate nfs))" "arange (fs_Balloc (fsstate nfs')) = arange (fs_Balloc (fsstate nfs))"
    using l by auto
  have bi: "balloc_inv G used arange (Atxn (FsTxn_Begin G (fsstate nfs)))" using f by (simp add: file_at_def file_inv_def)
  have nz: "b \<noteq> 0" using gojournal.only_nonzero [OF G bi] one by (simp add: FsTxn_Begin_def AllocTxn_Begin_def)
  have nu: "b \<notin> used (fs_Balloc (fsstate nfs'))" using u(1) one by auto
  have o: "arange (fs_Balloc (fsstate nfs')) - used (fs_Balloc (fsstate nfs')) = {b}" using u one by simp
  show ?thesis using w tx b nu gojournal.AllocNum_only [OF G o] gojournal.free_not_file [OF G nz b nu] by auto
qed

text \<open>The example file, with the last of 1542 blocks free.\<close>

definition ex_full_nfs :: "(u64 \<Rightarrow> nat \<Rightarrow> byte, bool list, u64 list, ref_disk) Nfs" where
  "ex_full_nfs = ex_file_nfs\<lparr>fsstate := (fsstate ex_file_nfs)\<lparr>fs_Balloc := replicate 1541 True @ [False]\<rparr>\<rparr>"

lemma ex_full_free: "ref_range (fs_Balloc (fsstate ex_full_nfs)) - ref_used (fs_Balloc (fsstate ex_full_nfs)) = {1541}"
proof -
  have "n \<in> ref_range (replicate 1541 True @ [False]) - ref_used (replicate 1541 True @ [False]) \<longleftrightarrow> n = 1541" for n
    by (auto simp: ref_range_def ref_used_def nth_append word_eq_iff_unsigned [where ?'a = nat])
  then show ?thesis by (auto simp: ex_full_nfs_def)
qed

lemma ex_full_at: "file_at ref_lib ref_used ref_range set (fsstate ex_full_nfs) 2 0"
proof -
  let ?st = "fsstate ex_file_nfs" and ?a = "Atxn (FsTxn_Begin ref_lib (fsstate ex_full_nfs))"
  have e: "Atxn (FsTxn_Begin ref_lib ?st) = ex_fs" by (simp add: FsTxn_Begin_def ex_file_nfs_def ex_cut_st_def ex_fs_def)
  have a: "?a = ex_fs\<lparr>Balloc := replicate 1541 True @ [False]\<rparr>"
    by (simp add: e [symmetric] ex_full_nfs_def FsTxn_Begin_def AllocTxn_Begin_def)
  have u: "ref_used (replicate 1541 True @ [False]) = {n. unat n < 1541}" by (auto simp: ref_used_def nth_append)
  have iv: "file_inv ref_lib ref_used ref_range ex_fs (iobj ?st 0)" using ex_file_at e by (simp add: file_at_def)
  have "balloc_inv ref_lib ref_used ref_range ?a"
    using ex_full_free unfolding a by (simp add: balloc_inv_def ex_full_nfs_def valid_bnum_def ex_fs_fields ex_fs_blk)
  then have "file_inv ref_lib ref_used ref_range ?a (iobj ?st 0)"
    using iv u ex_fs_used by (simp add: file_inv_def a valid_bnum_def)
  then show ?thesis using ex_file_at by (simp add: file_at_def ex_full_nfs_def fs_idle_def icache_ok_def cached_def)
qed

theorem write_nospc_dangles_witness:
  "\<exists>reply nfs'. NFSPROC3_WRITE ref_lib 1 \<lparr>WRITE3args_File = ex_handle2, WRITE3args_Offset = 8 * 4096, WRITE3args_Count = 1,
       WRITE3args_Stable = FILE_SYNC, WRITE3args_Data = [7]\<rparr> ex_full_nfs = Inr (reply, nfs') \<and>
     blks (iobj (fsstate nfs') 0) ! 8 = 1541 \<and> 1541 \<notin> ref_used (fs_Balloc (fsstate nfs'))"
proof -
  have h: "MakeFh ref_lib ex_handle2 = Inr \<lparr>Ino = 2, fh_Gen = Gen (iobj (fsstate ex_full_nfs) 0)\<rparr>"
    using ex_file_fh_ok by (simp add: ex_full_nfs_def)
  have r: "blks (iobj (fsstate ex_full_nfs) 0) ! 8 = 0" by (simp add: ex_full_nfs_def ex_file_nfs_def ex_file_def)
  from write_nospc_dangles [OF ref_gojournal ex_full_at h r ex_full_free, of 1 0 FILE_SYNC "[7]"] show ?thesis by auto
qed

end
