(* ===== verification/Xdr.thy ===== *)
theory Xdr
  imports NfsTypes
begin

text \<open>
  \<^verbatim>\<open>nfstypes/nfs_xdr.go\<close>, the methods \<^verbatim>\<open>Xdr\<close>: each of them encodes a value or decodes one into it, as the
  \<^verbatim>\<open>XdrState\<close> says. The method of the type \<open>T\<close> is \<open>Xdr_T\<close>: it takes the value that its receiver points to and
  the state, and returns both as the method leaves them. The primitives are those of the package \<^verbatim>\<open>xdr\<close> of
  go-rpcgen, which is not part of the repository: they are the fields of the record \<open>xdrlib\<close>, and what is
  assumed of them is a locale of \<open>XdrSpec\<close>. The methods of the types that are linked in a chain call
  themselves for the rest of the chain; the bound \<open>n\<close> is the depth of these calls.
\<close>

section \<open>The package xdr\<close>

record 'xs xdrlib =
  XdrU32 :: "'xs \<Rightarrow> u32 \<Rightarrow> u32 \<times> 'xs"
  XdrU64 :: "'xs \<Rightarrow> u64 \<Rightarrow> u64 \<times> 'xs"
  XdrBool :: "'xs \<Rightarrow> bool \<Rightarrow> bool \<times> 'xs"
  XdrString :: "'xs \<Rightarrow> int \<Rightarrow> byte list \<Rightarrow> byte list \<times> 'xs"
  XdrVarArray :: "'xs \<Rightarrow> int \<Rightarrow> byte list \<Rightarrow> byte list \<times> 'xs"
  XdrArray :: "'xs \<Rightarrow> byte list \<Rightarrow> byte list \<times> 'xs"
  Encoding :: "'xs \<Rightarrow> bool"
  Decoding :: "'xs \<Rightarrow> bool"
  EncodingSetSize :: "'xs \<Rightarrow> u32 \<Rightarrow> int \<Rightarrow> u32 \<times> 'xs"
  xdr_Error :: "'xs \<Rightarrow> bool"

section \<open>Constants\<close>

abbreviation NFS3_FHSIZE :: u32 where
  "NFS3_FHSIZE \<equiv> 64"

abbreviation MNTPATHLEN3 :: u32 where
  "MNTPATHLEN3 \<equiv> 1024"

abbreviation MNTNAMLEN3 :: u32 where
  "MNTNAMLEN3 \<equiv> 255"

abbreviation FHSIZE3 :: u32 where
  "FHSIZE3 \<equiv> 64"

section \<open>Statements of the methods\<close>

text \<open>
  A call of a primitive on a value; the same with a bound; a statement on the field of a struct; a sequence of
  statements; a \<^verbatim>\<open>switch\<close> on a value that the statements before it may have decoded; an optional pointer, which
  is the list of the chain it points to; and the first node of a chain followed by the rest of it.
\<close>

type_synonym ('t, 'xs) xdr = "'t \<Rightarrow> 'xs \<Rightarrow> ('t \<times> 'xs) res"

definition xprim :: "('xs \<Rightarrow> 't \<Rightarrow> 't \<times> 'xs) \<Rightarrow> ('t, 'xs) xdr" where
  "xprim f v xs = Inr (f xs v)"

definition xbytes :: "('xs \<Rightarrow> int \<Rightarrow> byte list \<Rightarrow> byte list \<times> 'xs) \<Rightarrow> int \<Rightarrow> (byte list, 'xs) xdr" where
  "xbytes f m v xs = Inr (f xs m v)"

definition xskip :: "('t, 'xs) xdr" where
  "xskip v xs = Inr (v, xs)"

definition xfield :: "('s \<Rightarrow> 't) \<Rightarrow> (('t \<Rightarrow> 't) \<Rightarrow> 's \<Rightarrow> 's) \<Rightarrow> ('t, 'xs) xdr \<Rightarrow> ('s, 'xs) xdr" where
  "xfield get upd f v xs = bnd (f (get v) xs) (\<lambda>(x, xs). Inr (upd (\<lambda>_. x) v, xs))"

primrec xseq :: "('t, 'xs) xdr list \<Rightarrow> ('t, 'xs) xdr" where
  "xseq [] = xskip"
| "xseq (f # fs) = (\<lambda>v xs. bnd (f v xs) (\<lambda>(v, xs). xseq fs v xs))"

definition xswitch :: "('t \<Rightarrow> ('t, 'xs) xdr) \<Rightarrow> ('t, 'xs) xdr" where
  "xswitch f v xs = f v v xs"

definition xopt :: "'xs xdrlib \<Rightarrow> 't \<Rightarrow> ('t list, 'xs) xdr \<Rightarrow> ('t list, 'xs) xdr" where
  "xopt X new node p xs =
     bnd (if Encoding X xs
          then let (opted, xs) = XdrBool X xs (p \<noteq> [])
               in if opted then node p xs else Inr (p, xs)
          else Inr (p, xs)) (\<lambda>(p, xs).
     if Decoding X xs
     then let (opted, xs) = XdrBool X xs False
          in if opted then node [new] xs else Inr (p, xs)
     else Inr (p, xs))"

definition xnode :: "('t, 'xs) xdr \<Rightarrow> ('t list, 'xs) xdr \<Rightarrow> ('t list, 'xs) xdr" where
  "xnode head rest p xs =
     (case p of
        [] \<Rightarrow> Inl (Panic ''nil pointer dereference'')
      | e # es \<Rightarrow>
          bnd (head e xs) (\<lambda>(e, xs).
          bnd (rest es xs) (\<lambda>(es, xs). Inr (e # es, xs))))"

text \<open>The loop of \<^verbatim>\<open>Mountres3_ok\<close> over the slice \<^verbatim>\<open>Auth_flavors\<close>.\<close>

primrec Xdr_uint32s_loop :: "'xs xdrlib \<Rightarrow> nat \<Rightarrow> u64 \<Rightarrow> (u32 list, 'xs) xdr" where
  "Xdr_uint32s_loop X 0 i v xs = Inr (v, xs)"
| "Xdr_uint32s_loop X (Suc k) i v xs =
     bnd (slice_get v i) (\<lambda>x.
     let (x, xs) = XdrU32 X xs x
     in bnd (slice_put v i x) (\<lambda>v. Xdr_uint32s_loop X k (i + 1) v xs))"

definition Xdr_uint32s :: "'xs xdrlib \<Rightarrow> (u32 list, 'xs) xdr" where
  "Xdr_uint32s X v xs =
     (let (arraysz, xs) = EncodingSetSize X xs 0 (int (length v));
          (arraysz, xs) = XdrU32 X xs arraysz;
          v = (if Decoding X xs then replicate (unat arraysz) 0 else v)
      in Xdr_uint32s_loop X (unat arraysz) 0 v xs)"

section \<open>The methods\<close>

definition Xdr_Uint64 :: "'xs xdrlib \<Rightarrow> (Uint64, 'xs) xdr" where
  "Xdr_Uint64 X = xprim (XdrU64 X)"

definition Xdr_Uint32 :: "'xs xdrlib \<Rightarrow> (Uint32, 'xs) xdr" where
  "Xdr_Uint32 X = xprim (XdrU32 X)"

definition Xdr_Filename3 :: "'xs xdrlib \<Rightarrow> (Filename3, 'xs) xdr" where
  "Xdr_Filename3 X = xbytes (XdrString X) (-1)"

definition Xdr_Nfspath3 :: "'xs xdrlib \<Rightarrow> (Nfspath3, 'xs) xdr" where
  "Xdr_Nfspath3 X = xbytes (XdrString X) (-1)"

definition Xdr_Fileid3 :: "'xs xdrlib \<Rightarrow> (Fileid3, 'xs) xdr" where
  "Xdr_Fileid3 X = Xdr_Uint64 X"

definition Xdr_Cookie3 :: "'xs xdrlib \<Rightarrow> (Cookie3, 'xs) xdr" where
  "Xdr_Cookie3 X = Xdr_Uint64 X"

definition Xdr_Cookieverf3 :: "'xs xdrlib \<Rightarrow> (Cookieverf3, 'xs) xdr" where
  "Xdr_Cookieverf3 X = xprim (XdrArray X)"

definition Xdr_Createverf3 :: "'xs xdrlib \<Rightarrow> (Createverf3, 'xs) xdr" where
  "Xdr_Createverf3 X = xprim (XdrArray X)"

definition Xdr_Writeverf3 :: "'xs xdrlib \<Rightarrow> (Writeverf3, 'xs) xdr" where
  "Xdr_Writeverf3 X = xprim (XdrArray X)"

definition Xdr_Uid3 :: "'xs xdrlib \<Rightarrow> (Uid3, 'xs) xdr" where
  "Xdr_Uid3 X = Xdr_Uint32 X"

definition Xdr_Gid3 :: "'xs xdrlib \<Rightarrow> (Gid3, 'xs) xdr" where
  "Xdr_Gid3 X = Xdr_Uint32 X"

definition Xdr_Size3 :: "'xs xdrlib \<Rightarrow> (Size3, 'xs) xdr" where
  "Xdr_Size3 X = Xdr_Uint64 X"

definition Xdr_Offset3 :: "'xs xdrlib \<Rightarrow> (Offset3, 'xs) xdr" where
  "Xdr_Offset3 X = Xdr_Uint64 X"

definition Xdr_Mode3 :: "'xs xdrlib \<Rightarrow> (Mode3, 'xs) xdr" where
  "Xdr_Mode3 X = Xdr_Uint32 X"

definition Xdr_Count3 :: "'xs xdrlib \<Rightarrow> (Count3, 'xs) xdr" where
  "Xdr_Count3 X = Xdr_Uint32 X"

definition Xdr_Nfsstat3 :: "'xs xdrlib \<Rightarrow> (Nfsstat3, 'xs) xdr" where
  "Xdr_Nfsstat3 X = xprim (XdrU32 X)"

definition Xdr_Ftype3 :: "'xs xdrlib \<Rightarrow> (Ftype3, 'xs) xdr" where
  "Xdr_Ftype3 X = xprim (XdrU32 X)"

definition Xdr_Specdata3 :: "'xs xdrlib \<Rightarrow> (Specdata3, 'xs) xdr" where
  "Xdr_Specdata3 X = xseq [
      xfield Specdata3_Specdata1 Specdata3_Specdata1_update (Xdr_Uint32 X),
      xfield Specdata3_Specdata2 Specdata3_Specdata2_update (Xdr_Uint32 X)]"

definition Xdr_Nfs_fh3 :: "'xs xdrlib \<Rightarrow> (Nfs_fh3, 'xs) xdr" where
  "Xdr_Nfs_fh3 X = xseq [
      xfield Nfs_fh3_Data Nfs_fh3_Data_update (xbytes (XdrVarArray X) (uint NFS3_FHSIZE))]"

definition Xdr_Nfstime3 :: "'xs xdrlib \<Rightarrow> (Nfstime3, 'xs) xdr" where
  "Xdr_Nfstime3 X = xseq [
      xfield Nfstime3_Seconds Nfstime3_Seconds_update (Xdr_Uint32 X),
      xfield Nfstime3_Nseconds Nfstime3_Nseconds_update (Xdr_Uint32 X)]"

definition Xdr_Fattr3 :: "'xs xdrlib \<Rightarrow> (Fattr3, 'xs) xdr" where
  "Xdr_Fattr3 X = xseq [
      xfield Fattr3_Ftype Fattr3_Ftype_update (Xdr_Ftype3 X),
      xfield Fattr3_Mode Fattr3_Mode_update (Xdr_Mode3 X),
      xfield Fattr3_Nlink Fattr3_Nlink_update (Xdr_Uint32 X),
      xfield Fattr3_Uid Fattr3_Uid_update (Xdr_Uid3 X),
      xfield Fattr3_Gid Fattr3_Gid_update (Xdr_Gid3 X),
      xfield Fattr3_Size Fattr3_Size_update (Xdr_Size3 X),
      xfield Fattr3_Used Fattr3_Used_update (Xdr_Size3 X),
      xfield Fattr3_Rdev Fattr3_Rdev_update (Xdr_Specdata3 X),
      xfield Fattr3_Fsid Fattr3_Fsid_update (Xdr_Uint64 X),
      xfield Fattr3_Fileid Fattr3_Fileid_update (Xdr_Fileid3 X),
      xfield Fattr3_Atime Fattr3_Atime_update (Xdr_Nfstime3 X),
      xfield Fattr3_Mtime Fattr3_Mtime_update (Xdr_Nfstime3 X),
      xfield Fattr3_Ctime Fattr3_Ctime_update (Xdr_Nfstime3 X)]"

definition Xdr_Post_op_attr :: "'xs xdrlib \<Rightarrow> (Post_op_attr, 'xs) xdr" where
  "Xdr_Post_op_attr X = xseq [
      xfield Post_op_attr_Attributes_follow Post_op_attr_Attributes_follow_update (xprim (XdrBool X)),
      xswitch (\<lambda>v.
        if Post_op_attr_Attributes_follow v then xfield Post_op_attr_Attributes Post_op_attr_Attributes_update (Xdr_Fattr3 X)
        else xskip)]"

definition Xdr_Wcc_attr :: "'xs xdrlib \<Rightarrow> (Wcc_attr, 'xs) xdr" where
  "Xdr_Wcc_attr X = xseq [
      xfield Wcc_attr_Size Wcc_attr_Size_update (Xdr_Size3 X),
      xfield Wcc_attr_Mtime Wcc_attr_Mtime_update (Xdr_Nfstime3 X),
      xfield Wcc_attr_Ctime Wcc_attr_Ctime_update (Xdr_Nfstime3 X)]"

definition Xdr_Pre_op_attr :: "'xs xdrlib \<Rightarrow> (Pre_op_attr, 'xs) xdr" where
  "Xdr_Pre_op_attr X = xseq [
      xfield Pre_op_attr_Attributes_follow Pre_op_attr_Attributes_follow_update (xprim (XdrBool X)),
      xswitch (\<lambda>v.
        if Pre_op_attr_Attributes_follow v then xfield Pre_op_attr_Attributes Pre_op_attr_Attributes_update (Xdr_Wcc_attr X)
        else xskip)]"

definition Xdr_Wcc_data :: "'xs xdrlib \<Rightarrow> (Wcc_data, 'xs) xdr" where
  "Xdr_Wcc_data X = xseq [
      xfield Wcc_data_Before Wcc_data_Before_update (Xdr_Pre_op_attr X),
      xfield Wcc_data_After Wcc_data_After_update (Xdr_Post_op_attr X)]"

definition Xdr_Post_op_fh3 :: "'xs xdrlib \<Rightarrow> (Post_op_fh3, 'xs) xdr" where
  "Xdr_Post_op_fh3 X = xseq [
      xfield Post_op_fh3_Handle_follows Post_op_fh3_Handle_follows_update (xprim (XdrBool X)),
      xswitch (\<lambda>v.
        if Post_op_fh3_Handle_follows v then xfield Post_op_fh3_Handle Post_op_fh3_Handle_update (Xdr_Nfs_fh3 X)
        else xskip)]"

definition Xdr_Time_how :: "'xs xdrlib \<Rightarrow> (Time_how, 'xs) xdr" where
  "Xdr_Time_how X = xprim (XdrU32 X)"

definition Xdr_Set_mode3 :: "'xs xdrlib \<Rightarrow> (Set_mode3, 'xs) xdr" where
  "Xdr_Set_mode3 X = xseq [
      xfield Set_mode3_Set_it Set_mode3_Set_it_update (xprim (XdrBool X)),
      xswitch (\<lambda>v.
        if Set_mode3_Set_it v then xfield Set_mode3_Mode Set_mode3_Mode_update (Xdr_Mode3 X)
        else xskip)]"

definition Xdr_Set_uid3 :: "'xs xdrlib \<Rightarrow> (Set_uid3, 'xs) xdr" where
  "Xdr_Set_uid3 X = xseq [
      xfield Set_uid3_Set_it Set_uid3_Set_it_update (xprim (XdrBool X)),
      xswitch (\<lambda>v.
        if Set_uid3_Set_it v then xfield Set_uid3_Uid Set_uid3_Uid_update (Xdr_Uid3 X)
        else xskip)]"

definition Xdr_Set_gid3 :: "'xs xdrlib \<Rightarrow> (Set_gid3, 'xs) xdr" where
  "Xdr_Set_gid3 X = xseq [
      xfield Set_gid3_Set_it Set_gid3_Set_it_update (xprim (XdrBool X)),
      xswitch (\<lambda>v.
        if Set_gid3_Set_it v then xfield Set_gid3_Gid Set_gid3_Gid_update (Xdr_Gid3 X)
        else xskip)]"

definition Xdr_Set_size3 :: "'xs xdrlib \<Rightarrow> (Set_size3, 'xs) xdr" where
  "Xdr_Set_size3 X = xseq [
      xfield Set_size3_Set_it Set_size3_Set_it_update (xprim (XdrBool X)),
      xswitch (\<lambda>v.
        if Set_size3_Set_it v then xfield Set_size3_Size Set_size3_Size_update (Xdr_Size3 X)
        else xskip)]"

definition Xdr_Set_atime :: "'xs xdrlib \<Rightarrow> (Set_atime, 'xs) xdr" where
  "Xdr_Set_atime X = xseq [
      xfield Set_atime_Set_it Set_atime_Set_it_update (Xdr_Time_how X),
      xswitch (\<lambda>v.
        if Set_atime_Set_it v = SET_TO_CLIENT_TIME then xfield Set_atime_Atime Set_atime_Atime_update (Xdr_Nfstime3 X)
        else xskip)]"

definition Xdr_Set_mtime :: "'xs xdrlib \<Rightarrow> (Set_mtime, 'xs) xdr" where
  "Xdr_Set_mtime X = xseq [
      xfield Set_mtime_Set_it Set_mtime_Set_it_update (Xdr_Time_how X),
      xswitch (\<lambda>v.
        if Set_mtime_Set_it v = SET_TO_CLIENT_TIME then xfield Set_mtime_Mtime Set_mtime_Mtime_update (Xdr_Nfstime3 X)
        else xskip)]"

definition Xdr_Sattr3 :: "'xs xdrlib \<Rightarrow> (Sattr3, 'xs) xdr" where
  "Xdr_Sattr3 X = xseq [
      xfield Sattr3_Mode Sattr3_Mode_update (Xdr_Set_mode3 X),
      xfield Sattr3_Uid Sattr3_Uid_update (Xdr_Set_uid3 X),
      xfield Sattr3_Gid Sattr3_Gid_update (Xdr_Set_gid3 X),
      xfield Sattr3_Size Sattr3_Size_update (Xdr_Set_size3 X),
      xfield Sattr3_Atime Sattr3_Atime_update (Xdr_Set_atime X),
      xfield Sattr3_Mtime Sattr3_Mtime_update (Xdr_Set_mtime X)]"

definition Xdr_Diropargs3 :: "'xs xdrlib \<Rightarrow> (Diropargs3, 'xs) xdr" where
  "Xdr_Diropargs3 X = xseq [
      xfield Diropargs3_Dir Diropargs3_Dir_update (Xdr_Nfs_fh3 X),
      xfield Diropargs3_Name Diropargs3_Name_update (Xdr_Filename3 X)]"

definition Xdr_GETATTR3args :: "'xs xdrlib \<Rightarrow> (GETATTR3args, 'xs) xdr" where
  "Xdr_GETATTR3args X = xseq [
      xfield GETATTR3args_Object GETATTR3args_Object_update (Xdr_Nfs_fh3 X)]"

definition Xdr_GETATTR3resok :: "'xs xdrlib \<Rightarrow> (GETATTR3resok, 'xs) xdr" where
  "Xdr_GETATTR3resok X = xseq [
      xfield GETATTR3resok_Obj_attributes GETATTR3resok_Obj_attributes_update (Xdr_Fattr3 X)]"

definition Xdr_GETATTR3res :: "'xs xdrlib \<Rightarrow> (GETATTR3res, 'xs) xdr" where
  "Xdr_GETATTR3res X = xseq [
      xfield GETATTR3res_Status GETATTR3res_Status_update (Xdr_Nfsstat3 X),
      xswitch (\<lambda>v.
        if GETATTR3res_Status v = NFS3_OK then xfield GETATTR3res_Resok GETATTR3res_Resok_update (Xdr_GETATTR3resok X)
        else xskip)]"

definition Xdr_Sattrguard3 :: "'xs xdrlib \<Rightarrow> (Sattrguard3, 'xs) xdr" where
  "Xdr_Sattrguard3 X = xseq [
      xfield Sattrguard3_Check Sattrguard3_Check_update (xprim (XdrBool X)),
      xswitch (\<lambda>v.
        if Sattrguard3_Check v then xfield Sattrguard3_Obj_ctime Sattrguard3_Obj_ctime_update (Xdr_Nfstime3 X)
        else xskip)]"

definition Xdr_SETATTR3args :: "'xs xdrlib \<Rightarrow> (SETATTR3args, 'xs) xdr" where
  "Xdr_SETATTR3args X = xseq [
      xfield SETATTR3args_Object SETATTR3args_Object_update (Xdr_Nfs_fh3 X),
      xfield SETATTR3args_New_attributes SETATTR3args_New_attributes_update (Xdr_Sattr3 X),
      xfield SETATTR3args_Guard SETATTR3args_Guard_update (Xdr_Sattrguard3 X)]"

definition Xdr_SETATTR3resok :: "'xs xdrlib \<Rightarrow> (SETATTR3resok, 'xs) xdr" where
  "Xdr_SETATTR3resok X = xseq [
      xfield SETATTR3resok_Obj_wcc SETATTR3resok_Obj_wcc_update (Xdr_Wcc_data X)]"

definition Xdr_SETATTR3resfail :: "'xs xdrlib \<Rightarrow> (SETATTR3resfail, 'xs) xdr" where
  "Xdr_SETATTR3resfail X = xseq [
      xfield SETATTR3resfail_Obj_wcc SETATTR3resfail_Obj_wcc_update (Xdr_Wcc_data X)]"

definition Xdr_SETATTR3res :: "'xs xdrlib \<Rightarrow> (SETATTR3res, 'xs) xdr" where
  "Xdr_SETATTR3res X = xseq [
      xfield SETATTR3res_Status SETATTR3res_Status_update (Xdr_Nfsstat3 X),
      xswitch (\<lambda>v.
        if SETATTR3res_Status v = NFS3_OK then xfield SETATTR3res_Resok SETATTR3res_Resok_update (Xdr_SETATTR3resok X)
        else xfield SETATTR3res_Resfail SETATTR3res_Resfail_update (Xdr_SETATTR3resfail X))]"

definition Xdr_LOOKUP3args :: "'xs xdrlib \<Rightarrow> (LOOKUP3args, 'xs) xdr" where
  "Xdr_LOOKUP3args X = xseq [
      xfield LOOKUP3args_What LOOKUP3args_What_update (Xdr_Diropargs3 X)]"

definition Xdr_LOOKUP3resok :: "'xs xdrlib \<Rightarrow> (LOOKUP3resok, 'xs) xdr" where
  "Xdr_LOOKUP3resok X = xseq [
      xfield LOOKUP3resok_Object LOOKUP3resok_Object_update (Xdr_Nfs_fh3 X),
      xfield LOOKUP3resok_Obj_attributes LOOKUP3resok_Obj_attributes_update (Xdr_Post_op_attr X),
      xfield LOOKUP3resok_Dir_attributes LOOKUP3resok_Dir_attributes_update (Xdr_Post_op_attr X)]"

definition Xdr_LOOKUP3resfail :: "'xs xdrlib \<Rightarrow> (LOOKUP3resfail, 'xs) xdr" where
  "Xdr_LOOKUP3resfail X = xseq [
      xfield LOOKUP3resfail_Dir_attributes LOOKUP3resfail_Dir_attributes_update (Xdr_Post_op_attr X)]"

definition Xdr_LOOKUP3res :: "'xs xdrlib \<Rightarrow> (LOOKUP3res, 'xs) xdr" where
  "Xdr_LOOKUP3res X = xseq [
      xfield LOOKUP3res_Status LOOKUP3res_Status_update (Xdr_Nfsstat3 X),
      xswitch (\<lambda>v.
        if LOOKUP3res_Status v = NFS3_OK then xfield LOOKUP3res_Resok LOOKUP3res_Resok_update (Xdr_LOOKUP3resok X)
        else xfield LOOKUP3res_Resfail LOOKUP3res_Resfail_update (Xdr_LOOKUP3resfail X))]"

definition Xdr_ACCESS3args :: "'xs xdrlib \<Rightarrow> (ACCESS3args, 'xs) xdr" where
  "Xdr_ACCESS3args X = xseq [
      xfield ACCESS3args_Object ACCESS3args_Object_update (Xdr_Nfs_fh3 X),
      xfield ACCESS3args_Access ACCESS3args_Access_update (Xdr_Uint32 X)]"

definition Xdr_ACCESS3resok :: "'xs xdrlib \<Rightarrow> (ACCESS3resok, 'xs) xdr" where
  "Xdr_ACCESS3resok X = xseq [
      xfield ACCESS3resok_Obj_attributes ACCESS3resok_Obj_attributes_update (Xdr_Post_op_attr X),
      xfield ACCESS3resok_Access ACCESS3resok_Access_update (Xdr_Uint32 X)]"

definition Xdr_ACCESS3resfail :: "'xs xdrlib \<Rightarrow> (ACCESS3resfail, 'xs) xdr" where
  "Xdr_ACCESS3resfail X = xseq [
      xfield ACCESS3resfail_Obj_attributes ACCESS3resfail_Obj_attributes_update (Xdr_Post_op_attr X)]"

definition Xdr_ACCESS3res :: "'xs xdrlib \<Rightarrow> (ACCESS3res, 'xs) xdr" where
  "Xdr_ACCESS3res X = xseq [
      xfield ACCESS3res_Status ACCESS3res_Status_update (Xdr_Nfsstat3 X),
      xswitch (\<lambda>v.
        if ACCESS3res_Status v = NFS3_OK then xfield ACCESS3res_Resok ACCESS3res_Resok_update (Xdr_ACCESS3resok X)
        else xfield ACCESS3res_Resfail ACCESS3res_Resfail_update (Xdr_ACCESS3resfail X))]"

definition Xdr_READLINK3args :: "'xs xdrlib \<Rightarrow> (READLINK3args, 'xs) xdr" where
  "Xdr_READLINK3args X = xseq [
      xfield READLINK3args_Symlink READLINK3args_Symlink_update (Xdr_Nfs_fh3 X)]"

definition Xdr_READLINK3resok :: "'xs xdrlib \<Rightarrow> (READLINK3resok, 'xs) xdr" where
  "Xdr_READLINK3resok X = xseq [
      xfield READLINK3resok_Symlink_attributes READLINK3resok_Symlink_attributes_update (Xdr_Post_op_attr X),
      xfield READLINK3resok_Data READLINK3resok_Data_update (Xdr_Nfspath3 X)]"

definition Xdr_READLINK3resfail :: "'xs xdrlib \<Rightarrow> (READLINK3resfail, 'xs) xdr" where
  "Xdr_READLINK3resfail X = xseq [
      xfield READLINK3resfail_Symlink_attributes READLINK3resfail_Symlink_attributes_update (Xdr_Post_op_attr X)]"

definition Xdr_READLINK3res :: "'xs xdrlib \<Rightarrow> (READLINK3res, 'xs) xdr" where
  "Xdr_READLINK3res X = xseq [
      xfield READLINK3res_Status READLINK3res_Status_update (Xdr_Nfsstat3 X),
      xswitch (\<lambda>v.
        if READLINK3res_Status v = NFS3_OK then xfield READLINK3res_Resok READLINK3res_Resok_update (Xdr_READLINK3resok X)
        else xfield READLINK3res_Resfail READLINK3res_Resfail_update (Xdr_READLINK3resfail X))]"

definition Xdr_READ3args :: "'xs xdrlib \<Rightarrow> (READ3args, 'xs) xdr" where
  "Xdr_READ3args X = xseq [
      xfield READ3args_File READ3args_File_update (Xdr_Nfs_fh3 X),
      xfield READ3args_Offset READ3args_Offset_update (Xdr_Offset3 X),
      xfield READ3args_Count READ3args_Count_update (Xdr_Count3 X)]"

definition Xdr_READ3resok :: "'xs xdrlib \<Rightarrow> (READ3resok, 'xs) xdr" where
  "Xdr_READ3resok X = xseq [
      xfield READ3resok_File_attributes READ3resok_File_attributes_update (Xdr_Post_op_attr X),
      xfield READ3resok_Count READ3resok_Count_update (Xdr_Count3 X),
      xfield READ3resok_Eof READ3resok_Eof_update (xprim (XdrBool X)),
      xfield READ3resok_Data READ3resok_Data_update (xbytes (XdrVarArray X) (-1))]"

definition Xdr_READ3resfail :: "'xs xdrlib \<Rightarrow> (READ3resfail, 'xs) xdr" where
  "Xdr_READ3resfail X = xseq [
      xfield READ3resfail_File_attributes READ3resfail_File_attributes_update (Xdr_Post_op_attr X)]"

definition Xdr_READ3res :: "'xs xdrlib \<Rightarrow> (READ3res, 'xs) xdr" where
  "Xdr_READ3res X = xseq [
      xfield READ3res_Status READ3res_Status_update (Xdr_Nfsstat3 X),
      xswitch (\<lambda>v.
        if READ3res_Status v = NFS3_OK then xfield READ3res_Resok READ3res_Resok_update (Xdr_READ3resok X)
        else xfield READ3res_Resfail READ3res_Resfail_update (Xdr_READ3resfail X))]"

definition Xdr_Stable_how :: "'xs xdrlib \<Rightarrow> (Stable_how, 'xs) xdr" where
  "Xdr_Stable_how X = xprim (XdrU32 X)"

definition Xdr_WRITE3args :: "'xs xdrlib \<Rightarrow> (WRITE3args, 'xs) xdr" where
  "Xdr_WRITE3args X = xseq [
      xfield WRITE3args_File WRITE3args_File_update (Xdr_Nfs_fh3 X),
      xfield WRITE3args_Offset WRITE3args_Offset_update (Xdr_Offset3 X),
      xfield WRITE3args_Count WRITE3args_Count_update (Xdr_Count3 X),
      xfield WRITE3args_Stable WRITE3args_Stable_update (Xdr_Stable_how X),
      xfield WRITE3args_Data WRITE3args_Data_update (xbytes (XdrVarArray X) (-1))]"

definition Xdr_WRITE3resok :: "'xs xdrlib \<Rightarrow> (WRITE3resok, 'xs) xdr" where
  "Xdr_WRITE3resok X = xseq [
      xfield WRITE3resok_File_wcc WRITE3resok_File_wcc_update (Xdr_Wcc_data X),
      xfield WRITE3resok_Count WRITE3resok_Count_update (Xdr_Count3 X),
      xfield WRITE3resok_Committed WRITE3resok_Committed_update (Xdr_Stable_how X),
      xfield WRITE3resok_Verf WRITE3resok_Verf_update (Xdr_Writeverf3 X)]"

definition Xdr_WRITE3resfail :: "'xs xdrlib \<Rightarrow> (WRITE3resfail, 'xs) xdr" where
  "Xdr_WRITE3resfail X = xseq [
      xfield WRITE3resfail_File_wcc WRITE3resfail_File_wcc_update (Xdr_Wcc_data X)]"

definition Xdr_WRITE3res :: "'xs xdrlib \<Rightarrow> (WRITE3res, 'xs) xdr" where
  "Xdr_WRITE3res X = xseq [
      xfield WRITE3res_Status WRITE3res_Status_update (Xdr_Nfsstat3 X),
      xswitch (\<lambda>v.
        if WRITE3res_Status v = NFS3_OK then xfield WRITE3res_Resok WRITE3res_Resok_update (Xdr_WRITE3resok X)
        else xfield WRITE3res_Resfail WRITE3res_Resfail_update (Xdr_WRITE3resfail X))]"

definition Xdr_Createmode3 :: "'xs xdrlib \<Rightarrow> (Createmode3, 'xs) xdr" where
  "Xdr_Createmode3 X = xprim (XdrU32 X)"

definition Xdr_Createhow3 :: "'xs xdrlib \<Rightarrow> (Createhow3, 'xs) xdr" where
  "Xdr_Createhow3 X = xseq [
      xfield Createhow3_Mode Createhow3_Mode_update (Xdr_Createmode3 X),
      xswitch (\<lambda>v.
        if Createhow3_Mode v = UNCHECKED \<or> Createhow3_Mode v = GUARDED then xfield Createhow3_Obj_attributes Createhow3_Obj_attributes_update (Xdr_Sattr3 X)
        else if Createhow3_Mode v = EXCLUSIVE then xfield Createhow3_Verf Createhow3_Verf_update (Xdr_Createverf3 X)
        else xskip)]"

definition Xdr_CREATE3args :: "'xs xdrlib \<Rightarrow> (CREATE3args, 'xs) xdr" where
  "Xdr_CREATE3args X = xseq [
      xfield CREATE3args_Where CREATE3args_Where_update (Xdr_Diropargs3 X),
      xfield CREATE3args_How CREATE3args_How_update (Xdr_Createhow3 X)]"

definition Xdr_CREATE3resok :: "'xs xdrlib \<Rightarrow> (CREATE3resok, 'xs) xdr" where
  "Xdr_CREATE3resok X = xseq [
      xfield CREATE3resok_Obj CREATE3resok_Obj_update (Xdr_Post_op_fh3 X),
      xfield CREATE3resok_Obj_attributes CREATE3resok_Obj_attributes_update (Xdr_Post_op_attr X),
      xfield CREATE3resok_Dir_wcc CREATE3resok_Dir_wcc_update (Xdr_Wcc_data X)]"

definition Xdr_CREATE3resfail :: "'xs xdrlib \<Rightarrow> (CREATE3resfail, 'xs) xdr" where
  "Xdr_CREATE3resfail X = xseq [
      xfield CREATE3resfail_Dir_wcc CREATE3resfail_Dir_wcc_update (Xdr_Wcc_data X)]"

definition Xdr_CREATE3res :: "'xs xdrlib \<Rightarrow> (CREATE3res, 'xs) xdr" where
  "Xdr_CREATE3res X = xseq [
      xfield CREATE3res_Status CREATE3res_Status_update (Xdr_Nfsstat3 X),
      xswitch (\<lambda>v.
        if CREATE3res_Status v = NFS3_OK then xfield CREATE3res_Resok CREATE3res_Resok_update (Xdr_CREATE3resok X)
        else xfield CREATE3res_Resfail CREATE3res_Resfail_update (Xdr_CREATE3resfail X))]"

definition Xdr_MKDIR3args :: "'xs xdrlib \<Rightarrow> (MKDIR3args, 'xs) xdr" where
  "Xdr_MKDIR3args X = xseq [
      xfield MKDIR3args_Where MKDIR3args_Where_update (Xdr_Diropargs3 X),
      xfield MKDIR3args_Attributes MKDIR3args_Attributes_update (Xdr_Sattr3 X)]"

definition Xdr_MKDIR3resok :: "'xs xdrlib \<Rightarrow> (MKDIR3resok, 'xs) xdr" where
  "Xdr_MKDIR3resok X = xseq [
      xfield MKDIR3resok_Obj MKDIR3resok_Obj_update (Xdr_Post_op_fh3 X),
      xfield MKDIR3resok_Obj_attributes MKDIR3resok_Obj_attributes_update (Xdr_Post_op_attr X),
      xfield MKDIR3resok_Dir_wcc MKDIR3resok_Dir_wcc_update (Xdr_Wcc_data X)]"

definition Xdr_MKDIR3resfail :: "'xs xdrlib \<Rightarrow> (MKDIR3resfail, 'xs) xdr" where
  "Xdr_MKDIR3resfail X = xseq [
      xfield MKDIR3resfail_Dir_wcc MKDIR3resfail_Dir_wcc_update (Xdr_Wcc_data X)]"

definition Xdr_MKDIR3res :: "'xs xdrlib \<Rightarrow> (MKDIR3res, 'xs) xdr" where
  "Xdr_MKDIR3res X = xseq [
      xfield MKDIR3res_Status MKDIR3res_Status_update (Xdr_Nfsstat3 X),
      xswitch (\<lambda>v.
        if MKDIR3res_Status v = NFS3_OK then xfield MKDIR3res_Resok MKDIR3res_Resok_update (Xdr_MKDIR3resok X)
        else xfield MKDIR3res_Resfail MKDIR3res_Resfail_update (Xdr_MKDIR3resfail X))]"

definition Xdr_Symlinkdata3 :: "'xs xdrlib \<Rightarrow> (Symlinkdata3, 'xs) xdr" where
  "Xdr_Symlinkdata3 X = xseq [
      xfield Symlinkdata3_Symlink_attributes Symlinkdata3_Symlink_attributes_update (Xdr_Sattr3 X),
      xfield Symlinkdata3_Symlink_data Symlinkdata3_Symlink_data_update (Xdr_Nfspath3 X)]"

definition Xdr_SYMLINK3args :: "'xs xdrlib \<Rightarrow> (SYMLINK3args, 'xs) xdr" where
  "Xdr_SYMLINK3args X = xseq [
      xfield SYMLINK3args_Where SYMLINK3args_Where_update (Xdr_Diropargs3 X),
      xfield SYMLINK3args_Symlink SYMLINK3args_Symlink_update (Xdr_Symlinkdata3 X)]"

definition Xdr_SYMLINK3resok :: "'xs xdrlib \<Rightarrow> (SYMLINK3resok, 'xs) xdr" where
  "Xdr_SYMLINK3resok X = xseq [
      xfield SYMLINK3resok_Obj SYMLINK3resok_Obj_update (Xdr_Post_op_fh3 X),
      xfield SYMLINK3resok_Obj_attributes SYMLINK3resok_Obj_attributes_update (Xdr_Post_op_attr X),
      xfield SYMLINK3resok_Dir_wcc SYMLINK3resok_Dir_wcc_update (Xdr_Wcc_data X)]"

definition Xdr_SYMLINK3resfail :: "'xs xdrlib \<Rightarrow> (SYMLINK3resfail, 'xs) xdr" where
  "Xdr_SYMLINK3resfail X = xseq [
      xfield SYMLINK3resfail_Dir_wcc SYMLINK3resfail_Dir_wcc_update (Xdr_Wcc_data X)]"

definition Xdr_SYMLINK3res :: "'xs xdrlib \<Rightarrow> (SYMLINK3res, 'xs) xdr" where
  "Xdr_SYMLINK3res X = xseq [
      xfield SYMLINK3res_Status SYMLINK3res_Status_update (Xdr_Nfsstat3 X),
      xswitch (\<lambda>v.
        if SYMLINK3res_Status v = NFS3_OK then xfield SYMLINK3res_Resok SYMLINK3res_Resok_update (Xdr_SYMLINK3resok X)
        else xfield SYMLINK3res_Resfail SYMLINK3res_Resfail_update (Xdr_SYMLINK3resfail X))]"

definition Xdr_Devicedata3 :: "'xs xdrlib \<Rightarrow> (Devicedata3, 'xs) xdr" where
  "Xdr_Devicedata3 X = xseq [
      xfield Devicedata3_Dev_attributes Devicedata3_Dev_attributes_update (Xdr_Sattr3 X),
      xfield Devicedata3_Spec Devicedata3_Spec_update (Xdr_Specdata3 X)]"

definition Xdr_Mknoddata3 :: "'xs xdrlib \<Rightarrow> (Mknoddata3, 'xs) xdr" where
  "Xdr_Mknoddata3 X = xseq [
      xfield Mknoddata3_Ftype Mknoddata3_Ftype_update (Xdr_Ftype3 X),
      xswitch (\<lambda>v.
        if Mknoddata3_Ftype v = NF3CHR \<or> Mknoddata3_Ftype v = NF3BLK then xfield Mknoddata3_Device Mknoddata3_Device_update (Xdr_Devicedata3 X)
        else if Mknoddata3_Ftype v = NF3SOCK \<or> Mknoddata3_Ftype v = NF3FIFO then xfield Mknoddata3_Pipe_attributes Mknoddata3_Pipe_attributes_update (Xdr_Sattr3 X)
        else xskip)]"

definition Xdr_MKNOD3args :: "'xs xdrlib \<Rightarrow> (MKNOD3args, 'xs) xdr" where
  "Xdr_MKNOD3args X = xseq [
      xfield MKNOD3args_Where MKNOD3args_Where_update (Xdr_Diropargs3 X),
      xfield MKNOD3args_What MKNOD3args_What_update (Xdr_Mknoddata3 X)]"

definition Xdr_MKNOD3resok :: "'xs xdrlib \<Rightarrow> (MKNOD3resok, 'xs) xdr" where
  "Xdr_MKNOD3resok X = xseq [
      xfield MKNOD3resok_Obj MKNOD3resok_Obj_update (Xdr_Post_op_fh3 X),
      xfield MKNOD3resok_Obj_attributes MKNOD3resok_Obj_attributes_update (Xdr_Post_op_attr X),
      xfield MKNOD3resok_Dir_wcc MKNOD3resok_Dir_wcc_update (Xdr_Wcc_data X)]"

definition Xdr_MKNOD3resfail :: "'xs xdrlib \<Rightarrow> (MKNOD3resfail, 'xs) xdr" where
  "Xdr_MKNOD3resfail X = xseq [
      xfield MKNOD3resfail_Dir_wcc MKNOD3resfail_Dir_wcc_update (Xdr_Wcc_data X)]"

definition Xdr_MKNOD3res :: "'xs xdrlib \<Rightarrow> (MKNOD3res, 'xs) xdr" where
  "Xdr_MKNOD3res X = xseq [
      xfield MKNOD3res_Status MKNOD3res_Status_update (Xdr_Nfsstat3 X),
      xswitch (\<lambda>v.
        if MKNOD3res_Status v = NFS3_OK then xfield MKNOD3res_Resok MKNOD3res_Resok_update (Xdr_MKNOD3resok X)
        else xfield MKNOD3res_Resfail MKNOD3res_Resfail_update (Xdr_MKNOD3resfail X))]"

definition Xdr_REMOVE3args :: "'xs xdrlib \<Rightarrow> (REMOVE3args, 'xs) xdr" where
  "Xdr_REMOVE3args X = xseq [
      xfield REMOVE3args_Object REMOVE3args_Object_update (Xdr_Diropargs3 X)]"

definition Xdr_REMOVE3resok :: "'xs xdrlib \<Rightarrow> (REMOVE3resok, 'xs) xdr" where
  "Xdr_REMOVE3resok X = xseq [
      xfield REMOVE3resok_Dir_wcc REMOVE3resok_Dir_wcc_update (Xdr_Wcc_data X)]"

definition Xdr_REMOVE3resfail :: "'xs xdrlib \<Rightarrow> (REMOVE3resfail, 'xs) xdr" where
  "Xdr_REMOVE3resfail X = xseq [
      xfield REMOVE3resfail_Dir_wcc REMOVE3resfail_Dir_wcc_update (Xdr_Wcc_data X)]"

definition Xdr_REMOVE3res :: "'xs xdrlib \<Rightarrow> (REMOVE3res, 'xs) xdr" where
  "Xdr_REMOVE3res X = xseq [
      xfield REMOVE3res_Status REMOVE3res_Status_update (Xdr_Nfsstat3 X),
      xswitch (\<lambda>v.
        if REMOVE3res_Status v = NFS3_OK then xfield REMOVE3res_Resok REMOVE3res_Resok_update (Xdr_REMOVE3resok X)
        else xfield REMOVE3res_Resfail REMOVE3res_Resfail_update (Xdr_REMOVE3resfail X))]"

definition Xdr_RMDIR3args :: "'xs xdrlib \<Rightarrow> (RMDIR3args, 'xs) xdr" where
  "Xdr_RMDIR3args X = xseq [
      xfield RMDIR3args_Object RMDIR3args_Object_update (Xdr_Diropargs3 X)]"

definition Xdr_RMDIR3resok :: "'xs xdrlib \<Rightarrow> (RMDIR3resok, 'xs) xdr" where
  "Xdr_RMDIR3resok X = xseq [
      xfield RMDIR3resok_Dir_wcc RMDIR3resok_Dir_wcc_update (Xdr_Wcc_data X)]"

definition Xdr_RMDIR3resfail :: "'xs xdrlib \<Rightarrow> (RMDIR3resfail, 'xs) xdr" where
  "Xdr_RMDIR3resfail X = xseq [
      xfield RMDIR3resfail_Dir_wcc RMDIR3resfail_Dir_wcc_update (Xdr_Wcc_data X)]"

definition Xdr_RMDIR3res :: "'xs xdrlib \<Rightarrow> (RMDIR3res, 'xs) xdr" where
  "Xdr_RMDIR3res X = xseq [
      xfield RMDIR3res_Status RMDIR3res_Status_update (Xdr_Nfsstat3 X),
      xswitch (\<lambda>v.
        if RMDIR3res_Status v = NFS3_OK then xfield RMDIR3res_Resok RMDIR3res_Resok_update (Xdr_RMDIR3resok X)
        else xfield RMDIR3res_Resfail RMDIR3res_Resfail_update (Xdr_RMDIR3resfail X))]"

definition Xdr_RENAME3args :: "'xs xdrlib \<Rightarrow> (RENAME3args, 'xs) xdr" where
  "Xdr_RENAME3args X = xseq [
      xfield RENAME3args_From RENAME3args_From_update (Xdr_Diropargs3 X),
      xfield RENAME3args_To RENAME3args_To_update (Xdr_Diropargs3 X)]"

definition Xdr_RENAME3resok :: "'xs xdrlib \<Rightarrow> (RENAME3resok, 'xs) xdr" where
  "Xdr_RENAME3resok X = xseq [
      xfield RENAME3resok_Fromdir_wcc RENAME3resok_Fromdir_wcc_update (Xdr_Wcc_data X),
      xfield RENAME3resok_Todir_wcc RENAME3resok_Todir_wcc_update (Xdr_Wcc_data X)]"

definition Xdr_RENAME3resfail :: "'xs xdrlib \<Rightarrow> (RENAME3resfail, 'xs) xdr" where
  "Xdr_RENAME3resfail X = xseq [
      xfield RENAME3resfail_Fromdir_wcc RENAME3resfail_Fromdir_wcc_update (Xdr_Wcc_data X),
      xfield RENAME3resfail_Todir_wcc RENAME3resfail_Todir_wcc_update (Xdr_Wcc_data X)]"

definition Xdr_RENAME3res :: "'xs xdrlib \<Rightarrow> (RENAME3res, 'xs) xdr" where
  "Xdr_RENAME3res X = xseq [
      xfield RENAME3res_Status RENAME3res_Status_update (Xdr_Nfsstat3 X),
      xswitch (\<lambda>v.
        if RENAME3res_Status v = NFS3_OK then xfield RENAME3res_Resok RENAME3res_Resok_update (Xdr_RENAME3resok X)
        else xfield RENAME3res_Resfail RENAME3res_Resfail_update (Xdr_RENAME3resfail X))]"

definition Xdr_LINK3args :: "'xs xdrlib \<Rightarrow> (LINK3args, 'xs) xdr" where
  "Xdr_LINK3args X = xseq [
      xfield LINK3args_File LINK3args_File_update (Xdr_Nfs_fh3 X),
      xfield LINK3args_Link LINK3args_Link_update (Xdr_Diropargs3 X)]"

definition Xdr_LINK3resok :: "'xs xdrlib \<Rightarrow> (LINK3resok, 'xs) xdr" where
  "Xdr_LINK3resok X = xseq [
      xfield LINK3resok_File_attributes LINK3resok_File_attributes_update (Xdr_Post_op_attr X),
      xfield LINK3resok_Linkdir_wcc LINK3resok_Linkdir_wcc_update (Xdr_Wcc_data X)]"

definition Xdr_LINK3resfail :: "'xs xdrlib \<Rightarrow> (LINK3resfail, 'xs) xdr" where
  "Xdr_LINK3resfail X = xseq [
      xfield LINK3resfail_File_attributes LINK3resfail_File_attributes_update (Xdr_Post_op_attr X),
      xfield LINK3resfail_Linkdir_wcc LINK3resfail_Linkdir_wcc_update (Xdr_Wcc_data X)]"

definition Xdr_LINK3res :: "'xs xdrlib \<Rightarrow> (LINK3res, 'xs) xdr" where
  "Xdr_LINK3res X = xseq [
      xfield LINK3res_Status LINK3res_Status_update (Xdr_Nfsstat3 X),
      xswitch (\<lambda>v.
        if LINK3res_Status v = NFS3_OK then xfield LINK3res_Resok LINK3res_Resok_update (Xdr_LINK3resok X)
        else xfield LINK3res_Resfail LINK3res_Resfail_update (Xdr_LINK3resfail X))]"

definition Xdr_READDIR3args :: "'xs xdrlib \<Rightarrow> (READDIR3args, 'xs) xdr" where
  "Xdr_READDIR3args X = xseq [
      xfield READDIR3args_Dir READDIR3args_Dir_update (Xdr_Nfs_fh3 X),
      xfield READDIR3args_Cookie READDIR3args_Cookie_update (Xdr_Cookie3 X),
      xfield READDIR3args_Cookieverf READDIR3args_Cookieverf_update (Xdr_Cookieverf3 X),
      xfield READDIR3args_Count READDIR3args_Count_update (Xdr_Count3 X)]"

primrec Xdr_Entry3 :: "'xs xdrlib \<Rightarrow> nat \<Rightarrow> (Entry3 list, 'xs) xdr" where
  "Xdr_Entry3 X 0 = (\<lambda>p xs. Inl NoFuel)"
| "Xdr_Entry3 X (Suc n) = xnode (xseq [
      xfield Entry3_Fileid Entry3_Fileid_update (Xdr_Fileid3 X),
      xfield Entry3_Name Entry3_Name_update (Xdr_Filename3 X),
      xfield Entry3_Cookie Entry3_Cookie_update (Xdr_Cookie3 X)])
     (xopt X zero_Entry3 (Xdr_Entry3 X n))"

definition Xdr_Dirlist3 :: "'xs xdrlib \<Rightarrow> nat \<Rightarrow> (Dirlist3, 'xs) xdr" where
  "Xdr_Dirlist3 X n = xseq [
      xfield Dirlist3_Entries Dirlist3_Entries_update (xopt X zero_Entry3 (Xdr_Entry3 X n)),
      xfield Dirlist3_Eof Dirlist3_Eof_update (xprim (XdrBool X))]"

definition Xdr_READDIR3resok :: "'xs xdrlib \<Rightarrow> nat \<Rightarrow> (READDIR3resok, 'xs) xdr" where
  "Xdr_READDIR3resok X n = xseq [
      xfield READDIR3resok_Dir_attributes READDIR3resok_Dir_attributes_update (Xdr_Post_op_attr X),
      xfield READDIR3resok_Cookieverf READDIR3resok_Cookieverf_update (Xdr_Cookieverf3 X),
      xfield READDIR3resok_Reply READDIR3resok_Reply_update (Xdr_Dirlist3 X n)]"

definition Xdr_READDIR3resfail :: "'xs xdrlib \<Rightarrow> (READDIR3resfail, 'xs) xdr" where
  "Xdr_READDIR3resfail X = xseq [
      xfield READDIR3resfail_Dir_attributes READDIR3resfail_Dir_attributes_update (Xdr_Post_op_attr X)]"

definition Xdr_READDIR3res :: "'xs xdrlib \<Rightarrow> nat \<Rightarrow> (READDIR3res, 'xs) xdr" where
  "Xdr_READDIR3res X n = xseq [
      xfield READDIR3res_Status READDIR3res_Status_update (Xdr_Nfsstat3 X),
      xswitch (\<lambda>v.
        if READDIR3res_Status v = NFS3_OK then xfield READDIR3res_Resok READDIR3res_Resok_update (Xdr_READDIR3resok X n)
        else xfield READDIR3res_Resfail READDIR3res_Resfail_update (Xdr_READDIR3resfail X))]"

definition Xdr_READDIRPLUS3args :: "'xs xdrlib \<Rightarrow> (READDIRPLUS3args, 'xs) xdr" where
  "Xdr_READDIRPLUS3args X = xseq [
      xfield READDIRPLUS3args_Dir READDIRPLUS3args_Dir_update (Xdr_Nfs_fh3 X),
      xfield READDIRPLUS3args_Cookie READDIRPLUS3args_Cookie_update (Xdr_Cookie3 X),
      xfield READDIRPLUS3args_Cookieverf READDIRPLUS3args_Cookieverf_update (Xdr_Cookieverf3 X),
      xfield READDIRPLUS3args_Dircount READDIRPLUS3args_Dircount_update (Xdr_Count3 X),
      xfield READDIRPLUS3args_Maxcount READDIRPLUS3args_Maxcount_update (Xdr_Count3 X)]"

primrec Xdr_Entryplus3 :: "'xs xdrlib \<Rightarrow> nat \<Rightarrow> (Entryplus3 list, 'xs) xdr" where
  "Xdr_Entryplus3 X 0 = (\<lambda>p xs. Inl NoFuel)"
| "Xdr_Entryplus3 X (Suc n) = xnode (xseq [
      xfield Entryplus3_Fileid Entryplus3_Fileid_update (Xdr_Fileid3 X),
      xfield Entryplus3_Name Entryplus3_Name_update (Xdr_Filename3 X),
      xfield Entryplus3_Cookie Entryplus3_Cookie_update (Xdr_Cookie3 X),
      xfield Entryplus3_Name_attributes Entryplus3_Name_attributes_update (Xdr_Post_op_attr X),
      xfield Entryplus3_Name_handle Entryplus3_Name_handle_update (Xdr_Post_op_fh3 X)])
     (xopt X zero_Entryplus3 (Xdr_Entryplus3 X n))"

definition Xdr_Dirlistplus3 :: "'xs xdrlib \<Rightarrow> nat \<Rightarrow> (Dirlistplus3, 'xs) xdr" where
  "Xdr_Dirlistplus3 X n = xseq [
      xfield Dirlistplus3_Entries Dirlistplus3_Entries_update (xopt X zero_Entryplus3 (Xdr_Entryplus3 X n)),
      xfield Dirlistplus3_Eof Dirlistplus3_Eof_update (xprim (XdrBool X))]"

definition Xdr_READDIRPLUS3resok :: "'xs xdrlib \<Rightarrow> nat \<Rightarrow> (READDIRPLUS3resok, 'xs) xdr" where
  "Xdr_READDIRPLUS3resok X n = xseq [
      xfield READDIRPLUS3resok_Dir_attributes READDIRPLUS3resok_Dir_attributes_update (Xdr_Post_op_attr X),
      xfield READDIRPLUS3resok_Cookieverf READDIRPLUS3resok_Cookieverf_update (Xdr_Cookieverf3 X),
      xfield READDIRPLUS3resok_Reply READDIRPLUS3resok_Reply_update (Xdr_Dirlistplus3 X n)]"

definition Xdr_READDIRPLUS3resfail :: "'xs xdrlib \<Rightarrow> (READDIRPLUS3resfail, 'xs) xdr" where
  "Xdr_READDIRPLUS3resfail X = xseq [
      xfield READDIRPLUS3resfail_Dir_attributes READDIRPLUS3resfail_Dir_attributes_update (Xdr_Post_op_attr X)]"

definition Xdr_READDIRPLUS3res :: "'xs xdrlib \<Rightarrow> nat \<Rightarrow> (READDIRPLUS3res, 'xs) xdr" where
  "Xdr_READDIRPLUS3res X n = xseq [
      xfield READDIRPLUS3res_Status READDIRPLUS3res_Status_update (Xdr_Nfsstat3 X),
      xswitch (\<lambda>v.
        if READDIRPLUS3res_Status v = NFS3_OK then xfield READDIRPLUS3res_Resok READDIRPLUS3res_Resok_update (Xdr_READDIRPLUS3resok X n)
        else xfield READDIRPLUS3res_Resfail READDIRPLUS3res_Resfail_update (Xdr_READDIRPLUS3resfail X))]"

definition Xdr_FSSTAT3args :: "'xs xdrlib \<Rightarrow> (FSSTAT3args, 'xs) xdr" where
  "Xdr_FSSTAT3args X = xseq [
      xfield FSSTAT3args_Fsroot FSSTAT3args_Fsroot_update (Xdr_Nfs_fh3 X)]"

definition Xdr_FSSTAT3resok :: "'xs xdrlib \<Rightarrow> (FSSTAT3resok, 'xs) xdr" where
  "Xdr_FSSTAT3resok X = xseq [
      xfield FSSTAT3resok_Obj_attributes FSSTAT3resok_Obj_attributes_update (Xdr_Post_op_attr X),
      xfield FSSTAT3resok_Tbytes FSSTAT3resok_Tbytes_update (Xdr_Size3 X),
      xfield FSSTAT3resok_Fbytes FSSTAT3resok_Fbytes_update (Xdr_Size3 X),
      xfield FSSTAT3resok_Abytes FSSTAT3resok_Abytes_update (Xdr_Size3 X),
      xfield FSSTAT3resok_Tfiles FSSTAT3resok_Tfiles_update (Xdr_Size3 X),
      xfield FSSTAT3resok_Ffiles FSSTAT3resok_Ffiles_update (Xdr_Size3 X),
      xfield FSSTAT3resok_Afiles FSSTAT3resok_Afiles_update (Xdr_Size3 X),
      xfield FSSTAT3resok_Invarsec FSSTAT3resok_Invarsec_update (Xdr_Uint32 X)]"

definition Xdr_FSSTAT3resfail :: "'xs xdrlib \<Rightarrow> (FSSTAT3resfail, 'xs) xdr" where
  "Xdr_FSSTAT3resfail X = xseq [
      xfield FSSTAT3resfail_Obj_attributes FSSTAT3resfail_Obj_attributes_update (Xdr_Post_op_attr X)]"

definition Xdr_FSSTAT3res :: "'xs xdrlib \<Rightarrow> (FSSTAT3res, 'xs) xdr" where
  "Xdr_FSSTAT3res X = xseq [
      xfield FSSTAT3res_Status FSSTAT3res_Status_update (Xdr_Nfsstat3 X),
      xswitch (\<lambda>v.
        if FSSTAT3res_Status v = NFS3_OK then xfield FSSTAT3res_Resok FSSTAT3res_Resok_update (Xdr_FSSTAT3resok X)
        else xfield FSSTAT3res_Resfail FSSTAT3res_Resfail_update (Xdr_FSSTAT3resfail X))]"

definition Xdr_FSINFO3args :: "'xs xdrlib \<Rightarrow> (FSINFO3args, 'xs) xdr" where
  "Xdr_FSINFO3args X = xseq [
      xfield FSINFO3args_Fsroot FSINFO3args_Fsroot_update (Xdr_Nfs_fh3 X)]"

definition Xdr_FSINFO3resok :: "'xs xdrlib \<Rightarrow> (FSINFO3resok, 'xs) xdr" where
  "Xdr_FSINFO3resok X = xseq [
      xfield FSINFO3resok_Obj_attributes FSINFO3resok_Obj_attributes_update (Xdr_Post_op_attr X),
      xfield FSINFO3resok_Rtmax FSINFO3resok_Rtmax_update (Xdr_Uint32 X),
      xfield FSINFO3resok_Rtpref FSINFO3resok_Rtpref_update (Xdr_Uint32 X),
      xfield FSINFO3resok_Rtmult FSINFO3resok_Rtmult_update (Xdr_Uint32 X),
      xfield FSINFO3resok_Wtmax FSINFO3resok_Wtmax_update (Xdr_Uint32 X),
      xfield FSINFO3resok_Wtpref FSINFO3resok_Wtpref_update (Xdr_Uint32 X),
      xfield FSINFO3resok_Wtmult FSINFO3resok_Wtmult_update (Xdr_Uint32 X),
      xfield FSINFO3resok_Dtpref FSINFO3resok_Dtpref_update (Xdr_Uint32 X),
      xfield FSINFO3resok_Maxfilesize FSINFO3resok_Maxfilesize_update (Xdr_Size3 X),
      xfield FSINFO3resok_Time_delta FSINFO3resok_Time_delta_update (Xdr_Nfstime3 X),
      xfield FSINFO3resok_Properties FSINFO3resok_Properties_update (Xdr_Uint32 X)]"

definition Xdr_FSINFO3resfail :: "'xs xdrlib \<Rightarrow> (FSINFO3resfail, 'xs) xdr" where
  "Xdr_FSINFO3resfail X = xseq [
      xfield FSINFO3resfail_Obj_attributes FSINFO3resfail_Obj_attributes_update (Xdr_Post_op_attr X)]"

definition Xdr_FSINFO3res :: "'xs xdrlib \<Rightarrow> (FSINFO3res, 'xs) xdr" where
  "Xdr_FSINFO3res X = xseq [
      xfield FSINFO3res_Status FSINFO3res_Status_update (Xdr_Nfsstat3 X),
      xswitch (\<lambda>v.
        if FSINFO3res_Status v = NFS3_OK then xfield FSINFO3res_Resok FSINFO3res_Resok_update (Xdr_FSINFO3resok X)
        else xfield FSINFO3res_Resfail FSINFO3res_Resfail_update (Xdr_FSINFO3resfail X))]"

definition Xdr_PATHCONF3args :: "'xs xdrlib \<Rightarrow> (PATHCONF3args, 'xs) xdr" where
  "Xdr_PATHCONF3args X = xseq [
      xfield PATHCONF3args_Object PATHCONF3args_Object_update (Xdr_Nfs_fh3 X)]"

definition Xdr_PATHCONF3resok :: "'xs xdrlib \<Rightarrow> (PATHCONF3resok, 'xs) xdr" where
  "Xdr_PATHCONF3resok X = xseq [
      xfield PATHCONF3resok_Obj_attributes PATHCONF3resok_Obj_attributes_update (Xdr_Post_op_attr X),
      xfield PATHCONF3resok_Linkmax PATHCONF3resok_Linkmax_update (Xdr_Uint32 X),
      xfield PATHCONF3resok_Name_max PATHCONF3resok_Name_max_update (Xdr_Uint32 X),
      xfield PATHCONF3resok_No_trunc PATHCONF3resok_No_trunc_update (xprim (XdrBool X)),
      xfield PATHCONF3resok_Chown_restricted PATHCONF3resok_Chown_restricted_update (xprim (XdrBool X)),
      xfield PATHCONF3resok_Case_insensitive PATHCONF3resok_Case_insensitive_update (xprim (XdrBool X)),
      xfield PATHCONF3resok_Case_preserving PATHCONF3resok_Case_preserving_update (xprim (XdrBool X))]"

definition Xdr_PATHCONF3resfail :: "'xs xdrlib \<Rightarrow> (PATHCONF3resfail, 'xs) xdr" where
  "Xdr_PATHCONF3resfail X = xseq [
      xfield PATHCONF3resfail_Obj_attributes PATHCONF3resfail_Obj_attributes_update (Xdr_Post_op_attr X)]"

definition Xdr_PATHCONF3res :: "'xs xdrlib \<Rightarrow> (PATHCONF3res, 'xs) xdr" where
  "Xdr_PATHCONF3res X = xseq [
      xfield PATHCONF3res_Status PATHCONF3res_Status_update (Xdr_Nfsstat3 X),
      xswitch (\<lambda>v.
        if PATHCONF3res_Status v = NFS3_OK then xfield PATHCONF3res_Resok PATHCONF3res_Resok_update (Xdr_PATHCONF3resok X)
        else xfield PATHCONF3res_Resfail PATHCONF3res_Resfail_update (Xdr_PATHCONF3resfail X))]"

definition Xdr_COMMIT3args :: "'xs xdrlib \<Rightarrow> (COMMIT3args, 'xs) xdr" where
  "Xdr_COMMIT3args X = xseq [
      xfield COMMIT3args_File COMMIT3args_File_update (Xdr_Nfs_fh3 X),
      xfield COMMIT3args_Offset COMMIT3args_Offset_update (Xdr_Offset3 X),
      xfield COMMIT3args_Count COMMIT3args_Count_update (Xdr_Count3 X)]"

definition Xdr_COMMIT3resok :: "'xs xdrlib \<Rightarrow> (COMMIT3resok, 'xs) xdr" where
  "Xdr_COMMIT3resok X = xseq [
      xfield COMMIT3resok_File_wcc COMMIT3resok_File_wcc_update (Xdr_Wcc_data X),
      xfield COMMIT3resok_Verf COMMIT3resok_Verf_update (Xdr_Writeverf3 X)]"

definition Xdr_COMMIT3resfail :: "'xs xdrlib \<Rightarrow> (COMMIT3resfail, 'xs) xdr" where
  "Xdr_COMMIT3resfail X = xseq [
      xfield COMMIT3resfail_File_wcc COMMIT3resfail_File_wcc_update (Xdr_Wcc_data X)]"

definition Xdr_COMMIT3res :: "'xs xdrlib \<Rightarrow> (COMMIT3res, 'xs) xdr" where
  "Xdr_COMMIT3res X = xseq [
      xfield COMMIT3res_Status COMMIT3res_Status_update (Xdr_Nfsstat3 X),
      xswitch (\<lambda>v.
        if COMMIT3res_Status v = NFS3_OK then xfield COMMIT3res_Resok COMMIT3res_Resok_update (Xdr_COMMIT3resok X)
        else xfield COMMIT3res_Resfail COMMIT3res_Resfail_update (Xdr_COMMIT3resfail X))]"

definition Xdr_Fhandle3 :: "'xs xdrlib \<Rightarrow> (Fhandle3, 'xs) xdr" where
  "Xdr_Fhandle3 X = xbytes (XdrVarArray X) (uint FHSIZE3)"

definition Xdr_Dirpath3 :: "'xs xdrlib \<Rightarrow> (Dirpath3, 'xs) xdr" where
  "Xdr_Dirpath3 X = xbytes (XdrString X) (uint MNTPATHLEN3)"

definition Xdr_Name3 :: "'xs xdrlib \<Rightarrow> (Name3, 'xs) xdr" where
  "Xdr_Name3 X = xbytes (XdrString X) (uint MNTNAMLEN3)"

definition Xdr_Mountstat3 :: "'xs xdrlib \<Rightarrow> (Mountstat3, 'xs) xdr" where
  "Xdr_Mountstat3 X = xprim (XdrU32 X)"

definition Xdr_Mountres3_ok :: "'xs xdrlib \<Rightarrow> (Mountres3_ok, 'xs) xdr" where
  "Xdr_Mountres3_ok X = xseq [
      xfield Mountres3_ok_Fhandle Mountres3_ok_Fhandle_update (Xdr_Fhandle3 X),
      xfield Mountres3_ok_Auth_flavors Mountres3_ok_Auth_flavors_update (Xdr_uint32s X)]"

definition Xdr_Mountres3 :: "'xs xdrlib \<Rightarrow> (Mountres3, 'xs) xdr" where
  "Xdr_Mountres3 X = xseq [
      xfield Mountres3_Fhs_status Mountres3_Fhs_status_update (Xdr_Mountstat3 X),
      xswitch (\<lambda>v.
        if Mountres3_Fhs_status v = MNT3_OK then xfield Mountres3_Mountinfo Mountres3_Mountinfo_update (Xdr_Mountres3_ok X)
        else xskip)]"

primrec Xdr_Mount3 :: "'xs xdrlib \<Rightarrow> nat \<Rightarrow> (Mount3 list, 'xs) xdr" where
  "Xdr_Mount3 X 0 = (\<lambda>p xs. Inl NoFuel)"
| "Xdr_Mount3 X (Suc n) = xnode (xseq [
      xfield Mount3_Ml_hostname Mount3_Ml_hostname_update (Xdr_Name3 X),
      xfield Mount3_Ml_directory Mount3_Ml_directory_update (Xdr_Dirpath3 X)])
     (xopt X zero_Mount3 (Xdr_Mount3 X n))"

definition Xdr_Mountopt3 :: "'xs xdrlib \<Rightarrow> nat \<Rightarrow> (Mountopt3, 'xs) xdr" where
  "Xdr_Mountopt3 X n = xseq [
      xfield Mountopt3_P Mountopt3_P_update (xopt X zero_Mount3 (Xdr_Mount3 X n))]"

primrec Xdr_Groups3 :: "'xs xdrlib \<Rightarrow> nat \<Rightarrow> (Groups3 list, 'xs) xdr" where
  "Xdr_Groups3 X 0 = (\<lambda>p xs. Inl NoFuel)"
| "Xdr_Groups3 X (Suc n) = xnode (xseq [
      xfield Groups3_Gr_name Groups3_Gr_name_update (Xdr_Name3 X)])
     (xopt X zero_Groups3 (Xdr_Groups3 X n))"

primrec Xdr_Exports3 :: "'xs xdrlib \<Rightarrow> nat \<Rightarrow> (Exports3 list, 'xs) xdr" where
  "Xdr_Exports3 X 0 = (\<lambda>p xs. Inl NoFuel)"
| "Xdr_Exports3 X (Suc n) = xnode (xseq [
      xfield Exports3_Ex_dir Exports3_Ex_dir_update (Xdr_Dirpath3 X),
      xfield Exports3_Ex_groups Exports3_Ex_groups_update (xopt X zero_Groups3 (Xdr_Groups3 X n))])
     (xopt X zero_Exports3 (Xdr_Exports3 X n))"

definition Xdr_Exportsopt3 :: "'xs xdrlib \<Rightarrow> nat \<Rightarrow> (Exportsopt3, 'xs) xdr" where
  "Xdr_Exportsopt3 X n = xseq [
      xfield Exportsopt3_P Exportsopt3_P_update (xopt X zero_Exports3 (Xdr_Exports3 X n))]"

end
