(* ===== verification/Rpc.thy ===== *)
theory Rpc
  imports Xdr
begin

text \<open>
  \<^verbatim>\<open>nfstypes/nfs_xdr.go\<close>, the service side of the two programs: the interface that a server implements, as the record
  of its procedures over the state \<open>'s\<close> of the server; the wrappers that decode the arguments, call the procedure
  and hand back the result; and the tables of registrations. A wrapper returns no result when the arguments
  cannot be decoded. A result is an \<^verbatim>\<open>xdr.Xdrable\<close>: its method \<^verbatim>\<open>Xdr\<close> on the value, as a function of the state that it
  encodes to.
\<close>

section \<open>Numbers of the programs and procedures\<close>

abbreviation NFS_PROGRAM :: u32 where
  "NFS_PROGRAM \<equiv> 100003"

abbreviation NFS_V3 :: u32 where
  "NFS_V3 \<equiv> 3"

abbreviation P_NFSPROC3_NULL :: u32 where
  "P_NFSPROC3_NULL \<equiv> 0"

abbreviation P_NFSPROC3_GETATTR :: u32 where
  "P_NFSPROC3_GETATTR \<equiv> 1"

abbreviation P_NFSPROC3_SETATTR :: u32 where
  "P_NFSPROC3_SETATTR \<equiv> 2"

abbreviation P_NFSPROC3_LOOKUP :: u32 where
  "P_NFSPROC3_LOOKUP \<equiv> 3"

abbreviation P_NFSPROC3_ACCESS :: u32 where
  "P_NFSPROC3_ACCESS \<equiv> 4"

abbreviation P_NFSPROC3_READLINK :: u32 where
  "P_NFSPROC3_READLINK \<equiv> 5"

abbreviation P_NFSPROC3_READ :: u32 where
  "P_NFSPROC3_READ \<equiv> 6"

abbreviation P_NFSPROC3_WRITE :: u32 where
  "P_NFSPROC3_WRITE \<equiv> 7"

abbreviation P_NFSPROC3_CREATE :: u32 where
  "P_NFSPROC3_CREATE \<equiv> 8"

abbreviation P_NFSPROC3_MKDIR :: u32 where
  "P_NFSPROC3_MKDIR \<equiv> 9"

abbreviation P_NFSPROC3_SYMLINK :: u32 where
  "P_NFSPROC3_SYMLINK \<equiv> 10"

abbreviation P_NFSPROC3_MKNOD :: u32 where
  "P_NFSPROC3_MKNOD \<equiv> 11"

abbreviation P_NFSPROC3_REMOVE :: u32 where
  "P_NFSPROC3_REMOVE \<equiv> 12"

abbreviation P_NFSPROC3_RMDIR :: u32 where
  "P_NFSPROC3_RMDIR \<equiv> 13"

abbreviation P_NFSPROC3_RENAME :: u32 where
  "P_NFSPROC3_RENAME \<equiv> 14"

abbreviation P_NFSPROC3_LINK :: u32 where
  "P_NFSPROC3_LINK \<equiv> 15"

abbreviation P_NFSPROC3_READDIR :: u32 where
  "P_NFSPROC3_READDIR \<equiv> 16"

abbreviation P_NFSPROC3_READDIRPLUS :: u32 where
  "P_NFSPROC3_READDIRPLUS \<equiv> 17"

abbreviation P_NFSPROC3_FSSTAT :: u32 where
  "P_NFSPROC3_FSSTAT \<equiv> 18"

abbreviation P_NFSPROC3_FSINFO :: u32 where
  "P_NFSPROC3_FSINFO \<equiv> 19"

abbreviation P_NFSPROC3_PATHCONF :: u32 where
  "P_NFSPROC3_PATHCONF \<equiv> 20"

abbreviation P_NFSPROC3_COMMIT :: u32 where
  "P_NFSPROC3_COMMIT \<equiv> 21"

abbreviation MOUNT_PROGRAM :: u32 where
  "MOUNT_PROGRAM \<equiv> 100005"

abbreviation MOUNT_V3 :: u32 where
  "MOUNT_V3 \<equiv> 3"

abbreviation P_MOUNTPROC3_NULL :: u32 where
  "P_MOUNTPROC3_NULL \<equiv> 0"

abbreviation P_MOUNTPROC3_MNT :: u32 where
  "P_MOUNTPROC3_MNT \<equiv> 1"

abbreviation P_MOUNTPROC3_DUMP :: u32 where
  "P_MOUNTPROC3_DUMP \<equiv> 2"

abbreviation P_MOUNTPROC3_UMNT :: u32 where
  "P_MOUNTPROC3_UMNT \<equiv> 3"

abbreviation P_MOUNTPROC3_UMNTALL :: u32 where
  "P_MOUNTPROC3_UMNTALL \<equiv> 4"

abbreviation P_MOUNTPROC3_EXPORT :: u32 where
  "P_MOUNTPROC3_EXPORT \<equiv> 5"

section \<open>Wrappers\<close>

type_synonym ('xs, 's) rpc_handler = "'xs \<Rightarrow> 's \<Rightarrow> (('xs \<Rightarrow> 'xs res) option \<times> 'xs \<times> 's) res"

record ('xs, 's) ProcRegistration =
  Prog :: u32
  Vers :: u32
  Proc :: u32
  Handler :: "('xs, 's) rpc_handler"

definition xdrable :: "('t, 'xs) xdr \<Rightarrow> 't \<Rightarrow> 'xs \<Rightarrow> 'xs res" where
  "xdrable f v xs = bnd (f v xs) (\<lambda>(_, xs). Inr xs)"

text \<open>The body that the wrappers share: decode into a zero value, stop at an error, call.\<close>

definition rpc_wrap ::
    "'xs xdrlib \<Rightarrow> ('a, 'xs) xdr \<Rightarrow> 'a \<Rightarrow> ('a \<Rightarrow> 's \<Rightarrow> ('r \<times> 's) res) \<Rightarrow> ('r, 'xs) xdr \<Rightarrow> ('xs, 's) rpc_handler" where
  "rpc_wrap X dec zero call enc args s =
     bnd (dec zero args) (\<lambda>(inp, args).
     if xdr_Error X args then Inr (None, args, s)
     else bnd (call inp s) (\<lambda>(out, s). Inr (Some (xdrable enc out), args, s)))"

text \<open>The value of \<^verbatim>\<open>xdr.Void\<close>: nothing is encoded.\<close>

definition Xdr_Void :: "(unit, 'xs) xdr" where
  "Xdr_Void = xskip"

section \<open>The program \<^verbatim>\<open>NFS_PROGRAM\<close>\<close>

record 's NFS_PROGRAM_NFS_V3_handler =
  do_NFSPROC3_NULL :: "'s \<Rightarrow> (unit \<times> 's) res"
  do_NFSPROC3_GETATTR :: "GETATTR3args \<Rightarrow> 's \<Rightarrow> (GETATTR3res \<times> 's) res"
  do_NFSPROC3_SETATTR :: "SETATTR3args \<Rightarrow> 's \<Rightarrow> (SETATTR3res \<times> 's) res"
  do_NFSPROC3_LOOKUP :: "LOOKUP3args \<Rightarrow> 's \<Rightarrow> (LOOKUP3res \<times> 's) res"
  do_NFSPROC3_ACCESS :: "ACCESS3args \<Rightarrow> 's \<Rightarrow> (ACCESS3res \<times> 's) res"
  do_NFSPROC3_READLINK :: "READLINK3args \<Rightarrow> 's \<Rightarrow> (READLINK3res \<times> 's) res"
  do_NFSPROC3_READ :: "READ3args \<Rightarrow> 's \<Rightarrow> (READ3res \<times> 's) res"
  do_NFSPROC3_WRITE :: "WRITE3args \<Rightarrow> 's \<Rightarrow> (WRITE3res \<times> 's) res"
  do_NFSPROC3_CREATE :: "CREATE3args \<Rightarrow> 's \<Rightarrow> (CREATE3res \<times> 's) res"
  do_NFSPROC3_MKDIR :: "MKDIR3args \<Rightarrow> 's \<Rightarrow> (MKDIR3res \<times> 's) res"
  do_NFSPROC3_SYMLINK :: "SYMLINK3args \<Rightarrow> 's \<Rightarrow> (SYMLINK3res \<times> 's) res"
  do_NFSPROC3_MKNOD :: "MKNOD3args \<Rightarrow> 's \<Rightarrow> (MKNOD3res \<times> 's) res"
  do_NFSPROC3_REMOVE :: "REMOVE3args \<Rightarrow> 's \<Rightarrow> (REMOVE3res \<times> 's) res"
  do_NFSPROC3_RMDIR :: "RMDIR3args \<Rightarrow> 's \<Rightarrow> (RMDIR3res \<times> 's) res"
  do_NFSPROC3_RENAME :: "RENAME3args \<Rightarrow> 's \<Rightarrow> (RENAME3res \<times> 's) res"
  do_NFSPROC3_LINK :: "LINK3args \<Rightarrow> 's \<Rightarrow> (LINK3res \<times> 's) res"
  do_NFSPROC3_READDIR :: "READDIR3args \<Rightarrow> 's \<Rightarrow> (READDIR3res \<times> 's) res"
  do_NFSPROC3_READDIRPLUS :: "READDIRPLUS3args \<Rightarrow> 's \<Rightarrow> (READDIRPLUS3res \<times> 's) res"
  do_NFSPROC3_FSSTAT :: "FSSTAT3args \<Rightarrow> 's \<Rightarrow> (FSSTAT3res \<times> 's) res"
  do_NFSPROC3_FSINFO :: "FSINFO3args \<Rightarrow> 's \<Rightarrow> (FSINFO3res \<times> 's) res"
  do_NFSPROC3_PATHCONF :: "PATHCONF3args \<Rightarrow> 's \<Rightarrow> (PATHCONF3res \<times> 's) res"
  do_NFSPROC3_COMMIT :: "COMMIT3args \<Rightarrow> 's \<Rightarrow> (COMMIT3res \<times> 's) res"

definition wrap_NFSPROC3_NULL ::
    "'xs xdrlib \<Rightarrow> 's NFS_PROGRAM_NFS_V3_handler \<Rightarrow> ('xs, 's) rpc_handler" where
  "wrap_NFSPROC3_NULL X h =
     (\<lambda>args s. bnd (do_NFSPROC3_NULL h s) (\<lambda>(out, s). Inr (Some (xdrable Xdr_Void out), args, s)))"

definition wrap_NFSPROC3_GETATTR ::
    "'xs xdrlib \<Rightarrow> 's NFS_PROGRAM_NFS_V3_handler \<Rightarrow> ('xs, 's) rpc_handler" where
  "wrap_NFSPROC3_GETATTR X h =
     rpc_wrap X (Xdr_GETATTR3args X) zero_GETATTR3args (do_NFSPROC3_GETATTR h) (Xdr_GETATTR3res X)"

definition wrap_NFSPROC3_SETATTR ::
    "'xs xdrlib \<Rightarrow> 's NFS_PROGRAM_NFS_V3_handler \<Rightarrow> ('xs, 's) rpc_handler" where
  "wrap_NFSPROC3_SETATTR X h =
     rpc_wrap X (Xdr_SETATTR3args X) zero_SETATTR3args (do_NFSPROC3_SETATTR h) (Xdr_SETATTR3res X)"

definition wrap_NFSPROC3_LOOKUP ::
    "'xs xdrlib \<Rightarrow> 's NFS_PROGRAM_NFS_V3_handler \<Rightarrow> ('xs, 's) rpc_handler" where
  "wrap_NFSPROC3_LOOKUP X h =
     rpc_wrap X (Xdr_LOOKUP3args X) zero_LOOKUP3args (do_NFSPROC3_LOOKUP h) (Xdr_LOOKUP3res X)"

definition wrap_NFSPROC3_ACCESS ::
    "'xs xdrlib \<Rightarrow> 's NFS_PROGRAM_NFS_V3_handler \<Rightarrow> ('xs, 's) rpc_handler" where
  "wrap_NFSPROC3_ACCESS X h =
     rpc_wrap X (Xdr_ACCESS3args X) zero_ACCESS3args (do_NFSPROC3_ACCESS h) (Xdr_ACCESS3res X)"

definition wrap_NFSPROC3_READLINK ::
    "'xs xdrlib \<Rightarrow> 's NFS_PROGRAM_NFS_V3_handler \<Rightarrow> ('xs, 's) rpc_handler" where
  "wrap_NFSPROC3_READLINK X h =
     rpc_wrap X (Xdr_READLINK3args X) zero_READLINK3args (do_NFSPROC3_READLINK h) (Xdr_READLINK3res X)"

definition wrap_NFSPROC3_READ ::
    "'xs xdrlib \<Rightarrow> 's NFS_PROGRAM_NFS_V3_handler \<Rightarrow> ('xs, 's) rpc_handler" where
  "wrap_NFSPROC3_READ X h =
     rpc_wrap X (Xdr_READ3args X) zero_READ3args (do_NFSPROC3_READ h) (Xdr_READ3res X)"

definition wrap_NFSPROC3_WRITE ::
    "'xs xdrlib \<Rightarrow> 's NFS_PROGRAM_NFS_V3_handler \<Rightarrow> ('xs, 's) rpc_handler" where
  "wrap_NFSPROC3_WRITE X h =
     rpc_wrap X (Xdr_WRITE3args X) zero_WRITE3args (do_NFSPROC3_WRITE h) (Xdr_WRITE3res X)"

definition wrap_NFSPROC3_CREATE ::
    "'xs xdrlib \<Rightarrow> 's NFS_PROGRAM_NFS_V3_handler \<Rightarrow> ('xs, 's) rpc_handler" where
  "wrap_NFSPROC3_CREATE X h =
     rpc_wrap X (Xdr_CREATE3args X) zero_CREATE3args (do_NFSPROC3_CREATE h) (Xdr_CREATE3res X)"

definition wrap_NFSPROC3_MKDIR ::
    "'xs xdrlib \<Rightarrow> 's NFS_PROGRAM_NFS_V3_handler \<Rightarrow> ('xs, 's) rpc_handler" where
  "wrap_NFSPROC3_MKDIR X h =
     rpc_wrap X (Xdr_MKDIR3args X) zero_MKDIR3args (do_NFSPROC3_MKDIR h) (Xdr_MKDIR3res X)"

definition wrap_NFSPROC3_SYMLINK ::
    "'xs xdrlib \<Rightarrow> 's NFS_PROGRAM_NFS_V3_handler \<Rightarrow> ('xs, 's) rpc_handler" where
  "wrap_NFSPROC3_SYMLINK X h =
     rpc_wrap X (Xdr_SYMLINK3args X) zero_SYMLINK3args (do_NFSPROC3_SYMLINK h) (Xdr_SYMLINK3res X)"

definition wrap_NFSPROC3_MKNOD ::
    "'xs xdrlib \<Rightarrow> 's NFS_PROGRAM_NFS_V3_handler \<Rightarrow> ('xs, 's) rpc_handler" where
  "wrap_NFSPROC3_MKNOD X h =
     rpc_wrap X (Xdr_MKNOD3args X) zero_MKNOD3args (do_NFSPROC3_MKNOD h) (Xdr_MKNOD3res X)"

definition wrap_NFSPROC3_REMOVE ::
    "'xs xdrlib \<Rightarrow> 's NFS_PROGRAM_NFS_V3_handler \<Rightarrow> ('xs, 's) rpc_handler" where
  "wrap_NFSPROC3_REMOVE X h =
     rpc_wrap X (Xdr_REMOVE3args X) zero_REMOVE3args (do_NFSPROC3_REMOVE h) (Xdr_REMOVE3res X)"

definition wrap_NFSPROC3_RMDIR ::
    "'xs xdrlib \<Rightarrow> 's NFS_PROGRAM_NFS_V3_handler \<Rightarrow> ('xs, 's) rpc_handler" where
  "wrap_NFSPROC3_RMDIR X h =
     rpc_wrap X (Xdr_RMDIR3args X) zero_RMDIR3args (do_NFSPROC3_RMDIR h) (Xdr_RMDIR3res X)"

definition wrap_NFSPROC3_RENAME ::
    "'xs xdrlib \<Rightarrow> 's NFS_PROGRAM_NFS_V3_handler \<Rightarrow> ('xs, 's) rpc_handler" where
  "wrap_NFSPROC3_RENAME X h =
     rpc_wrap X (Xdr_RENAME3args X) zero_RENAME3args (do_NFSPROC3_RENAME h) (Xdr_RENAME3res X)"

definition wrap_NFSPROC3_LINK ::
    "'xs xdrlib \<Rightarrow> 's NFS_PROGRAM_NFS_V3_handler \<Rightarrow> ('xs, 's) rpc_handler" where
  "wrap_NFSPROC3_LINK X h =
     rpc_wrap X (Xdr_LINK3args X) zero_LINK3args (do_NFSPROC3_LINK h) (Xdr_LINK3res X)"

definition wrap_NFSPROC3_READDIR ::
    "'xs xdrlib \<Rightarrow> nat \<Rightarrow> 's NFS_PROGRAM_NFS_V3_handler \<Rightarrow> ('xs, 's) rpc_handler" where
  "wrap_NFSPROC3_READDIR X n h =
     rpc_wrap X (Xdr_READDIR3args X) zero_READDIR3args (do_NFSPROC3_READDIR h) (Xdr_READDIR3res X n)"

definition wrap_NFSPROC3_READDIRPLUS ::
    "'xs xdrlib \<Rightarrow> nat \<Rightarrow> 's NFS_PROGRAM_NFS_V3_handler \<Rightarrow> ('xs, 's) rpc_handler" where
  "wrap_NFSPROC3_READDIRPLUS X n h =
     rpc_wrap X (Xdr_READDIRPLUS3args X) zero_READDIRPLUS3args (do_NFSPROC3_READDIRPLUS h) (Xdr_READDIRPLUS3res X n)"

definition wrap_NFSPROC3_FSSTAT ::
    "'xs xdrlib \<Rightarrow> 's NFS_PROGRAM_NFS_V3_handler \<Rightarrow> ('xs, 's) rpc_handler" where
  "wrap_NFSPROC3_FSSTAT X h =
     rpc_wrap X (Xdr_FSSTAT3args X) zero_FSSTAT3args (do_NFSPROC3_FSSTAT h) (Xdr_FSSTAT3res X)"

definition wrap_NFSPROC3_FSINFO ::
    "'xs xdrlib \<Rightarrow> 's NFS_PROGRAM_NFS_V3_handler \<Rightarrow> ('xs, 's) rpc_handler" where
  "wrap_NFSPROC3_FSINFO X h =
     rpc_wrap X (Xdr_FSINFO3args X) zero_FSINFO3args (do_NFSPROC3_FSINFO h) (Xdr_FSINFO3res X)"

definition wrap_NFSPROC3_PATHCONF ::
    "'xs xdrlib \<Rightarrow> 's NFS_PROGRAM_NFS_V3_handler \<Rightarrow> ('xs, 's) rpc_handler" where
  "wrap_NFSPROC3_PATHCONF X h =
     rpc_wrap X (Xdr_PATHCONF3args X) zero_PATHCONF3args (do_NFSPROC3_PATHCONF h) (Xdr_PATHCONF3res X)"

definition wrap_NFSPROC3_COMMIT ::
    "'xs xdrlib \<Rightarrow> 's NFS_PROGRAM_NFS_V3_handler \<Rightarrow> ('xs, 's) rpc_handler" where
  "wrap_NFSPROC3_COMMIT X h =
     rpc_wrap X (Xdr_COMMIT3args X) zero_COMMIT3args (do_NFSPROC3_COMMIT h) (Xdr_COMMIT3res X)"

definition NFS_PROGRAM_NFS_V3_regs ::
    "'xs xdrlib \<Rightarrow> nat \<Rightarrow> 's NFS_PROGRAM_NFS_V3_handler \<Rightarrow> ('xs, 's) ProcRegistration list" where
  "NFS_PROGRAM_NFS_V3_regs X n h =
    [\<lparr>Prog = NFS_PROGRAM, Vers = NFS_V3, Proc = P_NFSPROC3_NULL, Handler = wrap_NFSPROC3_NULL X h\<rparr>,
     \<lparr>Prog = NFS_PROGRAM, Vers = NFS_V3, Proc = P_NFSPROC3_GETATTR, Handler = wrap_NFSPROC3_GETATTR X h\<rparr>,
     \<lparr>Prog = NFS_PROGRAM, Vers = NFS_V3, Proc = P_NFSPROC3_SETATTR, Handler = wrap_NFSPROC3_SETATTR X h\<rparr>,
     \<lparr>Prog = NFS_PROGRAM, Vers = NFS_V3, Proc = P_NFSPROC3_LOOKUP, Handler = wrap_NFSPROC3_LOOKUP X h\<rparr>,
     \<lparr>Prog = NFS_PROGRAM, Vers = NFS_V3, Proc = P_NFSPROC3_ACCESS, Handler = wrap_NFSPROC3_ACCESS X h\<rparr>,
     \<lparr>Prog = NFS_PROGRAM, Vers = NFS_V3, Proc = P_NFSPROC3_READLINK, Handler = wrap_NFSPROC3_READLINK X h\<rparr>,
     \<lparr>Prog = NFS_PROGRAM, Vers = NFS_V3, Proc = P_NFSPROC3_READ, Handler = wrap_NFSPROC3_READ X h\<rparr>,
     \<lparr>Prog = NFS_PROGRAM, Vers = NFS_V3, Proc = P_NFSPROC3_WRITE, Handler = wrap_NFSPROC3_WRITE X h\<rparr>,
     \<lparr>Prog = NFS_PROGRAM, Vers = NFS_V3, Proc = P_NFSPROC3_CREATE, Handler = wrap_NFSPROC3_CREATE X h\<rparr>,
     \<lparr>Prog = NFS_PROGRAM, Vers = NFS_V3, Proc = P_NFSPROC3_MKDIR, Handler = wrap_NFSPROC3_MKDIR X h\<rparr>,
     \<lparr>Prog = NFS_PROGRAM, Vers = NFS_V3, Proc = P_NFSPROC3_SYMLINK, Handler = wrap_NFSPROC3_SYMLINK X h\<rparr>,
     \<lparr>Prog = NFS_PROGRAM, Vers = NFS_V3, Proc = P_NFSPROC3_MKNOD, Handler = wrap_NFSPROC3_MKNOD X h\<rparr>,
     \<lparr>Prog = NFS_PROGRAM, Vers = NFS_V3, Proc = P_NFSPROC3_REMOVE, Handler = wrap_NFSPROC3_REMOVE X h\<rparr>,
     \<lparr>Prog = NFS_PROGRAM, Vers = NFS_V3, Proc = P_NFSPROC3_RMDIR, Handler = wrap_NFSPROC3_RMDIR X h\<rparr>,
     \<lparr>Prog = NFS_PROGRAM, Vers = NFS_V3, Proc = P_NFSPROC3_RENAME, Handler = wrap_NFSPROC3_RENAME X h\<rparr>,
     \<lparr>Prog = NFS_PROGRAM, Vers = NFS_V3, Proc = P_NFSPROC3_LINK, Handler = wrap_NFSPROC3_LINK X h\<rparr>,
     \<lparr>Prog = NFS_PROGRAM, Vers = NFS_V3, Proc = P_NFSPROC3_READDIR, Handler = wrap_NFSPROC3_READDIR X n h\<rparr>,
     \<lparr>Prog = NFS_PROGRAM, Vers = NFS_V3, Proc = P_NFSPROC3_READDIRPLUS, Handler = wrap_NFSPROC3_READDIRPLUS X n h\<rparr>,
     \<lparr>Prog = NFS_PROGRAM, Vers = NFS_V3, Proc = P_NFSPROC3_FSSTAT, Handler = wrap_NFSPROC3_FSSTAT X h\<rparr>,
     \<lparr>Prog = NFS_PROGRAM, Vers = NFS_V3, Proc = P_NFSPROC3_FSINFO, Handler = wrap_NFSPROC3_FSINFO X h\<rparr>,
     \<lparr>Prog = NFS_PROGRAM, Vers = NFS_V3, Proc = P_NFSPROC3_PATHCONF, Handler = wrap_NFSPROC3_PATHCONF X h\<rparr>,
     \<lparr>Prog = NFS_PROGRAM, Vers = NFS_V3, Proc = P_NFSPROC3_COMMIT, Handler = wrap_NFSPROC3_COMMIT X h\<rparr>]"

section \<open>The program \<^verbatim>\<open>MOUNT_PROGRAM\<close>\<close>

record 's MOUNT_PROGRAM_MOUNT_V3_handler =
  do_MOUNTPROC3_NULL :: "'s \<Rightarrow> (unit \<times> 's) res"
  do_MOUNTPROC3_MNT :: "Dirpath3 \<Rightarrow> 's \<Rightarrow> (Mountres3 \<times> 's) res"
  do_MOUNTPROC3_DUMP :: "'s \<Rightarrow> (Mountopt3 \<times> 's) res"
  do_MOUNTPROC3_UMNT :: "Dirpath3 \<Rightarrow> 's \<Rightarrow> (unit \<times> 's) res"
  do_MOUNTPROC3_UMNTALL :: "'s \<Rightarrow> (unit \<times> 's) res"
  do_MOUNTPROC3_EXPORT :: "'s \<Rightarrow> (Exportsopt3 \<times> 's) res"

definition wrap_MOUNTPROC3_NULL ::
    "'xs xdrlib \<Rightarrow> 's MOUNT_PROGRAM_MOUNT_V3_handler \<Rightarrow> ('xs, 's) rpc_handler" where
  "wrap_MOUNTPROC3_NULL X h =
     (\<lambda>args s. bnd (do_MOUNTPROC3_NULL h s) (\<lambda>(out, s). Inr (Some (xdrable Xdr_Void out), args, s)))"

definition wrap_MOUNTPROC3_MNT ::
    "'xs xdrlib \<Rightarrow> 's MOUNT_PROGRAM_MOUNT_V3_handler \<Rightarrow> ('xs, 's) rpc_handler" where
  "wrap_MOUNTPROC3_MNT X h =
     rpc_wrap X (Xdr_Dirpath3 X) [] (do_MOUNTPROC3_MNT h) (Xdr_Mountres3 X)"

definition wrap_MOUNTPROC3_DUMP ::
    "'xs xdrlib \<Rightarrow> nat \<Rightarrow> 's MOUNT_PROGRAM_MOUNT_V3_handler \<Rightarrow> ('xs, 's) rpc_handler" where
  "wrap_MOUNTPROC3_DUMP X n h =
     (\<lambda>args s. bnd (do_MOUNTPROC3_DUMP h s) (\<lambda>(out, s). Inr (Some (xdrable (Xdr_Mountopt3 X n) out), args, s)))"

definition wrap_MOUNTPROC3_UMNT ::
    "'xs xdrlib \<Rightarrow> 's MOUNT_PROGRAM_MOUNT_V3_handler \<Rightarrow> ('xs, 's) rpc_handler" where
  "wrap_MOUNTPROC3_UMNT X h =
     rpc_wrap X (Xdr_Dirpath3 X) [] (do_MOUNTPROC3_UMNT h) Xdr_Void"

definition wrap_MOUNTPROC3_UMNTALL ::
    "'xs xdrlib \<Rightarrow> 's MOUNT_PROGRAM_MOUNT_V3_handler \<Rightarrow> ('xs, 's) rpc_handler" where
  "wrap_MOUNTPROC3_UMNTALL X h =
     (\<lambda>args s. bnd (do_MOUNTPROC3_UMNTALL h s) (\<lambda>(out, s). Inr (Some (xdrable Xdr_Void out), args, s)))"

definition wrap_MOUNTPROC3_EXPORT ::
    "'xs xdrlib \<Rightarrow> nat \<Rightarrow> 's MOUNT_PROGRAM_MOUNT_V3_handler \<Rightarrow> ('xs, 's) rpc_handler" where
  "wrap_MOUNTPROC3_EXPORT X n h =
     (\<lambda>args s. bnd (do_MOUNTPROC3_EXPORT h s) (\<lambda>(out, s). Inr (Some (xdrable (Xdr_Exportsopt3 X n) out), args, s)))"

definition MOUNT_PROGRAM_MOUNT_V3_regs ::
    "'xs xdrlib \<Rightarrow> nat \<Rightarrow> 's MOUNT_PROGRAM_MOUNT_V3_handler \<Rightarrow> ('xs, 's) ProcRegistration list" where
  "MOUNT_PROGRAM_MOUNT_V3_regs X n h =
    [\<lparr>Prog = MOUNT_PROGRAM, Vers = MOUNT_V3, Proc = P_MOUNTPROC3_NULL, Handler = wrap_MOUNTPROC3_NULL X h\<rparr>,
     \<lparr>Prog = MOUNT_PROGRAM, Vers = MOUNT_V3, Proc = P_MOUNTPROC3_MNT, Handler = wrap_MOUNTPROC3_MNT X h\<rparr>,
     \<lparr>Prog = MOUNT_PROGRAM, Vers = MOUNT_V3, Proc = P_MOUNTPROC3_DUMP, Handler = wrap_MOUNTPROC3_DUMP X n h\<rparr>,
     \<lparr>Prog = MOUNT_PROGRAM, Vers = MOUNT_V3, Proc = P_MOUNTPROC3_UMNT, Handler = wrap_MOUNTPROC3_UMNT X h\<rparr>,
     \<lparr>Prog = MOUNT_PROGRAM, Vers = MOUNT_V3, Proc = P_MOUNTPROC3_UMNTALL, Handler = wrap_MOUNTPROC3_UMNTALL X h\<rparr>,
     \<lparr>Prog = MOUNT_PROGRAM, Vers = MOUNT_V3, Proc = P_MOUNTPROC3_EXPORT, Handler = wrap_MOUNTPROC3_EXPORT X n h\<rparr>]"

end
