(* ===== verification/XdrSpec.thy ===== *)
theory XdrSpec
  imports Xdr
begin

text \<open>
  What the codecs of \<open>Xdr\<close> promise. \<open>rt X out inp s f v z v'\<close> says of a method \<open>f\<close> that decoding the bytes of \<open>v\<close> into
  \<open>z\<close> gives \<open>v'\<close>, whatever follows them in the input; with the flag \<open>s\<close>, also that an input which ends too early is
  reported as an error. The locale \<open>xdr_codec\<close> states this of the primitives of the package \<^verbatim>\<open>xdr\<close>, which follow
  RFC 4506; the theory has the rules for the statements that the methods are made of.
\<close>

section \<open>Round trips\<close>

definition writing :: "'xs xdrlib \<Rightarrow> 'xs \<Rightarrow> bool" where
  "writing X xs \<longleftrightarrow> Encoding X xs \<and> \<not> Decoding X xs \<and> \<not> xdr_Error X xs"

definition reading :: "'xs xdrlib \<Rightarrow> 'xs \<Rightarrow> bool" where
  "reading X xs \<longleftrightarrow> Decoding X xs \<and> \<not> Encoding X xs \<and> \<not> xdr_Error X xs"

definition broken :: "'xs xdrlib \<Rightarrow> 'xs \<Rightarrow> bool" where
  "broken X xs \<longleftrightarrow> Decoding X xs \<and> \<not> Encoding X xs \<and> xdr_Error X xs"

definition sticky :: "'xs xdrlib \<Rightarrow> ('t, 'xs) xdr \<Rightarrow> bool" where
  "sticky X f \<longleftrightarrow> (\<forall>v xs. broken X xs \<longrightarrow> (\<exists>w xs'. f v xs = Inr (w, xs') \<and> broken X xs'))"

definition sends :: "'xs xdrlib \<Rightarrow> ('xs \<Rightarrow> byte list) \<Rightarrow> ('t, 'xs) xdr \<Rightarrow> 't \<Rightarrow> byte list \<Rightarrow> bool" where
  "sends X out f v b \<longleftrightarrow>
     (\<forall>xs. writing X xs \<longrightarrow> (\<exists>xs'. f v xs = Inr (v, xs') \<and> writing X xs' \<and> out xs' = out xs @ b))"

definition receives :: "'xs xdrlib \<Rightarrow> ('xs \<Rightarrow> byte list) \<Rightarrow> ('t, 'xs) xdr \<Rightarrow> 't \<Rightarrow> byte list \<Rightarrow> 't \<Rightarrow> bool" where
  "receives X inp f z b v \<longleftrightarrow>
     (\<forall>xs r. reading X xs \<longrightarrow> inp xs = b @ r \<longrightarrow> (\<exists>xs'. f z xs = Inr (v, xs') \<and> reading X xs' \<and> inp xs' = r))"

definition rejects :: "'xs xdrlib \<Rightarrow> ('xs \<Rightarrow> byte list) \<Rightarrow> ('t, 'xs) xdr \<Rightarrow> 't \<Rightarrow> byte list \<Rightarrow> bool" where
  "rejects X inp f z b \<longleftrightarrow>
     (\<forall>xs q. reading X xs \<longrightarrow> q \<noteq> [] \<longrightarrow> inp xs @ q = b \<longrightarrow> (\<exists>w xs'. f z xs = Inr (w, xs') \<and> broken X xs'))"

definition rt :: "'xs xdrlib \<Rightarrow> ('xs \<Rightarrow> byte list) \<Rightarrow> ('xs \<Rightarrow> byte list) \<Rightarrow> bool \<Rightarrow> ('t, 'xs) xdr \<Rightarrow> 't \<Rightarrow> 't \<Rightarrow> 't \<Rightarrow> bool" where
  "rt X out inp s f v z v' \<longleftrightarrow>
     (\<exists>b. sends X out f v b \<and> receives X inp f z b v' \<and> (s \<longrightarrow> rejects X inp f z b))"

named_theorems sticky_rules
named_theorems xdr_rt

lemma sticky_skip [sticky_rules]: "sticky X xskip"
  by (simp add: sticky_def xskip_def)

lemma sticky_field [sticky_rules]: "sticky X f \<Longrightarrow> sticky X (xfield get upd f)"
  unfolding sticky_def xfield_def by (metis (no_types, lifting) bnd_Inr case_prod_conv)

lemma sticky_Nil [sticky_rules]: "sticky X (xseq [])"
  by (simp add: sticky_skip)

lemma sticky_Cons [sticky_rules]:
  assumes f: "sticky X f" and fs: "sticky X (xseq fs)"
  shows "sticky X (xseq (f # fs))"
  unfolding sticky_def
proof (intro allI impI)
  fix v xs assume "broken X xs"
  then obtain w xs1 where 1: "f v xs = Inr (w, xs1)" "broken X xs1" using f unfolding sticky_def by blast
  then obtain w' xs2 where "xseq fs w xs1 = Inr (w', xs2)" "broken X xs2" using fs unfolding sticky_def by blast
  with 1 show "\<exists>w xs'. xseq (f # fs) v xs = Inr (w, xs') \<and> broken X xs'" by simp
qed

lemma sticky_switch [sticky_rules]: "(\<And>v. sticky X (g v)) \<Longrightarrow> sticky X (xswitch g)"
  by (simp add: sticky_def xswitch_def)

lemma sticky_if [sticky_rules]: "sticky X f \<Longrightarrow> sticky X g \<Longrightarrow> sticky X (if c then f else g)"
  by simp

lemma rt_skip [xdr_rt]: "z = z' \<Longrightarrow> rt X out inp s xskip v z z'"
  unfolding rt_def by (rule exI [of _ "[]"]) (simp add: sends_def receives_def rejects_def xskip_def)

lemma rt_Nil [xdr_rt]: "z = z' \<Longrightarrow> rt X out inp s (xseq []) v z z'"
  by (simp add: rt_skip)

lemma rt_field_last:
  assumes f: "rt X out inp s f (get v) (get z) x" and v: "upd (\<lambda>_. get v) v = v" and z': "upd (\<lambda>_. x) z = z'"
  shows "rt X out inp s (xfield get upd f) v z z'"
proof -
  obtain b where b: "sends X out f (get v) b" "receives X inp f (get z) b x" "s \<longrightarrow> rejects X inp f (get z) b"
    using f unfolding rt_def by blast
  have "sends X out (xfield get upd f) v b"
    unfolding sends_def
  proof (intro allI impI)
    fix xs assume "writing X xs"
    then obtain xs' where "f (get v) xs = Inr (get v, xs')" "writing X xs'" "out xs' = out xs @ b"
      using b(1) unfolding sends_def by blast
    then show "\<exists>xs'. xfield get upd f v xs = Inr (v, xs') \<and> writing X xs' \<and> out xs' = out xs @ b"
      by (simp add: xfield_def v)
  qed
  moreover have "receives X inp (xfield get upd f) z b z'"
    unfolding receives_def
  proof (intro allI impI)
    fix xs r assume "reading X xs" "inp xs = b @ r"
    then obtain xs' where "f (get z) xs = Inr (x, xs')" "reading X xs'" "inp xs' = r"
      using b(2) unfolding receives_def by blast
    then show "\<exists>xs'. xfield get upd f z xs = Inr (z', xs') \<and> reading X xs' \<and> inp xs' = r"
      by (simp add: xfield_def z')
  qed
  moreover have "s \<longrightarrow> rejects X inp (xfield get upd f) z b"
  proof
    assume s show "rejects X inp (xfield get upd f) z b"
      unfolding rejects_def
    proof (intro allI impI)
      fix xs q assume "reading X xs" "q \<noteq> []" "inp xs @ q = b"
      then obtain w xs' where "f (get z) xs = Inr (w, xs')" "broken X xs'"
        using b(3) \<open>s\<close> unfolding rejects_def by blast
      then show "\<exists>w xs'. xfield get upd f z xs = Inr (w, xs') \<and> broken X xs'" by (simp add: xfield_def)
    qed
  qed
  ultimately show ?thesis unfolding rt_def by blast
qed

lemmas rt_field = rt_field_last [OF _ _ refl]

text \<open>Two statements in sequence: a sequence breaks where its first statement does, if the second keeps the error.\<close>

lemma rt_bnd:
  assumes f: "rt X out inp s f v z z1" and g: "rt X out inp s g v z1 z2" and st: "s \<Longrightarrow> sticky X g"
  shows "rt X out inp s (\<lambda>v xs. bnd (f v xs) (\<lambda>(v, xs). g v xs)) v z z2"
proof -
  let ?h = "\<lambda>v xs. bnd (f v xs) (\<lambda>(v, xs). g v xs)"
  obtain b where b: "sends X out f v b" "receives X inp f z b z1" "s \<longrightarrow> rejects X inp f z b"
    using f unfolding rt_def by blast
  obtain c where c: "sends X out g v c" "receives X inp g z1 c z2" "s \<longrightarrow> rejects X inp g z1 c"
    using g unfolding rt_def by blast
  have "sends X out ?h v (b @ c)"
    unfolding sends_def
  proof (intro allI impI)
    fix xs assume "writing X xs"
    then obtain xs1 where 1: "f v xs = Inr (v, xs1)" "writing X xs1" "out xs1 = out xs @ b"
      using b(1) unfolding sends_def by blast
    then obtain xs2 where "g v xs1 = Inr (v, xs2)" "writing X xs2" "out xs2 = out xs1 @ c"
      using c(1) unfolding sends_def by blast
    with 1 show "\<exists>xs'. ?h v xs = Inr (v, xs') \<and> writing X xs' \<and> out xs' = out xs @ b @ c" by simp
  qed
  moreover have "receives X inp ?h z (b @ c) z2"
    unfolding receives_def
  proof (intro allI impI)
    fix xs r assume "reading X xs" "inp xs = (b @ c) @ r"
    then obtain xs1 where 1: "f z xs = Inr (z1, xs1)" "reading X xs1" "inp xs1 = c @ r"
      using b(2) unfolding receives_def by (metis append_assoc)
    then obtain xs2 where "g z1 xs1 = Inr (z2, xs2)" "reading X xs2" "inp xs2 = r"
      using c(2) unfolding receives_def by blast
    with 1 show "\<exists>xs'. ?h z xs = Inr (z2, xs') \<and> reading X xs' \<and> inp xs' = r" by simp
  qed
  moreover have "rejects X inp ?h z (b @ c)" if s
    unfolding rejects_def
  proof (intro allI impI)
    fix xs q assume r: "reading X xs" "q \<noteq> []" "inp xs @ q = b @ c"
    consider (early) q' where "inp xs @ q' = b" "q' \<noteq> []" | (late) d where "inp xs = b @ d" "d @ q = c"
      using r(3) by (auto simp: append_eq_append_conv2) blast
    then show "\<exists>w xs'. ?h z xs = Inr (w, xs') \<and> broken X xs'"
    proof cases
      case early
      then obtain w xs1 where 1: "f z xs = Inr (w, xs1)" "broken X xs1"
        using b(3) \<open>s\<close> r(1) unfolding rejects_def by blast
      then obtain w' xs2 where "g w xs1 = Inr (w', xs2)" "broken X xs2" using st [OF \<open>s\<close>] unfolding sticky_def by blast
      with 1 show ?thesis by simp
    next
      case late
      then obtain xs1 where 1: "f z xs = Inr (z1, xs1)" "reading X xs1" "inp xs1 = d"
        using b(2) r(1) unfolding receives_def by blast
      then obtain w xs2 where "g z1 xs1 = Inr (w, xs2)" "broken X xs2"
        using c(3) \<open>s\<close> r(2) late(2) unfolding rejects_def by blast
      with 1 show ?thesis by simp
    qed
  qed
  ultimately show ?thesis unfolding rt_def by blast
qed

lemma rt_Cons:
  assumes "rt X out inp s f v z z1" and "s \<Longrightarrow> sticky X (xseq fs)" and "rt X out inp s (xseq fs) v z1 z2"
  shows "rt X out inp s (xseq (f # fs)) v z z2"
  using rt_bnd [OF assms(1,3,2)] by simp

lemma rt_Cons_field:
  assumes "rt X out inp s f (get v) (get z) x" and "upd (\<lambda>_. get v) v = v" and "s \<Longrightarrow> sticky X (xseq fs)"
    and "rt X out inp s (xseq fs) v (upd (\<lambda>_. x) z) z2"
  shows "rt X out inp s (xseq (xfield get upd f # fs)) v z z2"
  by (rule rt_Cons [OF rt_field]) (use assms in auto)

lemma rt_last: "rt X out inp s f v z z' \<Longrightarrow> rt X out inp s (xseq [f]) v z z'"
  by (rule rt_Cons [OF _ sticky_Nil rt_Nil [OF refl]])

lemma rt_switch: "g v = g z \<Longrightarrow> rt X out inp s (g v) v z z' \<Longrightarrow> rt X out inp s (xswitch g) v z z'"
  unfolding rt_def sends_def receives_def rejects_def xswitch_def by simp

lemma rt_if:
  "(c \<Longrightarrow> rt X out inp s f v z z') \<Longrightarrow> (\<not> c \<Longrightarrow> rt X out inp s g v z z') \<Longrightarrow> rt X out inp s (if c then f else g) v z z'"
  by simp

text \<open>The rules for the statements of a method; the last statement of a sequence has to give the whole value.\<close>

lemmas xdr_seq = rt_last rt_field_last rt_Cons_field rt_switch rt_if

text \<open>An optional chain, and a chain from its first node on.\<close>

lemma rt_node:
  assumes "rt X out inp s head e z e'" and "rt X out inp s rest es [] es'" and st: "s \<Longrightarrow> sticky X rest"
  shows "rt X out inp s (xnode head rest) (e # es) [z] (e' # es')"
proof -
  let ?h = "\<lambda>p xs. bnd (xfield hd (\<lambda>f p. f (hd p) # tl p) head p xs) (\<lambda>(p, xs). xfield tl (\<lambda>f p. hd p # f (tl p)) rest p xs)"
  have "rt X out inp s ?h (e # es) [z] (e' # es')"
    by (rule rt_bnd [OF rt_field rt_field_last]) (use assms in \<open>auto intro: sticky_field\<close>)
  moreover have "xnode head rest p xs = ?h p xs" if "p \<noteq> []" for p xs
    using that by (cases p) (auto simp: xnode_def xfield_def bnd_assoc split_beta intro!: bnd_cong)
  ultimately show ?thesis unfolding rt_def sends_def receives_def rejects_def by simp
qed

lemma rt_uint32s_loop:
  assumes U32: "\<And>v z. rt X out inp False (xprim (XdrU32 X)) v z v"
    and "unat i + k = length v" "length v < 4294967296" "length z = length v" "take (unat i) z = take (unat i) v"
  shows "rt X out inp False (Xdr_uint32s_loop X k i) v z v"
  using assms(2-)
proof (induction k arbitrary: i z)
  case 0
  then have "Xdr_uint32s_loop X 0 i = xskip" by (intro ext) (simp add: xskip_def)
  with 0 show ?case by (simp add: rt_skip)
next
  case (Suc k)
  let ?i = "unat i"
  let ?step = "xfield (\<lambda>v. v ! ?i) (\<lambda>f v. v[?i := f (v ! ?i)]) (xprim (XdrU32 X))"
  have i: "?i < length v" "unat (i + 1) = Suc ?i"
    using Suc.prems by (simp_all add: unat_add_nowrap)
  have "rt X out inp False (\<lambda>v xs. bnd (?step v xs) (\<lambda>(v, xs). Xdr_uint32s_loop X k (i + 1) v xs)) v z v"
  proof (rule rt_bnd [OF rt_field])
    show "rt X out inp False (Xdr_uint32s_loop X k (i + 1)) v (z[?i := v ! ?i]) v"
      by (rule Suc.IH) (use Suc.prems i in \<open>auto simp: take_Suc_conv_app_nth list_update_append\<close>)
  qed (use U32 i in auto)
  moreover have "Xdr_uint32s_loop X (Suc k) i w xs = bnd (?step w xs) (\<lambda>(v, xs). Xdr_uint32s_loop X k (i + 1) v xs)"
    if "length w = length v" for w xs
    using i that by (simp add: xfield_def xprim_def split_beta Let_def)
  ultimately show ?case
    using Suc.prems(3) unfolding rt_def sends_def receives_def rejects_def by simp
qed

section \<open>The contract of the primitives\<close>

text \<open>A byte string is within its bound, where \<open>-1\<close> stands for the bound of the format.\<close>

definition xfits :: "int \<Rightarrow> byte list \<Rightarrow> bool" where
  "xfits m v \<longleftrightarrow> length v < 4294967296 \<and> (m = -1 \<or> int (length v) \<le> m)"

locale xdr_codec =
  fixes X :: "'xs xdrlib" and out inp :: "'xs \<Rightarrow> byte list"
  assumes U32 [xdr_rt]: "rt X out inp s (xprim (XdrU32 X)) v z v"
    and U64 [xdr_rt]: "rt X out inp s (xprim (XdrU64 X)) w y w"
    and Bool [xdr_rt]: "rt X out inp s (xprim (XdrBool X)) a c a"
    and String [xdr_rt]: "xfits m b \<Longrightarrow> rt X out inp s (xbytes (XdrString X) m) b d b"
    and VarArray [xdr_rt]: "xfits m b \<Longrightarrow> rt X out inp s (xbytes (XdrVarArray X) m) b d b"
    and Array [xdr_rt]: "length d = length b \<Longrightarrow> rt X out inp s (xprim (XdrArray X)) b d b"
    and SetSize_writing: "writing X xs \<Longrightarrow> EncodingSetSize X xs v (int k) = (of_nat k, xs)"
    and SetSize_reading: "reading X xs \<Longrightarrow> EncodingSetSize X xs v (int k) = (v, xs)"
    and sticky_U32 [sticky_rules]: "sticky X (xprim (XdrU32 X))"
    and sticky_U64 [sticky_rules]: "sticky X (xprim (XdrU64 X))"
    and sticky_Bool [sticky_rules]: "sticky X (xprim (XdrBool X))"
    and sticky_String [sticky_rules]: "sticky X (xbytes (XdrString X) m)"
    and sticky_VarArray [sticky_rules]: "sticky X (xbytes (XdrVarArray X) m)"
    and sticky_Array [sticky_rules]: "sticky X (xprim (XdrArray X))"
begin

lemma rt_opt:
  assumes "p \<noteq> [] \<Longrightarrow> rt X out inp False node p [new] p'" and p': "p = [] \<Longrightarrow> p' = []" and z: "z = []"
  shows "rt X out inp False (xopt X new node) p z p'"
proof -
  obtain b where b: "sends X out (xprim (XdrBool X)) (p \<noteq> []) b" "receives X inp (xprim (XdrBool X)) False b (p \<noteq> [])"
    using Bool [of False "p \<noteq> []" False] unfolding rt_def by blast
  obtain c where c: "p \<noteq> [] \<Longrightarrow> sends X out node p c" "p \<noteq> [] \<Longrightarrow> receives X inp node [new] c p'"
    using assms(1) unfolding rt_def by blast
  let ?c = "if p = [] then [] else c"
  have "sends X out (xopt X new node) p (b @ ?c)"
    unfolding sends_def
  proof (intro allI impI)
    fix xs assume w: "writing X xs"
    then obtain xs1 where 1: "XdrBool X xs (p \<noteq> []) = (p \<noteq> [], xs1)" "writing X xs1" "out xs1 = out xs @ b"
      using b(1) unfolding sends_def xprim_def by blast
    show "\<exists>xs'. xopt X new node p xs = Inr (p, xs') \<and> writing X xs' \<and> out xs' = out xs @ b @ ?c"
    proof (cases "p = []")
      case True
      with 1 w show ?thesis by (simp add: xopt_def writing_def)
    next
      case False
      then obtain xs2 where "node p xs1 = Inr (p, xs2)" "writing X xs2" "out xs2 = out xs1 @ c"
        using c(1) 1(2) unfolding sends_def by blast
      with 1 w False show ?thesis by (simp add: xopt_def writing_def)
    qed
  qed
  moreover have "receives X inp (xopt X new node) z (b @ ?c) p'"
    unfolding receives_def
  proof (intro allI impI)
    fix xs r assume rd: "reading X xs" "inp xs = (b @ ?c) @ r"
    then obtain xs1 where 1: "XdrBool X xs False = (p \<noteq> [], xs1)" "reading X xs1" "inp xs1 = ?c @ r"
      using b(2) unfolding receives_def xprim_def by (metis append_assoc sum.inject(2))
    show "\<exists>xs'. xopt X new node z xs = Inr (p', xs') \<and> reading X xs' \<and> inp xs' = r"
    proof (cases "p = []")
      case True
      with 1 rd(1) z p' show ?thesis by (simp add: xopt_def reading_def)
    next
      case False
      then obtain xs2 where "node [new] xs1 = Inr (p', xs2)" "reading X xs2" "inp xs2 = r"
        using c(2) 1(2,3) unfolding receives_def by auto
      with 1 rd(1) False show ?thesis by (simp add: xopt_def reading_def)
    qed
  qed
  ultimately show ?thesis unfolding rt_def by blast
qed

text \<open>A method that calls itself for the rest of the chain, where its first statements may call other methods.\<close>

lemma rt_chain:
  assumes F: "\<And>n. F (Suc n) = xnode (head n) (xopt X new (F n))"
    and head: "\<And>n e. m \<le> n \<Longrightarrow> e \<in> set p \<Longrightarrow> rt X out inp False (head n) e new (N e)"
    and p: "p \<noteq> []" "length p + m \<le> n"
  shows "rt X out inp False (F n) p [new] (map N p)"
  using head p
proof (induction p arbitrary: n)
  case (Cons e es)
  then obtain k where k: "n = Suc k" "length es + m \<le> k" by (cases n) auto
  have "rt X out inp False (xopt X new (F k)) es [] (map N es)"
    by (rule rt_opt) (use Cons k in auto)
  then show ?case
    unfolding k(1) F list.map by (intro rt_node) (use Cons.prems k in auto)
qed simp

lemma rt_uint32s [xdr_rt]:
  assumes v: "length v < 4294967296"
  shows "rt X out inp False (Xdr_uint32s X) v z v"
proof -
  have n: "unat (of_nat (length v) :: u32) = length v" using v by (simp add: unat_of_nat)
  obtain b where b: "sends X out (xprim (XdrU32 X)) (of_nat (length v)) b"
      "receives X inp (xprim (XdrU32 X)) 0 b (of_nat (length v))"
    using U32 [of False "of_nat (length v)" 0] unfolding rt_def by blast
  have "rt X out inp False (Xdr_uint32s_loop X (length v) 0) v (replicate (length v) 0) v"
    by (rule rt_uint32s_loop [OF U32]) (use v in auto)
  then obtain c where c: "sends X out (Xdr_uint32s_loop X (length v) 0) v c"
      "receives X inp (Xdr_uint32s_loop X (length v) 0) (replicate (length v) 0) c v"
    unfolding rt_def by blast
  have "sends X out (Xdr_uint32s X) v (b @ c)"
    unfolding sends_def
  proof (intro allI impI)
    fix xs assume w: "writing X xs"
    then obtain xs1 where 1: "XdrU32 X xs (of_nat (length v)) = (of_nat (length v), xs1)" "writing X xs1"
        "out xs1 = out xs @ b"
      using b(1) unfolding sends_def xprim_def by blast
    then obtain xs2 where "Xdr_uint32s_loop X (length v) 0 v xs1 = Inr (v, xs2)" "writing X xs2" "out xs2 = out xs1 @ c"
      using c(1) unfolding sends_def by blast
    with 1 w show "\<exists>xs'. Xdr_uint32s X v xs = Inr (v, xs') \<and> writing X xs' \<and> out xs' = out xs @ b @ c"
      by (simp add: Xdr_uint32s_def SetSize_writing n) (simp add: writing_def)
  qed
  moreover have "receives X inp (Xdr_uint32s X) z (b @ c) v"
    unfolding receives_def
  proof (intro allI impI)
    fix xs r assume rd: "reading X xs" "inp xs = (b @ c) @ r"
    then obtain xs1 where 1: "XdrU32 X xs 0 = (of_nat (length v), xs1)" "reading X xs1" "inp xs1 = c @ r"
      using b(2) unfolding receives_def xprim_def by (metis append_assoc sum.inject(2))
    then obtain xs2 where "Xdr_uint32s_loop X (length v) 0 (replicate (length v) 0) xs1 = Inr (v, xs2)"
        "reading X xs2" "inp xs2 = r"
      using c(2) unfolding receives_def by blast
    with 1 rd(1) show "\<exists>xs'. Xdr_uint32s X z xs = Inr (v, xs') \<and> reading X xs' \<and> inp xs' = r"
      by (simp add: Xdr_uint32s_def SetSize_reading n) (simp add: reading_def)
  qed
  ultimately show ?thesis unfolding rt_def by blast
qed

end

end
