(* ===== verification/XdrCodecs.thy ===== *)
theory XdrCodecs
  imports XdrSpec
begin

text \<open>
  The methods \<^verbatim>\<open>Xdr\<close> of \<^verbatim>\<open>nfstypes/nfs_xdr.go\<close> under the contract of the primitives. \<open>fit_T\<close> holds of the values that can
  be sent: byte strings are within their bounds and fixed arrays have their length, in the arms of the unions
  that are sent; a chain is not longer than the depth of the calls. \<open>nrm_T\<close> is the value that arrives: the arms
  that are not sent are the zero value. Every method decodes what it encodes, up to \<open>nrm_T\<close>.
\<close>

section \<open>Values that can be sent\<close>

definition fit_Nfs_fh3 :: "Nfs_fh3 \<Rightarrow> bool" where
  "fit_Nfs_fh3 v \<longleftrightarrow> xfits (uint NFS3_FHSIZE) (Nfs_fh3_Data v)"

definition fit_Post_op_fh3 :: "Post_op_fh3 \<Rightarrow> bool" where
  "fit_Post_op_fh3 v \<longleftrightarrow> (Post_op_fh3_Handle_follows v \<longrightarrow> fit_Nfs_fh3 (Post_op_fh3_Handle v))"

definition fit_Diropargs3 :: "Diropargs3 \<Rightarrow> bool" where
  "fit_Diropargs3 v \<longleftrightarrow> fit_Nfs_fh3 (Diropargs3_Dir v)
      \<and> xfits (-1) (Diropargs3_Name v)"

definition fit_GETATTR3args :: "GETATTR3args \<Rightarrow> bool" where
  "fit_GETATTR3args v \<longleftrightarrow> fit_Nfs_fh3 (GETATTR3args_Object v)"

definition fit_SETATTR3args :: "SETATTR3args \<Rightarrow> bool" where
  "fit_SETATTR3args v \<longleftrightarrow> fit_Nfs_fh3 (SETATTR3args_Object v)"

definition fit_LOOKUP3args :: "LOOKUP3args \<Rightarrow> bool" where
  "fit_LOOKUP3args v \<longleftrightarrow> fit_Diropargs3 (LOOKUP3args_What v)"

definition fit_LOOKUP3resok :: "LOOKUP3resok \<Rightarrow> bool" where
  "fit_LOOKUP3resok v \<longleftrightarrow> fit_Nfs_fh3 (LOOKUP3resok_Object v)"

definition fit_LOOKUP3res :: "LOOKUP3res \<Rightarrow> bool" where
  "fit_LOOKUP3res v \<longleftrightarrow> (LOOKUP3res_Status v = NFS3_OK \<longrightarrow> fit_LOOKUP3resok (LOOKUP3res_Resok v))"

definition fit_ACCESS3args :: "ACCESS3args \<Rightarrow> bool" where
  "fit_ACCESS3args v \<longleftrightarrow> fit_Nfs_fh3 (ACCESS3args_Object v)"

definition fit_READLINK3args :: "READLINK3args \<Rightarrow> bool" where
  "fit_READLINK3args v \<longleftrightarrow> fit_Nfs_fh3 (READLINK3args_Symlink v)"

definition fit_READLINK3resok :: "READLINK3resok \<Rightarrow> bool" where
  "fit_READLINK3resok v \<longleftrightarrow> xfits (-1) (READLINK3resok_Data v)"

definition fit_READLINK3res :: "READLINK3res \<Rightarrow> bool" where
  "fit_READLINK3res v \<longleftrightarrow> (READLINK3res_Status v = NFS3_OK \<longrightarrow> fit_READLINK3resok (READLINK3res_Resok v))"

definition fit_READ3args :: "READ3args \<Rightarrow> bool" where
  "fit_READ3args v \<longleftrightarrow> fit_Nfs_fh3 (READ3args_File v)"

definition fit_READ3resok :: "READ3resok \<Rightarrow> bool" where
  "fit_READ3resok v \<longleftrightarrow> xfits (-1) (READ3resok_Data v)"

definition fit_READ3res :: "READ3res \<Rightarrow> bool" where
  "fit_READ3res v \<longleftrightarrow> (READ3res_Status v = NFS3_OK \<longrightarrow> fit_READ3resok (READ3res_Resok v))"

definition fit_WRITE3args :: "WRITE3args \<Rightarrow> bool" where
  "fit_WRITE3args v \<longleftrightarrow> fit_Nfs_fh3 (WRITE3args_File v)
      \<and> xfits (-1) (WRITE3args_Data v)"

definition fit_WRITE3resok :: "WRITE3resok \<Rightarrow> bool" where
  "fit_WRITE3resok v \<longleftrightarrow> length (WRITE3resok_Verf v) = 8"

definition fit_WRITE3res :: "WRITE3res \<Rightarrow> bool" where
  "fit_WRITE3res v \<longleftrightarrow> (WRITE3res_Status v = NFS3_OK \<longrightarrow> fit_WRITE3resok (WRITE3res_Resok v))"

definition fit_Createhow3 :: "Createhow3 \<Rightarrow> bool" where
  "fit_Createhow3 v \<longleftrightarrow> (if Createhow3_Mode v = UNCHECKED \<or> Createhow3_Mode v = GUARDED then True
      else if Createhow3_Mode v = EXCLUSIVE then length (Createhow3_Verf v) = 8
      else True)"

definition fit_CREATE3args :: "CREATE3args \<Rightarrow> bool" where
  "fit_CREATE3args v \<longleftrightarrow> fit_Diropargs3 (CREATE3args_Where v)
      \<and> fit_Createhow3 (CREATE3args_How v)"

definition fit_CREATE3resok :: "CREATE3resok \<Rightarrow> bool" where
  "fit_CREATE3resok v \<longleftrightarrow> fit_Post_op_fh3 (CREATE3resok_Obj v)"

definition fit_CREATE3res :: "CREATE3res \<Rightarrow> bool" where
  "fit_CREATE3res v \<longleftrightarrow> (CREATE3res_Status v = NFS3_OK \<longrightarrow> fit_CREATE3resok (CREATE3res_Resok v))"

definition fit_MKDIR3args :: "MKDIR3args \<Rightarrow> bool" where
  "fit_MKDIR3args v \<longleftrightarrow> fit_Diropargs3 (MKDIR3args_Where v)"

definition fit_MKDIR3resok :: "MKDIR3resok \<Rightarrow> bool" where
  "fit_MKDIR3resok v \<longleftrightarrow> fit_Post_op_fh3 (MKDIR3resok_Obj v)"

definition fit_MKDIR3res :: "MKDIR3res \<Rightarrow> bool" where
  "fit_MKDIR3res v \<longleftrightarrow> (MKDIR3res_Status v = NFS3_OK \<longrightarrow> fit_MKDIR3resok (MKDIR3res_Resok v))"

definition fit_Symlinkdata3 :: "Symlinkdata3 \<Rightarrow> bool" where
  "fit_Symlinkdata3 v \<longleftrightarrow> xfits (-1) (Symlinkdata3_Symlink_data v)"

definition fit_SYMLINK3args :: "SYMLINK3args \<Rightarrow> bool" where
  "fit_SYMLINK3args v \<longleftrightarrow> fit_Diropargs3 (SYMLINK3args_Where v)
      \<and> fit_Symlinkdata3 (SYMLINK3args_Symlink v)"

definition fit_SYMLINK3resok :: "SYMLINK3resok \<Rightarrow> bool" where
  "fit_SYMLINK3resok v \<longleftrightarrow> fit_Post_op_fh3 (SYMLINK3resok_Obj v)"

definition fit_SYMLINK3res :: "SYMLINK3res \<Rightarrow> bool" where
  "fit_SYMLINK3res v \<longleftrightarrow> (SYMLINK3res_Status v = NFS3_OK \<longrightarrow> fit_SYMLINK3resok (SYMLINK3res_Resok v))"

definition fit_MKNOD3args :: "MKNOD3args \<Rightarrow> bool" where
  "fit_MKNOD3args v \<longleftrightarrow> fit_Diropargs3 (MKNOD3args_Where v)"

definition fit_MKNOD3resok :: "MKNOD3resok \<Rightarrow> bool" where
  "fit_MKNOD3resok v \<longleftrightarrow> fit_Post_op_fh3 (MKNOD3resok_Obj v)"

definition fit_MKNOD3res :: "MKNOD3res \<Rightarrow> bool" where
  "fit_MKNOD3res v \<longleftrightarrow> (MKNOD3res_Status v = NFS3_OK \<longrightarrow> fit_MKNOD3resok (MKNOD3res_Resok v))"

definition fit_REMOVE3args :: "REMOVE3args \<Rightarrow> bool" where
  "fit_REMOVE3args v \<longleftrightarrow> fit_Diropargs3 (REMOVE3args_Object v)"

definition fit_RMDIR3args :: "RMDIR3args \<Rightarrow> bool" where
  "fit_RMDIR3args v \<longleftrightarrow> fit_Diropargs3 (RMDIR3args_Object v)"

definition fit_RENAME3args :: "RENAME3args \<Rightarrow> bool" where
  "fit_RENAME3args v \<longleftrightarrow> fit_Diropargs3 (RENAME3args_From v)
      \<and> fit_Diropargs3 (RENAME3args_To v)"

definition fit_LINK3args :: "LINK3args \<Rightarrow> bool" where
  "fit_LINK3args v \<longleftrightarrow> fit_Nfs_fh3 (LINK3args_File v)
      \<and> fit_Diropargs3 (LINK3args_Link v)"

definition fit_READDIR3args :: "READDIR3args \<Rightarrow> bool" where
  "fit_READDIR3args v \<longleftrightarrow> fit_Nfs_fh3 (READDIR3args_Dir v)
      \<and> length (READDIR3args_Cookieverf v) = 8"

definition fit_Entry3 :: "Entry3 \<Rightarrow> bool" where
  "fit_Entry3 v \<longleftrightarrow> xfits (-1) (Entry3_Name v)"

definition fit_Dirlist3 :: "nat \<Rightarrow> Dirlist3 \<Rightarrow> bool" where
  "fit_Dirlist3 n v \<longleftrightarrow> length (Dirlist3_Entries v) \<le> n \<and> list_all fit_Entry3 (Dirlist3_Entries v)"

definition fit_READDIR3resok :: "nat \<Rightarrow> READDIR3resok \<Rightarrow> bool" where
  "fit_READDIR3resok n v \<longleftrightarrow> length (READDIR3resok_Cookieverf v) = 8
      \<and> fit_Dirlist3 n (READDIR3resok_Reply v)"

definition fit_READDIR3res :: "nat \<Rightarrow> READDIR3res \<Rightarrow> bool" where
  "fit_READDIR3res n v \<longleftrightarrow> (READDIR3res_Status v = NFS3_OK \<longrightarrow> fit_READDIR3resok n (READDIR3res_Resok v))"

definition fit_READDIRPLUS3args :: "READDIRPLUS3args \<Rightarrow> bool" where
  "fit_READDIRPLUS3args v \<longleftrightarrow> fit_Nfs_fh3 (READDIRPLUS3args_Dir v)
      \<and> length (READDIRPLUS3args_Cookieverf v) = 8"

definition fit_Entryplus3 :: "Entryplus3 \<Rightarrow> bool" where
  "fit_Entryplus3 v \<longleftrightarrow> xfits (-1) (Entryplus3_Name v)
      \<and> fit_Post_op_fh3 (Entryplus3_Name_handle v)"

definition fit_Dirlistplus3 :: "nat \<Rightarrow> Dirlistplus3 \<Rightarrow> bool" where
  "fit_Dirlistplus3 n v \<longleftrightarrow> length (Dirlistplus3_Entries v) \<le> n \<and> list_all fit_Entryplus3 (Dirlistplus3_Entries v)"

definition fit_READDIRPLUS3resok :: "nat \<Rightarrow> READDIRPLUS3resok \<Rightarrow> bool" where
  "fit_READDIRPLUS3resok n v \<longleftrightarrow> length (READDIRPLUS3resok_Cookieverf v) = 8
      \<and> fit_Dirlistplus3 n (READDIRPLUS3resok_Reply v)"

definition fit_READDIRPLUS3res :: "nat \<Rightarrow> READDIRPLUS3res \<Rightarrow> bool" where
  "fit_READDIRPLUS3res n v \<longleftrightarrow> (READDIRPLUS3res_Status v = NFS3_OK \<longrightarrow> fit_READDIRPLUS3resok n (READDIRPLUS3res_Resok v))"

definition fit_FSSTAT3args :: "FSSTAT3args \<Rightarrow> bool" where
  "fit_FSSTAT3args v \<longleftrightarrow> fit_Nfs_fh3 (FSSTAT3args_Fsroot v)"

definition fit_FSINFO3args :: "FSINFO3args \<Rightarrow> bool" where
  "fit_FSINFO3args v \<longleftrightarrow> fit_Nfs_fh3 (FSINFO3args_Fsroot v)"

definition fit_PATHCONF3args :: "PATHCONF3args \<Rightarrow> bool" where
  "fit_PATHCONF3args v \<longleftrightarrow> fit_Nfs_fh3 (PATHCONF3args_Object v)"

definition fit_COMMIT3args :: "COMMIT3args \<Rightarrow> bool" where
  "fit_COMMIT3args v \<longleftrightarrow> fit_Nfs_fh3 (COMMIT3args_File v)"

definition fit_COMMIT3resok :: "COMMIT3resok \<Rightarrow> bool" where
  "fit_COMMIT3resok v \<longleftrightarrow> length (COMMIT3resok_Verf v) = 8"

definition fit_COMMIT3res :: "COMMIT3res \<Rightarrow> bool" where
  "fit_COMMIT3res v \<longleftrightarrow> (COMMIT3res_Status v = NFS3_OK \<longrightarrow> fit_COMMIT3resok (COMMIT3res_Resok v))"

definition fit_Mountres3_ok :: "Mountres3_ok \<Rightarrow> bool" where
  "fit_Mountres3_ok v \<longleftrightarrow> xfits (uint FHSIZE3) (Mountres3_ok_Fhandle v)
      \<and> length (Mountres3_ok_Auth_flavors v) < 4294967296"

definition fit_Mountres3 :: "Mountres3 \<Rightarrow> bool" where
  "fit_Mountres3 v \<longleftrightarrow> (Mountres3_Fhs_status v = MNT3_OK \<longrightarrow> fit_Mountres3_ok (Mountres3_Mountinfo v))"

definition fit_Mount3 :: "Mount3 \<Rightarrow> bool" where
  "fit_Mount3 v \<longleftrightarrow> xfits (uint MNTNAMLEN3) (Mount3_Ml_hostname v)
      \<and> xfits (uint MNTPATHLEN3) (Mount3_Ml_directory v)"

definition fit_Mountopt3 :: "nat \<Rightarrow> Mountopt3 \<Rightarrow> bool" where
  "fit_Mountopt3 n v \<longleftrightarrow> length (Mountopt3_P v) \<le> n \<and> list_all fit_Mount3 (Mountopt3_P v)"

definition fit_Groups3 :: "Groups3 \<Rightarrow> bool" where
  "fit_Groups3 v \<longleftrightarrow> xfits (uint MNTNAMLEN3) (Groups3_Gr_name v)"

definition fit_Exports3 :: "nat \<Rightarrow> Exports3 \<Rightarrow> bool" where
  "fit_Exports3 n v \<longleftrightarrow> xfits (uint MNTPATHLEN3) (Exports3_Ex_dir v)
      \<and> length (Exports3_Ex_groups v) \<le> n \<and> list_all fit_Groups3 (Exports3_Ex_groups v)"

definition fit_Exportsopt3 :: "nat \<Rightarrow> Exportsopt3 \<Rightarrow> bool" where
  "fit_Exportsopt3 n v \<longleftrightarrow> length (Exportsopt3_P v) \<le> n \<and> list_all (fit_Exports3 (n - length (Exportsopt3_P v))) (Exportsopt3_P v)"

section \<open>Values that arrive\<close>

definition nrm_Post_op_attr :: "Post_op_attr \<Rightarrow> Post_op_attr" where
  "nrm_Post_op_attr v = (if Post_op_attr_Attributes_follow v then v
      else v\<lparr>Post_op_attr_Attributes := zero_Fattr3\<rparr>)"

definition nrm_Pre_op_attr :: "Pre_op_attr \<Rightarrow> Pre_op_attr" where
  "nrm_Pre_op_attr v = (if Pre_op_attr_Attributes_follow v then v
      else v\<lparr>Pre_op_attr_Attributes := zero_Wcc_attr\<rparr>)"

definition nrm_Wcc_data :: "Wcc_data \<Rightarrow> Wcc_data" where
  "nrm_Wcc_data v = v\<lparr>Wcc_data_Before := nrm_Pre_op_attr (Wcc_data_Before v),
      Wcc_data_After := nrm_Post_op_attr (Wcc_data_After v)\<rparr>"

definition nrm_Post_op_fh3 :: "Post_op_fh3 \<Rightarrow> Post_op_fh3" where
  "nrm_Post_op_fh3 v = (if Post_op_fh3_Handle_follows v then v
      else v\<lparr>Post_op_fh3_Handle := zero_Nfs_fh3\<rparr>)"

definition nrm_Set_mode3 :: "Set_mode3 \<Rightarrow> Set_mode3" where
  "nrm_Set_mode3 v = (if Set_mode3_Set_it v then v
      else v\<lparr>Set_mode3_Mode := 0\<rparr>)"

definition nrm_Set_uid3 :: "Set_uid3 \<Rightarrow> Set_uid3" where
  "nrm_Set_uid3 v = (if Set_uid3_Set_it v then v
      else v\<lparr>Set_uid3_Uid := 0\<rparr>)"

definition nrm_Set_gid3 :: "Set_gid3 \<Rightarrow> Set_gid3" where
  "nrm_Set_gid3 v = (if Set_gid3_Set_it v then v
      else v\<lparr>Set_gid3_Gid := 0\<rparr>)"

definition nrm_Set_size3 :: "Set_size3 \<Rightarrow> Set_size3" where
  "nrm_Set_size3 v = (if Set_size3_Set_it v then v
      else v\<lparr>Set_size3_Size := 0\<rparr>)"

definition nrm_Set_atime :: "Set_atime \<Rightarrow> Set_atime" where
  "nrm_Set_atime v = (if Set_atime_Set_it v = SET_TO_CLIENT_TIME then v
      else v\<lparr>Set_atime_Atime := zero_Nfstime3\<rparr>)"

definition nrm_Set_mtime :: "Set_mtime \<Rightarrow> Set_mtime" where
  "nrm_Set_mtime v = (if Set_mtime_Set_it v = SET_TO_CLIENT_TIME then v
      else v\<lparr>Set_mtime_Mtime := zero_Nfstime3\<rparr>)"

definition nrm_Sattr3 :: "Sattr3 \<Rightarrow> Sattr3" where
  "nrm_Sattr3 v = v\<lparr>Sattr3_Mode := nrm_Set_mode3 (Sattr3_Mode v),
      Sattr3_Uid := nrm_Set_uid3 (Sattr3_Uid v),
      Sattr3_Gid := nrm_Set_gid3 (Sattr3_Gid v),
      Sattr3_Size := nrm_Set_size3 (Sattr3_Size v),
      Sattr3_Atime := nrm_Set_atime (Sattr3_Atime v),
      Sattr3_Mtime := nrm_Set_mtime (Sattr3_Mtime v)\<rparr>"

definition nrm_GETATTR3res :: "GETATTR3res \<Rightarrow> GETATTR3res" where
  "nrm_GETATTR3res v = (if GETATTR3res_Status v = NFS3_OK then v
      else v\<lparr>GETATTR3res_Resok := zero_GETATTR3resok\<rparr>)"

definition nrm_Sattrguard3 :: "Sattrguard3 \<Rightarrow> Sattrguard3" where
  "nrm_Sattrguard3 v = (if Sattrguard3_Check v then v
      else v\<lparr>Sattrguard3_Obj_ctime := zero_Nfstime3\<rparr>)"

definition nrm_SETATTR3args :: "SETATTR3args \<Rightarrow> SETATTR3args" where
  "nrm_SETATTR3args v = v\<lparr>SETATTR3args_New_attributes := nrm_Sattr3 (SETATTR3args_New_attributes v),
      SETATTR3args_Guard := nrm_Sattrguard3 (SETATTR3args_Guard v)\<rparr>"

definition nrm_SETATTR3resok :: "SETATTR3resok \<Rightarrow> SETATTR3resok" where
  "nrm_SETATTR3resok v = v\<lparr>SETATTR3resok_Obj_wcc := nrm_Wcc_data (SETATTR3resok_Obj_wcc v)\<rparr>"

definition nrm_SETATTR3resfail :: "SETATTR3resfail \<Rightarrow> SETATTR3resfail" where
  "nrm_SETATTR3resfail v = v\<lparr>SETATTR3resfail_Obj_wcc := nrm_Wcc_data (SETATTR3resfail_Obj_wcc v)\<rparr>"

definition nrm_SETATTR3res :: "SETATTR3res \<Rightarrow> SETATTR3res" where
  "nrm_SETATTR3res v = (if SETATTR3res_Status v = NFS3_OK then v\<lparr>SETATTR3res_Resok := nrm_SETATTR3resok (SETATTR3res_Resok v), SETATTR3res_Resfail := zero_SETATTR3resfail\<rparr>
      else v\<lparr>SETATTR3res_Resfail := nrm_SETATTR3resfail (SETATTR3res_Resfail v), SETATTR3res_Resok := zero_SETATTR3resok\<rparr>)"

definition nrm_LOOKUP3resok :: "LOOKUP3resok \<Rightarrow> LOOKUP3resok" where
  "nrm_LOOKUP3resok v = v\<lparr>LOOKUP3resok_Obj_attributes := nrm_Post_op_attr (LOOKUP3resok_Obj_attributes v),
      LOOKUP3resok_Dir_attributes := nrm_Post_op_attr (LOOKUP3resok_Dir_attributes v)\<rparr>"

definition nrm_LOOKUP3resfail :: "LOOKUP3resfail \<Rightarrow> LOOKUP3resfail" where
  "nrm_LOOKUP3resfail v = v\<lparr>LOOKUP3resfail_Dir_attributes := nrm_Post_op_attr (LOOKUP3resfail_Dir_attributes v)\<rparr>"

definition nrm_LOOKUP3res :: "LOOKUP3res \<Rightarrow> LOOKUP3res" where
  "nrm_LOOKUP3res v = (if LOOKUP3res_Status v = NFS3_OK then v\<lparr>LOOKUP3res_Resok := nrm_LOOKUP3resok (LOOKUP3res_Resok v), LOOKUP3res_Resfail := zero_LOOKUP3resfail\<rparr>
      else v\<lparr>LOOKUP3res_Resfail := nrm_LOOKUP3resfail (LOOKUP3res_Resfail v), LOOKUP3res_Resok := zero_LOOKUP3resok\<rparr>)"

definition nrm_ACCESS3resok :: "ACCESS3resok \<Rightarrow> ACCESS3resok" where
  "nrm_ACCESS3resok v = v\<lparr>ACCESS3resok_Obj_attributes := nrm_Post_op_attr (ACCESS3resok_Obj_attributes v)\<rparr>"

definition nrm_ACCESS3resfail :: "ACCESS3resfail \<Rightarrow> ACCESS3resfail" where
  "nrm_ACCESS3resfail v = v\<lparr>ACCESS3resfail_Obj_attributes := nrm_Post_op_attr (ACCESS3resfail_Obj_attributes v)\<rparr>"

definition nrm_ACCESS3res :: "ACCESS3res \<Rightarrow> ACCESS3res" where
  "nrm_ACCESS3res v = (if ACCESS3res_Status v = NFS3_OK then v\<lparr>ACCESS3res_Resok := nrm_ACCESS3resok (ACCESS3res_Resok v), ACCESS3res_Resfail := zero_ACCESS3resfail\<rparr>
      else v\<lparr>ACCESS3res_Resfail := nrm_ACCESS3resfail (ACCESS3res_Resfail v), ACCESS3res_Resok := zero_ACCESS3resok\<rparr>)"

definition nrm_READLINK3resok :: "READLINK3resok \<Rightarrow> READLINK3resok" where
  "nrm_READLINK3resok v = v\<lparr>READLINK3resok_Symlink_attributes := nrm_Post_op_attr (READLINK3resok_Symlink_attributes v)\<rparr>"

definition nrm_READLINK3resfail :: "READLINK3resfail \<Rightarrow> READLINK3resfail" where
  "nrm_READLINK3resfail v = v\<lparr>READLINK3resfail_Symlink_attributes := nrm_Post_op_attr (READLINK3resfail_Symlink_attributes v)\<rparr>"

definition nrm_READLINK3res :: "READLINK3res \<Rightarrow> READLINK3res" where
  "nrm_READLINK3res v = (if READLINK3res_Status v = NFS3_OK then v\<lparr>READLINK3res_Resok := nrm_READLINK3resok (READLINK3res_Resok v), READLINK3res_Resfail := zero_READLINK3resfail\<rparr>
      else v\<lparr>READLINK3res_Resfail := nrm_READLINK3resfail (READLINK3res_Resfail v), READLINK3res_Resok := zero_READLINK3resok\<rparr>)"

definition nrm_READ3resok :: "READ3resok \<Rightarrow> READ3resok" where
  "nrm_READ3resok v = v\<lparr>READ3resok_File_attributes := nrm_Post_op_attr (READ3resok_File_attributes v)\<rparr>"

definition nrm_READ3resfail :: "READ3resfail \<Rightarrow> READ3resfail" where
  "nrm_READ3resfail v = v\<lparr>READ3resfail_File_attributes := nrm_Post_op_attr (READ3resfail_File_attributes v)\<rparr>"

definition nrm_READ3res :: "READ3res \<Rightarrow> READ3res" where
  "nrm_READ3res v = (if READ3res_Status v = NFS3_OK then v\<lparr>READ3res_Resok := nrm_READ3resok (READ3res_Resok v), READ3res_Resfail := zero_READ3resfail\<rparr>
      else v\<lparr>READ3res_Resfail := nrm_READ3resfail (READ3res_Resfail v), READ3res_Resok := zero_READ3resok\<rparr>)"

definition nrm_WRITE3resok :: "WRITE3resok \<Rightarrow> WRITE3resok" where
  "nrm_WRITE3resok v = v\<lparr>WRITE3resok_File_wcc := nrm_Wcc_data (WRITE3resok_File_wcc v)\<rparr>"

definition nrm_WRITE3resfail :: "WRITE3resfail \<Rightarrow> WRITE3resfail" where
  "nrm_WRITE3resfail v = v\<lparr>WRITE3resfail_File_wcc := nrm_Wcc_data (WRITE3resfail_File_wcc v)\<rparr>"

definition nrm_WRITE3res :: "WRITE3res \<Rightarrow> WRITE3res" where
  "nrm_WRITE3res v = (if WRITE3res_Status v = NFS3_OK then v\<lparr>WRITE3res_Resok := nrm_WRITE3resok (WRITE3res_Resok v), WRITE3res_Resfail := zero_WRITE3resfail\<rparr>
      else v\<lparr>WRITE3res_Resfail := nrm_WRITE3resfail (WRITE3res_Resfail v), WRITE3res_Resok := zero_WRITE3resok\<rparr>)"

definition nrm_Createhow3 :: "Createhow3 \<Rightarrow> Createhow3" where
  "nrm_Createhow3 v = (if Createhow3_Mode v = UNCHECKED \<or> Createhow3_Mode v = GUARDED then v\<lparr>Createhow3_Obj_attributes := nrm_Sattr3 (Createhow3_Obj_attributes v), Createhow3_Verf := replicate 8 0\<rparr>
      else if Createhow3_Mode v = EXCLUSIVE then v\<lparr>Createhow3_Obj_attributes := zero_Sattr3\<rparr>
      else v\<lparr>Createhow3_Obj_attributes := zero_Sattr3, Createhow3_Verf := replicate 8 0\<rparr>)"

definition nrm_CREATE3args :: "CREATE3args \<Rightarrow> CREATE3args" where
  "nrm_CREATE3args v = v\<lparr>CREATE3args_How := nrm_Createhow3 (CREATE3args_How v)\<rparr>"

definition nrm_CREATE3resok :: "CREATE3resok \<Rightarrow> CREATE3resok" where
  "nrm_CREATE3resok v = v\<lparr>CREATE3resok_Obj := nrm_Post_op_fh3 (CREATE3resok_Obj v),
      CREATE3resok_Obj_attributes := nrm_Post_op_attr (CREATE3resok_Obj_attributes v),
      CREATE3resok_Dir_wcc := nrm_Wcc_data (CREATE3resok_Dir_wcc v)\<rparr>"

definition nrm_CREATE3resfail :: "CREATE3resfail \<Rightarrow> CREATE3resfail" where
  "nrm_CREATE3resfail v = v\<lparr>CREATE3resfail_Dir_wcc := nrm_Wcc_data (CREATE3resfail_Dir_wcc v)\<rparr>"

definition nrm_CREATE3res :: "CREATE3res \<Rightarrow> CREATE3res" where
  "nrm_CREATE3res v = (if CREATE3res_Status v = NFS3_OK then v\<lparr>CREATE3res_Resok := nrm_CREATE3resok (CREATE3res_Resok v), CREATE3res_Resfail := zero_CREATE3resfail\<rparr>
      else v\<lparr>CREATE3res_Resfail := nrm_CREATE3resfail (CREATE3res_Resfail v), CREATE3res_Resok := zero_CREATE3resok\<rparr>)"

definition nrm_MKDIR3args :: "MKDIR3args \<Rightarrow> MKDIR3args" where
  "nrm_MKDIR3args v = v\<lparr>MKDIR3args_Attributes := nrm_Sattr3 (MKDIR3args_Attributes v)\<rparr>"

definition nrm_MKDIR3resok :: "MKDIR3resok \<Rightarrow> MKDIR3resok" where
  "nrm_MKDIR3resok v = v\<lparr>MKDIR3resok_Obj := nrm_Post_op_fh3 (MKDIR3resok_Obj v),
      MKDIR3resok_Obj_attributes := nrm_Post_op_attr (MKDIR3resok_Obj_attributes v),
      MKDIR3resok_Dir_wcc := nrm_Wcc_data (MKDIR3resok_Dir_wcc v)\<rparr>"

definition nrm_MKDIR3resfail :: "MKDIR3resfail \<Rightarrow> MKDIR3resfail" where
  "nrm_MKDIR3resfail v = v\<lparr>MKDIR3resfail_Dir_wcc := nrm_Wcc_data (MKDIR3resfail_Dir_wcc v)\<rparr>"

definition nrm_MKDIR3res :: "MKDIR3res \<Rightarrow> MKDIR3res" where
  "nrm_MKDIR3res v = (if MKDIR3res_Status v = NFS3_OK then v\<lparr>MKDIR3res_Resok := nrm_MKDIR3resok (MKDIR3res_Resok v), MKDIR3res_Resfail := zero_MKDIR3resfail\<rparr>
      else v\<lparr>MKDIR3res_Resfail := nrm_MKDIR3resfail (MKDIR3res_Resfail v), MKDIR3res_Resok := zero_MKDIR3resok\<rparr>)"

definition nrm_Symlinkdata3 :: "Symlinkdata3 \<Rightarrow> Symlinkdata3" where
  "nrm_Symlinkdata3 v = v\<lparr>Symlinkdata3_Symlink_attributes := nrm_Sattr3 (Symlinkdata3_Symlink_attributes v)\<rparr>"

definition nrm_SYMLINK3args :: "SYMLINK3args \<Rightarrow> SYMLINK3args" where
  "nrm_SYMLINK3args v = v\<lparr>SYMLINK3args_Symlink := nrm_Symlinkdata3 (SYMLINK3args_Symlink v)\<rparr>"

definition nrm_SYMLINK3resok :: "SYMLINK3resok \<Rightarrow> SYMLINK3resok" where
  "nrm_SYMLINK3resok v = v\<lparr>SYMLINK3resok_Obj := nrm_Post_op_fh3 (SYMLINK3resok_Obj v),
      SYMLINK3resok_Obj_attributes := nrm_Post_op_attr (SYMLINK3resok_Obj_attributes v),
      SYMLINK3resok_Dir_wcc := nrm_Wcc_data (SYMLINK3resok_Dir_wcc v)\<rparr>"

definition nrm_SYMLINK3resfail :: "SYMLINK3resfail \<Rightarrow> SYMLINK3resfail" where
  "nrm_SYMLINK3resfail v = v\<lparr>SYMLINK3resfail_Dir_wcc := nrm_Wcc_data (SYMLINK3resfail_Dir_wcc v)\<rparr>"

definition nrm_SYMLINK3res :: "SYMLINK3res \<Rightarrow> SYMLINK3res" where
  "nrm_SYMLINK3res v = (if SYMLINK3res_Status v = NFS3_OK then v\<lparr>SYMLINK3res_Resok := nrm_SYMLINK3resok (SYMLINK3res_Resok v), SYMLINK3res_Resfail := zero_SYMLINK3resfail\<rparr>
      else v\<lparr>SYMLINK3res_Resfail := nrm_SYMLINK3resfail (SYMLINK3res_Resfail v), SYMLINK3res_Resok := zero_SYMLINK3resok\<rparr>)"

definition nrm_Devicedata3 :: "Devicedata3 \<Rightarrow> Devicedata3" where
  "nrm_Devicedata3 v = v\<lparr>Devicedata3_Dev_attributes := nrm_Sattr3 (Devicedata3_Dev_attributes v)\<rparr>"

definition nrm_Mknoddata3 :: "Mknoddata3 \<Rightarrow> Mknoddata3" where
  "nrm_Mknoddata3 v = (if Mknoddata3_Ftype v = NF3CHR \<or> Mknoddata3_Ftype v = NF3BLK then v\<lparr>Mknoddata3_Device := nrm_Devicedata3 (Mknoddata3_Device v), Mknoddata3_Pipe_attributes := zero_Sattr3\<rparr>
      else if Mknoddata3_Ftype v = NF3SOCK \<or> Mknoddata3_Ftype v = NF3FIFO then v\<lparr>Mknoddata3_Pipe_attributes := nrm_Sattr3 (Mknoddata3_Pipe_attributes v), Mknoddata3_Device := zero_Devicedata3\<rparr>
      else v\<lparr>Mknoddata3_Device := zero_Devicedata3, Mknoddata3_Pipe_attributes := zero_Sattr3\<rparr>)"

definition nrm_MKNOD3args :: "MKNOD3args \<Rightarrow> MKNOD3args" where
  "nrm_MKNOD3args v = v\<lparr>MKNOD3args_What := nrm_Mknoddata3 (MKNOD3args_What v)\<rparr>"

definition nrm_MKNOD3resok :: "MKNOD3resok \<Rightarrow> MKNOD3resok" where
  "nrm_MKNOD3resok v = v\<lparr>MKNOD3resok_Obj := nrm_Post_op_fh3 (MKNOD3resok_Obj v),
      MKNOD3resok_Obj_attributes := nrm_Post_op_attr (MKNOD3resok_Obj_attributes v),
      MKNOD3resok_Dir_wcc := nrm_Wcc_data (MKNOD3resok_Dir_wcc v)\<rparr>"

definition nrm_MKNOD3resfail :: "MKNOD3resfail \<Rightarrow> MKNOD3resfail" where
  "nrm_MKNOD3resfail v = v\<lparr>MKNOD3resfail_Dir_wcc := nrm_Wcc_data (MKNOD3resfail_Dir_wcc v)\<rparr>"

definition nrm_MKNOD3res :: "MKNOD3res \<Rightarrow> MKNOD3res" where
  "nrm_MKNOD3res v = (if MKNOD3res_Status v = NFS3_OK then v\<lparr>MKNOD3res_Resok := nrm_MKNOD3resok (MKNOD3res_Resok v), MKNOD3res_Resfail := zero_MKNOD3resfail\<rparr>
      else v\<lparr>MKNOD3res_Resfail := nrm_MKNOD3resfail (MKNOD3res_Resfail v), MKNOD3res_Resok := zero_MKNOD3resok\<rparr>)"

definition nrm_REMOVE3resok :: "REMOVE3resok \<Rightarrow> REMOVE3resok" where
  "nrm_REMOVE3resok v = v\<lparr>REMOVE3resok_Dir_wcc := nrm_Wcc_data (REMOVE3resok_Dir_wcc v)\<rparr>"

definition nrm_REMOVE3resfail :: "REMOVE3resfail \<Rightarrow> REMOVE3resfail" where
  "nrm_REMOVE3resfail v = v\<lparr>REMOVE3resfail_Dir_wcc := nrm_Wcc_data (REMOVE3resfail_Dir_wcc v)\<rparr>"

definition nrm_REMOVE3res :: "REMOVE3res \<Rightarrow> REMOVE3res" where
  "nrm_REMOVE3res v = (if REMOVE3res_Status v = NFS3_OK then v\<lparr>REMOVE3res_Resok := nrm_REMOVE3resok (REMOVE3res_Resok v), REMOVE3res_Resfail := zero_REMOVE3resfail\<rparr>
      else v\<lparr>REMOVE3res_Resfail := nrm_REMOVE3resfail (REMOVE3res_Resfail v), REMOVE3res_Resok := zero_REMOVE3resok\<rparr>)"

definition nrm_RMDIR3resok :: "RMDIR3resok \<Rightarrow> RMDIR3resok" where
  "nrm_RMDIR3resok v = v\<lparr>RMDIR3resok_Dir_wcc := nrm_Wcc_data (RMDIR3resok_Dir_wcc v)\<rparr>"

definition nrm_RMDIR3resfail :: "RMDIR3resfail \<Rightarrow> RMDIR3resfail" where
  "nrm_RMDIR3resfail v = v\<lparr>RMDIR3resfail_Dir_wcc := nrm_Wcc_data (RMDIR3resfail_Dir_wcc v)\<rparr>"

definition nrm_RMDIR3res :: "RMDIR3res \<Rightarrow> RMDIR3res" where
  "nrm_RMDIR3res v = (if RMDIR3res_Status v = NFS3_OK then v\<lparr>RMDIR3res_Resok := nrm_RMDIR3resok (RMDIR3res_Resok v), RMDIR3res_Resfail := zero_RMDIR3resfail\<rparr>
      else v\<lparr>RMDIR3res_Resfail := nrm_RMDIR3resfail (RMDIR3res_Resfail v), RMDIR3res_Resok := zero_RMDIR3resok\<rparr>)"

definition nrm_RENAME3resok :: "RENAME3resok \<Rightarrow> RENAME3resok" where
  "nrm_RENAME3resok v = v\<lparr>RENAME3resok_Fromdir_wcc := nrm_Wcc_data (RENAME3resok_Fromdir_wcc v),
      RENAME3resok_Todir_wcc := nrm_Wcc_data (RENAME3resok_Todir_wcc v)\<rparr>"

definition nrm_RENAME3resfail :: "RENAME3resfail \<Rightarrow> RENAME3resfail" where
  "nrm_RENAME3resfail v = v\<lparr>RENAME3resfail_Fromdir_wcc := nrm_Wcc_data (RENAME3resfail_Fromdir_wcc v),
      RENAME3resfail_Todir_wcc := nrm_Wcc_data (RENAME3resfail_Todir_wcc v)\<rparr>"

definition nrm_RENAME3res :: "RENAME3res \<Rightarrow> RENAME3res" where
  "nrm_RENAME3res v = (if RENAME3res_Status v = NFS3_OK then v\<lparr>RENAME3res_Resok := nrm_RENAME3resok (RENAME3res_Resok v), RENAME3res_Resfail := zero_RENAME3resfail\<rparr>
      else v\<lparr>RENAME3res_Resfail := nrm_RENAME3resfail (RENAME3res_Resfail v), RENAME3res_Resok := zero_RENAME3resok\<rparr>)"

definition nrm_LINK3resok :: "LINK3resok \<Rightarrow> LINK3resok" where
  "nrm_LINK3resok v = v\<lparr>LINK3resok_File_attributes := nrm_Post_op_attr (LINK3resok_File_attributes v),
      LINK3resok_Linkdir_wcc := nrm_Wcc_data (LINK3resok_Linkdir_wcc v)\<rparr>"

definition nrm_LINK3resfail :: "LINK3resfail \<Rightarrow> LINK3resfail" where
  "nrm_LINK3resfail v = v\<lparr>LINK3resfail_File_attributes := nrm_Post_op_attr (LINK3resfail_File_attributes v),
      LINK3resfail_Linkdir_wcc := nrm_Wcc_data (LINK3resfail_Linkdir_wcc v)\<rparr>"

definition nrm_LINK3res :: "LINK3res \<Rightarrow> LINK3res" where
  "nrm_LINK3res v = (if LINK3res_Status v = NFS3_OK then v\<lparr>LINK3res_Resok := nrm_LINK3resok (LINK3res_Resok v), LINK3res_Resfail := zero_LINK3resfail\<rparr>
      else v\<lparr>LINK3res_Resfail := nrm_LINK3resfail (LINK3res_Resfail v), LINK3res_Resok := zero_LINK3resok\<rparr>)"

definition nrm_READDIR3resok :: "READDIR3resok \<Rightarrow> READDIR3resok" where
  "nrm_READDIR3resok v = v\<lparr>READDIR3resok_Dir_attributes := nrm_Post_op_attr (READDIR3resok_Dir_attributes v)\<rparr>"

definition nrm_READDIR3resfail :: "READDIR3resfail \<Rightarrow> READDIR3resfail" where
  "nrm_READDIR3resfail v = v\<lparr>READDIR3resfail_Dir_attributes := nrm_Post_op_attr (READDIR3resfail_Dir_attributes v)\<rparr>"

definition nrm_READDIR3res :: "READDIR3res \<Rightarrow> READDIR3res" where
  "nrm_READDIR3res v = (if READDIR3res_Status v = NFS3_OK then v\<lparr>READDIR3res_Resok := nrm_READDIR3resok (READDIR3res_Resok v), READDIR3res_Resfail := zero_READDIR3resfail\<rparr>
      else v\<lparr>READDIR3res_Resfail := nrm_READDIR3resfail (READDIR3res_Resfail v), READDIR3res_Resok := zero_READDIR3resok\<rparr>)"

definition nrm_Entryplus3 :: "Entryplus3 \<Rightarrow> Entryplus3" where
  "nrm_Entryplus3 v = v\<lparr>Entryplus3_Name_attributes := nrm_Post_op_attr (Entryplus3_Name_attributes v),
      Entryplus3_Name_handle := nrm_Post_op_fh3 (Entryplus3_Name_handle v)\<rparr>"

definition nrm_Dirlistplus3 :: "Dirlistplus3 \<Rightarrow> Dirlistplus3" where
  "nrm_Dirlistplus3 v = v\<lparr>Dirlistplus3_Entries := map nrm_Entryplus3 (Dirlistplus3_Entries v)\<rparr>"

definition nrm_READDIRPLUS3resok :: "READDIRPLUS3resok \<Rightarrow> READDIRPLUS3resok" where
  "nrm_READDIRPLUS3resok v = v\<lparr>READDIRPLUS3resok_Dir_attributes := nrm_Post_op_attr (READDIRPLUS3resok_Dir_attributes v),
      READDIRPLUS3resok_Reply := nrm_Dirlistplus3 (READDIRPLUS3resok_Reply v)\<rparr>"

definition nrm_READDIRPLUS3resfail :: "READDIRPLUS3resfail \<Rightarrow> READDIRPLUS3resfail" where
  "nrm_READDIRPLUS3resfail v = v\<lparr>READDIRPLUS3resfail_Dir_attributes := nrm_Post_op_attr (READDIRPLUS3resfail_Dir_attributes v)\<rparr>"

definition nrm_READDIRPLUS3res :: "READDIRPLUS3res \<Rightarrow> READDIRPLUS3res" where
  "nrm_READDIRPLUS3res v = (if READDIRPLUS3res_Status v = NFS3_OK then v\<lparr>READDIRPLUS3res_Resok := nrm_READDIRPLUS3resok (READDIRPLUS3res_Resok v), READDIRPLUS3res_Resfail := zero_READDIRPLUS3resfail\<rparr>
      else v\<lparr>READDIRPLUS3res_Resfail := nrm_READDIRPLUS3resfail (READDIRPLUS3res_Resfail v), READDIRPLUS3res_Resok := zero_READDIRPLUS3resok\<rparr>)"

definition nrm_FSSTAT3resok :: "FSSTAT3resok \<Rightarrow> FSSTAT3resok" where
  "nrm_FSSTAT3resok v = v\<lparr>FSSTAT3resok_Obj_attributes := nrm_Post_op_attr (FSSTAT3resok_Obj_attributes v)\<rparr>"

definition nrm_FSSTAT3resfail :: "FSSTAT3resfail \<Rightarrow> FSSTAT3resfail" where
  "nrm_FSSTAT3resfail v = v\<lparr>FSSTAT3resfail_Obj_attributes := nrm_Post_op_attr (FSSTAT3resfail_Obj_attributes v)\<rparr>"

definition nrm_FSSTAT3res :: "FSSTAT3res \<Rightarrow> FSSTAT3res" where
  "nrm_FSSTAT3res v = (if FSSTAT3res_Status v = NFS3_OK then v\<lparr>FSSTAT3res_Resok := nrm_FSSTAT3resok (FSSTAT3res_Resok v), FSSTAT3res_Resfail := zero_FSSTAT3resfail\<rparr>
      else v\<lparr>FSSTAT3res_Resfail := nrm_FSSTAT3resfail (FSSTAT3res_Resfail v), FSSTAT3res_Resok := zero_FSSTAT3resok\<rparr>)"

definition nrm_FSINFO3resok :: "FSINFO3resok \<Rightarrow> FSINFO3resok" where
  "nrm_FSINFO3resok v = v\<lparr>FSINFO3resok_Obj_attributes := nrm_Post_op_attr (FSINFO3resok_Obj_attributes v)\<rparr>"

definition nrm_FSINFO3resfail :: "FSINFO3resfail \<Rightarrow> FSINFO3resfail" where
  "nrm_FSINFO3resfail v = v\<lparr>FSINFO3resfail_Obj_attributes := nrm_Post_op_attr (FSINFO3resfail_Obj_attributes v)\<rparr>"

definition nrm_FSINFO3res :: "FSINFO3res \<Rightarrow> FSINFO3res" where
  "nrm_FSINFO3res v = (if FSINFO3res_Status v = NFS3_OK then v\<lparr>FSINFO3res_Resok := nrm_FSINFO3resok (FSINFO3res_Resok v), FSINFO3res_Resfail := zero_FSINFO3resfail\<rparr>
      else v\<lparr>FSINFO3res_Resfail := nrm_FSINFO3resfail (FSINFO3res_Resfail v), FSINFO3res_Resok := zero_FSINFO3resok\<rparr>)"

definition nrm_PATHCONF3resok :: "PATHCONF3resok \<Rightarrow> PATHCONF3resok" where
  "nrm_PATHCONF3resok v = v\<lparr>PATHCONF3resok_Obj_attributes := nrm_Post_op_attr (PATHCONF3resok_Obj_attributes v)\<rparr>"

definition nrm_PATHCONF3resfail :: "PATHCONF3resfail \<Rightarrow> PATHCONF3resfail" where
  "nrm_PATHCONF3resfail v = v\<lparr>PATHCONF3resfail_Obj_attributes := nrm_Post_op_attr (PATHCONF3resfail_Obj_attributes v)\<rparr>"

definition nrm_PATHCONF3res :: "PATHCONF3res \<Rightarrow> PATHCONF3res" where
  "nrm_PATHCONF3res v = (if PATHCONF3res_Status v = NFS3_OK then v\<lparr>PATHCONF3res_Resok := nrm_PATHCONF3resok (PATHCONF3res_Resok v), PATHCONF3res_Resfail := zero_PATHCONF3resfail\<rparr>
      else v\<lparr>PATHCONF3res_Resfail := nrm_PATHCONF3resfail (PATHCONF3res_Resfail v), PATHCONF3res_Resok := zero_PATHCONF3resok\<rparr>)"

definition nrm_COMMIT3resok :: "COMMIT3resok \<Rightarrow> COMMIT3resok" where
  "nrm_COMMIT3resok v = v\<lparr>COMMIT3resok_File_wcc := nrm_Wcc_data (COMMIT3resok_File_wcc v)\<rparr>"

definition nrm_COMMIT3resfail :: "COMMIT3resfail \<Rightarrow> COMMIT3resfail" where
  "nrm_COMMIT3resfail v = v\<lparr>COMMIT3resfail_File_wcc := nrm_Wcc_data (COMMIT3resfail_File_wcc v)\<rparr>"

definition nrm_COMMIT3res :: "COMMIT3res \<Rightarrow> COMMIT3res" where
  "nrm_COMMIT3res v = (if COMMIT3res_Status v = NFS3_OK then v\<lparr>COMMIT3res_Resok := nrm_COMMIT3resok (COMMIT3res_Resok v), COMMIT3res_Resfail := zero_COMMIT3resfail\<rparr>
      else v\<lparr>COMMIT3res_Resfail := nrm_COMMIT3resfail (COMMIT3res_Resfail v), COMMIT3res_Resok := zero_COMMIT3resok\<rparr>)"

definition nrm_Mountres3 :: "Mountres3 \<Rightarrow> Mountres3" where
  "nrm_Mountres3 v = (if Mountres3_Fhs_status v = MNT3_OK then v
      else v\<lparr>Mountres3_Mountinfo := zero_Mountres3_ok\<rparr>)"

section \<open>The methods keep an error\<close>

context xdr_codec
begin

lemma sticky_Uint64 [sticky_rules]: "sticky X (Xdr_Uint64 X)"
  unfolding Xdr_Uint64_def by (rule sticky_rules)

lemma sticky_Uint32 [sticky_rules]: "sticky X (Xdr_Uint32 X)"
  unfolding Xdr_Uint32_def by (rule sticky_rules)

lemma sticky_Filename3 [sticky_rules]: "sticky X (Xdr_Filename3 X)"
  unfolding Xdr_Filename3_def by (rule sticky_rules)

lemma sticky_Nfspath3 [sticky_rules]: "sticky X (Xdr_Nfspath3 X)"
  unfolding Xdr_Nfspath3_def by (rule sticky_rules)

lemma sticky_Fileid3 [sticky_rules]: "sticky X (Xdr_Fileid3 X)"
  unfolding Xdr_Fileid3_def by (rule sticky_rules)

lemma sticky_Cookie3 [sticky_rules]: "sticky X (Xdr_Cookie3 X)"
  unfolding Xdr_Cookie3_def by (rule sticky_rules)

lemma sticky_Cookieverf3 [sticky_rules]: "sticky X (Xdr_Cookieverf3 X)"
  unfolding Xdr_Cookieverf3_def by (rule sticky_rules)

lemma sticky_Createverf3 [sticky_rules]: "sticky X (Xdr_Createverf3 X)"
  unfolding Xdr_Createverf3_def by (rule sticky_rules)

lemma sticky_Writeverf3 [sticky_rules]: "sticky X (Xdr_Writeverf3 X)"
  unfolding Xdr_Writeverf3_def by (rule sticky_rules)

lemma sticky_Uid3 [sticky_rules]: "sticky X (Xdr_Uid3 X)"
  unfolding Xdr_Uid3_def by (rule sticky_rules)

lemma sticky_Gid3 [sticky_rules]: "sticky X (Xdr_Gid3 X)"
  unfolding Xdr_Gid3_def by (rule sticky_rules)

lemma sticky_Size3 [sticky_rules]: "sticky X (Xdr_Size3 X)"
  unfolding Xdr_Size3_def by (rule sticky_rules)

lemma sticky_Offset3 [sticky_rules]: "sticky X (Xdr_Offset3 X)"
  unfolding Xdr_Offset3_def by (rule sticky_rules)

lemma sticky_Mode3 [sticky_rules]: "sticky X (Xdr_Mode3 X)"
  unfolding Xdr_Mode3_def by (rule sticky_rules)

lemma sticky_Count3 [sticky_rules]: "sticky X (Xdr_Count3 X)"
  unfolding Xdr_Count3_def by (rule sticky_rules)

lemma sticky_Nfsstat3 [sticky_rules]: "sticky X (Xdr_Nfsstat3 X)"
  unfolding Xdr_Nfsstat3_def by (rule sticky_rules)

lemma sticky_Ftype3 [sticky_rules]: "sticky X (Xdr_Ftype3 X)"
  unfolding Xdr_Ftype3_def by (rule sticky_rules)

lemma sticky_Specdata3 [sticky_rules]: "sticky X (Xdr_Specdata3 X)"
  unfolding Xdr_Specdata3_def by (rule sticky_rules)+

lemma sticky_Nfs_fh3 [sticky_rules]: "sticky X (Xdr_Nfs_fh3 X)"
  unfolding Xdr_Nfs_fh3_def by (rule sticky_rules)+

lemma sticky_Nfstime3 [sticky_rules]: "sticky X (Xdr_Nfstime3 X)"
  unfolding Xdr_Nfstime3_def by (rule sticky_rules)+

lemma sticky_Fattr3 [sticky_rules]: "sticky X (Xdr_Fattr3 X)"
  unfolding Xdr_Fattr3_def by (rule sticky_rules)+

lemma sticky_Post_op_attr [sticky_rules]: "sticky X (Xdr_Post_op_attr X)"
  unfolding Xdr_Post_op_attr_def by (rule sticky_rules)+

lemma sticky_Wcc_attr [sticky_rules]: "sticky X (Xdr_Wcc_attr X)"
  unfolding Xdr_Wcc_attr_def by (rule sticky_rules)+

lemma sticky_Pre_op_attr [sticky_rules]: "sticky X (Xdr_Pre_op_attr X)"
  unfolding Xdr_Pre_op_attr_def by (rule sticky_rules)+

lemma sticky_Wcc_data [sticky_rules]: "sticky X (Xdr_Wcc_data X)"
  unfolding Xdr_Wcc_data_def by (rule sticky_rules)+

lemma sticky_Post_op_fh3 [sticky_rules]: "sticky X (Xdr_Post_op_fh3 X)"
  unfolding Xdr_Post_op_fh3_def by (rule sticky_rules)+

lemma sticky_Time_how [sticky_rules]: "sticky X (Xdr_Time_how X)"
  unfolding Xdr_Time_how_def by (rule sticky_rules)

lemma sticky_Set_mode3 [sticky_rules]: "sticky X (Xdr_Set_mode3 X)"
  unfolding Xdr_Set_mode3_def by (rule sticky_rules)+

lemma sticky_Set_uid3 [sticky_rules]: "sticky X (Xdr_Set_uid3 X)"
  unfolding Xdr_Set_uid3_def by (rule sticky_rules)+

lemma sticky_Set_gid3 [sticky_rules]: "sticky X (Xdr_Set_gid3 X)"
  unfolding Xdr_Set_gid3_def by (rule sticky_rules)+

lemma sticky_Set_size3 [sticky_rules]: "sticky X (Xdr_Set_size3 X)"
  unfolding Xdr_Set_size3_def by (rule sticky_rules)+

lemma sticky_Set_atime [sticky_rules]: "sticky X (Xdr_Set_atime X)"
  unfolding Xdr_Set_atime_def by (rule sticky_rules)+

lemma sticky_Set_mtime [sticky_rules]: "sticky X (Xdr_Set_mtime X)"
  unfolding Xdr_Set_mtime_def by (rule sticky_rules)+

lemma sticky_Sattr3 [sticky_rules]: "sticky X (Xdr_Sattr3 X)"
  unfolding Xdr_Sattr3_def by (rule sticky_rules)+

lemma sticky_Diropargs3 [sticky_rules]: "sticky X (Xdr_Diropargs3 X)"
  unfolding Xdr_Diropargs3_def by (rule sticky_rules)+

lemma sticky_GETATTR3args [sticky_rules]: "sticky X (Xdr_GETATTR3args X)"
  unfolding Xdr_GETATTR3args_def by (rule sticky_rules)+

lemma sticky_GETATTR3resok [sticky_rules]: "sticky X (Xdr_GETATTR3resok X)"
  unfolding Xdr_GETATTR3resok_def by (rule sticky_rules)+

lemma sticky_GETATTR3res [sticky_rules]: "sticky X (Xdr_GETATTR3res X)"
  unfolding Xdr_GETATTR3res_def by (rule sticky_rules)+

lemma sticky_Sattrguard3 [sticky_rules]: "sticky X (Xdr_Sattrguard3 X)"
  unfolding Xdr_Sattrguard3_def by (rule sticky_rules)+

lemma sticky_SETATTR3args [sticky_rules]: "sticky X (Xdr_SETATTR3args X)"
  unfolding Xdr_SETATTR3args_def by (rule sticky_rules)+

lemma sticky_SETATTR3resok [sticky_rules]: "sticky X (Xdr_SETATTR3resok X)"
  unfolding Xdr_SETATTR3resok_def by (rule sticky_rules)+

lemma sticky_SETATTR3resfail [sticky_rules]: "sticky X (Xdr_SETATTR3resfail X)"
  unfolding Xdr_SETATTR3resfail_def by (rule sticky_rules)+

lemma sticky_SETATTR3res [sticky_rules]: "sticky X (Xdr_SETATTR3res X)"
  unfolding Xdr_SETATTR3res_def by (rule sticky_rules)+

lemma sticky_LOOKUP3args [sticky_rules]: "sticky X (Xdr_LOOKUP3args X)"
  unfolding Xdr_LOOKUP3args_def by (rule sticky_rules)+

lemma sticky_LOOKUP3resok [sticky_rules]: "sticky X (Xdr_LOOKUP3resok X)"
  unfolding Xdr_LOOKUP3resok_def by (rule sticky_rules)+

lemma sticky_LOOKUP3resfail [sticky_rules]: "sticky X (Xdr_LOOKUP3resfail X)"
  unfolding Xdr_LOOKUP3resfail_def by (rule sticky_rules)+

lemma sticky_LOOKUP3res [sticky_rules]: "sticky X (Xdr_LOOKUP3res X)"
  unfolding Xdr_LOOKUP3res_def by (rule sticky_rules)+

lemma sticky_ACCESS3args [sticky_rules]: "sticky X (Xdr_ACCESS3args X)"
  unfolding Xdr_ACCESS3args_def by (rule sticky_rules)+

lemma sticky_ACCESS3resok [sticky_rules]: "sticky X (Xdr_ACCESS3resok X)"
  unfolding Xdr_ACCESS3resok_def by (rule sticky_rules)+

lemma sticky_ACCESS3resfail [sticky_rules]: "sticky X (Xdr_ACCESS3resfail X)"
  unfolding Xdr_ACCESS3resfail_def by (rule sticky_rules)+

lemma sticky_ACCESS3res [sticky_rules]: "sticky X (Xdr_ACCESS3res X)"
  unfolding Xdr_ACCESS3res_def by (rule sticky_rules)+

lemma sticky_READLINK3args [sticky_rules]: "sticky X (Xdr_READLINK3args X)"
  unfolding Xdr_READLINK3args_def by (rule sticky_rules)+

lemma sticky_READLINK3resok [sticky_rules]: "sticky X (Xdr_READLINK3resok X)"
  unfolding Xdr_READLINK3resok_def by (rule sticky_rules)+

lemma sticky_READLINK3resfail [sticky_rules]: "sticky X (Xdr_READLINK3resfail X)"
  unfolding Xdr_READLINK3resfail_def by (rule sticky_rules)+

lemma sticky_READLINK3res [sticky_rules]: "sticky X (Xdr_READLINK3res X)"
  unfolding Xdr_READLINK3res_def by (rule sticky_rules)+

lemma sticky_READ3args [sticky_rules]: "sticky X (Xdr_READ3args X)"
  unfolding Xdr_READ3args_def by (rule sticky_rules)+

lemma sticky_READ3resok [sticky_rules]: "sticky X (Xdr_READ3resok X)"
  unfolding Xdr_READ3resok_def by (rule sticky_rules)+

lemma sticky_READ3resfail [sticky_rules]: "sticky X (Xdr_READ3resfail X)"
  unfolding Xdr_READ3resfail_def by (rule sticky_rules)+

lemma sticky_READ3res [sticky_rules]: "sticky X (Xdr_READ3res X)"
  unfolding Xdr_READ3res_def by (rule sticky_rules)+

lemma sticky_Stable_how [sticky_rules]: "sticky X (Xdr_Stable_how X)"
  unfolding Xdr_Stable_how_def by (rule sticky_rules)

lemma sticky_WRITE3args [sticky_rules]: "sticky X (Xdr_WRITE3args X)"
  unfolding Xdr_WRITE3args_def by (rule sticky_rules)+

lemma sticky_WRITE3resok [sticky_rules]: "sticky X (Xdr_WRITE3resok X)"
  unfolding Xdr_WRITE3resok_def by (rule sticky_rules)+

lemma sticky_WRITE3resfail [sticky_rules]: "sticky X (Xdr_WRITE3resfail X)"
  unfolding Xdr_WRITE3resfail_def by (rule sticky_rules)+

lemma sticky_WRITE3res [sticky_rules]: "sticky X (Xdr_WRITE3res X)"
  unfolding Xdr_WRITE3res_def by (rule sticky_rules)+

lemma sticky_Createmode3 [sticky_rules]: "sticky X (Xdr_Createmode3 X)"
  unfolding Xdr_Createmode3_def by (rule sticky_rules)

lemma sticky_Createhow3 [sticky_rules]: "sticky X (Xdr_Createhow3 X)"
  unfolding Xdr_Createhow3_def by (rule sticky_rules)+

lemma sticky_CREATE3args [sticky_rules]: "sticky X (Xdr_CREATE3args X)"
  unfolding Xdr_CREATE3args_def by (rule sticky_rules)+

lemma sticky_CREATE3resok [sticky_rules]: "sticky X (Xdr_CREATE3resok X)"
  unfolding Xdr_CREATE3resok_def by (rule sticky_rules)+

lemma sticky_CREATE3resfail [sticky_rules]: "sticky X (Xdr_CREATE3resfail X)"
  unfolding Xdr_CREATE3resfail_def by (rule sticky_rules)+

lemma sticky_CREATE3res [sticky_rules]: "sticky X (Xdr_CREATE3res X)"
  unfolding Xdr_CREATE3res_def by (rule sticky_rules)+

lemma sticky_MKDIR3args [sticky_rules]: "sticky X (Xdr_MKDIR3args X)"
  unfolding Xdr_MKDIR3args_def by (rule sticky_rules)+

lemma sticky_MKDIR3resok [sticky_rules]: "sticky X (Xdr_MKDIR3resok X)"
  unfolding Xdr_MKDIR3resok_def by (rule sticky_rules)+

lemma sticky_MKDIR3resfail [sticky_rules]: "sticky X (Xdr_MKDIR3resfail X)"
  unfolding Xdr_MKDIR3resfail_def by (rule sticky_rules)+

lemma sticky_MKDIR3res [sticky_rules]: "sticky X (Xdr_MKDIR3res X)"
  unfolding Xdr_MKDIR3res_def by (rule sticky_rules)+

lemma sticky_Symlinkdata3 [sticky_rules]: "sticky X (Xdr_Symlinkdata3 X)"
  unfolding Xdr_Symlinkdata3_def by (rule sticky_rules)+

lemma sticky_SYMLINK3args [sticky_rules]: "sticky X (Xdr_SYMLINK3args X)"
  unfolding Xdr_SYMLINK3args_def by (rule sticky_rules)+

lemma sticky_SYMLINK3resok [sticky_rules]: "sticky X (Xdr_SYMLINK3resok X)"
  unfolding Xdr_SYMLINK3resok_def by (rule sticky_rules)+

lemma sticky_SYMLINK3resfail [sticky_rules]: "sticky X (Xdr_SYMLINK3resfail X)"
  unfolding Xdr_SYMLINK3resfail_def by (rule sticky_rules)+

lemma sticky_SYMLINK3res [sticky_rules]: "sticky X (Xdr_SYMLINK3res X)"
  unfolding Xdr_SYMLINK3res_def by (rule sticky_rules)+

lemma sticky_Devicedata3 [sticky_rules]: "sticky X (Xdr_Devicedata3 X)"
  unfolding Xdr_Devicedata3_def by (rule sticky_rules)+

lemma sticky_Mknoddata3 [sticky_rules]: "sticky X (Xdr_Mknoddata3 X)"
  unfolding Xdr_Mknoddata3_def by (rule sticky_rules)+

lemma sticky_MKNOD3args [sticky_rules]: "sticky X (Xdr_MKNOD3args X)"
  unfolding Xdr_MKNOD3args_def by (rule sticky_rules)+

lemma sticky_MKNOD3resok [sticky_rules]: "sticky X (Xdr_MKNOD3resok X)"
  unfolding Xdr_MKNOD3resok_def by (rule sticky_rules)+

lemma sticky_MKNOD3resfail [sticky_rules]: "sticky X (Xdr_MKNOD3resfail X)"
  unfolding Xdr_MKNOD3resfail_def by (rule sticky_rules)+

lemma sticky_MKNOD3res [sticky_rules]: "sticky X (Xdr_MKNOD3res X)"
  unfolding Xdr_MKNOD3res_def by (rule sticky_rules)+

lemma sticky_REMOVE3args [sticky_rules]: "sticky X (Xdr_REMOVE3args X)"
  unfolding Xdr_REMOVE3args_def by (rule sticky_rules)+

lemma sticky_REMOVE3resok [sticky_rules]: "sticky X (Xdr_REMOVE3resok X)"
  unfolding Xdr_REMOVE3resok_def by (rule sticky_rules)+

lemma sticky_REMOVE3resfail [sticky_rules]: "sticky X (Xdr_REMOVE3resfail X)"
  unfolding Xdr_REMOVE3resfail_def by (rule sticky_rules)+

lemma sticky_REMOVE3res [sticky_rules]: "sticky X (Xdr_REMOVE3res X)"
  unfolding Xdr_REMOVE3res_def by (rule sticky_rules)+

lemma sticky_RMDIR3args [sticky_rules]: "sticky X (Xdr_RMDIR3args X)"
  unfolding Xdr_RMDIR3args_def by (rule sticky_rules)+

lemma sticky_RMDIR3resok [sticky_rules]: "sticky X (Xdr_RMDIR3resok X)"
  unfolding Xdr_RMDIR3resok_def by (rule sticky_rules)+

lemma sticky_RMDIR3resfail [sticky_rules]: "sticky X (Xdr_RMDIR3resfail X)"
  unfolding Xdr_RMDIR3resfail_def by (rule sticky_rules)+

lemma sticky_RMDIR3res [sticky_rules]: "sticky X (Xdr_RMDIR3res X)"
  unfolding Xdr_RMDIR3res_def by (rule sticky_rules)+

lemma sticky_RENAME3args [sticky_rules]: "sticky X (Xdr_RENAME3args X)"
  unfolding Xdr_RENAME3args_def by (rule sticky_rules)+

lemma sticky_RENAME3resok [sticky_rules]: "sticky X (Xdr_RENAME3resok X)"
  unfolding Xdr_RENAME3resok_def by (rule sticky_rules)+

lemma sticky_RENAME3resfail [sticky_rules]: "sticky X (Xdr_RENAME3resfail X)"
  unfolding Xdr_RENAME3resfail_def by (rule sticky_rules)+

lemma sticky_RENAME3res [sticky_rules]: "sticky X (Xdr_RENAME3res X)"
  unfolding Xdr_RENAME3res_def by (rule sticky_rules)+

lemma sticky_LINK3args [sticky_rules]: "sticky X (Xdr_LINK3args X)"
  unfolding Xdr_LINK3args_def by (rule sticky_rules)+

lemma sticky_LINK3resok [sticky_rules]: "sticky X (Xdr_LINK3resok X)"
  unfolding Xdr_LINK3resok_def by (rule sticky_rules)+

lemma sticky_LINK3resfail [sticky_rules]: "sticky X (Xdr_LINK3resfail X)"
  unfolding Xdr_LINK3resfail_def by (rule sticky_rules)+

lemma sticky_LINK3res [sticky_rules]: "sticky X (Xdr_LINK3res X)"
  unfolding Xdr_LINK3res_def by (rule sticky_rules)+

lemma sticky_READDIR3args [sticky_rules]: "sticky X (Xdr_READDIR3args X)"
  unfolding Xdr_READDIR3args_def by (rule sticky_rules)+

lemma sticky_READDIR3resfail [sticky_rules]: "sticky X (Xdr_READDIR3resfail X)"
  unfolding Xdr_READDIR3resfail_def by (rule sticky_rules)+

lemma sticky_READDIRPLUS3args [sticky_rules]: "sticky X (Xdr_READDIRPLUS3args X)"
  unfolding Xdr_READDIRPLUS3args_def by (rule sticky_rules)+

lemma sticky_READDIRPLUS3resfail [sticky_rules]: "sticky X (Xdr_READDIRPLUS3resfail X)"
  unfolding Xdr_READDIRPLUS3resfail_def by (rule sticky_rules)+

lemma sticky_FSSTAT3args [sticky_rules]: "sticky X (Xdr_FSSTAT3args X)"
  unfolding Xdr_FSSTAT3args_def by (rule sticky_rules)+

lemma sticky_FSSTAT3resok [sticky_rules]: "sticky X (Xdr_FSSTAT3resok X)"
  unfolding Xdr_FSSTAT3resok_def by (rule sticky_rules)+

lemma sticky_FSSTAT3resfail [sticky_rules]: "sticky X (Xdr_FSSTAT3resfail X)"
  unfolding Xdr_FSSTAT3resfail_def by (rule sticky_rules)+

lemma sticky_FSSTAT3res [sticky_rules]: "sticky X (Xdr_FSSTAT3res X)"
  unfolding Xdr_FSSTAT3res_def by (rule sticky_rules)+

lemma sticky_FSINFO3args [sticky_rules]: "sticky X (Xdr_FSINFO3args X)"
  unfolding Xdr_FSINFO3args_def by (rule sticky_rules)+

lemma sticky_FSINFO3resok [sticky_rules]: "sticky X (Xdr_FSINFO3resok X)"
  unfolding Xdr_FSINFO3resok_def by (rule sticky_rules)+

lemma sticky_FSINFO3resfail [sticky_rules]: "sticky X (Xdr_FSINFO3resfail X)"
  unfolding Xdr_FSINFO3resfail_def by (rule sticky_rules)+

lemma sticky_FSINFO3res [sticky_rules]: "sticky X (Xdr_FSINFO3res X)"
  unfolding Xdr_FSINFO3res_def by (rule sticky_rules)+

lemma sticky_PATHCONF3args [sticky_rules]: "sticky X (Xdr_PATHCONF3args X)"
  unfolding Xdr_PATHCONF3args_def by (rule sticky_rules)+

lemma sticky_PATHCONF3resok [sticky_rules]: "sticky X (Xdr_PATHCONF3resok X)"
  unfolding Xdr_PATHCONF3resok_def by (rule sticky_rules)+

lemma sticky_PATHCONF3resfail [sticky_rules]: "sticky X (Xdr_PATHCONF3resfail X)"
  unfolding Xdr_PATHCONF3resfail_def by (rule sticky_rules)+

lemma sticky_PATHCONF3res [sticky_rules]: "sticky X (Xdr_PATHCONF3res X)"
  unfolding Xdr_PATHCONF3res_def by (rule sticky_rules)+

lemma sticky_COMMIT3args [sticky_rules]: "sticky X (Xdr_COMMIT3args X)"
  unfolding Xdr_COMMIT3args_def by (rule sticky_rules)+

lemma sticky_COMMIT3resok [sticky_rules]: "sticky X (Xdr_COMMIT3resok X)"
  unfolding Xdr_COMMIT3resok_def by (rule sticky_rules)+

lemma sticky_COMMIT3resfail [sticky_rules]: "sticky X (Xdr_COMMIT3resfail X)"
  unfolding Xdr_COMMIT3resfail_def by (rule sticky_rules)+

lemma sticky_COMMIT3res [sticky_rules]: "sticky X (Xdr_COMMIT3res X)"
  unfolding Xdr_COMMIT3res_def by (rule sticky_rules)+

lemma sticky_Fhandle3 [sticky_rules]: "sticky X (Xdr_Fhandle3 X)"
  unfolding Xdr_Fhandle3_def by (rule sticky_rules)

lemma sticky_Dirpath3 [sticky_rules]: "sticky X (Xdr_Dirpath3 X)"
  unfolding Xdr_Dirpath3_def by (rule sticky_rules)

lemma sticky_Name3 [sticky_rules]: "sticky X (Xdr_Name3 X)"
  unfolding Xdr_Name3_def by (rule sticky_rules)

lemma sticky_Mountstat3 [sticky_rules]: "sticky X (Xdr_Mountstat3 X)"
  unfolding Xdr_Mountstat3_def by (rule sticky_rules)

end

section \<open>Round trips of the methods\<close>

context xdr_codec
begin

lemma rt_Uint64 [xdr_rt]: "rt X out inp s (Xdr_Uint64 X) v z v"
  unfolding Xdr_Uint64_def by (rule xdr_rt)

lemma rt_Uint32 [xdr_rt]: "rt X out inp s (Xdr_Uint32 X) v z v"
  unfolding Xdr_Uint32_def by (rule xdr_rt)

lemma rt_Filename3 [xdr_rt]: "xfits (-1) (v) \<Longrightarrow> rt X out inp s (Xdr_Filename3 X) v z v"
  unfolding Xdr_Filename3_def by (rule xdr_rt)

lemma rt_Nfspath3 [xdr_rt]: "xfits (-1) (v) \<Longrightarrow> rt X out inp s (Xdr_Nfspath3 X) v z v"
  unfolding Xdr_Nfspath3_def by (rule xdr_rt)

lemma rt_Fileid3 [xdr_rt]: "rt X out inp s (Xdr_Fileid3 X) v z v"
  unfolding Xdr_Fileid3_def by (rule xdr_rt)

lemma rt_Cookie3 [xdr_rt]: "rt X out inp s (Xdr_Cookie3 X) v z v"
  unfolding Xdr_Cookie3_def by (rule xdr_rt)

lemma rt_Cookieverf3 [xdr_rt]: "length z = length v \<Longrightarrow> rt X out inp s (Xdr_Cookieverf3 X) v z v"
  unfolding Xdr_Cookieverf3_def by (rule xdr_rt)

lemma rt_Createverf3 [xdr_rt]: "length z = length v \<Longrightarrow> rt X out inp s (Xdr_Createverf3 X) v z v"
  unfolding Xdr_Createverf3_def by (rule xdr_rt)

lemma rt_Writeverf3 [xdr_rt]: "length z = length v \<Longrightarrow> rt X out inp s (Xdr_Writeverf3 X) v z v"
  unfolding Xdr_Writeverf3_def by (rule xdr_rt)

lemma rt_Uid3 [xdr_rt]: "rt X out inp s (Xdr_Uid3 X) v z v"
  unfolding Xdr_Uid3_def by (rule xdr_rt)

lemma rt_Gid3 [xdr_rt]: "rt X out inp s (Xdr_Gid3 X) v z v"
  unfolding Xdr_Gid3_def by (rule xdr_rt)

lemma rt_Size3 [xdr_rt]: "rt X out inp s (Xdr_Size3 X) v z v"
  unfolding Xdr_Size3_def by (rule xdr_rt)

lemma rt_Offset3 [xdr_rt]: "rt X out inp s (Xdr_Offset3 X) v z v"
  unfolding Xdr_Offset3_def by (rule xdr_rt)

lemma rt_Mode3 [xdr_rt]: "rt X out inp s (Xdr_Mode3 X) v z v"
  unfolding Xdr_Mode3_def by (rule xdr_rt)

lemma rt_Count3 [xdr_rt]: "rt X out inp s (Xdr_Count3 X) v z v"
  unfolding Xdr_Count3_def by (rule xdr_rt)

lemma rt_Nfsstat3 [xdr_rt]: "rt X out inp s (Xdr_Nfsstat3 X) v z v"
  unfolding Xdr_Nfsstat3_def by (rule xdr_rt)

lemma rt_Ftype3 [xdr_rt]: "rt X out inp s (Xdr_Ftype3 X) v z v"
  unfolding Xdr_Ftype3_def by (rule xdr_rt)

lemma rt_Specdata3 [xdr_rt]: "z = zero_Specdata3 \<Longrightarrow> rt X out inp s (Xdr_Specdata3 X) v z v"
  unfolding Xdr_Specdata3_def
  by (rule xdr_seq xdr_rt sticky_rules | (cases v; simp add: zero_Specdata3_def; fail))+

lemma rt_Nfs_fh3 [xdr_rt]: "z = zero_Nfs_fh3 \<Longrightarrow> fit_Nfs_fh3 v \<Longrightarrow> rt X out inp s (Xdr_Nfs_fh3 X) v z v"
  unfolding Xdr_Nfs_fh3_def
  by (rule xdr_seq xdr_rt sticky_rules | (cases v; simp add: zero_Nfs_fh3_def fit_Nfs_fh3_def; fail))+

lemma rt_Nfstime3 [xdr_rt]: "z = zero_Nfstime3 \<Longrightarrow> rt X out inp s (Xdr_Nfstime3 X) v z v"
  unfolding Xdr_Nfstime3_def
  by (rule xdr_seq xdr_rt sticky_rules | (cases v; simp add: zero_Nfstime3_def; fail))+

lemma rt_Fattr3 [xdr_rt]: "z = zero_Fattr3 \<Longrightarrow> rt X out inp s (Xdr_Fattr3 X) v z v"
  unfolding Xdr_Fattr3_def
  by (rule xdr_seq xdr_rt sticky_rules | (cases v; simp add: zero_Fattr3_def; fail))+

lemma rt_Post_op_attr [xdr_rt]: "z = zero_Post_op_attr \<Longrightarrow> rt X out inp s (Xdr_Post_op_attr X) v z (nrm_Post_op_attr v)"
  unfolding Xdr_Post_op_attr_def
  by (rule xdr_seq xdr_rt sticky_rules | (cases v; simp add: zero_Post_op_attr_def nrm_Post_op_attr_def; fail))+

lemma rt_Wcc_attr [xdr_rt]: "z = zero_Wcc_attr \<Longrightarrow> rt X out inp s (Xdr_Wcc_attr X) v z v"
  unfolding Xdr_Wcc_attr_def
  by (rule xdr_seq xdr_rt sticky_rules | (cases v; simp add: zero_Wcc_attr_def; fail))+

lemma rt_Pre_op_attr [xdr_rt]: "z = zero_Pre_op_attr \<Longrightarrow> rt X out inp s (Xdr_Pre_op_attr X) v z (nrm_Pre_op_attr v)"
  unfolding Xdr_Pre_op_attr_def
  by (rule xdr_seq xdr_rt sticky_rules | (cases v; simp add: zero_Pre_op_attr_def nrm_Pre_op_attr_def; fail))+

lemma rt_Wcc_data [xdr_rt]: "z = zero_Wcc_data \<Longrightarrow> rt X out inp s (Xdr_Wcc_data X) v z (nrm_Wcc_data v)"
  unfolding Xdr_Wcc_data_def
  by (rule xdr_seq xdr_rt sticky_rules | (cases v; simp add: zero_Wcc_data_def nrm_Wcc_data_def; fail))+

lemma rt_Post_op_fh3 [xdr_rt]: "z = zero_Post_op_fh3 \<Longrightarrow> fit_Post_op_fh3 v \<Longrightarrow> rt X out inp s (Xdr_Post_op_fh3 X) v z (nrm_Post_op_fh3 v)"
  unfolding Xdr_Post_op_fh3_def
  by (rule xdr_seq xdr_rt sticky_rules | (cases v; simp add: zero_Post_op_fh3_def fit_Post_op_fh3_def nrm_Post_op_fh3_def; fail))+

lemma rt_Time_how [xdr_rt]: "rt X out inp s (Xdr_Time_how X) v z v"
  unfolding Xdr_Time_how_def by (rule xdr_rt)

lemma rt_Set_mode3 [xdr_rt]: "z = zero_Set_mode3 \<Longrightarrow> rt X out inp s (Xdr_Set_mode3 X) v z (nrm_Set_mode3 v)"
  unfolding Xdr_Set_mode3_def
  by (rule xdr_seq xdr_rt sticky_rules | (cases v; simp add: zero_Set_mode3_def nrm_Set_mode3_def; fail))+

lemma rt_Set_uid3 [xdr_rt]: "z = zero_Set_uid3 \<Longrightarrow> rt X out inp s (Xdr_Set_uid3 X) v z (nrm_Set_uid3 v)"
  unfolding Xdr_Set_uid3_def
  by (rule xdr_seq xdr_rt sticky_rules | (cases v; simp add: zero_Set_uid3_def nrm_Set_uid3_def; fail))+

lemma rt_Set_gid3 [xdr_rt]: "z = zero_Set_gid3 \<Longrightarrow> rt X out inp s (Xdr_Set_gid3 X) v z (nrm_Set_gid3 v)"
  unfolding Xdr_Set_gid3_def
  by (rule xdr_seq xdr_rt sticky_rules | (cases v; simp add: zero_Set_gid3_def nrm_Set_gid3_def; fail))+

lemma rt_Set_size3 [xdr_rt]: "z = zero_Set_size3 \<Longrightarrow> rt X out inp s (Xdr_Set_size3 X) v z (nrm_Set_size3 v)"
  unfolding Xdr_Set_size3_def
  by (rule xdr_seq xdr_rt sticky_rules | (cases v; simp add: zero_Set_size3_def nrm_Set_size3_def; fail))+

lemma rt_Set_atime [xdr_rt]: "z = zero_Set_atime \<Longrightarrow> rt X out inp s (Xdr_Set_atime X) v z (nrm_Set_atime v)"
  unfolding Xdr_Set_atime_def
  by (rule xdr_seq xdr_rt sticky_rules | (cases v; simp add: zero_Set_atime_def nrm_Set_atime_def; fail))+

lemma rt_Set_mtime [xdr_rt]: "z = zero_Set_mtime \<Longrightarrow> rt X out inp s (Xdr_Set_mtime X) v z (nrm_Set_mtime v)"
  unfolding Xdr_Set_mtime_def
  by (rule xdr_seq xdr_rt sticky_rules | (cases v; simp add: zero_Set_mtime_def nrm_Set_mtime_def; fail))+

lemma rt_Sattr3 [xdr_rt]: "z = zero_Sattr3 \<Longrightarrow> rt X out inp s (Xdr_Sattr3 X) v z (nrm_Sattr3 v)"
  unfolding Xdr_Sattr3_def
  by (rule xdr_seq xdr_rt sticky_rules | (cases v; simp add: zero_Sattr3_def nrm_Sattr3_def; fail))+

lemma rt_Diropargs3 [xdr_rt]: "z = zero_Diropargs3 \<Longrightarrow> fit_Diropargs3 v \<Longrightarrow> rt X out inp s (Xdr_Diropargs3 X) v z v"
  unfolding Xdr_Diropargs3_def
  by (rule xdr_seq xdr_rt sticky_rules | (cases v; simp add: zero_Diropargs3_def fit_Diropargs3_def; fail))+

lemma rt_GETATTR3args [xdr_rt]: "z = zero_GETATTR3args \<Longrightarrow> fit_GETATTR3args v \<Longrightarrow> rt X out inp s (Xdr_GETATTR3args X) v z v"
  unfolding Xdr_GETATTR3args_def
  by (rule xdr_seq xdr_rt sticky_rules | (cases v; simp add: zero_GETATTR3args_def fit_GETATTR3args_def; fail))+

lemma rt_GETATTR3resok [xdr_rt]: "z = zero_GETATTR3resok \<Longrightarrow> rt X out inp s (Xdr_GETATTR3resok X) v z v"
  unfolding Xdr_GETATTR3resok_def
  by (rule xdr_seq xdr_rt sticky_rules | (cases v; simp add: zero_GETATTR3resok_def; fail))+

lemma rt_GETATTR3res [xdr_rt]: "z = zero_GETATTR3res \<Longrightarrow> rt X out inp s (Xdr_GETATTR3res X) v z (nrm_GETATTR3res v)"
  unfolding Xdr_GETATTR3res_def
  by (rule xdr_seq xdr_rt sticky_rules | (cases v; simp add: zero_GETATTR3res_def nrm_GETATTR3res_def; fail))+

lemma rt_Sattrguard3 [xdr_rt]: "z = zero_Sattrguard3 \<Longrightarrow> rt X out inp s (Xdr_Sattrguard3 X) v z (nrm_Sattrguard3 v)"
  unfolding Xdr_Sattrguard3_def
  by (rule xdr_seq xdr_rt sticky_rules | (cases v; simp add: zero_Sattrguard3_def nrm_Sattrguard3_def; fail))+

lemma rt_SETATTR3args [xdr_rt]: "z = zero_SETATTR3args \<Longrightarrow> fit_SETATTR3args v \<Longrightarrow> rt X out inp s (Xdr_SETATTR3args X) v z (nrm_SETATTR3args v)"
  unfolding Xdr_SETATTR3args_def
  by (rule xdr_seq xdr_rt sticky_rules | (cases v; simp add: zero_SETATTR3args_def fit_SETATTR3args_def nrm_SETATTR3args_def; fail))+

lemma rt_SETATTR3resok [xdr_rt]: "z = zero_SETATTR3resok \<Longrightarrow> rt X out inp s (Xdr_SETATTR3resok X) v z (nrm_SETATTR3resok v)"
  unfolding Xdr_SETATTR3resok_def
  by (rule xdr_seq xdr_rt sticky_rules | (cases v; simp add: zero_SETATTR3resok_def nrm_SETATTR3resok_def; fail))+

lemma rt_SETATTR3resfail [xdr_rt]: "z = zero_SETATTR3resfail \<Longrightarrow> rt X out inp s (Xdr_SETATTR3resfail X) v z (nrm_SETATTR3resfail v)"
  unfolding Xdr_SETATTR3resfail_def
  by (rule xdr_seq xdr_rt sticky_rules | (cases v; simp add: zero_SETATTR3resfail_def nrm_SETATTR3resfail_def; fail))+

lemma rt_SETATTR3res [xdr_rt]: "z = zero_SETATTR3res \<Longrightarrow> rt X out inp s (Xdr_SETATTR3res X) v z (nrm_SETATTR3res v)"
  unfolding Xdr_SETATTR3res_def
  by (rule xdr_seq xdr_rt sticky_rules | (cases v; simp add: zero_SETATTR3res_def nrm_SETATTR3res_def; fail))+

lemma rt_LOOKUP3args [xdr_rt]: "z = zero_LOOKUP3args \<Longrightarrow> fit_LOOKUP3args v \<Longrightarrow> rt X out inp s (Xdr_LOOKUP3args X) v z v"
  unfolding Xdr_LOOKUP3args_def
  by (rule xdr_seq xdr_rt sticky_rules | (cases v; simp add: zero_LOOKUP3args_def fit_LOOKUP3args_def; fail))+

lemma rt_LOOKUP3resok [xdr_rt]: "z = zero_LOOKUP3resok \<Longrightarrow> fit_LOOKUP3resok v \<Longrightarrow> rt X out inp s (Xdr_LOOKUP3resok X) v z (nrm_LOOKUP3resok v)"
  unfolding Xdr_LOOKUP3resok_def
  by (rule xdr_seq xdr_rt sticky_rules | (cases v; simp add: zero_LOOKUP3resok_def fit_LOOKUP3resok_def nrm_LOOKUP3resok_def; fail))+

lemma rt_LOOKUP3resfail [xdr_rt]: "z = zero_LOOKUP3resfail \<Longrightarrow> rt X out inp s (Xdr_LOOKUP3resfail X) v z (nrm_LOOKUP3resfail v)"
  unfolding Xdr_LOOKUP3resfail_def
  by (rule xdr_seq xdr_rt sticky_rules | (cases v; simp add: zero_LOOKUP3resfail_def nrm_LOOKUP3resfail_def; fail))+

lemma rt_LOOKUP3res [xdr_rt]: "z = zero_LOOKUP3res \<Longrightarrow> fit_LOOKUP3res v \<Longrightarrow> rt X out inp s (Xdr_LOOKUP3res X) v z (nrm_LOOKUP3res v)"
  unfolding Xdr_LOOKUP3res_def
  by (rule xdr_seq xdr_rt sticky_rules | (cases v; simp add: zero_LOOKUP3res_def fit_LOOKUP3res_def nrm_LOOKUP3res_def; fail))+

lemma rt_ACCESS3args [xdr_rt]: "z = zero_ACCESS3args \<Longrightarrow> fit_ACCESS3args v \<Longrightarrow> rt X out inp s (Xdr_ACCESS3args X) v z v"
  unfolding Xdr_ACCESS3args_def
  by (rule xdr_seq xdr_rt sticky_rules | (cases v; simp add: zero_ACCESS3args_def fit_ACCESS3args_def; fail))+

lemma rt_ACCESS3resok [xdr_rt]: "z = zero_ACCESS3resok \<Longrightarrow> rt X out inp s (Xdr_ACCESS3resok X) v z (nrm_ACCESS3resok v)"
  unfolding Xdr_ACCESS3resok_def
  by (rule xdr_seq xdr_rt sticky_rules | (cases v; simp add: zero_ACCESS3resok_def nrm_ACCESS3resok_def; fail))+

lemma rt_ACCESS3resfail [xdr_rt]: "z = zero_ACCESS3resfail \<Longrightarrow> rt X out inp s (Xdr_ACCESS3resfail X) v z (nrm_ACCESS3resfail v)"
  unfolding Xdr_ACCESS3resfail_def
  by (rule xdr_seq xdr_rt sticky_rules | (cases v; simp add: zero_ACCESS3resfail_def nrm_ACCESS3resfail_def; fail))+

lemma rt_ACCESS3res [xdr_rt]: "z = zero_ACCESS3res \<Longrightarrow> rt X out inp s (Xdr_ACCESS3res X) v z (nrm_ACCESS3res v)"
  unfolding Xdr_ACCESS3res_def
  by (rule xdr_seq xdr_rt sticky_rules | (cases v; simp add: zero_ACCESS3res_def nrm_ACCESS3res_def; fail))+

lemma rt_READLINK3args [xdr_rt]: "z = zero_READLINK3args \<Longrightarrow> fit_READLINK3args v \<Longrightarrow> rt X out inp s (Xdr_READLINK3args X) v z v"
  unfolding Xdr_READLINK3args_def
  by (rule xdr_seq xdr_rt sticky_rules | (cases v; simp add: zero_READLINK3args_def fit_READLINK3args_def; fail))+

lemma rt_READLINK3resok [xdr_rt]: "z = zero_READLINK3resok \<Longrightarrow> fit_READLINK3resok v \<Longrightarrow> rt X out inp s (Xdr_READLINK3resok X) v z (nrm_READLINK3resok v)"
  unfolding Xdr_READLINK3resok_def
  by (rule xdr_seq xdr_rt sticky_rules | (cases v; simp add: zero_READLINK3resok_def fit_READLINK3resok_def nrm_READLINK3resok_def; fail))+

lemma rt_READLINK3resfail [xdr_rt]: "z = zero_READLINK3resfail \<Longrightarrow> rt X out inp s (Xdr_READLINK3resfail X) v z (nrm_READLINK3resfail v)"
  unfolding Xdr_READLINK3resfail_def
  by (rule xdr_seq xdr_rt sticky_rules | (cases v; simp add: zero_READLINK3resfail_def nrm_READLINK3resfail_def; fail))+

lemma rt_READLINK3res [xdr_rt]: "z = zero_READLINK3res \<Longrightarrow> fit_READLINK3res v \<Longrightarrow> rt X out inp s (Xdr_READLINK3res X) v z (nrm_READLINK3res v)"
  unfolding Xdr_READLINK3res_def
  by (rule xdr_seq xdr_rt sticky_rules | (cases v; simp add: zero_READLINK3res_def fit_READLINK3res_def nrm_READLINK3res_def; fail))+

lemma rt_READ3args [xdr_rt]: "z = zero_READ3args \<Longrightarrow> fit_READ3args v \<Longrightarrow> rt X out inp s (Xdr_READ3args X) v z v"
  unfolding Xdr_READ3args_def
  by (rule xdr_seq xdr_rt sticky_rules | (cases v; simp add: zero_READ3args_def fit_READ3args_def; fail))+

lemma rt_READ3resok [xdr_rt]: "z = zero_READ3resok \<Longrightarrow> fit_READ3resok v \<Longrightarrow> rt X out inp s (Xdr_READ3resok X) v z (nrm_READ3resok v)"
  unfolding Xdr_READ3resok_def
  by (rule xdr_seq xdr_rt sticky_rules | (cases v; simp add: zero_READ3resok_def fit_READ3resok_def nrm_READ3resok_def; fail))+

lemma rt_READ3resfail [xdr_rt]: "z = zero_READ3resfail \<Longrightarrow> rt X out inp s (Xdr_READ3resfail X) v z (nrm_READ3resfail v)"
  unfolding Xdr_READ3resfail_def
  by (rule xdr_seq xdr_rt sticky_rules | (cases v; simp add: zero_READ3resfail_def nrm_READ3resfail_def; fail))+

lemma rt_READ3res [xdr_rt]: "z = zero_READ3res \<Longrightarrow> fit_READ3res v \<Longrightarrow> rt X out inp s (Xdr_READ3res X) v z (nrm_READ3res v)"
  unfolding Xdr_READ3res_def
  by (rule xdr_seq xdr_rt sticky_rules | (cases v; simp add: zero_READ3res_def fit_READ3res_def nrm_READ3res_def; fail))+

lemma rt_Stable_how [xdr_rt]: "rt X out inp s (Xdr_Stable_how X) v z v"
  unfolding Xdr_Stable_how_def by (rule xdr_rt)

lemma rt_WRITE3args [xdr_rt]: "z = zero_WRITE3args \<Longrightarrow> fit_WRITE3args v \<Longrightarrow> rt X out inp s (Xdr_WRITE3args X) v z v"
  unfolding Xdr_WRITE3args_def
  by (rule xdr_seq xdr_rt sticky_rules | (cases v; simp add: zero_WRITE3args_def fit_WRITE3args_def; fail))+

lemma rt_WRITE3resok [xdr_rt]: "z = zero_WRITE3resok \<Longrightarrow> fit_WRITE3resok v \<Longrightarrow> rt X out inp s (Xdr_WRITE3resok X) v z (nrm_WRITE3resok v)"
  unfolding Xdr_WRITE3resok_def
  by (rule xdr_seq xdr_rt sticky_rules | (cases v; simp add: zero_WRITE3resok_def fit_WRITE3resok_def nrm_WRITE3resok_def; fail))+

lemma rt_WRITE3resfail [xdr_rt]: "z = zero_WRITE3resfail \<Longrightarrow> rt X out inp s (Xdr_WRITE3resfail X) v z (nrm_WRITE3resfail v)"
  unfolding Xdr_WRITE3resfail_def
  by (rule xdr_seq xdr_rt sticky_rules | (cases v; simp add: zero_WRITE3resfail_def nrm_WRITE3resfail_def; fail))+

lemma rt_WRITE3res [xdr_rt]: "z = zero_WRITE3res \<Longrightarrow> fit_WRITE3res v \<Longrightarrow> rt X out inp s (Xdr_WRITE3res X) v z (nrm_WRITE3res v)"
  unfolding Xdr_WRITE3res_def
  by (rule xdr_seq xdr_rt sticky_rules | (cases v; simp add: zero_WRITE3res_def fit_WRITE3res_def nrm_WRITE3res_def; fail))+

lemma rt_Createmode3 [xdr_rt]: "rt X out inp s (Xdr_Createmode3 X) v z v"
  unfolding Xdr_Createmode3_def by (rule xdr_rt)

lemma rt_Createhow3 [xdr_rt]: "z = zero_Createhow3 \<Longrightarrow> fit_Createhow3 v \<Longrightarrow> rt X out inp s (Xdr_Createhow3 X) v z (nrm_Createhow3 v)"
  unfolding Xdr_Createhow3_def
  by (rule xdr_seq xdr_rt sticky_rules | (cases v; simp add: zero_Createhow3_def fit_Createhow3_def nrm_Createhow3_def; fail))+

lemma rt_CREATE3args [xdr_rt]: "z = zero_CREATE3args \<Longrightarrow> fit_CREATE3args v \<Longrightarrow> rt X out inp s (Xdr_CREATE3args X) v z (nrm_CREATE3args v)"
  unfolding Xdr_CREATE3args_def
  by (rule xdr_seq xdr_rt sticky_rules | (cases v; simp add: zero_CREATE3args_def fit_CREATE3args_def nrm_CREATE3args_def; fail))+

lemma rt_CREATE3resok [xdr_rt]: "z = zero_CREATE3resok \<Longrightarrow> fit_CREATE3resok v \<Longrightarrow> rt X out inp s (Xdr_CREATE3resok X) v z (nrm_CREATE3resok v)"
  unfolding Xdr_CREATE3resok_def
  by (rule xdr_seq xdr_rt sticky_rules | (cases v; simp add: zero_CREATE3resok_def fit_CREATE3resok_def nrm_CREATE3resok_def; fail))+

lemma rt_CREATE3resfail [xdr_rt]: "z = zero_CREATE3resfail \<Longrightarrow> rt X out inp s (Xdr_CREATE3resfail X) v z (nrm_CREATE3resfail v)"
  unfolding Xdr_CREATE3resfail_def
  by (rule xdr_seq xdr_rt sticky_rules | (cases v; simp add: zero_CREATE3resfail_def nrm_CREATE3resfail_def; fail))+

lemma rt_CREATE3res [xdr_rt]: "z = zero_CREATE3res \<Longrightarrow> fit_CREATE3res v \<Longrightarrow> rt X out inp s (Xdr_CREATE3res X) v z (nrm_CREATE3res v)"
  unfolding Xdr_CREATE3res_def
  by (rule xdr_seq xdr_rt sticky_rules | (cases v; simp add: zero_CREATE3res_def fit_CREATE3res_def nrm_CREATE3res_def; fail))+

lemma rt_MKDIR3args [xdr_rt]: "z = zero_MKDIR3args \<Longrightarrow> fit_MKDIR3args v \<Longrightarrow> rt X out inp s (Xdr_MKDIR3args X) v z (nrm_MKDIR3args v)"
  unfolding Xdr_MKDIR3args_def
  by (rule xdr_seq xdr_rt sticky_rules | (cases v; simp add: zero_MKDIR3args_def fit_MKDIR3args_def nrm_MKDIR3args_def; fail))+

lemma rt_MKDIR3resok [xdr_rt]: "z = zero_MKDIR3resok \<Longrightarrow> fit_MKDIR3resok v \<Longrightarrow> rt X out inp s (Xdr_MKDIR3resok X) v z (nrm_MKDIR3resok v)"
  unfolding Xdr_MKDIR3resok_def
  by (rule xdr_seq xdr_rt sticky_rules | (cases v; simp add: zero_MKDIR3resok_def fit_MKDIR3resok_def nrm_MKDIR3resok_def; fail))+

lemma rt_MKDIR3resfail [xdr_rt]: "z = zero_MKDIR3resfail \<Longrightarrow> rt X out inp s (Xdr_MKDIR3resfail X) v z (nrm_MKDIR3resfail v)"
  unfolding Xdr_MKDIR3resfail_def
  by (rule xdr_seq xdr_rt sticky_rules | (cases v; simp add: zero_MKDIR3resfail_def nrm_MKDIR3resfail_def; fail))+

lemma rt_MKDIR3res [xdr_rt]: "z = zero_MKDIR3res \<Longrightarrow> fit_MKDIR3res v \<Longrightarrow> rt X out inp s (Xdr_MKDIR3res X) v z (nrm_MKDIR3res v)"
  unfolding Xdr_MKDIR3res_def
  by (rule xdr_seq xdr_rt sticky_rules | (cases v; simp add: zero_MKDIR3res_def fit_MKDIR3res_def nrm_MKDIR3res_def; fail))+

lemma rt_Symlinkdata3 [xdr_rt]: "z = zero_Symlinkdata3 \<Longrightarrow> fit_Symlinkdata3 v \<Longrightarrow> rt X out inp s (Xdr_Symlinkdata3 X) v z (nrm_Symlinkdata3 v)"
  unfolding Xdr_Symlinkdata3_def
  by (rule xdr_seq xdr_rt sticky_rules | (cases v; simp add: zero_Symlinkdata3_def fit_Symlinkdata3_def nrm_Symlinkdata3_def; fail))+

lemma rt_SYMLINK3args [xdr_rt]: "z = zero_SYMLINK3args \<Longrightarrow> fit_SYMLINK3args v \<Longrightarrow> rt X out inp s (Xdr_SYMLINK3args X) v z (nrm_SYMLINK3args v)"
  unfolding Xdr_SYMLINK3args_def
  by (rule xdr_seq xdr_rt sticky_rules | (cases v; simp add: zero_SYMLINK3args_def fit_SYMLINK3args_def nrm_SYMLINK3args_def; fail))+

lemma rt_SYMLINK3resok [xdr_rt]: "z = zero_SYMLINK3resok \<Longrightarrow> fit_SYMLINK3resok v \<Longrightarrow> rt X out inp s (Xdr_SYMLINK3resok X) v z (nrm_SYMLINK3resok v)"
  unfolding Xdr_SYMLINK3resok_def
  by (rule xdr_seq xdr_rt sticky_rules | (cases v; simp add: zero_SYMLINK3resok_def fit_SYMLINK3resok_def nrm_SYMLINK3resok_def; fail))+

lemma rt_SYMLINK3resfail [xdr_rt]: "z = zero_SYMLINK3resfail \<Longrightarrow> rt X out inp s (Xdr_SYMLINK3resfail X) v z (nrm_SYMLINK3resfail v)"
  unfolding Xdr_SYMLINK3resfail_def
  by (rule xdr_seq xdr_rt sticky_rules | (cases v; simp add: zero_SYMLINK3resfail_def nrm_SYMLINK3resfail_def; fail))+

lemma rt_SYMLINK3res [xdr_rt]: "z = zero_SYMLINK3res \<Longrightarrow> fit_SYMLINK3res v \<Longrightarrow> rt X out inp s (Xdr_SYMLINK3res X) v z (nrm_SYMLINK3res v)"
  unfolding Xdr_SYMLINK3res_def
  by (rule xdr_seq xdr_rt sticky_rules | (cases v; simp add: zero_SYMLINK3res_def fit_SYMLINK3res_def nrm_SYMLINK3res_def; fail))+

lemma rt_Devicedata3 [xdr_rt]: "z = zero_Devicedata3 \<Longrightarrow> rt X out inp s (Xdr_Devicedata3 X) v z (nrm_Devicedata3 v)"
  unfolding Xdr_Devicedata3_def
  by (rule xdr_seq xdr_rt sticky_rules | (cases v; simp add: zero_Devicedata3_def nrm_Devicedata3_def; fail))+

lemma rt_Mknoddata3 [xdr_rt]: "z = zero_Mknoddata3 \<Longrightarrow> rt X out inp s (Xdr_Mknoddata3 X) v z (nrm_Mknoddata3 v)"
  unfolding Xdr_Mknoddata3_def
  by (rule xdr_seq xdr_rt sticky_rules | (cases v; simp add: zero_Mknoddata3_def nrm_Mknoddata3_def; fail))+

lemma rt_MKNOD3args [xdr_rt]: "z = zero_MKNOD3args \<Longrightarrow> fit_MKNOD3args v \<Longrightarrow> rt X out inp s (Xdr_MKNOD3args X) v z (nrm_MKNOD3args v)"
  unfolding Xdr_MKNOD3args_def
  by (rule xdr_seq xdr_rt sticky_rules | (cases v; simp add: zero_MKNOD3args_def fit_MKNOD3args_def nrm_MKNOD3args_def; fail))+

lemma rt_MKNOD3resok [xdr_rt]: "z = zero_MKNOD3resok \<Longrightarrow> fit_MKNOD3resok v \<Longrightarrow> rt X out inp s (Xdr_MKNOD3resok X) v z (nrm_MKNOD3resok v)"
  unfolding Xdr_MKNOD3resok_def
  by (rule xdr_seq xdr_rt sticky_rules | (cases v; simp add: zero_MKNOD3resok_def fit_MKNOD3resok_def nrm_MKNOD3resok_def; fail))+

lemma rt_MKNOD3resfail [xdr_rt]: "z = zero_MKNOD3resfail \<Longrightarrow> rt X out inp s (Xdr_MKNOD3resfail X) v z (nrm_MKNOD3resfail v)"
  unfolding Xdr_MKNOD3resfail_def
  by (rule xdr_seq xdr_rt sticky_rules | (cases v; simp add: zero_MKNOD3resfail_def nrm_MKNOD3resfail_def; fail))+

lemma rt_MKNOD3res [xdr_rt]: "z = zero_MKNOD3res \<Longrightarrow> fit_MKNOD3res v \<Longrightarrow> rt X out inp s (Xdr_MKNOD3res X) v z (nrm_MKNOD3res v)"
  unfolding Xdr_MKNOD3res_def
  by (rule xdr_seq xdr_rt sticky_rules | (cases v; simp add: zero_MKNOD3res_def fit_MKNOD3res_def nrm_MKNOD3res_def; fail))+

lemma rt_REMOVE3args [xdr_rt]: "z = zero_REMOVE3args \<Longrightarrow> fit_REMOVE3args v \<Longrightarrow> rt X out inp s (Xdr_REMOVE3args X) v z v"
  unfolding Xdr_REMOVE3args_def
  by (rule xdr_seq xdr_rt sticky_rules | (cases v; simp add: zero_REMOVE3args_def fit_REMOVE3args_def; fail))+

lemma rt_REMOVE3resok [xdr_rt]: "z = zero_REMOVE3resok \<Longrightarrow> rt X out inp s (Xdr_REMOVE3resok X) v z (nrm_REMOVE3resok v)"
  unfolding Xdr_REMOVE3resok_def
  by (rule xdr_seq xdr_rt sticky_rules | (cases v; simp add: zero_REMOVE3resok_def nrm_REMOVE3resok_def; fail))+

lemma rt_REMOVE3resfail [xdr_rt]: "z = zero_REMOVE3resfail \<Longrightarrow> rt X out inp s (Xdr_REMOVE3resfail X) v z (nrm_REMOVE3resfail v)"
  unfolding Xdr_REMOVE3resfail_def
  by (rule xdr_seq xdr_rt sticky_rules | (cases v; simp add: zero_REMOVE3resfail_def nrm_REMOVE3resfail_def; fail))+

lemma rt_REMOVE3res [xdr_rt]: "z = zero_REMOVE3res \<Longrightarrow> rt X out inp s (Xdr_REMOVE3res X) v z (nrm_REMOVE3res v)"
  unfolding Xdr_REMOVE3res_def
  by (rule xdr_seq xdr_rt sticky_rules | (cases v; simp add: zero_REMOVE3res_def nrm_REMOVE3res_def; fail))+

lemma rt_RMDIR3args [xdr_rt]: "z = zero_RMDIR3args \<Longrightarrow> fit_RMDIR3args v \<Longrightarrow> rt X out inp s (Xdr_RMDIR3args X) v z v"
  unfolding Xdr_RMDIR3args_def
  by (rule xdr_seq xdr_rt sticky_rules | (cases v; simp add: zero_RMDIR3args_def fit_RMDIR3args_def; fail))+

lemma rt_RMDIR3resok [xdr_rt]: "z = zero_RMDIR3resok \<Longrightarrow> rt X out inp s (Xdr_RMDIR3resok X) v z (nrm_RMDIR3resok v)"
  unfolding Xdr_RMDIR3resok_def
  by (rule xdr_seq xdr_rt sticky_rules | (cases v; simp add: zero_RMDIR3resok_def nrm_RMDIR3resok_def; fail))+

lemma rt_RMDIR3resfail [xdr_rt]: "z = zero_RMDIR3resfail \<Longrightarrow> rt X out inp s (Xdr_RMDIR3resfail X) v z (nrm_RMDIR3resfail v)"
  unfolding Xdr_RMDIR3resfail_def
  by (rule xdr_seq xdr_rt sticky_rules | (cases v; simp add: zero_RMDIR3resfail_def nrm_RMDIR3resfail_def; fail))+

lemma rt_RMDIR3res [xdr_rt]: "z = zero_RMDIR3res \<Longrightarrow> rt X out inp s (Xdr_RMDIR3res X) v z (nrm_RMDIR3res v)"
  unfolding Xdr_RMDIR3res_def
  by (rule xdr_seq xdr_rt sticky_rules | (cases v; simp add: zero_RMDIR3res_def nrm_RMDIR3res_def; fail))+

lemma rt_RENAME3args [xdr_rt]: "z = zero_RENAME3args \<Longrightarrow> fit_RENAME3args v \<Longrightarrow> rt X out inp s (Xdr_RENAME3args X) v z v"
  unfolding Xdr_RENAME3args_def
  by (rule xdr_seq xdr_rt sticky_rules | (cases v; simp add: zero_RENAME3args_def fit_RENAME3args_def; fail))+

lemma rt_RENAME3resok [xdr_rt]: "z = zero_RENAME3resok \<Longrightarrow> rt X out inp s (Xdr_RENAME3resok X) v z (nrm_RENAME3resok v)"
  unfolding Xdr_RENAME3resok_def
  by (rule xdr_seq xdr_rt sticky_rules | (cases v; simp add: zero_RENAME3resok_def nrm_RENAME3resok_def; fail))+

lemma rt_RENAME3resfail [xdr_rt]: "z = zero_RENAME3resfail \<Longrightarrow> rt X out inp s (Xdr_RENAME3resfail X) v z (nrm_RENAME3resfail v)"
  unfolding Xdr_RENAME3resfail_def
  by (rule xdr_seq xdr_rt sticky_rules | (cases v; simp add: zero_RENAME3resfail_def nrm_RENAME3resfail_def; fail))+

lemma rt_RENAME3res [xdr_rt]: "z = zero_RENAME3res \<Longrightarrow> rt X out inp s (Xdr_RENAME3res X) v z (nrm_RENAME3res v)"
  unfolding Xdr_RENAME3res_def
  by (rule xdr_seq xdr_rt sticky_rules | (cases v; simp add: zero_RENAME3res_def nrm_RENAME3res_def; fail))+

lemma rt_LINK3args [xdr_rt]: "z = zero_LINK3args \<Longrightarrow> fit_LINK3args v \<Longrightarrow> rt X out inp s (Xdr_LINK3args X) v z v"
  unfolding Xdr_LINK3args_def
  by (rule xdr_seq xdr_rt sticky_rules | (cases v; simp add: zero_LINK3args_def fit_LINK3args_def; fail))+

lemma rt_LINK3resok [xdr_rt]: "z = zero_LINK3resok \<Longrightarrow> rt X out inp s (Xdr_LINK3resok X) v z (nrm_LINK3resok v)"
  unfolding Xdr_LINK3resok_def
  by (rule xdr_seq xdr_rt sticky_rules | (cases v; simp add: zero_LINK3resok_def nrm_LINK3resok_def; fail))+

lemma rt_LINK3resfail [xdr_rt]: "z = zero_LINK3resfail \<Longrightarrow> rt X out inp s (Xdr_LINK3resfail X) v z (nrm_LINK3resfail v)"
  unfolding Xdr_LINK3resfail_def
  by (rule xdr_seq xdr_rt sticky_rules | (cases v; simp add: zero_LINK3resfail_def nrm_LINK3resfail_def; fail))+

lemma rt_LINK3res [xdr_rt]: "z = zero_LINK3res \<Longrightarrow> rt X out inp s (Xdr_LINK3res X) v z (nrm_LINK3res v)"
  unfolding Xdr_LINK3res_def
  by (rule xdr_seq xdr_rt sticky_rules | (cases v; simp add: zero_LINK3res_def nrm_LINK3res_def; fail))+

lemma rt_READDIR3args [xdr_rt]: "z = zero_READDIR3args \<Longrightarrow> fit_READDIR3args v \<Longrightarrow> rt X out inp s (Xdr_READDIR3args X) v z v"
  unfolding Xdr_READDIR3args_def
  by (rule xdr_seq xdr_rt sticky_rules | (cases v; simp add: zero_READDIR3args_def fit_READDIR3args_def; fail))+

lemma rt_Entry3 [xdr_rt]:
  assumes "p \<noteq> []" "length p \<le> n" "list_all fit_Entry3 p" "z = [zero_Entry3]"
  shows "rt X out inp False (Xdr_Entry3 X n) p z p"
  unfolding assms(4)
proof (rule rt_chain [where F = "Xdr_Entry3 X" and m = 0 and N = "\<lambda>e. e", unfolded list.map_ident,
      OF Xdr_Entry3.simps(2) _ assms(1)])
  fix n e assume "0 \<le> n" "e \<in> set p"
  then have "fit_Entry3 e" using assms(3) by (simp add: list_all_iff)
  then show "rt X out inp False (xseq [
      xfield Entry3_Fileid Entry3_Fileid_update (Xdr_Fileid3 X),
      xfield Entry3_Name Entry3_Name_update (Xdr_Filename3 X),
      xfield Entry3_Cookie Entry3_Cookie_update (Xdr_Cookie3 X)]) e zero_Entry3 e"
    by - (rule xdr_seq xdr_rt sticky_rules | (cases e; simp add: zero_Entry3_def fit_Entry3_def; fail))+
qed (use assms(2) in auto)

lemma rt_Dirlist3 [xdr_rt]: "z = zero_Dirlist3 \<Longrightarrow> fit_Dirlist3 n v \<Longrightarrow> rt X out inp False (Xdr_Dirlist3 X n) v z v"
  unfolding Xdr_Dirlist3_def
  by (rule xdr_seq rt_opt xdr_rt sticky_rules | (cases v; simp add: zero_Dirlist3_def fit_Dirlist3_def; fail))+

lemma rt_READDIR3resok [xdr_rt]: "z = zero_READDIR3resok \<Longrightarrow> fit_READDIR3resok n v \<Longrightarrow> rt X out inp False (Xdr_READDIR3resok X n) v z (nrm_READDIR3resok v)"
  unfolding Xdr_READDIR3resok_def
  by (rule xdr_seq xdr_rt sticky_rules | (cases v; simp add: zero_READDIR3resok_def fit_READDIR3resok_def nrm_READDIR3resok_def; fail))+

lemma rt_READDIR3resfail [xdr_rt]: "z = zero_READDIR3resfail \<Longrightarrow> rt X out inp s (Xdr_READDIR3resfail X) v z (nrm_READDIR3resfail v)"
  unfolding Xdr_READDIR3resfail_def
  by (rule xdr_seq xdr_rt sticky_rules | (cases v; simp add: zero_READDIR3resfail_def nrm_READDIR3resfail_def; fail))+

lemma rt_READDIR3res [xdr_rt]: "z = zero_READDIR3res \<Longrightarrow> fit_READDIR3res n v \<Longrightarrow> rt X out inp False (Xdr_READDIR3res X n) v z (nrm_READDIR3res v)"
  unfolding Xdr_READDIR3res_def
  by (rule xdr_seq xdr_rt sticky_rules | (cases v; simp add: zero_READDIR3res_def fit_READDIR3res_def nrm_READDIR3res_def; fail))+

lemma rt_READDIRPLUS3args [xdr_rt]: "z = zero_READDIRPLUS3args \<Longrightarrow> fit_READDIRPLUS3args v \<Longrightarrow> rt X out inp s (Xdr_READDIRPLUS3args X) v z v"
  unfolding Xdr_READDIRPLUS3args_def
  by (rule xdr_seq xdr_rt sticky_rules | (cases v; simp add: zero_READDIRPLUS3args_def fit_READDIRPLUS3args_def; fail))+

lemma rt_Entryplus3 [xdr_rt]:
  assumes "p \<noteq> []" "length p \<le> n" "list_all fit_Entryplus3 p" "z = [zero_Entryplus3]"
  shows "rt X out inp False (Xdr_Entryplus3 X n) p z (map nrm_Entryplus3 p)"
  unfolding assms(4)
proof (rule rt_chain [where F = "Xdr_Entryplus3 X" and m = 0 and N = "nrm_Entryplus3",
      OF Xdr_Entryplus3.simps(2) _ assms(1)])
  fix n e assume "0 \<le> n" "e \<in> set p"
  then have "fit_Entryplus3 e" using assms(3) by (simp add: list_all_iff)
  then show "rt X out inp False (xseq [
      xfield Entryplus3_Fileid Entryplus3_Fileid_update (Xdr_Fileid3 X),
      xfield Entryplus3_Name Entryplus3_Name_update (Xdr_Filename3 X),
      xfield Entryplus3_Cookie Entryplus3_Cookie_update (Xdr_Cookie3 X),
      xfield Entryplus3_Name_attributes Entryplus3_Name_attributes_update (Xdr_Post_op_attr X),
      xfield Entryplus3_Name_handle Entryplus3_Name_handle_update (Xdr_Post_op_fh3 X)]) e zero_Entryplus3 (nrm_Entryplus3 e)"
    by - (rule xdr_seq xdr_rt sticky_rules | (cases e; simp add: zero_Entryplus3_def fit_Entryplus3_def nrm_Entryplus3_def; fail))+
qed (use assms(2) in auto)

lemma rt_Dirlistplus3 [xdr_rt]: "z = zero_Dirlistplus3 \<Longrightarrow> fit_Dirlistplus3 n v \<Longrightarrow> rt X out inp False (Xdr_Dirlistplus3 X n) v z (nrm_Dirlistplus3 v)"
  unfolding Xdr_Dirlistplus3_def
  by (rule xdr_seq rt_opt xdr_rt sticky_rules | (cases v; simp add: zero_Dirlistplus3_def fit_Dirlistplus3_def nrm_Dirlistplus3_def; fail))+

lemma rt_READDIRPLUS3resok [xdr_rt]: "z = zero_READDIRPLUS3resok \<Longrightarrow> fit_READDIRPLUS3resok n v \<Longrightarrow> rt X out inp False (Xdr_READDIRPLUS3resok X n) v z (nrm_READDIRPLUS3resok v)"
  unfolding Xdr_READDIRPLUS3resok_def
  by (rule xdr_seq xdr_rt sticky_rules | (cases v; simp add: zero_READDIRPLUS3resok_def fit_READDIRPLUS3resok_def nrm_READDIRPLUS3resok_def; fail))+

lemma rt_READDIRPLUS3resfail [xdr_rt]: "z = zero_READDIRPLUS3resfail \<Longrightarrow> rt X out inp s (Xdr_READDIRPLUS3resfail X) v z (nrm_READDIRPLUS3resfail v)"
  unfolding Xdr_READDIRPLUS3resfail_def
  by (rule xdr_seq xdr_rt sticky_rules | (cases v; simp add: zero_READDIRPLUS3resfail_def nrm_READDIRPLUS3resfail_def; fail))+

lemma rt_READDIRPLUS3res [xdr_rt]: "z = zero_READDIRPLUS3res \<Longrightarrow> fit_READDIRPLUS3res n v \<Longrightarrow> rt X out inp False (Xdr_READDIRPLUS3res X n) v z (nrm_READDIRPLUS3res v)"
  unfolding Xdr_READDIRPLUS3res_def
  by (rule xdr_seq xdr_rt sticky_rules | (cases v; simp add: zero_READDIRPLUS3res_def fit_READDIRPLUS3res_def nrm_READDIRPLUS3res_def; fail))+

lemma rt_FSSTAT3args [xdr_rt]: "z = zero_FSSTAT3args \<Longrightarrow> fit_FSSTAT3args v \<Longrightarrow> rt X out inp s (Xdr_FSSTAT3args X) v z v"
  unfolding Xdr_FSSTAT3args_def
  by (rule xdr_seq xdr_rt sticky_rules | (cases v; simp add: zero_FSSTAT3args_def fit_FSSTAT3args_def; fail))+

lemma rt_FSSTAT3resok [xdr_rt]: "z = zero_FSSTAT3resok \<Longrightarrow> rt X out inp s (Xdr_FSSTAT3resok X) v z (nrm_FSSTAT3resok v)"
  unfolding Xdr_FSSTAT3resok_def
  by (rule xdr_seq xdr_rt sticky_rules | (cases v; simp add: zero_FSSTAT3resok_def nrm_FSSTAT3resok_def; fail))+

lemma rt_FSSTAT3resfail [xdr_rt]: "z = zero_FSSTAT3resfail \<Longrightarrow> rt X out inp s (Xdr_FSSTAT3resfail X) v z (nrm_FSSTAT3resfail v)"
  unfolding Xdr_FSSTAT3resfail_def
  by (rule xdr_seq xdr_rt sticky_rules | (cases v; simp add: zero_FSSTAT3resfail_def nrm_FSSTAT3resfail_def; fail))+

lemma rt_FSSTAT3res [xdr_rt]: "z = zero_FSSTAT3res \<Longrightarrow> rt X out inp s (Xdr_FSSTAT3res X) v z (nrm_FSSTAT3res v)"
  unfolding Xdr_FSSTAT3res_def
  by (rule xdr_seq xdr_rt sticky_rules | (cases v; simp add: zero_FSSTAT3res_def nrm_FSSTAT3res_def; fail))+

lemma rt_FSINFO3args [xdr_rt]: "z = zero_FSINFO3args \<Longrightarrow> fit_FSINFO3args v \<Longrightarrow> rt X out inp s (Xdr_FSINFO3args X) v z v"
  unfolding Xdr_FSINFO3args_def
  by (rule xdr_seq xdr_rt sticky_rules | (cases v; simp add: zero_FSINFO3args_def fit_FSINFO3args_def; fail))+

lemma rt_FSINFO3resok [xdr_rt]: "z = zero_FSINFO3resok \<Longrightarrow> rt X out inp s (Xdr_FSINFO3resok X) v z (nrm_FSINFO3resok v)"
  unfolding Xdr_FSINFO3resok_def
  by (rule xdr_seq xdr_rt sticky_rules | (cases v; simp add: zero_FSINFO3resok_def nrm_FSINFO3resok_def; fail))+

lemma rt_FSINFO3resfail [xdr_rt]: "z = zero_FSINFO3resfail \<Longrightarrow> rt X out inp s (Xdr_FSINFO3resfail X) v z (nrm_FSINFO3resfail v)"
  unfolding Xdr_FSINFO3resfail_def
  by (rule xdr_seq xdr_rt sticky_rules | (cases v; simp add: zero_FSINFO3resfail_def nrm_FSINFO3resfail_def; fail))+

lemma rt_FSINFO3res [xdr_rt]: "z = zero_FSINFO3res \<Longrightarrow> rt X out inp s (Xdr_FSINFO3res X) v z (nrm_FSINFO3res v)"
  unfolding Xdr_FSINFO3res_def
  by (rule xdr_seq xdr_rt sticky_rules | (cases v; simp add: zero_FSINFO3res_def nrm_FSINFO3res_def; fail))+

lemma rt_PATHCONF3args [xdr_rt]: "z = zero_PATHCONF3args \<Longrightarrow> fit_PATHCONF3args v \<Longrightarrow> rt X out inp s (Xdr_PATHCONF3args X) v z v"
  unfolding Xdr_PATHCONF3args_def
  by (rule xdr_seq xdr_rt sticky_rules | (cases v; simp add: zero_PATHCONF3args_def fit_PATHCONF3args_def; fail))+

lemma rt_PATHCONF3resok [xdr_rt]: "z = zero_PATHCONF3resok \<Longrightarrow> rt X out inp s (Xdr_PATHCONF3resok X) v z (nrm_PATHCONF3resok v)"
  unfolding Xdr_PATHCONF3resok_def
  by (rule xdr_seq xdr_rt sticky_rules | (cases v; simp add: zero_PATHCONF3resok_def nrm_PATHCONF3resok_def; fail))+

lemma rt_PATHCONF3resfail [xdr_rt]: "z = zero_PATHCONF3resfail \<Longrightarrow> rt X out inp s (Xdr_PATHCONF3resfail X) v z (nrm_PATHCONF3resfail v)"
  unfolding Xdr_PATHCONF3resfail_def
  by (rule xdr_seq xdr_rt sticky_rules | (cases v; simp add: zero_PATHCONF3resfail_def nrm_PATHCONF3resfail_def; fail))+

lemma rt_PATHCONF3res [xdr_rt]: "z = zero_PATHCONF3res \<Longrightarrow> rt X out inp s (Xdr_PATHCONF3res X) v z (nrm_PATHCONF3res v)"
  unfolding Xdr_PATHCONF3res_def
  by (rule xdr_seq xdr_rt sticky_rules | (cases v; simp add: zero_PATHCONF3res_def nrm_PATHCONF3res_def; fail))+

lemma rt_COMMIT3args [xdr_rt]: "z = zero_COMMIT3args \<Longrightarrow> fit_COMMIT3args v \<Longrightarrow> rt X out inp s (Xdr_COMMIT3args X) v z v"
  unfolding Xdr_COMMIT3args_def
  by (rule xdr_seq xdr_rt sticky_rules | (cases v; simp add: zero_COMMIT3args_def fit_COMMIT3args_def; fail))+

lemma rt_COMMIT3resok [xdr_rt]: "z = zero_COMMIT3resok \<Longrightarrow> fit_COMMIT3resok v \<Longrightarrow> rt X out inp s (Xdr_COMMIT3resok X) v z (nrm_COMMIT3resok v)"
  unfolding Xdr_COMMIT3resok_def
  by (rule xdr_seq xdr_rt sticky_rules | (cases v; simp add: zero_COMMIT3resok_def fit_COMMIT3resok_def nrm_COMMIT3resok_def; fail))+

lemma rt_COMMIT3resfail [xdr_rt]: "z = zero_COMMIT3resfail \<Longrightarrow> rt X out inp s (Xdr_COMMIT3resfail X) v z (nrm_COMMIT3resfail v)"
  unfolding Xdr_COMMIT3resfail_def
  by (rule xdr_seq xdr_rt sticky_rules | (cases v; simp add: zero_COMMIT3resfail_def nrm_COMMIT3resfail_def; fail))+

lemma rt_COMMIT3res [xdr_rt]: "z = zero_COMMIT3res \<Longrightarrow> fit_COMMIT3res v \<Longrightarrow> rt X out inp s (Xdr_COMMIT3res X) v z (nrm_COMMIT3res v)"
  unfolding Xdr_COMMIT3res_def
  by (rule xdr_seq xdr_rt sticky_rules | (cases v; simp add: zero_COMMIT3res_def fit_COMMIT3res_def nrm_COMMIT3res_def; fail))+

lemma rt_Fhandle3 [xdr_rt]: "xfits (uint FHSIZE3) (v) \<Longrightarrow> rt X out inp s (Xdr_Fhandle3 X) v z v"
  unfolding Xdr_Fhandle3_def by (rule xdr_rt)

lemma rt_Dirpath3 [xdr_rt]: "xfits (uint MNTPATHLEN3) (v) \<Longrightarrow> rt X out inp s (Xdr_Dirpath3 X) v z v"
  unfolding Xdr_Dirpath3_def by (rule xdr_rt)

lemma rt_Name3 [xdr_rt]: "xfits (uint MNTNAMLEN3) (v) \<Longrightarrow> rt X out inp s (Xdr_Name3 X) v z v"
  unfolding Xdr_Name3_def by (rule xdr_rt)

lemma rt_Mountstat3 [xdr_rt]: "rt X out inp s (Xdr_Mountstat3 X) v z v"
  unfolding Xdr_Mountstat3_def by (rule xdr_rt)

lemma rt_Mountres3_ok [xdr_rt]: "z = zero_Mountres3_ok \<Longrightarrow> fit_Mountres3_ok v \<Longrightarrow> rt X out inp False (Xdr_Mountres3_ok X) v z v"
  unfolding Xdr_Mountres3_ok_def
  by (rule xdr_seq xdr_rt sticky_rules | (cases v; simp add: zero_Mountres3_ok_def fit_Mountres3_ok_def; fail))+

lemma rt_Mountres3 [xdr_rt]: "z = zero_Mountres3 \<Longrightarrow> fit_Mountres3 v \<Longrightarrow> rt X out inp False (Xdr_Mountres3 X) v z (nrm_Mountres3 v)"
  unfolding Xdr_Mountres3_def
  by (rule xdr_seq xdr_rt sticky_rules | (cases v; simp add: zero_Mountres3_def fit_Mountres3_def nrm_Mountres3_def; fail))+

lemma rt_Mount3 [xdr_rt]:
  assumes "p \<noteq> []" "length p \<le> n" "list_all fit_Mount3 p" "z = [zero_Mount3]"
  shows "rt X out inp False (Xdr_Mount3 X n) p z p"
  unfolding assms(4)
proof (rule rt_chain [where F = "Xdr_Mount3 X" and m = 0 and N = "\<lambda>e. e", unfolded list.map_ident,
      OF Xdr_Mount3.simps(2) _ assms(1)])
  fix n e assume "0 \<le> n" "e \<in> set p"
  then have "fit_Mount3 e" using assms(3) by (simp add: list_all_iff)
  then show "rt X out inp False (xseq [
      xfield Mount3_Ml_hostname Mount3_Ml_hostname_update (Xdr_Name3 X),
      xfield Mount3_Ml_directory Mount3_Ml_directory_update (Xdr_Dirpath3 X)]) e zero_Mount3 e"
    by - (rule xdr_seq xdr_rt sticky_rules | (cases e; simp add: zero_Mount3_def fit_Mount3_def; fail))+
qed (use assms(2) in auto)

lemma rt_Mountopt3 [xdr_rt]: "z = zero_Mountopt3 \<Longrightarrow> fit_Mountopt3 n v \<Longrightarrow> rt X out inp False (Xdr_Mountopt3 X n) v z v"
  unfolding Xdr_Mountopt3_def
  by (rule xdr_seq rt_opt xdr_rt sticky_rules | (cases v; simp add: zero_Mountopt3_def fit_Mountopt3_def; fail))+

lemma rt_Groups3 [xdr_rt]:
  assumes "p \<noteq> []" "length p \<le> n" "list_all fit_Groups3 p" "z = [zero_Groups3]"
  shows "rt X out inp False (Xdr_Groups3 X n) p z p"
  unfolding assms(4)
proof (rule rt_chain [where F = "Xdr_Groups3 X" and m = 0 and N = "\<lambda>e. e", unfolded list.map_ident,
      OF Xdr_Groups3.simps(2) _ assms(1)])
  fix n e assume "0 \<le> n" "e \<in> set p"
  then have "fit_Groups3 e" using assms(3) by (simp add: list_all_iff)
  then show "rt X out inp False (xseq [
      xfield Groups3_Gr_name Groups3_Gr_name_update (Xdr_Name3 X)]) e zero_Groups3 e"
    by - (rule xdr_seq xdr_rt sticky_rules | (cases e; simp add: zero_Groups3_def fit_Groups3_def; fail))+
qed (use assms(2) in auto)

lemma rt_Exports3 [xdr_rt]:
  assumes "p \<noteq> []" "length p + m \<le> n" "list_all (fit_Exports3 m) p" "z = [zero_Exports3]"
  shows "rt X out inp False (Xdr_Exports3 X n) p z p"
  unfolding assms(4)
proof (rule rt_chain [where F = "Xdr_Exports3 X" and m = m and N = "\<lambda>e. e", unfolded list.map_ident,
      OF Xdr_Exports3.simps(2) _ assms(1)])
  fix n e assume "m \<le> n" "e \<in> set p"
  then have "fit_Exports3 m e" using assms(3) by (simp add: list_all_iff)
  then show "rt X out inp False (xseq [
      xfield Exports3_Ex_dir Exports3_Ex_dir_update (Xdr_Dirpath3 X),
      xfield Exports3_Ex_groups Exports3_Ex_groups_update (xopt X zero_Groups3 (Xdr_Groups3 X n))]) e zero_Exports3 e"
    using \<open>m \<le> n\<close>
    by - (rule xdr_seq rt_opt xdr_rt sticky_rules | (cases e; simp add: zero_Exports3_def fit_Exports3_def; fail))+
qed (use assms(2) in auto)

lemma rt_Exportsopt3 [xdr_rt]: "z = zero_Exportsopt3 \<Longrightarrow> fit_Exportsopt3 n v \<Longrightarrow> rt X out inp False (Xdr_Exportsopt3 X n) v z v"
  unfolding Xdr_Exportsopt3_def
  by (rule xdr_seq rt_opt rt_Exports3 [where m = "n - length (Exportsopt3_P v)"] xdr_rt sticky_rules | (cases v; simp add: zero_Exportsopt3_def fit_Exportsopt3_def; fail))+

end

end
