(* ===== verification/RpcSpec.thy ===== *)
theory RpcSpec
  imports Rpc XdrCodecs
begin

text \<open>
  Calls over the wire. A call of a program is a value of a datatype with one constructor per procedure; the client
  encodes its arguments, the server finds the procedure in the table of registrations, and the client decodes the
  reply. Under the contract of the package \<^verbatim>\<open>xdr\<close> this is the same as calling the procedure.
\<close>

section \<open>Transparent wrappers\<close>

text \<open>The bytes of a call, the wrapper that serves it, and the bytes of its reply.\<close>

definition served ::
    "'xs xdrlib \<Rightarrow> ('xs \<Rightarrow> byte list) \<Rightarrow> ('xs \<Rightarrow> byte list) \<Rightarrow> ('xs \<Rightarrow> 'xs res) \<Rightarrow> ('xs, 's) rpc_handler \<Rightarrow>
     ('xs \<Rightarrow> ('r \<times> 'xs) res) \<Rightarrow> 's \<Rightarrow> 'r \<Rightarrow> 's \<Rightarrow> bool" where
  "served X out inp send handler recv s r s' \<longleftrightarrow>
     (\<exists>b b'. (\<forall>xs. writing X xs \<longrightarrow> (\<exists>xs'. send xs = Inr xs' \<and> writing X xs' \<and> out xs' = out xs @ b)) \<and>
        (\<forall>xs q. reading X xs \<longrightarrow> inp xs = b @ q \<longrightarrow>
           (\<exists>f xs'. handler xs s = Inr (Some f, xs', s') \<and> reading X xs' \<and> inp xs' = q \<and>
              (\<forall>ys. writing X ys \<longrightarrow> (\<exists>ys'. f ys = Inr ys' \<and> writing X ys' \<and> out ys' = out ys @ b')))) \<and>
        (\<forall>zs q. reading X zs \<longrightarrow> inp zs = b' @ q \<longrightarrow>
           (\<exists>zs'. recv zs = Inr (r, zs') \<and> reading X zs' \<and> inp zs' = q)))"

definition refused ::
    "'xs xdrlib \<Rightarrow> ('xs \<Rightarrow> byte list) \<Rightarrow> ('xs \<Rightarrow> byte list) \<Rightarrow> ('xs \<Rightarrow> 'xs res) \<Rightarrow> ('xs, 's) rpc_handler \<Rightarrow> bool" where
  "refused X out inp send handler \<longleftrightarrow>
     (\<exists>b. (\<forall>xs. writing X xs \<longrightarrow> (\<exists>xs'. send xs = Inr xs' \<and> writing X xs' \<and> out xs' = out xs @ b)) \<and>
        (\<forall>xs q s. reading X xs \<longrightarrow> q \<noteq> [] \<longrightarrow> inp xs @ q = b \<longrightarrow> (\<exists>xs'. handler xs s = Inr (None, xs', s))))"

lemma sends_xdrable: "sends X out f v b \<Longrightarrow> writing X xs \<Longrightarrow> \<exists>xs'. xdrable f v xs = Inr xs' \<and> writing X xs' \<and> out xs' = out xs @ b"
  unfolding sends_def xdrable_def by fastforce

lemma receives_reply:
  assumes "receives X inp enc zr b v" "\<And>xs. recv xs = bnd (enc zr xs) (\<lambda>(r, xs). Inr (C r, xs))"
    and q: "reading X zs" "inp zs = b @ q"
  shows "\<exists>zs'. recv zs = Inr (C v, zs') \<and> reading X zs' \<and> inp zs' = q"
proof -
  obtain zs' where "enc zr zs = Inr (v, zs')" "reading X zs'" "inp zs' = q"
    using assms(1) q unfolding receives_def by blast
  then show ?thesis by (simp add: assms(2))
qed

lemma served_wrap:
  assumes recv: "\<And>xs. recv xs = bnd (enc zr xs) (\<lambda>(r, xs). Inr (C r, xs))"
    and d: "d = bnd (call a' s) (\<lambda>(r, s). Inr (C r, s))" "d = Inr (r, s')"
    and rt: "rt X out inp True dec a z a'" and rt': "\<And>v. r = C v \<Longrightarrow> rt X out inp False enc v zr (N v)"
    and r': "\<And>v. r = C v \<Longrightarrow> r' = C (N v)"
  shows "served X out inp (xdrable dec a) (rpc_wrap X dec z call enc) recv s r' s'"
proof -
  obtain v where v: "call a' s = Inr (v, s')" "r = C v" using d(2) [unfolded d(1)] by (auto simp: bnd_eq_Inr)
  obtain b where b: "sends X out dec a b" "receives X inp dec z b a'" using rt unfolding rt_def by blast
  obtain b' where b': "sends X out enc v b'" "receives X inp enc zr b' (N v)" using rt' [OF v(2)] unfolding rt_def by blast
  have "\<exists>f xs'. rpc_wrap X dec z call enc xs s = Inr (Some f, xs', s') \<and> reading X xs' \<and> inp xs' = q \<and>
      (\<forall>ys. writing X ys \<longrightarrow> (\<exists>ys'. f ys = Inr ys' \<and> writing X ys' \<and> out ys' = out ys @ b'))"
    if q: "reading X xs" "inp xs = b @ q" for xs q
  proof -
    obtain xs' where "dec z xs = Inr (a', xs')" "reading X xs'" "inp xs' = q"
      using b(2) q unfolding receives_def by blast
    then show ?thesis
      using v sends_xdrable [OF b'(1)] by (intro exI [of _ "xdrable enc v"] exI [of _ xs']) (auto simp: rpc_wrap_def reading_def)
  qed
  with sends_xdrable [OF b(1)] receives_reply [OF b'(2) recv] show ?thesis
    unfolding served_def r' [OF v(2)] by (intro exI [of _ b] exI [of _ b']) blast
qed

lemma refused_wrap:
  assumes "rt X out inp True dec a z a'"
  shows "refused X out inp (xdrable dec a) (rpc_wrap X dec z call enc)"
proof -
  obtain b where b: "sends X out dec a b" "rejects X inp dec z b" using assms unfolding rt_def by blast
  have "\<exists>xs'. rpc_wrap X dec z call enc xs s = Inr (None, xs', s)" if q: "reading X xs" "q \<noteq> []" "inp xs @ q = b" for xs q s
  proof -
    obtain w xs' where "dec z xs = Inr (w, xs')" "broken X xs'" using b(2) q unfolding rejects_def by blast
    then show ?thesis by (simp add: rpc_wrap_def broken_def)
  qed
  then show ?thesis unfolding refused_def using sends_xdrable [OF b(1)] by (intro exI [of _ b]) blast
qed

lemma rt_Void [xdr_rt]: "rt X out inp s Xdr_Void v z w"
  by (simp add: Xdr_Void_def rt_skip)

text \<open>A procedure without arguments: nothing is sent, and nothing can be missing.\<close>

lemma served_plain:
  assumes recv: "\<And>xs. recv xs = bnd (enc zr xs) (\<lambda>(r, xs). Inr (C r, xs))"
    and d: "d = bnd (call s) (\<lambda>(r, s). Inr (C r, s))" "d = Inr (r, s')"
    and rt': "\<And>v. r = C v \<Longrightarrow> rt X out inp False enc v zr (N v)" and r': "\<And>v. r = C v \<Longrightarrow> r' = C (N v)"
  shows "served X out inp Inr (\<lambda>args s. bnd (call s) (\<lambda>(out, s). Inr (Some (xdrable enc out), args, s))) recv s r' s'"
proof -
  obtain v where v: "call s = Inr (v, s')" "r = C v" using d(2) [unfolded d(1)] by (auto simp: bnd_eq_Inr)
  obtain b' where b': "sends X out enc v b'" "receives X inp enc zr b' (N v)" using rt' [OF v(2)] unfolding rt_def by blast
  show ?thesis
    unfolding served_def r' [OF v(2)] using v(1) sends_xdrable [OF b'(1)] receives_reply [OF b'(2) recv]
    by (intro exI [of _ "[]"] exI [of _ b']) auto
qed

lemma refused_plain: "refused X out inp Inr handler"
  unfolding refused_def by (intro exI [of _ "[]"]) auto

section \<open>The program \<^verbatim>\<open>NFS_PROGRAM\<close>\<close>

datatype nfs_call =
    NfsCall_NULL
  | NfsCall_GETATTR GETATTR3args
  | NfsCall_SETATTR SETATTR3args
  | NfsCall_LOOKUP LOOKUP3args
  | NfsCall_ACCESS ACCESS3args
  | NfsCall_READLINK READLINK3args
  | NfsCall_READ READ3args
  | NfsCall_WRITE WRITE3args
  | NfsCall_CREATE CREATE3args
  | NfsCall_MKDIR MKDIR3args
  | NfsCall_SYMLINK SYMLINK3args
  | NfsCall_MKNOD MKNOD3args
  | NfsCall_REMOVE REMOVE3args
  | NfsCall_RMDIR RMDIR3args
  | NfsCall_RENAME RENAME3args
  | NfsCall_LINK LINK3args
  | NfsCall_READDIR READDIR3args
  | NfsCall_READDIRPLUS READDIRPLUS3args
  | NfsCall_FSSTAT FSSTAT3args
  | NfsCall_FSINFO FSINFO3args
  | NfsCall_PATHCONF PATHCONF3args
  | NfsCall_COMMIT COMMIT3args

datatype nfs_reply =
    NfsReply_NULL unit
  | NfsReply_GETATTR GETATTR3res
  | NfsReply_SETATTR SETATTR3res
  | NfsReply_LOOKUP LOOKUP3res
  | NfsReply_ACCESS ACCESS3res
  | NfsReply_READLINK READLINK3res
  | NfsReply_READ READ3res
  | NfsReply_WRITE WRITE3res
  | NfsReply_CREATE CREATE3res
  | NfsReply_MKDIR MKDIR3res
  | NfsReply_SYMLINK SYMLINK3res
  | NfsReply_MKNOD MKNOD3res
  | NfsReply_REMOVE REMOVE3res
  | NfsReply_RMDIR RMDIR3res
  | NfsReply_RENAME RENAME3res
  | NfsReply_LINK LINK3res
  | NfsReply_READDIR READDIR3res
  | NfsReply_READDIRPLUS READDIRPLUS3res
  | NfsReply_FSSTAT FSSTAT3res
  | NfsReply_FSINFO FSINFO3res
  | NfsReply_PATHCONF PATHCONF3res
  | NfsReply_COMMIT COMMIT3res

fun nfs_proc :: "nfs_call \<Rightarrow> u32" where
  "nfs_proc NfsCall_NULL = P_NFSPROC3_NULL"
| "nfs_proc (NfsCall_GETATTR a) = P_NFSPROC3_GETATTR"
| "nfs_proc (NfsCall_SETATTR a) = P_NFSPROC3_SETATTR"
| "nfs_proc (NfsCall_LOOKUP a) = P_NFSPROC3_LOOKUP"
| "nfs_proc (NfsCall_ACCESS a) = P_NFSPROC3_ACCESS"
| "nfs_proc (NfsCall_READLINK a) = P_NFSPROC3_READLINK"
| "nfs_proc (NfsCall_READ a) = P_NFSPROC3_READ"
| "nfs_proc (NfsCall_WRITE a) = P_NFSPROC3_WRITE"
| "nfs_proc (NfsCall_CREATE a) = P_NFSPROC3_CREATE"
| "nfs_proc (NfsCall_MKDIR a) = P_NFSPROC3_MKDIR"
| "nfs_proc (NfsCall_SYMLINK a) = P_NFSPROC3_SYMLINK"
| "nfs_proc (NfsCall_MKNOD a) = P_NFSPROC3_MKNOD"
| "nfs_proc (NfsCall_REMOVE a) = P_NFSPROC3_REMOVE"
| "nfs_proc (NfsCall_RMDIR a) = P_NFSPROC3_RMDIR"
| "nfs_proc (NfsCall_RENAME a) = P_NFSPROC3_RENAME"
| "nfs_proc (NfsCall_LINK a) = P_NFSPROC3_LINK"
| "nfs_proc (NfsCall_READDIR a) = P_NFSPROC3_READDIR"
| "nfs_proc (NfsCall_READDIRPLUS a) = P_NFSPROC3_READDIRPLUS"
| "nfs_proc (NfsCall_FSSTAT a) = P_NFSPROC3_FSSTAT"
| "nfs_proc (NfsCall_FSINFO a) = P_NFSPROC3_FSINFO"
| "nfs_proc (NfsCall_PATHCONF a) = P_NFSPROC3_PATHCONF"
| "nfs_proc (NfsCall_COMMIT a) = P_NFSPROC3_COMMIT"

fun nfs_send :: "'xs xdrlib \<Rightarrow> nfs_call \<Rightarrow> 'xs \<Rightarrow> 'xs res" where
  "nfs_send X NfsCall_NULL = Inr"
| "nfs_send X (NfsCall_GETATTR a) = xdrable (Xdr_GETATTR3args X) a"
| "nfs_send X (NfsCall_SETATTR a) = xdrable (Xdr_SETATTR3args X) a"
| "nfs_send X (NfsCall_LOOKUP a) = xdrable (Xdr_LOOKUP3args X) a"
| "nfs_send X (NfsCall_ACCESS a) = xdrable (Xdr_ACCESS3args X) a"
| "nfs_send X (NfsCall_READLINK a) = xdrable (Xdr_READLINK3args X) a"
| "nfs_send X (NfsCall_READ a) = xdrable (Xdr_READ3args X) a"
| "nfs_send X (NfsCall_WRITE a) = xdrable (Xdr_WRITE3args X) a"
| "nfs_send X (NfsCall_CREATE a) = xdrable (Xdr_CREATE3args X) a"
| "nfs_send X (NfsCall_MKDIR a) = xdrable (Xdr_MKDIR3args X) a"
| "nfs_send X (NfsCall_SYMLINK a) = xdrable (Xdr_SYMLINK3args X) a"
| "nfs_send X (NfsCall_MKNOD a) = xdrable (Xdr_MKNOD3args X) a"
| "nfs_send X (NfsCall_REMOVE a) = xdrable (Xdr_REMOVE3args X) a"
| "nfs_send X (NfsCall_RMDIR a) = xdrable (Xdr_RMDIR3args X) a"
| "nfs_send X (NfsCall_RENAME a) = xdrable (Xdr_RENAME3args X) a"
| "nfs_send X (NfsCall_LINK a) = xdrable (Xdr_LINK3args X) a"
| "nfs_send X (NfsCall_READDIR a) = xdrable (Xdr_READDIR3args X) a"
| "nfs_send X (NfsCall_READDIRPLUS a) = xdrable (Xdr_READDIRPLUS3args X) a"
| "nfs_send X (NfsCall_FSSTAT a) = xdrable (Xdr_FSSTAT3args X) a"
| "nfs_send X (NfsCall_FSINFO a) = xdrable (Xdr_FSINFO3args X) a"
| "nfs_send X (NfsCall_PATHCONF a) = xdrable (Xdr_PATHCONF3args X) a"
| "nfs_send X (NfsCall_COMMIT a) = xdrable (Xdr_COMMIT3args X) a"

fun nfs_do :: "'s NFS_PROGRAM_NFS_V3_handler \<Rightarrow> nfs_call \<Rightarrow> 's \<Rightarrow> (nfs_reply \<times> 's) res" where
  "nfs_do h NfsCall_NULL s = bnd (do_NFSPROC3_NULL h s) (\<lambda>(r, s). Inr (NfsReply_NULL r, s))"
| "nfs_do h (NfsCall_GETATTR a) s = bnd (do_NFSPROC3_GETATTR h a s) (\<lambda>(r, s). Inr (NfsReply_GETATTR r, s))"
| "nfs_do h (NfsCall_SETATTR a) s = bnd (do_NFSPROC3_SETATTR h a s) (\<lambda>(r, s). Inr (NfsReply_SETATTR r, s))"
| "nfs_do h (NfsCall_LOOKUP a) s = bnd (do_NFSPROC3_LOOKUP h a s) (\<lambda>(r, s). Inr (NfsReply_LOOKUP r, s))"
| "nfs_do h (NfsCall_ACCESS a) s = bnd (do_NFSPROC3_ACCESS h a s) (\<lambda>(r, s). Inr (NfsReply_ACCESS r, s))"
| "nfs_do h (NfsCall_READLINK a) s = bnd (do_NFSPROC3_READLINK h a s) (\<lambda>(r, s). Inr (NfsReply_READLINK r, s))"
| "nfs_do h (NfsCall_READ a) s = bnd (do_NFSPROC3_READ h a s) (\<lambda>(r, s). Inr (NfsReply_READ r, s))"
| "nfs_do h (NfsCall_WRITE a) s = bnd (do_NFSPROC3_WRITE h a s) (\<lambda>(r, s). Inr (NfsReply_WRITE r, s))"
| "nfs_do h (NfsCall_CREATE a) s = bnd (do_NFSPROC3_CREATE h a s) (\<lambda>(r, s). Inr (NfsReply_CREATE r, s))"
| "nfs_do h (NfsCall_MKDIR a) s = bnd (do_NFSPROC3_MKDIR h a s) (\<lambda>(r, s). Inr (NfsReply_MKDIR r, s))"
| "nfs_do h (NfsCall_SYMLINK a) s = bnd (do_NFSPROC3_SYMLINK h a s) (\<lambda>(r, s). Inr (NfsReply_SYMLINK r, s))"
| "nfs_do h (NfsCall_MKNOD a) s = bnd (do_NFSPROC3_MKNOD h a s) (\<lambda>(r, s). Inr (NfsReply_MKNOD r, s))"
| "nfs_do h (NfsCall_REMOVE a) s = bnd (do_NFSPROC3_REMOVE h a s) (\<lambda>(r, s). Inr (NfsReply_REMOVE r, s))"
| "nfs_do h (NfsCall_RMDIR a) s = bnd (do_NFSPROC3_RMDIR h a s) (\<lambda>(r, s). Inr (NfsReply_RMDIR r, s))"
| "nfs_do h (NfsCall_RENAME a) s = bnd (do_NFSPROC3_RENAME h a s) (\<lambda>(r, s). Inr (NfsReply_RENAME r, s))"
| "nfs_do h (NfsCall_LINK a) s = bnd (do_NFSPROC3_LINK h a s) (\<lambda>(r, s). Inr (NfsReply_LINK r, s))"
| "nfs_do h (NfsCall_READDIR a) s = bnd (do_NFSPROC3_READDIR h a s) (\<lambda>(r, s). Inr (NfsReply_READDIR r, s))"
| "nfs_do h (NfsCall_READDIRPLUS a) s = bnd (do_NFSPROC3_READDIRPLUS h a s) (\<lambda>(r, s). Inr (NfsReply_READDIRPLUS r, s))"
| "nfs_do h (NfsCall_FSSTAT a) s = bnd (do_NFSPROC3_FSSTAT h a s) (\<lambda>(r, s). Inr (NfsReply_FSSTAT r, s))"
| "nfs_do h (NfsCall_FSINFO a) s = bnd (do_NFSPROC3_FSINFO h a s) (\<lambda>(r, s). Inr (NfsReply_FSINFO r, s))"
| "nfs_do h (NfsCall_PATHCONF a) s = bnd (do_NFSPROC3_PATHCONF h a s) (\<lambda>(r, s). Inr (NfsReply_PATHCONF r, s))"
| "nfs_do h (NfsCall_COMMIT a) s = bnd (do_NFSPROC3_COMMIT h a s) (\<lambda>(r, s). Inr (NfsReply_COMMIT r, s))"

fun nfs_recv :: "'xs xdrlib \<Rightarrow> nat \<Rightarrow> nfs_call \<Rightarrow> 'xs \<Rightarrow> (nfs_reply \<times> 'xs) res" where
  "nfs_recv X n NfsCall_NULL xs = bnd (Xdr_Void () xs) (\<lambda>(r, xs). Inr (NfsReply_NULL r, xs))"
| "nfs_recv X n (NfsCall_GETATTR a) xs = bnd (Xdr_GETATTR3res X zero_GETATTR3res xs) (\<lambda>(r, xs). Inr (NfsReply_GETATTR r, xs))"
| "nfs_recv X n (NfsCall_SETATTR a) xs = bnd (Xdr_SETATTR3res X zero_SETATTR3res xs) (\<lambda>(r, xs). Inr (NfsReply_SETATTR r, xs))"
| "nfs_recv X n (NfsCall_LOOKUP a) xs = bnd (Xdr_LOOKUP3res X zero_LOOKUP3res xs) (\<lambda>(r, xs). Inr (NfsReply_LOOKUP r, xs))"
| "nfs_recv X n (NfsCall_ACCESS a) xs = bnd (Xdr_ACCESS3res X zero_ACCESS3res xs) (\<lambda>(r, xs). Inr (NfsReply_ACCESS r, xs))"
| "nfs_recv X n (NfsCall_READLINK a) xs = bnd (Xdr_READLINK3res X zero_READLINK3res xs) (\<lambda>(r, xs). Inr (NfsReply_READLINK r, xs))"
| "nfs_recv X n (NfsCall_READ a) xs = bnd (Xdr_READ3res X zero_READ3res xs) (\<lambda>(r, xs). Inr (NfsReply_READ r, xs))"
| "nfs_recv X n (NfsCall_WRITE a) xs = bnd (Xdr_WRITE3res X zero_WRITE3res xs) (\<lambda>(r, xs). Inr (NfsReply_WRITE r, xs))"
| "nfs_recv X n (NfsCall_CREATE a) xs = bnd (Xdr_CREATE3res X zero_CREATE3res xs) (\<lambda>(r, xs). Inr (NfsReply_CREATE r, xs))"
| "nfs_recv X n (NfsCall_MKDIR a) xs = bnd (Xdr_MKDIR3res X zero_MKDIR3res xs) (\<lambda>(r, xs). Inr (NfsReply_MKDIR r, xs))"
| "nfs_recv X n (NfsCall_SYMLINK a) xs = bnd (Xdr_SYMLINK3res X zero_SYMLINK3res xs) (\<lambda>(r, xs). Inr (NfsReply_SYMLINK r, xs))"
| "nfs_recv X n (NfsCall_MKNOD a) xs = bnd (Xdr_MKNOD3res X zero_MKNOD3res xs) (\<lambda>(r, xs). Inr (NfsReply_MKNOD r, xs))"
| "nfs_recv X n (NfsCall_REMOVE a) xs = bnd (Xdr_REMOVE3res X zero_REMOVE3res xs) (\<lambda>(r, xs). Inr (NfsReply_REMOVE r, xs))"
| "nfs_recv X n (NfsCall_RMDIR a) xs = bnd (Xdr_RMDIR3res X zero_RMDIR3res xs) (\<lambda>(r, xs). Inr (NfsReply_RMDIR r, xs))"
| "nfs_recv X n (NfsCall_RENAME a) xs = bnd (Xdr_RENAME3res X zero_RENAME3res xs) (\<lambda>(r, xs). Inr (NfsReply_RENAME r, xs))"
| "nfs_recv X n (NfsCall_LINK a) xs = bnd (Xdr_LINK3res X zero_LINK3res xs) (\<lambda>(r, xs). Inr (NfsReply_LINK r, xs))"
| "nfs_recv X n (NfsCall_READDIR a) xs = bnd (Xdr_READDIR3res X n zero_READDIR3res xs) (\<lambda>(r, xs). Inr (NfsReply_READDIR r, xs))"
| "nfs_recv X n (NfsCall_READDIRPLUS a) xs = bnd (Xdr_READDIRPLUS3res X n zero_READDIRPLUS3res xs) (\<lambda>(r, xs). Inr (NfsReply_READDIRPLUS r, xs))"
| "nfs_recv X n (NfsCall_FSSTAT a) xs = bnd (Xdr_FSSTAT3res X zero_FSSTAT3res xs) (\<lambda>(r, xs). Inr (NfsReply_FSSTAT r, xs))"
| "nfs_recv X n (NfsCall_FSINFO a) xs = bnd (Xdr_FSINFO3res X zero_FSINFO3res xs) (\<lambda>(r, xs). Inr (NfsReply_FSINFO r, xs))"
| "nfs_recv X n (NfsCall_PATHCONF a) xs = bnd (Xdr_PATHCONF3res X zero_PATHCONF3res xs) (\<lambda>(r, xs). Inr (NfsReply_PATHCONF r, xs))"
| "nfs_recv X n (NfsCall_COMMIT a) xs = bnd (Xdr_COMMIT3res X zero_COMMIT3res xs) (\<lambda>(r, xs). Inr (NfsReply_COMMIT r, xs))"

fun nfs_call_fit :: "nfs_call \<Rightarrow> bool" where
  "nfs_call_fit NfsCall_NULL = True"
| "nfs_call_fit (NfsCall_GETATTR a) = fit_GETATTR3args (a)"
| "nfs_call_fit (NfsCall_SETATTR a) = fit_SETATTR3args (a)"
| "nfs_call_fit (NfsCall_LOOKUP a) = fit_LOOKUP3args (a)"
| "nfs_call_fit (NfsCall_ACCESS a) = fit_ACCESS3args (a)"
| "nfs_call_fit (NfsCall_READLINK a) = fit_READLINK3args (a)"
| "nfs_call_fit (NfsCall_READ a) = fit_READ3args (a)"
| "nfs_call_fit (NfsCall_WRITE a) = fit_WRITE3args (a)"
| "nfs_call_fit (NfsCall_CREATE a) = fit_CREATE3args (a)"
| "nfs_call_fit (NfsCall_MKDIR a) = fit_MKDIR3args (a)"
| "nfs_call_fit (NfsCall_SYMLINK a) = fit_SYMLINK3args (a)"
| "nfs_call_fit (NfsCall_MKNOD a) = fit_MKNOD3args (a)"
| "nfs_call_fit (NfsCall_REMOVE a) = fit_REMOVE3args (a)"
| "nfs_call_fit (NfsCall_RMDIR a) = fit_RMDIR3args (a)"
| "nfs_call_fit (NfsCall_RENAME a) = fit_RENAME3args (a)"
| "nfs_call_fit (NfsCall_LINK a) = fit_LINK3args (a)"
| "nfs_call_fit (NfsCall_READDIR a) = fit_READDIR3args (a)"
| "nfs_call_fit (NfsCall_READDIRPLUS a) = fit_READDIRPLUS3args (a)"
| "nfs_call_fit (NfsCall_FSSTAT a) = fit_FSSTAT3args (a)"
| "nfs_call_fit (NfsCall_FSINFO a) = fit_FSINFO3args (a)"
| "nfs_call_fit (NfsCall_PATHCONF a) = fit_PATHCONF3args (a)"
| "nfs_call_fit (NfsCall_COMMIT a) = fit_COMMIT3args (a)"

fun nfs_call_nrm :: "nfs_call \<Rightarrow> nfs_call" where
  "nfs_call_nrm NfsCall_NULL = NfsCall_NULL"
| "nfs_call_nrm (NfsCall_GETATTR a) = NfsCall_GETATTR a"
| "nfs_call_nrm (NfsCall_SETATTR a) = NfsCall_SETATTR (nrm_SETATTR3args a)"
| "nfs_call_nrm (NfsCall_LOOKUP a) = NfsCall_LOOKUP a"
| "nfs_call_nrm (NfsCall_ACCESS a) = NfsCall_ACCESS a"
| "nfs_call_nrm (NfsCall_READLINK a) = NfsCall_READLINK a"
| "nfs_call_nrm (NfsCall_READ a) = NfsCall_READ a"
| "nfs_call_nrm (NfsCall_WRITE a) = NfsCall_WRITE a"
| "nfs_call_nrm (NfsCall_CREATE a) = NfsCall_CREATE (nrm_CREATE3args a)"
| "nfs_call_nrm (NfsCall_MKDIR a) = NfsCall_MKDIR (nrm_MKDIR3args a)"
| "nfs_call_nrm (NfsCall_SYMLINK a) = NfsCall_SYMLINK (nrm_SYMLINK3args a)"
| "nfs_call_nrm (NfsCall_MKNOD a) = NfsCall_MKNOD (nrm_MKNOD3args a)"
| "nfs_call_nrm (NfsCall_REMOVE a) = NfsCall_REMOVE a"
| "nfs_call_nrm (NfsCall_RMDIR a) = NfsCall_RMDIR a"
| "nfs_call_nrm (NfsCall_RENAME a) = NfsCall_RENAME a"
| "nfs_call_nrm (NfsCall_LINK a) = NfsCall_LINK a"
| "nfs_call_nrm (NfsCall_READDIR a) = NfsCall_READDIR a"
| "nfs_call_nrm (NfsCall_READDIRPLUS a) = NfsCall_READDIRPLUS a"
| "nfs_call_nrm (NfsCall_FSSTAT a) = NfsCall_FSSTAT a"
| "nfs_call_nrm (NfsCall_FSINFO a) = NfsCall_FSINFO a"
| "nfs_call_nrm (NfsCall_PATHCONF a) = NfsCall_PATHCONF a"
| "nfs_call_nrm (NfsCall_COMMIT a) = NfsCall_COMMIT a"

fun nfs_reply_fit :: "nat \<Rightarrow> nfs_reply \<Rightarrow> bool" where
  "nfs_reply_fit n (NfsReply_NULL r) = True"
| "nfs_reply_fit n (NfsReply_GETATTR r) = True"
| "nfs_reply_fit n (NfsReply_SETATTR r) = True"
| "nfs_reply_fit n (NfsReply_LOOKUP r) = fit_LOOKUP3res r"
| "nfs_reply_fit n (NfsReply_ACCESS r) = True"
| "nfs_reply_fit n (NfsReply_READLINK r) = fit_READLINK3res r"
| "nfs_reply_fit n (NfsReply_READ r) = fit_READ3res r"
| "nfs_reply_fit n (NfsReply_WRITE r) = fit_WRITE3res r"
| "nfs_reply_fit n (NfsReply_CREATE r) = fit_CREATE3res r"
| "nfs_reply_fit n (NfsReply_MKDIR r) = fit_MKDIR3res r"
| "nfs_reply_fit n (NfsReply_SYMLINK r) = fit_SYMLINK3res r"
| "nfs_reply_fit n (NfsReply_MKNOD r) = fit_MKNOD3res r"
| "nfs_reply_fit n (NfsReply_REMOVE r) = True"
| "nfs_reply_fit n (NfsReply_RMDIR r) = True"
| "nfs_reply_fit n (NfsReply_RENAME r) = True"
| "nfs_reply_fit n (NfsReply_LINK r) = True"
| "nfs_reply_fit n (NfsReply_READDIR r) = fit_READDIR3res n r"
| "nfs_reply_fit n (NfsReply_READDIRPLUS r) = fit_READDIRPLUS3res n r"
| "nfs_reply_fit n (NfsReply_FSSTAT r) = True"
| "nfs_reply_fit n (NfsReply_FSINFO r) = True"
| "nfs_reply_fit n (NfsReply_PATHCONF r) = True"
| "nfs_reply_fit n (NfsReply_COMMIT r) = fit_COMMIT3res r"

fun nfs_reply_nrm :: "nfs_reply \<Rightarrow> nfs_reply" where
  "nfs_reply_nrm (NfsReply_NULL r) = NfsReply_NULL r"
| "nfs_reply_nrm (NfsReply_GETATTR r) = NfsReply_GETATTR (nrm_GETATTR3res r)"
| "nfs_reply_nrm (NfsReply_SETATTR r) = NfsReply_SETATTR (nrm_SETATTR3res r)"
| "nfs_reply_nrm (NfsReply_LOOKUP r) = NfsReply_LOOKUP (nrm_LOOKUP3res r)"
| "nfs_reply_nrm (NfsReply_ACCESS r) = NfsReply_ACCESS (nrm_ACCESS3res r)"
| "nfs_reply_nrm (NfsReply_READLINK r) = NfsReply_READLINK (nrm_READLINK3res r)"
| "nfs_reply_nrm (NfsReply_READ r) = NfsReply_READ (nrm_READ3res r)"
| "nfs_reply_nrm (NfsReply_WRITE r) = NfsReply_WRITE (nrm_WRITE3res r)"
| "nfs_reply_nrm (NfsReply_CREATE r) = NfsReply_CREATE (nrm_CREATE3res r)"
| "nfs_reply_nrm (NfsReply_MKDIR r) = NfsReply_MKDIR (nrm_MKDIR3res r)"
| "nfs_reply_nrm (NfsReply_SYMLINK r) = NfsReply_SYMLINK (nrm_SYMLINK3res r)"
| "nfs_reply_nrm (NfsReply_MKNOD r) = NfsReply_MKNOD (nrm_MKNOD3res r)"
| "nfs_reply_nrm (NfsReply_REMOVE r) = NfsReply_REMOVE (nrm_REMOVE3res r)"
| "nfs_reply_nrm (NfsReply_RMDIR r) = NfsReply_RMDIR (nrm_RMDIR3res r)"
| "nfs_reply_nrm (NfsReply_RENAME r) = NfsReply_RENAME (nrm_RENAME3res r)"
| "nfs_reply_nrm (NfsReply_LINK r) = NfsReply_LINK (nrm_LINK3res r)"
| "nfs_reply_nrm (NfsReply_READDIR r) = NfsReply_READDIR (nrm_READDIR3res r)"
| "nfs_reply_nrm (NfsReply_READDIRPLUS r) = NfsReply_READDIRPLUS (nrm_READDIRPLUS3res r)"
| "nfs_reply_nrm (NfsReply_FSSTAT r) = NfsReply_FSSTAT (nrm_FSSTAT3res r)"
| "nfs_reply_nrm (NfsReply_FSINFO r) = NfsReply_FSINFO (nrm_FSINFO3res r)"
| "nfs_reply_nrm (NfsReply_PATHCONF r) = NfsReply_PATHCONF (nrm_PATHCONF3res r)"
| "nfs_reply_nrm (NfsReply_COMMIT r) = NfsReply_COMMIT (nrm_COMMIT3res r)"

definition nfs_find :: "'xs xdrlib \<Rightarrow> nat \<Rightarrow> 's NFS_PROGRAM_NFS_V3_handler \<Rightarrow> u32 \<Rightarrow> ('xs, 's) ProcRegistration option" where
  "nfs_find X n h p = find (\<lambda>g. Prog g = NFS_PROGRAM \<and> Vers g = NFS_V3 \<and> Proc g = p) (NFS_PROGRAM_NFS_V3_regs X n h)"

fun nfs_wrap :: "'xs xdrlib \<Rightarrow> nat \<Rightarrow> 's NFS_PROGRAM_NFS_V3_handler \<Rightarrow> nfs_call \<Rightarrow> ('xs, 's) rpc_handler" where
  "nfs_wrap X n h NfsCall_NULL = wrap_NFSPROC3_NULL X h"
| "nfs_wrap X n h (NfsCall_GETATTR a) = wrap_NFSPROC3_GETATTR X h"
| "nfs_wrap X n h (NfsCall_SETATTR a) = wrap_NFSPROC3_SETATTR X h"
| "nfs_wrap X n h (NfsCall_LOOKUP a) = wrap_NFSPROC3_LOOKUP X h"
| "nfs_wrap X n h (NfsCall_ACCESS a) = wrap_NFSPROC3_ACCESS X h"
| "nfs_wrap X n h (NfsCall_READLINK a) = wrap_NFSPROC3_READLINK X h"
| "nfs_wrap X n h (NfsCall_READ a) = wrap_NFSPROC3_READ X h"
| "nfs_wrap X n h (NfsCall_WRITE a) = wrap_NFSPROC3_WRITE X h"
| "nfs_wrap X n h (NfsCall_CREATE a) = wrap_NFSPROC3_CREATE X h"
| "nfs_wrap X n h (NfsCall_MKDIR a) = wrap_NFSPROC3_MKDIR X h"
| "nfs_wrap X n h (NfsCall_SYMLINK a) = wrap_NFSPROC3_SYMLINK X h"
| "nfs_wrap X n h (NfsCall_MKNOD a) = wrap_NFSPROC3_MKNOD X h"
| "nfs_wrap X n h (NfsCall_REMOVE a) = wrap_NFSPROC3_REMOVE X h"
| "nfs_wrap X n h (NfsCall_RMDIR a) = wrap_NFSPROC3_RMDIR X h"
| "nfs_wrap X n h (NfsCall_RENAME a) = wrap_NFSPROC3_RENAME X h"
| "nfs_wrap X n h (NfsCall_LINK a) = wrap_NFSPROC3_LINK X h"
| "nfs_wrap X n h (NfsCall_READDIR a) = wrap_NFSPROC3_READDIR X n h"
| "nfs_wrap X n h (NfsCall_READDIRPLUS a) = wrap_NFSPROC3_READDIRPLUS X n h"
| "nfs_wrap X n h (NfsCall_FSSTAT a) = wrap_NFSPROC3_FSSTAT X h"
| "nfs_wrap X n h (NfsCall_FSINFO a) = wrap_NFSPROC3_FSINFO X h"
| "nfs_wrap X n h (NfsCall_PATHCONF a) = wrap_NFSPROC3_PATHCONF X h"
| "nfs_wrap X n h (NfsCall_COMMIT a) = wrap_NFSPROC3_COMMIT X h"

lemma nfs_find_proc:
  "\<exists>g. nfs_find X n h (nfs_proc c) = Some g \<and> Handler g = nfs_wrap X n h c"
  by (cases c) (simp_all add: nfs_find_def NFS_PROGRAM_NFS_V3_regs_def)

lemmas nfs_wraps = wrap_NFSPROC3_NULL_def wrap_NFSPROC3_GETATTR_def wrap_NFSPROC3_SETATTR_def wrap_NFSPROC3_LOOKUP_def wrap_NFSPROC3_ACCESS_def wrap_NFSPROC3_READLINK_def wrap_NFSPROC3_READ_def wrap_NFSPROC3_WRITE_def wrap_NFSPROC3_CREATE_def wrap_NFSPROC3_MKDIR_def wrap_NFSPROC3_SYMLINK_def wrap_NFSPROC3_MKNOD_def wrap_NFSPROC3_REMOVE_def wrap_NFSPROC3_RMDIR_def wrap_NFSPROC3_RENAME_def wrap_NFSPROC3_LINK_def wrap_NFSPROC3_READDIR_def wrap_NFSPROC3_READDIRPLUS_def wrap_NFSPROC3_FSSTAT_def wrap_NFSPROC3_FSINFO_def wrap_NFSPROC3_PATHCONF_def wrap_NFSPROC3_COMMIT_def

context xdr_codec
begin

lemma nfs_refused:
  assumes "nfs_call_fit c"
  shows "refused X out inp (nfs_send X c) (nfs_wrap X n h c)"
  using assms by (cases c; simp only: nfs_wrap.simps nfs_send.simps nfs_wraps)
     (rule refused_wrap refused_plain xdr_rt | simp)+

lemma nfs_served:
  assumes "nfs_call_fit c" and "nfs_do h (nfs_call_nrm c) s = Inr (r, s')" and "nfs_reply_fit n r"
  shows "served X out inp (nfs_send X c) (nfs_wrap X n h c) (nfs_recv X n c) s (nfs_reply_nrm r) s'"
  using assms
  by (cases c; simp only: nfs_wrap.simps nfs_send.simps nfs_call_nrm.simps nfs_wraps)
     (rule served_wrap served_plain nfs_recv.simps nfs_do.simps xdr_rt | assumption | simp)+

end

section \<open>The program \<^verbatim>\<open>MOUNT_PROGRAM\<close>\<close>

datatype mount_call =
    MntCall_NULL
  | MntCall_MNT Dirpath3
  | MntCall_DUMP
  | MntCall_UMNT Dirpath3
  | MntCall_UMNTALL
  | MntCall_EXPORT

datatype mount_reply =
    MntReply_NULL unit
  | MntReply_MNT Mountres3
  | MntReply_DUMP Mountopt3
  | MntReply_UMNT unit
  | MntReply_UMNTALL unit
  | MntReply_EXPORT Exportsopt3

fun mount_proc :: "mount_call \<Rightarrow> u32" where
  "mount_proc MntCall_NULL = P_MOUNTPROC3_NULL"
| "mount_proc (MntCall_MNT a) = P_MOUNTPROC3_MNT"
| "mount_proc MntCall_DUMP = P_MOUNTPROC3_DUMP"
| "mount_proc (MntCall_UMNT a) = P_MOUNTPROC3_UMNT"
| "mount_proc MntCall_UMNTALL = P_MOUNTPROC3_UMNTALL"
| "mount_proc MntCall_EXPORT = P_MOUNTPROC3_EXPORT"

fun mount_send :: "'xs xdrlib \<Rightarrow> mount_call \<Rightarrow> 'xs \<Rightarrow> 'xs res" where
  "mount_send X MntCall_NULL = Inr"
| "mount_send X (MntCall_MNT a) = xdrable (Xdr_Dirpath3 X) a"
| "mount_send X MntCall_DUMP = Inr"
| "mount_send X (MntCall_UMNT a) = xdrable (Xdr_Dirpath3 X) a"
| "mount_send X MntCall_UMNTALL = Inr"
| "mount_send X MntCall_EXPORT = Inr"

fun mount_do :: "'s MOUNT_PROGRAM_MOUNT_V3_handler \<Rightarrow> mount_call \<Rightarrow> 's \<Rightarrow> (mount_reply \<times> 's) res" where
  "mount_do h MntCall_NULL s = bnd (do_MOUNTPROC3_NULL h s) (\<lambda>(r, s). Inr (MntReply_NULL r, s))"
| "mount_do h (MntCall_MNT a) s = bnd (do_MOUNTPROC3_MNT h a s) (\<lambda>(r, s). Inr (MntReply_MNT r, s))"
| "mount_do h MntCall_DUMP s = bnd (do_MOUNTPROC3_DUMP h s) (\<lambda>(r, s). Inr (MntReply_DUMP r, s))"
| "mount_do h (MntCall_UMNT a) s = bnd (do_MOUNTPROC3_UMNT h a s) (\<lambda>(r, s). Inr (MntReply_UMNT r, s))"
| "mount_do h MntCall_UMNTALL s = bnd (do_MOUNTPROC3_UMNTALL h s) (\<lambda>(r, s). Inr (MntReply_UMNTALL r, s))"
| "mount_do h MntCall_EXPORT s = bnd (do_MOUNTPROC3_EXPORT h s) (\<lambda>(r, s). Inr (MntReply_EXPORT r, s))"

fun mount_recv :: "'xs xdrlib \<Rightarrow> nat \<Rightarrow> mount_call \<Rightarrow> 'xs \<Rightarrow> (mount_reply \<times> 'xs) res" where
  "mount_recv X n MntCall_NULL xs = bnd (Xdr_Void () xs) (\<lambda>(r, xs). Inr (MntReply_NULL r, xs))"
| "mount_recv X n (MntCall_MNT a) xs = bnd (Xdr_Mountres3 X zero_Mountres3 xs) (\<lambda>(r, xs). Inr (MntReply_MNT r, xs))"
| "mount_recv X n MntCall_DUMP xs = bnd (Xdr_Mountopt3 X n zero_Mountopt3 xs) (\<lambda>(r, xs). Inr (MntReply_DUMP r, xs))"
| "mount_recv X n (MntCall_UMNT a) xs = bnd (Xdr_Void () xs) (\<lambda>(r, xs). Inr (MntReply_UMNT r, xs))"
| "mount_recv X n MntCall_UMNTALL xs = bnd (Xdr_Void () xs) (\<lambda>(r, xs). Inr (MntReply_UMNTALL r, xs))"
| "mount_recv X n MntCall_EXPORT xs = bnd (Xdr_Exportsopt3 X n zero_Exportsopt3 xs) (\<lambda>(r, xs). Inr (MntReply_EXPORT r, xs))"

fun mount_call_fit :: "mount_call \<Rightarrow> bool" where
  "mount_call_fit MntCall_NULL = True"
| "mount_call_fit (MntCall_MNT a) = xfits (uint MNTPATHLEN3) (a)"
| "mount_call_fit MntCall_DUMP = True"
| "mount_call_fit (MntCall_UMNT a) = xfits (uint MNTPATHLEN3) (a)"
| "mount_call_fit MntCall_UMNTALL = True"
| "mount_call_fit MntCall_EXPORT = True"

fun mount_call_nrm :: "mount_call \<Rightarrow> mount_call" where
  "mount_call_nrm MntCall_NULL = MntCall_NULL"
| "mount_call_nrm (MntCall_MNT a) = MntCall_MNT a"
| "mount_call_nrm MntCall_DUMP = MntCall_DUMP"
| "mount_call_nrm (MntCall_UMNT a) = MntCall_UMNT a"
| "mount_call_nrm MntCall_UMNTALL = MntCall_UMNTALL"
| "mount_call_nrm MntCall_EXPORT = MntCall_EXPORT"

fun mount_reply_fit :: "nat \<Rightarrow> mount_reply \<Rightarrow> bool" where
  "mount_reply_fit n (MntReply_NULL r) = True"
| "mount_reply_fit n (MntReply_MNT r) = fit_Mountres3 r"
| "mount_reply_fit n (MntReply_DUMP r) = fit_Mountopt3 n r"
| "mount_reply_fit n (MntReply_UMNT r) = True"
| "mount_reply_fit n (MntReply_UMNTALL r) = True"
| "mount_reply_fit n (MntReply_EXPORT r) = fit_Exportsopt3 n r"

fun mount_reply_nrm :: "mount_reply \<Rightarrow> mount_reply" where
  "mount_reply_nrm (MntReply_NULL r) = MntReply_NULL r"
| "mount_reply_nrm (MntReply_MNT r) = MntReply_MNT (nrm_Mountres3 r)"
| "mount_reply_nrm (MntReply_DUMP r) = MntReply_DUMP r"
| "mount_reply_nrm (MntReply_UMNT r) = MntReply_UMNT r"
| "mount_reply_nrm (MntReply_UMNTALL r) = MntReply_UMNTALL r"
| "mount_reply_nrm (MntReply_EXPORT r) = MntReply_EXPORT r"

definition mount_find :: "'xs xdrlib \<Rightarrow> nat \<Rightarrow> 's MOUNT_PROGRAM_MOUNT_V3_handler \<Rightarrow> u32 \<Rightarrow> ('xs, 's) ProcRegistration option" where
  "mount_find X n h p = find (\<lambda>g. Prog g = MOUNT_PROGRAM \<and> Vers g = MOUNT_V3 \<and> Proc g = p) (MOUNT_PROGRAM_MOUNT_V3_regs X n h)"

fun mount_wrap :: "'xs xdrlib \<Rightarrow> nat \<Rightarrow> 's MOUNT_PROGRAM_MOUNT_V3_handler \<Rightarrow> mount_call \<Rightarrow> ('xs, 's) rpc_handler" where
  "mount_wrap X n h MntCall_NULL = wrap_MOUNTPROC3_NULL X h"
| "mount_wrap X n h (MntCall_MNT a) = wrap_MOUNTPROC3_MNT X h"
| "mount_wrap X n h MntCall_DUMP = wrap_MOUNTPROC3_DUMP X n h"
| "mount_wrap X n h (MntCall_UMNT a) = wrap_MOUNTPROC3_UMNT X h"
| "mount_wrap X n h MntCall_UMNTALL = wrap_MOUNTPROC3_UMNTALL X h"
| "mount_wrap X n h MntCall_EXPORT = wrap_MOUNTPROC3_EXPORT X n h"

lemma mount_find_proc:
  "\<exists>g. mount_find X n h (mount_proc c) = Some g \<and> Handler g = mount_wrap X n h c"
  by (cases c) (simp_all add: mount_find_def MOUNT_PROGRAM_MOUNT_V3_regs_def)

lemmas mount_wraps = wrap_MOUNTPROC3_NULL_def wrap_MOUNTPROC3_MNT_def wrap_MOUNTPROC3_DUMP_def wrap_MOUNTPROC3_UMNT_def wrap_MOUNTPROC3_UMNTALL_def wrap_MOUNTPROC3_EXPORT_def

context xdr_codec
begin

lemma mount_refused:
  assumes "mount_call_fit c"
  shows "refused X out inp (mount_send X c) (mount_wrap X n h c)"
  using assms by (cases c; simp only: mount_wrap.simps mount_send.simps mount_wraps)
     (rule refused_wrap refused_plain xdr_rt | simp)+

lemma mount_served:
  assumes "mount_call_fit c" and "mount_do h (mount_call_nrm c) s = Inr (r, s')" and "mount_reply_fit n r"
  shows "served X out inp (mount_send X c) (mount_wrap X n h c) (mount_recv X n c) s (mount_reply_nrm r) s'"
  using assms
  by (cases c; simp only: mount_wrap.simps mount_send.simps mount_call_nrm.simps mount_wraps)
     (rule served_wrap served_plain mount_recv.simps mount_do.simps xdr_rt | assumption | simp)+

end

end
