(* ===== verification/XdrRef.thy ===== *)
theory XdrRef
  imports XdrSpec GoLibRef
begin

text \<open>
  A reference instance of the package \<^verbatim>\<open>xdr\<close> on byte lists, with the format of RFC 4506: integers are big-endian, a
  boolean is the integer 0 or 1, a byte string is its length followed by its bytes padded to a multiple of four.
  It satisfies the contract \<open>xdr_codec\<close>.
\<close>

datatype xbuf = Enc_buf "byte list" | Dec_buf "byte list" bool

definition ref_prim :: "('t \<Rightarrow> byte list) \<Rightarrow> (byte list \<Rightarrow> ('t \<times> byte list) option) \<Rightarrow> xbuf \<Rightarrow> 't \<Rightarrow> 't \<times> xbuf" where
  "ref_prim e d xs v =
     (case xs of
        Enc_buf b \<Rightarrow> (v, Enc_buf (b @ e v))
      | Dec_buf b err \<Rightarrow>
          (if err then (v, xs)
           else case d b of None \<Rightarrow> (v, Dec_buf b True) | Some (w, r) \<Rightarrow> (w, Dec_buf r False)))"

definition get_bytes :: "nat \<Rightarrow> byte list \<Rightarrow> (byte list \<times> byte list) option" where
  "get_bytes n b = (if n \<le> length b then Some (take n b, drop n b) else None)"

definition be32 :: "u32 \<Rightarrow> byte list" where
  "be32 v = rev (le_bytes 4 (unat v))"

definition get_be32 :: "byte list \<Rightarrow> (u32 \<times> byte list) option" where
  "get_be32 b = map_option (\<lambda>(x, r). (of_nat (le_nat (rev x)), r)) (get_bytes 4 b)"

definition be64 :: "u64 \<Rightarrow> byte list" where
  "be64 v = rev (le_bytes 8 (unat v))"

definition get_be64 :: "byte list \<Rightarrow> (u64 \<times> byte list) option" where
  "get_be64 b = map_option (\<lambda>(x, r). (of_nat (le_nat (rev x)), r)) (get_bytes 8 b)"

definition get_bool :: "byte list \<Rightarrow> (bool \<times> byte list) option" where
  "get_bool b = Option.bind (get_be32 b) (\<lambda>(n, r). if n = 0 then Some (False, r) else if n = 1 then Some (True, r) else None)"

definition pad :: "nat \<Rightarrow> nat" where
  "pad n = (4 - n mod 4) mod 4"

definition put_string :: "byte list \<Rightarrow> byte list" where
  "put_string v = be32 (of_nat (length v)) @ v @ replicate (pad (length v)) 0"

definition get_string :: "int \<Rightarrow> byte list \<Rightarrow> (byte list \<times> byte list) option" where
  "get_string m b =
     Option.bind (get_be32 b) (\<lambda>(n, r).
     if m \<noteq> -1 \<and> m < uint n then None
     else map_option (\<lambda>(x, r). (take (unat n) x, r)) (get_bytes (unat n + pad (unat n)) r))"

definition ref_xdr :: "xbuf xdrlib" where
  "ref_xdr = \<lparr>
     XdrU32 = ref_prim be32 get_be32,
     XdrU64 = ref_prim be64 get_be64,
     XdrBool = ref_prim (\<lambda>v. be32 (of_bool v)) get_bool,
     XdrString = (\<lambda>xs m. ref_prim put_string (get_string m) xs),
     XdrVarArray = (\<lambda>xs m. ref_prim put_string (get_string m) xs),
     XdrArray = (\<lambda>xs v. ref_prim (\<lambda>v. v) (get_bytes (length v)) xs v),
     Encoding = (\<lambda>xs. case xs of Enc_buf _ \<Rightarrow> True | Dec_buf _ _ \<Rightarrow> False),
     Decoding = (\<lambda>xs. case xs of Enc_buf _ \<Rightarrow> False | Dec_buf _ _ \<Rightarrow> True),
     EncodingSetSize = (\<lambda>xs v n. (case xs of Enc_buf _ \<Rightarrow> word_of_int n | Dec_buf _ _ \<Rightarrow> v, xs)),
     xdr_Error = (\<lambda>xs. case xs of Enc_buf _ \<Rightarrow> False | Dec_buf _ err \<Rightarrow> err)\<rparr>"

definition ref_out :: "xbuf \<Rightarrow> byte list" where
  "ref_out xs = (case xs of Enc_buf b \<Rightarrow> b | Dec_buf _ _ \<Rightarrow> [])"

definition ref_inp :: "xbuf \<Rightarrow> byte list" where
  "ref_inp xs = (case xs of Enc_buf _ \<Rightarrow> [] | Dec_buf b _ \<Rightarrow> b)"

lemma ref_writing: "writing ref_xdr xs \<longleftrightarrow> (\<exists>b. xs = Enc_buf b)"
  by (cases xs) (auto simp: writing_def ref_xdr_def)

lemma ref_reading: "reading ref_xdr xs \<longleftrightarrow> (\<exists>b. xs = Dec_buf b False)"
  by (cases xs) (auto simp: reading_def ref_xdr_def)

lemma ref_broken: "broken ref_xdr xs \<longleftrightarrow> (\<exists>b. xs = Dec_buf b True)"
  by (cases xs) (auto simp: broken_def ref_xdr_def)

text \<open>A format that reads back what it writes and nothing shorter.\<close>

definition exact :: "('t \<Rightarrow> byte list) \<Rightarrow> (byte list \<Rightarrow> ('t \<times> byte list) option) \<Rightarrow> 't \<Rightarrow> bool" where
  "exact e d v \<longleftrightarrow> (\<forall>r. d (e v @ r) = Some (v, r)) \<and> (\<forall>p q. q \<noteq> [] \<longrightarrow> p @ q = e v \<longrightarrow> d p = None)"

lemma exact_rt:
  assumes "exact e d v" and "\<And>xs. f v xs = Inr (ref_prim e d xs v)" "\<And>xs. f z xs = Inr (ref_prim e d xs z)"
  shows "rt ref_xdr ref_out ref_inp s f v z v"
  unfolding rt_def
  by (rule exI [of _ "e v"])
     (use assms in \<open>auto simp: exact_def sends_def receives_def rejects_def ref_writing ref_reading ref_broken ref_prim_def
        ref_out_def ref_inp_def\<close>)

lemma sticky_ref: "(\<And>v xs. \<exists>e d. f v xs = Inr (ref_prim e d xs v)) \<Longrightarrow> sticky ref_xdr f"
  unfolding sticky_def ref_broken
proof (intro allI impI)
  fix v xs assume f: "\<And>v xs. \<exists>e d. f v xs = Inr (ref_prim e d xs v)" and "\<exists>b. xs = Dec_buf b True"
  moreover obtain e d where "f v xs = Inr (ref_prim e d xs v)" using f by blast
  ultimately show "\<exists>w xs'. f v xs = Inr (w, xs') \<and> (\<exists>b. xs' = Dec_buf b True)" by (auto simp: ref_prim_def)
qed

lemma exact_bytes: "length v = n \<Longrightarrow> exact (\<lambda>v. v) (get_bytes n) v"
  by (auto simp: exact_def get_bytes_def)

lemma short_prefix: "p @ q = w \<Longrightarrow> q \<noteq> [] \<Longrightarrow> length p < length w"
  by auto

lemma exact_be32: "exact be32 get_be32 v"
  by (auto simp: exact_def get_be32_def be32_def get_bytes_def le_u32 dest!: short_prefix)

lemma exact_be64: "exact be64 get_be64 v"
  by (auto simp: exact_def get_be64_def be64_def get_bytes_def le_u64 dest!: short_prefix)

lemma exact_bool: "exact (\<lambda>v. be32 (of_bool v)) get_bool v"
  using exact_be32 [of "of_bool v"] by (auto simp: exact_def get_bool_def)

lemma exact_string:
  assumes "xfits m v"
  shows "exact put_string (get_string m) v"
proof -
  have len: "length v < 4294967296" and fit: "m \<noteq> -1 \<Longrightarrow> int (length v) \<le> m"
    using assms by (auto simp: xfits_def)
  have n: "unat (of_nat (length v) :: u32) = length v" using len by (simp add: unat_of_nat)
  then have u: "uint (of_nat (length v) :: u32) = int (length v)" by (metis uint_nat)
  have "get_string m p = None" if "q \<noteq> []" "p @ q = put_string v" for p q
  proof (cases "length p < 4")
    case True
    then show ?thesis by (simp add: get_string_def get_be32_def get_bytes_def)
  next
    case False
    let ?h = "be32 (of_nat (length v))"
    have h: "length ?h = 4" by (simp add: be32_def)
    have "take 4 (p @ q) = take 4 (put_string v)" "drop 4 (p @ q) = drop 4 (put_string v)" using that(2) by simp_all
    then have d: "p = ?h @ drop 4 p" "drop 4 p @ q = v @ replicate (pad (length v)) 0"
      using False h append_take_drop_id [of 4 p] by (simp_all add: put_string_def)
    define d where "d = drop 4 p"
    have "length d < length v + pad (length v)"
      using short_prefix [OF d(2) that(1)] by (simp add: d_def)
    then show ?thesis
      using exact_be32 [of "of_nat (length v)"] by (subst d(1)) (simp add: get_string_def exact_def get_bytes_def n d_def)
  qed
  moreover have "get_string m (put_string v @ r) = Some (v, r)" for r
    using exact_be32 [of "of_nat (length v)"] fit
    by (auto simp: get_string_def put_string_def exact_def get_bytes_def n u)
  ultimately show ?thesis by (auto simp: exact_def)
qed

interpretation ref_x: xdr_codec ref_xdr ref_out ref_inp
proof (unfold_locales, goal_cases)
  case (1 s v z)
  show ?case by (rule exact_rt [OF exact_be32]) (simp_all add: xprim_def ref_xdr_def)
next
  case (2 s w y)
  show ?case by (rule exact_rt [OF exact_be64]) (simp_all add: xprim_def ref_xdr_def)
next
  case (3 s a c)
  show ?case by (rule exact_rt [OF exact_bool]) (simp_all add: xprim_def ref_xdr_def)
next
  case (4 m b s d)
  then show ?case by (intro exact_rt [OF exact_string]) (simp_all add: xbytes_def ref_xdr_def)
next
  case (5 m b s d)
  then show ?case by (intro exact_rt [OF exact_string]) (simp_all add: xbytes_def ref_xdr_def)
next
  case (6 d b s)
  then show ?case by (intro exact_rt [OF exact_bytes [OF refl]]) (simp_all add: xprim_def ref_xdr_def)
next
  case (7 xs v k)
  then show ?case by (simp only: ref_writing) (auto simp: ref_xdr_def)
next
  case (8 xs v k)
  then show ?case by (simp only: ref_reading) (auto simp: ref_xdr_def)
qed (rule sticky_ref; auto simp: xprim_def xbytes_def ref_xdr_def)+

end
