(* ===== verification/Nfsd.thy ===== *)
theory Nfsd
  imports RpcSpec XdrRef FileServe
begin

text \<open>
  \<^verbatim>\<open>cmd/go-nfsd/main.go\<close>, the part that puts the server together: it makes the file system on the disk, sets the
  mode of unstable writes and registers the procedures of the two programs. The server is the interface of
  each program through its methods. What \<^verbatim>\<open>main\<close> does besides is in \<open>Servers\<close>;
  the RPC server that calls the registered handlers is a third-party package, and a run takes one request at a time.
\<close>

section \<open>The server as an implementation of the programs\<close>

definition nfs_handler ::
    "('log, 'op, 'alc, 'lm, 'd) golib \<Rightarrow> nat \<Rightarrow> ('log, 'alc, 'lm, 'd) Nfs NFS_PROGRAM_NFS_V3_handler" where
  "nfs_handler G fuel = \<lparr>
     do_NFSPROC3_NULL = (\<lambda>nfs. Inr ((), nfs)),
     do_NFSPROC3_GETATTR = NFSPROC3_GETATTR G,
     do_NFSPROC3_SETATTR = NFSPROC3_SETATTR G fuel,
     do_NFSPROC3_LOOKUP = NFSPROC3_LOOKUP G fuel,
     do_NFSPROC3_ACCESS = (\<lambda>args nfs. Inr (NFSPROC3_ACCESS args, nfs)),
     do_NFSPROC3_READLINK = NFSPROC3_READLINK G,
     do_NFSPROC3_READ = NFSPROC3_READ G,
     do_NFSPROC3_WRITE = NFSPROC3_WRITE G fuel,
     do_NFSPROC3_CREATE = NFSPROC3_CREATE G fuel,
     do_NFSPROC3_MKDIR = NFSPROC3_MKDIR G fuel,
     do_NFSPROC3_SYMLINK = NFSPROC3_SYMLINK G fuel,
     do_NFSPROC3_MKNOD = (\<lambda>args nfs. Inr (NFSPROC3_MKNOD args, nfs)),
     do_NFSPROC3_REMOVE = NFSPROC3_REMOVE G fuel,
     do_NFSPROC3_RMDIR = NFSPROC3_RMDIR G fuel,
     do_NFSPROC3_RENAME = NFSPROC3_RENAME G fuel,
     do_NFSPROC3_LINK = (\<lambda>args nfs. Inr (NFSPROC3_LINK args, nfs)),
     do_NFSPROC3_READDIR = NFSPROC3_READDIR G,
     do_NFSPROC3_READDIRPLUS = NFSPROC3_READDIRPLUS G,
     do_NFSPROC3_FSSTAT = (\<lambda>args nfs. Inr (NFSPROC3_FSSTAT args, nfs)),
     do_NFSPROC3_FSINFO = (\<lambda>args nfs. Inr (NFSPROC3_FSINFO G args nfs)),
     do_NFSPROC3_PATHCONF = (\<lambda>args nfs. Inr (NFSPROC3_PATHCONF args, nfs)),
     do_NFSPROC3_COMMIT = NFSPROC3_COMMIT G\<rparr>"

definition mount_handler ::
    "('log, 'op, 'alc, 'lm, 'd) golib \<Rightarrow> ('log, 'alc, 'lm, 'd) Nfs MOUNT_PROGRAM_MOUNT_V3_handler" where
  "mount_handler G = \<lparr>
     do_MOUNTPROC3_NULL = (\<lambda>nfs. Inr ((), nfs)),
     do_MOUNTPROC3_MNT = (\<lambda>args nfs. bnd (MOUNTPROC3_MNT G args) (\<lambda>reply. Inr (reply, nfs))),
     do_MOUNTPROC3_DUMP = (\<lambda>nfs. Inr (MOUNTPROC3_DUMP, nfs)),
     do_MOUNTPROC3_UMNT = (\<lambda>args nfs. Inr ((), nfs)),
     do_MOUNTPROC3_UMNTALL = (\<lambda>nfs. Inr ((), nfs)),
     do_MOUNTPROC3_EXPORT = (\<lambda>nfs. Inr (MOUNTPROC3_EXPORT, nfs))\<rparr>"

definition nfsd_start ::
    "('log, 'op, 'alc, 'lm, 'd) golib \<Rightarrow> 'xs xdrlib \<Rightarrow> nat \<Rightarrow> nat \<Rightarrow> (u64 \<Rightarrow> 'd) \<Rightarrow> u64 \<Rightarrow> bool \<Rightarrow>
     (('log, 'alc, 'lm, 'd) Nfs \<times> ('xs, ('log, 'alc, 'lm, 'd) Nfs) ProcRegistration list) res" where
  "nfsd_start G X n fuel NewDisk filesizeMegabytes unstable =
     (let diskBlocks = 1500 + filesizeMegabytes * 1024 div 4;
          d = NewDisk diskBlocks
      in bnd (MakeNfs G d) (\<lambda>server.
         Inr (server\<lparr>Unstable := unstable\<rparr>,
              MOUNT_PROGRAM_MOUNT_V3_regs X n (mount_handler G) @ NFS_PROGRAM_NFS_V3_regs X n (nfs_handler G fuel))))"

section \<open>Requests of any content\<close>

text \<open>A run of the started server: any registered handler on any input, and the background shrinkers.\<close>

inductive nfsd_run ::
    "('log, 'op, 'alc, 'lm, 'd) golib \<Rightarrow> ('xs, ('log, 'alc, 'lm, 'd) Nfs) ProcRegistration list \<Rightarrow>
     ('log, 'alc, 'lm, 'd) Nfs \<Rightarrow> ('log, 'alc, 'lm, 'd) Nfs \<Rightarrow> bool"
  for G regs s0 where
  d_start: "nfsd_run G regs s0 s0"
| d_request: "nfsd_run G regs s0 s \<Longrightarrow> g \<in> set regs \<Longrightarrow> Handler g xs s = Inr (reply, xs', s') \<Longrightarrow> nfsd_run G regs s0 s'"
| d_thread: "nfsd_run G regs s0 s \<Longrightarrow> i \<in> set (threads (shrinkst s)) \<Longrightarrow>
    shrinker G fuel i (shrinkst s) (fsstate s) = Inr (sh, st) \<Longrightarrow> nfsd_run G regs s0 (s\<lparr>fsstate := st, shrinkst := sh\<rparr>)"

lemma rpc_wrap_state:
  assumes "rpc_wrap X dec z call enc xs s = Inr (f, xs', s')" and D: "\<And>a. D (C a) = bnd (call a s) (\<lambda>(r, s). Inr (R r, s))"
  shows "s' = s \<or> (\<exists>c r. D c = Inr (r, s'))"
proof (cases "s' = s")
  case False
  then obtain a r where "call a s = Inr (r, s')"
    using assms(1) by (auto simp: rpc_wrap_def bnd_eq_Inr split: if_splits)
  then have "D (C a) = Inr (R r, s')" by (simp add: D)
  then show ?thesis by blast
qed simp

lemma plain_state:
  assumes "bnd (call s) (\<lambda>(out, s). Inr (enc out, xs, s)) = Inr (f, xs', s')" and D: "D c = bnd (call s) (\<lambda>(r, s). Inr (R r, s))"
  shows "s' = s \<or> (\<exists>c r. D c = Inr (r, s'))"
proof -
  obtain r where "call s = Inr (r, s')" using assms(1) by (auto simp: bnd_eq_Inr)
  then have "D c = Inr (R r, s')" by (simp add: D)
  then show ?thesis by blast
qed

lemma nfs_wrap_state:
  assumes "nfs_wrap X n h c xs s = Inr (f, xs', s')"
  shows "s' = s \<or> (\<exists>c r. nfs_do h c s = Inr (r, s'))"
  using assms
  by (cases c; simp only: nfs_wrap.simps nfs_wraps)
     ((erule rpc_wrap_state [where D = "\<lambda>c. nfs_do h c s"] plain_state [where D = "\<lambda>c. nfs_do h c s"], rule nfs_do.simps)+)

lemma nfs_handler_state:
  assumes "g \<in> set (NFS_PROGRAM_NFS_V3_regs X n h)" "Handler g xs s = Inr (f, xs', s')"
  shows "s' = s \<or> (\<exists>c r. nfs_do h c s = Inr (r, s'))"
proof -
  have "\<exists>c. Handler g = nfs_wrap X n h c"
    using assms(1) unfolding NFS_PROGRAM_NFS_V3_regs_def 
    by (simp only: list.set insert_iff empty_iff) (elim disjE FalseE; simp; rule exI, rule nfs_wrap.simps [symmetric])
  then show ?thesis using assms(2) nfs_wrap_state by metis
qed

lemma mount_handler_state:
  assumes "g \<in> set (MOUNT_PROGRAM_MOUNT_V3_regs X n (mount_handler G))" "Handler g xs s = Inr (f, xs', s')"
  shows "s' = s"
  using assms
  by (auto simp: MOUNT_PROGRAM_MOUNT_V3_regs_def mount_wraps mount_handler_def rpc_wrap_def bnd_eq_Inr split: if_splits)

text \<open>What a procedure does over the wire is what the call of the server does.\<close>

lemma with_status_step:
  assumes "bnd m (\<lambda>(r, s). Inr (R r, s)) = Inr (x, s')" and S: "S c = with_status f m"
  shows "s' = s \<or> (\<exists>c st. S c = Inr (st, s'))"
proof -
  obtain r where "m = Inr (r, s')" using assms(1) by (auto simp: bnd_eq_Inr)
  then have "S c = Inr (f r, s')" by (simp add: S with_status_def)
  then show ?thesis by blast
qed

lemma nfs_do_serve:
  assumes "nfs_do (nfs_handler G fuel) c s = Inr (r, s')"
  shows "s' = s \<or> (\<exists>c st. serve G fuel c s = Inr (st, s'))"
  using assms
  by (cases c; simp only: nfs_do.simps nfs_handler_def NFS_PROGRAM_NFS_V3_handler.select_convs)
     ((erule with_status_step [where S = "\<lambda>c. serve G fuel c s"], rule serve.simps) | simp)+

lemma nfsd_run_nfs:
  assumes "nfsd_run G (MOUNT_PROGRAM_MOUNT_V3_regs X n (mount_handler G) @ NFS_PROGRAM_NFS_V3_regs X n (nfs_handler G fuel)) s0 s"
  shows "nfs_run G s0 s"
  using assms
proof (induction rule: nfsd_run.induct)
  case d_start
  show ?case by (rule r_start)
next
  case (d_request s g xs reply xs' s')
  from d_request.hyps(2) have "s' = s \<or> (\<exists>c r. nfs_do (nfs_handler G fuel) c s = Inr (r, s'))"
    unfolding set_append
  proof
    assume "g \<in> set (MOUNT_PROGRAM_MOUNT_V3_regs X n (mount_handler G))"
    then show ?thesis using mount_handler_state [OF _ d_request.hyps(3)] by blast
  next
    assume "g \<in> set (NFS_PROGRAM_NFS_V3_regs X n (nfs_handler G fuel))"
    then show ?thesis by (rule nfs_handler_state [OF _ d_request.hyps(3)])
  qed
  then have "s' = s \<or> (\<exists>c st. serve G fuel c s = Inr (st, s'))" using nfs_do_serve by blast
  then show ?case using r_call d_request.IH by metis
next
  case (d_thread s i fuel' sh st)
  then show ?case using r_thread by metis
qed

section \<open>Properties\<close>

text \<open>C1: no request leaves a lock behind. After \<^verbatim>\<open>main\<close> has set up the server (or from any state in which no transaction is
  open), whatever bytes the requests have, well formed or not, and whichever registered procedure they are
  for, in every state between two requests no inode is locked and the inode cache is well formed.\<close>

theorem nfsd_requests_release_locks:
  assumes G: "gojournal G on used arange held"
    and start: "nfsd_start G X n fuel NewDisk mb unstable = Inr (s0, regs) \<or> fs_idle held (fsstate s0) \<and>
      regs = MOUNT_PROGRAM_MOUNT_V3_regs X n (mount_handler G) @ NFS_PROGRAM_NFS_V3_regs X n (nfs_handler G fuel)"
    and run: "nfsd_run G regs s0 s"
  shows "fs_idle held (fsstate s)"
proof -
  have i: "fs_idle held (fsstate s0) \<and>
      regs = MOUNT_PROGRAM_MOUNT_V3_regs X n (mount_handler G) @ NFS_PROGRAM_NFS_V3_regs X n (nfs_handler G fuel)"
    using start gojournal.MakeNfs_idle [OF G] by (auto simp: nfsd_start_def Let_def bnd_eq_Inr)
  then have "nfs_run G s0 s" using run by (intro nfsd_run_nfs) simp
  then show ?thesis using gojournal.nfs_run_idle [OF G] i by blast
qed

lemma ex_getattr_reply: "\<exists>r n. NFSPROC3_GETATTR ref_lib \<lparr>GETATTR3args_Object = ex_handle\<rparr> ex_nfs = Inr (r, n)"
  using ex_getattr by (auto simp: with_status_def bnd_eq_Inr)

theorem nfsd_requests_release_locks_witness:
  "\<exists>n. nfsd_run ref_lib (MOUNT_PROGRAM_MOUNT_V3_regs ref_xdr 0 (mount_handler ref_lib) @
       NFS_PROGRAM_NFS_V3_regs ref_xdr 0 (nfs_handler ref_lib 1)) ex_nfs n \<and> Lockmap (fsstate n) = []"
proof -
  let ?regs = "MOUNT_PROGRAM_MOUNT_V3_regs ref_xdr 0 (mount_handler ref_lib) @ NFS_PROGRAM_NFS_V3_regs ref_xdr 0 (nfs_handler ref_lib 1)"
  have "\<exists>f xs. wrap_NFSPROC3_GETATTR ref_xdr (nfs_handler ref_lib 1) (Dec_buf [0] False) ex_nfs = Inr (f, xs, ex_nfs)"
    by (simp add: wrap_NFSPROC3_GETATTR_def rpc_wrap_def Xdr_GETATTR3args_def Xdr_Nfs_fh3_def xfield_def xbytes_def xskip_def
        ref_xdr_def ref_prim_def get_string_def get_be32_def get_bytes_def)
  then obtain f xs where "wrap_NFSPROC3_GETATTR ref_xdr (nfs_handler ref_lib 1) (Dec_buf [0] False) ex_nfs = Inr (f, xs, ex_nfs)"
    by blast
  then have run: "nfsd_run ref_lib ?regs ex_nfs ex_nfs"
    by (intro d_request [OF d_start, of "\<lparr>Prog = NFS_PROGRAM, Vers = NFS_V3, Proc = P_NFSPROC3_GETATTR,
      Handler = wrap_NFSPROC3_GETATTR ref_xdr (nfs_handler ref_lib 1)\<rparr>"]) (simp_all add: NFS_PROGRAM_NFS_V3_regs_def)
  from nfsd_requests_release_locks [OF ref_gojournal disjI2 [OF conjI [OF ex_nfs_idle refl]] run] run show ?thesis
    by (auto simp: fs_idle_def)
qed

text \<open>C16: calls over the wire. Under the contract of the package \<^verbatim>\<open>xdr\<close>, for every procedure of the NFS program, every
  arguments that fit the protocol and every implementation of the program: the table of registrations has a
  handler for the number of the procedure, which, given the bytes of the arguments, runs the procedure on the
  arguments; the bytes of its result decode to the result, with zero values in the arms of unions that are
  not sent, and in both directions nothing that follows is consumed.\<close>

theorem nfs_rpc_transparent:
  assumes X: "xdr_codec X out inp" and fit: "nfs_call_fit c" "nfs_reply_fit n r" and do: "nfs_do h (nfs_call_nrm c) s = Inr (r, s')"
  shows "\<exists>g. nfs_find X n h (nfs_proc c) = Some g \<and>
     served X out inp (nfs_send X c) (Handler g) (nfs_recv X n c) s (nfs_reply_nrm r) s'"
proof -
  obtain g where "nfs_find X n h (nfs_proc c) = Some g" "Handler g = nfs_wrap X n h c" using nfs_find_proc by blast
  then show ?thesis using xdr_codec.nfs_served [OF X fit(1) do fit(2)] by simp
qed

theorem nfs_rpc_transparent_witness:
  "\<exists>g r n. nfs_find ref_xdr 0 (nfs_handler ref_lib 1) 1 = Some g \<and>
     served ref_xdr ref_out ref_inp (nfs_send ref_xdr (NfsCall_GETATTR \<lparr>GETATTR3args_Object = ex_handle\<rparr>)) (Handler g)
       (nfs_recv ref_xdr 0 (NfsCall_GETATTR \<lparr>GETATTR3args_Object = ex_handle\<rparr>)) ex_nfs (NfsReply_GETATTR r) n"
proof -
  obtain r n where r: "NFSPROC3_GETATTR ref_lib \<lparr>GETATTR3args_Object = ex_handle\<rparr> ex_nfs = Inr (r, n)"
    using ex_getattr_reply by blast
  show ?thesis
    using nfs_rpc_transparent [OF ref_x.xdr_codec_axioms, of "NfsCall_GETATTR \<lparr>GETATTR3args_Object = ex_handle\<rparr>" 0
        "NfsReply_GETATTR r" "nfs_handler ref_lib 1" ex_nfs n] r
    by (auto simp: nfs_handler_def fit_GETATTR3args_def fit_Nfs_fh3_def xfits_def ex_handle_def)
qed

text \<open>C17: a request that is cut short is refused. If the bytes of the arguments are a proper prefix of the bytes of
  some arguments of the procedure, its handler returns an error, does not call the procedure, and leaves the
  state of the server as it was.\<close>

theorem nfs_rpc_truncated:
  assumes X: "xdr_codec X out inp" and fit: "nfs_call_fit c"
  shows "\<exists>g. nfs_find X n h (nfs_proc c) = Some g \<and> refused X out inp (nfs_send X c) (Handler g)"
proof -
  obtain g where "nfs_find X n h (nfs_proc c) = Some g" "Handler g = nfs_wrap X n h c" using nfs_find_proc by blast
  then show ?thesis using xdr_codec.nfs_refused [OF X fit] by simp
qed

theorem nfs_rpc_truncated_witness:
  "\<exists>g. nfs_find ref_xdr 0 (nfs_handler ref_lib 1) 1 = Some g \<and>
     refused ref_xdr ref_out ref_inp (nfs_send ref_xdr (NfsCall_GETATTR \<lparr>GETATTR3args_Object = ex_handle\<rparr>)) (Handler g)"
  using nfs_rpc_truncated [OF ref_x.xdr_codec_axioms, of "NfsCall_GETATTR \<lparr>GETATTR3args_Object = ex_handle\<rparr>" 0 "nfs_handler ref_lib 1"]
  by (simp add: fit_GETATTR3args_def fit_Nfs_fh3_def xfits_def ex_handle_def)

end
