(* ===== verification/Replies.thy ===== *)
theory Replies
  imports Nfsd
begin

text \<open>
  The replies of the server as values of the protocol: whatever the request and the state of the server, the file handles, the names,
  the verifiers and the data of a reply have lengths that their XDR types admit, and a listing has a bounded number of entries.
\<close>

section \<open>Data that is read\<close>

lemma ret_eq: "(\<And>x. m = Inr x \<Longrightarrow> ret Q (f x)) \<Longrightarrow> ret Q (bnd m f)"
  by (auto simp: ret_def bnd_eq_Inr)

lemma ret_any22: "(\<And>a b c. ret Q (f a b c)) \<Longrightarrow> ret Q (bnd m (\<lambda>((a, b), c). f a b c))"
  by (auto simp: ret_def bnd_eq_Inr)

lemma copy_out_len: "copy_out buf off n = Inr bs \<Longrightarrow> length bs \<le> unat n"
  by (auto simp: copy_out_def Let_def split: if_splits)

context gojournal
begin

lemma read_loop_len:
  assumes "length data \<le> unat n" and "n \<le> cn"
  shows "ret (\<lambda>(d, ip', a). length d \<le> unat cn) (read_loop G fuel cn boff n off data ip atxn)"
  using assms
proof (induction fuel arbitrary: boff n off data ip atxn)
  case 0
  then show ?case by (simp add: read_loop.simps [of G 0] ret_Inl ret_Inr word_le_nat_alt)
next
  case (Suc fuel)
  let ?nb = "min (4096 - off mod 4096) (cn - n)"
  have IH: "ret (\<lambda>(d, ip', a). length d \<le> unat cn) (read_loop G fuel cn boff' (n + ?nb) off' (data @ bs) ip' atxn')"
    if "n < cn" "copy_out buf byteoff ?nb = Inr bs" for boff' off' ip' atxn' buf byteoff bs
  proof (rule Suc.IH)
    have "?nb \<le> cn - n" by simp
    then have "unat ?nb \<le> unat cn - unat n" using that(1) by (simp only: word_le_nat_alt unat_sub_if' word_less_nat_alt) auto
    then have "unat (n + ?nb) = unat n + unat ?nb" "unat n + unat ?nb \<le> unat cn"
      using unat_lt64 [of cn] that(1) by (simp_all add: nowrap word_less_nat_alt)
    then show "length (data @ bs) \<le> unat (n + ?nb)" "n + ?nb \<le> cn"
      using copy_out_len [OF that(2)] Suc.prems(1) by (simp_all add: word_le_nat_alt)
  qed
  have le: "length data \<le> unat cn" using Suc.prems by (simp add: word_le_nat_alt)
  show ?case unfolding read_loop.simps [of G "Suc fuel"] nat.case common_lib.BlockSize [OF common_lib_axioms] uMin
    by (rule ret_if ret_let ret_Inr ret_eq ret_prod ret_option prodI IH | assumption | simp add: le)+
qed

lemma Read_len: "ret (\<lambda>(d, e, ip', a). length d \<le> unat n) (Read G off n ip atxn)"
proof -
  have "(if Size ip \<le> off + n then Size ip - off else n) \<le> n" if "\<not> Size ip \<le> off" for ip :: Inode
    using that unat_lt64 [of n] by (simp add: word_le_nat_alt unat_sub_if' unat_plus_if_size word_size split: if_splits) arith
  then have "unat (if Size ip \<le> off + n then Size ip - off else n) \<le> unat n" if "\<not> Size ip \<le> off" using that by (simp add: word_le_nat_alt)
  then show ?thesis unfolding Read_def
    by (intro ret_if ret_let ret_Inr ret_bnd3 [OF read_loop_len] prodI) (auto intro: order_trans)
qed

lemma ip_Read_len: "ret (\<lambda>((d, e), op'). length d \<le> unat n) (ip_Read G off n r op)"
  using Read_len [of n off "inode_at op r" "Atxn op"] by (fastforce simp: ret_def ip_Read_def on_inode_def bnd_eq_Inr)

section \<open>Handles and names\<close>

lemma MakeFh3_fit: "ret fit_Nfs_fh3 (MakeFh3 G h)"
proof -
  obtain b where "Enc G 16 [PutInt (Ino h), PutInt (fh_Gen h)] = Inr b" "length b = 16"
    using enc_fits [of "[PutInt (Ino h), PutInt (fh_Gen h)]" 16] by auto
  then show ?thesis by (simp add: MakeFh3_def ret_Inr_iff fit_Nfs_fh3_def xfits_def)
qed

lemma decodeDirEnt_len: "ret (\<lambda>de. 16 + length (de_name de) \<le> length d) (decodeDirEnt G d)"
  using get_int_len [of d] by (auto simp: decodeDirEnt_def ret_def bnd_eq_Inr dest!: get_int_len get_bytes_len)

text \<open>What is left of a 32-bit estimate of the size of a listing bounds the number of its entries.\<close>

definition list_inv :: "('a \<Rightarrow> bool) \<Rightarrow> u64 \<Rightarrow> 'a list \<Rightarrow> bool" where
  "list_inv ok n lst \<longleftrightarrow> list_all ok lst \<and> 64 + 32 * length lst \<le> unat n \<and> unat n < 2 ^ 32"

definition list_fits :: "('a \<Rightarrow> bool) \<Rightarrow> 'a list \<Rightarrow> bool" where
  "list_fits ok lst \<longleftrightarrow> list_all ok lst \<and> length lst \<le> 2 ^ 27"

lemma list_inv_fits: "list_inv ok n lst \<Longrightarrow> list_fits ok lst"
  by (simp add: list_inv_def list_fits_def)

lemma list_inv_last: "list_inv ok n lst \<Longrightarrow> ok x \<Longrightarrow> list_fits ok (lst @ [x])"
  by (simp add: list_inv_def list_fits_def)

lemma list_inv_more:
  assumes "list_inv ok n lst" and "ok x" and "\<not> c \<le> n + k" and "unat c < 2 ^ 32" and "32 \<le> unat k" "unat k \<le> 2 ^ 32"
  shows "list_inv ok (n + k) (lst @ [x])"
proof -
  have "unat (n + k) = unat n + unat k" using assms(1,6) by (simp add: list_inv_def nowrap)
  then show ?thesis using assms by (simp add: list_inv_def word_le_nat_alt)
qed

lemma decode_name: "length d \<le> unat (128 :: u64) \<Longrightarrow> ret (\<lambda>de. length (de_name de) \<le> 112) (decodeDirEnt G d)"
  by (rule ret_mono [OF decodeDirEnt_len]) simp

lemma ents_loop_fit:
  assumes "list_inv fit_Entry3 n lst" and c: "unat c < 2 ^ 32"
  shows "ret (\<lambda>(e, l, op'). list_fits fit_Entry3 l)
     (ents_loop G fuel c (\<lambda>name inum off lst. lst @ [\<lparr>Entry3_Fileid = inum, Entry3_Name = name, Entry3_Cookie = off\<rparr>]) off n lst dip op)"
  using assms(1)
proof (induction fuel arbitrary: off n lst op)
  case 0
  then show ?case by (simp add: ents_loop.simps [of G 0] ret_Inl ret_Inr list_inv_fits)
next
  case (Suc fuel)
  have x: "fit_Entry3 \<lparr>Entry3_Fileid = i, Entry3_Name = de_name de, Entry3_Cookie = off\<rparr>"
    and k: "32 \<le> unat (of_nat (16 + length (de_name de) + 8 + 8) :: u64)" "unat (of_nat (16 + length (de_name de) + 8 + 8) :: u64) \<le> 2 ^ 32"
    if "length (de_name de) \<le> 112" for de i off using that by (simp_all add: fit_Entry3_def xfits_def nowrap del: of_nat_add)
  note st = list_inv_fits [OF Suc.prems] list_inv_last [OF Suc.prems x] list_inv_more [OF Suc.prems x _ c k]
  show ?case unfolding ents_loop.simps [of G "Suc fuel"] nat.case
    by (rule ret_if ret_let ret_Inr ret_bnd22 [OF ip_Read_len] ret_bnd [OF decode_name] prodI Suc.IH st Suc.prems | assumption)+
qed

lemma apply_loop_fit:
  assumes "list_inv fit_Entryplus3 n lst" and c: "unat c < 2 ^ 32"
    and f: "\<And>ip name inum off lst op. length name \<le> 112 \<Longrightarrow>
      ret (\<lambda>(l, op'). \<exists>x. l = lst @ [x] \<and> fit_Entryplus3 x) (f ip name inum off lst op)"
  shows "ret (\<lambda>(e, l, op'). list_fits fit_Entryplus3 l) (apply_loop G fuel dc c f off n db lst dip op)"
  using assms(1)
proof (induction fuel arbitrary: off n db lst op)
  case 0
  then show ?case by (simp add: apply_loop.simps [of G 0] ret_Inl ret_Inr list_inv_fits)
next
  case (Suc fuel)
  have k: "32 \<le> unat (entryplus3Baggage + of_nat (length (de_name de)) :: u64)" "unat (entryplus3Baggage + of_nat (length (de_name de)) :: u64) \<le> 2 ^ 32"
    if "length (de_name de) \<le> 112" for de using that by (simp_all add: nowrap)
  have last: "list_fits fit_Entryplus3 l" if "\<exists>x. l = lst @ [x] \<and> fit_Entryplus3 x" for l
    using that list_inv_last [OF Suc.prems] by blast
  have more: "list_inv fit_Entryplus3 (n + (entryplus3Baggage + of_nat (length (de_name de)))) l"
    if "\<exists>x. l = lst @ [x] \<and> fit_Entryplus3 x" "\<not> (b \<or> c \<le> n + (entryplus3Baggage + of_nat (length (de_name de))))"
      "length (de_name de) \<le> 112" for l b de
    using that list_inv_more [OF Suc.prems _ _ c k] by blast
  show ?case unfolding apply_loop.simps [of G "Suc fuel"] nat.case
    by (rule ret_if ret_let ret_Inr ret_bnd22 [OF ip_Read_len] ret_bnd [OF decode_name] prodI Suc.IH list_inv_fits [OF Suc.prems] last Suc.prems
          ret_bnd2 [OF f] | assumption | erule more | rule ret_any ret_prod)+
qed

lemma Readdir3_fit: "ret (\<lambda>(l, op'). fit_Dirlist3 (2 ^ 27) l) (Readdir3 G start c dip op)"
  unfolding Readdir3_def ApplyEnts_def Let_def
  by (rule ret_bnd3 [OF ents_loop_fit]) (use unsigned_less [of c, where 'a = nat] in \<open>simp_all add: list_inv_def list_fits_def fit_Dirlist3_def ret_Inr_iff\<close>)

lemma Ls3_fit: "ret (\<lambda>(l, op'). fit_Dirlistplus3 (2 ^ 27) l) (Ls3 G start dc c dip op)"
  unfolding Ls3_def Apply_def Let_def
proof (rule ret_bnd3 [OF apply_loop_fit], goal_cases)
  case (3 ip name inum off lst op)
  have "xfits (-1) name" using 3 by (simp add: xfits_def)
  then show ?case by (intro ret_any ret_bnd [OF MakeFh3_fit] ret_Inr) (simp add: fit_Entryplus3_def fit_Post_op_fh3_def)
qed (use unsigned_less [of c, where 'a = nat] in \<open>simp_all add: list_inv_def list_fits_def fit_Dirlistplus3_def ret_Inr_iff\<close>)

lemma doRead_fit: "kind \<noteq> NF3LNK \<Longrightarrow> ret (\<lambda>(op, data, eof, err). length data \<le> unat n) (doRead G h kind off n fs)"
  unfolding doRead_def Let_def
  by (rule ret_bnd22 [OF ip_Read_len] wp ret_any | assumption | simp)+

lemma doCreate_fit: "ret (\<lambda>(op, err, h, a, nfs'). fit_Nfs_fh3 h) (doCreate G fuel dfh name kind data nfs)"
  unfolding doCreate_def Let_def
  by (rule ret_bnd [OF MakeFh3_fit] wp ret_any | assumption | simp add: zero_Nfs_fh3_def fit_Nfs_fh3_def xfits_def)+

section \<open>Replies\<close>

lemmas fit_replies = fit_LOOKUP3res_def fit_LOOKUP3resok_def fit_READ3res_def fit_READ3resok_def fit_WRITE3res_def fit_WRITE3resok_def
  fit_CREATE3res_def fit_CREATE3resok_def fit_MKDIR3res_def fit_MKDIR3resok_def fit_SYMLINK3res_def fit_SYMLINK3resok_def
  fit_MKNOD3res_def fit_READDIR3res_def fit_READDIR3resok_def fit_READDIRPLUS3res_def fit_READDIRPLUS3resok_def fit_COMMIT3res_def fit_COMMIT3resok_def
  fit_Post_op_fh3_def

lemmas fit_zero = zero_LOOKUP3res_def zero_LOOKUP3resok_def zero_READ3res_def zero_READ3resok_def zero_WRITE3res_def zero_WRITE3resok_def
  zero_CREATE3res_def zero_CREATE3resok_def zero_MKDIR3res_def zero_MKDIR3resok_def zero_SYMLINK3res_def zero_SYMLINK3resok_def
  zero_READDIR3res_def zero_READDIR3resok_def zero_READDIRPLUS3res_def zero_READDIRPLUS3resok_def zero_COMMIT3res_def zero_COMMIT3resok_def
  zero_Post_op_fh3_def zero_Nfs_fh3_def zero_Dirlist3_def zero_Dirlistplus3_def fit_Nfs_fh3_def fit_Dirlist3_def fit_Dirlistplus3_def xfits_def

lemma procs_fit:
  "ret (\<lambda>(r, s). fit_LOOKUP3res r) (NFSPROC3_LOOKUP G fuel la nfs)"
  "ret (\<lambda>(r, s). fit_READ3res r) (NFSPROC3_READ G ra nfs)"
  "ret (\<lambda>(r, s). fit_WRITE3res r) (NFSPROC3_WRITE G fuel wa nfs)"
  "ret (\<lambda>(r, s). fit_CREATE3res r) (NFSPROC3_CREATE G fuel ca nfs)"
  "ret (\<lambda>(r, s). fit_MKDIR3res r) (NFSPROC3_MKDIR G fuel ma nfs)"
  "ret (\<lambda>(r, s). fit_SYMLINK3res r) (NFSPROC3_SYMLINK G fuel sa nfs)"
  "ret (\<lambda>(r, s). fit_READDIR3res (2 ^ 27) r) (NFSPROC3_READDIR G da nfs)"
  "ret (\<lambda>(r, s). fit_READDIRPLUS3res (2 ^ 27) r) (NFSPROC3_READDIRPLUS G pa nfs)"
  "ret (\<lambda>(r, s). fit_COMMIT3res r) (NFSPROC3_COMMIT G co nfs)"
proof -
  have rd: "ret (\<lambda>(op, data, eof, err). length data < 4294967296) (doRead G h NF3REG off (ucast c) fs)" for h off fs and c :: u32
    by (rule ret_mono [OF doRead_fit]) (use unsigned_less [of c, where 'a = nat] in auto)
  show "ret (\<lambda>(r, s). fit_LOOKUP3res r) (NFSPROC3_LOOKUP G fuel la nfs)"
    unfolding NFSPROC3_LOOKUP_def by (rule ret_bnd [OF MakeFh3_fit] wp ret_any | assumption | simp add: fit_replies fit_zero)+
  show "ret (\<lambda>(r, s). fit_READ3res r) (NFSPROC3_READ G ra nfs)"
    unfolding NFSPROC3_READ_def by (rule ret_bnd4 [OF rd] wp ret_any | assumption | simp add: fit_replies fit_zero xfits_def)+
  show "ret (\<lambda>(r, s). fit_WRITE3res r) (NFSPROC3_WRITE G fuel wa nfs)"
    unfolding NFSPROC3_WRITE_def by (rule ret_any22 wp ret_any | assumption | simp add: fit_replies fit_zero)+
  show "ret (\<lambda>(r, s). fit_CREATE3res r) (NFSPROC3_CREATE G fuel ca nfs)"
    unfolding NFSPROC3_CREATE_def by (rule ret_bnd5 [OF doCreate_fit] wp ret_any | assumption | simp add: fit_replies fit_zero)+
  show "ret (\<lambda>(r, s). fit_MKDIR3res r) (NFSPROC3_MKDIR G fuel ma nfs)"
    unfolding NFSPROC3_MKDIR_def by (rule ret_bnd5 [OF doCreate_fit] wp ret_any | assumption | simp add: fit_replies fit_zero)+
  show "ret (\<lambda>(r, s). fit_SYMLINK3res r) (NFSPROC3_SYMLINK G fuel sa nfs)"
    unfolding NFSPROC3_SYMLINK_def by (rule ret_bnd5 [OF doCreate_fit] wp ret_any | assumption | simp add: fit_replies fit_zero)+
  show "ret (\<lambda>(r, s). fit_READDIR3res (2 ^ 27) r) (NFSPROC3_READDIR G da nfs)"
    unfolding NFSPROC3_READDIR_def by (rule ret_bnd2 [OF Readdir3_fit] wp ret_any | assumption | simp add: fit_replies fit_zero)+
  show "ret (\<lambda>(r, s). fit_READDIRPLUS3res (2 ^ 27) r) (NFSPROC3_READDIRPLUS G pa nfs)"
    unfolding NFSPROC3_READDIRPLUS_def by (rule ret_bnd2 [OF Ls3_fit] wp ret_any | assumption | simp add: fit_replies fit_zero)+
  show "ret (\<lambda>(r, s). fit_COMMIT3res r) (NFSPROC3_COMMIT G co nfs)"
    unfolding NFSPROC3_COMMIT_def by (rule wp ret_any | assumption | simp add: fit_replies fit_zero)+
qed

end

section \<open>Handles that are too short\<close>

text \<open>The handle that the server decodes first for a call, if it decodes one.\<close>

fun nfs_call_handle :: "nfs_call \<Rightarrow> Nfs_fh3 option" where
  "nfs_call_handle (NfsCall_GETATTR a) = Some (GETATTR3args_Object a)"
| "nfs_call_handle (NfsCall_SETATTR a) = Some (SETATTR3args_Object a)"
| "nfs_call_handle (NfsCall_LOOKUP a) = Some (Diropargs3_Dir (LOOKUP3args_What a))"
| "nfs_call_handle (NfsCall_READLINK a) = Some (READLINK3args_Symlink a)"
| "nfs_call_handle (NfsCall_READ a) = Some (READ3args_File a)"
| "nfs_call_handle (NfsCall_WRITE a) = Some (WRITE3args_File a)"
| "nfs_call_handle (NfsCall_CREATE a) =
     (if Createhow3_Mode (CREATE3args_How a) = EXCLUSIVE then None else Some (Diropargs3_Dir (CREATE3args_Where a)))"
| "nfs_call_handle (NfsCall_MKDIR a) = Some (Diropargs3_Dir (MKDIR3args_Where a))"
| "nfs_call_handle (NfsCall_SYMLINK a) = Some (Diropargs3_Dir (SYMLINK3args_Where a))"
| "nfs_call_handle (NfsCall_REMOVE a) =
     (if IllegalName (Diropargs3_Name (REMOVE3args_Object a)) then None else Some (Diropargs3_Dir (REMOVE3args_Object a)))"
| "nfs_call_handle (NfsCall_RMDIR a) =
     (if IllegalName (Diropargs3_Name (RMDIR3args_Object a)) then None else Some (Diropargs3_Dir (RMDIR3args_Object a)))"
| "nfs_call_handle (NfsCall_RENAME a) = Some (Diropargs3_Dir (RENAME3args_To a))"
| "nfs_call_handle (NfsCall_READDIR a) = Some (READDIR3args_Dir a)"
| "nfs_call_handle (NfsCall_READDIRPLUS a) = Some (READDIRPLUS3args_Dir a)"
| "nfs_call_handle (NfsCall_COMMIT a) = Some (COMMIT3args_File a)"
| "nfs_call_handle _ = None"

context gojournal
begin

lemma MakeFh_short: "length (Nfs_fh3_Data h) < 16 \<Longrightarrow> \<exists>e. MakeFh G h = Inl e"
proof (rule ccontr)
  assume s: "length (Nfs_fh3_Data h) < 16" and "\<nexists>e. MakeFh G h = Inl e"
  then obtain f where "MakeFh G h = Inr f" by (cases "MakeFh G h") auto
  then obtain i d g d' where "GetInt G (Nfs_fh3_Data h) = Inr (i, d)" "GetInt G d = Inr (g, d')" by (auto simp: MakeFh_def bnd_eq_Inr)
  then show False using s by (auto dest!: get_int_len)
qed

end

lemma call_handle_fault:
  assumes "nfs_call_handle c = Some h" and e: "MakeFh G h = Inl e"
  shows "nfs_do (nfs_handler G (Suc fuel)) c s = Inl e"
proof -
  have g: "GetInodeFh G h op = Inl e" for op using e by (simp add: GetInodeFh_def)
  show ?thesis using assms(1) g e
    by (cases c) (auto simp: nfs_handler_def NFSPROC3_GETATTR_def NFSPROC3_SETATTR_def NFSPROC3_LOOKUP_def NFSPROC3_READLINK_def NFSPROC3_READ_def
      doRead_def NFSPROC3_WRITE_def NFSPROC3_CREATE_def NFSPROC3_MKDIR_def NFSPROC3_SYMLINK_def doCreate_def NFSPROC3_REMOVE_def
      NFSPROC3_RMDIR_def doRemove_def NFSPROC3_RENAME_def NFSPROC3_READDIR_def NFSPROC3_READDIRPLUS_def NFSPROC3_COMMIT_def split: if_splits)
qed

section \<open>Properties\<close>

text \<open>C14: the replies are values of the protocol. Whatever the state of the server, well formed or not, and whatever the call, other than a
  \<^verbatim>\<open>READLINK\<close>, if the server replies then the reply fits the XDR types: the handles, of at most 64 bytes, the names and the data have lengths
  that fit 32 bits, the verifiers are 8 bytes long and a listing has at most \<open>2 ^ 27\<close> entries. So under the contract of the package \<^verbatim>\<open>xdr\<close> the
  call over the wire to the registered handler gives the reply of the server.\<close>

theorem nfs_replies_fit:
  assumes G: "gojournal G on used arange held" and c: "\<And>a. c \<noteq> NfsCall_READLINK a" and X: "xdr_codec X out inp" and fit: "nfs_call_fit c"
    and do: "nfs_do (nfs_handler G fuel) (nfs_call_nrm c) s = Inr (r, s')"
  shows "nfs_reply_fit (2 ^ 27) r \<and> (\<exists>g. nfs_find X (2 ^ 27) (nfs_handler G fuel) (nfs_proc c) = Some g \<and>
     served X out inp (nfs_send X c) (Handler g) (nfs_recv X (2 ^ 27) c) s (nfs_reply_nrm r) s')"
proof -
  have "nfs_reply_fit (2 ^ 27) r"
    using do c by (cases c) (auto simp: nfs_handler_def bnd_eq_Inr NFSPROC3_MKNOD_def fit_MKNOD3res_def split: prod.splits
      dest: gojournal.procs_fit [OF G, THEN retD])
  moreover obtain g where "nfs_find X (2 ^ 27) (nfs_handler G fuel) (nfs_proc c) = Some g" "Handler g = nfs_wrap X (2 ^ 27) (nfs_handler G fuel) c"
    using nfs_find_proc by blast
  ultimately show ?thesis using xdr_codec.nfs_served [OF X fit do] by simp
qed

theorem nfs_replies_fit_witness:
  "\<exists>r n. nfs_do (nfs_handler ref_lib 1) (NfsCall_GETATTR \<lparr>GETATTR3args_Object = ex_handle\<rparr>) ex_nfs = Inr (r, n) \<and> nfs_reply_fit (2 ^ 27) r"
proof -
  let ?c = "NfsCall_GETATTR \<lparr>GETATTR3args_Object = ex_handle\<rparr>"
  obtain r n where r: "NFSPROC3_GETATTR ref_lib \<lparr>GETATTR3args_Object = ex_handle\<rparr> ex_nfs = Inr (r, n)"
    using ex_getattr_reply by blast
  have f: "nfs_call_fit ?c" by (simp add: fit_GETATTR3args_def fit_Nfs_fh3_def xfits_def ex_handle_def)
  have d: "nfs_do (nfs_handler ref_lib 1) (nfs_call_nrm ?c) ex_nfs = Inr (NfsReply_GETATTR r, n)" using r by (simp add: nfs_handler_def)
  show ?thesis using nfs_replies_fit [OF ref_gojournal _ ref_x.xdr_codec_axioms f d] d by auto
qed

text \<open>C28: a short handle is a fault. A call whose handle has fewer than 16 bytes, as the protocol allows, ends in a fault of the decoder, in every
  procedure that looks at a handle (for \<^verbatim>\<open>RENAME\<close>, the handle of the directory of the new name, which is decoded first): the server panics instead of replying \<^verbatim>\<open>NFS3ERR_BADHANDLE\<close>.\<close>

theorem short_handle_panics:
  assumes G: "gojournal G on used arange held" and h: "nfs_call_handle c = Some h" "length (Nfs_fh3_Data h) < 16"
  shows "\<exists>e. MakeFh G h = Inl e \<and> nfs_do (nfs_handler G (Suc fuel)) c s = Inl e"
  using gojournal.MakeFh_short [OF G h(2)] call_handle_fault [OF h(1)] by blast

theorem short_handle_panics_witness:
  "\<exists>e. nfs_do (nfs_handler ref_lib 1) (NfsCall_GETATTR \<lparr>GETATTR3args_Object = \<lparr>Nfs_fh3_Data = [1, 2, 3]\<rparr>\<rparr>) ex_nfs = Inl e"
  using short_handle_panics [OF ref_gojournal, of "NfsCall_GETATTR \<lparr>GETATTR3args_Object = \<lparr>Nfs_fh3_Data = [1, 2, 3]\<rparr>\<rparr>" _ 0 ex_nfs] by auto

end
