(* ===== verification/Stats.thy ===== *)
theory Stats
  imports Prelude
begin

text \<open>
  The counters of operations: \<^verbatim>\<open>util/stats/stats.go\<close>, the disk of \<^verbatim>\<open>util/timed_disk/disk.go\<close> that counts the operations
  of another disk, and the counters of the server in \<^verbatim>\<open>nfs/stats.go\<close>. The time between the start of an operation
  and its end is an argument of the operations, in nanoseconds; the formatting of numbers (\<^verbatim>\<open>fmt.Sprintf\<close> of floating-point
  values) and the printing of the table are parameters.
\<close>

section \<open>util/stats\<close>

record Op =
  op_count :: u32
  op_nanos :: u64

definition zero_Op :: Op where
  "zero_Op = \<lparr>op_count = 0, op_nanos = 0\<rparr>"

definition Record :: "u64 \<Rightarrow> Op \<Rightarrow> Op" where
  "Record dur op = op\<lparr>op_count := op_count op + 1, op_nanos := op_nanos op + dur\<rparr>"

definition Reset :: "Op \<Rightarrow> Op" where
  "Reset op = op\<lparr>op_count := 0, op_nanos := 0\<rparr>"

text \<open>The rows that \<^verbatim>\<open>WriteTable\<close> gives to the table: a name, a count and a formatted time.\<close>

definition WriteTable ::
    "(Op \<Rightarrow> string) \<Rightarrow> (Op \<Rightarrow> string) \<Rightarrow> string list \<Rightarrow> Op list \<Rightarrow> (string \<times> u32 \<times> string) list res" where
  "WriteTable micros seconds names ops =
     (if length names \<noteq> length ops then Inl (Panic ''mismatched names and ops lists'')
      else
        let totalOp = foldl (\<lambda>t op. t\<lparr>op_count := op_count t + op_count op, op_nanos := op_nanos t + op_nanos op\<rparr>) zero_Op ops;
            rows = map (\<lambda>(name, op). (name, op_count op, micros op)) (filter (\<lambda>(name, op). op_count op > 0) (zip names ops))
        in Inr (rows @ [(''total'', op_count totalOp, seconds totalOp)]))"

section \<open>nfs/stats.go\<close>

definition nfsopNames :: "string list" where
  "nfsopNames = [''NULL'', ''GETATTR'', ''SETATTR'', ''LOOKUP'', ''ACCESS'', ''READLINK'', ''READ'', ''WRITE'', ''CREATE'',
     ''MKDIR'', ''SYMLINK'', ''MKNOD'', ''REMOVE'', ''RMDIR'', ''RENAME'', ''LINK'', ''READDIR'', ''READDIRPLUS'',
     ''FSSTAT'', ''FSINFO'', ''PATHCONF'', ''COMMIT'']"

definition recordOp :: "u32 \<Rightarrow> u64 \<Rightarrow> Op list \<Rightarrow> Op list res" where
  "recordOp op dur stats =
     bnd (slice_get stats (ucast op)) (\<lambda>x. slice_put stats (ucast op) (Record dur x))"

definition WriteOpStats :: "(Op \<Rightarrow> string) \<Rightarrow> (Op \<Rightarrow> string) \<Rightarrow> Op list \<Rightarrow> (string \<times> u32 \<times> string) list res" where
  "WriteOpStats micros seconds stats = WriteTable micros seconds nfsopNames stats"

definition ResetOpStats :: "Op list \<Rightarrow> Op list" where
  "ResetOpStats stats = map Reset stats"

section \<open>util/timed-disk\<close>

text \<open>The interface \<^verbatim>\<open>disk.Disk\<close> of the package of the disk, which is not part of the repository.\<close>

record 'd disklib =
  disk_ReadTo :: "'d \<Rightarrow> u64 \<Rightarrow> byte list \<Rightarrow> byte list res"
  disk_Read1 :: "'d \<Rightarrow> u64 \<Rightarrow> byte list res"
  disk_Write1 :: "'d \<Rightarrow> u64 \<Rightarrow> byte list \<Rightarrow> 'd res"
  disk_Barrier :: "'d \<Rightarrow> 'd res"
  disk_Size1 :: "'d \<Rightarrow> u64"
  disk_Close :: "'d \<Rightarrow> 'd"

record 'd TimedDisk =
  td_d :: 'd
  td_ops :: "Op list"

abbreviation readOp :: nat where
  "readOp \<equiv> 0"

abbreviation writeOp :: nat where
  "writeOp \<equiv> 1"

abbreviation barrierOp :: nat where
  "barrierOp \<equiv> 2"

definition td_New :: "'d \<Rightarrow> 'd TimedDisk" where
  "td_New d = \<lparr>td_d = d, td_ops = replicate 3 zero_Op\<rparr>"

definition td_record :: "nat \<Rightarrow> u64 \<Rightarrow> 'd TimedDisk \<Rightarrow> 'd TimedDisk" where
  "td_record i dur d = d\<lparr>td_ops := (td_ops d)[i := Record dur (td_ops d ! i)]\<rparr>"

definition td_ReadTo :: "'d disklib \<Rightarrow> u64 \<Rightarrow> u64 \<Rightarrow> byte list \<Rightarrow> 'd TimedDisk \<Rightarrow> (byte list \<times> 'd TimedDisk) res" where
  "td_ReadTo D dur a b d = bnd (disk_ReadTo D (td_d d) a b) (\<lambda>b. Inr (b, td_record readOp dur d))"

definition td_Read :: "'d disklib \<Rightarrow> u64 \<Rightarrow> u64 \<Rightarrow> 'd TimedDisk \<Rightarrow> (byte list \<times> 'd TimedDisk) res" where
  "td_Read D dur a d = (let buf = replicate 4096 0 in td_ReadTo D dur a buf d)"

definition td_Write :: "'d disklib \<Rightarrow> u64 \<Rightarrow> u64 \<Rightarrow> byte list \<Rightarrow> 'd TimedDisk \<Rightarrow> 'd TimedDisk res" where
  "td_Write D dur a b d = bnd (disk_Write1 D (td_d d) a b) (\<lambda>x. Inr (td_record writeOp dur (d\<lparr>td_d := x\<rparr>)))"

definition td_Barrier :: "'d disklib \<Rightarrow> u64 \<Rightarrow> 'd TimedDisk \<Rightarrow> 'd TimedDisk res" where
  "td_Barrier D dur d = bnd (disk_Barrier D (td_d d)) (\<lambda>x. Inr (td_record barrierOp dur (d\<lparr>td_d := x\<rparr>)))"

definition td_Size :: "'d disklib \<Rightarrow> 'd TimedDisk \<Rightarrow> u64" where
  "td_Size D d = disk_Size1 D (td_d d)"

definition td_Close :: "'d disklib \<Rightarrow> 'd TimedDisk \<Rightarrow> 'd TimedDisk" where
  "td_Close D d = d\<lparr>td_d := disk_Close D (td_d d)\<rparr>"

definition td_names :: "string list" where
  "td_names = [''disk.Read'', ''disk.Write'', ''disk.Barrier'']"

definition td_WriteStats :: "(Op \<Rightarrow> string) \<Rightarrow> (Op \<Rightarrow> string) \<Rightarrow> 'd TimedDisk \<Rightarrow> (string \<times> u32 \<times> string) list res" where
  "td_WriteStats micros seconds d = WriteTable micros seconds td_names (td_ops d)"

definition td_ResetStats :: "'d TimedDisk \<Rightarrow> 'd TimedDisk" where
  "td_ResetStats d = d\<lparr>td_ops := map Reset (td_ops d)\<rparr>"

section \<open>The timed disk is the disk\<close>

text \<open>A request to a disk, its reply, and what it does to a disk and to a timed disk.\<close>

datatype disk_req = DReadTo u64 "byte list" | DRead u64 | DWrite u64 "byte list" | DBarrier | DSize

datatype disk_rep = DBlock "byte list" | DDone | DWord u64

fun disk_do :: "'d disklib \<Rightarrow> disk_req \<Rightarrow> 'd \<Rightarrow> (disk_rep \<times> 'd) res" where
  "disk_do D (DReadTo a b) d = bnd (disk_ReadTo D d a b) (\<lambda>b. Inr (DBlock b, d))"
| "disk_do D (DRead a) d = bnd (disk_Read1 D d a) (\<lambda>b. Inr (DBlock b, d))"
| "disk_do D (DWrite a b) d = bnd (disk_Write1 D d a b) (\<lambda>d. Inr (DDone, d))"
| "disk_do D DBarrier d = bnd (disk_Barrier D d) (\<lambda>d. Inr (DDone, d))"
| "disk_do D DSize d = Inr (DWord (disk_Size1 D d), d)"

fun td_do :: "'d disklib \<Rightarrow> u64 \<Rightarrow> disk_req \<Rightarrow> 'd TimedDisk \<Rightarrow> (disk_rep \<times> 'd TimedDisk) res" where
  "td_do D dur (DReadTo a b) d = bnd (td_ReadTo D dur a b d) (\<lambda>(b, d). Inr (DBlock b, d))"
| "td_do D dur (DRead a) d = bnd (td_Read D dur a d) (\<lambda>(b, d). Inr (DBlock b, d))"
| "td_do D dur (DWrite a b) d = bnd (td_Write D dur a b d) (\<lambda>d. Inr (DDone, d))"
| "td_do D dur DBarrier d = bnd (td_Barrier D dur d) (\<lambda>d. Inr (DDone, d))"
| "td_do D dur DSize d = Inr (DWord (td_Size D d), d)"

fun runs :: "('q \<Rightarrow> 's \<Rightarrow> ('r \<times> 's) res) \<Rightarrow> 'q list \<Rightarrow> 's \<Rightarrow> ('r list \<times> 's) res" where
  "runs f [] s = Inr ([], s)"
| "runs f (q # qs) s = bnd (f q s) (\<lambda>(r, s). bnd (runs f qs s) (\<lambda>(rs, s). Inr (r # rs, s)))"

fun counter :: "disk_req \<Rightarrow> nat option" where
  "counter (DReadTo _ _) = Some readOp"
| "counter (DRead _) = Some readOp"
| "counter (DWrite _ _) = Some writeOp"
| "counter DBarrier = Some barrierOp"
| "counter DSize = None"

definition counted :: "nat \<Rightarrow> (u64 \<times> disk_req) list \<Rightarrow> nat" where
  "counted i qs = length (filter (\<lambda>(_, q). counter q = Some i) qs)"

text \<open>The contract of a disk that the timed disk relies on: reading a block is reading into a new buffer.\<close>

locale disk_reads =
  fixes D :: "'d disklib"
  assumes Read_ReadTo: "disk_Read1 D d a = disk_ReadTo D d a (replicate 4096 0)"
begin

lemma td_do_transparent:
  "td_do D dur q d = bnd (disk_do D q (td_d d)) (\<lambda>(r, x).
     Inr (r, case counter q of None \<Rightarrow> d\<lparr>td_d := x\<rparr> | Some i \<Rightarrow> td_record i dur (d\<lparr>td_d := x\<rparr>)))"
  by (cases q) (simp_all add: td_ReadTo_def td_Read_def td_Write_def td_Barrier_def td_Size_def td_record_def Read_ReadTo bnd_assoc)

lemma td_runs:
  assumes "length (td_ops d) = 3"
  shows "(\<exists>rs x d'. runs (disk_do D) (map snd qs) (td_d d) = Inr (rs, x) \<and> runs (\<lambda>(dur, q). td_do D dur q) qs d = Inr (rs, d') \<and>
      td_d d' = x \<and> length (td_ops d') = 3 \<and>
      (\<forall>i<3. op_count (td_ops d' ! i) = op_count (td_ops d ! i) + of_nat (counted i qs))) \<or>
    (\<exists>e. runs (disk_do D) (map snd qs) (td_d d) = Inl e \<and> runs (\<lambda>(dur, q). td_do D dur q) qs d = Inl e)"
  using assms
proof (induction qs arbitrary: d)
  case Nil
  then show ?case by (simp add: counted_def)
next
  case (Cons q qs)
  obtain dur r where q: "q = (dur, r)" by (cases q)
  show ?case
  proof (cases "disk_do D r (td_d d)")
    case (Inl e)
    then show ?thesis by (simp add: q td_do_transparent)
  next
    case (Inr p)
    obtain rep x where p: "p = (rep, x)" by (cases p)
    define d1 where "d1 = (case counter r of None \<Rightarrow> d\<lparr>td_d := x\<rparr> | Some i \<Rightarrow> td_record i dur (d\<lparr>td_d := x\<rparr>))"
    have s: "td_do D dur r d = Inr (rep, d1)" using Inr p by (simp add: td_do_transparent d1_def)
    have d1: "td_d d1 = x" "length (td_ops d1) = 3"
      using Cons.prems by (auto simp: d1_def td_record_def split: option.split)
    have c: "op_count (td_ops d1 ! i) + of_nat (counted i qs) = op_count (td_ops d ! i) + of_nat (counted i (q # qs))"
      if "i < 3" for i
      using that Cons.prems by (cases r) (auto simp: d1_def q counted_def td_record_def Record_def nth_list_update)
    from Cons.IH [OF d1(2)] show ?thesis
      using Inr p s d1(1) c by (auto simp: q)
  qed
qed

end

text \<open>A disk in memory satisfies the contract.\<close>

definition mem_disk :: "(byte list list) disklib" where
  "mem_disk = \<lparr>
     disk_ReadTo = (\<lambda>d a b. slice_get d a),
     disk_Read1 = (\<lambda>d a. slice_get d a),
     disk_Write1 = (\<lambda>d a b. slice_put d a b),
     disk_Barrier = (\<lambda>d. Inr d), disk_Size1 = (\<lambda>d. of_nat (length d)), disk_Close = (\<lambda>d. d)\<rparr>"

interpretation mem: disk_reads mem_disk
  by unfold_locales (simp add: mem_disk_def)

section \<open>Properties\<close>

text \<open>The timed disk is the disk it counts for. On a new timed disk every sequence of requests gives the replies of
  the disk below it and leaves that disk in the same state, or panics where it panics; each counter is the
  number of requests of its kind, modulo \<open>2 ^ 32\<close>, and printing the table of counters does not panic.\<close>

theorem timed_disk_transparent:
  assumes "disk_reads D"
  shows "(\<exists>rs x d. runs (disk_do D) (map snd qs) d0 = Inr (rs, x) \<and>
      runs (\<lambda>(dur, q). td_do D dur q) qs (td_New d0) = Inr (rs, d) \<and> td_d d = x \<and>
      (\<forall>i<3. op_count (td_ops d ! i) = of_nat (counted i qs)) \<and> (\<exists>rows. td_WriteStats micros seconds d = Inr rows)) \<or>
    (\<exists>e. runs (disk_do D) (map snd qs) d0 = Inl e \<and> runs (\<lambda>(dur, q). td_do D dur q) qs (td_New d0) = Inl e)"
proof -
  have n: "length (td_ops (td_New d0)) = 3" "td_d (td_New d0) = d0" "\<forall>i<3. op_count (td_ops (td_New d0) ! i) = 0"
    by (simp_all add: td_New_def zero_Op_def)
  have w: "\<exists>rows. td_WriteStats micros seconds d = Inr rows" if "length (td_ops d) = 3" for d :: "'a TimedDisk"
    using that by (simp add: td_WriteStats_def WriteTable_def td_names_def Let_def)
  from disk_reads.td_runs [OF assms n(1), of qs] show ?thesis
    unfolding n(2) using n(3) w by fastforce
qed

theorem timed_disk_transparent_witness:
  "\<exists>rs d. runs (\<lambda>(dur, q). td_do mem_disk dur q) [(5, DWrite 1 [7]), (3, DRead 1)] (td_New [[0], [0]]) = Inr (rs, d) \<and>
     rs = [DDone, DBlock [7]] \<and> op_count (td_ops d ! 1) = 1"
proof -
  have r: "runs (disk_do mem_disk) (map snd [(5 :: u64, DWrite 1 [7]), (3, DRead 1)]) [[0], [0]] = Inr ([DDone, DBlock [7]], [[0], [7]])"
    by (simp add: mem_disk_def)
  obtain d where "runs (\<lambda>(dur, q). td_do mem_disk dur q) [(5, DWrite 1 [7]), (3, DRead 1)] (td_New [[0], [0]]) = Inr ([DDone, DBlock [7]], d)"
      "\<forall>i<3. op_count (td_ops d ! i) = of_nat (counted i [(5, DWrite 1 [7]), (3, DRead 1)])"
    using timed_disk_transparent [OF mem.disk_reads_axioms, of "[(5, DWrite 1 [7]), (3, DRead 1)]" "[[0], [0]]" "\<lambda>_. []" "\<lambda>_. []"]
    unfolding r by (auto simp del: runs.simps)
  then show ?thesis by (intro exI [of _ "[DDone, DBlock [7]]"] exI [of _ d]) (simp add: counted_def del: runs.simps)
qed

end
