(* ===== verification/Servers.thy ===== *)
theory Servers
  imports Nfsd SimpleServer Stats
begin

text \<open>
  \<^verbatim>\<open>cmd/go-nfsd/main.go\<close> and \<^verbatim>\<open>cmd/simple-nfsd\<close>: the two server programs from their flags to their end. The answers of the operating
  system and of the port mapper are the record \<^verbatim>\<open>mainenv\<close>, an argument of the programs; what happens while a server accepts
  connections (results of \<^verbatim>\<open>Accept\<close>, signals, the work of the goroutines) is a list of events. A program returns how it ends,
  the server, and the trace of what it has asked of its environment. The deferred calls run, last first, when \<^verbatim>\<open>main\<close>
  returns or panics, and not when the process exits, is killed, or panics in another goroutine. The text of messages and statistics is not modelled.
\<close>

section \<open>The environment\<close>

text \<open>The procedures of the port mapper that are called, and the protocol; their numbers belong to the package \<^verbatim>\<open>rfc1057\<close>.\<close>

datatype pmap_proc = PMAPPROC_SET | PMAPPROC_UNSET

datatype pmap_prot = IPPROTO_TCP

record Mapping =
  Mapping_Prog :: u32
  Mapping_Vers :: u32
  Mapping_Prot :: pmap_prot
  Mapping_Port :: u32

text \<open>\<open>env_Dial k\<close> and \<open>env_Call k\<close> answer the connection and the call made after \<open>k\<close> actions; \<open>None\<close> is an error.\<close>

record 'd mainenv =
  env_Create :: bool
  env_Listen :: "u32 option"
  env_Dial :: "nat \<Rightarrow> bool"
  env_Call :: "nat \<Rightarrow> pmap_proc \<Rightarrow> Mapping \<Rightarrow> bool option"
  env_NewMemDisk :: "u64 \<Rightarrow> 'd"
  env_NewFileDisk :: "string \<Rightarrow> u64 \<Rightarrow> 'd option"

text \<open>The results of \<^verbatim>\<open>pmap_set_unset\<close> are \<open>None\<close> for nil and otherwise the error.\<close>

datatype act =
    StartCPUProfile
  | StopCPUProfile
  | Pmap u32 u32 u32 bool "string option"
  | Accepted
  | DumpStats
  | ResetAllStats
  | ShutDown

datatype outcome = Returned | Panicked string | Exited | Killed | Crashed fault | Hung fault | Serving

text \<open>A fault of \<^verbatim>\<open>main\<close> itself, with the deferred calls \<open>ds\<close>.\<close>

definition main_fault :: "fault \<Rightarrow> (act list \<Rightarrow> act list) \<Rightarrow> act list \<Rightarrow> outcome \<times> act list" where
  "main_fault e ds tr = (case e of Panic m \<Rightarrow> (Panicked m, ds tr) | _ \<Rightarrow> (Hung e, tr))"

section \<open>Accepting connections\<close>

text \<open>
  The goroutine that waits for an interrupt: the channel it reads holds one signal, \<open>Waiting True\<close> if it holds one; the goroutine takes the signal,
  closes the listener, and dumps the statistics if they are asked for. (The variable \<^verbatim>\<open>shutdown\<close> that it sets decides about a message only.)
\<close>

datatype closer = Waiting bool | Received | Closed | Finished

fun closer_signal :: "closer \<Rightarrow> closer" where
  "closer_signal (Waiting pending) = Waiting True"
| "closer_signal cl = cl"

fun closer_next :: "bool \<Rightarrow> closer \<Rightarrow> closer \<times> act list" where
  "closer_next dumpStats (Waiting pending) = (if pending then Received else Waiting False, [])"
| "closer_next dumpStats Received = (Closed, [])"
| "closer_next dumpStats Closed = (Finished, if dumpStats then [DumpStats] else [])"
| "closer_next dumpStats Finished = (Finished, [])"

definition listening :: "closer \<Rightarrow> bool" where
  "listening cl = (case cl of Waiting pending \<Rightarrow> True | Received \<Rightarrow> True | _ \<Rightarrow> False)"

text \<open>\<open>Accept ok\<close>: a call of \<^verbatim>\<open>Accept\<close> returns, with a connection or an error; after the listener is closed it returns an error.
  \<open>Interrupt\<close>: the process gets an interrupt. \<open>CloserRuns\<close>: the goroutine that waits for it takes its next step, if it can; until it has closed the
  listener, connections are still accepted.
  \<open>Work w\<close>: another goroutine changes the server. \<open>StatSignal\<close> is \<^verbatim>\<open>SIGUSR1\<close>,
  which ends a process that does not ask for it.\<close>

datatype 'w event = Accept bool | Interrupt | CloserRuns | StatSignal | Work 'w

fun accept_loop ::
    "('w \<Rightarrow> 's \<Rightarrow> 's res) \<Rightarrow> bool \<Rightarrow> 'w event list \<Rightarrow> closer \<Rightarrow> 's \<Rightarrow> act list \<Rightarrow> outcome \<times> 's \<times> act list" where
  "accept_loop work dumpStats [] cl s tr = (Serving, s, tr)"
| "accept_loop work dumpStats (Accept ok # es) cl s tr =
     (if \<not> listening cl \<or> \<not> ok then (Returned, s, tr) else accept_loop work dumpStats es cl s (tr @ [Accepted]))"
| "accept_loop work dumpStats (Interrupt # es) cl s tr = accept_loop work dumpStats es (closer_signal cl) s tr"
| "accept_loop work dumpStats (CloserRuns # es) cl s tr =
     (let (cl, acts) = closer_next dumpStats cl in accept_loop work dumpStats es cl s (tr @ acts))"
| "accept_loop work dumpStats (StatSignal # es) cl s tr =
     (if dumpStats then accept_loop work dumpStats es cl s (tr @ [DumpStats, ResetAllStats]) else (Killed, s, tr))"
| "accept_loop work dumpStats (Work w # es) cl s tr =
     (case work w s of Inl e \<Rightarrow> (Crashed e, s, tr) | Inr s \<Rightarrow> accept_loop work dumpStats es cl s tr)"

section \<open>cmd/go-nfsd\<close>

definition pmap_set_unset :: "'d mainenv \<Rightarrow> nat \<Rightarrow> u32 \<Rightarrow> u32 \<Rightarrow> u32 \<Rightarrow> bool \<Rightarrow> string option" where
  "pmap_set_unset env k prog vers port setit =
     (if \<not> env_Dial env k then Some ''dial''
      else
        let arg = \<lparr>Mapping_Prog = prog, Mapping_Vers = vers, Mapping_Prot = IPPROTO_TCP, Mapping_Port = port\<rparr>;
            proc = (if setit then PMAPPROC_SET else PMAPPROC_UNSET)
        in case env_Call env k proc arg of
             None \<Rightarrow> Some ''call''
           | Some res \<Rightarrow>
               if res then None
               else if setit then Some ''failed to set; is program already registered?''
               else Some ''failed to unset'')"

text \<open>A call of it from \<^verbatim>\<open>main\<close>.\<close>

definition pmap :: "'d mainenv \<Rightarrow> u32 \<Rightarrow> u32 \<Rightarrow> u32 \<Rightarrow> bool \<Rightarrow> act list \<Rightarrow> string option \<times> act list" where
  "pmap env prog vers port setit tr =
     (let err = pmap_set_unset env (length tr) prog vers port setit in (err, tr @ [Pmap prog vers port setit err]))"

record nfsd_flags =
  fl_cpuprofile :: bool
  fl_unstable :: bool
  fl_size :: u64
  fl_disk :: string
  fl_stats :: bool

text \<open>A \<^verbatim>\<open>disk.Disk\<close> of the server: the disk itself, or the disk that counts.\<close>

datatype 'd Disk = RawDisk 'd | Timed "'d TimedDisk"

definition nfsd_disk :: "'d mainenv \<Rightarrow> nfsd_flags \<Rightarrow> 'd Disk option" where
  "nfsd_disk env fl =
     (let diskBlocks = 1500 + fl_size fl * 1024 div 4;
          d = (if fl_disk fl = '''' then Some (env_NewMemDisk env diskBlocks) else env_NewFileDisk env (fl_disk fl) diskBlocks)
      in map_option (\<lambda>d. if fl_stats fl then Timed (td_New d) else RawDisk d) d)"

text \<open>The work of the goroutines of the server: a request for a registered procedure, or a background shrinker.\<close>

definition nfsd_work ::
    "('log, 'op, 'alc, 'lm, 'd) golib \<Rightarrow> nat \<Rightarrow> ('xs, ('log, 'alc, 'lm, 'd) Nfs) ProcRegistration list \<Rightarrow> (nat \<times> 'xs) + u64 \<Rightarrow>
     ('log, 'alc, 'lm, 'd) Nfs \<Rightarrow> ('log, 'alc, 'lm, 'd) Nfs res" where
  "nfsd_work G fuel regs w s =
     (case w of
        Inl (i, xs) \<Rightarrow> if i < length regs then bnd (Handler (regs ! i) xs s) (\<lambda>(reply, xs, s). Inr s) else Inr s
      | Inr inum \<Rightarrow>
          if inum \<in> set (threads (shrinkst s))
          then bnd (shrinker G fuel inum (shrinkst s) (fsstate s)) (\<lambda>(sh, st). Inr (s\<lparr>fsstate := st, shrinkst := sh\<rparr>))
          else Inr s)"

text \<open>\<^verbatim>\<open>main\<close> once the mappings are set, with the deferred calls \<open>ds\<close>.\<close>

definition nfsd_serve ::
    "('log, 'op, 'alc, 'lm, 'd Disk) golib \<Rightarrow> 'xs xdrlib \<Rightarrow> nat \<Rightarrow> nat \<Rightarrow> 'd mainenv \<Rightarrow> nfsd_flags \<Rightarrow> ((nat \<times> 'xs) + u64) event list \<Rightarrow>
     (act list \<Rightarrow> act list) \<Rightarrow> act list \<Rightarrow> (outcome \<times> act list) \<times> ('log, 'alc, 'lm, 'd Disk) Nfs option" where
  "nfsd_serve G X n fuel env fl events ds tr =
     (case nfsd_disk env fl of
        None \<Rightarrow> ((Panicked ''could not create disk'', ds tr), None)
      | Some d \<Rightarrow>
          (case nfsd_start G X n fuel (\<lambda>_. d) (fl_size fl) (fl_unstable fl) of
             Inl e \<Rightarrow> (main_fault e ds tr, None)
           | Inr (server, regs) \<Rightarrow>
               let (o1, server, tr) = accept_loop (nfsd_work G fuel regs) (fl_stats fl) events (Waiting False) server tr
               in if o1 \<noteq> Returned then ((o1, tr), Some server)
                  else (case ShutdownNfs G fuel server of
                          Inl e \<Rightarrow> (main_fault e ds tr, Some server)
                        | Inr server \<Rightarrow> ((Returned, ds (tr @ [ShutDown])), Some server))))"

definition nfsd_main ::
    "('log, 'op, 'alc, 'lm, 'd Disk) golib \<Rightarrow> 'xs xdrlib \<Rightarrow> nat \<Rightarrow> nat \<Rightarrow> 'd mainenv \<Rightarrow> nfsd_flags \<Rightarrow> ((nat \<times> 'xs) + u64) event list \<Rightarrow>
     (outcome \<times> act list) \<times> ('log, 'alc, 'lm, 'd Disk) Nfs option" where
  "nfsd_main G X n fuel env fl events =
     (if fl_cpuprofile fl \<and> \<not> env_Create env then ((Exited, []), None)
      else
      let tr = (if fl_cpuprofile fl then [StartCPUProfile] else []);
          ds0 = (\<lambda>tr. if fl_cpuprofile fl then tr @ [StopCPUProfile] else tr)
      in case env_Listen env of
        None \<Rightarrow> ((Panicked ''listen'', ds0 tr), None)
      | Some port \<Rightarrow>
          let (err, tr) = pmap env MOUNT_PROGRAM MOUNT_V3 0 False tr
          in if err \<noteq> None then ((Exited, tr), None)
          else
          let (err, tr) = pmap env MOUNT_PROGRAM MOUNT_V3 port True tr
          in if err \<noteq> None then ((Panicked (the err), ds0 tr), None)
          else
          let ds1 = (\<lambda>tr. ds0 (snd (pmap env MOUNT_PROGRAM MOUNT_V3 port False tr)));
              (_, tr) = pmap env NFS_PROGRAM NFS_V3 0 False tr;
              (err, tr) = pmap env NFS_PROGRAM NFS_V3 port True tr
          in if err \<noteq> None then ((Panicked (the err), ds1 tr), None)
          else
          nfsd_serve G X n fuel env fl events (\<lambda>tr. ds1 (snd (pmap env NFS_PROGRAM NFS_V3 port False tr))) tr)"

section \<open>cmd/simple-nfsd\<close>

text \<open>The \<^verbatim>\<open>pmap_set_unset\<close> of this program panics where the other returns an error; the result is whether the port mapper agreed.\<close>

definition simple_pmap_set_unset :: "'d mainenv \<Rightarrow> nat \<Rightarrow> u32 \<Rightarrow> u32 \<Rightarrow> u32 \<Rightarrow> bool \<Rightarrow> string + bool" where
  "simple_pmap_set_unset env k prog vers port setit =
     (if \<not> env_Dial env k then Inl ''dial''
      else
        let arg = \<lparr>Mapping_Prog = prog, Mapping_Vers = vers, Mapping_Prot = IPPROTO_TCP, Mapping_Port = port\<rparr>;
            proc = (if setit then PMAPPROC_SET else PMAPPROC_UNSET)
        in case env_Call env k proc arg of None \<Rightarrow> Inl ''call'' | Some res \<Rightarrow> Inr res)"

definition simple_pmap :: "'d mainenv \<Rightarrow> u32 \<Rightarrow> u32 \<Rightarrow> u32 \<Rightarrow> bool \<Rightarrow> act list \<Rightarrow> (string + bool) \<times> act list" where
  "simple_pmap env prog vers port setit tr =
     (let r = simple_pmap_set_unset env (length tr) prog vers port setit
      in (r, tr @ [Pmap prog vers port setit (case r of Inr b \<Rightarrow> if b then None else Some ''false'' | Inl m \<Rightarrow> Some m)]))"

definition simple_handler ::
    "('log, 'op, 'alc, 'lm, 'd) golib \<Rightarrow> ('log, 'lm) simple_Nfs NFS_PROGRAM_NFS_V3_handler" where
  "simple_handler G = \<lparr>
     do_NFSPROC3_NULL = (\<lambda>nfs. Inr ((), nfs)),
     do_NFSPROC3_GETATTR = simple_NFSPROC3_GETATTR G,
     do_NFSPROC3_SETATTR = simple_NFSPROC3_SETATTR G,
     do_NFSPROC3_LOOKUP = (\<lambda>args nfs. bnd (simple_NFSPROC3_LOOKUP G args) (\<lambda>reply. Inr (reply, nfs))),
     do_NFSPROC3_ACCESS = (\<lambda>args nfs. Inr (simple_NFSPROC3_ACCESS args, nfs)),
     do_NFSPROC3_READLINK = (\<lambda>args nfs. Inr (simple_NFSPROC3_READLINK args, nfs)),
     do_NFSPROC3_READ = simple_NFSPROC3_READ G,
     do_NFSPROC3_WRITE = simple_NFSPROC3_WRITE G,
     do_NFSPROC3_CREATE = (\<lambda>args nfs. Inr (simple_NFSPROC3_CREATE args, nfs)),
     do_NFSPROC3_MKDIR = (\<lambda>args nfs. Inr (simple_NFSPROC3_MKDIR args, nfs)),
     do_NFSPROC3_SYMLINK = (\<lambda>args nfs. Inr (simple_NFSPROC3_SYMLINK args, nfs)),
     do_NFSPROC3_MKNOD = (\<lambda>args nfs. Inr (simple_NFSPROC3_MKNOD args, nfs)),
     do_NFSPROC3_REMOVE = (\<lambda>args nfs. Inr (simple_NFSPROC3_REMOVE args, nfs)),
     do_NFSPROC3_RMDIR = (\<lambda>args nfs. Inr (simple_NFSPROC3_RMDIR args, nfs)),
     do_NFSPROC3_RENAME = (\<lambda>args nfs. Inr (simple_NFSPROC3_RENAME args, nfs)),
     do_NFSPROC3_LINK = (\<lambda>args nfs. Inr (simple_NFSPROC3_LINK args, nfs)),
     do_NFSPROC3_READDIR = (\<lambda>args nfs. Inr (simple_NFSPROC3_READDIR args, nfs)),
     do_NFSPROC3_READDIRPLUS = (\<lambda>args nfs. Inr (simple_NFSPROC3_READDIRPLUS args, nfs)),
     do_NFSPROC3_FSSTAT = (\<lambda>args nfs. Inr (simple_NFSPROC3_FSSTAT args, nfs)),
     do_NFSPROC3_FSINFO = (\<lambda>args nfs. Inr (simple_NFSPROC3_FSINFO args, nfs)),
     do_NFSPROC3_PATHCONF = (\<lambda>args nfs. Inr (simple_NFSPROC3_PATHCONF args, nfs)),
     do_NFSPROC3_COMMIT = simple_NFSPROC3_COMMIT G\<rparr>"

definition simple_mount_handler ::
    "('log, 'op, 'alc, 'lm, 'd) golib \<Rightarrow> ('log, 'lm) simple_Nfs MOUNT_PROGRAM_MOUNT_V3_handler" where
  "simple_mount_handler G = \<lparr>
     do_MOUNTPROC3_NULL = (\<lambda>nfs. Inr ((), nfs)),
     do_MOUNTPROC3_MNT = (\<lambda>args nfs. bnd (simple_MOUNTPROC3_MNT G args) (\<lambda>reply. Inr (reply, nfs))),
     do_MOUNTPROC3_DUMP = (\<lambda>nfs. Inr (simple_MOUNTPROC3_DUMP, nfs)),
     do_MOUNTPROC3_UMNT = (\<lambda>args nfs. Inr ((), nfs)),
     do_MOUNTPROC3_UMNTALL = (\<lambda>nfs. Inr ((), nfs)),
     do_MOUNTPROC3_EXPORT = (\<lambda>nfs. Inr (simple_MOUNTPROC3_EXPORT, nfs))\<rparr>"

text \<open>\<^verbatim>\<open>MakeNfs\<close> of \<^verbatim>\<open>start.go\<close>.\<close>

definition start_MakeNfs ::
    "('log, 'op, 'alc, 'lm, 'd) golib \<Rightarrow> 'd mainenv \<Rightarrow> string \<Rightarrow> ('log, 'lm) simple_Nfs res" where
  "start_MakeNfs G env name =
     (let sz = 100 * 1024
      in case env_NewFileDisk env name sz of
           None \<Rightarrow> Inl (Panic ''could not create file disk'')
         | Some d \<Rightarrow>
             bnd (simple_MakeNfs G d) (\<lambda>nfs.
             case nfs of None \<Rightarrow> Inl (Panic ''could not initialize nfs'') | Some nfs \<Rightarrow> Inr nfs))"

definition simple_work :: "('xs, 's) ProcRegistration list \<Rightarrow> nat \<times> 'xs \<Rightarrow> 's \<Rightarrow> 's res" where
  "simple_work regs w s =
     (if fst w < length regs then bnd (Handler (regs ! fst w) (snd w) s) (\<lambda>(reply, xs, s). Inr s) else Inr s)"

text \<open>A deferred call that panics does not keep the others from running; the program then ends with its panic.\<close>

definition simple_defer :: "'d mainenv \<Rightarrow> u32 \<Rightarrow> u32 \<Rightarrow> u32 \<Rightarrow> outcome \<times> act list \<Rightarrow> outcome \<times> act list" where
  "simple_defer env prog vers port x =
     (let (r, tr) = simple_pmap env prog vers port False (snd x)
      in (case r of Inl m \<Rightarrow> Panicked m | Inr _ \<Rightarrow> fst x, tr))"

text \<open>The panic of a call from \<^verbatim>\<open>main\<close>: that of the call itself, or \<open>msg\<close> if the port mapper refuses.\<close>

definition simple_must :: "string + bool \<Rightarrow> string option \<Rightarrow> string option" where
  "simple_must r msg = (case r of Inl m \<Rightarrow> Some m | Inr b \<Rightarrow> if b then None else msg)"

definition simple_serve ::
    "('log, 'op, 'alc, 'lm, 'd) golib \<Rightarrow> 'xs xdrlib \<Rightarrow> nat \<Rightarrow> 'd mainenv \<Rightarrow> string \<Rightarrow> (nat \<times> 'xs) event list \<Rightarrow>
     (outcome \<times> act list \<Rightarrow> outcome \<times> act list) \<Rightarrow> act list \<Rightarrow> (outcome \<times> act list) \<times> ('log, 'lm) simple_Nfs option" where
  "simple_serve G X n env diskfile events ds tr =
     (case start_MakeNfs G env diskfile of
        Inl e \<Rightarrow> (case e of Panic m \<Rightarrow> ds (Panicked m, tr) | _ \<Rightarrow> (Hung e, tr), None)
      | Inr nfs \<Rightarrow>
          let regs = MOUNT_PROGRAM_MOUNT_V3_regs X n (simple_mount_handler G) @ NFS_PROGRAM_NFS_V3_regs X n (simple_handler G);
              (o1, nfs, tr) = accept_loop (simple_work regs) False events (Waiting False) nfs tr
          in (if o1 \<noteq> Returned then (o1, tr) else ds (Returned, tr), Some nfs))"

definition simple_main ::
    "('log, 'op, 'alc, 'lm, 'd) golib \<Rightarrow> 'xs xdrlib \<Rightarrow> nat \<Rightarrow> 'd mainenv \<Rightarrow> bool \<Rightarrow> string \<Rightarrow> (nat \<times> 'xs) event list \<Rightarrow>
     (outcome \<times> act list) \<times> ('log, 'lm) simple_Nfs option" where
  "simple_main G X n env cpuprofile diskfile events =
     (if diskfile = '''' then ((Returned, []), None)
      else if cpuprofile \<and> \<not> env_Create env then ((Exited, []), None)
      else
      let tr = (if cpuprofile then [StartCPUProfile] else []);
          ds0 = (\<lambda>x. (fst x, if cpuprofile then snd x @ [StopCPUProfile] else snd x))
      in case env_Listen env of
        None \<Rightarrow> (ds0 (Panicked ''listen'', tr), None)
      | Some port \<Rightarrow>
          let (r, tr) = simple_pmap env MOUNT_PROGRAM MOUNT_V3 0 False tr
          in case simple_must r None of Some m \<Rightarrow> (ds0 (Panicked m, tr), None)
          | None \<Rightarrow>
          let (r, tr) = simple_pmap env MOUNT_PROGRAM MOUNT_V3 port True tr
          in case simple_must r (Some ''Could not set pmap mapping for mount'') of Some m \<Rightarrow> (ds0 (Panicked m, tr), None)
          | None \<Rightarrow>
          let ds1 = (\<lambda>x. ds0 (simple_defer env MOUNT_PROGRAM MOUNT_V3 port x));
              (r, tr) = simple_pmap env NFS_PROGRAM NFS_V3 0 False tr
          in case simple_must r None of Some m \<Rightarrow> (ds1 (Panicked m, tr), None)
          | None \<Rightarrow>
          let (r, tr) = simple_pmap env NFS_PROGRAM NFS_V3 port True tr
          in case simple_must r (Some ''Could not set pmap mapping for NFS'') of Some m \<Rightarrow> (ds1 (Panicked m, tr), None)
          | None \<Rightarrow>
          simple_serve G X n env diskfile events (\<lambda>x. ds1 (simple_defer env NFS_PROGRAM NFS_V3 port x)) tr)"

section \<open>Mappings that are set are unset\<close>

fun is_unset :: "u32 \<Rightarrow> u32 \<Rightarrow> u32 \<Rightarrow> act \<Rightarrow> bool" where
  "is_unset p v q (Pmap p' v' q' setit err) = (p' = p \<and> v' = v \<and> q' = q \<and> \<not> setit)"
| "is_unset p v q a = False"

fun is_Pmap :: "act \<Rightarrow> bool" where
  "is_Pmap (Pmap p v q setit err) = True"
| "is_Pmap a = False"

text \<open>After every mapping that was set there is an attempt to unset it.\<close>

fun unsets :: "act list \<Rightarrow> bool" where
  "unsets [] = True"
| "unsets (Pmap p v q True None # tr) = (list_ex (is_unset p v q) tr \<and> unsets tr)"
| "unsets (a # tr) = unsets tr"

lemma unsets_plain: "\<not> is_Pmap a \<Longrightarrow> unsets (a # tr) = unsets tr"
  by (cases a) simp_all

lemma unsets_Pmap [simp]:
  "unsets (Pmap p v q setit err # tr) = ((setit \<and> err = None \<longrightarrow> list_ex (is_unset p v q) tr) \<and> unsets tr)"
  by (cases setit; cases err) simp_all

lemma unsets_skip: "(\<forall>a \<in> set ys. \<not> is_Pmap a) \<Longrightarrow> unsets (ys @ tr) = unsets tr"
  by (induction ys) (simp_all add: unsets_plain)

lemma closer_next_plain: "closer_next d cl = (cl', acts) \<Longrightarrow> a \<in> set acts \<Longrightarrow> \<not> is_Pmap a"
  by (cases "(d, cl)" rule: closer_next.cases) (auto split: if_splits)

lemma accept_loop_trace:
  "accept_loop work d es cl s tr = (x, s', tr') \<Longrightarrow> \<exists>ys. tr' = tr @ ys \<and> (\<forall>a \<in> set ys. \<not> is_Pmap a)"
proof (induction work d es cl s tr rule: accept_loop.induct)
  case (2 work d ok es cl s tr)
  then show ?case by (fastforce split: if_splits)
next
  case (4 work d es cl s tr)
  obtain cl' acts where n: "closer_next d cl = (cl', acts)" by (cases "closer_next d cl")
  then have "\<exists>ys. tr' = (tr @ acts) @ ys \<and> (\<forall>a \<in> set ys. \<not> is_Pmap a)" using 4(1) [OF n [symmetric] refl] 4(2) by simp
  then obtain ys where "tr' = (tr @ acts) @ ys" "\<forall>a \<in> set ys. \<not> is_Pmap a" by blast
  then show ?case using closer_next_plain [OF n] by (intro exI [of _ "acts @ ys"]) auto
next
  case (5 work d es cl s tr)
  then show ?case by (fastforce split: if_splits)
next
  case (6 work d w es cl s tr)
  then show ?case by (fastforce split: sum.splits)
qed simp_all

text \<open>The steps that the goroutine still needs to close the listener, once it has its signal.\<close>

fun closer_rank :: "closer \<Rightarrow> nat" where
  "closer_rank (Waiting pending) = 2"
| "closer_rank Received = 1"
| "closer_rank cl = 0"

lemma closer_rank_next:
  "cl \<noteq> Waiting False \<Longrightarrow> fst (closer_next d cl) \<noteq> Waiting False \<and> closer_rank (fst (closer_next d cl)) = closer_rank cl - 1"
  by (cases "(d, cl)" rule: closer_next.cases) auto

lemma closer_rank_signal: "closer_signal cl \<noteq> Waiting False \<and> closer_rank (closer_signal cl) = closer_rank cl"
  by (cases cl rule: closer_signal.cases) auto

lemma accept_loop_closes:
  "accept_loop work d (es @ Accept b # es') cl s tr = (x, s', tr') \<Longrightarrow> cl \<noteq> Waiting False \<Longrightarrow>
   closer_rank cl \<le> count_list es CloserRuns \<Longrightarrow> x \<noteq> Serving"
proof (induction es arbitrary: cl s tr)
  case Nil
  then have "\<not> listening cl" by (cases cl rule: closer_rank.cases) (auto simp: listening_def)
  then show ?case using Nil by auto
next
  case (Cons e es)
  show ?case
  proof (cases "e = CloserRuns")
    case True
    then show ?thesis using Cons closer_rank_next [OF Cons.prems(2), of d] by (auto split: prod.splits)
  next
    case False
    then show ?thesis using Cons closer_rank_signal [of cl] by (cases e) (auto split: if_splits sum.splits)
  qed
qed

lemma accept_loop_interrupt:
  "accept_loop work d (es @ Interrupt # es' @ Accept b # es'') cl s tr = (x, s', tr') \<Longrightarrow> 2 \<le> count_list es' CloserRuns \<Longrightarrow> x \<noteq> Serving"
proof (induction es arbitrary: cl s tr)
  case Nil
  have "closer_rank cl \<le> 2" by (cases cl rule: closer_rank.cases) simp_all
  then show ?case using Nil accept_loop_closes [of work d es' b es'' "closer_signal cl" s tr x s' tr'] closer_rank_signal [of cl] by auto
next
  case (Cons e es)
  then show ?case by (cases e) (auto split: if_splits sum.splits prod.splits)
qed

definition ended :: "outcome \<Rightarrow> bool" where
  "ended x \<longleftrightarrow> (case x of Returned \<Rightarrow> True | Panicked m \<Rightarrow> True | _ \<Rightarrow> False)"

lemma ended_simps [simp]:
  "ended Returned" "ended (Panicked m)" "\<not> ended Exited" "\<not> ended Killed" "\<not> ended (Crashed e)" "\<not> ended (Hung e)" "\<not> ended Serving"
  by (simp_all add: ended_def)

lemma accept_loop_ended:
  "accept_loop work d es cl s tr = (x, s', tr') \<Longrightarrow> ended x \<Longrightarrow> x = Returned"
  by (induction work d es cl s tr rule: accept_loop.induct) (auto split: if_splits sum.splits prod.splits)

lemma accept_loop_post:
  assumes "accept_loop work d es cl s tr = (x, s', tr')"
  shows "\<exists>ys. tr' = tr @ ys \<and> (\<forall>a \<in> set ys. \<not> is_Pmap a) \<and> (x = Returned \<or> \<not> ended x)"
  using accept_loop_trace [OF assms] accept_loop_ended [OF assms] by blast

text \<open>When \<^verbatim>\<open>main\<close> ends after the mappings were set, it has run the deferred calls.\<close>

lemma main_fault_ended: "main_fault e ds tr = (x, tr') \<Longrightarrow> ended x \<Longrightarrow> tr' = ds tr"
  by (cases e) (auto simp: main_fault_def)

lemma nfsd_serve_ended:
  assumes s: "nfsd_serve G X n fuel env fl es ds tr = ((x, tr'), s)" and x: "ended x"
  shows "\<exists>ys. tr' = ds (tr @ ys) \<and> (\<forall>a \<in> set ys. \<not> is_Pmap a)"
proof (cases "nfsd_disk env fl")
  case None
  then show ?thesis using s by (auto simp: nfsd_serve_def intro: exI [of _ "[]"])
next
  case (Some d)
  show ?thesis
  proof (cases "nfsd_start G X n fuel (\<lambda>_. d) (fl_size fl) (fl_unstable fl)")
    case (Inl e)
    then show ?thesis using s Some main_fault_ended [OF _ x] by (auto simp: nfsd_serve_def intro: exI [of _ "[]"])
  next
    case (Inr p)
    then obtain sv regs where st: "nfsd_start G X n fuel (\<lambda>_. d) (fl_size fl) (fl_unstable fl) = Inr (sv, regs)" by (cases p) simp
    obtain o1 sv' tr1 where a: "accept_loop (nfsd_work G fuel regs) (fl_stats fl) es (Waiting False) sv tr = (o1, sv', tr1)" by (metis prod_cases3)
    obtain ys where ys: "tr1 = tr @ ys" "\<forall>a \<in> set ys. \<not> is_Pmap a" "o1 = Returned \<or> \<not> ended o1" using accept_loop_post [OF a] by blast
    have o: "o1 = Returned" using s Some st a x ys(3) by (auto simp: nfsd_serve_def split: if_splits)
    show ?thesis
    proof (cases "ShutdownNfs G fuel sv'")
      case (Inl e)
      then have "main_fault e ds (tr @ ys) = (x, tr')" using s Some st a o ys(1) by (simp add: nfsd_serve_def)
      then show ?thesis using main_fault_ended [OF _ x] ys(2) by blast
    next
      case (Inr sv2)
      have "tr' = ds (tr @ ys @ [ShutDown])" using s Some st a o ys Inr by (simp add: nfsd_serve_def)
      moreover have "\<forall>a \<in> set (ys @ [ShutDown]). \<not> is_Pmap a" using ys(2) by simp
      ultimately show ?thesis by blast
    qed
  qed
qed

lemma simple_serve_ended:
  assumes s: "simple_serve G X n env dfile es ds tr = ((x, tr'), s)" and x: "ended x"
  shows "\<exists>y ys. ds (y, tr @ ys) = (x, tr') \<and> (\<forall>a \<in> set ys. \<not> is_Pmap a)"
proof (cases "start_MakeNfs G env dfile")
  case (Inl e)
  then obtain m where "ds (Panicked m, tr) = (x, tr')" using s x by (cases e) (auto simp: simple_serve_def)
  then show ?thesis by (intro exI [of _ "Panicked m"] exI [of _ "[]"]) simp
next
  case (Inr sv)
  let ?regs = "MOUNT_PROGRAM_MOUNT_V3_regs X n (simple_mount_handler G) @ NFS_PROGRAM_NFS_V3_regs X n (simple_handler G)"
  obtain o1 sv' tr1 where a: "accept_loop (simple_work ?regs) False es (Waiting False) sv tr = (o1, sv', tr1)" by (metis prod_cases3)
  obtain ys where ys: "tr1 = tr @ ys" "\<forall>a \<in> set ys. \<not> is_Pmap a" "o1 = Returned \<or> \<not> ended o1" using accept_loop_post [OF a] by blast
  have "ds (Returned, tr @ ys) = (x, tr')" using s Inr a x ys by (auto simp: simple_serve_def Let_def split: if_splits)
  then show ?thesis using ys(2) by blast
qed

text \<open>An interrupt has arrived, the goroutine that waits for it has then taken two steps, and a call of \<^verbatim>\<open>Accept\<close> has returned after that.\<close>

definition interrupted :: "'w event list \<Rightarrow> bool" where
  "interrupted events \<longleftrightarrow> (\<exists>es es' b es''. events = es @ Interrupt # es' @ Accept b # es'' \<and> 2 \<le> count_list es' CloserRuns)"

lemma accept_loop_interrupted: "accept_loop work d events cl s tr = (x, s', tr') \<Longrightarrow> interrupted events \<Longrightarrow> x \<noteq> Serving"
  by (auto simp: interrupted_def dest: accept_loop_interrupt)

lemma nfsd_serve_interrupted:
  assumes "nfsd_serve G X n fuel env fl es ds tr = ((x, tr'), s)" and "interrupted es"
  shows "x \<noteq> Serving"
  using assms
  by (auto simp: nfsd_serve_def main_fault_def dest: accept_loop_interrupted split: option.splits sum.splits prod.splits if_splits fault.splits)

lemma simple_serve_interrupted:
  assumes s: "simple_serve G X n env dfile es ds tr = ((x, tr'), s)" and i: "interrupted es" and ds: "\<And>y tr. y \<noteq> Serving \<Longrightarrow> fst (ds (y, tr)) \<noteq> Serving"
  shows "x \<noteq> Serving"
proof (cases "start_MakeNfs G env dfile")
  case (Inl e)
  then show ?thesis using s ds [of "Panicked _"] by (cases e) (auto simp: simple_serve_def dest: arg_cong [where f = fst])
next
  case (Inr sv)
  let ?regs = "MOUNT_PROGRAM_MOUNT_V3_regs X n (simple_mount_handler G) @ NFS_PROGRAM_NFS_V3_regs X n (simple_handler G)"
  obtain o1 sv' tr1 where a: "accept_loop (simple_work ?regs) False es (Waiting False) sv tr = (o1, sv', tr1)" by (metis prod_cases3)
  have "(x, tr') = (if o1 \<noteq> Returned then (o1, tr1) else ds (Returned, tr1))" using s Inr a by (simp add: simple_serve_def Let_def)
  then show ?thesis using accept_loop_interrupted [OF a i] ds [of Returned tr1] by (cases "o1 = Returned") (auto dest: arg_cong [where f = fst])
qed

lemmas mains = pmap_def simple_pmap_def simple_defer_def simple_must_def unsets_skip unsets_plain Let_def

lemma nfsd_main_unsets:
  assumes "nfsd_main G X n fuel env fl es = ((x, tr), s)" and x: "ended x"
  shows "unsets tr"
  using assms unfolding nfsd_main_def
  by (auto simp: mains dest!: nfsd_serve_ended [OF _ x] split: if_splits option.splits)

lemma simple_main_unsets:
  assumes "simple_main G X n env cpu dfile es = ((x, tr), s)" and x: "ended x"
  shows "unsets tr"
  using assms unfolding simple_main_def
  by (auto simp: mains dest!: simple_serve_ended [OF _ x] split: if_splits option.splits sum.splits)

lemma nfsd_main_interrupted:
  assumes "nfsd_main G X n fuel env fl es = ((x, tr), s)" and i: "interrupted es"
  shows "x \<noteq> Serving"
  using assms(1) unfolding nfsd_main_def
  by (auto simp: pmap_def Let_def dest: nfsd_serve_interrupted [OF _ i] split: if_splits option.splits)

lemma simple_main_interrupted:
  assumes "simple_main G X n env cpu dfile es = ((x, tr), s)" and i: "interrupted es"
  shows "x \<noteq> Serving"
  using assms(1) unfolding simple_main_def
  by (auto simp: mains dest!: simple_serve_interrupted [OF _ i] split: if_splits option.splits sum.splits)

section \<open>Properties\<close>

text \<open>C25: the servers clean up. However the port mapper, the operating system and the file system answer and whatever happens while it serves, if
  the \<^verbatim>\<open>main\<close> of either server program returns or panics, then after every mapping that it has set at the port mapper it has tried to unset
  that mapping.\<close>

theorem servers_unset_mappings:
  "(ended (fst (fst (nfsd_main G X n fuel env fl events))) \<longrightarrow> unsets (snd (fst (nfsd_main G X n fuel env fl events)))) \<and>
   (ended (fst (fst (simple_main G' X n env' cpu dfile events'))) \<longrightarrow> unsets (snd (fst (simple_main G' X n env' cpu dfile events'))))"
proof -
  obtain x tr s where m: "nfsd_main G X n fuel env fl events = ((x, tr), s)" by (metis prod.collapse)
  obtain y tr' s' where m': "simple_main G' X n env' cpu dfile events' = ((y, tr'), s')" by (metis prod.collapse)
  show ?thesis using nfsd_main_unsets [OF m] simple_main_unsets [OF m'] by (simp add: m m')
qed

text \<open>A port mapper that agrees to everything, with and without a disk.\<close>

definition ex_env :: "'d \<Rightarrow> bool \<Rightarrow> 'd mainenv" where
  "ex_env d ok = \<lparr>env_Create = True, env_Listen = Some 7, env_Dial = (\<lambda>_. True), env_Call = (\<lambda>_ _ _. Some True),
     env_NewMemDisk = (\<lambda>_. d), env_NewFileDisk = (\<lambda>_ _. if ok then Some d else None)\<rparr>"

definition ex_flags :: nfsd_flags where
  "ex_flags = \<lparr>fl_cpuprofile = True, fl_unstable = True, fl_size = 400, fl_disk = ''x'', fl_stats = False\<rparr>"

theorem servers_unset_mappings_witness:
  "\<forall>(G :: (nat, nat, nat, nat, nat Disk) golib) (G' :: (nat, nat, nat, nat, nat) golib) (X :: nat xdrlib).
     Pmap NFS_PROGRAM NFS_V3 7 True None \<in> set (snd (fst (nfsd_main G X 0 0 (ex_env 0 False) ex_flags []))) \<and>
     unsets (snd (fst (nfsd_main G X 0 0 (ex_env 0 False) ex_flags []))) \<and> unsets (snd (fst (simple_main G' X 0 (ex_env 0 False) True ''x'' [])))"
proof (intro allI)
  fix G :: "(nat, nat, nat, nat, nat Disk) golib" and G' :: "(nat, nat, nat, nat, nat) golib" and X :: "nat xdrlib"
  have m: "fst (fst (nfsd_main G X 0 0 (ex_env 0 False) ex_flags [])) = Panicked ''could not create disk''"
      "Pmap NFS_PROGRAM NFS_V3 7 True None \<in> set (snd (fst (nfsd_main G X 0 0 (ex_env 0 False) ex_flags [])))"
    by (simp_all add: nfsd_main_def nfsd_serve_def nfsd_disk_def ex_env_def ex_flags_def pmap_def pmap_set_unset_def)
  have s: "fst (fst (simple_main G' X 0 (ex_env 0 False) True ''x'' [])) = Panicked ''could not create file disk''"
    by (simp add: simple_main_def simple_serve_def start_MakeNfs_def ex_env_def simple_pmap_def simple_pmap_set_unset_def simple_must_def simple_defer_def)
  show "Pmap NFS_PROGRAM NFS_V3 7 True None \<in> set (snd (fst (nfsd_main G X 0 0 (ex_env 0 False) ex_flags []))) \<and>
     unsets (snd (fst (nfsd_main G X 0 0 (ex_env 0 False) ex_flags []))) \<and> unsets (snd (fst (simple_main G' X 0 (ex_env 0 False) True ''x'' [])))"
    using servers_unset_mappings [of G X 0 0 "ex_env 0 False" ex_flags "[]" G' "ex_env 0 False" True "''x''" "[]"] m s by simp
qed

text \<open>An interrupt stops the servers: when an interrupt has arrived, the goroutine that waits for it has closed the listener and \<^verbatim>\<open>Accept\<close> has
  returned after that, neither server program is still serving, whatever came before, in between and after.\<close>

theorem interrupt_stops_servers:
  assumes "interrupted events" and "interrupted events'"
  shows "fst (fst (nfsd_main G X n fuel env fl events)) \<noteq> Serving \<and> fst (fst (simple_main G' X n env' cpu dfile events')) \<noteq> Serving"
proof -
  obtain x tr s where m: "nfsd_main G X n fuel env fl events = ((x, tr), s)" by (metis prod.collapse)
  obtain y tr' s' where m': "simple_main G' X n env' cpu dfile events' = ((y, tr'), s')" by (metis prod.collapse)
  show ?thesis using nfsd_main_interrupted [OF m assms(1)] simple_main_interrupted [OF m' assms(2)] by (simp add: m m')
qed

text \<open>A connection that arrives after the interrupt and before the listener is closed is accepted.\<close>

lemma accepts_before_close:
  "accept_loop work False [Interrupt, Accept True, CloserRuns, Accept True, CloserRuns, Accept True] (Waiting False) s [] =
     (Returned, s, [Accepted, Accepted])"
  by (simp add: listening_def)

end
