(* ===== verification/Clnt.thy ===== *)
theory Clnt
  imports NfsSpec
begin

text \<open>
  \<^verbatim>\<open>nfs/nfs_clnt.go\<close>: the client that calls the procedures of a server in the same process. Each operation builds
  the arguments of a procedure and calls it; \<^verbatim>\<open>Parallel\<close>, which runs clients in goroutines, is in \<open>Bench\<close>.
\<close>

record ('log, 'alc, 'lm, 'd) NfsClient =
  srv :: "('log, 'alc, 'lm, 'd) Nfs"

definition clnt_call ::
    "(('log, 'alc, 'lm, 'd) Nfs \<Rightarrow> ('r \<times> ('log, 'alc, 'lm, 'd) Nfs) res) \<Rightarrow> ('log, 'alc, 'lm, 'd) NfsClient \<Rightarrow>
     ('r \<times> ('log, 'alc, 'lm, 'd) NfsClient) res" where
  "clnt_call f clnt = bnd (f (srv clnt)) (\<lambda>(reply, s). Inr (reply, clnt\<lparr>srv := s\<rparr>))"

definition MkNfsClient ::
    "('log, 'op, 'alc, 'lm, 'd) golib \<Rightarrow> (u64 \<Rightarrow> 'd) \<Rightarrow> u64 \<Rightarrow> ('log, 'alc, 'lm, 'd) NfsClient res" where
  "MkNfsClient G NewMemDisk sz = bnd (MakeNfs G (NewMemDisk sz)) (\<lambda>s. Inr \<lparr>srv = s\<rparr>)"

definition clnt_Shutdown ::
    "('log, 'op, 'alc, 'lm, 'd) golib \<Rightarrow> nat \<Rightarrow> ('log, 'alc, 'lm, 'd) NfsClient \<Rightarrow> ('log, 'alc, 'lm, 'd) NfsClient res" where
  "clnt_Shutdown G fuel clnt = bnd (ShutdownNfs G fuel (srv clnt)) (\<lambda>s. Inr (clnt\<lparr>srv := s\<rparr>))"

definition clnt_Crash ::
    "('log, 'op, 'alc, 'lm, 'd) golib \<Rightarrow> nat \<Rightarrow> ('log, 'alc, 'lm, 'd) NfsClient \<Rightarrow> ('log, 'alc, 'lm, 'd) NfsClient res" where
  "clnt_Crash G fuel clnt = bnd (Nfs_Crash G fuel (srv clnt)) (\<lambda>s. Inr (clnt\<lparr>srv := s\<rparr>))"

definition CreateOp ::
    "('log, 'op, 'alc, 'lm, 'd) golib \<Rightarrow> nat \<Rightarrow> Nfs_fh3 \<Rightarrow> byte list \<Rightarrow> ('log, 'alc, 'lm, 'd) NfsClient \<Rightarrow>
     (CREATE3res \<times> ('log, 'alc, 'lm, 'd) NfsClient) res" where
  "CreateOp G fuel fh name =
     (let whr = \<lparr>Diropargs3_Dir = fh, Diropargs3_Name = name\<rparr>;
          how = zero_Createhow3;
          args = \<lparr>CREATE3args_Where = whr, CREATE3args_How = how\<rparr>
      in clnt_call (NFSPROC3_CREATE G fuel args))"

definition LookupOp ::
    "('log, 'op, 'alc, 'lm, 'd) golib \<Rightarrow> nat \<Rightarrow> Nfs_fh3 \<Rightarrow> byte list \<Rightarrow> ('log, 'alc, 'lm, 'd) NfsClient \<Rightarrow>
     (LOOKUP3res \<times> ('log, 'alc, 'lm, 'd) NfsClient) res" where
  "LookupOp G fuel fh name =
     (let what = \<lparr>Diropargs3_Dir = fh, Diropargs3_Name = name\<rparr>;
          args = \<lparr>LOOKUP3args_What = what\<rparr>
      in clnt_call (NFSPROC3_LOOKUP G fuel args))"

definition GetattrOp ::
    "('log, 'op, 'alc, 'lm, 'd) golib \<Rightarrow> Nfs_fh3 \<Rightarrow> ('log, 'alc, 'lm, 'd) NfsClient \<Rightarrow>
     (GETATTR3res \<times> ('log, 'alc, 'lm, 'd) NfsClient) res" where
  "GetattrOp G fh = (let args = \<lparr>GETATTR3args_Object = fh\<rparr> in clnt_call (NFSPROC3_GETATTR G args))"

definition WriteOp ::
    "('log, 'op, 'alc, 'lm, 'd) golib \<Rightarrow> nat \<Rightarrow> Nfs_fh3 \<Rightarrow> u64 \<Rightarrow> byte list \<Rightarrow> Stable_how \<Rightarrow> ('log, 'alc, 'lm, 'd) NfsClient \<Rightarrow>
     (WRITE3res \<times> ('log, 'alc, 'lm, 'd) NfsClient) res" where
  "WriteOp G fuel fh off data how =
     (let args = \<lparr>WRITE3args_File = fh, WRITE3args_Offset = off, WRITE3args_Count = of_nat (length data),
                   WRITE3args_Stable = how, WRITE3args_Data = data\<rparr>
      in clnt_call (NFSPROC3_WRITE G fuel args))"

definition ReadOp ::
    "('log, 'op, 'alc, 'lm, 'd) golib \<Rightarrow> Nfs_fh3 \<Rightarrow> u64 \<Rightarrow> u64 \<Rightarrow> ('log, 'alc, 'lm, 'd) NfsClient \<Rightarrow>
     (READ3res \<times> ('log, 'alc, 'lm, 'd) NfsClient) res" where
  "ReadOp G fh off sz =
     (let args = \<lparr>READ3args_File = fh, READ3args_Offset = off, READ3args_Count = ucast sz\<rparr>
      in clnt_call (NFSPROC3_READ G args))"

definition RemoveOp ::
    "('log, 'op, 'alc, 'lm, 'd) golib \<Rightarrow> nat \<Rightarrow> Nfs_fh3 \<Rightarrow> byte list \<Rightarrow> ('log, 'alc, 'lm, 'd) NfsClient \<Rightarrow>
     (REMOVE3res \<times> ('log, 'alc, 'lm, 'd) NfsClient) res" where
  "RemoveOp G fuel dir name =
     (let what = \<lparr>Diropargs3_Dir = dir, Diropargs3_Name = name\<rparr>;
          args = \<lparr>REMOVE3args_Object = what\<rparr>
      in clnt_call (NFSPROC3_REMOVE G fuel args))"

definition MkDirOp ::
    "('log, 'op, 'alc, 'lm, 'd) golib \<Rightarrow> nat \<Rightarrow> Nfs_fh3 \<Rightarrow> byte list \<Rightarrow> ('log, 'alc, 'lm, 'd) NfsClient \<Rightarrow>
     (MKDIR3res \<times> ('log, 'alc, 'lm, 'd) NfsClient) res" where
  "MkDirOp G fuel dir name =
     (let whr = \<lparr>Diropargs3_Dir = dir, Diropargs3_Name = name\<rparr>;
          sattr = zero_Sattr3;
          args = \<lparr>MKDIR3args_Where = whr, MKDIR3args_Attributes = sattr\<rparr>
      in clnt_call (NFSPROC3_MKDIR G fuel args))"

definition RmDirOp ::
    "('log, 'op, 'alc, 'lm, 'd) golib \<Rightarrow> nat \<Rightarrow> Nfs_fh3 \<Rightarrow> byte list \<Rightarrow> ('log, 'alc, 'lm, 'd) NfsClient \<Rightarrow>
     (RMDIR3res \<times> ('log, 'alc, 'lm, 'd) NfsClient) res" where
  "RmDirOp G fuel dir name =
     (let whr = \<lparr>Diropargs3_Dir = dir, Diropargs3_Name = name\<rparr>;
          args = \<lparr>RMDIR3args_Object = whr\<rparr>
      in clnt_call (NFSPROC3_RMDIR G fuel args))"

definition SymLinkOp ::
    "('log, 'op, 'alc, 'lm, 'd) golib \<Rightarrow> nat \<Rightarrow> Nfs_fh3 \<Rightarrow> byte list \<Rightarrow> Nfspath3 \<Rightarrow> ('log, 'alc, 'lm, 'd) NfsClient \<Rightarrow>
     (SYMLINK3res \<times> ('log, 'alc, 'lm, 'd) NfsClient) res" where
  "SymLinkOp G fuel dir name path =
     (let whr = \<lparr>Diropargs3_Dir = dir, Diropargs3_Name = name\<rparr>;
          sattr = zero_Sattr3;
          symlink = \<lparr>Symlinkdata3_Symlink_attributes = sattr, Symlinkdata3_Symlink_data = path\<rparr>;
          args = \<lparr>SYMLINK3args_Where = whr, SYMLINK3args_Symlink = symlink\<rparr>
      in clnt_call (NFSPROC3_SYMLINK G fuel args))"

definition ReadLinkOp ::
    "('log, 'op, 'alc, 'lm, 'd) golib \<Rightarrow> Nfs_fh3 \<Rightarrow> ('log, 'alc, 'lm, 'd) NfsClient \<Rightarrow>
     (READLINK3res \<times> ('log, 'alc, 'lm, 'd) NfsClient) res" where
  "ReadLinkOp G fh = (let args = \<lparr>READLINK3args_Symlink = fh\<rparr> in clnt_call (NFSPROC3_READLINK G args))"

definition CommitOp ::
    "('log, 'op, 'alc, 'lm, 'd) golib \<Rightarrow> Nfs_fh3 \<Rightarrow> u64 \<Rightarrow> ('log, 'alc, 'lm, 'd) NfsClient \<Rightarrow>
     (COMMIT3res \<times> ('log, 'alc, 'lm, 'd) NfsClient) res" where
  "CommitOp G fh cnt1 =
     (let args = \<lparr>COMMIT3args_File = fh, COMMIT3args_Offset = 0, COMMIT3args_Count = ucast cnt1\<rparr>
      in clnt_call (NFSPROC3_COMMIT G args))"

definition RenameOp ::
    "('log, 'op, 'alc, 'lm, 'd) golib \<Rightarrow> nat \<Rightarrow> Nfs_fh3 \<Rightarrow> byte list \<Rightarrow> Nfs_fh3 \<Rightarrow> byte list \<Rightarrow> ('log, 'alc, 'lm, 'd) NfsClient \<Rightarrow>
     (Nfsstat3 \<times> ('log, 'alc, 'lm, 'd) NfsClient) res" where
  "RenameOp G fuel fhfrom nfrom fhto nto clnt =
     (let args = \<lparr>RENAME3args_From = \<lparr>Diropargs3_Dir = fhfrom, Diropargs3_Name = nfrom\<rparr>,
                   RENAME3args_To = \<lparr>Diropargs3_Dir = fhto, Diropargs3_Name = nto\<rparr>\<rparr>
      in bnd (clnt_call (NFSPROC3_RENAME G fuel args) clnt) (\<lambda>(reply, clnt). Inr (RENAME3res_Status reply, clnt)))"

definition SetattrOp ::
    "('log, 'op, 'alc, 'lm, 'd) golib \<Rightarrow> nat \<Rightarrow> Nfs_fh3 \<Rightarrow> u64 \<Rightarrow> ('log, 'alc, 'lm, 'd) NfsClient \<Rightarrow>
     (SETATTR3res \<times> ('log, 'alc, 'lm, 'd) NfsClient) res" where
  "SetattrOp G fuel fh sz =
     (let size = \<lparr>Set_size3_Set_it = True, Set_size3_Size = sz\<rparr>;
          attr = zero_Sattr3\<lparr>Sattr3_Size := size\<rparr>;
          args = \<lparr>SETATTR3args_Object = fh, SETATTR3args_New_attributes = attr, SETATTR3args_Guard = zero_Sattrguard3\<rparr>
      in clnt_call (NFSPROC3_SETATTR G fuel args))"

definition ReadDirPlusOp ::
    "('log, 'op, 'alc, 'lm, 'd) golib \<Rightarrow> Nfs_fh3 \<Rightarrow> u64 \<Rightarrow> ('log, 'alc, 'lm, 'd) NfsClient \<Rightarrow>
     (READDIRPLUS3res \<times> ('log, 'alc, 'lm, 'd) NfsClient) res" where
  "ReadDirPlusOp G dir cnt1 =
     (let args = zero_READDIRPLUS3args\<lparr>READDIRPLUS3args_Dir := dir, READDIRPLUS3args_Dircount := 100,
                   READDIRPLUS3args_Maxcount := ucast cnt1\<rparr>
      in clnt_call (NFSPROC3_READDIRPLUS G args))"

section \<open>An operation of the client is a call of the server\<close>

text \<open>An operation that returns, whatever it replies.\<close>

inductive clnt_step ::
    "('log, 'op, 'alc, 'lm, 'd) golib \<Rightarrow> nat \<Rightarrow> ('log, 'alc, 'lm, 'd) NfsClient \<Rightarrow> ('log, 'alc, 'lm, 'd) NfsClient \<Rightarrow> bool"
  for G fuel where
  "CreateOp G fuel fh name c = Inr (r1, c') \<Longrightarrow> clnt_step G fuel c c'"
| "LookupOp G fuel fh name c = Inr (r2, c') \<Longrightarrow> clnt_step G fuel c c'"
| "GetattrOp G fh c = Inr (r3, c') \<Longrightarrow> clnt_step G fuel c c'"
| "WriteOp G fuel fh off data how c = Inr (r4, c') \<Longrightarrow> clnt_step G fuel c c'"
| "ReadOp G fh off sz c = Inr (r5, c') \<Longrightarrow> clnt_step G fuel c c'"
| "RemoveOp G fuel fh name c = Inr (r6, c') \<Longrightarrow> clnt_step G fuel c c'"
| "MkDirOp G fuel fh name c = Inr (r7, c') \<Longrightarrow> clnt_step G fuel c c'"
| "RmDirOp G fuel fh name c = Inr (r8, c') \<Longrightarrow> clnt_step G fuel c c'"
| "SymLinkOp G fuel fh name path c = Inr (r9, c') \<Longrightarrow> clnt_step G fuel c c'"
| "ReadLinkOp G fh c = Inr (r10, c') \<Longrightarrow> clnt_step G fuel c c'"
| "CommitOp G fh sz c = Inr (r11, c') \<Longrightarrow> clnt_step G fuel c c'"
| "RenameOp G fuel fh name fh' name' c = Inr (r12, c') \<Longrightarrow> clnt_step G fuel c c'"
| "SetattrOp G fuel fh sz c = Inr (r13, c') \<Longrightarrow> clnt_step G fuel c c'"
| "ReadDirPlusOp G fh sz c = Inr (r14, c') \<Longrightarrow> clnt_step G fuel c c'"

lemmas clnt_ops = CreateOp_def LookupOp_def GetattrOp_def WriteOp_def ReadOp_def RemoveOp_def MkDirOp_def RmDirOp_def
  SymLinkOp_def ReadLinkOp_def CommitOp_def RenameOp_def SetattrOp_def ReadDirPlusOp_def

lemma clnt_call_serve:
  assumes "clnt_call f c = Inr (r, c')" and S: "S a = with_status st (f (srv c))"
  shows "\<exists>a s. S a = Inr (s, srv c')"
proof -
  have "f (srv c) = Inr (r, srv c')" using assms(1) by (auto simp: clnt_call_def bnd_eq_Inr)
  then have "S a = Inr (st r, srv c')" by (simp add: S with_status_def)
  then show ?thesis by blast
qed

lemma clnt_step_serve:
  assumes "clnt_step G fuel c c'"
  shows "\<exists>a s. serve G fuel a (srv c) = Inr (s, srv c')"
  using assms
  by (cases rule: clnt_step.cases; simp only: clnt_ops Let_def; (elim bnd_InrE)?)
     ((clarsimp, erule clnt_call_serve [where S = "\<lambda>a. serve G fuel a (srv c)"], rule serve.simps)
      | (erule clnt_call_serve [where S = "\<lambda>a. serve G fuel a (srv c)"], rule serve.simps))+

lemma clnt_keeps_idle:
  assumes "gojournal G on used arange held" "clnt_step G fuel c c'" "fs_idle held (fsstate (srv c))"
  shows "fs_idle held (fsstate (srv c'))"
proof -
  obtain a s where "serve G fuel a (srv c) = Inr (s, srv c')" using clnt_step_serve [OF assms(2)] by blast
  then show ?thesis using retD [OF serve_outcome] gojournal.outcome_idle [OF assms(1) _ assms(3)] by fastforce
qed

end
