(* ===== verification/Bench.thy ===== *)
theory Bench
  imports Clnt
begin

text \<open>
  The programs that drive the client in the same process: \<^verbatim>\<open>Parallel\<close> of \<^verbatim>\<open>nfs/nfs_clnt.go\<close> and the benchmarks \<^verbatim>\<open>cmd/smallfile\<close>,
  \<^verbatim>\<open>cmd/lookup\<close> and \<^verbatim>\<open>cmd/largefile\<close>. A goroutine is a tree of the operations it does on the client, with the rest of the
  program as a function of the reply; goroutines are interleaved between operations, in an order that is an argument. The
  clock is an argument too: how often a loop finds that its time is not over yet. What is printed is the result.
\<close>

section \<open>Programs on the client\<close>

datatype clnt_op =
    CreateC Nfs_fh3 "byte list"
  | LookupC Nfs_fh3 "byte list"
  | GetattrC Nfs_fh3
  | WriteC Nfs_fh3 u64 "byte list" Stable_how
  | CommitC Nfs_fh3 u64
  | RemoveC Nfs_fh3 "byte list"
  | MkDirC Nfs_fh3 "byte list"

datatype clnt_reply =
    CreateR CREATE3res
  | LookupR LOOKUP3res
  | GetattrR GETATTR3res
  | WriteR WRITE3res
  | CommitR COMMIT3res
  | RemoveR REMOVE3res
  | MkDirR MKDIR3res

definition reply_as :: "('r \<Rightarrow> clnt_reply) \<Rightarrow> ('r \<times> 'c) res \<Rightarrow> (clnt_reply \<times> 'c) res" where
  "reply_as R x = bnd x (\<lambda>(r, c). Inr (R r, c))"

fun perform ::
    "('log, 'op, 'alc, 'lm, 'd) golib \<Rightarrow> nat \<Rightarrow> clnt_op \<Rightarrow> ('log, 'alc, 'lm, 'd) NfsClient \<Rightarrow>
     (clnt_reply \<times> ('log, 'alc, 'lm, 'd) NfsClient) res" where
  "perform G fuel (CreateC fh name) c = reply_as CreateR (CreateOp G fuel fh name c)"
| "perform G fuel (LookupC fh name) c = reply_as LookupR (LookupOp G fuel fh name c)"
| "perform G fuel (GetattrC fh) c = reply_as GetattrR (GetattrOp G fh c)"
| "perform G fuel (WriteC fh off data how) c = reply_as WriteR (WriteOp G fuel fh off data how c)"
| "perform G fuel (CommitC fh n) c = reply_as CommitR (CommitOp G fh n c)"
| "perform G fuel (RemoveC fh name) c = reply_as RemoveR (RemoveOp G fuel fh name c)"
| "perform G fuel (MkDirC fh name) c = reply_as MkDirR (MkDirOp G fuel fh name c)"

datatype prog = Return nat | Panics string | Call clnt_op "clnt_reply \<Rightarrow> prog"

text \<open>A program on its own.\<close>

primrec run_prog ::
    "('log, 'op, 'alc, 'lm, 'd) golib \<Rightarrow> nat \<Rightarrow> prog \<Rightarrow> ('log, 'alc, 'lm, 'd) NfsClient \<Rightarrow>
     (nat \<times> ('log, 'alc, 'lm, 'd) NfsClient) res" where
  "run_prog G fuel (Return n) = (\<lambda>c. Inr (n, c))"
| "run_prog G fuel (Panics m) = (\<lambda>c. Inl (Panic m))"
| "run_prog G fuel (Call a k) = (\<lambda>c. bnd (perform G fuel a c) (\<lambda>(r, c). run_prog G fuel (k r) c))"

text \<open>The operations whose reply a program looks at; an operation replies with a reply of its own kind.\<close>

definition lookup_then :: "Nfs_fh3 \<Rightarrow> byte list \<Rightarrow> (LOOKUP3res \<Rightarrow> prog) \<Rightarrow> prog" where
  "lookup_then fh name k = Call (LookupC fh name) (\<lambda>r. case r of LookupR reply \<Rightarrow> k reply | _ \<Rightarrow> Panics ''reply'')"

definition getattr_then :: "Nfs_fh3 \<Rightarrow> (GETATTR3res \<Rightarrow> prog) \<Rightarrow> prog" where
  "getattr_then fh k = Call (GetattrC fh) (\<lambda>r. case r of GetattrR attr \<Rightarrow> k attr | _ \<Rightarrow> Panics ''reply'')"

definition remove_then :: "Nfs_fh3 \<Rightarrow> byte list \<Rightarrow> (REMOVE3res \<Rightarrow> prog) \<Rightarrow> prog" where
  "remove_then fh name k = Call (RemoveC fh name) (\<lambda>r. case r of RemoveR res \<Rightarrow> k res | _ \<Rightarrow> Panics ''reply'')"

section \<open>nfs/nfs_clnt.go: Parallel\<close>

text \<open>\<^verbatim>\<open>strconv.Itoa\<close> of a number that is not negative.\<close>

fun Itoa :: "nat \<Rightarrow> byte list" where
  "Itoa n = (if n < 10 then [of_nat (48 + n)] else Itoa (n div 10) @ [of_nat (48 + n mod 10)])"

declare Itoa.simps [simp del]

definition step_thread ::
    "('log, 'op, 'alc, 'lm, 'd) golib \<Rightarrow> nat \<Rightarrow> prog \<Rightarrow> ('log, 'alc, 'lm, 'd) NfsClient \<Rightarrow>
     (prog \<times> ('log, 'alc, 'lm, 'd) NfsClient) res" where
  "step_thread G fuel t c =
     (case t of
        Return n \<Rightarrow> Inr (t, c)
      | Panics m \<Rightarrow> Inl (Panic m)
      | Call a k \<Rightarrow> bnd (perform G fuel a c) (\<lambda>(r, c). Inr (k r, c)))"

fun run_threads ::
    "('log, 'op, 'alc, 'lm, 'd) golib \<Rightarrow> nat \<Rightarrow> nat list \<Rightarrow> prog list \<Rightarrow> ('log, 'alc, 'lm, 'd) NfsClient \<Rightarrow>
     (prog list \<times> ('log, 'alc, 'lm, 'd) NfsClient) res" where
  "run_threads G fuel [] ts c = Inr (ts, c)"
| "run_threads G fuel (i # sched) ts c =
     (if i < length ts
      then bnd (step_thread G fuel (ts ! i) c) (\<lambda>(t, c). run_threads G fuel sched (ts[i := t]) c)
      else run_threads G fuel sched ts c)"

text \<open>The sum of what the goroutines send, once all have.\<close>

fun thread_sum :: "prog list \<Rightarrow> nat option" where
  "thread_sum [] = Some 0"
| "thread_sum (t # ts) = (case t of Return c \<Rightarrow> map_option (\<lambda>n. c + n) (thread_sum ts) | _ \<Rightarrow> None)"

text \<open>The \<open>i\<close>-th goroutine: it works in a directory of its own. \<open>f i\<close> is the function that it calls, with the clock as the \<open>i\<close>-th
  goroutine reads it.\<close>

definition Parallel_thread :: "Nfs_fh3 \<Rightarrow> (nat \<Rightarrow> Nfs_fh3 \<Rightarrow> prog) \<Rightarrow> nat \<Rightarrow> prog" where
  "Parallel_thread root f i =
     (let name = 100 # Itoa i
      in Call (MkDirC root name) (\<lambda>_.
         lookup_then root name (\<lambda>reply.
         if LOOKUP3res_Status reply \<noteq> NFS3_OK then Panics ''Parallel''
         else let dirfh = LOOKUP3resok_Object (LOOKUP3res_Resok reply)
              in f i dirfh)))"

text \<open>\<^const>\<open>NoFuel\<close> if the schedule ends before the goroutines do.\<close>

definition Parallel ::
    "('log, 'op, 'alc, 'lm, 'd) golib \<Rightarrow> nat \<Rightarrow> (u64 \<Rightarrow> 'd) \<Rightarrow> nat list \<Rightarrow> nat \<Rightarrow> u64 \<Rightarrow> (nat \<Rightarrow> Nfs_fh3 \<Rightarrow> prog) \<Rightarrow>
     (nat \<times> ('log, 'alc, 'lm, 'd) NfsClient) res" where
  "Parallel G fuel NewMemDisk sched nthr disksz f =
     bnd (MkRootFh3 G) (\<lambda>root.
     bnd (MkNfsClient G NewMemDisk disksz) (\<lambda>clnt.
     bnd (run_threads G fuel sched (map (Parallel_thread root f) [0..<nthr]) clnt) (\<lambda>(ts, clnt).
     case thread_sum ts of
       None \<Rightarrow> Inl NoFuel
     | Some n \<Rightarrow> bnd (clnt_Shutdown G fuel clnt) (\<lambda>clnt. Inr (n, clnt)))))"

section \<open>cmd/smallfile\<close>

definition BENCHDISKSZ :: u64 where
  "BENCHDISKSZ = 100 * 1000"

text \<open>A status of the replies that end the program is checked; \<open>k\<close> is what comes after.\<close>

definition SmallFile :: "Nfs_fh3 \<Rightarrow> byte list \<Rightarrow> byte list \<Rightarrow> prog \<Rightarrow> prog" where
  "SmallFile dirfh name data k =
     lookup_then dirfh name (\<lambda>reply.
     if LOOKUP3res_Status reply = NFS3_OK then Panics ''SmallFile''
     else
     Call (CreateC dirfh name) (\<lambda>_.
     lookup_then dirfh name (\<lambda>reply.
     if LOOKUP3res_Status reply \<noteq> NFS3_OK then Panics ''SmallFile''
     else
     let object = LOOKUP3resok_Object (LOOKUP3res_Resok reply)
     in
     getattr_then object (\<lambda>attr.
     if GETATTR3res_Status attr \<noteq> NFS3_OK then Panics ''SmallFile''
     else
     Call (WriteC object 0 data FILE_SYNC) (\<lambda>_.
     getattr_then object (\<lambda>attr.
     if GETATTR3res_Status attr \<noteq> NFS3_OK then Panics ''SmallFile''
     else
     remove_then dirfh name (\<lambda>res.
     if REMOVE3res_Status res \<noteq> NFS3_OK then Panics ''SmallFile'' else k)))))))"

definition mkdata :: "u64 \<Rightarrow> byte list" where
  "mkdata sz = map (\<lambda>i. of_nat (i mod 128)) [0..<unat sz]"

text \<open>The loop of the function that \<^verbatim>\<open>PSmallFile\<close> passes to \<^verbatim>\<open>Parallel\<close>, of which the first reading of the clock that ends it is the
  one after \<open>k\<close> others.\<close>

fun smallfile_loop :: "Nfs_fh3 \<Rightarrow> byte list \<Rightarrow> nat \<Rightarrow> nat \<Rightarrow> prog" where
  "smallfile_loop dirfh data 0 i = SmallFile dirfh (120 # Itoa i) data (Return (i + 1))"
| "smallfile_loop dirfh data (Suc k) i = SmallFile dirfh (120 # Itoa i) data (smallfile_loop dirfh data k (i + 1))"

text \<open>The rounds of a benchmark and the numbers it prints.\<close>

fun rounds :: "(nat \<Rightarrow> nat res) \<Rightarrow> nat list \<Rightarrow> nat list res" where
  "rounds f [] = Inr []"
| "rounds f (i # is) = bnd (f i) (\<lambda>n. bnd (rounds f is) (\<lambda>ns. Inr (n # ns)))"

definition PSmallFile ::
    "('log, 'op, 'alc, 'lm, 'd) golib \<Rightarrow> nat \<Rightarrow> (u64 \<Rightarrow> 'd) \<Rightarrow> (nat \<Rightarrow> nat list) \<Rightarrow> (nat \<Rightarrow> nat \<Rightarrow> nat) \<Rightarrow> nat list res" where
  "PSmallFile G fuel NewMemDisk sched clock =
     rounds (\<lambda>i. bnd (Parallel G fuel NewMemDisk (sched i) i BENCHDISKSZ
                  (\<lambda>t dirfh. let data = mkdata 100 in smallfile_loop dirfh data (clock i t) 0)) (\<lambda>(res, clnt). Inr res))
       [1..<21]"

section \<open>cmd/lookup\<close>

definition Lookup :: "Nfs_fh3 \<Rightarrow> byte list \<Rightarrow> prog \<Rightarrow> prog" where
  "Lookup dirfh name k =
     lookup_then dirfh name (\<lambda>reply.
     if LOOKUP3res_Status reply \<noteq> NFS3_OK then Panics ''Lookup''
     else
     let fh = LOOKUP3resok_Object (LOOKUP3res_Resok reply)
     in getattr_then fh (\<lambda>attr.
        if GETATTR3res_Status attr \<noteq> NFS3_OK then Panics ''Lookup'' else k))"

fun lookup_loop :: "Nfs_fh3 \<Rightarrow> byte list \<Rightarrow> nat \<Rightarrow> nat \<Rightarrow> prog" where
  "lookup_loop dirfh name 0 i = Lookup dirfh name (Return (i + 1))"
| "lookup_loop dirfh name (Suc k) i = Lookup dirfh name (lookup_loop dirfh name k (i + 1))"

definition PLookup ::
    "('log, 'op, 'alc, 'lm, 'd) golib \<Rightarrow> nat \<Rightarrow> (u64 \<Rightarrow> 'd) \<Rightarrow> (nat \<Rightarrow> nat list) \<Rightarrow> (nat \<Rightarrow> nat \<Rightarrow> nat) \<Rightarrow> nat list res" where
  "PLookup G fuel NewMemDisk sched clock =
     rounds (\<lambda>i. bnd (Parallel G fuel NewMemDisk (sched i) i BENCHDISKSZ
                  (\<lambda>t dirfh. let name = 120 # Itoa i
                             in Call (CreateC dirfh name) (\<lambda>_. lookup_loop dirfh name (clock i t) 0))) (\<lambda>(res, clnt). Inr res))
       [1..<5]"

section \<open>cmd/largefile\<close>

definition FILESIZE :: u64 where
  "FILESIZE = 50 * 1024 * 1024"

definition WSIZE :: "('log, 'op, 'alc, 'lm, 'd) golib \<Rightarrow> u64" where
  "WSIZE G = BlockSize G"

text \<open>\<^verbatim>\<open>for j := uint64(0); j < n; j++\<close>, with \<open>left\<close> rounds to go.\<close>

fun large_writes :: "Nfs_fh3 \<Rightarrow> u64 \<Rightarrow> byte list \<Rightarrow> nat \<Rightarrow> u64 \<Rightarrow> prog \<Rightarrow> prog" where
  "large_writes fh wsize data 0 j k = k"
| "large_writes fh wsize data (Suc left) j k =
     Call (WriteC fh (j * wsize) data UNSTABLE) (\<lambda>_. large_writes fh wsize data left (j + 1) k)"

definition large_prog :: "Nfs_fh3 \<Rightarrow> u64 \<Rightarrow> u64 \<Rightarrow> prog" where
  "large_prog dir filesize wsize =
     (let data = mkdata wsize;
          name = [108, 97, 114, 103, 101, 102, 105, 108, 101]
      in Call (CreateC dir name) (\<lambda>_.
         lookup_then dir name (\<lambda>reply.
         let fh = LOOKUP3resok_Object (LOOKUP3res_Resok reply);
             n = filesize div wsize
         in large_writes fh wsize data (unat n) 0
           (Call (CommitC fh (n * wsize)) (\<lambda>_.
            getattr_then fh (\<lambda>attr.
            if Fattr3_Size (GETATTR3resok_Obj_attributes (GETATTR3res_Resok attr)) \<noteq> filesize then Panics ''large''
            else Call (RemoveC dir name) (\<lambda>_. Return 0)))))))"

text \<open>The deferred \<^verbatim>\<open>Shutdown\<close> also runs when the program panics, which it does not change.\<close>

definition largeFile ::
    "('log, 'op, 'alc, 'lm, 'd) golib \<Rightarrow> nat \<Rightarrow> (u64 \<Rightarrow> 'd) \<Rightarrow> ('log, 'alc, 'lm, 'd) NfsClient res" where
  "largeFile G fuel NewMemDisk =
     bnd (MkNfsClient G NewMemDisk BENCHDISKSZ) (\<lambda>clnt.
     bnd (MkRootFh3 G) (\<lambda>dir.
     bnd (run_prog G fuel (large_prog dir FILESIZE (WSIZE G)) clnt) (\<lambda>(_, clnt).
     clnt_Shutdown G fuel clnt)))"

end
