(* ===== verification/BenchSpec.thy ===== *)
theory BenchSpec
  imports Bench RemoveSpec CreateSpec AbortSpec ReaddirSpec
begin

text \<open>
  The benchmark programs against the server: whatever the interleaving of the goroutines, the server holds no lock between operations, and the
  sequence of \<^verbatim>\<open>SmallFile\<close> (look up, create, look up, get attributes, write, get attributes, remove) works through all its transactions.
\<close>

section \<open>A directory and a file of it\<close>

text \<open>In the transaction \<open>op\<close>, \<open>r\<close> is a well-formed directory and \<open>ri\<close> a well-formed regular file with one link, which share no block.\<close>

definition dir_file ::
    "('log, 'op, 'alc, 'lm, 'd) golib \<Rightarrow> ('alc \<Rightarrow> u64 set) \<Rightarrow> ('alc \<Rightarrow> u64 set) \<Rightarrow> ('log, 'op, 'alc, 'lm, 'd) FsTxn \<Rightarrow>
     u64 \<Rightarrow> iref \<Rightarrow> dirEnt list \<Rightarrow> u64 \<Rightarrow> iref \<Rightarrow> bool" where
  "dir_file G used arange op inum r ents i ri \<longleftrightarrow>
     dir_ok G used arange op r ents \<and> cached (Fs op) inum r \<and> Nlink (inode_at op r) \<noteq> 0 \<and> i \<noteq> inum \<and> r \<noteq> ri \<and>
     cached (Fs op) i ri \<and> Kind (inode_at op ri) = NF3REG \<and> Nlink (inode_at op ri) = 1 \<and> unat (Size (inode_at op ri)) \<le> MAXBYTES \<and>
     \<not> IsShrinking G (inode_at op ri) \<and> file_inv G used arange (Atxn op) (inode_at op ri) \<and>
     ino_blocks G (Op (Atxn op)) (blks (inode_at op r)) \<inter> ino_blocks G (Op (Atxn op)) (blks (inode_at op ri)) = {}"

definition dir_file_at ::
    "('log, 'op, 'alc, 'lm, 'd) golib \<Rightarrow> ('alc \<Rightarrow> u64 set) \<Rightarrow> ('alc \<Rightarrow> u64 set) \<Rightarrow> ('lm \<Rightarrow> u64 set) \<Rightarrow> ('log, 'alc, 'lm, 'd) FsState \<Rightarrow>
     u64 \<Rightarrow> iref \<Rightarrow> dirEnt list \<Rightarrow> u64 \<Rightarrow> iref \<Rightarrow> bool" where
  "dir_file_at G used arange held st inum r ents i ri \<longleftrightarrow> fs_idle held st \<and> dir_file G used arange (FsTxn_Begin G st) inum r ents i ri"

lemma begin_at [simp]: "inode_at (FsTxn_Begin G st) r = iobj st r" "Fs (FsTxn_Begin G st) = st"
  by (simp_all add: inode_at_def FsTxn_Begin_def)

lemma dir_file_atD:
  assumes "dir_file_at G used arange held st inum r ents i ri"
  shows "dir_at G used arange held st inum r ents" and "file_at G used arange held st i ri"
  using assms by (simp_all add: dir_file_at_def dir_file_def dir_at_def file_at_def)

context gojournal
begin

lemma dir_file_frame:
  assumes d: "dir_file G used arange op inum r ents i ri" and at: "inode_at op' r = inode_at op r" "inode_at op' ri = inode_at op ri"
    and en: "entries (Icache (Fs op')) = entries (Icache (Fs op))"
    and a: "at_Super (Atxn op') = at_Super (Atxn op)" "used (Balloc (Atxn op')) = used (Balloc (Atxn op))"
      "arange (Balloc (Atxn op')) = arange (Balloc (Atxn op))"
    and same: "\<And>x. valid_bnum (Atxn op) x \<Longrightarrow> blk G (Op (Atxn op')) x = blk G (Op (Atxn op)) x"
  shows "dir_file G used arange op' inum r ents i ri"
proof -
  have dk: "dir_ok G used arange op r ents" and inv: "file_inv G used arange (Atxn op) (inode_at op ri)" using d by (simp_all add: dir_file_def)
  have b: "ino_blocks G (Op (Atxn op')) (blks ip) = ino_blocks G (Op (Atxn op)) (blks ip)" if "file_inv G used arange (Atxn op) ip" for ip
    using file_op_frame(1) [OF that same] by (simp add: file_step_def)
  have "dir_ok G used arange op' r ents" by (rule dir_op_frame [OF dk at(1) a same])
  moreover have "file_inv G used arange (Atxn op') (inode_at op ri)" by (rule file_txn_frame [OF inv a same])
  ultimately show ?thesis using d at en b [OF inv] b [of "inode_at op r"] dir_ok_super [OF dk] by (simp add: dir_file_def cached_def)
qed

lemma dir_file_commit:
  assumes idle: "fs_idle held st" and run: "txn_run G (FsTxn_Begin G st) op" and cl: "clean on (Txn st) (Atxn op)"
    and d: "dir_file G used arange op inum r ents i ri" and c: "commitWait G w op = (ok, op')" and ok: "ok \<or> Atxn op = Atxn (FsTxn_Begin G st)"
  shows "dir_file_at G used arange held (Fs op') inum r ents i ri" and "iobj (Fs op') = iobj (Fs op)"
proof -
  have su: "super_wf G (at_Super (Atxn op))" using d by (simp add: dir_file_def file_inv_def)
  note v = commit_view [OF idle run cl su c ok]
  show "iobj (Fs op') = iobj (Fs op)" by (rule v(2))
  have "dir_file G used arange (FsTxn_Begin G (Fs op')) inum r ents i ri"
    by (rule dir_file_frame [OF d]) (use v in \<open>simp_all add: inode_at_def\<close>)
  then show "dir_file_at G used arange held (Fs op') inum r ents i ri" using v(1) by (simp add: dir_file_at_def)
qed

lemma dir_file_locked:
  assumes d: "dir_file_at G used arange held st inum r ents i ri" and o: "only_locked G held st op"
  shows "dir_file G used arange op inum r ents i ri"
  by (rule dir_file_frame [of "FsTxn_Begin G st"]) (use d o only_locked_at [OF o] in \<open>simp_all add: dir_file_at_def only_locked_def\<close>)

lemma same_files_dir_file:
  assumes d: "dir_file_at G used arange held st inum r ents i ri" and s: "same_files G st st'" and i: "fs_idle held st'"
  shows "dir_file_at G used arange held st' inum r ents i ri"
proof -
  have "dir_file G used arange (FsTxn_Begin G st') inum r ents i ri"
    by (rule dir_file_frame [of "FsTxn_Begin G st"]) (use d s in \<open>simp_all add: dir_file_at_def same_files_def\<close>)
  then show ?thesis using i by (simp add: dir_file_at_def)
qed

text \<open>A call that only locks, and commits.\<close>

lemma locked_commitReply:
  assumes d: "dir_file_at G used arange held st inum r ents i ri" and o: "only_locked G held st op"
    and cm: "\<forall>op lg. fst (CommitWait G op True lg)" and c: "commitReply G op = (s, op')"
  shows "s = NFS3_OK" and "dir_file_at G used arange held (Fs op') inum r ents i ri" and "iobj (Fs op') = iobj st"
proof -
  from c obtain ok where w: "commitWait G True op = (ok, op')" and s: "s = (if ok then NFS3_OK else NFS3ERR_SERVERFAULT)"
    by (rule commitReply_wait)
  have ok: "ok" by (rule commits_wait [OF cm w])
  then show "s = NFS3_OK" using s by simp
  have idle: "fs_idle held st" and run: "txn_run G (FsTxn_Begin G st) op" using d o by (simp_all add: dir_file_at_def only_locked_def)
  note dc = dir_file_commit [OF idle run only_locked_clean [OF o] dir_file_locked [OF d o] w disjI1 [OF ok]]
  show "dir_file_at G used arange held (Fs op') inum r ents i ri" by (rule dc(1))
  show "iobj (Fs op') = iobj st" using dc(2) o by (simp add: only_locked_def)
qed

lemma LOOKUP_dir_file:
  assumes d: "dir_file_at G used arange held (fsstate nfs) inum r ents i ri"
    and fh: "MakeFh G fh3 = Inr \<lparr>Ino = inum, fh_Gen = Gen (iobj (fsstate nfs) r)\<rparr>" and l: "dir_locs ents name = Some (i, off)"
    and cm: "\<forall>op lg. fst (CommitWait G op True lg)"
  obtains reply nfs' where
    "NFSPROC3_LOOKUP G (Suc fuel) \<lparr>LOOKUP3args_What = \<lparr>Diropargs3_Dir = fh3, Diropargs3_Name = name\<rparr>\<rparr> nfs = Inr (reply, nfs')"
    and "LOOKUP3res_Status reply = NFS3_OK"
    and "MakeFh G (LOOKUP3resok_Object (LOOKUP3res_Resok reply)) = Inr \<lparr>Ino = i, fh_Gen = Gen (iobj (fsstate nfs) ri)\<rparr>"
    and "dir_file_at G used arange held (fsstate nfs') inum r ents i ri" and "iobj (fsstate nfs') = iobj (fsstate nfs)"
proof -
  let ?st = "fsstate nfs"
  note dd = dir_file_atD [OF d]
  have c: "cached ?st i ri" "Kind (iobj ?st ri) \<noteq> NF3FREE" "Nlink (iobj ?st ri) \<noteq> 0" using dd(2) by (simp_all add: file_at_def)
  obtain op st0 inos where g: "getInodesLocked G (Suc fuel) fh3 name ?st = Inr (op, inos, NFS3_OK)" and x: "idx inos 0 = Inr (Some ri)"
      and idle: "fs_idle held st0" and s: "same_files G ?st st0" and o: "only_locked G held st0 op"
    by (rule lookup_inodes [where fuel = fuel, OF dd(1) fh l c])
  have at: "inode_at op ri = iobj ?st ri" "iobj st0 = iobj ?st" using only_locked_at [OF o] s by (simp_all add: same_files_def)
  have im: "Inum (iobj ?st ri) = i" using dd(1) c(1) by (auto simp: dir_at_def fs_idle_def icache_ok_def cached_def)
  obtain h where h: "MakeFh3 G \<lparr>Ino = i, fh_Gen = Gen (iobj ?st ri)\<rparr> = Inr h" "MakeFh G h = Inr \<lparr>Ino = i, fh_Gen = Gen (iobj ?st ri)\<rparr>"
    using fh_ok by blast
  obtain k op' where cr: "commitReply G op = (k, op')" by (cases "commitReply G op")
  note lc = locked_commitReply [OF same_files_dir_file [OF d s idle] o cm cr]
  let ?reply = "zero_LOOKUP3res\<lparr>LOOKUP3res_Resok := (LOOKUP3res_Resok zero_LOOKUP3res)\<lparr>LOOKUP3resok_Object := h,
     LOOKUP3resok_Obj_attributes := \<lparr>Post_op_attr_Attributes_follow = True, Post_op_attr_Attributes = MkFattr (iobj ?st ri)\<rparr>\<rparr>,
     LOOKUP3res_Status := k\<rparr>"
  have "NFSPROC3_LOOKUP G (Suc fuel) \<lparr>LOOKUP3args_What = \<lparr>Diropargs3_Dir = fh3, Diropargs3_Name = name\<rparr>\<rparr> nfs = Inr (?reply, put_fs op' nfs)"
    using g x at im h(1) cr by (simp add: NFSPROC3_LOOKUP_def Let_def del: getInodesLocked.simps)
  then show thesis by (rule that) (use lc at h(2) in simp_all)
qed

lemma GETATTR_dir_file:
  assumes d: "dir_file_at G used arange held (fsstate nfs) inum r ents i ri"
    and fh: "MakeFh G fh3 = Inr \<lparr>Ino = i, fh_Gen = Gen (iobj (fsstate nfs) ri)\<rparr>" and cm: "\<forall>op lg. fst (CommitWait G op True lg)"
  obtains reply nfs' where "NFSPROC3_GETATTR G \<lparr>GETATTR3args_Object = fh3\<rparr> nfs = Inr (reply, nfs')" and "GETATTR3res_Status reply = NFS3_OK"
    and "GETATTR3resok_Obj_attributes (GETATTR3res_Resok reply) = MkFattr (iobj (fsstate nfs) ri)"
    and "dir_file_at G used arange held (fsstate nfs') inum r ents i ri" and "iobj (fsstate nfs') = iobj (fsstate nfs)"
proof -
  let ?st = "fsstate nfs"
  have c: "fs_idle held ?st" "cached ?st i ri" "Kind (iobj ?st ri) \<noteq> NF3FREE" "Nlink (iobj ?st ri) \<noteq> 0"
    using dir_file_atD(2) [OF d] by (simp_all add: file_at_def)
  obtain op where g: "GetInodeLocked G i (FsTxn_Begin G ?st) = Inr (ri, op)" and o: "only_locked G held ?st op"
    by (rule only_locked_get [OF only_locked_begin [OF c(1)] c(2)]) (simp_all add: FsTxn_Begin_def)
  have gf: "GetInodeFh G fh3 (FsTxn_Begin G ?st) = Inr (Some ri, op)"
    using g fh c(3,4) only_locked_at [OF o] by (simp add: GetInodeFh_def GetInodeInum_def GetInodeInumFree_def)
  obtain k op' where cr: "commitReply G op = (k, op')" by (cases "commitReply G op")
  note lc = locked_commitReply [OF d o cm cr]
  let ?reply = "zero_GETATTR3res\<lparr>GETATTR3res_Resok := (GETATTR3res_Resok zero_GETATTR3res)\<lparr>GETATTR3resok_Obj_attributes := MkFattr (iobj ?st ri)\<rparr>,
     GETATTR3res_Status := k\<rparr>"
  have "NFSPROC3_GETATTR G \<lparr>GETATTR3args_Object = fh3\<rparr> nfs = Inr (?reply, put_fs op' nfs)"
    using gf cr only_locked_at [OF o] by (simp add: NFSPROC3_GETATTR_def)
  then show thesis by (rule that) (use lc in simp_all)
qed

text \<open>A write to the file leaves the directory as it is.\<close>

lemma dir_file_write:
  assumes d: "dir_file G used arange op inum r ents i ri"
    and st: "file_step G used arange (inode_at op ri) (Atxn op) (ip'\<lparr>Size := sz\<rparr>) a'"
    and ip': "Kind ip' = NF3REG" "Nlink ip' = 1" "unat (Size ip') \<le> MAXBYTES" "\<not> IsShrinking G ip'" "file_inv G used arange a' ip'"
  shows "dir_file G used arange (put_inode ri ip' (op\<lparr>Atxn := a'\<rparr>)) inum r ents i ri"
proof -
  let ?op = "put_inode ri ip' (op\<lparr>Atxn := a'\<rparr>)" and ?dip = "inode_at op r"
  have dk: "dir_ok G used arange op r ents" and rr: "r \<noteq> ri" and dj: "ino_blocks G (Op (Atxn op)) (blks ?dip) \<inter> ino_blocks G (Op (Atxn op)) (blks (inode_at op ri)) = {}"
    using d by (simp_all add: dir_file_def)
  have inv: "file_inv G used arange (Atxn op) ?dip" using dir_ok_super [OF dk] by simp
  note o = other_file [OF st inv dj]
  have at: "inode_at ?op r = ?dip" "inode_at ?op ri = ip'" "Atxn ?op = a'" using rr by (simp_all add: inode_at_def put_inode_def)
  have sz: "unat (Size ?dip) = 128 * length ents" "unat (Size ?dip) \<le> 1073774592" using dk by (simp_all add: dir_ok_def dir_is_def Let_def)
  have "fwalk G (Op a') (blks ?dip) (k div 4096) = fwalk G (Op (Atxn op)) (blks ?dip) (k div 4096)"
    if "k < unat (Size ?dip)" for k by (rule o(4)) (use order.strict_trans2 [OF that sz(2)] in \<open>simp add: less_mult_imp_div_less\<close>)
  moreover have "frange G (Op a') (blks ?dip) (128 * k) 128 = frange G (Op (Atxn op)) (blks ?dip) (128 * k) 128"
    if "k < length ents" for k by (rule frange_cong) (use that sz o(3) in simp_all)
  ultimately have "dir_ok G used arange ?op r ents" using dk o(1) at by (simp add: dir_ok_def dir_is_def Let_def)
  moreover have "cached (Fs ?op) = cached (Fs op)" by (intro ext) (simp add: cached_def put_inode_def)
  ultimately show ?thesis using d ip' o(2) at by (simp add: dir_file_def)
qed

text \<open>A write of at most a block to an empty file that finds no block has done nothing to the inode.\<close>

lemma Write_first_fails:
  assumes w: "Write G 0 n data ip a = Inr (cn, False, ip', a')" and b: "blks ip = replicate 10 0" and n: "unat n \<le> 4096"
  shows "ip' = ip"
proof -
  have nz: "0 < n" using w by (auto simp: Write_def write_loop.simps [of G "Suc (unat n)"] bnd_eq_Inr Let_def word_gt_0 split: if_splits)
  have "\<not> MaxFileSize G < n" using n by (simp add: word_less_nat_alt MaxFileSize_val)
  then obtain cn' ok' al where l: "write_loop G (Suc (unat n)) 0 n data 0 0 False ip a = Inr (cn', ok', al, ip', a')" and al: "\<not> al"
    using w by (auto simp: Write_def bnd_eq_Inr Let_def split: if_splits)
  show ?thesis
  proof (cases "AllocBlock G a")
    case (Inl e)
    then show ?thesis using l nz b by (simp add: write_loop.simps [of G "Suc (unat n)"] bmap_def)
  next
    case (Inr ba)
    obtain x a1 where x: "AllocBlock G a = Inr (x, a1)" using Inr by (cases ba) simp
    show ?thesis
    proof (cases "x = 0")
      case True
      have z: "ip\<lparr>blks := (replicate 10 0)[0 := 0]\<rparr> = ip" using b by (cases ip) (simp add: list_update_same_conv)
      show ?thesis using l nz b x True by (simp add: write_loop.simps [of G "Suc (unat n)"] bmap_def z)
    next
      case False
      have z: "write_loop G f b 0 d o' c al' ip0 a0 = Inr (c, True, al', ip0, a0)" for f b d o' c al' ip0 a0 by (subst write_loop.simps) simp
      have le: "(if n < 4096 then n else 4096 - 0) = n" using n by (simp add: word_less_nat_alt not_less word_unat_eq_iff)
      have "al" using l nz b x False le
        by (simp add: write_loop.simps [of G "Suc (unat n)"] bmap_def bnd_eq_Inr Let_def z)
      then show ?thesis using al by simp
    qed
  qed
qed

lemma WRITE_dir_file:
  assumes d: "dir_file_at G used arange held (fsstate nfs) inum r ents i ri"
    and fh: "MakeFh G fh3 = Inr \<lparr>Ino = i, fh_Gen = Gen (iobj (fsstate nfs) ri)\<rparr>" and b: "blks (iobj (fsstate nfs) ri) = replicate 10 0"
    and len: "length data \<le> 4096" and cm: "\<forall>op lg. fst (CommitWait G op True lg)"
  obtains reply nfs' where "NFSPROC3_WRITE G (Suc fuel) \<lparr>WRITE3args_File = fh3, WRITE3args_Offset = 0, WRITE3args_Count = of_nat (length data),
       WRITE3args_Stable = FILE_SYNC, WRITE3args_Data = data\<rparr> nfs = Inr (reply, nfs')"
    and "WRITE3res_Status reply \<in> {NFS3_OK, NFS3ERR_NOSPC}" and "dir_file_at G used arange held (fsstate nfs') inum r ents i ri"
    and "Gen (iobj (fsstate nfs') ri) = Gen (iobj (fsstate nfs) ri)" and "iobj (fsstate nfs') r = iobj (fsstate nfs) r"
proof -
  let ?st = "fsstate nfs" and ?n = "of_nat (length data) :: u32" and ?m = "ucast (of_nat (length data) :: u32) :: u64"
  let ?b = "FsTxn_Begin G ?st" and ?ip = "iobj ?st ri"
  note f = dir_file_atD(2) [OF d]
  have df: "dir_file G used arange ?b inum r ents i ri" and idle: "fs_idle held ?st" and rr: "r \<noteq> ri" using d by (simp_all add: dir_file_at_def dir_file_def)
  have inv: "file_inv G used arange (Atxn ?b) ?ip" using f by (simp add: file_at_def)
  have n: "unat ?n = length data" "unat ?m = length data" using len by (simp_all add: unat_of_nat take_bit_nat_eq_self)
  have wr: "unat (0 :: u64) + unat ?m \<le> unat (MaxFileSize G)" "unat ?m \<le> length data" using n len by (simp_all add: MaxFileSize_val)
  have lb: "?m < LogBytes G" using n len by (simp add: word_less_nat_alt)
  obtain cn wok ip' a' where w: "Write G 0 ?m data ?ip (Atxn ?b) = Inr (cn, wok, ip', a')" and cn: "unat cn \<le> unat ?m"
    and st: "file_step G used arange ?ip (Atxn ?b) (ip'\<lparr>Size := Size ?ip\<rparr>) a'"
    and sz: "unat (Size ip') = (if 0 < unat cn then max (unat (Size ?ip)) (unat (0 :: u64) + unat cn) else unat (Size ?ip))"
    using Write_ok [OF inv wr] by (elim exE conjE) (rule that, (assumption | simp)+)
  note wi = written_inode [OF f wr st cn sz]
  have nl: "Nlink ip' = 1" using wi(8) df by (simp add: dir_file_def)
  show thesis
  proof (rule WRITE_run [where fuel = fuel and how = FILE_SYNC, OF f fh lb w])
    fix op :: "('log, 'op, 'alc, 'lm, 'd) FsTxn"
    let ?args = "\<lparr>WRITE3args_File = fh3, WRITE3args_Offset = 0, WRITE3args_Count = ?n, WRITE3args_Stable = FILE_SYNC, WRITE3args_Data = data\<rparr>"
    let ?op = "put_inode ri ip' (op\<lparr>Atxn := a'\<rparr>)"
    assume get: "GetInodeFh G fh3 ?b = Inr (Some ri, op)" and at: "inode_at op ri = ?ip" "Atxn op = Atxn ?b"
        "entries (Icache (Fs op)) = entries (Icache ?st)" "iobj (Fs op) = iobj ?st"
      and no: "\<not> wok \<Longrightarrow> NFSPROC3_WRITE G (Suc fuel) ?args nfs =
        Inr (zero_WRITE3res\<lparr>WRITE3res_Status := NFS3ERR_NOSPC\<rparr>, put_fs (Abort G ?op) nfs)"
      and yes: "wok \<Longrightarrow> \<exists>c ok op' reply. commitWait G c ?op = (ok, op') \<and> (FILE_SYNC = FILE_SYNC \<longrightarrow> c) \<and>
        NFSPROC3_WRITE G (Suc fuel) ?args nfs = Inr (reply, put_fs op' nfs) \<and>
        WRITE3res_Status reply = (if ok then NFS3_OK else NFS3ERR_SERVERFAULT) \<and> (ok \<longrightarrow> WRITE3resok_Count (WRITE3res_Resok reply) = ucast cn)"
    have df': "dir_file G used arange op inum r ents i ri" by (rule dir_file_frame [OF df]) (use at in \<open>simp_all add: inode_at_def\<close>)
    have ru: "atxn_run G (Atxn op) a'" using retD [OF run.Write_Q [OF run_start] w] at(2) by simp
    have "txn_run G ?b (op\<lparr>Atxn := a'\<rparr>)" by (rule t_atxn [OF t_fh [OF t_start get] ru])
    then have run: "txn_run G ?b ?op" by (rule t_inode) (simp add: wi(2) at)
    have io: "iobj (Fs ?op) = (iobj ?st)(ri := ip')" using at(4) by (simp add: put_inode_def)
    show thesis
    proof (cases wok)
      case True
      obtain c ok op' reply where co: "commitWait G c ?op = (ok, op')" "c" and res: "NFSPROC3_WRITE G (Suc fuel) ?args nfs = Inr (reply, put_fs op' nfs)"
          and rs: "WRITE3res_Status reply = (if ok then NFS3_OK else NFS3ERR_SERVERFAULT)" using yes [OF True] by blast
      have ok: "ok" by (rule commits_wait [OF cm]) (use co in simp)
      have "clean on (Txn ?st) a'" using retD [OF atxn_writes.Write_Q [OF clean_writes] w] Begin_clean(1) [of ?st] by simp
      then have cl: "clean on (Txn ?st) (Atxn ?op)" by (simp add: put_inode_def)
      have "dir_file G used arange ?op inum r ents i ri"
        by (rule dir_file_write [OF df' _ wi(3) nl wi(5,6,1)]) (use st at in simp)
      note dc = dir_file_commit [OF idle run cl this co(1) disjI1 [OF ok]]
      show thesis by (rule that [OF res]) (use rs ok dc io wi(7) rr in simp_all)
    next
      case False
      have w': "Write G 0 ?m data ?ip (Atxn ?b) = Inr (cn, False, ip', a')" using w False by simp
      have ip: "ip' = ?ip" by (rule Write_first_fails [OF w' b]) (use n len in simp)
      have ti: "txn_inv held ?op" by (rule txn_run_inv [OF run Begin_inv [OF idle]])
      note ab = Abort_undo [OF idle run] and fs = Abort_fs [OF ti] and ta = txn_run_atxn [OF run Begin_inv [OF idle]]
      have ar: "arange (Balloc (Atxn ?op)) = arange (fs_Balloc ?st)"
        using atxn_run_range [OF ru] at(2) by (simp add: put_inode_def FsTxn_Begin_def AllocTxn_Begin_def)
      have i2: "iobj (Fs (Abort G ?op)) = iobj ?st" using fs(1) io ip by simp
      have "dir_file G used arange (FsTxn_Begin G (Fs (Abort G ?op))) inum r ents i ri"
        by (rule dir_file_frame [OF df]) (use i2 ab fs(2-4) ta ar at(3) in \<open>simp_all add: FsTxn_Begin_def AllocTxn_Begin_def inode_at_def put_inode_def\<close>)
      then have "dir_file_at G used arange held (Fs (Abort G ?op)) inum r ents i ri" using Abort_idle [OF ti] by (simp add: dir_file_at_def)
      then show thesis by (intro that [OF no [OF False]]) (use i2 in simp_all)
    qed
  qed
qed

text \<open>What \<^verbatim>\<open>CREATE\<close> leaves.\<close>

lemma created_dir_file:
  assumes d: "dir_at G used arange held st inum r ents" and f: "file_at G used arange held st i ri" and ne: "i \<noteq> inum"
    and n: "Nlink (iobj st ri) = 1" and b: "blks (iobj st ri) = replicate 10 0"
  shows "dir_file_at G used arange held st inum r ents i ri"
proof -
  have "Inum (iobj st ri) = i" "Inum (iobj st r) = inum" using d f by (auto simp: dir_at_def file_at_def fs_idle_def icache_ok_def cached_def)
  then have "r \<noteq> ri" using ne by auto
  then show ?thesis using d f ne n b by (simp add: dir_file_at_def dir_file_def dir_at_def file_at_def ino_empty)
qed

lemma removed:
  assumes d: "dir_file_at G used arange held (fsstate nfs) inum r ents i ri"
    and fh: "MakeFh G fh3 = Inr \<lparr>Ino = inum, fh_Gen = Gen (iobj (fsstate nfs) r)\<rparr>"
    and n: "\<not> IllegalName name" "length name < 112" "dir_locs ents name = Some (i, off)" and cm: "\<forall>op lg. fst (CommitWait G op True lg)"
  obtains reply nfs' where
    "NFSPROC3_REMOVE G (Suc fuel) \<lparr>REMOVE3args_Object = \<lparr>Diropargs3_Dir = fh3, Diropargs3_Name = name\<rparr>\<rparr> nfs = Inr (reply, nfs')"
    and "REMOVE3res_Status reply = NFS3_OK" and "fs_idle held (fsstate nfs')"
    and "\<exists>reply' nfs''. NFSPROC3_LOOKUP G (Suc fuel) \<lparr>LOOKUP3args_What = \<lparr>Diropargs3_Dir = fh3, Diropargs3_Name = name\<rparr>\<rparr> nfs' = Inr (reply', nfs'') \<and>
       LOOKUP3res_Status reply' = NFS3ERR_NOENT"
proof -
  let ?st = "fsstate nfs"
  note dd = dir_file_atD [OF d]
  have df: "dir_file G used arange (FsTxn_Begin G ?st) inum r ents i ri" using d by (simp add: dir_file_at_def)
  have c: "i \<noteq> inum" "cached ?st i ri" "Kind (iobj ?st ri) \<noteq> NF3FREE" "Nlink (iobj ?st ri) = 1"
      "file_inv G used arange (Atxn (FsTxn_Begin G ?st)) (iobj ?st ri)" "unat (Size (iobj ?st ri)) \<le> MAXBYTES"
    using df by (simp_all add: dir_file_def)
  have dj: "ino_blocks G (jrnl_Begin G (Txn ?st)) (blks (iobj ?st ri)) \<inter> ino_blocks G (jrnl_Begin G (Txn ?st)) (blks (iobj ?st r)) = {}"
    using df Begin_clean(2) [of ?st] by (auto simp: dir_file_def)
  show thesis
  proof (rule REMOVE_ok [where fuel = fuel, OF dd(1) fh n c dj])
    fix reply nfs' dc
    assume run: "NFSPROC3_REMOVE G (Suc fuel) \<lparr>REMOVE3args_Object = \<lparr>Diropargs3_Dir = fh3, Diropargs3_Name = name\<rparr>\<rparr> nfs = Inr (reply, nfs')"
      and ok: "(\<forall>op lg. fst (CommitWait G op True lg)) \<longrightarrow> REMOVE3res_Status reply = NFS3_OK" and idle: "fs_idle held (fsstate nfs')"
      and en: "entries (Icache (fsstate nfs')) = entries (Icache ?st)"
      and kd: "Kind (iobj (fsstate nfs') r) = NF3DIR" and nl: "Nlink (iobj (fsstate nfs') r) = Nlink (iobj ?st r)"
      and ge: "Gen (iobj (fsstate nfs') r) = Gen (iobj ?st r)"
      and dc: "inode_Dcache (iobj (fsstate nfs') r) = Some dc" "dc_names dc = (dir_locs ents)(name := None)"
    have a: "cached (fsstate nfs') inum r" "Nlink (iobj (fsstate nfs') r) \<noteq> 0" "dc_names dc name = None"
        "MakeFh G fh3 = Inr \<lparr>Ino = inum, fh_Gen = Gen (iobj (fsstate nfs') r)\<rparr>" using dd(1) nl en dc(2) fh ge by (simp_all add: dir_at_def cached_def)
    show thesis by (rule that [OF run _ idle]) (use ok cm LOOKUP_gone [OF idle a(1) kd a(2) dc(1) a(3,4)] in auto)
  qed
qed

lemma same_files_free: "same_files G st st' \<Longrightarrow> free_inodes G used arange st \<Longrightarrow> free_inodes G used arange st'"
  by (simp add: free_inodes_def free_inode_def same_files_def cached_def)

end

section \<open>Programs and procedures\<close>

lemma run_lookup:
  assumes "NFSPROC3_LOOKUP G fuel \<lparr>LOOKUP3args_What = \<lparr>Diropargs3_Dir = fh, Diropargs3_Name = name\<rparr>\<rparr> s = Inr (reply, s')"
  shows "run_prog G fuel (lookup_then fh name k) (c\<lparr>srv := s\<rparr>) = run_prog G fuel (k reply) (c\<lparr>srv := s'\<rparr>)"
  using assms by (simp add: lookup_then_def reply_as_def LookupOp_def clnt_call_def)

lemma run_getattr:
  assumes "NFSPROC3_GETATTR G \<lparr>GETATTR3args_Object = fh\<rparr> s = Inr (reply, s')"
  shows "run_prog G fuel (getattr_then fh k) (c\<lparr>srv := s\<rparr>) = run_prog G fuel (k reply) (c\<lparr>srv := s'\<rparr>)"
  using assms by (simp add: getattr_then_def reply_as_def GetattrOp_def clnt_call_def)

lemma run_remove:
  assumes "NFSPROC3_REMOVE G fuel \<lparr>REMOVE3args_Object = \<lparr>Diropargs3_Dir = fh, Diropargs3_Name = name\<rparr>\<rparr> s = Inr (reply, s')"
  shows "run_prog G fuel (remove_then fh name k) (c\<lparr>srv := s\<rparr>) = run_prog G fuel (k reply) (c\<lparr>srv := s'\<rparr>)"
  using assms by (simp add: remove_then_def reply_as_def RemoveOp_def clnt_call_def)

lemma run_create:
  assumes "NFSPROC3_CREATE G fuel \<lparr>CREATE3args_Where = \<lparr>Diropargs3_Dir = fh, Diropargs3_Name = name\<rparr>, CREATE3args_How = zero_Createhow3\<rparr> s =
    Inr (reply, s')"
  shows "run_prog G fuel (Call (CreateC fh name) k) (c\<lparr>srv := s\<rparr>) = run_prog G fuel (k (CreateR reply)) (c\<lparr>srv := s'\<rparr>)"
  using assms by (simp add: reply_as_def CreateOp_def clnt_call_def)

lemma run_write:
  assumes "NFSPROC3_WRITE G fuel \<lparr>WRITE3args_File = fh, WRITE3args_Offset = off, WRITE3args_Count = of_nat (length data),
    WRITE3args_Stable = how, WRITE3args_Data = data\<rparr> s = Inr (reply, s')"
  shows "run_prog G fuel (Call (WriteC fh off data how) k) (c\<lparr>srv := s\<rparr>) = run_prog G fuel (k (WriteR reply)) (c\<lparr>srv := s'\<rparr>)"
  using assms by (simp add: reply_as_def WriteOp_def clnt_call_def)

context gojournal
begin

text \<open>\<^const>\<open>SmallFile\<close> from the look-up that follows the creation of the file.\<close>

lemma SmallFile_created:
  assumes d: "dir_file_at G used arange held (fsstate s) inum r ents i ri"
    and fh: "MakeFh G fh3 = Inr \<lparr>Ino = inum, fh_Gen = Gen (iobj (fsstate s) r)\<rparr>" and b: "blks (iobj (fsstate s) ri) = replicate 10 0"
    and n: "\<not> IllegalName name" "length name < 112" "dir_locs ents name = Some (i, off)" and len: "length data \<le> 4096"
    and cm: "\<forall>op lg. fst (CommitWait G op True lg)"
    and p: "NFSPROC3_LOOKUP G (Suc fuel) \<lparr>LOOKUP3args_What = \<lparr>Diropargs3_Dir = fh3, Diropargs3_Name = name\<rparr>\<rparr> s0 = Inr (reply1, s1)"
      "LOOKUP3res_Status reply1 \<noteq> NFS3_OK"
      "NFSPROC3_CREATE G (Suc fuel) \<lparr>CREATE3args_Where = \<lparr>Diropargs3_Dir = fh3, Diropargs3_Name = name\<rparr>, CREATE3args_How = zero_Createhow3\<rparr> s1 =
        Inr (reply2, s)"
  obtains s' where "run_prog G (Suc fuel) (SmallFile fh3 name data k) (c\<lparr>srv := s0\<rparr>) = run_prog G (Suc fuel) k (c\<lparr>srv := s'\<rparr>)" and "fs_idle held (fsstate s')"
    and "\<exists>reply s''. NFSPROC3_LOOKUP G (Suc fuel) \<lparr>LOOKUP3args_What = \<lparr>Diropargs3_Dir = fh3, Diropargs3_Name = name\<rparr>\<rparr> s' = Inr (reply, s'') \<and>
       LOOKUP3res_Status reply = NFS3ERR_NOENT"
proof (rule LOOKUP_dir_file [where fuel = fuel, OF d fh n(3) cm])
  fix reply3 :: LOOKUP3res and s3
  let ?h = "LOOKUP3resok_Object (LOOKUP3res_Resok reply3)"
  assume l: "NFSPROC3_LOOKUP G (Suc fuel) \<lparr>LOOKUP3args_What = \<lparr>Diropargs3_Dir = fh3, Diropargs3_Name = name\<rparr>\<rparr> s = Inr (reply3, s3)"
      "LOOKUP3res_Status reply3 = NFS3_OK" and h: "MakeFh G ?h = Inr \<lparr>Ino = i, fh_Gen = Gen (iobj (fsstate s) ri)\<rparr>"
    and d3: "dir_file_at G used arange held (fsstate s3) inum r ents i ri" and i3: "iobj (fsstate s3) = iobj (fsstate s)"
  have h3: "MakeFh G ?h = Inr \<lparr>Ino = i, fh_Gen = Gen (iobj (fsstate s3) ri)\<rparr>" using h i3 by simp
  show thesis
  proof (rule GETATTR_dir_file [OF d3 h3 cm])
    fix reply4 :: GETATTR3res and s4
    assume g: "NFSPROC3_GETATTR G \<lparr>GETATTR3args_Object = ?h\<rparr> s3 = Inr (reply4, s4)" "GETATTR3res_Status reply4 = NFS3_OK"
      and d4: "dir_file_at G used arange held (fsstate s4) inum r ents i ri" and i4: "iobj (fsstate s4) = iobj (fsstate s3)"
    have h4: "MakeFh G ?h = Inr \<lparr>Ino = i, fh_Gen = Gen (iobj (fsstate s4) ri)\<rparr>" "blks (iobj (fsstate s4) ri) = replicate 10 0"
      using h b i3 i4 by simp_all
    show thesis
    proof (rule WRITE_dir_file [where fuel = fuel, OF d4 h4 len cm])
      fix reply5 :: WRITE3res and s5
      assume w: "NFSPROC3_WRITE G (Suc fuel) \<lparr>WRITE3args_File = ?h, WRITE3args_Offset = 0, WRITE3args_Count = of_nat (length data),
          WRITE3args_Stable = FILE_SYNC, WRITE3args_Data = data\<rparr> s4 = Inr (reply5, s5)"
        and d5: "dir_file_at G used arange held (fsstate s5) inum r ents i ri" and g5: "Gen (iobj (fsstate s5) ri) = Gen (iobj (fsstate s4) ri)"
        and i5: "iobj (fsstate s5) r = iobj (fsstate s4) r"
      have h5: "MakeFh G ?h = Inr \<lparr>Ino = i, fh_Gen = Gen (iobj (fsstate s5) ri)\<rparr>" using h4(1) g5 by simp
      show thesis
      proof (rule GETATTR_dir_file [OF d5 h5 cm])
        fix reply6 :: GETATTR3res and s6
        assume g6: "NFSPROC3_GETATTR G \<lparr>GETATTR3args_Object = ?h\<rparr> s5 = Inr (reply6, s6)" "GETATTR3res_Status reply6 = NFS3_OK"
          and d6: "dir_file_at G used arange held (fsstate s6) inum r ents i ri" and i6: "iobj (fsstate s6) = iobj (fsstate s5)"
        have fh6: "MakeFh G fh3 = Inr \<lparr>Ino = inum, fh_Gen = Gen (iobj (fsstate s6) r)\<rparr>" using fh i3 i4 i5 i6 by simp
        show thesis
        proof (rule removed [where fuel = fuel, OF d6 fh6 n cm])
          fix reply7 :: REMOVE3res and s7
          assume r7: "NFSPROC3_REMOVE G (Suc fuel) \<lparr>REMOVE3args_Object = \<lparr>Diropargs3_Dir = fh3, Diropargs3_Name = name\<rparr>\<rparr> s6 = Inr (reply7, s7)"
              "REMOVE3res_Status reply7 = NFS3_OK" and i7: "fs_idle held (fsstate s7)"
            and l7: "\<exists>reply s''. NFSPROC3_LOOKUP G (Suc fuel) \<lparr>LOOKUP3args_What = \<lparr>Diropargs3_Dir = fh3, Diropargs3_Name = name\<rparr>\<rparr> s7 = Inr (reply, s'') \<and>
              LOOKUP3res_Status reply = NFS3ERR_NOENT"
          have "run_prog G (Suc fuel) (SmallFile fh3 name data k) (c\<lparr>srv := s0\<rparr>) = run_prog G (Suc fuel) k (c\<lparr>srv := s7\<rparr>)"
            using p(2) l(2) g(2) g6(2) r7(2)
            by (simp add: SmallFile_def Let_def run_lookup [OF p(1)] run_create [OF p(3)] run_lookup [OF l(1)] run_getattr [OF g(1)] run_write [OF w]
                run_getattr [OF g6(1)] run_remove [OF r7(1)] del: run_prog.simps)
          then show thesis using that i7 l7 by blast
        qed
      qed
    qed
  qed
qed

text \<open>The loop of \<^verbatim>\<open>cmd/lookup\<close>: each round is a \<^verbatim>\<open>LOOKUP\<close> and a \<^verbatim>\<open>GETATTR\<close>, and leaves the directory and the file as they are.\<close>

lemma Lookup_step:
  assumes d: "dir_file_at G used arange held (fsstate s) inum r ents i ri"
    and fh: "MakeFh G fh3 = Inr \<lparr>Ino = inum, fh_Gen = Gen (iobj (fsstate s) r)\<rparr>"
    and l: "dir_locs ents name = Some (i, off)" and cm: "\<forall>op lg. fst (CommitWait G op True lg)"
  obtains s' where "run_prog G (Suc fuel) (Lookup fh3 name k) (c\<lparr>srv := s\<rparr>) = run_prog G (Suc fuel) k (c\<lparr>srv := s'\<rparr>)"
    and "dir_file_at G used arange held (fsstate s') inum r ents i ri" and "iobj (fsstate s') = iobj (fsstate s)"
proof (rule LOOKUP_dir_file [where fuel = fuel, OF d fh l cm])
  fix reply3 :: LOOKUP3res and s3
  let ?h = "LOOKUP3resok_Object (LOOKUP3res_Resok reply3)"
  assume l: "NFSPROC3_LOOKUP G (Suc fuel) \<lparr>LOOKUP3args_What = \<lparr>Diropargs3_Dir = fh3, Diropargs3_Name = name\<rparr>\<rparr> s = Inr (reply3, s3)"
      "LOOKUP3res_Status reply3 = NFS3_OK" and h: "MakeFh G ?h = Inr \<lparr>Ino = i, fh_Gen = Gen (iobj (fsstate s) ri)\<rparr>"
    and d3: "dir_file_at G used arange held (fsstate s3) inum r ents i ri" and i3: "iobj (fsstate s3) = iobj (fsstate s)"
  have h3: "MakeFh G ?h = Inr \<lparr>Ino = i, fh_Gen = Gen (iobj (fsstate s3) ri)\<rparr>" using h i3 by simp
  show thesis
  proof (rule GETATTR_dir_file [OF d3 h3 cm])
    fix reply4 :: GETATTR3res and s4
    assume g: "NFSPROC3_GETATTR G \<lparr>GETATTR3args_Object = ?h\<rparr> s3 = Inr (reply4, s4)" "GETATTR3res_Status reply4 = NFS3_OK"
      and d4: "dir_file_at G used arange held (fsstate s4) inum r ents i ri" and i4: "iobj (fsstate s4) = iobj (fsstate s3)"
    have "run_prog G (Suc fuel) (Lookup fh3 name k) (c\<lparr>srv := s\<rparr>) = run_prog G (Suc fuel) k (c\<lparr>srv := s4\<rparr>)"
      using l(2) g(2) by (simp add: Lookup_def Let_def run_lookup [OF l(1)] run_getattr [OF g(1)] del: run_prog.simps)
    then show thesis using that d4 i3 i4 by simp
  qed
qed

lemma lookup_loop_ok:
  assumes "dir_file_at G used arange held (fsstate s) inum r ents i ri"
    and "MakeFh G fh3 = Inr \<lparr>Ino = inum, fh_Gen = Gen (iobj (fsstate s) r)\<rparr>"
    and l: "dir_locs ents name = Some (i, off)" and cm: "\<forall>op lg. fst (CommitWait G op True lg)"
  shows "\<exists>s'. run_prog G (Suc fuel) (lookup_loop fh3 name k j) (c\<lparr>srv := s\<rparr>) = Inr (j + k + 1, c\<lparr>srv := s'\<rparr>) \<and>
    dir_file_at G used arange held (fsstate s') inum r ents i ri"
  using assms(1,2)
proof (induction k arbitrary: s j)
  case 0
  show ?case
    by (rule Lookup_step [where fuel = fuel and c = c and k = "Return (j + 1)", OF 0 l cm]) auto
next
  case (Suc k)
  show ?case
  proof (rule Lookup_step [where fuel = fuel and c = c and k = "lookup_loop fh3 name k (j + 1)", OF Suc.prems l cm])
    fix s'
    assume "run_prog G (Suc fuel) (Lookup fh3 name (lookup_loop fh3 name k (j + 1))) (c\<lparr>srv := s\<rparr>) =
        run_prog G (Suc fuel) (lookup_loop fh3 name k (j + 1)) (c\<lparr>srv := s'\<rparr>)"
      and "dir_file_at G used arange held (fsstate s') inum r ents i ri" and "iobj (fsstate s') = iobj (fsstate s)"
    then show ?case using Suc.IH [of s' "j + 1"] Suc.prems(2) by simp
  qed
qed

end

section \<open>Interleavings\<close>

lemma perform_step: "perform G fuel a c = Inr (r, c') \<Longrightarrow> clnt_step G fuel c c'"
  by (cases a) (auto simp: reply_as_def bnd_eq_Inr intro: clnt_step.intros)

lemma step_thread_idle:
  assumes "gojournal G on used arange held" "step_thread G fuel t c = Inr (t', c')" "fs_idle held (fsstate (srv c))"
  shows "fs_idle held (fsstate (srv c'))"
  using assms clnt_keeps_idle [OF assms(1) perform_step] by (cases t) (auto simp: step_thread_def bnd_eq_Inr)

text \<open>However the goroutines are interleaved, and whatever they do, the server holds no lock between their operations.\<close>

lemma run_threads_idle:
  assumes G: "gojournal G on used arange held"
  shows "run_threads G fuel sched ts c = Inr (ts', c') \<Longrightarrow> fs_idle held (fsstate (srv c)) \<Longrightarrow> fs_idle held (fsstate (srv c'))"
proof (induction sched arbitrary: ts c)
  case (Cons i sched)
  show ?case
  proof (cases "i < length ts")
    case True
    then obtain t c1 where "step_thread G fuel (ts ! i) c = Inr (t, c1)" and r: "run_threads G fuel sched (ts[i := t]) c1 = Inr (ts', c')"
      using Cons.prems(1) by (auto simp: bnd_eq_Inr)
    then have "fs_idle held (fsstate (srv c1))" using step_thread_idle [OF G] Cons.prems(2) by blast
    with r show ?thesis by (rule Cons.IH)
  next
    case False
    then show ?thesis using Cons by simp
  qed
qed simp

text \<open>A run of \<^const>\<open>Parallel\<close> that returns.\<close>

lemma thread_sum_Some: "thread_sum ts = Some n \<longleftrightarrow> (\<exists>ns. ts = map Return ns \<and> n = sum_list ns)"
proof (induction ts arbitrary: n)
  case (Cons t ts)
  show ?case
  proof (cases t)
    case (Return m)
    have "thread_sum (t # ts) = Some n \<longleftrightarrow> (\<exists>n'. thread_sum ts = Some n' \<and> n = m + n')" using Return by auto
    also have "\<dots> \<longleftrightarrow> (\<exists>ns. ts = map Return ns \<and> n = m + sum_list ns)" unfolding Cons.IH by blast
    also have "\<dots> \<longleftrightarrow> (\<exists>ns. t # ts = map Return ns \<and> n = sum_list ns)" using Return by (auto simp: Cons_eq_map_conv)
    finally show ?thesis .
  qed auto
qed simp

lemma Parallel_ok:
  assumes G: "gojournal G on used arange held" and p: "Parallel G fuel NewMemDisk sched nthr sz f = Inr (n, c')"
  shows "\<exists>root c0 ns c. MkRootFh3 G = Inr root \<and> MkNfsClient G NewMemDisk sz = Inr c0 \<and>
     run_threads G fuel sched (map (Parallel_thread root f) [0..<nthr]) c0 = Inr (map Return ns, c) \<and> n = sum_list ns \<and>
     held (Lockmap (fsstate (srv c))) = {} \<and> clnt_Shutdown G fuel c = Inr c'"
proof -
  obtain root c0 ts c where r: "MkRootFh3 G = Inr root" and m: "MkNfsClient G NewMemDisk sz = Inr c0"
      and t: "run_threads G fuel sched (map (Parallel_thread root f) [0..<nthr]) c0 = Inr (ts, c)"
      and x: "thread_sum ts = Some n" "clnt_Shutdown G fuel c = Inr c'"
    using p by (auto simp: Parallel_def bnd_eq_Inr split: option.splits)
  have "fs_idle held (fsstate (srv c0))" using m gojournal.MakeNfs_idle [OF G] by (auto simp: MkNfsClient_def bnd_eq_Inr)
  then have "held (Lockmap (fsstate (srv c))) = {}" using run_threads_idle [OF G t] by (simp add: fs_idle_def)
  moreover obtain ns where "ts = map Return ns" "n = sum_list ns" using x(1) thread_sum_Some by blast
  ultimately show ?thesis using r m t x(2) by (intro exI [of _ root] exI [of _ c0] exI [of _ ns] exI [of _ c]) simp
qed

section \<open>Properties\<close>

text \<open>C13: \<^verbatim>\<open>cmd/smallfile\<close>. In a well-formed directory without the name, with data of at most a block and commits that succeed, the first operations of
  \<^verbatim>\<open>SmallFile\<close>, a look-up and a creation of the file, return; and if the file could be created, then \<^verbatim>\<open>SmallFile\<close> goes through its seven operations without a
  panic, even if no block is free for the data, and leaves no lock held and no file of that name.\<close>

theorem smallfile_cleans_up:
  assumes G: "gojournal G on used arange held" and d: "dir_at G used arange held (fsstate (srv c)) inum r ents"
    and fh: "MakeFh G fh3 = Inr \<lparr>Ino = inum, fh_Gen = Gen (iobj (fsstate (srv c)) r)\<rparr>"
    and n: "\<not> IllegalName name" "dir_locs ents name = None" "length name < 112" and room: "128 * length ents + 128 \<le> 1073774592"
    and fi: "free_inodes G used arange (fsstate (srv c))" and len: "length data \<le> 4096" and cm: "\<And>op lg. fst (CommitWait G op True lg)"
  shows "\<exists>reply1 c1 reply2 c2. LookupOp G (Suc fuel) fh3 name c = Inr (reply1, c1) \<and> LOOKUP3res_Status reply1 = NFS3ERR_NOENT \<and>
     CreateOp G (Suc fuel) fh3 name c1 = Inr (reply2, c2) \<and>
     (CREATE3res_Status reply2 = NFS3_OK \<longrightarrow>
        (\<exists>c' reply' c''. run_prog G (Suc fuel) (SmallFile fh3 name data (Return m)) c = Inr (m, c') \<and> held (Lockmap (fsstate (srv c'))) = {} \<and>
           LookupOp G (Suc fuel) fh3 name c' = Inr (reply', c'') \<and> LOOKUP3res_Status reply' = NFS3ERR_NOENT))"
proof -
  have cc: "c\<lparr>srv := srv c\<rparr> = c" by simp
  have cm': "\<forall>op lg. fst (CommitWait G op True lg)" using cm by blast
  have how: "Createhow3_Mode zero_Createhow3 \<noteq> EXCLUSIVE" by (simp add: zero_Createhow3_def)
  from gojournal.LOOKUP_none [OF G d fh n(2), of fuel] obtain reply1 s1 where
      l: "NFSPROC3_LOOKUP G (Suc fuel) \<lparr>LOOKUP3args_What = \<lparr>Diropargs3_Dir = fh3, Diropargs3_Name = name\<rparr>\<rparr> (srv c) = Inr (reply1, s1)"
        "LOOKUP3res_Status reply1 = NFS3ERR_NOENT"
    and d1: "dir_at G used arange held (fsstate s1) inum r ents" and s1: "same_files G (fsstate (srv c)) (fsstate s1)" by blast
  have fh1: "MakeFh G fh3 = Inr \<lparr>Ino = inum, fh_Gen = Gen (iobj (fsstate s1) r)\<rparr>" using fh s1 by (simp add: same_files_def)
  note fi1 = gojournal.same_files_free [OF G s1 fi]
  from gojournal.CREATE_ok [OF G d1 fh1 n(2,3) room fi1 how, of fuel] obtain reply2 s2 where
      cr: "NFSPROC3_CREATE G (Suc fuel) \<lparr>CREATE3args_Where = \<lparr>Diropargs3_Dir = fh3, Diropargs3_Name = name\<rparr>, CREATE3args_How = zero_Createhow3\<rparr> s1 =
        Inr (reply2, s2)"
    and ok: "CREATE3res_Status reply2 = NFS3_OK \<Longrightarrow> \<exists>i ri off ents'. i \<noteq> inum \<and> dir_at G used arange held (fsstate s2) inum r ents' \<and>
        dir_locs ents' = (dir_locs ents)(name \<mapsto> (i, off)) \<and> file_at G used arange held (fsstate s2) i ri \<and>
        Nlink (iobj (fsstate s2) ri) = 1 \<and> blks (iobj (fsstate s2) ri) = replicate 10 0 \<and> Gen (iobj (fsstate s2) r) = Gen (iobj (fsstate s1) r)"
    by blast
  have L: "LookupOp G (Suc fuel) fh3 name c = Inr (reply1, c\<lparr>srv := s1\<rparr>)" using l(1) by (simp add: LookupOp_def clnt_call_def)
  have C: "CreateOp G (Suc fuel) fh3 name (c\<lparr>srv := s1\<rparr>) = Inr (reply2, c\<lparr>srv := s2\<rparr>)" using cr by (simp add: CreateOp_def clnt_call_def)
  have "\<exists>c' reply' c''. run_prog G (Suc fuel) (SmallFile fh3 name data (Return m)) c = Inr (m, c') \<and> held (Lockmap (fsstate (srv c'))) = {} \<and>
      LookupOp G (Suc fuel) fh3 name c' = Inr (reply', c'') \<and> LOOKUP3res_Status reply' = NFS3ERR_NOENT" if "CREATE3res_Status reply2 = NFS3_OK"
  proof -
    from ok [OF that] obtain i ri off ents' where o: "i \<noteq> inum" "dir_at G used arange held (fsstate s2) inum r ents'"
        "dir_locs ents' = (dir_locs ents)(name \<mapsto> (i, off))" "file_at G used arange held (fsstate s2) i ri"
        "Nlink (iobj (fsstate s2) ri) = 1" "blks (iobj (fsstate s2) ri) = replicate 10 0" "Gen (iobj (fsstate s2) r) = Gen (iobj (fsstate s1) r)"
      by blast
    note df = gojournal.created_dir_file [OF G o(2,4,1,5,6)]
    have h: "MakeFh G fh3 = Inr \<lparr>Ino = inum, fh_Gen = Gen (iobj (fsstate s2) r)\<rparr>" "dir_locs ents' name = Some (i, off)"
        "LOOKUP3res_Status reply1 \<noteq> NFS3_OK" using fh1 o(3,7) l(2) by simp_all
    show ?thesis
    proof (rule gojournal.SmallFile_created [where k = "Return m", OF G df h(1) o(6) n(1,3) h(2) len cm' l(1) h(3) cr, of c])
      fix s'
      assume "run_prog G (Suc fuel) (SmallFile fh3 name data (Return m)) (c\<lparr>srv := srv c\<rparr>) = run_prog G (Suc fuel) (Return m) (c\<lparr>srv := s'\<rparr>)"
        and "fs_idle held (fsstate s')"
        and "\<exists>reply s''. NFSPROC3_LOOKUP G (Suc fuel) \<lparr>LOOKUP3args_What = \<lparr>Diropargs3_Dir = fh3, Diropargs3_Name = name\<rparr>\<rparr> s' = Inr (reply, s'') \<and>
          LOOKUP3res_Status reply = NFS3ERR_NOENT"
      then show ?thesis unfolding cc
        by (intro exI [of _ "c\<lparr>srv := s'\<rparr>"]) (auto simp: LookupOp_def clnt_call_def fs_idle_def)
    qed
  qed
  then show ?thesis using L C l(2) by blast
qed

theorem smallfile_cleans_up_witness:
  "\<exists>reply1 c1 reply2 c2. LookupOp ref_lib 1 ex_handle2 [98] \<lparr>srv = ex_new_nfs\<rparr> = Inr (reply1, c1) \<and>
     CreateOp ref_lib 1 ex_handle2 [98] c1 = Inr (reply2, c2) \<and>
     (CREATE3res_Status reply2 = NFS3_OK \<longrightarrow>
       (\<exists>c'. run_prog ref_lib 1 (SmallFile ex_handle2 [98] (mkdata 100) (Return 7)) \<lparr>srv = ex_new_nfs\<rparr> = Inr (7, c') \<and> Lockmap (fsstate (srv c')) = []))"
proof -
  have l: "\<not> IllegalName [98]" "dir_locs ex_ents [98] = None" "length [98 :: byte] < 112" "128 * length ex_ents + 128 \<le> 1073774592"
    using ex_locs by (simp_all add: ex_ents_def IllegalName_def)
  have fh: "MakeFh ref_lib ex_handle2 = Inr \<lparr>Ino = 2, fh_Gen = Gen (iobj (fsstate (srv \<lparr>srv = ex_new_nfs\<rparr>)) 0)\<rparr>"
    by (simp add: ex_handle2_fh ex_new_nfs_def ex_dir_def zero_Inode_def)
  have at: "dir_at ref_lib ref_used ref_range set (fsstate (srv \<lparr>srv = ex_new_nfs\<rparr>)) 2 0 ex_ents"
    "free_inodes ref_lib ref_used ref_range (fsstate (srv \<lparr>srv = ex_new_nfs\<rparr>))" using ex_new_at ex_new_free by simp_all
  have m: "length (mkdata 100) \<le> 4096" by (simp add: mkdata_def)
  from smallfile_cleans_up [OF ref_gojournal at(1) fh l at(2) m ref_commits, of 0 7] show ?thesis by auto
qed

text \<open>C24: \<^verbatim>\<open>cmd/lookup\<close>. In a well-formed directory without the name and with commits that succeed, if the file can be created, the function that the benchmark runs
  does as many rounds as the clock allows and returns their number: in each round the \<^verbatim>\<open>LOOKUP\<close> and the \<^verbatim>\<open>GETATTR\<close> of its handle reply \<^verbatim>\<open>NFS3_OK\<close>.\<close>

theorem lookup_counts_rounds:
  assumes G: "gojournal G on used arange held" and d: "dir_at G used arange held (fsstate (srv c)) inum r ents"
    and fh: "MakeFh G fh3 = Inr \<lparr>Ino = inum, fh_Gen = Gen (iobj (fsstate (srv c)) r)\<rparr>"
    and n: "dir_locs ents name = None" "length name < 112" and room: "128 * length ents + 128 \<le> 1073774592"
    and fi: "free_inodes G used arange (fsstate (srv c))" and cm: "\<And>op lg. fst (CommitWait G op True lg)"
  shows "\<exists>reply c1. CreateOp G (Suc fuel) fh3 name c = Inr (reply, c1) \<and>
     (CREATE3res_Status reply = NFS3_OK \<longrightarrow>
        (\<exists>c'. run_prog G (Suc fuel) (Call (CreateC fh3 name) (\<lambda>_. lookup_loop fh3 name k 0)) c = Inr (k + 1, c') \<and>
           held (Lockmap (fsstate (srv c'))) = {}))"
proof -
  have cm': "\<forall>op lg. fst (CommitWait G op True lg)" using cm by blast
  have how: "Createhow3_Mode zero_Createhow3 \<noteq> EXCLUSIVE" by (simp add: zero_Createhow3_def)
  from gojournal.CREATE_ok [OF G d fh n room fi how, of fuel] obtain reply s2 where
      cr: "NFSPROC3_CREATE G (Suc fuel) \<lparr>CREATE3args_Where = \<lparr>Diropargs3_Dir = fh3, Diropargs3_Name = name\<rparr>, CREATE3args_How = zero_Createhow3\<rparr> (srv c) =
        Inr (reply, s2)"
    and ok: "CREATE3res_Status reply = NFS3_OK \<Longrightarrow> \<exists>i ri off ents'. i \<noteq> inum \<and> dir_at G used arange held (fsstate s2) inum r ents' \<and>
        dir_locs ents' = (dir_locs ents)(name \<mapsto> (i, off)) \<and> file_at G used arange held (fsstate s2) i ri \<and>
        Nlink (iobj (fsstate s2) ri) = 1 \<and> blks (iobj (fsstate s2) ri) = replicate 10 0 \<and> Gen (iobj (fsstate s2) r) = Gen (iobj (fsstate (srv c)) r)"
    by blast
  have C: "CreateOp G (Suc fuel) fh3 name c = Inr (reply, c\<lparr>srv := s2\<rparr>)" using cr by (simp add: CreateOp_def clnt_call_def)
  have "\<exists>c'. run_prog G (Suc fuel) (lookup_loop fh3 name k 0) (c\<lparr>srv := s2\<rparr>) = Inr (k + 1, c') \<and> held (Lockmap (fsstate (srv c'))) = {}"
    if "CREATE3res_Status reply = NFS3_OK"
  proof -
    from ok [OF that] obtain i ri off ents' where o: "i \<noteq> inum" "dir_at G used arange held (fsstate s2) inum r ents'"
        "dir_locs ents' = (dir_locs ents)(name \<mapsto> (i, off))" "file_at G used arange held (fsstate s2) i ri"
        "Nlink (iobj (fsstate s2) ri) = 1" "blks (iobj (fsstate s2) ri) = replicate 10 0" "Gen (iobj (fsstate s2) r) = Gen (iobj (fsstate (srv c)) r)"
      by blast
    note df = gojournal.created_dir_file [OF G o(2,4,1,5,6)]
    have h: "MakeFh G fh3 = Inr \<lparr>Ino = inum, fh_Gen = Gen (iobj (fsstate s2) r)\<rparr>" "dir_locs ents' name = Some (i, off)" using fh o(3,7) by simp_all
    from gojournal.lookup_loop_ok [OF G df h cm', of fuel k 0 c] show ?thesis by (auto simp: dir_file_at_def fs_idle_def)
  qed
  then show ?thesis using C by (auto simp: reply_as_def)
qed

theorem lookup_counts_rounds_witness:
  "\<exists>reply c1. CreateOp ref_lib 1 ex_handle2 [98] \<lparr>srv = ex_new_nfs\<rparr> = Inr (reply, c1) \<and>
     (CREATE3res_Status reply = NFS3_OK \<longrightarrow>
       (\<exists>c'. run_prog ref_lib 1 (Call (CreateC ex_handle2 [98]) (\<lambda>_. lookup_loop ex_handle2 [98] 2 0)) \<lparr>srv = ex_new_nfs\<rparr> = Inr (3, c')))"
proof -
  have l: "dir_locs ex_ents [98] = None" "length [98 :: byte] < 112" "128 * length ex_ents + 128 \<le> 1073774592"
    using ex_locs by (simp_all add: ex_ents_def)
  have fh: "MakeFh ref_lib ex_handle2 = Inr \<lparr>Ino = 2, fh_Gen = Gen (iobj (fsstate (srv \<lparr>srv = ex_new_nfs\<rparr>)) 0)\<rparr>"
    by (simp add: ex_handle2_fh ex_new_nfs_def ex_dir_def zero_Inode_def)
  have at: "dir_at ref_lib ref_used ref_range set (fsstate (srv \<lparr>srv = ex_new_nfs\<rparr>)) 2 0 ex_ents"
    "free_inodes ref_lib ref_used ref_range (fsstate (srv \<lparr>srv = ex_new_nfs\<rparr>))" using ex_new_at ex_new_free by simp_all
  from lookup_counts_rounds [OF ref_gojournal at(1) fh l at(2) ref_commits, of 0 2] show ?thesis by auto
qed

end
