(* ===== verification/Spec2Isabelle.thy ===== *)
theory Spec2Isabelle
  imports Cache Kvs SimpleServer Formats DcacheSpec CreateSpec ReaddirSpec AbortSpec Replies Servers BenchSpec
begin

text \<open>
  A verification development of go-nfsd, an NFS version 3 server over the journal of go-journal.

  \<^bold>\<open>The program.\<close> \<^verbatim>\<open>cmd/go-nfsd\<close> makes a server on a disk (\<^verbatim>\<open>nfs.MakeNfs\<close>) and registers its procedures with an RPC
  server. A request is decoded by the generated code of \<^verbatim>\<open>nfstypes\<close>, runs one procedure of \<^verbatim>\<open>nfs/nfs_ops.go\<close>, and the
  reply is encoded. A procedure is one or more transactions of \<^verbatim>\<open>fstxn\<close>: it locks inodes (\<^verbatim>\<open>nfs/lorder.go\<close>, \<^verbatim>\<open>fstxn\<close>), which
  are kept in a cache (\<^verbatim>\<open>cache\<close>), works on files (\<^verbatim>\<open>inode\<close>) and directories (\<^verbatim>\<open>dir\<close>, \<^verbatim>\<open>dcache\<close>), allocates and frees blocks and
  inode numbers (\<^verbatim>\<open>alloctxn\<close>), and commits to the journal or aborts. Freeing the blocks of a large file is left to
  background shrinkers (\<^verbatim>\<open>shrinker\<close>). \<^verbatim>\<open>super\<close> and \<^verbatim>\<open>fh\<close> are the disk layout and the file handles. \<^verbatim>\<open>simple\<close> is a second, small server with
  a fixed set of files of one block, \<^verbatim>\<open>kvs\<close> a key-value store on the journal, \<^verbatim>\<open>util\<close> has counters and a disk that counts.

  \<^bold>\<open>Shared theories.\<close> \<open>Prelude\<close>: machine words, the faults a Go function can end in (panic, self-deadlock, out of
  fuel), sequencing (\<open>bnd\<close>), slices. \<open>GoLib\<close>: what the server uses of go-journal and of the disk, as the record
  \<open>golib\<close> of operations over abstract types for the log, a transaction, an allocator, a lock map and a disk; what is
  assumed of them is the locale \<open>gojournal\<close> (and smaller ones for the marshalling functions). \<open>GoLibRef\<close>: a reference
  instance, with the interpretations that show the assumptions can hold; the witnesses use it. \<open>Wp\<close>: rules for
  properties of results (\<open>ret\<close>), used for statements about every path of a procedure.

  \<^bold>\<open>Models, one theory per component.\<close>
  \<^item> \<open>NfsTypes\<close> (\<^verbatim>\<open>nfstypes/nfs_types.go\<close>): a record per struct, \<open>zero_S\<close> its zero value.
  \<^item> \<open>Xdr\<close>, \<open>Rpc\<close> (\<^verbatim>\<open>nfstypes/nfs_xdr.go\<close>): \<open>Xdr_T\<close> is the method \<^verbatim>\<open>Xdr\<close> of the type \<open>T\<close>, built from combinators for the
    statements of the generated code; \<open>wrap_P\<close> the wrapper of the procedure \<open>P\<close>; the tables of registrations. The
    primitives of the package \<^verbatim>\<open>xdr\<close> are the record \<open>xdrlib\<close>, their contract the locale \<open>xdr_codec\<close>.
  \<^item> \<open>Super\<close>, \<open>Fh\<close>, \<open>Cache\<close>, \<open>Dcache\<close>, \<open>AllocTxn\<close> (\<^verbatim>\<open>super\<close>, \<^verbatim>\<open>fh\<close>, \<^verbatim>\<open>cache\<close>, \<^verbatim>\<open>dcache\<close>, \<^verbatim>\<open>alloctxn\<close>).
  \<^item> \<open>Inode\<close> (\<^verbatim>\<open>inode/inode.go\<close>, \<^verbatim>\<open>inode/shrink.go\<close>): the inode and its codec, the block map with its indirect blocks, \<^verbatim>\<open>Read\<close>,
    \<^verbatim>\<open>Write\<close>, \<^verbatim>\<open>Resize\<close>, \<^verbatim>\<open>Shrink\<close>.
  \<^item> \<open>FsTxn\<close> (\<^verbatim>\<open>fstxn\<close>): file-system transactions. The inodes of the cache are objects in a store (\<open>iobj\<close>) that a
    reference (\<open>iref\<close>) stands for, so that two pointers to one inode see the same state.
  \<^item> \<open>Dir\<close> (\<^verbatim>\<open>dir\<close>), \<open>Shrinker\<close> (\<^verbatim>\<open>shrinker\<close>), \<open>Nfs\<close> (\<^verbatim>\<open>nfs/nfs.go\<close>, \<^verbatim>\<open>lorder.go\<close>, \<^verbatim>\<open>nfs_ls.go\<close>, \<^verbatim>\<open>mount.go\<close>), \<open>NfsOps\<close> (\<^verbatim>\<open>nfs/nfs_ops.go\<close>, every
    procedure), \<open>Nfsd\<close> (the part of \<^verbatim>\<open>cmd/go-nfsd/main.go\<close> that sets up the server), \<open>Clnt\<close> (\<^verbatim>\<open>nfs/nfs_clnt.go\<close>).
  \<^item> \<open>Servers\<close> (\<^verbatim>\<open>cmd/go-nfsd/main.go\<close>, \<^verbatim>\<open>cmd/simple-nfsd\<close>): the two server programs from their flags to their end. The answers of the
    operating system and of the port mapper are an argument (\<open>mainenv\<close>), what happens while they serve (connections, signals, requests) is a list of
    events, and a program returns its outcome and the trace of what it asked for.
  \<^item> \<open>Bench\<close> (\<^verbatim>\<open>Parallel\<close> of \<^verbatim>\<open>nfs/nfs_clnt.go\<close>, \<^verbatim>\<open>cmd/smallfile\<close>, \<^verbatim>\<open>cmd/lookup\<close>, \<^verbatim>\<open>cmd/largefile\<close>): programs on the client as trees of operations
    (\<open>prog\<close>), with the interleaving of the goroutines and the readings of the clock as arguments.
  \<^item> \<open>Simple\<close> (\<^verbatim>\<open>simple\<close>), \<open>Kvs\<close> (\<^verbatim>\<open>kvs\<close>), \<open>Stats\<close> (\<^verbatim>\<open>util\<close>, \<^verbatim>\<open>nfs/stats.go\<close>).

  \<^bold>\<open>What is proved.\<close>
  \<^item> \<open>AllocTxn\<close>: an abort gives back what a transaction allocated; a commit keeps the bitmaps on disk and the
    allocators in agreement.
  \<^item> \<open>BlockMap\<close>, \<open>FileMap\<close>, \<open>FileData\<close>, \<open>FileOps\<close>: the block map of an inode is a function from block indexes to
    blocks (\<open>fwalk\<close>) with no block used twice, and the contents of the file a function of it (\<open>contents\<close>); \<^verbatim>\<open>Read\<close> and
    \<^verbatim>\<open>Write\<close> read and update exactly the requested range and no other file.
  \<^item> \<open>Formats\<close>: round trips of inodes and file handles, disjoint addresses of inodes.
  \<^item> \<open>FsTxnSpec\<close>: a transaction as a step relation (\<open>txn_run\<close>) over every operation it can do; the locks held are those of the
    inodes it owns, and are released at its end; an abort undoes it; a commit that succeeds keeps bitmaps and allocators in agreement, a failed one
    does not.
  \<^item> \<open>LockOrder\<close>: what \<^verbatim>\<open>lockInodes\<close> locks and in which order. \<open>DirSpec\<close>: a directory is a map from names to entries, on disk and in
    its name cache (\<open>dir_is\<close>); adding, removing, looking up and initialising refine it. \<open>DcacheSpec\<close>: the pass over a directory that builds its name
    cache, after which a lookup in the cache is a scan of the disk.
  \<^item> \<open>ShrinkSpec\<close>: shrinking frees exactly the blocks behind the end of the file, in as many transactions as needed.
  \<^item> \<open>TxnRun\<close>, \<open>NfsSpec\<close>: every path of every procedure is a sequence of aborted attempts and shrinks followed by one
    transaction that is committed or aborted as the reply says (\<open>outcome\<close>); so no lock is left behind, success means committed, and an error has no
    effect on disk, except that an unfinished truncation that the call came upon has been completed (\<open>unfinished\<close>).
  \<^item> \<open>FileServe\<close>, \<open>RenameSpec\<close>, \<open>LookupSpec\<close>, \<open>RemoveSpec\<close>, \<open>CreateSpec\<close>, \<open>ReaddirSpec\<close>: \<^verbatim>\<open>READ\<close>, \<^verbatim>\<open>WRITE\<close>, \<^verbatim>\<open>RENAME\<close>, \<^verbatim>\<open>LOOKUP\<close>, \<^verbatim>\<open>REMOVE\<close>, \<^verbatim>\<open>CREATE\<close> and
    \<^verbatim>\<open>READDIR\<close> of the server on well-formed files (\<open>file_at\<close>) and directories (\<open>dir_at\<close>), across the transactions of successive calls; a listing in pages
    ends and is complete, unless the pages are too small. \<open>AbortSpec\<close>: what an abort does not undo. \<open>BenchSpec\<close>: the benchmark programs, whose
    operations are all of these in a row on one directory and one file (\<open>dir_file_at\<close>), and every interleaving of goroutines.
  \<^item> \<open>XdrSpec\<close>, \<open>XdrCodecs\<close>, \<open>XdrRef\<close>, \<open>RpcSpec\<close>, \<open>Nfsd\<close>: every codec decodes what it encodes and refuses an input that
    is cut short; a call over the wire is the call of the procedure; a server that gets arbitrary requests stays
    idle between them.
  \<^item> \<open>Replies\<close>: in every state, well formed or not, the replies are values of the protocol; a handle that is too short is a panic. \<open>Servers\<close>:
    whatever the environment does, a server that ends has unset the port mappings it had set, and an interrupt ends it once the listener is closed.
  \<^item> \<open>SimpleSpec\<close>, \<open>Refine\<close>, \<open>SimpleServer\<close>: the simple server refines a map from numbers to files of at most one block, call by call: the
    arguments and the reply of a call determine its effect on the files (\<open>spec_step\<close>).
  \<^item> \<open>Cache\<close>: the cache refines a bounded least-recently-used map. \<open>Kvs\<close>: \<^verbatim>\<open>Get\<close> returns what \<^verbatim>\<open>MultiPut\<close> put. \<open>Stats\<close>: the
    timed disk is the disk below it.

  \<^bold>\<open>Bounds.\<close> The loops of \<^verbatim>\<open>Read\<close> and \<^verbatim>\<open>Write\<close> have fuel one more than the number of bytes, which is enough since each round
  moves at least one byte; the loops over a directory one more than its entries; the loop of \<^verbatim>\<open>Shrink\<close> as many rounds as
  \<^verbatim>\<open>ShrinkSize\<close>. Theorems about these say that they return. \<^verbatim>\<open>DoShrink\<close> and the procedures that start again when an inode
  is being shrunk or the directory changed take the fuel as an argument; for \<^verbatim>\<open>DoShrink\<close> as many transactions as there are blocks to cut off, and at
  least one, are shown to be enough, and \<^verbatim>\<open>READ\<close>, \<^verbatim>\<open>WRITE\<close>, \<^verbatim>\<open>RENAME\<close>, \<^verbatim>\<open>LOOKUP\<close>, \<^verbatim>\<open>REMOVE\<close> and \<^verbatim>\<open>CREATE\<close> return in the first round on the states their theorems
  are about. The methods \<^verbatim>\<open>Xdr\<close> of
  chained types take the depth of their recursion as an argument, and the length of the chain is enough.
  The block map reaches 262664 blocks, 1075871744 bytes; \<^verbatim>\<open>MaxFileSize\<close> is 1073774592.

  \<^bold>\<open>Not modelled.\<close> Concurrency inside a call: calls run one at a time, and locking an inode that the same
  transaction holds is a deadlock. Crashes and recovery inside the journal, which is a parameter; its operations are total, so that addresses outside the
  disk and buffers of the wrong length, on which the real ones panic, are not distinguished. Running out of memory: an allocation fails only above the limit of the
  run-time of Go on amd64 (\<open>make_bytes\<close>). The text of messages, statistics and tables, and the time that an
  operation took. Of \<^verbatim>\<open>cmd\<close>: \<^verbatim>\<open>clnt-null\<close> and \<^verbatim>\<open>clnt-smallfile\<close>, which measure a third-party RPC client, \<^verbatim>\<open>fs-smallfile\<close> and \<^verbatim>\<open>fs-largefile\<close>, which measure
  system calls on a mounted file system, and \<^verbatim>\<open>txn-bench\<close>, which measures a package of go-journal that the server does not use.
\<close>

end
